theory Spec2Isabelle
  imports Main "HOL-Library.Word" "HOL-Library.List_Lexorder" "HOL-Library.Char_ord" "HOL-Library.Multiset"
begin

section \<open>The JSON wire form\<close>

text \<open>
  The generated codec of the repository (\<^verbatim>\<open>sarif.go\<close>) reads and writes JSON through
  Go's \<^verbatim>\<open>encoding/json\<close>. The embedding works on parsed JSON values: an object is the
  list of its members in document order (a repeated key is possible on the wire), a number
  is its literal. White space and string escapes of the text are not part of the embedding;
  strings are sequences of bytes that are taken to be valid UTF-8.
\<close>

datatype number =
    NInt int          \<comment> \<open>a literal in integer syntax, e.g. \<^verbatim>\<open>42\<close>\<close>
  | NDec int int      \<comment> \<open>a literal with a fraction or an exponent: mantissa and decimal exponent\<close>

datatype json =
    JNull
  | JBool bool
  | JNum number
  | JStr string
  | JArr "json list"
  | JObj "(string \<times> json) list"

text \<open>
  The errors the code returns. The first three are built by the generated code itself.
  \<open>Errorf format\<close> is the error of a call \<^verbatim>\<open>fmt.Errorf(format)\<close> without operands, kept
  with its format string: when the format has no percent sign the message of the error is
  the format itself, and otherwise \<^verbatim>\<open>fmt\<close> formats the verbs in it without operands
  (\<^verbatim>\<open>%d\<close> gives \<^verbatim>\<open>%!d(MISSING)\<close>), which the embedding does not spell out.
  \<open>RequiredNotPresent f\<close> is \<^verbatim>\<open>errors.New("\"f\" is required but was not present")\<close>
  and \<open>RequiredField f\<close> is \<^verbatim>\<open>errors.New("f is a required field")\<close>, for the constant
  \<open>f\<close> the code has there. The others are the errors of \<^verbatim>\<open>encoding/json\<close>: a JSON value
  that does not fit the Go type, a value that JSON cannot express, bytes that are not
  JSON, and the wrapper \<^verbatim>\<open>json.Marshal\<close> puts around an error that comes from a
  \<^verbatim>\<open>MarshalJSON\<close> method (with the Go type of the value).
\<close>

datatype error =
    Errorf string
  | RequiredNotPresent string
  | RequiredField string
  | UnmarshalTypeError
  | UnsupportedValueError
  | SyntaxError
  | MarshalerError string error

subsection \<open>Go values\<close>

text \<open>
  Go's \<^verbatim>\<open>int\<close> is a 64-bit signed integer. A \<^verbatim>\<open>float64\<close> is either finite, and then
  represented by a JSON number that denotes it (the rounding of a literal to the nearest
  double is not modelled, so that two literals can stand for the same double), or one of
  the values JSON has no literal for. A literal stands for a finite \<^verbatim>\<open>float64\<close> only when
  it does not overflow: \<^verbatim>\<open>strconv.ParseFloat\<close> reports a range error for a number that
  rounds to an infinity, that is, from \<open>2 ^ 1024 - 2 ^ 970\<close> on.
  A pointer is an \<open>option\<close> (\<open>None\<close> is \<^verbatim>\<open>nil\<close>), a slice an optional list (\<^verbatim>\<open>nil\<close> and the
  empty slice are encoded differently), a \<^verbatim>\<open>map[string]T\<close> an optional association list
  kept sorted by key, which is the order \<^verbatim>\<open>json.Marshal\<close> writes a map in.
\<close>

type_synonym go_int = "64 word"

datatype float64 = Finite number | NaN | PosInf | NegInf

definition float64_limit :: int where
  "float64_limit = 2 ^ 1024 - 2 ^ 970"

fun overflows :: "number \<Rightarrow> bool" where
  "overflows (NInt n) \<longleftrightarrow> float64_limit \<le> \<bar>n\<bar>"
| "overflows (NDec m e) \<longleftrightarrow>
     (if 0 \<le> e then float64_limit \<le> \<bar>m\<bar> * 10 ^ nat e
      else float64_limit * 10 ^ nat (- e) \<le> \<bar>m\<bar>)"

type_synonym 'a go_map = "(string \<times> 'a) list option"

text \<open>
  The values of type \<^verbatim>\<open>interface{}\<close>: \<^verbatim>\<open>nil\<close>, values of the types \<^verbatim>\<open>bool\<close>,
  \<^verbatim>\<open>float64\<close>, \<^verbatim>\<open>int\<close>, \<^verbatim>\<open>string\<close>, \<^verbatim>\<open>[]interface{}\<close> and \<^verbatim>\<open>map[string]interface{}\<close>
  (both not \<^verbatim>\<open>nil\<close>; the map is kept sorted by key), and values of any other type. The
  code hands a value of another type to \<^verbatim>\<open>json.Marshal\<close> and does nothing else with it,
  so it is given by the result of that call: the JSON written, or the error (for a
  channel or a function, say). \<^verbatim>\<open>json.Unmarshal\<close> produces \<^verbatim>\<open>nil\<close> and values of the
  types listed, but for \<^verbatim>\<open>int\<close>.
\<close>

datatype any =
    AnyNil
  | AnyBool bool
  | AnyFloat64 float64
  | AnyInt go_int
  | AnyString string
  | AnySlice "any list"
  | AnyMap "(string \<times> any) list"
  | AnyOther "error + json"

text \<open>
  Go leaves the order in which \<^verbatim>\<open>range\<close> enumerates a map unspecified. A run of the
  program is given a priority list of keys: a map is enumerated by the position of its keys
  in that list (keys that are not in the list come last, in key order). Every enumeration
  of a map is obtained from some priority list.
\<close>

type_synonym order = "string list"

text \<open>
  The embedding works on parsed JSON and does not parse bytes. \<^verbatim>\<open>PropertyBag.MarshalJSON\<close>
  writes the key of an additional property between two quotes as it is, with
  \<^verbatim>\<open>fmt.Sprintf("\"%s\":", k)\<close>. For a key without quote, backslash and control character
  these bytes are the JSON string of the key. For any other key, what the bytes of the bag
  are as JSON (another object, or no JSON at all) is decided by the scanner of
  \<^verbatim>\<open>encoding/json\<close>; it is a function of the members written, and it is a parameter of
  the embedding: \<open>None\<close> for bytes that are not JSON.
\<close>

type_synonym scanner = "(string \<times> json) list \<Rightarrow> json option"

definition plain_key :: "string \<Rightarrow> bool" where
  "plain_key k \<longleftrightarrow> list_all (\<lambda>c. c \<noteq> CHR 0x22 \<and> c \<noteq> CHR 0x5C \<and> 32 \<le> (of_char c :: nat)) k"

definition bytes_as_json :: "scanner \<Rightarrow> (string \<times> json) list \<Rightarrow> json option" where
  "bytes_as_json scn buf =
     (if list_all (\<lambda>e. plain_key (fst e)) buf then Some (JObj buf) else scn buf)"

fun rank :: "order \<Rightarrow> string \<Rightarrow> nat" where
  "rank [] k = 0"
| "rank (p # ps) k = (if p = k then 0 else Suc (rank ps k))"

definition range_map :: "order \<Rightarrow> (string \<times> 'a) list \<Rightarrow> (string \<times> 'a) list" where
  "range_map ord m = sort_key (\<lambda>e. rank ord (fst e)) m"

text \<open>Storing under a key in a map: \<^verbatim>\<open>m[k] = v\<close>.\<close>

fun map_store :: "string \<Rightarrow> 'a \<Rightarrow> (string \<times> 'a) list \<Rightarrow> (string \<times> 'a) list" where
  "map_store k v [] = [(k, v)]"
| "map_store k v ((k', v') # m) =
     (if k < k' then (k, v) # (k', v') # m
      else if k = k' then (k, v) # m
      else (k', v') # map_store k v m)"

text \<open>
  The members of a JSON object as a Go map: a later member replaces an earlier one with
  the same key.
\<close>

fun object_map :: "(string \<times> 'a) list \<Rightarrow> (string \<times> 'a) list \<Rightarrow> (string \<times> 'a) list" where
  "object_map [] m = m"
| "object_map ((k, v) # kvs) m = object_map kvs (map_store k v m)"

text \<open>A sequence of fallible steps stops at the first error.\<close>

fun traverse :: "('a \<Rightarrow> error + 'b) \<Rightarrow> 'a list \<Rightarrow> error + 'b list" where
  "traverse f [] = Inr []"
| "traverse f (x # xs) =
     (case f x of
        Inl err \<Rightarrow> Inl err
      | Inr y \<Rightarrow> (case traverse f xs of Inl err \<Rightarrow> Inl err | Inr ys \<Rightarrow> Inr (y # ys)))"

lemma traverse_agree:
  "(\<And>x. x \<in> set xs \<Longrightarrow> f x = g x) \<Longrightarrow> traverse f xs = traverse g xs"
  by (induction xs) (auto split: sum.splits)

lemma traverse_cong [fundef_cong]:
  "xs = ys \<Longrightarrow> (\<And>x. x \<in> set ys \<Longrightarrow> f x = g x) \<Longrightarrow> traverse f xs = traverse g ys"
  using traverse_agree [of ys f g] by simp

lemma size_entry:
  "(k, x) \<in> set kvs \<Longrightarrow> size x < Suc (size_list (size_prod (\<lambda>k. 0) size) kvs)"
  by (induction kvs) auto

subsection \<open>\<^verbatim>\<open>json.Unmarshal\<close> into a fresh variable\<close>

text \<open>
  What \<^verbatim>\<open>json.Unmarshal(v, &x)\<close> stores in a variable \<open>x\<close> that holds the zero value of
  its type. JSON \<^verbatim>\<open>null\<close> sets a pointer, a slice or a map to \<^verbatim>\<open>nil\<close> and leaves any other
  variable as it is. For a pointer to a type with an \<^verbatim>\<open>UnmarshalJSON\<close> method, any other
  value is handed to that method on a new value of the type.
\<close>

definition json_Unmarshal_string :: "json \<Rightarrow> error + string" where
  "json_Unmarshal_string v =
     (case v of JStr s \<Rightarrow> Inr s | JNull \<Rightarrow> Inr [] | _ \<Rightarrow> Inl UnmarshalTypeError)"

definition json_Unmarshal_bool :: "json \<Rightarrow> error + bool" where
  "json_Unmarshal_bool v =
     (case v of JBool b \<Rightarrow> Inr b | JNull \<Rightarrow> Inr False | _ \<Rightarrow> Inl UnmarshalTypeError)"

definition json_Unmarshal_int :: "json \<Rightarrow> error + go_int" where
  "json_Unmarshal_int v =
     (case v of
        JNum (NInt n) \<Rightarrow>
          if - (2 ^ 63) \<le> n \<and> n < 2 ^ 63 then Inr (word_of_int n) else Inl UnmarshalTypeError
      | JNull \<Rightarrow> Inr 0
      | _ \<Rightarrow> Inl UnmarshalTypeError)"

definition json_Unmarshal_float64 :: "json \<Rightarrow> error + float64" where
  "json_Unmarshal_float64 v =
     (case v of
        JNum n \<Rightarrow> if overflows n then Inl UnmarshalTypeError else Inr (Finite n)
      | JNull \<Rightarrow> Inr (Finite (NInt 0))
      | _ \<Rightarrow> Inl UnmarshalTypeError)"

text \<open>
  Into an \<^verbatim>\<open>interface{}\<close>: a number becomes a \<^verbatim>\<open>float64\<close> (an error when it overflows),
  an array a \<^verbatim>\<open>[]interface{}\<close>, an object a \<^verbatim>\<open>map[string]interface{}\<close>, in which a later
  member replaces an earlier one with the same key.
\<close>

function json_Unmarshal_interface :: "json \<Rightarrow> error + any" where
  "json_Unmarshal_interface JNull = Inr AnyNil"
| "json_Unmarshal_interface (JBool b) = Inr (AnyBool b)"
| "json_Unmarshal_interface (JNum n) =
     (if overflows n then Inl UnmarshalTypeError else Inr (AnyFloat64 (Finite n)))"
| "json_Unmarshal_interface (JStr s) = Inr (AnyString s)"
| "json_Unmarshal_interface (JArr vs) =
     (case traverse json_Unmarshal_interface vs of
        Inl err \<Rightarrow> Inl err
      | Inr xs \<Rightarrow> Inr (AnySlice xs))"
| "json_Unmarshal_interface (JObj kvs) =
     (case traverse (\<lambda>(k, x). case json_Unmarshal_interface x of Inl err \<Rightarrow> Inl err | Inr y \<Rightarrow> Inr (k, y)) kvs of
        Inl err \<Rightarrow> Inl err
      | Inr m \<Rightarrow> Inr (AnyMap (object_map m [])))"
  by pat_completeness auto
termination json_Unmarshal_interface
  by (relation "measure size") (auto dest: size_entry simp: less_Suc_eq_le size_list_estimation')

definition json_Unmarshal_ptr :: "(json \<Rightarrow> error + 'a) \<Rightarrow> json \<Rightarrow> error + 'a option" where
  "json_Unmarshal_ptr UnmarshalJSON v =
     (case v of
        JNull \<Rightarrow> Inr None
      | _ \<Rightarrow> (case UnmarshalJSON v of Inl err \<Rightarrow> Inl err | Inr x \<Rightarrow> Inr (Some x)))"

definition json_Unmarshal_slice :: "(json \<Rightarrow> error + 'a) \<Rightarrow> json \<Rightarrow> error + 'a list option" where
  "json_Unmarshal_slice elem v =
     (case v of
        JNull \<Rightarrow> Inr None
      | JArr vs \<Rightarrow> (case traverse elem vs of Inl err \<Rightarrow> Inl err | Inr xs \<Rightarrow> Inr (Some xs))
      | _ \<Rightarrow> Inl UnmarshalTypeError)"

definition json_Unmarshal_map :: "(json \<Rightarrow> error + 'a) \<Rightarrow> json \<Rightarrow> error + 'a go_map" where
  "json_Unmarshal_map elem v =
     (case v of
        JNull \<Rightarrow> Inr None
      | JObj kvs \<Rightarrow>
          (case traverse (\<lambda>(k, x). case elem x of Inl err \<Rightarrow> Inl err | Inr y \<Rightarrow> Inr (k, y)) kvs of
             Inl err \<Rightarrow> Inl err
           | Inr m \<Rightarrow> Inr (Some (object_map m [])))
      | _ \<Rightarrow> Inl UnmarshalTypeError)"

text \<open>
  The first statement of every \<^verbatim>\<open>UnmarshalJSON\<close>:
  \<^verbatim>\<open>var jsonMap map[string]json.RawMessage; json.Unmarshal(b, &jsonMap)\<close>.
  On \<^verbatim>\<open>null\<close> the map stays \<^verbatim>\<open>nil\<close> and the loop over it does nothing.
\<close>

definition json_Unmarshal_RawMessages :: "json \<Rightarrow> error + (string \<times> json) list" where
  "json_Unmarshal_RawMessages b =
     (case b of
        JObj kvs \<Rightarrow> Inr (object_map kvs [])
      | JNull \<Rightarrow> Inr []
      | _ \<Rightarrow> Inl UnmarshalTypeError)"

subsection \<open>\<^verbatim>\<open>json.Marshal\<close>\<close>

definition json_Marshal_string :: "string \<Rightarrow> error + json" where
  "json_Marshal_string s = Inr (JStr s)"

definition json_Marshal_bool :: "bool \<Rightarrow> error + json" where
  "json_Marshal_bool b = Inr (JBool b)"

definition json_Marshal_int :: "go_int \<Rightarrow> error + json" where
  "json_Marshal_int n = Inr (JNum (NInt (sint n)))"

definition json_Marshal_float64 :: "float64 \<Rightarrow> error + json" where
  "json_Marshal_float64 x = (case x of Finite n \<Rightarrow> Inr (JNum n) | _ \<Rightarrow> Inl UnsupportedValueError)"

text \<open>
  Of an \<^verbatim>\<open>interface{}\<close>, by the type of the value it holds; the keys of a map are written
  in order.
\<close>

function json_Marshal_interface :: "any \<Rightarrow> error + json" where
  "json_Marshal_interface AnyNil = Inr JNull"
| "json_Marshal_interface (AnyBool b) = json_Marshal_bool b"
| "json_Marshal_interface (AnyFloat64 x) = json_Marshal_float64 x"
| "json_Marshal_interface (AnyInt n) = json_Marshal_int n"
| "json_Marshal_interface (AnyString s) = json_Marshal_string s"
| "json_Marshal_interface (AnySlice xs) =
     (case traverse json_Marshal_interface xs of
        Inl err \<Rightarrow> Inl err
      | Inr vs \<Rightarrow> Inr (JArr vs))"
| "json_Marshal_interface (AnyMap kvs) =
     (case traverse (\<lambda>(k, x). case json_Marshal_interface x of Inl err \<Rightarrow> Inl err | Inr y \<Rightarrow> Inr (k, y))
             (sort_key fst kvs) of
        Inl err \<Rightarrow> Inl err
      | Inr vs \<Rightarrow> Inr (JObj vs))"
| "json_Marshal_interface (AnyOther r) = r"
  by pat_completeness auto
termination json_Marshal_interface
  by (relation "measure size") (auto dest: size_entry simp: less_Suc_eq_le size_list_estimation')

text \<open>
  Of a pointer to a type with a \<^verbatim>\<open>MarshalJSON\<close> method: \<^verbatim>\<open>null\<close> for \<^verbatim>\<open>nil\<close>, and
  otherwise what the method returns. \<^verbatim>\<open>json.Marshal\<close> checks that the bytes it gets from
  the method are JSON. The methods of all entities but \<^verbatim>\<open>PropertyBag\<close> return the bytes
  of a JSON object, if they return; for them the check is not written out
  (\<open>json_Marshal_ptr\<close>). \<^verbatim>\<open>PropertyBag.MarshalJSON\<close> can return other bytes (\<open>None\<close>), and
  \<open>json_Marshal_bytes\<close> has the check.
\<close>

definition json_Marshal_ptr :: "string \<Rightarrow> ('a \<Rightarrow> error + json) \<Rightarrow> 'a option \<Rightarrow> error + json" where
  "json_Marshal_ptr go_type MarshalJSON p =
     (case p of
        None \<Rightarrow> Inr JNull
      | Some x \<Rightarrow>
          (case MarshalJSON x of Inl err \<Rightarrow> Inl (MarshalerError go_type err) | Inr tmp \<Rightarrow> Inr tmp))"

definition json_Marshal_bytes :: "string \<Rightarrow> ('a \<Rightarrow> error + json option) \<Rightarrow> 'a option \<Rightarrow> error + json" where
  "json_Marshal_bytes go_type MarshalJSON p =
     (case p of
        None \<Rightarrow> Inr JNull
      | Some x \<Rightarrow>
          (case MarshalJSON x of
             Inl err \<Rightarrow> Inl (MarshalerError go_type err)
           | Inr None \<Rightarrow> Inl (MarshalerError go_type SyntaxError)
           | Inr (Some tmp) \<Rightarrow> Inr tmp))"

definition json_Marshal_slice :: "('a \<Rightarrow> error + json) \<Rightarrow> 'a list option \<Rightarrow> error + json" where
  "json_Marshal_slice elem s =
     (case s of
        None \<Rightarrow> Inr JNull
      | Some xs \<Rightarrow> (case traverse elem xs of Inl err \<Rightarrow> Inl err | Inr vs \<Rightarrow> Inr (JArr vs)))"

definition json_Marshal_map :: "('a \<Rightarrow> error + json) \<Rightarrow> 'a go_map \<Rightarrow> error + json" where
  "json_Marshal_map elem m =
     (case m of
        None \<Rightarrow> Inr JNull
      | Some kvs \<Rightarrow>
          (case traverse (\<lambda>(k, x). case elem x of Inl err \<Rightarrow> Inl err | Inr y \<Rightarrow> Inr (k, y))
                  (sort_key fst kvs) of
             Inl err \<Rightarrow> Inl err
           | Inr vs \<Rightarrow> Inr (JObj vs)))"

subsection \<open>The shape of the generated methods\<close>

text \<open>
  \<^verbatim>\<open>MarshalJSON\<close> writes the members one after the other into a buffer and returns at
  the first error: \<open>emit k tmp rest\<close> is the member \<open>k\<close> with the value \<open>tmp\<close> that
  \<^verbatim>\<open>json.Marshal\<close> returned, followed by what the rest of the method writes.
\<close>

definition emit :: "string \<Rightarrow> error + json \<Rightarrow> error + (string \<times> json) list \<Rightarrow> error + (string \<times> json) list" where
  "emit k tmp rest =
     (case tmp of
        Inl err \<Rightarrow> Inl err
      | Inr v \<Rightarrow> (case rest of Inl err \<Rightarrow> Inl err | Inr buf \<Rightarrow> Inr ((k, v) # buf)))"

definition object :: "error + (string \<times> json) list \<Rightarrow> error + json" where
  "object buf = (case buf of Inl err \<Rightarrow> Inl err | Inr kvs \<Rightarrow> Inr (JObj kvs))"

text \<open>
  \<^verbatim>\<open>UnmarshalJSON\<close> runs \<^verbatim>\<open>for k, v := range jsonMap { switch k { ... } }\<close> and returns
  at the first error. \<open>into r store s\<close> is one case of the switch:
  \<^verbatim>\<open>json.Unmarshal([]byte(v), &strct.F)\<close> has the result \<open>r\<close>, and on success the state
  \<open>s\<close> of the method (the receiver and the \<^verbatim>\<open>Received\<close> flags) is updated by \<open>store\<close>.
\<close>

definition into :: "error + 'a \<Rightarrow> ('a \<Rightarrow> 's \<Rightarrow> 's) \<Rightarrow> 's \<Rightarrow> error + 's" where
  "into r store s = (case r of Inl err \<Rightarrow> Inl err | Inr x \<Rightarrow> Inr (store x s))"

fun range_loop :: "(string \<Rightarrow> json \<Rightarrow> 's \<Rightarrow> error + 's) \<Rightarrow> (string \<times> json) list \<Rightarrow> 's \<Rightarrow> error + 's" where
  "range_loop body [] s = Inr s"
| "range_loop body ((k, v) # kvs) s =
     (case body k v s of Inl err \<Rightarrow> Inl err | Inr s' \<Rightarrow> range_loop body kvs s')"

text \<open>
  A \<^verbatim>\<open>switch k\<close> over string constants: the first case whose constant is \<open>k\<close> runs,
  the default otherwise. The default of every entity but \<^verbatim>\<open>PropertyBag\<close> is
  \<^verbatim>\<open>return fmt.Errorf("additional property not allowed: \"" + k + "\"")\<close>: the key is
  part of the format string.
\<close>

type_synonym 's action = "'s \<Rightarrow> error + 's"

fun switch :: "string \<Rightarrow> (string \<times> 'a) list \<Rightarrow> 'a \<Rightarrow> 'a" where
  "switch k [] dflt = dflt"
| "switch k ((c, x) # cases) dflt = (if k = c then x else switch k cases dflt)"

definition quoted :: "string \<Rightarrow> string" where
  "quoted k = CHR 0x22 # k @ [CHR 0x22]"

definition not_allowed :: "string \<Rightarrow> error" where
  "not_allowed k = Errorf (''additional property not allowed: '' @ quoted k)"

definition reject :: "string \<Rightarrow> 's action" where
  "reject k s = Inl (not_allowed k)"

subsection \<open>Recursion through the library calls\<close>

text \<open>
  \<^verbatim>\<open>Exception\<close> and \<^verbatim>\<open>Node\<close> contain values of their own type, so their methods are
  recursive. These rules tell the function package on which values a method passed to a
  library call is run: the elements of a slice and the target of a pointer on the way
  out, the parts of the JSON value on the way in.
\<close>

lemma json_Marshal_ptr_cong [fundef_cong]:
  "p = p' \<Longrightarrow> (\<And>x. p' = Some x \<Longrightarrow> f x = g x) \<Longrightarrow>
   json_Marshal_ptr t f p = json_Marshal_ptr t g p'"
  by (auto simp: json_Marshal_ptr_def split: option.splits)

lemma json_Marshal_bytes_cong [fundef_cong]:
  "p = p' \<Longrightarrow> (\<And>x. p' = Some x \<Longrightarrow> f x = g x) \<Longrightarrow>
   json_Marshal_bytes t f p = json_Marshal_bytes t g p'"
  by (auto simp: json_Marshal_bytes_def split: option.splits)

lemma json_Marshal_slice_cong [fundef_cong]:
  "s = s' \<Longrightarrow> (\<And>xs x. s' = Some xs \<Longrightarrow> x \<in> set xs \<Longrightarrow> f x = g x) \<Longrightarrow>
   json_Marshal_slice f s = json_Marshal_slice g s'"
  by (auto simp: json_Marshal_slice_def split: option.splits cong: traverse_cong)

lemma json_Unmarshal_ptr_cong [fundef_cong]:
  "v = v' \<Longrightarrow> (v' \<noteq> JNull \<Longrightarrow> f v' = g v') \<Longrightarrow>
   json_Unmarshal_ptr f v = json_Unmarshal_ptr g v'"
  by (auto simp: json_Unmarshal_ptr_def split: json.splits)

lemma json_Unmarshal_slice_cong [fundef_cong]:
  "v = v' \<Longrightarrow> (\<And>vs x. v' = JArr vs \<Longrightarrow> x \<in> set vs \<Longrightarrow> f x = g x) \<Longrightarrow>
   json_Unmarshal_slice f v = json_Unmarshal_slice g v'"
  by (auto simp: json_Unmarshal_slice_def split: json.splits cong: traverse_cong)

lemma range_loop_cong [fundef_cong]:
  "kvs = kvs' \<Longrightarrow> s = s' \<Longrightarrow> (\<And>k v t. (k, v) \<in> set kvs' \<Longrightarrow> f k v t = g k v t) \<Longrightarrow>
   range_loop f kvs s = range_loop g kvs' s'"
  by (induction kvs' arbitrary: kvs s s') (auto split: sum.splits)

lemma set_map_store: "set (map_store k v m) \<subseteq> insert (k, v) (set m)"
  by (induction m) (auto split: if_splits)

lemma set_object_map: "set (object_map kvs m) \<subseteq> set kvs \<union> set m"
proof (induction kvs arbitrary: m)
  case Nil
  show ?case by simp
next
  case (Cons e kvs)
  obtain k v where e: "e = (k, v)" by (cases e)
  from Cons [of "map_store k v m"] set_map_store [of k v m]
  show ?case unfolding e by auto
qed

lemma set_range_map [simp]: "set (range_map ord m) = set m"
  by (simp add: range_map_def)

lemma size_member: "(k, v) \<in> set kvs \<Longrightarrow> size v < size (JObj kvs)"
  by (induction kvs) auto

lemma size_element: "x \<in> set vs \<Longrightarrow> size x < size (JArr vs)"
  by (induction vs) auto

lemma size_RawMessages:
  "json_Unmarshal_RawMessages b = Inr jsonMap \<Longrightarrow> (k, v) \<in> set (range_map ord jsonMap) \<Longrightarrow>
   size v < size b"
proof (cases b)
  case (JObj kvs)
  assume "json_Unmarshal_RawMessages b = Inr jsonMap" and "(k, v) \<in> set (range_map ord jsonMap)"
  with JObj have "(k, v) \<in> set (object_map kvs [])"
    by (simp add: json_Unmarshal_RawMessages_def)
  with set_object_map [of kvs "[]"] have "(k, v) \<in> set kvs" by auto
  then have "size v < size (JObj kvs)" by (rule size_member)
  with JObj show ?thesis by simp
qed (auto simp: json_Unmarshal_RawMessages_def)

lemma size_slice_target:
  "Some x \<in> set xs \<Longrightarrow> size x < Suc (size_list (size_option size) xs)"
  by (induction xs) auto

section \<open>The entities\<close>

text \<open>
  One record per struct of \<^verbatim>\<open>sarif.go\<close>, with the fields in the order of the declaration
  and under their Go names, and the two methods of each: \<^verbatim>\<open>MarshalJSON\<close> and
  \<^verbatim>\<open>UnmarshalJSON\<close>. \<^verbatim>\<open>UnmarshalJSON\<close> is run on a receiver that holds the zero value;
  an error is returned in place of the receiver, whose partly filled fields a Go caller
  is not meant to read. A struct always comes after the structs its fields point to.
\<close>

subsection \<open>PropertyBag\<close>

record PropertyBag =
  AdditionalProperties :: "any go_map"
  Tags :: "string list option"

definition PropertyBag_zero :: "PropertyBag" where
  "PropertyBag_zero =
     \<lparr>PropertyBag.AdditionalProperties = None,
       PropertyBag.Tags = None\<rparr>"

text \<open>
  The loop \<^verbatim>\<open>for k, v := range strct.AdditionalProperties\<close> of \<^verbatim>\<open>MarshalJSON\<close>, over
  the enumeration of the map (a \<^verbatim>\<open>nil\<close> map has no entries). The method returns the
  bytes it wrote, which are a JSON object when every key is plain.
\<close>

fun PropertyBag_additional :: "(string \<times> any) list \<Rightarrow> error + (string \<times> json) list" where
  "PropertyBag_additional [] = Inr []"
| "PropertyBag_additional ((k, v) # kvs) = emit k (json_Marshal_interface v) (PropertyBag_additional kvs)"

definition entries :: "'a go_map \<Rightarrow> (string \<times> 'a) list" where
  "entries m = (case m of None \<Rightarrow> [] | Some kvs \<Rightarrow> kvs)"

definition PropertyBag_MarshalJSON :: "scanner \<Rightarrow> order \<Rightarrow> PropertyBag \<Rightarrow> error + json option" where
  "PropertyBag_MarshalJSON scn ord strct =
     (case
        emit ''tags'' (json_Marshal_slice json_Marshal_string (PropertyBag.Tags strct)) (
        PropertyBag_additional (range_map ord (entries (PropertyBag.AdditionalProperties strct))))
      of Inl err \<Rightarrow> Inl err
       | Inr buf \<Rightarrow> Inr (bytes_as_json scn buf))"

text \<open>
  The default case of \<^verbatim>\<open>UnmarshalJSON\<close> keeps the member: it makes the map when it is
  \<^verbatim>\<open>nil\<close> and stores the value under the key.
\<close>

definition PropertyBag_default :: "string \<Rightarrow> json \<Rightarrow> PropertyBag action" where
  "PropertyBag_default k v =
     into (json_Unmarshal_interface v)
       (\<lambda>additionalValue strct.
          strct\<lparr>PropertyBag.AdditionalProperties :=
            Some (map_store k additionalValue (entries (PropertyBag.AdditionalProperties strct)))\<rparr>)"

definition PropertyBag_cases :: "order \<Rightarrow> json \<Rightarrow> (string \<times> PropertyBag action) list" where
  "PropertyBag_cases ord v =
     [(''tags'', into (json_Unmarshal_slice json_Unmarshal_string v)
         (\<lambda>x strct. strct\<lparr>PropertyBag.Tags := x\<rparr>))]"

definition PropertyBag_UnmarshalJSON :: "order \<Rightarrow> json \<Rightarrow> error + PropertyBag" where
  "PropertyBag_UnmarshalJSON ord b =
     (case json_Unmarshal_RawMessages b of
        Inl err \<Rightarrow> Inl err
      | Inr jsonMap \<Rightarrow>
          (case range_loop (\<lambda>k v. switch k (PropertyBag_cases ord v) (PropertyBag_default k v))
                  (range_map ord jsonMap) PropertyBag_zero of
             Inl err \<Rightarrow> Inl err
           | Inr strct \<Rightarrow> Inr strct))"

subsection \<open>Address\<close>

record Address =
  AbsoluteAddress :: "go_int"
  FullyQualifiedName :: "string"
  Index :: "go_int"
  Kind :: "string"
  Length :: "go_int"
  Name :: "string"
  OffsetFromParent :: "go_int"
  ParentIndex :: "go_int"
  Properties :: "PropertyBag option"
  RelativeAddress :: "go_int"

definition Address_zero :: "Address" where
  "Address_zero =
     \<lparr>Address.AbsoluteAddress = 0,
       Address.FullyQualifiedName = [],
       Address.Index = 0,
       Address.Kind = [],
       Address.Length = 0,
       Address.Name = [],
       Address.OffsetFromParent = 0,
       Address.ParentIndex = 0,
       Address.Properties = None,
       Address.RelativeAddress = 0\<rparr>"

definition Address_MarshalJSON :: "scanner \<Rightarrow> order \<Rightarrow> Address \<Rightarrow> error + json" where
  "Address_MarshalJSON scn ord strct =
     object (
      emit ''absoluteAddress'' (json_Marshal_int (Address.AbsoluteAddress strct)) (
      emit ''fullyQualifiedName'' (json_Marshal_string (Address.FullyQualifiedName strct)) (
      emit ''index'' (json_Marshal_int (Address.Index strct)) (
      emit ''kind'' (json_Marshal_string (Address.Kind strct)) (
      emit ''length'' (json_Marshal_int (Address.Length strct)) (
      emit ''name'' (json_Marshal_string (Address.Name strct)) (
      emit ''offsetFromParent'' (json_Marshal_int (Address.OffsetFromParent strct)) (
      emit ''parentIndex'' (json_Marshal_int (Address.ParentIndex strct)) (
      emit ''properties'' (json_Marshal_bytes ''*sarif.PropertyBag'' (PropertyBag_MarshalJSON scn ord) (Address.Properties strct)) (
      emit ''relativeAddress'' (json_Marshal_int (Address.RelativeAddress strct)) (
      Inr [])))))))))))"

definition Address_cases :: "order \<Rightarrow> json \<Rightarrow> (string \<times> (Address) action) list" where
  "Address_cases ord v =
     [(''absoluteAddress'', into (json_Unmarshal_int v)
         (\<lambda>x strct. strct\<lparr>Address.AbsoluteAddress := x\<rparr>)),
      (''fullyQualifiedName'', into (json_Unmarshal_string v)
         (\<lambda>x strct. strct\<lparr>Address.FullyQualifiedName := x\<rparr>)),
      (''index'', into (json_Unmarshal_int v)
         (\<lambda>x strct. strct\<lparr>Address.Index := x\<rparr>)),
      (''kind'', into (json_Unmarshal_string v)
         (\<lambda>x strct. strct\<lparr>Address.Kind := x\<rparr>)),
      (''length'', into (json_Unmarshal_int v)
         (\<lambda>x strct. strct\<lparr>Address.Length := x\<rparr>)),
      (''name'', into (json_Unmarshal_string v)
         (\<lambda>x strct. strct\<lparr>Address.Name := x\<rparr>)),
      (''offsetFromParent'', into (json_Unmarshal_int v)
         (\<lambda>x strct. strct\<lparr>Address.OffsetFromParent := x\<rparr>)),
      (''parentIndex'', into (json_Unmarshal_int v)
         (\<lambda>x strct. strct\<lparr>Address.ParentIndex := x\<rparr>)),
      (''properties'', into (json_Unmarshal_ptr (PropertyBag_UnmarshalJSON ord) v)
         (\<lambda>x strct. strct\<lparr>Address.Properties := x\<rparr>)),
      (''relativeAddress'', into (json_Unmarshal_int v)
         (\<lambda>x strct. strct\<lparr>Address.RelativeAddress := x\<rparr>))]"

definition Address_UnmarshalJSON :: "order \<Rightarrow> json \<Rightarrow> error + Address" where
  "Address_UnmarshalJSON ord b =
     (case json_Unmarshal_RawMessages b of
        Inl err \<Rightarrow> Inl err
      | Inr jsonMap \<Rightarrow>
          (case range_loop (\<lambda>k v. switch k (Address_cases ord v) (reject k))
                  (range_map ord jsonMap) Address_zero of
             Inl err \<Rightarrow> Inl err
           | Inr strct \<Rightarrow>
              Inr strct))"

subsection \<open>Message\<close>

record Message =
  Arguments :: "string list option"
  Id :: "string"
  Markdown :: "string"
  Properties :: "PropertyBag option"
  Text :: "string"

definition Message_zero :: "Message" where
  "Message_zero =
     \<lparr>Message.Arguments = None,
       Message.Id = [],
       Message.Markdown = [],
       Message.Properties = None,
       Message.Text = []\<rparr>"

definition Message_MarshalJSON :: "scanner \<Rightarrow> order \<Rightarrow> Message \<Rightarrow> error + json" where
  "Message_MarshalJSON scn ord strct =
     object (
      emit ''arguments'' (json_Marshal_slice json_Marshal_string (Message.Arguments strct)) (
      emit ''id'' (json_Marshal_string (Message.Id strct)) (
      emit ''markdown'' (json_Marshal_string (Message.Markdown strct)) (
      emit ''properties'' (json_Marshal_bytes ''*sarif.PropertyBag'' (PropertyBag_MarshalJSON scn ord) (Message.Properties strct)) (
      emit ''text'' (json_Marshal_string (Message.Text strct)) (
      Inr []))))))"

definition Message_cases :: "order \<Rightarrow> json \<Rightarrow> (string \<times> (Message) action) list" where
  "Message_cases ord v =
     [(''arguments'', into (json_Unmarshal_slice json_Unmarshal_string v)
         (\<lambda>x strct. strct\<lparr>Message.Arguments := x\<rparr>)),
      (''id'', into (json_Unmarshal_string v)
         (\<lambda>x strct. strct\<lparr>Message.Id := x\<rparr>)),
      (''markdown'', into (json_Unmarshal_string v)
         (\<lambda>x strct. strct\<lparr>Message.Markdown := x\<rparr>)),
      (''properties'', into (json_Unmarshal_ptr (PropertyBag_UnmarshalJSON ord) v)
         (\<lambda>x strct. strct\<lparr>Message.Properties := x\<rparr>)),
      (''text'', into (json_Unmarshal_string v)
         (\<lambda>x strct. strct\<lparr>Message.Text := x\<rparr>))]"

definition Message_UnmarshalJSON :: "order \<Rightarrow> json \<Rightarrow> error + Message" where
  "Message_UnmarshalJSON ord b =
     (case json_Unmarshal_RawMessages b of
        Inl err \<Rightarrow> Inl err
      | Inr jsonMap \<Rightarrow>
          (case range_loop (\<lambda>k v. switch k (Message_cases ord v) (reject k))
                  (range_map ord jsonMap) Message_zero of
             Inl err \<Rightarrow> Inl err
           | Inr strct \<Rightarrow>
              Inr strct))"

subsection \<open>ArtifactLocation\<close>

record ArtifactLocation =
  Description :: "Message option"
  Index :: "go_int"
  Properties :: "PropertyBag option"
  Uri :: "string"
  UriBaseId :: "string"

definition ArtifactLocation_zero :: "ArtifactLocation" where
  "ArtifactLocation_zero =
     \<lparr>ArtifactLocation.Description = None,
       ArtifactLocation.Index = 0,
       ArtifactLocation.Properties = None,
       ArtifactLocation.Uri = [],
       ArtifactLocation.UriBaseId = []\<rparr>"

definition ArtifactLocation_MarshalJSON :: "scanner \<Rightarrow> order \<Rightarrow> ArtifactLocation \<Rightarrow> error + json" where
  "ArtifactLocation_MarshalJSON scn ord strct =
     object (
      emit ''description'' (json_Marshal_ptr ''*sarif.Message'' (Message_MarshalJSON scn ord) (ArtifactLocation.Description strct)) (
      emit ''index'' (json_Marshal_int (ArtifactLocation.Index strct)) (
      emit ''properties'' (json_Marshal_bytes ''*sarif.PropertyBag'' (PropertyBag_MarshalJSON scn ord) (ArtifactLocation.Properties strct)) (
      emit ''uri'' (json_Marshal_string (ArtifactLocation.Uri strct)) (
      emit ''uriBaseId'' (json_Marshal_string (ArtifactLocation.UriBaseId strct)) (
      Inr []))))))"

definition ArtifactLocation_cases :: "order \<Rightarrow> json \<Rightarrow> (string \<times> (ArtifactLocation) action) list" where
  "ArtifactLocation_cases ord v =
     [(''description'', into (json_Unmarshal_ptr (Message_UnmarshalJSON ord) v)
         (\<lambda>x strct. strct\<lparr>ArtifactLocation.Description := x\<rparr>)),
      (''index'', into (json_Unmarshal_int v)
         (\<lambda>x strct. strct\<lparr>ArtifactLocation.Index := x\<rparr>)),
      (''properties'', into (json_Unmarshal_ptr (PropertyBag_UnmarshalJSON ord) v)
         (\<lambda>x strct. strct\<lparr>ArtifactLocation.Properties := x\<rparr>)),
      (''uri'', into (json_Unmarshal_string v)
         (\<lambda>x strct. strct\<lparr>ArtifactLocation.Uri := x\<rparr>)),
      (''uriBaseId'', into (json_Unmarshal_string v)
         (\<lambda>x strct. strct\<lparr>ArtifactLocation.UriBaseId := x\<rparr>))]"

definition ArtifactLocation_UnmarshalJSON :: "order \<Rightarrow> json \<Rightarrow> error + ArtifactLocation" where
  "ArtifactLocation_UnmarshalJSON ord b =
     (case json_Unmarshal_RawMessages b of
        Inl err \<Rightarrow> Inl err
      | Inr jsonMap \<Rightarrow>
          (case range_loop (\<lambda>k v. switch k (ArtifactLocation_cases ord v) (reject k))
                  (range_map ord jsonMap) ArtifactLocation_zero of
             Inl err \<Rightarrow> Inl err
           | Inr strct \<Rightarrow>
              Inr strct))"

subsection \<open>MultiformatMessageString\<close>

record MultiformatMessageString =
  Markdown :: "string"
  Properties :: "PropertyBag option"
  Text :: "string"

definition MultiformatMessageString_zero :: "MultiformatMessageString" where
  "MultiformatMessageString_zero =
     \<lparr>MultiformatMessageString.Markdown = [],
       MultiformatMessageString.Properties = None,
       MultiformatMessageString.Text = []\<rparr>"

definition MultiformatMessageString_MarshalJSON :: "scanner \<Rightarrow> order \<Rightarrow> MultiformatMessageString \<Rightarrow> error + json" where
  "MultiformatMessageString_MarshalJSON scn ord strct =
     object (
      emit ''markdown'' (json_Marshal_string (MultiformatMessageString.Markdown strct)) (
      emit ''properties'' (json_Marshal_bytes ''*sarif.PropertyBag'' (PropertyBag_MarshalJSON scn ord) (MultiformatMessageString.Properties strct)) (
      emit ''text'' (json_Marshal_string (MultiformatMessageString.Text strct)) (
      Inr []))))"

definition MultiformatMessageString_cases :: "order \<Rightarrow> json \<Rightarrow> (string \<times> (MultiformatMessageString \<times> bool) action) list" where
  "MultiformatMessageString_cases ord v =
     [(''markdown'', into (json_Unmarshal_string v)
         (\<lambda>x (strct, textReceived). (strct\<lparr>MultiformatMessageString.Markdown := x\<rparr>, textReceived))),
      (''properties'', into (json_Unmarshal_ptr (PropertyBag_UnmarshalJSON ord) v)
         (\<lambda>x (strct, textReceived). (strct\<lparr>MultiformatMessageString.Properties := x\<rparr>, textReceived))),
      (''text'', into (json_Unmarshal_string v)
         (\<lambda>x (strct, textReceived). (strct\<lparr>MultiformatMessageString.Text := x\<rparr>, True)))]"

definition MultiformatMessageString_UnmarshalJSON :: "order \<Rightarrow> json \<Rightarrow> error + MultiformatMessageString" where
  "MultiformatMessageString_UnmarshalJSON ord b =
     (case json_Unmarshal_RawMessages b of
        Inl err \<Rightarrow> Inl err
      | Inr jsonMap \<Rightarrow>
          (case range_loop (\<lambda>k v. switch k (MultiformatMessageString_cases ord v) (reject k))
                  (range_map ord jsonMap) (MultiformatMessageString_zero, False) of
             Inl err \<Rightarrow> Inl err
           | Inr (strct, textReceived) \<Rightarrow>
              if \<not> textReceived then Inl (RequiredNotPresent ''text'')
              else Inr strct))"

subsection \<open>ArtifactContent\<close>

record ArtifactContent =
  Binary :: "string"
  Properties :: "PropertyBag option"
  Rendered :: "MultiformatMessageString option"
  Text :: "string"

definition ArtifactContent_zero :: "ArtifactContent" where
  "ArtifactContent_zero =
     \<lparr>ArtifactContent.Binary = [],
       ArtifactContent.Properties = None,
       ArtifactContent.Rendered = None,
       ArtifactContent.Text = []\<rparr>"

definition ArtifactContent_MarshalJSON :: "scanner \<Rightarrow> order \<Rightarrow> ArtifactContent \<Rightarrow> error + json" where
  "ArtifactContent_MarshalJSON scn ord strct =
     object (
      emit ''binary'' (json_Marshal_string (ArtifactContent.Binary strct)) (
      emit ''properties'' (json_Marshal_bytes ''*sarif.PropertyBag'' (PropertyBag_MarshalJSON scn ord) (ArtifactContent.Properties strct)) (
      emit ''rendered'' (json_Marshal_ptr ''*sarif.MultiformatMessageString'' (MultiformatMessageString_MarshalJSON scn ord) (ArtifactContent.Rendered strct)) (
      emit ''text'' (json_Marshal_string (ArtifactContent.Text strct)) (
      Inr [])))))"

definition ArtifactContent_cases :: "order \<Rightarrow> json \<Rightarrow> (string \<times> (ArtifactContent) action) list" where
  "ArtifactContent_cases ord v =
     [(''binary'', into (json_Unmarshal_string v)
         (\<lambda>x strct. strct\<lparr>ArtifactContent.Binary := x\<rparr>)),
      (''properties'', into (json_Unmarshal_ptr (PropertyBag_UnmarshalJSON ord) v)
         (\<lambda>x strct. strct\<lparr>ArtifactContent.Properties := x\<rparr>)),
      (''rendered'', into (json_Unmarshal_ptr (MultiformatMessageString_UnmarshalJSON ord) v)
         (\<lambda>x strct. strct\<lparr>ArtifactContent.Rendered := x\<rparr>)),
      (''text'', into (json_Unmarshal_string v)
         (\<lambda>x strct. strct\<lparr>ArtifactContent.Text := x\<rparr>))]"

definition ArtifactContent_UnmarshalJSON :: "order \<Rightarrow> json \<Rightarrow> error + ArtifactContent" where
  "ArtifactContent_UnmarshalJSON ord b =
     (case json_Unmarshal_RawMessages b of
        Inl err \<Rightarrow> Inl err
      | Inr jsonMap \<Rightarrow>
          (case range_loop (\<lambda>k v. switch k (ArtifactContent_cases ord v) (reject k))
                  (range_map ord jsonMap) ArtifactContent_zero of
             Inl err \<Rightarrow> Inl err
           | Inr strct \<Rightarrow>
              Inr strct))"

subsection \<open>Artifact\<close>

record Artifact =
  Contents :: "ArtifactContent option"
  Description :: "Message option"
  Encoding :: "string"
  Hashes :: "string go_map"
  LastModifiedTimeUtc :: "string"
  Length :: "go_int"
  Location :: "ArtifactLocation option"
  MimeType :: "string"
  Offset :: "go_int"
  ParentIndex :: "go_int"
  Properties :: "PropertyBag option"
  Roles :: "string list option"
  SourceLanguage :: "string"

definition Artifact_zero :: "Artifact" where
  "Artifact_zero =
     \<lparr>Artifact.Contents = None,
       Artifact.Description = None,
       Artifact.Encoding = [],
       Artifact.Hashes = None,
       Artifact.LastModifiedTimeUtc = [],
       Artifact.Length = 0,
       Artifact.Location = None,
       Artifact.MimeType = [],
       Artifact.Offset = 0,
       Artifact.ParentIndex = 0,
       Artifact.Properties = None,
       Artifact.Roles = None,
       Artifact.SourceLanguage = []\<rparr>"

definition Artifact_MarshalJSON :: "scanner \<Rightarrow> order \<Rightarrow> Artifact \<Rightarrow> error + json" where
  "Artifact_MarshalJSON scn ord strct =
     object (
      emit ''contents'' (json_Marshal_ptr ''*sarif.ArtifactContent'' (ArtifactContent_MarshalJSON scn ord) (Artifact.Contents strct)) (
      emit ''description'' (json_Marshal_ptr ''*sarif.Message'' (Message_MarshalJSON scn ord) (Artifact.Description strct)) (
      emit ''encoding'' (json_Marshal_string (Artifact.Encoding strct)) (
      emit ''hashes'' (json_Marshal_map json_Marshal_string (Artifact.Hashes strct)) (
      emit ''lastModifiedTimeUtc'' (json_Marshal_string (Artifact.LastModifiedTimeUtc strct)) (
      emit ''length'' (json_Marshal_int (Artifact.Length strct)) (
      emit ''location'' (json_Marshal_ptr ''*sarif.ArtifactLocation'' (ArtifactLocation_MarshalJSON scn ord) (Artifact.Location strct)) (
      emit ''mimeType'' (json_Marshal_string (Artifact.MimeType strct)) (
      emit ''offset'' (json_Marshal_int (Artifact.Offset strct)) (
      emit ''parentIndex'' (json_Marshal_int (Artifact.ParentIndex strct)) (
      emit ''properties'' (json_Marshal_bytes ''*sarif.PropertyBag'' (PropertyBag_MarshalJSON scn ord) (Artifact.Properties strct)) (
      emit ''roles'' (json_Marshal_slice json_Marshal_string (Artifact.Roles strct)) (
      emit ''sourceLanguage'' (json_Marshal_string (Artifact.SourceLanguage strct)) (
      Inr []))))))))))))))"

definition Artifact_cases :: "order \<Rightarrow> json \<Rightarrow> (string \<times> (Artifact) action) list" where
  "Artifact_cases ord v =
     [(''contents'', into (json_Unmarshal_ptr (ArtifactContent_UnmarshalJSON ord) v)
         (\<lambda>x strct. strct\<lparr>Artifact.Contents := x\<rparr>)),
      (''description'', into (json_Unmarshal_ptr (Message_UnmarshalJSON ord) v)
         (\<lambda>x strct. strct\<lparr>Artifact.Description := x\<rparr>)),
      (''encoding'', into (json_Unmarshal_string v)
         (\<lambda>x strct. strct\<lparr>Artifact.Encoding := x\<rparr>)),
      (''hashes'', into (json_Unmarshal_map json_Unmarshal_string v)
         (\<lambda>x strct. strct\<lparr>Artifact.Hashes := x\<rparr>)),
      (''lastModifiedTimeUtc'', into (json_Unmarshal_string v)
         (\<lambda>x strct. strct\<lparr>Artifact.LastModifiedTimeUtc := x\<rparr>)),
      (''length'', into (json_Unmarshal_int v)
         (\<lambda>x strct. strct\<lparr>Artifact.Length := x\<rparr>)),
      (''location'', into (json_Unmarshal_ptr (ArtifactLocation_UnmarshalJSON ord) v)
         (\<lambda>x strct. strct\<lparr>Artifact.Location := x\<rparr>)),
      (''mimeType'', into (json_Unmarshal_string v)
         (\<lambda>x strct. strct\<lparr>Artifact.MimeType := x\<rparr>)),
      (''offset'', into (json_Unmarshal_int v)
         (\<lambda>x strct. strct\<lparr>Artifact.Offset := x\<rparr>)),
      (''parentIndex'', into (json_Unmarshal_int v)
         (\<lambda>x strct. strct\<lparr>Artifact.ParentIndex := x\<rparr>)),
      (''properties'', into (json_Unmarshal_ptr (PropertyBag_UnmarshalJSON ord) v)
         (\<lambda>x strct. strct\<lparr>Artifact.Properties := x\<rparr>)),
      (''roles'', into (json_Unmarshal_slice json_Unmarshal_string v)
         (\<lambda>x strct. strct\<lparr>Artifact.Roles := x\<rparr>)),
      (''sourceLanguage'', into (json_Unmarshal_string v)
         (\<lambda>x strct. strct\<lparr>Artifact.SourceLanguage := x\<rparr>))]"

definition Artifact_UnmarshalJSON :: "order \<Rightarrow> json \<Rightarrow> error + Artifact" where
  "Artifact_UnmarshalJSON ord b =
     (case json_Unmarshal_RawMessages b of
        Inl err \<Rightarrow> Inl err
      | Inr jsonMap \<Rightarrow>
          (case range_loop (\<lambda>k v. switch k (Artifact_cases ord v) (reject k))
                  (range_map ord jsonMap) Artifact_zero of
             Inl err \<Rightarrow> Inl err
           | Inr strct \<Rightarrow>
              Inr strct))"

subsection \<open>Region\<close>

record Region =
  ByteLength :: "go_int"
  ByteOffset :: "go_int"
  CharLength :: "go_int"
  CharOffset :: "go_int"
  EndColumn :: "go_int"
  EndLine :: "go_int"
  Message :: "Message option"
  Properties :: "PropertyBag option"
  Snippet :: "ArtifactContent option"
  SourceLanguage :: "string"
  StartColumn :: "go_int"
  StartLine :: "go_int"

definition Region_zero :: "Region" where
  "Region_zero =
     \<lparr>Region.ByteLength = 0,
       Region.ByteOffset = 0,
       Region.CharLength = 0,
       Region.CharOffset = 0,
       Region.EndColumn = 0,
       Region.EndLine = 0,
       Region.Message = None,
       Region.Properties = None,
       Region.Snippet = None,
       Region.SourceLanguage = [],
       Region.StartColumn = 0,
       Region.StartLine = 0\<rparr>"

definition Region_MarshalJSON :: "scanner \<Rightarrow> order \<Rightarrow> Region \<Rightarrow> error + json" where
  "Region_MarshalJSON scn ord strct =
     object (
      emit ''byteLength'' (json_Marshal_int (Region.ByteLength strct)) (
      emit ''byteOffset'' (json_Marshal_int (Region.ByteOffset strct)) (
      emit ''charLength'' (json_Marshal_int (Region.CharLength strct)) (
      emit ''charOffset'' (json_Marshal_int (Region.CharOffset strct)) (
      emit ''endColumn'' (json_Marshal_int (Region.EndColumn strct)) (
      emit ''endLine'' (json_Marshal_int (Region.EndLine strct)) (
      emit ''message'' (json_Marshal_ptr ''*sarif.Message'' (Message_MarshalJSON scn ord) (Region.Message strct)) (
      emit ''properties'' (json_Marshal_bytes ''*sarif.PropertyBag'' (PropertyBag_MarshalJSON scn ord) (Region.Properties strct)) (
      emit ''snippet'' (json_Marshal_ptr ''*sarif.ArtifactContent'' (ArtifactContent_MarshalJSON scn ord) (Region.Snippet strct)) (
      emit ''sourceLanguage'' (json_Marshal_string (Region.SourceLanguage strct)) (
      emit ''startColumn'' (json_Marshal_int (Region.StartColumn strct)) (
      emit ''startLine'' (json_Marshal_int (Region.StartLine strct)) (
      Inr [])))))))))))))"

definition Region_cases :: "order \<Rightarrow> json \<Rightarrow> (string \<times> (Region) action) list" where
  "Region_cases ord v =
     [(''byteLength'', into (json_Unmarshal_int v)
         (\<lambda>x strct. strct\<lparr>Region.ByteLength := x\<rparr>)),
      (''byteOffset'', into (json_Unmarshal_int v)
         (\<lambda>x strct. strct\<lparr>Region.ByteOffset := x\<rparr>)),
      (''charLength'', into (json_Unmarshal_int v)
         (\<lambda>x strct. strct\<lparr>Region.CharLength := x\<rparr>)),
      (''charOffset'', into (json_Unmarshal_int v)
         (\<lambda>x strct. strct\<lparr>Region.CharOffset := x\<rparr>)),
      (''endColumn'', into (json_Unmarshal_int v)
         (\<lambda>x strct. strct\<lparr>Region.EndColumn := x\<rparr>)),
      (''endLine'', into (json_Unmarshal_int v)
         (\<lambda>x strct. strct\<lparr>Region.EndLine := x\<rparr>)),
      (''message'', into (json_Unmarshal_ptr (Message_UnmarshalJSON ord) v)
         (\<lambda>x strct. strct\<lparr>Region.Message := x\<rparr>)),
      (''properties'', into (json_Unmarshal_ptr (PropertyBag_UnmarshalJSON ord) v)
         (\<lambda>x strct. strct\<lparr>Region.Properties := x\<rparr>)),
      (''snippet'', into (json_Unmarshal_ptr (ArtifactContent_UnmarshalJSON ord) v)
         (\<lambda>x strct. strct\<lparr>Region.Snippet := x\<rparr>)),
      (''sourceLanguage'', into (json_Unmarshal_string v)
         (\<lambda>x strct. strct\<lparr>Region.SourceLanguage := x\<rparr>)),
      (''startColumn'', into (json_Unmarshal_int v)
         (\<lambda>x strct. strct\<lparr>Region.StartColumn := x\<rparr>)),
      (''startLine'', into (json_Unmarshal_int v)
         (\<lambda>x strct. strct\<lparr>Region.StartLine := x\<rparr>))]"

definition Region_UnmarshalJSON :: "order \<Rightarrow> json \<Rightarrow> error + Region" where
  "Region_UnmarshalJSON ord b =
     (case json_Unmarshal_RawMessages b of
        Inl err \<Rightarrow> Inl err
      | Inr jsonMap \<Rightarrow>
          (case range_loop (\<lambda>k v. switch k (Region_cases ord v) (reject k))
                  (range_map ord jsonMap) Region_zero of
             Inl err \<Rightarrow> Inl err
           | Inr strct \<Rightarrow>
              Inr strct))"

subsection \<open>Replacement\<close>

record Replacement =
  DeletedRegion :: "Region option"
  InsertedContent :: "ArtifactContent option"
  Properties :: "PropertyBag option"

definition Replacement_zero :: "Replacement" where
  "Replacement_zero =
     \<lparr>Replacement.DeletedRegion = None,
       Replacement.InsertedContent = None,
       Replacement.Properties = None\<rparr>"

definition Replacement_MarshalJSON :: "scanner \<Rightarrow> order \<Rightarrow> Replacement \<Rightarrow> error + json" where
  "Replacement_MarshalJSON scn ord strct =
     object (
      (if Replacement.DeletedRegion strct = None then Inl (RequiredField ''deletedRegion'') else
      emit ''deletedRegion'' (json_Marshal_ptr ''*sarif.Region'' (Region_MarshalJSON scn ord) (Replacement.DeletedRegion strct)) (
      emit ''insertedContent'' (json_Marshal_ptr ''*sarif.ArtifactContent'' (ArtifactContent_MarshalJSON scn ord) (Replacement.InsertedContent strct)) (
      emit ''properties'' (json_Marshal_bytes ''*sarif.PropertyBag'' (PropertyBag_MarshalJSON scn ord) (Replacement.Properties strct)) (
      Inr [])))))"

definition Replacement_cases :: "order \<Rightarrow> json \<Rightarrow> (string \<times> (Replacement \<times> bool) action) list" where
  "Replacement_cases ord v =
     [(''deletedRegion'', into (json_Unmarshal_ptr (Region_UnmarshalJSON ord) v)
         (\<lambda>x (strct, deletedRegionReceived). (strct\<lparr>Replacement.DeletedRegion := x\<rparr>, True))),
      (''insertedContent'', into (json_Unmarshal_ptr (ArtifactContent_UnmarshalJSON ord) v)
         (\<lambda>x (strct, deletedRegionReceived). (strct\<lparr>Replacement.InsertedContent := x\<rparr>, deletedRegionReceived))),
      (''properties'', into (json_Unmarshal_ptr (PropertyBag_UnmarshalJSON ord) v)
         (\<lambda>x (strct, deletedRegionReceived). (strct\<lparr>Replacement.Properties := x\<rparr>, deletedRegionReceived)))]"

definition Replacement_UnmarshalJSON :: "order \<Rightarrow> json \<Rightarrow> error + Replacement" where
  "Replacement_UnmarshalJSON ord b =
     (case json_Unmarshal_RawMessages b of
        Inl err \<Rightarrow> Inl err
      | Inr jsonMap \<Rightarrow>
          (case range_loop (\<lambda>k v. switch k (Replacement_cases ord v) (reject k))
                  (range_map ord jsonMap) (Replacement_zero, False) of
             Inl err \<Rightarrow> Inl err
           | Inr (strct, deletedRegionReceived) \<Rightarrow>
              if \<not> deletedRegionReceived then Inl (RequiredNotPresent ''deletedRegion'')
              else Inr strct))"

subsection \<open>ArtifactChange\<close>

record ArtifactChange =
  ArtifactLocation :: "ArtifactLocation option"
  Properties :: "PropertyBag option"
  Replacements :: "Replacement option list option"

definition ArtifactChange_zero :: "ArtifactChange" where
  "ArtifactChange_zero =
     \<lparr>ArtifactChange.ArtifactLocation = None,
       ArtifactChange.Properties = None,
       ArtifactChange.Replacements = None\<rparr>"

definition ArtifactChange_MarshalJSON :: "scanner \<Rightarrow> order \<Rightarrow> ArtifactChange \<Rightarrow> error + json" where
  "ArtifactChange_MarshalJSON scn ord strct =
     object (
      (if ArtifactChange.ArtifactLocation strct = None then Inl (RequiredField ''artifactLocation'') else
      emit ''artifactLocation'' (json_Marshal_ptr ''*sarif.ArtifactLocation'' (ArtifactLocation_MarshalJSON scn ord) (ArtifactChange.ArtifactLocation strct)) (
      emit ''properties'' (json_Marshal_bytes ''*sarif.PropertyBag'' (PropertyBag_MarshalJSON scn ord) (ArtifactChange.Properties strct)) (
      emit ''replacements'' (json_Marshal_slice (json_Marshal_ptr ''*sarif.Replacement'' (Replacement_MarshalJSON scn ord)) (ArtifactChange.Replacements strct)) (
      Inr [])))))"

definition ArtifactChange_cases :: "order \<Rightarrow> json \<Rightarrow> (string \<times> (ArtifactChange \<times> bool \<times> bool) action) list" where
  "ArtifactChange_cases ord v =
     [(''artifactLocation'', into (json_Unmarshal_ptr (ArtifactLocation_UnmarshalJSON ord) v)
         (\<lambda>x (strct, artifactLocationReceived, replacementsReceived). (strct\<lparr>ArtifactChange.ArtifactLocation := x\<rparr>, True, replacementsReceived))),
      (''properties'', into (json_Unmarshal_ptr (PropertyBag_UnmarshalJSON ord) v)
         (\<lambda>x (strct, artifactLocationReceived, replacementsReceived). (strct\<lparr>ArtifactChange.Properties := x\<rparr>, artifactLocationReceived, replacementsReceived))),
      (''replacements'', into (json_Unmarshal_slice (json_Unmarshal_ptr (Replacement_UnmarshalJSON ord)) v)
         (\<lambda>x (strct, artifactLocationReceived, replacementsReceived). (strct\<lparr>ArtifactChange.Replacements := x\<rparr>, artifactLocationReceived, True)))]"

definition ArtifactChange_UnmarshalJSON :: "order \<Rightarrow> json \<Rightarrow> error + ArtifactChange" where
  "ArtifactChange_UnmarshalJSON ord b =
     (case json_Unmarshal_RawMessages b of
        Inl err \<Rightarrow> Inl err
      | Inr jsonMap \<Rightarrow>
          (case range_loop (\<lambda>k v. switch k (ArtifactChange_cases ord v) (reject k))
                  (range_map ord jsonMap) (ArtifactChange_zero, False, False) of
             Inl err \<Rightarrow> Inl err
           | Inr (strct, artifactLocationReceived, replacementsReceived) \<Rightarrow>
              if \<not> artifactLocationReceived then Inl (RequiredNotPresent ''artifactLocation'')
              else if \<not> replacementsReceived then Inl (RequiredNotPresent ''replacements'')
              else Inr strct))"

subsection \<open>Rectangle\<close>

record Rectangle =
  Bottom :: "float64"
  Left :: "float64"
  Message :: "Message option"
  Properties :: "PropertyBag option"
  Right :: "float64"
  Top :: "float64"

definition Rectangle_zero :: "Rectangle" where
  "Rectangle_zero =
     \<lparr>Rectangle.Bottom = (Finite (NInt 0)),
       Rectangle.Left = (Finite (NInt 0)),
       Rectangle.Message = None,
       Rectangle.Properties = None,
       Rectangle.Right = (Finite (NInt 0)),
       Rectangle.Top = (Finite (NInt 0))\<rparr>"

definition Rectangle_MarshalJSON :: "scanner \<Rightarrow> order \<Rightarrow> Rectangle \<Rightarrow> error + json" where
  "Rectangle_MarshalJSON scn ord strct =
     object (
      emit ''bottom'' (json_Marshal_float64 (Rectangle.Bottom strct)) (
      emit ''left'' (json_Marshal_float64 (Rectangle.Left strct)) (
      emit ''message'' (json_Marshal_ptr ''*sarif.Message'' (Message_MarshalJSON scn ord) (Rectangle.Message strct)) (
      emit ''properties'' (json_Marshal_bytes ''*sarif.PropertyBag'' (PropertyBag_MarshalJSON scn ord) (Rectangle.Properties strct)) (
      emit ''right'' (json_Marshal_float64 (Rectangle.Right strct)) (
      emit ''top'' (json_Marshal_float64 (Rectangle.Top strct)) (
      Inr [])))))))"

definition Rectangle_cases :: "order \<Rightarrow> json \<Rightarrow> (string \<times> (Rectangle) action) list" where
  "Rectangle_cases ord v =
     [(''bottom'', into (json_Unmarshal_float64 v)
         (\<lambda>x strct. strct\<lparr>Rectangle.Bottom := x\<rparr>)),
      (''left'', into (json_Unmarshal_float64 v)
         (\<lambda>x strct. strct\<lparr>Rectangle.Left := x\<rparr>)),
      (''message'', into (json_Unmarshal_ptr (Message_UnmarshalJSON ord) v)
         (\<lambda>x strct. strct\<lparr>Rectangle.Message := x\<rparr>)),
      (''properties'', into (json_Unmarshal_ptr (PropertyBag_UnmarshalJSON ord) v)
         (\<lambda>x strct. strct\<lparr>Rectangle.Properties := x\<rparr>)),
      (''right'', into (json_Unmarshal_float64 v)
         (\<lambda>x strct. strct\<lparr>Rectangle.Right := x\<rparr>)),
      (''top'', into (json_Unmarshal_float64 v)
         (\<lambda>x strct. strct\<lparr>Rectangle.Top := x\<rparr>))]"

definition Rectangle_UnmarshalJSON :: "order \<Rightarrow> json \<Rightarrow> error + Rectangle" where
  "Rectangle_UnmarshalJSON ord b =
     (case json_Unmarshal_RawMessages b of
        Inl err \<Rightarrow> Inl err
      | Inr jsonMap \<Rightarrow>
          (case range_loop (\<lambda>k v. switch k (Rectangle_cases ord v) (reject k))
                  (range_map ord jsonMap) Rectangle_zero of
             Inl err \<Rightarrow> Inl err
           | Inr strct \<Rightarrow>
              Inr strct))"

subsection \<open>Attachment\<close>

record Attachment =
  ArtifactLocation :: "ArtifactLocation option"
  Description :: "Message option"
  Properties :: "PropertyBag option"
  Rectangles :: "Rectangle option list option"
  Regions :: "Region option list option"

definition Attachment_zero :: "Attachment" where
  "Attachment_zero =
     \<lparr>Attachment.ArtifactLocation = None,
       Attachment.Description = None,
       Attachment.Properties = None,
       Attachment.Rectangles = None,
       Attachment.Regions = None\<rparr>"

definition Attachment_MarshalJSON :: "scanner \<Rightarrow> order \<Rightarrow> Attachment \<Rightarrow> error + json" where
  "Attachment_MarshalJSON scn ord strct =
     object (
      (if Attachment.ArtifactLocation strct = None then Inl (RequiredField ''artifactLocation'') else
      emit ''artifactLocation'' (json_Marshal_ptr ''*sarif.ArtifactLocation'' (ArtifactLocation_MarshalJSON scn ord) (Attachment.ArtifactLocation strct)) (
      emit ''description'' (json_Marshal_ptr ''*sarif.Message'' (Message_MarshalJSON scn ord) (Attachment.Description strct)) (
      emit ''properties'' (json_Marshal_bytes ''*sarif.PropertyBag'' (PropertyBag_MarshalJSON scn ord) (Attachment.Properties strct)) (
      emit ''rectangles'' (json_Marshal_slice (json_Marshal_ptr ''*sarif.Rectangle'' (Rectangle_MarshalJSON scn ord)) (Attachment.Rectangles strct)) (
      emit ''regions'' (json_Marshal_slice (json_Marshal_ptr ''*sarif.Region'' (Region_MarshalJSON scn ord)) (Attachment.Regions strct)) (
      Inr [])))))))"

definition Attachment_cases :: "order \<Rightarrow> json \<Rightarrow> (string \<times> (Attachment \<times> bool) action) list" where
  "Attachment_cases ord v =
     [(''artifactLocation'', into (json_Unmarshal_ptr (ArtifactLocation_UnmarshalJSON ord) v)
         (\<lambda>x (strct, artifactLocationReceived). (strct\<lparr>Attachment.ArtifactLocation := x\<rparr>, True))),
      (''description'', into (json_Unmarshal_ptr (Message_UnmarshalJSON ord) v)
         (\<lambda>x (strct, artifactLocationReceived). (strct\<lparr>Attachment.Description := x\<rparr>, artifactLocationReceived))),
      (''properties'', into (json_Unmarshal_ptr (PropertyBag_UnmarshalJSON ord) v)
         (\<lambda>x (strct, artifactLocationReceived). (strct\<lparr>Attachment.Properties := x\<rparr>, artifactLocationReceived))),
      (''rectangles'', into (json_Unmarshal_slice (json_Unmarshal_ptr (Rectangle_UnmarshalJSON ord)) v)
         (\<lambda>x (strct, artifactLocationReceived). (strct\<lparr>Attachment.Rectangles := x\<rparr>, artifactLocationReceived))),
      (''regions'', into (json_Unmarshal_slice (json_Unmarshal_ptr (Region_UnmarshalJSON ord)) v)
         (\<lambda>x (strct, artifactLocationReceived). (strct\<lparr>Attachment.Regions := x\<rparr>, artifactLocationReceived)))]"

definition Attachment_UnmarshalJSON :: "order \<Rightarrow> json \<Rightarrow> error + Attachment" where
  "Attachment_UnmarshalJSON ord b =
     (case json_Unmarshal_RawMessages b of
        Inl err \<Rightarrow> Inl err
      | Inr jsonMap \<Rightarrow>
          (case range_loop (\<lambda>k v. switch k (Attachment_cases ord v) (reject k))
                  (range_map ord jsonMap) (Attachment_zero, False) of
             Inl err \<Rightarrow> Inl err
           | Inr (strct, artifactLocationReceived) \<Rightarrow>
              if \<not> artifactLocationReceived then Inl (RequiredNotPresent ''artifactLocation'')
              else Inr strct))"

subsection \<open>ToolComponentReference\<close>

record ToolComponentReference =
  Guid :: "string"
  Index :: "go_int"
  Name :: "string"
  Properties :: "PropertyBag option"

definition ToolComponentReference_zero :: "ToolComponentReference" where
  "ToolComponentReference_zero =
     \<lparr>ToolComponentReference.Guid = [],
       ToolComponentReference.Index = 0,
       ToolComponentReference.Name = [],
       ToolComponentReference.Properties = None\<rparr>"

definition ToolComponentReference_MarshalJSON :: "scanner \<Rightarrow> order \<Rightarrow> ToolComponentReference \<Rightarrow> error + json" where
  "ToolComponentReference_MarshalJSON scn ord strct =
     object (
      emit ''guid'' (json_Marshal_string (ToolComponentReference.Guid strct)) (
      emit ''index'' (json_Marshal_int (ToolComponentReference.Index strct)) (
      emit ''name'' (json_Marshal_string (ToolComponentReference.Name strct)) (
      emit ''properties'' (json_Marshal_bytes ''*sarif.PropertyBag'' (PropertyBag_MarshalJSON scn ord) (ToolComponentReference.Properties strct)) (
      Inr [])))))"

definition ToolComponentReference_cases :: "order \<Rightarrow> json \<Rightarrow> (string \<times> (ToolComponentReference) action) list" where
  "ToolComponentReference_cases ord v =
     [(''guid'', into (json_Unmarshal_string v)
         (\<lambda>x strct. strct\<lparr>ToolComponentReference.Guid := x\<rparr>)),
      (''index'', into (json_Unmarshal_int v)
         (\<lambda>x strct. strct\<lparr>ToolComponentReference.Index := x\<rparr>)),
      (''name'', into (json_Unmarshal_string v)
         (\<lambda>x strct. strct\<lparr>ToolComponentReference.Name := x\<rparr>)),
      (''properties'', into (json_Unmarshal_ptr (PropertyBag_UnmarshalJSON ord) v)
         (\<lambda>x strct. strct\<lparr>ToolComponentReference.Properties := x\<rparr>))]"

definition ToolComponentReference_UnmarshalJSON :: "order \<Rightarrow> json \<Rightarrow> error + ToolComponentReference" where
  "ToolComponentReference_UnmarshalJSON ord b =
     (case json_Unmarshal_RawMessages b of
        Inl err \<Rightarrow> Inl err
      | Inr jsonMap \<Rightarrow>
          (case range_loop (\<lambda>k v. switch k (ToolComponentReference_cases ord v) (reject k))
                  (range_map ord jsonMap) ToolComponentReference_zero of
             Inl err \<Rightarrow> Inl err
           | Inr strct \<Rightarrow>
              Inr strct))"

subsection \<open>ReportingDescriptorReference\<close>

record ReportingDescriptorReference =
  Guid :: "string"
  Id :: "string"
  Index :: "go_int"
  Properties :: "PropertyBag option"
  ToolComponent :: "ToolComponentReference option"

definition ReportingDescriptorReference_zero :: "ReportingDescriptorReference" where
  "ReportingDescriptorReference_zero =
     \<lparr>ReportingDescriptorReference.Guid = [],
       ReportingDescriptorReference.Id = [],
       ReportingDescriptorReference.Index = 0,
       ReportingDescriptorReference.Properties = None,
       ReportingDescriptorReference.ToolComponent = None\<rparr>"

definition ReportingDescriptorReference_MarshalJSON :: "scanner \<Rightarrow> order \<Rightarrow> ReportingDescriptorReference \<Rightarrow> error + json" where
  "ReportingDescriptorReference_MarshalJSON scn ord strct =
     object (
      emit ''guid'' (json_Marshal_string (ReportingDescriptorReference.Guid strct)) (
      emit ''id'' (json_Marshal_string (ReportingDescriptorReference.Id strct)) (
      emit ''index'' (json_Marshal_int (ReportingDescriptorReference.Index strct)) (
      emit ''properties'' (json_Marshal_bytes ''*sarif.PropertyBag'' (PropertyBag_MarshalJSON scn ord) (ReportingDescriptorReference.Properties strct)) (
      emit ''toolComponent'' (json_Marshal_ptr ''*sarif.ToolComponentReference'' (ToolComponentReference_MarshalJSON scn ord) (ReportingDescriptorReference.ToolComponent strct)) (
      Inr []))))))"

definition ReportingDescriptorReference_cases :: "order \<Rightarrow> json \<Rightarrow> (string \<times> (ReportingDescriptorReference) action) list" where
  "ReportingDescriptorReference_cases ord v =
     [(''guid'', into (json_Unmarshal_string v)
         (\<lambda>x strct. strct\<lparr>ReportingDescriptorReference.Guid := x\<rparr>)),
      (''id'', into (json_Unmarshal_string v)
         (\<lambda>x strct. strct\<lparr>ReportingDescriptorReference.Id := x\<rparr>)),
      (''index'', into (json_Unmarshal_int v)
         (\<lambda>x strct. strct\<lparr>ReportingDescriptorReference.Index := x\<rparr>)),
      (''properties'', into (json_Unmarshal_ptr (PropertyBag_UnmarshalJSON ord) v)
         (\<lambda>x strct. strct\<lparr>ReportingDescriptorReference.Properties := x\<rparr>)),
      (''toolComponent'', into (json_Unmarshal_ptr (ToolComponentReference_UnmarshalJSON ord) v)
         (\<lambda>x strct. strct\<lparr>ReportingDescriptorReference.ToolComponent := x\<rparr>))]"

definition ReportingDescriptorReference_UnmarshalJSON :: "order \<Rightarrow> json \<Rightarrow> error + ReportingDescriptorReference" where
  "ReportingDescriptorReference_UnmarshalJSON ord b =
     (case json_Unmarshal_RawMessages b of
        Inl err \<Rightarrow> Inl err
      | Inr jsonMap \<Rightarrow>
          (case range_loop (\<lambda>k v. switch k (ReportingDescriptorReference_cases ord v) (reject k))
                  (range_map ord jsonMap) ReportingDescriptorReference_zero of
             Inl err \<Rightarrow> Inl err
           | Inr strct \<Rightarrow>
              Inr strct))"

subsection \<open>PhysicalLocation\<close>

record PhysicalLocation =
  Address :: "Address option"
  ArtifactLocation :: "ArtifactLocation option"
  ContextRegion :: "Region option"
  Properties :: "PropertyBag option"
  Region :: "Region option"

definition PhysicalLocation_zero :: "PhysicalLocation" where
  "PhysicalLocation_zero =
     \<lparr>PhysicalLocation.Address = None,
       PhysicalLocation.ArtifactLocation = None,
       PhysicalLocation.ContextRegion = None,
       PhysicalLocation.Properties = None,
       PhysicalLocation.Region = None\<rparr>"

definition PhysicalLocation_MarshalJSON :: "scanner \<Rightarrow> order \<Rightarrow> PhysicalLocation \<Rightarrow> error + json" where
  "PhysicalLocation_MarshalJSON scn ord strct =
     object (
      emit ''address'' (json_Marshal_ptr ''*sarif.Address'' (Address_MarshalJSON scn ord) (PhysicalLocation.Address strct)) (
      emit ''artifactLocation'' (json_Marshal_ptr ''*sarif.ArtifactLocation'' (ArtifactLocation_MarshalJSON scn ord) (PhysicalLocation.ArtifactLocation strct)) (
      emit ''contextRegion'' (json_Marshal_ptr ''*sarif.Region'' (Region_MarshalJSON scn ord) (PhysicalLocation.ContextRegion strct)) (
      emit ''properties'' (json_Marshal_bytes ''*sarif.PropertyBag'' (PropertyBag_MarshalJSON scn ord) (PhysicalLocation.Properties strct)) (
      emit ''region'' (json_Marshal_ptr ''*sarif.Region'' (Region_MarshalJSON scn ord) (PhysicalLocation.Region strct)) (
      Inr []))))))"

definition PhysicalLocation_cases :: "order \<Rightarrow> json \<Rightarrow> (string \<times> (PhysicalLocation) action) list" where
  "PhysicalLocation_cases ord v =
     [(''address'', into (json_Unmarshal_ptr (Address_UnmarshalJSON ord) v)
         (\<lambda>x strct. strct\<lparr>PhysicalLocation.Address := x\<rparr>)),
      (''artifactLocation'', into (json_Unmarshal_ptr (ArtifactLocation_UnmarshalJSON ord) v)
         (\<lambda>x strct. strct\<lparr>PhysicalLocation.ArtifactLocation := x\<rparr>)),
      (''contextRegion'', into (json_Unmarshal_ptr (Region_UnmarshalJSON ord) v)
         (\<lambda>x strct. strct\<lparr>PhysicalLocation.ContextRegion := x\<rparr>)),
      (''properties'', into (json_Unmarshal_ptr (PropertyBag_UnmarshalJSON ord) v)
         (\<lambda>x strct. strct\<lparr>PhysicalLocation.Properties := x\<rparr>)),
      (''region'', into (json_Unmarshal_ptr (Region_UnmarshalJSON ord) v)
         (\<lambda>x strct. strct\<lparr>PhysicalLocation.Region := x\<rparr>))]"

definition PhysicalLocation_UnmarshalJSON :: "order \<Rightarrow> json \<Rightarrow> error + PhysicalLocation" where
  "PhysicalLocation_UnmarshalJSON ord b =
     (case json_Unmarshal_RawMessages b of
        Inl err \<Rightarrow> Inl err
      | Inr jsonMap \<Rightarrow>
          (case range_loop (\<lambda>k v. switch k (PhysicalLocation_cases ord v) (reject k))
                  (range_map ord jsonMap) PhysicalLocation_zero of
             Inl err \<Rightarrow> Inl err
           | Inr strct \<Rightarrow>
              Inr strct))"

subsection \<open>LocationRelationship\<close>

record LocationRelationship =
  Description :: "Message option"
  Kinds :: "string list option"
  Properties :: "PropertyBag option"
  Target :: "go_int"

definition LocationRelationship_zero :: "LocationRelationship" where
  "LocationRelationship_zero =
     \<lparr>LocationRelationship.Description = None,
       LocationRelationship.Kinds = None,
       LocationRelationship.Properties = None,
       LocationRelationship.Target = 0\<rparr>"

definition LocationRelationship_MarshalJSON :: "scanner \<Rightarrow> order \<Rightarrow> LocationRelationship \<Rightarrow> error + json" where
  "LocationRelationship_MarshalJSON scn ord strct =
     object (
      emit ''description'' (json_Marshal_ptr ''*sarif.Message'' (Message_MarshalJSON scn ord) (LocationRelationship.Description strct)) (
      emit ''kinds'' (json_Marshal_slice json_Marshal_string (LocationRelationship.Kinds strct)) (
      emit ''properties'' (json_Marshal_bytes ''*sarif.PropertyBag'' (PropertyBag_MarshalJSON scn ord) (LocationRelationship.Properties strct)) (
      emit ''target'' (json_Marshal_int (LocationRelationship.Target strct)) (
      Inr [])))))"

definition LocationRelationship_cases :: "order \<Rightarrow> json \<Rightarrow> (string \<times> (LocationRelationship \<times> bool) action) list" where
  "LocationRelationship_cases ord v =
     [(''description'', into (json_Unmarshal_ptr (Message_UnmarshalJSON ord) v)
         (\<lambda>x (strct, targetReceived). (strct\<lparr>LocationRelationship.Description := x\<rparr>, targetReceived))),
      (''kinds'', into (json_Unmarshal_slice json_Unmarshal_string v)
         (\<lambda>x (strct, targetReceived). (strct\<lparr>LocationRelationship.Kinds := x\<rparr>, targetReceived))),
      (''properties'', into (json_Unmarshal_ptr (PropertyBag_UnmarshalJSON ord) v)
         (\<lambda>x (strct, targetReceived). (strct\<lparr>LocationRelationship.Properties := x\<rparr>, targetReceived))),
      (''target'', into (json_Unmarshal_int v)
         (\<lambda>x (strct, targetReceived). (strct\<lparr>LocationRelationship.Target := x\<rparr>, True)))]"

definition LocationRelationship_UnmarshalJSON :: "order \<Rightarrow> json \<Rightarrow> error + LocationRelationship" where
  "LocationRelationship_UnmarshalJSON ord b =
     (case json_Unmarshal_RawMessages b of
        Inl err \<Rightarrow> Inl err
      | Inr jsonMap \<Rightarrow>
          (case range_loop (\<lambda>k v. switch k (LocationRelationship_cases ord v) (reject k))
                  (range_map ord jsonMap) (LocationRelationship_zero, False) of
             Inl err \<Rightarrow> Inl err
           | Inr (strct, targetReceived) \<Rightarrow>
              if \<not> targetReceived then Inl (RequiredNotPresent ''target'')
              else Inr strct))"

subsection \<open>LogicalLocation\<close>

record LogicalLocation =
  DecoratedName :: "string"
  FullyQualifiedName :: "string"
  Index :: "go_int"
  Kind :: "string"
  Name :: "string"
  ParentIndex :: "go_int"
  Properties :: "PropertyBag option"

definition LogicalLocation_zero :: "LogicalLocation" where
  "LogicalLocation_zero =
     \<lparr>LogicalLocation.DecoratedName = [],
       LogicalLocation.FullyQualifiedName = [],
       LogicalLocation.Index = 0,
       LogicalLocation.Kind = [],
       LogicalLocation.Name = [],
       LogicalLocation.ParentIndex = 0,
       LogicalLocation.Properties = None\<rparr>"

definition LogicalLocation_MarshalJSON :: "scanner \<Rightarrow> order \<Rightarrow> LogicalLocation \<Rightarrow> error + json" where
  "LogicalLocation_MarshalJSON scn ord strct =
     object (
      emit ''decoratedName'' (json_Marshal_string (LogicalLocation.DecoratedName strct)) (
      emit ''fullyQualifiedName'' (json_Marshal_string (LogicalLocation.FullyQualifiedName strct)) (
      emit ''index'' (json_Marshal_int (LogicalLocation.Index strct)) (
      emit ''kind'' (json_Marshal_string (LogicalLocation.Kind strct)) (
      emit ''name'' (json_Marshal_string (LogicalLocation.Name strct)) (
      emit ''parentIndex'' (json_Marshal_int (LogicalLocation.ParentIndex strct)) (
      emit ''properties'' (json_Marshal_bytes ''*sarif.PropertyBag'' (PropertyBag_MarshalJSON scn ord) (LogicalLocation.Properties strct)) (
      Inr []))))))))"

definition LogicalLocation_cases :: "order \<Rightarrow> json \<Rightarrow> (string \<times> (LogicalLocation) action) list" where
  "LogicalLocation_cases ord v =
     [(''decoratedName'', into (json_Unmarshal_string v)
         (\<lambda>x strct. strct\<lparr>LogicalLocation.DecoratedName := x\<rparr>)),
      (''fullyQualifiedName'', into (json_Unmarshal_string v)
         (\<lambda>x strct. strct\<lparr>LogicalLocation.FullyQualifiedName := x\<rparr>)),
      (''index'', into (json_Unmarshal_int v)
         (\<lambda>x strct. strct\<lparr>LogicalLocation.Index := x\<rparr>)),
      (''kind'', into (json_Unmarshal_string v)
         (\<lambda>x strct. strct\<lparr>LogicalLocation.Kind := x\<rparr>)),
      (''name'', into (json_Unmarshal_string v)
         (\<lambda>x strct. strct\<lparr>LogicalLocation.Name := x\<rparr>)),
      (''parentIndex'', into (json_Unmarshal_int v)
         (\<lambda>x strct. strct\<lparr>LogicalLocation.ParentIndex := x\<rparr>)),
      (''properties'', into (json_Unmarshal_ptr (PropertyBag_UnmarshalJSON ord) v)
         (\<lambda>x strct. strct\<lparr>LogicalLocation.Properties := x\<rparr>))]"

definition LogicalLocation_UnmarshalJSON :: "order \<Rightarrow> json \<Rightarrow> error + LogicalLocation" where
  "LogicalLocation_UnmarshalJSON ord b =
     (case json_Unmarshal_RawMessages b of
        Inl err \<Rightarrow> Inl err
      | Inr jsonMap \<Rightarrow>
          (case range_loop (\<lambda>k v. switch k (LogicalLocation_cases ord v) (reject k))
                  (range_map ord jsonMap) LogicalLocation_zero of
             Inl err \<Rightarrow> Inl err
           | Inr strct \<Rightarrow>
              Inr strct))"

subsection \<open>Location\<close>

record Location =
  Annotations :: "Region option list option"
  Id :: "go_int"
  LogicalLocations :: "LogicalLocation option list option"
  Message :: "Message option"
  PhysicalLocation :: "PhysicalLocation option"
  Properties :: "PropertyBag option"
  Relationships :: "LocationRelationship option list option"

definition Location_zero :: "Location" where
  "Location_zero =
     \<lparr>Location.Annotations = None,
       Location.Id = 0,
       Location.LogicalLocations = None,
       Location.Message = None,
       Location.PhysicalLocation = None,
       Location.Properties = None,
       Location.Relationships = None\<rparr>"

definition Location_MarshalJSON :: "scanner \<Rightarrow> order \<Rightarrow> Location \<Rightarrow> error + json" where
  "Location_MarshalJSON scn ord strct =
     object (
      emit ''annotations'' (json_Marshal_slice (json_Marshal_ptr ''*sarif.Region'' (Region_MarshalJSON scn ord)) (Location.Annotations strct)) (
      emit ''id'' (json_Marshal_int (Location.Id strct)) (
      emit ''logicalLocations'' (json_Marshal_slice (json_Marshal_ptr ''*sarif.LogicalLocation'' (LogicalLocation_MarshalJSON scn ord)) (Location.LogicalLocations strct)) (
      emit ''message'' (json_Marshal_ptr ''*sarif.Message'' (Message_MarshalJSON scn ord) (Location.Message strct)) (
      emit ''physicalLocation'' (json_Marshal_ptr ''*sarif.PhysicalLocation'' (PhysicalLocation_MarshalJSON scn ord) (Location.PhysicalLocation strct)) (
      emit ''properties'' (json_Marshal_bytes ''*sarif.PropertyBag'' (PropertyBag_MarshalJSON scn ord) (Location.Properties strct)) (
      emit ''relationships'' (json_Marshal_slice (json_Marshal_ptr ''*sarif.LocationRelationship'' (LocationRelationship_MarshalJSON scn ord)) (Location.Relationships strct)) (
      Inr []))))))))"

definition Location_cases :: "order \<Rightarrow> json \<Rightarrow> (string \<times> (Location) action) list" where
  "Location_cases ord v =
     [(''annotations'', into (json_Unmarshal_slice (json_Unmarshal_ptr (Region_UnmarshalJSON ord)) v)
         (\<lambda>x strct. strct\<lparr>Location.Annotations := x\<rparr>)),
      (''id'', into (json_Unmarshal_int v)
         (\<lambda>x strct. strct\<lparr>Location.Id := x\<rparr>)),
      (''logicalLocations'', into (json_Unmarshal_slice (json_Unmarshal_ptr (LogicalLocation_UnmarshalJSON ord)) v)
         (\<lambda>x strct. strct\<lparr>Location.LogicalLocations := x\<rparr>)),
      (''message'', into (json_Unmarshal_ptr (Message_UnmarshalJSON ord) v)
         (\<lambda>x strct. strct\<lparr>Location.Message := x\<rparr>)),
      (''physicalLocation'', into (json_Unmarshal_ptr (PhysicalLocation_UnmarshalJSON ord) v)
         (\<lambda>x strct. strct\<lparr>Location.PhysicalLocation := x\<rparr>)),
      (''properties'', into (json_Unmarshal_ptr (PropertyBag_UnmarshalJSON ord) v)
         (\<lambda>x strct. strct\<lparr>Location.Properties := x\<rparr>)),
      (''relationships'', into (json_Unmarshal_slice (json_Unmarshal_ptr (LocationRelationship_UnmarshalJSON ord)) v)
         (\<lambda>x strct. strct\<lparr>Location.Relationships := x\<rparr>))]"

definition Location_UnmarshalJSON :: "order \<Rightarrow> json \<Rightarrow> error + Location" where
  "Location_UnmarshalJSON ord b =
     (case json_Unmarshal_RawMessages b of
        Inl err \<Rightarrow> Inl err
      | Inr jsonMap \<Rightarrow>
          (case range_loop (\<lambda>k v. switch k (Location_cases ord v) (reject k))
                  (range_map ord jsonMap) Location_zero of
             Inl err \<Rightarrow> Inl err
           | Inr strct \<Rightarrow>
              Inr strct))"

subsection \<open>StackFrame\<close>

record StackFrame =
  Location :: "Location option"
  Module :: "string"
  Parameters :: "string list option"
  Properties :: "PropertyBag option"
  ThreadId :: "go_int"

definition StackFrame_zero :: "StackFrame" where
  "StackFrame_zero =
     \<lparr>StackFrame.Location = None,
       StackFrame.Module = [],
       StackFrame.Parameters = None,
       StackFrame.Properties = None,
       StackFrame.ThreadId = 0\<rparr>"

definition StackFrame_MarshalJSON :: "scanner \<Rightarrow> order \<Rightarrow> StackFrame \<Rightarrow> error + json" where
  "StackFrame_MarshalJSON scn ord strct =
     object (
      emit ''location'' (json_Marshal_ptr ''*sarif.Location'' (Location_MarshalJSON scn ord) (StackFrame.Location strct)) (
      emit ''module'' (json_Marshal_string (StackFrame.Module strct)) (
      emit ''parameters'' (json_Marshal_slice json_Marshal_string (StackFrame.Parameters strct)) (
      emit ''properties'' (json_Marshal_bytes ''*sarif.PropertyBag'' (PropertyBag_MarshalJSON scn ord) (StackFrame.Properties strct)) (
      emit ''threadId'' (json_Marshal_int (StackFrame.ThreadId strct)) (
      Inr []))))))"

definition StackFrame_cases :: "order \<Rightarrow> json \<Rightarrow> (string \<times> (StackFrame) action) list" where
  "StackFrame_cases ord v =
     [(''location'', into (json_Unmarshal_ptr (Location_UnmarshalJSON ord) v)
         (\<lambda>x strct. strct\<lparr>StackFrame.Location := x\<rparr>)),
      (''module'', into (json_Unmarshal_string v)
         (\<lambda>x strct. strct\<lparr>StackFrame.Module := x\<rparr>)),
      (''parameters'', into (json_Unmarshal_slice json_Unmarshal_string v)
         (\<lambda>x strct. strct\<lparr>StackFrame.Parameters := x\<rparr>)),
      (''properties'', into (json_Unmarshal_ptr (PropertyBag_UnmarshalJSON ord) v)
         (\<lambda>x strct. strct\<lparr>StackFrame.Properties := x\<rparr>)),
      (''threadId'', into (json_Unmarshal_int v)
         (\<lambda>x strct. strct\<lparr>StackFrame.ThreadId := x\<rparr>))]"

definition StackFrame_UnmarshalJSON :: "order \<Rightarrow> json \<Rightarrow> error + StackFrame" where
  "StackFrame_UnmarshalJSON ord b =
     (case json_Unmarshal_RawMessages b of
        Inl err \<Rightarrow> Inl err
      | Inr jsonMap \<Rightarrow>
          (case range_loop (\<lambda>k v. switch k (StackFrame_cases ord v) (reject k))
                  (range_map ord jsonMap) StackFrame_zero of
             Inl err \<Rightarrow> Inl err
           | Inr strct \<Rightarrow>
              Inr strct))"

subsection \<open>Stack\<close>

record Stack =
  Frames :: "StackFrame option list option"
  Message :: "Message option"
  Properties :: "PropertyBag option"

definition Stack_zero :: "Stack" where
  "Stack_zero =
     \<lparr>Stack.Frames = None,
       Stack.Message = None,
       Stack.Properties = None\<rparr>"

definition Stack_MarshalJSON :: "scanner \<Rightarrow> order \<Rightarrow> Stack \<Rightarrow> error + json" where
  "Stack_MarshalJSON scn ord strct =
     object (
      emit ''frames'' (json_Marshal_slice (json_Marshal_ptr ''*sarif.StackFrame'' (StackFrame_MarshalJSON scn ord)) (Stack.Frames strct)) (
      emit ''message'' (json_Marshal_ptr ''*sarif.Message'' (Message_MarshalJSON scn ord) (Stack.Message strct)) (
      emit ''properties'' (json_Marshal_bytes ''*sarif.PropertyBag'' (PropertyBag_MarshalJSON scn ord) (Stack.Properties strct)) (
      Inr []))))"

definition Stack_cases :: "order \<Rightarrow> json \<Rightarrow> (string \<times> (Stack \<times> bool) action) list" where
  "Stack_cases ord v =
     [(''frames'', into (json_Unmarshal_slice (json_Unmarshal_ptr (StackFrame_UnmarshalJSON ord)) v)
         (\<lambda>x (strct, framesReceived). (strct\<lparr>Stack.Frames := x\<rparr>, True))),
      (''message'', into (json_Unmarshal_ptr (Message_UnmarshalJSON ord) v)
         (\<lambda>x (strct, framesReceived). (strct\<lparr>Stack.Message := x\<rparr>, framesReceived))),
      (''properties'', into (json_Unmarshal_ptr (PropertyBag_UnmarshalJSON ord) v)
         (\<lambda>x (strct, framesReceived). (strct\<lparr>Stack.Properties := x\<rparr>, framesReceived)))]"

definition Stack_UnmarshalJSON :: "order \<Rightarrow> json \<Rightarrow> error + Stack" where
  "Stack_UnmarshalJSON ord b =
     (case json_Unmarshal_RawMessages b of
        Inl err \<Rightarrow> Inl err
      | Inr jsonMap \<Rightarrow>
          (case range_loop (\<lambda>k v. switch k (Stack_cases ord v) (reject k))
                  (range_map ord jsonMap) (Stack_zero, False) of
             Inl err \<Rightarrow> Inl err
           | Inr (strct, framesReceived) \<Rightarrow>
              if \<not> framesReceived then Inl (RequiredNotPresent ''frames'')
              else Inr strct))"

subsection \<open>WebRequest\<close>

record WebRequest =
  Body :: "ArtifactContent option"
  Headers :: "string go_map"
  Index :: "go_int"
  Method :: "string"
  Parameters :: "string go_map"
  Properties :: "PropertyBag option"
  Protocol :: "string"
  Target :: "string"
  Version :: "string"

definition WebRequest_zero :: "WebRequest" where
  "WebRequest_zero =
     \<lparr>WebRequest.Body = None,
       WebRequest.Headers = None,
       WebRequest.Index = 0,
       WebRequest.Method = [],
       WebRequest.Parameters = None,
       WebRequest.Properties = None,
       WebRequest.Protocol = [],
       WebRequest.Target = [],
       WebRequest.Version = []\<rparr>"

definition WebRequest_MarshalJSON :: "scanner \<Rightarrow> order \<Rightarrow> WebRequest \<Rightarrow> error + json" where
  "WebRequest_MarshalJSON scn ord strct =
     object (
      emit ''body'' (json_Marshal_ptr ''*sarif.ArtifactContent'' (ArtifactContent_MarshalJSON scn ord) (WebRequest.Body strct)) (
      emit ''headers'' (json_Marshal_map json_Marshal_string (WebRequest.Headers strct)) (
      emit ''index'' (json_Marshal_int (WebRequest.Index strct)) (
      emit ''method'' (json_Marshal_string (WebRequest.Method strct)) (
      emit ''parameters'' (json_Marshal_map json_Marshal_string (WebRequest.Parameters strct)) (
      emit ''properties'' (json_Marshal_bytes ''*sarif.PropertyBag'' (PropertyBag_MarshalJSON scn ord) (WebRequest.Properties strct)) (
      emit ''protocol'' (json_Marshal_string (WebRequest.Protocol strct)) (
      emit ''target'' (json_Marshal_string (WebRequest.Target strct)) (
      emit ''version'' (json_Marshal_string (WebRequest.Version strct)) (
      Inr []))))))))))"

definition WebRequest_cases :: "order \<Rightarrow> json \<Rightarrow> (string \<times> (WebRequest) action) list" where
  "WebRequest_cases ord v =
     [(''body'', into (json_Unmarshal_ptr (ArtifactContent_UnmarshalJSON ord) v)
         (\<lambda>x strct. strct\<lparr>WebRequest.Body := x\<rparr>)),
      (''headers'', into (json_Unmarshal_map json_Unmarshal_string v)
         (\<lambda>x strct. strct\<lparr>WebRequest.Headers := x\<rparr>)),
      (''index'', into (json_Unmarshal_int v)
         (\<lambda>x strct. strct\<lparr>WebRequest.Index := x\<rparr>)),
      (''method'', into (json_Unmarshal_string v)
         (\<lambda>x strct. strct\<lparr>WebRequest.Method := x\<rparr>)),
      (''parameters'', into (json_Unmarshal_map json_Unmarshal_string v)
         (\<lambda>x strct. strct\<lparr>WebRequest.Parameters := x\<rparr>)),
      (''properties'', into (json_Unmarshal_ptr (PropertyBag_UnmarshalJSON ord) v)
         (\<lambda>x strct. strct\<lparr>WebRequest.Properties := x\<rparr>)),
      (''protocol'', into (json_Unmarshal_string v)
         (\<lambda>x strct. strct\<lparr>WebRequest.Protocol := x\<rparr>)),
      (''target'', into (json_Unmarshal_string v)
         (\<lambda>x strct. strct\<lparr>WebRequest.Target := x\<rparr>)),
      (''version'', into (json_Unmarshal_string v)
         (\<lambda>x strct. strct\<lparr>WebRequest.Version := x\<rparr>))]"

definition WebRequest_UnmarshalJSON :: "order \<Rightarrow> json \<Rightarrow> error + WebRequest" where
  "WebRequest_UnmarshalJSON ord b =
     (case json_Unmarshal_RawMessages b of
        Inl err \<Rightarrow> Inl err
      | Inr jsonMap \<Rightarrow>
          (case range_loop (\<lambda>k v. switch k (WebRequest_cases ord v) (reject k))
                  (range_map ord jsonMap) WebRequest_zero of
             Inl err \<Rightarrow> Inl err
           | Inr strct \<Rightarrow>
              Inr strct))"

subsection \<open>WebResponse\<close>

record WebResponse =
  Body :: "ArtifactContent option"
  Headers :: "string go_map"
  Index :: "go_int"
  NoResponseReceived :: "bool"
  Properties :: "PropertyBag option"
  Protocol :: "string"
  ReasonPhrase :: "string"
  StatusCode :: "go_int"
  Version :: "string"

definition WebResponse_zero :: "WebResponse" where
  "WebResponse_zero =
     \<lparr>WebResponse.Body = None,
       WebResponse.Headers = None,
       WebResponse.Index = 0,
       WebResponse.NoResponseReceived = False,
       WebResponse.Properties = None,
       WebResponse.Protocol = [],
       WebResponse.ReasonPhrase = [],
       WebResponse.StatusCode = 0,
       WebResponse.Version = []\<rparr>"

definition WebResponse_MarshalJSON :: "scanner \<Rightarrow> order \<Rightarrow> WebResponse \<Rightarrow> error + json" where
  "WebResponse_MarshalJSON scn ord strct =
     object (
      emit ''body'' (json_Marshal_ptr ''*sarif.ArtifactContent'' (ArtifactContent_MarshalJSON scn ord) (WebResponse.Body strct)) (
      emit ''headers'' (json_Marshal_map json_Marshal_string (WebResponse.Headers strct)) (
      emit ''index'' (json_Marshal_int (WebResponse.Index strct)) (
      emit ''noResponseReceived'' (json_Marshal_bool (WebResponse.NoResponseReceived strct)) (
      emit ''properties'' (json_Marshal_bytes ''*sarif.PropertyBag'' (PropertyBag_MarshalJSON scn ord) (WebResponse.Properties strct)) (
      emit ''protocol'' (json_Marshal_string (WebResponse.Protocol strct)) (
      emit ''reasonPhrase'' (json_Marshal_string (WebResponse.ReasonPhrase strct)) (
      emit ''statusCode'' (json_Marshal_int (WebResponse.StatusCode strct)) (
      emit ''version'' (json_Marshal_string (WebResponse.Version strct)) (
      Inr []))))))))))"

definition WebResponse_cases :: "order \<Rightarrow> json \<Rightarrow> (string \<times> (WebResponse) action) list" where
  "WebResponse_cases ord v =
     [(''body'', into (json_Unmarshal_ptr (ArtifactContent_UnmarshalJSON ord) v)
         (\<lambda>x strct. strct\<lparr>WebResponse.Body := x\<rparr>)),
      (''headers'', into (json_Unmarshal_map json_Unmarshal_string v)
         (\<lambda>x strct. strct\<lparr>WebResponse.Headers := x\<rparr>)),
      (''index'', into (json_Unmarshal_int v)
         (\<lambda>x strct. strct\<lparr>WebResponse.Index := x\<rparr>)),
      (''noResponseReceived'', into (json_Unmarshal_bool v)
         (\<lambda>x strct. strct\<lparr>WebResponse.NoResponseReceived := x\<rparr>)),
      (''properties'', into (json_Unmarshal_ptr (PropertyBag_UnmarshalJSON ord) v)
         (\<lambda>x strct. strct\<lparr>WebResponse.Properties := x\<rparr>)),
      (''protocol'', into (json_Unmarshal_string v)
         (\<lambda>x strct. strct\<lparr>WebResponse.Protocol := x\<rparr>)),
      (''reasonPhrase'', into (json_Unmarshal_string v)
         (\<lambda>x strct. strct\<lparr>WebResponse.ReasonPhrase := x\<rparr>)),
      (''statusCode'', into (json_Unmarshal_int v)
         (\<lambda>x strct. strct\<lparr>WebResponse.StatusCode := x\<rparr>)),
      (''version'', into (json_Unmarshal_string v)
         (\<lambda>x strct. strct\<lparr>WebResponse.Version := x\<rparr>))]"

definition WebResponse_UnmarshalJSON :: "order \<Rightarrow> json \<Rightarrow> error + WebResponse" where
  "WebResponse_UnmarshalJSON ord b =
     (case json_Unmarshal_RawMessages b of
        Inl err \<Rightarrow> Inl err
      | Inr jsonMap \<Rightarrow>
          (case range_loop (\<lambda>k v. switch k (WebResponse_cases ord v) (reject k))
                  (range_map ord jsonMap) WebResponse_zero of
             Inl err \<Rightarrow> Inl err
           | Inr strct \<Rightarrow>
              Inr strct))"

subsection \<open>ThreadFlowLocation\<close>

record ThreadFlowLocation =
  ExecutionOrder :: "go_int"
  ExecutionTimeUtc :: "string"
  Importance :: "string"
  Index :: "go_int"
  Kinds :: "string list option"
  Location :: "Location option"
  Module :: "string"
  NestingLevel :: "go_int"
  Properties :: "PropertyBag option"
  Stack :: "Stack option"
  State :: "MultiformatMessageString option go_map"
  Taxa :: "ReportingDescriptorReference option list option"
  WebRequest :: "WebRequest option"
  WebResponse :: "WebResponse option"

definition ThreadFlowLocation_zero :: "ThreadFlowLocation" where
  "ThreadFlowLocation_zero =
     \<lparr>ThreadFlowLocation.ExecutionOrder = 0,
       ThreadFlowLocation.ExecutionTimeUtc = [],
       ThreadFlowLocation.Importance = [],
       ThreadFlowLocation.Index = 0,
       ThreadFlowLocation.Kinds = None,
       ThreadFlowLocation.Location = None,
       ThreadFlowLocation.Module = [],
       ThreadFlowLocation.NestingLevel = 0,
       ThreadFlowLocation.Properties = None,
       ThreadFlowLocation.Stack = None,
       ThreadFlowLocation.State = None,
       ThreadFlowLocation.Taxa = None,
       ThreadFlowLocation.WebRequest = None,
       ThreadFlowLocation.WebResponse = None\<rparr>"

definition ThreadFlowLocation_MarshalJSON :: "scanner \<Rightarrow> order \<Rightarrow> ThreadFlowLocation \<Rightarrow> error + json" where
  "ThreadFlowLocation_MarshalJSON scn ord strct =
     object (
      emit ''executionOrder'' (json_Marshal_int (ThreadFlowLocation.ExecutionOrder strct)) (
      emit ''executionTimeUtc'' (json_Marshal_string (ThreadFlowLocation.ExecutionTimeUtc strct)) (
      emit ''importance'' (json_Marshal_string (ThreadFlowLocation.Importance strct)) (
      emit ''index'' (json_Marshal_int (ThreadFlowLocation.Index strct)) (
      emit ''kinds'' (json_Marshal_slice json_Marshal_string (ThreadFlowLocation.Kinds strct)) (
      emit ''location'' (json_Marshal_ptr ''*sarif.Location'' (Location_MarshalJSON scn ord) (ThreadFlowLocation.Location strct)) (
      emit ''module'' (json_Marshal_string (ThreadFlowLocation.Module strct)) (
      emit ''nestingLevel'' (json_Marshal_int (ThreadFlowLocation.NestingLevel strct)) (
      emit ''properties'' (json_Marshal_bytes ''*sarif.PropertyBag'' (PropertyBag_MarshalJSON scn ord) (ThreadFlowLocation.Properties strct)) (
      emit ''stack'' (json_Marshal_ptr ''*sarif.Stack'' (Stack_MarshalJSON scn ord) (ThreadFlowLocation.Stack strct)) (
      emit ''state'' (json_Marshal_map (json_Marshal_ptr ''*sarif.MultiformatMessageString'' (MultiformatMessageString_MarshalJSON scn ord)) (ThreadFlowLocation.State strct)) (
      emit ''taxa'' (json_Marshal_slice (json_Marshal_ptr ''*sarif.ReportingDescriptorReference'' (ReportingDescriptorReference_MarshalJSON scn ord)) (ThreadFlowLocation.Taxa strct)) (
      emit ''webRequest'' (json_Marshal_ptr ''*sarif.WebRequest'' (WebRequest_MarshalJSON scn ord) (ThreadFlowLocation.WebRequest strct)) (
      emit ''webResponse'' (json_Marshal_ptr ''*sarif.WebResponse'' (WebResponse_MarshalJSON scn ord) (ThreadFlowLocation.WebResponse strct)) (
      Inr [])))))))))))))))"

definition ThreadFlowLocation_cases :: "order \<Rightarrow> json \<Rightarrow> (string \<times> (ThreadFlowLocation) action) list" where
  "ThreadFlowLocation_cases ord v =
     [(''executionOrder'', into (json_Unmarshal_int v)
         (\<lambda>x strct. strct\<lparr>ThreadFlowLocation.ExecutionOrder := x\<rparr>)),
      (''executionTimeUtc'', into (json_Unmarshal_string v)
         (\<lambda>x strct. strct\<lparr>ThreadFlowLocation.ExecutionTimeUtc := x\<rparr>)),
      (''importance'', into (json_Unmarshal_string v)
         (\<lambda>x strct. strct\<lparr>ThreadFlowLocation.Importance := x\<rparr>)),
      (''index'', into (json_Unmarshal_int v)
         (\<lambda>x strct. strct\<lparr>ThreadFlowLocation.Index := x\<rparr>)),
      (''kinds'', into (json_Unmarshal_slice json_Unmarshal_string v)
         (\<lambda>x strct. strct\<lparr>ThreadFlowLocation.Kinds := x\<rparr>)),
      (''location'', into (json_Unmarshal_ptr (Location_UnmarshalJSON ord) v)
         (\<lambda>x strct. strct\<lparr>ThreadFlowLocation.Location := x\<rparr>)),
      (''module'', into (json_Unmarshal_string v)
         (\<lambda>x strct. strct\<lparr>ThreadFlowLocation.Module := x\<rparr>)),
      (''nestingLevel'', into (json_Unmarshal_int v)
         (\<lambda>x strct. strct\<lparr>ThreadFlowLocation.NestingLevel := x\<rparr>)),
      (''properties'', into (json_Unmarshal_ptr (PropertyBag_UnmarshalJSON ord) v)
         (\<lambda>x strct. strct\<lparr>ThreadFlowLocation.Properties := x\<rparr>)),
      (''stack'', into (json_Unmarshal_ptr (Stack_UnmarshalJSON ord) v)
         (\<lambda>x strct. strct\<lparr>ThreadFlowLocation.Stack := x\<rparr>)),
      (''state'', into (json_Unmarshal_map (json_Unmarshal_ptr (MultiformatMessageString_UnmarshalJSON ord)) v)
         (\<lambda>x strct. strct\<lparr>ThreadFlowLocation.State := x\<rparr>)),
      (''taxa'', into (json_Unmarshal_slice (json_Unmarshal_ptr (ReportingDescriptorReference_UnmarshalJSON ord)) v)
         (\<lambda>x strct. strct\<lparr>ThreadFlowLocation.Taxa := x\<rparr>)),
      (''webRequest'', into (json_Unmarshal_ptr (WebRequest_UnmarshalJSON ord) v)
         (\<lambda>x strct. strct\<lparr>ThreadFlowLocation.WebRequest := x\<rparr>)),
      (''webResponse'', into (json_Unmarshal_ptr (WebResponse_UnmarshalJSON ord) v)
         (\<lambda>x strct. strct\<lparr>ThreadFlowLocation.WebResponse := x\<rparr>))]"

definition ThreadFlowLocation_UnmarshalJSON :: "order \<Rightarrow> json \<Rightarrow> error + ThreadFlowLocation" where
  "ThreadFlowLocation_UnmarshalJSON ord b =
     (case json_Unmarshal_RawMessages b of
        Inl err \<Rightarrow> Inl err
      | Inr jsonMap \<Rightarrow>
          (case range_loop (\<lambda>k v. switch k (ThreadFlowLocation_cases ord v) (reject k))
                  (range_map ord jsonMap) ThreadFlowLocation_zero of
             Inl err \<Rightarrow> Inl err
           | Inr strct \<Rightarrow>
              Inr strct))"

subsection \<open>ThreadFlow\<close>

record ThreadFlow =
  Id :: "string"
  ImmutableState :: "MultiformatMessageString option go_map"
  InitialState :: "MultiformatMessageString option go_map"
  Locations :: "ThreadFlowLocation option list option"
  Message :: "Message option"
  Properties :: "PropertyBag option"

definition ThreadFlow_zero :: "ThreadFlow" where
  "ThreadFlow_zero =
     \<lparr>ThreadFlow.Id = [],
       ThreadFlow.ImmutableState = None,
       ThreadFlow.InitialState = None,
       ThreadFlow.Locations = None,
       ThreadFlow.Message = None,
       ThreadFlow.Properties = None\<rparr>"

definition ThreadFlow_MarshalJSON :: "scanner \<Rightarrow> order \<Rightarrow> ThreadFlow \<Rightarrow> error + json" where
  "ThreadFlow_MarshalJSON scn ord strct =
     object (
      emit ''id'' (json_Marshal_string (ThreadFlow.Id strct)) (
      emit ''immutableState'' (json_Marshal_map (json_Marshal_ptr ''*sarif.MultiformatMessageString'' (MultiformatMessageString_MarshalJSON scn ord)) (ThreadFlow.ImmutableState strct)) (
      emit ''initialState'' (json_Marshal_map (json_Marshal_ptr ''*sarif.MultiformatMessageString'' (MultiformatMessageString_MarshalJSON scn ord)) (ThreadFlow.InitialState strct)) (
      emit ''locations'' (json_Marshal_slice (json_Marshal_ptr ''*sarif.ThreadFlowLocation'' (ThreadFlowLocation_MarshalJSON scn ord)) (ThreadFlow.Locations strct)) (
      emit ''message'' (json_Marshal_ptr ''*sarif.Message'' (Message_MarshalJSON scn ord) (ThreadFlow.Message strct)) (
      emit ''properties'' (json_Marshal_bytes ''*sarif.PropertyBag'' (PropertyBag_MarshalJSON scn ord) (ThreadFlow.Properties strct)) (
      Inr [])))))))"

definition ThreadFlow_cases :: "order \<Rightarrow> json \<Rightarrow> (string \<times> (ThreadFlow \<times> bool) action) list" where
  "ThreadFlow_cases ord v =
     [(''id'', into (json_Unmarshal_string v)
         (\<lambda>x (strct, locationsReceived). (strct\<lparr>ThreadFlow.Id := x\<rparr>, locationsReceived))),
      (''immutableState'', into (json_Unmarshal_map (json_Unmarshal_ptr (MultiformatMessageString_UnmarshalJSON ord)) v)
         (\<lambda>x (strct, locationsReceived). (strct\<lparr>ThreadFlow.ImmutableState := x\<rparr>, locationsReceived))),
      (''initialState'', into (json_Unmarshal_map (json_Unmarshal_ptr (MultiformatMessageString_UnmarshalJSON ord)) v)
         (\<lambda>x (strct, locationsReceived). (strct\<lparr>ThreadFlow.InitialState := x\<rparr>, locationsReceived))),
      (''locations'', into (json_Unmarshal_slice (json_Unmarshal_ptr (ThreadFlowLocation_UnmarshalJSON ord)) v)
         (\<lambda>x (strct, locationsReceived). (strct\<lparr>ThreadFlow.Locations := x\<rparr>, True))),
      (''message'', into (json_Unmarshal_ptr (Message_UnmarshalJSON ord) v)
         (\<lambda>x (strct, locationsReceived). (strct\<lparr>ThreadFlow.Message := x\<rparr>, locationsReceived))),
      (''properties'', into (json_Unmarshal_ptr (PropertyBag_UnmarshalJSON ord) v)
         (\<lambda>x (strct, locationsReceived). (strct\<lparr>ThreadFlow.Properties := x\<rparr>, locationsReceived)))]"

definition ThreadFlow_UnmarshalJSON :: "order \<Rightarrow> json \<Rightarrow> error + ThreadFlow" where
  "ThreadFlow_UnmarshalJSON ord b =
     (case json_Unmarshal_RawMessages b of
        Inl err \<Rightarrow> Inl err
      | Inr jsonMap \<Rightarrow>
          (case range_loop (\<lambda>k v. switch k (ThreadFlow_cases ord v) (reject k))
                  (range_map ord jsonMap) (ThreadFlow_zero, False) of
             Inl err \<Rightarrow> Inl err
           | Inr (strct, locationsReceived) \<Rightarrow>
              if \<not> locationsReceived then Inl (RequiredNotPresent ''locations'')
              else Inr strct))"

subsection \<open>CodeFlow\<close>

record CodeFlow =
  Message :: "Message option"
  Properties :: "PropertyBag option"
  ThreadFlows :: "ThreadFlow option list option"

definition CodeFlow_zero :: "CodeFlow" where
  "CodeFlow_zero =
     \<lparr>CodeFlow.Message = None,
       CodeFlow.Properties = None,
       CodeFlow.ThreadFlows = None\<rparr>"

definition CodeFlow_MarshalJSON :: "scanner \<Rightarrow> order \<Rightarrow> CodeFlow \<Rightarrow> error + json" where
  "CodeFlow_MarshalJSON scn ord strct =
     object (
      emit ''message'' (json_Marshal_ptr ''*sarif.Message'' (Message_MarshalJSON scn ord) (CodeFlow.Message strct)) (
      emit ''properties'' (json_Marshal_bytes ''*sarif.PropertyBag'' (PropertyBag_MarshalJSON scn ord) (CodeFlow.Properties strct)) (
      emit ''threadFlows'' (json_Marshal_slice (json_Marshal_ptr ''*sarif.ThreadFlow'' (ThreadFlow_MarshalJSON scn ord)) (CodeFlow.ThreadFlows strct)) (
      Inr []))))"

definition CodeFlow_cases :: "order \<Rightarrow> json \<Rightarrow> (string \<times> (CodeFlow \<times> bool) action) list" where
  "CodeFlow_cases ord v =
     [(''message'', into (json_Unmarshal_ptr (Message_UnmarshalJSON ord) v)
         (\<lambda>x (strct, threadFlowsReceived). (strct\<lparr>CodeFlow.Message := x\<rparr>, threadFlowsReceived))),
      (''properties'', into (json_Unmarshal_ptr (PropertyBag_UnmarshalJSON ord) v)
         (\<lambda>x (strct, threadFlowsReceived). (strct\<lparr>CodeFlow.Properties := x\<rparr>, threadFlowsReceived))),
      (''threadFlows'', into (json_Unmarshal_slice (json_Unmarshal_ptr (ThreadFlow_UnmarshalJSON ord)) v)
         (\<lambda>x (strct, threadFlowsReceived). (strct\<lparr>CodeFlow.ThreadFlows := x\<rparr>, True)))]"

definition CodeFlow_UnmarshalJSON :: "order \<Rightarrow> json \<Rightarrow> error + CodeFlow" where
  "CodeFlow_UnmarshalJSON ord b =
     (case json_Unmarshal_RawMessages b of
        Inl err \<Rightarrow> Inl err
      | Inr jsonMap \<Rightarrow>
          (case range_loop (\<lambda>k v. switch k (CodeFlow_cases ord v) (reject k))
                  (range_map ord jsonMap) (CodeFlow_zero, False) of
             Inl err \<Rightarrow> Inl err
           | Inr (strct, threadFlowsReceived) \<Rightarrow>
              if \<not> threadFlowsReceived then Inl (RequiredNotPresent ''threadFlows'')
              else Inr strct))"

subsection \<open>ReportingConfiguration\<close>

record ReportingConfiguration =
  Enabled :: "bool"
  Level :: "string"
  Parameters :: "PropertyBag option"
  Properties :: "PropertyBag option"
  Rank :: "float64"

definition ReportingConfiguration_zero :: "ReportingConfiguration" where
  "ReportingConfiguration_zero =
     \<lparr>ReportingConfiguration.Enabled = False,
       ReportingConfiguration.Level = [],
       ReportingConfiguration.Parameters = None,
       ReportingConfiguration.Properties = None,
       ReportingConfiguration.Rank = (Finite (NInt 0))\<rparr>"

definition ReportingConfiguration_MarshalJSON :: "scanner \<Rightarrow> order \<Rightarrow> ReportingConfiguration \<Rightarrow> error + json" where
  "ReportingConfiguration_MarshalJSON scn ord strct =
     object (
      emit ''enabled'' (json_Marshal_bool (ReportingConfiguration.Enabled strct)) (
      emit ''level'' (json_Marshal_string (ReportingConfiguration.Level strct)) (
      emit ''parameters'' (json_Marshal_bytes ''*sarif.PropertyBag'' (PropertyBag_MarshalJSON scn ord) (ReportingConfiguration.Parameters strct)) (
      emit ''properties'' (json_Marshal_bytes ''*sarif.PropertyBag'' (PropertyBag_MarshalJSON scn ord) (ReportingConfiguration.Properties strct)) (
      emit ''rank'' (json_Marshal_float64 (ReportingConfiguration.Rank strct)) (
      Inr []))))))"

definition ReportingConfiguration_cases :: "order \<Rightarrow> json \<Rightarrow> (string \<times> (ReportingConfiguration) action) list" where
  "ReportingConfiguration_cases ord v =
     [(''enabled'', into (json_Unmarshal_bool v)
         (\<lambda>x strct. strct\<lparr>ReportingConfiguration.Enabled := x\<rparr>)),
      (''level'', into (json_Unmarshal_string v)
         (\<lambda>x strct. strct\<lparr>ReportingConfiguration.Level := x\<rparr>)),
      (''parameters'', into (json_Unmarshal_ptr (PropertyBag_UnmarshalJSON ord) v)
         (\<lambda>x strct. strct\<lparr>ReportingConfiguration.Parameters := x\<rparr>)),
      (''properties'', into (json_Unmarshal_ptr (PropertyBag_UnmarshalJSON ord) v)
         (\<lambda>x strct. strct\<lparr>ReportingConfiguration.Properties := x\<rparr>)),
      (''rank'', into (json_Unmarshal_float64 v)
         (\<lambda>x strct. strct\<lparr>ReportingConfiguration.Rank := x\<rparr>))]"

definition ReportingConfiguration_UnmarshalJSON :: "order \<Rightarrow> json \<Rightarrow> error + ReportingConfiguration" where
  "ReportingConfiguration_UnmarshalJSON ord b =
     (case json_Unmarshal_RawMessages b of
        Inl err \<Rightarrow> Inl err
      | Inr jsonMap \<Rightarrow>
          (case range_loop (\<lambda>k v. switch k (ReportingConfiguration_cases ord v) (reject k))
                  (range_map ord jsonMap) ReportingConfiguration_zero of
             Inl err \<Rightarrow> Inl err
           | Inr strct \<Rightarrow>
              Inr strct))"

subsection \<open>ConfigurationOverride\<close>

record ConfigurationOverride =
  Configuration :: "ReportingConfiguration option"
  Descriptor :: "ReportingDescriptorReference option"
  Properties :: "PropertyBag option"

definition ConfigurationOverride_zero :: "ConfigurationOverride" where
  "ConfigurationOverride_zero =
     \<lparr>ConfigurationOverride.Configuration = None,
       ConfigurationOverride.Descriptor = None,
       ConfigurationOverride.Properties = None\<rparr>"

definition ConfigurationOverride_MarshalJSON :: "scanner \<Rightarrow> order \<Rightarrow> ConfigurationOverride \<Rightarrow> error + json" where
  "ConfigurationOverride_MarshalJSON scn ord strct =
     object (
      (if ConfigurationOverride.Configuration strct = None then Inl (RequiredField ''configuration'') else
      emit ''configuration'' (json_Marshal_ptr ''*sarif.ReportingConfiguration'' (ReportingConfiguration_MarshalJSON scn ord) (ConfigurationOverride.Configuration strct)) (
      (if ConfigurationOverride.Descriptor strct = None then Inl (RequiredField ''descriptor'') else
      emit ''descriptor'' (json_Marshal_ptr ''*sarif.ReportingDescriptorReference'' (ReportingDescriptorReference_MarshalJSON scn ord) (ConfigurationOverride.Descriptor strct)) (
      emit ''properties'' (json_Marshal_bytes ''*sarif.PropertyBag'' (PropertyBag_MarshalJSON scn ord) (ConfigurationOverride.Properties strct)) (
      Inr []))))))"

definition ConfigurationOverride_cases :: "order \<Rightarrow> json \<Rightarrow> (string \<times> (ConfigurationOverride \<times> bool \<times> bool) action) list" where
  "ConfigurationOverride_cases ord v =
     [(''configuration'', into (json_Unmarshal_ptr (ReportingConfiguration_UnmarshalJSON ord) v)
         (\<lambda>x (strct, configurationReceived, descriptorReceived). (strct\<lparr>ConfigurationOverride.Configuration := x\<rparr>, True, descriptorReceived))),
      (''descriptor'', into (json_Unmarshal_ptr (ReportingDescriptorReference_UnmarshalJSON ord) v)
         (\<lambda>x (strct, configurationReceived, descriptorReceived). (strct\<lparr>ConfigurationOverride.Descriptor := x\<rparr>, configurationReceived, True))),
      (''properties'', into (json_Unmarshal_ptr (PropertyBag_UnmarshalJSON ord) v)
         (\<lambda>x (strct, configurationReceived, descriptorReceived). (strct\<lparr>ConfigurationOverride.Properties := x\<rparr>, configurationReceived, descriptorReceived)))]"

definition ConfigurationOverride_UnmarshalJSON :: "order \<Rightarrow> json \<Rightarrow> error + ConfigurationOverride" where
  "ConfigurationOverride_UnmarshalJSON ord b =
     (case json_Unmarshal_RawMessages b of
        Inl err \<Rightarrow> Inl err
      | Inr jsonMap \<Rightarrow>
          (case range_loop (\<lambda>k v. switch k (ConfigurationOverride_cases ord v) (reject k))
                  (range_map ord jsonMap) (ConfigurationOverride_zero, False, False) of
             Inl err \<Rightarrow> Inl err
           | Inr (strct, configurationReceived, descriptorReceived) \<Rightarrow>
              if \<not> configurationReceived then Inl (RequiredNotPresent ''configuration'')
              else if \<not> descriptorReceived then Inl (RequiredNotPresent ''descriptor'')
              else Inr strct))"

subsection \<open>TranslationMetadata\<close>

record TranslationMetadata =
  DownloadUri :: "string"
  FullDescription :: "MultiformatMessageString option"
  FullName :: "string"
  InformationUri :: "string"
  Name :: "string"
  Properties :: "PropertyBag option"
  ShortDescription :: "MultiformatMessageString option"

definition TranslationMetadata_zero :: "TranslationMetadata" where
  "TranslationMetadata_zero =
     \<lparr>TranslationMetadata.DownloadUri = [],
       TranslationMetadata.FullDescription = None,
       TranslationMetadata.FullName = [],
       TranslationMetadata.InformationUri = [],
       TranslationMetadata.Name = [],
       TranslationMetadata.Properties = None,
       TranslationMetadata.ShortDescription = None\<rparr>"

definition TranslationMetadata_MarshalJSON :: "scanner \<Rightarrow> order \<Rightarrow> TranslationMetadata \<Rightarrow> error + json" where
  "TranslationMetadata_MarshalJSON scn ord strct =
     object (
      emit ''downloadUri'' (json_Marshal_string (TranslationMetadata.DownloadUri strct)) (
      emit ''fullDescription'' (json_Marshal_ptr ''*sarif.MultiformatMessageString'' (MultiformatMessageString_MarshalJSON scn ord) (TranslationMetadata.FullDescription strct)) (
      emit ''fullName'' (json_Marshal_string (TranslationMetadata.FullName strct)) (
      emit ''informationUri'' (json_Marshal_string (TranslationMetadata.InformationUri strct)) (
      emit ''name'' (json_Marshal_string (TranslationMetadata.Name strct)) (
      emit ''properties'' (json_Marshal_bytes ''*sarif.PropertyBag'' (PropertyBag_MarshalJSON scn ord) (TranslationMetadata.Properties strct)) (
      emit ''shortDescription'' (json_Marshal_ptr ''*sarif.MultiformatMessageString'' (MultiformatMessageString_MarshalJSON scn ord) (TranslationMetadata.ShortDescription strct)) (
      Inr []))))))))"

definition TranslationMetadata_cases :: "order \<Rightarrow> json \<Rightarrow> (string \<times> (TranslationMetadata \<times> bool) action) list" where
  "TranslationMetadata_cases ord v =
     [(''downloadUri'', into (json_Unmarshal_string v)
         (\<lambda>x (strct, nameReceived). (strct\<lparr>TranslationMetadata.DownloadUri := x\<rparr>, nameReceived))),
      (''fullDescription'', into (json_Unmarshal_ptr (MultiformatMessageString_UnmarshalJSON ord) v)
         (\<lambda>x (strct, nameReceived). (strct\<lparr>TranslationMetadata.FullDescription := x\<rparr>, nameReceived))),
      (''fullName'', into (json_Unmarshal_string v)
         (\<lambda>x (strct, nameReceived). (strct\<lparr>TranslationMetadata.FullName := x\<rparr>, nameReceived))),
      (''informationUri'', into (json_Unmarshal_string v)
         (\<lambda>x (strct, nameReceived). (strct\<lparr>TranslationMetadata.InformationUri := x\<rparr>, nameReceived))),
      (''name'', into (json_Unmarshal_string v)
         (\<lambda>x (strct, nameReceived). (strct\<lparr>TranslationMetadata.Name := x\<rparr>, True))),
      (''properties'', into (json_Unmarshal_ptr (PropertyBag_UnmarshalJSON ord) v)
         (\<lambda>x (strct, nameReceived). (strct\<lparr>TranslationMetadata.Properties := x\<rparr>, nameReceived))),
      (''shortDescription'', into (json_Unmarshal_ptr (MultiformatMessageString_UnmarshalJSON ord) v)
         (\<lambda>x (strct, nameReceived). (strct\<lparr>TranslationMetadata.ShortDescription := x\<rparr>, nameReceived)))]"

definition TranslationMetadata_UnmarshalJSON :: "order \<Rightarrow> json \<Rightarrow> error + TranslationMetadata" where
  "TranslationMetadata_UnmarshalJSON ord b =
     (case json_Unmarshal_RawMessages b of
        Inl err \<Rightarrow> Inl err
      | Inr jsonMap \<Rightarrow>
          (case range_loop (\<lambda>k v. switch k (TranslationMetadata_cases ord v) (reject k))
                  (range_map ord jsonMap) (TranslationMetadata_zero, False) of
             Inl err \<Rightarrow> Inl err
           | Inr (strct, nameReceived) \<Rightarrow>
              if \<not> nameReceived then Inl (RequiredNotPresent ''name'')
              else Inr strct))"

subsection \<open>ReportingDescriptorRelationship\<close>

record ReportingDescriptorRelationship =
  Description :: "Message option"
  Kinds :: "string list option"
  Properties :: "PropertyBag option"
  Target :: "ReportingDescriptorReference option"

definition ReportingDescriptorRelationship_zero :: "ReportingDescriptorRelationship" where
  "ReportingDescriptorRelationship_zero =
     \<lparr>ReportingDescriptorRelationship.Description = None,
       ReportingDescriptorRelationship.Kinds = None,
       ReportingDescriptorRelationship.Properties = None,
       ReportingDescriptorRelationship.Target = None\<rparr>"

definition ReportingDescriptorRelationship_MarshalJSON :: "scanner \<Rightarrow> order \<Rightarrow> ReportingDescriptorRelationship \<Rightarrow> error + json" where
  "ReportingDescriptorRelationship_MarshalJSON scn ord strct =
     object (
      emit ''description'' (json_Marshal_ptr ''*sarif.Message'' (Message_MarshalJSON scn ord) (ReportingDescriptorRelationship.Description strct)) (
      emit ''kinds'' (json_Marshal_slice json_Marshal_string (ReportingDescriptorRelationship.Kinds strct)) (
      emit ''properties'' (json_Marshal_bytes ''*sarif.PropertyBag'' (PropertyBag_MarshalJSON scn ord) (ReportingDescriptorRelationship.Properties strct)) (
      (if ReportingDescriptorRelationship.Target strct = None then Inl (RequiredField ''target'') else
      emit ''target'' (json_Marshal_ptr ''*sarif.ReportingDescriptorReference'' (ReportingDescriptorReference_MarshalJSON scn ord) (ReportingDescriptorRelationship.Target strct)) (
      Inr []))))))"

definition ReportingDescriptorRelationship_cases :: "order \<Rightarrow> json \<Rightarrow> (string \<times> (ReportingDescriptorRelationship \<times> bool) action) list" where
  "ReportingDescriptorRelationship_cases ord v =
     [(''description'', into (json_Unmarshal_ptr (Message_UnmarshalJSON ord) v)
         (\<lambda>x (strct, targetReceived). (strct\<lparr>ReportingDescriptorRelationship.Description := x\<rparr>, targetReceived))),
      (''kinds'', into (json_Unmarshal_slice json_Unmarshal_string v)
         (\<lambda>x (strct, targetReceived). (strct\<lparr>ReportingDescriptorRelationship.Kinds := x\<rparr>, targetReceived))),
      (''properties'', into (json_Unmarshal_ptr (PropertyBag_UnmarshalJSON ord) v)
         (\<lambda>x (strct, targetReceived). (strct\<lparr>ReportingDescriptorRelationship.Properties := x\<rparr>, targetReceived))),
      (''target'', into (json_Unmarshal_ptr (ReportingDescriptorReference_UnmarshalJSON ord) v)
         (\<lambda>x (strct, targetReceived). (strct\<lparr>ReportingDescriptorRelationship.Target := x\<rparr>, True)))]"

definition ReportingDescriptorRelationship_UnmarshalJSON :: "order \<Rightarrow> json \<Rightarrow> error + ReportingDescriptorRelationship" where
  "ReportingDescriptorRelationship_UnmarshalJSON ord b =
     (case json_Unmarshal_RawMessages b of
        Inl err \<Rightarrow> Inl err
      | Inr jsonMap \<Rightarrow>
          (case range_loop (\<lambda>k v. switch k (ReportingDescriptorRelationship_cases ord v) (reject k))
                  (range_map ord jsonMap) (ReportingDescriptorRelationship_zero, False) of
             Inl err \<Rightarrow> Inl err
           | Inr (strct, targetReceived) \<Rightarrow>
              if \<not> targetReceived then Inl (RequiredNotPresent ''target'')
              else Inr strct))"

subsection \<open>ReportingDescriptor\<close>

record ReportingDescriptor =
  DefaultConfiguration :: "ReportingConfiguration option"
  DeprecatedGuids :: "string list option"
  DeprecatedIds :: "string list option"
  DeprecatedNames :: "string list option"
  FullDescription :: "MultiformatMessageString option"
  Guid :: "string"
  Help :: "MultiformatMessageString option"
  HelpUri :: "string"
  Id :: "string"
  MessageStrings :: "MultiformatMessageString option go_map"
  Name :: "string"
  Properties :: "PropertyBag option"
  Relationships :: "ReportingDescriptorRelationship option list option"
  ShortDescription :: "MultiformatMessageString option"

definition ReportingDescriptor_zero :: "ReportingDescriptor" where
  "ReportingDescriptor_zero =
     \<lparr>ReportingDescriptor.DefaultConfiguration = None,
       ReportingDescriptor.DeprecatedGuids = None,
       ReportingDescriptor.DeprecatedIds = None,
       ReportingDescriptor.DeprecatedNames = None,
       ReportingDescriptor.FullDescription = None,
       ReportingDescriptor.Guid = [],
       ReportingDescriptor.Help = None,
       ReportingDescriptor.HelpUri = [],
       ReportingDescriptor.Id = [],
       ReportingDescriptor.MessageStrings = None,
       ReportingDescriptor.Name = [],
       ReportingDescriptor.Properties = None,
       ReportingDescriptor.Relationships = None,
       ReportingDescriptor.ShortDescription = None\<rparr>"

definition ReportingDescriptor_MarshalJSON :: "scanner \<Rightarrow> order \<Rightarrow> ReportingDescriptor \<Rightarrow> error + json" where
  "ReportingDescriptor_MarshalJSON scn ord strct =
     object (
      emit ''defaultConfiguration'' (json_Marshal_ptr ''*sarif.ReportingConfiguration'' (ReportingConfiguration_MarshalJSON scn ord) (ReportingDescriptor.DefaultConfiguration strct)) (
      emit ''deprecatedGuids'' (json_Marshal_slice json_Marshal_string (ReportingDescriptor.DeprecatedGuids strct)) (
      emit ''deprecatedIds'' (json_Marshal_slice json_Marshal_string (ReportingDescriptor.DeprecatedIds strct)) (
      emit ''deprecatedNames'' (json_Marshal_slice json_Marshal_string (ReportingDescriptor.DeprecatedNames strct)) (
      emit ''fullDescription'' (json_Marshal_ptr ''*sarif.MultiformatMessageString'' (MultiformatMessageString_MarshalJSON scn ord) (ReportingDescriptor.FullDescription strct)) (
      emit ''guid'' (json_Marshal_string (ReportingDescriptor.Guid strct)) (
      emit ''help'' (json_Marshal_ptr ''*sarif.MultiformatMessageString'' (MultiformatMessageString_MarshalJSON scn ord) (ReportingDescriptor.Help strct)) (
      emit ''helpUri'' (json_Marshal_string (ReportingDescriptor.HelpUri strct)) (
      emit ''id'' (json_Marshal_string (ReportingDescriptor.Id strct)) (
      emit ''messageStrings'' (json_Marshal_map (json_Marshal_ptr ''*sarif.MultiformatMessageString'' (MultiformatMessageString_MarshalJSON scn ord)) (ReportingDescriptor.MessageStrings strct)) (
      emit ''name'' (json_Marshal_string (ReportingDescriptor.Name strct)) (
      emit ''properties'' (json_Marshal_bytes ''*sarif.PropertyBag'' (PropertyBag_MarshalJSON scn ord) (ReportingDescriptor.Properties strct)) (
      emit ''relationships'' (json_Marshal_slice (json_Marshal_ptr ''*sarif.ReportingDescriptorRelationship'' (ReportingDescriptorRelationship_MarshalJSON scn ord)) (ReportingDescriptor.Relationships strct)) (
      emit ''shortDescription'' (json_Marshal_ptr ''*sarif.MultiformatMessageString'' (MultiformatMessageString_MarshalJSON scn ord) (ReportingDescriptor.ShortDescription strct)) (
      Inr [])))))))))))))))"

definition ReportingDescriptor_cases :: "order \<Rightarrow> json \<Rightarrow> (string \<times> (ReportingDescriptor \<times> bool) action) list" where
  "ReportingDescriptor_cases ord v =
     [(''defaultConfiguration'', into (json_Unmarshal_ptr (ReportingConfiguration_UnmarshalJSON ord) v)
         (\<lambda>x (strct, idReceived). (strct\<lparr>ReportingDescriptor.DefaultConfiguration := x\<rparr>, idReceived))),
      (''deprecatedGuids'', into (json_Unmarshal_slice json_Unmarshal_string v)
         (\<lambda>x (strct, idReceived). (strct\<lparr>ReportingDescriptor.DeprecatedGuids := x\<rparr>, idReceived))),
      (''deprecatedIds'', into (json_Unmarshal_slice json_Unmarshal_string v)
         (\<lambda>x (strct, idReceived). (strct\<lparr>ReportingDescriptor.DeprecatedIds := x\<rparr>, idReceived))),
      (''deprecatedNames'', into (json_Unmarshal_slice json_Unmarshal_string v)
         (\<lambda>x (strct, idReceived). (strct\<lparr>ReportingDescriptor.DeprecatedNames := x\<rparr>, idReceived))),
      (''fullDescription'', into (json_Unmarshal_ptr (MultiformatMessageString_UnmarshalJSON ord) v)
         (\<lambda>x (strct, idReceived). (strct\<lparr>ReportingDescriptor.FullDescription := x\<rparr>, idReceived))),
      (''guid'', into (json_Unmarshal_string v)
         (\<lambda>x (strct, idReceived). (strct\<lparr>ReportingDescriptor.Guid := x\<rparr>, idReceived))),
      (''help'', into (json_Unmarshal_ptr (MultiformatMessageString_UnmarshalJSON ord) v)
         (\<lambda>x (strct, idReceived). (strct\<lparr>ReportingDescriptor.Help := x\<rparr>, idReceived))),
      (''helpUri'', into (json_Unmarshal_string v)
         (\<lambda>x (strct, idReceived). (strct\<lparr>ReportingDescriptor.HelpUri := x\<rparr>, idReceived))),
      (''id'', into (json_Unmarshal_string v)
         (\<lambda>x (strct, idReceived). (strct\<lparr>ReportingDescriptor.Id := x\<rparr>, True))),
      (''messageStrings'', into (json_Unmarshal_map (json_Unmarshal_ptr (MultiformatMessageString_UnmarshalJSON ord)) v)
         (\<lambda>x (strct, idReceived). (strct\<lparr>ReportingDescriptor.MessageStrings := x\<rparr>, idReceived))),
      (''name'', into (json_Unmarshal_string v)
         (\<lambda>x (strct, idReceived). (strct\<lparr>ReportingDescriptor.Name := x\<rparr>, idReceived))),
      (''properties'', into (json_Unmarshal_ptr (PropertyBag_UnmarshalJSON ord) v)
         (\<lambda>x (strct, idReceived). (strct\<lparr>ReportingDescriptor.Properties := x\<rparr>, idReceived))),
      (''relationships'', into (json_Unmarshal_slice (json_Unmarshal_ptr (ReportingDescriptorRelationship_UnmarshalJSON ord)) v)
         (\<lambda>x (strct, idReceived). (strct\<lparr>ReportingDescriptor.Relationships := x\<rparr>, idReceived))),
      (''shortDescription'', into (json_Unmarshal_ptr (MultiformatMessageString_UnmarshalJSON ord) v)
         (\<lambda>x (strct, idReceived). (strct\<lparr>ReportingDescriptor.ShortDescription := x\<rparr>, idReceived)))]"

definition ReportingDescriptor_UnmarshalJSON :: "order \<Rightarrow> json \<Rightarrow> error + ReportingDescriptor" where
  "ReportingDescriptor_UnmarshalJSON ord b =
     (case json_Unmarshal_RawMessages b of
        Inl err \<Rightarrow> Inl err
      | Inr jsonMap \<Rightarrow>
          (case range_loop (\<lambda>k v. switch k (ReportingDescriptor_cases ord v) (reject k))
                  (range_map ord jsonMap) (ReportingDescriptor_zero, False) of
             Inl err \<Rightarrow> Inl err
           | Inr (strct, idReceived) \<Rightarrow>
              if \<not> idReceived then Inl (RequiredNotPresent ''id'')
              else Inr strct))"

subsection \<open>ToolComponent\<close>

record ToolComponent =
  AssociatedComponent :: "ToolComponentReference option"
  Contents :: "string"
  DottedQuadFileVersion :: "string"
  DownloadUri :: "string"
  FullDescription :: "MultiformatMessageString option"
  FullName :: "string"
  GlobalMessageStrings :: "MultiformatMessageString option go_map"
  Guid :: "string"
  InformationUri :: "string"
  IsComprehensive :: "bool"
  Language :: "string"
  LocalizedDataSemanticVersion :: "string"
  Locations :: "ArtifactLocation option list option"
  MinimumRequiredLocalizedDataSemanticVersion :: "string"
  Name :: "string"
  Notifications :: "ReportingDescriptor option list option"
  Organization :: "string"
  Product :: "string"
  ProductSuite :: "string"
  Properties :: "PropertyBag option"
  ReleaseDateUtc :: "string"
  Rules :: "ReportingDescriptor option list option"
  SemanticVersion :: "string"
  ShortDescription :: "MultiformatMessageString option"
  SupportedTaxonomies :: "ToolComponentReference option list option"
  Taxa :: "ReportingDescriptor option list option"
  TranslationMetadata :: "TranslationMetadata option"
  Version :: "string"

definition ToolComponent_zero :: "ToolComponent" where
  "ToolComponent_zero =
     \<lparr>ToolComponent.AssociatedComponent = None,
       ToolComponent.Contents = [],
       ToolComponent.DottedQuadFileVersion = [],
       ToolComponent.DownloadUri = [],
       ToolComponent.FullDescription = None,
       ToolComponent.FullName = [],
       ToolComponent.GlobalMessageStrings = None,
       ToolComponent.Guid = [],
       ToolComponent.InformationUri = [],
       ToolComponent.IsComprehensive = False,
       ToolComponent.Language = [],
       ToolComponent.LocalizedDataSemanticVersion = [],
       ToolComponent.Locations = None,
       ToolComponent.MinimumRequiredLocalizedDataSemanticVersion = [],
       ToolComponent.Name = [],
       ToolComponent.Notifications = None,
       ToolComponent.Organization = [],
       ToolComponent.Product = [],
       ToolComponent.ProductSuite = [],
       ToolComponent.Properties = None,
       ToolComponent.ReleaseDateUtc = [],
       ToolComponent.Rules = None,
       ToolComponent.SemanticVersion = [],
       ToolComponent.ShortDescription = None,
       ToolComponent.SupportedTaxonomies = None,
       ToolComponent.Taxa = None,
       ToolComponent.TranslationMetadata = None,
       ToolComponent.Version = []\<rparr>"

definition ToolComponent_MarshalJSON :: "scanner \<Rightarrow> order \<Rightarrow> ToolComponent \<Rightarrow> error + json" where
  "ToolComponent_MarshalJSON scn ord strct =
     object (
      emit ''associatedComponent'' (json_Marshal_ptr ''*sarif.ToolComponentReference'' (ToolComponentReference_MarshalJSON scn ord) (ToolComponent.AssociatedComponent strct)) (
      emit ''contents'' (json_Marshal_string (ToolComponent.Contents strct)) (
      emit ''dottedQuadFileVersion'' (json_Marshal_string (ToolComponent.DottedQuadFileVersion strct)) (
      emit ''downloadUri'' (json_Marshal_string (ToolComponent.DownloadUri strct)) (
      emit ''fullDescription'' (json_Marshal_ptr ''*sarif.MultiformatMessageString'' (MultiformatMessageString_MarshalJSON scn ord) (ToolComponent.FullDescription strct)) (
      emit ''fullName'' (json_Marshal_string (ToolComponent.FullName strct)) (
      emit ''globalMessageStrings'' (json_Marshal_map (json_Marshal_ptr ''*sarif.MultiformatMessageString'' (MultiformatMessageString_MarshalJSON scn ord)) (ToolComponent.GlobalMessageStrings strct)) (
      emit ''guid'' (json_Marshal_string (ToolComponent.Guid strct)) (
      emit ''informationUri'' (json_Marshal_string (ToolComponent.InformationUri strct)) (
      emit ''isComprehensive'' (json_Marshal_bool (ToolComponent.IsComprehensive strct)) (
      emit ''language'' (json_Marshal_string (ToolComponent.Language strct)) (
      emit ''localizedDataSemanticVersion'' (json_Marshal_string (ToolComponent.LocalizedDataSemanticVersion strct)) (
      emit ''locations'' (json_Marshal_slice (json_Marshal_ptr ''*sarif.ArtifactLocation'' (ArtifactLocation_MarshalJSON scn ord)) (ToolComponent.Locations strct)) (
      emit ''minimumRequiredLocalizedDataSemanticVersion'' (json_Marshal_string (ToolComponent.MinimumRequiredLocalizedDataSemanticVersion strct)) (
      emit ''name'' (json_Marshal_string (ToolComponent.Name strct)) (
      emit ''notifications'' (json_Marshal_slice (json_Marshal_ptr ''*sarif.ReportingDescriptor'' (ReportingDescriptor_MarshalJSON scn ord)) (ToolComponent.Notifications strct)) (
      emit ''organization'' (json_Marshal_string (ToolComponent.Organization strct)) (
      emit ''product'' (json_Marshal_string (ToolComponent.Product strct)) (
      emit ''productSuite'' (json_Marshal_string (ToolComponent.ProductSuite strct)) (
      emit ''properties'' (json_Marshal_bytes ''*sarif.PropertyBag'' (PropertyBag_MarshalJSON scn ord) (ToolComponent.Properties strct)) (
      emit ''releaseDateUtc'' (json_Marshal_string (ToolComponent.ReleaseDateUtc strct)) (
      emit ''rules'' (json_Marshal_slice (json_Marshal_ptr ''*sarif.ReportingDescriptor'' (ReportingDescriptor_MarshalJSON scn ord)) (ToolComponent.Rules strct)) (
      emit ''semanticVersion'' (json_Marshal_string (ToolComponent.SemanticVersion strct)) (
      emit ''shortDescription'' (json_Marshal_ptr ''*sarif.MultiformatMessageString'' (MultiformatMessageString_MarshalJSON scn ord) (ToolComponent.ShortDescription strct)) (
      emit ''supportedTaxonomies'' (json_Marshal_slice (json_Marshal_ptr ''*sarif.ToolComponentReference'' (ToolComponentReference_MarshalJSON scn ord)) (ToolComponent.SupportedTaxonomies strct)) (
      emit ''taxa'' (json_Marshal_slice (json_Marshal_ptr ''*sarif.ReportingDescriptor'' (ReportingDescriptor_MarshalJSON scn ord)) (ToolComponent.Taxa strct)) (
      emit ''translationMetadata'' (json_Marshal_ptr ''*sarif.TranslationMetadata'' (TranslationMetadata_MarshalJSON scn ord) (ToolComponent.TranslationMetadata strct)) (
      emit ''version'' (json_Marshal_string (ToolComponent.Version strct)) (
      Inr [])))))))))))))))))))))))))))))"

definition ToolComponent_cases :: "order \<Rightarrow> json \<Rightarrow> (string \<times> (ToolComponent \<times> bool) action) list" where
  "ToolComponent_cases ord v =
     [(''associatedComponent'', into (json_Unmarshal_ptr (ToolComponentReference_UnmarshalJSON ord) v)
         (\<lambda>x (strct, nameReceived). (strct\<lparr>ToolComponent.AssociatedComponent := x\<rparr>, nameReceived))),
      (''contents'', into (json_Unmarshal_string v)
         (\<lambda>x (strct, nameReceived). (strct\<lparr>ToolComponent.Contents := x\<rparr>, nameReceived))),
      (''dottedQuadFileVersion'', into (json_Unmarshal_string v)
         (\<lambda>x (strct, nameReceived). (strct\<lparr>ToolComponent.DottedQuadFileVersion := x\<rparr>, nameReceived))),
      (''downloadUri'', into (json_Unmarshal_string v)
         (\<lambda>x (strct, nameReceived). (strct\<lparr>ToolComponent.DownloadUri := x\<rparr>, nameReceived))),
      (''fullDescription'', into (json_Unmarshal_ptr (MultiformatMessageString_UnmarshalJSON ord) v)
         (\<lambda>x (strct, nameReceived). (strct\<lparr>ToolComponent.FullDescription := x\<rparr>, nameReceived))),
      (''fullName'', into (json_Unmarshal_string v)
         (\<lambda>x (strct, nameReceived). (strct\<lparr>ToolComponent.FullName := x\<rparr>, nameReceived))),
      (''globalMessageStrings'', into (json_Unmarshal_map (json_Unmarshal_ptr (MultiformatMessageString_UnmarshalJSON ord)) v)
         (\<lambda>x (strct, nameReceived). (strct\<lparr>ToolComponent.GlobalMessageStrings := x\<rparr>, nameReceived))),
      (''guid'', into (json_Unmarshal_string v)
         (\<lambda>x (strct, nameReceived). (strct\<lparr>ToolComponent.Guid := x\<rparr>, nameReceived))),
      (''informationUri'', into (json_Unmarshal_string v)
         (\<lambda>x (strct, nameReceived). (strct\<lparr>ToolComponent.InformationUri := x\<rparr>, nameReceived))),
      (''isComprehensive'', into (json_Unmarshal_bool v)
         (\<lambda>x (strct, nameReceived). (strct\<lparr>ToolComponent.IsComprehensive := x\<rparr>, nameReceived))),
      (''language'', into (json_Unmarshal_string v)
         (\<lambda>x (strct, nameReceived). (strct\<lparr>ToolComponent.Language := x\<rparr>, nameReceived))),
      (''localizedDataSemanticVersion'', into (json_Unmarshal_string v)
         (\<lambda>x (strct, nameReceived). (strct\<lparr>ToolComponent.LocalizedDataSemanticVersion := x\<rparr>, nameReceived))),
      (''locations'', into (json_Unmarshal_slice (json_Unmarshal_ptr (ArtifactLocation_UnmarshalJSON ord)) v)
         (\<lambda>x (strct, nameReceived). (strct\<lparr>ToolComponent.Locations := x\<rparr>, nameReceived))),
      (''minimumRequiredLocalizedDataSemanticVersion'', into (json_Unmarshal_string v)
         (\<lambda>x (strct, nameReceived). (strct\<lparr>ToolComponent.MinimumRequiredLocalizedDataSemanticVersion := x\<rparr>, nameReceived))),
      (''name'', into (json_Unmarshal_string v)
         (\<lambda>x (strct, nameReceived). (strct\<lparr>ToolComponent.Name := x\<rparr>, True))),
      (''notifications'', into (json_Unmarshal_slice (json_Unmarshal_ptr (ReportingDescriptor_UnmarshalJSON ord)) v)
         (\<lambda>x (strct, nameReceived). (strct\<lparr>ToolComponent.Notifications := x\<rparr>, nameReceived))),
      (''organization'', into (json_Unmarshal_string v)
         (\<lambda>x (strct, nameReceived). (strct\<lparr>ToolComponent.Organization := x\<rparr>, nameReceived))),
      (''product'', into (json_Unmarshal_string v)
         (\<lambda>x (strct, nameReceived). (strct\<lparr>ToolComponent.Product := x\<rparr>, nameReceived))),
      (''productSuite'', into (json_Unmarshal_string v)
         (\<lambda>x (strct, nameReceived). (strct\<lparr>ToolComponent.ProductSuite := x\<rparr>, nameReceived))),
      (''properties'', into (json_Unmarshal_ptr (PropertyBag_UnmarshalJSON ord) v)
         (\<lambda>x (strct, nameReceived). (strct\<lparr>ToolComponent.Properties := x\<rparr>, nameReceived))),
      (''releaseDateUtc'', into (json_Unmarshal_string v)
         (\<lambda>x (strct, nameReceived). (strct\<lparr>ToolComponent.ReleaseDateUtc := x\<rparr>, nameReceived))),
      (''rules'', into (json_Unmarshal_slice (json_Unmarshal_ptr (ReportingDescriptor_UnmarshalJSON ord)) v)
         (\<lambda>x (strct, nameReceived). (strct\<lparr>ToolComponent.Rules := x\<rparr>, nameReceived))),
      (''semanticVersion'', into (json_Unmarshal_string v)
         (\<lambda>x (strct, nameReceived). (strct\<lparr>ToolComponent.SemanticVersion := x\<rparr>, nameReceived))),
      (''shortDescription'', into (json_Unmarshal_ptr (MultiformatMessageString_UnmarshalJSON ord) v)
         (\<lambda>x (strct, nameReceived). (strct\<lparr>ToolComponent.ShortDescription := x\<rparr>, nameReceived))),
      (''supportedTaxonomies'', into (json_Unmarshal_slice (json_Unmarshal_ptr (ToolComponentReference_UnmarshalJSON ord)) v)
         (\<lambda>x (strct, nameReceived). (strct\<lparr>ToolComponent.SupportedTaxonomies := x\<rparr>, nameReceived))),
      (''taxa'', into (json_Unmarshal_slice (json_Unmarshal_ptr (ReportingDescriptor_UnmarshalJSON ord)) v)
         (\<lambda>x (strct, nameReceived). (strct\<lparr>ToolComponent.Taxa := x\<rparr>, nameReceived))),
      (''translationMetadata'', into (json_Unmarshal_ptr (TranslationMetadata_UnmarshalJSON ord) v)
         (\<lambda>x (strct, nameReceived). (strct\<lparr>ToolComponent.TranslationMetadata := x\<rparr>, nameReceived))),
      (''version'', into (json_Unmarshal_string v)
         (\<lambda>x (strct, nameReceived). (strct\<lparr>ToolComponent.Version := x\<rparr>, nameReceived)))]"

definition ToolComponent_UnmarshalJSON :: "order \<Rightarrow> json \<Rightarrow> error + ToolComponent" where
  "ToolComponent_UnmarshalJSON ord b =
     (case json_Unmarshal_RawMessages b of
        Inl err \<Rightarrow> Inl err
      | Inr jsonMap \<Rightarrow>
          (case range_loop (\<lambda>k v. switch k (ToolComponent_cases ord v) (reject k))
                  (range_map ord jsonMap) (ToolComponent_zero, False) of
             Inl err \<Rightarrow> Inl err
           | Inr (strct, nameReceived) \<Rightarrow>
              if \<not> nameReceived then Inl (RequiredNotPresent ''name'')
              else Inr strct))"

subsection \<open>Tool\<close>

record Tool =
  Driver :: "ToolComponent option"
  Extensions :: "ToolComponent option list option"
  Properties :: "PropertyBag option"

definition Tool_zero :: "Tool" where
  "Tool_zero =
     \<lparr>Tool.Driver = None,
       Tool.Extensions = None,
       Tool.Properties = None\<rparr>"

definition Tool_MarshalJSON :: "scanner \<Rightarrow> order \<Rightarrow> Tool \<Rightarrow> error + json" where
  "Tool_MarshalJSON scn ord strct =
     object (
      (if Tool.Driver strct = None then Inl (RequiredField ''driver'') else
      emit ''driver'' (json_Marshal_ptr ''*sarif.ToolComponent'' (ToolComponent_MarshalJSON scn ord) (Tool.Driver strct)) (
      emit ''extensions'' (json_Marshal_slice (json_Marshal_ptr ''*sarif.ToolComponent'' (ToolComponent_MarshalJSON scn ord)) (Tool.Extensions strct)) (
      emit ''properties'' (json_Marshal_bytes ''*sarif.PropertyBag'' (PropertyBag_MarshalJSON scn ord) (Tool.Properties strct)) (
      Inr [])))))"

definition Tool_cases :: "order \<Rightarrow> json \<Rightarrow> (string \<times> (Tool \<times> bool) action) list" where
  "Tool_cases ord v =
     [(''driver'', into (json_Unmarshal_ptr (ToolComponent_UnmarshalJSON ord) v)
         (\<lambda>x (strct, driverReceived). (strct\<lparr>Tool.Driver := x\<rparr>, True))),
      (''extensions'', into (json_Unmarshal_slice (json_Unmarshal_ptr (ToolComponent_UnmarshalJSON ord)) v)
         (\<lambda>x (strct, driverReceived). (strct\<lparr>Tool.Extensions := x\<rparr>, driverReceived))),
      (''properties'', into (json_Unmarshal_ptr (PropertyBag_UnmarshalJSON ord) v)
         (\<lambda>x (strct, driverReceived). (strct\<lparr>Tool.Properties := x\<rparr>, driverReceived)))]"

definition Tool_UnmarshalJSON :: "order \<Rightarrow> json \<Rightarrow> error + Tool" where
  "Tool_UnmarshalJSON ord b =
     (case json_Unmarshal_RawMessages b of
        Inl err \<Rightarrow> Inl err
      | Inr jsonMap \<Rightarrow>
          (case range_loop (\<lambda>k v. switch k (Tool_cases ord v) (reject k))
                  (range_map ord jsonMap) (Tool_zero, False) of
             Inl err \<Rightarrow> Inl err
           | Inr (strct, driverReceived) \<Rightarrow>
              if \<not> driverReceived then Inl (RequiredNotPresent ''driver'')
              else Inr strct))"

subsection \<open>Exception\<close>

datatype Exception = Exception (InnerExceptions: "Exception option list option") (Kind: "string") (Message: "string") (Properties: "PropertyBag option") (Stack: "Stack option")

definition Exception_zero :: "Exception" where
  "Exception_zero = Exception None [] [] None None"

lemma Exception_size_InnerExceptions:
  "Exception.InnerExceptions strct = Some xs \<Longrightarrow> Some x \<in> set xs \<Longrightarrow> size x < size strct"
  by (cases strct) (auto dest!: size_slice_target)

function Exception_MarshalJSON :: "scanner \<Rightarrow> order \<Rightarrow> Exception \<Rightarrow> error + json" where
  "Exception_MarshalJSON scn ord strct =
     object (
      emit ''innerExceptions'' (json_Marshal_slice (json_Marshal_ptr ''*sarif.Exception'' (Exception_MarshalJSON scn ord)) (Exception.InnerExceptions strct)) (
      emit ''kind'' (json_Marshal_string (Exception.Kind strct)) (
      emit ''message'' (json_Marshal_string (Exception.Message strct)) (
      emit ''properties'' (json_Marshal_bytes ''*sarif.PropertyBag'' (PropertyBag_MarshalJSON scn ord) (Exception.Properties strct)) (
      emit ''stack'' (json_Marshal_ptr ''*sarif.Stack'' (Stack_MarshalJSON scn ord) (Exception.Stack strct)) (
      Inr []))))))"

  by pat_completeness auto

termination Exception_MarshalJSON
  by (relation "measure (\<lambda>(scn, ord, strct). size strct)") (auto simp: Exception_size_InnerExceptions)

declare Exception_MarshalJSON.simps [simp del]

function Exception_UnmarshalJSON :: "order \<Rightarrow> json \<Rightarrow> error + Exception" where
  "Exception_UnmarshalJSON ord b =
     (case json_Unmarshal_RawMessages b of
        Inl err \<Rightarrow> Inl err
      | Inr jsonMap \<Rightarrow>
          (case range_loop (\<lambda>k v. switch k ([(''innerExceptions'', into (json_Unmarshal_slice (json_Unmarshal_ptr (Exception_UnmarshalJSON ord)) v)
         (\<lambda>x strct. Exception.Exception x (Exception.Kind strct) (Exception.Message strct) (Exception.Properties strct) (Exception.Stack strct))),
      (''kind'', into (json_Unmarshal_string v)
         (\<lambda>x strct. Exception.Exception (Exception.InnerExceptions strct) x (Exception.Message strct) (Exception.Properties strct) (Exception.Stack strct))),
      (''message'', into (json_Unmarshal_string v)
         (\<lambda>x strct. Exception.Exception (Exception.InnerExceptions strct) (Exception.Kind strct) x (Exception.Properties strct) (Exception.Stack strct))),
      (''properties'', into (json_Unmarshal_ptr (PropertyBag_UnmarshalJSON ord) v)
         (\<lambda>x strct. Exception.Exception (Exception.InnerExceptions strct) (Exception.Kind strct) (Exception.Message strct) x (Exception.Stack strct))),
      (''stack'', into (json_Unmarshal_ptr (Stack_UnmarshalJSON ord) v)
         (\<lambda>x strct. Exception.Exception (Exception.InnerExceptions strct) (Exception.Kind strct) (Exception.Message strct) (Exception.Properties strct) x))]) (reject k))
                  (range_map ord jsonMap) Exception_zero of
             Inl err \<Rightarrow> Inl err
           | Inr strct \<Rightarrow>
              Inr strct))"

  by pat_completeness auto

termination Exception_UnmarshalJSON
  by (relation "measure (\<lambda>(ord, b). size b)")
     (auto dest!: size_RawMessages size_element)

declare Exception_UnmarshalJSON.simps [simp del]

subsection \<open>Notification\<close>

record Notification =
  AssociatedRule :: "ReportingDescriptorReference option"
  Descriptor :: "ReportingDescriptorReference option"
  Exception :: "Exception option"
  Level :: "string"
  Locations :: "Location option list option"
  Message :: "Message option"
  Properties :: "PropertyBag option"
  ThreadId :: "go_int"
  TimeUtc :: "string"

definition Notification_zero :: "Notification" where
  "Notification_zero =
     \<lparr>Notification.AssociatedRule = None,
       Notification.Descriptor = None,
       Notification.Exception = None,
       Notification.Level = [],
       Notification.Locations = None,
       Notification.Message = None,
       Notification.Properties = None,
       Notification.ThreadId = 0,
       Notification.TimeUtc = []\<rparr>"

definition Notification_MarshalJSON :: "scanner \<Rightarrow> order \<Rightarrow> Notification \<Rightarrow> error + json" where
  "Notification_MarshalJSON scn ord strct =
     object (
      emit ''associatedRule'' (json_Marshal_ptr ''*sarif.ReportingDescriptorReference'' (ReportingDescriptorReference_MarshalJSON scn ord) (Notification.AssociatedRule strct)) (
      emit ''descriptor'' (json_Marshal_ptr ''*sarif.ReportingDescriptorReference'' (ReportingDescriptorReference_MarshalJSON scn ord) (Notification.Descriptor strct)) (
      emit ''exception'' (json_Marshal_ptr ''*sarif.Exception'' (Exception_MarshalJSON scn ord) (Notification.Exception strct)) (
      emit ''level'' (json_Marshal_string (Notification.Level strct)) (
      emit ''locations'' (json_Marshal_slice (json_Marshal_ptr ''*sarif.Location'' (Location_MarshalJSON scn ord)) (Notification.Locations strct)) (
      (if Notification.Message strct = None then Inl (RequiredField ''message'') else
      emit ''message'' (json_Marshal_ptr ''*sarif.Message'' (Message_MarshalJSON scn ord) (Notification.Message strct)) (
      emit ''properties'' (json_Marshal_bytes ''*sarif.PropertyBag'' (PropertyBag_MarshalJSON scn ord) (Notification.Properties strct)) (
      emit ''threadId'' (json_Marshal_int (Notification.ThreadId strct)) (
      emit ''timeUtc'' (json_Marshal_string (Notification.TimeUtc strct)) (
      Inr [])))))))))))"

definition Notification_cases :: "order \<Rightarrow> json \<Rightarrow> (string \<times> (Notification \<times> bool) action) list" where
  "Notification_cases ord v =
     [(''associatedRule'', into (json_Unmarshal_ptr (ReportingDescriptorReference_UnmarshalJSON ord) v)
         (\<lambda>x (strct, messageReceived). (strct\<lparr>Notification.AssociatedRule := x\<rparr>, messageReceived))),
      (''descriptor'', into (json_Unmarshal_ptr (ReportingDescriptorReference_UnmarshalJSON ord) v)
         (\<lambda>x (strct, messageReceived). (strct\<lparr>Notification.Descriptor := x\<rparr>, messageReceived))),
      (''exception'', into (json_Unmarshal_ptr (Exception_UnmarshalJSON ord) v)
         (\<lambda>x (strct, messageReceived). (strct\<lparr>Notification.Exception := x\<rparr>, messageReceived))),
      (''level'', into (json_Unmarshal_string v)
         (\<lambda>x (strct, messageReceived). (strct\<lparr>Notification.Level := x\<rparr>, messageReceived))),
      (''locations'', into (json_Unmarshal_slice (json_Unmarshal_ptr (Location_UnmarshalJSON ord)) v)
         (\<lambda>x (strct, messageReceived). (strct\<lparr>Notification.Locations := x\<rparr>, messageReceived))),
      (''message'', into (json_Unmarshal_ptr (Message_UnmarshalJSON ord) v)
         (\<lambda>x (strct, messageReceived). (strct\<lparr>Notification.Message := x\<rparr>, True))),
      (''properties'', into (json_Unmarshal_ptr (PropertyBag_UnmarshalJSON ord) v)
         (\<lambda>x (strct, messageReceived). (strct\<lparr>Notification.Properties := x\<rparr>, messageReceived))),
      (''threadId'', into (json_Unmarshal_int v)
         (\<lambda>x (strct, messageReceived). (strct\<lparr>Notification.ThreadId := x\<rparr>, messageReceived))),
      (''timeUtc'', into (json_Unmarshal_string v)
         (\<lambda>x (strct, messageReceived). (strct\<lparr>Notification.TimeUtc := x\<rparr>, messageReceived)))]"

definition Notification_UnmarshalJSON :: "order \<Rightarrow> json \<Rightarrow> error + Notification" where
  "Notification_UnmarshalJSON ord b =
     (case json_Unmarshal_RawMessages b of
        Inl err \<Rightarrow> Inl err
      | Inr jsonMap \<Rightarrow>
          (case range_loop (\<lambda>k v. switch k (Notification_cases ord v) (reject k))
                  (range_map ord jsonMap) (Notification_zero, False) of
             Inl err \<Rightarrow> Inl err
           | Inr (strct, messageReceived) \<Rightarrow>
              if \<not> messageReceived then Inl (RequiredNotPresent ''message'')
              else Inr strct))"

subsection \<open>Invocation\<close>

record Invocation =
  Account :: "string"
  Arguments :: "string list option"
  CommandLine :: "string"
  EndTimeUtc :: "string"
  EnvironmentVariables :: "string go_map"
  ExecutableLocation :: "ArtifactLocation option"
  ExecutionSuccessful :: "bool"
  ExitCode :: "go_int"
  ExitCodeDescription :: "string"
  ExitSignalName :: "string"
  ExitSignalNumber :: "go_int"
  Machine :: "string"
  NotificationConfigurationOverrides :: "ConfigurationOverride option list option"
  ProcessId :: "go_int"
  ProcessStartFailureMessage :: "string"
  Properties :: "PropertyBag option"
  ResponseFiles :: "ArtifactLocation option list option"
  RuleConfigurationOverrides :: "ConfigurationOverride option list option"
  StartTimeUtc :: "string"
  Stderr :: "ArtifactLocation option"
  Stdin :: "ArtifactLocation option"
  Stdout :: "ArtifactLocation option"
  StdoutStderr :: "ArtifactLocation option"
  ToolConfigurationNotifications :: "Notification option list option"
  ToolExecutionNotifications :: "Notification option list option"
  WorkingDirectory :: "ArtifactLocation option"

definition Invocation_zero :: "Invocation" where
  "Invocation_zero =
     \<lparr>Invocation.Account = [],
       Invocation.Arguments = None,
       Invocation.CommandLine = [],
       Invocation.EndTimeUtc = [],
       Invocation.EnvironmentVariables = None,
       Invocation.ExecutableLocation = None,
       Invocation.ExecutionSuccessful = False,
       Invocation.ExitCode = 0,
       Invocation.ExitCodeDescription = [],
       Invocation.ExitSignalName = [],
       Invocation.ExitSignalNumber = 0,
       Invocation.Machine = [],
       Invocation.NotificationConfigurationOverrides = None,
       Invocation.ProcessId = 0,
       Invocation.ProcessStartFailureMessage = [],
       Invocation.Properties = None,
       Invocation.ResponseFiles = None,
       Invocation.RuleConfigurationOverrides = None,
       Invocation.StartTimeUtc = [],
       Invocation.Stderr = None,
       Invocation.Stdin = None,
       Invocation.Stdout = None,
       Invocation.StdoutStderr = None,
       Invocation.ToolConfigurationNotifications = None,
       Invocation.ToolExecutionNotifications = None,
       Invocation.WorkingDirectory = None\<rparr>"

definition Invocation_MarshalJSON :: "scanner \<Rightarrow> order \<Rightarrow> Invocation \<Rightarrow> error + json" where
  "Invocation_MarshalJSON scn ord strct =
     object (
      emit ''account'' (json_Marshal_string (Invocation.Account strct)) (
      emit ''arguments'' (json_Marshal_slice json_Marshal_string (Invocation.Arguments strct)) (
      emit ''commandLine'' (json_Marshal_string (Invocation.CommandLine strct)) (
      emit ''endTimeUtc'' (json_Marshal_string (Invocation.EndTimeUtc strct)) (
      emit ''environmentVariables'' (json_Marshal_map json_Marshal_string (Invocation.EnvironmentVariables strct)) (
      emit ''executableLocation'' (json_Marshal_ptr ''*sarif.ArtifactLocation'' (ArtifactLocation_MarshalJSON scn ord) (Invocation.ExecutableLocation strct)) (
      emit ''executionSuccessful'' (json_Marshal_bool (Invocation.ExecutionSuccessful strct)) (
      emit ''exitCode'' (json_Marshal_int (Invocation.ExitCode strct)) (
      emit ''exitCodeDescription'' (json_Marshal_string (Invocation.ExitCodeDescription strct)) (
      emit ''exitSignalName'' (json_Marshal_string (Invocation.ExitSignalName strct)) (
      emit ''exitSignalNumber'' (json_Marshal_int (Invocation.ExitSignalNumber strct)) (
      emit ''machine'' (json_Marshal_string (Invocation.Machine strct)) (
      emit ''notificationConfigurationOverrides'' (json_Marshal_slice (json_Marshal_ptr ''*sarif.ConfigurationOverride'' (ConfigurationOverride_MarshalJSON scn ord)) (Invocation.NotificationConfigurationOverrides strct)) (
      emit ''processId'' (json_Marshal_int (Invocation.ProcessId strct)) (
      emit ''processStartFailureMessage'' (json_Marshal_string (Invocation.ProcessStartFailureMessage strct)) (
      emit ''properties'' (json_Marshal_bytes ''*sarif.PropertyBag'' (PropertyBag_MarshalJSON scn ord) (Invocation.Properties strct)) (
      emit ''responseFiles'' (json_Marshal_slice (json_Marshal_ptr ''*sarif.ArtifactLocation'' (ArtifactLocation_MarshalJSON scn ord)) (Invocation.ResponseFiles strct)) (
      emit ''ruleConfigurationOverrides'' (json_Marshal_slice (json_Marshal_ptr ''*sarif.ConfigurationOverride'' (ConfigurationOverride_MarshalJSON scn ord)) (Invocation.RuleConfigurationOverrides strct)) (
      emit ''startTimeUtc'' (json_Marshal_string (Invocation.StartTimeUtc strct)) (
      emit ''stderr'' (json_Marshal_ptr ''*sarif.ArtifactLocation'' (ArtifactLocation_MarshalJSON scn ord) (Invocation.Stderr strct)) (
      emit ''stdin'' (json_Marshal_ptr ''*sarif.ArtifactLocation'' (ArtifactLocation_MarshalJSON scn ord) (Invocation.Stdin strct)) (
      emit ''stdout'' (json_Marshal_ptr ''*sarif.ArtifactLocation'' (ArtifactLocation_MarshalJSON scn ord) (Invocation.Stdout strct)) (
      emit ''stdoutStderr'' (json_Marshal_ptr ''*sarif.ArtifactLocation'' (ArtifactLocation_MarshalJSON scn ord) (Invocation.StdoutStderr strct)) (
      emit ''toolConfigurationNotifications'' (json_Marshal_slice (json_Marshal_ptr ''*sarif.Notification'' (Notification_MarshalJSON scn ord)) (Invocation.ToolConfigurationNotifications strct)) (
      emit ''toolExecutionNotifications'' (json_Marshal_slice (json_Marshal_ptr ''*sarif.Notification'' (Notification_MarshalJSON scn ord)) (Invocation.ToolExecutionNotifications strct)) (
      emit ''workingDirectory'' (json_Marshal_ptr ''*sarif.ArtifactLocation'' (ArtifactLocation_MarshalJSON scn ord) (Invocation.WorkingDirectory strct)) (
      Inr [])))))))))))))))))))))))))))"

definition Invocation_cases :: "order \<Rightarrow> json \<Rightarrow> (string \<times> (Invocation \<times> bool) action) list" where
  "Invocation_cases ord v =
     [(''account'', into (json_Unmarshal_string v)
         (\<lambda>x (strct, executionSuccessfulReceived). (strct\<lparr>Invocation.Account := x\<rparr>, executionSuccessfulReceived))),
      (''arguments'', into (json_Unmarshal_slice json_Unmarshal_string v)
         (\<lambda>x (strct, executionSuccessfulReceived). (strct\<lparr>Invocation.Arguments := x\<rparr>, executionSuccessfulReceived))),
      (''commandLine'', into (json_Unmarshal_string v)
         (\<lambda>x (strct, executionSuccessfulReceived). (strct\<lparr>Invocation.CommandLine := x\<rparr>, executionSuccessfulReceived))),
      (''endTimeUtc'', into (json_Unmarshal_string v)
         (\<lambda>x (strct, executionSuccessfulReceived). (strct\<lparr>Invocation.EndTimeUtc := x\<rparr>, executionSuccessfulReceived))),
      (''environmentVariables'', into (json_Unmarshal_map json_Unmarshal_string v)
         (\<lambda>x (strct, executionSuccessfulReceived). (strct\<lparr>Invocation.EnvironmentVariables := x\<rparr>, executionSuccessfulReceived))),
      (''executableLocation'', into (json_Unmarshal_ptr (ArtifactLocation_UnmarshalJSON ord) v)
         (\<lambda>x (strct, executionSuccessfulReceived). (strct\<lparr>Invocation.ExecutableLocation := x\<rparr>, executionSuccessfulReceived))),
      (''executionSuccessful'', into (json_Unmarshal_bool v)
         (\<lambda>x (strct, executionSuccessfulReceived). (strct\<lparr>Invocation.ExecutionSuccessful := x\<rparr>, True))),
      (''exitCode'', into (json_Unmarshal_int v)
         (\<lambda>x (strct, executionSuccessfulReceived). (strct\<lparr>Invocation.ExitCode := x\<rparr>, executionSuccessfulReceived))),
      (''exitCodeDescription'', into (json_Unmarshal_string v)
         (\<lambda>x (strct, executionSuccessfulReceived). (strct\<lparr>Invocation.ExitCodeDescription := x\<rparr>, executionSuccessfulReceived))),
      (''exitSignalName'', into (json_Unmarshal_string v)
         (\<lambda>x (strct, executionSuccessfulReceived). (strct\<lparr>Invocation.ExitSignalName := x\<rparr>, executionSuccessfulReceived))),
      (''exitSignalNumber'', into (json_Unmarshal_int v)
         (\<lambda>x (strct, executionSuccessfulReceived). (strct\<lparr>Invocation.ExitSignalNumber := x\<rparr>, executionSuccessfulReceived))),
      (''machine'', into (json_Unmarshal_string v)
         (\<lambda>x (strct, executionSuccessfulReceived). (strct\<lparr>Invocation.Machine := x\<rparr>, executionSuccessfulReceived))),
      (''notificationConfigurationOverrides'', into (json_Unmarshal_slice (json_Unmarshal_ptr (ConfigurationOverride_UnmarshalJSON ord)) v)
         (\<lambda>x (strct, executionSuccessfulReceived). (strct\<lparr>Invocation.NotificationConfigurationOverrides := x\<rparr>, executionSuccessfulReceived))),
      (''processId'', into (json_Unmarshal_int v)
         (\<lambda>x (strct, executionSuccessfulReceived). (strct\<lparr>Invocation.ProcessId := x\<rparr>, executionSuccessfulReceived))),
      (''processStartFailureMessage'', into (json_Unmarshal_string v)
         (\<lambda>x (strct, executionSuccessfulReceived). (strct\<lparr>Invocation.ProcessStartFailureMessage := x\<rparr>, executionSuccessfulReceived))),
      (''properties'', into (json_Unmarshal_ptr (PropertyBag_UnmarshalJSON ord) v)
         (\<lambda>x (strct, executionSuccessfulReceived). (strct\<lparr>Invocation.Properties := x\<rparr>, executionSuccessfulReceived))),
      (''responseFiles'', into (json_Unmarshal_slice (json_Unmarshal_ptr (ArtifactLocation_UnmarshalJSON ord)) v)
         (\<lambda>x (strct, executionSuccessfulReceived). (strct\<lparr>Invocation.ResponseFiles := x\<rparr>, executionSuccessfulReceived))),
      (''ruleConfigurationOverrides'', into (json_Unmarshal_slice (json_Unmarshal_ptr (ConfigurationOverride_UnmarshalJSON ord)) v)
         (\<lambda>x (strct, executionSuccessfulReceived). (strct\<lparr>Invocation.RuleConfigurationOverrides := x\<rparr>, executionSuccessfulReceived))),
      (''startTimeUtc'', into (json_Unmarshal_string v)
         (\<lambda>x (strct, executionSuccessfulReceived). (strct\<lparr>Invocation.StartTimeUtc := x\<rparr>, executionSuccessfulReceived))),
      (''stderr'', into (json_Unmarshal_ptr (ArtifactLocation_UnmarshalJSON ord) v)
         (\<lambda>x (strct, executionSuccessfulReceived). (strct\<lparr>Invocation.Stderr := x\<rparr>, executionSuccessfulReceived))),
      (''stdin'', into (json_Unmarshal_ptr (ArtifactLocation_UnmarshalJSON ord) v)
         (\<lambda>x (strct, executionSuccessfulReceived). (strct\<lparr>Invocation.Stdin := x\<rparr>, executionSuccessfulReceived))),
      (''stdout'', into (json_Unmarshal_ptr (ArtifactLocation_UnmarshalJSON ord) v)
         (\<lambda>x (strct, executionSuccessfulReceived). (strct\<lparr>Invocation.Stdout := x\<rparr>, executionSuccessfulReceived))),
      (''stdoutStderr'', into (json_Unmarshal_ptr (ArtifactLocation_UnmarshalJSON ord) v)
         (\<lambda>x (strct, executionSuccessfulReceived). (strct\<lparr>Invocation.StdoutStderr := x\<rparr>, executionSuccessfulReceived))),
      (''toolConfigurationNotifications'', into (json_Unmarshal_slice (json_Unmarshal_ptr (Notification_UnmarshalJSON ord)) v)
         (\<lambda>x (strct, executionSuccessfulReceived). (strct\<lparr>Invocation.ToolConfigurationNotifications := x\<rparr>, executionSuccessfulReceived))),
      (''toolExecutionNotifications'', into (json_Unmarshal_slice (json_Unmarshal_ptr (Notification_UnmarshalJSON ord)) v)
         (\<lambda>x (strct, executionSuccessfulReceived). (strct\<lparr>Invocation.ToolExecutionNotifications := x\<rparr>, executionSuccessfulReceived))),
      (''workingDirectory'', into (json_Unmarshal_ptr (ArtifactLocation_UnmarshalJSON ord) v)
         (\<lambda>x (strct, executionSuccessfulReceived). (strct\<lparr>Invocation.WorkingDirectory := x\<rparr>, executionSuccessfulReceived)))]"

definition Invocation_UnmarshalJSON :: "order \<Rightarrow> json \<Rightarrow> error + Invocation" where
  "Invocation_UnmarshalJSON ord b =
     (case json_Unmarshal_RawMessages b of
        Inl err \<Rightarrow> Inl err
      | Inr jsonMap \<Rightarrow>
          (case range_loop (\<lambda>k v. switch k (Invocation_cases ord v) (reject k))
                  (range_map ord jsonMap) (Invocation_zero, False) of
             Inl err \<Rightarrow> Inl err
           | Inr (strct, executionSuccessfulReceived) \<Rightarrow>
              if \<not> executionSuccessfulReceived then Inl (RequiredNotPresent ''executionSuccessful'')
              else Inr strct))"

subsection \<open>Conversion\<close>

record Conversion =
  AnalysisToolLogFiles :: "ArtifactLocation option list option"
  Invocation :: "Invocation option"
  Properties :: "PropertyBag option"
  Tool :: "Tool option"

definition Conversion_zero :: "Conversion" where
  "Conversion_zero =
     \<lparr>Conversion.AnalysisToolLogFiles = None,
       Conversion.Invocation = None,
       Conversion.Properties = None,
       Conversion.Tool = None\<rparr>"

definition Conversion_MarshalJSON :: "scanner \<Rightarrow> order \<Rightarrow> Conversion \<Rightarrow> error + json" where
  "Conversion_MarshalJSON scn ord strct =
     object (
      emit ''analysisToolLogFiles'' (json_Marshal_slice (json_Marshal_ptr ''*sarif.ArtifactLocation'' (ArtifactLocation_MarshalJSON scn ord)) (Conversion.AnalysisToolLogFiles strct)) (
      emit ''invocation'' (json_Marshal_ptr ''*sarif.Invocation'' (Invocation_MarshalJSON scn ord) (Conversion.Invocation strct)) (
      emit ''properties'' (json_Marshal_bytes ''*sarif.PropertyBag'' (PropertyBag_MarshalJSON scn ord) (Conversion.Properties strct)) (
      (if Conversion.Tool strct = None then Inl (RequiredField ''tool'') else
      emit ''tool'' (json_Marshal_ptr ''*sarif.Tool'' (Tool_MarshalJSON scn ord) (Conversion.Tool strct)) (
      Inr []))))))"

definition Conversion_cases :: "order \<Rightarrow> json \<Rightarrow> (string \<times> (Conversion \<times> bool) action) list" where
  "Conversion_cases ord v =
     [(''analysisToolLogFiles'', into (json_Unmarshal_slice (json_Unmarshal_ptr (ArtifactLocation_UnmarshalJSON ord)) v)
         (\<lambda>x (strct, toolReceived). (strct\<lparr>Conversion.AnalysisToolLogFiles := x\<rparr>, toolReceived))),
      (''invocation'', into (json_Unmarshal_ptr (Invocation_UnmarshalJSON ord) v)
         (\<lambda>x (strct, toolReceived). (strct\<lparr>Conversion.Invocation := x\<rparr>, toolReceived))),
      (''properties'', into (json_Unmarshal_ptr (PropertyBag_UnmarshalJSON ord) v)
         (\<lambda>x (strct, toolReceived). (strct\<lparr>Conversion.Properties := x\<rparr>, toolReceived))),
      (''tool'', into (json_Unmarshal_ptr (Tool_UnmarshalJSON ord) v)
         (\<lambda>x (strct, toolReceived). (strct\<lparr>Conversion.Tool := x\<rparr>, True)))]"

definition Conversion_UnmarshalJSON :: "order \<Rightarrow> json \<Rightarrow> error + Conversion" where
  "Conversion_UnmarshalJSON ord b =
     (case json_Unmarshal_RawMessages b of
        Inl err \<Rightarrow> Inl err
      | Inr jsonMap \<Rightarrow>
          (case range_loop (\<lambda>k v. switch k (Conversion_cases ord v) (reject k))
                  (range_map ord jsonMap) (Conversion_zero, False) of
             Inl err \<Rightarrow> Inl err
           | Inr (strct, toolReceived) \<Rightarrow>
              if \<not> toolReceived then Inl (RequiredNotPresent ''tool'')
              else Inr strct))"

subsection \<open>Edge\<close>

record Edge =
  Id :: "string"
  Label :: "Message option"
  Properties :: "PropertyBag option"
  SourceNodeId :: "string"
  TargetNodeId :: "string"

definition Edge_zero :: "Edge" where
  "Edge_zero =
     \<lparr>Edge.Id = [],
       Edge.Label = None,
       Edge.Properties = None,
       Edge.SourceNodeId = [],
       Edge.TargetNodeId = []\<rparr>"

definition Edge_MarshalJSON :: "scanner \<Rightarrow> order \<Rightarrow> Edge \<Rightarrow> error + json" where
  "Edge_MarshalJSON scn ord strct =
     object (
      emit ''id'' (json_Marshal_string (Edge.Id strct)) (
      emit ''label'' (json_Marshal_ptr ''*sarif.Message'' (Message_MarshalJSON scn ord) (Edge.Label strct)) (
      emit ''properties'' (json_Marshal_bytes ''*sarif.PropertyBag'' (PropertyBag_MarshalJSON scn ord) (Edge.Properties strct)) (
      emit ''sourceNodeId'' (json_Marshal_string (Edge.SourceNodeId strct)) (
      emit ''targetNodeId'' (json_Marshal_string (Edge.TargetNodeId strct)) (
      Inr []))))))"

definition Edge_cases :: "order \<Rightarrow> json \<Rightarrow> (string \<times> (Edge \<times> bool \<times> bool \<times> bool) action) list" where
  "Edge_cases ord v =
     [(''id'', into (json_Unmarshal_string v)
         (\<lambda>x (strct, idReceived, sourceNodeIdReceived, targetNodeIdReceived). (strct\<lparr>Edge.Id := x\<rparr>, True, sourceNodeIdReceived, targetNodeIdReceived))),
      (''label'', into (json_Unmarshal_ptr (Message_UnmarshalJSON ord) v)
         (\<lambda>x (strct, idReceived, sourceNodeIdReceived, targetNodeIdReceived). (strct\<lparr>Edge.Label := x\<rparr>, idReceived, sourceNodeIdReceived, targetNodeIdReceived))),
      (''properties'', into (json_Unmarshal_ptr (PropertyBag_UnmarshalJSON ord) v)
         (\<lambda>x (strct, idReceived, sourceNodeIdReceived, targetNodeIdReceived). (strct\<lparr>Edge.Properties := x\<rparr>, idReceived, sourceNodeIdReceived, targetNodeIdReceived))),
      (''sourceNodeId'', into (json_Unmarshal_string v)
         (\<lambda>x (strct, idReceived, sourceNodeIdReceived, targetNodeIdReceived). (strct\<lparr>Edge.SourceNodeId := x\<rparr>, idReceived, True, targetNodeIdReceived))),
      (''targetNodeId'', into (json_Unmarshal_string v)
         (\<lambda>x (strct, idReceived, sourceNodeIdReceived, targetNodeIdReceived). (strct\<lparr>Edge.TargetNodeId := x\<rparr>, idReceived, sourceNodeIdReceived, True)))]"

definition Edge_UnmarshalJSON :: "order \<Rightarrow> json \<Rightarrow> error + Edge" where
  "Edge_UnmarshalJSON ord b =
     (case json_Unmarshal_RawMessages b of
        Inl err \<Rightarrow> Inl err
      | Inr jsonMap \<Rightarrow>
          (case range_loop (\<lambda>k v. switch k (Edge_cases ord v) (reject k))
                  (range_map ord jsonMap) (Edge_zero, False, False, False) of
             Inl err \<Rightarrow> Inl err
           | Inr (strct, idReceived, sourceNodeIdReceived, targetNodeIdReceived) \<Rightarrow>
              if \<not> idReceived then Inl (RequiredNotPresent ''id'')
              else if \<not> sourceNodeIdReceived then Inl (RequiredNotPresent ''sourceNodeId'')
              else if \<not> targetNodeIdReceived then Inl (RequiredNotPresent ''targetNodeId'')
              else Inr strct))"

subsection \<open>EdgeTraversal\<close>

record EdgeTraversal =
  EdgeId :: "string"
  FinalState :: "MultiformatMessageString option go_map"
  Message :: "Message option"
  Properties :: "PropertyBag option"
  StepOverEdgeCount :: "go_int"

definition EdgeTraversal_zero :: "EdgeTraversal" where
  "EdgeTraversal_zero =
     \<lparr>EdgeTraversal.EdgeId = [],
       EdgeTraversal.FinalState = None,
       EdgeTraversal.Message = None,
       EdgeTraversal.Properties = None,
       EdgeTraversal.StepOverEdgeCount = 0\<rparr>"

definition EdgeTraversal_MarshalJSON :: "scanner \<Rightarrow> order \<Rightarrow> EdgeTraversal \<Rightarrow> error + json" where
  "EdgeTraversal_MarshalJSON scn ord strct =
     object (
      emit ''edgeId'' (json_Marshal_string (EdgeTraversal.EdgeId strct)) (
      emit ''finalState'' (json_Marshal_map (json_Marshal_ptr ''*sarif.MultiformatMessageString'' (MultiformatMessageString_MarshalJSON scn ord)) (EdgeTraversal.FinalState strct)) (
      emit ''message'' (json_Marshal_ptr ''*sarif.Message'' (Message_MarshalJSON scn ord) (EdgeTraversal.Message strct)) (
      emit ''properties'' (json_Marshal_bytes ''*sarif.PropertyBag'' (PropertyBag_MarshalJSON scn ord) (EdgeTraversal.Properties strct)) (
      emit ''stepOverEdgeCount'' (json_Marshal_int (EdgeTraversal.StepOverEdgeCount strct)) (
      Inr []))))))"

definition EdgeTraversal_cases :: "order \<Rightarrow> json \<Rightarrow> (string \<times> (EdgeTraversal \<times> bool) action) list" where
  "EdgeTraversal_cases ord v =
     [(''edgeId'', into (json_Unmarshal_string v)
         (\<lambda>x (strct, edgeIdReceived). (strct\<lparr>EdgeTraversal.EdgeId := x\<rparr>, True))),
      (''finalState'', into (json_Unmarshal_map (json_Unmarshal_ptr (MultiformatMessageString_UnmarshalJSON ord)) v)
         (\<lambda>x (strct, edgeIdReceived). (strct\<lparr>EdgeTraversal.FinalState := x\<rparr>, edgeIdReceived))),
      (''message'', into (json_Unmarshal_ptr (Message_UnmarshalJSON ord) v)
         (\<lambda>x (strct, edgeIdReceived). (strct\<lparr>EdgeTraversal.Message := x\<rparr>, edgeIdReceived))),
      (''properties'', into (json_Unmarshal_ptr (PropertyBag_UnmarshalJSON ord) v)
         (\<lambda>x (strct, edgeIdReceived). (strct\<lparr>EdgeTraversal.Properties := x\<rparr>, edgeIdReceived))),
      (''stepOverEdgeCount'', into (json_Unmarshal_int v)
         (\<lambda>x (strct, edgeIdReceived). (strct\<lparr>EdgeTraversal.StepOverEdgeCount := x\<rparr>, edgeIdReceived)))]"

definition EdgeTraversal_UnmarshalJSON :: "order \<Rightarrow> json \<Rightarrow> error + EdgeTraversal" where
  "EdgeTraversal_UnmarshalJSON ord b =
     (case json_Unmarshal_RawMessages b of
        Inl err \<Rightarrow> Inl err
      | Inr jsonMap \<Rightarrow>
          (case range_loop (\<lambda>k v. switch k (EdgeTraversal_cases ord v) (reject k))
                  (range_map ord jsonMap) (EdgeTraversal_zero, False) of
             Inl err \<Rightarrow> Inl err
           | Inr (strct, edgeIdReceived) \<Rightarrow>
              if \<not> edgeIdReceived then Inl (RequiredNotPresent ''edgeId'')
              else Inr strct))"

subsection \<open>ResultProvenance\<close>

record ResultProvenance =
  ConversionSources :: "PhysicalLocation option list option"
  FirstDetectionRunGuid :: "string"
  FirstDetectionTimeUtc :: "string"
  InvocationIndex :: "go_int"
  LastDetectionRunGuid :: "string"
  LastDetectionTimeUtc :: "string"
  Properties :: "PropertyBag option"

definition ResultProvenance_zero :: "ResultProvenance" where
  "ResultProvenance_zero =
     \<lparr>ResultProvenance.ConversionSources = None,
       ResultProvenance.FirstDetectionRunGuid = [],
       ResultProvenance.FirstDetectionTimeUtc = [],
       ResultProvenance.InvocationIndex = 0,
       ResultProvenance.LastDetectionRunGuid = [],
       ResultProvenance.LastDetectionTimeUtc = [],
       ResultProvenance.Properties = None\<rparr>"

definition ResultProvenance_MarshalJSON :: "scanner \<Rightarrow> order \<Rightarrow> ResultProvenance \<Rightarrow> error + json" where
  "ResultProvenance_MarshalJSON scn ord strct =
     object (
      emit ''conversionSources'' (json_Marshal_slice (json_Marshal_ptr ''*sarif.PhysicalLocation'' (PhysicalLocation_MarshalJSON scn ord)) (ResultProvenance.ConversionSources strct)) (
      emit ''firstDetectionRunGuid'' (json_Marshal_string (ResultProvenance.FirstDetectionRunGuid strct)) (
      emit ''firstDetectionTimeUtc'' (json_Marshal_string (ResultProvenance.FirstDetectionTimeUtc strct)) (
      emit ''invocationIndex'' (json_Marshal_int (ResultProvenance.InvocationIndex strct)) (
      emit ''lastDetectionRunGuid'' (json_Marshal_string (ResultProvenance.LastDetectionRunGuid strct)) (
      emit ''lastDetectionTimeUtc'' (json_Marshal_string (ResultProvenance.LastDetectionTimeUtc strct)) (
      emit ''properties'' (json_Marshal_bytes ''*sarif.PropertyBag'' (PropertyBag_MarshalJSON scn ord) (ResultProvenance.Properties strct)) (
      Inr []))))))))"

definition ResultProvenance_cases :: "order \<Rightarrow> json \<Rightarrow> (string \<times> (ResultProvenance) action) list" where
  "ResultProvenance_cases ord v =
     [(''conversionSources'', into (json_Unmarshal_slice (json_Unmarshal_ptr (PhysicalLocation_UnmarshalJSON ord)) v)
         (\<lambda>x strct. strct\<lparr>ResultProvenance.ConversionSources := x\<rparr>)),
      (''firstDetectionRunGuid'', into (json_Unmarshal_string v)
         (\<lambda>x strct. strct\<lparr>ResultProvenance.FirstDetectionRunGuid := x\<rparr>)),
      (''firstDetectionTimeUtc'', into (json_Unmarshal_string v)
         (\<lambda>x strct. strct\<lparr>ResultProvenance.FirstDetectionTimeUtc := x\<rparr>)),
      (''invocationIndex'', into (json_Unmarshal_int v)
         (\<lambda>x strct. strct\<lparr>ResultProvenance.InvocationIndex := x\<rparr>)),
      (''lastDetectionRunGuid'', into (json_Unmarshal_string v)
         (\<lambda>x strct. strct\<lparr>ResultProvenance.LastDetectionRunGuid := x\<rparr>)),
      (''lastDetectionTimeUtc'', into (json_Unmarshal_string v)
         (\<lambda>x strct. strct\<lparr>ResultProvenance.LastDetectionTimeUtc := x\<rparr>)),
      (''properties'', into (json_Unmarshal_ptr (PropertyBag_UnmarshalJSON ord) v)
         (\<lambda>x strct. strct\<lparr>ResultProvenance.Properties := x\<rparr>))]"

definition ResultProvenance_UnmarshalJSON :: "order \<Rightarrow> json \<Rightarrow> error + ResultProvenance" where
  "ResultProvenance_UnmarshalJSON ord b =
     (case json_Unmarshal_RawMessages b of
        Inl err \<Rightarrow> Inl err
      | Inr jsonMap \<Rightarrow>
          (case range_loop (\<lambda>k v. switch k (ResultProvenance_cases ord v) (reject k))
                  (range_map ord jsonMap) ResultProvenance_zero of
             Inl err \<Rightarrow> Inl err
           | Inr strct \<Rightarrow>
              Inr strct))"

subsection \<open>Fix\<close>

record Fix =
  ArtifactChanges :: "ArtifactChange option list option"
  Description :: "Message option"
  Properties :: "PropertyBag option"

definition Fix_zero :: "Fix" where
  "Fix_zero =
     \<lparr>Fix.ArtifactChanges = None,
       Fix.Description = None,
       Fix.Properties = None\<rparr>"

definition Fix_MarshalJSON :: "scanner \<Rightarrow> order \<Rightarrow> Fix \<Rightarrow> error + json" where
  "Fix_MarshalJSON scn ord strct =
     object (
      emit ''artifactChanges'' (json_Marshal_slice (json_Marshal_ptr ''*sarif.ArtifactChange'' (ArtifactChange_MarshalJSON scn ord)) (Fix.ArtifactChanges strct)) (
      emit ''description'' (json_Marshal_ptr ''*sarif.Message'' (Message_MarshalJSON scn ord) (Fix.Description strct)) (
      emit ''properties'' (json_Marshal_bytes ''*sarif.PropertyBag'' (PropertyBag_MarshalJSON scn ord) (Fix.Properties strct)) (
      Inr []))))"

definition Fix_cases :: "order \<Rightarrow> json \<Rightarrow> (string \<times> (Fix \<times> bool) action) list" where
  "Fix_cases ord v =
     [(''artifactChanges'', into (json_Unmarshal_slice (json_Unmarshal_ptr (ArtifactChange_UnmarshalJSON ord)) v)
         (\<lambda>x (strct, artifactChangesReceived). (strct\<lparr>Fix.ArtifactChanges := x\<rparr>, True))),
      (''description'', into (json_Unmarshal_ptr (Message_UnmarshalJSON ord) v)
         (\<lambda>x (strct, artifactChangesReceived). (strct\<lparr>Fix.Description := x\<rparr>, artifactChangesReceived))),
      (''properties'', into (json_Unmarshal_ptr (PropertyBag_UnmarshalJSON ord) v)
         (\<lambda>x (strct, artifactChangesReceived). (strct\<lparr>Fix.Properties := x\<rparr>, artifactChangesReceived)))]"

definition Fix_UnmarshalJSON :: "order \<Rightarrow> json \<Rightarrow> error + Fix" where
  "Fix_UnmarshalJSON ord b =
     (case json_Unmarshal_RawMessages b of
        Inl err \<Rightarrow> Inl err
      | Inr jsonMap \<Rightarrow>
          (case range_loop (\<lambda>k v. switch k (Fix_cases ord v) (reject k))
                  (range_map ord jsonMap) (Fix_zero, False) of
             Inl err \<Rightarrow> Inl err
           | Inr (strct, artifactChangesReceived) \<Rightarrow>
              if \<not> artifactChangesReceived then Inl (RequiredNotPresent ''artifactChanges'')
              else Inr strct))"

subsection \<open>GraphTraversal\<close>

record GraphTraversal =
  Description :: "Message option"
  EdgeTraversals :: "EdgeTraversal option list option"
  ImmutableState :: "MultiformatMessageString option go_map"
  InitialState :: "MultiformatMessageString option go_map"
  Properties :: "PropertyBag option"
  ResultGraphIndex :: "go_int"
  RunGraphIndex :: "go_int"

definition GraphTraversal_zero :: "GraphTraversal" where
  "GraphTraversal_zero =
     \<lparr>GraphTraversal.Description = None,
       GraphTraversal.EdgeTraversals = None,
       GraphTraversal.ImmutableState = None,
       GraphTraversal.InitialState = None,
       GraphTraversal.Properties = None,
       GraphTraversal.ResultGraphIndex = 0,
       GraphTraversal.RunGraphIndex = 0\<rparr>"

definition GraphTraversal_MarshalJSON :: "scanner \<Rightarrow> order \<Rightarrow> GraphTraversal \<Rightarrow> error + json" where
  "GraphTraversal_MarshalJSON scn ord strct =
     object (
      emit ''description'' (json_Marshal_ptr ''*sarif.Message'' (Message_MarshalJSON scn ord) (GraphTraversal.Description strct)) (
      emit ''edgeTraversals'' (json_Marshal_slice (json_Marshal_ptr ''*sarif.EdgeTraversal'' (EdgeTraversal_MarshalJSON scn ord)) (GraphTraversal.EdgeTraversals strct)) (
      emit ''immutableState'' (json_Marshal_map (json_Marshal_ptr ''*sarif.MultiformatMessageString'' (MultiformatMessageString_MarshalJSON scn ord)) (GraphTraversal.ImmutableState strct)) (
      emit ''initialState'' (json_Marshal_map (json_Marshal_ptr ''*sarif.MultiformatMessageString'' (MultiformatMessageString_MarshalJSON scn ord)) (GraphTraversal.InitialState strct)) (
      emit ''properties'' (json_Marshal_bytes ''*sarif.PropertyBag'' (PropertyBag_MarshalJSON scn ord) (GraphTraversal.Properties strct)) (
      emit ''resultGraphIndex'' (json_Marshal_int (GraphTraversal.ResultGraphIndex strct)) (
      emit ''runGraphIndex'' (json_Marshal_int (GraphTraversal.RunGraphIndex strct)) (
      Inr []))))))))"

definition GraphTraversal_cases :: "order \<Rightarrow> json \<Rightarrow> (string \<times> (GraphTraversal) action) list" where
  "GraphTraversal_cases ord v =
     [(''description'', into (json_Unmarshal_ptr (Message_UnmarshalJSON ord) v)
         (\<lambda>x strct. strct\<lparr>GraphTraversal.Description := x\<rparr>)),
      (''edgeTraversals'', into (json_Unmarshal_slice (json_Unmarshal_ptr (EdgeTraversal_UnmarshalJSON ord)) v)
         (\<lambda>x strct. strct\<lparr>GraphTraversal.EdgeTraversals := x\<rparr>)),
      (''immutableState'', into (json_Unmarshal_map (json_Unmarshal_ptr (MultiformatMessageString_UnmarshalJSON ord)) v)
         (\<lambda>x strct. strct\<lparr>GraphTraversal.ImmutableState := x\<rparr>)),
      (''initialState'', into (json_Unmarshal_map (json_Unmarshal_ptr (MultiformatMessageString_UnmarshalJSON ord)) v)
         (\<lambda>x strct. strct\<lparr>GraphTraversal.InitialState := x\<rparr>)),
      (''properties'', into (json_Unmarshal_ptr (PropertyBag_UnmarshalJSON ord) v)
         (\<lambda>x strct. strct\<lparr>GraphTraversal.Properties := x\<rparr>)),
      (''resultGraphIndex'', into (json_Unmarshal_int v)
         (\<lambda>x strct. strct\<lparr>GraphTraversal.ResultGraphIndex := x\<rparr>)),
      (''runGraphIndex'', into (json_Unmarshal_int v)
         (\<lambda>x strct. strct\<lparr>GraphTraversal.RunGraphIndex := x\<rparr>))]"

definition GraphTraversal_UnmarshalJSON :: "order \<Rightarrow> json \<Rightarrow> error + GraphTraversal" where
  "GraphTraversal_UnmarshalJSON ord b =
     (case json_Unmarshal_RawMessages b of
        Inl err \<Rightarrow> Inl err
      | Inr jsonMap \<Rightarrow>
          (case range_loop (\<lambda>k v. switch k (GraphTraversal_cases ord v) (reject k))
                  (range_map ord jsonMap) GraphTraversal_zero of
             Inl err \<Rightarrow> Inl err
           | Inr strct \<Rightarrow>
              Inr strct))"

subsection \<open>Suppression\<close>

record Suppression =
  Guid :: "string"
  Justification :: "string"
  Kind :: "string"
  Location :: "Location option"
  Properties :: "PropertyBag option"
  State :: "string"

definition Suppression_zero :: "Suppression" where
  "Suppression_zero =
     \<lparr>Suppression.Guid = [],
       Suppression.Justification = [],
       Suppression.Kind = [],
       Suppression.Location = None,
       Suppression.Properties = None,
       Suppression.State = []\<rparr>"

definition Suppression_MarshalJSON :: "scanner \<Rightarrow> order \<Rightarrow> Suppression \<Rightarrow> error + json" where
  "Suppression_MarshalJSON scn ord strct =
     object (
      emit ''guid'' (json_Marshal_string (Suppression.Guid strct)) (
      emit ''justification'' (json_Marshal_string (Suppression.Justification strct)) (
      emit ''kind'' (json_Marshal_string (Suppression.Kind strct)) (
      emit ''location'' (json_Marshal_ptr ''*sarif.Location'' (Location_MarshalJSON scn ord) (Suppression.Location strct)) (
      emit ''properties'' (json_Marshal_bytes ''*sarif.PropertyBag'' (PropertyBag_MarshalJSON scn ord) (Suppression.Properties strct)) (
      emit ''state'' (json_Marshal_string (Suppression.State strct)) (
      Inr [])))))))"

definition Suppression_cases :: "order \<Rightarrow> json \<Rightarrow> (string \<times> (Suppression \<times> bool) action) list" where
  "Suppression_cases ord v =
     [(''guid'', into (json_Unmarshal_string v)
         (\<lambda>x (strct, kindReceived). (strct\<lparr>Suppression.Guid := x\<rparr>, kindReceived))),
      (''justification'', into (json_Unmarshal_string v)
         (\<lambda>x (strct, kindReceived). (strct\<lparr>Suppression.Justification := x\<rparr>, kindReceived))),
      (''kind'', into (json_Unmarshal_string v)
         (\<lambda>x (strct, kindReceived). (strct\<lparr>Suppression.Kind := x\<rparr>, True))),
      (''location'', into (json_Unmarshal_ptr (Location_UnmarshalJSON ord) v)
         (\<lambda>x (strct, kindReceived). (strct\<lparr>Suppression.Location := x\<rparr>, kindReceived))),
      (''properties'', into (json_Unmarshal_ptr (PropertyBag_UnmarshalJSON ord) v)
         (\<lambda>x (strct, kindReceived). (strct\<lparr>Suppression.Properties := x\<rparr>, kindReceived))),
      (''state'', into (json_Unmarshal_string v)
         (\<lambda>x (strct, kindReceived). (strct\<lparr>Suppression.State := x\<rparr>, kindReceived)))]"

definition Suppression_UnmarshalJSON :: "order \<Rightarrow> json \<Rightarrow> error + Suppression" where
  "Suppression_UnmarshalJSON ord b =
     (case json_Unmarshal_RawMessages b of
        Inl err \<Rightarrow> Inl err
      | Inr jsonMap \<Rightarrow>
          (case range_loop (\<lambda>k v. switch k (Suppression_cases ord v) (reject k))
                  (range_map ord jsonMap) (Suppression_zero, False) of
             Inl err \<Rightarrow> Inl err
           | Inr (strct, kindReceived) \<Rightarrow>
              if \<not> kindReceived then Inl (RequiredNotPresent ''kind'')
              else Inr strct))"

subsection \<open>Node\<close>

datatype Node = Node (Children: "Node option list option") (Id: "string") (Label: "Message option") (Location: "Location option") (Properties: "PropertyBag option")

definition Node_zero :: "Node" where
  "Node_zero = Node None [] None None None"

lemma Node_size_Children:
  "Node.Children strct = Some xs \<Longrightarrow> Some x \<in> set xs \<Longrightarrow> size x < size strct"
  by (cases strct) (auto dest!: size_slice_target)

function Node_MarshalJSON :: "scanner \<Rightarrow> order \<Rightarrow> Node \<Rightarrow> error + json" where
  "Node_MarshalJSON scn ord strct =
     object (
      emit ''children'' (json_Marshal_slice (json_Marshal_ptr ''*sarif.Node'' (Node_MarshalJSON scn ord)) (Node.Children strct)) (
      emit ''id'' (json_Marshal_string (Node.Id strct)) (
      emit ''label'' (json_Marshal_ptr ''*sarif.Message'' (Message_MarshalJSON scn ord) (Node.Label strct)) (
      emit ''location'' (json_Marshal_ptr ''*sarif.Location'' (Location_MarshalJSON scn ord) (Node.Location strct)) (
      emit ''properties'' (json_Marshal_bytes ''*sarif.PropertyBag'' (PropertyBag_MarshalJSON scn ord) (Node.Properties strct)) (
      Inr []))))))"

  by pat_completeness auto

termination Node_MarshalJSON
  by (relation "measure (\<lambda>(scn, ord, strct). size strct)") (auto simp: Node_size_Children)

declare Node_MarshalJSON.simps [simp del]

function Node_UnmarshalJSON :: "order \<Rightarrow> json \<Rightarrow> error + Node" where
  "Node_UnmarshalJSON ord b =
     (case json_Unmarshal_RawMessages b of
        Inl err \<Rightarrow> Inl err
      | Inr jsonMap \<Rightarrow>
          (case range_loop (\<lambda>k v. switch k ([(''children'', into (json_Unmarshal_slice (json_Unmarshal_ptr (Node_UnmarshalJSON ord)) v)
         (\<lambda>x (strct, idReceived). (Node.Node x (Node.Id strct) (Node.Label strct) (Node.Location strct) (Node.Properties strct), idReceived))),
      (''id'', into (json_Unmarshal_string v)
         (\<lambda>x (strct, idReceived). (Node.Node (Node.Children strct) x (Node.Label strct) (Node.Location strct) (Node.Properties strct), True))),
      (''label'', into (json_Unmarshal_ptr (Message_UnmarshalJSON ord) v)
         (\<lambda>x (strct, idReceived). (Node.Node (Node.Children strct) (Node.Id strct) x (Node.Location strct) (Node.Properties strct), idReceived))),
      (''location'', into (json_Unmarshal_ptr (Location_UnmarshalJSON ord) v)
         (\<lambda>x (strct, idReceived). (Node.Node (Node.Children strct) (Node.Id strct) (Node.Label strct) x (Node.Properties strct), idReceived))),
      (''properties'', into (json_Unmarshal_ptr (PropertyBag_UnmarshalJSON ord) v)
         (\<lambda>x (strct, idReceived). (Node.Node (Node.Children strct) (Node.Id strct) (Node.Label strct) (Node.Location strct) x, idReceived)))]) (reject k))
                  (range_map ord jsonMap) (Node_zero, False) of
             Inl err \<Rightarrow> Inl err
           | Inr (strct, idReceived) \<Rightarrow>
              if \<not> idReceived then Inl (RequiredNotPresent ''id'')
              else Inr strct))"

  by pat_completeness auto

termination Node_UnmarshalJSON
  by (relation "measure (\<lambda>(ord, b). size b)")
     (auto dest!: size_RawMessages size_element)

declare Node_UnmarshalJSON.simps [simp del]

subsection \<open>Graph\<close>

record Graph =
  Description :: "Message option"
  Edges :: "Edge option list option"
  Nodes :: "Node option list option"
  Properties :: "PropertyBag option"

definition Graph_zero :: "Graph" where
  "Graph_zero =
     \<lparr>Graph.Description = None,
       Graph.Edges = None,
       Graph.Nodes = None,
       Graph.Properties = None\<rparr>"

definition Graph_MarshalJSON :: "scanner \<Rightarrow> order \<Rightarrow> Graph \<Rightarrow> error + json" where
  "Graph_MarshalJSON scn ord strct =
     object (
      emit ''description'' (json_Marshal_ptr ''*sarif.Message'' (Message_MarshalJSON scn ord) (Graph.Description strct)) (
      emit ''edges'' (json_Marshal_slice (json_Marshal_ptr ''*sarif.Edge'' (Edge_MarshalJSON scn ord)) (Graph.Edges strct)) (
      emit ''nodes'' (json_Marshal_slice (json_Marshal_ptr ''*sarif.Node'' (Node_MarshalJSON scn ord)) (Graph.Nodes strct)) (
      emit ''properties'' (json_Marshal_bytes ''*sarif.PropertyBag'' (PropertyBag_MarshalJSON scn ord) (Graph.Properties strct)) (
      Inr [])))))"

definition Graph_cases :: "order \<Rightarrow> json \<Rightarrow> (string \<times> (Graph) action) list" where
  "Graph_cases ord v =
     [(''description'', into (json_Unmarshal_ptr (Message_UnmarshalJSON ord) v)
         (\<lambda>x strct. strct\<lparr>Graph.Description := x\<rparr>)),
      (''edges'', into (json_Unmarshal_slice (json_Unmarshal_ptr (Edge_UnmarshalJSON ord)) v)
         (\<lambda>x strct. strct\<lparr>Graph.Edges := x\<rparr>)),
      (''nodes'', into (json_Unmarshal_slice (json_Unmarshal_ptr (Node_UnmarshalJSON ord)) v)
         (\<lambda>x strct. strct\<lparr>Graph.Nodes := x\<rparr>)),
      (''properties'', into (json_Unmarshal_ptr (PropertyBag_UnmarshalJSON ord) v)
         (\<lambda>x strct. strct\<lparr>Graph.Properties := x\<rparr>))]"

definition Graph_UnmarshalJSON :: "order \<Rightarrow> json \<Rightarrow> error + Graph" where
  "Graph_UnmarshalJSON ord b =
     (case json_Unmarshal_RawMessages b of
        Inl err \<Rightarrow> Inl err
      | Inr jsonMap \<Rightarrow>
          (case range_loop (\<lambda>k v. switch k (Graph_cases ord v) (reject k))
                  (range_map ord jsonMap) Graph_zero of
             Inl err \<Rightarrow> Inl err
           | Inr strct \<Rightarrow>
              Inr strct))"

subsection \<open>Result\<close>

record Result =
  AnalysisTarget :: "ArtifactLocation option"
  Attachments :: "Attachment option list option"
  BaselineState :: "string"
  CodeFlows :: "CodeFlow option list option"
  CorrelationGuid :: "string"
  Fingerprints :: "string go_map"
  Fixes :: "Fix option list option"
  GraphTraversals :: "GraphTraversal option list option"
  Graphs :: "Graph option list option"
  Guid :: "string"
  HostedViewerUri :: "string"
  Kind :: "string"
  Level :: "string"
  Locations :: "Location option list option"
  Message :: "Message option"
  OccurrenceCount :: "go_int"
  PartialFingerprints :: "string go_map"
  Properties :: "PropertyBag option"
  Provenance :: "ResultProvenance option"
  Rank :: "float64"
  RelatedLocations :: "Location option list option"
  Rule :: "ReportingDescriptorReference option"
  RuleId :: "string"
  RuleIndex :: "go_int"
  Stacks :: "Stack option list option"
  Suppressions :: "Suppression option list option"
  Taxa :: "ReportingDescriptorReference option list option"
  WebRequest :: "WebRequest option"
  WebResponse :: "WebResponse option"
  WorkItemUris :: "string list option"

definition Result_zero :: "Result" where
  "Result_zero =
     \<lparr>Result.AnalysisTarget = None,
       Result.Attachments = None,
       Result.BaselineState = [],
       Result.CodeFlows = None,
       Result.CorrelationGuid = [],
       Result.Fingerprints = None,
       Result.Fixes = None,
       Result.GraphTraversals = None,
       Result.Graphs = None,
       Result.Guid = [],
       Result.HostedViewerUri = [],
       Result.Kind = [],
       Result.Level = [],
       Result.Locations = None,
       Result.Message = None,
       Result.OccurrenceCount = 0,
       Result.PartialFingerprints = None,
       Result.Properties = None,
       Result.Provenance = None,
       Result.Rank = (Finite (NInt 0)),
       Result.RelatedLocations = None,
       Result.Rule = None,
       Result.RuleId = [],
       Result.RuleIndex = 0,
       Result.Stacks = None,
       Result.Suppressions = None,
       Result.Taxa = None,
       Result.WebRequest = None,
       Result.WebResponse = None,
       Result.WorkItemUris = None\<rparr>"

definition Result_MarshalJSON :: "scanner \<Rightarrow> order \<Rightarrow> Result \<Rightarrow> error + json" where
  "Result_MarshalJSON scn ord strct =
     object (
      emit ''analysisTarget'' (json_Marshal_ptr ''*sarif.ArtifactLocation'' (ArtifactLocation_MarshalJSON scn ord) (Result.AnalysisTarget strct)) (
      emit ''attachments'' (json_Marshal_slice (json_Marshal_ptr ''*sarif.Attachment'' (Attachment_MarshalJSON scn ord)) (Result.Attachments strct)) (
      emit ''baselineState'' (json_Marshal_string (Result.BaselineState strct)) (
      emit ''codeFlows'' (json_Marshal_slice (json_Marshal_ptr ''*sarif.CodeFlow'' (CodeFlow_MarshalJSON scn ord)) (Result.CodeFlows strct)) (
      emit ''correlationGuid'' (json_Marshal_string (Result.CorrelationGuid strct)) (
      emit ''fingerprints'' (json_Marshal_map json_Marshal_string (Result.Fingerprints strct)) (
      emit ''fixes'' (json_Marshal_slice (json_Marshal_ptr ''*sarif.Fix'' (Fix_MarshalJSON scn ord)) (Result.Fixes strct)) (
      emit ''graphTraversals'' (json_Marshal_slice (json_Marshal_ptr ''*sarif.GraphTraversal'' (GraphTraversal_MarshalJSON scn ord)) (Result.GraphTraversals strct)) (
      emit ''graphs'' (json_Marshal_slice (json_Marshal_ptr ''*sarif.Graph'' (Graph_MarshalJSON scn ord)) (Result.Graphs strct)) (
      emit ''guid'' (json_Marshal_string (Result.Guid strct)) (
      emit ''hostedViewerUri'' (json_Marshal_string (Result.HostedViewerUri strct)) (
      emit ''kind'' (json_Marshal_string (Result.Kind strct)) (
      emit ''level'' (json_Marshal_string (Result.Level strct)) (
      emit ''locations'' (json_Marshal_slice (json_Marshal_ptr ''*sarif.Location'' (Location_MarshalJSON scn ord)) (Result.Locations strct)) (
      (if Result.Message strct = None then Inl (RequiredField ''message'') else
      emit ''message'' (json_Marshal_ptr ''*sarif.Message'' (Message_MarshalJSON scn ord) (Result.Message strct)) (
      emit ''occurrenceCount'' (json_Marshal_int (Result.OccurrenceCount strct)) (
      emit ''partialFingerprints'' (json_Marshal_map json_Marshal_string (Result.PartialFingerprints strct)) (
      emit ''properties'' (json_Marshal_bytes ''*sarif.PropertyBag'' (PropertyBag_MarshalJSON scn ord) (Result.Properties strct)) (
      emit ''provenance'' (json_Marshal_ptr ''*sarif.ResultProvenance'' (ResultProvenance_MarshalJSON scn ord) (Result.Provenance strct)) (
      emit ''rank'' (json_Marshal_float64 (Result.Rank strct)) (
      emit ''relatedLocations'' (json_Marshal_slice (json_Marshal_ptr ''*sarif.Location'' (Location_MarshalJSON scn ord)) (Result.RelatedLocations strct)) (
      emit ''rule'' (json_Marshal_ptr ''*sarif.ReportingDescriptorReference'' (ReportingDescriptorReference_MarshalJSON scn ord) (Result.Rule strct)) (
      emit ''ruleId'' (json_Marshal_string (Result.RuleId strct)) (
      emit ''ruleIndex'' (json_Marshal_int (Result.RuleIndex strct)) (
      emit ''stacks'' (json_Marshal_slice (json_Marshal_ptr ''*sarif.Stack'' (Stack_MarshalJSON scn ord)) (Result.Stacks strct)) (
      emit ''suppressions'' (json_Marshal_slice (json_Marshal_ptr ''*sarif.Suppression'' (Suppression_MarshalJSON scn ord)) (Result.Suppressions strct)) (
      emit ''taxa'' (json_Marshal_slice (json_Marshal_ptr ''*sarif.ReportingDescriptorReference'' (ReportingDescriptorReference_MarshalJSON scn ord)) (Result.Taxa strct)) (
      emit ''webRequest'' (json_Marshal_ptr ''*sarif.WebRequest'' (WebRequest_MarshalJSON scn ord) (Result.WebRequest strct)) (
      emit ''webResponse'' (json_Marshal_ptr ''*sarif.WebResponse'' (WebResponse_MarshalJSON scn ord) (Result.WebResponse strct)) (
      emit ''workItemUris'' (json_Marshal_slice json_Marshal_string (Result.WorkItemUris strct)) (
      Inr []))))))))))))))))))))))))))))))))"

definition Result_cases :: "order \<Rightarrow> json \<Rightarrow> (string \<times> (Result \<times> bool) action) list" where
  "Result_cases ord v =
     [(''analysisTarget'', into (json_Unmarshal_ptr (ArtifactLocation_UnmarshalJSON ord) v)
         (\<lambda>x (strct, messageReceived). (strct\<lparr>Result.AnalysisTarget := x\<rparr>, messageReceived))),
      (''attachments'', into (json_Unmarshal_slice (json_Unmarshal_ptr (Attachment_UnmarshalJSON ord)) v)
         (\<lambda>x (strct, messageReceived). (strct\<lparr>Result.Attachments := x\<rparr>, messageReceived))),
      (''baselineState'', into (json_Unmarshal_string v)
         (\<lambda>x (strct, messageReceived). (strct\<lparr>Result.BaselineState := x\<rparr>, messageReceived))),
      (''codeFlows'', into (json_Unmarshal_slice (json_Unmarshal_ptr (CodeFlow_UnmarshalJSON ord)) v)
         (\<lambda>x (strct, messageReceived). (strct\<lparr>Result.CodeFlows := x\<rparr>, messageReceived))),
      (''correlationGuid'', into (json_Unmarshal_string v)
         (\<lambda>x (strct, messageReceived). (strct\<lparr>Result.CorrelationGuid := x\<rparr>, messageReceived))),
      (''fingerprints'', into (json_Unmarshal_map json_Unmarshal_string v)
         (\<lambda>x (strct, messageReceived). (strct\<lparr>Result.Fingerprints := x\<rparr>, messageReceived))),
      (''fixes'', into (json_Unmarshal_slice (json_Unmarshal_ptr (Fix_UnmarshalJSON ord)) v)
         (\<lambda>x (strct, messageReceived). (strct\<lparr>Result.Fixes := x\<rparr>, messageReceived))),
      (''graphTraversals'', into (json_Unmarshal_slice (json_Unmarshal_ptr (GraphTraversal_UnmarshalJSON ord)) v)
         (\<lambda>x (strct, messageReceived). (strct\<lparr>Result.GraphTraversals := x\<rparr>, messageReceived))),
      (''graphs'', into (json_Unmarshal_slice (json_Unmarshal_ptr (Graph_UnmarshalJSON ord)) v)
         (\<lambda>x (strct, messageReceived). (strct\<lparr>Result.Graphs := x\<rparr>, messageReceived))),
      (''guid'', into (json_Unmarshal_string v)
         (\<lambda>x (strct, messageReceived). (strct\<lparr>Result.Guid := x\<rparr>, messageReceived))),
      (''hostedViewerUri'', into (json_Unmarshal_string v)
         (\<lambda>x (strct, messageReceived). (strct\<lparr>Result.HostedViewerUri := x\<rparr>, messageReceived))),
      (''kind'', into (json_Unmarshal_string v)
         (\<lambda>x (strct, messageReceived). (strct\<lparr>Result.Kind := x\<rparr>, messageReceived))),
      (''level'', into (json_Unmarshal_string v)
         (\<lambda>x (strct, messageReceived). (strct\<lparr>Result.Level := x\<rparr>, messageReceived))),
      (''locations'', into (json_Unmarshal_slice (json_Unmarshal_ptr (Location_UnmarshalJSON ord)) v)
         (\<lambda>x (strct, messageReceived). (strct\<lparr>Result.Locations := x\<rparr>, messageReceived))),
      (''message'', into (json_Unmarshal_ptr (Message_UnmarshalJSON ord) v)
         (\<lambda>x (strct, messageReceived). (strct\<lparr>Result.Message := x\<rparr>, True))),
      (''occurrenceCount'', into (json_Unmarshal_int v)
         (\<lambda>x (strct, messageReceived). (strct\<lparr>Result.OccurrenceCount := x\<rparr>, messageReceived))),
      (''partialFingerprints'', into (json_Unmarshal_map json_Unmarshal_string v)
         (\<lambda>x (strct, messageReceived). (strct\<lparr>Result.PartialFingerprints := x\<rparr>, messageReceived))),
      (''properties'', into (json_Unmarshal_ptr (PropertyBag_UnmarshalJSON ord) v)
         (\<lambda>x (strct, messageReceived). (strct\<lparr>Result.Properties := x\<rparr>, messageReceived))),
      (''provenance'', into (json_Unmarshal_ptr (ResultProvenance_UnmarshalJSON ord) v)
         (\<lambda>x (strct, messageReceived). (strct\<lparr>Result.Provenance := x\<rparr>, messageReceived))),
      (''rank'', into (json_Unmarshal_float64 v)
         (\<lambda>x (strct, messageReceived). (strct\<lparr>Result.Rank := x\<rparr>, messageReceived))),
      (''relatedLocations'', into (json_Unmarshal_slice (json_Unmarshal_ptr (Location_UnmarshalJSON ord)) v)
         (\<lambda>x (strct, messageReceived). (strct\<lparr>Result.RelatedLocations := x\<rparr>, messageReceived))),
      (''rule'', into (json_Unmarshal_ptr (ReportingDescriptorReference_UnmarshalJSON ord) v)
         (\<lambda>x (strct, messageReceived). (strct\<lparr>Result.Rule := x\<rparr>, messageReceived))),
      (''ruleId'', into (json_Unmarshal_string v)
         (\<lambda>x (strct, messageReceived). (strct\<lparr>Result.RuleId := x\<rparr>, messageReceived))),
      (''ruleIndex'', into (json_Unmarshal_int v)
         (\<lambda>x (strct, messageReceived). (strct\<lparr>Result.RuleIndex := x\<rparr>, messageReceived))),
      (''stacks'', into (json_Unmarshal_slice (json_Unmarshal_ptr (Stack_UnmarshalJSON ord)) v)
         (\<lambda>x (strct, messageReceived). (strct\<lparr>Result.Stacks := x\<rparr>, messageReceived))),
      (''suppressions'', into (json_Unmarshal_slice (json_Unmarshal_ptr (Suppression_UnmarshalJSON ord)) v)
         (\<lambda>x (strct, messageReceived). (strct\<lparr>Result.Suppressions := x\<rparr>, messageReceived))),
      (''taxa'', into (json_Unmarshal_slice (json_Unmarshal_ptr (ReportingDescriptorReference_UnmarshalJSON ord)) v)
         (\<lambda>x (strct, messageReceived). (strct\<lparr>Result.Taxa := x\<rparr>, messageReceived))),
      (''webRequest'', into (json_Unmarshal_ptr (WebRequest_UnmarshalJSON ord) v)
         (\<lambda>x (strct, messageReceived). (strct\<lparr>Result.WebRequest := x\<rparr>, messageReceived))),
      (''webResponse'', into (json_Unmarshal_ptr (WebResponse_UnmarshalJSON ord) v)
         (\<lambda>x (strct, messageReceived). (strct\<lparr>Result.WebResponse := x\<rparr>, messageReceived))),
      (''workItemUris'', into (json_Unmarshal_slice json_Unmarshal_string v)
         (\<lambda>x (strct, messageReceived). (strct\<lparr>Result.WorkItemUris := x\<rparr>, messageReceived)))]"

definition Result_UnmarshalJSON :: "order \<Rightarrow> json \<Rightarrow> error + Result" where
  "Result_UnmarshalJSON ord b =
     (case json_Unmarshal_RawMessages b of
        Inl err \<Rightarrow> Inl err
      | Inr jsonMap \<Rightarrow>
          (case range_loop (\<lambda>k v. switch k (Result_cases ord v) (reject k))
                  (range_map ord jsonMap) (Result_zero, False) of
             Inl err \<Rightarrow> Inl err
           | Inr (strct, messageReceived) \<Rightarrow>
              if \<not> messageReceived then Inl (RequiredNotPresent ''message'')
              else Inr strct))"

subsection \<open>ExternalProperties\<close>

record ExternalProperties =
  Addresses :: "Address option list option"
  Artifacts :: "Artifact option list option"
  Conversion :: "Conversion option"
  Driver :: "ToolComponent option"
  Extensions :: "ToolComponent option list option"
  ExternalizedProperties :: "PropertyBag option"
  Graphs :: "Graph option list option"
  Guid :: "string"
  Invocations :: "Invocation option list option"
  LogicalLocations :: "LogicalLocation option list option"
  Policies :: "ToolComponent option list option"
  Properties :: "PropertyBag option"
  Results :: "Result option list option"
  RunGuid :: "string"
  Schema :: "string"
  Taxonomies :: "ToolComponent option list option"
  ThreadFlowLocations :: "ThreadFlowLocation option list option"
  Translations :: "ToolComponent option list option"
  Version :: "string"
  WebRequests :: "WebRequest option list option"
  WebResponses :: "WebResponse option list option"

definition ExternalProperties_zero :: "ExternalProperties" where
  "ExternalProperties_zero =
     \<lparr>ExternalProperties.Addresses = None,
       ExternalProperties.Artifacts = None,
       ExternalProperties.Conversion = None,
       ExternalProperties.Driver = None,
       ExternalProperties.Extensions = None,
       ExternalProperties.ExternalizedProperties = None,
       ExternalProperties.Graphs = None,
       ExternalProperties.Guid = [],
       ExternalProperties.Invocations = None,
       ExternalProperties.LogicalLocations = None,
       ExternalProperties.Policies = None,
       ExternalProperties.Properties = None,
       ExternalProperties.Results = None,
       ExternalProperties.RunGuid = [],
       ExternalProperties.Schema = [],
       ExternalProperties.Taxonomies = None,
       ExternalProperties.ThreadFlowLocations = None,
       ExternalProperties.Translations = None,
       ExternalProperties.Version = [],
       ExternalProperties.WebRequests = None,
       ExternalProperties.WebResponses = None\<rparr>"

definition ExternalProperties_MarshalJSON :: "scanner \<Rightarrow> order \<Rightarrow> ExternalProperties \<Rightarrow> error + json" where
  "ExternalProperties_MarshalJSON scn ord strct =
     object (
      emit ''addresses'' (json_Marshal_slice (json_Marshal_ptr ''*sarif.Address'' (Address_MarshalJSON scn ord)) (ExternalProperties.Addresses strct)) (
      emit ''artifacts'' (json_Marshal_slice (json_Marshal_ptr ''*sarif.Artifact'' (Artifact_MarshalJSON scn ord)) (ExternalProperties.Artifacts strct)) (
      emit ''conversion'' (json_Marshal_ptr ''*sarif.Conversion'' (Conversion_MarshalJSON scn ord) (ExternalProperties.Conversion strct)) (
      emit ''driver'' (json_Marshal_ptr ''*sarif.ToolComponent'' (ToolComponent_MarshalJSON scn ord) (ExternalProperties.Driver strct)) (
      emit ''extensions'' (json_Marshal_slice (json_Marshal_ptr ''*sarif.ToolComponent'' (ToolComponent_MarshalJSON scn ord)) (ExternalProperties.Extensions strct)) (
      emit ''externalizedProperties'' (json_Marshal_bytes ''*sarif.PropertyBag'' (PropertyBag_MarshalJSON scn ord) (ExternalProperties.ExternalizedProperties strct)) (
      emit ''graphs'' (json_Marshal_slice (json_Marshal_ptr ''*sarif.Graph'' (Graph_MarshalJSON scn ord)) (ExternalProperties.Graphs strct)) (
      emit ''guid'' (json_Marshal_string (ExternalProperties.Guid strct)) (
      emit ''invocations'' (json_Marshal_slice (json_Marshal_ptr ''*sarif.Invocation'' (Invocation_MarshalJSON scn ord)) (ExternalProperties.Invocations strct)) (
      emit ''logicalLocations'' (json_Marshal_slice (json_Marshal_ptr ''*sarif.LogicalLocation'' (LogicalLocation_MarshalJSON scn ord)) (ExternalProperties.LogicalLocations strct)) (
      emit ''policies'' (json_Marshal_slice (json_Marshal_ptr ''*sarif.ToolComponent'' (ToolComponent_MarshalJSON scn ord)) (ExternalProperties.Policies strct)) (
      emit ''properties'' (json_Marshal_bytes ''*sarif.PropertyBag'' (PropertyBag_MarshalJSON scn ord) (ExternalProperties.Properties strct)) (
      emit ''results'' (json_Marshal_slice (json_Marshal_ptr ''*sarif.Result'' (Result_MarshalJSON scn ord)) (ExternalProperties.Results strct)) (
      emit ''runGuid'' (json_Marshal_string (ExternalProperties.RunGuid strct)) (
      emit ''schema'' (json_Marshal_string (ExternalProperties.Schema strct)) (
      emit ''taxonomies'' (json_Marshal_slice (json_Marshal_ptr ''*sarif.ToolComponent'' (ToolComponent_MarshalJSON scn ord)) (ExternalProperties.Taxonomies strct)) (
      emit ''threadFlowLocations'' (json_Marshal_slice (json_Marshal_ptr ''*sarif.ThreadFlowLocation'' (ThreadFlowLocation_MarshalJSON scn ord)) (ExternalProperties.ThreadFlowLocations strct)) (
      emit ''translations'' (json_Marshal_slice (json_Marshal_ptr ''*sarif.ToolComponent'' (ToolComponent_MarshalJSON scn ord)) (ExternalProperties.Translations strct)) (
      emit ''version'' (json_Marshal_string (ExternalProperties.Version strct)) (
      emit ''webRequests'' (json_Marshal_slice (json_Marshal_ptr ''*sarif.WebRequest'' (WebRequest_MarshalJSON scn ord)) (ExternalProperties.WebRequests strct)) (
      emit ''webResponses'' (json_Marshal_slice (json_Marshal_ptr ''*sarif.WebResponse'' (WebResponse_MarshalJSON scn ord)) (ExternalProperties.WebResponses strct)) (
      Inr []))))))))))))))))))))))"

definition ExternalProperties_cases :: "order \<Rightarrow> json \<Rightarrow> (string \<times> (ExternalProperties) action) list" where
  "ExternalProperties_cases ord v =
     [(''addresses'', into (json_Unmarshal_slice (json_Unmarshal_ptr (Address_UnmarshalJSON ord)) v)
         (\<lambda>x strct. strct\<lparr>ExternalProperties.Addresses := x\<rparr>)),
      (''artifacts'', into (json_Unmarshal_slice (json_Unmarshal_ptr (Artifact_UnmarshalJSON ord)) v)
         (\<lambda>x strct. strct\<lparr>ExternalProperties.Artifacts := x\<rparr>)),
      (''conversion'', into (json_Unmarshal_ptr (Conversion_UnmarshalJSON ord) v)
         (\<lambda>x strct. strct\<lparr>ExternalProperties.Conversion := x\<rparr>)),
      (''driver'', into (json_Unmarshal_ptr (ToolComponent_UnmarshalJSON ord) v)
         (\<lambda>x strct. strct\<lparr>ExternalProperties.Driver := x\<rparr>)),
      (''extensions'', into (json_Unmarshal_slice (json_Unmarshal_ptr (ToolComponent_UnmarshalJSON ord)) v)
         (\<lambda>x strct. strct\<lparr>ExternalProperties.Extensions := x\<rparr>)),
      (''externalizedProperties'', into (json_Unmarshal_ptr (PropertyBag_UnmarshalJSON ord) v)
         (\<lambda>x strct. strct\<lparr>ExternalProperties.ExternalizedProperties := x\<rparr>)),
      (''graphs'', into (json_Unmarshal_slice (json_Unmarshal_ptr (Graph_UnmarshalJSON ord)) v)
         (\<lambda>x strct. strct\<lparr>ExternalProperties.Graphs := x\<rparr>)),
      (''guid'', into (json_Unmarshal_string v)
         (\<lambda>x strct. strct\<lparr>ExternalProperties.Guid := x\<rparr>)),
      (''invocations'', into (json_Unmarshal_slice (json_Unmarshal_ptr (Invocation_UnmarshalJSON ord)) v)
         (\<lambda>x strct. strct\<lparr>ExternalProperties.Invocations := x\<rparr>)),
      (''logicalLocations'', into (json_Unmarshal_slice (json_Unmarshal_ptr (LogicalLocation_UnmarshalJSON ord)) v)
         (\<lambda>x strct. strct\<lparr>ExternalProperties.LogicalLocations := x\<rparr>)),
      (''policies'', into (json_Unmarshal_slice (json_Unmarshal_ptr (ToolComponent_UnmarshalJSON ord)) v)
         (\<lambda>x strct. strct\<lparr>ExternalProperties.Policies := x\<rparr>)),
      (''properties'', into (json_Unmarshal_ptr (PropertyBag_UnmarshalJSON ord) v)
         (\<lambda>x strct. strct\<lparr>ExternalProperties.Properties := x\<rparr>)),
      (''results'', into (json_Unmarshal_slice (json_Unmarshal_ptr (Result_UnmarshalJSON ord)) v)
         (\<lambda>x strct. strct\<lparr>ExternalProperties.Results := x\<rparr>)),
      (''runGuid'', into (json_Unmarshal_string v)
         (\<lambda>x strct. strct\<lparr>ExternalProperties.RunGuid := x\<rparr>)),
      (''schema'', into (json_Unmarshal_string v)
         (\<lambda>x strct. strct\<lparr>ExternalProperties.Schema := x\<rparr>)),
      (''taxonomies'', into (json_Unmarshal_slice (json_Unmarshal_ptr (ToolComponent_UnmarshalJSON ord)) v)
         (\<lambda>x strct. strct\<lparr>ExternalProperties.Taxonomies := x\<rparr>)),
      (''threadFlowLocations'', into (json_Unmarshal_slice (json_Unmarshal_ptr (ThreadFlowLocation_UnmarshalJSON ord)) v)
         (\<lambda>x strct. strct\<lparr>ExternalProperties.ThreadFlowLocations := x\<rparr>)),
      (''translations'', into (json_Unmarshal_slice (json_Unmarshal_ptr (ToolComponent_UnmarshalJSON ord)) v)
         (\<lambda>x strct. strct\<lparr>ExternalProperties.Translations := x\<rparr>)),
      (''version'', into (json_Unmarshal_string v)
         (\<lambda>x strct. strct\<lparr>ExternalProperties.Version := x\<rparr>)),
      (''webRequests'', into (json_Unmarshal_slice (json_Unmarshal_ptr (WebRequest_UnmarshalJSON ord)) v)
         (\<lambda>x strct. strct\<lparr>ExternalProperties.WebRequests := x\<rparr>)),
      (''webResponses'', into (json_Unmarshal_slice (json_Unmarshal_ptr (WebResponse_UnmarshalJSON ord)) v)
         (\<lambda>x strct. strct\<lparr>ExternalProperties.WebResponses := x\<rparr>))]"

definition ExternalProperties_UnmarshalJSON :: "order \<Rightarrow> json \<Rightarrow> error + ExternalProperties" where
  "ExternalProperties_UnmarshalJSON ord b =
     (case json_Unmarshal_RawMessages b of
        Inl err \<Rightarrow> Inl err
      | Inr jsonMap \<Rightarrow>
          (case range_loop (\<lambda>k v. switch k (ExternalProperties_cases ord v) (reject k))
                  (range_map ord jsonMap) ExternalProperties_zero of
             Inl err \<Rightarrow> Inl err
           | Inr strct \<Rightarrow>
              Inr strct))"

subsection \<open>ExternalPropertyFileReference\<close>

record ExternalPropertyFileReference =
  Guid :: "string"
  ItemCount :: "go_int"
  Location :: "ArtifactLocation option"
  Properties :: "PropertyBag option"

definition ExternalPropertyFileReference_zero :: "ExternalPropertyFileReference" where
  "ExternalPropertyFileReference_zero =
     \<lparr>ExternalPropertyFileReference.Guid = [],
       ExternalPropertyFileReference.ItemCount = 0,
       ExternalPropertyFileReference.Location = None,
       ExternalPropertyFileReference.Properties = None\<rparr>"

definition ExternalPropertyFileReference_MarshalJSON :: "scanner \<Rightarrow> order \<Rightarrow> ExternalPropertyFileReference \<Rightarrow> error + json" where
  "ExternalPropertyFileReference_MarshalJSON scn ord strct =
     object (
      emit ''guid'' (json_Marshal_string (ExternalPropertyFileReference.Guid strct)) (
      emit ''itemCount'' (json_Marshal_int (ExternalPropertyFileReference.ItemCount strct)) (
      emit ''location'' (json_Marshal_ptr ''*sarif.ArtifactLocation'' (ArtifactLocation_MarshalJSON scn ord) (ExternalPropertyFileReference.Location strct)) (
      emit ''properties'' (json_Marshal_bytes ''*sarif.PropertyBag'' (PropertyBag_MarshalJSON scn ord) (ExternalPropertyFileReference.Properties strct)) (
      Inr [])))))"

definition ExternalPropertyFileReference_cases :: "order \<Rightarrow> json \<Rightarrow> (string \<times> (ExternalPropertyFileReference) action) list" where
  "ExternalPropertyFileReference_cases ord v =
     [(''guid'', into (json_Unmarshal_string v)
         (\<lambda>x strct. strct\<lparr>ExternalPropertyFileReference.Guid := x\<rparr>)),
      (''itemCount'', into (json_Unmarshal_int v)
         (\<lambda>x strct. strct\<lparr>ExternalPropertyFileReference.ItemCount := x\<rparr>)),
      (''location'', into (json_Unmarshal_ptr (ArtifactLocation_UnmarshalJSON ord) v)
         (\<lambda>x strct. strct\<lparr>ExternalPropertyFileReference.Location := x\<rparr>)),
      (''properties'', into (json_Unmarshal_ptr (PropertyBag_UnmarshalJSON ord) v)
         (\<lambda>x strct. strct\<lparr>ExternalPropertyFileReference.Properties := x\<rparr>))]"

definition ExternalPropertyFileReference_UnmarshalJSON :: "order \<Rightarrow> json \<Rightarrow> error + ExternalPropertyFileReference" where
  "ExternalPropertyFileReference_UnmarshalJSON ord b =
     (case json_Unmarshal_RawMessages b of
        Inl err \<Rightarrow> Inl err
      | Inr jsonMap \<Rightarrow>
          (case range_loop (\<lambda>k v. switch k (ExternalPropertyFileReference_cases ord v) (reject k))
                  (range_map ord jsonMap) ExternalPropertyFileReference_zero of
             Inl err \<Rightarrow> Inl err
           | Inr strct \<Rightarrow>
              Inr strct))"

subsection \<open>ExternalPropertyFileReferences\<close>

record ExternalPropertyFileReferences =
  Addresses :: "ExternalPropertyFileReference option list option"
  Artifacts :: "ExternalPropertyFileReference option list option"
  Conversion :: "ExternalPropertyFileReference option"
  Driver :: "ExternalPropertyFileReference option"
  Extensions :: "ExternalPropertyFileReference option list option"
  ExternalizedProperties :: "ExternalPropertyFileReference option"
  Graphs :: "ExternalPropertyFileReference option list option"
  Invocations :: "ExternalPropertyFileReference option list option"
  LogicalLocations :: "ExternalPropertyFileReference option list option"
  Policies :: "ExternalPropertyFileReference option list option"
  Properties :: "PropertyBag option"
  Results :: "ExternalPropertyFileReference option list option"
  Taxonomies :: "ExternalPropertyFileReference option list option"
  ThreadFlowLocations :: "ExternalPropertyFileReference option list option"
  Translations :: "ExternalPropertyFileReference option list option"
  WebRequests :: "ExternalPropertyFileReference option list option"
  WebResponses :: "ExternalPropertyFileReference option list option"

definition ExternalPropertyFileReferences_zero :: "ExternalPropertyFileReferences" where
  "ExternalPropertyFileReferences_zero =
     \<lparr>ExternalPropertyFileReferences.Addresses = None,
       ExternalPropertyFileReferences.Artifacts = None,
       ExternalPropertyFileReferences.Conversion = None,
       ExternalPropertyFileReferences.Driver = None,
       ExternalPropertyFileReferences.Extensions = None,
       ExternalPropertyFileReferences.ExternalizedProperties = None,
       ExternalPropertyFileReferences.Graphs = None,
       ExternalPropertyFileReferences.Invocations = None,
       ExternalPropertyFileReferences.LogicalLocations = None,
       ExternalPropertyFileReferences.Policies = None,
       ExternalPropertyFileReferences.Properties = None,
       ExternalPropertyFileReferences.Results = None,
       ExternalPropertyFileReferences.Taxonomies = None,
       ExternalPropertyFileReferences.ThreadFlowLocations = None,
       ExternalPropertyFileReferences.Translations = None,
       ExternalPropertyFileReferences.WebRequests = None,
       ExternalPropertyFileReferences.WebResponses = None\<rparr>"

definition ExternalPropertyFileReferences_MarshalJSON :: "scanner \<Rightarrow> order \<Rightarrow> ExternalPropertyFileReferences \<Rightarrow> error + json" where
  "ExternalPropertyFileReferences_MarshalJSON scn ord strct =
     object (
      emit ''addresses'' (json_Marshal_slice (json_Marshal_ptr ''*sarif.ExternalPropertyFileReference'' (ExternalPropertyFileReference_MarshalJSON scn ord)) (ExternalPropertyFileReferences.Addresses strct)) (
      emit ''artifacts'' (json_Marshal_slice (json_Marshal_ptr ''*sarif.ExternalPropertyFileReference'' (ExternalPropertyFileReference_MarshalJSON scn ord)) (ExternalPropertyFileReferences.Artifacts strct)) (
      emit ''conversion'' (json_Marshal_ptr ''*sarif.ExternalPropertyFileReference'' (ExternalPropertyFileReference_MarshalJSON scn ord) (ExternalPropertyFileReferences.Conversion strct)) (
      emit ''driver'' (json_Marshal_ptr ''*sarif.ExternalPropertyFileReference'' (ExternalPropertyFileReference_MarshalJSON scn ord) (ExternalPropertyFileReferences.Driver strct)) (
      emit ''extensions'' (json_Marshal_slice (json_Marshal_ptr ''*sarif.ExternalPropertyFileReference'' (ExternalPropertyFileReference_MarshalJSON scn ord)) (ExternalPropertyFileReferences.Extensions strct)) (
      emit ''externalizedProperties'' (json_Marshal_ptr ''*sarif.ExternalPropertyFileReference'' (ExternalPropertyFileReference_MarshalJSON scn ord) (ExternalPropertyFileReferences.ExternalizedProperties strct)) (
      emit ''graphs'' (json_Marshal_slice (json_Marshal_ptr ''*sarif.ExternalPropertyFileReference'' (ExternalPropertyFileReference_MarshalJSON scn ord)) (ExternalPropertyFileReferences.Graphs strct)) (
      emit ''invocations'' (json_Marshal_slice (json_Marshal_ptr ''*sarif.ExternalPropertyFileReference'' (ExternalPropertyFileReference_MarshalJSON scn ord)) (ExternalPropertyFileReferences.Invocations strct)) (
      emit ''logicalLocations'' (json_Marshal_slice (json_Marshal_ptr ''*sarif.ExternalPropertyFileReference'' (ExternalPropertyFileReference_MarshalJSON scn ord)) (ExternalPropertyFileReferences.LogicalLocations strct)) (
      emit ''policies'' (json_Marshal_slice (json_Marshal_ptr ''*sarif.ExternalPropertyFileReference'' (ExternalPropertyFileReference_MarshalJSON scn ord)) (ExternalPropertyFileReferences.Policies strct)) (
      emit ''properties'' (json_Marshal_bytes ''*sarif.PropertyBag'' (PropertyBag_MarshalJSON scn ord) (ExternalPropertyFileReferences.Properties strct)) (
      emit ''results'' (json_Marshal_slice (json_Marshal_ptr ''*sarif.ExternalPropertyFileReference'' (ExternalPropertyFileReference_MarshalJSON scn ord)) (ExternalPropertyFileReferences.Results strct)) (
      emit ''taxonomies'' (json_Marshal_slice (json_Marshal_ptr ''*sarif.ExternalPropertyFileReference'' (ExternalPropertyFileReference_MarshalJSON scn ord)) (ExternalPropertyFileReferences.Taxonomies strct)) (
      emit ''threadFlowLocations'' (json_Marshal_slice (json_Marshal_ptr ''*sarif.ExternalPropertyFileReference'' (ExternalPropertyFileReference_MarshalJSON scn ord)) (ExternalPropertyFileReferences.ThreadFlowLocations strct)) (
      emit ''translations'' (json_Marshal_slice (json_Marshal_ptr ''*sarif.ExternalPropertyFileReference'' (ExternalPropertyFileReference_MarshalJSON scn ord)) (ExternalPropertyFileReferences.Translations strct)) (
      emit ''webRequests'' (json_Marshal_slice (json_Marshal_ptr ''*sarif.ExternalPropertyFileReference'' (ExternalPropertyFileReference_MarshalJSON scn ord)) (ExternalPropertyFileReferences.WebRequests strct)) (
      emit ''webResponses'' (json_Marshal_slice (json_Marshal_ptr ''*sarif.ExternalPropertyFileReference'' (ExternalPropertyFileReference_MarshalJSON scn ord)) (ExternalPropertyFileReferences.WebResponses strct)) (
      Inr []))))))))))))))))))"

definition ExternalPropertyFileReferences_cases :: "order \<Rightarrow> json \<Rightarrow> (string \<times> (ExternalPropertyFileReferences) action) list" where
  "ExternalPropertyFileReferences_cases ord v =
     [(''addresses'', into (json_Unmarshal_slice (json_Unmarshal_ptr (ExternalPropertyFileReference_UnmarshalJSON ord)) v)
         (\<lambda>x strct. strct\<lparr>ExternalPropertyFileReferences.Addresses := x\<rparr>)),
      (''artifacts'', into (json_Unmarshal_slice (json_Unmarshal_ptr (ExternalPropertyFileReference_UnmarshalJSON ord)) v)
         (\<lambda>x strct. strct\<lparr>ExternalPropertyFileReferences.Artifacts := x\<rparr>)),
      (''conversion'', into (json_Unmarshal_ptr (ExternalPropertyFileReference_UnmarshalJSON ord) v)
         (\<lambda>x strct. strct\<lparr>ExternalPropertyFileReferences.Conversion := x\<rparr>)),
      (''driver'', into (json_Unmarshal_ptr (ExternalPropertyFileReference_UnmarshalJSON ord) v)
         (\<lambda>x strct. strct\<lparr>ExternalPropertyFileReferences.Driver := x\<rparr>)),
      (''extensions'', into (json_Unmarshal_slice (json_Unmarshal_ptr (ExternalPropertyFileReference_UnmarshalJSON ord)) v)
         (\<lambda>x strct. strct\<lparr>ExternalPropertyFileReferences.Extensions := x\<rparr>)),
      (''externalizedProperties'', into (json_Unmarshal_ptr (ExternalPropertyFileReference_UnmarshalJSON ord) v)
         (\<lambda>x strct. strct\<lparr>ExternalPropertyFileReferences.ExternalizedProperties := x\<rparr>)),
      (''graphs'', into (json_Unmarshal_slice (json_Unmarshal_ptr (ExternalPropertyFileReference_UnmarshalJSON ord)) v)
         (\<lambda>x strct. strct\<lparr>ExternalPropertyFileReferences.Graphs := x\<rparr>)),
      (''invocations'', into (json_Unmarshal_slice (json_Unmarshal_ptr (ExternalPropertyFileReference_UnmarshalJSON ord)) v)
         (\<lambda>x strct. strct\<lparr>ExternalPropertyFileReferences.Invocations := x\<rparr>)),
      (''logicalLocations'', into (json_Unmarshal_slice (json_Unmarshal_ptr (ExternalPropertyFileReference_UnmarshalJSON ord)) v)
         (\<lambda>x strct. strct\<lparr>ExternalPropertyFileReferences.LogicalLocations := x\<rparr>)),
      (''policies'', into (json_Unmarshal_slice (json_Unmarshal_ptr (ExternalPropertyFileReference_UnmarshalJSON ord)) v)
         (\<lambda>x strct. strct\<lparr>ExternalPropertyFileReferences.Policies := x\<rparr>)),
      (''properties'', into (json_Unmarshal_ptr (PropertyBag_UnmarshalJSON ord) v)
         (\<lambda>x strct. strct\<lparr>ExternalPropertyFileReferences.Properties := x\<rparr>)),
      (''results'', into (json_Unmarshal_slice (json_Unmarshal_ptr (ExternalPropertyFileReference_UnmarshalJSON ord)) v)
         (\<lambda>x strct. strct\<lparr>ExternalPropertyFileReferences.Results := x\<rparr>)),
      (''taxonomies'', into (json_Unmarshal_slice (json_Unmarshal_ptr (ExternalPropertyFileReference_UnmarshalJSON ord)) v)
         (\<lambda>x strct. strct\<lparr>ExternalPropertyFileReferences.Taxonomies := x\<rparr>)),
      (''threadFlowLocations'', into (json_Unmarshal_slice (json_Unmarshal_ptr (ExternalPropertyFileReference_UnmarshalJSON ord)) v)
         (\<lambda>x strct. strct\<lparr>ExternalPropertyFileReferences.ThreadFlowLocations := x\<rparr>)),
      (''translations'', into (json_Unmarshal_slice (json_Unmarshal_ptr (ExternalPropertyFileReference_UnmarshalJSON ord)) v)
         (\<lambda>x strct. strct\<lparr>ExternalPropertyFileReferences.Translations := x\<rparr>)),
      (''webRequests'', into (json_Unmarshal_slice (json_Unmarshal_ptr (ExternalPropertyFileReference_UnmarshalJSON ord)) v)
         (\<lambda>x strct. strct\<lparr>ExternalPropertyFileReferences.WebRequests := x\<rparr>)),
      (''webResponses'', into (json_Unmarshal_slice (json_Unmarshal_ptr (ExternalPropertyFileReference_UnmarshalJSON ord)) v)
         (\<lambda>x strct. strct\<lparr>ExternalPropertyFileReferences.WebResponses := x\<rparr>))]"

definition ExternalPropertyFileReferences_UnmarshalJSON :: "order \<Rightarrow> json \<Rightarrow> error + ExternalPropertyFileReferences" where
  "ExternalPropertyFileReferences_UnmarshalJSON ord b =
     (case json_Unmarshal_RawMessages b of
        Inl err \<Rightarrow> Inl err
      | Inr jsonMap \<Rightarrow>
          (case range_loop (\<lambda>k v. switch k (ExternalPropertyFileReferences_cases ord v) (reject k))
                  (range_map ord jsonMap) ExternalPropertyFileReferences_zero of
             Inl err \<Rightarrow> Inl err
           | Inr strct \<Rightarrow>
              Inr strct))"

subsection \<open>SpecialLocations\<close>

record SpecialLocations =
  DisplayBase :: "ArtifactLocation option"
  Properties :: "PropertyBag option"

definition SpecialLocations_zero :: "SpecialLocations" where
  "SpecialLocations_zero =
     \<lparr>SpecialLocations.DisplayBase = None,
       SpecialLocations.Properties = None\<rparr>"

definition SpecialLocations_MarshalJSON :: "scanner \<Rightarrow> order \<Rightarrow> SpecialLocations \<Rightarrow> error + json" where
  "SpecialLocations_MarshalJSON scn ord strct =
     object (
      emit ''displayBase'' (json_Marshal_ptr ''*sarif.ArtifactLocation'' (ArtifactLocation_MarshalJSON scn ord) (SpecialLocations.DisplayBase strct)) (
      emit ''properties'' (json_Marshal_bytes ''*sarif.PropertyBag'' (PropertyBag_MarshalJSON scn ord) (SpecialLocations.Properties strct)) (
      Inr [])))"

definition SpecialLocations_cases :: "order \<Rightarrow> json \<Rightarrow> (string \<times> (SpecialLocations) action) list" where
  "SpecialLocations_cases ord v =
     [(''displayBase'', into (json_Unmarshal_ptr (ArtifactLocation_UnmarshalJSON ord) v)
         (\<lambda>x strct. strct\<lparr>SpecialLocations.DisplayBase := x\<rparr>)),
      (''properties'', into (json_Unmarshal_ptr (PropertyBag_UnmarshalJSON ord) v)
         (\<lambda>x strct. strct\<lparr>SpecialLocations.Properties := x\<rparr>))]"

definition SpecialLocations_UnmarshalJSON :: "order \<Rightarrow> json \<Rightarrow> error + SpecialLocations" where
  "SpecialLocations_UnmarshalJSON ord b =
     (case json_Unmarshal_RawMessages b of
        Inl err \<Rightarrow> Inl err
      | Inr jsonMap \<Rightarrow>
          (case range_loop (\<lambda>k v. switch k (SpecialLocations_cases ord v) (reject k))
                  (range_map ord jsonMap) SpecialLocations_zero of
             Inl err \<Rightarrow> Inl err
           | Inr strct \<Rightarrow>
              Inr strct))"

subsection \<open>RunAutomationDetails\<close>

record RunAutomationDetails =
  CorrelationGuid :: "string"
  Description :: "Message option"
  Guid :: "string"
  Id :: "string"
  Properties :: "PropertyBag option"

definition RunAutomationDetails_zero :: "RunAutomationDetails" where
  "RunAutomationDetails_zero =
     \<lparr>RunAutomationDetails.CorrelationGuid = [],
       RunAutomationDetails.Description = None,
       RunAutomationDetails.Guid = [],
       RunAutomationDetails.Id = [],
       RunAutomationDetails.Properties = None\<rparr>"

definition RunAutomationDetails_MarshalJSON :: "scanner \<Rightarrow> order \<Rightarrow> RunAutomationDetails \<Rightarrow> error + json" where
  "RunAutomationDetails_MarshalJSON scn ord strct =
     object (
      emit ''correlationGuid'' (json_Marshal_string (RunAutomationDetails.CorrelationGuid strct)) (
      emit ''description'' (json_Marshal_ptr ''*sarif.Message'' (Message_MarshalJSON scn ord) (RunAutomationDetails.Description strct)) (
      emit ''guid'' (json_Marshal_string (RunAutomationDetails.Guid strct)) (
      emit ''id'' (json_Marshal_string (RunAutomationDetails.Id strct)) (
      emit ''properties'' (json_Marshal_bytes ''*sarif.PropertyBag'' (PropertyBag_MarshalJSON scn ord) (RunAutomationDetails.Properties strct)) (
      Inr []))))))"

definition RunAutomationDetails_cases :: "order \<Rightarrow> json \<Rightarrow> (string \<times> (RunAutomationDetails) action) list" where
  "RunAutomationDetails_cases ord v =
     [(''correlationGuid'', into (json_Unmarshal_string v)
         (\<lambda>x strct. strct\<lparr>RunAutomationDetails.CorrelationGuid := x\<rparr>)),
      (''description'', into (json_Unmarshal_ptr (Message_UnmarshalJSON ord) v)
         (\<lambda>x strct. strct\<lparr>RunAutomationDetails.Description := x\<rparr>)),
      (''guid'', into (json_Unmarshal_string v)
         (\<lambda>x strct. strct\<lparr>RunAutomationDetails.Guid := x\<rparr>)),
      (''id'', into (json_Unmarshal_string v)
         (\<lambda>x strct. strct\<lparr>RunAutomationDetails.Id := x\<rparr>)),
      (''properties'', into (json_Unmarshal_ptr (PropertyBag_UnmarshalJSON ord) v)
         (\<lambda>x strct. strct\<lparr>RunAutomationDetails.Properties := x\<rparr>))]"

definition RunAutomationDetails_UnmarshalJSON :: "order \<Rightarrow> json \<Rightarrow> error + RunAutomationDetails" where
  "RunAutomationDetails_UnmarshalJSON ord b =
     (case json_Unmarshal_RawMessages b of
        Inl err \<Rightarrow> Inl err
      | Inr jsonMap \<Rightarrow>
          (case range_loop (\<lambda>k v. switch k (RunAutomationDetails_cases ord v) (reject k))
                  (range_map ord jsonMap) RunAutomationDetails_zero of
             Inl err \<Rightarrow> Inl err
           | Inr strct \<Rightarrow>
              Inr strct))"

subsection \<open>VersionControlDetails\<close>

record VersionControlDetails =
  AsOfTimeUtc :: "string"
  Branch :: "string"
  MappedTo :: "ArtifactLocation option"
  Properties :: "PropertyBag option"
  RepositoryUri :: "string"
  RevisionId :: "string"
  RevisionTag :: "string"

definition VersionControlDetails_zero :: "VersionControlDetails" where
  "VersionControlDetails_zero =
     \<lparr>VersionControlDetails.AsOfTimeUtc = [],
       VersionControlDetails.Branch = [],
       VersionControlDetails.MappedTo = None,
       VersionControlDetails.Properties = None,
       VersionControlDetails.RepositoryUri = [],
       VersionControlDetails.RevisionId = [],
       VersionControlDetails.RevisionTag = []\<rparr>"

definition VersionControlDetails_MarshalJSON :: "scanner \<Rightarrow> order \<Rightarrow> VersionControlDetails \<Rightarrow> error + json" where
  "VersionControlDetails_MarshalJSON scn ord strct =
     object (
      emit ''asOfTimeUtc'' (json_Marshal_string (VersionControlDetails.AsOfTimeUtc strct)) (
      emit ''branch'' (json_Marshal_string (VersionControlDetails.Branch strct)) (
      emit ''mappedTo'' (json_Marshal_ptr ''*sarif.ArtifactLocation'' (ArtifactLocation_MarshalJSON scn ord) (VersionControlDetails.MappedTo strct)) (
      emit ''properties'' (json_Marshal_bytes ''*sarif.PropertyBag'' (PropertyBag_MarshalJSON scn ord) (VersionControlDetails.Properties strct)) (
      emit ''repositoryUri'' (json_Marshal_string (VersionControlDetails.RepositoryUri strct)) (
      emit ''revisionId'' (json_Marshal_string (VersionControlDetails.RevisionId strct)) (
      emit ''revisionTag'' (json_Marshal_string (VersionControlDetails.RevisionTag strct)) (
      Inr []))))))))"

definition VersionControlDetails_cases :: "order \<Rightarrow> json \<Rightarrow> (string \<times> (VersionControlDetails \<times> bool) action) list" where
  "VersionControlDetails_cases ord v =
     [(''asOfTimeUtc'', into (json_Unmarshal_string v)
         (\<lambda>x (strct, repositoryUriReceived). (strct\<lparr>VersionControlDetails.AsOfTimeUtc := x\<rparr>, repositoryUriReceived))),
      (''branch'', into (json_Unmarshal_string v)
         (\<lambda>x (strct, repositoryUriReceived). (strct\<lparr>VersionControlDetails.Branch := x\<rparr>, repositoryUriReceived))),
      (''mappedTo'', into (json_Unmarshal_ptr (ArtifactLocation_UnmarshalJSON ord) v)
         (\<lambda>x (strct, repositoryUriReceived). (strct\<lparr>VersionControlDetails.MappedTo := x\<rparr>, repositoryUriReceived))),
      (''properties'', into (json_Unmarshal_ptr (PropertyBag_UnmarshalJSON ord) v)
         (\<lambda>x (strct, repositoryUriReceived). (strct\<lparr>VersionControlDetails.Properties := x\<rparr>, repositoryUriReceived))),
      (''repositoryUri'', into (json_Unmarshal_string v)
         (\<lambda>x (strct, repositoryUriReceived). (strct\<lparr>VersionControlDetails.RepositoryUri := x\<rparr>, True))),
      (''revisionId'', into (json_Unmarshal_string v)
         (\<lambda>x (strct, repositoryUriReceived). (strct\<lparr>VersionControlDetails.RevisionId := x\<rparr>, repositoryUriReceived))),
      (''revisionTag'', into (json_Unmarshal_string v)
         (\<lambda>x (strct, repositoryUriReceived). (strct\<lparr>VersionControlDetails.RevisionTag := x\<rparr>, repositoryUriReceived)))]"

definition VersionControlDetails_UnmarshalJSON :: "order \<Rightarrow> json \<Rightarrow> error + VersionControlDetails" where
  "VersionControlDetails_UnmarshalJSON ord b =
     (case json_Unmarshal_RawMessages b of
        Inl err \<Rightarrow> Inl err
      | Inr jsonMap \<Rightarrow>
          (case range_loop (\<lambda>k v. switch k (VersionControlDetails_cases ord v) (reject k))
                  (range_map ord jsonMap) (VersionControlDetails_zero, False) of
             Inl err \<Rightarrow> Inl err
           | Inr (strct, repositoryUriReceived) \<Rightarrow>
              if \<not> repositoryUriReceived then Inl (RequiredNotPresent ''repositoryUri'')
              else Inr strct))"

subsection \<open>Run\<close>

record Run =
  Addresses :: "Address option list option"
  Artifacts :: "Artifact option list option"
  AutomationDetails :: "RunAutomationDetails option"
  BaselineGuid :: "string"
  ColumnKind :: "string"
  Conversion :: "Conversion option"
  DefaultEncoding :: "string"
  DefaultSourceLanguage :: "string"
  ExternalPropertyFileReferences :: "ExternalPropertyFileReferences option"
  Graphs :: "Graph option list option"
  Invocations :: "Invocation option list option"
  Language :: "string"
  LogicalLocations :: "LogicalLocation option list option"
  NewlineSequences :: "string list option"
  OriginalUriBaseIds :: "ArtifactLocation option go_map"
  Policies :: "ToolComponent option list option"
  Properties :: "PropertyBag option"
  RedactionTokens :: "string list option"
  Results :: "Result option list option"
  RunAggregates :: "RunAutomationDetails option list option"
  SpecialLocations :: "SpecialLocations option"
  Taxonomies :: "ToolComponent option list option"
  ThreadFlowLocations :: "ThreadFlowLocation option list option"
  Tool :: "Tool option"
  Translations :: "ToolComponent option list option"
  VersionControlProvenance :: "VersionControlDetails option list option"
  WebRequests :: "WebRequest option list option"
  WebResponses :: "WebResponse option list option"

definition Run_zero :: "Run" where
  "Run_zero =
     \<lparr>Run.Addresses = None,
       Run.Artifacts = None,
       Run.AutomationDetails = None,
       Run.BaselineGuid = [],
       Run.ColumnKind = [],
       Run.Conversion = None,
       Run.DefaultEncoding = [],
       Run.DefaultSourceLanguage = [],
       Run.ExternalPropertyFileReferences = None,
       Run.Graphs = None,
       Run.Invocations = None,
       Run.Language = [],
       Run.LogicalLocations = None,
       Run.NewlineSequences = None,
       Run.OriginalUriBaseIds = None,
       Run.Policies = None,
       Run.Properties = None,
       Run.RedactionTokens = None,
       Run.Results = None,
       Run.RunAggregates = None,
       Run.SpecialLocations = None,
       Run.Taxonomies = None,
       Run.ThreadFlowLocations = None,
       Run.Tool = None,
       Run.Translations = None,
       Run.VersionControlProvenance = None,
       Run.WebRequests = None,
       Run.WebResponses = None\<rparr>"

definition Run_MarshalJSON :: "scanner \<Rightarrow> order \<Rightarrow> Run \<Rightarrow> error + json" where
  "Run_MarshalJSON scn ord strct =
     object (
      emit ''addresses'' (json_Marshal_slice (json_Marshal_ptr ''*sarif.Address'' (Address_MarshalJSON scn ord)) (Run.Addresses strct)) (
      emit ''artifacts'' (json_Marshal_slice (json_Marshal_ptr ''*sarif.Artifact'' (Artifact_MarshalJSON scn ord)) (Run.Artifacts strct)) (
      emit ''automationDetails'' (json_Marshal_ptr ''*sarif.RunAutomationDetails'' (RunAutomationDetails_MarshalJSON scn ord) (Run.AutomationDetails strct)) (
      emit ''baselineGuid'' (json_Marshal_string (Run.BaselineGuid strct)) (
      emit ''columnKind'' (json_Marshal_string (Run.ColumnKind strct)) (
      emit ''conversion'' (json_Marshal_ptr ''*sarif.Conversion'' (Conversion_MarshalJSON scn ord) (Run.Conversion strct)) (
      emit ''defaultEncoding'' (json_Marshal_string (Run.DefaultEncoding strct)) (
      emit ''defaultSourceLanguage'' (json_Marshal_string (Run.DefaultSourceLanguage strct)) (
      emit ''externalPropertyFileReferences'' (json_Marshal_ptr ''*sarif.ExternalPropertyFileReferences'' (ExternalPropertyFileReferences_MarshalJSON scn ord) (Run.ExternalPropertyFileReferences strct)) (
      emit ''graphs'' (json_Marshal_slice (json_Marshal_ptr ''*sarif.Graph'' (Graph_MarshalJSON scn ord)) (Run.Graphs strct)) (
      emit ''invocations'' (json_Marshal_slice (json_Marshal_ptr ''*sarif.Invocation'' (Invocation_MarshalJSON scn ord)) (Run.Invocations strct)) (
      emit ''language'' (json_Marshal_string (Run.Language strct)) (
      emit ''logicalLocations'' (json_Marshal_slice (json_Marshal_ptr ''*sarif.LogicalLocation'' (LogicalLocation_MarshalJSON scn ord)) (Run.LogicalLocations strct)) (
      emit ''newlineSequences'' (json_Marshal_slice json_Marshal_string (Run.NewlineSequences strct)) (
      emit ''originalUriBaseIds'' (json_Marshal_map (json_Marshal_ptr ''*sarif.ArtifactLocation'' (ArtifactLocation_MarshalJSON scn ord)) (Run.OriginalUriBaseIds strct)) (
      emit ''policies'' (json_Marshal_slice (json_Marshal_ptr ''*sarif.ToolComponent'' (ToolComponent_MarshalJSON scn ord)) (Run.Policies strct)) (
      emit ''properties'' (json_Marshal_bytes ''*sarif.PropertyBag'' (PropertyBag_MarshalJSON scn ord) (Run.Properties strct)) (
      emit ''redactionTokens'' (json_Marshal_slice json_Marshal_string (Run.RedactionTokens strct)) (
      emit ''results'' (json_Marshal_slice (json_Marshal_ptr ''*sarif.Result'' (Result_MarshalJSON scn ord)) (Run.Results strct)) (
      emit ''runAggregates'' (json_Marshal_slice (json_Marshal_ptr ''*sarif.RunAutomationDetails'' (RunAutomationDetails_MarshalJSON scn ord)) (Run.RunAggregates strct)) (
      emit ''specialLocations'' (json_Marshal_ptr ''*sarif.SpecialLocations'' (SpecialLocations_MarshalJSON scn ord) (Run.SpecialLocations strct)) (
      emit ''taxonomies'' (json_Marshal_slice (json_Marshal_ptr ''*sarif.ToolComponent'' (ToolComponent_MarshalJSON scn ord)) (Run.Taxonomies strct)) (
      emit ''threadFlowLocations'' (json_Marshal_slice (json_Marshal_ptr ''*sarif.ThreadFlowLocation'' (ThreadFlowLocation_MarshalJSON scn ord)) (Run.ThreadFlowLocations strct)) (
      (if Run.Tool strct = None then Inl (RequiredField ''tool'') else
      emit ''tool'' (json_Marshal_ptr ''*sarif.Tool'' (Tool_MarshalJSON scn ord) (Run.Tool strct)) (
      emit ''translations'' (json_Marshal_slice (json_Marshal_ptr ''*sarif.ToolComponent'' (ToolComponent_MarshalJSON scn ord)) (Run.Translations strct)) (
      emit ''versionControlProvenance'' (json_Marshal_slice (json_Marshal_ptr ''*sarif.VersionControlDetails'' (VersionControlDetails_MarshalJSON scn ord)) (Run.VersionControlProvenance strct)) (
      emit ''webRequests'' (json_Marshal_slice (json_Marshal_ptr ''*sarif.WebRequest'' (WebRequest_MarshalJSON scn ord)) (Run.WebRequests strct)) (
      emit ''webResponses'' (json_Marshal_slice (json_Marshal_ptr ''*sarif.WebResponse'' (WebResponse_MarshalJSON scn ord)) (Run.WebResponses strct)) (
      Inr []))))))))))))))))))))))))))))))"

definition Run_cases :: "order \<Rightarrow> json \<Rightarrow> (string \<times> (Run \<times> bool) action) list" where
  "Run_cases ord v =
     [(''addresses'', into (json_Unmarshal_slice (json_Unmarshal_ptr (Address_UnmarshalJSON ord)) v)
         (\<lambda>x (strct, toolReceived). (strct\<lparr>Run.Addresses := x\<rparr>, toolReceived))),
      (''artifacts'', into (json_Unmarshal_slice (json_Unmarshal_ptr (Artifact_UnmarshalJSON ord)) v)
         (\<lambda>x (strct, toolReceived). (strct\<lparr>Run.Artifacts := x\<rparr>, toolReceived))),
      (''automationDetails'', into (json_Unmarshal_ptr (RunAutomationDetails_UnmarshalJSON ord) v)
         (\<lambda>x (strct, toolReceived). (strct\<lparr>Run.AutomationDetails := x\<rparr>, toolReceived))),
      (''baselineGuid'', into (json_Unmarshal_string v)
         (\<lambda>x (strct, toolReceived). (strct\<lparr>Run.BaselineGuid := x\<rparr>, toolReceived))),
      (''columnKind'', into (json_Unmarshal_string v)
         (\<lambda>x (strct, toolReceived). (strct\<lparr>Run.ColumnKind := x\<rparr>, toolReceived))),
      (''conversion'', into (json_Unmarshal_ptr (Conversion_UnmarshalJSON ord) v)
         (\<lambda>x (strct, toolReceived). (strct\<lparr>Run.Conversion := x\<rparr>, toolReceived))),
      (''defaultEncoding'', into (json_Unmarshal_string v)
         (\<lambda>x (strct, toolReceived). (strct\<lparr>Run.DefaultEncoding := x\<rparr>, toolReceived))),
      (''defaultSourceLanguage'', into (json_Unmarshal_string v)
         (\<lambda>x (strct, toolReceived). (strct\<lparr>Run.DefaultSourceLanguage := x\<rparr>, toolReceived))),
      (''externalPropertyFileReferences'', into (json_Unmarshal_ptr (ExternalPropertyFileReferences_UnmarshalJSON ord) v)
         (\<lambda>x (strct, toolReceived). (strct\<lparr>Run.ExternalPropertyFileReferences := x\<rparr>, toolReceived))),
      (''graphs'', into (json_Unmarshal_slice (json_Unmarshal_ptr (Graph_UnmarshalJSON ord)) v)
         (\<lambda>x (strct, toolReceived). (strct\<lparr>Run.Graphs := x\<rparr>, toolReceived))),
      (''invocations'', into (json_Unmarshal_slice (json_Unmarshal_ptr (Invocation_UnmarshalJSON ord)) v)
         (\<lambda>x (strct, toolReceived). (strct\<lparr>Run.Invocations := x\<rparr>, toolReceived))),
      (''language'', into (json_Unmarshal_string v)
         (\<lambda>x (strct, toolReceived). (strct\<lparr>Run.Language := x\<rparr>, toolReceived))),
      (''logicalLocations'', into (json_Unmarshal_slice (json_Unmarshal_ptr (LogicalLocation_UnmarshalJSON ord)) v)
         (\<lambda>x (strct, toolReceived). (strct\<lparr>Run.LogicalLocations := x\<rparr>, toolReceived))),
      (''newlineSequences'', into (json_Unmarshal_slice json_Unmarshal_string v)
         (\<lambda>x (strct, toolReceived). (strct\<lparr>Run.NewlineSequences := x\<rparr>, toolReceived))),
      (''originalUriBaseIds'', into (json_Unmarshal_map (json_Unmarshal_ptr (ArtifactLocation_UnmarshalJSON ord)) v)
         (\<lambda>x (strct, toolReceived). (strct\<lparr>Run.OriginalUriBaseIds := x\<rparr>, toolReceived))),
      (''policies'', into (json_Unmarshal_slice (json_Unmarshal_ptr (ToolComponent_UnmarshalJSON ord)) v)
         (\<lambda>x (strct, toolReceived). (strct\<lparr>Run.Policies := x\<rparr>, toolReceived))),
      (''properties'', into (json_Unmarshal_ptr (PropertyBag_UnmarshalJSON ord) v)
         (\<lambda>x (strct, toolReceived). (strct\<lparr>Run.Properties := x\<rparr>, toolReceived))),
      (''redactionTokens'', into (json_Unmarshal_slice json_Unmarshal_string v)
         (\<lambda>x (strct, toolReceived). (strct\<lparr>Run.RedactionTokens := x\<rparr>, toolReceived))),
      (''results'', into (json_Unmarshal_slice (json_Unmarshal_ptr (Result_UnmarshalJSON ord)) v)
         (\<lambda>x (strct, toolReceived). (strct\<lparr>Run.Results := x\<rparr>, toolReceived))),
      (''runAggregates'', into (json_Unmarshal_slice (json_Unmarshal_ptr (RunAutomationDetails_UnmarshalJSON ord)) v)
         (\<lambda>x (strct, toolReceived). (strct\<lparr>Run.RunAggregates := x\<rparr>, toolReceived))),
      (''specialLocations'', into (json_Unmarshal_ptr (SpecialLocations_UnmarshalJSON ord) v)
         (\<lambda>x (strct, toolReceived). (strct\<lparr>Run.SpecialLocations := x\<rparr>, toolReceived))),
      (''taxonomies'', into (json_Unmarshal_slice (json_Unmarshal_ptr (ToolComponent_UnmarshalJSON ord)) v)
         (\<lambda>x (strct, toolReceived). (strct\<lparr>Run.Taxonomies := x\<rparr>, toolReceived))),
      (''threadFlowLocations'', into (json_Unmarshal_slice (json_Unmarshal_ptr (ThreadFlowLocation_UnmarshalJSON ord)) v)
         (\<lambda>x (strct, toolReceived). (strct\<lparr>Run.ThreadFlowLocations := x\<rparr>, toolReceived))),
      (''tool'', into (json_Unmarshal_ptr (Tool_UnmarshalJSON ord) v)
         (\<lambda>x (strct, toolReceived). (strct\<lparr>Run.Tool := x\<rparr>, True))),
      (''translations'', into (json_Unmarshal_slice (json_Unmarshal_ptr (ToolComponent_UnmarshalJSON ord)) v)
         (\<lambda>x (strct, toolReceived). (strct\<lparr>Run.Translations := x\<rparr>, toolReceived))),
      (''versionControlProvenance'', into (json_Unmarshal_slice (json_Unmarshal_ptr (VersionControlDetails_UnmarshalJSON ord)) v)
         (\<lambda>x (strct, toolReceived). (strct\<lparr>Run.VersionControlProvenance := x\<rparr>, toolReceived))),
      (''webRequests'', into (json_Unmarshal_slice (json_Unmarshal_ptr (WebRequest_UnmarshalJSON ord)) v)
         (\<lambda>x (strct, toolReceived). (strct\<lparr>Run.WebRequests := x\<rparr>, toolReceived))),
      (''webResponses'', into (json_Unmarshal_slice (json_Unmarshal_ptr (WebResponse_UnmarshalJSON ord)) v)
         (\<lambda>x (strct, toolReceived). (strct\<lparr>Run.WebResponses := x\<rparr>, toolReceived)))]"

definition Run_UnmarshalJSON :: "order \<Rightarrow> json \<Rightarrow> error + Run" where
  "Run_UnmarshalJSON ord b =
     (case json_Unmarshal_RawMessages b of
        Inl err \<Rightarrow> Inl err
      | Inr jsonMap \<Rightarrow>
          (case range_loop (\<lambda>k v. switch k (Run_cases ord v) (reject k))
                  (range_map ord jsonMap) (Run_zero, False) of
             Inl err \<Rightarrow> Inl err
           | Inr (strct, toolReceived) \<Rightarrow>
              if \<not> toolReceived then Inl (RequiredNotPresent ''tool'')
              else Inr strct))"

subsection \<open>SARIF\<close>

record SARIF =
  InlineExternalProperties :: "ExternalProperties option list option"
  Properties :: "PropertyBag option"
  Runs :: "Run option list option"
  Schema :: "string"
  Version :: "string"

definition SARIF_zero :: "SARIF" where
  "SARIF_zero =
     \<lparr>SARIF.InlineExternalProperties = None,
       SARIF.Properties = None,
       SARIF.Runs = None,
       SARIF.Schema = [],
       SARIF.Version = []\<rparr>"

definition SARIF_MarshalJSON :: "scanner \<Rightarrow> order \<Rightarrow> SARIF \<Rightarrow> error + json" where
  "SARIF_MarshalJSON scn ord strct =
     object (
      emit ''inlineExternalProperties'' (json_Marshal_slice (json_Marshal_ptr ''*sarif.ExternalProperties'' (ExternalProperties_MarshalJSON scn ord)) (SARIF.InlineExternalProperties strct)) (
      emit ''properties'' (json_Marshal_bytes ''*sarif.PropertyBag'' (PropertyBag_MarshalJSON scn ord) (SARIF.Properties strct)) (
      emit ''runs'' (json_Marshal_slice (json_Marshal_ptr ''*sarif.Run'' (Run_MarshalJSON scn ord)) (SARIF.Runs strct)) (
      emit ''$schema'' (json_Marshal_string (SARIF.Schema strct)) (
      emit ''version'' (json_Marshal_string (SARIF.Version strct)) (
      Inr []))))))"

definition SARIF_cases :: "order \<Rightarrow> json \<Rightarrow> (string \<times> (SARIF \<times> bool \<times> bool) action) list" where
  "SARIF_cases ord v =
     [(''inlineExternalProperties'', into (json_Unmarshal_slice (json_Unmarshal_ptr (ExternalProperties_UnmarshalJSON ord)) v)
         (\<lambda>x (strct, runsReceived, versionReceived). (strct\<lparr>SARIF.InlineExternalProperties := x\<rparr>, runsReceived, versionReceived))),
      (''properties'', into (json_Unmarshal_ptr (PropertyBag_UnmarshalJSON ord) v)
         (\<lambda>x (strct, runsReceived, versionReceived). (strct\<lparr>SARIF.Properties := x\<rparr>, runsReceived, versionReceived))),
      (''runs'', into (json_Unmarshal_slice (json_Unmarshal_ptr (Run_UnmarshalJSON ord)) v)
         (\<lambda>x (strct, runsReceived, versionReceived). (strct\<lparr>SARIF.Runs := x\<rparr>, True, versionReceived))),
      (''$schema'', into (json_Unmarshal_string v)
         (\<lambda>x (strct, runsReceived, versionReceived). (strct\<lparr>SARIF.Schema := x\<rparr>, runsReceived, versionReceived))),
      (''version'', into (json_Unmarshal_string v)
         (\<lambda>x (strct, runsReceived, versionReceived). (strct\<lparr>SARIF.Version := x\<rparr>, runsReceived, True)))]"

definition SARIF_UnmarshalJSON :: "order \<Rightarrow> json \<Rightarrow> error + SARIF" where
  "SARIF_UnmarshalJSON ord b =
     (case json_Unmarshal_RawMessages b of
        Inl err \<Rightarrow> Inl err
      | Inr jsonMap \<Rightarrow>
          (case range_loop (\<lambda>k v. switch k (SARIF_cases ord v) (reject k))
                  (range_map ord jsonMap) (SARIF_zero, False, False) of
             Inl err \<Rightarrow> Inl err
           | Inr (strct, runsReceived, versionReceived) \<Rightarrow>
              if \<not> runsReceived then Inl (RequiredNotPresent ''runs'')
              else if \<not> versionReceived then Inl (RequiredNotPresent ''version'')
              else Inr strct))"

section \<open>Facts about the library calls and the loop\<close>

subsection \<open>Results\<close>

lemma into_Inl [simp]: "into (Inl e) st s = Inl e"
  by (simp add: into_def)

lemma into_Inr [simp]: "into (Inr x) st s = Inr (st x s)"
  by (simp add: into_def)

lemma into_eq_Inr: "into r st s = Inr t \<longleftrightarrow> (\<exists>x. r = Inr x \<and> t = st x s)"
  by (cases r) auto

lemma emit_eq_Inr:
  "emit k tmp rest = Inr buf \<longleftrightarrow> (\<exists>v buf'. tmp = Inr v \<and> rest = Inr buf' \<and> buf = (k, v) # buf')"
  by (cases tmp; cases rest) (auto simp: emit_def)

lemma isl_emit: "isl (emit k tmp rest) \<longleftrightarrow> isl tmp \<or> isl rest"
  by (cases tmp; cases rest) (auto simp: emit_def)

lemma object_eq_Inr: "object buf = Inr j \<longleftrightarrow> (\<exists>kvs. buf = Inr kvs \<and> j = JObj kvs)"
  by (cases buf) (auto simp: object_def)

lemma isl_object: "isl (object buf) \<longleftrightarrow> isl buf"
  by (cases buf) (auto simp: object_def)

lemma switch_absent: "k \<notin> fst ` set cs \<Longrightarrow> switch k cs d = d"
  by (induction cs) auto

lemma switch_present:
  "k \<in> fst ` set cs \<Longrightarrow> \<exists>h. (k, h) \<in> set cs \<and> switch k cs d = h"
  by (induction cs) force+

subsection \<open>Maps of members\<close>

lemma map_of_map_store: "map_of (map_store k v m) = (map_of m)(k \<mapsto> v)"
  by (induction m) (auto simp: fun_eq_iff)

lemma map_of_object_map: "map_of (object_map kvs m) = map_of m ++ map_of (rev kvs)"
proof (induction kvs arbitrary: m)
  case Nil
  show ?case by simp
next
  case (Cons e kvs)
  obtain k v where e: "e = (k, v)" by (cases e)
  show ?case
    unfolding e by (simp add: Cons map_of_map_store fun_eq_iff map_add_def split: option.splits)
qed

lemma sorted_map_store:
  "sorted_wrt (<) (map fst m) \<Longrightarrow> sorted_wrt (<) (map fst (map_store k v m))"
proof (induction m)
  case Nil
  show ?case by simp
next
  case (Cons e m)
  obtain k' v' where e: "e = (k', v')" by (cases e)
  from Cons have tl: "sorted_wrt (<) (map fst (map_store k v m))" by simp
  from Cons.prems have gt: "\<forall>x\<in>set m. k' < fst x" by (simp add: e)
  have "\<forall>x\<in>set (map_store k v m). k' < fst x" if "k' < k"
    using set_map_store [of k v m] gt that by auto
  with Cons.prems tl show ?case by (auto simp: e)
qed

lemma sorted_object_map:
  "sorted_wrt (<) (map fst m) \<Longrightarrow> sorted_wrt (<) (map fst (object_map kvs m))"
  by (induction kvs arbitrary: m) (auto simp: sorted_map_store)

lemma sorted_keys_distinct: "sorted_wrt (<) (map fst m) \<Longrightarrow> distinct (map fst (m :: (string \<times> 'a) list))"
  using strict_sorted_iff [of "map fst m"] by simp

lemma sorted_keys_unique:
  fixes a b :: "(string \<times> 'a) list"
  assumes "sorted_wrt (<) (map fst a)" and "sorted_wrt (<) (map fst b)" and "map_of a = map_of b"
  shows "a = b"
proof -
  have da: "distinct (map fst a)" and db: "distinct (map fst b)"
    using assms by (simp_all add: sorted_keys_distinct)
  then have eq: "set a = set b" using assms(3) by (simp add: map_of_inject_set)
  have "map fst a = map fst b"
  proof (rule sorted_distinct_set_unique)
    show "sorted (map fst a)" "sorted (map fst b)"
      using assms strict_sorted_iff [of "map fst a"] strict_sorted_iff [of "map fst b"] by simp_all
    show "set (map fst a) = set (map fst b)" using eq by simp
  qed (use da db in simp_all)
  then have len: "length a = length b" using map_eq_imp_length_eq by blast
  show ?thesis
  proof (rule nth_equalityI [OF len])
    fix i assume i: "i < length a"
    have "fst (a ! i) = fst (b ! i)"
      using \<open>map fst a = map fst b\<close> i len by (metis nth_map)
    moreover have "map_of a (fst (a ! i)) = Some (snd (a ! i))"
      using da i by (simp add: map_of_eq_Some_iff)
    moreover have "map_of b (fst (b ! i)) = Some (snd (b ! i))"
      using db i len by (simp add: map_of_eq_Some_iff)
    ultimately show "a ! i = b ! i"
      using assms(3) by (simp add: prod_eq_iff)
  qed
qed

lemma sorted_range_map_keys:
  "distinct (map fst m) \<Longrightarrow> distinct (map fst (range_map ord m))"
proof -
  assume d: "distinct (map fst m)"
  have "mset (map fst (range_map ord m)) = mset (map fst m)"
    by (simp add: range_map_def)
  then show ?thesis using d by (metis distinct_count_atmost_1 set_mset_mset)
qed

lemma map_of_range_map:
  "distinct (map fst m) \<Longrightarrow> map_of (range_map ord m) = map_of m"
  by (rule map_of_inject_set [THEN iffD2]) (simp_all add: sorted_range_map_keys)

lemma range_map_filter: "range_map ord (filter P m) = filter P (range_map ord m)"
  by (simp add: range_map_def filter_sort)

text \<open>The members as the loop sees them.\<close>

definition members :: "order \<Rightarrow> (string \<times> json) list \<Rightarrow> (string \<times> json) list" where
  "members ord kvs = range_map ord (object_map kvs [])"

lemma members_distinct: "distinct (map fst (members ord kvs))"
  unfolding members_def
  by (intro sorted_range_map_keys sorted_keys_distinct sorted_object_map) simp

lemma map_of_members: "map_of (members ord kvs) = map_of (rev kvs)"
  unfolding members_def
  by (simp add: map_of_range_map sorted_keys_distinct sorted_object_map map_of_object_map)

lemma keys_members: "fst ` set (members ord kvs) = fst ` set kvs"
proof -
  have "fst ` set (members ord kvs) = dom (map_of (members ord kvs))"
    by (simp add: dom_map_of_conv_image_fst)
  also have "\<dots> = fst ` set kvs"
    by (simp add: map_of_members dom_map_of_conv_image_fst)
  finally show ?thesis .
qed

lemma map_of_filter_key:
  "map_of (filter (\<lambda>e. fst e \<noteq> k) xs) = map_of xs |` {a. a \<noteq> k}"
  using map_of_filter [of "\<lambda>a. a \<noteq> k" xs] by simp

lemma object_map_filter:
  "object_map (filter (\<lambda>e. fst e \<noteq> k) kvs) [] = filter (\<lambda>e. fst e \<noteq> k) (object_map kvs [])"
proof (rule sorted_keys_unique)
  show "sorted_wrt (<) (map fst (object_map (filter (\<lambda>e. fst e \<noteq> k) kvs) []))"
    by (simp add: sorted_object_map)
  have s: "sorted_wrt (<) (map fst (object_map kvs []))"
    by (simp add: sorted_object_map)
  then show "sorted_wrt (<) (map fst (filter (\<lambda>e. fst e \<noteq> k) (object_map kvs [])))"
    by (induction "object_map kvs []" rule: list.induct) (auto simp: sorted_wrt_map sorted_wrt_filter)
  show "map_of (object_map (filter (\<lambda>e. fst e \<noteq> k) kvs) []) =
        map_of (filter (\<lambda>e. fst e \<noteq> k) (object_map kvs []))"
    by (simp add: map_of_object_map map_of_filter_key rev_filter)
qed

lemma members_filter:
  "members ord (filter (\<lambda>e. fst e \<noteq> k) kvs) = filter (\<lambda>e. fst e \<noteq> k) (members ord kvs)"
  by (simp add: members_def object_map_filter range_map_filter)

subsection \<open>The loop over the members\<close>

text \<open>
  A case of a switch either fails whatever the state of the method, or succeeds whatever
  the state: \<^verbatim>\<open>json.Unmarshal\<close> of the member decides, and the state is only written.
\<close>

definition uniform :: "'s action \<Rightarrow> bool" where
  "uniform f \<longleftrightarrow> (\<exists>e. \<forall>s. f s = Inl e) \<or> (\<exists>u. \<forall>s. f s = Inr (u s))"

definition regular :: "(string \<Rightarrow> json \<Rightarrow> 's action) \<Rightarrow> bool" where
  "regular body \<longleftrightarrow> (\<forall>k v. uniform (body k v))"

lemma uniform_into [simp]: "uniform (into r st)"
  by (cases r) (auto simp: uniform_def)

lemma uniform_reject [simp]: "uniform (reject k)"
  by (auto simp: uniform_def reject_def)

lemma uniform_switch:
  "list_all (\<lambda>(c, h). uniform h) cs \<Longrightarrow> uniform d \<Longrightarrow> uniform (switch k cs d)"
  by (induction cs) auto

lemma regular_switch:
  "(\<And>v. list_all (\<lambda>(c, h). uniform h) (cs v)) \<Longrightarrow> regular (\<lambda>k v. switch k (cs v) (reject k))"
  by (simp add: regular_def uniform_switch)

lemma uniform_Inr: "uniform f \<Longrightarrow> f s = Inr t \<Longrightarrow> \<exists>t'. f s' = Inr t'"
  by (auto simp: uniform_def)

lemma uniform_Inl: "uniform f \<Longrightarrow> f s = Inl e \<Longrightarrow> f s' = Inl e"
  by (auto simp: uniform_def)

lemma regular_Inr:
  assumes "regular body" and "body k v s = Inr t"
  shows "\<exists>t'. body k v s' = Inr t'"
proof -
  from assms(1) have "uniform (body k v)" by (simp add: regular_def)
  from uniform_Inr [OF this assms(2)] show ?thesis .
qed

lemma regular_Inl:
  assumes "regular body" and "body k v s = Inl e"
  shows "body k v s' = Inl e"
proof -
  from assms(1) have "uniform (body k v)" by (simp add: regular_def)
  from uniform_Inl [OF this assms(2)] show ?thesis .
qed

definition accepting :: "'s action \<Rightarrow> bool" where
  "accepting h \<longleftrightarrow> (\<exists>s t. h s = Inr t)"

lemma accepting_into [simp]: "accepting (into r st) \<longleftrightarrow> (\<exists>x. r = Inr x)"
  by (cases r) (auto simp: accepting_def)

lemma loop_succeeds:
  assumes "regular body" and "\<And>k v. (k, v) \<in> set L \<Longrightarrow> accepting (body k v)"
  shows "\<exists>t. range_loop body L s = Inr t"
  using assms(2)
proof (induction L arbitrary: s)
  case Nil
  show ?case by simp
next
  case (Cons e L)
  obtain k v where e: "e = (k, v)" by (cases e)
  from Cons.prems [of k v] obtain s0 t0 where "body k v s0 = Inr t0"
    by (auto simp: e accepting_def)
  from regular_Inr [OF assms(1) this, of s] obtain s' where s': "body k v s = Inr s'" by blast
  from Cons.IH [of s'] Cons.prems obtain t where "range_loop body L s' = Inr t" by auto
  with s' show ?case by (simp add: e)
qed

lemma loop_member_succeeds:
  "range_loop body L s = Inr t \<Longrightarrow> (k, v) \<in> set L \<Longrightarrow> \<exists>s' t'. body k v s' = Inr t'"
proof (induction L arbitrary: s)
  case Nil
  then show ?case by simp
next
  case (Cons e L)
  obtain k' v' where e: "e = (k', v')" by (cases e)
  from Cons.prems(1) obtain s1 where s1: "body k' v' s = Inr s1" "range_loop body L s1 = Inr t"
    by (auto simp: e split: sum.splits)
  show ?case
  proof (cases "(k, v) = (k', v')")
    case True
    with s1(1) show ?thesis by blast
  next
    case False
    with Cons.prems(2) have "(k, v) \<in> set L" by (auto simp: e)
    with Cons.IH [OF s1(2)] show ?thesis .
  qed
qed

lemma loop_error_source:
  "range_loop body L s = Inl e \<Longrightarrow> \<exists>k v s'. (k, v) \<in> set L \<and> body k v s' = Inl e"
proof (induction L arbitrary: s)
  case Nil
  then show ?case by simp
next
  case (Cons x L)
  obtain k' v' where x: "x = (k', v')" by (cases x)
  show ?case
  proof (cases "body k' v' s")
    case (Inl e')
    with Cons.prems have "e' = e" by (simp add: x)
    with Inl show ?thesis by (auto simp: x)
  next
    case (Inr s1)
    with Cons.prems have "range_loop body L s1 = Inl e" by (simp add: x)
    from Cons.IH [OF this] show ?thesis by auto
  qed
qed

lemma loop_fails_at:
  assumes "(k, v) \<in> set L" and "\<And>s. isl (body k v s)"
  shows "isl (range_loop body L s)"
proof (cases "range_loop body L s")
  case (Inr t)
  from loop_member_succeeds [OF Inr assms(1)] obtain s' t' where "body k v s' = Inr t'" by blast
  with assms(2) [of s'] show ?thesis by simp
qed simp

text \<open>
  When the members without the key \<open>k\<close> are all accepted and the case of \<open>k\<close> fails
  with \<open>E\<close>, the loop over all members returns \<open>E\<close>, whatever the order.
\<close>

lemma loop_extra_key:
  assumes reg: "regular body"
    and rest: "range_loop body (filter (\<lambda>e. fst e \<noteq> k) L) s = Inr t"
    and mem: "(k, v) \<in> set L" and dist: "distinct (map fst L)"
    and fail: "\<And>s. body k v s = Inl E"
  shows "range_loop body L s = Inl E"
proof (cases "range_loop body L s")
  case (Inr t')
  from loop_member_succeeds [OF Inr mem] fail show ?thesis by auto
next
  case (Inl e)
  from loop_error_source [OF Inl] obtain k' v' s' where
    src: "(k', v') \<in> set L" "body k' v' s' = Inl e" by blast
  have "k' = k"
  proof (rule ccontr)
    assume "k' \<noteq> k"
    with src(1) have "(k', v') \<in> set (filter (\<lambda>e. fst e \<noteq> k) L)" by simp
    from loop_member_succeeds [OF rest this] obtain s2 t2 where "body k' v' s2 = Inr t2" by blast
    with regular_Inr [OF reg this, of s'] src(2) show False by auto
  qed
  with src(1) have "(k, v') \<in> set L" by simp
  from eq_key_imp_eq_value [OF dist this mem] have "v' = v" .
  with src(2) \<open>k' = k\<close> fail [of s'] have "e = E" by simp
  with Inl show ?thesis by simp
qed

text \<open>
  A projection \<open>g\<close> of the state is written by the case of the key \<open>c\<close> only, with what
  \<open>p\<close> reads from the member: after the loop it holds the value read from the member
  \<open>c\<close>, or what it held before when there is no such member.
\<close>

definition tracks :: "(string \<Rightarrow> json \<Rightarrow> 's action) \<Rightarrow> ('s \<Rightarrow> 'b) \<Rightarrow> string \<Rightarrow> (json \<Rightarrow> error + 'b) \<Rightarrow> bool" where
  "tracks body g c p \<longleftrightarrow>
     (\<forall>k v s t. body k v s = Inr t \<longrightarrow> (if k = c then p v = Inr (g t) else g t = g s))"

lemma tracks_absent:
  "tracks body g c p \<Longrightarrow> c \<notin> fst ` set L \<Longrightarrow> range_loop body L s = Inr t \<Longrightarrow> g t = g s"
proof (induction L arbitrary: s)
  case Nil
  then show ?case by simp
next
  case (Cons e L)
  obtain k v where e: "e = (k, v)" by (cases e)
  from Cons.prems(3) obtain s1 where s1: "body k v s = Inr s1" "range_loop body L s1 = Inr t"
    by (auto simp: e split: sum.splits)
  from Cons.prems(2) have "k \<noteq> c" "c \<notin> fst ` set L" by (auto simp: e)
  with Cons.prems(1) s1(1) have "g s1 = g s" by (auto simp: tracks_def)
  with Cons.IH [OF Cons.prems(1) \<open>c \<notin> fst ` set L\<close> s1(2)] show ?case by simp
qed

lemma tracks_loop:
  assumes "tracks body g c p" and "distinct (map fst L)" and "range_loop body L s = Inr t"
  shows "case map_of L c of None \<Rightarrow> g t = g s | Some v \<Rightarrow> p v = Inr (g t)"
  using assms(2,3)
proof (induction L arbitrary: s)
  case Nil
  then show ?case by simp
next
  case (Cons e L)
  obtain k v where e: "e = (k, v)" by (cases e)
  from Cons.prems(2) obtain s1 where s1: "body k v s = Inr s1" "range_loop body L s1 = Inr t"
    by (auto simp: e split: sum.splits)
  from Cons.prems(1) have d: "distinct (map fst L)" "k \<notin> fst ` set L" by (auto simp: e)
  show ?case
  proof (cases "k = c")
    case True
    with assms(1) s1(1) have "p v = Inr (g s1)" by (auto simp: tracks_def)
    moreover from tracks_absent [OF assms(1) _ s1(2)] d(2) True have "g t = g s1" by simp
    ultimately show ?thesis using True by (simp add: e)
  next
    case False
    with assms(1) s1(1) have "g s1 = g s" by (auto simp: tracks_def)
    with Cons.IH [OF d(1) s1(2)] False show ?thesis by (simp add: e split: option.splits)
  qed
qed

lemma tracks_rows:
  fixes q :: "error + 'b" and g :: "'s \<Rightarrow> 'b"
  assumes "switch k xs (reject k) s = Inr t"
    and "list_all (\<lambda>(c', h). \<forall>s t. h s = Inr t \<longrightarrow> (if c' = c then q = Inr (g t) else g t = g s)) xs"
  shows "if k = c then q = Inr (g t) else g t = g s"
  using assms
proof (induction xs)
  case Nil
  then show ?case by (simp add: reject_def)
next
  case (Cons x xs)
  obtain c' h where x: "x = (c', h)" by (cases x)
  show ?case
  proof (cases "k = c'")
    case True
    with Cons.prems show ?thesis by (simp add: x)
  next
    case False
    with Cons.prems Cons.IH show ?thesis by (simp add: x)
  qed
qed

lemma tracks_switch:
  assumes "\<And>v. list_all (\<lambda>(c', h). \<forall>s t. h s = Inr t \<longrightarrow>
              (if c' = c then p v = Inr (g t) else g t = g s)) (cs v)"
  shows "tracks (\<lambda>k v. switch k (cs v) (reject k)) g c p"
  unfolding tracks_def
proof (intro allI impI)
  fix k v s t
  assume "switch k (cs v) (reject k) s = Inr t"
  from tracks_rows [OF this assms [of v]] show "if k = c then p v = Inr (g t) else g t = g s" .
qed

lemma switch_rejects:
  "k \<notin> fst ` set cs \<Longrightarrow> switch k cs (reject k) s = Inl (not_allowed k)"
  by (simp add: switch_absent reject_def)

text \<open>A successful loop has met no key outside the cases of the switch.\<close>

lemma loop_keys_known:
  assumes "range_loop (\<lambda>k v. switch k (cs v) (reject k)) L s = Inr t"
    and "\<And>v. fst ` set (cs v) = K"
  shows "fst ` set L \<subseteq> K"
proof
  fix k assume "k \<in> fst ` set L"
  then obtain v where "(k, v) \<in> set L" by auto
  from loop_member_succeeds [OF assms(1) this] obtain s' t' where
    ok: "switch k (cs v) (reject k) s' = Inr t'" by blast
  show "k \<in> K"
  proof (rule ccontr)
    assume "k \<notin> K"
    with assms(2) [of v] have "k \<notin> fst ` set (cs v)" by simp
    from switch_rejects [OF this, of s'] ok show False by simp
  qed
qed

subsection \<open>The cases of a field\<close>

text \<open>
  What the switch does to one projection \<open>g\<close> of the state: the case of the key \<open>c\<close>
  reads the member with \<open>p\<close>, returns its error or stores its value where \<open>g\<close> reads
  it; every other case leaves \<open>g\<close> alone.
\<close>

definition writes :: "'s action \<Rightarrow> ('s \<Rightarrow> 'b) \<Rightarrow> error + 'b \<Rightarrow> bool" where
  "writes h g r \<longleftrightarrow> (\<forall>s. case r of Inl e \<Rightarrow> h s = Inl e | Inr a \<Rightarrow> (\<exists>t. h s = Inr t \<and> g t = a))"

definition keeps :: "'s action \<Rightarrow> ('s \<Rightarrow> 'b) \<Rightarrow> bool" where
  "keeps h g \<longleftrightarrow> (\<forall>s t. h s = Inr t \<longrightarrow> g t = g s)"

definition field_case :: "(json \<Rightarrow> (string \<times> 's action) list) \<Rightarrow> ('s \<Rightarrow> 'b) \<Rightarrow> string \<Rightarrow> (json \<Rightarrow> error + 'b) \<Rightarrow> bool" where
  "field_case cs g c p \<longleftrightarrow>
     (\<forall>v. list_all (\<lambda>(c', h). if c' = c then writes h g (p v) else keeps h g) (cs v))"

definition received :: "(json \<Rightarrow> error + 'a) \<Rightarrow> json \<Rightarrow> error + bool" where
  "received p v = (case p v of Inl e \<Rightarrow> Inl e | Inr x \<Rightarrow> Inr True)"

definition field_ok :: "(json \<Rightarrow> error + 'a) \<Rightarrow> json option \<Rightarrow> 'a \<Rightarrow> 'a \<Rightarrow> bool" where
  "field_ok p m z a \<longleftrightarrow> (case m of None \<Rightarrow> a = z | Some v \<Rightarrow> p v = Inr a)"

lemma writes_into: "(\<And>x s. g (st x s) = x) \<Longrightarrow> writes (into r st) g r"
  by (cases r) (auto simp: writes_def)

lemma writes_received: "(\<And>x s. g (st x s) = True) \<Longrightarrow> writes (into (p v) st) g (received p v)"
  by (cases "p v") (auto simp: writes_def received_def)

lemma keeps_into: "(\<And>x s. g (st x s) = g s) \<Longrightarrow> keeps (into r st) g"
  by (auto simp: keeps_def into_eq_Inr)

lemma writes_result:
  assumes "writes h g r" and "h s = Inr t"
  shows "r = Inr (g t)"
proof (cases r)
  case (Inl e)
  with assms(1) have "h s = Inl e" by (simp add: writes_def)
  with assms(2) show ?thesis by simp
next
  case (Inr a)
  with assms(1) obtain t' where "h s = Inr t'" "g t' = a" by (auto simp: writes_def)
  with assms(2) Inr show ?thesis by simp
qed

lemma field_case_tracks:
  assumes "field_case cs g c p"
  shows "tracks (\<lambda>k v. switch k (cs v) (reject k)) g c p"
proof (rule tracks_switch)
  fix v
  from assms have "list_all (\<lambda>(c', h). if c' = c then writes h g (p v) else keeps h g) (cs v)"
    by (simp add: field_case_def)
  then show "list_all (\<lambda>(c', h). \<forall>s t. h s = Inr t \<longrightarrow>
               (if c' = c then p v = Inr (g t) else g t = g s)) (cs v)"
  proof (rule list.pred_mono_strong)
    fix x assume "case x of (c', h) \<Rightarrow> if c' = c then writes h g (p v) else keeps h g"
    then show "case x of (c', h) \<Rightarrow> \<forall>s t. h s = Inr t \<longrightarrow>
                 (if c' = c then p v = Inr (g t) else g t = g s)"
      by (cases x) (auto simp: keeps_def dest: writes_result split: if_splits)
  qed
qed

lemma field_after_loop:
  assumes "field_case cs g c p" and "distinct (map fst L)"
    and "range_loop (\<lambda>k v. switch k (cs v) (reject k)) L s = Inr t"
  shows "field_ok p (map_of L c) (g s) (g t)"
  using tracks_loop [OF field_case_tracks [OF assms(1)] assms(2,3)]
  by (simp add: field_ok_def split: option.splits)

lemma flag_after_loop:
  assumes "field_case cs g c (received p)" and "distinct (map fst L)"
    and "range_loop (\<lambda>k v. switch k (cs v) (reject k)) L s = Inr t" and "\<not> g s"
  shows "g t \<longleftrightarrow> map_of L c \<noteq> None"
  using field_after_loop [OF assms(1-3)] assms(4)
  by (auto simp: field_ok_def received_def split: option.splits sum.splits)

lemma field_case_result:
  assumes "field_case cs g c p" and "c \<in> fst ` set (cs v)"
  shows "writes (switch c (cs v) (reject c)) g (p v)"
proof -
  from assms(1) have rows: "list_all (\<lambda>(c', h). if c' = c then writes h g (p v) else keeps h g) (cs v)"
    by (simp add: field_case_def)
  from switch_present [OF assms(2)] obtain h where h: "(c, h) \<in> set (cs v)"
    "switch c (cs v) (reject c) = h" by blast
  from rows h(1) have "writes h g (p v)" by (auto simp: list_all_iff)
  with h(2) show ?thesis by simp
qed

lemma field_case_accepts:
  assumes "field_case cs g c p" and "c \<in> fst ` set (cs v)" and "p v = Inr a"
  shows "\<exists>t. switch c (cs v) (reject c) s = Inr t"
  using field_case_result [OF assms(1,2)] assms(3) by (auto simp: writes_def)

lemma field_case_error:
  assumes "field_case cs g c p" and "c \<in> fst ` set (cs v)" and "p v = Inl e"
  shows "switch c (cs v) (reject c) s = Inl e"
  using field_case_result [OF assms(1,2)] assms(3) by (auto simp: writes_def)

lemma field_ok_Some: "field_ok p (Some v) z a \<longleftrightarrow> p v = Inr a"
  by (simp add: field_ok_def)

lemma field_ok_None: "field_ok p None z a \<longleftrightarrow> a = z"
  by (simp add: field_ok_def)

lemma field_ok_unique: "field_ok p m z a \<Longrightarrow> field_ok p m z b \<Longrightarrow> a = b"
  by (auto simp: field_ok_def split: option.splits)

lemma field_ok_alt:
  "field_ok p mc z a \<longleftrightarrow> (\<forall>v. mc = Some v \<longrightarrow> p v = Inr a) \<and> (mc = None \<longrightarrow> a = z)"
  by (cases mc) (auto simp: field_ok_def)

lemma field_ok_accepts: "field_ok p (m c) z a \<Longrightarrow> m c = Some v \<Longrightarrow> \<exists>x. p v = Inr x"
  by (simp add: field_ok_def)

lemma rows_accept:
  assumes "list_all (\<lambda>(c, h). m c = Some v \<longrightarrow> accepting h) cs"
    and "m k = Some v" and "k \<in> fst ` set cs"
  shows "accepting (switch k cs (reject k))"
proof -
  from switch_present [OF assms(3)] obtain h where h: "(k, h) \<in> set cs"
    "switch k cs (reject k) = h" by blast
  from assms(1) h(1) assms(2) have "accepting h" by (auto simp: list_all_iff)
  with h(2) show ?thesis by simp
qed

lemma member_lookup:
  "(k, v) \<in> set (members ord kvs) \<Longrightarrow> map_of (rev kvs) k = Some v"
  using map_of_members [of ord kvs] members_distinct [of ord kvs]
  by (metis map_of_eq_Some_iff)

lemma dom_members: "dom (map_of (rev kvs)) = fst ` set (members ord kvs)"
  using keys_members [of ord kvs] by (simp add: dom_map_of_conv_image_fst)

text \<open>The call \<^verbatim>\<open>json.Unmarshal(b, &jsonMap)\<close> on an object, with the loop that follows.\<close>

lemma RawMessages_object [simp]:
  "json_Unmarshal_RawMessages (JObj kvs) = Inr (object_map kvs [])"
  by (simp add: json_Unmarshal_RawMessages_def)

lemma accept_row:
  "field_ok p (m c) z a \<Longrightarrow> (case (c, into (p v) st) of (c', h) \<Rightarrow> m c' = Some v \<longrightarrow> accepting h)"
  by (simp add: field_ok_alt)

lemma keys_image: "map fst cs = K \<Longrightarrow> fst ` set cs = set K"
  by (metis set_map)

subsection \<open>PropertyBag: what a decode returns\<close>

text \<open>The members as \<^verbatim>\<open>json.Unmarshal\<close> stores them into an \<^verbatim>\<open>interface{}\<close>.\<close>

definition decoded :: "(string \<times> json) list \<Rightarrow> (string \<times> any) list" where
  "decoded kvs = map (\<lambda>e. (fst e, projr (json_Unmarshal_interface (snd e)))) kvs"

lemma map_fst_decoded [simp]: "map fst (decoded kvs) = map fst kvs"
  by (simp add: decoded_def comp_def)

lemma map_of_decoded:
  "map_of (decoded kvs) = map_option (\<lambda>v. projr (json_Unmarshal_interface v)) \<circ> map_of kvs"
  by (induction kvs) (auto simp: decoded_def fun_eq_iff)

lemma decoded_simps [simp]:
  "decoded [] = []" "decoded ((k, v) # kvs) = (k, projr (json_Unmarshal_interface v)) # decoded kvs"
  by (simp_all add: decoded_def)

lemma entries_simps [simp]: "entries None = []" "entries (Some kvs) = kvs"
  by (simp_all add: entries_def)

lemma PropertyBag_regular:
  "regular (\<lambda>k v. switch k (PropertyBag_cases ord v) (PropertyBag_default k v))"
  by (simp add: regular_def PropertyBag_cases_def PropertyBag_default_def)

lemma PropertyBag_step:
  assumes "switch k (PropertyBag_cases ord v) (PropertyBag_default k v) s = Inr t"
  shows "if k = ''tags''
         then json_Unmarshal_slice json_Unmarshal_string v = Inr (PropertyBag.Tags t) \<and>
              PropertyBag.AdditionalProperties t = PropertyBag.AdditionalProperties s
         else PropertyBag.Tags t = PropertyBag.Tags s \<and>
              \<not> isl (json_Unmarshal_interface v) \<and>
              PropertyBag.AdditionalProperties t =
                Some (map_store k (projr (json_Unmarshal_interface v))
                  (entries (PropertyBag.AdditionalProperties s)))"
  using assms
  by (auto simp: PropertyBag_cases_def PropertyBag_default_def into_eq_Inr split: if_splits)

lemma PropertyBag_accepting:
  "accepting (switch k (PropertyBag_cases ord v) (PropertyBag_default k v)) \<longleftrightarrow>
   (if k = ''tags'' then \<exists>x. json_Unmarshal_slice json_Unmarshal_string v = Inr x
    else \<not> isl (json_Unmarshal_interface v))"
  by (cases "json_Unmarshal_interface v") (simp_all add: PropertyBag_cases_def PropertyBag_default_def)

lemma PropertyBag_tracks_Tags:
  "tracks (\<lambda>k v. switch k (PropertyBag_cases ord v) (PropertyBag_default k v))
     PropertyBag.Tags ''tags'' (json_Unmarshal_slice json_Unmarshal_string)"
  unfolding tracks_def using PropertyBag_step by (auto split: if_splits)

text \<open>
  The additional properties after the loop: the members other than \<^verbatim>\<open>tags\<close>, stored
  into the map the receiver had; the map is made by the first of them.
\<close>

lemma PropertyBag_loop_additional:
  assumes "range_loop (\<lambda>k v. switch k (PropertyBag_cases ord v) (PropertyBag_default k v)) L s = Inr t"
    and "sorted_wrt (<) (map fst (entries (PropertyBag.AdditionalProperties s)))"
    and "distinct (map fst L)"
  shows "sorted_wrt (<) (map fst (entries (PropertyBag.AdditionalProperties t))) \<and>
         map_of (entries (PropertyBag.AdditionalProperties t)) =
           map_of (entries (PropertyBag.AdditionalProperties s)) ++
           map_of (decoded (filter (\<lambda>e. fst e \<noteq> ''tags'') L)) \<and>
         (PropertyBag.AdditionalProperties t = None \<longleftrightarrow>
           PropertyBag.AdditionalProperties s = None \<and> (\<forall>e\<in>set L. fst e = ''tags''))"
  using assms
proof (induction L arbitrary: s)
  case Nil
  then show ?case by simp
next
  case (Cons e L)
  obtain k v where e: "e = (k, v)" by (cases e)
  from Cons.prems(1) obtain s1 where
    s1: "switch k (PropertyBag_cases ord v) (PropertyBag_default k v) s = Inr s1"
    and rest: "range_loop (\<lambda>k v. switch k (PropertyBag_cases ord v) (PropertyBag_default k v)) L s1 = Inr t"
    by (auto simp: e split: sum.splits)
  from Cons.prems(3) have d: "distinct (map fst L)" and fresh: "k \<notin> fst ` set L" by (auto simp: e)
  note step = PropertyBag_step [OF s1]
  show ?case
  proof (cases "k = ''tags''")
    case True
    with step have same: "PropertyBag.AdditionalProperties s1 = PropertyBag.AdditionalProperties s"
      by simp
    from Cons.IH [OF rest _ d] Cons.prems(2) same True show ?thesis by (simp add: e)
  next
    case False
    let ?a = "projr (json_Unmarshal_interface v)"
    from False step have upd: "PropertyBag.AdditionalProperties s1 =
        Some (map_store k ?a (entries (PropertyBag.AdditionalProperties s)))" by simp
    then have sorted1: "sorted_wrt (<) (map fst (entries (PropertyBag.AdditionalProperties s1)))"
      using Cons.prems(2) by (simp add: sorted_map_store)
    let ?A = "entries (PropertyBag.AdditionalProperties s)"
    let ?F = "decoded (filter (\<lambda>e. fst e \<noteq> ''tags'') L)"
    have "set (map fst ?F) = set (map fst (filter (\<lambda>e. fst e \<noteq> ''tags'') L))"
      by (simp only: map_fst_decoded)
    then have "fst ` set ?F = fst ` set (filter (\<lambda>e. fst e \<noteq> ''tags'') L)"
      by (simp only: set_map)
    with fresh have nk: "map_of ?F k = None"
      by (auto simp: map_of_eq_None_iff)
    have eqm: "map_of (map_store k ?a ?A) ++ map_of ?F = map_of ?A ++ map_of ((k, ?a) # ?F)"
      (is "?l = ?r")
    proof (rule ext)
      fix a show "?l a = ?r a"
        using nk by (cases "a = k") (auto simp: map_of_map_store map_add_def split: option.splits)
    qed
    from Cons.IH [OF rest sorted1 d]
    have ih1: "sorted_wrt (<) (map fst (entries (PropertyBag.AdditionalProperties t)))"
      and ih2: "map_of (entries (PropertyBag.AdditionalProperties t)) =
                 map_of (entries (PropertyBag.AdditionalProperties s1)) ++ map_of ?F"
      and ih3: "PropertyBag.AdditionalProperties t = None \<longleftrightarrow>
                 PropertyBag.AdditionalProperties s1 = None \<and> (\<forall>e\<in>set L. fst e = ''tags'')"
      by simp_all
    have f: "decoded (filter (\<lambda>e. fst e \<noteq> ''tags'') (e # L)) = (k, ?a) # ?F"
      using False by (simp add: e)
    have "map_of (entries (PropertyBag.AdditionalProperties t)) =
          map_of ?A ++ map_of (decoded (filter (\<lambda>e. fst e \<noteq> ''tags'') (e # L)))"
      unfolding f ih2 upd using eqm by simp
    moreover have "PropertyBag.AdditionalProperties t \<noteq> None"
      using ih3 upd by simp
    moreover have "\<not> (\<forall>x\<in>set (e # L). fst x = ''tags'')"
      using False by (simp add: e)
    ultimately show ?thesis using ih1 by blast
  qed
qed

definition additional :: "(string \<times> json) list \<Rightarrow> any go_map" where
  "additional kvs =
     (let rest = decoded (filter (\<lambda>e. fst e \<noteq> ''tags'') (object_map kvs []))
      in if rest = [] then None else Some rest)"

text \<open>Every member but \<^verbatim>\<open>tags\<close> can be stored into an \<^verbatim>\<open>interface{}\<close>.\<close>

definition others_decode :: "(string \<times> json) list \<Rightarrow> bool" where
  "others_decode kvs \<longleftrightarrow>
     list_all (\<lambda>e. \<not> isl (json_Unmarshal_interface (snd e)))
       (filter (\<lambda>e. fst e \<noteq> ''tags'') (object_map kvs []))"

lemma PropertyBag_loop_others:
  assumes "range_loop (\<lambda>k v. switch k (PropertyBag_cases ord v) (PropertyBag_default k v)) L s = Inr t"
  shows "list_all (\<lambda>e. \<not> isl (json_Unmarshal_interface (snd e))) (filter (\<lambda>e. fst e \<noteq> ''tags'') L)"
  using assms
proof (induction L arbitrary: s)
  case Nil
  show ?case by simp
next
  case (Cons e L)
  obtain k v where e: "e = (k, v)" by (cases e)
  from Cons.prems obtain s1 where
    s1: "switch k (PropertyBag_cases ord v) (PropertyBag_default k v) s = Inr s1"
    and rest: "range_loop (\<lambda>k v. switch k (PropertyBag_cases ord v) (PropertyBag_default k v)) L s1 = Inr t"
    by (auto simp: e split: sum.splits)
  from PropertyBag_step [OF s1] Cons.IH [OF rest] show ?case
    by (simp add: e split: if_splits)
qed

lemma PropertyBag_loop_sound:
  assumes loop: "range_loop (\<lambda>k v. switch k (PropertyBag_cases ord v) (PropertyBag_default k v))
      (members ord kvs) PropertyBag_zero = Inr strct"
  shows "field_ok (json_Unmarshal_slice json_Unmarshal_string) (map_of (rev kvs) ''tags'') None
           (PropertyBag.Tags strct) \<and>
         others_decode kvs \<and>
         PropertyBag.AdditionalProperties strct = additional kvs"
proof -
  let ?rest = "decoded (filter (\<lambda>e. fst e \<noteq> ''tags'') (object_map kvs []))"
  have perm: "set (filter (\<lambda>e. fst e \<noteq> ''tags'') (object_map kvs [])) =
      set (filter (\<lambda>e. fst e \<noteq> ''tags'') (members ord kvs))"
    by (simp add: members_def)
  from PropertyBag_loop_others [OF loop] have others: "others_decode kvs"
    unfolding others_decode_def list_all_iff perm .
  from tracks_loop [OF PropertyBag_tracks_Tags members_distinct loop]
  have tags: "field_ok (json_Unmarshal_slice json_Unmarshal_string) (map_of (rev kvs) ''tags'') None
      (PropertyBag.Tags strct)"
    by (simp add: field_ok_def map_of_members PropertyBag_zero_def split: option.splits)
  from PropertyBag_loop_additional [OF loop _ members_distinct]
  have srt: "sorted_wrt (<) (map fst (entries (PropertyBag.AdditionalProperties strct)))"
    and mp: "map_of (entries (PropertyBag.AdditionalProperties strct)) =
               map_of (decoded (filter (\<lambda>e. fst e \<noteq> ''tags'') (members ord kvs)))"
    and none: "PropertyBag.AdditionalProperties strct = None \<longleftrightarrow>
               (\<forall>e\<in>set (members ord kvs). fst e = ''tags'')"
    by (simp_all add: PropertyBag_zero_def)
  have "sorted_wrt (<) (map fst (filter (\<lambda>e. fst e \<noteq> ''tags'') (object_map kvs [])))"
    using sorted_object_map [of "[]" kvs]
    by (induction "object_map kvs []" rule: list.induct) (auto simp: sorted_wrt_map sorted_wrt_filter)
  then have srt': "sorted_wrt (<) (map fst ?rest)" by simp
  have "map_of (decoded (filter (\<lambda>e. fst e \<noteq> ''tags'') (members ord kvs))) = map_of ?rest"
    unfolding map_of_decoded
    by (simp add: map_of_filter_key map_of_members map_of_object_map)
  with mp have "map_of (entries (PropertyBag.AdditionalProperties strct)) = map_of ?rest" by simp
  from sorted_keys_unique [OF srt srt' this]
  have ent: "entries (PropertyBag.AdditionalProperties strct) = ?rest" .
  have "set (members ord kvs) = set (object_map kvs [])" by (simp add: members_def)
  with none have "PropertyBag.AdditionalProperties strct = None \<longleftrightarrow> ?rest = []"
    by (auto simp: filter_empty_conv decoded_def)
  with ent have "PropertyBag.AdditionalProperties strct = additional kvs"
    by (cases "PropertyBag.AdditionalProperties strct") (auto simp: additional_def Let_def)
  with tags others show ?thesis by simp
qed

lemma PropertyBag_decode_iff:
  "PropertyBag_UnmarshalJSON ord (JObj kvs) = Inr strct \<longleftrightarrow>
   field_ok (json_Unmarshal_slice json_Unmarshal_string) (map_of (rev kvs) ''tags'') None
     (PropertyBag.Tags strct) \<and>
   others_decode kvs \<and>
   PropertyBag.AdditionalProperties strct = additional kvs"
  (is "?l \<longleftrightarrow> ?r")
proof
  assume ?l
  then have "range_loop (\<lambda>k v. switch k (PropertyBag_cases ord v) (PropertyBag_default k v))
      (members ord kvs) PropertyBag_zero = Inr strct"
    by (auto simp: PropertyBag_UnmarshalJSON_def members_def split: sum.splits)
  then show ?r by (rule PropertyBag_loop_sound)
next
  assume d: ?r
  have "\<exists>t. range_loop (\<lambda>k v. switch k (PropertyBag_cases ord v) (PropertyBag_default k v))
      (members ord kvs) PropertyBag_zero = Inr t"
  proof (rule loop_succeeds [OF PropertyBag_regular])
    fix k v assume m: "(k, v) \<in> set (members ord kvs)"
    then have l: "map_of (rev kvs) k = Some v" by (rule member_lookup)
    show "accepting (switch k (PropertyBag_cases ord v) (PropertyBag_default k v))"
    proof (cases "k = ''tags''")
      case True
      with d l show ?thesis by (auto simp: PropertyBag_accepting field_ok_def)
    next
      case False
      from m have "(k, v) \<in> set (object_map kvs [])" by (simp add: members_def)
      with False d have "\<not> isl (json_Unmarshal_interface v)"
        by (auto simp: others_decode_def list_all_iff)
      with False show ?thesis by (simp add: PropertyBag_accepting)
    qed
  qed
  then obtain strct' where loop: "range_loop
      (\<lambda>k v. switch k (PropertyBag_cases ord v) (PropertyBag_default k v))
      (members ord kvs) PropertyBag_zero = Inr strct'" ..
  from PropertyBag_loop_sound [OF loop] d have "strct' = strct"
    by (intro PropertyBag.equality) (auto elim: field_ok_unique)
  with loop show ?l
    by (simp add: PropertyBag_UnmarshalJSON_def members_def)
qed

subsection \<open>The members \<^verbatim>\<open>MarshalJSON\<close> writes\<close>

text \<open>
  \<^verbatim>\<open>MarshalJSON\<close> is a sequence of member writes, each with the result of one
  \<^verbatim>\<open>json.Marshal\<close>; the check of a required pointer belongs to the write it precedes.
\<close>

fun emit_all :: "(string \<times> (error + json)) list \<Rightarrow> error + (string \<times> json) list" where
  "emit_all [] = Inr []"
| "emit_all ((k, tmp) # rest) = emit k tmp (emit_all rest)"

lemma emit_nilcheck:
  "(if c then Inl e else emit k tmp rest) = emit k (if c then Inl e else tmp) rest"
  by (simp add: emit_def)

lemma emit_all_eq_Inr:
  "emit_all rs = Inr buf \<longleftrightarrow>
     list_all (\<lambda>e. \<not> isl (snd e)) rs \<and> buf = map (\<lambda>e. (fst e, projr (snd e))) rs"
proof (induction rs arbitrary: buf)
  case Nil
  show ?case by auto
next
  case (Cons x rs)
  obtain k tmp where x: "x = (k, tmp)" by (cases x)
  show ?case
    unfolding x by (cases tmp) (auto simp: emit_eq_Inr Cons)
qed

lemma isl_emit_all: "isl (emit_all rs) \<longleftrightarrow> \<not> list_all (\<lambda>e. \<not> isl (snd e)) rs"
proof (cases "emit_all rs")
  case (Inl e)
  then have "\<not> (\<exists>buf. emit_all rs = Inr buf)" by simp
  then have "\<not> list_all (\<lambda>e. \<not> isl (snd e)) rs" by (simp add: emit_all_eq_Inr)
  with Inl show ?thesis by simp
next
  case (Inr buf)
  then have "list_all (\<lambda>e. \<not> isl (snd e)) rs" by (simp add: emit_all_eq_Inr)
  with Inr show ?thesis by simp
qed

lemma object_emit_all_eq_Inr:
  "object (emit_all rs) = Inr j \<longleftrightarrow>
     list_all (\<lambda>e. \<not> isl (snd e)) rs \<and> j = JObj (map (\<lambda>e. (fst e, projr (snd e))) rs)"
  by (auto simp: object_eq_Inr emit_all_eq_Inr)

lemma isl_object_emit_all:
  "isl (object (emit_all rs)) \<longleftrightarrow> \<not> list_all (\<lambda>e. \<not> isl (snd e)) rs"
  by (simp add: isl_object isl_emit_all)

lemma keys_written:
  "object (emit_all rs) = Inr j \<Longrightarrow> \<exists>kvs. j = JObj kvs \<and> map fst kvs = map fst rs"
  by (auto simp: object_emit_all_eq_Inr comp_def)

subsection \<open>When \<^verbatim>\<open>json.Marshal\<close> fails\<close>

definition ptr_all :: "('a \<Rightarrow> bool) \<Rightarrow> 'a option \<Rightarrow> bool" where
  "ptr_all V p = (case p of None \<Rightarrow> True | Some x \<Rightarrow> V x)"

definition slice_all :: "('a \<Rightarrow> bool) \<Rightarrow> 'a list option \<Rightarrow> bool" where
  "slice_all V s = (case s of None \<Rightarrow> True | Some xs \<Rightarrow> list_all V xs)"

definition map_all :: "('a \<Rightarrow> bool) \<Rightarrow> 'a go_map \<Rightarrow> bool" where
  "map_all V m = (case m of None \<Rightarrow> True | Some kvs \<Rightarrow> list_all (\<lambda>e. V (snd e)) kvs)"

definition finite64 :: "float64 \<Rightarrow> bool" where
  "finite64 x = (case x of Finite n \<Rightarrow> True | _ \<Rightarrow> False)"

definition always :: "'a \<Rightarrow> bool" where
  "always x = True"

definition fails_unless :: "('a \<Rightarrow> error + 'b) \<Rightarrow> ('a \<Rightarrow> bool) \<Rightarrow> bool" where
  "fails_unless M V \<longleftrightarrow> (\<forall>x. isl (M x) \<longleftrightarrow> \<not> V x)"

lemma fails_unlessD: "fails_unless M V \<Longrightarrow> isl (M x) \<longleftrightarrow> \<not> V x"
  by (simp add: fails_unless_def)

lemma isl_traverse: "isl (traverse f xs) \<longleftrightarrow> \<not> list_all (\<lambda>x. \<not> isl (f x)) xs"
  by (induction xs) (auto split: sum.splits)

lemma fails_unless_string: "fails_unless json_Marshal_string always"
  and fails_unless_int: "fails_unless json_Marshal_int always"
  and fails_unless_bool: "fails_unless json_Marshal_bool always"
  by (simp_all add: fails_unless_def always_def json_Marshal_string_def json_Marshal_int_def
      json_Marshal_bool_def)

lemma fails_unless_float64: "fails_unless json_Marshal_float64 finite64"
  by (auto simp: fails_unless_def json_Marshal_float64_def finite64_def split: float64.splits)

lemma fails_unless_ptr:
  assumes "fails_unless M V"
  shows "fails_unless (json_Marshal_ptr t M) (ptr_all V)"
proof -
  have "isl (json_Marshal_ptr t M p) \<longleftrightarrow> \<not> ptr_all V p" for p
  proof (cases p)
    case None
    then show ?thesis by (simp add: json_Marshal_ptr_def ptr_all_def)
  next
    case (Some x)
    from assms have "isl (M x) \<longleftrightarrow> \<not> V x" by (rule fails_unlessD)
    with Some show ?thesis
      by (cases "M x") (simp_all add: json_Marshal_ptr_def ptr_all_def)
  qed
  then show ?thesis by (simp add: fails_unless_def)
qed

lemma fails_unless_elems:
  assumes "fails_unless M V"
  shows "list_all (\<lambda>x. \<not> isl (M x)) xs = list_all V xs"
  using fails_unlessD [OF assms] by (induction xs) simp_all

lemma fails_unless_slice:
  assumes "fails_unless M V"
  shows "fails_unless (json_Marshal_slice M) (slice_all V)"
proof -
  have "isl (json_Marshal_slice M s) \<longleftrightarrow> \<not> slice_all V s" for s
  proof (cases s)
    case None
    then show ?thesis by (simp add: json_Marshal_slice_def slice_all_def)
  next
    case (Some xs)
    have "isl (traverse M xs) \<longleftrightarrow> \<not> list_all V xs"
      by (simp add: isl_traverse fails_unless_elems [OF assms])
    with Some show ?thesis
      by (cases "traverse M xs") (simp_all add: json_Marshal_slice_def slice_all_def)
  qed
  then show ?thesis by (simp add: fails_unless_def)
qed

lemma fails_unless_map:
  assumes "fails_unless M V"
  shows "fails_unless (json_Marshal_map M) (map_all V)"
proof -
  let ?f = "\<lambda>(k, x). case M x of Inl err \<Rightarrow> Inl err | Inr y \<Rightarrow> Inr (k, y)"
  have f: "\<not> isl (?f e) \<longleftrightarrow> V (snd e)" for e
    using fails_unlessD [OF assms, of "snd e"] by (cases e; cases "M (snd e)") simp_all
  have "isl (json_Marshal_map M m) \<longleftrightarrow> \<not> map_all V m" for m
  proof (cases m)
    case None
    then show ?thesis by (simp add: json_Marshal_map_def map_all_def)
  next
    case (Some kvs)
    have "isl (traverse ?f (sort_key fst kvs)) \<longleftrightarrow> \<not> list_all (\<lambda>e. V (snd e)) (sort_key fst kvs)"
      by (simp add: isl_traverse f)
    also have "list_all (\<lambda>e. V (snd e)) (sort_key fst kvs) = list_all (\<lambda>e. V (snd e)) kvs"
      by (simp add: list_all_iff)
    finally show ?thesis
      using Some by (cases "traverse ?f (sort_key fst kvs)") (simp_all add: json_Marshal_map_def map_all_def)
  qed
  then show ?thesis by (simp add: fails_unless_def)
qed

lemma always_simps [simp]:
  "always x" "slice_all always s" "map_all always m" "ptr_all always p"
  "slice_all (ptr_all always) sp" "map_all (ptr_all always) mp"
  by (auto simp: always_def slice_all_def map_all_def ptr_all_def list_all_iff split: option.splits)

subsection \<open>Decoding what was encoded\<close>

definition rt :: "('a \<Rightarrow> error + json) \<Rightarrow> (json \<Rightarrow> error + 'a) \<Rightarrow> 'a \<Rightarrow> bool" where
  "rt M U x \<longleftrightarrow> (\<exists>j. M x = Inr j \<and> U j = Inr x)"

definition rt_object :: "('a \<Rightarrow> error + json) \<Rightarrow> (json \<Rightarrow> error + 'a) \<Rightarrow> 'a \<Rightarrow> bool" where
  "rt_object M U x \<longleftrightarrow> (\<exists>kvs. M x = Inr (JObj kvs) \<and> U (JObj kvs) = Inr x)"

definition round_trips :: "('a \<Rightarrow> error + json) \<Rightarrow> (json \<Rightarrow> error + 'a) \<Rightarrow> ('a \<Rightarrow> bool) \<Rightarrow> bool" where
  "round_trips M U V \<longleftrightarrow> (\<forall>x. V x \<longrightarrow> rt M U x)"

definition round_trips_object :: "('a \<Rightarrow> error + json) \<Rightarrow> (json \<Rightarrow> error + 'a) \<Rightarrow> ('a \<Rightarrow> bool) \<Rightarrow> bool" where
  "round_trips_object M U V \<longleftrightarrow> (\<forall>x. V x \<longrightarrow> rt_object M U x)"

text \<open>For a method that returns bytes which may not be JSON.\<close>

definition round_trips_bytes :: "('a \<Rightarrow> error + json option) \<Rightarrow> (json \<Rightarrow> error + 'a) \<Rightarrow> ('a \<Rightarrow> bool) \<Rightarrow> bool" where
  "round_trips_bytes M U V \<longleftrightarrow>
     (\<forall>x. V x \<longrightarrow> (\<exists>kvs. M x = Inr (Some (JObj kvs)) \<and> U (JObj kvs) = Inr x))"

definition map_valid :: "('a \<Rightarrow> bool) \<Rightarrow> 'a go_map \<Rightarrow> bool" where
  "map_valid V m =
     (case m of None \<Rightarrow> True
      | Some kvs \<Rightarrow> sorted_wrt (<) (map fst kvs) \<and> list_all (\<lambda>e. V (snd e)) kvs)"

lemma rtD: "rt M U x \<Longrightarrow> \<not> isl (M x) \<and> U (projr (M x)) = Inr x"
  by (auto simp: rt_def)

lemma round_tripsD: "round_trips M U V \<Longrightarrow> V x \<Longrightarrow> \<not> isl (M x) \<and> U (projr (M x)) = Inr x"
  by (auto simp: round_trips_def rt_def)

lemma round_trips_string: "round_trips json_Marshal_string json_Unmarshal_string always"
  and round_trips_bool: "round_trips json_Marshal_bool json_Unmarshal_bool always"
  by (simp_all add: round_trips_def rt_def json_Marshal_string_def json_Unmarshal_string_def
      json_Marshal_bool_def json_Unmarshal_bool_def)

lemma round_trips_int: "round_trips json_Marshal_int json_Unmarshal_int always"
proof -
  have "- (2 ^ 63) \<le> sint n \<and> sint n < 2 ^ 63" for n :: "64 word"
    using sint_ge [of n] sint_lt [of n] by simp
  then show ?thesis
    by (simp add: round_trips_def rt_def json_Marshal_int_def json_Unmarshal_int_def)
qed

text \<open>A \<^verbatim>\<open>float64\<close> that is a number: finite, and given by a literal in range.\<close>

definition float64_valid :: "float64 \<Rightarrow> bool" where
  "float64_valid x = (case x of Finite n \<Rightarrow> \<not> overflows n | _ \<Rightarrow> False)"

lemma round_trips_float64: "round_trips json_Marshal_float64 json_Unmarshal_float64 float64_valid"
  by (auto simp: round_trips_def rt_def json_Marshal_float64_def json_Unmarshal_float64_def
      float64_valid_def split: float64.splits)

lemma round_trips_ptr:
  assumes "round_trips_object M U V"
  shows "round_trips (json_Marshal_ptr t M) (json_Unmarshal_ptr U) (ptr_all V)"
proof -
  have "rt (json_Marshal_ptr t M) (json_Unmarshal_ptr U) p" if "ptr_all V p" for p
  proof (cases p)
    case None
    then show ?thesis by (simp add: rt_def json_Marshal_ptr_def json_Unmarshal_ptr_def)
  next
    case (Some x)
    with that have "V x" by (simp add: ptr_all_def)
    with assms obtain kvs where "M x = Inr (JObj kvs)" "U (JObj kvs) = Inr x"
      by (auto simp: round_trips_object_def rt_object_def)
    with Some show ?thesis by (simp add: rt_def json_Marshal_ptr_def json_Unmarshal_ptr_def)
  qed
  then show ?thesis by (simp add: round_trips_def)
qed

lemma round_trips_bytes_ptr:
  assumes "round_trips_bytes M U V"
  shows "round_trips (json_Marshal_bytes t M) (json_Unmarshal_ptr U) (ptr_all V)"
proof -
  have "rt (json_Marshal_bytes t M) (json_Unmarshal_ptr U) p" if "ptr_all V p" for p
  proof (cases p)
    case None
    then show ?thesis by (simp add: rt_def json_Marshal_bytes_def json_Unmarshal_ptr_def)
  next
    case (Some x)
    with that have "V x" by (simp add: ptr_all_def)
    with assms obtain kvs where "M x = Inr (Some (JObj kvs))" "U (JObj kvs) = Inr x"
      by (auto simp: round_trips_bytes_def)
    with Some show ?thesis by (simp add: rt_def json_Marshal_bytes_def json_Unmarshal_ptr_def)
  qed
  then show ?thesis by (simp add: round_trips_def)
qed

lemma traverse_round_trip:
  assumes "\<And>x. x \<in> set xs \<Longrightarrow> rt M U x"
  shows "\<exists>js. traverse M xs = Inr js \<and> traverse U js = Inr xs"
  using assms
proof (induction xs)
  case Nil
  show ?case by simp
next
  case (Cons x xs)
  from Cons.prems [of x] obtain j where j: "M x = Inr j" "U j = Inr x" by (auto simp: rt_def)
  from Cons.IH Cons.prems obtain js where "traverse M xs = Inr js" "traverse U js = Inr xs" by auto
  with j show ?case by simp
qed

lemma round_trips_slice:
  assumes "round_trips M U V"
  shows "round_trips (json_Marshal_slice M) (json_Unmarshal_slice U) (slice_all V)"
proof -
  have "rt (json_Marshal_slice M) (json_Unmarshal_slice U) s" if "slice_all V s" for s
  proof (cases s)
    case None
    then show ?thesis by (simp add: rt_def json_Marshal_slice_def json_Unmarshal_slice_def)
  next
    case (Some xs)
    with that assms have "\<And>x. x \<in> set xs \<Longrightarrow> rt M U x"
      by (simp add: slice_all_def round_trips_def list_all_iff)
    from traverse_round_trip [OF this] obtain js where
      "traverse M xs = Inr js" "traverse U js = Inr xs" by blast
    with Some show ?thesis by (simp add: rt_def json_Marshal_slice_def json_Unmarshal_slice_def)
  qed
  then show ?thesis by (simp add: round_trips_def)
qed

lemma map_of_rev_distinct: "distinct (map fst xs) \<Longrightarrow> map_of (rev xs) = map_of xs"
  by (rule map_of_inject_set [THEN iffD2]) (simp_all add: rev_map [symmetric])

lemma object_map_sorted:
  "sorted_wrt (<) (map fst kvs) \<Longrightarrow> object_map kvs [] = (kvs :: (string \<times> 'a) list)"
proof (rule sorted_keys_unique)
  assume s: "sorted_wrt (<) (map fst kvs)"
  show "sorted_wrt (<) (map fst (object_map kvs []))" by (simp add: sorted_object_map)
  show "sorted_wrt (<) (map fst kvs)" by (rule s)
  show "map_of (object_map kvs []) = map_of kvs"
    by (simp add: map_of_object_map map_of_rev_distinct sorted_keys_distinct [OF s])
qed

lemma entries_round_trip:
  assumes srt: "sorted_wrt (<) (map fst kvs)"
    and el: "\<And>k x. (k, x) \<in> set kvs \<Longrightarrow> rt M U x"
  shows "\<exists>js. traverse (\<lambda>(k, x). case M x of Inl err \<Rightarrow> Inl err | Inr y \<Rightarrow> Inr (k, y)) (sort_key fst kvs) = Inr js \<and>
           traverse (\<lambda>(k, x). case U x of Inl err \<Rightarrow> Inl err | Inr y \<Rightarrow> Inr (k, y)) js = Inr kvs"
proof -
  let ?m = "\<lambda>(k, x). case M x of Inl err \<Rightarrow> Inl err | Inr y \<Rightarrow> Inr (k, y)"
  let ?u = "\<lambda>(k, x). case U x of Inl err \<Rightarrow> Inl err | Inr y \<Rightarrow> Inr (k, y)"
  from srt have "sorted (map fst kvs)" using strict_sorted_iff [of "map fst kvs"] by simp
  then have same: "sort_key fst kvs = kvs" by (rule sort_key_id_if_sorted)
  have "\<exists>js. traverse ?m kvs = Inr js \<and> traverse ?u js = Inr kvs"
    using el
  proof (induction kvs)
    case Nil
    show ?case by simp
  next
    case (Cons e kvs)
    obtain k x where e: "e = (k, x)" by (cases e)
    from Cons.prems [of k x] have "rt M U x" by (simp add: e)
    then obtain j where j: "M x = Inr j" "U j = Inr x" by (auto simp: rt_def)
    from Cons obtain js where "traverse ?m kvs = Inr js" "traverse ?u js = Inr kvs" by auto
    with j show ?case by (simp add: e)
  qed
  with same show ?thesis by simp
qed

lemma round_trips_map:
  assumes "round_trips M U V"
  shows "round_trips (json_Marshal_map M) (json_Unmarshal_map U) (map_valid V)"
proof -
  have "rt (json_Marshal_map M) (json_Unmarshal_map U) m" if v: "map_valid V m" for m
  proof (cases m)
    case None
    then show ?thesis by (simp add: rt_def json_Marshal_map_def json_Unmarshal_map_def)
  next
    case (Some kvs)
    with v have srt: "sorted_wrt (<) (map fst kvs)" and all: "list_all (\<lambda>e. V (snd e)) kvs"
      by (simp_all add: map_valid_def)
    have "\<exists>js. traverse (\<lambda>(k, x). case M x of Inl err \<Rightarrow> Inl err | Inr y \<Rightarrow> Inr (k, y)) (sort_key fst kvs) = Inr js \<and>
        traverse (\<lambda>(k, x). case U x of Inl err \<Rightarrow> Inl err | Inr y \<Rightarrow> Inr (k, y)) js = Inr kvs"
      by (rule entries_round_trip [OF srt]) (use all assms in \<open>auto simp: round_trips_def list_all_iff\<close>)
    then obtain js where
      "traverse (\<lambda>(k, x). case M x of Inl err \<Rightarrow> Inl err | Inr y \<Rightarrow> Inr (k, y)) (sort_key fst kvs) = Inr js"
      "traverse (\<lambda>(k, x). case U x of Inl err \<Rightarrow> Inl err | Inr y \<Rightarrow> Inr (k, y)) js = Inr kvs"
      by blast
    with Some object_map_sorted [OF srt] show ?thesis
      by (simp add: rt_def json_Marshal_map_def json_Unmarshal_map_def)
  qed
  then show ?thesis by (simp add: round_trips_def)
qed

lemma map_valid_always [simp]:
  "map_valid always m \<longleftrightarrow> (case m of None \<Rightarrow> True | Some kvs \<Rightarrow> sorted_wrt (<) (map fst kvs))"
  by (simp add: map_valid_def always_def list_all_iff split: option.splits)

text \<open>
  An object written with every key of the entity, each member read back as the field it
  was written from.
\<close>

lemma written_lookup:
  "distinct (map fst rs) \<Longrightarrow> (k, r) \<in> set rs \<Longrightarrow>
   map_of (rev (map (\<lambda>e. (fst e, projr (snd e))) rs)) k = Some (projr r)"
proof -
  assume d: "distinct (map fst rs)" and m: "(k, r) \<in> set rs"
  let ?kvs = "map (\<lambda>e. (fst e, projr (snd e))) rs"
  have "map fst ?kvs = map fst rs" by (simp add: comp_def)
  with d have d': "distinct (map fst ?kvs)" by (simp only:)
  from m have "(k, projr r) \<in> set ?kvs" by force
  with d' have "map_of ?kvs k = Some (projr r)" by simp
  with d' show ?thesis by (simp add: map_of_rev_distinct)
qed

lemma written_lookup_nth:
  "distinct (map fst rs) \<Longrightarrow> i < length rs \<Longrightarrow> rs ! i = (k, r) \<Longrightarrow>
   map_of (rev (map (\<lambda>e. (fst e, projr (snd e))) rs)) k = Some (projr r)"
  using written_lookup [of rs k r] nth_mem [of i rs] by simp

lemma written_dom:
  "dom (map_of (rev (map (\<lambda>e. (fst e, projr (snd e))) rs))) = set (map fst rs)"
  by (force simp: dom_map_of_conv_image_fst)

subsection \<open>Values of type \<^verbatim>\<open>interface{}\<close>\<close>

text \<open>
  \<^verbatim>\<open>json.Marshal\<close> of an \<^verbatim>\<open>interface{}\<close> fails on a \<^verbatim>\<open>float64\<close> that is not finite and
  on a value of another type that it has no JSON for, wherever in the value they are.
\<close>

lemma size_snd_entry:
  "e \<in> set kvs \<Longrightarrow> size (snd e) < Suc (size_list (size_prod (\<lambda>k. 0) size) kvs)"
  by (cases e) (auto dest: size_entry)

function any_encodable :: "any \<Rightarrow> bool" where
  "any_encodable AnyNil \<longleftrightarrow> True"
| "any_encodable (AnyBool b) \<longleftrightarrow> True"
| "any_encodable (AnyFloat64 x) \<longleftrightarrow> finite64 x"
| "any_encodable (AnyInt n) \<longleftrightarrow> True"
| "any_encodable (AnyString s) \<longleftrightarrow> True"
| "any_encodable (AnySlice xs) \<longleftrightarrow> list_all any_encodable xs"
| "any_encodable (AnyMap kvs) \<longleftrightarrow> list_all (\<lambda>e. any_encodable (snd e)) kvs"
| "any_encodable (AnyOther r) \<longleftrightarrow> \<not> isl r"
  by pat_completeness auto
termination any_encodable
  by (relation "measure size") (auto dest: size_snd_entry simp: less_Suc_eq_le size_list_estimation')

lemma fails_unless_interface: "fails_unless json_Marshal_interface any_encodable"
  unfolding fails_unless_def
proof
  fix v
  show "isl (json_Marshal_interface v) \<longleftrightarrow> \<not> any_encodable v"
  proof (induction v rule: any_encodable.induct)
    case (3 x)
    show ?case using fails_unlessD [OF fails_unless_float64, of x] by simp
  next
    case (6 xs)
    then have "list_all (\<lambda>x. \<not> isl (json_Marshal_interface x)) xs = list_all any_encodable xs"
      by (simp add: list_all_iff)
    then have "isl (traverse json_Marshal_interface xs) \<longleftrightarrow> \<not> list_all any_encodable xs"
      by (simp add: isl_traverse)
    then show ?case by (cases "traverse json_Marshal_interface xs") simp_all
  next
    case (7 kvs)
    let ?f = "\<lambda>(k, x). case json_Marshal_interface x of Inl err \<Rightarrow> Inl err | Inr y \<Rightarrow> Inr (k, y)"
    have f: "\<not> isl (?f e) \<longleftrightarrow> any_encodable (snd e)" if "e \<in> set kvs" for e
      using 7 [OF that] by (cases e; cases "json_Marshal_interface (snd e)") simp_all
    have "list_all (\<lambda>e. \<not> isl (?f e)) (sort_key fst kvs) = list_all (\<lambda>e. any_encodable (snd e)) kvs"
      using f by (simp add: list_all_iff)
    then have "isl (traverse ?f (sort_key fst kvs)) \<longleftrightarrow> \<not> list_all (\<lambda>e. any_encodable (snd e)) kvs"
      by (simp add: isl_traverse)
    then show ?case by (cases "traverse ?f (sort_key fst kvs)") simp_all
  qed (simp_all add: json_Marshal_bool_def json_Marshal_int_def json_Marshal_string_def)
qed

text \<open>
  The values that \<^verbatim>\<open>json.Unmarshal\<close> stores into an \<^verbatim>\<open>interface{}\<close>: no \<^verbatim>\<open>int\<close> and no
  value of another type (a number comes back as a \<^verbatim>\<open>float64\<close>), and every \<^verbatim>\<open>float64\<close> a
  number.
\<close>

function any_valid :: "any \<Rightarrow> bool" where
  "any_valid AnyNil \<longleftrightarrow> True"
| "any_valid (AnyBool b) \<longleftrightarrow> True"
| "any_valid (AnyFloat64 x) \<longleftrightarrow> float64_valid x"
| "any_valid (AnyInt n) \<longleftrightarrow> False"
| "any_valid (AnyString s) \<longleftrightarrow> True"
| "any_valid (AnySlice xs) \<longleftrightarrow> list_all any_valid xs"
| "any_valid (AnyMap kvs) \<longleftrightarrow> sorted_wrt (<) (map fst kvs) \<and> list_all (\<lambda>e. any_valid (snd e)) kvs"
| "any_valid (AnyOther r) \<longleftrightarrow> False"
  by pat_completeness auto
termination any_valid
  by (relation "measure size") (auto dest: size_snd_entry simp: less_Suc_eq_le size_list_estimation')

lemma round_trips_interface: "round_trips json_Marshal_interface json_Unmarshal_interface any_valid"
  unfolding round_trips_def
proof (intro allI impI)
  fix v assume "any_valid v"
  then show "rt json_Marshal_interface json_Unmarshal_interface v"
  proof (induction v rule: any_valid.induct)
    case (3 x)
    from round_tripsD [OF round_trips_float64 this [simplified]] show ?case
      by (cases x) (auto simp: rt_def json_Marshal_float64_def json_Unmarshal_float64_def float64_valid_def)
  next
    case (6 xs)
    then have "rt json_Marshal_interface json_Unmarshal_interface x" if "x \<in> set xs" for x
      using that by (simp add: list_all_iff)
    from traverse_round_trip [OF this] obtain js where
      "traverse json_Marshal_interface xs = Inr js" "traverse json_Unmarshal_interface js = Inr xs"
      by blast
    then show ?case by (simp add: rt_def)
  next
    case (7 kvs)
    then have srt: "sorted_wrt (<) (map fst kvs)" by simp
    have "\<exists>js. traverse (\<lambda>(k, x). case json_Marshal_interface x of Inl err \<Rightarrow> Inl err | Inr y \<Rightarrow> Inr (k, y))
         (sort_key fst kvs) = Inr js \<and>
      traverse (\<lambda>(k, x). case json_Unmarshal_interface x of Inl err \<Rightarrow> Inl err | Inr y \<Rightarrow> Inr (k, y))
         js = Inr kvs"
      by (rule entries_round_trip [OF srt]) (use 7 in \<open>force simp: list_all_iff\<close>)
    then obtain js where
      "traverse (\<lambda>(k, x). case json_Marshal_interface x of Inl err \<Rightarrow> Inl err | Inr y \<Rightarrow> Inr (k, y))
         (sort_key fst kvs) = Inr js"
      "traverse (\<lambda>(k, x). case json_Unmarshal_interface x of Inl err \<Rightarrow> Inl err | Inr y \<Rightarrow> Inr (k, y))
         js = Inr kvs"
      by blast
    with object_map_sorted [OF srt] show ?case by (simp add: rt_def)
  qed (simp_all add: rt_def json_Marshal_bool_def json_Marshal_string_def)
qed

subsection \<open>PropertyBag: what is written\<close>

text \<open>
  The members \<^verbatim>\<open>PropertyBag.MarshalJSON\<close> writes when every value can be written:
  \<^verbatim>\<open>tags\<close>, then the additional properties in the order of the enumeration.
\<close>

definition PropertyBag_written :: "order \<Rightarrow> PropertyBag \<Rightarrow> (string \<times> json) list" where
  "PropertyBag_written ord strct =
     (''tags'', (case PropertyBag.Tags strct of None \<Rightarrow> JNull | Some xs \<Rightarrow> JArr (map JStr xs))) #
     map (\<lambda>e. (fst e, projr (json_Marshal_interface (snd e))))
       (range_map ord (entries (PropertyBag.AdditionalProperties strct)))"

definition PropertyBag_writable :: "PropertyBag \<Rightarrow> bool" where
  "PropertyBag_writable strct \<longleftrightarrow>
     list_all (\<lambda>e. any_encodable (snd e)) (entries (PropertyBag.AdditionalProperties strct))"

definition PropertyBag_plain :: "PropertyBag \<Rightarrow> bool" where
  "PropertyBag_plain strct \<longleftrightarrow>
     list_all (\<lambda>e. plain_key (fst e)) (entries (PropertyBag.AdditionalProperties strct))"

lemma PropertyBag_additional_emit_all:
  "PropertyBag_additional kvs = emit_all (map (\<lambda>e. (fst e, json_Marshal_interface (snd e))) kvs)"
  by (induction kvs) auto

lemma Tags_written:
  "json_Marshal_slice json_Marshal_string tags =
     Inr (case tags of None \<Rightarrow> JNull | Some xs \<Rightarrow> JArr (map JStr xs))"
proof -
  have "traverse json_Marshal_string xs = Inr (map JStr xs)" for xs
    by (induction xs) (simp_all add: json_Marshal_string_def)
  then show ?thesis by (simp add: json_Marshal_slice_def split: option.splits)
qed

lemma PropertyBag_buffer:
  "emit ''tags'' (json_Marshal_slice json_Marshal_string (PropertyBag.Tags strct))
     (PropertyBag_additional (range_map ord (entries (PropertyBag.AdditionalProperties strct)))) = Inr buf \<longleftrightarrow>
   PropertyBag_writable strct \<and> buf = PropertyBag_written ord strct"
proof -
  let ?m = "range_map ord (entries (PropertyBag.AdditionalProperties strct))"
  have "list_all (\<lambda>e. \<not> isl (snd e)) (map (\<lambda>e. (fst e, json_Marshal_interface (snd e))) ?m) \<longleftrightarrow>
      PropertyBag_writable strct"
    by (simp add: PropertyBag_writable_def list_all_iff fails_unlessD [OF fails_unless_interface])
  then show ?thesis
    by (auto simp: emit_eq_Inr Tags_written PropertyBag_additional_emit_all emit_all_eq_Inr
        PropertyBag_written_def comp_def)
qed

lemma PropertyBag_MarshalJSON_writable:
  "PropertyBag_writable strct \<Longrightarrow>
   PropertyBag_MarshalJSON scn ord strct = Inr (bytes_as_json scn (PropertyBag_written ord strct))"
  using PropertyBag_buffer [of strct ord "PropertyBag_written ord strct"]
  by (simp add: PropertyBag_MarshalJSON_def)

lemma PropertyBag_fails_unless:
  "fails_unless (PropertyBag_MarshalJSON scn ord) PropertyBag_writable"
  unfolding fails_unless_def
proof
  fix strct :: PropertyBag
  let ?b = "emit ''tags'' (json_Marshal_slice json_Marshal_string (PropertyBag.Tags strct))
     (PropertyBag_additional (range_map ord (entries (PropertyBag.AdditionalProperties strct))))"
  show "isl (PropertyBag_MarshalJSON scn ord strct) \<longleftrightarrow> \<not> PropertyBag_writable strct"
  proof (cases ?b)
    case (Inl err)
    then have "\<not> PropertyBag_writable strct"
      using PropertyBag_buffer [of strct ord "PropertyBag_written ord strct"] by auto
    with Inl show ?thesis by (simp add: PropertyBag_MarshalJSON_def)
  next
    case (Inr buf)
    then have "PropertyBag_writable strct" by (simp add: PropertyBag_buffer)
    with Inr show ?thesis by (simp add: PropertyBag_MarshalJSON_def)
  qed
qed

lemma plain_written:
  "PropertyBag_plain strct \<Longrightarrow>
   bytes_as_json scn (PropertyBag_written ord strct) = Some (JObj (PropertyBag_written ord strct))"
  by (simp add: bytes_as_json_def PropertyBag_written_def PropertyBag_plain_def plain_key_def
      list_all_iff)

lemma PropertyBag_MarshalJSON_plain:
  "PropertyBag_writable strct \<Longrightarrow> PropertyBag_plain strct \<Longrightarrow>
   PropertyBag_MarshalJSON scn ord strct = Inr (Some (JObj (PropertyBag_written ord strct)))"
  by (simp add: PropertyBag_MarshalJSON_writable plain_written)

text \<open>
  As a field of another entity a bag is written through \<^verbatim>\<open>json.Marshal\<close>, which also
  fails when the bytes of the bag are not JSON. That can only be with a key that is not
  plain.
\<close>

definition PropertyBag_encodable :: "scanner \<Rightarrow> order \<Rightarrow> PropertyBag \<Rightarrow> bool" where
  "PropertyBag_encodable scn ord strct \<longleftrightarrow>
     PropertyBag_writable strct \<and> bytes_as_json scn (PropertyBag_written ord strct) \<noteq> None"

lemma PropertyBag_encodable_plain:
  "PropertyBag_plain strct \<Longrightarrow> PropertyBag_encodable scn ord strct \<longleftrightarrow> PropertyBag_writable strct"
  by (simp add: PropertyBag_encodable_def plain_written)

lemma PropertyBag_field_fails_unless:
  "fails_unless (json_Marshal_bytes t (PropertyBag_MarshalJSON scn ord))
     (ptr_all (PropertyBag_encodable scn ord))"
  unfolding fails_unless_def
proof
  fix p :: "PropertyBag option"
  show "isl (json_Marshal_bytes t (PropertyBag_MarshalJSON scn ord) p) \<longleftrightarrow>
      \<not> ptr_all (PropertyBag_encodable scn ord) p"
  proof (cases p)
    case None
    then show ?thesis by (simp add: json_Marshal_bytes_def ptr_all_def)
  next
    case (Some strct)
    show ?thesis
    proof (cases "PropertyBag_writable strct")
      case True
      then show ?thesis
        by (cases "bytes_as_json scn (PropertyBag_written ord strct)")
           (simp_all add: Some json_Marshal_bytes_def ptr_all_def PropertyBag_encodable_def
              PropertyBag_MarshalJSON_writable)
    next
      case False
      with fails_unlessD [OF PropertyBag_fails_unless, of scn ord strct]
      have "isl (PropertyBag_MarshalJSON scn ord strct)" by simp
      with False show ?thesis
        by (cases "PropertyBag_MarshalJSON scn ord strct")
           (simp_all add: Some json_Marshal_bytes_def ptr_all_def PropertyBag_encodable_def)
    qed
  qed
qed

subsection \<open>PropertyBag: decoding what was encoded\<close>

text \<open>
  A bag as \<^verbatim>\<open>UnmarshalJSON\<close> makes it from what \<^verbatim>\<open>MarshalJSON\<close> wrote: the map of
  additional properties is \<^verbatim>\<open>nil\<close> or has an entry (an empty map is written like a \<^verbatim>\<open>nil\<close>
  one), is kept by key, has no entry under the name of the typed field \<^verbatim>\<open>tags\<close>, its
  keys are plain, so that \<^verbatim>\<open>%s\<close> writes them as JSON strings, and its values are values
  that \<^verbatim>\<open>json.Unmarshal\<close> stores into an \<^verbatim>\<open>interface{}\<close>.
\<close>

definition PropertyBag_valid :: "PropertyBag \<Rightarrow> bool" where
  "PropertyBag_valid strct \<longleftrightarrow>
     (case PropertyBag.AdditionalProperties strct of
        None \<Rightarrow> True
      | Some m \<Rightarrow> m \<noteq> [] \<and> sorted_wrt (<) (map fst m) \<and> list_all plain_key (map fst m) \<and>
          ''tags'' \<notin> set (map fst m) \<and> list_all (\<lambda>e. any_valid (snd e)) m)"

lemma Tags_round_trip:
  "json_Unmarshal_slice json_Unmarshal_string
     (case tags of None \<Rightarrow> JNull | Some xs \<Rightarrow> JArr (map JStr xs)) = Inr tags"
proof -
  have "traverse json_Unmarshal_string (map JStr xs) = Inr xs" for xs
    by (induction xs) (simp_all add: json_Unmarshal_string_def)
  then show ?thesis by (simp add: json_Unmarshal_slice_def split: option.splits)
qed

lemma map_of_values:
  "map_of (map (\<lambda>e. (fst e, g (snd e))) kvs) = map_option g \<circ> map_of kvs"
  by (induction kvs) (auto simp: fun_eq_iff)

lemma any_valid_encodable: "any_valid v \<Longrightarrow> any_encodable v"
  using round_tripsD [OF round_trips_interface, of v] fails_unlessD [OF fails_unless_interface, of v]
  by simp

lemma PropertyBag_round_trips:
  "round_trips_bytes (PropertyBag_MarshalJSON scn ord) (PropertyBag_UnmarshalJSON ord') PropertyBag_valid"
  unfolding round_trips_bytes_def
proof (intro allI impI)
  fix strct assume v: "PropertyBag_valid strct"
  let ?m = "entries (PropertyBag.AdditionalProperties strct)"
  let ?t = "case PropertyBag.Tags strct of None \<Rightarrow> JNull | Some xs \<Rightarrow> JArr (map JStr xs)"
  let ?g = "\<lambda>x. projr (json_Marshal_interface x)"
  let ?w = "map (\<lambda>e. (fst e, ?g (snd e)))"
  let ?kvs = "(''tags'', ?t) # ?w (range_map ord ?m)"
  from v have srt: "sorted_wrt (<) (map fst ?m)" and nt: "''tags'' \<notin> fst ` set ?m"
    and ne: "PropertyBag.AdditionalProperties strct = (if ?m = [] then None else Some ?m)"
    and pl: "PropertyBag_plain strct"
    and vals: "\<And>e. e \<in> set ?m \<Longrightarrow> any_valid (snd e)"
    by (auto simp: PropertyBag_valid_def PropertyBag_plain_def list_all_iff split: option.splits)
  from vals have wr: "PropertyBag_writable strct"
    by (auto simp: PropertyBag_writable_def list_all_iff intro: any_valid_encodable)
  have w: "PropertyBag_written ord strct = ?kvs" by (simp add: PropertyBag_written_def)
  from srt have dm: "distinct (map fst ?m)" by (rule sorted_keys_distinct)
  have kw: "map fst (?w xs) = map fst xs" for xs :: "(string \<times> any) list"
    by (simp add: comp_def)
  have kw': "fst \<circ> (\<lambda>e. (fst e, ?g (snd e))) = fst"
    by (rule ext) simp
  have dk: "distinct (map fst ?kvs)"
    using sorted_range_map_keys [OF dm, of ord] nt by (auto simp: kw' image_iff)
  have mk: "map_of (rev ?kvs) = map_of ?kvs" by (rule map_of_rev_distinct [OF dk])
  have tags: "field_ok (json_Unmarshal_slice json_Unmarshal_string) (map_of (rev ?kvs) ''tags'') None
      (PropertyBag.Tags strct)"
    unfolding mk by (simp add: field_ok_def Tags_round_trip)
  let ?rest = "filter (\<lambda>e. fst e \<noteq> ''tags'') (object_map ?kvs [])"
  have "sorted_wrt (<) (map fst (object_map ?kvs []))" by (rule sorted_object_map [of "[]", simplified])
  then have srt': "sorted_wrt (<) (map fst ?rest)"
    by (induction "object_map ?kvs []" rule: list.induct) (auto simp: sorted_wrt_map sorted_wrt_filter)
  have srtw: "sorted_wrt (<) (map fst (?w ?m))" using srt by (simp only: kw)
  have "map_of ?rest = map_of ?kvs |` {a. a \<noteq> ''tags''}"
    by (simp only: map_of_filter_key map_of_object_map mk) simp
  also have "\<dots> = map_of (?w (range_map ord ?m))"
  proof (rule ext)
    fix a
    have "map_of (?w (range_map ord ?m)) ''tags'' = None"
      using nt by (simp add: map_of_eq_None_iff image_comp kw')
    then show "(map_of ?kvs |` {a. a \<noteq> ''tags''}) a = map_of (?w (range_map ord ?m)) a"
      by (simp add: restrict_map_def)
  qed
  also have "\<dots> = map_of (?w ?m)"
    using map_of_values [of "?g" "range_map ord ?m"] map_of_values [of "?g" "?m"]
    by (simp add: map_of_range_map [OF dm])
  finally have rest: "?rest = ?w ?m" by (rule sorted_keys_unique [OF srt' srtw])
  have again: "projr (json_Unmarshal_interface (?g (snd e))) = snd e" if "e \<in> set ?m" for e
    using round_tripsD [OF round_trips_interface vals [OF that]] by simp
  then have "decoded (?w ?m) = ?m"
    by (simp add: decoded_def comp_def map_idI)
  with rest ne have add: "PropertyBag.AdditionalProperties strct = additional ?kvs"
    by (simp add: additional_def Let_def)
  have "\<not> isl (json_Unmarshal_interface (?g (snd e)))" if "e \<in> set ?m" for e
    using round_tripsD [OF round_trips_interface vals [OF that]] by simp
  then have "others_decode ?kvs"
    unfolding others_decode_def rest by (simp add: list_all_iff)
  with tags add have "PropertyBag_UnmarshalJSON ord' (JObj ?kvs) = Inr strct"
    by (simp only: PropertyBag_decode_iff simp_thms)
  moreover have "PropertyBag_MarshalJSON scn ord strct = Inr (Some (JObj ?kvs))"
    using PropertyBag_MarshalJSON_plain [OF wr pl, of scn ord] by (simp only: w)
  ultimately show "\<exists>kvs. PropertyBag_MarshalJSON scn ord strct = Inr (Some (JObj kvs)) \<and>
      PropertyBag_UnmarshalJSON ord' (JObj kvs) = Inr strct"
    by blast
qed

lemmas PropertyBag_field_round_trips = round_trips_bytes_ptr [OF PropertyBag_round_trips]

subsection \<open>Unknown and missing keys\<close>

text \<open>A key outside the cases of the switch stops the loop with the error of the default case.\<close>

lemma unknown_key_named:
  assumes reg: "regular body"
    and rej: "\<And>v s. body k v s = Inl (not_allowed k)"
    and key: "k \<in> fst ` set kvs"
    and rest: "range_loop body (members ord (filter (\<lambda>e. fst e \<noteq> k) kvs)) s0 = Inr t"
  shows "range_loop body (members ord kvs) s0 = Inl (not_allowed k)"
proof -
  from key have "k \<in> fst ` set (members ord kvs)" by (simp add: keys_members)
  then obtain v where v: "(k, v) \<in> set (members ord kvs)" by auto
  from rest have "range_loop body (filter (\<lambda>e. fst e \<noteq> k) (members ord kvs)) s0 = Inr t"
    by (simp only: members_filter)
  from loop_extra_key [OF reg this v members_distinct rej]
  show ?thesis .
qed

lemma map_of_rev_filter:
  "map_of (rev (filter (\<lambda>e. fst e \<noteq> k) kvs)) = map_of (rev kvs) |` {a. a \<noteq> k}"
  unfolding rev_filter by (rule map_of_filter_key)

lemma lookup_filter:
  "map_of (rev (filter (\<lambda>e. fst e \<noteq> k) kvs)) a = (if a = k then None else map_of (rev kvs) a)"
  by (simp add: map_of_rev_filter restrict_map_def)

lemma member_lookup_filter:
  assumes "(a, v) \<in> set (members ord (filter (\<lambda>e. fst e \<noteq> k) kvs))"
  shows "map_of (rev kvs) a = Some v"
proof -
  from assms have "map_of (rev (filter (\<lambda>e. fst e \<noteq> k) kvs)) a = Some v" by (rule member_lookup)
  then show ?thesis by (simp add: lookup_filter split: if_splits)
qed

lemma present_key: "map_of (rev kvs) k \<noteq> None \<longleftrightarrow> k \<in> fst ` set kvs"
  by (simp add: map_of_eq_None_iff)

lemma map_of_rev_snoc: "map_of (rev (kvs @ [(k, v)])) = (map_of (rev kvs))(k \<mapsto> v)"
  by (simp add: fun_eq_iff)

text \<open>The member of a JSON object under a key: the last one, as the decoder takes it.\<close>

definition member :: "json \<Rightarrow> string \<Rightarrow> json option" where
  "member j k = (case j of JObj kvs \<Rightarrow> map_of (rev kvs) k | _ \<Rightarrow> None)"

lemma member_object [simp]: "member (JObj kvs) k = map_of (rev kvs) k"
  by (simp add: member_def)

lemma member_Some_object: "member j k = Some v \<Longrightarrow> \<exists>kvs. j = JObj kvs"
  by (cases j) (simp_all add: member_def)

lemma Unmarshal_ptr_object:
  "json_Unmarshal_ptr U (JObj kvs) = Inr p \<Longrightarrow> \<exists>x. U (JObj kvs) = Inr x"
  by (auto simp: json_Unmarshal_ptr_def split: sum.splits)

lemma Unmarshal_slice_single:
  "json_Unmarshal_slice U (JArr [j]) = Inr s \<Longrightarrow> \<exists>x. U j = Inr x"
  by (auto simp: json_Unmarshal_slice_def split: sum.splits)

lemma null_into [simp]:
  "json_Unmarshal_string JNull = Inr []" "json_Unmarshal_int JNull = Inr 0"
  "json_Unmarshal_bool JNull = Inr False" "json_Unmarshal_ptr U JNull = Inr None"
  "json_Unmarshal_slice U' JNull = Inr None"
  by (simp_all add: json_Unmarshal_string_def json_Unmarshal_int_def json_Unmarshal_bool_def
      json_Unmarshal_ptr_def json_Unmarshal_slice_def)

subsection \<open>Entities that contain themselves\<close>

text \<open>
  \<^verbatim>\<open>Exception\<close> has a slice of inner exceptions and \<^verbatim>\<open>Node\<close> a slice of child nodes. The
  facts about a slice of pointers are needed there element by element.
\<close>

lemma ptr_all_cong [fundef_cong]:
  "p = q \<Longrightarrow> (\<And>x. q = Some x \<Longrightarrow> V x = W x) \<Longrightarrow> ptr_all V p = ptr_all W q"
  by (cases q) (simp_all add: ptr_all_def)

lemma slice_all_cong [fundef_cong]:
  "s = t \<Longrightarrow> (\<And>xs x. t = Some xs \<Longrightarrow> x \<in> set xs \<Longrightarrow> V x = W x) \<Longrightarrow> slice_all V s = slice_all W t"
  by (cases t) (simp_all add: slice_all_def list_all_iff)

lemma isl_slice_of_ptrs:
  assumes "\<And>xs y. s = Some xs \<Longrightarrow> Some y \<in> set xs \<Longrightarrow> isl (M y) \<longleftrightarrow> \<not> V y"
  shows "isl (json_Marshal_slice (json_Marshal_ptr t M) s) \<longleftrightarrow> \<not> slice_all (ptr_all V) s"
proof (cases s)
  case None
  then show ?thesis by (simp add: json_Marshal_slice_def slice_all_def)
next
  case (Some xs)
  have "\<not> isl (json_Marshal_ptr t M p) \<longleftrightarrow> ptr_all V p" if "p \<in> set xs" for p
  proof (cases p)
    case None
    then show ?thesis by (simp add: json_Marshal_ptr_def ptr_all_def)
  next
    case p: (Some y)
    with that assms [OF Some, of y] have "isl (M y) \<longleftrightarrow> \<not> V y" by simp
    with p show ?thesis by (cases "M y") (simp_all add: json_Marshal_ptr_def ptr_all_def)
  qed
  then have "isl (traverse (json_Marshal_ptr t M) xs) \<longleftrightarrow> \<not> list_all (ptr_all V) xs"
    by (simp add: isl_traverse list_all_iff)
  with Some show ?thesis
    by (cases "traverse (json_Marshal_ptr t M) xs") (simp_all add: json_Marshal_slice_def slice_all_def)
qed

lemma rt_slice_of_ptrs:
  assumes "\<And>xs y. s = Some xs \<Longrightarrow> Some y \<in> set xs \<Longrightarrow> rt_object M U y"
  shows "rt (json_Marshal_slice (json_Marshal_ptr t M)) (json_Unmarshal_slice (json_Unmarshal_ptr U)) s"
proof (cases s)
  case None
  then show ?thesis by (simp add: rt_def json_Marshal_slice_def json_Unmarshal_slice_def)
next
  case (Some xs)
  have "rt (json_Marshal_ptr t M) (json_Unmarshal_ptr U) p" if "p \<in> set xs" for p
  proof (cases p)
    case None
    then show ?thesis by (simp add: rt_def json_Marshal_ptr_def json_Unmarshal_ptr_def)
  next
    case p: (Some y)
    with that assms [OF Some, of y] obtain kvs where "M y = Inr (JObj kvs)" "U (JObj kvs) = Inr y"
      by (auto simp: rt_object_def)
    with p show ?thesis by (simp add: rt_def json_Marshal_ptr_def json_Unmarshal_ptr_def)
  qed
  from traverse_round_trip [OF this] obtain js where
    "traverse (json_Marshal_ptr t M) xs = Inr js" "traverse (json_Unmarshal_ptr U) js = Inr xs"
    by blast
  with Some show ?thesis by (simp add: rt_def json_Marshal_slice_def json_Unmarshal_slice_def)
qed

lemma slice_of_ptrs_element:
  "slice_all (ptr_all V) s \<Longrightarrow> s = Some xs \<Longrightarrow> Some y \<in> set xs \<Longrightarrow> V y"
  by (auto simp: slice_all_def ptr_all_def list_all_iff)

subsection \<open>Properties of a decoder\<close>

text \<open>An object without its members under a key, and with a member set.\<close>

definition removed :: "string \<Rightarrow> (string \<times> json) list \<Rightarrow> (string \<times> json) list" where
  "removed k kvs = filter (\<lambda>e. fst e \<noteq> k) kvs"

definition with_member :: "string \<Rightarrow> json \<Rightarrow> (string \<times> json) list \<Rightarrow> (string \<times> json) list" where
  "with_member k v kvs = removed k kvs @ [(k, v)]"

lemma map_of_rev_with_member: "map_of (rev (with_member k v kvs)) = (map_of (rev kvs))(k \<mapsto> v)"
  by (rule ext) (simp add: with_member_def removed_def lookup_filter)

text \<open>
  The message of an error, where the embedding has it: the format of a \<^verbatim>\<open>fmt.Errorf\<close>
  without a percent sign, and the constants of the two \<^verbatim>\<open>errors.New\<close>.
\<close>

definition message :: "error \<Rightarrow> string option" where
  "message err =
     (case err of
        Errorf format \<Rightarrow> if CHR ''%'' \<in> set format then None else Some format
      | RequiredNotPresent f \<Rightarrow> Some (quoted f @ '' is required but was not present'')
      | RequiredField f \<Rightarrow> Some (f @ '' is a required field'')
      | _ \<Rightarrow> None)"

lemma message_not_allowed:
  "CHR ''%'' \<notin> set k \<Longrightarrow>
   message (not_allowed k) = Some (''additional property not allowed: '' @ quoted k)"
  by (simp add: message_def not_allowed_def quoted_def)

text \<open>
  A decoder rejects the keys outside a list: an object with such a key is never decoded,
  and when the object is decoded once the key is removed, the error is the one the default
  case makes for the key.
\<close>

definition rejects_unknown_keys :: "(json \<Rightarrow> error + 'a) \<Rightarrow> string list \<Rightarrow> bool" where
  "rejects_unknown_keys U keys \<longleftrightarrow>
     (\<forall>kvs k. k \<in> fst ` set kvs \<and> k \<notin> set keys \<longrightarrow>
        isl (U (JObj kvs)) \<and>
        (\<not> isl (U (JObj (removed k kvs))) \<longrightarrow> U (JObj kvs) = Inl (not_allowed k)))"

lemma rejects_unknown_keysI:
  assumes "\<And>kvs k. k \<notin> set keys \<Longrightarrow> k \<in> fst ` set kvs \<Longrightarrow> isl (U (JObj kvs))"
    and "\<And>kvs k strct. k \<notin> set keys \<Longrightarrow> k \<in> fst ` set kvs \<Longrightarrow>
          U (JObj (filter (\<lambda>e. fst e \<noteq> k) kvs)) = Inr strct \<Longrightarrow>
          U (JObj kvs) = Inl (not_allowed k)"
  shows "rejects_unknown_keys U keys"
  unfolding rejects_unknown_keys_def removed_def
proof (intro allI impI conjI)
  fix kvs :: "(string \<times> json) list" and k assume "k \<in> fst ` set kvs \<and> k \<notin> set keys"
  then have a: "k \<notin> set keys" "k \<in> fst ` set kvs" by simp_all
  then show "isl (U (JObj kvs))" by (rule assms(1))
  assume "\<not> isl (U (JObj (filter (\<lambda>e. fst e \<noteq> k) kvs)))"
  then obtain strct where "U (JObj (filter (\<lambda>e. fst e \<noteq> k) kvs)) = Inr strct"
    by (cases "U (JObj (filter (\<lambda>e. fst e \<noteq> k) kvs))") auto
  with a show "U (JObj kvs) = Inl (not_allowed k)" by (rule assms(2))
qed

text \<open>
  A decoder requires a key: an object without the key is never decoded, and an object that
  is decoded gives, once the key is removed, the error that names the key.
\<close>

definition requires_key :: "(json \<Rightarrow> error + 'a) \<Rightarrow> string \<Rightarrow> bool" where
  "requires_key U f \<longleftrightarrow>
     (\<forall>kvs. (f \<notin> fst ` set kvs \<longrightarrow> isl (U (JObj kvs))) \<and>
        (\<not> isl (U (JObj kvs)) \<longrightarrow> U (JObj (removed f kvs)) = Inl (RequiredNotPresent f)))"

lemma requires_keyI:
  assumes "\<And>kvs strct. U (JObj kvs) = Inr strct \<Longrightarrow> f \<in> fst ` set kvs"
    and "\<And>kvs strct. U (JObj kvs) = Inr strct \<Longrightarrow>
          U (JObj (filter (\<lambda>e. fst e \<noteq> f) kvs)) = Inl (RequiredNotPresent f)"
  shows "requires_key U f"
  unfolding requires_key_def removed_def
proof (intro allI impI conjI)
  fix kvs :: "(string \<times> json) list"
  show "isl (U (JObj kvs))" if "f \<notin> fst ` set kvs"
    using that assms(1) [of kvs] by (cases "U (JObj kvs)") auto
  show "U (JObj (filter (\<lambda>e. fst e \<noteq> f) kvs)) = Inl (RequiredNotPresent f)" if "\<not> isl (U (JObj kvs))"
    using that assms(2) [of kvs] by (cases "U (JObj kvs)") auto
qed

text \<open>
  A decoder takes a value under a key: in an object that is decoded, setting the member
  to the value gives an object that is decoded, to the same entity but for one field.
\<close>

definition takes :: "(json \<Rightarrow> error + 'a) \<Rightarrow> string \<Rightarrow> json \<Rightarrow> ('a \<Rightarrow> 'a) \<Rightarrow> bool" where
  "takes U f v change \<longleftrightarrow>
     (\<forall>kvs x. U (JObj kvs) = Inr x \<longrightarrow> U (JObj (with_member f v kvs)) = Inr (change x))"

lemma takesI:
  assumes "\<And>kvs x. U (JObj kvs) = Inr x \<longleftrightarrow> D (map_of (rev kvs)) x"
    and "\<And>m x. D m x \<Longrightarrow> D (m(f \<mapsto> v)) (change x)"
  shows "takes U f v change"
  unfolding takes_def by (simp add: assms map_of_rev_with_member)

subsection \<open>The order of enumeration and the output\<close>

text \<open>
  \<^verbatim>\<open>MarshalJSON\<close> depends on the order in which Go enumerates a map only through the loop
  over the additional properties of a property bag. With at most one additional property
  in every bag there is only one order. The scanner is the same in every run.
\<close>

definition same_output :: "('a \<Rightarrow> error + 'b) \<Rightarrow> ('a \<Rightarrow> error + 'b) \<Rightarrow> ('a \<Rightarrow> bool) \<Rightarrow> bool" where
  "same_output M M' V \<longleftrightarrow> (\<forall>x. V x \<longrightarrow> M x = M' x)"

lemma same_outputD: "same_output M M' V \<Longrightarrow> V x \<Longrightarrow> M x = M' x"
  by (simp add: same_output_def)

lemma traverse_same: "(\<And>x. x \<in> set xs \<Longrightarrow> f x = g x) \<Longrightarrow> traverse f xs = traverse g xs"
proof (induction xs)
  case Nil
  show ?case by simp
next
  case (Cons a xs)
  from Cons.prems have "f a = g a" by simp
  moreover from Cons have "traverse f xs = traverse g xs" by simp
  ultimately show ?case by (simp split: sum.splits)
qed

lemma same_output_ptr:
  assumes "same_output M M' V"
  shows "same_output (json_Marshal_ptr t M) (json_Marshal_ptr t M') (ptr_all V)"
  unfolding same_output_def
proof (intro allI impI)
  fix p assume "ptr_all V p"
  then show "json_Marshal_ptr t M p = json_Marshal_ptr t M' p"
    using same_outputD [OF assms] by (cases p) (simp_all add: json_Marshal_ptr_def ptr_all_def)
qed

lemma same_output_bytes:
  assumes "same_output M M' V"
  shows "same_output (json_Marshal_bytes t M) (json_Marshal_bytes t M') (ptr_all V)"
  unfolding same_output_def
proof (intro allI impI)
  fix p assume "ptr_all V p"
  then show "json_Marshal_bytes t M p = json_Marshal_bytes t M' p"
    using same_outputD [OF assms] by (cases p) (simp_all add: json_Marshal_bytes_def ptr_all_def)
qed

lemma same_output_slice:
  assumes "same_output M M' V"
  shows "same_output (json_Marshal_slice M) (json_Marshal_slice M') (slice_all V)"
  unfolding same_output_def
proof (intro allI impI)
  fix s assume v: "slice_all V s"
  show "json_Marshal_slice M s = json_Marshal_slice M' s"
  proof (cases s)
    case None
    then show ?thesis by (simp add: json_Marshal_slice_def)
  next
    case (Some xs)
    with v have "traverse M xs = traverse M' xs"
      by (intro traverse_same same_outputD [OF assms]) (simp add: slice_all_def list_all_iff)
    with Some show ?thesis by (simp add: json_Marshal_slice_def)
  qed
qed

lemma same_output_map:
  assumes "same_output M M' V"
  shows "same_output (json_Marshal_map M) (json_Marshal_map M') (map_all V)"
  unfolding same_output_def
proof (intro allI impI)
  fix m assume v: "map_all V m"
  show "json_Marshal_map M m = json_Marshal_map M' m"
  proof (cases m)
    case None
    then show ?thesis by (simp add: json_Marshal_map_def)
  next
    case (Some kvs)
    with v have "M (snd e) = M' (snd e)" if "e \<in> set kvs" for e
      using that same_outputD [OF assms, of "snd e"] by (simp add: map_all_def list_all_iff)
    then have "traverse (\<lambda>(k, x). case M x of Inl err \<Rightarrow> Inl err | Inr y \<Rightarrow> Inr (k, y)) (sort_key fst kvs) =
        traverse (\<lambda>(k, x). case M' x of Inl err \<Rightarrow> Inl err | Inr y \<Rightarrow> Inr (k, y)) (sort_key fst kvs)"
      by (intro traverse_same) (auto simp: split_def)
    with Some show ?thesis by (simp add: json_Marshal_map_def)
  qed
qed

lemma same_slice_of_ptrs:
  assumes "\<And>xs y. s = Some xs \<Longrightarrow> Some y \<in> set xs \<Longrightarrow> M y = M' y"
  shows "json_Marshal_slice (json_Marshal_ptr t M) s = json_Marshal_slice (json_Marshal_ptr t M') s"
proof (cases s)
  case None
  then show ?thesis by (simp add: json_Marshal_slice_def)
next
  case (Some xs)
  have "json_Marshal_ptr t M p = json_Marshal_ptr t M' p" if "p \<in> set xs" for p
  proof (cases p)
    case None
    then show ?thesis by (simp add: json_Marshal_ptr_def)
  next
    case p: (Some y)
    with that have "Some y \<in> set xs" by simp
    from assms [OF Some this] p show ?thesis by (simp add: json_Marshal_ptr_def)
  qed
  then have "traverse (json_Marshal_ptr t M) xs = traverse (json_Marshal_ptr t M') xs"
    by (rule traverse_same)
  with Some show ?thesis by (simp add: json_Marshal_slice_def)
qed

definition PropertyBag_small_bags :: "PropertyBag \<Rightarrow> bool" where
  "PropertyBag_small_bags strct \<longleftrightarrow> length (entries (PropertyBag.AdditionalProperties strct)) \<le> 1"

lemma range_map_short: "length m \<le> 1 \<Longrightarrow> range_map ord m = m"
  by (cases m) (simp_all add: range_map_def)

lemma PropertyBag_same_output:
  "same_output (PropertyBag_MarshalJSON scn ord) (PropertyBag_MarshalJSON scn ord') PropertyBag_small_bags"
  by (simp add: same_output_def PropertyBag_MarshalJSON_def PropertyBag_small_bags_def range_map_short)

lemmas PropertyBag_field_same_output = same_output_bytes [OF PropertyBag_same_output]

text \<open>The keys of the object that an encoder returns.\<close>

definition writes_keys :: "('a \<Rightarrow> error + json) \<Rightarrow> string list \<Rightarrow> bool" where
  "writes_keys M keys \<longleftrightarrow> (\<forall>x j. M x = Inr j \<longrightarrow> (\<exists>kvs. j = JObj kvs \<and> map fst kvs = keys))"

section \<open>The methods of each entity\<close>

text \<open>
  The same facts for every entity, each proved from the definitions of its two methods.
  \<^item> \<open>keys\<close> are the constants of the \<^verbatim>\<open>switch\<close> of \<^verbatim>\<open>UnmarshalJSON\<close>, in the order of the
    fields of the struct, which is also the order in which \<^verbatim>\<open>MarshalJSON\<close> writes them.
  \<^item> \<open>decode_iff\<close>: \<^verbatim>\<open>UnmarshalJSON\<close> of an object returns an instance exactly when every
    member is under one of the keys, every field is what \<^verbatim>\<open>json.Unmarshal\<close> makes of the
    last member under its key (the zero value when there is none), and every required key
    is there. The order in which the map of members is enumerated plays no part.
  \<^item> \<open>results\<close> are the values \<^verbatim>\<open>json.Marshal\<close> returns for the fields; \<^verbatim>\<open>MarshalJSON\<close>
    returns the object of these values, or the first error among them.
  \<^item> \<open>encodable\<close> are the instances for which \<^verbatim>\<open>MarshalJSON\<close> returns no error, and
    \<open>valid\<close> those that \<^verbatim>\<open>UnmarshalJSON\<close> gives back from what \<^verbatim>\<open>MarshalJSON\<close> returned.
  \<^item> \<open>small_bags\<close> are the instances in which no property bag has two additional
    properties; \<^verbatim>\<open>MarshalJSON\<close> returns the same for them under every order of enumeration.
  \<^item> For a key outside \<open>keys\<close>, for the key of a required field without its member, and
    for a member set in an object that is decoded: what \<^verbatim>\<open>UnmarshalJSON\<close> returns.
\<close>

subsection \<open>Address: decoding and encoding\<close>

definition Address_keys :: "string list" where
  "Address_keys = [''absoluteAddress'', ''fullyQualifiedName'', ''index'', ''kind'', ''length'', ''name'', ''offsetFromParent'', ''parentIndex'', ''properties'', ''relativeAddress'']"

definition Address_decodes :: "order \<Rightarrow> (string \<rightharpoonup> json) \<Rightarrow> Address \<Rightarrow> bool" where
  "Address_decodes ord m strct \<longleftrightarrow>
     dom m \<subseteq> set Address_keys \<and>
     field_ok json_Unmarshal_int (m ''absoluteAddress'') 0 (Address.AbsoluteAddress strct) \<and>
     field_ok json_Unmarshal_string (m ''fullyQualifiedName'') [] (Address.FullyQualifiedName strct) \<and>
     field_ok json_Unmarshal_int (m ''index'') 0 (Address.Index strct) \<and>
     field_ok json_Unmarshal_string (m ''kind'') [] (Address.Kind strct) \<and>
     field_ok json_Unmarshal_int (m ''length'') 0 (Address.Length strct) \<and>
     field_ok json_Unmarshal_string (m ''name'') [] (Address.Name strct) \<and>
     field_ok json_Unmarshal_int (m ''offsetFromParent'') 0 (Address.OffsetFromParent strct) \<and>
     field_ok json_Unmarshal_int (m ''parentIndex'') 0 (Address.ParentIndex strct) \<and>
     field_ok (json_Unmarshal_ptr (PropertyBag_UnmarshalJSON ord)) (m ''properties'') None (Address.Properties strct) \<and>
     field_ok json_Unmarshal_int (m ''relativeAddress'') 0 (Address.RelativeAddress strct)"

lemma Address_cases_keys: "fst ` set (Address_cases ord v) = set Address_keys"
  by (rule keys_image) (simp add: Address_cases_def Address_keys_def)

lemma Address_regular: "regular (\<lambda>k v. switch k (Address_cases ord v) (reject k))"
  by (rule regular_switch) (simp add: Address_cases_def)

lemma Address_fields:
  "field_case (Address_cases ord) Address.AbsoluteAddress ''absoluteAddress'' json_Unmarshal_int"
  "field_case (Address_cases ord) Address.FullyQualifiedName ''fullyQualifiedName'' json_Unmarshal_string"
  "field_case (Address_cases ord) Address.Index ''index'' json_Unmarshal_int"
  "field_case (Address_cases ord) Address.Kind ''kind'' json_Unmarshal_string"
  "field_case (Address_cases ord) Address.Length ''length'' json_Unmarshal_int"
  "field_case (Address_cases ord) Address.Name ''name'' json_Unmarshal_string"
  "field_case (Address_cases ord) Address.OffsetFromParent ''offsetFromParent'' json_Unmarshal_int"
  "field_case (Address_cases ord) Address.ParentIndex ''parentIndex'' json_Unmarshal_int"
  "field_case (Address_cases ord) Address.Properties ''properties'' (json_Unmarshal_ptr (PropertyBag_UnmarshalJSON ord))"
  "field_case (Address_cases ord) Address.RelativeAddress ''relativeAddress'' json_Unmarshal_int"
  unfolding field_case_def Address_cases_def
  by (simp_all add: writes_into writes_received keeps_into split_def)

lemma Address_loop_sound:
  assumes loop: "range_loop (\<lambda>k v. switch k (Address_cases ord v) (reject k)) (members ord kvs) Address_zero = Inr strct"
  shows "dom (map_of (rev kvs)) \<subseteq> set Address_keys \<and>
     field_ok json_Unmarshal_int (map_of (rev kvs) ''absoluteAddress'') 0 (Address.AbsoluteAddress strct) \<and>
     field_ok json_Unmarshal_string (map_of (rev kvs) ''fullyQualifiedName'') [] (Address.FullyQualifiedName strct) \<and>
     field_ok json_Unmarshal_int (map_of (rev kvs) ''index'') 0 (Address.Index strct) \<and>
     field_ok json_Unmarshal_string (map_of (rev kvs) ''kind'') [] (Address.Kind strct) \<and>
     field_ok json_Unmarshal_int (map_of (rev kvs) ''length'') 0 (Address.Length strct) \<and>
     field_ok json_Unmarshal_string (map_of (rev kvs) ''name'') [] (Address.Name strct) \<and>
     field_ok json_Unmarshal_int (map_of (rev kvs) ''offsetFromParent'') 0 (Address.OffsetFromParent strct) \<and>
     field_ok json_Unmarshal_int (map_of (rev kvs) ''parentIndex'') 0 (Address.ParentIndex strct) \<and>
     field_ok (json_Unmarshal_ptr (PropertyBag_UnmarshalJSON ord)) (map_of (rev kvs) ''properties'') None (Address.Properties strct) \<and>
     field_ok json_Unmarshal_int (map_of (rev kvs) ''relativeAddress'') 0 (Address.RelativeAddress strct)"
proof -
  have "fst ` set (members ord kvs) \<subseteq> set Address_keys"
    by (rule loop_keys_known [OF loop]) (rule Address_cases_keys)
  then have keys: "dom (map_of (rev kvs)) \<subseteq> set Address_keys"
    by (simp add: dom_members [of kvs ord])
  note fld = field_after_loop [OF _ members_distinct loop, unfolded map_of_members]
  show ?thesis
    using keys fld [OF Address_fields(1)] fld [OF Address_fields(2)] fld [OF Address_fields(3)] fld [OF Address_fields(4)] fld [OF Address_fields(5)] fld [OF Address_fields(6)] fld [OF Address_fields(7)] fld [OF Address_fields(8)] fld [OF Address_fields(9)] fld [OF Address_fields(10)] 
    by (simp only: prod.case Address_zero_def Address.select_convs simp_thms)
qed

lemma Address_decodesD:
  assumes "Address_decodes ord m strct"
  shows "dom m \<subseteq> set Address_keys"
    and "field_ok json_Unmarshal_int (m ''absoluteAddress'') 0 (Address.AbsoluteAddress strct)"
    and "field_ok json_Unmarshal_string (m ''fullyQualifiedName'') [] (Address.FullyQualifiedName strct)"
    and "field_ok json_Unmarshal_int (m ''index'') 0 (Address.Index strct)"
    and "field_ok json_Unmarshal_string (m ''kind'') [] (Address.Kind strct)"
    and "field_ok json_Unmarshal_int (m ''length'') 0 (Address.Length strct)"
    and "field_ok json_Unmarshal_string (m ''name'') [] (Address.Name strct)"
    and "field_ok json_Unmarshal_int (m ''offsetFromParent'') 0 (Address.OffsetFromParent strct)"
    and "field_ok json_Unmarshal_int (m ''parentIndex'') 0 (Address.ParentIndex strct)"
    and "field_ok (json_Unmarshal_ptr (PropertyBag_UnmarshalJSON ord)) (m ''properties'') None (Address.Properties strct)"
    and "field_ok json_Unmarshal_int (m ''relativeAddress'') 0 (Address.RelativeAddress strct)"
  using assms unfolding Address_decodes_def by - (elim conjE, assumption)+

lemma Address_decodes_unique:
  assumes "Address_decodes ord m a" and "Address_decodes ord m b"
  shows "a = b"
  apply (rule Address.equality)
  apply (rule field_ok_unique [OF Address_decodesD(2) [OF assms(1)] Address_decodesD(2) [OF assms(2)]])
  apply (rule field_ok_unique [OF Address_decodesD(3) [OF assms(1)] Address_decodesD(3) [OF assms(2)]])
  apply (rule field_ok_unique [OF Address_decodesD(4) [OF assms(1)] Address_decodesD(4) [OF assms(2)]])
  apply (rule field_ok_unique [OF Address_decodesD(5) [OF assms(1)] Address_decodesD(5) [OF assms(2)]])
  apply (rule field_ok_unique [OF Address_decodesD(6) [OF assms(1)] Address_decodesD(6) [OF assms(2)]])
  apply (rule field_ok_unique [OF Address_decodesD(7) [OF assms(1)] Address_decodesD(7) [OF assms(2)]])
  apply (rule field_ok_unique [OF Address_decodesD(8) [OF assms(1)] Address_decodesD(8) [OF assms(2)]])
  apply (rule field_ok_unique [OF Address_decodesD(9) [OF assms(1)] Address_decodesD(9) [OF assms(2)]])
  apply (rule field_ok_unique [OF Address_decodesD(10) [OF assms(1)] Address_decodesD(10) [OF assms(2)]])
  apply (rule field_ok_unique [OF Address_decodesD(11) [OF assms(1)] Address_decodesD(11) [OF assms(2)]])
  apply simp
  done

lemma Address_accepts:
  assumes "Address_decodes ord m strct" and "m k = Some v"
  shows "accepting (switch k (Address_cases ord v) (reject k))"
proof -
  from assms have "k \<in> set Address_keys" by (auto simp: Address_decodes_def)
  then have key: "k \<in> fst ` set (Address_cases ord v)"
    by (simp only: Address_cases_keys)
  have rows: "list_all (\<lambda>(c, h). m c = Some v \<longrightarrow> accepting h) (Address_cases ord v)"
    unfolding Address_cases_def list.pred_inject
    apply (rule conjI [OF accept_row [where m = m and v = v, OF Address_decodesD(2) [OF assms(1)]]])
    apply (rule conjI [OF accept_row [where m = m and v = v, OF Address_decodesD(3) [OF assms(1)]]])
    apply (rule conjI [OF accept_row [where m = m and v = v, OF Address_decodesD(4) [OF assms(1)]]])
    apply (rule conjI [OF accept_row [where m = m and v = v, OF Address_decodesD(5) [OF assms(1)]]])
    apply (rule conjI [OF accept_row [where m = m and v = v, OF Address_decodesD(6) [OF assms(1)]]])
    apply (rule conjI [OF accept_row [where m = m and v = v, OF Address_decodesD(7) [OF assms(1)]]])
    apply (rule conjI [OF accept_row [where m = m and v = v, OF Address_decodesD(8) [OF assms(1)]]])
    apply (rule conjI [OF accept_row [where m = m and v = v, OF Address_decodesD(9) [OF assms(1)]]])
    apply (rule conjI [OF accept_row [where m = m and v = v, OF Address_decodesD(10) [OF assms(1)]]])
    apply (rule conjI [OF accept_row [where m = m and v = v, OF Address_decodesD(11) [OF assms(1)]]])
    apply simp
    done
  show ?thesis by (rule rows_accept [OF rows assms(2) key])
qed

lemma Address_decode_iff:
  "Address_UnmarshalJSON ord (JObj kvs) = Inr strct \<longleftrightarrow>
   Address_decodes ord (map_of (rev kvs)) strct"
proof
  assume "Address_UnmarshalJSON ord (JObj kvs) = Inr strct"
  then have loop: "range_loop (\<lambda>k v. switch k (Address_cases ord v) (reject k)) (members ord kvs) Address_zero = Inr strct"
    by (auto simp: Address_UnmarshalJSON_def members_def split: sum.splits)
  from Address_loop_sound [OF loop]
  show "Address_decodes ord (map_of (rev kvs)) strct"
    by (simp add: Address_decodes_def)
next
  assume d: "Address_decodes ord (map_of (rev kvs)) strct"
  have "\<exists>t. range_loop (\<lambda>k v. switch k (Address_cases ord v) (reject k)) (members ord kvs) Address_zero = Inr t"
  proof (rule loop_succeeds [OF Address_regular])
    fix k v assume "(k, v) \<in> set (members ord kvs)"
    then have "map_of (rev kvs) k = Some v" by (rule member_lookup)
    from Address_accepts [OF d this]
    show "accepting (switch k (Address_cases ord v) (reject k))" .
  qed
  then obtain strct' where
    loop: "range_loop (\<lambda>k v. switch k (Address_cases ord v) (reject k)) (members ord kvs) Address_zero = Inr strct'" ..
  from Address_loop_sound [OF loop]
  have d': "Address_decodes ord (map_of (rev kvs)) strct'"
    by (simp add: Address_decodes_def)
  from Address_decodes_unique [OF d' d] have "strct' = strct" .
  with loop show "Address_UnmarshalJSON ord (JObj kvs) = Inr strct"
    by (simp add: Address_UnmarshalJSON_def members_def)
qed

definition Address_results :: "scanner \<Rightarrow> order \<Rightarrow> Address \<Rightarrow> (string \<times> (error + json)) list" where
  "Address_results scn ord strct =
     [(''absoluteAddress'', json_Marshal_int (Address.AbsoluteAddress strct)),
      (''fullyQualifiedName'', json_Marshal_string (Address.FullyQualifiedName strct)),
      (''index'', json_Marshal_int (Address.Index strct)),
      (''kind'', json_Marshal_string (Address.Kind strct)),
      (''length'', json_Marshal_int (Address.Length strct)),
      (''name'', json_Marshal_string (Address.Name strct)),
      (''offsetFromParent'', json_Marshal_int (Address.OffsetFromParent strct)),
      (''parentIndex'', json_Marshal_int (Address.ParentIndex strct)),
      (''properties'', json_Marshal_bytes ''*sarif.PropertyBag'' (PropertyBag_MarshalJSON scn ord) (Address.Properties strct)),
      (''relativeAddress'', json_Marshal_int (Address.RelativeAddress strct))]"

lemma Address_MarshalJSON_results:
  "Address_MarshalJSON scn ord strct = object (emit_all (Address_results scn ord strct))"
  by (simp add: Address_MarshalJSON_def Address_results_def emit_nilcheck)

lemma Address_keys_written:
  "Address_MarshalJSON scn ord strct = Inr j \<Longrightarrow> \<exists>kvs. j = JObj kvs \<and> map fst kvs = Address_keys"
  using keys_written [of "Address_results scn ord strct" j]
  by (simp add: Address_MarshalJSON_results Address_results_def Address_keys_def)

definition Address_encodable :: "scanner \<Rightarrow> order \<Rightarrow> Address \<Rightarrow> bool" where
  "Address_encodable scn ord strct \<longleftrightarrow>
     ptr_all (PropertyBag_encodable scn ord) (Address.Properties strct)"

lemma Address_fails_unless: "fails_unless (Address_MarshalJSON scn ord) (Address_encodable scn ord)"
  unfolding fails_unless_def Address_MarshalJSON_results Address_results_def Address_encodable_def isl_object_emit_all
  by (auto simp add: always_simps
      fails_unlessD [OF fails_unless_int]
      fails_unlessD [OF fails_unless_string]
      fails_unlessD [OF PropertyBag_field_fails_unless])

definition Address_valid :: "Address \<Rightarrow> bool" where
  "Address_valid strct \<longleftrightarrow>
     ptr_all PropertyBag_valid (Address.Properties strct)"

lemma Address_keys_distinct: "distinct Address_keys"
  by (simp add: Address_keys_def)

lemma Address_round_trips:
  "round_trips_object (Address_MarshalJSON scn ord) (Address_UnmarshalJSON ord') Address_valid"
  unfolding round_trips_object_def
proof (intro allI impI)
  fix strct assume v: "Address_valid strct"
  note v' = v [unfolded Address_valid_def]
  let ?rs = "Address_results scn ord strct"
  let ?kvs = "map (\<lambda>e. (fst e, projr (snd e))) ?rs"
  have f0: "\<not> isl (json_Marshal_int (Address.AbsoluteAddress strct)) \<and>
      json_Unmarshal_int (projr (json_Marshal_int (Address.AbsoluteAddress strct))) = Inr (Address.AbsoluteAddress strct)"
    by (rule round_tripsD [OF round_trips_int]) (use v' in simp)
  have f1: "\<not> isl (json_Marshal_string (Address.FullyQualifiedName strct)) \<and>
      json_Unmarshal_string (projr (json_Marshal_string (Address.FullyQualifiedName strct))) = Inr (Address.FullyQualifiedName strct)"
    by (rule round_tripsD [OF round_trips_string]) (use v' in simp)
  have f2: "\<not> isl (json_Marshal_int (Address.Index strct)) \<and>
      json_Unmarshal_int (projr (json_Marshal_int (Address.Index strct))) = Inr (Address.Index strct)"
    by (rule round_tripsD [OF round_trips_int]) (use v' in simp)
  have f3: "\<not> isl (json_Marshal_string (Address.Kind strct)) \<and>
      json_Unmarshal_string (projr (json_Marshal_string (Address.Kind strct))) = Inr (Address.Kind strct)"
    by (rule round_tripsD [OF round_trips_string]) (use v' in simp)
  have f4: "\<not> isl (json_Marshal_int (Address.Length strct)) \<and>
      json_Unmarshal_int (projr (json_Marshal_int (Address.Length strct))) = Inr (Address.Length strct)"
    by (rule round_tripsD [OF round_trips_int]) (use v' in simp)
  have f5: "\<not> isl (json_Marshal_string (Address.Name strct)) \<and>
      json_Unmarshal_string (projr (json_Marshal_string (Address.Name strct))) = Inr (Address.Name strct)"
    by (rule round_tripsD [OF round_trips_string]) (use v' in simp)
  have f6: "\<not> isl (json_Marshal_int (Address.OffsetFromParent strct)) \<and>
      json_Unmarshal_int (projr (json_Marshal_int (Address.OffsetFromParent strct))) = Inr (Address.OffsetFromParent strct)"
    by (rule round_tripsD [OF round_trips_int]) (use v' in simp)
  have f7: "\<not> isl (json_Marshal_int (Address.ParentIndex strct)) \<and>
      json_Unmarshal_int (projr (json_Marshal_int (Address.ParentIndex strct))) = Inr (Address.ParentIndex strct)"
    by (rule round_tripsD [OF round_trips_int]) (use v' in simp)
  have f8: "\<not> isl (json_Marshal_bytes ''*sarif.PropertyBag'' (PropertyBag_MarshalJSON scn ord) (Address.Properties strct)) \<and>
      json_Unmarshal_ptr (PropertyBag_UnmarshalJSON ord') (projr (json_Marshal_bytes ''*sarif.PropertyBag'' (PropertyBag_MarshalJSON scn ord) (Address.Properties strct))) = Inr (Address.Properties strct)"
    by (rule round_tripsD [OF PropertyBag_field_round_trips]) (use v' in simp)
  have f9: "\<not> isl (json_Marshal_int (Address.RelativeAddress strct)) \<and>
      json_Unmarshal_int (projr (json_Marshal_int (Address.RelativeAddress strct))) = Inr (Address.RelativeAddress strct)"
    by (rule round_tripsD [OF round_trips_int]) (use v' in simp)
  note fs = f0 f1 f2 f3 f4 f5 f6 f7 f8 f9
  have rs: "?rs =
     [(''absoluteAddress'', json_Marshal_int (Address.AbsoluteAddress strct)),
      (''fullyQualifiedName'', json_Marshal_string (Address.FullyQualifiedName strct)),
      (''index'', json_Marshal_int (Address.Index strct)),
      (''kind'', json_Marshal_string (Address.Kind strct)),
      (''length'', json_Marshal_int (Address.Length strct)),
      (''name'', json_Marshal_string (Address.Name strct)),
      (''offsetFromParent'', json_Marshal_int (Address.OffsetFromParent strct)),
      (''parentIndex'', json_Marshal_int (Address.ParentIndex strct)),
      (''properties'', json_Marshal_bytes ''*sarif.PropertyBag'' (PropertyBag_MarshalJSON scn ord) (Address.Properties strct)),
      (''relativeAddress'', json_Marshal_int (Address.RelativeAddress strct))]"
    by (auto simp add: Address_results_def)
  have keys: "map fst ?rs = Address_keys"
    by (simp add: Address_results_def Address_keys_def)
  then have dist: "distinct (map fst ?rs)"
    by (simp only: Address_keys_distinct)
  have ok: "list_all (\<lambda>e. \<not> isl (snd e)) ?rs"
    unfolding rs by (simp only: list.pred_inject snd_conv fs simp_thms)
  then have enc: "Address_MarshalJSON scn ord strct = Inr (JObj ?kvs)"
    by (simp add: Address_MarshalJSON_results [of scn ord strct] object_emit_all_eq_Inr)
  have l0: "map_of (rev ?kvs) ''absoluteAddress'' = Some (projr (json_Marshal_int (Address.AbsoluteAddress strct)))"
    by (rule written_lookup [OF dist]) (subst rs, intro list.set_intros)
  have l1: "map_of (rev ?kvs) ''fullyQualifiedName'' = Some (projr (json_Marshal_string (Address.FullyQualifiedName strct)))"
    by (rule written_lookup [OF dist]) (subst rs, intro list.set_intros)
  have l2: "map_of (rev ?kvs) ''index'' = Some (projr (json_Marshal_int (Address.Index strct)))"
    by (rule written_lookup [OF dist]) (subst rs, intro list.set_intros)
  have l3: "map_of (rev ?kvs) ''kind'' = Some (projr (json_Marshal_string (Address.Kind strct)))"
    by (rule written_lookup [OF dist]) (subst rs, intro list.set_intros)
  have l4: "map_of (rev ?kvs) ''length'' = Some (projr (json_Marshal_int (Address.Length strct)))"
    by (rule written_lookup [OF dist]) (subst rs, intro list.set_intros)
  have l5: "map_of (rev ?kvs) ''name'' = Some (projr (json_Marshal_string (Address.Name strct)))"
    by (rule written_lookup [OF dist]) (subst rs, intro list.set_intros)
  have l6: "map_of (rev ?kvs) ''offsetFromParent'' = Some (projr (json_Marshal_int (Address.OffsetFromParent strct)))"
    by (rule written_lookup [OF dist]) (subst rs, intro list.set_intros)
  have l7: "map_of (rev ?kvs) ''parentIndex'' = Some (projr (json_Marshal_int (Address.ParentIndex strct)))"
    by (rule written_lookup [OF dist]) (subst rs, intro list.set_intros)
  have l8: "map_of (rev ?kvs) ''properties'' = Some (projr (json_Marshal_bytes ''*sarif.PropertyBag'' (PropertyBag_MarshalJSON scn ord) (Address.Properties strct)))"
    by (rule written_lookup [OF dist]) (subst rs, intro list.set_intros)
  have l9: "map_of (rev ?kvs) ''relativeAddress'' = Some (projr (json_Marshal_int (Address.RelativeAddress strct)))"
    by (rule written_lookup [OF dist]) (subst rs, intro list.set_intros)
  have dec: "Address_decodes ord' (map_of (rev ?kvs)) strct"
    unfolding Address_decodes_def l0 l1 l2 l3 l4 l5 l6 l7 l8 l9
    by (simp only: field_ok_Some fs written_dom keys subset_refl option.simps simp_thms)
  then have "Address_UnmarshalJSON ord' (JObj ?kvs) = Inr strct"
    by (simp only: Address_decode_iff)
  with enc show "rt_object (Address_MarshalJSON scn ord) (Address_UnmarshalJSON ord') strct"
    unfolding rt_object_def by blast
qed

definition Address_small_bags :: "Address \<Rightarrow> bool" where
  "Address_small_bags strct \<longleftrightarrow>
     ptr_all PropertyBag_small_bags (Address.Properties strct)"

lemma Address_same_output:
  "same_output (Address_MarshalJSON scn ord) (Address_MarshalJSON scn ord') Address_small_bags"
  unfolding same_output_def
proof (intro allI impI)
  fix strct assume v: "Address_small_bags strct"
  note v' = v [unfolded Address_small_bags_def]
  have e8: "json_Marshal_bytes ''*sarif.PropertyBag'' (PropertyBag_MarshalJSON scn ord) (Address.Properties strct) =
      json_Marshal_bytes ''*sarif.PropertyBag'' (PropertyBag_MarshalJSON scn ord') (Address.Properties strct)"
    by (rule same_outputD [OF PropertyBag_field_same_output]) (use v' in simp)
  show "Address_MarshalJSON scn ord strct = Address_MarshalJSON scn ord' strct"
    by (simp only: Address_MarshalJSON_def e8)
qed

lemma Address_writes_keys: "writes_keys (Address_MarshalJSON scn ord) Address_keys"
  unfolding writes_keys_def by (intro allI impI) (erule Address_keys_written)

lemma Address_unknown_key:
  assumes new: "k \<notin> set Address_keys" and key: "k \<in> fst ` set kvs"
    and rest: "Address_UnmarshalJSON ord (JObj (filter (\<lambda>e. fst e \<noteq> k) kvs)) = Inr strct"
  shows "Address_UnmarshalJSON ord (JObj kvs) = Inl (not_allowed k)"
proof -
  have rej: "switch k (Address_cases ord v) (reject k) s = Inl (not_allowed k)" for v s
    by (rule switch_rejects) (simp only: Address_cases_keys new not_False_eq_True)
  from rest obtain t where
    "range_loop (\<lambda>k v. switch k (Address_cases ord v) (reject k)) (members ord (filter (\<lambda>e. fst e \<noteq> k) kvs)) Address_zero = Inr t"
    by (cases "range_loop (\<lambda>k v. switch k (Address_cases ord v) (reject k)) (members ord (filter (\<lambda>e. fst e \<noteq> k) kvs)) Address_zero")
       (simp_all add: Address_UnmarshalJSON_def members_def)
  from unknown_key_named [OF Address_regular rej key this]
  show ?thesis by (simp add: Address_UnmarshalJSON_def members_def)
qed

lemma Address_unknown_key_fails:
  assumes "k \<notin> set Address_keys" and "k \<in> fst ` set kvs"
  shows "isl (Address_UnmarshalJSON ord (JObj kvs))"
proof (cases "Address_UnmarshalJSON ord (JObj kvs)")
  case (Inr strct)
  then have "dom (map_of (rev kvs)) \<subseteq> set Address_keys"
    by (simp only: Address_decode_iff Address_decodesD(1))
  with assms show ?thesis by (auto simp: dom_map_of_conv_image_fst)
qed simp

lemma Address_rejects_unknown_keys: "rejects_unknown_keys (Address_UnmarshalJSON ord) Address_keys"
  by (rule rejects_unknown_keysI) (erule (1) Address_unknown_key_fails, erule (2) Address_unknown_key)

subsection \<open>Message: decoding and encoding\<close>

definition Message_keys :: "string list" where
  "Message_keys = [''arguments'', ''id'', ''markdown'', ''properties'', ''text'']"

definition Message_decodes :: "order \<Rightarrow> (string \<rightharpoonup> json) \<Rightarrow> Message \<Rightarrow> bool" where
  "Message_decodes ord m strct \<longleftrightarrow>
     dom m \<subseteq> set Message_keys \<and>
     field_ok (json_Unmarshal_slice json_Unmarshal_string) (m ''arguments'') None (Message.Arguments strct) \<and>
     field_ok json_Unmarshal_string (m ''id'') [] (Message.Id strct) \<and>
     field_ok json_Unmarshal_string (m ''markdown'') [] (Message.Markdown strct) \<and>
     field_ok (json_Unmarshal_ptr (PropertyBag_UnmarshalJSON ord)) (m ''properties'') None (Message.Properties strct) \<and>
     field_ok json_Unmarshal_string (m ''text'') [] (Message.Text strct)"

lemma Message_cases_keys: "fst ` set (Message_cases ord v) = set Message_keys"
  by (rule keys_image) (simp add: Message_cases_def Message_keys_def)

lemma Message_regular: "regular (\<lambda>k v. switch k (Message_cases ord v) (reject k))"
  by (rule regular_switch) (simp add: Message_cases_def)

lemma Message_fields:
  "field_case (Message_cases ord) Message.Arguments ''arguments'' (json_Unmarshal_slice json_Unmarshal_string)"
  "field_case (Message_cases ord) Message.Id ''id'' json_Unmarshal_string"
  "field_case (Message_cases ord) Message.Markdown ''markdown'' json_Unmarshal_string"
  "field_case (Message_cases ord) Message.Properties ''properties'' (json_Unmarshal_ptr (PropertyBag_UnmarshalJSON ord))"
  "field_case (Message_cases ord) Message.Text ''text'' json_Unmarshal_string"
  unfolding field_case_def Message_cases_def
  by (simp_all add: writes_into writes_received keeps_into split_def)

lemma Message_loop_sound:
  assumes loop: "range_loop (\<lambda>k v. switch k (Message_cases ord v) (reject k)) (members ord kvs) Message_zero = Inr strct"
  shows "dom (map_of (rev kvs)) \<subseteq> set Message_keys \<and>
     field_ok (json_Unmarshal_slice json_Unmarshal_string) (map_of (rev kvs) ''arguments'') None (Message.Arguments strct) \<and>
     field_ok json_Unmarshal_string (map_of (rev kvs) ''id'') [] (Message.Id strct) \<and>
     field_ok json_Unmarshal_string (map_of (rev kvs) ''markdown'') [] (Message.Markdown strct) \<and>
     field_ok (json_Unmarshal_ptr (PropertyBag_UnmarshalJSON ord)) (map_of (rev kvs) ''properties'') None (Message.Properties strct) \<and>
     field_ok json_Unmarshal_string (map_of (rev kvs) ''text'') [] (Message.Text strct)"
proof -
  have "fst ` set (members ord kvs) \<subseteq> set Message_keys"
    by (rule loop_keys_known [OF loop]) (rule Message_cases_keys)
  then have keys: "dom (map_of (rev kvs)) \<subseteq> set Message_keys"
    by (simp add: dom_members [of kvs ord])
  note fld = field_after_loop [OF _ members_distinct loop, unfolded map_of_members]
  show ?thesis
    using keys fld [OF Message_fields(1)] fld [OF Message_fields(2)] fld [OF Message_fields(3)] fld [OF Message_fields(4)] fld [OF Message_fields(5)] 
    by (simp only: prod.case Message_zero_def Message.select_convs simp_thms)
qed

lemma Message_decodesD:
  assumes "Message_decodes ord m strct"
  shows "dom m \<subseteq> set Message_keys"
    and "field_ok (json_Unmarshal_slice json_Unmarshal_string) (m ''arguments'') None (Message.Arguments strct)"
    and "field_ok json_Unmarshal_string (m ''id'') [] (Message.Id strct)"
    and "field_ok json_Unmarshal_string (m ''markdown'') [] (Message.Markdown strct)"
    and "field_ok (json_Unmarshal_ptr (PropertyBag_UnmarshalJSON ord)) (m ''properties'') None (Message.Properties strct)"
    and "field_ok json_Unmarshal_string (m ''text'') [] (Message.Text strct)"
  using assms unfolding Message_decodes_def by - (elim conjE, assumption)+

lemma Message_decodes_unique:
  assumes "Message_decodes ord m a" and "Message_decodes ord m b"
  shows "a = b"
  apply (rule Message.equality)
  apply (rule field_ok_unique [OF Message_decodesD(2) [OF assms(1)] Message_decodesD(2) [OF assms(2)]])
  apply (rule field_ok_unique [OF Message_decodesD(3) [OF assms(1)] Message_decodesD(3) [OF assms(2)]])
  apply (rule field_ok_unique [OF Message_decodesD(4) [OF assms(1)] Message_decodesD(4) [OF assms(2)]])
  apply (rule field_ok_unique [OF Message_decodesD(5) [OF assms(1)] Message_decodesD(5) [OF assms(2)]])
  apply (rule field_ok_unique [OF Message_decodesD(6) [OF assms(1)] Message_decodesD(6) [OF assms(2)]])
  apply simp
  done

lemma Message_accepts:
  assumes "Message_decodes ord m strct" and "m k = Some v"
  shows "accepting (switch k (Message_cases ord v) (reject k))"
proof -
  from assms have "k \<in> set Message_keys" by (auto simp: Message_decodes_def)
  then have key: "k \<in> fst ` set (Message_cases ord v)"
    by (simp only: Message_cases_keys)
  have rows: "list_all (\<lambda>(c, h). m c = Some v \<longrightarrow> accepting h) (Message_cases ord v)"
    unfolding Message_cases_def list.pred_inject
    apply (rule conjI [OF accept_row [where m = m and v = v, OF Message_decodesD(2) [OF assms(1)]]])
    apply (rule conjI [OF accept_row [where m = m and v = v, OF Message_decodesD(3) [OF assms(1)]]])
    apply (rule conjI [OF accept_row [where m = m and v = v, OF Message_decodesD(4) [OF assms(1)]]])
    apply (rule conjI [OF accept_row [where m = m and v = v, OF Message_decodesD(5) [OF assms(1)]]])
    apply (rule conjI [OF accept_row [where m = m and v = v, OF Message_decodesD(6) [OF assms(1)]]])
    apply simp
    done
  show ?thesis by (rule rows_accept [OF rows assms(2) key])
qed

lemma Message_decode_iff:
  "Message_UnmarshalJSON ord (JObj kvs) = Inr strct \<longleftrightarrow>
   Message_decodes ord (map_of (rev kvs)) strct"
proof
  assume "Message_UnmarshalJSON ord (JObj kvs) = Inr strct"
  then have loop: "range_loop (\<lambda>k v. switch k (Message_cases ord v) (reject k)) (members ord kvs) Message_zero = Inr strct"
    by (auto simp: Message_UnmarshalJSON_def members_def split: sum.splits)
  from Message_loop_sound [OF loop]
  show "Message_decodes ord (map_of (rev kvs)) strct"
    by (simp add: Message_decodes_def)
next
  assume d: "Message_decodes ord (map_of (rev kvs)) strct"
  have "\<exists>t. range_loop (\<lambda>k v. switch k (Message_cases ord v) (reject k)) (members ord kvs) Message_zero = Inr t"
  proof (rule loop_succeeds [OF Message_regular])
    fix k v assume "(k, v) \<in> set (members ord kvs)"
    then have "map_of (rev kvs) k = Some v" by (rule member_lookup)
    from Message_accepts [OF d this]
    show "accepting (switch k (Message_cases ord v) (reject k))" .
  qed
  then obtain strct' where
    loop: "range_loop (\<lambda>k v. switch k (Message_cases ord v) (reject k)) (members ord kvs) Message_zero = Inr strct'" ..
  from Message_loop_sound [OF loop]
  have d': "Message_decodes ord (map_of (rev kvs)) strct'"
    by (simp add: Message_decodes_def)
  from Message_decodes_unique [OF d' d] have "strct' = strct" .
  with loop show "Message_UnmarshalJSON ord (JObj kvs) = Inr strct"
    by (simp add: Message_UnmarshalJSON_def members_def)
qed

definition Message_results :: "scanner \<Rightarrow> order \<Rightarrow> Message \<Rightarrow> (string \<times> (error + json)) list" where
  "Message_results scn ord strct =
     [(''arguments'', json_Marshal_slice json_Marshal_string (Message.Arguments strct)),
      (''id'', json_Marshal_string (Message.Id strct)),
      (''markdown'', json_Marshal_string (Message.Markdown strct)),
      (''properties'', json_Marshal_bytes ''*sarif.PropertyBag'' (PropertyBag_MarshalJSON scn ord) (Message.Properties strct)),
      (''text'', json_Marshal_string (Message.Text strct))]"

lemma Message_MarshalJSON_results:
  "Message_MarshalJSON scn ord strct = object (emit_all (Message_results scn ord strct))"
  by (simp add: Message_MarshalJSON_def Message_results_def emit_nilcheck)

lemma Message_keys_written:
  "Message_MarshalJSON scn ord strct = Inr j \<Longrightarrow> \<exists>kvs. j = JObj kvs \<and> map fst kvs = Message_keys"
  using keys_written [of "Message_results scn ord strct" j]
  by (simp add: Message_MarshalJSON_results Message_results_def Message_keys_def)

definition Message_encodable :: "scanner \<Rightarrow> order \<Rightarrow> Message \<Rightarrow> bool" where
  "Message_encodable scn ord strct \<longleftrightarrow>
     ptr_all (PropertyBag_encodable scn ord) (Message.Properties strct)"

lemma Message_fails_unless: "fails_unless (Message_MarshalJSON scn ord) (Message_encodable scn ord)"
  unfolding fails_unless_def Message_MarshalJSON_results Message_results_def Message_encodable_def isl_object_emit_all
  by (auto simp add: always_simps
      fails_unlessD [OF fails_unless_slice [OF fails_unless_string]]
      fails_unlessD [OF fails_unless_string]
      fails_unlessD [OF PropertyBag_field_fails_unless])

definition Message_valid :: "Message \<Rightarrow> bool" where
  "Message_valid strct \<longleftrightarrow>
     ptr_all PropertyBag_valid (Message.Properties strct)"

lemma Message_keys_distinct: "distinct Message_keys"
  by (simp add: Message_keys_def)

lemma Message_round_trips:
  "round_trips_object (Message_MarshalJSON scn ord) (Message_UnmarshalJSON ord') Message_valid"
  unfolding round_trips_object_def
proof (intro allI impI)
  fix strct assume v: "Message_valid strct"
  note v' = v [unfolded Message_valid_def]
  let ?rs = "Message_results scn ord strct"
  let ?kvs = "map (\<lambda>e. (fst e, projr (snd e))) ?rs"
  have f0: "\<not> isl (json_Marshal_slice json_Marshal_string (Message.Arguments strct)) \<and>
      json_Unmarshal_slice json_Unmarshal_string (projr (json_Marshal_slice json_Marshal_string (Message.Arguments strct))) = Inr (Message.Arguments strct)"
    by (rule round_tripsD [OF round_trips_slice [OF round_trips_string]]) (use v' in simp)
  have f1: "\<not> isl (json_Marshal_string (Message.Id strct)) \<and>
      json_Unmarshal_string (projr (json_Marshal_string (Message.Id strct))) = Inr (Message.Id strct)"
    by (rule round_tripsD [OF round_trips_string]) (use v' in simp)
  have f2: "\<not> isl (json_Marshal_string (Message.Markdown strct)) \<and>
      json_Unmarshal_string (projr (json_Marshal_string (Message.Markdown strct))) = Inr (Message.Markdown strct)"
    by (rule round_tripsD [OF round_trips_string]) (use v' in simp)
  have f3: "\<not> isl (json_Marshal_bytes ''*sarif.PropertyBag'' (PropertyBag_MarshalJSON scn ord) (Message.Properties strct)) \<and>
      json_Unmarshal_ptr (PropertyBag_UnmarshalJSON ord') (projr (json_Marshal_bytes ''*sarif.PropertyBag'' (PropertyBag_MarshalJSON scn ord) (Message.Properties strct))) = Inr (Message.Properties strct)"
    by (rule round_tripsD [OF PropertyBag_field_round_trips]) (use v' in simp)
  have f4: "\<not> isl (json_Marshal_string (Message.Text strct)) \<and>
      json_Unmarshal_string (projr (json_Marshal_string (Message.Text strct))) = Inr (Message.Text strct)"
    by (rule round_tripsD [OF round_trips_string]) (use v' in simp)
  note fs = f0 f1 f2 f3 f4
  have rs: "?rs =
     [(''arguments'', json_Marshal_slice json_Marshal_string (Message.Arguments strct)),
      (''id'', json_Marshal_string (Message.Id strct)),
      (''markdown'', json_Marshal_string (Message.Markdown strct)),
      (''properties'', json_Marshal_bytes ''*sarif.PropertyBag'' (PropertyBag_MarshalJSON scn ord) (Message.Properties strct)),
      (''text'', json_Marshal_string (Message.Text strct))]"
    by (auto simp add: Message_results_def)
  have keys: "map fst ?rs = Message_keys"
    by (simp add: Message_results_def Message_keys_def)
  then have dist: "distinct (map fst ?rs)"
    by (simp only: Message_keys_distinct)
  have ok: "list_all (\<lambda>e. \<not> isl (snd e)) ?rs"
    unfolding rs by (simp only: list.pred_inject snd_conv fs simp_thms)
  then have enc: "Message_MarshalJSON scn ord strct = Inr (JObj ?kvs)"
    by (simp add: Message_MarshalJSON_results [of scn ord strct] object_emit_all_eq_Inr)
  have l0: "map_of (rev ?kvs) ''arguments'' = Some (projr (json_Marshal_slice json_Marshal_string (Message.Arguments strct)))"
    by (rule written_lookup [OF dist]) (subst rs, intro list.set_intros)
  have l1: "map_of (rev ?kvs) ''id'' = Some (projr (json_Marshal_string (Message.Id strct)))"
    by (rule written_lookup [OF dist]) (subst rs, intro list.set_intros)
  have l2: "map_of (rev ?kvs) ''markdown'' = Some (projr (json_Marshal_string (Message.Markdown strct)))"
    by (rule written_lookup [OF dist]) (subst rs, intro list.set_intros)
  have l3: "map_of (rev ?kvs) ''properties'' = Some (projr (json_Marshal_bytes ''*sarif.PropertyBag'' (PropertyBag_MarshalJSON scn ord) (Message.Properties strct)))"
    by (rule written_lookup [OF dist]) (subst rs, intro list.set_intros)
  have l4: "map_of (rev ?kvs) ''text'' = Some (projr (json_Marshal_string (Message.Text strct)))"
    by (rule written_lookup [OF dist]) (subst rs, intro list.set_intros)
  have dec: "Message_decodes ord' (map_of (rev ?kvs)) strct"
    unfolding Message_decodes_def l0 l1 l2 l3 l4
    by (simp only: field_ok_Some fs written_dom keys subset_refl option.simps simp_thms)
  then have "Message_UnmarshalJSON ord' (JObj ?kvs) = Inr strct"
    by (simp only: Message_decode_iff)
  with enc show "rt_object (Message_MarshalJSON scn ord) (Message_UnmarshalJSON ord') strct"
    unfolding rt_object_def by blast
qed

definition Message_small_bags :: "Message \<Rightarrow> bool" where
  "Message_small_bags strct \<longleftrightarrow>
     ptr_all PropertyBag_small_bags (Message.Properties strct)"

lemma Message_same_output:
  "same_output (Message_MarshalJSON scn ord) (Message_MarshalJSON scn ord') Message_small_bags"
  unfolding same_output_def
proof (intro allI impI)
  fix strct assume v: "Message_small_bags strct"
  note v' = v [unfolded Message_small_bags_def]
  have e3: "json_Marshal_bytes ''*sarif.PropertyBag'' (PropertyBag_MarshalJSON scn ord) (Message.Properties strct) =
      json_Marshal_bytes ''*sarif.PropertyBag'' (PropertyBag_MarshalJSON scn ord') (Message.Properties strct)"
    by (rule same_outputD [OF PropertyBag_field_same_output]) (use v' in simp)
  show "Message_MarshalJSON scn ord strct = Message_MarshalJSON scn ord' strct"
    by (simp only: Message_MarshalJSON_def e3)
qed

lemma Message_writes_keys: "writes_keys (Message_MarshalJSON scn ord) Message_keys"
  unfolding writes_keys_def by (intro allI impI) (erule Message_keys_written)

lemma Message_unknown_key:
  assumes new: "k \<notin> set Message_keys" and key: "k \<in> fst ` set kvs"
    and rest: "Message_UnmarshalJSON ord (JObj (filter (\<lambda>e. fst e \<noteq> k) kvs)) = Inr strct"
  shows "Message_UnmarshalJSON ord (JObj kvs) = Inl (not_allowed k)"
proof -
  have rej: "switch k (Message_cases ord v) (reject k) s = Inl (not_allowed k)" for v s
    by (rule switch_rejects) (simp only: Message_cases_keys new not_False_eq_True)
  from rest obtain t where
    "range_loop (\<lambda>k v. switch k (Message_cases ord v) (reject k)) (members ord (filter (\<lambda>e. fst e \<noteq> k) kvs)) Message_zero = Inr t"
    by (cases "range_loop (\<lambda>k v. switch k (Message_cases ord v) (reject k)) (members ord (filter (\<lambda>e. fst e \<noteq> k) kvs)) Message_zero")
       (simp_all add: Message_UnmarshalJSON_def members_def)
  from unknown_key_named [OF Message_regular rej key this]
  show ?thesis by (simp add: Message_UnmarshalJSON_def members_def)
qed

lemma Message_unknown_key_fails:
  assumes "k \<notin> set Message_keys" and "k \<in> fst ` set kvs"
  shows "isl (Message_UnmarshalJSON ord (JObj kvs))"
proof (cases "Message_UnmarshalJSON ord (JObj kvs)")
  case (Inr strct)
  then have "dom (map_of (rev kvs)) \<subseteq> set Message_keys"
    by (simp only: Message_decode_iff Message_decodesD(1))
  with assms show ?thesis by (auto simp: dom_map_of_conv_image_fst)
qed simp

lemma Message_rejects_unknown_keys: "rejects_unknown_keys (Message_UnmarshalJSON ord) Message_keys"
  by (rule rejects_unknown_keysI) (erule (1) Message_unknown_key_fails, erule (2) Message_unknown_key)

subsection \<open>ArtifactLocation: decoding and encoding\<close>

definition ArtifactLocation_keys :: "string list" where
  "ArtifactLocation_keys = [''description'', ''index'', ''properties'', ''uri'', ''uriBaseId'']"

definition ArtifactLocation_decodes :: "order \<Rightarrow> (string \<rightharpoonup> json) \<Rightarrow> ArtifactLocation \<Rightarrow> bool" where
  "ArtifactLocation_decodes ord m strct \<longleftrightarrow>
     dom m \<subseteq> set ArtifactLocation_keys \<and>
     field_ok (json_Unmarshal_ptr (Message_UnmarshalJSON ord)) (m ''description'') None (ArtifactLocation.Description strct) \<and>
     field_ok json_Unmarshal_int (m ''index'') 0 (ArtifactLocation.Index strct) \<and>
     field_ok (json_Unmarshal_ptr (PropertyBag_UnmarshalJSON ord)) (m ''properties'') None (ArtifactLocation.Properties strct) \<and>
     field_ok json_Unmarshal_string (m ''uri'') [] (ArtifactLocation.Uri strct) \<and>
     field_ok json_Unmarshal_string (m ''uriBaseId'') [] (ArtifactLocation.UriBaseId strct)"

lemma ArtifactLocation_cases_keys: "fst ` set (ArtifactLocation_cases ord v) = set ArtifactLocation_keys"
  by (rule keys_image) (simp add: ArtifactLocation_cases_def ArtifactLocation_keys_def)

lemma ArtifactLocation_regular: "regular (\<lambda>k v. switch k (ArtifactLocation_cases ord v) (reject k))"
  by (rule regular_switch) (simp add: ArtifactLocation_cases_def)

lemma ArtifactLocation_fields:
  "field_case (ArtifactLocation_cases ord) ArtifactLocation.Description ''description'' (json_Unmarshal_ptr (Message_UnmarshalJSON ord))"
  "field_case (ArtifactLocation_cases ord) ArtifactLocation.Index ''index'' json_Unmarshal_int"
  "field_case (ArtifactLocation_cases ord) ArtifactLocation.Properties ''properties'' (json_Unmarshal_ptr (PropertyBag_UnmarshalJSON ord))"
  "field_case (ArtifactLocation_cases ord) ArtifactLocation.Uri ''uri'' json_Unmarshal_string"
  "field_case (ArtifactLocation_cases ord) ArtifactLocation.UriBaseId ''uriBaseId'' json_Unmarshal_string"
  unfolding field_case_def ArtifactLocation_cases_def
  by (simp_all add: writes_into writes_received keeps_into split_def)

lemma ArtifactLocation_loop_sound:
  assumes loop: "range_loop (\<lambda>k v. switch k (ArtifactLocation_cases ord v) (reject k)) (members ord kvs) ArtifactLocation_zero = Inr strct"
  shows "dom (map_of (rev kvs)) \<subseteq> set ArtifactLocation_keys \<and>
     field_ok (json_Unmarshal_ptr (Message_UnmarshalJSON ord)) (map_of (rev kvs) ''description'') None (ArtifactLocation.Description strct) \<and>
     field_ok json_Unmarshal_int (map_of (rev kvs) ''index'') 0 (ArtifactLocation.Index strct) \<and>
     field_ok (json_Unmarshal_ptr (PropertyBag_UnmarshalJSON ord)) (map_of (rev kvs) ''properties'') None (ArtifactLocation.Properties strct) \<and>
     field_ok json_Unmarshal_string (map_of (rev kvs) ''uri'') [] (ArtifactLocation.Uri strct) \<and>
     field_ok json_Unmarshal_string (map_of (rev kvs) ''uriBaseId'') [] (ArtifactLocation.UriBaseId strct)"
proof -
  have "fst ` set (members ord kvs) \<subseteq> set ArtifactLocation_keys"
    by (rule loop_keys_known [OF loop]) (rule ArtifactLocation_cases_keys)
  then have keys: "dom (map_of (rev kvs)) \<subseteq> set ArtifactLocation_keys"
    by (simp add: dom_members [of kvs ord])
  note fld = field_after_loop [OF _ members_distinct loop, unfolded map_of_members]
  show ?thesis
    using keys fld [OF ArtifactLocation_fields(1)] fld [OF ArtifactLocation_fields(2)] fld [OF ArtifactLocation_fields(3)] fld [OF ArtifactLocation_fields(4)] fld [OF ArtifactLocation_fields(5)] 
    by (simp only: prod.case ArtifactLocation_zero_def ArtifactLocation.select_convs simp_thms)
qed

lemma ArtifactLocation_decodesD:
  assumes "ArtifactLocation_decodes ord m strct"
  shows "dom m \<subseteq> set ArtifactLocation_keys"
    and "field_ok (json_Unmarshal_ptr (Message_UnmarshalJSON ord)) (m ''description'') None (ArtifactLocation.Description strct)"
    and "field_ok json_Unmarshal_int (m ''index'') 0 (ArtifactLocation.Index strct)"
    and "field_ok (json_Unmarshal_ptr (PropertyBag_UnmarshalJSON ord)) (m ''properties'') None (ArtifactLocation.Properties strct)"
    and "field_ok json_Unmarshal_string (m ''uri'') [] (ArtifactLocation.Uri strct)"
    and "field_ok json_Unmarshal_string (m ''uriBaseId'') [] (ArtifactLocation.UriBaseId strct)"
  using assms unfolding ArtifactLocation_decodes_def by - (elim conjE, assumption)+

lemma ArtifactLocation_decodes_unique:
  assumes "ArtifactLocation_decodes ord m a" and "ArtifactLocation_decodes ord m b"
  shows "a = b"
  apply (rule ArtifactLocation.equality)
  apply (rule field_ok_unique [OF ArtifactLocation_decodesD(2) [OF assms(1)] ArtifactLocation_decodesD(2) [OF assms(2)]])
  apply (rule field_ok_unique [OF ArtifactLocation_decodesD(3) [OF assms(1)] ArtifactLocation_decodesD(3) [OF assms(2)]])
  apply (rule field_ok_unique [OF ArtifactLocation_decodesD(4) [OF assms(1)] ArtifactLocation_decodesD(4) [OF assms(2)]])
  apply (rule field_ok_unique [OF ArtifactLocation_decodesD(5) [OF assms(1)] ArtifactLocation_decodesD(5) [OF assms(2)]])
  apply (rule field_ok_unique [OF ArtifactLocation_decodesD(6) [OF assms(1)] ArtifactLocation_decodesD(6) [OF assms(2)]])
  apply simp
  done

lemma ArtifactLocation_accepts:
  assumes "ArtifactLocation_decodes ord m strct" and "m k = Some v"
  shows "accepting (switch k (ArtifactLocation_cases ord v) (reject k))"
proof -
  from assms have "k \<in> set ArtifactLocation_keys" by (auto simp: ArtifactLocation_decodes_def)
  then have key: "k \<in> fst ` set (ArtifactLocation_cases ord v)"
    by (simp only: ArtifactLocation_cases_keys)
  have rows: "list_all (\<lambda>(c, h). m c = Some v \<longrightarrow> accepting h) (ArtifactLocation_cases ord v)"
    unfolding ArtifactLocation_cases_def list.pred_inject
    apply (rule conjI [OF accept_row [where m = m and v = v, OF ArtifactLocation_decodesD(2) [OF assms(1)]]])
    apply (rule conjI [OF accept_row [where m = m and v = v, OF ArtifactLocation_decodesD(3) [OF assms(1)]]])
    apply (rule conjI [OF accept_row [where m = m and v = v, OF ArtifactLocation_decodesD(4) [OF assms(1)]]])
    apply (rule conjI [OF accept_row [where m = m and v = v, OF ArtifactLocation_decodesD(5) [OF assms(1)]]])
    apply (rule conjI [OF accept_row [where m = m and v = v, OF ArtifactLocation_decodesD(6) [OF assms(1)]]])
    apply simp
    done
  show ?thesis by (rule rows_accept [OF rows assms(2) key])
qed

lemma ArtifactLocation_decode_iff:
  "ArtifactLocation_UnmarshalJSON ord (JObj kvs) = Inr strct \<longleftrightarrow>
   ArtifactLocation_decodes ord (map_of (rev kvs)) strct"
proof
  assume "ArtifactLocation_UnmarshalJSON ord (JObj kvs) = Inr strct"
  then have loop: "range_loop (\<lambda>k v. switch k (ArtifactLocation_cases ord v) (reject k)) (members ord kvs) ArtifactLocation_zero = Inr strct"
    by (auto simp: ArtifactLocation_UnmarshalJSON_def members_def split: sum.splits)
  from ArtifactLocation_loop_sound [OF loop]
  show "ArtifactLocation_decodes ord (map_of (rev kvs)) strct"
    by (simp add: ArtifactLocation_decodes_def)
next
  assume d: "ArtifactLocation_decodes ord (map_of (rev kvs)) strct"
  have "\<exists>t. range_loop (\<lambda>k v. switch k (ArtifactLocation_cases ord v) (reject k)) (members ord kvs) ArtifactLocation_zero = Inr t"
  proof (rule loop_succeeds [OF ArtifactLocation_regular])
    fix k v assume "(k, v) \<in> set (members ord kvs)"
    then have "map_of (rev kvs) k = Some v" by (rule member_lookup)
    from ArtifactLocation_accepts [OF d this]
    show "accepting (switch k (ArtifactLocation_cases ord v) (reject k))" .
  qed
  then obtain strct' where
    loop: "range_loop (\<lambda>k v. switch k (ArtifactLocation_cases ord v) (reject k)) (members ord kvs) ArtifactLocation_zero = Inr strct'" ..
  from ArtifactLocation_loop_sound [OF loop]
  have d': "ArtifactLocation_decodes ord (map_of (rev kvs)) strct'"
    by (simp add: ArtifactLocation_decodes_def)
  from ArtifactLocation_decodes_unique [OF d' d] have "strct' = strct" .
  with loop show "ArtifactLocation_UnmarshalJSON ord (JObj kvs) = Inr strct"
    by (simp add: ArtifactLocation_UnmarshalJSON_def members_def)
qed

definition ArtifactLocation_results :: "scanner \<Rightarrow> order \<Rightarrow> ArtifactLocation \<Rightarrow> (string \<times> (error + json)) list" where
  "ArtifactLocation_results scn ord strct =
     [(''description'', json_Marshal_ptr ''*sarif.Message'' (Message_MarshalJSON scn ord) (ArtifactLocation.Description strct)),
      (''index'', json_Marshal_int (ArtifactLocation.Index strct)),
      (''properties'', json_Marshal_bytes ''*sarif.PropertyBag'' (PropertyBag_MarshalJSON scn ord) (ArtifactLocation.Properties strct)),
      (''uri'', json_Marshal_string (ArtifactLocation.Uri strct)),
      (''uriBaseId'', json_Marshal_string (ArtifactLocation.UriBaseId strct))]"

lemma ArtifactLocation_MarshalJSON_results:
  "ArtifactLocation_MarshalJSON scn ord strct = object (emit_all (ArtifactLocation_results scn ord strct))"
  by (simp add: ArtifactLocation_MarshalJSON_def ArtifactLocation_results_def emit_nilcheck)

lemma ArtifactLocation_keys_written:
  "ArtifactLocation_MarshalJSON scn ord strct = Inr j \<Longrightarrow> \<exists>kvs. j = JObj kvs \<and> map fst kvs = ArtifactLocation_keys"
  using keys_written [of "ArtifactLocation_results scn ord strct" j]
  by (simp add: ArtifactLocation_MarshalJSON_results ArtifactLocation_results_def ArtifactLocation_keys_def)

definition ArtifactLocation_encodable :: "scanner \<Rightarrow> order \<Rightarrow> ArtifactLocation \<Rightarrow> bool" where
  "ArtifactLocation_encodable scn ord strct \<longleftrightarrow>
     ptr_all (Message_encodable scn ord) (ArtifactLocation.Description strct) \<and>
     ptr_all (PropertyBag_encodable scn ord) (ArtifactLocation.Properties strct)"

lemma ArtifactLocation_fails_unless: "fails_unless (ArtifactLocation_MarshalJSON scn ord) (ArtifactLocation_encodable scn ord)"
  unfolding fails_unless_def ArtifactLocation_MarshalJSON_results ArtifactLocation_results_def ArtifactLocation_encodable_def isl_object_emit_all
  by (auto simp add: always_simps
      fails_unlessD [OF fails_unless_ptr [OF Message_fails_unless]]
      fails_unlessD [OF fails_unless_int]
      fails_unlessD [OF PropertyBag_field_fails_unless]
      fails_unlessD [OF fails_unless_string])

definition ArtifactLocation_valid :: "ArtifactLocation \<Rightarrow> bool" where
  "ArtifactLocation_valid strct \<longleftrightarrow>
     ptr_all Message_valid (ArtifactLocation.Description strct) \<and>
     ptr_all PropertyBag_valid (ArtifactLocation.Properties strct)"

lemma ArtifactLocation_keys_distinct: "distinct ArtifactLocation_keys"
  by (simp add: ArtifactLocation_keys_def)

lemma ArtifactLocation_round_trips:
  "round_trips_object (ArtifactLocation_MarshalJSON scn ord) (ArtifactLocation_UnmarshalJSON ord') ArtifactLocation_valid"
  unfolding round_trips_object_def
proof (intro allI impI)
  fix strct assume v: "ArtifactLocation_valid strct"
  note v' = v [unfolded ArtifactLocation_valid_def]
  let ?rs = "ArtifactLocation_results scn ord strct"
  let ?kvs = "map (\<lambda>e. (fst e, projr (snd e))) ?rs"
  have f0: "\<not> isl (json_Marshal_ptr ''*sarif.Message'' (Message_MarshalJSON scn ord) (ArtifactLocation.Description strct)) \<and>
      json_Unmarshal_ptr (Message_UnmarshalJSON ord') (projr (json_Marshal_ptr ''*sarif.Message'' (Message_MarshalJSON scn ord) (ArtifactLocation.Description strct))) = Inr (ArtifactLocation.Description strct)"
    by (rule round_tripsD [OF round_trips_ptr [OF Message_round_trips]]) (use v' in simp)
  have f1: "\<not> isl (json_Marshal_int (ArtifactLocation.Index strct)) \<and>
      json_Unmarshal_int (projr (json_Marshal_int (ArtifactLocation.Index strct))) = Inr (ArtifactLocation.Index strct)"
    by (rule round_tripsD [OF round_trips_int]) (use v' in simp)
  have f2: "\<not> isl (json_Marshal_bytes ''*sarif.PropertyBag'' (PropertyBag_MarshalJSON scn ord) (ArtifactLocation.Properties strct)) \<and>
      json_Unmarshal_ptr (PropertyBag_UnmarshalJSON ord') (projr (json_Marshal_bytes ''*sarif.PropertyBag'' (PropertyBag_MarshalJSON scn ord) (ArtifactLocation.Properties strct))) = Inr (ArtifactLocation.Properties strct)"
    by (rule round_tripsD [OF PropertyBag_field_round_trips]) (use v' in simp)
  have f3: "\<not> isl (json_Marshal_string (ArtifactLocation.Uri strct)) \<and>
      json_Unmarshal_string (projr (json_Marshal_string (ArtifactLocation.Uri strct))) = Inr (ArtifactLocation.Uri strct)"
    by (rule round_tripsD [OF round_trips_string]) (use v' in simp)
  have f4: "\<not> isl (json_Marshal_string (ArtifactLocation.UriBaseId strct)) \<and>
      json_Unmarshal_string (projr (json_Marshal_string (ArtifactLocation.UriBaseId strct))) = Inr (ArtifactLocation.UriBaseId strct)"
    by (rule round_tripsD [OF round_trips_string]) (use v' in simp)
  note fs = f0 f1 f2 f3 f4
  have rs: "?rs =
     [(''description'', json_Marshal_ptr ''*sarif.Message'' (Message_MarshalJSON scn ord) (ArtifactLocation.Description strct)),
      (''index'', json_Marshal_int (ArtifactLocation.Index strct)),
      (''properties'', json_Marshal_bytes ''*sarif.PropertyBag'' (PropertyBag_MarshalJSON scn ord) (ArtifactLocation.Properties strct)),
      (''uri'', json_Marshal_string (ArtifactLocation.Uri strct)),
      (''uriBaseId'', json_Marshal_string (ArtifactLocation.UriBaseId strct))]"
    by (auto simp add: ArtifactLocation_results_def)
  have keys: "map fst ?rs = ArtifactLocation_keys"
    by (simp add: ArtifactLocation_results_def ArtifactLocation_keys_def)
  then have dist: "distinct (map fst ?rs)"
    by (simp only: ArtifactLocation_keys_distinct)
  have ok: "list_all (\<lambda>e. \<not> isl (snd e)) ?rs"
    unfolding rs by (simp only: list.pred_inject snd_conv fs simp_thms)
  then have enc: "ArtifactLocation_MarshalJSON scn ord strct = Inr (JObj ?kvs)"
    by (simp add: ArtifactLocation_MarshalJSON_results [of scn ord strct] object_emit_all_eq_Inr)
  have l0: "map_of (rev ?kvs) ''description'' = Some (projr (json_Marshal_ptr ''*sarif.Message'' (Message_MarshalJSON scn ord) (ArtifactLocation.Description strct)))"
    by (rule written_lookup [OF dist]) (subst rs, intro list.set_intros)
  have l1: "map_of (rev ?kvs) ''index'' = Some (projr (json_Marshal_int (ArtifactLocation.Index strct)))"
    by (rule written_lookup [OF dist]) (subst rs, intro list.set_intros)
  have l2: "map_of (rev ?kvs) ''properties'' = Some (projr (json_Marshal_bytes ''*sarif.PropertyBag'' (PropertyBag_MarshalJSON scn ord) (ArtifactLocation.Properties strct)))"
    by (rule written_lookup [OF dist]) (subst rs, intro list.set_intros)
  have l3: "map_of (rev ?kvs) ''uri'' = Some (projr (json_Marshal_string (ArtifactLocation.Uri strct)))"
    by (rule written_lookup [OF dist]) (subst rs, intro list.set_intros)
  have l4: "map_of (rev ?kvs) ''uriBaseId'' = Some (projr (json_Marshal_string (ArtifactLocation.UriBaseId strct)))"
    by (rule written_lookup [OF dist]) (subst rs, intro list.set_intros)
  have dec: "ArtifactLocation_decodes ord' (map_of (rev ?kvs)) strct"
    unfolding ArtifactLocation_decodes_def l0 l1 l2 l3 l4
    by (simp only: field_ok_Some fs written_dom keys subset_refl option.simps simp_thms)
  then have "ArtifactLocation_UnmarshalJSON ord' (JObj ?kvs) = Inr strct"
    by (simp only: ArtifactLocation_decode_iff)
  with enc show "rt_object (ArtifactLocation_MarshalJSON scn ord) (ArtifactLocation_UnmarshalJSON ord') strct"
    unfolding rt_object_def by blast
qed

definition ArtifactLocation_small_bags :: "ArtifactLocation \<Rightarrow> bool" where
  "ArtifactLocation_small_bags strct \<longleftrightarrow>
     ptr_all Message_small_bags (ArtifactLocation.Description strct) \<and>
     ptr_all PropertyBag_small_bags (ArtifactLocation.Properties strct)"

lemma ArtifactLocation_same_output:
  "same_output (ArtifactLocation_MarshalJSON scn ord) (ArtifactLocation_MarshalJSON scn ord') ArtifactLocation_small_bags"
  unfolding same_output_def
proof (intro allI impI)
  fix strct assume v: "ArtifactLocation_small_bags strct"
  note v' = v [unfolded ArtifactLocation_small_bags_def]
  have e0: "json_Marshal_ptr ''*sarif.Message'' (Message_MarshalJSON scn ord) (ArtifactLocation.Description strct) =
      json_Marshal_ptr ''*sarif.Message'' (Message_MarshalJSON scn ord') (ArtifactLocation.Description strct)"
    by (rule same_outputD [OF same_output_ptr [OF Message_same_output]]) (use v' in simp)
  have e2: "json_Marshal_bytes ''*sarif.PropertyBag'' (PropertyBag_MarshalJSON scn ord) (ArtifactLocation.Properties strct) =
      json_Marshal_bytes ''*sarif.PropertyBag'' (PropertyBag_MarshalJSON scn ord') (ArtifactLocation.Properties strct)"
    by (rule same_outputD [OF PropertyBag_field_same_output]) (use v' in simp)
  show "ArtifactLocation_MarshalJSON scn ord strct = ArtifactLocation_MarshalJSON scn ord' strct"
    by (simp only: ArtifactLocation_MarshalJSON_def e0 e2)
qed

lemma ArtifactLocation_writes_keys: "writes_keys (ArtifactLocation_MarshalJSON scn ord) ArtifactLocation_keys"
  unfolding writes_keys_def by (intro allI impI) (erule ArtifactLocation_keys_written)

lemma ArtifactLocation_unknown_key:
  assumes new: "k \<notin> set ArtifactLocation_keys" and key: "k \<in> fst ` set kvs"
    and rest: "ArtifactLocation_UnmarshalJSON ord (JObj (filter (\<lambda>e. fst e \<noteq> k) kvs)) = Inr strct"
  shows "ArtifactLocation_UnmarshalJSON ord (JObj kvs) = Inl (not_allowed k)"
proof -
  have rej: "switch k (ArtifactLocation_cases ord v) (reject k) s = Inl (not_allowed k)" for v s
    by (rule switch_rejects) (simp only: ArtifactLocation_cases_keys new not_False_eq_True)
  from rest obtain t where
    "range_loop (\<lambda>k v. switch k (ArtifactLocation_cases ord v) (reject k)) (members ord (filter (\<lambda>e. fst e \<noteq> k) kvs)) ArtifactLocation_zero = Inr t"
    by (cases "range_loop (\<lambda>k v. switch k (ArtifactLocation_cases ord v) (reject k)) (members ord (filter (\<lambda>e. fst e \<noteq> k) kvs)) ArtifactLocation_zero")
       (simp_all add: ArtifactLocation_UnmarshalJSON_def members_def)
  from unknown_key_named [OF ArtifactLocation_regular rej key this]
  show ?thesis by (simp add: ArtifactLocation_UnmarshalJSON_def members_def)
qed

lemma ArtifactLocation_unknown_key_fails:
  assumes "k \<notin> set ArtifactLocation_keys" and "k \<in> fst ` set kvs"
  shows "isl (ArtifactLocation_UnmarshalJSON ord (JObj kvs))"
proof (cases "ArtifactLocation_UnmarshalJSON ord (JObj kvs)")
  case (Inr strct)
  then have "dom (map_of (rev kvs)) \<subseteq> set ArtifactLocation_keys"
    by (simp only: ArtifactLocation_decode_iff ArtifactLocation_decodesD(1))
  with assms show ?thesis by (auto simp: dom_map_of_conv_image_fst)
qed simp

lemma ArtifactLocation_rejects_unknown_keys: "rejects_unknown_keys (ArtifactLocation_UnmarshalJSON ord) ArtifactLocation_keys"
  by (rule rejects_unknown_keysI) (erule (1) ArtifactLocation_unknown_key_fails, erule (2) ArtifactLocation_unknown_key)

subsection \<open>MultiformatMessageString: decoding and encoding\<close>

definition MultiformatMessageString_keys :: "string list" where
  "MultiformatMessageString_keys = [''markdown'', ''properties'', ''text'']"

definition MultiformatMessageString_decodes :: "order \<Rightarrow> (string \<rightharpoonup> json) \<Rightarrow> MultiformatMessageString \<Rightarrow> bool" where
  "MultiformatMessageString_decodes ord m strct \<longleftrightarrow>
     dom m \<subseteq> set MultiformatMessageString_keys \<and>
     field_ok json_Unmarshal_string (m ''markdown'') [] (MultiformatMessageString.Markdown strct) \<and>
     field_ok (json_Unmarshal_ptr (PropertyBag_UnmarshalJSON ord)) (m ''properties'') None (MultiformatMessageString.Properties strct) \<and>
     field_ok json_Unmarshal_string (m ''text'') [] (MultiformatMessageString.Text strct) \<and>
     m ''text'' \<noteq> None"

lemma MultiformatMessageString_cases_keys: "fst ` set (MultiformatMessageString_cases ord v) = set MultiformatMessageString_keys"
  by (rule keys_image) (simp add: MultiformatMessageString_cases_def MultiformatMessageString_keys_def)

lemma MultiformatMessageString_regular: "regular (\<lambda>k v. switch k (MultiformatMessageString_cases ord v) (reject k))"
  by (rule regular_switch) (simp add: MultiformatMessageString_cases_def)

lemma MultiformatMessageString_fields:
  "field_case (MultiformatMessageString_cases ord) (\<lambda>(strct, textReceived). MultiformatMessageString.Markdown strct) ''markdown'' json_Unmarshal_string"
  "field_case (MultiformatMessageString_cases ord) (\<lambda>(strct, textReceived). MultiformatMessageString.Properties strct) ''properties'' (json_Unmarshal_ptr (PropertyBag_UnmarshalJSON ord))"
  "field_case (MultiformatMessageString_cases ord) (\<lambda>(strct, textReceived). MultiformatMessageString.Text strct) ''text'' json_Unmarshal_string"
  "field_case (MultiformatMessageString_cases ord) (\<lambda>(strct, textReceived). textReceived) ''text'' (received json_Unmarshal_string)"
  unfolding field_case_def MultiformatMessageString_cases_def
  by (simp_all add: writes_into writes_received keeps_into split_def)

lemma MultiformatMessageString_loop_sound:
  assumes loop: "range_loop (\<lambda>k v. switch k (MultiformatMessageString_cases ord v) (reject k)) (members ord kvs) (MultiformatMessageString_zero, False) = Inr (strct, textReceived)"
  shows "dom (map_of (rev kvs)) \<subseteq> set MultiformatMessageString_keys \<and>
     field_ok json_Unmarshal_string (map_of (rev kvs) ''markdown'') [] (MultiformatMessageString.Markdown strct) \<and>
     field_ok (json_Unmarshal_ptr (PropertyBag_UnmarshalJSON ord)) (map_of (rev kvs) ''properties'') None (MultiformatMessageString.Properties strct) \<and>
     field_ok json_Unmarshal_string (map_of (rev kvs) ''text'') [] (MultiformatMessageString.Text strct) \<and>
     (textReceived \<longleftrightarrow> map_of (rev kvs) ''text'' \<noteq> None)"
proof -
  have "fst ` set (members ord kvs) \<subseteq> set MultiformatMessageString_keys"
    by (rule loop_keys_known [OF loop]) (rule MultiformatMessageString_cases_keys)
  then have keys: "dom (map_of (rev kvs)) \<subseteq> set MultiformatMessageString_keys"
    by (simp add: dom_members [of kvs ord])
  note fld = field_after_loop [OF _ members_distinct loop, unfolded map_of_members]
  note flg = flag_after_loop [OF _ members_distinct loop, unfolded map_of_members]
  show ?thesis
    using keys fld [OF MultiformatMessageString_fields(1)] fld [OF MultiformatMessageString_fields(2)] fld [OF MultiformatMessageString_fields(3)] flg [OF MultiformatMessageString_fields(4)]
    by (simp only: prod.case MultiformatMessageString_zero_def MultiformatMessageString.select_convs simp_thms)
qed

lemma MultiformatMessageString_decodesD:
  assumes "MultiformatMessageString_decodes ord m strct"
  shows "dom m \<subseteq> set MultiformatMessageString_keys"
    and "field_ok json_Unmarshal_string (m ''markdown'') [] (MultiformatMessageString.Markdown strct)"
    and "field_ok (json_Unmarshal_ptr (PropertyBag_UnmarshalJSON ord)) (m ''properties'') None (MultiformatMessageString.Properties strct)"
    and "field_ok json_Unmarshal_string (m ''text'') [] (MultiformatMessageString.Text strct)"
    and "m ''text'' \<noteq> None"
  using assms unfolding MultiformatMessageString_decodes_def by - (elim conjE, assumption)+

lemma MultiformatMessageString_decodes_unique:
  assumes "MultiformatMessageString_decodes ord m a" and "MultiformatMessageString_decodes ord m b"
  shows "a = b"
  apply (rule MultiformatMessageString.equality)
  apply (rule field_ok_unique [OF MultiformatMessageString_decodesD(2) [OF assms(1)] MultiformatMessageString_decodesD(2) [OF assms(2)]])
  apply (rule field_ok_unique [OF MultiformatMessageString_decodesD(3) [OF assms(1)] MultiformatMessageString_decodesD(3) [OF assms(2)]])
  apply (rule field_ok_unique [OF MultiformatMessageString_decodesD(4) [OF assms(1)] MultiformatMessageString_decodesD(4) [OF assms(2)]])
  apply simp
  done

lemma MultiformatMessageString_accepts:
  assumes "MultiformatMessageString_decodes ord m strct" and "m k = Some v"
  shows "accepting (switch k (MultiformatMessageString_cases ord v) (reject k))"
proof -
  from assms have "k \<in> set MultiformatMessageString_keys" by (auto simp: MultiformatMessageString_decodes_def)
  then have key: "k \<in> fst ` set (MultiformatMessageString_cases ord v)"
    by (simp only: MultiformatMessageString_cases_keys)
  have rows: "list_all (\<lambda>(c, h). m c = Some v \<longrightarrow> accepting h) (MultiformatMessageString_cases ord v)"
    unfolding MultiformatMessageString_cases_def list.pred_inject
    apply (rule conjI [OF accept_row [where m = m and v = v, OF MultiformatMessageString_decodesD(2) [OF assms(1)]]])
    apply (rule conjI [OF accept_row [where m = m and v = v, OF MultiformatMessageString_decodesD(3) [OF assms(1)]]])
    apply (rule conjI [OF accept_row [where m = m and v = v, OF MultiformatMessageString_decodesD(4) [OF assms(1)]]])
    apply simp
    done
  show ?thesis by (rule rows_accept [OF rows assms(2) key])
qed

lemma MultiformatMessageString_decode_iff:
  "MultiformatMessageString_UnmarshalJSON ord (JObj kvs) = Inr strct \<longleftrightarrow>
   MultiformatMessageString_decodes ord (map_of (rev kvs)) strct"
proof
  assume "MultiformatMessageString_UnmarshalJSON ord (JObj kvs) = Inr strct"
  then obtain textReceived where
    loop: "range_loop (\<lambda>k v. switch k (MultiformatMessageString_cases ord v) (reject k)) (members ord kvs) (MultiformatMessageString_zero, False) = Inr (strct, textReceived)"
    and fin: "textReceived"
    by (auto simp: MultiformatMessageString_UnmarshalJSON_def members_def split: sum.splits if_splits)
  from MultiformatMessageString_loop_sound [OF loop] fin
  show "MultiformatMessageString_decodes ord (map_of (rev kvs)) strct"
    by (simp add: MultiformatMessageString_decodes_def)
next
  assume d: "MultiformatMessageString_decodes ord (map_of (rev kvs)) strct"
  have "\<exists>t. range_loop (\<lambda>k v. switch k (MultiformatMessageString_cases ord v) (reject k)) (members ord kvs) (MultiformatMessageString_zero, False) = Inr t"
  proof (rule loop_succeeds [OF MultiformatMessageString_regular])
    fix k v assume "(k, v) \<in> set (members ord kvs)"
    then have "map_of (rev kvs) k = Some v" by (rule member_lookup)
    from MultiformatMessageString_accepts [OF d this]
    show "accepting (switch k (MultiformatMessageString_cases ord v) (reject k))" .
  qed
  then obtain t where "range_loop (\<lambda>k v. switch k (MultiformatMessageString_cases ord v) (reject k)) (members ord kvs) (MultiformatMessageString_zero, False) = Inr t" ..
  then obtain strct' textReceived where
    loop: "range_loop (\<lambda>k v. switch k (MultiformatMessageString_cases ord v) (reject k)) (members ord kvs) (MultiformatMessageString_zero, False) = Inr (strct', textReceived)"
    by (cases t) auto
  from MultiformatMessageString_loop_sound [OF loop] d
  have fin: "textReceived"
    and d': "MultiformatMessageString_decodes ord (map_of (rev kvs)) strct'"
    by (simp_all add: MultiformatMessageString_decodes_def)
  from MultiformatMessageString_decodes_unique [OF d' d] have "strct' = strct" .
  with loop fin show "MultiformatMessageString_UnmarshalJSON ord (JObj kvs) = Inr strct"
    by (simp add: MultiformatMessageString_UnmarshalJSON_def members_def)
qed

definition MultiformatMessageString_results :: "scanner \<Rightarrow> order \<Rightarrow> MultiformatMessageString \<Rightarrow> (string \<times> (error + json)) list" where
  "MultiformatMessageString_results scn ord strct =
     [(''markdown'', json_Marshal_string (MultiformatMessageString.Markdown strct)),
      (''properties'', json_Marshal_bytes ''*sarif.PropertyBag'' (PropertyBag_MarshalJSON scn ord) (MultiformatMessageString.Properties strct)),
      (''text'', json_Marshal_string (MultiformatMessageString.Text strct))]"

lemma MultiformatMessageString_MarshalJSON_results:
  "MultiformatMessageString_MarshalJSON scn ord strct = object (emit_all (MultiformatMessageString_results scn ord strct))"
  by (simp add: MultiformatMessageString_MarshalJSON_def MultiformatMessageString_results_def emit_nilcheck)

lemma MultiformatMessageString_keys_written:
  "MultiformatMessageString_MarshalJSON scn ord strct = Inr j \<Longrightarrow> \<exists>kvs. j = JObj kvs \<and> map fst kvs = MultiformatMessageString_keys"
  using keys_written [of "MultiformatMessageString_results scn ord strct" j]
  by (simp add: MultiformatMessageString_MarshalJSON_results MultiformatMessageString_results_def MultiformatMessageString_keys_def)

definition MultiformatMessageString_encodable :: "scanner \<Rightarrow> order \<Rightarrow> MultiformatMessageString \<Rightarrow> bool" where
  "MultiformatMessageString_encodable scn ord strct \<longleftrightarrow>
     ptr_all (PropertyBag_encodable scn ord) (MultiformatMessageString.Properties strct)"

lemma MultiformatMessageString_fails_unless: "fails_unless (MultiformatMessageString_MarshalJSON scn ord) (MultiformatMessageString_encodable scn ord)"
  unfolding fails_unless_def MultiformatMessageString_MarshalJSON_results MultiformatMessageString_results_def MultiformatMessageString_encodable_def isl_object_emit_all
  by (auto simp add: always_simps
      fails_unlessD [OF fails_unless_string]
      fails_unlessD [OF PropertyBag_field_fails_unless])

definition MultiformatMessageString_valid :: "MultiformatMessageString \<Rightarrow> bool" where
  "MultiformatMessageString_valid strct \<longleftrightarrow>
     ptr_all PropertyBag_valid (MultiformatMessageString.Properties strct)"

lemma MultiformatMessageString_keys_distinct: "distinct MultiformatMessageString_keys"
  by (simp add: MultiformatMessageString_keys_def)

lemma MultiformatMessageString_round_trips:
  "round_trips_object (MultiformatMessageString_MarshalJSON scn ord) (MultiformatMessageString_UnmarshalJSON ord') MultiformatMessageString_valid"
  unfolding round_trips_object_def
proof (intro allI impI)
  fix strct assume v: "MultiformatMessageString_valid strct"
  note v' = v [unfolded MultiformatMessageString_valid_def]
  let ?rs = "MultiformatMessageString_results scn ord strct"
  let ?kvs = "map (\<lambda>e. (fst e, projr (snd e))) ?rs"
  have f0: "\<not> isl (json_Marshal_string (MultiformatMessageString.Markdown strct)) \<and>
      json_Unmarshal_string (projr (json_Marshal_string (MultiformatMessageString.Markdown strct))) = Inr (MultiformatMessageString.Markdown strct)"
    by (rule round_tripsD [OF round_trips_string]) (use v' in simp)
  have f1: "\<not> isl (json_Marshal_bytes ''*sarif.PropertyBag'' (PropertyBag_MarshalJSON scn ord) (MultiformatMessageString.Properties strct)) \<and>
      json_Unmarshal_ptr (PropertyBag_UnmarshalJSON ord') (projr (json_Marshal_bytes ''*sarif.PropertyBag'' (PropertyBag_MarshalJSON scn ord) (MultiformatMessageString.Properties strct))) = Inr (MultiformatMessageString.Properties strct)"
    by (rule round_tripsD [OF PropertyBag_field_round_trips]) (use v' in simp)
  have f2: "\<not> isl (json_Marshal_string (MultiformatMessageString.Text strct)) \<and>
      json_Unmarshal_string (projr (json_Marshal_string (MultiformatMessageString.Text strct))) = Inr (MultiformatMessageString.Text strct)"
    by (rule round_tripsD [OF round_trips_string]) (use v' in simp)
  note fs = f0 f1 f2
  have rs: "?rs =
     [(''markdown'', json_Marshal_string (MultiformatMessageString.Markdown strct)),
      (''properties'', json_Marshal_bytes ''*sarif.PropertyBag'' (PropertyBag_MarshalJSON scn ord) (MultiformatMessageString.Properties strct)),
      (''text'', json_Marshal_string (MultiformatMessageString.Text strct))]"
    by (auto simp add: MultiformatMessageString_results_def)
  have keys: "map fst ?rs = MultiformatMessageString_keys"
    by (simp add: MultiformatMessageString_results_def MultiformatMessageString_keys_def)
  then have dist: "distinct (map fst ?rs)"
    by (simp only: MultiformatMessageString_keys_distinct)
  have ok: "list_all (\<lambda>e. \<not> isl (snd e)) ?rs"
    unfolding rs by (simp only: list.pred_inject snd_conv fs simp_thms)
  then have enc: "MultiformatMessageString_MarshalJSON scn ord strct = Inr (JObj ?kvs)"
    by (simp add: MultiformatMessageString_MarshalJSON_results [of scn ord strct] object_emit_all_eq_Inr)
  have l0: "map_of (rev ?kvs) ''markdown'' = Some (projr (json_Marshal_string (MultiformatMessageString.Markdown strct)))"
    by (rule written_lookup [OF dist]) (subst rs, intro list.set_intros)
  have l1: "map_of (rev ?kvs) ''properties'' = Some (projr (json_Marshal_bytes ''*sarif.PropertyBag'' (PropertyBag_MarshalJSON scn ord) (MultiformatMessageString.Properties strct)))"
    by (rule written_lookup [OF dist]) (subst rs, intro list.set_intros)
  have l2: "map_of (rev ?kvs) ''text'' = Some (projr (json_Marshal_string (MultiformatMessageString.Text strct)))"
    by (rule written_lookup [OF dist]) (subst rs, intro list.set_intros)
  have dec: "MultiformatMessageString_decodes ord' (map_of (rev ?kvs)) strct"
    unfolding MultiformatMessageString_decodes_def l0 l1 l2
    by (simp only: field_ok_Some fs written_dom keys subset_refl option.simps simp_thms)
  then have "MultiformatMessageString_UnmarshalJSON ord' (JObj ?kvs) = Inr strct"
    by (simp only: MultiformatMessageString_decode_iff)
  with enc show "rt_object (MultiformatMessageString_MarshalJSON scn ord) (MultiformatMessageString_UnmarshalJSON ord') strct"
    unfolding rt_object_def by blast
qed

definition MultiformatMessageString_small_bags :: "MultiformatMessageString \<Rightarrow> bool" where
  "MultiformatMessageString_small_bags strct \<longleftrightarrow>
     ptr_all PropertyBag_small_bags (MultiformatMessageString.Properties strct)"

lemma MultiformatMessageString_same_output:
  "same_output (MultiformatMessageString_MarshalJSON scn ord) (MultiformatMessageString_MarshalJSON scn ord') MultiformatMessageString_small_bags"
  unfolding same_output_def
proof (intro allI impI)
  fix strct assume v: "MultiformatMessageString_small_bags strct"
  note v' = v [unfolded MultiformatMessageString_small_bags_def]
  have e1: "json_Marshal_bytes ''*sarif.PropertyBag'' (PropertyBag_MarshalJSON scn ord) (MultiformatMessageString.Properties strct) =
      json_Marshal_bytes ''*sarif.PropertyBag'' (PropertyBag_MarshalJSON scn ord') (MultiformatMessageString.Properties strct)"
    by (rule same_outputD [OF PropertyBag_field_same_output]) (use v' in simp)
  show "MultiformatMessageString_MarshalJSON scn ord strct = MultiformatMessageString_MarshalJSON scn ord' strct"
    by (simp only: MultiformatMessageString_MarshalJSON_def e1)
qed

lemma MultiformatMessageString_writes_keys: "writes_keys (MultiformatMessageString_MarshalJSON scn ord) MultiformatMessageString_keys"
  unfolding writes_keys_def by (intro allI impI) (erule MultiformatMessageString_keys_written)

lemma MultiformatMessageString_unknown_key:
  assumes new: "k \<notin> set MultiformatMessageString_keys" and key: "k \<in> fst ` set kvs"
    and rest: "MultiformatMessageString_UnmarshalJSON ord (JObj (filter (\<lambda>e. fst e \<noteq> k) kvs)) = Inr strct"
  shows "MultiformatMessageString_UnmarshalJSON ord (JObj kvs) = Inl (not_allowed k)"
proof -
  have rej: "switch k (MultiformatMessageString_cases ord v) (reject k) s = Inl (not_allowed k)" for v s
    by (rule switch_rejects) (simp only: MultiformatMessageString_cases_keys new not_False_eq_True)
  from rest obtain t where
    "range_loop (\<lambda>k v. switch k (MultiformatMessageString_cases ord v) (reject k)) (members ord (filter (\<lambda>e. fst e \<noteq> k) kvs)) (MultiformatMessageString_zero, False) = Inr t"
    by (cases "range_loop (\<lambda>k v. switch k (MultiformatMessageString_cases ord v) (reject k)) (members ord (filter (\<lambda>e. fst e \<noteq> k) kvs)) (MultiformatMessageString_zero, False)")
       (simp_all add: MultiformatMessageString_UnmarshalJSON_def members_def)
  from unknown_key_named [OF MultiformatMessageString_regular rej key this]
  show ?thesis by (simp add: MultiformatMessageString_UnmarshalJSON_def members_def)
qed

lemma MultiformatMessageString_unknown_key_fails:
  assumes "k \<notin> set MultiformatMessageString_keys" and "k \<in> fst ` set kvs"
  shows "isl (MultiformatMessageString_UnmarshalJSON ord (JObj kvs))"
proof (cases "MultiformatMessageString_UnmarshalJSON ord (JObj kvs)")
  case (Inr strct)
  then have "dom (map_of (rev kvs)) \<subseteq> set MultiformatMessageString_keys"
    by (simp only: MultiformatMessageString_decode_iff MultiformatMessageString_decodesD(1))
  with assms show ?thesis by (auto simp: dom_map_of_conv_image_fst)
qed simp

lemma MultiformatMessageString_required_present:
  assumes "MultiformatMessageString_UnmarshalJSON ord (JObj kvs) = Inr strct"
  shows "''text'' \<in> fst ` set kvs"
proof -
  from assms have d: "MultiformatMessageString_decodes ord (map_of (rev kvs)) strct" by (simp only: MultiformatMessageString_decode_iff)
  show "''text'' \<in> fst ` set kvs"
    using MultiformatMessageString_decodesD(5) [OF d]
    by (simp_all only: present_key)
qed

lemma MultiformatMessageString_without_Text:
  assumes "MultiformatMessageString_UnmarshalJSON ord (JObj kvs) = Inr strct"
  shows "MultiformatMessageString_UnmarshalJSON ord (JObj (filter (\<lambda>e. fst e \<noteq> ''text'') kvs)) =
    Inl (RequiredNotPresent ''text'')"
proof -
  from assms have d: "MultiformatMessageString_decodes ord (map_of (rev kvs)) strct" by (simp only: MultiformatMessageString_decode_iff)
  have "\<exists>t. range_loop (\<lambda>k v. switch k (MultiformatMessageString_cases ord v) (reject k)) (members ord (filter (\<lambda>e. fst e \<noteq> ''text'') kvs))
      (MultiformatMessageString_zero, False) = Inr t"
  proof (rule loop_succeeds [OF MultiformatMessageString_regular])
    fix k v assume "(k, v) \<in> set (members ord (filter (\<lambda>e. fst e \<noteq> ''text'') kvs))"
    then have "map_of (rev kvs) k = Some v" by (rule member_lookup_filter)
    from MultiformatMessageString_accepts [OF d this]
    show "accepting (switch k (MultiformatMessageString_cases ord v) (reject k))" .
  qed
  then obtain t where "range_loop (\<lambda>k v. switch k (MultiformatMessageString_cases ord v) (reject k)) (members ord (filter (\<lambda>e. fst e \<noteq> ''text'') kvs))
      (MultiformatMessageString_zero, False) = Inr t" ..
  then obtain strct' textReceived where
    loop: "range_loop (\<lambda>k v. switch k (MultiformatMessageString_cases ord v) (reject k)) (members ord (filter (\<lambda>e. fst e \<noteq> ''text'') kvs))
      (MultiformatMessageString_zero, False) = Inr (strct', textReceived)"
    by (cases t) auto
  from MultiformatMessageString_loop_sound [OF loop] MultiformatMessageString_decodesD(5) [OF d]
  have "\<not> textReceived"
    by (simp_all add: lookup_filter)
  with loop show ?thesis
    by (simp add: MultiformatMessageString_UnmarshalJSON_def members_def)
qed


lemma MultiformatMessageString_rejects_unknown_keys: "rejects_unknown_keys (MultiformatMessageString_UnmarshalJSON ord) MultiformatMessageString_keys"
  by (rule rejects_unknown_keysI) (erule (1) MultiformatMessageString_unknown_key_fails, erule (2) MultiformatMessageString_unknown_key)

lemma MultiformatMessageString_requires_Text: "requires_key (MultiformatMessageString_UnmarshalJSON ord) ''text''"
  by (rule requires_keyI) (erule MultiformatMessageString_required_present(1), erule MultiformatMessageString_without_Text)


subsection \<open>ArtifactContent: decoding and encoding\<close>

definition ArtifactContent_keys :: "string list" where
  "ArtifactContent_keys = [''binary'', ''properties'', ''rendered'', ''text'']"

definition ArtifactContent_decodes :: "order \<Rightarrow> (string \<rightharpoonup> json) \<Rightarrow> ArtifactContent \<Rightarrow> bool" where
  "ArtifactContent_decodes ord m strct \<longleftrightarrow>
     dom m \<subseteq> set ArtifactContent_keys \<and>
     field_ok json_Unmarshal_string (m ''binary'') [] (ArtifactContent.Binary strct) \<and>
     field_ok (json_Unmarshal_ptr (PropertyBag_UnmarshalJSON ord)) (m ''properties'') None (ArtifactContent.Properties strct) \<and>
     field_ok (json_Unmarshal_ptr (MultiformatMessageString_UnmarshalJSON ord)) (m ''rendered'') None (ArtifactContent.Rendered strct) \<and>
     field_ok json_Unmarshal_string (m ''text'') [] (ArtifactContent.Text strct)"

lemma ArtifactContent_cases_keys: "fst ` set (ArtifactContent_cases ord v) = set ArtifactContent_keys"
  by (rule keys_image) (simp add: ArtifactContent_cases_def ArtifactContent_keys_def)

lemma ArtifactContent_regular: "regular (\<lambda>k v. switch k (ArtifactContent_cases ord v) (reject k))"
  by (rule regular_switch) (simp add: ArtifactContent_cases_def)

lemma ArtifactContent_fields:
  "field_case (ArtifactContent_cases ord) ArtifactContent.Binary ''binary'' json_Unmarshal_string"
  "field_case (ArtifactContent_cases ord) ArtifactContent.Properties ''properties'' (json_Unmarshal_ptr (PropertyBag_UnmarshalJSON ord))"
  "field_case (ArtifactContent_cases ord) ArtifactContent.Rendered ''rendered'' (json_Unmarshal_ptr (MultiformatMessageString_UnmarshalJSON ord))"
  "field_case (ArtifactContent_cases ord) ArtifactContent.Text ''text'' json_Unmarshal_string"
  unfolding field_case_def ArtifactContent_cases_def
  by (simp_all add: writes_into writes_received keeps_into split_def)

lemma ArtifactContent_loop_sound:
  assumes loop: "range_loop (\<lambda>k v. switch k (ArtifactContent_cases ord v) (reject k)) (members ord kvs) ArtifactContent_zero = Inr strct"
  shows "dom (map_of (rev kvs)) \<subseteq> set ArtifactContent_keys \<and>
     field_ok json_Unmarshal_string (map_of (rev kvs) ''binary'') [] (ArtifactContent.Binary strct) \<and>
     field_ok (json_Unmarshal_ptr (PropertyBag_UnmarshalJSON ord)) (map_of (rev kvs) ''properties'') None (ArtifactContent.Properties strct) \<and>
     field_ok (json_Unmarshal_ptr (MultiformatMessageString_UnmarshalJSON ord)) (map_of (rev kvs) ''rendered'') None (ArtifactContent.Rendered strct) \<and>
     field_ok json_Unmarshal_string (map_of (rev kvs) ''text'') [] (ArtifactContent.Text strct)"
proof -
  have "fst ` set (members ord kvs) \<subseteq> set ArtifactContent_keys"
    by (rule loop_keys_known [OF loop]) (rule ArtifactContent_cases_keys)
  then have keys: "dom (map_of (rev kvs)) \<subseteq> set ArtifactContent_keys"
    by (simp add: dom_members [of kvs ord])
  note fld = field_after_loop [OF _ members_distinct loop, unfolded map_of_members]
  show ?thesis
    using keys fld [OF ArtifactContent_fields(1)] fld [OF ArtifactContent_fields(2)] fld [OF ArtifactContent_fields(3)] fld [OF ArtifactContent_fields(4)] 
    by (simp only: prod.case ArtifactContent_zero_def ArtifactContent.select_convs simp_thms)
qed

lemma ArtifactContent_decodesD:
  assumes "ArtifactContent_decodes ord m strct"
  shows "dom m \<subseteq> set ArtifactContent_keys"
    and "field_ok json_Unmarshal_string (m ''binary'') [] (ArtifactContent.Binary strct)"
    and "field_ok (json_Unmarshal_ptr (PropertyBag_UnmarshalJSON ord)) (m ''properties'') None (ArtifactContent.Properties strct)"
    and "field_ok (json_Unmarshal_ptr (MultiformatMessageString_UnmarshalJSON ord)) (m ''rendered'') None (ArtifactContent.Rendered strct)"
    and "field_ok json_Unmarshal_string (m ''text'') [] (ArtifactContent.Text strct)"
  using assms unfolding ArtifactContent_decodes_def by - (elim conjE, assumption)+

lemma ArtifactContent_decodes_unique:
  assumes "ArtifactContent_decodes ord m a" and "ArtifactContent_decodes ord m b"
  shows "a = b"
  apply (rule ArtifactContent.equality)
  apply (rule field_ok_unique [OF ArtifactContent_decodesD(2) [OF assms(1)] ArtifactContent_decodesD(2) [OF assms(2)]])
  apply (rule field_ok_unique [OF ArtifactContent_decodesD(3) [OF assms(1)] ArtifactContent_decodesD(3) [OF assms(2)]])
  apply (rule field_ok_unique [OF ArtifactContent_decodesD(4) [OF assms(1)] ArtifactContent_decodesD(4) [OF assms(2)]])
  apply (rule field_ok_unique [OF ArtifactContent_decodesD(5) [OF assms(1)] ArtifactContent_decodesD(5) [OF assms(2)]])
  apply simp
  done

lemma ArtifactContent_accepts:
  assumes "ArtifactContent_decodes ord m strct" and "m k = Some v"
  shows "accepting (switch k (ArtifactContent_cases ord v) (reject k))"
proof -
  from assms have "k \<in> set ArtifactContent_keys" by (auto simp: ArtifactContent_decodes_def)
  then have key: "k \<in> fst ` set (ArtifactContent_cases ord v)"
    by (simp only: ArtifactContent_cases_keys)
  have rows: "list_all (\<lambda>(c, h). m c = Some v \<longrightarrow> accepting h) (ArtifactContent_cases ord v)"
    unfolding ArtifactContent_cases_def list.pred_inject
    apply (rule conjI [OF accept_row [where m = m and v = v, OF ArtifactContent_decodesD(2) [OF assms(1)]]])
    apply (rule conjI [OF accept_row [where m = m and v = v, OF ArtifactContent_decodesD(3) [OF assms(1)]]])
    apply (rule conjI [OF accept_row [where m = m and v = v, OF ArtifactContent_decodesD(4) [OF assms(1)]]])
    apply (rule conjI [OF accept_row [where m = m and v = v, OF ArtifactContent_decodesD(5) [OF assms(1)]]])
    apply simp
    done
  show ?thesis by (rule rows_accept [OF rows assms(2) key])
qed

lemma ArtifactContent_decode_iff:
  "ArtifactContent_UnmarshalJSON ord (JObj kvs) = Inr strct \<longleftrightarrow>
   ArtifactContent_decodes ord (map_of (rev kvs)) strct"
proof
  assume "ArtifactContent_UnmarshalJSON ord (JObj kvs) = Inr strct"
  then have loop: "range_loop (\<lambda>k v. switch k (ArtifactContent_cases ord v) (reject k)) (members ord kvs) ArtifactContent_zero = Inr strct"
    by (auto simp: ArtifactContent_UnmarshalJSON_def members_def split: sum.splits)
  from ArtifactContent_loop_sound [OF loop]
  show "ArtifactContent_decodes ord (map_of (rev kvs)) strct"
    by (simp add: ArtifactContent_decodes_def)
next
  assume d: "ArtifactContent_decodes ord (map_of (rev kvs)) strct"
  have "\<exists>t. range_loop (\<lambda>k v. switch k (ArtifactContent_cases ord v) (reject k)) (members ord kvs) ArtifactContent_zero = Inr t"
  proof (rule loop_succeeds [OF ArtifactContent_regular])
    fix k v assume "(k, v) \<in> set (members ord kvs)"
    then have "map_of (rev kvs) k = Some v" by (rule member_lookup)
    from ArtifactContent_accepts [OF d this]
    show "accepting (switch k (ArtifactContent_cases ord v) (reject k))" .
  qed
  then obtain strct' where
    loop: "range_loop (\<lambda>k v. switch k (ArtifactContent_cases ord v) (reject k)) (members ord kvs) ArtifactContent_zero = Inr strct'" ..
  from ArtifactContent_loop_sound [OF loop]
  have d': "ArtifactContent_decodes ord (map_of (rev kvs)) strct'"
    by (simp add: ArtifactContent_decodes_def)
  from ArtifactContent_decodes_unique [OF d' d] have "strct' = strct" .
  with loop show "ArtifactContent_UnmarshalJSON ord (JObj kvs) = Inr strct"
    by (simp add: ArtifactContent_UnmarshalJSON_def members_def)
qed

definition ArtifactContent_results :: "scanner \<Rightarrow> order \<Rightarrow> ArtifactContent \<Rightarrow> (string \<times> (error + json)) list" where
  "ArtifactContent_results scn ord strct =
     [(''binary'', json_Marshal_string (ArtifactContent.Binary strct)),
      (''properties'', json_Marshal_bytes ''*sarif.PropertyBag'' (PropertyBag_MarshalJSON scn ord) (ArtifactContent.Properties strct)),
      (''rendered'', json_Marshal_ptr ''*sarif.MultiformatMessageString'' (MultiformatMessageString_MarshalJSON scn ord) (ArtifactContent.Rendered strct)),
      (''text'', json_Marshal_string (ArtifactContent.Text strct))]"

lemma ArtifactContent_MarshalJSON_results:
  "ArtifactContent_MarshalJSON scn ord strct = object (emit_all (ArtifactContent_results scn ord strct))"
  by (simp add: ArtifactContent_MarshalJSON_def ArtifactContent_results_def emit_nilcheck)

lemma ArtifactContent_keys_written:
  "ArtifactContent_MarshalJSON scn ord strct = Inr j \<Longrightarrow> \<exists>kvs. j = JObj kvs \<and> map fst kvs = ArtifactContent_keys"
  using keys_written [of "ArtifactContent_results scn ord strct" j]
  by (simp add: ArtifactContent_MarshalJSON_results ArtifactContent_results_def ArtifactContent_keys_def)

definition ArtifactContent_encodable :: "scanner \<Rightarrow> order \<Rightarrow> ArtifactContent \<Rightarrow> bool" where
  "ArtifactContent_encodable scn ord strct \<longleftrightarrow>
     ptr_all (PropertyBag_encodable scn ord) (ArtifactContent.Properties strct) \<and>
     ptr_all (MultiformatMessageString_encodable scn ord) (ArtifactContent.Rendered strct)"

lemma ArtifactContent_fails_unless: "fails_unless (ArtifactContent_MarshalJSON scn ord) (ArtifactContent_encodable scn ord)"
  unfolding fails_unless_def ArtifactContent_MarshalJSON_results ArtifactContent_results_def ArtifactContent_encodable_def isl_object_emit_all
  by (auto simp add: always_simps
      fails_unlessD [OF fails_unless_string]
      fails_unlessD [OF PropertyBag_field_fails_unless]
      fails_unlessD [OF fails_unless_ptr [OF MultiformatMessageString_fails_unless]])

definition ArtifactContent_valid :: "ArtifactContent \<Rightarrow> bool" where
  "ArtifactContent_valid strct \<longleftrightarrow>
     ptr_all PropertyBag_valid (ArtifactContent.Properties strct) \<and>
     ptr_all MultiformatMessageString_valid (ArtifactContent.Rendered strct)"

lemma ArtifactContent_keys_distinct: "distinct ArtifactContent_keys"
  by (simp add: ArtifactContent_keys_def)

lemma ArtifactContent_round_trips:
  "round_trips_object (ArtifactContent_MarshalJSON scn ord) (ArtifactContent_UnmarshalJSON ord') ArtifactContent_valid"
  unfolding round_trips_object_def
proof (intro allI impI)
  fix strct assume v: "ArtifactContent_valid strct"
  note v' = v [unfolded ArtifactContent_valid_def]
  let ?rs = "ArtifactContent_results scn ord strct"
  let ?kvs = "map (\<lambda>e. (fst e, projr (snd e))) ?rs"
  have f0: "\<not> isl (json_Marshal_string (ArtifactContent.Binary strct)) \<and>
      json_Unmarshal_string (projr (json_Marshal_string (ArtifactContent.Binary strct))) = Inr (ArtifactContent.Binary strct)"
    by (rule round_tripsD [OF round_trips_string]) (use v' in simp)
  have f1: "\<not> isl (json_Marshal_bytes ''*sarif.PropertyBag'' (PropertyBag_MarshalJSON scn ord) (ArtifactContent.Properties strct)) \<and>
      json_Unmarshal_ptr (PropertyBag_UnmarshalJSON ord') (projr (json_Marshal_bytes ''*sarif.PropertyBag'' (PropertyBag_MarshalJSON scn ord) (ArtifactContent.Properties strct))) = Inr (ArtifactContent.Properties strct)"
    by (rule round_tripsD [OF PropertyBag_field_round_trips]) (use v' in simp)
  have f2: "\<not> isl (json_Marshal_ptr ''*sarif.MultiformatMessageString'' (MultiformatMessageString_MarshalJSON scn ord) (ArtifactContent.Rendered strct)) \<and>
      json_Unmarshal_ptr (MultiformatMessageString_UnmarshalJSON ord') (projr (json_Marshal_ptr ''*sarif.MultiformatMessageString'' (MultiformatMessageString_MarshalJSON scn ord) (ArtifactContent.Rendered strct))) = Inr (ArtifactContent.Rendered strct)"
    by (rule round_tripsD [OF round_trips_ptr [OF MultiformatMessageString_round_trips]]) (use v' in simp)
  have f3: "\<not> isl (json_Marshal_string (ArtifactContent.Text strct)) \<and>
      json_Unmarshal_string (projr (json_Marshal_string (ArtifactContent.Text strct))) = Inr (ArtifactContent.Text strct)"
    by (rule round_tripsD [OF round_trips_string]) (use v' in simp)
  note fs = f0 f1 f2 f3
  have rs: "?rs =
     [(''binary'', json_Marshal_string (ArtifactContent.Binary strct)),
      (''properties'', json_Marshal_bytes ''*sarif.PropertyBag'' (PropertyBag_MarshalJSON scn ord) (ArtifactContent.Properties strct)),
      (''rendered'', json_Marshal_ptr ''*sarif.MultiformatMessageString'' (MultiformatMessageString_MarshalJSON scn ord) (ArtifactContent.Rendered strct)),
      (''text'', json_Marshal_string (ArtifactContent.Text strct))]"
    by (auto simp add: ArtifactContent_results_def)
  have keys: "map fst ?rs = ArtifactContent_keys"
    by (simp add: ArtifactContent_results_def ArtifactContent_keys_def)
  then have dist: "distinct (map fst ?rs)"
    by (simp only: ArtifactContent_keys_distinct)
  have ok: "list_all (\<lambda>e. \<not> isl (snd e)) ?rs"
    unfolding rs by (simp only: list.pred_inject snd_conv fs simp_thms)
  then have enc: "ArtifactContent_MarshalJSON scn ord strct = Inr (JObj ?kvs)"
    by (simp add: ArtifactContent_MarshalJSON_results [of scn ord strct] object_emit_all_eq_Inr)
  have l0: "map_of (rev ?kvs) ''binary'' = Some (projr (json_Marshal_string (ArtifactContent.Binary strct)))"
    by (rule written_lookup [OF dist]) (subst rs, intro list.set_intros)
  have l1: "map_of (rev ?kvs) ''properties'' = Some (projr (json_Marshal_bytes ''*sarif.PropertyBag'' (PropertyBag_MarshalJSON scn ord) (ArtifactContent.Properties strct)))"
    by (rule written_lookup [OF dist]) (subst rs, intro list.set_intros)
  have l2: "map_of (rev ?kvs) ''rendered'' = Some (projr (json_Marshal_ptr ''*sarif.MultiformatMessageString'' (MultiformatMessageString_MarshalJSON scn ord) (ArtifactContent.Rendered strct)))"
    by (rule written_lookup [OF dist]) (subst rs, intro list.set_intros)
  have l3: "map_of (rev ?kvs) ''text'' = Some (projr (json_Marshal_string (ArtifactContent.Text strct)))"
    by (rule written_lookup [OF dist]) (subst rs, intro list.set_intros)
  have dec: "ArtifactContent_decodes ord' (map_of (rev ?kvs)) strct"
    unfolding ArtifactContent_decodes_def l0 l1 l2 l3
    by (simp only: field_ok_Some fs written_dom keys subset_refl option.simps simp_thms)
  then have "ArtifactContent_UnmarshalJSON ord' (JObj ?kvs) = Inr strct"
    by (simp only: ArtifactContent_decode_iff)
  with enc show "rt_object (ArtifactContent_MarshalJSON scn ord) (ArtifactContent_UnmarshalJSON ord') strct"
    unfolding rt_object_def by blast
qed

definition ArtifactContent_small_bags :: "ArtifactContent \<Rightarrow> bool" where
  "ArtifactContent_small_bags strct \<longleftrightarrow>
     ptr_all PropertyBag_small_bags (ArtifactContent.Properties strct) \<and>
     ptr_all MultiformatMessageString_small_bags (ArtifactContent.Rendered strct)"

lemma ArtifactContent_same_output:
  "same_output (ArtifactContent_MarshalJSON scn ord) (ArtifactContent_MarshalJSON scn ord') ArtifactContent_small_bags"
  unfolding same_output_def
proof (intro allI impI)
  fix strct assume v: "ArtifactContent_small_bags strct"
  note v' = v [unfolded ArtifactContent_small_bags_def]
  have e1: "json_Marshal_bytes ''*sarif.PropertyBag'' (PropertyBag_MarshalJSON scn ord) (ArtifactContent.Properties strct) =
      json_Marshal_bytes ''*sarif.PropertyBag'' (PropertyBag_MarshalJSON scn ord') (ArtifactContent.Properties strct)"
    by (rule same_outputD [OF PropertyBag_field_same_output]) (use v' in simp)
  have e2: "json_Marshal_ptr ''*sarif.MultiformatMessageString'' (MultiformatMessageString_MarshalJSON scn ord) (ArtifactContent.Rendered strct) =
      json_Marshal_ptr ''*sarif.MultiformatMessageString'' (MultiformatMessageString_MarshalJSON scn ord') (ArtifactContent.Rendered strct)"
    by (rule same_outputD [OF same_output_ptr [OF MultiformatMessageString_same_output]]) (use v' in simp)
  show "ArtifactContent_MarshalJSON scn ord strct = ArtifactContent_MarshalJSON scn ord' strct"
    by (simp only: ArtifactContent_MarshalJSON_def e1 e2)
qed

lemma ArtifactContent_writes_keys: "writes_keys (ArtifactContent_MarshalJSON scn ord) ArtifactContent_keys"
  unfolding writes_keys_def by (intro allI impI) (erule ArtifactContent_keys_written)

lemma ArtifactContent_unknown_key:
  assumes new: "k \<notin> set ArtifactContent_keys" and key: "k \<in> fst ` set kvs"
    and rest: "ArtifactContent_UnmarshalJSON ord (JObj (filter (\<lambda>e. fst e \<noteq> k) kvs)) = Inr strct"
  shows "ArtifactContent_UnmarshalJSON ord (JObj kvs) = Inl (not_allowed k)"
proof -
  have rej: "switch k (ArtifactContent_cases ord v) (reject k) s = Inl (not_allowed k)" for v s
    by (rule switch_rejects) (simp only: ArtifactContent_cases_keys new not_False_eq_True)
  from rest obtain t where
    "range_loop (\<lambda>k v. switch k (ArtifactContent_cases ord v) (reject k)) (members ord (filter (\<lambda>e. fst e \<noteq> k) kvs)) ArtifactContent_zero = Inr t"
    by (cases "range_loop (\<lambda>k v. switch k (ArtifactContent_cases ord v) (reject k)) (members ord (filter (\<lambda>e. fst e \<noteq> k) kvs)) ArtifactContent_zero")
       (simp_all add: ArtifactContent_UnmarshalJSON_def members_def)
  from unknown_key_named [OF ArtifactContent_regular rej key this]
  show ?thesis by (simp add: ArtifactContent_UnmarshalJSON_def members_def)
qed

lemma ArtifactContent_unknown_key_fails:
  assumes "k \<notin> set ArtifactContent_keys" and "k \<in> fst ` set kvs"
  shows "isl (ArtifactContent_UnmarshalJSON ord (JObj kvs))"
proof (cases "ArtifactContent_UnmarshalJSON ord (JObj kvs)")
  case (Inr strct)
  then have "dom (map_of (rev kvs)) \<subseteq> set ArtifactContent_keys"
    by (simp only: ArtifactContent_decode_iff ArtifactContent_decodesD(1))
  with assms show ?thesis by (auto simp: dom_map_of_conv_image_fst)
qed simp

lemma ArtifactContent_rejects_unknown_keys: "rejects_unknown_keys (ArtifactContent_UnmarshalJSON ord) ArtifactContent_keys"
  by (rule rejects_unknown_keysI) (erule (1) ArtifactContent_unknown_key_fails, erule (2) ArtifactContent_unknown_key)

subsection \<open>Artifact: decoding and encoding\<close>

definition Artifact_keys :: "string list" where
  "Artifact_keys = [''contents'', ''description'', ''encoding'', ''hashes'', ''lastModifiedTimeUtc'', ''length'', ''location'', ''mimeType'', ''offset'', ''parentIndex'', ''properties'', ''roles'', ''sourceLanguage'']"

definition Artifact_decodes :: "order \<Rightarrow> (string \<rightharpoonup> json) \<Rightarrow> Artifact \<Rightarrow> bool" where
  "Artifact_decodes ord m strct \<longleftrightarrow>
     dom m \<subseteq> set Artifact_keys \<and>
     field_ok (json_Unmarshal_ptr (ArtifactContent_UnmarshalJSON ord)) (m ''contents'') None (Artifact.Contents strct) \<and>
     field_ok (json_Unmarshal_ptr (Message_UnmarshalJSON ord)) (m ''description'') None (Artifact.Description strct) \<and>
     field_ok json_Unmarshal_string (m ''encoding'') [] (Artifact.Encoding strct) \<and>
     field_ok (json_Unmarshal_map json_Unmarshal_string) (m ''hashes'') None (Artifact.Hashes strct) \<and>
     field_ok json_Unmarshal_string (m ''lastModifiedTimeUtc'') [] (Artifact.LastModifiedTimeUtc strct) \<and>
     field_ok json_Unmarshal_int (m ''length'') 0 (Artifact.Length strct) \<and>
     field_ok (json_Unmarshal_ptr (ArtifactLocation_UnmarshalJSON ord)) (m ''location'') None (Artifact.Location strct) \<and>
     field_ok json_Unmarshal_string (m ''mimeType'') [] (Artifact.MimeType strct) \<and>
     field_ok json_Unmarshal_int (m ''offset'') 0 (Artifact.Offset strct) \<and>
     field_ok json_Unmarshal_int (m ''parentIndex'') 0 (Artifact.ParentIndex strct) \<and>
     field_ok (json_Unmarshal_ptr (PropertyBag_UnmarshalJSON ord)) (m ''properties'') None (Artifact.Properties strct) \<and>
     field_ok (json_Unmarshal_slice json_Unmarshal_string) (m ''roles'') None (Artifact.Roles strct) \<and>
     field_ok json_Unmarshal_string (m ''sourceLanguage'') [] (Artifact.SourceLanguage strct)"

lemma Artifact_cases_keys: "fst ` set (Artifact_cases ord v) = set Artifact_keys"
  by (rule keys_image) (simp add: Artifact_cases_def Artifact_keys_def)

lemma Artifact_regular: "regular (\<lambda>k v. switch k (Artifact_cases ord v) (reject k))"
  by (rule regular_switch) (simp add: Artifact_cases_def)

lemma Artifact_fields:
  "field_case (Artifact_cases ord) Artifact.Contents ''contents'' (json_Unmarshal_ptr (ArtifactContent_UnmarshalJSON ord))"
  "field_case (Artifact_cases ord) Artifact.Description ''description'' (json_Unmarshal_ptr (Message_UnmarshalJSON ord))"
  "field_case (Artifact_cases ord) Artifact.Encoding ''encoding'' json_Unmarshal_string"
  "field_case (Artifact_cases ord) Artifact.Hashes ''hashes'' (json_Unmarshal_map json_Unmarshal_string)"
  "field_case (Artifact_cases ord) Artifact.LastModifiedTimeUtc ''lastModifiedTimeUtc'' json_Unmarshal_string"
  "field_case (Artifact_cases ord) Artifact.Length ''length'' json_Unmarshal_int"
  "field_case (Artifact_cases ord) Artifact.Location ''location'' (json_Unmarshal_ptr (ArtifactLocation_UnmarshalJSON ord))"
  "field_case (Artifact_cases ord) Artifact.MimeType ''mimeType'' json_Unmarshal_string"
  "field_case (Artifact_cases ord) Artifact.Offset ''offset'' json_Unmarshal_int"
  "field_case (Artifact_cases ord) Artifact.ParentIndex ''parentIndex'' json_Unmarshal_int"
  "field_case (Artifact_cases ord) Artifact.Properties ''properties'' (json_Unmarshal_ptr (PropertyBag_UnmarshalJSON ord))"
  "field_case (Artifact_cases ord) Artifact.Roles ''roles'' (json_Unmarshal_slice json_Unmarshal_string)"
  "field_case (Artifact_cases ord) Artifact.SourceLanguage ''sourceLanguage'' json_Unmarshal_string"
  unfolding field_case_def Artifact_cases_def
  by (simp_all add: writes_into writes_received keeps_into split_def)

lemma Artifact_loop_sound:
  assumes loop: "range_loop (\<lambda>k v. switch k (Artifact_cases ord v) (reject k)) (members ord kvs) Artifact_zero = Inr strct"
  shows "dom (map_of (rev kvs)) \<subseteq> set Artifact_keys \<and>
     field_ok (json_Unmarshal_ptr (ArtifactContent_UnmarshalJSON ord)) (map_of (rev kvs) ''contents'') None (Artifact.Contents strct) \<and>
     field_ok (json_Unmarshal_ptr (Message_UnmarshalJSON ord)) (map_of (rev kvs) ''description'') None (Artifact.Description strct) \<and>
     field_ok json_Unmarshal_string (map_of (rev kvs) ''encoding'') [] (Artifact.Encoding strct) \<and>
     field_ok (json_Unmarshal_map json_Unmarshal_string) (map_of (rev kvs) ''hashes'') None (Artifact.Hashes strct) \<and>
     field_ok json_Unmarshal_string (map_of (rev kvs) ''lastModifiedTimeUtc'') [] (Artifact.LastModifiedTimeUtc strct) \<and>
     field_ok json_Unmarshal_int (map_of (rev kvs) ''length'') 0 (Artifact.Length strct) \<and>
     field_ok (json_Unmarshal_ptr (ArtifactLocation_UnmarshalJSON ord)) (map_of (rev kvs) ''location'') None (Artifact.Location strct) \<and>
     field_ok json_Unmarshal_string (map_of (rev kvs) ''mimeType'') [] (Artifact.MimeType strct) \<and>
     field_ok json_Unmarshal_int (map_of (rev kvs) ''offset'') 0 (Artifact.Offset strct) \<and>
     field_ok json_Unmarshal_int (map_of (rev kvs) ''parentIndex'') 0 (Artifact.ParentIndex strct) \<and>
     field_ok (json_Unmarshal_ptr (PropertyBag_UnmarshalJSON ord)) (map_of (rev kvs) ''properties'') None (Artifact.Properties strct) \<and>
     field_ok (json_Unmarshal_slice json_Unmarshal_string) (map_of (rev kvs) ''roles'') None (Artifact.Roles strct) \<and>
     field_ok json_Unmarshal_string (map_of (rev kvs) ''sourceLanguage'') [] (Artifact.SourceLanguage strct)"
proof -
  have "fst ` set (members ord kvs) \<subseteq> set Artifact_keys"
    by (rule loop_keys_known [OF loop]) (rule Artifact_cases_keys)
  then have keys: "dom (map_of (rev kvs)) \<subseteq> set Artifact_keys"
    by (simp add: dom_members [of kvs ord])
  note fld = field_after_loop [OF _ members_distinct loop, unfolded map_of_members]
  show ?thesis
    using keys fld [OF Artifact_fields(1)] fld [OF Artifact_fields(2)] fld [OF Artifact_fields(3)] fld [OF Artifact_fields(4)] fld [OF Artifact_fields(5)] fld [OF Artifact_fields(6)] fld [OF Artifact_fields(7)] fld [OF Artifact_fields(8)] fld [OF Artifact_fields(9)] fld [OF Artifact_fields(10)] fld [OF Artifact_fields(11)] fld [OF Artifact_fields(12)] fld [OF Artifact_fields(13)] 
    by (simp only: prod.case Artifact_zero_def Artifact.select_convs simp_thms)
qed

lemma Artifact_decodesD:
  assumes "Artifact_decodes ord m strct"
  shows "dom m \<subseteq> set Artifact_keys"
    and "field_ok (json_Unmarshal_ptr (ArtifactContent_UnmarshalJSON ord)) (m ''contents'') None (Artifact.Contents strct)"
    and "field_ok (json_Unmarshal_ptr (Message_UnmarshalJSON ord)) (m ''description'') None (Artifact.Description strct)"
    and "field_ok json_Unmarshal_string (m ''encoding'') [] (Artifact.Encoding strct)"
    and "field_ok (json_Unmarshal_map json_Unmarshal_string) (m ''hashes'') None (Artifact.Hashes strct)"
    and "field_ok json_Unmarshal_string (m ''lastModifiedTimeUtc'') [] (Artifact.LastModifiedTimeUtc strct)"
    and "field_ok json_Unmarshal_int (m ''length'') 0 (Artifact.Length strct)"
    and "field_ok (json_Unmarshal_ptr (ArtifactLocation_UnmarshalJSON ord)) (m ''location'') None (Artifact.Location strct)"
    and "field_ok json_Unmarshal_string (m ''mimeType'') [] (Artifact.MimeType strct)"
    and "field_ok json_Unmarshal_int (m ''offset'') 0 (Artifact.Offset strct)"
    and "field_ok json_Unmarshal_int (m ''parentIndex'') 0 (Artifact.ParentIndex strct)"
    and "field_ok (json_Unmarshal_ptr (PropertyBag_UnmarshalJSON ord)) (m ''properties'') None (Artifact.Properties strct)"
    and "field_ok (json_Unmarshal_slice json_Unmarshal_string) (m ''roles'') None (Artifact.Roles strct)"
    and "field_ok json_Unmarshal_string (m ''sourceLanguage'') [] (Artifact.SourceLanguage strct)"
  using assms unfolding Artifact_decodes_def by - (elim conjE, assumption)+

lemma Artifact_decodes_unique:
  assumes "Artifact_decodes ord m a" and "Artifact_decodes ord m b"
  shows "a = b"
  apply (rule Artifact.equality)
  apply (rule field_ok_unique [OF Artifact_decodesD(2) [OF assms(1)] Artifact_decodesD(2) [OF assms(2)]])
  apply (rule field_ok_unique [OF Artifact_decodesD(3) [OF assms(1)] Artifact_decodesD(3) [OF assms(2)]])
  apply (rule field_ok_unique [OF Artifact_decodesD(4) [OF assms(1)] Artifact_decodesD(4) [OF assms(2)]])
  apply (rule field_ok_unique [OF Artifact_decodesD(5) [OF assms(1)] Artifact_decodesD(5) [OF assms(2)]])
  apply (rule field_ok_unique [OF Artifact_decodesD(6) [OF assms(1)] Artifact_decodesD(6) [OF assms(2)]])
  apply (rule field_ok_unique [OF Artifact_decodesD(7) [OF assms(1)] Artifact_decodesD(7) [OF assms(2)]])
  apply (rule field_ok_unique [OF Artifact_decodesD(8) [OF assms(1)] Artifact_decodesD(8) [OF assms(2)]])
  apply (rule field_ok_unique [OF Artifact_decodesD(9) [OF assms(1)] Artifact_decodesD(9) [OF assms(2)]])
  apply (rule field_ok_unique [OF Artifact_decodesD(10) [OF assms(1)] Artifact_decodesD(10) [OF assms(2)]])
  apply (rule field_ok_unique [OF Artifact_decodesD(11) [OF assms(1)] Artifact_decodesD(11) [OF assms(2)]])
  apply (rule field_ok_unique [OF Artifact_decodesD(12) [OF assms(1)] Artifact_decodesD(12) [OF assms(2)]])
  apply (rule field_ok_unique [OF Artifact_decodesD(13) [OF assms(1)] Artifact_decodesD(13) [OF assms(2)]])
  apply (rule field_ok_unique [OF Artifact_decodesD(14) [OF assms(1)] Artifact_decodesD(14) [OF assms(2)]])
  apply simp
  done

lemma Artifact_accepts:
  assumes "Artifact_decodes ord m strct" and "m k = Some v"
  shows "accepting (switch k (Artifact_cases ord v) (reject k))"
proof -
  from assms have "k \<in> set Artifact_keys" by (auto simp: Artifact_decodes_def)
  then have key: "k \<in> fst ` set (Artifact_cases ord v)"
    by (simp only: Artifact_cases_keys)
  have rows: "list_all (\<lambda>(c, h). m c = Some v \<longrightarrow> accepting h) (Artifact_cases ord v)"
    unfolding Artifact_cases_def list.pred_inject
    apply (rule conjI [OF accept_row [where m = m and v = v, OF Artifact_decodesD(2) [OF assms(1)]]])
    apply (rule conjI [OF accept_row [where m = m and v = v, OF Artifact_decodesD(3) [OF assms(1)]]])
    apply (rule conjI [OF accept_row [where m = m and v = v, OF Artifact_decodesD(4) [OF assms(1)]]])
    apply (rule conjI [OF accept_row [where m = m and v = v, OF Artifact_decodesD(5) [OF assms(1)]]])
    apply (rule conjI [OF accept_row [where m = m and v = v, OF Artifact_decodesD(6) [OF assms(1)]]])
    apply (rule conjI [OF accept_row [where m = m and v = v, OF Artifact_decodesD(7) [OF assms(1)]]])
    apply (rule conjI [OF accept_row [where m = m and v = v, OF Artifact_decodesD(8) [OF assms(1)]]])
    apply (rule conjI [OF accept_row [where m = m and v = v, OF Artifact_decodesD(9) [OF assms(1)]]])
    apply (rule conjI [OF accept_row [where m = m and v = v, OF Artifact_decodesD(10) [OF assms(1)]]])
    apply (rule conjI [OF accept_row [where m = m and v = v, OF Artifact_decodesD(11) [OF assms(1)]]])
    apply (rule conjI [OF accept_row [where m = m and v = v, OF Artifact_decodesD(12) [OF assms(1)]]])
    apply (rule conjI [OF accept_row [where m = m and v = v, OF Artifact_decodesD(13) [OF assms(1)]]])
    apply (rule conjI [OF accept_row [where m = m and v = v, OF Artifact_decodesD(14) [OF assms(1)]]])
    apply simp
    done
  show ?thesis by (rule rows_accept [OF rows assms(2) key])
qed

lemma Artifact_decode_iff:
  "Artifact_UnmarshalJSON ord (JObj kvs) = Inr strct \<longleftrightarrow>
   Artifact_decodes ord (map_of (rev kvs)) strct"
proof
  assume "Artifact_UnmarshalJSON ord (JObj kvs) = Inr strct"
  then have loop: "range_loop (\<lambda>k v. switch k (Artifact_cases ord v) (reject k)) (members ord kvs) Artifact_zero = Inr strct"
    by (auto simp: Artifact_UnmarshalJSON_def members_def split: sum.splits)
  from Artifact_loop_sound [OF loop]
  show "Artifact_decodes ord (map_of (rev kvs)) strct"
    by (simp add: Artifact_decodes_def)
next
  assume d: "Artifact_decodes ord (map_of (rev kvs)) strct"
  have "\<exists>t. range_loop (\<lambda>k v. switch k (Artifact_cases ord v) (reject k)) (members ord kvs) Artifact_zero = Inr t"
  proof (rule loop_succeeds [OF Artifact_regular])
    fix k v assume "(k, v) \<in> set (members ord kvs)"
    then have "map_of (rev kvs) k = Some v" by (rule member_lookup)
    from Artifact_accepts [OF d this]
    show "accepting (switch k (Artifact_cases ord v) (reject k))" .
  qed
  then obtain strct' where
    loop: "range_loop (\<lambda>k v. switch k (Artifact_cases ord v) (reject k)) (members ord kvs) Artifact_zero = Inr strct'" ..
  from Artifact_loop_sound [OF loop]
  have d': "Artifact_decodes ord (map_of (rev kvs)) strct'"
    by (simp add: Artifact_decodes_def)
  from Artifact_decodes_unique [OF d' d] have "strct' = strct" .
  with loop show "Artifact_UnmarshalJSON ord (JObj kvs) = Inr strct"
    by (simp add: Artifact_UnmarshalJSON_def members_def)
qed

definition Artifact_results :: "scanner \<Rightarrow> order \<Rightarrow> Artifact \<Rightarrow> (string \<times> (error + json)) list" where
  "Artifact_results scn ord strct =
     [(''contents'', json_Marshal_ptr ''*sarif.ArtifactContent'' (ArtifactContent_MarshalJSON scn ord) (Artifact.Contents strct)),
      (''description'', json_Marshal_ptr ''*sarif.Message'' (Message_MarshalJSON scn ord) (Artifact.Description strct)),
      (''encoding'', json_Marshal_string (Artifact.Encoding strct)),
      (''hashes'', json_Marshal_map json_Marshal_string (Artifact.Hashes strct)),
      (''lastModifiedTimeUtc'', json_Marshal_string (Artifact.LastModifiedTimeUtc strct)),
      (''length'', json_Marshal_int (Artifact.Length strct)),
      (''location'', json_Marshal_ptr ''*sarif.ArtifactLocation'' (ArtifactLocation_MarshalJSON scn ord) (Artifact.Location strct)),
      (''mimeType'', json_Marshal_string (Artifact.MimeType strct)),
      (''offset'', json_Marshal_int (Artifact.Offset strct)),
      (''parentIndex'', json_Marshal_int (Artifact.ParentIndex strct)),
      (''properties'', json_Marshal_bytes ''*sarif.PropertyBag'' (PropertyBag_MarshalJSON scn ord) (Artifact.Properties strct)),
      (''roles'', json_Marshal_slice json_Marshal_string (Artifact.Roles strct)),
      (''sourceLanguage'', json_Marshal_string (Artifact.SourceLanguage strct))]"

lemma Artifact_MarshalJSON_results:
  "Artifact_MarshalJSON scn ord strct = object (emit_all (Artifact_results scn ord strct))"
  by (simp add: Artifact_MarshalJSON_def Artifact_results_def emit_nilcheck)

lemma Artifact_keys_written:
  "Artifact_MarshalJSON scn ord strct = Inr j \<Longrightarrow> \<exists>kvs. j = JObj kvs \<and> map fst kvs = Artifact_keys"
  using keys_written [of "Artifact_results scn ord strct" j]
  by (simp add: Artifact_MarshalJSON_results Artifact_results_def Artifact_keys_def)

definition Artifact_encodable :: "scanner \<Rightarrow> order \<Rightarrow> Artifact \<Rightarrow> bool" where
  "Artifact_encodable scn ord strct \<longleftrightarrow>
     ptr_all (ArtifactContent_encodable scn ord) (Artifact.Contents strct) \<and>
     ptr_all (Message_encodable scn ord) (Artifact.Description strct) \<and>
     ptr_all (ArtifactLocation_encodable scn ord) (Artifact.Location strct) \<and>
     ptr_all (PropertyBag_encodable scn ord) (Artifact.Properties strct)"

lemma Artifact_fails_unless: "fails_unless (Artifact_MarshalJSON scn ord) (Artifact_encodable scn ord)"
  unfolding fails_unless_def Artifact_MarshalJSON_results Artifact_results_def Artifact_encodable_def isl_object_emit_all
  by (auto simp add: always_simps
      fails_unlessD [OF fails_unless_ptr [OF ArtifactContent_fails_unless]]
      fails_unlessD [OF fails_unless_ptr [OF Message_fails_unless]]
      fails_unlessD [OF fails_unless_string]
      fails_unlessD [OF fails_unless_map [OF fails_unless_string]]
      fails_unlessD [OF fails_unless_int]
      fails_unlessD [OF fails_unless_ptr [OF ArtifactLocation_fails_unless]]
      fails_unlessD [OF PropertyBag_field_fails_unless]
      fails_unlessD [OF fails_unless_slice [OF fails_unless_string]])

definition Artifact_valid :: "Artifact \<Rightarrow> bool" where
  "Artifact_valid strct \<longleftrightarrow>
     ptr_all ArtifactContent_valid (Artifact.Contents strct) \<and>
     ptr_all Message_valid (Artifact.Description strct) \<and>
     map_valid always (Artifact.Hashes strct) \<and>
     ptr_all ArtifactLocation_valid (Artifact.Location strct) \<and>
     ptr_all PropertyBag_valid (Artifact.Properties strct)"

lemma Artifact_keys_distinct: "distinct Artifact_keys"
  by (simp add: Artifact_keys_def)

lemma Artifact_round_trips:
  "round_trips_object (Artifact_MarshalJSON scn ord) (Artifact_UnmarshalJSON ord') Artifact_valid"
  unfolding round_trips_object_def
proof (intro allI impI)
  fix strct assume v: "Artifact_valid strct"
  note v' = v [unfolded Artifact_valid_def]
  let ?rs = "Artifact_results scn ord strct"
  let ?kvs = "map (\<lambda>e. (fst e, projr (snd e))) ?rs"
  have f0: "\<not> isl (json_Marshal_ptr ''*sarif.ArtifactContent'' (ArtifactContent_MarshalJSON scn ord) (Artifact.Contents strct)) \<and>
      json_Unmarshal_ptr (ArtifactContent_UnmarshalJSON ord') (projr (json_Marshal_ptr ''*sarif.ArtifactContent'' (ArtifactContent_MarshalJSON scn ord) (Artifact.Contents strct))) = Inr (Artifact.Contents strct)"
    by (rule round_tripsD [OF round_trips_ptr [OF ArtifactContent_round_trips]]) (use v' in simp)
  have f1: "\<not> isl (json_Marshal_ptr ''*sarif.Message'' (Message_MarshalJSON scn ord) (Artifact.Description strct)) \<and>
      json_Unmarshal_ptr (Message_UnmarshalJSON ord') (projr (json_Marshal_ptr ''*sarif.Message'' (Message_MarshalJSON scn ord) (Artifact.Description strct))) = Inr (Artifact.Description strct)"
    by (rule round_tripsD [OF round_trips_ptr [OF Message_round_trips]]) (use v' in simp)
  have f2: "\<not> isl (json_Marshal_string (Artifact.Encoding strct)) \<and>
      json_Unmarshal_string (projr (json_Marshal_string (Artifact.Encoding strct))) = Inr (Artifact.Encoding strct)"
    by (rule round_tripsD [OF round_trips_string]) (use v' in simp)
  have f3: "\<not> isl (json_Marshal_map json_Marshal_string (Artifact.Hashes strct)) \<and>
      json_Unmarshal_map json_Unmarshal_string (projr (json_Marshal_map json_Marshal_string (Artifact.Hashes strct))) = Inr (Artifact.Hashes strct)"
    by (rule round_tripsD [OF round_trips_map [OF round_trips_string]]) (use v' in simp)
  have f4: "\<not> isl (json_Marshal_string (Artifact.LastModifiedTimeUtc strct)) \<and>
      json_Unmarshal_string (projr (json_Marshal_string (Artifact.LastModifiedTimeUtc strct))) = Inr (Artifact.LastModifiedTimeUtc strct)"
    by (rule round_tripsD [OF round_trips_string]) (use v' in simp)
  have f5: "\<not> isl (json_Marshal_int (Artifact.Length strct)) \<and>
      json_Unmarshal_int (projr (json_Marshal_int (Artifact.Length strct))) = Inr (Artifact.Length strct)"
    by (rule round_tripsD [OF round_trips_int]) (use v' in simp)
  have f6: "\<not> isl (json_Marshal_ptr ''*sarif.ArtifactLocation'' (ArtifactLocation_MarshalJSON scn ord) (Artifact.Location strct)) \<and>
      json_Unmarshal_ptr (ArtifactLocation_UnmarshalJSON ord') (projr (json_Marshal_ptr ''*sarif.ArtifactLocation'' (ArtifactLocation_MarshalJSON scn ord) (Artifact.Location strct))) = Inr (Artifact.Location strct)"
    by (rule round_tripsD [OF round_trips_ptr [OF ArtifactLocation_round_trips]]) (use v' in simp)
  have f7: "\<not> isl (json_Marshal_string (Artifact.MimeType strct)) \<and>
      json_Unmarshal_string (projr (json_Marshal_string (Artifact.MimeType strct))) = Inr (Artifact.MimeType strct)"
    by (rule round_tripsD [OF round_trips_string]) (use v' in simp)
  have f8: "\<not> isl (json_Marshal_int (Artifact.Offset strct)) \<and>
      json_Unmarshal_int (projr (json_Marshal_int (Artifact.Offset strct))) = Inr (Artifact.Offset strct)"
    by (rule round_tripsD [OF round_trips_int]) (use v' in simp)
  have f9: "\<not> isl (json_Marshal_int (Artifact.ParentIndex strct)) \<and>
      json_Unmarshal_int (projr (json_Marshal_int (Artifact.ParentIndex strct))) = Inr (Artifact.ParentIndex strct)"
    by (rule round_tripsD [OF round_trips_int]) (use v' in simp)
  have f10: "\<not> isl (json_Marshal_bytes ''*sarif.PropertyBag'' (PropertyBag_MarshalJSON scn ord) (Artifact.Properties strct)) \<and>
      json_Unmarshal_ptr (PropertyBag_UnmarshalJSON ord') (projr (json_Marshal_bytes ''*sarif.PropertyBag'' (PropertyBag_MarshalJSON scn ord) (Artifact.Properties strct))) = Inr (Artifact.Properties strct)"
    by (rule round_tripsD [OF PropertyBag_field_round_trips]) (use v' in simp)
  have f11: "\<not> isl (json_Marshal_slice json_Marshal_string (Artifact.Roles strct)) \<and>
      json_Unmarshal_slice json_Unmarshal_string (projr (json_Marshal_slice json_Marshal_string (Artifact.Roles strct))) = Inr (Artifact.Roles strct)"
    by (rule round_tripsD [OF round_trips_slice [OF round_trips_string]]) (use v' in simp)
  have f12: "\<not> isl (json_Marshal_string (Artifact.SourceLanguage strct)) \<and>
      json_Unmarshal_string (projr (json_Marshal_string (Artifact.SourceLanguage strct))) = Inr (Artifact.SourceLanguage strct)"
    by (rule round_tripsD [OF round_trips_string]) (use v' in simp)
  note fs = f0 f1 f2 f3 f4 f5 f6 f7 f8 f9 f10 f11 f12
  have rs: "?rs =
     [(''contents'', json_Marshal_ptr ''*sarif.ArtifactContent'' (ArtifactContent_MarshalJSON scn ord) (Artifact.Contents strct)),
      (''description'', json_Marshal_ptr ''*sarif.Message'' (Message_MarshalJSON scn ord) (Artifact.Description strct)),
      (''encoding'', json_Marshal_string (Artifact.Encoding strct)),
      (''hashes'', json_Marshal_map json_Marshal_string (Artifact.Hashes strct)),
      (''lastModifiedTimeUtc'', json_Marshal_string (Artifact.LastModifiedTimeUtc strct)),
      (''length'', json_Marshal_int (Artifact.Length strct)),
      (''location'', json_Marshal_ptr ''*sarif.ArtifactLocation'' (ArtifactLocation_MarshalJSON scn ord) (Artifact.Location strct)),
      (''mimeType'', json_Marshal_string (Artifact.MimeType strct)),
      (''offset'', json_Marshal_int (Artifact.Offset strct)),
      (''parentIndex'', json_Marshal_int (Artifact.ParentIndex strct)),
      (''properties'', json_Marshal_bytes ''*sarif.PropertyBag'' (PropertyBag_MarshalJSON scn ord) (Artifact.Properties strct)),
      (''roles'', json_Marshal_slice json_Marshal_string (Artifact.Roles strct)),
      (''sourceLanguage'', json_Marshal_string (Artifact.SourceLanguage strct))]"
    by (auto simp add: Artifact_results_def)
  have keys: "map fst ?rs = Artifact_keys"
    by (simp add: Artifact_results_def Artifact_keys_def)
  then have dist: "distinct (map fst ?rs)"
    by (simp only: Artifact_keys_distinct)
  have ok: "list_all (\<lambda>e. \<not> isl (snd e)) ?rs"
    unfolding rs by (simp only: list.pred_inject snd_conv fs simp_thms)
  then have enc: "Artifact_MarshalJSON scn ord strct = Inr (JObj ?kvs)"
    by (simp add: Artifact_MarshalJSON_results [of scn ord strct] object_emit_all_eq_Inr)
  have l0: "map_of (rev ?kvs) ''contents'' = Some (projr (json_Marshal_ptr ''*sarif.ArtifactContent'' (ArtifactContent_MarshalJSON scn ord) (Artifact.Contents strct)))"
    by (rule written_lookup [OF dist]) (subst rs, intro list.set_intros)
  have l1: "map_of (rev ?kvs) ''description'' = Some (projr (json_Marshal_ptr ''*sarif.Message'' (Message_MarshalJSON scn ord) (Artifact.Description strct)))"
    by (rule written_lookup [OF dist]) (subst rs, intro list.set_intros)
  have l2: "map_of (rev ?kvs) ''encoding'' = Some (projr (json_Marshal_string (Artifact.Encoding strct)))"
    by (rule written_lookup [OF dist]) (subst rs, intro list.set_intros)
  have l3: "map_of (rev ?kvs) ''hashes'' = Some (projr (json_Marshal_map json_Marshal_string (Artifact.Hashes strct)))"
    by (rule written_lookup [OF dist]) (subst rs, intro list.set_intros)
  have l4: "map_of (rev ?kvs) ''lastModifiedTimeUtc'' = Some (projr (json_Marshal_string (Artifact.LastModifiedTimeUtc strct)))"
    by (rule written_lookup [OF dist]) (subst rs, intro list.set_intros)
  have l5: "map_of (rev ?kvs) ''length'' = Some (projr (json_Marshal_int (Artifact.Length strct)))"
    by (rule written_lookup [OF dist]) (subst rs, intro list.set_intros)
  have l6: "map_of (rev ?kvs) ''location'' = Some (projr (json_Marshal_ptr ''*sarif.ArtifactLocation'' (ArtifactLocation_MarshalJSON scn ord) (Artifact.Location strct)))"
    by (rule written_lookup [OF dist]) (subst rs, intro list.set_intros)
  have l7: "map_of (rev ?kvs) ''mimeType'' = Some (projr (json_Marshal_string (Artifact.MimeType strct)))"
    by (rule written_lookup [OF dist]) (subst rs, intro list.set_intros)
  have l8: "map_of (rev ?kvs) ''offset'' = Some (projr (json_Marshal_int (Artifact.Offset strct)))"
    by (rule written_lookup [OF dist]) (subst rs, intro list.set_intros)
  have l9: "map_of (rev ?kvs) ''parentIndex'' = Some (projr (json_Marshal_int (Artifact.ParentIndex strct)))"
    by (rule written_lookup [OF dist]) (subst rs, intro list.set_intros)
  have l10: "map_of (rev ?kvs) ''properties'' = Some (projr (json_Marshal_bytes ''*sarif.PropertyBag'' (PropertyBag_MarshalJSON scn ord) (Artifact.Properties strct)))"
    by (rule written_lookup [OF dist]) (subst rs, intro list.set_intros)
  have l11: "map_of (rev ?kvs) ''roles'' = Some (projr (json_Marshal_slice json_Marshal_string (Artifact.Roles strct)))"
    by (rule written_lookup [OF dist]) (subst rs, intro list.set_intros)
  have l12: "map_of (rev ?kvs) ''sourceLanguage'' = Some (projr (json_Marshal_string (Artifact.SourceLanguage strct)))"
    by (rule written_lookup [OF dist]) (subst rs, intro list.set_intros)
  have dec: "Artifact_decodes ord' (map_of (rev ?kvs)) strct"
    unfolding Artifact_decodes_def l0 l1 l2 l3 l4 l5 l6 l7 l8 l9 l10 l11 l12
    by (simp only: field_ok_Some fs written_dom keys subset_refl option.simps simp_thms)
  then have "Artifact_UnmarshalJSON ord' (JObj ?kvs) = Inr strct"
    by (simp only: Artifact_decode_iff)
  with enc show "rt_object (Artifact_MarshalJSON scn ord) (Artifact_UnmarshalJSON ord') strct"
    unfolding rt_object_def by blast
qed

definition Artifact_small_bags :: "Artifact \<Rightarrow> bool" where
  "Artifact_small_bags strct \<longleftrightarrow>
     ptr_all ArtifactContent_small_bags (Artifact.Contents strct) \<and>
     ptr_all Message_small_bags (Artifact.Description strct) \<and>
     ptr_all ArtifactLocation_small_bags (Artifact.Location strct) \<and>
     ptr_all PropertyBag_small_bags (Artifact.Properties strct)"

lemma Artifact_same_output:
  "same_output (Artifact_MarshalJSON scn ord) (Artifact_MarshalJSON scn ord') Artifact_small_bags"
  unfolding same_output_def
proof (intro allI impI)
  fix strct assume v: "Artifact_small_bags strct"
  note v' = v [unfolded Artifact_small_bags_def]
  have e0: "json_Marshal_ptr ''*sarif.ArtifactContent'' (ArtifactContent_MarshalJSON scn ord) (Artifact.Contents strct) =
      json_Marshal_ptr ''*sarif.ArtifactContent'' (ArtifactContent_MarshalJSON scn ord') (Artifact.Contents strct)"
    by (rule same_outputD [OF same_output_ptr [OF ArtifactContent_same_output]]) (use v' in simp)
  have e1: "json_Marshal_ptr ''*sarif.Message'' (Message_MarshalJSON scn ord) (Artifact.Description strct) =
      json_Marshal_ptr ''*sarif.Message'' (Message_MarshalJSON scn ord') (Artifact.Description strct)"
    by (rule same_outputD [OF same_output_ptr [OF Message_same_output]]) (use v' in simp)
  have e6: "json_Marshal_ptr ''*sarif.ArtifactLocation'' (ArtifactLocation_MarshalJSON scn ord) (Artifact.Location strct) =
      json_Marshal_ptr ''*sarif.ArtifactLocation'' (ArtifactLocation_MarshalJSON scn ord') (Artifact.Location strct)"
    by (rule same_outputD [OF same_output_ptr [OF ArtifactLocation_same_output]]) (use v' in simp)
  have e10: "json_Marshal_bytes ''*sarif.PropertyBag'' (PropertyBag_MarshalJSON scn ord) (Artifact.Properties strct) =
      json_Marshal_bytes ''*sarif.PropertyBag'' (PropertyBag_MarshalJSON scn ord') (Artifact.Properties strct)"
    by (rule same_outputD [OF PropertyBag_field_same_output]) (use v' in simp)
  show "Artifact_MarshalJSON scn ord strct = Artifact_MarshalJSON scn ord' strct"
    by (simp only: Artifact_MarshalJSON_def e0 e1 e6 e10)
qed

lemma Artifact_writes_keys: "writes_keys (Artifact_MarshalJSON scn ord) Artifact_keys"
  unfolding writes_keys_def by (intro allI impI) (erule Artifact_keys_written)

lemma Artifact_unknown_key:
  assumes new: "k \<notin> set Artifact_keys" and key: "k \<in> fst ` set kvs"
    and rest: "Artifact_UnmarshalJSON ord (JObj (filter (\<lambda>e. fst e \<noteq> k) kvs)) = Inr strct"
  shows "Artifact_UnmarshalJSON ord (JObj kvs) = Inl (not_allowed k)"
proof -
  have rej: "switch k (Artifact_cases ord v) (reject k) s = Inl (not_allowed k)" for v s
    by (rule switch_rejects) (simp only: Artifact_cases_keys new not_False_eq_True)
  from rest obtain t where
    "range_loop (\<lambda>k v. switch k (Artifact_cases ord v) (reject k)) (members ord (filter (\<lambda>e. fst e \<noteq> k) kvs)) Artifact_zero = Inr t"
    by (cases "range_loop (\<lambda>k v. switch k (Artifact_cases ord v) (reject k)) (members ord (filter (\<lambda>e. fst e \<noteq> k) kvs)) Artifact_zero")
       (simp_all add: Artifact_UnmarshalJSON_def members_def)
  from unknown_key_named [OF Artifact_regular rej key this]
  show ?thesis by (simp add: Artifact_UnmarshalJSON_def members_def)
qed

lemma Artifact_unknown_key_fails:
  assumes "k \<notin> set Artifact_keys" and "k \<in> fst ` set kvs"
  shows "isl (Artifact_UnmarshalJSON ord (JObj kvs))"
proof (cases "Artifact_UnmarshalJSON ord (JObj kvs)")
  case (Inr strct)
  then have "dom (map_of (rev kvs)) \<subseteq> set Artifact_keys"
    by (simp only: Artifact_decode_iff Artifact_decodesD(1))
  with assms show ?thesis by (auto simp: dom_map_of_conv_image_fst)
qed simp

lemma Artifact_rejects_unknown_keys: "rejects_unknown_keys (Artifact_UnmarshalJSON ord) Artifact_keys"
  by (rule rejects_unknown_keysI) (erule (1) Artifact_unknown_key_fails, erule (2) Artifact_unknown_key)

subsection \<open>Region: decoding and encoding\<close>

definition Region_keys :: "string list" where
  "Region_keys = [''byteLength'', ''byteOffset'', ''charLength'', ''charOffset'', ''endColumn'', ''endLine'', ''message'', ''properties'', ''snippet'', ''sourceLanguage'', ''startColumn'', ''startLine'']"

definition Region_decodes :: "order \<Rightarrow> (string \<rightharpoonup> json) \<Rightarrow> Region \<Rightarrow> bool" where
  "Region_decodes ord m strct \<longleftrightarrow>
     dom m \<subseteq> set Region_keys \<and>
     field_ok json_Unmarshal_int (m ''byteLength'') 0 (Region.ByteLength strct) \<and>
     field_ok json_Unmarshal_int (m ''byteOffset'') 0 (Region.ByteOffset strct) \<and>
     field_ok json_Unmarshal_int (m ''charLength'') 0 (Region.CharLength strct) \<and>
     field_ok json_Unmarshal_int (m ''charOffset'') 0 (Region.CharOffset strct) \<and>
     field_ok json_Unmarshal_int (m ''endColumn'') 0 (Region.EndColumn strct) \<and>
     field_ok json_Unmarshal_int (m ''endLine'') 0 (Region.EndLine strct) \<and>
     field_ok (json_Unmarshal_ptr (Message_UnmarshalJSON ord)) (m ''message'') None (Region.Message strct) \<and>
     field_ok (json_Unmarshal_ptr (PropertyBag_UnmarshalJSON ord)) (m ''properties'') None (Region.Properties strct) \<and>
     field_ok (json_Unmarshal_ptr (ArtifactContent_UnmarshalJSON ord)) (m ''snippet'') None (Region.Snippet strct) \<and>
     field_ok json_Unmarshal_string (m ''sourceLanguage'') [] (Region.SourceLanguage strct) \<and>
     field_ok json_Unmarshal_int (m ''startColumn'') 0 (Region.StartColumn strct) \<and>
     field_ok json_Unmarshal_int (m ''startLine'') 0 (Region.StartLine strct)"

lemma Region_cases_keys: "fst ` set (Region_cases ord v) = set Region_keys"
  by (rule keys_image) (simp add: Region_cases_def Region_keys_def)

lemma Region_regular: "regular (\<lambda>k v. switch k (Region_cases ord v) (reject k))"
  by (rule regular_switch) (simp add: Region_cases_def)

lemma Region_fields:
  "field_case (Region_cases ord) Region.ByteLength ''byteLength'' json_Unmarshal_int"
  "field_case (Region_cases ord) Region.ByteOffset ''byteOffset'' json_Unmarshal_int"
  "field_case (Region_cases ord) Region.CharLength ''charLength'' json_Unmarshal_int"
  "field_case (Region_cases ord) Region.CharOffset ''charOffset'' json_Unmarshal_int"
  "field_case (Region_cases ord) Region.EndColumn ''endColumn'' json_Unmarshal_int"
  "field_case (Region_cases ord) Region.EndLine ''endLine'' json_Unmarshal_int"
  "field_case (Region_cases ord) Region.Message ''message'' (json_Unmarshal_ptr (Message_UnmarshalJSON ord))"
  "field_case (Region_cases ord) Region.Properties ''properties'' (json_Unmarshal_ptr (PropertyBag_UnmarshalJSON ord))"
  "field_case (Region_cases ord) Region.Snippet ''snippet'' (json_Unmarshal_ptr (ArtifactContent_UnmarshalJSON ord))"
  "field_case (Region_cases ord) Region.SourceLanguage ''sourceLanguage'' json_Unmarshal_string"
  "field_case (Region_cases ord) Region.StartColumn ''startColumn'' json_Unmarshal_int"
  "field_case (Region_cases ord) Region.StartLine ''startLine'' json_Unmarshal_int"
  unfolding field_case_def Region_cases_def
  by (simp_all add: writes_into writes_received keeps_into split_def)

lemma Region_loop_sound:
  assumes loop: "range_loop (\<lambda>k v. switch k (Region_cases ord v) (reject k)) (members ord kvs) Region_zero = Inr strct"
  shows "dom (map_of (rev kvs)) \<subseteq> set Region_keys \<and>
     field_ok json_Unmarshal_int (map_of (rev kvs) ''byteLength'') 0 (Region.ByteLength strct) \<and>
     field_ok json_Unmarshal_int (map_of (rev kvs) ''byteOffset'') 0 (Region.ByteOffset strct) \<and>
     field_ok json_Unmarshal_int (map_of (rev kvs) ''charLength'') 0 (Region.CharLength strct) \<and>
     field_ok json_Unmarshal_int (map_of (rev kvs) ''charOffset'') 0 (Region.CharOffset strct) \<and>
     field_ok json_Unmarshal_int (map_of (rev kvs) ''endColumn'') 0 (Region.EndColumn strct) \<and>
     field_ok json_Unmarshal_int (map_of (rev kvs) ''endLine'') 0 (Region.EndLine strct) \<and>
     field_ok (json_Unmarshal_ptr (Message_UnmarshalJSON ord)) (map_of (rev kvs) ''message'') None (Region.Message strct) \<and>
     field_ok (json_Unmarshal_ptr (PropertyBag_UnmarshalJSON ord)) (map_of (rev kvs) ''properties'') None (Region.Properties strct) \<and>
     field_ok (json_Unmarshal_ptr (ArtifactContent_UnmarshalJSON ord)) (map_of (rev kvs) ''snippet'') None (Region.Snippet strct) \<and>
     field_ok json_Unmarshal_string (map_of (rev kvs) ''sourceLanguage'') [] (Region.SourceLanguage strct) \<and>
     field_ok json_Unmarshal_int (map_of (rev kvs) ''startColumn'') 0 (Region.StartColumn strct) \<and>
     field_ok json_Unmarshal_int (map_of (rev kvs) ''startLine'') 0 (Region.StartLine strct)"
proof -
  have "fst ` set (members ord kvs) \<subseteq> set Region_keys"
    by (rule loop_keys_known [OF loop]) (rule Region_cases_keys)
  then have keys: "dom (map_of (rev kvs)) \<subseteq> set Region_keys"
    by (simp add: dom_members [of kvs ord])
  note fld = field_after_loop [OF _ members_distinct loop, unfolded map_of_members]
  show ?thesis
    using keys fld [OF Region_fields(1)] fld [OF Region_fields(2)] fld [OF Region_fields(3)] fld [OF Region_fields(4)] fld [OF Region_fields(5)] fld [OF Region_fields(6)] fld [OF Region_fields(7)] fld [OF Region_fields(8)] fld [OF Region_fields(9)] fld [OF Region_fields(10)] fld [OF Region_fields(11)] fld [OF Region_fields(12)] 
    by (simp only: prod.case Region_zero_def Region.select_convs simp_thms)
qed

lemma Region_decodesD:
  assumes "Region_decodes ord m strct"
  shows "dom m \<subseteq> set Region_keys"
    and "field_ok json_Unmarshal_int (m ''byteLength'') 0 (Region.ByteLength strct)"
    and "field_ok json_Unmarshal_int (m ''byteOffset'') 0 (Region.ByteOffset strct)"
    and "field_ok json_Unmarshal_int (m ''charLength'') 0 (Region.CharLength strct)"
    and "field_ok json_Unmarshal_int (m ''charOffset'') 0 (Region.CharOffset strct)"
    and "field_ok json_Unmarshal_int (m ''endColumn'') 0 (Region.EndColumn strct)"
    and "field_ok json_Unmarshal_int (m ''endLine'') 0 (Region.EndLine strct)"
    and "field_ok (json_Unmarshal_ptr (Message_UnmarshalJSON ord)) (m ''message'') None (Region.Message strct)"
    and "field_ok (json_Unmarshal_ptr (PropertyBag_UnmarshalJSON ord)) (m ''properties'') None (Region.Properties strct)"
    and "field_ok (json_Unmarshal_ptr (ArtifactContent_UnmarshalJSON ord)) (m ''snippet'') None (Region.Snippet strct)"
    and "field_ok json_Unmarshal_string (m ''sourceLanguage'') [] (Region.SourceLanguage strct)"
    and "field_ok json_Unmarshal_int (m ''startColumn'') 0 (Region.StartColumn strct)"
    and "field_ok json_Unmarshal_int (m ''startLine'') 0 (Region.StartLine strct)"
  using assms unfolding Region_decodes_def by - (elim conjE, assumption)+

lemma Region_decodes_unique:
  assumes "Region_decodes ord m a" and "Region_decodes ord m b"
  shows "a = b"
  apply (rule Region.equality)
  apply (rule field_ok_unique [OF Region_decodesD(2) [OF assms(1)] Region_decodesD(2) [OF assms(2)]])
  apply (rule field_ok_unique [OF Region_decodesD(3) [OF assms(1)] Region_decodesD(3) [OF assms(2)]])
  apply (rule field_ok_unique [OF Region_decodesD(4) [OF assms(1)] Region_decodesD(4) [OF assms(2)]])
  apply (rule field_ok_unique [OF Region_decodesD(5) [OF assms(1)] Region_decodesD(5) [OF assms(2)]])
  apply (rule field_ok_unique [OF Region_decodesD(6) [OF assms(1)] Region_decodesD(6) [OF assms(2)]])
  apply (rule field_ok_unique [OF Region_decodesD(7) [OF assms(1)] Region_decodesD(7) [OF assms(2)]])
  apply (rule field_ok_unique [OF Region_decodesD(8) [OF assms(1)] Region_decodesD(8) [OF assms(2)]])
  apply (rule field_ok_unique [OF Region_decodesD(9) [OF assms(1)] Region_decodesD(9) [OF assms(2)]])
  apply (rule field_ok_unique [OF Region_decodesD(10) [OF assms(1)] Region_decodesD(10) [OF assms(2)]])
  apply (rule field_ok_unique [OF Region_decodesD(11) [OF assms(1)] Region_decodesD(11) [OF assms(2)]])
  apply (rule field_ok_unique [OF Region_decodesD(12) [OF assms(1)] Region_decodesD(12) [OF assms(2)]])
  apply (rule field_ok_unique [OF Region_decodesD(13) [OF assms(1)] Region_decodesD(13) [OF assms(2)]])
  apply simp
  done

lemma Region_accepts:
  assumes "Region_decodes ord m strct" and "m k = Some v"
  shows "accepting (switch k (Region_cases ord v) (reject k))"
proof -
  from assms have "k \<in> set Region_keys" by (auto simp: Region_decodes_def)
  then have key: "k \<in> fst ` set (Region_cases ord v)"
    by (simp only: Region_cases_keys)
  have rows: "list_all (\<lambda>(c, h). m c = Some v \<longrightarrow> accepting h) (Region_cases ord v)"
    unfolding Region_cases_def list.pred_inject
    apply (rule conjI [OF accept_row [where m = m and v = v, OF Region_decodesD(2) [OF assms(1)]]])
    apply (rule conjI [OF accept_row [where m = m and v = v, OF Region_decodesD(3) [OF assms(1)]]])
    apply (rule conjI [OF accept_row [where m = m and v = v, OF Region_decodesD(4) [OF assms(1)]]])
    apply (rule conjI [OF accept_row [where m = m and v = v, OF Region_decodesD(5) [OF assms(1)]]])
    apply (rule conjI [OF accept_row [where m = m and v = v, OF Region_decodesD(6) [OF assms(1)]]])
    apply (rule conjI [OF accept_row [where m = m and v = v, OF Region_decodesD(7) [OF assms(1)]]])
    apply (rule conjI [OF accept_row [where m = m and v = v, OF Region_decodesD(8) [OF assms(1)]]])
    apply (rule conjI [OF accept_row [where m = m and v = v, OF Region_decodesD(9) [OF assms(1)]]])
    apply (rule conjI [OF accept_row [where m = m and v = v, OF Region_decodesD(10) [OF assms(1)]]])
    apply (rule conjI [OF accept_row [where m = m and v = v, OF Region_decodesD(11) [OF assms(1)]]])
    apply (rule conjI [OF accept_row [where m = m and v = v, OF Region_decodesD(12) [OF assms(1)]]])
    apply (rule conjI [OF accept_row [where m = m and v = v, OF Region_decodesD(13) [OF assms(1)]]])
    apply simp
    done
  show ?thesis by (rule rows_accept [OF rows assms(2) key])
qed

lemma Region_decode_iff:
  "Region_UnmarshalJSON ord (JObj kvs) = Inr strct \<longleftrightarrow>
   Region_decodes ord (map_of (rev kvs)) strct"
proof
  assume "Region_UnmarshalJSON ord (JObj kvs) = Inr strct"
  then have loop: "range_loop (\<lambda>k v. switch k (Region_cases ord v) (reject k)) (members ord kvs) Region_zero = Inr strct"
    by (auto simp: Region_UnmarshalJSON_def members_def split: sum.splits)
  from Region_loop_sound [OF loop]
  show "Region_decodes ord (map_of (rev kvs)) strct"
    by (simp add: Region_decodes_def)
next
  assume d: "Region_decodes ord (map_of (rev kvs)) strct"
  have "\<exists>t. range_loop (\<lambda>k v. switch k (Region_cases ord v) (reject k)) (members ord kvs) Region_zero = Inr t"
  proof (rule loop_succeeds [OF Region_regular])
    fix k v assume "(k, v) \<in> set (members ord kvs)"
    then have "map_of (rev kvs) k = Some v" by (rule member_lookup)
    from Region_accepts [OF d this]
    show "accepting (switch k (Region_cases ord v) (reject k))" .
  qed
  then obtain strct' where
    loop: "range_loop (\<lambda>k v. switch k (Region_cases ord v) (reject k)) (members ord kvs) Region_zero = Inr strct'" ..
  from Region_loop_sound [OF loop]
  have d': "Region_decodes ord (map_of (rev kvs)) strct'"
    by (simp add: Region_decodes_def)
  from Region_decodes_unique [OF d' d] have "strct' = strct" .
  with loop show "Region_UnmarshalJSON ord (JObj kvs) = Inr strct"
    by (simp add: Region_UnmarshalJSON_def members_def)
qed

definition Region_results :: "scanner \<Rightarrow> order \<Rightarrow> Region \<Rightarrow> (string \<times> (error + json)) list" where
  "Region_results scn ord strct =
     [(''byteLength'', json_Marshal_int (Region.ByteLength strct)),
      (''byteOffset'', json_Marshal_int (Region.ByteOffset strct)),
      (''charLength'', json_Marshal_int (Region.CharLength strct)),
      (''charOffset'', json_Marshal_int (Region.CharOffset strct)),
      (''endColumn'', json_Marshal_int (Region.EndColumn strct)),
      (''endLine'', json_Marshal_int (Region.EndLine strct)),
      (''message'', json_Marshal_ptr ''*sarif.Message'' (Message_MarshalJSON scn ord) (Region.Message strct)),
      (''properties'', json_Marshal_bytes ''*sarif.PropertyBag'' (PropertyBag_MarshalJSON scn ord) (Region.Properties strct)),
      (''snippet'', json_Marshal_ptr ''*sarif.ArtifactContent'' (ArtifactContent_MarshalJSON scn ord) (Region.Snippet strct)),
      (''sourceLanguage'', json_Marshal_string (Region.SourceLanguage strct)),
      (''startColumn'', json_Marshal_int (Region.StartColumn strct)),
      (''startLine'', json_Marshal_int (Region.StartLine strct))]"

lemma Region_MarshalJSON_results:
  "Region_MarshalJSON scn ord strct = object (emit_all (Region_results scn ord strct))"
  by (simp add: Region_MarshalJSON_def Region_results_def emit_nilcheck)

lemma Region_keys_written:
  "Region_MarshalJSON scn ord strct = Inr j \<Longrightarrow> \<exists>kvs. j = JObj kvs \<and> map fst kvs = Region_keys"
  using keys_written [of "Region_results scn ord strct" j]
  by (simp add: Region_MarshalJSON_results Region_results_def Region_keys_def)

definition Region_encodable :: "scanner \<Rightarrow> order \<Rightarrow> Region \<Rightarrow> bool" where
  "Region_encodable scn ord strct \<longleftrightarrow>
     ptr_all (Message_encodable scn ord) (Region.Message strct) \<and>
     ptr_all (PropertyBag_encodable scn ord) (Region.Properties strct) \<and>
     ptr_all (ArtifactContent_encodable scn ord) (Region.Snippet strct)"

lemma Region_fails_unless: "fails_unless (Region_MarshalJSON scn ord) (Region_encodable scn ord)"
  unfolding fails_unless_def Region_MarshalJSON_results Region_results_def Region_encodable_def isl_object_emit_all
  by (auto simp add: always_simps
      fails_unlessD [OF fails_unless_int]
      fails_unlessD [OF fails_unless_ptr [OF Message_fails_unless]]
      fails_unlessD [OF PropertyBag_field_fails_unless]
      fails_unlessD [OF fails_unless_ptr [OF ArtifactContent_fails_unless]]
      fails_unlessD [OF fails_unless_string])

definition Region_valid :: "Region \<Rightarrow> bool" where
  "Region_valid strct \<longleftrightarrow>
     ptr_all Message_valid (Region.Message strct) \<and>
     ptr_all PropertyBag_valid (Region.Properties strct) \<and>
     ptr_all ArtifactContent_valid (Region.Snippet strct)"

lemma Region_keys_distinct: "distinct Region_keys"
  by (simp add: Region_keys_def)

lemma Region_round_trips:
  "round_trips_object (Region_MarshalJSON scn ord) (Region_UnmarshalJSON ord') Region_valid"
  unfolding round_trips_object_def
proof (intro allI impI)
  fix strct assume v: "Region_valid strct"
  note v' = v [unfolded Region_valid_def]
  let ?rs = "Region_results scn ord strct"
  let ?kvs = "map (\<lambda>e. (fst e, projr (snd e))) ?rs"
  have f0: "\<not> isl (json_Marshal_int (Region.ByteLength strct)) \<and>
      json_Unmarshal_int (projr (json_Marshal_int (Region.ByteLength strct))) = Inr (Region.ByteLength strct)"
    by (rule round_tripsD [OF round_trips_int]) (use v' in simp)
  have f1: "\<not> isl (json_Marshal_int (Region.ByteOffset strct)) \<and>
      json_Unmarshal_int (projr (json_Marshal_int (Region.ByteOffset strct))) = Inr (Region.ByteOffset strct)"
    by (rule round_tripsD [OF round_trips_int]) (use v' in simp)
  have f2: "\<not> isl (json_Marshal_int (Region.CharLength strct)) \<and>
      json_Unmarshal_int (projr (json_Marshal_int (Region.CharLength strct))) = Inr (Region.CharLength strct)"
    by (rule round_tripsD [OF round_trips_int]) (use v' in simp)
  have f3: "\<not> isl (json_Marshal_int (Region.CharOffset strct)) \<and>
      json_Unmarshal_int (projr (json_Marshal_int (Region.CharOffset strct))) = Inr (Region.CharOffset strct)"
    by (rule round_tripsD [OF round_trips_int]) (use v' in simp)
  have f4: "\<not> isl (json_Marshal_int (Region.EndColumn strct)) \<and>
      json_Unmarshal_int (projr (json_Marshal_int (Region.EndColumn strct))) = Inr (Region.EndColumn strct)"
    by (rule round_tripsD [OF round_trips_int]) (use v' in simp)
  have f5: "\<not> isl (json_Marshal_int (Region.EndLine strct)) \<and>
      json_Unmarshal_int (projr (json_Marshal_int (Region.EndLine strct))) = Inr (Region.EndLine strct)"
    by (rule round_tripsD [OF round_trips_int]) (use v' in simp)
  have f6: "\<not> isl (json_Marshal_ptr ''*sarif.Message'' (Message_MarshalJSON scn ord) (Region.Message strct)) \<and>
      json_Unmarshal_ptr (Message_UnmarshalJSON ord') (projr (json_Marshal_ptr ''*sarif.Message'' (Message_MarshalJSON scn ord) (Region.Message strct))) = Inr (Region.Message strct)"
    by (rule round_tripsD [OF round_trips_ptr [OF Message_round_trips]]) (use v' in simp)
  have f7: "\<not> isl (json_Marshal_bytes ''*sarif.PropertyBag'' (PropertyBag_MarshalJSON scn ord) (Region.Properties strct)) \<and>
      json_Unmarshal_ptr (PropertyBag_UnmarshalJSON ord') (projr (json_Marshal_bytes ''*sarif.PropertyBag'' (PropertyBag_MarshalJSON scn ord) (Region.Properties strct))) = Inr (Region.Properties strct)"
    by (rule round_tripsD [OF PropertyBag_field_round_trips]) (use v' in simp)
  have f8: "\<not> isl (json_Marshal_ptr ''*sarif.ArtifactContent'' (ArtifactContent_MarshalJSON scn ord) (Region.Snippet strct)) \<and>
      json_Unmarshal_ptr (ArtifactContent_UnmarshalJSON ord') (projr (json_Marshal_ptr ''*sarif.ArtifactContent'' (ArtifactContent_MarshalJSON scn ord) (Region.Snippet strct))) = Inr (Region.Snippet strct)"
    by (rule round_tripsD [OF round_trips_ptr [OF ArtifactContent_round_trips]]) (use v' in simp)
  have f9: "\<not> isl (json_Marshal_string (Region.SourceLanguage strct)) \<and>
      json_Unmarshal_string (projr (json_Marshal_string (Region.SourceLanguage strct))) = Inr (Region.SourceLanguage strct)"
    by (rule round_tripsD [OF round_trips_string]) (use v' in simp)
  have f10: "\<not> isl (json_Marshal_int (Region.StartColumn strct)) \<and>
      json_Unmarshal_int (projr (json_Marshal_int (Region.StartColumn strct))) = Inr (Region.StartColumn strct)"
    by (rule round_tripsD [OF round_trips_int]) (use v' in simp)
  have f11: "\<not> isl (json_Marshal_int (Region.StartLine strct)) \<and>
      json_Unmarshal_int (projr (json_Marshal_int (Region.StartLine strct))) = Inr (Region.StartLine strct)"
    by (rule round_tripsD [OF round_trips_int]) (use v' in simp)
  note fs = f0 f1 f2 f3 f4 f5 f6 f7 f8 f9 f10 f11
  have rs: "?rs =
     [(''byteLength'', json_Marshal_int (Region.ByteLength strct)),
      (''byteOffset'', json_Marshal_int (Region.ByteOffset strct)),
      (''charLength'', json_Marshal_int (Region.CharLength strct)),
      (''charOffset'', json_Marshal_int (Region.CharOffset strct)),
      (''endColumn'', json_Marshal_int (Region.EndColumn strct)),
      (''endLine'', json_Marshal_int (Region.EndLine strct)),
      (''message'', json_Marshal_ptr ''*sarif.Message'' (Message_MarshalJSON scn ord) (Region.Message strct)),
      (''properties'', json_Marshal_bytes ''*sarif.PropertyBag'' (PropertyBag_MarshalJSON scn ord) (Region.Properties strct)),
      (''snippet'', json_Marshal_ptr ''*sarif.ArtifactContent'' (ArtifactContent_MarshalJSON scn ord) (Region.Snippet strct)),
      (''sourceLanguage'', json_Marshal_string (Region.SourceLanguage strct)),
      (''startColumn'', json_Marshal_int (Region.StartColumn strct)),
      (''startLine'', json_Marshal_int (Region.StartLine strct))]"
    by (auto simp add: Region_results_def)
  have keys: "map fst ?rs = Region_keys"
    by (simp add: Region_results_def Region_keys_def)
  then have dist: "distinct (map fst ?rs)"
    by (simp only: Region_keys_distinct)
  have ok: "list_all (\<lambda>e. \<not> isl (snd e)) ?rs"
    unfolding rs by (simp only: list.pred_inject snd_conv fs simp_thms)
  then have enc: "Region_MarshalJSON scn ord strct = Inr (JObj ?kvs)"
    by (simp add: Region_MarshalJSON_results [of scn ord strct] object_emit_all_eq_Inr)
  have l0: "map_of (rev ?kvs) ''byteLength'' = Some (projr (json_Marshal_int (Region.ByteLength strct)))"
    by (rule written_lookup [OF dist]) (subst rs, intro list.set_intros)
  have l1: "map_of (rev ?kvs) ''byteOffset'' = Some (projr (json_Marshal_int (Region.ByteOffset strct)))"
    by (rule written_lookup [OF dist]) (subst rs, intro list.set_intros)
  have l2: "map_of (rev ?kvs) ''charLength'' = Some (projr (json_Marshal_int (Region.CharLength strct)))"
    by (rule written_lookup [OF dist]) (subst rs, intro list.set_intros)
  have l3: "map_of (rev ?kvs) ''charOffset'' = Some (projr (json_Marshal_int (Region.CharOffset strct)))"
    by (rule written_lookup [OF dist]) (subst rs, intro list.set_intros)
  have l4: "map_of (rev ?kvs) ''endColumn'' = Some (projr (json_Marshal_int (Region.EndColumn strct)))"
    by (rule written_lookup [OF dist]) (subst rs, intro list.set_intros)
  have l5: "map_of (rev ?kvs) ''endLine'' = Some (projr (json_Marshal_int (Region.EndLine strct)))"
    by (rule written_lookup [OF dist]) (subst rs, intro list.set_intros)
  have l6: "map_of (rev ?kvs) ''message'' = Some (projr (json_Marshal_ptr ''*sarif.Message'' (Message_MarshalJSON scn ord) (Region.Message strct)))"
    by (rule written_lookup [OF dist]) (subst rs, intro list.set_intros)
  have l7: "map_of (rev ?kvs) ''properties'' = Some (projr (json_Marshal_bytes ''*sarif.PropertyBag'' (PropertyBag_MarshalJSON scn ord) (Region.Properties strct)))"
    by (rule written_lookup [OF dist]) (subst rs, intro list.set_intros)
  have l8: "map_of (rev ?kvs) ''snippet'' = Some (projr (json_Marshal_ptr ''*sarif.ArtifactContent'' (ArtifactContent_MarshalJSON scn ord) (Region.Snippet strct)))"
    by (rule written_lookup [OF dist]) (subst rs, intro list.set_intros)
  have l9: "map_of (rev ?kvs) ''sourceLanguage'' = Some (projr (json_Marshal_string (Region.SourceLanguage strct)))"
    by (rule written_lookup [OF dist]) (subst rs, intro list.set_intros)
  have l10: "map_of (rev ?kvs) ''startColumn'' = Some (projr (json_Marshal_int (Region.StartColumn strct)))"
    by (rule written_lookup [OF dist]) (subst rs, intro list.set_intros)
  have l11: "map_of (rev ?kvs) ''startLine'' = Some (projr (json_Marshal_int (Region.StartLine strct)))"
    by (rule written_lookup [OF dist]) (subst rs, intro list.set_intros)
  have dec: "Region_decodes ord' (map_of (rev ?kvs)) strct"
    unfolding Region_decodes_def l0 l1 l2 l3 l4 l5 l6 l7 l8 l9 l10 l11
    by (simp only: field_ok_Some fs written_dom keys subset_refl option.simps simp_thms)
  then have "Region_UnmarshalJSON ord' (JObj ?kvs) = Inr strct"
    by (simp only: Region_decode_iff)
  with enc show "rt_object (Region_MarshalJSON scn ord) (Region_UnmarshalJSON ord') strct"
    unfolding rt_object_def by blast
qed

definition Region_small_bags :: "Region \<Rightarrow> bool" where
  "Region_small_bags strct \<longleftrightarrow>
     ptr_all Message_small_bags (Region.Message strct) \<and>
     ptr_all PropertyBag_small_bags (Region.Properties strct) \<and>
     ptr_all ArtifactContent_small_bags (Region.Snippet strct)"

lemma Region_same_output:
  "same_output (Region_MarshalJSON scn ord) (Region_MarshalJSON scn ord') Region_small_bags"
  unfolding same_output_def
proof (intro allI impI)
  fix strct assume v: "Region_small_bags strct"
  note v' = v [unfolded Region_small_bags_def]
  have e6: "json_Marshal_ptr ''*sarif.Message'' (Message_MarshalJSON scn ord) (Region.Message strct) =
      json_Marshal_ptr ''*sarif.Message'' (Message_MarshalJSON scn ord') (Region.Message strct)"
    by (rule same_outputD [OF same_output_ptr [OF Message_same_output]]) (use v' in simp)
  have e7: "json_Marshal_bytes ''*sarif.PropertyBag'' (PropertyBag_MarshalJSON scn ord) (Region.Properties strct) =
      json_Marshal_bytes ''*sarif.PropertyBag'' (PropertyBag_MarshalJSON scn ord') (Region.Properties strct)"
    by (rule same_outputD [OF PropertyBag_field_same_output]) (use v' in simp)
  have e8: "json_Marshal_ptr ''*sarif.ArtifactContent'' (ArtifactContent_MarshalJSON scn ord) (Region.Snippet strct) =
      json_Marshal_ptr ''*sarif.ArtifactContent'' (ArtifactContent_MarshalJSON scn ord') (Region.Snippet strct)"
    by (rule same_outputD [OF same_output_ptr [OF ArtifactContent_same_output]]) (use v' in simp)
  show "Region_MarshalJSON scn ord strct = Region_MarshalJSON scn ord' strct"
    by (simp only: Region_MarshalJSON_def e6 e7 e8)
qed

lemma Region_writes_keys: "writes_keys (Region_MarshalJSON scn ord) Region_keys"
  unfolding writes_keys_def by (intro allI impI) (erule Region_keys_written)

lemma Region_unknown_key:
  assumes new: "k \<notin> set Region_keys" and key: "k \<in> fst ` set kvs"
    and rest: "Region_UnmarshalJSON ord (JObj (filter (\<lambda>e. fst e \<noteq> k) kvs)) = Inr strct"
  shows "Region_UnmarshalJSON ord (JObj kvs) = Inl (not_allowed k)"
proof -
  have rej: "switch k (Region_cases ord v) (reject k) s = Inl (not_allowed k)" for v s
    by (rule switch_rejects) (simp only: Region_cases_keys new not_False_eq_True)
  from rest obtain t where
    "range_loop (\<lambda>k v. switch k (Region_cases ord v) (reject k)) (members ord (filter (\<lambda>e. fst e \<noteq> k) kvs)) Region_zero = Inr t"
    by (cases "range_loop (\<lambda>k v. switch k (Region_cases ord v) (reject k)) (members ord (filter (\<lambda>e. fst e \<noteq> k) kvs)) Region_zero")
       (simp_all add: Region_UnmarshalJSON_def members_def)
  from unknown_key_named [OF Region_regular rej key this]
  show ?thesis by (simp add: Region_UnmarshalJSON_def members_def)
qed

lemma Region_unknown_key_fails:
  assumes "k \<notin> set Region_keys" and "k \<in> fst ` set kvs"
  shows "isl (Region_UnmarshalJSON ord (JObj kvs))"
proof (cases "Region_UnmarshalJSON ord (JObj kvs)")
  case (Inr strct)
  then have "dom (map_of (rev kvs)) \<subseteq> set Region_keys"
    by (simp only: Region_decode_iff Region_decodesD(1))
  with assms show ?thesis by (auto simp: dom_map_of_conv_image_fst)
qed simp

lemma Region_rejects_unknown_keys: "rejects_unknown_keys (Region_UnmarshalJSON ord) Region_keys"
  by (rule rejects_unknown_keysI) (erule (1) Region_unknown_key_fails, erule (2) Region_unknown_key)

subsection \<open>Replacement: decoding and encoding\<close>

definition Replacement_keys :: "string list" where
  "Replacement_keys = [''deletedRegion'', ''insertedContent'', ''properties'']"

definition Replacement_decodes :: "order \<Rightarrow> (string \<rightharpoonup> json) \<Rightarrow> Replacement \<Rightarrow> bool" where
  "Replacement_decodes ord m strct \<longleftrightarrow>
     dom m \<subseteq> set Replacement_keys \<and>
     field_ok (json_Unmarshal_ptr (Region_UnmarshalJSON ord)) (m ''deletedRegion'') None (Replacement.DeletedRegion strct) \<and>
     field_ok (json_Unmarshal_ptr (ArtifactContent_UnmarshalJSON ord)) (m ''insertedContent'') None (Replacement.InsertedContent strct) \<and>
     field_ok (json_Unmarshal_ptr (PropertyBag_UnmarshalJSON ord)) (m ''properties'') None (Replacement.Properties strct) \<and>
     m ''deletedRegion'' \<noteq> None"

lemma Replacement_cases_keys: "fst ` set (Replacement_cases ord v) = set Replacement_keys"
  by (rule keys_image) (simp add: Replacement_cases_def Replacement_keys_def)

lemma Replacement_regular: "regular (\<lambda>k v. switch k (Replacement_cases ord v) (reject k))"
  by (rule regular_switch) (simp add: Replacement_cases_def)

lemma Replacement_fields:
  "field_case (Replacement_cases ord) (\<lambda>(strct, deletedRegionReceived). Replacement.DeletedRegion strct) ''deletedRegion'' (json_Unmarshal_ptr (Region_UnmarshalJSON ord))"
  "field_case (Replacement_cases ord) (\<lambda>(strct, deletedRegionReceived). Replacement.InsertedContent strct) ''insertedContent'' (json_Unmarshal_ptr (ArtifactContent_UnmarshalJSON ord))"
  "field_case (Replacement_cases ord) (\<lambda>(strct, deletedRegionReceived). Replacement.Properties strct) ''properties'' (json_Unmarshal_ptr (PropertyBag_UnmarshalJSON ord))"
  "field_case (Replacement_cases ord) (\<lambda>(strct, deletedRegionReceived). deletedRegionReceived) ''deletedRegion'' (received (json_Unmarshal_ptr (Region_UnmarshalJSON ord)))"
  unfolding field_case_def Replacement_cases_def
  by (simp_all add: writes_into writes_received keeps_into split_def)

lemma Replacement_loop_sound:
  assumes loop: "range_loop (\<lambda>k v. switch k (Replacement_cases ord v) (reject k)) (members ord kvs) (Replacement_zero, False) = Inr (strct, deletedRegionReceived)"
  shows "dom (map_of (rev kvs)) \<subseteq> set Replacement_keys \<and>
     field_ok (json_Unmarshal_ptr (Region_UnmarshalJSON ord)) (map_of (rev kvs) ''deletedRegion'') None (Replacement.DeletedRegion strct) \<and>
     field_ok (json_Unmarshal_ptr (ArtifactContent_UnmarshalJSON ord)) (map_of (rev kvs) ''insertedContent'') None (Replacement.InsertedContent strct) \<and>
     field_ok (json_Unmarshal_ptr (PropertyBag_UnmarshalJSON ord)) (map_of (rev kvs) ''properties'') None (Replacement.Properties strct) \<and>
     (deletedRegionReceived \<longleftrightarrow> map_of (rev kvs) ''deletedRegion'' \<noteq> None)"
proof -
  have "fst ` set (members ord kvs) \<subseteq> set Replacement_keys"
    by (rule loop_keys_known [OF loop]) (rule Replacement_cases_keys)
  then have keys: "dom (map_of (rev kvs)) \<subseteq> set Replacement_keys"
    by (simp add: dom_members [of kvs ord])
  note fld = field_after_loop [OF _ members_distinct loop, unfolded map_of_members]
  note flg = flag_after_loop [OF _ members_distinct loop, unfolded map_of_members]
  show ?thesis
    using keys fld [OF Replacement_fields(1)] fld [OF Replacement_fields(2)] fld [OF Replacement_fields(3)] flg [OF Replacement_fields(4)]
    by (simp only: prod.case Replacement_zero_def Replacement.select_convs simp_thms)
qed

lemma Replacement_decodesD:
  assumes "Replacement_decodes ord m strct"
  shows "dom m \<subseteq> set Replacement_keys"
    and "field_ok (json_Unmarshal_ptr (Region_UnmarshalJSON ord)) (m ''deletedRegion'') None (Replacement.DeletedRegion strct)"
    and "field_ok (json_Unmarshal_ptr (ArtifactContent_UnmarshalJSON ord)) (m ''insertedContent'') None (Replacement.InsertedContent strct)"
    and "field_ok (json_Unmarshal_ptr (PropertyBag_UnmarshalJSON ord)) (m ''properties'') None (Replacement.Properties strct)"
    and "m ''deletedRegion'' \<noteq> None"
  using assms unfolding Replacement_decodes_def by - (elim conjE, assumption)+

lemma Replacement_decodes_unique:
  assumes "Replacement_decodes ord m a" and "Replacement_decodes ord m b"
  shows "a = b"
  apply (rule Replacement.equality)
  apply (rule field_ok_unique [OF Replacement_decodesD(2) [OF assms(1)] Replacement_decodesD(2) [OF assms(2)]])
  apply (rule field_ok_unique [OF Replacement_decodesD(3) [OF assms(1)] Replacement_decodesD(3) [OF assms(2)]])
  apply (rule field_ok_unique [OF Replacement_decodesD(4) [OF assms(1)] Replacement_decodesD(4) [OF assms(2)]])
  apply simp
  done

lemma Replacement_accepts:
  assumes "Replacement_decodes ord m strct" and "m k = Some v"
  shows "accepting (switch k (Replacement_cases ord v) (reject k))"
proof -
  from assms have "k \<in> set Replacement_keys" by (auto simp: Replacement_decodes_def)
  then have key: "k \<in> fst ` set (Replacement_cases ord v)"
    by (simp only: Replacement_cases_keys)
  have rows: "list_all (\<lambda>(c, h). m c = Some v \<longrightarrow> accepting h) (Replacement_cases ord v)"
    unfolding Replacement_cases_def list.pred_inject
    apply (rule conjI [OF accept_row [where m = m and v = v, OF Replacement_decodesD(2) [OF assms(1)]]])
    apply (rule conjI [OF accept_row [where m = m and v = v, OF Replacement_decodesD(3) [OF assms(1)]]])
    apply (rule conjI [OF accept_row [where m = m and v = v, OF Replacement_decodesD(4) [OF assms(1)]]])
    apply simp
    done
  show ?thesis by (rule rows_accept [OF rows assms(2) key])
qed

lemma Replacement_decode_iff:
  "Replacement_UnmarshalJSON ord (JObj kvs) = Inr strct \<longleftrightarrow>
   Replacement_decodes ord (map_of (rev kvs)) strct"
proof
  assume "Replacement_UnmarshalJSON ord (JObj kvs) = Inr strct"
  then obtain deletedRegionReceived where
    loop: "range_loop (\<lambda>k v. switch k (Replacement_cases ord v) (reject k)) (members ord kvs) (Replacement_zero, False) = Inr (strct, deletedRegionReceived)"
    and fin: "deletedRegionReceived"
    by (auto simp: Replacement_UnmarshalJSON_def members_def split: sum.splits if_splits)
  from Replacement_loop_sound [OF loop] fin
  show "Replacement_decodes ord (map_of (rev kvs)) strct"
    by (simp add: Replacement_decodes_def)
next
  assume d: "Replacement_decodes ord (map_of (rev kvs)) strct"
  have "\<exists>t. range_loop (\<lambda>k v. switch k (Replacement_cases ord v) (reject k)) (members ord kvs) (Replacement_zero, False) = Inr t"
  proof (rule loop_succeeds [OF Replacement_regular])
    fix k v assume "(k, v) \<in> set (members ord kvs)"
    then have "map_of (rev kvs) k = Some v" by (rule member_lookup)
    from Replacement_accepts [OF d this]
    show "accepting (switch k (Replacement_cases ord v) (reject k))" .
  qed
  then obtain t where "range_loop (\<lambda>k v. switch k (Replacement_cases ord v) (reject k)) (members ord kvs) (Replacement_zero, False) = Inr t" ..
  then obtain strct' deletedRegionReceived where
    loop: "range_loop (\<lambda>k v. switch k (Replacement_cases ord v) (reject k)) (members ord kvs) (Replacement_zero, False) = Inr (strct', deletedRegionReceived)"
    by (cases t) auto
  from Replacement_loop_sound [OF loop] d
  have fin: "deletedRegionReceived"
    and d': "Replacement_decodes ord (map_of (rev kvs)) strct'"
    by (simp_all add: Replacement_decodes_def)
  from Replacement_decodes_unique [OF d' d] have "strct' = strct" .
  with loop fin show "Replacement_UnmarshalJSON ord (JObj kvs) = Inr strct"
    by (simp add: Replacement_UnmarshalJSON_def members_def)
qed

definition Replacement_results :: "scanner \<Rightarrow> order \<Rightarrow> Replacement \<Rightarrow> (string \<times> (error + json)) list" where
  "Replacement_results scn ord strct =
     [(''deletedRegion'', if Replacement.DeletedRegion strct = None then Inl (RequiredField ''deletedRegion'') else json_Marshal_ptr ''*sarif.Region'' (Region_MarshalJSON scn ord) (Replacement.DeletedRegion strct)),
      (''insertedContent'', json_Marshal_ptr ''*sarif.ArtifactContent'' (ArtifactContent_MarshalJSON scn ord) (Replacement.InsertedContent strct)),
      (''properties'', json_Marshal_bytes ''*sarif.PropertyBag'' (PropertyBag_MarshalJSON scn ord) (Replacement.Properties strct))]"

lemma Replacement_MarshalJSON_results:
  "Replacement_MarshalJSON scn ord strct = object (emit_all (Replacement_results scn ord strct))"
  by (simp add: Replacement_MarshalJSON_def Replacement_results_def emit_nilcheck)

lemma Replacement_keys_written:
  "Replacement_MarshalJSON scn ord strct = Inr j \<Longrightarrow> \<exists>kvs. j = JObj kvs \<and> map fst kvs = Replacement_keys"
  using keys_written [of "Replacement_results scn ord strct" j]
  by (simp add: Replacement_MarshalJSON_results Replacement_results_def Replacement_keys_def)

definition Replacement_encodable :: "scanner \<Rightarrow> order \<Rightarrow> Replacement \<Rightarrow> bool" where
  "Replacement_encodable scn ord strct \<longleftrightarrow>
     Replacement.DeletedRegion strct \<noteq> None \<and>
     ptr_all (Region_encodable scn ord) (Replacement.DeletedRegion strct) \<and>
     ptr_all (ArtifactContent_encodable scn ord) (Replacement.InsertedContent strct) \<and>
     ptr_all (PropertyBag_encodable scn ord) (Replacement.Properties strct)"

lemma Replacement_fails_unless: "fails_unless (Replacement_MarshalJSON scn ord) (Replacement_encodable scn ord)"
  unfolding fails_unless_def Replacement_MarshalJSON_results Replacement_results_def Replacement_encodable_def isl_object_emit_all
  by (auto simp add: always_simps
      fails_unlessD [OF fails_unless_ptr [OF Region_fails_unless]]
      fails_unlessD [OF fails_unless_ptr [OF ArtifactContent_fails_unless]]
      fails_unlessD [OF PropertyBag_field_fails_unless])

definition Replacement_valid :: "Replacement \<Rightarrow> bool" where
  "Replacement_valid strct \<longleftrightarrow>
     Replacement.DeletedRegion strct \<noteq> None \<and>
     ptr_all Region_valid (Replacement.DeletedRegion strct) \<and>
     ptr_all ArtifactContent_valid (Replacement.InsertedContent strct) \<and>
     ptr_all PropertyBag_valid (Replacement.Properties strct)"

lemma Replacement_keys_distinct: "distinct Replacement_keys"
  by (simp add: Replacement_keys_def)

lemma Replacement_round_trips:
  "round_trips_object (Replacement_MarshalJSON scn ord) (Replacement_UnmarshalJSON ord') Replacement_valid"
  unfolding round_trips_object_def
proof (intro allI impI)
  fix strct assume v: "Replacement_valid strct"
  note v' = v [unfolded Replacement_valid_def]
  let ?rs = "Replacement_results scn ord strct"
  let ?kvs = "map (\<lambda>e. (fst e, projr (snd e))) ?rs"
  have f0: "\<not> isl (json_Marshal_ptr ''*sarif.Region'' (Region_MarshalJSON scn ord) (Replacement.DeletedRegion strct)) \<and>
      json_Unmarshal_ptr (Region_UnmarshalJSON ord') (projr (json_Marshal_ptr ''*sarif.Region'' (Region_MarshalJSON scn ord) (Replacement.DeletedRegion strct))) = Inr (Replacement.DeletedRegion strct)"
    by (rule round_tripsD [OF round_trips_ptr [OF Region_round_trips]]) (use v' in simp)
  have f1: "\<not> isl (json_Marshal_ptr ''*sarif.ArtifactContent'' (ArtifactContent_MarshalJSON scn ord) (Replacement.InsertedContent strct)) \<and>
      json_Unmarshal_ptr (ArtifactContent_UnmarshalJSON ord') (projr (json_Marshal_ptr ''*sarif.ArtifactContent'' (ArtifactContent_MarshalJSON scn ord) (Replacement.InsertedContent strct))) = Inr (Replacement.InsertedContent strct)"
    by (rule round_tripsD [OF round_trips_ptr [OF ArtifactContent_round_trips]]) (use v' in simp)
  have f2: "\<not> isl (json_Marshal_bytes ''*sarif.PropertyBag'' (PropertyBag_MarshalJSON scn ord) (Replacement.Properties strct)) \<and>
      json_Unmarshal_ptr (PropertyBag_UnmarshalJSON ord') (projr (json_Marshal_bytes ''*sarif.PropertyBag'' (PropertyBag_MarshalJSON scn ord) (Replacement.Properties strct))) = Inr (Replacement.Properties strct)"
    by (rule round_tripsD [OF PropertyBag_field_round_trips]) (use v' in simp)
  note fs = f0 f1 f2
  have nn: "Replacement.DeletedRegion strct \<noteq> None"
    using v' by simp_all
  have rs: "?rs =
     [(''deletedRegion'', json_Marshal_ptr ''*sarif.Region'' (Region_MarshalJSON scn ord) (Replacement.DeletedRegion strct)),
      (''insertedContent'', json_Marshal_ptr ''*sarif.ArtifactContent'' (ArtifactContent_MarshalJSON scn ord) (Replacement.InsertedContent strct)),
      (''properties'', json_Marshal_bytes ''*sarif.PropertyBag'' (PropertyBag_MarshalJSON scn ord) (Replacement.Properties strct))]"
    using nn by (auto simp add: Replacement_results_def)
  have keys: "map fst ?rs = Replacement_keys"
    by (simp add: Replacement_results_def Replacement_keys_def)
  then have dist: "distinct (map fst ?rs)"
    by (simp only: Replacement_keys_distinct)
  have ok: "list_all (\<lambda>e. \<not> isl (snd e)) ?rs"
    unfolding rs by (simp only: list.pred_inject snd_conv fs simp_thms)
  then have enc: "Replacement_MarshalJSON scn ord strct = Inr (JObj ?kvs)"
    by (simp add: Replacement_MarshalJSON_results [of scn ord strct] object_emit_all_eq_Inr)
  have l0: "map_of (rev ?kvs) ''deletedRegion'' = Some (projr (json_Marshal_ptr ''*sarif.Region'' (Region_MarshalJSON scn ord) (Replacement.DeletedRegion strct)))"
    by (rule written_lookup [OF dist]) (subst rs, intro list.set_intros)
  have l1: "map_of (rev ?kvs) ''insertedContent'' = Some (projr (json_Marshal_ptr ''*sarif.ArtifactContent'' (ArtifactContent_MarshalJSON scn ord) (Replacement.InsertedContent strct)))"
    by (rule written_lookup [OF dist]) (subst rs, intro list.set_intros)
  have l2: "map_of (rev ?kvs) ''properties'' = Some (projr (json_Marshal_bytes ''*sarif.PropertyBag'' (PropertyBag_MarshalJSON scn ord) (Replacement.Properties strct)))"
    by (rule written_lookup [OF dist]) (subst rs, intro list.set_intros)
  have dec: "Replacement_decodes ord' (map_of (rev ?kvs)) strct"
    unfolding Replacement_decodes_def l0 l1 l2
    by (simp only: field_ok_Some fs written_dom keys subset_refl option.simps simp_thms)
  then have "Replacement_UnmarshalJSON ord' (JObj ?kvs) = Inr strct"
    by (simp only: Replacement_decode_iff)
  with enc show "rt_object (Replacement_MarshalJSON scn ord) (Replacement_UnmarshalJSON ord') strct"
    unfolding rt_object_def by blast
qed

definition Replacement_small_bags :: "Replacement \<Rightarrow> bool" where
  "Replacement_small_bags strct \<longleftrightarrow>
     ptr_all Region_small_bags (Replacement.DeletedRegion strct) \<and>
     ptr_all ArtifactContent_small_bags (Replacement.InsertedContent strct) \<and>
     ptr_all PropertyBag_small_bags (Replacement.Properties strct)"

lemma Replacement_same_output:
  "same_output (Replacement_MarshalJSON scn ord) (Replacement_MarshalJSON scn ord') Replacement_small_bags"
  unfolding same_output_def
proof (intro allI impI)
  fix strct assume v: "Replacement_small_bags strct"
  note v' = v [unfolded Replacement_small_bags_def]
  have e0: "json_Marshal_ptr ''*sarif.Region'' (Region_MarshalJSON scn ord) (Replacement.DeletedRegion strct) =
      json_Marshal_ptr ''*sarif.Region'' (Region_MarshalJSON scn ord') (Replacement.DeletedRegion strct)"
    by (rule same_outputD [OF same_output_ptr [OF Region_same_output]]) (use v' in simp)
  have e1: "json_Marshal_ptr ''*sarif.ArtifactContent'' (ArtifactContent_MarshalJSON scn ord) (Replacement.InsertedContent strct) =
      json_Marshal_ptr ''*sarif.ArtifactContent'' (ArtifactContent_MarshalJSON scn ord') (Replacement.InsertedContent strct)"
    by (rule same_outputD [OF same_output_ptr [OF ArtifactContent_same_output]]) (use v' in simp)
  have e2: "json_Marshal_bytes ''*sarif.PropertyBag'' (PropertyBag_MarshalJSON scn ord) (Replacement.Properties strct) =
      json_Marshal_bytes ''*sarif.PropertyBag'' (PropertyBag_MarshalJSON scn ord') (Replacement.Properties strct)"
    by (rule same_outputD [OF PropertyBag_field_same_output]) (use v' in simp)
  show "Replacement_MarshalJSON scn ord strct = Replacement_MarshalJSON scn ord' strct"
    by (simp only: Replacement_MarshalJSON_def e0 e1 e2)
qed

lemma Replacement_writes_keys: "writes_keys (Replacement_MarshalJSON scn ord) Replacement_keys"
  unfolding writes_keys_def by (intro allI impI) (erule Replacement_keys_written)

lemma Replacement_unknown_key:
  assumes new: "k \<notin> set Replacement_keys" and key: "k \<in> fst ` set kvs"
    and rest: "Replacement_UnmarshalJSON ord (JObj (filter (\<lambda>e. fst e \<noteq> k) kvs)) = Inr strct"
  shows "Replacement_UnmarshalJSON ord (JObj kvs) = Inl (not_allowed k)"
proof -
  have rej: "switch k (Replacement_cases ord v) (reject k) s = Inl (not_allowed k)" for v s
    by (rule switch_rejects) (simp only: Replacement_cases_keys new not_False_eq_True)
  from rest obtain t where
    "range_loop (\<lambda>k v. switch k (Replacement_cases ord v) (reject k)) (members ord (filter (\<lambda>e. fst e \<noteq> k) kvs)) (Replacement_zero, False) = Inr t"
    by (cases "range_loop (\<lambda>k v. switch k (Replacement_cases ord v) (reject k)) (members ord (filter (\<lambda>e. fst e \<noteq> k) kvs)) (Replacement_zero, False)")
       (simp_all add: Replacement_UnmarshalJSON_def members_def)
  from unknown_key_named [OF Replacement_regular rej key this]
  show ?thesis by (simp add: Replacement_UnmarshalJSON_def members_def)
qed

lemma Replacement_unknown_key_fails:
  assumes "k \<notin> set Replacement_keys" and "k \<in> fst ` set kvs"
  shows "isl (Replacement_UnmarshalJSON ord (JObj kvs))"
proof (cases "Replacement_UnmarshalJSON ord (JObj kvs)")
  case (Inr strct)
  then have "dom (map_of (rev kvs)) \<subseteq> set Replacement_keys"
    by (simp only: Replacement_decode_iff Replacement_decodesD(1))
  with assms show ?thesis by (auto simp: dom_map_of_conv_image_fst)
qed simp

lemma Replacement_required_present:
  assumes "Replacement_UnmarshalJSON ord (JObj kvs) = Inr strct"
  shows "''deletedRegion'' \<in> fst ` set kvs"
proof -
  from assms have d: "Replacement_decodes ord (map_of (rev kvs)) strct" by (simp only: Replacement_decode_iff)
  show "''deletedRegion'' \<in> fst ` set kvs"
    using Replacement_decodesD(5) [OF d]
    by (simp_all only: present_key)
qed

lemma Replacement_without_DeletedRegion:
  assumes "Replacement_UnmarshalJSON ord (JObj kvs) = Inr strct"
  shows "Replacement_UnmarshalJSON ord (JObj (filter (\<lambda>e. fst e \<noteq> ''deletedRegion'') kvs)) =
    Inl (RequiredNotPresent ''deletedRegion'')"
proof -
  from assms have d: "Replacement_decodes ord (map_of (rev kvs)) strct" by (simp only: Replacement_decode_iff)
  have "\<exists>t. range_loop (\<lambda>k v. switch k (Replacement_cases ord v) (reject k)) (members ord (filter (\<lambda>e. fst e \<noteq> ''deletedRegion'') kvs))
      (Replacement_zero, False) = Inr t"
  proof (rule loop_succeeds [OF Replacement_regular])
    fix k v assume "(k, v) \<in> set (members ord (filter (\<lambda>e. fst e \<noteq> ''deletedRegion'') kvs))"
    then have "map_of (rev kvs) k = Some v" by (rule member_lookup_filter)
    from Replacement_accepts [OF d this]
    show "accepting (switch k (Replacement_cases ord v) (reject k))" .
  qed
  then obtain t where "range_loop (\<lambda>k v. switch k (Replacement_cases ord v) (reject k)) (members ord (filter (\<lambda>e. fst e \<noteq> ''deletedRegion'') kvs))
      (Replacement_zero, False) = Inr t" ..
  then obtain strct' deletedRegionReceived where
    loop: "range_loop (\<lambda>k v. switch k (Replacement_cases ord v) (reject k)) (members ord (filter (\<lambda>e. fst e \<noteq> ''deletedRegion'') kvs))
      (Replacement_zero, False) = Inr (strct', deletedRegionReceived)"
    by (cases t) auto
  from Replacement_loop_sound [OF loop] Replacement_decodesD(5) [OF d]
  have "\<not> deletedRegionReceived"
    by (simp_all add: lookup_filter)
  with loop show ?thesis
    by (simp add: Replacement_UnmarshalJSON_def members_def)
qed


lemma Replacement_rejects_unknown_keys: "rejects_unknown_keys (Replacement_UnmarshalJSON ord) Replacement_keys"
  by (rule rejects_unknown_keysI) (erule (1) Replacement_unknown_key_fails, erule (2) Replacement_unknown_key)

lemma Replacement_requires_DeletedRegion: "requires_key (Replacement_UnmarshalJSON ord) ''deletedRegion''"
  by (rule requires_keyI) (erule Replacement_required_present(1), erule Replacement_without_DeletedRegion)


subsection \<open>ArtifactChange: decoding and encoding\<close>

definition ArtifactChange_keys :: "string list" where
  "ArtifactChange_keys = [''artifactLocation'', ''properties'', ''replacements'']"

definition ArtifactChange_decodes :: "order \<Rightarrow> (string \<rightharpoonup> json) \<Rightarrow> ArtifactChange \<Rightarrow> bool" where
  "ArtifactChange_decodes ord m strct \<longleftrightarrow>
     dom m \<subseteq> set ArtifactChange_keys \<and>
     field_ok (json_Unmarshal_ptr (ArtifactLocation_UnmarshalJSON ord)) (m ''artifactLocation'') None (ArtifactChange.ArtifactLocation strct) \<and>
     field_ok (json_Unmarshal_ptr (PropertyBag_UnmarshalJSON ord)) (m ''properties'') None (ArtifactChange.Properties strct) \<and>
     field_ok (json_Unmarshal_slice (json_Unmarshal_ptr (Replacement_UnmarshalJSON ord))) (m ''replacements'') None (ArtifactChange.Replacements strct) \<and>
     m ''artifactLocation'' \<noteq> None \<and>
     m ''replacements'' \<noteq> None"

lemma ArtifactChange_cases_keys: "fst ` set (ArtifactChange_cases ord v) = set ArtifactChange_keys"
  by (rule keys_image) (simp add: ArtifactChange_cases_def ArtifactChange_keys_def)

lemma ArtifactChange_regular: "regular (\<lambda>k v. switch k (ArtifactChange_cases ord v) (reject k))"
  by (rule regular_switch) (simp add: ArtifactChange_cases_def)

lemma ArtifactChange_fields:
  "field_case (ArtifactChange_cases ord) (\<lambda>(strct, artifactLocationReceived, replacementsReceived). ArtifactChange.ArtifactLocation strct) ''artifactLocation'' (json_Unmarshal_ptr (ArtifactLocation_UnmarshalJSON ord))"
  "field_case (ArtifactChange_cases ord) (\<lambda>(strct, artifactLocationReceived, replacementsReceived). ArtifactChange.Properties strct) ''properties'' (json_Unmarshal_ptr (PropertyBag_UnmarshalJSON ord))"
  "field_case (ArtifactChange_cases ord) (\<lambda>(strct, artifactLocationReceived, replacementsReceived). ArtifactChange.Replacements strct) ''replacements'' (json_Unmarshal_slice (json_Unmarshal_ptr (Replacement_UnmarshalJSON ord)))"
  "field_case (ArtifactChange_cases ord) (\<lambda>(strct, artifactLocationReceived, replacementsReceived). artifactLocationReceived) ''artifactLocation'' (received (json_Unmarshal_ptr (ArtifactLocation_UnmarshalJSON ord)))"
  "field_case (ArtifactChange_cases ord) (\<lambda>(strct, artifactLocationReceived, replacementsReceived). replacementsReceived) ''replacements'' (received (json_Unmarshal_slice (json_Unmarshal_ptr (Replacement_UnmarshalJSON ord))))"
  unfolding field_case_def ArtifactChange_cases_def
  by (simp_all add: writes_into writes_received keeps_into split_def)

lemma ArtifactChange_loop_sound:
  assumes loop: "range_loop (\<lambda>k v. switch k (ArtifactChange_cases ord v) (reject k)) (members ord kvs) (ArtifactChange_zero, False, False) = Inr (strct, artifactLocationReceived, replacementsReceived)"
  shows "dom (map_of (rev kvs)) \<subseteq> set ArtifactChange_keys \<and>
     field_ok (json_Unmarshal_ptr (ArtifactLocation_UnmarshalJSON ord)) (map_of (rev kvs) ''artifactLocation'') None (ArtifactChange.ArtifactLocation strct) \<and>
     field_ok (json_Unmarshal_ptr (PropertyBag_UnmarshalJSON ord)) (map_of (rev kvs) ''properties'') None (ArtifactChange.Properties strct) \<and>
     field_ok (json_Unmarshal_slice (json_Unmarshal_ptr (Replacement_UnmarshalJSON ord))) (map_of (rev kvs) ''replacements'') None (ArtifactChange.Replacements strct) \<and>
     (artifactLocationReceived \<longleftrightarrow> map_of (rev kvs) ''artifactLocation'' \<noteq> None) \<and>
     (replacementsReceived \<longleftrightarrow> map_of (rev kvs) ''replacements'' \<noteq> None)"
proof -
  have "fst ` set (members ord kvs) \<subseteq> set ArtifactChange_keys"
    by (rule loop_keys_known [OF loop]) (rule ArtifactChange_cases_keys)
  then have keys: "dom (map_of (rev kvs)) \<subseteq> set ArtifactChange_keys"
    by (simp add: dom_members [of kvs ord])
  note fld = field_after_loop [OF _ members_distinct loop, unfolded map_of_members]
  note flg = flag_after_loop [OF _ members_distinct loop, unfolded map_of_members]
  show ?thesis
    using keys fld [OF ArtifactChange_fields(1)] fld [OF ArtifactChange_fields(2)] fld [OF ArtifactChange_fields(3)] flg [OF ArtifactChange_fields(4)] flg [OF ArtifactChange_fields(5)]
    by (simp only: prod.case ArtifactChange_zero_def ArtifactChange.select_convs simp_thms)
qed

lemma ArtifactChange_decodesD:
  assumes "ArtifactChange_decodes ord m strct"
  shows "dom m \<subseteq> set ArtifactChange_keys"
    and "field_ok (json_Unmarshal_ptr (ArtifactLocation_UnmarshalJSON ord)) (m ''artifactLocation'') None (ArtifactChange.ArtifactLocation strct)"
    and "field_ok (json_Unmarshal_ptr (PropertyBag_UnmarshalJSON ord)) (m ''properties'') None (ArtifactChange.Properties strct)"
    and "field_ok (json_Unmarshal_slice (json_Unmarshal_ptr (Replacement_UnmarshalJSON ord))) (m ''replacements'') None (ArtifactChange.Replacements strct)"
    and "m ''artifactLocation'' \<noteq> None"
    and "m ''replacements'' \<noteq> None"
  using assms unfolding ArtifactChange_decodes_def by - (elim conjE, assumption)+

lemma ArtifactChange_decodes_unique:
  assumes "ArtifactChange_decodes ord m a" and "ArtifactChange_decodes ord m b"
  shows "a = b"
  apply (rule ArtifactChange.equality)
  apply (rule field_ok_unique [OF ArtifactChange_decodesD(2) [OF assms(1)] ArtifactChange_decodesD(2) [OF assms(2)]])
  apply (rule field_ok_unique [OF ArtifactChange_decodesD(3) [OF assms(1)] ArtifactChange_decodesD(3) [OF assms(2)]])
  apply (rule field_ok_unique [OF ArtifactChange_decodesD(4) [OF assms(1)] ArtifactChange_decodesD(4) [OF assms(2)]])
  apply simp
  done

lemma ArtifactChange_accepts:
  assumes "ArtifactChange_decodes ord m strct" and "m k = Some v"
  shows "accepting (switch k (ArtifactChange_cases ord v) (reject k))"
proof -
  from assms have "k \<in> set ArtifactChange_keys" by (auto simp: ArtifactChange_decodes_def)
  then have key: "k \<in> fst ` set (ArtifactChange_cases ord v)"
    by (simp only: ArtifactChange_cases_keys)
  have rows: "list_all (\<lambda>(c, h). m c = Some v \<longrightarrow> accepting h) (ArtifactChange_cases ord v)"
    unfolding ArtifactChange_cases_def list.pred_inject
    apply (rule conjI [OF accept_row [where m = m and v = v, OF ArtifactChange_decodesD(2) [OF assms(1)]]])
    apply (rule conjI [OF accept_row [where m = m and v = v, OF ArtifactChange_decodesD(3) [OF assms(1)]]])
    apply (rule conjI [OF accept_row [where m = m and v = v, OF ArtifactChange_decodesD(4) [OF assms(1)]]])
    apply simp
    done
  show ?thesis by (rule rows_accept [OF rows assms(2) key])
qed

lemma ArtifactChange_decode_iff:
  "ArtifactChange_UnmarshalJSON ord (JObj kvs) = Inr strct \<longleftrightarrow>
   ArtifactChange_decodes ord (map_of (rev kvs)) strct"
proof
  assume "ArtifactChange_UnmarshalJSON ord (JObj kvs) = Inr strct"
  then obtain artifactLocationReceived replacementsReceived where
    loop: "range_loop (\<lambda>k v. switch k (ArtifactChange_cases ord v) (reject k)) (members ord kvs) (ArtifactChange_zero, False, False) = Inr (strct, artifactLocationReceived, replacementsReceived)"
    and fin: "artifactLocationReceived" "replacementsReceived"
    by (auto simp: ArtifactChange_UnmarshalJSON_def members_def split: sum.splits if_splits)
  from ArtifactChange_loop_sound [OF loop] fin
  show "ArtifactChange_decodes ord (map_of (rev kvs)) strct"
    by (simp add: ArtifactChange_decodes_def)
next
  assume d: "ArtifactChange_decodes ord (map_of (rev kvs)) strct"
  have "\<exists>t. range_loop (\<lambda>k v. switch k (ArtifactChange_cases ord v) (reject k)) (members ord kvs) (ArtifactChange_zero, False, False) = Inr t"
  proof (rule loop_succeeds [OF ArtifactChange_regular])
    fix k v assume "(k, v) \<in> set (members ord kvs)"
    then have "map_of (rev kvs) k = Some v" by (rule member_lookup)
    from ArtifactChange_accepts [OF d this]
    show "accepting (switch k (ArtifactChange_cases ord v) (reject k))" .
  qed
  then obtain t where "range_loop (\<lambda>k v. switch k (ArtifactChange_cases ord v) (reject k)) (members ord kvs) (ArtifactChange_zero, False, False) = Inr t" ..
  then obtain strct' artifactLocationReceived replacementsReceived where
    loop: "range_loop (\<lambda>k v. switch k (ArtifactChange_cases ord v) (reject k)) (members ord kvs) (ArtifactChange_zero, False, False) = Inr (strct', artifactLocationReceived, replacementsReceived)"
    by (cases t) auto
  from ArtifactChange_loop_sound [OF loop] d
  have fin: "artifactLocationReceived" "replacementsReceived"
    and d': "ArtifactChange_decodes ord (map_of (rev kvs)) strct'"
    by (simp_all add: ArtifactChange_decodes_def)
  from ArtifactChange_decodes_unique [OF d' d] have "strct' = strct" .
  with loop fin show "ArtifactChange_UnmarshalJSON ord (JObj kvs) = Inr strct"
    by (simp add: ArtifactChange_UnmarshalJSON_def members_def)
qed

definition ArtifactChange_results :: "scanner \<Rightarrow> order \<Rightarrow> ArtifactChange \<Rightarrow> (string \<times> (error + json)) list" where
  "ArtifactChange_results scn ord strct =
     [(''artifactLocation'', if ArtifactChange.ArtifactLocation strct = None then Inl (RequiredField ''artifactLocation'') else json_Marshal_ptr ''*sarif.ArtifactLocation'' (ArtifactLocation_MarshalJSON scn ord) (ArtifactChange.ArtifactLocation strct)),
      (''properties'', json_Marshal_bytes ''*sarif.PropertyBag'' (PropertyBag_MarshalJSON scn ord) (ArtifactChange.Properties strct)),
      (''replacements'', json_Marshal_slice (json_Marshal_ptr ''*sarif.Replacement'' (Replacement_MarshalJSON scn ord)) (ArtifactChange.Replacements strct))]"

lemma ArtifactChange_MarshalJSON_results:
  "ArtifactChange_MarshalJSON scn ord strct = object (emit_all (ArtifactChange_results scn ord strct))"
  by (simp add: ArtifactChange_MarshalJSON_def ArtifactChange_results_def emit_nilcheck)

lemma ArtifactChange_keys_written:
  "ArtifactChange_MarshalJSON scn ord strct = Inr j \<Longrightarrow> \<exists>kvs. j = JObj kvs \<and> map fst kvs = ArtifactChange_keys"
  using keys_written [of "ArtifactChange_results scn ord strct" j]
  by (simp add: ArtifactChange_MarshalJSON_results ArtifactChange_results_def ArtifactChange_keys_def)

definition ArtifactChange_encodable :: "scanner \<Rightarrow> order \<Rightarrow> ArtifactChange \<Rightarrow> bool" where
  "ArtifactChange_encodable scn ord strct \<longleftrightarrow>
     ArtifactChange.ArtifactLocation strct \<noteq> None \<and>
     ptr_all (ArtifactLocation_encodable scn ord) (ArtifactChange.ArtifactLocation strct) \<and>
     ptr_all (PropertyBag_encodable scn ord) (ArtifactChange.Properties strct) \<and>
     slice_all (ptr_all (Replacement_encodable scn ord)) (ArtifactChange.Replacements strct)"

lemma ArtifactChange_fails_unless: "fails_unless (ArtifactChange_MarshalJSON scn ord) (ArtifactChange_encodable scn ord)"
  unfolding fails_unless_def ArtifactChange_MarshalJSON_results ArtifactChange_results_def ArtifactChange_encodable_def isl_object_emit_all
  by (auto simp add: always_simps
      fails_unlessD [OF fails_unless_ptr [OF ArtifactLocation_fails_unless]]
      fails_unlessD [OF PropertyBag_field_fails_unless]
      fails_unlessD [OF fails_unless_slice [OF fails_unless_ptr [OF Replacement_fails_unless]]])

definition ArtifactChange_valid :: "ArtifactChange \<Rightarrow> bool" where
  "ArtifactChange_valid strct \<longleftrightarrow>
     ArtifactChange.ArtifactLocation strct \<noteq> None \<and>
     ptr_all ArtifactLocation_valid (ArtifactChange.ArtifactLocation strct) \<and>
     ptr_all PropertyBag_valid (ArtifactChange.Properties strct) \<and>
     slice_all (ptr_all Replacement_valid) (ArtifactChange.Replacements strct)"

lemma ArtifactChange_keys_distinct: "distinct ArtifactChange_keys"
  by (simp add: ArtifactChange_keys_def)

lemma ArtifactChange_round_trips:
  "round_trips_object (ArtifactChange_MarshalJSON scn ord) (ArtifactChange_UnmarshalJSON ord') ArtifactChange_valid"
  unfolding round_trips_object_def
proof (intro allI impI)
  fix strct assume v: "ArtifactChange_valid strct"
  note v' = v [unfolded ArtifactChange_valid_def]
  let ?rs = "ArtifactChange_results scn ord strct"
  let ?kvs = "map (\<lambda>e. (fst e, projr (snd e))) ?rs"
  have f0: "\<not> isl (json_Marshal_ptr ''*sarif.ArtifactLocation'' (ArtifactLocation_MarshalJSON scn ord) (ArtifactChange.ArtifactLocation strct)) \<and>
      json_Unmarshal_ptr (ArtifactLocation_UnmarshalJSON ord') (projr (json_Marshal_ptr ''*sarif.ArtifactLocation'' (ArtifactLocation_MarshalJSON scn ord) (ArtifactChange.ArtifactLocation strct))) = Inr (ArtifactChange.ArtifactLocation strct)"
    by (rule round_tripsD [OF round_trips_ptr [OF ArtifactLocation_round_trips]]) (use v' in simp)
  have f1: "\<not> isl (json_Marshal_bytes ''*sarif.PropertyBag'' (PropertyBag_MarshalJSON scn ord) (ArtifactChange.Properties strct)) \<and>
      json_Unmarshal_ptr (PropertyBag_UnmarshalJSON ord') (projr (json_Marshal_bytes ''*sarif.PropertyBag'' (PropertyBag_MarshalJSON scn ord) (ArtifactChange.Properties strct))) = Inr (ArtifactChange.Properties strct)"
    by (rule round_tripsD [OF PropertyBag_field_round_trips]) (use v' in simp)
  have f2: "\<not> isl (json_Marshal_slice (json_Marshal_ptr ''*sarif.Replacement'' (Replacement_MarshalJSON scn ord)) (ArtifactChange.Replacements strct)) \<and>
      json_Unmarshal_slice (json_Unmarshal_ptr (Replacement_UnmarshalJSON ord')) (projr (json_Marshal_slice (json_Marshal_ptr ''*sarif.Replacement'' (Replacement_MarshalJSON scn ord)) (ArtifactChange.Replacements strct))) = Inr (ArtifactChange.Replacements strct)"
    by (rule round_tripsD [OF round_trips_slice [OF round_trips_ptr [OF Replacement_round_trips]]]) (use v' in simp)
  note fs = f0 f1 f2
  have nn: "ArtifactChange.ArtifactLocation strct \<noteq> None"
    using v' by simp_all
  have rs: "?rs =
     [(''artifactLocation'', json_Marshal_ptr ''*sarif.ArtifactLocation'' (ArtifactLocation_MarshalJSON scn ord) (ArtifactChange.ArtifactLocation strct)),
      (''properties'', json_Marshal_bytes ''*sarif.PropertyBag'' (PropertyBag_MarshalJSON scn ord) (ArtifactChange.Properties strct)),
      (''replacements'', json_Marshal_slice (json_Marshal_ptr ''*sarif.Replacement'' (Replacement_MarshalJSON scn ord)) (ArtifactChange.Replacements strct))]"
    using nn by (auto simp add: ArtifactChange_results_def)
  have keys: "map fst ?rs = ArtifactChange_keys"
    by (simp add: ArtifactChange_results_def ArtifactChange_keys_def)
  then have dist: "distinct (map fst ?rs)"
    by (simp only: ArtifactChange_keys_distinct)
  have ok: "list_all (\<lambda>e. \<not> isl (snd e)) ?rs"
    unfolding rs by (simp only: list.pred_inject snd_conv fs simp_thms)
  then have enc: "ArtifactChange_MarshalJSON scn ord strct = Inr (JObj ?kvs)"
    by (simp add: ArtifactChange_MarshalJSON_results [of scn ord strct] object_emit_all_eq_Inr)
  have l0: "map_of (rev ?kvs) ''artifactLocation'' = Some (projr (json_Marshal_ptr ''*sarif.ArtifactLocation'' (ArtifactLocation_MarshalJSON scn ord) (ArtifactChange.ArtifactLocation strct)))"
    by (rule written_lookup [OF dist]) (subst rs, intro list.set_intros)
  have l1: "map_of (rev ?kvs) ''properties'' = Some (projr (json_Marshal_bytes ''*sarif.PropertyBag'' (PropertyBag_MarshalJSON scn ord) (ArtifactChange.Properties strct)))"
    by (rule written_lookup [OF dist]) (subst rs, intro list.set_intros)
  have l2: "map_of (rev ?kvs) ''replacements'' = Some (projr (json_Marshal_slice (json_Marshal_ptr ''*sarif.Replacement'' (Replacement_MarshalJSON scn ord)) (ArtifactChange.Replacements strct)))"
    by (rule written_lookup [OF dist]) (subst rs, intro list.set_intros)
  have dec: "ArtifactChange_decodes ord' (map_of (rev ?kvs)) strct"
    unfolding ArtifactChange_decodes_def l0 l1 l2
    by (simp only: field_ok_Some fs written_dom keys subset_refl option.simps simp_thms)
  then have "ArtifactChange_UnmarshalJSON ord' (JObj ?kvs) = Inr strct"
    by (simp only: ArtifactChange_decode_iff)
  with enc show "rt_object (ArtifactChange_MarshalJSON scn ord) (ArtifactChange_UnmarshalJSON ord') strct"
    unfolding rt_object_def by blast
qed

definition ArtifactChange_small_bags :: "ArtifactChange \<Rightarrow> bool" where
  "ArtifactChange_small_bags strct \<longleftrightarrow>
     ptr_all ArtifactLocation_small_bags (ArtifactChange.ArtifactLocation strct) \<and>
     ptr_all PropertyBag_small_bags (ArtifactChange.Properties strct) \<and>
     slice_all (ptr_all Replacement_small_bags) (ArtifactChange.Replacements strct)"

lemma ArtifactChange_same_output:
  "same_output (ArtifactChange_MarshalJSON scn ord) (ArtifactChange_MarshalJSON scn ord') ArtifactChange_small_bags"
  unfolding same_output_def
proof (intro allI impI)
  fix strct assume v: "ArtifactChange_small_bags strct"
  note v' = v [unfolded ArtifactChange_small_bags_def]
  have e0: "json_Marshal_ptr ''*sarif.ArtifactLocation'' (ArtifactLocation_MarshalJSON scn ord) (ArtifactChange.ArtifactLocation strct) =
      json_Marshal_ptr ''*sarif.ArtifactLocation'' (ArtifactLocation_MarshalJSON scn ord') (ArtifactChange.ArtifactLocation strct)"
    by (rule same_outputD [OF same_output_ptr [OF ArtifactLocation_same_output]]) (use v' in simp)
  have e1: "json_Marshal_bytes ''*sarif.PropertyBag'' (PropertyBag_MarshalJSON scn ord) (ArtifactChange.Properties strct) =
      json_Marshal_bytes ''*sarif.PropertyBag'' (PropertyBag_MarshalJSON scn ord') (ArtifactChange.Properties strct)"
    by (rule same_outputD [OF PropertyBag_field_same_output]) (use v' in simp)
  have e2: "json_Marshal_slice (json_Marshal_ptr ''*sarif.Replacement'' (Replacement_MarshalJSON scn ord)) (ArtifactChange.Replacements strct) =
      json_Marshal_slice (json_Marshal_ptr ''*sarif.Replacement'' (Replacement_MarshalJSON scn ord')) (ArtifactChange.Replacements strct)"
    by (rule same_outputD [OF same_output_slice [OF same_output_ptr [OF Replacement_same_output]]]) (use v' in simp)
  show "ArtifactChange_MarshalJSON scn ord strct = ArtifactChange_MarshalJSON scn ord' strct"
    by (simp only: ArtifactChange_MarshalJSON_def e0 e1 e2)
qed

lemma ArtifactChange_writes_keys: "writes_keys (ArtifactChange_MarshalJSON scn ord) ArtifactChange_keys"
  unfolding writes_keys_def by (intro allI impI) (erule ArtifactChange_keys_written)

lemma ArtifactChange_unknown_key:
  assumes new: "k \<notin> set ArtifactChange_keys" and key: "k \<in> fst ` set kvs"
    and rest: "ArtifactChange_UnmarshalJSON ord (JObj (filter (\<lambda>e. fst e \<noteq> k) kvs)) = Inr strct"
  shows "ArtifactChange_UnmarshalJSON ord (JObj kvs) = Inl (not_allowed k)"
proof -
  have rej: "switch k (ArtifactChange_cases ord v) (reject k) s = Inl (not_allowed k)" for v s
    by (rule switch_rejects) (simp only: ArtifactChange_cases_keys new not_False_eq_True)
  from rest obtain t where
    "range_loop (\<lambda>k v. switch k (ArtifactChange_cases ord v) (reject k)) (members ord (filter (\<lambda>e. fst e \<noteq> k) kvs)) (ArtifactChange_zero, False, False) = Inr t"
    by (cases "range_loop (\<lambda>k v. switch k (ArtifactChange_cases ord v) (reject k)) (members ord (filter (\<lambda>e. fst e \<noteq> k) kvs)) (ArtifactChange_zero, False, False)")
       (simp_all add: ArtifactChange_UnmarshalJSON_def members_def)
  from unknown_key_named [OF ArtifactChange_regular rej key this]
  show ?thesis by (simp add: ArtifactChange_UnmarshalJSON_def members_def)
qed

lemma ArtifactChange_unknown_key_fails:
  assumes "k \<notin> set ArtifactChange_keys" and "k \<in> fst ` set kvs"
  shows "isl (ArtifactChange_UnmarshalJSON ord (JObj kvs))"
proof (cases "ArtifactChange_UnmarshalJSON ord (JObj kvs)")
  case (Inr strct)
  then have "dom (map_of (rev kvs)) \<subseteq> set ArtifactChange_keys"
    by (simp only: ArtifactChange_decode_iff ArtifactChange_decodesD(1))
  with assms show ?thesis by (auto simp: dom_map_of_conv_image_fst)
qed simp

lemma ArtifactChange_required_present:
  assumes "ArtifactChange_UnmarshalJSON ord (JObj kvs) = Inr strct"
  shows "''artifactLocation'' \<in> fst ` set kvs"
    and "''replacements'' \<in> fst ` set kvs"
proof -
  from assms have d: "ArtifactChange_decodes ord (map_of (rev kvs)) strct" by (simp only: ArtifactChange_decode_iff)
  show "''artifactLocation'' \<in> fst ` set kvs"
    and "''replacements'' \<in> fst ` set kvs"
    using ArtifactChange_decodesD(5) [OF d] ArtifactChange_decodesD(6) [OF d]
    by (simp_all only: present_key)
qed

lemma ArtifactChange_without_ArtifactLocation:
  assumes "ArtifactChange_UnmarshalJSON ord (JObj kvs) = Inr strct"
  shows "ArtifactChange_UnmarshalJSON ord (JObj (filter (\<lambda>e. fst e \<noteq> ''artifactLocation'') kvs)) =
    Inl (RequiredNotPresent ''artifactLocation'')"
proof -
  from assms have d: "ArtifactChange_decodes ord (map_of (rev kvs)) strct" by (simp only: ArtifactChange_decode_iff)
  have "\<exists>t. range_loop (\<lambda>k v. switch k (ArtifactChange_cases ord v) (reject k)) (members ord (filter (\<lambda>e. fst e \<noteq> ''artifactLocation'') kvs))
      (ArtifactChange_zero, False, False) = Inr t"
  proof (rule loop_succeeds [OF ArtifactChange_regular])
    fix k v assume "(k, v) \<in> set (members ord (filter (\<lambda>e. fst e \<noteq> ''artifactLocation'') kvs))"
    then have "map_of (rev kvs) k = Some v" by (rule member_lookup_filter)
    from ArtifactChange_accepts [OF d this]
    show "accepting (switch k (ArtifactChange_cases ord v) (reject k))" .
  qed
  then obtain t where "range_loop (\<lambda>k v. switch k (ArtifactChange_cases ord v) (reject k)) (members ord (filter (\<lambda>e. fst e \<noteq> ''artifactLocation'') kvs))
      (ArtifactChange_zero, False, False) = Inr t" ..
  then obtain strct' artifactLocationReceived replacementsReceived where
    loop: "range_loop (\<lambda>k v. switch k (ArtifactChange_cases ord v) (reject k)) (members ord (filter (\<lambda>e. fst e \<noteq> ''artifactLocation'') kvs))
      (ArtifactChange_zero, False, False) = Inr (strct', artifactLocationReceived, replacementsReceived)"
    by (cases t) auto
  from ArtifactChange_loop_sound [OF loop] ArtifactChange_decodesD(5) [OF d] ArtifactChange_decodesD(6) [OF d]
  have "\<not> artifactLocationReceived" "replacementsReceived"
    by (simp_all add: lookup_filter)
  with loop show ?thesis
    by (simp add: ArtifactChange_UnmarshalJSON_def members_def)
qed

lemma ArtifactChange_without_Replacements:
  assumes "ArtifactChange_UnmarshalJSON ord (JObj kvs) = Inr strct"
  shows "ArtifactChange_UnmarshalJSON ord (JObj (filter (\<lambda>e. fst e \<noteq> ''replacements'') kvs)) =
    Inl (RequiredNotPresent ''replacements'')"
proof -
  from assms have d: "ArtifactChange_decodes ord (map_of (rev kvs)) strct" by (simp only: ArtifactChange_decode_iff)
  have "\<exists>t. range_loop (\<lambda>k v. switch k (ArtifactChange_cases ord v) (reject k)) (members ord (filter (\<lambda>e. fst e \<noteq> ''replacements'') kvs))
      (ArtifactChange_zero, False, False) = Inr t"
  proof (rule loop_succeeds [OF ArtifactChange_regular])
    fix k v assume "(k, v) \<in> set (members ord (filter (\<lambda>e. fst e \<noteq> ''replacements'') kvs))"
    then have "map_of (rev kvs) k = Some v" by (rule member_lookup_filter)
    from ArtifactChange_accepts [OF d this]
    show "accepting (switch k (ArtifactChange_cases ord v) (reject k))" .
  qed
  then obtain t where "range_loop (\<lambda>k v. switch k (ArtifactChange_cases ord v) (reject k)) (members ord (filter (\<lambda>e. fst e \<noteq> ''replacements'') kvs))
      (ArtifactChange_zero, False, False) = Inr t" ..
  then obtain strct' artifactLocationReceived replacementsReceived where
    loop: "range_loop (\<lambda>k v. switch k (ArtifactChange_cases ord v) (reject k)) (members ord (filter (\<lambda>e. fst e \<noteq> ''replacements'') kvs))
      (ArtifactChange_zero, False, False) = Inr (strct', artifactLocationReceived, replacementsReceived)"
    by (cases t) auto
  from ArtifactChange_loop_sound [OF loop] ArtifactChange_decodesD(5) [OF d] ArtifactChange_decodesD(6) [OF d]
  have "artifactLocationReceived" "\<not> replacementsReceived"
    by (simp_all add: lookup_filter)
  with loop show ?thesis
    by (simp add: ArtifactChange_UnmarshalJSON_def members_def)
qed



lemma ArtifactChange_rejects_unknown_keys: "rejects_unknown_keys (ArtifactChange_UnmarshalJSON ord) ArtifactChange_keys"
  by (rule rejects_unknown_keysI) (erule (1) ArtifactChange_unknown_key_fails, erule (2) ArtifactChange_unknown_key)

lemma ArtifactChange_requires_ArtifactLocation: "requires_key (ArtifactChange_UnmarshalJSON ord) ''artifactLocation''"
  by (rule requires_keyI) (erule ArtifactChange_required_present(1), erule ArtifactChange_without_ArtifactLocation)


lemma ArtifactChange_requires_Replacements: "requires_key (ArtifactChange_UnmarshalJSON ord) ''replacements''"
  by (rule requires_keyI) (erule ArtifactChange_required_present(2), erule ArtifactChange_without_Replacements)


subsection \<open>Rectangle: decoding and encoding\<close>

definition Rectangle_keys :: "string list" where
  "Rectangle_keys = [''bottom'', ''left'', ''message'', ''properties'', ''right'', ''top'']"

definition Rectangle_decodes :: "order \<Rightarrow> (string \<rightharpoonup> json) \<Rightarrow> Rectangle \<Rightarrow> bool" where
  "Rectangle_decodes ord m strct \<longleftrightarrow>
     dom m \<subseteq> set Rectangle_keys \<and>
     field_ok json_Unmarshal_float64 (m ''bottom'') (Finite (NInt 0)) (Rectangle.Bottom strct) \<and>
     field_ok json_Unmarshal_float64 (m ''left'') (Finite (NInt 0)) (Rectangle.Left strct) \<and>
     field_ok (json_Unmarshal_ptr (Message_UnmarshalJSON ord)) (m ''message'') None (Rectangle.Message strct) \<and>
     field_ok (json_Unmarshal_ptr (PropertyBag_UnmarshalJSON ord)) (m ''properties'') None (Rectangle.Properties strct) \<and>
     field_ok json_Unmarshal_float64 (m ''right'') (Finite (NInt 0)) (Rectangle.Right strct) \<and>
     field_ok json_Unmarshal_float64 (m ''top'') (Finite (NInt 0)) (Rectangle.Top strct)"

lemma Rectangle_cases_keys: "fst ` set (Rectangle_cases ord v) = set Rectangle_keys"
  by (rule keys_image) (simp add: Rectangle_cases_def Rectangle_keys_def)

lemma Rectangle_regular: "regular (\<lambda>k v. switch k (Rectangle_cases ord v) (reject k))"
  by (rule regular_switch) (simp add: Rectangle_cases_def)

lemma Rectangle_fields:
  "field_case (Rectangle_cases ord) Rectangle.Bottom ''bottom'' json_Unmarshal_float64"
  "field_case (Rectangle_cases ord) Rectangle.Left ''left'' json_Unmarshal_float64"
  "field_case (Rectangle_cases ord) Rectangle.Message ''message'' (json_Unmarshal_ptr (Message_UnmarshalJSON ord))"
  "field_case (Rectangle_cases ord) Rectangle.Properties ''properties'' (json_Unmarshal_ptr (PropertyBag_UnmarshalJSON ord))"
  "field_case (Rectangle_cases ord) Rectangle.Right ''right'' json_Unmarshal_float64"
  "field_case (Rectangle_cases ord) Rectangle.Top ''top'' json_Unmarshal_float64"
  unfolding field_case_def Rectangle_cases_def
  by (simp_all add: writes_into writes_received keeps_into split_def)

lemma Rectangle_loop_sound:
  assumes loop: "range_loop (\<lambda>k v. switch k (Rectangle_cases ord v) (reject k)) (members ord kvs) Rectangle_zero = Inr strct"
  shows "dom (map_of (rev kvs)) \<subseteq> set Rectangle_keys \<and>
     field_ok json_Unmarshal_float64 (map_of (rev kvs) ''bottom'') (Finite (NInt 0)) (Rectangle.Bottom strct) \<and>
     field_ok json_Unmarshal_float64 (map_of (rev kvs) ''left'') (Finite (NInt 0)) (Rectangle.Left strct) \<and>
     field_ok (json_Unmarshal_ptr (Message_UnmarshalJSON ord)) (map_of (rev kvs) ''message'') None (Rectangle.Message strct) \<and>
     field_ok (json_Unmarshal_ptr (PropertyBag_UnmarshalJSON ord)) (map_of (rev kvs) ''properties'') None (Rectangle.Properties strct) \<and>
     field_ok json_Unmarshal_float64 (map_of (rev kvs) ''right'') (Finite (NInt 0)) (Rectangle.Right strct) \<and>
     field_ok json_Unmarshal_float64 (map_of (rev kvs) ''top'') (Finite (NInt 0)) (Rectangle.Top strct)"
proof -
  have "fst ` set (members ord kvs) \<subseteq> set Rectangle_keys"
    by (rule loop_keys_known [OF loop]) (rule Rectangle_cases_keys)
  then have keys: "dom (map_of (rev kvs)) \<subseteq> set Rectangle_keys"
    by (simp add: dom_members [of kvs ord])
  note fld = field_after_loop [OF _ members_distinct loop, unfolded map_of_members]
  show ?thesis
    using keys fld [OF Rectangle_fields(1)] fld [OF Rectangle_fields(2)] fld [OF Rectangle_fields(3)] fld [OF Rectangle_fields(4)] fld [OF Rectangle_fields(5)] fld [OF Rectangle_fields(6)] 
    by (simp only: prod.case Rectangle_zero_def Rectangle.select_convs simp_thms)
qed

lemma Rectangle_decodesD:
  assumes "Rectangle_decodes ord m strct"
  shows "dom m \<subseteq> set Rectangle_keys"
    and "field_ok json_Unmarshal_float64 (m ''bottom'') (Finite (NInt 0)) (Rectangle.Bottom strct)"
    and "field_ok json_Unmarshal_float64 (m ''left'') (Finite (NInt 0)) (Rectangle.Left strct)"
    and "field_ok (json_Unmarshal_ptr (Message_UnmarshalJSON ord)) (m ''message'') None (Rectangle.Message strct)"
    and "field_ok (json_Unmarshal_ptr (PropertyBag_UnmarshalJSON ord)) (m ''properties'') None (Rectangle.Properties strct)"
    and "field_ok json_Unmarshal_float64 (m ''right'') (Finite (NInt 0)) (Rectangle.Right strct)"
    and "field_ok json_Unmarshal_float64 (m ''top'') (Finite (NInt 0)) (Rectangle.Top strct)"
  using assms unfolding Rectangle_decodes_def by - (elim conjE, assumption)+

lemma Rectangle_decodes_unique:
  assumes "Rectangle_decodes ord m a" and "Rectangle_decodes ord m b"
  shows "a = b"
  apply (rule Rectangle.equality)
  apply (rule field_ok_unique [OF Rectangle_decodesD(2) [OF assms(1)] Rectangle_decodesD(2) [OF assms(2)]])
  apply (rule field_ok_unique [OF Rectangle_decodesD(3) [OF assms(1)] Rectangle_decodesD(3) [OF assms(2)]])
  apply (rule field_ok_unique [OF Rectangle_decodesD(4) [OF assms(1)] Rectangle_decodesD(4) [OF assms(2)]])
  apply (rule field_ok_unique [OF Rectangle_decodesD(5) [OF assms(1)] Rectangle_decodesD(5) [OF assms(2)]])
  apply (rule field_ok_unique [OF Rectangle_decodesD(6) [OF assms(1)] Rectangle_decodesD(6) [OF assms(2)]])
  apply (rule field_ok_unique [OF Rectangle_decodesD(7) [OF assms(1)] Rectangle_decodesD(7) [OF assms(2)]])
  apply simp
  done

lemma Rectangle_accepts:
  assumes "Rectangle_decodes ord m strct" and "m k = Some v"
  shows "accepting (switch k (Rectangle_cases ord v) (reject k))"
proof -
  from assms have "k \<in> set Rectangle_keys" by (auto simp: Rectangle_decodes_def)
  then have key: "k \<in> fst ` set (Rectangle_cases ord v)"
    by (simp only: Rectangle_cases_keys)
  have rows: "list_all (\<lambda>(c, h). m c = Some v \<longrightarrow> accepting h) (Rectangle_cases ord v)"
    unfolding Rectangle_cases_def list.pred_inject
    apply (rule conjI [OF accept_row [where m = m and v = v, OF Rectangle_decodesD(2) [OF assms(1)]]])
    apply (rule conjI [OF accept_row [where m = m and v = v, OF Rectangle_decodesD(3) [OF assms(1)]]])
    apply (rule conjI [OF accept_row [where m = m and v = v, OF Rectangle_decodesD(4) [OF assms(1)]]])
    apply (rule conjI [OF accept_row [where m = m and v = v, OF Rectangle_decodesD(5) [OF assms(1)]]])
    apply (rule conjI [OF accept_row [where m = m and v = v, OF Rectangle_decodesD(6) [OF assms(1)]]])
    apply (rule conjI [OF accept_row [where m = m and v = v, OF Rectangle_decodesD(7) [OF assms(1)]]])
    apply simp
    done
  show ?thesis by (rule rows_accept [OF rows assms(2) key])
qed

lemma Rectangle_decode_iff:
  "Rectangle_UnmarshalJSON ord (JObj kvs) = Inr strct \<longleftrightarrow>
   Rectangle_decodes ord (map_of (rev kvs)) strct"
proof
  assume "Rectangle_UnmarshalJSON ord (JObj kvs) = Inr strct"
  then have loop: "range_loop (\<lambda>k v. switch k (Rectangle_cases ord v) (reject k)) (members ord kvs) Rectangle_zero = Inr strct"
    by (auto simp: Rectangle_UnmarshalJSON_def members_def split: sum.splits)
  from Rectangle_loop_sound [OF loop]
  show "Rectangle_decodes ord (map_of (rev kvs)) strct"
    by (simp add: Rectangle_decodes_def)
next
  assume d: "Rectangle_decodes ord (map_of (rev kvs)) strct"
  have "\<exists>t. range_loop (\<lambda>k v. switch k (Rectangle_cases ord v) (reject k)) (members ord kvs) Rectangle_zero = Inr t"
  proof (rule loop_succeeds [OF Rectangle_regular])
    fix k v assume "(k, v) \<in> set (members ord kvs)"
    then have "map_of (rev kvs) k = Some v" by (rule member_lookup)
    from Rectangle_accepts [OF d this]
    show "accepting (switch k (Rectangle_cases ord v) (reject k))" .
  qed
  then obtain strct' where
    loop: "range_loop (\<lambda>k v. switch k (Rectangle_cases ord v) (reject k)) (members ord kvs) Rectangle_zero = Inr strct'" ..
  from Rectangle_loop_sound [OF loop]
  have d': "Rectangle_decodes ord (map_of (rev kvs)) strct'"
    by (simp add: Rectangle_decodes_def)
  from Rectangle_decodes_unique [OF d' d] have "strct' = strct" .
  with loop show "Rectangle_UnmarshalJSON ord (JObj kvs) = Inr strct"
    by (simp add: Rectangle_UnmarshalJSON_def members_def)
qed

definition Rectangle_results :: "scanner \<Rightarrow> order \<Rightarrow> Rectangle \<Rightarrow> (string \<times> (error + json)) list" where
  "Rectangle_results scn ord strct =
     [(''bottom'', json_Marshal_float64 (Rectangle.Bottom strct)),
      (''left'', json_Marshal_float64 (Rectangle.Left strct)),
      (''message'', json_Marshal_ptr ''*sarif.Message'' (Message_MarshalJSON scn ord) (Rectangle.Message strct)),
      (''properties'', json_Marshal_bytes ''*sarif.PropertyBag'' (PropertyBag_MarshalJSON scn ord) (Rectangle.Properties strct)),
      (''right'', json_Marshal_float64 (Rectangle.Right strct)),
      (''top'', json_Marshal_float64 (Rectangle.Top strct))]"

lemma Rectangle_MarshalJSON_results:
  "Rectangle_MarshalJSON scn ord strct = object (emit_all (Rectangle_results scn ord strct))"
  by (simp add: Rectangle_MarshalJSON_def Rectangle_results_def emit_nilcheck)

lemma Rectangle_keys_written:
  "Rectangle_MarshalJSON scn ord strct = Inr j \<Longrightarrow> \<exists>kvs. j = JObj kvs \<and> map fst kvs = Rectangle_keys"
  using keys_written [of "Rectangle_results scn ord strct" j]
  by (simp add: Rectangle_MarshalJSON_results Rectangle_results_def Rectangle_keys_def)

definition Rectangle_encodable :: "scanner \<Rightarrow> order \<Rightarrow> Rectangle \<Rightarrow> bool" where
  "Rectangle_encodable scn ord strct \<longleftrightarrow>
     finite64 (Rectangle.Bottom strct) \<and>
     finite64 (Rectangle.Left strct) \<and>
     ptr_all (Message_encodable scn ord) (Rectangle.Message strct) \<and>
     ptr_all (PropertyBag_encodable scn ord) (Rectangle.Properties strct) \<and>
     finite64 (Rectangle.Right strct) \<and>
     finite64 (Rectangle.Top strct)"

lemma Rectangle_fails_unless: "fails_unless (Rectangle_MarshalJSON scn ord) (Rectangle_encodable scn ord)"
  unfolding fails_unless_def Rectangle_MarshalJSON_results Rectangle_results_def Rectangle_encodable_def isl_object_emit_all
  by (auto simp add: always_simps
      fails_unlessD [OF fails_unless_float64]
      fails_unlessD [OF fails_unless_ptr [OF Message_fails_unless]]
      fails_unlessD [OF PropertyBag_field_fails_unless])

definition Rectangle_valid :: "Rectangle \<Rightarrow> bool" where
  "Rectangle_valid strct \<longleftrightarrow>
     float64_valid (Rectangle.Bottom strct) \<and>
     float64_valid (Rectangle.Left strct) \<and>
     ptr_all Message_valid (Rectangle.Message strct) \<and>
     ptr_all PropertyBag_valid (Rectangle.Properties strct) \<and>
     float64_valid (Rectangle.Right strct) \<and>
     float64_valid (Rectangle.Top strct)"

lemma Rectangle_keys_distinct: "distinct Rectangle_keys"
  by (simp add: Rectangle_keys_def)

lemma Rectangle_round_trips:
  "round_trips_object (Rectangle_MarshalJSON scn ord) (Rectangle_UnmarshalJSON ord') Rectangle_valid"
  unfolding round_trips_object_def
proof (intro allI impI)
  fix strct assume v: "Rectangle_valid strct"
  note v' = v [unfolded Rectangle_valid_def]
  let ?rs = "Rectangle_results scn ord strct"
  let ?kvs = "map (\<lambda>e. (fst e, projr (snd e))) ?rs"
  have f0: "\<not> isl (json_Marshal_float64 (Rectangle.Bottom strct)) \<and>
      json_Unmarshal_float64 (projr (json_Marshal_float64 (Rectangle.Bottom strct))) = Inr (Rectangle.Bottom strct)"
    by (rule round_tripsD [OF round_trips_float64]) (use v' in simp)
  have f1: "\<not> isl (json_Marshal_float64 (Rectangle.Left strct)) \<and>
      json_Unmarshal_float64 (projr (json_Marshal_float64 (Rectangle.Left strct))) = Inr (Rectangle.Left strct)"
    by (rule round_tripsD [OF round_trips_float64]) (use v' in simp)
  have f2: "\<not> isl (json_Marshal_ptr ''*sarif.Message'' (Message_MarshalJSON scn ord) (Rectangle.Message strct)) \<and>
      json_Unmarshal_ptr (Message_UnmarshalJSON ord') (projr (json_Marshal_ptr ''*sarif.Message'' (Message_MarshalJSON scn ord) (Rectangle.Message strct))) = Inr (Rectangle.Message strct)"
    by (rule round_tripsD [OF round_trips_ptr [OF Message_round_trips]]) (use v' in simp)
  have f3: "\<not> isl (json_Marshal_bytes ''*sarif.PropertyBag'' (PropertyBag_MarshalJSON scn ord) (Rectangle.Properties strct)) \<and>
      json_Unmarshal_ptr (PropertyBag_UnmarshalJSON ord') (projr (json_Marshal_bytes ''*sarif.PropertyBag'' (PropertyBag_MarshalJSON scn ord) (Rectangle.Properties strct))) = Inr (Rectangle.Properties strct)"
    by (rule round_tripsD [OF PropertyBag_field_round_trips]) (use v' in simp)
  have f4: "\<not> isl (json_Marshal_float64 (Rectangle.Right strct)) \<and>
      json_Unmarshal_float64 (projr (json_Marshal_float64 (Rectangle.Right strct))) = Inr (Rectangle.Right strct)"
    by (rule round_tripsD [OF round_trips_float64]) (use v' in simp)
  have f5: "\<not> isl (json_Marshal_float64 (Rectangle.Top strct)) \<and>
      json_Unmarshal_float64 (projr (json_Marshal_float64 (Rectangle.Top strct))) = Inr (Rectangle.Top strct)"
    by (rule round_tripsD [OF round_trips_float64]) (use v' in simp)
  note fs = f0 f1 f2 f3 f4 f5
  have rs: "?rs =
     [(''bottom'', json_Marshal_float64 (Rectangle.Bottom strct)),
      (''left'', json_Marshal_float64 (Rectangle.Left strct)),
      (''message'', json_Marshal_ptr ''*sarif.Message'' (Message_MarshalJSON scn ord) (Rectangle.Message strct)),
      (''properties'', json_Marshal_bytes ''*sarif.PropertyBag'' (PropertyBag_MarshalJSON scn ord) (Rectangle.Properties strct)),
      (''right'', json_Marshal_float64 (Rectangle.Right strct)),
      (''top'', json_Marshal_float64 (Rectangle.Top strct))]"
    by (auto simp add: Rectangle_results_def)
  have keys: "map fst ?rs = Rectangle_keys"
    by (simp add: Rectangle_results_def Rectangle_keys_def)
  then have dist: "distinct (map fst ?rs)"
    by (simp only: Rectangle_keys_distinct)
  have ok: "list_all (\<lambda>e. \<not> isl (snd e)) ?rs"
    unfolding rs by (simp only: list.pred_inject snd_conv fs simp_thms)
  then have enc: "Rectangle_MarshalJSON scn ord strct = Inr (JObj ?kvs)"
    by (simp add: Rectangle_MarshalJSON_results [of scn ord strct] object_emit_all_eq_Inr)
  have l0: "map_of (rev ?kvs) ''bottom'' = Some (projr (json_Marshal_float64 (Rectangle.Bottom strct)))"
    by (rule written_lookup [OF dist]) (subst rs, intro list.set_intros)
  have l1: "map_of (rev ?kvs) ''left'' = Some (projr (json_Marshal_float64 (Rectangle.Left strct)))"
    by (rule written_lookup [OF dist]) (subst rs, intro list.set_intros)
  have l2: "map_of (rev ?kvs) ''message'' = Some (projr (json_Marshal_ptr ''*sarif.Message'' (Message_MarshalJSON scn ord) (Rectangle.Message strct)))"
    by (rule written_lookup [OF dist]) (subst rs, intro list.set_intros)
  have l3: "map_of (rev ?kvs) ''properties'' = Some (projr (json_Marshal_bytes ''*sarif.PropertyBag'' (PropertyBag_MarshalJSON scn ord) (Rectangle.Properties strct)))"
    by (rule written_lookup [OF dist]) (subst rs, intro list.set_intros)
  have l4: "map_of (rev ?kvs) ''right'' = Some (projr (json_Marshal_float64 (Rectangle.Right strct)))"
    by (rule written_lookup [OF dist]) (subst rs, intro list.set_intros)
  have l5: "map_of (rev ?kvs) ''top'' = Some (projr (json_Marshal_float64 (Rectangle.Top strct)))"
    by (rule written_lookup [OF dist]) (subst rs, intro list.set_intros)
  have dec: "Rectangle_decodes ord' (map_of (rev ?kvs)) strct"
    unfolding Rectangle_decodes_def l0 l1 l2 l3 l4 l5
    by (simp only: field_ok_Some fs written_dom keys subset_refl option.simps simp_thms)
  then have "Rectangle_UnmarshalJSON ord' (JObj ?kvs) = Inr strct"
    by (simp only: Rectangle_decode_iff)
  with enc show "rt_object (Rectangle_MarshalJSON scn ord) (Rectangle_UnmarshalJSON ord') strct"
    unfolding rt_object_def by blast
qed

definition Rectangle_small_bags :: "Rectangle \<Rightarrow> bool" where
  "Rectangle_small_bags strct \<longleftrightarrow>
     ptr_all Message_small_bags (Rectangle.Message strct) \<and>
     ptr_all PropertyBag_small_bags (Rectangle.Properties strct)"

lemma Rectangle_same_output:
  "same_output (Rectangle_MarshalJSON scn ord) (Rectangle_MarshalJSON scn ord') Rectangle_small_bags"
  unfolding same_output_def
proof (intro allI impI)
  fix strct assume v: "Rectangle_small_bags strct"
  note v' = v [unfolded Rectangle_small_bags_def]
  have e2: "json_Marshal_ptr ''*sarif.Message'' (Message_MarshalJSON scn ord) (Rectangle.Message strct) =
      json_Marshal_ptr ''*sarif.Message'' (Message_MarshalJSON scn ord') (Rectangle.Message strct)"
    by (rule same_outputD [OF same_output_ptr [OF Message_same_output]]) (use v' in simp)
  have e3: "json_Marshal_bytes ''*sarif.PropertyBag'' (PropertyBag_MarshalJSON scn ord) (Rectangle.Properties strct) =
      json_Marshal_bytes ''*sarif.PropertyBag'' (PropertyBag_MarshalJSON scn ord') (Rectangle.Properties strct)"
    by (rule same_outputD [OF PropertyBag_field_same_output]) (use v' in simp)
  show "Rectangle_MarshalJSON scn ord strct = Rectangle_MarshalJSON scn ord' strct"
    by (simp only: Rectangle_MarshalJSON_def e2 e3)
qed

lemma Rectangle_writes_keys: "writes_keys (Rectangle_MarshalJSON scn ord) Rectangle_keys"
  unfolding writes_keys_def by (intro allI impI) (erule Rectangle_keys_written)

lemma Rectangle_unknown_key:
  assumes new: "k \<notin> set Rectangle_keys" and key: "k \<in> fst ` set kvs"
    and rest: "Rectangle_UnmarshalJSON ord (JObj (filter (\<lambda>e. fst e \<noteq> k) kvs)) = Inr strct"
  shows "Rectangle_UnmarshalJSON ord (JObj kvs) = Inl (not_allowed k)"
proof -
  have rej: "switch k (Rectangle_cases ord v) (reject k) s = Inl (not_allowed k)" for v s
    by (rule switch_rejects) (simp only: Rectangle_cases_keys new not_False_eq_True)
  from rest obtain t where
    "range_loop (\<lambda>k v. switch k (Rectangle_cases ord v) (reject k)) (members ord (filter (\<lambda>e. fst e \<noteq> k) kvs)) Rectangle_zero = Inr t"
    by (cases "range_loop (\<lambda>k v. switch k (Rectangle_cases ord v) (reject k)) (members ord (filter (\<lambda>e. fst e \<noteq> k) kvs)) Rectangle_zero")
       (simp_all add: Rectangle_UnmarshalJSON_def members_def)
  from unknown_key_named [OF Rectangle_regular rej key this]
  show ?thesis by (simp add: Rectangle_UnmarshalJSON_def members_def)
qed

lemma Rectangle_unknown_key_fails:
  assumes "k \<notin> set Rectangle_keys" and "k \<in> fst ` set kvs"
  shows "isl (Rectangle_UnmarshalJSON ord (JObj kvs))"
proof (cases "Rectangle_UnmarshalJSON ord (JObj kvs)")
  case (Inr strct)
  then have "dom (map_of (rev kvs)) \<subseteq> set Rectangle_keys"
    by (simp only: Rectangle_decode_iff Rectangle_decodesD(1))
  with assms show ?thesis by (auto simp: dom_map_of_conv_image_fst)
qed simp

lemma Rectangle_rejects_unknown_keys: "rejects_unknown_keys (Rectangle_UnmarshalJSON ord) Rectangle_keys"
  by (rule rejects_unknown_keysI) (erule (1) Rectangle_unknown_key_fails, erule (2) Rectangle_unknown_key)

subsection \<open>Attachment: decoding and encoding\<close>

definition Attachment_keys :: "string list" where
  "Attachment_keys = [''artifactLocation'', ''description'', ''properties'', ''rectangles'', ''regions'']"

definition Attachment_decodes :: "order \<Rightarrow> (string \<rightharpoonup> json) \<Rightarrow> Attachment \<Rightarrow> bool" where
  "Attachment_decodes ord m strct \<longleftrightarrow>
     dom m \<subseteq> set Attachment_keys \<and>
     field_ok (json_Unmarshal_ptr (ArtifactLocation_UnmarshalJSON ord)) (m ''artifactLocation'') None (Attachment.ArtifactLocation strct) \<and>
     field_ok (json_Unmarshal_ptr (Message_UnmarshalJSON ord)) (m ''description'') None (Attachment.Description strct) \<and>
     field_ok (json_Unmarshal_ptr (PropertyBag_UnmarshalJSON ord)) (m ''properties'') None (Attachment.Properties strct) \<and>
     field_ok (json_Unmarshal_slice (json_Unmarshal_ptr (Rectangle_UnmarshalJSON ord))) (m ''rectangles'') None (Attachment.Rectangles strct) \<and>
     field_ok (json_Unmarshal_slice (json_Unmarshal_ptr (Region_UnmarshalJSON ord))) (m ''regions'') None (Attachment.Regions strct) \<and>
     m ''artifactLocation'' \<noteq> None"

lemma Attachment_cases_keys: "fst ` set (Attachment_cases ord v) = set Attachment_keys"
  by (rule keys_image) (simp add: Attachment_cases_def Attachment_keys_def)

lemma Attachment_regular: "regular (\<lambda>k v. switch k (Attachment_cases ord v) (reject k))"
  by (rule regular_switch) (simp add: Attachment_cases_def)

lemma Attachment_fields:
  "field_case (Attachment_cases ord) (\<lambda>(strct, artifactLocationReceived). Attachment.ArtifactLocation strct) ''artifactLocation'' (json_Unmarshal_ptr (ArtifactLocation_UnmarshalJSON ord))"
  "field_case (Attachment_cases ord) (\<lambda>(strct, artifactLocationReceived). Attachment.Description strct) ''description'' (json_Unmarshal_ptr (Message_UnmarshalJSON ord))"
  "field_case (Attachment_cases ord) (\<lambda>(strct, artifactLocationReceived). Attachment.Properties strct) ''properties'' (json_Unmarshal_ptr (PropertyBag_UnmarshalJSON ord))"
  "field_case (Attachment_cases ord) (\<lambda>(strct, artifactLocationReceived). Attachment.Rectangles strct) ''rectangles'' (json_Unmarshal_slice (json_Unmarshal_ptr (Rectangle_UnmarshalJSON ord)))"
  "field_case (Attachment_cases ord) (\<lambda>(strct, artifactLocationReceived). Attachment.Regions strct) ''regions'' (json_Unmarshal_slice (json_Unmarshal_ptr (Region_UnmarshalJSON ord)))"
  "field_case (Attachment_cases ord) (\<lambda>(strct, artifactLocationReceived). artifactLocationReceived) ''artifactLocation'' (received (json_Unmarshal_ptr (ArtifactLocation_UnmarshalJSON ord)))"
  unfolding field_case_def Attachment_cases_def
  by (simp_all add: writes_into writes_received keeps_into split_def)

lemma Attachment_loop_sound:
  assumes loop: "range_loop (\<lambda>k v. switch k (Attachment_cases ord v) (reject k)) (members ord kvs) (Attachment_zero, False) = Inr (strct, artifactLocationReceived)"
  shows "dom (map_of (rev kvs)) \<subseteq> set Attachment_keys \<and>
     field_ok (json_Unmarshal_ptr (ArtifactLocation_UnmarshalJSON ord)) (map_of (rev kvs) ''artifactLocation'') None (Attachment.ArtifactLocation strct) \<and>
     field_ok (json_Unmarshal_ptr (Message_UnmarshalJSON ord)) (map_of (rev kvs) ''description'') None (Attachment.Description strct) \<and>
     field_ok (json_Unmarshal_ptr (PropertyBag_UnmarshalJSON ord)) (map_of (rev kvs) ''properties'') None (Attachment.Properties strct) \<and>
     field_ok (json_Unmarshal_slice (json_Unmarshal_ptr (Rectangle_UnmarshalJSON ord))) (map_of (rev kvs) ''rectangles'') None (Attachment.Rectangles strct) \<and>
     field_ok (json_Unmarshal_slice (json_Unmarshal_ptr (Region_UnmarshalJSON ord))) (map_of (rev kvs) ''regions'') None (Attachment.Regions strct) \<and>
     (artifactLocationReceived \<longleftrightarrow> map_of (rev kvs) ''artifactLocation'' \<noteq> None)"
proof -
  have "fst ` set (members ord kvs) \<subseteq> set Attachment_keys"
    by (rule loop_keys_known [OF loop]) (rule Attachment_cases_keys)
  then have keys: "dom (map_of (rev kvs)) \<subseteq> set Attachment_keys"
    by (simp add: dom_members [of kvs ord])
  note fld = field_after_loop [OF _ members_distinct loop, unfolded map_of_members]
  note flg = flag_after_loop [OF _ members_distinct loop, unfolded map_of_members]
  show ?thesis
    using keys fld [OF Attachment_fields(1)] fld [OF Attachment_fields(2)] fld [OF Attachment_fields(3)] fld [OF Attachment_fields(4)] fld [OF Attachment_fields(5)] flg [OF Attachment_fields(6)]
    by (simp only: prod.case Attachment_zero_def Attachment.select_convs simp_thms)
qed

lemma Attachment_decodesD:
  assumes "Attachment_decodes ord m strct"
  shows "dom m \<subseteq> set Attachment_keys"
    and "field_ok (json_Unmarshal_ptr (ArtifactLocation_UnmarshalJSON ord)) (m ''artifactLocation'') None (Attachment.ArtifactLocation strct)"
    and "field_ok (json_Unmarshal_ptr (Message_UnmarshalJSON ord)) (m ''description'') None (Attachment.Description strct)"
    and "field_ok (json_Unmarshal_ptr (PropertyBag_UnmarshalJSON ord)) (m ''properties'') None (Attachment.Properties strct)"
    and "field_ok (json_Unmarshal_slice (json_Unmarshal_ptr (Rectangle_UnmarshalJSON ord))) (m ''rectangles'') None (Attachment.Rectangles strct)"
    and "field_ok (json_Unmarshal_slice (json_Unmarshal_ptr (Region_UnmarshalJSON ord))) (m ''regions'') None (Attachment.Regions strct)"
    and "m ''artifactLocation'' \<noteq> None"
  using assms unfolding Attachment_decodes_def by - (elim conjE, assumption)+

lemma Attachment_decodes_unique:
  assumes "Attachment_decodes ord m a" and "Attachment_decodes ord m b"
  shows "a = b"
  apply (rule Attachment.equality)
  apply (rule field_ok_unique [OF Attachment_decodesD(2) [OF assms(1)] Attachment_decodesD(2) [OF assms(2)]])
  apply (rule field_ok_unique [OF Attachment_decodesD(3) [OF assms(1)] Attachment_decodesD(3) [OF assms(2)]])
  apply (rule field_ok_unique [OF Attachment_decodesD(4) [OF assms(1)] Attachment_decodesD(4) [OF assms(2)]])
  apply (rule field_ok_unique [OF Attachment_decodesD(5) [OF assms(1)] Attachment_decodesD(5) [OF assms(2)]])
  apply (rule field_ok_unique [OF Attachment_decodesD(6) [OF assms(1)] Attachment_decodesD(6) [OF assms(2)]])
  apply simp
  done

lemma Attachment_accepts:
  assumes "Attachment_decodes ord m strct" and "m k = Some v"
  shows "accepting (switch k (Attachment_cases ord v) (reject k))"
proof -
  from assms have "k \<in> set Attachment_keys" by (auto simp: Attachment_decodes_def)
  then have key: "k \<in> fst ` set (Attachment_cases ord v)"
    by (simp only: Attachment_cases_keys)
  have rows: "list_all (\<lambda>(c, h). m c = Some v \<longrightarrow> accepting h) (Attachment_cases ord v)"
    unfolding Attachment_cases_def list.pred_inject
    apply (rule conjI [OF accept_row [where m = m and v = v, OF Attachment_decodesD(2) [OF assms(1)]]])
    apply (rule conjI [OF accept_row [where m = m and v = v, OF Attachment_decodesD(3) [OF assms(1)]]])
    apply (rule conjI [OF accept_row [where m = m and v = v, OF Attachment_decodesD(4) [OF assms(1)]]])
    apply (rule conjI [OF accept_row [where m = m and v = v, OF Attachment_decodesD(5) [OF assms(1)]]])
    apply (rule conjI [OF accept_row [where m = m and v = v, OF Attachment_decodesD(6) [OF assms(1)]]])
    apply simp
    done
  show ?thesis by (rule rows_accept [OF rows assms(2) key])
qed

lemma Attachment_decode_iff:
  "Attachment_UnmarshalJSON ord (JObj kvs) = Inr strct \<longleftrightarrow>
   Attachment_decodes ord (map_of (rev kvs)) strct"
proof
  assume "Attachment_UnmarshalJSON ord (JObj kvs) = Inr strct"
  then obtain artifactLocationReceived where
    loop: "range_loop (\<lambda>k v. switch k (Attachment_cases ord v) (reject k)) (members ord kvs) (Attachment_zero, False) = Inr (strct, artifactLocationReceived)"
    and fin: "artifactLocationReceived"
    by (auto simp: Attachment_UnmarshalJSON_def members_def split: sum.splits if_splits)
  from Attachment_loop_sound [OF loop] fin
  show "Attachment_decodes ord (map_of (rev kvs)) strct"
    by (simp add: Attachment_decodes_def)
next
  assume d: "Attachment_decodes ord (map_of (rev kvs)) strct"
  have "\<exists>t. range_loop (\<lambda>k v. switch k (Attachment_cases ord v) (reject k)) (members ord kvs) (Attachment_zero, False) = Inr t"
  proof (rule loop_succeeds [OF Attachment_regular])
    fix k v assume "(k, v) \<in> set (members ord kvs)"
    then have "map_of (rev kvs) k = Some v" by (rule member_lookup)
    from Attachment_accepts [OF d this]
    show "accepting (switch k (Attachment_cases ord v) (reject k))" .
  qed
  then obtain t where "range_loop (\<lambda>k v. switch k (Attachment_cases ord v) (reject k)) (members ord kvs) (Attachment_zero, False) = Inr t" ..
  then obtain strct' artifactLocationReceived where
    loop: "range_loop (\<lambda>k v. switch k (Attachment_cases ord v) (reject k)) (members ord kvs) (Attachment_zero, False) = Inr (strct', artifactLocationReceived)"
    by (cases t) auto
  from Attachment_loop_sound [OF loop] d
  have fin: "artifactLocationReceived"
    and d': "Attachment_decodes ord (map_of (rev kvs)) strct'"
    by (simp_all add: Attachment_decodes_def)
  from Attachment_decodes_unique [OF d' d] have "strct' = strct" .
  with loop fin show "Attachment_UnmarshalJSON ord (JObj kvs) = Inr strct"
    by (simp add: Attachment_UnmarshalJSON_def members_def)
qed

definition Attachment_results :: "scanner \<Rightarrow> order \<Rightarrow> Attachment \<Rightarrow> (string \<times> (error + json)) list" where
  "Attachment_results scn ord strct =
     [(''artifactLocation'', if Attachment.ArtifactLocation strct = None then Inl (RequiredField ''artifactLocation'') else json_Marshal_ptr ''*sarif.ArtifactLocation'' (ArtifactLocation_MarshalJSON scn ord) (Attachment.ArtifactLocation strct)),
      (''description'', json_Marshal_ptr ''*sarif.Message'' (Message_MarshalJSON scn ord) (Attachment.Description strct)),
      (''properties'', json_Marshal_bytes ''*sarif.PropertyBag'' (PropertyBag_MarshalJSON scn ord) (Attachment.Properties strct)),
      (''rectangles'', json_Marshal_slice (json_Marshal_ptr ''*sarif.Rectangle'' (Rectangle_MarshalJSON scn ord)) (Attachment.Rectangles strct)),
      (''regions'', json_Marshal_slice (json_Marshal_ptr ''*sarif.Region'' (Region_MarshalJSON scn ord)) (Attachment.Regions strct))]"

lemma Attachment_MarshalJSON_results:
  "Attachment_MarshalJSON scn ord strct = object (emit_all (Attachment_results scn ord strct))"
  by (simp add: Attachment_MarshalJSON_def Attachment_results_def emit_nilcheck)

lemma Attachment_keys_written:
  "Attachment_MarshalJSON scn ord strct = Inr j \<Longrightarrow> \<exists>kvs. j = JObj kvs \<and> map fst kvs = Attachment_keys"
  using keys_written [of "Attachment_results scn ord strct" j]
  by (simp add: Attachment_MarshalJSON_results Attachment_results_def Attachment_keys_def)

definition Attachment_encodable :: "scanner \<Rightarrow> order \<Rightarrow> Attachment \<Rightarrow> bool" where
  "Attachment_encodable scn ord strct \<longleftrightarrow>
     Attachment.ArtifactLocation strct \<noteq> None \<and>
     ptr_all (ArtifactLocation_encodable scn ord) (Attachment.ArtifactLocation strct) \<and>
     ptr_all (Message_encodable scn ord) (Attachment.Description strct) \<and>
     ptr_all (PropertyBag_encodable scn ord) (Attachment.Properties strct) \<and>
     slice_all (ptr_all (Rectangle_encodable scn ord)) (Attachment.Rectangles strct) \<and>
     slice_all (ptr_all (Region_encodable scn ord)) (Attachment.Regions strct)"

lemma Attachment_fails_unless: "fails_unless (Attachment_MarshalJSON scn ord) (Attachment_encodable scn ord)"
  unfolding fails_unless_def Attachment_MarshalJSON_results Attachment_results_def Attachment_encodable_def isl_object_emit_all
  by (auto simp add: always_simps
      fails_unlessD [OF fails_unless_ptr [OF ArtifactLocation_fails_unless]]
      fails_unlessD [OF fails_unless_ptr [OF Message_fails_unless]]
      fails_unlessD [OF PropertyBag_field_fails_unless]
      fails_unlessD [OF fails_unless_slice [OF fails_unless_ptr [OF Rectangle_fails_unless]]]
      fails_unlessD [OF fails_unless_slice [OF fails_unless_ptr [OF Region_fails_unless]]])

definition Attachment_valid :: "Attachment \<Rightarrow> bool" where
  "Attachment_valid strct \<longleftrightarrow>
     Attachment.ArtifactLocation strct \<noteq> None \<and>
     ptr_all ArtifactLocation_valid (Attachment.ArtifactLocation strct) \<and>
     ptr_all Message_valid (Attachment.Description strct) \<and>
     ptr_all PropertyBag_valid (Attachment.Properties strct) \<and>
     slice_all (ptr_all Rectangle_valid) (Attachment.Rectangles strct) \<and>
     slice_all (ptr_all Region_valid) (Attachment.Regions strct)"

lemma Attachment_keys_distinct: "distinct Attachment_keys"
  by (simp add: Attachment_keys_def)

lemma Attachment_round_trips:
  "round_trips_object (Attachment_MarshalJSON scn ord) (Attachment_UnmarshalJSON ord') Attachment_valid"
  unfolding round_trips_object_def
proof (intro allI impI)
  fix strct assume v: "Attachment_valid strct"
  note v' = v [unfolded Attachment_valid_def]
  let ?rs = "Attachment_results scn ord strct"
  let ?kvs = "map (\<lambda>e. (fst e, projr (snd e))) ?rs"
  have f0: "\<not> isl (json_Marshal_ptr ''*sarif.ArtifactLocation'' (ArtifactLocation_MarshalJSON scn ord) (Attachment.ArtifactLocation strct)) \<and>
      json_Unmarshal_ptr (ArtifactLocation_UnmarshalJSON ord') (projr (json_Marshal_ptr ''*sarif.ArtifactLocation'' (ArtifactLocation_MarshalJSON scn ord) (Attachment.ArtifactLocation strct))) = Inr (Attachment.ArtifactLocation strct)"
    by (rule round_tripsD [OF round_trips_ptr [OF ArtifactLocation_round_trips]]) (use v' in simp)
  have f1: "\<not> isl (json_Marshal_ptr ''*sarif.Message'' (Message_MarshalJSON scn ord) (Attachment.Description strct)) \<and>
      json_Unmarshal_ptr (Message_UnmarshalJSON ord') (projr (json_Marshal_ptr ''*sarif.Message'' (Message_MarshalJSON scn ord) (Attachment.Description strct))) = Inr (Attachment.Description strct)"
    by (rule round_tripsD [OF round_trips_ptr [OF Message_round_trips]]) (use v' in simp)
  have f2: "\<not> isl (json_Marshal_bytes ''*sarif.PropertyBag'' (PropertyBag_MarshalJSON scn ord) (Attachment.Properties strct)) \<and>
      json_Unmarshal_ptr (PropertyBag_UnmarshalJSON ord') (projr (json_Marshal_bytes ''*sarif.PropertyBag'' (PropertyBag_MarshalJSON scn ord) (Attachment.Properties strct))) = Inr (Attachment.Properties strct)"
    by (rule round_tripsD [OF PropertyBag_field_round_trips]) (use v' in simp)
  have f3: "\<not> isl (json_Marshal_slice (json_Marshal_ptr ''*sarif.Rectangle'' (Rectangle_MarshalJSON scn ord)) (Attachment.Rectangles strct)) \<and>
      json_Unmarshal_slice (json_Unmarshal_ptr (Rectangle_UnmarshalJSON ord')) (projr (json_Marshal_slice (json_Marshal_ptr ''*sarif.Rectangle'' (Rectangle_MarshalJSON scn ord)) (Attachment.Rectangles strct))) = Inr (Attachment.Rectangles strct)"
    by (rule round_tripsD [OF round_trips_slice [OF round_trips_ptr [OF Rectangle_round_trips]]]) (use v' in simp)
  have f4: "\<not> isl (json_Marshal_slice (json_Marshal_ptr ''*sarif.Region'' (Region_MarshalJSON scn ord)) (Attachment.Regions strct)) \<and>
      json_Unmarshal_slice (json_Unmarshal_ptr (Region_UnmarshalJSON ord')) (projr (json_Marshal_slice (json_Marshal_ptr ''*sarif.Region'' (Region_MarshalJSON scn ord)) (Attachment.Regions strct))) = Inr (Attachment.Regions strct)"
    by (rule round_tripsD [OF round_trips_slice [OF round_trips_ptr [OF Region_round_trips]]]) (use v' in simp)
  note fs = f0 f1 f2 f3 f4
  have nn: "Attachment.ArtifactLocation strct \<noteq> None"
    using v' by simp_all
  have rs: "?rs =
     [(''artifactLocation'', json_Marshal_ptr ''*sarif.ArtifactLocation'' (ArtifactLocation_MarshalJSON scn ord) (Attachment.ArtifactLocation strct)),
      (''description'', json_Marshal_ptr ''*sarif.Message'' (Message_MarshalJSON scn ord) (Attachment.Description strct)),
      (''properties'', json_Marshal_bytes ''*sarif.PropertyBag'' (PropertyBag_MarshalJSON scn ord) (Attachment.Properties strct)),
      (''rectangles'', json_Marshal_slice (json_Marshal_ptr ''*sarif.Rectangle'' (Rectangle_MarshalJSON scn ord)) (Attachment.Rectangles strct)),
      (''regions'', json_Marshal_slice (json_Marshal_ptr ''*sarif.Region'' (Region_MarshalJSON scn ord)) (Attachment.Regions strct))]"
    using nn by (auto simp add: Attachment_results_def)
  have keys: "map fst ?rs = Attachment_keys"
    by (simp add: Attachment_results_def Attachment_keys_def)
  then have dist: "distinct (map fst ?rs)"
    by (simp only: Attachment_keys_distinct)
  have ok: "list_all (\<lambda>e. \<not> isl (snd e)) ?rs"
    unfolding rs by (simp only: list.pred_inject snd_conv fs simp_thms)
  then have enc: "Attachment_MarshalJSON scn ord strct = Inr (JObj ?kvs)"
    by (simp add: Attachment_MarshalJSON_results [of scn ord strct] object_emit_all_eq_Inr)
  have l0: "map_of (rev ?kvs) ''artifactLocation'' = Some (projr (json_Marshal_ptr ''*sarif.ArtifactLocation'' (ArtifactLocation_MarshalJSON scn ord) (Attachment.ArtifactLocation strct)))"
    by (rule written_lookup [OF dist]) (subst rs, intro list.set_intros)
  have l1: "map_of (rev ?kvs) ''description'' = Some (projr (json_Marshal_ptr ''*sarif.Message'' (Message_MarshalJSON scn ord) (Attachment.Description strct)))"
    by (rule written_lookup [OF dist]) (subst rs, intro list.set_intros)
  have l2: "map_of (rev ?kvs) ''properties'' = Some (projr (json_Marshal_bytes ''*sarif.PropertyBag'' (PropertyBag_MarshalJSON scn ord) (Attachment.Properties strct)))"
    by (rule written_lookup [OF dist]) (subst rs, intro list.set_intros)
  have l3: "map_of (rev ?kvs) ''rectangles'' = Some (projr (json_Marshal_slice (json_Marshal_ptr ''*sarif.Rectangle'' (Rectangle_MarshalJSON scn ord)) (Attachment.Rectangles strct)))"
    by (rule written_lookup [OF dist]) (subst rs, intro list.set_intros)
  have l4: "map_of (rev ?kvs) ''regions'' = Some (projr (json_Marshal_slice (json_Marshal_ptr ''*sarif.Region'' (Region_MarshalJSON scn ord)) (Attachment.Regions strct)))"
    by (rule written_lookup [OF dist]) (subst rs, intro list.set_intros)
  have dec: "Attachment_decodes ord' (map_of (rev ?kvs)) strct"
    unfolding Attachment_decodes_def l0 l1 l2 l3 l4
    by (simp only: field_ok_Some fs written_dom keys subset_refl option.simps simp_thms)
  then have "Attachment_UnmarshalJSON ord' (JObj ?kvs) = Inr strct"
    by (simp only: Attachment_decode_iff)
  with enc show "rt_object (Attachment_MarshalJSON scn ord) (Attachment_UnmarshalJSON ord') strct"
    unfolding rt_object_def by blast
qed

definition Attachment_small_bags :: "Attachment \<Rightarrow> bool" where
  "Attachment_small_bags strct \<longleftrightarrow>
     ptr_all ArtifactLocation_small_bags (Attachment.ArtifactLocation strct) \<and>
     ptr_all Message_small_bags (Attachment.Description strct) \<and>
     ptr_all PropertyBag_small_bags (Attachment.Properties strct) \<and>
     slice_all (ptr_all Rectangle_small_bags) (Attachment.Rectangles strct) \<and>
     slice_all (ptr_all Region_small_bags) (Attachment.Regions strct)"

lemma Attachment_same_output:
  "same_output (Attachment_MarshalJSON scn ord) (Attachment_MarshalJSON scn ord') Attachment_small_bags"
  unfolding same_output_def
proof (intro allI impI)
  fix strct assume v: "Attachment_small_bags strct"
  note v' = v [unfolded Attachment_small_bags_def]
  have e0: "json_Marshal_ptr ''*sarif.ArtifactLocation'' (ArtifactLocation_MarshalJSON scn ord) (Attachment.ArtifactLocation strct) =
      json_Marshal_ptr ''*sarif.ArtifactLocation'' (ArtifactLocation_MarshalJSON scn ord') (Attachment.ArtifactLocation strct)"
    by (rule same_outputD [OF same_output_ptr [OF ArtifactLocation_same_output]]) (use v' in simp)
  have e1: "json_Marshal_ptr ''*sarif.Message'' (Message_MarshalJSON scn ord) (Attachment.Description strct) =
      json_Marshal_ptr ''*sarif.Message'' (Message_MarshalJSON scn ord') (Attachment.Description strct)"
    by (rule same_outputD [OF same_output_ptr [OF Message_same_output]]) (use v' in simp)
  have e2: "json_Marshal_bytes ''*sarif.PropertyBag'' (PropertyBag_MarshalJSON scn ord) (Attachment.Properties strct) =
      json_Marshal_bytes ''*sarif.PropertyBag'' (PropertyBag_MarshalJSON scn ord') (Attachment.Properties strct)"
    by (rule same_outputD [OF PropertyBag_field_same_output]) (use v' in simp)
  have e3: "json_Marshal_slice (json_Marshal_ptr ''*sarif.Rectangle'' (Rectangle_MarshalJSON scn ord)) (Attachment.Rectangles strct) =
      json_Marshal_slice (json_Marshal_ptr ''*sarif.Rectangle'' (Rectangle_MarshalJSON scn ord')) (Attachment.Rectangles strct)"
    by (rule same_outputD [OF same_output_slice [OF same_output_ptr [OF Rectangle_same_output]]]) (use v' in simp)
  have e4: "json_Marshal_slice (json_Marshal_ptr ''*sarif.Region'' (Region_MarshalJSON scn ord)) (Attachment.Regions strct) =
      json_Marshal_slice (json_Marshal_ptr ''*sarif.Region'' (Region_MarshalJSON scn ord')) (Attachment.Regions strct)"
    by (rule same_outputD [OF same_output_slice [OF same_output_ptr [OF Region_same_output]]]) (use v' in simp)
  show "Attachment_MarshalJSON scn ord strct = Attachment_MarshalJSON scn ord' strct"
    by (simp only: Attachment_MarshalJSON_def e0 e1 e2 e3 e4)
qed

lemma Attachment_writes_keys: "writes_keys (Attachment_MarshalJSON scn ord) Attachment_keys"
  unfolding writes_keys_def by (intro allI impI) (erule Attachment_keys_written)

lemma Attachment_unknown_key:
  assumes new: "k \<notin> set Attachment_keys" and key: "k \<in> fst ` set kvs"
    and rest: "Attachment_UnmarshalJSON ord (JObj (filter (\<lambda>e. fst e \<noteq> k) kvs)) = Inr strct"
  shows "Attachment_UnmarshalJSON ord (JObj kvs) = Inl (not_allowed k)"
proof -
  have rej: "switch k (Attachment_cases ord v) (reject k) s = Inl (not_allowed k)" for v s
    by (rule switch_rejects) (simp only: Attachment_cases_keys new not_False_eq_True)
  from rest obtain t where
    "range_loop (\<lambda>k v. switch k (Attachment_cases ord v) (reject k)) (members ord (filter (\<lambda>e. fst e \<noteq> k) kvs)) (Attachment_zero, False) = Inr t"
    by (cases "range_loop (\<lambda>k v. switch k (Attachment_cases ord v) (reject k)) (members ord (filter (\<lambda>e. fst e \<noteq> k) kvs)) (Attachment_zero, False)")
       (simp_all add: Attachment_UnmarshalJSON_def members_def)
  from unknown_key_named [OF Attachment_regular rej key this]
  show ?thesis by (simp add: Attachment_UnmarshalJSON_def members_def)
qed

lemma Attachment_unknown_key_fails:
  assumes "k \<notin> set Attachment_keys" and "k \<in> fst ` set kvs"
  shows "isl (Attachment_UnmarshalJSON ord (JObj kvs))"
proof (cases "Attachment_UnmarshalJSON ord (JObj kvs)")
  case (Inr strct)
  then have "dom (map_of (rev kvs)) \<subseteq> set Attachment_keys"
    by (simp only: Attachment_decode_iff Attachment_decodesD(1))
  with assms show ?thesis by (auto simp: dom_map_of_conv_image_fst)
qed simp

lemma Attachment_required_present:
  assumes "Attachment_UnmarshalJSON ord (JObj kvs) = Inr strct"
  shows "''artifactLocation'' \<in> fst ` set kvs"
proof -
  from assms have d: "Attachment_decodes ord (map_of (rev kvs)) strct" by (simp only: Attachment_decode_iff)
  show "''artifactLocation'' \<in> fst ` set kvs"
    using Attachment_decodesD(7) [OF d]
    by (simp_all only: present_key)
qed

lemma Attachment_without_ArtifactLocation:
  assumes "Attachment_UnmarshalJSON ord (JObj kvs) = Inr strct"
  shows "Attachment_UnmarshalJSON ord (JObj (filter (\<lambda>e. fst e \<noteq> ''artifactLocation'') kvs)) =
    Inl (RequiredNotPresent ''artifactLocation'')"
proof -
  from assms have d: "Attachment_decodes ord (map_of (rev kvs)) strct" by (simp only: Attachment_decode_iff)
  have "\<exists>t. range_loop (\<lambda>k v. switch k (Attachment_cases ord v) (reject k)) (members ord (filter (\<lambda>e. fst e \<noteq> ''artifactLocation'') kvs))
      (Attachment_zero, False) = Inr t"
  proof (rule loop_succeeds [OF Attachment_regular])
    fix k v assume "(k, v) \<in> set (members ord (filter (\<lambda>e. fst e \<noteq> ''artifactLocation'') kvs))"
    then have "map_of (rev kvs) k = Some v" by (rule member_lookup_filter)
    from Attachment_accepts [OF d this]
    show "accepting (switch k (Attachment_cases ord v) (reject k))" .
  qed
  then obtain t where "range_loop (\<lambda>k v. switch k (Attachment_cases ord v) (reject k)) (members ord (filter (\<lambda>e. fst e \<noteq> ''artifactLocation'') kvs))
      (Attachment_zero, False) = Inr t" ..
  then obtain strct' artifactLocationReceived where
    loop: "range_loop (\<lambda>k v. switch k (Attachment_cases ord v) (reject k)) (members ord (filter (\<lambda>e. fst e \<noteq> ''artifactLocation'') kvs))
      (Attachment_zero, False) = Inr (strct', artifactLocationReceived)"
    by (cases t) auto
  from Attachment_loop_sound [OF loop] Attachment_decodesD(7) [OF d]
  have "\<not> artifactLocationReceived"
    by (simp_all add: lookup_filter)
  with loop show ?thesis
    by (simp add: Attachment_UnmarshalJSON_def members_def)
qed


lemma Attachment_rejects_unknown_keys: "rejects_unknown_keys (Attachment_UnmarshalJSON ord) Attachment_keys"
  by (rule rejects_unknown_keysI) (erule (1) Attachment_unknown_key_fails, erule (2) Attachment_unknown_key)

lemma Attachment_requires_ArtifactLocation: "requires_key (Attachment_UnmarshalJSON ord) ''artifactLocation''"
  by (rule requires_keyI) (erule Attachment_required_present(1), erule Attachment_without_ArtifactLocation)


subsection \<open>ToolComponentReference: decoding and encoding\<close>

definition ToolComponentReference_keys :: "string list" where
  "ToolComponentReference_keys = [''guid'', ''index'', ''name'', ''properties'']"

definition ToolComponentReference_decodes :: "order \<Rightarrow> (string \<rightharpoonup> json) \<Rightarrow> ToolComponentReference \<Rightarrow> bool" where
  "ToolComponentReference_decodes ord m strct \<longleftrightarrow>
     dom m \<subseteq> set ToolComponentReference_keys \<and>
     field_ok json_Unmarshal_string (m ''guid'') [] (ToolComponentReference.Guid strct) \<and>
     field_ok json_Unmarshal_int (m ''index'') 0 (ToolComponentReference.Index strct) \<and>
     field_ok json_Unmarshal_string (m ''name'') [] (ToolComponentReference.Name strct) \<and>
     field_ok (json_Unmarshal_ptr (PropertyBag_UnmarshalJSON ord)) (m ''properties'') None (ToolComponentReference.Properties strct)"

lemma ToolComponentReference_cases_keys: "fst ` set (ToolComponentReference_cases ord v) = set ToolComponentReference_keys"
  by (rule keys_image) (simp add: ToolComponentReference_cases_def ToolComponentReference_keys_def)

lemma ToolComponentReference_regular: "regular (\<lambda>k v. switch k (ToolComponentReference_cases ord v) (reject k))"
  by (rule regular_switch) (simp add: ToolComponentReference_cases_def)

lemma ToolComponentReference_fields:
  "field_case (ToolComponentReference_cases ord) ToolComponentReference.Guid ''guid'' json_Unmarshal_string"
  "field_case (ToolComponentReference_cases ord) ToolComponentReference.Index ''index'' json_Unmarshal_int"
  "field_case (ToolComponentReference_cases ord) ToolComponentReference.Name ''name'' json_Unmarshal_string"
  "field_case (ToolComponentReference_cases ord) ToolComponentReference.Properties ''properties'' (json_Unmarshal_ptr (PropertyBag_UnmarshalJSON ord))"
  unfolding field_case_def ToolComponentReference_cases_def
  by (simp_all add: writes_into writes_received keeps_into split_def)

lemma ToolComponentReference_loop_sound:
  assumes loop: "range_loop (\<lambda>k v. switch k (ToolComponentReference_cases ord v) (reject k)) (members ord kvs) ToolComponentReference_zero = Inr strct"
  shows "dom (map_of (rev kvs)) \<subseteq> set ToolComponentReference_keys \<and>
     field_ok json_Unmarshal_string (map_of (rev kvs) ''guid'') [] (ToolComponentReference.Guid strct) \<and>
     field_ok json_Unmarshal_int (map_of (rev kvs) ''index'') 0 (ToolComponentReference.Index strct) \<and>
     field_ok json_Unmarshal_string (map_of (rev kvs) ''name'') [] (ToolComponentReference.Name strct) \<and>
     field_ok (json_Unmarshal_ptr (PropertyBag_UnmarshalJSON ord)) (map_of (rev kvs) ''properties'') None (ToolComponentReference.Properties strct)"
proof -
  have "fst ` set (members ord kvs) \<subseteq> set ToolComponentReference_keys"
    by (rule loop_keys_known [OF loop]) (rule ToolComponentReference_cases_keys)
  then have keys: "dom (map_of (rev kvs)) \<subseteq> set ToolComponentReference_keys"
    by (simp add: dom_members [of kvs ord])
  note fld = field_after_loop [OF _ members_distinct loop, unfolded map_of_members]
  show ?thesis
    using keys fld [OF ToolComponentReference_fields(1)] fld [OF ToolComponentReference_fields(2)] fld [OF ToolComponentReference_fields(3)] fld [OF ToolComponentReference_fields(4)] 
    by (simp only: prod.case ToolComponentReference_zero_def ToolComponentReference.select_convs simp_thms)
qed

lemma ToolComponentReference_decodesD:
  assumes "ToolComponentReference_decodes ord m strct"
  shows "dom m \<subseteq> set ToolComponentReference_keys"
    and "field_ok json_Unmarshal_string (m ''guid'') [] (ToolComponentReference.Guid strct)"
    and "field_ok json_Unmarshal_int (m ''index'') 0 (ToolComponentReference.Index strct)"
    and "field_ok json_Unmarshal_string (m ''name'') [] (ToolComponentReference.Name strct)"
    and "field_ok (json_Unmarshal_ptr (PropertyBag_UnmarshalJSON ord)) (m ''properties'') None (ToolComponentReference.Properties strct)"
  using assms unfolding ToolComponentReference_decodes_def by - (elim conjE, assumption)+

lemma ToolComponentReference_decodes_unique:
  assumes "ToolComponentReference_decodes ord m a" and "ToolComponentReference_decodes ord m b"
  shows "a = b"
  apply (rule ToolComponentReference.equality)
  apply (rule field_ok_unique [OF ToolComponentReference_decodesD(2) [OF assms(1)] ToolComponentReference_decodesD(2) [OF assms(2)]])
  apply (rule field_ok_unique [OF ToolComponentReference_decodesD(3) [OF assms(1)] ToolComponentReference_decodesD(3) [OF assms(2)]])
  apply (rule field_ok_unique [OF ToolComponentReference_decodesD(4) [OF assms(1)] ToolComponentReference_decodesD(4) [OF assms(2)]])
  apply (rule field_ok_unique [OF ToolComponentReference_decodesD(5) [OF assms(1)] ToolComponentReference_decodesD(5) [OF assms(2)]])
  apply simp
  done

lemma ToolComponentReference_accepts:
  assumes "ToolComponentReference_decodes ord m strct" and "m k = Some v"
  shows "accepting (switch k (ToolComponentReference_cases ord v) (reject k))"
proof -
  from assms have "k \<in> set ToolComponentReference_keys" by (auto simp: ToolComponentReference_decodes_def)
  then have key: "k \<in> fst ` set (ToolComponentReference_cases ord v)"
    by (simp only: ToolComponentReference_cases_keys)
  have rows: "list_all (\<lambda>(c, h). m c = Some v \<longrightarrow> accepting h) (ToolComponentReference_cases ord v)"
    unfolding ToolComponentReference_cases_def list.pred_inject
    apply (rule conjI [OF accept_row [where m = m and v = v, OF ToolComponentReference_decodesD(2) [OF assms(1)]]])
    apply (rule conjI [OF accept_row [where m = m and v = v, OF ToolComponentReference_decodesD(3) [OF assms(1)]]])
    apply (rule conjI [OF accept_row [where m = m and v = v, OF ToolComponentReference_decodesD(4) [OF assms(1)]]])
    apply (rule conjI [OF accept_row [where m = m and v = v, OF ToolComponentReference_decodesD(5) [OF assms(1)]]])
    apply simp
    done
  show ?thesis by (rule rows_accept [OF rows assms(2) key])
qed

lemma ToolComponentReference_decode_iff:
  "ToolComponentReference_UnmarshalJSON ord (JObj kvs) = Inr strct \<longleftrightarrow>
   ToolComponentReference_decodes ord (map_of (rev kvs)) strct"
proof
  assume "ToolComponentReference_UnmarshalJSON ord (JObj kvs) = Inr strct"
  then have loop: "range_loop (\<lambda>k v. switch k (ToolComponentReference_cases ord v) (reject k)) (members ord kvs) ToolComponentReference_zero = Inr strct"
    by (auto simp: ToolComponentReference_UnmarshalJSON_def members_def split: sum.splits)
  from ToolComponentReference_loop_sound [OF loop]
  show "ToolComponentReference_decodes ord (map_of (rev kvs)) strct"
    by (simp add: ToolComponentReference_decodes_def)
next
  assume d: "ToolComponentReference_decodes ord (map_of (rev kvs)) strct"
  have "\<exists>t. range_loop (\<lambda>k v. switch k (ToolComponentReference_cases ord v) (reject k)) (members ord kvs) ToolComponentReference_zero = Inr t"
  proof (rule loop_succeeds [OF ToolComponentReference_regular])
    fix k v assume "(k, v) \<in> set (members ord kvs)"
    then have "map_of (rev kvs) k = Some v" by (rule member_lookup)
    from ToolComponentReference_accepts [OF d this]
    show "accepting (switch k (ToolComponentReference_cases ord v) (reject k))" .
  qed
  then obtain strct' where
    loop: "range_loop (\<lambda>k v. switch k (ToolComponentReference_cases ord v) (reject k)) (members ord kvs) ToolComponentReference_zero = Inr strct'" ..
  from ToolComponentReference_loop_sound [OF loop]
  have d': "ToolComponentReference_decodes ord (map_of (rev kvs)) strct'"
    by (simp add: ToolComponentReference_decodes_def)
  from ToolComponentReference_decodes_unique [OF d' d] have "strct' = strct" .
  with loop show "ToolComponentReference_UnmarshalJSON ord (JObj kvs) = Inr strct"
    by (simp add: ToolComponentReference_UnmarshalJSON_def members_def)
qed

definition ToolComponentReference_results :: "scanner \<Rightarrow> order \<Rightarrow> ToolComponentReference \<Rightarrow> (string \<times> (error + json)) list" where
  "ToolComponentReference_results scn ord strct =
     [(''guid'', json_Marshal_string (ToolComponentReference.Guid strct)),
      (''index'', json_Marshal_int (ToolComponentReference.Index strct)),
      (''name'', json_Marshal_string (ToolComponentReference.Name strct)),
      (''properties'', json_Marshal_bytes ''*sarif.PropertyBag'' (PropertyBag_MarshalJSON scn ord) (ToolComponentReference.Properties strct))]"

lemma ToolComponentReference_MarshalJSON_results:
  "ToolComponentReference_MarshalJSON scn ord strct = object (emit_all (ToolComponentReference_results scn ord strct))"
  by (simp add: ToolComponentReference_MarshalJSON_def ToolComponentReference_results_def emit_nilcheck)

lemma ToolComponentReference_keys_written:
  "ToolComponentReference_MarshalJSON scn ord strct = Inr j \<Longrightarrow> \<exists>kvs. j = JObj kvs \<and> map fst kvs = ToolComponentReference_keys"
  using keys_written [of "ToolComponentReference_results scn ord strct" j]
  by (simp add: ToolComponentReference_MarshalJSON_results ToolComponentReference_results_def ToolComponentReference_keys_def)

definition ToolComponentReference_encodable :: "scanner \<Rightarrow> order \<Rightarrow> ToolComponentReference \<Rightarrow> bool" where
  "ToolComponentReference_encodable scn ord strct \<longleftrightarrow>
     ptr_all (PropertyBag_encodable scn ord) (ToolComponentReference.Properties strct)"

lemma ToolComponentReference_fails_unless: "fails_unless (ToolComponentReference_MarshalJSON scn ord) (ToolComponentReference_encodable scn ord)"
  unfolding fails_unless_def ToolComponentReference_MarshalJSON_results ToolComponentReference_results_def ToolComponentReference_encodable_def isl_object_emit_all
  by (auto simp add: always_simps
      fails_unlessD [OF fails_unless_string]
      fails_unlessD [OF fails_unless_int]
      fails_unlessD [OF PropertyBag_field_fails_unless])

definition ToolComponentReference_valid :: "ToolComponentReference \<Rightarrow> bool" where
  "ToolComponentReference_valid strct \<longleftrightarrow>
     ptr_all PropertyBag_valid (ToolComponentReference.Properties strct)"

lemma ToolComponentReference_keys_distinct: "distinct ToolComponentReference_keys"
  by (simp add: ToolComponentReference_keys_def)

lemma ToolComponentReference_round_trips:
  "round_trips_object (ToolComponentReference_MarshalJSON scn ord) (ToolComponentReference_UnmarshalJSON ord') ToolComponentReference_valid"
  unfolding round_trips_object_def
proof (intro allI impI)
  fix strct assume v: "ToolComponentReference_valid strct"
  note v' = v [unfolded ToolComponentReference_valid_def]
  let ?rs = "ToolComponentReference_results scn ord strct"
  let ?kvs = "map (\<lambda>e. (fst e, projr (snd e))) ?rs"
  have f0: "\<not> isl (json_Marshal_string (ToolComponentReference.Guid strct)) \<and>
      json_Unmarshal_string (projr (json_Marshal_string (ToolComponentReference.Guid strct))) = Inr (ToolComponentReference.Guid strct)"
    by (rule round_tripsD [OF round_trips_string]) (use v' in simp)
  have f1: "\<not> isl (json_Marshal_int (ToolComponentReference.Index strct)) \<and>
      json_Unmarshal_int (projr (json_Marshal_int (ToolComponentReference.Index strct))) = Inr (ToolComponentReference.Index strct)"
    by (rule round_tripsD [OF round_trips_int]) (use v' in simp)
  have f2: "\<not> isl (json_Marshal_string (ToolComponentReference.Name strct)) \<and>
      json_Unmarshal_string (projr (json_Marshal_string (ToolComponentReference.Name strct))) = Inr (ToolComponentReference.Name strct)"
    by (rule round_tripsD [OF round_trips_string]) (use v' in simp)
  have f3: "\<not> isl (json_Marshal_bytes ''*sarif.PropertyBag'' (PropertyBag_MarshalJSON scn ord) (ToolComponentReference.Properties strct)) \<and>
      json_Unmarshal_ptr (PropertyBag_UnmarshalJSON ord') (projr (json_Marshal_bytes ''*sarif.PropertyBag'' (PropertyBag_MarshalJSON scn ord) (ToolComponentReference.Properties strct))) = Inr (ToolComponentReference.Properties strct)"
    by (rule round_tripsD [OF PropertyBag_field_round_trips]) (use v' in simp)
  note fs = f0 f1 f2 f3
  have rs: "?rs =
     [(''guid'', json_Marshal_string (ToolComponentReference.Guid strct)),
      (''index'', json_Marshal_int (ToolComponentReference.Index strct)),
      (''name'', json_Marshal_string (ToolComponentReference.Name strct)),
      (''properties'', json_Marshal_bytes ''*sarif.PropertyBag'' (PropertyBag_MarshalJSON scn ord) (ToolComponentReference.Properties strct))]"
    by (auto simp add: ToolComponentReference_results_def)
  have keys: "map fst ?rs = ToolComponentReference_keys"
    by (simp add: ToolComponentReference_results_def ToolComponentReference_keys_def)
  then have dist: "distinct (map fst ?rs)"
    by (simp only: ToolComponentReference_keys_distinct)
  have ok: "list_all (\<lambda>e. \<not> isl (snd e)) ?rs"
    unfolding rs by (simp only: list.pred_inject snd_conv fs simp_thms)
  then have enc: "ToolComponentReference_MarshalJSON scn ord strct = Inr (JObj ?kvs)"
    by (simp add: ToolComponentReference_MarshalJSON_results [of scn ord strct] object_emit_all_eq_Inr)
  have l0: "map_of (rev ?kvs) ''guid'' = Some (projr (json_Marshal_string (ToolComponentReference.Guid strct)))"
    by (rule written_lookup [OF dist]) (subst rs, intro list.set_intros)
  have l1: "map_of (rev ?kvs) ''index'' = Some (projr (json_Marshal_int (ToolComponentReference.Index strct)))"
    by (rule written_lookup [OF dist]) (subst rs, intro list.set_intros)
  have l2: "map_of (rev ?kvs) ''name'' = Some (projr (json_Marshal_string (ToolComponentReference.Name strct)))"
    by (rule written_lookup [OF dist]) (subst rs, intro list.set_intros)
  have l3: "map_of (rev ?kvs) ''properties'' = Some (projr (json_Marshal_bytes ''*sarif.PropertyBag'' (PropertyBag_MarshalJSON scn ord) (ToolComponentReference.Properties strct)))"
    by (rule written_lookup [OF dist]) (subst rs, intro list.set_intros)
  have dec: "ToolComponentReference_decodes ord' (map_of (rev ?kvs)) strct"
    unfolding ToolComponentReference_decodes_def l0 l1 l2 l3
    by (simp only: field_ok_Some fs written_dom keys subset_refl option.simps simp_thms)
  then have "ToolComponentReference_UnmarshalJSON ord' (JObj ?kvs) = Inr strct"
    by (simp only: ToolComponentReference_decode_iff)
  with enc show "rt_object (ToolComponentReference_MarshalJSON scn ord) (ToolComponentReference_UnmarshalJSON ord') strct"
    unfolding rt_object_def by blast
qed

definition ToolComponentReference_small_bags :: "ToolComponentReference \<Rightarrow> bool" where
  "ToolComponentReference_small_bags strct \<longleftrightarrow>
     ptr_all PropertyBag_small_bags (ToolComponentReference.Properties strct)"

lemma ToolComponentReference_same_output:
  "same_output (ToolComponentReference_MarshalJSON scn ord) (ToolComponentReference_MarshalJSON scn ord') ToolComponentReference_small_bags"
  unfolding same_output_def
proof (intro allI impI)
  fix strct assume v: "ToolComponentReference_small_bags strct"
  note v' = v [unfolded ToolComponentReference_small_bags_def]
  have e3: "json_Marshal_bytes ''*sarif.PropertyBag'' (PropertyBag_MarshalJSON scn ord) (ToolComponentReference.Properties strct) =
      json_Marshal_bytes ''*sarif.PropertyBag'' (PropertyBag_MarshalJSON scn ord') (ToolComponentReference.Properties strct)"
    by (rule same_outputD [OF PropertyBag_field_same_output]) (use v' in simp)
  show "ToolComponentReference_MarshalJSON scn ord strct = ToolComponentReference_MarshalJSON scn ord' strct"
    by (simp only: ToolComponentReference_MarshalJSON_def e3)
qed

lemma ToolComponentReference_writes_keys: "writes_keys (ToolComponentReference_MarshalJSON scn ord) ToolComponentReference_keys"
  unfolding writes_keys_def by (intro allI impI) (erule ToolComponentReference_keys_written)

lemma ToolComponentReference_unknown_key:
  assumes new: "k \<notin> set ToolComponentReference_keys" and key: "k \<in> fst ` set kvs"
    and rest: "ToolComponentReference_UnmarshalJSON ord (JObj (filter (\<lambda>e. fst e \<noteq> k) kvs)) = Inr strct"
  shows "ToolComponentReference_UnmarshalJSON ord (JObj kvs) = Inl (not_allowed k)"
proof -
  have rej: "switch k (ToolComponentReference_cases ord v) (reject k) s = Inl (not_allowed k)" for v s
    by (rule switch_rejects) (simp only: ToolComponentReference_cases_keys new not_False_eq_True)
  from rest obtain t where
    "range_loop (\<lambda>k v. switch k (ToolComponentReference_cases ord v) (reject k)) (members ord (filter (\<lambda>e. fst e \<noteq> k) kvs)) ToolComponentReference_zero = Inr t"
    by (cases "range_loop (\<lambda>k v. switch k (ToolComponentReference_cases ord v) (reject k)) (members ord (filter (\<lambda>e. fst e \<noteq> k) kvs)) ToolComponentReference_zero")
       (simp_all add: ToolComponentReference_UnmarshalJSON_def members_def)
  from unknown_key_named [OF ToolComponentReference_regular rej key this]
  show ?thesis by (simp add: ToolComponentReference_UnmarshalJSON_def members_def)
qed

lemma ToolComponentReference_unknown_key_fails:
  assumes "k \<notin> set ToolComponentReference_keys" and "k \<in> fst ` set kvs"
  shows "isl (ToolComponentReference_UnmarshalJSON ord (JObj kvs))"
proof (cases "ToolComponentReference_UnmarshalJSON ord (JObj kvs)")
  case (Inr strct)
  then have "dom (map_of (rev kvs)) \<subseteq> set ToolComponentReference_keys"
    by (simp only: ToolComponentReference_decode_iff ToolComponentReference_decodesD(1))
  with assms show ?thesis by (auto simp: dom_map_of_conv_image_fst)
qed simp

lemma ToolComponentReference_rejects_unknown_keys: "rejects_unknown_keys (ToolComponentReference_UnmarshalJSON ord) ToolComponentReference_keys"
  by (rule rejects_unknown_keysI) (erule (1) ToolComponentReference_unknown_key_fails, erule (2) ToolComponentReference_unknown_key)

subsection \<open>ReportingDescriptorReference: decoding and encoding\<close>

definition ReportingDescriptorReference_keys :: "string list" where
  "ReportingDescriptorReference_keys = [''guid'', ''id'', ''index'', ''properties'', ''toolComponent'']"

definition ReportingDescriptorReference_decodes :: "order \<Rightarrow> (string \<rightharpoonup> json) \<Rightarrow> ReportingDescriptorReference \<Rightarrow> bool" where
  "ReportingDescriptorReference_decodes ord m strct \<longleftrightarrow>
     dom m \<subseteq> set ReportingDescriptorReference_keys \<and>
     field_ok json_Unmarshal_string (m ''guid'') [] (ReportingDescriptorReference.Guid strct) \<and>
     field_ok json_Unmarshal_string (m ''id'') [] (ReportingDescriptorReference.Id strct) \<and>
     field_ok json_Unmarshal_int (m ''index'') 0 (ReportingDescriptorReference.Index strct) \<and>
     field_ok (json_Unmarshal_ptr (PropertyBag_UnmarshalJSON ord)) (m ''properties'') None (ReportingDescriptorReference.Properties strct) \<and>
     field_ok (json_Unmarshal_ptr (ToolComponentReference_UnmarshalJSON ord)) (m ''toolComponent'') None (ReportingDescriptorReference.ToolComponent strct)"

lemma ReportingDescriptorReference_cases_keys: "fst ` set (ReportingDescriptorReference_cases ord v) = set ReportingDescriptorReference_keys"
  by (rule keys_image) (simp add: ReportingDescriptorReference_cases_def ReportingDescriptorReference_keys_def)

lemma ReportingDescriptorReference_regular: "regular (\<lambda>k v. switch k (ReportingDescriptorReference_cases ord v) (reject k))"
  by (rule regular_switch) (simp add: ReportingDescriptorReference_cases_def)

lemma ReportingDescriptorReference_fields:
  "field_case (ReportingDescriptorReference_cases ord) ReportingDescriptorReference.Guid ''guid'' json_Unmarshal_string"
  "field_case (ReportingDescriptorReference_cases ord) ReportingDescriptorReference.Id ''id'' json_Unmarshal_string"
  "field_case (ReportingDescriptorReference_cases ord) ReportingDescriptorReference.Index ''index'' json_Unmarshal_int"
  "field_case (ReportingDescriptorReference_cases ord) ReportingDescriptorReference.Properties ''properties'' (json_Unmarshal_ptr (PropertyBag_UnmarshalJSON ord))"
  "field_case (ReportingDescriptorReference_cases ord) ReportingDescriptorReference.ToolComponent ''toolComponent'' (json_Unmarshal_ptr (ToolComponentReference_UnmarshalJSON ord))"
  unfolding field_case_def ReportingDescriptorReference_cases_def
  by (simp_all add: writes_into writes_received keeps_into split_def)

lemma ReportingDescriptorReference_loop_sound:
  assumes loop: "range_loop (\<lambda>k v. switch k (ReportingDescriptorReference_cases ord v) (reject k)) (members ord kvs) ReportingDescriptorReference_zero = Inr strct"
  shows "dom (map_of (rev kvs)) \<subseteq> set ReportingDescriptorReference_keys \<and>
     field_ok json_Unmarshal_string (map_of (rev kvs) ''guid'') [] (ReportingDescriptorReference.Guid strct) \<and>
     field_ok json_Unmarshal_string (map_of (rev kvs) ''id'') [] (ReportingDescriptorReference.Id strct) \<and>
     field_ok json_Unmarshal_int (map_of (rev kvs) ''index'') 0 (ReportingDescriptorReference.Index strct) \<and>
     field_ok (json_Unmarshal_ptr (PropertyBag_UnmarshalJSON ord)) (map_of (rev kvs) ''properties'') None (ReportingDescriptorReference.Properties strct) \<and>
     field_ok (json_Unmarshal_ptr (ToolComponentReference_UnmarshalJSON ord)) (map_of (rev kvs) ''toolComponent'') None (ReportingDescriptorReference.ToolComponent strct)"
proof -
  have "fst ` set (members ord kvs) \<subseteq> set ReportingDescriptorReference_keys"
    by (rule loop_keys_known [OF loop]) (rule ReportingDescriptorReference_cases_keys)
  then have keys: "dom (map_of (rev kvs)) \<subseteq> set ReportingDescriptorReference_keys"
    by (simp add: dom_members [of kvs ord])
  note fld = field_after_loop [OF _ members_distinct loop, unfolded map_of_members]
  show ?thesis
    using keys fld [OF ReportingDescriptorReference_fields(1)] fld [OF ReportingDescriptorReference_fields(2)] fld [OF ReportingDescriptorReference_fields(3)] fld [OF ReportingDescriptorReference_fields(4)] fld [OF ReportingDescriptorReference_fields(5)] 
    by (simp only: prod.case ReportingDescriptorReference_zero_def ReportingDescriptorReference.select_convs simp_thms)
qed

lemma ReportingDescriptorReference_decodesD:
  assumes "ReportingDescriptorReference_decodes ord m strct"
  shows "dom m \<subseteq> set ReportingDescriptorReference_keys"
    and "field_ok json_Unmarshal_string (m ''guid'') [] (ReportingDescriptorReference.Guid strct)"
    and "field_ok json_Unmarshal_string (m ''id'') [] (ReportingDescriptorReference.Id strct)"
    and "field_ok json_Unmarshal_int (m ''index'') 0 (ReportingDescriptorReference.Index strct)"
    and "field_ok (json_Unmarshal_ptr (PropertyBag_UnmarshalJSON ord)) (m ''properties'') None (ReportingDescriptorReference.Properties strct)"
    and "field_ok (json_Unmarshal_ptr (ToolComponentReference_UnmarshalJSON ord)) (m ''toolComponent'') None (ReportingDescriptorReference.ToolComponent strct)"
  using assms unfolding ReportingDescriptorReference_decodes_def by - (elim conjE, assumption)+

lemma ReportingDescriptorReference_decodes_unique:
  assumes "ReportingDescriptorReference_decodes ord m a" and "ReportingDescriptorReference_decodes ord m b"
  shows "a = b"
  apply (rule ReportingDescriptorReference.equality)
  apply (rule field_ok_unique [OF ReportingDescriptorReference_decodesD(2) [OF assms(1)] ReportingDescriptorReference_decodesD(2) [OF assms(2)]])
  apply (rule field_ok_unique [OF ReportingDescriptorReference_decodesD(3) [OF assms(1)] ReportingDescriptorReference_decodesD(3) [OF assms(2)]])
  apply (rule field_ok_unique [OF ReportingDescriptorReference_decodesD(4) [OF assms(1)] ReportingDescriptorReference_decodesD(4) [OF assms(2)]])
  apply (rule field_ok_unique [OF ReportingDescriptorReference_decodesD(5) [OF assms(1)] ReportingDescriptorReference_decodesD(5) [OF assms(2)]])
  apply (rule field_ok_unique [OF ReportingDescriptorReference_decodesD(6) [OF assms(1)] ReportingDescriptorReference_decodesD(6) [OF assms(2)]])
  apply simp
  done

lemma ReportingDescriptorReference_accepts:
  assumes "ReportingDescriptorReference_decodes ord m strct" and "m k = Some v"
  shows "accepting (switch k (ReportingDescriptorReference_cases ord v) (reject k))"
proof -
  from assms have "k \<in> set ReportingDescriptorReference_keys" by (auto simp: ReportingDescriptorReference_decodes_def)
  then have key: "k \<in> fst ` set (ReportingDescriptorReference_cases ord v)"
    by (simp only: ReportingDescriptorReference_cases_keys)
  have rows: "list_all (\<lambda>(c, h). m c = Some v \<longrightarrow> accepting h) (ReportingDescriptorReference_cases ord v)"
    unfolding ReportingDescriptorReference_cases_def list.pred_inject
    apply (rule conjI [OF accept_row [where m = m and v = v, OF ReportingDescriptorReference_decodesD(2) [OF assms(1)]]])
    apply (rule conjI [OF accept_row [where m = m and v = v, OF ReportingDescriptorReference_decodesD(3) [OF assms(1)]]])
    apply (rule conjI [OF accept_row [where m = m and v = v, OF ReportingDescriptorReference_decodesD(4) [OF assms(1)]]])
    apply (rule conjI [OF accept_row [where m = m and v = v, OF ReportingDescriptorReference_decodesD(5) [OF assms(1)]]])
    apply (rule conjI [OF accept_row [where m = m and v = v, OF ReportingDescriptorReference_decodesD(6) [OF assms(1)]]])
    apply simp
    done
  show ?thesis by (rule rows_accept [OF rows assms(2) key])
qed

lemma ReportingDescriptorReference_decode_iff:
  "ReportingDescriptorReference_UnmarshalJSON ord (JObj kvs) = Inr strct \<longleftrightarrow>
   ReportingDescriptorReference_decodes ord (map_of (rev kvs)) strct"
proof
  assume "ReportingDescriptorReference_UnmarshalJSON ord (JObj kvs) = Inr strct"
  then have loop: "range_loop (\<lambda>k v. switch k (ReportingDescriptorReference_cases ord v) (reject k)) (members ord kvs) ReportingDescriptorReference_zero = Inr strct"
    by (auto simp: ReportingDescriptorReference_UnmarshalJSON_def members_def split: sum.splits)
  from ReportingDescriptorReference_loop_sound [OF loop]
  show "ReportingDescriptorReference_decodes ord (map_of (rev kvs)) strct"
    by (simp add: ReportingDescriptorReference_decodes_def)
next
  assume d: "ReportingDescriptorReference_decodes ord (map_of (rev kvs)) strct"
  have "\<exists>t. range_loop (\<lambda>k v. switch k (ReportingDescriptorReference_cases ord v) (reject k)) (members ord kvs) ReportingDescriptorReference_zero = Inr t"
  proof (rule loop_succeeds [OF ReportingDescriptorReference_regular])
    fix k v assume "(k, v) \<in> set (members ord kvs)"
    then have "map_of (rev kvs) k = Some v" by (rule member_lookup)
    from ReportingDescriptorReference_accepts [OF d this]
    show "accepting (switch k (ReportingDescriptorReference_cases ord v) (reject k))" .
  qed
  then obtain strct' where
    loop: "range_loop (\<lambda>k v. switch k (ReportingDescriptorReference_cases ord v) (reject k)) (members ord kvs) ReportingDescriptorReference_zero = Inr strct'" ..
  from ReportingDescriptorReference_loop_sound [OF loop]
  have d': "ReportingDescriptorReference_decodes ord (map_of (rev kvs)) strct'"
    by (simp add: ReportingDescriptorReference_decodes_def)
  from ReportingDescriptorReference_decodes_unique [OF d' d] have "strct' = strct" .
  with loop show "ReportingDescriptorReference_UnmarshalJSON ord (JObj kvs) = Inr strct"
    by (simp add: ReportingDescriptorReference_UnmarshalJSON_def members_def)
qed

definition ReportingDescriptorReference_results :: "scanner \<Rightarrow> order \<Rightarrow> ReportingDescriptorReference \<Rightarrow> (string \<times> (error + json)) list" where
  "ReportingDescriptorReference_results scn ord strct =
     [(''guid'', json_Marshal_string (ReportingDescriptorReference.Guid strct)),
      (''id'', json_Marshal_string (ReportingDescriptorReference.Id strct)),
      (''index'', json_Marshal_int (ReportingDescriptorReference.Index strct)),
      (''properties'', json_Marshal_bytes ''*sarif.PropertyBag'' (PropertyBag_MarshalJSON scn ord) (ReportingDescriptorReference.Properties strct)),
      (''toolComponent'', json_Marshal_ptr ''*sarif.ToolComponentReference'' (ToolComponentReference_MarshalJSON scn ord) (ReportingDescriptorReference.ToolComponent strct))]"

lemma ReportingDescriptorReference_MarshalJSON_results:
  "ReportingDescriptorReference_MarshalJSON scn ord strct = object (emit_all (ReportingDescriptorReference_results scn ord strct))"
  by (simp add: ReportingDescriptorReference_MarshalJSON_def ReportingDescriptorReference_results_def emit_nilcheck)

lemma ReportingDescriptorReference_keys_written:
  "ReportingDescriptorReference_MarshalJSON scn ord strct = Inr j \<Longrightarrow> \<exists>kvs. j = JObj kvs \<and> map fst kvs = ReportingDescriptorReference_keys"
  using keys_written [of "ReportingDescriptorReference_results scn ord strct" j]
  by (simp add: ReportingDescriptorReference_MarshalJSON_results ReportingDescriptorReference_results_def ReportingDescriptorReference_keys_def)

definition ReportingDescriptorReference_encodable :: "scanner \<Rightarrow> order \<Rightarrow> ReportingDescriptorReference \<Rightarrow> bool" where
  "ReportingDescriptorReference_encodable scn ord strct \<longleftrightarrow>
     ptr_all (PropertyBag_encodable scn ord) (ReportingDescriptorReference.Properties strct) \<and>
     ptr_all (ToolComponentReference_encodable scn ord) (ReportingDescriptorReference.ToolComponent strct)"

lemma ReportingDescriptorReference_fails_unless: "fails_unless (ReportingDescriptorReference_MarshalJSON scn ord) (ReportingDescriptorReference_encodable scn ord)"
  unfolding fails_unless_def ReportingDescriptorReference_MarshalJSON_results ReportingDescriptorReference_results_def ReportingDescriptorReference_encodable_def isl_object_emit_all
  by (auto simp add: always_simps
      fails_unlessD [OF fails_unless_string]
      fails_unlessD [OF fails_unless_int]
      fails_unlessD [OF PropertyBag_field_fails_unless]
      fails_unlessD [OF fails_unless_ptr [OF ToolComponentReference_fails_unless]])

definition ReportingDescriptorReference_valid :: "ReportingDescriptorReference \<Rightarrow> bool" where
  "ReportingDescriptorReference_valid strct \<longleftrightarrow>
     ptr_all PropertyBag_valid (ReportingDescriptorReference.Properties strct) \<and>
     ptr_all ToolComponentReference_valid (ReportingDescriptorReference.ToolComponent strct)"

lemma ReportingDescriptorReference_keys_distinct: "distinct ReportingDescriptorReference_keys"
  by (simp add: ReportingDescriptorReference_keys_def)

lemma ReportingDescriptorReference_round_trips:
  "round_trips_object (ReportingDescriptorReference_MarshalJSON scn ord) (ReportingDescriptorReference_UnmarshalJSON ord') ReportingDescriptorReference_valid"
  unfolding round_trips_object_def
proof (intro allI impI)
  fix strct assume v: "ReportingDescriptorReference_valid strct"
  note v' = v [unfolded ReportingDescriptorReference_valid_def]
  let ?rs = "ReportingDescriptorReference_results scn ord strct"
  let ?kvs = "map (\<lambda>e. (fst e, projr (snd e))) ?rs"
  have f0: "\<not> isl (json_Marshal_string (ReportingDescriptorReference.Guid strct)) \<and>
      json_Unmarshal_string (projr (json_Marshal_string (ReportingDescriptorReference.Guid strct))) = Inr (ReportingDescriptorReference.Guid strct)"
    by (rule round_tripsD [OF round_trips_string]) (use v' in simp)
  have f1: "\<not> isl (json_Marshal_string (ReportingDescriptorReference.Id strct)) \<and>
      json_Unmarshal_string (projr (json_Marshal_string (ReportingDescriptorReference.Id strct))) = Inr (ReportingDescriptorReference.Id strct)"
    by (rule round_tripsD [OF round_trips_string]) (use v' in simp)
  have f2: "\<not> isl (json_Marshal_int (ReportingDescriptorReference.Index strct)) \<and>
      json_Unmarshal_int (projr (json_Marshal_int (ReportingDescriptorReference.Index strct))) = Inr (ReportingDescriptorReference.Index strct)"
    by (rule round_tripsD [OF round_trips_int]) (use v' in simp)
  have f3: "\<not> isl (json_Marshal_bytes ''*sarif.PropertyBag'' (PropertyBag_MarshalJSON scn ord) (ReportingDescriptorReference.Properties strct)) \<and>
      json_Unmarshal_ptr (PropertyBag_UnmarshalJSON ord') (projr (json_Marshal_bytes ''*sarif.PropertyBag'' (PropertyBag_MarshalJSON scn ord) (ReportingDescriptorReference.Properties strct))) = Inr (ReportingDescriptorReference.Properties strct)"
    by (rule round_tripsD [OF PropertyBag_field_round_trips]) (use v' in simp)
  have f4: "\<not> isl (json_Marshal_ptr ''*sarif.ToolComponentReference'' (ToolComponentReference_MarshalJSON scn ord) (ReportingDescriptorReference.ToolComponent strct)) \<and>
      json_Unmarshal_ptr (ToolComponentReference_UnmarshalJSON ord') (projr (json_Marshal_ptr ''*sarif.ToolComponentReference'' (ToolComponentReference_MarshalJSON scn ord) (ReportingDescriptorReference.ToolComponent strct))) = Inr (ReportingDescriptorReference.ToolComponent strct)"
    by (rule round_tripsD [OF round_trips_ptr [OF ToolComponentReference_round_trips]]) (use v' in simp)
  note fs = f0 f1 f2 f3 f4
  have rs: "?rs =
     [(''guid'', json_Marshal_string (ReportingDescriptorReference.Guid strct)),
      (''id'', json_Marshal_string (ReportingDescriptorReference.Id strct)),
      (''index'', json_Marshal_int (ReportingDescriptorReference.Index strct)),
      (''properties'', json_Marshal_bytes ''*sarif.PropertyBag'' (PropertyBag_MarshalJSON scn ord) (ReportingDescriptorReference.Properties strct)),
      (''toolComponent'', json_Marshal_ptr ''*sarif.ToolComponentReference'' (ToolComponentReference_MarshalJSON scn ord) (ReportingDescriptorReference.ToolComponent strct))]"
    by (auto simp add: ReportingDescriptorReference_results_def)
  have keys: "map fst ?rs = ReportingDescriptorReference_keys"
    by (simp add: ReportingDescriptorReference_results_def ReportingDescriptorReference_keys_def)
  then have dist: "distinct (map fst ?rs)"
    by (simp only: ReportingDescriptorReference_keys_distinct)
  have ok: "list_all (\<lambda>e. \<not> isl (snd e)) ?rs"
    unfolding rs by (simp only: list.pred_inject snd_conv fs simp_thms)
  then have enc: "ReportingDescriptorReference_MarshalJSON scn ord strct = Inr (JObj ?kvs)"
    by (simp add: ReportingDescriptorReference_MarshalJSON_results [of scn ord strct] object_emit_all_eq_Inr)
  have l0: "map_of (rev ?kvs) ''guid'' = Some (projr (json_Marshal_string (ReportingDescriptorReference.Guid strct)))"
    by (rule written_lookup [OF dist]) (subst rs, intro list.set_intros)
  have l1: "map_of (rev ?kvs) ''id'' = Some (projr (json_Marshal_string (ReportingDescriptorReference.Id strct)))"
    by (rule written_lookup [OF dist]) (subst rs, intro list.set_intros)
  have l2: "map_of (rev ?kvs) ''index'' = Some (projr (json_Marshal_int (ReportingDescriptorReference.Index strct)))"
    by (rule written_lookup [OF dist]) (subst rs, intro list.set_intros)
  have l3: "map_of (rev ?kvs) ''properties'' = Some (projr (json_Marshal_bytes ''*sarif.PropertyBag'' (PropertyBag_MarshalJSON scn ord) (ReportingDescriptorReference.Properties strct)))"
    by (rule written_lookup [OF dist]) (subst rs, intro list.set_intros)
  have l4: "map_of (rev ?kvs) ''toolComponent'' = Some (projr (json_Marshal_ptr ''*sarif.ToolComponentReference'' (ToolComponentReference_MarshalJSON scn ord) (ReportingDescriptorReference.ToolComponent strct)))"
    by (rule written_lookup [OF dist]) (subst rs, intro list.set_intros)
  have dec: "ReportingDescriptorReference_decodes ord' (map_of (rev ?kvs)) strct"
    unfolding ReportingDescriptorReference_decodes_def l0 l1 l2 l3 l4
    by (simp only: field_ok_Some fs written_dom keys subset_refl option.simps simp_thms)
  then have "ReportingDescriptorReference_UnmarshalJSON ord' (JObj ?kvs) = Inr strct"
    by (simp only: ReportingDescriptorReference_decode_iff)
  with enc show "rt_object (ReportingDescriptorReference_MarshalJSON scn ord) (ReportingDescriptorReference_UnmarshalJSON ord') strct"
    unfolding rt_object_def by blast
qed

definition ReportingDescriptorReference_small_bags :: "ReportingDescriptorReference \<Rightarrow> bool" where
  "ReportingDescriptorReference_small_bags strct \<longleftrightarrow>
     ptr_all PropertyBag_small_bags (ReportingDescriptorReference.Properties strct) \<and>
     ptr_all ToolComponentReference_small_bags (ReportingDescriptorReference.ToolComponent strct)"

lemma ReportingDescriptorReference_same_output:
  "same_output (ReportingDescriptorReference_MarshalJSON scn ord) (ReportingDescriptorReference_MarshalJSON scn ord') ReportingDescriptorReference_small_bags"
  unfolding same_output_def
proof (intro allI impI)
  fix strct assume v: "ReportingDescriptorReference_small_bags strct"
  note v' = v [unfolded ReportingDescriptorReference_small_bags_def]
  have e3: "json_Marshal_bytes ''*sarif.PropertyBag'' (PropertyBag_MarshalJSON scn ord) (ReportingDescriptorReference.Properties strct) =
      json_Marshal_bytes ''*sarif.PropertyBag'' (PropertyBag_MarshalJSON scn ord') (ReportingDescriptorReference.Properties strct)"
    by (rule same_outputD [OF PropertyBag_field_same_output]) (use v' in simp)
  have e4: "json_Marshal_ptr ''*sarif.ToolComponentReference'' (ToolComponentReference_MarshalJSON scn ord) (ReportingDescriptorReference.ToolComponent strct) =
      json_Marshal_ptr ''*sarif.ToolComponentReference'' (ToolComponentReference_MarshalJSON scn ord') (ReportingDescriptorReference.ToolComponent strct)"
    by (rule same_outputD [OF same_output_ptr [OF ToolComponentReference_same_output]]) (use v' in simp)
  show "ReportingDescriptorReference_MarshalJSON scn ord strct = ReportingDescriptorReference_MarshalJSON scn ord' strct"
    by (simp only: ReportingDescriptorReference_MarshalJSON_def e3 e4)
qed

lemma ReportingDescriptorReference_writes_keys: "writes_keys (ReportingDescriptorReference_MarshalJSON scn ord) ReportingDescriptorReference_keys"
  unfolding writes_keys_def by (intro allI impI) (erule ReportingDescriptorReference_keys_written)

lemma ReportingDescriptorReference_unknown_key:
  assumes new: "k \<notin> set ReportingDescriptorReference_keys" and key: "k \<in> fst ` set kvs"
    and rest: "ReportingDescriptorReference_UnmarshalJSON ord (JObj (filter (\<lambda>e. fst e \<noteq> k) kvs)) = Inr strct"
  shows "ReportingDescriptorReference_UnmarshalJSON ord (JObj kvs) = Inl (not_allowed k)"
proof -
  have rej: "switch k (ReportingDescriptorReference_cases ord v) (reject k) s = Inl (not_allowed k)" for v s
    by (rule switch_rejects) (simp only: ReportingDescriptorReference_cases_keys new not_False_eq_True)
  from rest obtain t where
    "range_loop (\<lambda>k v. switch k (ReportingDescriptorReference_cases ord v) (reject k)) (members ord (filter (\<lambda>e. fst e \<noteq> k) kvs)) ReportingDescriptorReference_zero = Inr t"
    by (cases "range_loop (\<lambda>k v. switch k (ReportingDescriptorReference_cases ord v) (reject k)) (members ord (filter (\<lambda>e. fst e \<noteq> k) kvs)) ReportingDescriptorReference_zero")
       (simp_all add: ReportingDescriptorReference_UnmarshalJSON_def members_def)
  from unknown_key_named [OF ReportingDescriptorReference_regular rej key this]
  show ?thesis by (simp add: ReportingDescriptorReference_UnmarshalJSON_def members_def)
qed

lemma ReportingDescriptorReference_unknown_key_fails:
  assumes "k \<notin> set ReportingDescriptorReference_keys" and "k \<in> fst ` set kvs"
  shows "isl (ReportingDescriptorReference_UnmarshalJSON ord (JObj kvs))"
proof (cases "ReportingDescriptorReference_UnmarshalJSON ord (JObj kvs)")
  case (Inr strct)
  then have "dom (map_of (rev kvs)) \<subseteq> set ReportingDescriptorReference_keys"
    by (simp only: ReportingDescriptorReference_decode_iff ReportingDescriptorReference_decodesD(1))
  with assms show ?thesis by (auto simp: dom_map_of_conv_image_fst)
qed simp

lemma ReportingDescriptorReference_rejects_unknown_keys: "rejects_unknown_keys (ReportingDescriptorReference_UnmarshalJSON ord) ReportingDescriptorReference_keys"
  by (rule rejects_unknown_keysI) (erule (1) ReportingDescriptorReference_unknown_key_fails, erule (2) ReportingDescriptorReference_unknown_key)

subsection \<open>PhysicalLocation: decoding and encoding\<close>

definition PhysicalLocation_keys :: "string list" where
  "PhysicalLocation_keys = [''address'', ''artifactLocation'', ''contextRegion'', ''properties'', ''region'']"

definition PhysicalLocation_decodes :: "order \<Rightarrow> (string \<rightharpoonup> json) \<Rightarrow> PhysicalLocation \<Rightarrow> bool" where
  "PhysicalLocation_decodes ord m strct \<longleftrightarrow>
     dom m \<subseteq> set PhysicalLocation_keys \<and>
     field_ok (json_Unmarshal_ptr (Address_UnmarshalJSON ord)) (m ''address'') None (PhysicalLocation.Address strct) \<and>
     field_ok (json_Unmarshal_ptr (ArtifactLocation_UnmarshalJSON ord)) (m ''artifactLocation'') None (PhysicalLocation.ArtifactLocation strct) \<and>
     field_ok (json_Unmarshal_ptr (Region_UnmarshalJSON ord)) (m ''contextRegion'') None (PhysicalLocation.ContextRegion strct) \<and>
     field_ok (json_Unmarshal_ptr (PropertyBag_UnmarshalJSON ord)) (m ''properties'') None (PhysicalLocation.Properties strct) \<and>
     field_ok (json_Unmarshal_ptr (Region_UnmarshalJSON ord)) (m ''region'') None (PhysicalLocation.Region strct)"

lemma PhysicalLocation_cases_keys: "fst ` set (PhysicalLocation_cases ord v) = set PhysicalLocation_keys"
  by (rule keys_image) (simp add: PhysicalLocation_cases_def PhysicalLocation_keys_def)

lemma PhysicalLocation_regular: "regular (\<lambda>k v. switch k (PhysicalLocation_cases ord v) (reject k))"
  by (rule regular_switch) (simp add: PhysicalLocation_cases_def)

lemma PhysicalLocation_fields:
  "field_case (PhysicalLocation_cases ord) PhysicalLocation.Address ''address'' (json_Unmarshal_ptr (Address_UnmarshalJSON ord))"
  "field_case (PhysicalLocation_cases ord) PhysicalLocation.ArtifactLocation ''artifactLocation'' (json_Unmarshal_ptr (ArtifactLocation_UnmarshalJSON ord))"
  "field_case (PhysicalLocation_cases ord) PhysicalLocation.ContextRegion ''contextRegion'' (json_Unmarshal_ptr (Region_UnmarshalJSON ord))"
  "field_case (PhysicalLocation_cases ord) PhysicalLocation.Properties ''properties'' (json_Unmarshal_ptr (PropertyBag_UnmarshalJSON ord))"
  "field_case (PhysicalLocation_cases ord) PhysicalLocation.Region ''region'' (json_Unmarshal_ptr (Region_UnmarshalJSON ord))"
  unfolding field_case_def PhysicalLocation_cases_def
  by (simp_all add: writes_into writes_received keeps_into split_def)

lemma PhysicalLocation_loop_sound:
  assumes loop: "range_loop (\<lambda>k v. switch k (PhysicalLocation_cases ord v) (reject k)) (members ord kvs) PhysicalLocation_zero = Inr strct"
  shows "dom (map_of (rev kvs)) \<subseteq> set PhysicalLocation_keys \<and>
     field_ok (json_Unmarshal_ptr (Address_UnmarshalJSON ord)) (map_of (rev kvs) ''address'') None (PhysicalLocation.Address strct) \<and>
     field_ok (json_Unmarshal_ptr (ArtifactLocation_UnmarshalJSON ord)) (map_of (rev kvs) ''artifactLocation'') None (PhysicalLocation.ArtifactLocation strct) \<and>
     field_ok (json_Unmarshal_ptr (Region_UnmarshalJSON ord)) (map_of (rev kvs) ''contextRegion'') None (PhysicalLocation.ContextRegion strct) \<and>
     field_ok (json_Unmarshal_ptr (PropertyBag_UnmarshalJSON ord)) (map_of (rev kvs) ''properties'') None (PhysicalLocation.Properties strct) \<and>
     field_ok (json_Unmarshal_ptr (Region_UnmarshalJSON ord)) (map_of (rev kvs) ''region'') None (PhysicalLocation.Region strct)"
proof -
  have "fst ` set (members ord kvs) \<subseteq> set PhysicalLocation_keys"
    by (rule loop_keys_known [OF loop]) (rule PhysicalLocation_cases_keys)
  then have keys: "dom (map_of (rev kvs)) \<subseteq> set PhysicalLocation_keys"
    by (simp add: dom_members [of kvs ord])
  note fld = field_after_loop [OF _ members_distinct loop, unfolded map_of_members]
  show ?thesis
    using keys fld [OF PhysicalLocation_fields(1)] fld [OF PhysicalLocation_fields(2)] fld [OF PhysicalLocation_fields(3)] fld [OF PhysicalLocation_fields(4)] fld [OF PhysicalLocation_fields(5)] 
    by (simp only: prod.case PhysicalLocation_zero_def PhysicalLocation.select_convs simp_thms)
qed

lemma PhysicalLocation_decodesD:
  assumes "PhysicalLocation_decodes ord m strct"
  shows "dom m \<subseteq> set PhysicalLocation_keys"
    and "field_ok (json_Unmarshal_ptr (Address_UnmarshalJSON ord)) (m ''address'') None (PhysicalLocation.Address strct)"
    and "field_ok (json_Unmarshal_ptr (ArtifactLocation_UnmarshalJSON ord)) (m ''artifactLocation'') None (PhysicalLocation.ArtifactLocation strct)"
    and "field_ok (json_Unmarshal_ptr (Region_UnmarshalJSON ord)) (m ''contextRegion'') None (PhysicalLocation.ContextRegion strct)"
    and "field_ok (json_Unmarshal_ptr (PropertyBag_UnmarshalJSON ord)) (m ''properties'') None (PhysicalLocation.Properties strct)"
    and "field_ok (json_Unmarshal_ptr (Region_UnmarshalJSON ord)) (m ''region'') None (PhysicalLocation.Region strct)"
  using assms unfolding PhysicalLocation_decodes_def by - (elim conjE, assumption)+

lemma PhysicalLocation_decodes_unique:
  assumes "PhysicalLocation_decodes ord m a" and "PhysicalLocation_decodes ord m b"
  shows "a = b"
  apply (rule PhysicalLocation.equality)
  apply (rule field_ok_unique [OF PhysicalLocation_decodesD(2) [OF assms(1)] PhysicalLocation_decodesD(2) [OF assms(2)]])
  apply (rule field_ok_unique [OF PhysicalLocation_decodesD(3) [OF assms(1)] PhysicalLocation_decodesD(3) [OF assms(2)]])
  apply (rule field_ok_unique [OF PhysicalLocation_decodesD(4) [OF assms(1)] PhysicalLocation_decodesD(4) [OF assms(2)]])
  apply (rule field_ok_unique [OF PhysicalLocation_decodesD(5) [OF assms(1)] PhysicalLocation_decodesD(5) [OF assms(2)]])
  apply (rule field_ok_unique [OF PhysicalLocation_decodesD(6) [OF assms(1)] PhysicalLocation_decodesD(6) [OF assms(2)]])
  apply simp
  done

lemma PhysicalLocation_accepts:
  assumes "PhysicalLocation_decodes ord m strct" and "m k = Some v"
  shows "accepting (switch k (PhysicalLocation_cases ord v) (reject k))"
proof -
  from assms have "k \<in> set PhysicalLocation_keys" by (auto simp: PhysicalLocation_decodes_def)
  then have key: "k \<in> fst ` set (PhysicalLocation_cases ord v)"
    by (simp only: PhysicalLocation_cases_keys)
  have rows: "list_all (\<lambda>(c, h). m c = Some v \<longrightarrow> accepting h) (PhysicalLocation_cases ord v)"
    unfolding PhysicalLocation_cases_def list.pred_inject
    apply (rule conjI [OF accept_row [where m = m and v = v, OF PhysicalLocation_decodesD(2) [OF assms(1)]]])
    apply (rule conjI [OF accept_row [where m = m and v = v, OF PhysicalLocation_decodesD(3) [OF assms(1)]]])
    apply (rule conjI [OF accept_row [where m = m and v = v, OF PhysicalLocation_decodesD(4) [OF assms(1)]]])
    apply (rule conjI [OF accept_row [where m = m and v = v, OF PhysicalLocation_decodesD(5) [OF assms(1)]]])
    apply (rule conjI [OF accept_row [where m = m and v = v, OF PhysicalLocation_decodesD(6) [OF assms(1)]]])
    apply simp
    done
  show ?thesis by (rule rows_accept [OF rows assms(2) key])
qed

lemma PhysicalLocation_decode_iff:
  "PhysicalLocation_UnmarshalJSON ord (JObj kvs) = Inr strct \<longleftrightarrow>
   PhysicalLocation_decodes ord (map_of (rev kvs)) strct"
proof
  assume "PhysicalLocation_UnmarshalJSON ord (JObj kvs) = Inr strct"
  then have loop: "range_loop (\<lambda>k v. switch k (PhysicalLocation_cases ord v) (reject k)) (members ord kvs) PhysicalLocation_zero = Inr strct"
    by (auto simp: PhysicalLocation_UnmarshalJSON_def members_def split: sum.splits)
  from PhysicalLocation_loop_sound [OF loop]
  show "PhysicalLocation_decodes ord (map_of (rev kvs)) strct"
    by (simp add: PhysicalLocation_decodes_def)
next
  assume d: "PhysicalLocation_decodes ord (map_of (rev kvs)) strct"
  have "\<exists>t. range_loop (\<lambda>k v. switch k (PhysicalLocation_cases ord v) (reject k)) (members ord kvs) PhysicalLocation_zero = Inr t"
  proof (rule loop_succeeds [OF PhysicalLocation_regular])
    fix k v assume "(k, v) \<in> set (members ord kvs)"
    then have "map_of (rev kvs) k = Some v" by (rule member_lookup)
    from PhysicalLocation_accepts [OF d this]
    show "accepting (switch k (PhysicalLocation_cases ord v) (reject k))" .
  qed
  then obtain strct' where
    loop: "range_loop (\<lambda>k v. switch k (PhysicalLocation_cases ord v) (reject k)) (members ord kvs) PhysicalLocation_zero = Inr strct'" ..
  from PhysicalLocation_loop_sound [OF loop]
  have d': "PhysicalLocation_decodes ord (map_of (rev kvs)) strct'"
    by (simp add: PhysicalLocation_decodes_def)
  from PhysicalLocation_decodes_unique [OF d' d] have "strct' = strct" .
  with loop show "PhysicalLocation_UnmarshalJSON ord (JObj kvs) = Inr strct"
    by (simp add: PhysicalLocation_UnmarshalJSON_def members_def)
qed

definition PhysicalLocation_results :: "scanner \<Rightarrow> order \<Rightarrow> PhysicalLocation \<Rightarrow> (string \<times> (error + json)) list" where
  "PhysicalLocation_results scn ord strct =
     [(''address'', json_Marshal_ptr ''*sarif.Address'' (Address_MarshalJSON scn ord) (PhysicalLocation.Address strct)),
      (''artifactLocation'', json_Marshal_ptr ''*sarif.ArtifactLocation'' (ArtifactLocation_MarshalJSON scn ord) (PhysicalLocation.ArtifactLocation strct)),
      (''contextRegion'', json_Marshal_ptr ''*sarif.Region'' (Region_MarshalJSON scn ord) (PhysicalLocation.ContextRegion strct)),
      (''properties'', json_Marshal_bytes ''*sarif.PropertyBag'' (PropertyBag_MarshalJSON scn ord) (PhysicalLocation.Properties strct)),
      (''region'', json_Marshal_ptr ''*sarif.Region'' (Region_MarshalJSON scn ord) (PhysicalLocation.Region strct))]"

lemma PhysicalLocation_MarshalJSON_results:
  "PhysicalLocation_MarshalJSON scn ord strct = object (emit_all (PhysicalLocation_results scn ord strct))"
  by (simp add: PhysicalLocation_MarshalJSON_def PhysicalLocation_results_def emit_nilcheck)

lemma PhysicalLocation_keys_written:
  "PhysicalLocation_MarshalJSON scn ord strct = Inr j \<Longrightarrow> \<exists>kvs. j = JObj kvs \<and> map fst kvs = PhysicalLocation_keys"
  using keys_written [of "PhysicalLocation_results scn ord strct" j]
  by (simp add: PhysicalLocation_MarshalJSON_results PhysicalLocation_results_def PhysicalLocation_keys_def)

definition PhysicalLocation_encodable :: "scanner \<Rightarrow> order \<Rightarrow> PhysicalLocation \<Rightarrow> bool" where
  "PhysicalLocation_encodable scn ord strct \<longleftrightarrow>
     ptr_all (Address_encodable scn ord) (PhysicalLocation.Address strct) \<and>
     ptr_all (ArtifactLocation_encodable scn ord) (PhysicalLocation.ArtifactLocation strct) \<and>
     ptr_all (Region_encodable scn ord) (PhysicalLocation.ContextRegion strct) \<and>
     ptr_all (PropertyBag_encodable scn ord) (PhysicalLocation.Properties strct) \<and>
     ptr_all (Region_encodable scn ord) (PhysicalLocation.Region strct)"

lemma PhysicalLocation_fails_unless: "fails_unless (PhysicalLocation_MarshalJSON scn ord) (PhysicalLocation_encodable scn ord)"
  unfolding fails_unless_def PhysicalLocation_MarshalJSON_results PhysicalLocation_results_def PhysicalLocation_encodable_def isl_object_emit_all
  by (auto simp add: always_simps
      fails_unlessD [OF fails_unless_ptr [OF Address_fails_unless]]
      fails_unlessD [OF fails_unless_ptr [OF ArtifactLocation_fails_unless]]
      fails_unlessD [OF fails_unless_ptr [OF Region_fails_unless]]
      fails_unlessD [OF PropertyBag_field_fails_unless])

definition PhysicalLocation_valid :: "PhysicalLocation \<Rightarrow> bool" where
  "PhysicalLocation_valid strct \<longleftrightarrow>
     ptr_all Address_valid (PhysicalLocation.Address strct) \<and>
     ptr_all ArtifactLocation_valid (PhysicalLocation.ArtifactLocation strct) \<and>
     ptr_all Region_valid (PhysicalLocation.ContextRegion strct) \<and>
     ptr_all PropertyBag_valid (PhysicalLocation.Properties strct) \<and>
     ptr_all Region_valid (PhysicalLocation.Region strct)"

lemma PhysicalLocation_keys_distinct: "distinct PhysicalLocation_keys"
  by (simp add: PhysicalLocation_keys_def)

lemma PhysicalLocation_round_trips:
  "round_trips_object (PhysicalLocation_MarshalJSON scn ord) (PhysicalLocation_UnmarshalJSON ord') PhysicalLocation_valid"
  unfolding round_trips_object_def
proof (intro allI impI)
  fix strct assume v: "PhysicalLocation_valid strct"
  note v' = v [unfolded PhysicalLocation_valid_def]
  let ?rs = "PhysicalLocation_results scn ord strct"
  let ?kvs = "map (\<lambda>e. (fst e, projr (snd e))) ?rs"
  have f0: "\<not> isl (json_Marshal_ptr ''*sarif.Address'' (Address_MarshalJSON scn ord) (PhysicalLocation.Address strct)) \<and>
      json_Unmarshal_ptr (Address_UnmarshalJSON ord') (projr (json_Marshal_ptr ''*sarif.Address'' (Address_MarshalJSON scn ord) (PhysicalLocation.Address strct))) = Inr (PhysicalLocation.Address strct)"
    by (rule round_tripsD [OF round_trips_ptr [OF Address_round_trips]]) (use v' in simp)
  have f1: "\<not> isl (json_Marshal_ptr ''*sarif.ArtifactLocation'' (ArtifactLocation_MarshalJSON scn ord) (PhysicalLocation.ArtifactLocation strct)) \<and>
      json_Unmarshal_ptr (ArtifactLocation_UnmarshalJSON ord') (projr (json_Marshal_ptr ''*sarif.ArtifactLocation'' (ArtifactLocation_MarshalJSON scn ord) (PhysicalLocation.ArtifactLocation strct))) = Inr (PhysicalLocation.ArtifactLocation strct)"
    by (rule round_tripsD [OF round_trips_ptr [OF ArtifactLocation_round_trips]]) (use v' in simp)
  have f2: "\<not> isl (json_Marshal_ptr ''*sarif.Region'' (Region_MarshalJSON scn ord) (PhysicalLocation.ContextRegion strct)) \<and>
      json_Unmarshal_ptr (Region_UnmarshalJSON ord') (projr (json_Marshal_ptr ''*sarif.Region'' (Region_MarshalJSON scn ord) (PhysicalLocation.ContextRegion strct))) = Inr (PhysicalLocation.ContextRegion strct)"
    by (rule round_tripsD [OF round_trips_ptr [OF Region_round_trips]]) (use v' in simp)
  have f3: "\<not> isl (json_Marshal_bytes ''*sarif.PropertyBag'' (PropertyBag_MarshalJSON scn ord) (PhysicalLocation.Properties strct)) \<and>
      json_Unmarshal_ptr (PropertyBag_UnmarshalJSON ord') (projr (json_Marshal_bytes ''*sarif.PropertyBag'' (PropertyBag_MarshalJSON scn ord) (PhysicalLocation.Properties strct))) = Inr (PhysicalLocation.Properties strct)"
    by (rule round_tripsD [OF PropertyBag_field_round_trips]) (use v' in simp)
  have f4: "\<not> isl (json_Marshal_ptr ''*sarif.Region'' (Region_MarshalJSON scn ord) (PhysicalLocation.Region strct)) \<and>
      json_Unmarshal_ptr (Region_UnmarshalJSON ord') (projr (json_Marshal_ptr ''*sarif.Region'' (Region_MarshalJSON scn ord) (PhysicalLocation.Region strct))) = Inr (PhysicalLocation.Region strct)"
    by (rule round_tripsD [OF round_trips_ptr [OF Region_round_trips]]) (use v' in simp)
  note fs = f0 f1 f2 f3 f4
  have rs: "?rs =
     [(''address'', json_Marshal_ptr ''*sarif.Address'' (Address_MarshalJSON scn ord) (PhysicalLocation.Address strct)),
      (''artifactLocation'', json_Marshal_ptr ''*sarif.ArtifactLocation'' (ArtifactLocation_MarshalJSON scn ord) (PhysicalLocation.ArtifactLocation strct)),
      (''contextRegion'', json_Marshal_ptr ''*sarif.Region'' (Region_MarshalJSON scn ord) (PhysicalLocation.ContextRegion strct)),
      (''properties'', json_Marshal_bytes ''*sarif.PropertyBag'' (PropertyBag_MarshalJSON scn ord) (PhysicalLocation.Properties strct)),
      (''region'', json_Marshal_ptr ''*sarif.Region'' (Region_MarshalJSON scn ord) (PhysicalLocation.Region strct))]"
    by (auto simp add: PhysicalLocation_results_def)
  have keys: "map fst ?rs = PhysicalLocation_keys"
    by (simp add: PhysicalLocation_results_def PhysicalLocation_keys_def)
  then have dist: "distinct (map fst ?rs)"
    by (simp only: PhysicalLocation_keys_distinct)
  have ok: "list_all (\<lambda>e. \<not> isl (snd e)) ?rs"
    unfolding rs by (simp only: list.pred_inject snd_conv fs simp_thms)
  then have enc: "PhysicalLocation_MarshalJSON scn ord strct = Inr (JObj ?kvs)"
    by (simp add: PhysicalLocation_MarshalJSON_results [of scn ord strct] object_emit_all_eq_Inr)
  have l0: "map_of (rev ?kvs) ''address'' = Some (projr (json_Marshal_ptr ''*sarif.Address'' (Address_MarshalJSON scn ord) (PhysicalLocation.Address strct)))"
    by (rule written_lookup [OF dist]) (subst rs, intro list.set_intros)
  have l1: "map_of (rev ?kvs) ''artifactLocation'' = Some (projr (json_Marshal_ptr ''*sarif.ArtifactLocation'' (ArtifactLocation_MarshalJSON scn ord) (PhysicalLocation.ArtifactLocation strct)))"
    by (rule written_lookup [OF dist]) (subst rs, intro list.set_intros)
  have l2: "map_of (rev ?kvs) ''contextRegion'' = Some (projr (json_Marshal_ptr ''*sarif.Region'' (Region_MarshalJSON scn ord) (PhysicalLocation.ContextRegion strct)))"
    by (rule written_lookup [OF dist]) (subst rs, intro list.set_intros)
  have l3: "map_of (rev ?kvs) ''properties'' = Some (projr (json_Marshal_bytes ''*sarif.PropertyBag'' (PropertyBag_MarshalJSON scn ord) (PhysicalLocation.Properties strct)))"
    by (rule written_lookup [OF dist]) (subst rs, intro list.set_intros)
  have l4: "map_of (rev ?kvs) ''region'' = Some (projr (json_Marshal_ptr ''*sarif.Region'' (Region_MarshalJSON scn ord) (PhysicalLocation.Region strct)))"
    by (rule written_lookup [OF dist]) (subst rs, intro list.set_intros)
  have dec: "PhysicalLocation_decodes ord' (map_of (rev ?kvs)) strct"
    unfolding PhysicalLocation_decodes_def l0 l1 l2 l3 l4
    by (simp only: field_ok_Some fs written_dom keys subset_refl option.simps simp_thms)
  then have "PhysicalLocation_UnmarshalJSON ord' (JObj ?kvs) = Inr strct"
    by (simp only: PhysicalLocation_decode_iff)
  with enc show "rt_object (PhysicalLocation_MarshalJSON scn ord) (PhysicalLocation_UnmarshalJSON ord') strct"
    unfolding rt_object_def by blast
qed

definition PhysicalLocation_small_bags :: "PhysicalLocation \<Rightarrow> bool" where
  "PhysicalLocation_small_bags strct \<longleftrightarrow>
     ptr_all Address_small_bags (PhysicalLocation.Address strct) \<and>
     ptr_all ArtifactLocation_small_bags (PhysicalLocation.ArtifactLocation strct) \<and>
     ptr_all Region_small_bags (PhysicalLocation.ContextRegion strct) \<and>
     ptr_all PropertyBag_small_bags (PhysicalLocation.Properties strct) \<and>
     ptr_all Region_small_bags (PhysicalLocation.Region strct)"

lemma PhysicalLocation_same_output:
  "same_output (PhysicalLocation_MarshalJSON scn ord) (PhysicalLocation_MarshalJSON scn ord') PhysicalLocation_small_bags"
  unfolding same_output_def
proof (intro allI impI)
  fix strct assume v: "PhysicalLocation_small_bags strct"
  note v' = v [unfolded PhysicalLocation_small_bags_def]
  have e0: "json_Marshal_ptr ''*sarif.Address'' (Address_MarshalJSON scn ord) (PhysicalLocation.Address strct) =
      json_Marshal_ptr ''*sarif.Address'' (Address_MarshalJSON scn ord') (PhysicalLocation.Address strct)"
    by (rule same_outputD [OF same_output_ptr [OF Address_same_output]]) (use v' in simp)
  have e1: "json_Marshal_ptr ''*sarif.ArtifactLocation'' (ArtifactLocation_MarshalJSON scn ord) (PhysicalLocation.ArtifactLocation strct) =
      json_Marshal_ptr ''*sarif.ArtifactLocation'' (ArtifactLocation_MarshalJSON scn ord') (PhysicalLocation.ArtifactLocation strct)"
    by (rule same_outputD [OF same_output_ptr [OF ArtifactLocation_same_output]]) (use v' in simp)
  have e2: "json_Marshal_ptr ''*sarif.Region'' (Region_MarshalJSON scn ord) (PhysicalLocation.ContextRegion strct) =
      json_Marshal_ptr ''*sarif.Region'' (Region_MarshalJSON scn ord') (PhysicalLocation.ContextRegion strct)"
    by (rule same_outputD [OF same_output_ptr [OF Region_same_output]]) (use v' in simp)
  have e3: "json_Marshal_bytes ''*sarif.PropertyBag'' (PropertyBag_MarshalJSON scn ord) (PhysicalLocation.Properties strct) =
      json_Marshal_bytes ''*sarif.PropertyBag'' (PropertyBag_MarshalJSON scn ord') (PhysicalLocation.Properties strct)"
    by (rule same_outputD [OF PropertyBag_field_same_output]) (use v' in simp)
  have e4: "json_Marshal_ptr ''*sarif.Region'' (Region_MarshalJSON scn ord) (PhysicalLocation.Region strct) =
      json_Marshal_ptr ''*sarif.Region'' (Region_MarshalJSON scn ord') (PhysicalLocation.Region strct)"
    by (rule same_outputD [OF same_output_ptr [OF Region_same_output]]) (use v' in simp)
  show "PhysicalLocation_MarshalJSON scn ord strct = PhysicalLocation_MarshalJSON scn ord' strct"
    by (simp only: PhysicalLocation_MarshalJSON_def e0 e1 e2 e3 e4)
qed

lemma PhysicalLocation_writes_keys: "writes_keys (PhysicalLocation_MarshalJSON scn ord) PhysicalLocation_keys"
  unfolding writes_keys_def by (intro allI impI) (erule PhysicalLocation_keys_written)

lemma PhysicalLocation_unknown_key:
  assumes new: "k \<notin> set PhysicalLocation_keys" and key: "k \<in> fst ` set kvs"
    and rest: "PhysicalLocation_UnmarshalJSON ord (JObj (filter (\<lambda>e. fst e \<noteq> k) kvs)) = Inr strct"
  shows "PhysicalLocation_UnmarshalJSON ord (JObj kvs) = Inl (not_allowed k)"
proof -
  have rej: "switch k (PhysicalLocation_cases ord v) (reject k) s = Inl (not_allowed k)" for v s
    by (rule switch_rejects) (simp only: PhysicalLocation_cases_keys new not_False_eq_True)
  from rest obtain t where
    "range_loop (\<lambda>k v. switch k (PhysicalLocation_cases ord v) (reject k)) (members ord (filter (\<lambda>e. fst e \<noteq> k) kvs)) PhysicalLocation_zero = Inr t"
    by (cases "range_loop (\<lambda>k v. switch k (PhysicalLocation_cases ord v) (reject k)) (members ord (filter (\<lambda>e. fst e \<noteq> k) kvs)) PhysicalLocation_zero")
       (simp_all add: PhysicalLocation_UnmarshalJSON_def members_def)
  from unknown_key_named [OF PhysicalLocation_regular rej key this]
  show ?thesis by (simp add: PhysicalLocation_UnmarshalJSON_def members_def)
qed

lemma PhysicalLocation_unknown_key_fails:
  assumes "k \<notin> set PhysicalLocation_keys" and "k \<in> fst ` set kvs"
  shows "isl (PhysicalLocation_UnmarshalJSON ord (JObj kvs))"
proof (cases "PhysicalLocation_UnmarshalJSON ord (JObj kvs)")
  case (Inr strct)
  then have "dom (map_of (rev kvs)) \<subseteq> set PhysicalLocation_keys"
    by (simp only: PhysicalLocation_decode_iff PhysicalLocation_decodesD(1))
  with assms show ?thesis by (auto simp: dom_map_of_conv_image_fst)
qed simp

lemma PhysicalLocation_rejects_unknown_keys: "rejects_unknown_keys (PhysicalLocation_UnmarshalJSON ord) PhysicalLocation_keys"
  by (rule rejects_unknown_keysI) (erule (1) PhysicalLocation_unknown_key_fails, erule (2) PhysicalLocation_unknown_key)

subsection \<open>LocationRelationship: decoding and encoding\<close>

definition LocationRelationship_keys :: "string list" where
  "LocationRelationship_keys = [''description'', ''kinds'', ''properties'', ''target'']"

definition LocationRelationship_decodes :: "order \<Rightarrow> (string \<rightharpoonup> json) \<Rightarrow> LocationRelationship \<Rightarrow> bool" where
  "LocationRelationship_decodes ord m strct \<longleftrightarrow>
     dom m \<subseteq> set LocationRelationship_keys \<and>
     field_ok (json_Unmarshal_ptr (Message_UnmarshalJSON ord)) (m ''description'') None (LocationRelationship.Description strct) \<and>
     field_ok (json_Unmarshal_slice json_Unmarshal_string) (m ''kinds'') None (LocationRelationship.Kinds strct) \<and>
     field_ok (json_Unmarshal_ptr (PropertyBag_UnmarshalJSON ord)) (m ''properties'') None (LocationRelationship.Properties strct) \<and>
     field_ok json_Unmarshal_int (m ''target'') 0 (LocationRelationship.Target strct) \<and>
     m ''target'' \<noteq> None"

lemma LocationRelationship_cases_keys: "fst ` set (LocationRelationship_cases ord v) = set LocationRelationship_keys"
  by (rule keys_image) (simp add: LocationRelationship_cases_def LocationRelationship_keys_def)

lemma LocationRelationship_regular: "regular (\<lambda>k v. switch k (LocationRelationship_cases ord v) (reject k))"
  by (rule regular_switch) (simp add: LocationRelationship_cases_def)

lemma LocationRelationship_fields:
  "field_case (LocationRelationship_cases ord) (\<lambda>(strct, targetReceived). LocationRelationship.Description strct) ''description'' (json_Unmarshal_ptr (Message_UnmarshalJSON ord))"
  "field_case (LocationRelationship_cases ord) (\<lambda>(strct, targetReceived). LocationRelationship.Kinds strct) ''kinds'' (json_Unmarshal_slice json_Unmarshal_string)"
  "field_case (LocationRelationship_cases ord) (\<lambda>(strct, targetReceived). LocationRelationship.Properties strct) ''properties'' (json_Unmarshal_ptr (PropertyBag_UnmarshalJSON ord))"
  "field_case (LocationRelationship_cases ord) (\<lambda>(strct, targetReceived). LocationRelationship.Target strct) ''target'' json_Unmarshal_int"
  "field_case (LocationRelationship_cases ord) (\<lambda>(strct, targetReceived). targetReceived) ''target'' (received json_Unmarshal_int)"
  unfolding field_case_def LocationRelationship_cases_def
  by (simp_all add: writes_into writes_received keeps_into split_def)

lemma LocationRelationship_loop_sound:
  assumes loop: "range_loop (\<lambda>k v. switch k (LocationRelationship_cases ord v) (reject k)) (members ord kvs) (LocationRelationship_zero, False) = Inr (strct, targetReceived)"
  shows "dom (map_of (rev kvs)) \<subseteq> set LocationRelationship_keys \<and>
     field_ok (json_Unmarshal_ptr (Message_UnmarshalJSON ord)) (map_of (rev kvs) ''description'') None (LocationRelationship.Description strct) \<and>
     field_ok (json_Unmarshal_slice json_Unmarshal_string) (map_of (rev kvs) ''kinds'') None (LocationRelationship.Kinds strct) \<and>
     field_ok (json_Unmarshal_ptr (PropertyBag_UnmarshalJSON ord)) (map_of (rev kvs) ''properties'') None (LocationRelationship.Properties strct) \<and>
     field_ok json_Unmarshal_int (map_of (rev kvs) ''target'') 0 (LocationRelationship.Target strct) \<and>
     (targetReceived \<longleftrightarrow> map_of (rev kvs) ''target'' \<noteq> None)"
proof -
  have "fst ` set (members ord kvs) \<subseteq> set LocationRelationship_keys"
    by (rule loop_keys_known [OF loop]) (rule LocationRelationship_cases_keys)
  then have keys: "dom (map_of (rev kvs)) \<subseteq> set LocationRelationship_keys"
    by (simp add: dom_members [of kvs ord])
  note fld = field_after_loop [OF _ members_distinct loop, unfolded map_of_members]
  note flg = flag_after_loop [OF _ members_distinct loop, unfolded map_of_members]
  show ?thesis
    using keys fld [OF LocationRelationship_fields(1)] fld [OF LocationRelationship_fields(2)] fld [OF LocationRelationship_fields(3)] fld [OF LocationRelationship_fields(4)] flg [OF LocationRelationship_fields(5)]
    by (simp only: prod.case LocationRelationship_zero_def LocationRelationship.select_convs simp_thms)
qed

lemma LocationRelationship_decodesD:
  assumes "LocationRelationship_decodes ord m strct"
  shows "dom m \<subseteq> set LocationRelationship_keys"
    and "field_ok (json_Unmarshal_ptr (Message_UnmarshalJSON ord)) (m ''description'') None (LocationRelationship.Description strct)"
    and "field_ok (json_Unmarshal_slice json_Unmarshal_string) (m ''kinds'') None (LocationRelationship.Kinds strct)"
    and "field_ok (json_Unmarshal_ptr (PropertyBag_UnmarshalJSON ord)) (m ''properties'') None (LocationRelationship.Properties strct)"
    and "field_ok json_Unmarshal_int (m ''target'') 0 (LocationRelationship.Target strct)"
    and "m ''target'' \<noteq> None"
  using assms unfolding LocationRelationship_decodes_def by - (elim conjE, assumption)+

lemma LocationRelationship_decodes_unique:
  assumes "LocationRelationship_decodes ord m a" and "LocationRelationship_decodes ord m b"
  shows "a = b"
  apply (rule LocationRelationship.equality)
  apply (rule field_ok_unique [OF LocationRelationship_decodesD(2) [OF assms(1)] LocationRelationship_decodesD(2) [OF assms(2)]])
  apply (rule field_ok_unique [OF LocationRelationship_decodesD(3) [OF assms(1)] LocationRelationship_decodesD(3) [OF assms(2)]])
  apply (rule field_ok_unique [OF LocationRelationship_decodesD(4) [OF assms(1)] LocationRelationship_decodesD(4) [OF assms(2)]])
  apply (rule field_ok_unique [OF LocationRelationship_decodesD(5) [OF assms(1)] LocationRelationship_decodesD(5) [OF assms(2)]])
  apply simp
  done

lemma LocationRelationship_accepts:
  assumes "LocationRelationship_decodes ord m strct" and "m k = Some v"
  shows "accepting (switch k (LocationRelationship_cases ord v) (reject k))"
proof -
  from assms have "k \<in> set LocationRelationship_keys" by (auto simp: LocationRelationship_decodes_def)
  then have key: "k \<in> fst ` set (LocationRelationship_cases ord v)"
    by (simp only: LocationRelationship_cases_keys)
  have rows: "list_all (\<lambda>(c, h). m c = Some v \<longrightarrow> accepting h) (LocationRelationship_cases ord v)"
    unfolding LocationRelationship_cases_def list.pred_inject
    apply (rule conjI [OF accept_row [where m = m and v = v, OF LocationRelationship_decodesD(2) [OF assms(1)]]])
    apply (rule conjI [OF accept_row [where m = m and v = v, OF LocationRelationship_decodesD(3) [OF assms(1)]]])
    apply (rule conjI [OF accept_row [where m = m and v = v, OF LocationRelationship_decodesD(4) [OF assms(1)]]])
    apply (rule conjI [OF accept_row [where m = m and v = v, OF LocationRelationship_decodesD(5) [OF assms(1)]]])
    apply simp
    done
  show ?thesis by (rule rows_accept [OF rows assms(2) key])
qed

lemma LocationRelationship_decode_iff:
  "LocationRelationship_UnmarshalJSON ord (JObj kvs) = Inr strct \<longleftrightarrow>
   LocationRelationship_decodes ord (map_of (rev kvs)) strct"
proof
  assume "LocationRelationship_UnmarshalJSON ord (JObj kvs) = Inr strct"
  then obtain targetReceived where
    loop: "range_loop (\<lambda>k v. switch k (LocationRelationship_cases ord v) (reject k)) (members ord kvs) (LocationRelationship_zero, False) = Inr (strct, targetReceived)"
    and fin: "targetReceived"
    by (auto simp: LocationRelationship_UnmarshalJSON_def members_def split: sum.splits if_splits)
  from LocationRelationship_loop_sound [OF loop] fin
  show "LocationRelationship_decodes ord (map_of (rev kvs)) strct"
    by (simp add: LocationRelationship_decodes_def)
next
  assume d: "LocationRelationship_decodes ord (map_of (rev kvs)) strct"
  have "\<exists>t. range_loop (\<lambda>k v. switch k (LocationRelationship_cases ord v) (reject k)) (members ord kvs) (LocationRelationship_zero, False) = Inr t"
  proof (rule loop_succeeds [OF LocationRelationship_regular])
    fix k v assume "(k, v) \<in> set (members ord kvs)"
    then have "map_of (rev kvs) k = Some v" by (rule member_lookup)
    from LocationRelationship_accepts [OF d this]
    show "accepting (switch k (LocationRelationship_cases ord v) (reject k))" .
  qed
  then obtain t where "range_loop (\<lambda>k v. switch k (LocationRelationship_cases ord v) (reject k)) (members ord kvs) (LocationRelationship_zero, False) = Inr t" ..
  then obtain strct' targetReceived where
    loop: "range_loop (\<lambda>k v. switch k (LocationRelationship_cases ord v) (reject k)) (members ord kvs) (LocationRelationship_zero, False) = Inr (strct', targetReceived)"
    by (cases t) auto
  from LocationRelationship_loop_sound [OF loop] d
  have fin: "targetReceived"
    and d': "LocationRelationship_decodes ord (map_of (rev kvs)) strct'"
    by (simp_all add: LocationRelationship_decodes_def)
  from LocationRelationship_decodes_unique [OF d' d] have "strct' = strct" .
  with loop fin show "LocationRelationship_UnmarshalJSON ord (JObj kvs) = Inr strct"
    by (simp add: LocationRelationship_UnmarshalJSON_def members_def)
qed

definition LocationRelationship_results :: "scanner \<Rightarrow> order \<Rightarrow> LocationRelationship \<Rightarrow> (string \<times> (error + json)) list" where
  "LocationRelationship_results scn ord strct =
     [(''description'', json_Marshal_ptr ''*sarif.Message'' (Message_MarshalJSON scn ord) (LocationRelationship.Description strct)),
      (''kinds'', json_Marshal_slice json_Marshal_string (LocationRelationship.Kinds strct)),
      (''properties'', json_Marshal_bytes ''*sarif.PropertyBag'' (PropertyBag_MarshalJSON scn ord) (LocationRelationship.Properties strct)),
      (''target'', json_Marshal_int (LocationRelationship.Target strct))]"

lemma LocationRelationship_MarshalJSON_results:
  "LocationRelationship_MarshalJSON scn ord strct = object (emit_all (LocationRelationship_results scn ord strct))"
  by (simp add: LocationRelationship_MarshalJSON_def LocationRelationship_results_def emit_nilcheck)

lemma LocationRelationship_keys_written:
  "LocationRelationship_MarshalJSON scn ord strct = Inr j \<Longrightarrow> \<exists>kvs. j = JObj kvs \<and> map fst kvs = LocationRelationship_keys"
  using keys_written [of "LocationRelationship_results scn ord strct" j]
  by (simp add: LocationRelationship_MarshalJSON_results LocationRelationship_results_def LocationRelationship_keys_def)

definition LocationRelationship_encodable :: "scanner \<Rightarrow> order \<Rightarrow> LocationRelationship \<Rightarrow> bool" where
  "LocationRelationship_encodable scn ord strct \<longleftrightarrow>
     ptr_all (Message_encodable scn ord) (LocationRelationship.Description strct) \<and>
     ptr_all (PropertyBag_encodable scn ord) (LocationRelationship.Properties strct)"

lemma LocationRelationship_fails_unless: "fails_unless (LocationRelationship_MarshalJSON scn ord) (LocationRelationship_encodable scn ord)"
  unfolding fails_unless_def LocationRelationship_MarshalJSON_results LocationRelationship_results_def LocationRelationship_encodable_def isl_object_emit_all
  by (auto simp add: always_simps
      fails_unlessD [OF fails_unless_ptr [OF Message_fails_unless]]
      fails_unlessD [OF fails_unless_slice [OF fails_unless_string]]
      fails_unlessD [OF PropertyBag_field_fails_unless]
      fails_unlessD [OF fails_unless_int])

definition LocationRelationship_valid :: "LocationRelationship \<Rightarrow> bool" where
  "LocationRelationship_valid strct \<longleftrightarrow>
     ptr_all Message_valid (LocationRelationship.Description strct) \<and>
     ptr_all PropertyBag_valid (LocationRelationship.Properties strct)"

lemma LocationRelationship_keys_distinct: "distinct LocationRelationship_keys"
  by (simp add: LocationRelationship_keys_def)

lemma LocationRelationship_round_trips:
  "round_trips_object (LocationRelationship_MarshalJSON scn ord) (LocationRelationship_UnmarshalJSON ord') LocationRelationship_valid"
  unfolding round_trips_object_def
proof (intro allI impI)
  fix strct assume v: "LocationRelationship_valid strct"
  note v' = v [unfolded LocationRelationship_valid_def]
  let ?rs = "LocationRelationship_results scn ord strct"
  let ?kvs = "map (\<lambda>e. (fst e, projr (snd e))) ?rs"
  have f0: "\<not> isl (json_Marshal_ptr ''*sarif.Message'' (Message_MarshalJSON scn ord) (LocationRelationship.Description strct)) \<and>
      json_Unmarshal_ptr (Message_UnmarshalJSON ord') (projr (json_Marshal_ptr ''*sarif.Message'' (Message_MarshalJSON scn ord) (LocationRelationship.Description strct))) = Inr (LocationRelationship.Description strct)"
    by (rule round_tripsD [OF round_trips_ptr [OF Message_round_trips]]) (use v' in simp)
  have f1: "\<not> isl (json_Marshal_slice json_Marshal_string (LocationRelationship.Kinds strct)) \<and>
      json_Unmarshal_slice json_Unmarshal_string (projr (json_Marshal_slice json_Marshal_string (LocationRelationship.Kinds strct))) = Inr (LocationRelationship.Kinds strct)"
    by (rule round_tripsD [OF round_trips_slice [OF round_trips_string]]) (use v' in simp)
  have f2: "\<not> isl (json_Marshal_bytes ''*sarif.PropertyBag'' (PropertyBag_MarshalJSON scn ord) (LocationRelationship.Properties strct)) \<and>
      json_Unmarshal_ptr (PropertyBag_UnmarshalJSON ord') (projr (json_Marshal_bytes ''*sarif.PropertyBag'' (PropertyBag_MarshalJSON scn ord) (LocationRelationship.Properties strct))) = Inr (LocationRelationship.Properties strct)"
    by (rule round_tripsD [OF PropertyBag_field_round_trips]) (use v' in simp)
  have f3: "\<not> isl (json_Marshal_int (LocationRelationship.Target strct)) \<and>
      json_Unmarshal_int (projr (json_Marshal_int (LocationRelationship.Target strct))) = Inr (LocationRelationship.Target strct)"
    by (rule round_tripsD [OF round_trips_int]) (use v' in simp)
  note fs = f0 f1 f2 f3
  have rs: "?rs =
     [(''description'', json_Marshal_ptr ''*sarif.Message'' (Message_MarshalJSON scn ord) (LocationRelationship.Description strct)),
      (''kinds'', json_Marshal_slice json_Marshal_string (LocationRelationship.Kinds strct)),
      (''properties'', json_Marshal_bytes ''*sarif.PropertyBag'' (PropertyBag_MarshalJSON scn ord) (LocationRelationship.Properties strct)),
      (''target'', json_Marshal_int (LocationRelationship.Target strct))]"
    by (auto simp add: LocationRelationship_results_def)
  have keys: "map fst ?rs = LocationRelationship_keys"
    by (simp add: LocationRelationship_results_def LocationRelationship_keys_def)
  then have dist: "distinct (map fst ?rs)"
    by (simp only: LocationRelationship_keys_distinct)
  have ok: "list_all (\<lambda>e. \<not> isl (snd e)) ?rs"
    unfolding rs by (simp only: list.pred_inject snd_conv fs simp_thms)
  then have enc: "LocationRelationship_MarshalJSON scn ord strct = Inr (JObj ?kvs)"
    by (simp add: LocationRelationship_MarshalJSON_results [of scn ord strct] object_emit_all_eq_Inr)
  have l0: "map_of (rev ?kvs) ''description'' = Some (projr (json_Marshal_ptr ''*sarif.Message'' (Message_MarshalJSON scn ord) (LocationRelationship.Description strct)))"
    by (rule written_lookup [OF dist]) (subst rs, intro list.set_intros)
  have l1: "map_of (rev ?kvs) ''kinds'' = Some (projr (json_Marshal_slice json_Marshal_string (LocationRelationship.Kinds strct)))"
    by (rule written_lookup [OF dist]) (subst rs, intro list.set_intros)
  have l2: "map_of (rev ?kvs) ''properties'' = Some (projr (json_Marshal_bytes ''*sarif.PropertyBag'' (PropertyBag_MarshalJSON scn ord) (LocationRelationship.Properties strct)))"
    by (rule written_lookup [OF dist]) (subst rs, intro list.set_intros)
  have l3: "map_of (rev ?kvs) ''target'' = Some (projr (json_Marshal_int (LocationRelationship.Target strct)))"
    by (rule written_lookup [OF dist]) (subst rs, intro list.set_intros)
  have dec: "LocationRelationship_decodes ord' (map_of (rev ?kvs)) strct"
    unfolding LocationRelationship_decodes_def l0 l1 l2 l3
    by (simp only: field_ok_Some fs written_dom keys subset_refl option.simps simp_thms)
  then have "LocationRelationship_UnmarshalJSON ord' (JObj ?kvs) = Inr strct"
    by (simp only: LocationRelationship_decode_iff)
  with enc show "rt_object (LocationRelationship_MarshalJSON scn ord) (LocationRelationship_UnmarshalJSON ord') strct"
    unfolding rt_object_def by blast
qed

definition LocationRelationship_small_bags :: "LocationRelationship \<Rightarrow> bool" where
  "LocationRelationship_small_bags strct \<longleftrightarrow>
     ptr_all Message_small_bags (LocationRelationship.Description strct) \<and>
     ptr_all PropertyBag_small_bags (LocationRelationship.Properties strct)"

lemma LocationRelationship_same_output:
  "same_output (LocationRelationship_MarshalJSON scn ord) (LocationRelationship_MarshalJSON scn ord') LocationRelationship_small_bags"
  unfolding same_output_def
proof (intro allI impI)
  fix strct assume v: "LocationRelationship_small_bags strct"
  note v' = v [unfolded LocationRelationship_small_bags_def]
  have e0: "json_Marshal_ptr ''*sarif.Message'' (Message_MarshalJSON scn ord) (LocationRelationship.Description strct) =
      json_Marshal_ptr ''*sarif.Message'' (Message_MarshalJSON scn ord') (LocationRelationship.Description strct)"
    by (rule same_outputD [OF same_output_ptr [OF Message_same_output]]) (use v' in simp)
  have e2: "json_Marshal_bytes ''*sarif.PropertyBag'' (PropertyBag_MarshalJSON scn ord) (LocationRelationship.Properties strct) =
      json_Marshal_bytes ''*sarif.PropertyBag'' (PropertyBag_MarshalJSON scn ord') (LocationRelationship.Properties strct)"
    by (rule same_outputD [OF PropertyBag_field_same_output]) (use v' in simp)
  show "LocationRelationship_MarshalJSON scn ord strct = LocationRelationship_MarshalJSON scn ord' strct"
    by (simp only: LocationRelationship_MarshalJSON_def e0 e2)
qed

lemma LocationRelationship_writes_keys: "writes_keys (LocationRelationship_MarshalJSON scn ord) LocationRelationship_keys"
  unfolding writes_keys_def by (intro allI impI) (erule LocationRelationship_keys_written)

lemma LocationRelationship_unknown_key:
  assumes new: "k \<notin> set LocationRelationship_keys" and key: "k \<in> fst ` set kvs"
    and rest: "LocationRelationship_UnmarshalJSON ord (JObj (filter (\<lambda>e. fst e \<noteq> k) kvs)) = Inr strct"
  shows "LocationRelationship_UnmarshalJSON ord (JObj kvs) = Inl (not_allowed k)"
proof -
  have rej: "switch k (LocationRelationship_cases ord v) (reject k) s = Inl (not_allowed k)" for v s
    by (rule switch_rejects) (simp only: LocationRelationship_cases_keys new not_False_eq_True)
  from rest obtain t where
    "range_loop (\<lambda>k v. switch k (LocationRelationship_cases ord v) (reject k)) (members ord (filter (\<lambda>e. fst e \<noteq> k) kvs)) (LocationRelationship_zero, False) = Inr t"
    by (cases "range_loop (\<lambda>k v. switch k (LocationRelationship_cases ord v) (reject k)) (members ord (filter (\<lambda>e. fst e \<noteq> k) kvs)) (LocationRelationship_zero, False)")
       (simp_all add: LocationRelationship_UnmarshalJSON_def members_def)
  from unknown_key_named [OF LocationRelationship_regular rej key this]
  show ?thesis by (simp add: LocationRelationship_UnmarshalJSON_def members_def)
qed

lemma LocationRelationship_unknown_key_fails:
  assumes "k \<notin> set LocationRelationship_keys" and "k \<in> fst ` set kvs"
  shows "isl (LocationRelationship_UnmarshalJSON ord (JObj kvs))"
proof (cases "LocationRelationship_UnmarshalJSON ord (JObj kvs)")
  case (Inr strct)
  then have "dom (map_of (rev kvs)) \<subseteq> set LocationRelationship_keys"
    by (simp only: LocationRelationship_decode_iff LocationRelationship_decodesD(1))
  with assms show ?thesis by (auto simp: dom_map_of_conv_image_fst)
qed simp

lemma LocationRelationship_required_present:
  assumes "LocationRelationship_UnmarshalJSON ord (JObj kvs) = Inr strct"
  shows "''target'' \<in> fst ` set kvs"
proof -
  from assms have d: "LocationRelationship_decodes ord (map_of (rev kvs)) strct" by (simp only: LocationRelationship_decode_iff)
  show "''target'' \<in> fst ` set kvs"
    using LocationRelationship_decodesD(6) [OF d]
    by (simp_all only: present_key)
qed

lemma LocationRelationship_without_Target:
  assumes "LocationRelationship_UnmarshalJSON ord (JObj kvs) = Inr strct"
  shows "LocationRelationship_UnmarshalJSON ord (JObj (filter (\<lambda>e. fst e \<noteq> ''target'') kvs)) =
    Inl (RequiredNotPresent ''target'')"
proof -
  from assms have d: "LocationRelationship_decodes ord (map_of (rev kvs)) strct" by (simp only: LocationRelationship_decode_iff)
  have "\<exists>t. range_loop (\<lambda>k v. switch k (LocationRelationship_cases ord v) (reject k)) (members ord (filter (\<lambda>e. fst e \<noteq> ''target'') kvs))
      (LocationRelationship_zero, False) = Inr t"
  proof (rule loop_succeeds [OF LocationRelationship_regular])
    fix k v assume "(k, v) \<in> set (members ord (filter (\<lambda>e. fst e \<noteq> ''target'') kvs))"
    then have "map_of (rev kvs) k = Some v" by (rule member_lookup_filter)
    from LocationRelationship_accepts [OF d this]
    show "accepting (switch k (LocationRelationship_cases ord v) (reject k))" .
  qed
  then obtain t where "range_loop (\<lambda>k v. switch k (LocationRelationship_cases ord v) (reject k)) (members ord (filter (\<lambda>e. fst e \<noteq> ''target'') kvs))
      (LocationRelationship_zero, False) = Inr t" ..
  then obtain strct' targetReceived where
    loop: "range_loop (\<lambda>k v. switch k (LocationRelationship_cases ord v) (reject k)) (members ord (filter (\<lambda>e. fst e \<noteq> ''target'') kvs))
      (LocationRelationship_zero, False) = Inr (strct', targetReceived)"
    by (cases t) auto
  from LocationRelationship_loop_sound [OF loop] LocationRelationship_decodesD(6) [OF d]
  have "\<not> targetReceived"
    by (simp_all add: lookup_filter)
  with loop show ?thesis
    by (simp add: LocationRelationship_UnmarshalJSON_def members_def)
qed


lemma LocationRelationship_rejects_unknown_keys: "rejects_unknown_keys (LocationRelationship_UnmarshalJSON ord) LocationRelationship_keys"
  by (rule rejects_unknown_keysI) (erule (1) LocationRelationship_unknown_key_fails, erule (2) LocationRelationship_unknown_key)

lemma LocationRelationship_requires_Target: "requires_key (LocationRelationship_UnmarshalJSON ord) ''target''"
  by (rule requires_keyI) (erule LocationRelationship_required_present(1), erule LocationRelationship_without_Target)


subsection \<open>LogicalLocation: decoding and encoding\<close>

definition LogicalLocation_keys :: "string list" where
  "LogicalLocation_keys = [''decoratedName'', ''fullyQualifiedName'', ''index'', ''kind'', ''name'', ''parentIndex'', ''properties'']"

definition LogicalLocation_decodes :: "order \<Rightarrow> (string \<rightharpoonup> json) \<Rightarrow> LogicalLocation \<Rightarrow> bool" where
  "LogicalLocation_decodes ord m strct \<longleftrightarrow>
     dom m \<subseteq> set LogicalLocation_keys \<and>
     field_ok json_Unmarshal_string (m ''decoratedName'') [] (LogicalLocation.DecoratedName strct) \<and>
     field_ok json_Unmarshal_string (m ''fullyQualifiedName'') [] (LogicalLocation.FullyQualifiedName strct) \<and>
     field_ok json_Unmarshal_int (m ''index'') 0 (LogicalLocation.Index strct) \<and>
     field_ok json_Unmarshal_string (m ''kind'') [] (LogicalLocation.Kind strct) \<and>
     field_ok json_Unmarshal_string (m ''name'') [] (LogicalLocation.Name strct) \<and>
     field_ok json_Unmarshal_int (m ''parentIndex'') 0 (LogicalLocation.ParentIndex strct) \<and>
     field_ok (json_Unmarshal_ptr (PropertyBag_UnmarshalJSON ord)) (m ''properties'') None (LogicalLocation.Properties strct)"

lemma LogicalLocation_cases_keys: "fst ` set (LogicalLocation_cases ord v) = set LogicalLocation_keys"
  by (rule keys_image) (simp add: LogicalLocation_cases_def LogicalLocation_keys_def)

lemma LogicalLocation_regular: "regular (\<lambda>k v. switch k (LogicalLocation_cases ord v) (reject k))"
  by (rule regular_switch) (simp add: LogicalLocation_cases_def)

lemma LogicalLocation_fields:
  "field_case (LogicalLocation_cases ord) LogicalLocation.DecoratedName ''decoratedName'' json_Unmarshal_string"
  "field_case (LogicalLocation_cases ord) LogicalLocation.FullyQualifiedName ''fullyQualifiedName'' json_Unmarshal_string"
  "field_case (LogicalLocation_cases ord) LogicalLocation.Index ''index'' json_Unmarshal_int"
  "field_case (LogicalLocation_cases ord) LogicalLocation.Kind ''kind'' json_Unmarshal_string"
  "field_case (LogicalLocation_cases ord) LogicalLocation.Name ''name'' json_Unmarshal_string"
  "field_case (LogicalLocation_cases ord) LogicalLocation.ParentIndex ''parentIndex'' json_Unmarshal_int"
  "field_case (LogicalLocation_cases ord) LogicalLocation.Properties ''properties'' (json_Unmarshal_ptr (PropertyBag_UnmarshalJSON ord))"
  unfolding field_case_def LogicalLocation_cases_def
  by (simp_all add: writes_into writes_received keeps_into split_def)

lemma LogicalLocation_loop_sound:
  assumes loop: "range_loop (\<lambda>k v. switch k (LogicalLocation_cases ord v) (reject k)) (members ord kvs) LogicalLocation_zero = Inr strct"
  shows "dom (map_of (rev kvs)) \<subseteq> set LogicalLocation_keys \<and>
     field_ok json_Unmarshal_string (map_of (rev kvs) ''decoratedName'') [] (LogicalLocation.DecoratedName strct) \<and>
     field_ok json_Unmarshal_string (map_of (rev kvs) ''fullyQualifiedName'') [] (LogicalLocation.FullyQualifiedName strct) \<and>
     field_ok json_Unmarshal_int (map_of (rev kvs) ''index'') 0 (LogicalLocation.Index strct) \<and>
     field_ok json_Unmarshal_string (map_of (rev kvs) ''kind'') [] (LogicalLocation.Kind strct) \<and>
     field_ok json_Unmarshal_string (map_of (rev kvs) ''name'') [] (LogicalLocation.Name strct) \<and>
     field_ok json_Unmarshal_int (map_of (rev kvs) ''parentIndex'') 0 (LogicalLocation.ParentIndex strct) \<and>
     field_ok (json_Unmarshal_ptr (PropertyBag_UnmarshalJSON ord)) (map_of (rev kvs) ''properties'') None (LogicalLocation.Properties strct)"
proof -
  have "fst ` set (members ord kvs) \<subseteq> set LogicalLocation_keys"
    by (rule loop_keys_known [OF loop]) (rule LogicalLocation_cases_keys)
  then have keys: "dom (map_of (rev kvs)) \<subseteq> set LogicalLocation_keys"
    by (simp add: dom_members [of kvs ord])
  note fld = field_after_loop [OF _ members_distinct loop, unfolded map_of_members]
  show ?thesis
    using keys fld [OF LogicalLocation_fields(1)] fld [OF LogicalLocation_fields(2)] fld [OF LogicalLocation_fields(3)] fld [OF LogicalLocation_fields(4)] fld [OF LogicalLocation_fields(5)] fld [OF LogicalLocation_fields(6)] fld [OF LogicalLocation_fields(7)] 
    by (simp only: prod.case LogicalLocation_zero_def LogicalLocation.select_convs simp_thms)
qed

lemma LogicalLocation_decodesD:
  assumes "LogicalLocation_decodes ord m strct"
  shows "dom m \<subseteq> set LogicalLocation_keys"
    and "field_ok json_Unmarshal_string (m ''decoratedName'') [] (LogicalLocation.DecoratedName strct)"
    and "field_ok json_Unmarshal_string (m ''fullyQualifiedName'') [] (LogicalLocation.FullyQualifiedName strct)"
    and "field_ok json_Unmarshal_int (m ''index'') 0 (LogicalLocation.Index strct)"
    and "field_ok json_Unmarshal_string (m ''kind'') [] (LogicalLocation.Kind strct)"
    and "field_ok json_Unmarshal_string (m ''name'') [] (LogicalLocation.Name strct)"
    and "field_ok json_Unmarshal_int (m ''parentIndex'') 0 (LogicalLocation.ParentIndex strct)"
    and "field_ok (json_Unmarshal_ptr (PropertyBag_UnmarshalJSON ord)) (m ''properties'') None (LogicalLocation.Properties strct)"
  using assms unfolding LogicalLocation_decodes_def by - (elim conjE, assumption)+

lemma LogicalLocation_decodes_unique:
  assumes "LogicalLocation_decodes ord m a" and "LogicalLocation_decodes ord m b"
  shows "a = b"
  apply (rule LogicalLocation.equality)
  apply (rule field_ok_unique [OF LogicalLocation_decodesD(2) [OF assms(1)] LogicalLocation_decodesD(2) [OF assms(2)]])
  apply (rule field_ok_unique [OF LogicalLocation_decodesD(3) [OF assms(1)] LogicalLocation_decodesD(3) [OF assms(2)]])
  apply (rule field_ok_unique [OF LogicalLocation_decodesD(4) [OF assms(1)] LogicalLocation_decodesD(4) [OF assms(2)]])
  apply (rule field_ok_unique [OF LogicalLocation_decodesD(5) [OF assms(1)] LogicalLocation_decodesD(5) [OF assms(2)]])
  apply (rule field_ok_unique [OF LogicalLocation_decodesD(6) [OF assms(1)] LogicalLocation_decodesD(6) [OF assms(2)]])
  apply (rule field_ok_unique [OF LogicalLocation_decodesD(7) [OF assms(1)] LogicalLocation_decodesD(7) [OF assms(2)]])
  apply (rule field_ok_unique [OF LogicalLocation_decodesD(8) [OF assms(1)] LogicalLocation_decodesD(8) [OF assms(2)]])
  apply simp
  done

lemma LogicalLocation_accepts:
  assumes "LogicalLocation_decodes ord m strct" and "m k = Some v"
  shows "accepting (switch k (LogicalLocation_cases ord v) (reject k))"
proof -
  from assms have "k \<in> set LogicalLocation_keys" by (auto simp: LogicalLocation_decodes_def)
  then have key: "k \<in> fst ` set (LogicalLocation_cases ord v)"
    by (simp only: LogicalLocation_cases_keys)
  have rows: "list_all (\<lambda>(c, h). m c = Some v \<longrightarrow> accepting h) (LogicalLocation_cases ord v)"
    unfolding LogicalLocation_cases_def list.pred_inject
    apply (rule conjI [OF accept_row [where m = m and v = v, OF LogicalLocation_decodesD(2) [OF assms(1)]]])
    apply (rule conjI [OF accept_row [where m = m and v = v, OF LogicalLocation_decodesD(3) [OF assms(1)]]])
    apply (rule conjI [OF accept_row [where m = m and v = v, OF LogicalLocation_decodesD(4) [OF assms(1)]]])
    apply (rule conjI [OF accept_row [where m = m and v = v, OF LogicalLocation_decodesD(5) [OF assms(1)]]])
    apply (rule conjI [OF accept_row [where m = m and v = v, OF LogicalLocation_decodesD(6) [OF assms(1)]]])
    apply (rule conjI [OF accept_row [where m = m and v = v, OF LogicalLocation_decodesD(7) [OF assms(1)]]])
    apply (rule conjI [OF accept_row [where m = m and v = v, OF LogicalLocation_decodesD(8) [OF assms(1)]]])
    apply simp
    done
  show ?thesis by (rule rows_accept [OF rows assms(2) key])
qed

lemma LogicalLocation_decode_iff:
  "LogicalLocation_UnmarshalJSON ord (JObj kvs) = Inr strct \<longleftrightarrow>
   LogicalLocation_decodes ord (map_of (rev kvs)) strct"
proof
  assume "LogicalLocation_UnmarshalJSON ord (JObj kvs) = Inr strct"
  then have loop: "range_loop (\<lambda>k v. switch k (LogicalLocation_cases ord v) (reject k)) (members ord kvs) LogicalLocation_zero = Inr strct"
    by (auto simp: LogicalLocation_UnmarshalJSON_def members_def split: sum.splits)
  from LogicalLocation_loop_sound [OF loop]
  show "LogicalLocation_decodes ord (map_of (rev kvs)) strct"
    by (simp add: LogicalLocation_decodes_def)
next
  assume d: "LogicalLocation_decodes ord (map_of (rev kvs)) strct"
  have "\<exists>t. range_loop (\<lambda>k v. switch k (LogicalLocation_cases ord v) (reject k)) (members ord kvs) LogicalLocation_zero = Inr t"
  proof (rule loop_succeeds [OF LogicalLocation_regular])
    fix k v assume "(k, v) \<in> set (members ord kvs)"
    then have "map_of (rev kvs) k = Some v" by (rule member_lookup)
    from LogicalLocation_accepts [OF d this]
    show "accepting (switch k (LogicalLocation_cases ord v) (reject k))" .
  qed
  then obtain strct' where
    loop: "range_loop (\<lambda>k v. switch k (LogicalLocation_cases ord v) (reject k)) (members ord kvs) LogicalLocation_zero = Inr strct'" ..
  from LogicalLocation_loop_sound [OF loop]
  have d': "LogicalLocation_decodes ord (map_of (rev kvs)) strct'"
    by (simp add: LogicalLocation_decodes_def)
  from LogicalLocation_decodes_unique [OF d' d] have "strct' = strct" .
  with loop show "LogicalLocation_UnmarshalJSON ord (JObj kvs) = Inr strct"
    by (simp add: LogicalLocation_UnmarshalJSON_def members_def)
qed

definition LogicalLocation_results :: "scanner \<Rightarrow> order \<Rightarrow> LogicalLocation \<Rightarrow> (string \<times> (error + json)) list" where
  "LogicalLocation_results scn ord strct =
     [(''decoratedName'', json_Marshal_string (LogicalLocation.DecoratedName strct)),
      (''fullyQualifiedName'', json_Marshal_string (LogicalLocation.FullyQualifiedName strct)),
      (''index'', json_Marshal_int (LogicalLocation.Index strct)),
      (''kind'', json_Marshal_string (LogicalLocation.Kind strct)),
      (''name'', json_Marshal_string (LogicalLocation.Name strct)),
      (''parentIndex'', json_Marshal_int (LogicalLocation.ParentIndex strct)),
      (''properties'', json_Marshal_bytes ''*sarif.PropertyBag'' (PropertyBag_MarshalJSON scn ord) (LogicalLocation.Properties strct))]"

lemma LogicalLocation_MarshalJSON_results:
  "LogicalLocation_MarshalJSON scn ord strct = object (emit_all (LogicalLocation_results scn ord strct))"
  by (simp add: LogicalLocation_MarshalJSON_def LogicalLocation_results_def emit_nilcheck)

lemma LogicalLocation_keys_written:
  "LogicalLocation_MarshalJSON scn ord strct = Inr j \<Longrightarrow> \<exists>kvs. j = JObj kvs \<and> map fst kvs = LogicalLocation_keys"
  using keys_written [of "LogicalLocation_results scn ord strct" j]
  by (simp add: LogicalLocation_MarshalJSON_results LogicalLocation_results_def LogicalLocation_keys_def)

definition LogicalLocation_encodable :: "scanner \<Rightarrow> order \<Rightarrow> LogicalLocation \<Rightarrow> bool" where
  "LogicalLocation_encodable scn ord strct \<longleftrightarrow>
     ptr_all (PropertyBag_encodable scn ord) (LogicalLocation.Properties strct)"

lemma LogicalLocation_fails_unless: "fails_unless (LogicalLocation_MarshalJSON scn ord) (LogicalLocation_encodable scn ord)"
  unfolding fails_unless_def LogicalLocation_MarshalJSON_results LogicalLocation_results_def LogicalLocation_encodable_def isl_object_emit_all
  by (auto simp add: always_simps
      fails_unlessD [OF fails_unless_string]
      fails_unlessD [OF fails_unless_int]
      fails_unlessD [OF PropertyBag_field_fails_unless])

definition LogicalLocation_valid :: "LogicalLocation \<Rightarrow> bool" where
  "LogicalLocation_valid strct \<longleftrightarrow>
     ptr_all PropertyBag_valid (LogicalLocation.Properties strct)"

lemma LogicalLocation_keys_distinct: "distinct LogicalLocation_keys"
  by (simp add: LogicalLocation_keys_def)

lemma LogicalLocation_round_trips:
  "round_trips_object (LogicalLocation_MarshalJSON scn ord) (LogicalLocation_UnmarshalJSON ord') LogicalLocation_valid"
  unfolding round_trips_object_def
proof (intro allI impI)
  fix strct assume v: "LogicalLocation_valid strct"
  note v' = v [unfolded LogicalLocation_valid_def]
  let ?rs = "LogicalLocation_results scn ord strct"
  let ?kvs = "map (\<lambda>e. (fst e, projr (snd e))) ?rs"
  have f0: "\<not> isl (json_Marshal_string (LogicalLocation.DecoratedName strct)) \<and>
      json_Unmarshal_string (projr (json_Marshal_string (LogicalLocation.DecoratedName strct))) = Inr (LogicalLocation.DecoratedName strct)"
    by (rule round_tripsD [OF round_trips_string]) (use v' in simp)
  have f1: "\<not> isl (json_Marshal_string (LogicalLocation.FullyQualifiedName strct)) \<and>
      json_Unmarshal_string (projr (json_Marshal_string (LogicalLocation.FullyQualifiedName strct))) = Inr (LogicalLocation.FullyQualifiedName strct)"
    by (rule round_tripsD [OF round_trips_string]) (use v' in simp)
  have f2: "\<not> isl (json_Marshal_int (LogicalLocation.Index strct)) \<and>
      json_Unmarshal_int (projr (json_Marshal_int (LogicalLocation.Index strct))) = Inr (LogicalLocation.Index strct)"
    by (rule round_tripsD [OF round_trips_int]) (use v' in simp)
  have f3: "\<not> isl (json_Marshal_string (LogicalLocation.Kind strct)) \<and>
      json_Unmarshal_string (projr (json_Marshal_string (LogicalLocation.Kind strct))) = Inr (LogicalLocation.Kind strct)"
    by (rule round_tripsD [OF round_trips_string]) (use v' in simp)
  have f4: "\<not> isl (json_Marshal_string (LogicalLocation.Name strct)) \<and>
      json_Unmarshal_string (projr (json_Marshal_string (LogicalLocation.Name strct))) = Inr (LogicalLocation.Name strct)"
    by (rule round_tripsD [OF round_trips_string]) (use v' in simp)
  have f5: "\<not> isl (json_Marshal_int (LogicalLocation.ParentIndex strct)) \<and>
      json_Unmarshal_int (projr (json_Marshal_int (LogicalLocation.ParentIndex strct))) = Inr (LogicalLocation.ParentIndex strct)"
    by (rule round_tripsD [OF round_trips_int]) (use v' in simp)
  have f6: "\<not> isl (json_Marshal_bytes ''*sarif.PropertyBag'' (PropertyBag_MarshalJSON scn ord) (LogicalLocation.Properties strct)) \<and>
      json_Unmarshal_ptr (PropertyBag_UnmarshalJSON ord') (projr (json_Marshal_bytes ''*sarif.PropertyBag'' (PropertyBag_MarshalJSON scn ord) (LogicalLocation.Properties strct))) = Inr (LogicalLocation.Properties strct)"
    by (rule round_tripsD [OF PropertyBag_field_round_trips]) (use v' in simp)
  note fs = f0 f1 f2 f3 f4 f5 f6
  have rs: "?rs =
     [(''decoratedName'', json_Marshal_string (LogicalLocation.DecoratedName strct)),
      (''fullyQualifiedName'', json_Marshal_string (LogicalLocation.FullyQualifiedName strct)),
      (''index'', json_Marshal_int (LogicalLocation.Index strct)),
      (''kind'', json_Marshal_string (LogicalLocation.Kind strct)),
      (''name'', json_Marshal_string (LogicalLocation.Name strct)),
      (''parentIndex'', json_Marshal_int (LogicalLocation.ParentIndex strct)),
      (''properties'', json_Marshal_bytes ''*sarif.PropertyBag'' (PropertyBag_MarshalJSON scn ord) (LogicalLocation.Properties strct))]"
    by (auto simp add: LogicalLocation_results_def)
  have keys: "map fst ?rs = LogicalLocation_keys"
    by (simp add: LogicalLocation_results_def LogicalLocation_keys_def)
  then have dist: "distinct (map fst ?rs)"
    by (simp only: LogicalLocation_keys_distinct)
  have ok: "list_all (\<lambda>e. \<not> isl (snd e)) ?rs"
    unfolding rs by (simp only: list.pred_inject snd_conv fs simp_thms)
  then have enc: "LogicalLocation_MarshalJSON scn ord strct = Inr (JObj ?kvs)"
    by (simp add: LogicalLocation_MarshalJSON_results [of scn ord strct] object_emit_all_eq_Inr)
  have l0: "map_of (rev ?kvs) ''decoratedName'' = Some (projr (json_Marshal_string (LogicalLocation.DecoratedName strct)))"
    by (rule written_lookup [OF dist]) (subst rs, intro list.set_intros)
  have l1: "map_of (rev ?kvs) ''fullyQualifiedName'' = Some (projr (json_Marshal_string (LogicalLocation.FullyQualifiedName strct)))"
    by (rule written_lookup [OF dist]) (subst rs, intro list.set_intros)
  have l2: "map_of (rev ?kvs) ''index'' = Some (projr (json_Marshal_int (LogicalLocation.Index strct)))"
    by (rule written_lookup [OF dist]) (subst rs, intro list.set_intros)
  have l3: "map_of (rev ?kvs) ''kind'' = Some (projr (json_Marshal_string (LogicalLocation.Kind strct)))"
    by (rule written_lookup [OF dist]) (subst rs, intro list.set_intros)
  have l4: "map_of (rev ?kvs) ''name'' = Some (projr (json_Marshal_string (LogicalLocation.Name strct)))"
    by (rule written_lookup [OF dist]) (subst rs, intro list.set_intros)
  have l5: "map_of (rev ?kvs) ''parentIndex'' = Some (projr (json_Marshal_int (LogicalLocation.ParentIndex strct)))"
    by (rule written_lookup [OF dist]) (subst rs, intro list.set_intros)
  have l6: "map_of (rev ?kvs) ''properties'' = Some (projr (json_Marshal_bytes ''*sarif.PropertyBag'' (PropertyBag_MarshalJSON scn ord) (LogicalLocation.Properties strct)))"
    by (rule written_lookup [OF dist]) (subst rs, intro list.set_intros)
  have dec: "LogicalLocation_decodes ord' (map_of (rev ?kvs)) strct"
    unfolding LogicalLocation_decodes_def l0 l1 l2 l3 l4 l5 l6
    by (simp only: field_ok_Some fs written_dom keys subset_refl option.simps simp_thms)
  then have "LogicalLocation_UnmarshalJSON ord' (JObj ?kvs) = Inr strct"
    by (simp only: LogicalLocation_decode_iff)
  with enc show "rt_object (LogicalLocation_MarshalJSON scn ord) (LogicalLocation_UnmarshalJSON ord') strct"
    unfolding rt_object_def by blast
qed

definition LogicalLocation_small_bags :: "LogicalLocation \<Rightarrow> bool" where
  "LogicalLocation_small_bags strct \<longleftrightarrow>
     ptr_all PropertyBag_small_bags (LogicalLocation.Properties strct)"

lemma LogicalLocation_same_output:
  "same_output (LogicalLocation_MarshalJSON scn ord) (LogicalLocation_MarshalJSON scn ord') LogicalLocation_small_bags"
  unfolding same_output_def
proof (intro allI impI)
  fix strct assume v: "LogicalLocation_small_bags strct"
  note v' = v [unfolded LogicalLocation_small_bags_def]
  have e6: "json_Marshal_bytes ''*sarif.PropertyBag'' (PropertyBag_MarshalJSON scn ord) (LogicalLocation.Properties strct) =
      json_Marshal_bytes ''*sarif.PropertyBag'' (PropertyBag_MarshalJSON scn ord') (LogicalLocation.Properties strct)"
    by (rule same_outputD [OF PropertyBag_field_same_output]) (use v' in simp)
  show "LogicalLocation_MarshalJSON scn ord strct = LogicalLocation_MarshalJSON scn ord' strct"
    by (simp only: LogicalLocation_MarshalJSON_def e6)
qed

lemma LogicalLocation_writes_keys: "writes_keys (LogicalLocation_MarshalJSON scn ord) LogicalLocation_keys"
  unfolding writes_keys_def by (intro allI impI) (erule LogicalLocation_keys_written)

lemma LogicalLocation_unknown_key:
  assumes new: "k \<notin> set LogicalLocation_keys" and key: "k \<in> fst ` set kvs"
    and rest: "LogicalLocation_UnmarshalJSON ord (JObj (filter (\<lambda>e. fst e \<noteq> k) kvs)) = Inr strct"
  shows "LogicalLocation_UnmarshalJSON ord (JObj kvs) = Inl (not_allowed k)"
proof -
  have rej: "switch k (LogicalLocation_cases ord v) (reject k) s = Inl (not_allowed k)" for v s
    by (rule switch_rejects) (simp only: LogicalLocation_cases_keys new not_False_eq_True)
  from rest obtain t where
    "range_loop (\<lambda>k v. switch k (LogicalLocation_cases ord v) (reject k)) (members ord (filter (\<lambda>e. fst e \<noteq> k) kvs)) LogicalLocation_zero = Inr t"
    by (cases "range_loop (\<lambda>k v. switch k (LogicalLocation_cases ord v) (reject k)) (members ord (filter (\<lambda>e. fst e \<noteq> k) kvs)) LogicalLocation_zero")
       (simp_all add: LogicalLocation_UnmarshalJSON_def members_def)
  from unknown_key_named [OF LogicalLocation_regular rej key this]
  show ?thesis by (simp add: LogicalLocation_UnmarshalJSON_def members_def)
qed

lemma LogicalLocation_unknown_key_fails:
  assumes "k \<notin> set LogicalLocation_keys" and "k \<in> fst ` set kvs"
  shows "isl (LogicalLocation_UnmarshalJSON ord (JObj kvs))"
proof (cases "LogicalLocation_UnmarshalJSON ord (JObj kvs)")
  case (Inr strct)
  then have "dom (map_of (rev kvs)) \<subseteq> set LogicalLocation_keys"
    by (simp only: LogicalLocation_decode_iff LogicalLocation_decodesD(1))
  with assms show ?thesis by (auto simp: dom_map_of_conv_image_fst)
qed simp

lemma LogicalLocation_rejects_unknown_keys: "rejects_unknown_keys (LogicalLocation_UnmarshalJSON ord) LogicalLocation_keys"
  by (rule rejects_unknown_keysI) (erule (1) LogicalLocation_unknown_key_fails, erule (2) LogicalLocation_unknown_key)

subsection \<open>Location: decoding and encoding\<close>

definition Location_keys :: "string list" where
  "Location_keys = [''annotations'', ''id'', ''logicalLocations'', ''message'', ''physicalLocation'', ''properties'', ''relationships'']"

definition Location_decodes :: "order \<Rightarrow> (string \<rightharpoonup> json) \<Rightarrow> Location \<Rightarrow> bool" where
  "Location_decodes ord m strct \<longleftrightarrow>
     dom m \<subseteq> set Location_keys \<and>
     field_ok (json_Unmarshal_slice (json_Unmarshal_ptr (Region_UnmarshalJSON ord))) (m ''annotations'') None (Location.Annotations strct) \<and>
     field_ok json_Unmarshal_int (m ''id'') 0 (Location.Id strct) \<and>
     field_ok (json_Unmarshal_slice (json_Unmarshal_ptr (LogicalLocation_UnmarshalJSON ord))) (m ''logicalLocations'') None (Location.LogicalLocations strct) \<and>
     field_ok (json_Unmarshal_ptr (Message_UnmarshalJSON ord)) (m ''message'') None (Location.Message strct) \<and>
     field_ok (json_Unmarshal_ptr (PhysicalLocation_UnmarshalJSON ord)) (m ''physicalLocation'') None (Location.PhysicalLocation strct) \<and>
     field_ok (json_Unmarshal_ptr (PropertyBag_UnmarshalJSON ord)) (m ''properties'') None (Location.Properties strct) \<and>
     field_ok (json_Unmarshal_slice (json_Unmarshal_ptr (LocationRelationship_UnmarshalJSON ord))) (m ''relationships'') None (Location.Relationships strct)"

lemma Location_cases_keys: "fst ` set (Location_cases ord v) = set Location_keys"
  by (rule keys_image) (simp add: Location_cases_def Location_keys_def)

lemma Location_regular: "regular (\<lambda>k v. switch k (Location_cases ord v) (reject k))"
  by (rule regular_switch) (simp add: Location_cases_def)

lemma Location_fields:
  "field_case (Location_cases ord) Location.Annotations ''annotations'' (json_Unmarshal_slice (json_Unmarshal_ptr (Region_UnmarshalJSON ord)))"
  "field_case (Location_cases ord) Location.Id ''id'' json_Unmarshal_int"
  "field_case (Location_cases ord) Location.LogicalLocations ''logicalLocations'' (json_Unmarshal_slice (json_Unmarshal_ptr (LogicalLocation_UnmarshalJSON ord)))"
  "field_case (Location_cases ord) Location.Message ''message'' (json_Unmarshal_ptr (Message_UnmarshalJSON ord))"
  "field_case (Location_cases ord) Location.PhysicalLocation ''physicalLocation'' (json_Unmarshal_ptr (PhysicalLocation_UnmarshalJSON ord))"
  "field_case (Location_cases ord) Location.Properties ''properties'' (json_Unmarshal_ptr (PropertyBag_UnmarshalJSON ord))"
  "field_case (Location_cases ord) Location.Relationships ''relationships'' (json_Unmarshal_slice (json_Unmarshal_ptr (LocationRelationship_UnmarshalJSON ord)))"
  unfolding field_case_def Location_cases_def
  by (simp_all add: writes_into writes_received keeps_into split_def)

lemma Location_loop_sound:
  assumes loop: "range_loop (\<lambda>k v. switch k (Location_cases ord v) (reject k)) (members ord kvs) Location_zero = Inr strct"
  shows "dom (map_of (rev kvs)) \<subseteq> set Location_keys \<and>
     field_ok (json_Unmarshal_slice (json_Unmarshal_ptr (Region_UnmarshalJSON ord))) (map_of (rev kvs) ''annotations'') None (Location.Annotations strct) \<and>
     field_ok json_Unmarshal_int (map_of (rev kvs) ''id'') 0 (Location.Id strct) \<and>
     field_ok (json_Unmarshal_slice (json_Unmarshal_ptr (LogicalLocation_UnmarshalJSON ord))) (map_of (rev kvs) ''logicalLocations'') None (Location.LogicalLocations strct) \<and>
     field_ok (json_Unmarshal_ptr (Message_UnmarshalJSON ord)) (map_of (rev kvs) ''message'') None (Location.Message strct) \<and>
     field_ok (json_Unmarshal_ptr (PhysicalLocation_UnmarshalJSON ord)) (map_of (rev kvs) ''physicalLocation'') None (Location.PhysicalLocation strct) \<and>
     field_ok (json_Unmarshal_ptr (PropertyBag_UnmarshalJSON ord)) (map_of (rev kvs) ''properties'') None (Location.Properties strct) \<and>
     field_ok (json_Unmarshal_slice (json_Unmarshal_ptr (LocationRelationship_UnmarshalJSON ord))) (map_of (rev kvs) ''relationships'') None (Location.Relationships strct)"
proof -
  have "fst ` set (members ord kvs) \<subseteq> set Location_keys"
    by (rule loop_keys_known [OF loop]) (rule Location_cases_keys)
  then have keys: "dom (map_of (rev kvs)) \<subseteq> set Location_keys"
    by (simp add: dom_members [of kvs ord])
  note fld = field_after_loop [OF _ members_distinct loop, unfolded map_of_members]
  show ?thesis
    using keys fld [OF Location_fields(1)] fld [OF Location_fields(2)] fld [OF Location_fields(3)] fld [OF Location_fields(4)] fld [OF Location_fields(5)] fld [OF Location_fields(6)] fld [OF Location_fields(7)] 
    by (simp only: prod.case Location_zero_def Location.select_convs simp_thms)
qed

lemma Location_decodesD:
  assumes "Location_decodes ord m strct"
  shows "dom m \<subseteq> set Location_keys"
    and "field_ok (json_Unmarshal_slice (json_Unmarshal_ptr (Region_UnmarshalJSON ord))) (m ''annotations'') None (Location.Annotations strct)"
    and "field_ok json_Unmarshal_int (m ''id'') 0 (Location.Id strct)"
    and "field_ok (json_Unmarshal_slice (json_Unmarshal_ptr (LogicalLocation_UnmarshalJSON ord))) (m ''logicalLocations'') None (Location.LogicalLocations strct)"
    and "field_ok (json_Unmarshal_ptr (Message_UnmarshalJSON ord)) (m ''message'') None (Location.Message strct)"
    and "field_ok (json_Unmarshal_ptr (PhysicalLocation_UnmarshalJSON ord)) (m ''physicalLocation'') None (Location.PhysicalLocation strct)"
    and "field_ok (json_Unmarshal_ptr (PropertyBag_UnmarshalJSON ord)) (m ''properties'') None (Location.Properties strct)"
    and "field_ok (json_Unmarshal_slice (json_Unmarshal_ptr (LocationRelationship_UnmarshalJSON ord))) (m ''relationships'') None (Location.Relationships strct)"
  using assms unfolding Location_decodes_def by - (elim conjE, assumption)+

lemma Location_decodes_unique:
  assumes "Location_decodes ord m a" and "Location_decodes ord m b"
  shows "a = b"
  apply (rule Location.equality)
  apply (rule field_ok_unique [OF Location_decodesD(2) [OF assms(1)] Location_decodesD(2) [OF assms(2)]])
  apply (rule field_ok_unique [OF Location_decodesD(3) [OF assms(1)] Location_decodesD(3) [OF assms(2)]])
  apply (rule field_ok_unique [OF Location_decodesD(4) [OF assms(1)] Location_decodesD(4) [OF assms(2)]])
  apply (rule field_ok_unique [OF Location_decodesD(5) [OF assms(1)] Location_decodesD(5) [OF assms(2)]])
  apply (rule field_ok_unique [OF Location_decodesD(6) [OF assms(1)] Location_decodesD(6) [OF assms(2)]])
  apply (rule field_ok_unique [OF Location_decodesD(7) [OF assms(1)] Location_decodesD(7) [OF assms(2)]])
  apply (rule field_ok_unique [OF Location_decodesD(8) [OF assms(1)] Location_decodesD(8) [OF assms(2)]])
  apply simp
  done

lemma Location_accepts:
  assumes "Location_decodes ord m strct" and "m k = Some v"
  shows "accepting (switch k (Location_cases ord v) (reject k))"
proof -
  from assms have "k \<in> set Location_keys" by (auto simp: Location_decodes_def)
  then have key: "k \<in> fst ` set (Location_cases ord v)"
    by (simp only: Location_cases_keys)
  have rows: "list_all (\<lambda>(c, h). m c = Some v \<longrightarrow> accepting h) (Location_cases ord v)"
    unfolding Location_cases_def list.pred_inject
    apply (rule conjI [OF accept_row [where m = m and v = v, OF Location_decodesD(2) [OF assms(1)]]])
    apply (rule conjI [OF accept_row [where m = m and v = v, OF Location_decodesD(3) [OF assms(1)]]])
    apply (rule conjI [OF accept_row [where m = m and v = v, OF Location_decodesD(4) [OF assms(1)]]])
    apply (rule conjI [OF accept_row [where m = m and v = v, OF Location_decodesD(5) [OF assms(1)]]])
    apply (rule conjI [OF accept_row [where m = m and v = v, OF Location_decodesD(6) [OF assms(1)]]])
    apply (rule conjI [OF accept_row [where m = m and v = v, OF Location_decodesD(7) [OF assms(1)]]])
    apply (rule conjI [OF accept_row [where m = m and v = v, OF Location_decodesD(8) [OF assms(1)]]])
    apply simp
    done
  show ?thesis by (rule rows_accept [OF rows assms(2) key])
qed

lemma Location_decode_iff:
  "Location_UnmarshalJSON ord (JObj kvs) = Inr strct \<longleftrightarrow>
   Location_decodes ord (map_of (rev kvs)) strct"
proof
  assume "Location_UnmarshalJSON ord (JObj kvs) = Inr strct"
  then have loop: "range_loop (\<lambda>k v. switch k (Location_cases ord v) (reject k)) (members ord kvs) Location_zero = Inr strct"
    by (auto simp: Location_UnmarshalJSON_def members_def split: sum.splits)
  from Location_loop_sound [OF loop]
  show "Location_decodes ord (map_of (rev kvs)) strct"
    by (simp add: Location_decodes_def)
next
  assume d: "Location_decodes ord (map_of (rev kvs)) strct"
  have "\<exists>t. range_loop (\<lambda>k v. switch k (Location_cases ord v) (reject k)) (members ord kvs) Location_zero = Inr t"
  proof (rule loop_succeeds [OF Location_regular])
    fix k v assume "(k, v) \<in> set (members ord kvs)"
    then have "map_of (rev kvs) k = Some v" by (rule member_lookup)
    from Location_accepts [OF d this]
    show "accepting (switch k (Location_cases ord v) (reject k))" .
  qed
  then obtain strct' where
    loop: "range_loop (\<lambda>k v. switch k (Location_cases ord v) (reject k)) (members ord kvs) Location_zero = Inr strct'" ..
  from Location_loop_sound [OF loop]
  have d': "Location_decodes ord (map_of (rev kvs)) strct'"
    by (simp add: Location_decodes_def)
  from Location_decodes_unique [OF d' d] have "strct' = strct" .
  with loop show "Location_UnmarshalJSON ord (JObj kvs) = Inr strct"
    by (simp add: Location_UnmarshalJSON_def members_def)
qed

definition Location_results :: "scanner \<Rightarrow> order \<Rightarrow> Location \<Rightarrow> (string \<times> (error + json)) list" where
  "Location_results scn ord strct =
     [(''annotations'', json_Marshal_slice (json_Marshal_ptr ''*sarif.Region'' (Region_MarshalJSON scn ord)) (Location.Annotations strct)),
      (''id'', json_Marshal_int (Location.Id strct)),
      (''logicalLocations'', json_Marshal_slice (json_Marshal_ptr ''*sarif.LogicalLocation'' (LogicalLocation_MarshalJSON scn ord)) (Location.LogicalLocations strct)),
      (''message'', json_Marshal_ptr ''*sarif.Message'' (Message_MarshalJSON scn ord) (Location.Message strct)),
      (''physicalLocation'', json_Marshal_ptr ''*sarif.PhysicalLocation'' (PhysicalLocation_MarshalJSON scn ord) (Location.PhysicalLocation strct)),
      (''properties'', json_Marshal_bytes ''*sarif.PropertyBag'' (PropertyBag_MarshalJSON scn ord) (Location.Properties strct)),
      (''relationships'', json_Marshal_slice (json_Marshal_ptr ''*sarif.LocationRelationship'' (LocationRelationship_MarshalJSON scn ord)) (Location.Relationships strct))]"

lemma Location_MarshalJSON_results:
  "Location_MarshalJSON scn ord strct = object (emit_all (Location_results scn ord strct))"
  by (simp add: Location_MarshalJSON_def Location_results_def emit_nilcheck)

lemma Location_keys_written:
  "Location_MarshalJSON scn ord strct = Inr j \<Longrightarrow> \<exists>kvs. j = JObj kvs \<and> map fst kvs = Location_keys"
  using keys_written [of "Location_results scn ord strct" j]
  by (simp add: Location_MarshalJSON_results Location_results_def Location_keys_def)

definition Location_encodable :: "scanner \<Rightarrow> order \<Rightarrow> Location \<Rightarrow> bool" where
  "Location_encodable scn ord strct \<longleftrightarrow>
     slice_all (ptr_all (Region_encodable scn ord)) (Location.Annotations strct) \<and>
     slice_all (ptr_all (LogicalLocation_encodable scn ord)) (Location.LogicalLocations strct) \<and>
     ptr_all (Message_encodable scn ord) (Location.Message strct) \<and>
     ptr_all (PhysicalLocation_encodable scn ord) (Location.PhysicalLocation strct) \<and>
     ptr_all (PropertyBag_encodable scn ord) (Location.Properties strct) \<and>
     slice_all (ptr_all (LocationRelationship_encodable scn ord)) (Location.Relationships strct)"

lemma Location_fails_unless: "fails_unless (Location_MarshalJSON scn ord) (Location_encodable scn ord)"
  unfolding fails_unless_def Location_MarshalJSON_results Location_results_def Location_encodable_def isl_object_emit_all
  by (auto simp add: always_simps
      fails_unlessD [OF fails_unless_slice [OF fails_unless_ptr [OF Region_fails_unless]]]
      fails_unlessD [OF fails_unless_int]
      fails_unlessD [OF fails_unless_slice [OF fails_unless_ptr [OF LogicalLocation_fails_unless]]]
      fails_unlessD [OF fails_unless_ptr [OF Message_fails_unless]]
      fails_unlessD [OF fails_unless_ptr [OF PhysicalLocation_fails_unless]]
      fails_unlessD [OF PropertyBag_field_fails_unless]
      fails_unlessD [OF fails_unless_slice [OF fails_unless_ptr [OF LocationRelationship_fails_unless]]])

definition Location_valid :: "Location \<Rightarrow> bool" where
  "Location_valid strct \<longleftrightarrow>
     slice_all (ptr_all Region_valid) (Location.Annotations strct) \<and>
     slice_all (ptr_all LogicalLocation_valid) (Location.LogicalLocations strct) \<and>
     ptr_all Message_valid (Location.Message strct) \<and>
     ptr_all PhysicalLocation_valid (Location.PhysicalLocation strct) \<and>
     ptr_all PropertyBag_valid (Location.Properties strct) \<and>
     slice_all (ptr_all LocationRelationship_valid) (Location.Relationships strct)"

lemma Location_keys_distinct: "distinct Location_keys"
  by (simp add: Location_keys_def)

lemma Location_round_trips:
  "round_trips_object (Location_MarshalJSON scn ord) (Location_UnmarshalJSON ord') Location_valid"
  unfolding round_trips_object_def
proof (intro allI impI)
  fix strct assume v: "Location_valid strct"
  note v' = v [unfolded Location_valid_def]
  let ?rs = "Location_results scn ord strct"
  let ?kvs = "map (\<lambda>e. (fst e, projr (snd e))) ?rs"
  have f0: "\<not> isl (json_Marshal_slice (json_Marshal_ptr ''*sarif.Region'' (Region_MarshalJSON scn ord)) (Location.Annotations strct)) \<and>
      json_Unmarshal_slice (json_Unmarshal_ptr (Region_UnmarshalJSON ord')) (projr (json_Marshal_slice (json_Marshal_ptr ''*sarif.Region'' (Region_MarshalJSON scn ord)) (Location.Annotations strct))) = Inr (Location.Annotations strct)"
    by (rule round_tripsD [OF round_trips_slice [OF round_trips_ptr [OF Region_round_trips]]]) (use v' in simp)
  have f1: "\<not> isl (json_Marshal_int (Location.Id strct)) \<and>
      json_Unmarshal_int (projr (json_Marshal_int (Location.Id strct))) = Inr (Location.Id strct)"
    by (rule round_tripsD [OF round_trips_int]) (use v' in simp)
  have f2: "\<not> isl (json_Marshal_slice (json_Marshal_ptr ''*sarif.LogicalLocation'' (LogicalLocation_MarshalJSON scn ord)) (Location.LogicalLocations strct)) \<and>
      json_Unmarshal_slice (json_Unmarshal_ptr (LogicalLocation_UnmarshalJSON ord')) (projr (json_Marshal_slice (json_Marshal_ptr ''*sarif.LogicalLocation'' (LogicalLocation_MarshalJSON scn ord)) (Location.LogicalLocations strct))) = Inr (Location.LogicalLocations strct)"
    by (rule round_tripsD [OF round_trips_slice [OF round_trips_ptr [OF LogicalLocation_round_trips]]]) (use v' in simp)
  have f3: "\<not> isl (json_Marshal_ptr ''*sarif.Message'' (Message_MarshalJSON scn ord) (Location.Message strct)) \<and>
      json_Unmarshal_ptr (Message_UnmarshalJSON ord') (projr (json_Marshal_ptr ''*sarif.Message'' (Message_MarshalJSON scn ord) (Location.Message strct))) = Inr (Location.Message strct)"
    by (rule round_tripsD [OF round_trips_ptr [OF Message_round_trips]]) (use v' in simp)
  have f4: "\<not> isl (json_Marshal_ptr ''*sarif.PhysicalLocation'' (PhysicalLocation_MarshalJSON scn ord) (Location.PhysicalLocation strct)) \<and>
      json_Unmarshal_ptr (PhysicalLocation_UnmarshalJSON ord') (projr (json_Marshal_ptr ''*sarif.PhysicalLocation'' (PhysicalLocation_MarshalJSON scn ord) (Location.PhysicalLocation strct))) = Inr (Location.PhysicalLocation strct)"
    by (rule round_tripsD [OF round_trips_ptr [OF PhysicalLocation_round_trips]]) (use v' in simp)
  have f5: "\<not> isl (json_Marshal_bytes ''*sarif.PropertyBag'' (PropertyBag_MarshalJSON scn ord) (Location.Properties strct)) \<and>
      json_Unmarshal_ptr (PropertyBag_UnmarshalJSON ord') (projr (json_Marshal_bytes ''*sarif.PropertyBag'' (PropertyBag_MarshalJSON scn ord) (Location.Properties strct))) = Inr (Location.Properties strct)"
    by (rule round_tripsD [OF PropertyBag_field_round_trips]) (use v' in simp)
  have f6: "\<not> isl (json_Marshal_slice (json_Marshal_ptr ''*sarif.LocationRelationship'' (LocationRelationship_MarshalJSON scn ord)) (Location.Relationships strct)) \<and>
      json_Unmarshal_slice (json_Unmarshal_ptr (LocationRelationship_UnmarshalJSON ord')) (projr (json_Marshal_slice (json_Marshal_ptr ''*sarif.LocationRelationship'' (LocationRelationship_MarshalJSON scn ord)) (Location.Relationships strct))) = Inr (Location.Relationships strct)"
    by (rule round_tripsD [OF round_trips_slice [OF round_trips_ptr [OF LocationRelationship_round_trips]]]) (use v' in simp)
  note fs = f0 f1 f2 f3 f4 f5 f6
  have rs: "?rs =
     [(''annotations'', json_Marshal_slice (json_Marshal_ptr ''*sarif.Region'' (Region_MarshalJSON scn ord)) (Location.Annotations strct)),
      (''id'', json_Marshal_int (Location.Id strct)),
      (''logicalLocations'', json_Marshal_slice (json_Marshal_ptr ''*sarif.LogicalLocation'' (LogicalLocation_MarshalJSON scn ord)) (Location.LogicalLocations strct)),
      (''message'', json_Marshal_ptr ''*sarif.Message'' (Message_MarshalJSON scn ord) (Location.Message strct)),
      (''physicalLocation'', json_Marshal_ptr ''*sarif.PhysicalLocation'' (PhysicalLocation_MarshalJSON scn ord) (Location.PhysicalLocation strct)),
      (''properties'', json_Marshal_bytes ''*sarif.PropertyBag'' (PropertyBag_MarshalJSON scn ord) (Location.Properties strct)),
      (''relationships'', json_Marshal_slice (json_Marshal_ptr ''*sarif.LocationRelationship'' (LocationRelationship_MarshalJSON scn ord)) (Location.Relationships strct))]"
    by (auto simp add: Location_results_def)
  have keys: "map fst ?rs = Location_keys"
    by (simp add: Location_results_def Location_keys_def)
  then have dist: "distinct (map fst ?rs)"
    by (simp only: Location_keys_distinct)
  have ok: "list_all (\<lambda>e. \<not> isl (snd e)) ?rs"
    unfolding rs by (simp only: list.pred_inject snd_conv fs simp_thms)
  then have enc: "Location_MarshalJSON scn ord strct = Inr (JObj ?kvs)"
    by (simp add: Location_MarshalJSON_results [of scn ord strct] object_emit_all_eq_Inr)
  have l0: "map_of (rev ?kvs) ''annotations'' = Some (projr (json_Marshal_slice (json_Marshal_ptr ''*sarif.Region'' (Region_MarshalJSON scn ord)) (Location.Annotations strct)))"
    by (rule written_lookup [OF dist]) (subst rs, intro list.set_intros)
  have l1: "map_of (rev ?kvs) ''id'' = Some (projr (json_Marshal_int (Location.Id strct)))"
    by (rule written_lookup [OF dist]) (subst rs, intro list.set_intros)
  have l2: "map_of (rev ?kvs) ''logicalLocations'' = Some (projr (json_Marshal_slice (json_Marshal_ptr ''*sarif.LogicalLocation'' (LogicalLocation_MarshalJSON scn ord)) (Location.LogicalLocations strct)))"
    by (rule written_lookup [OF dist]) (subst rs, intro list.set_intros)
  have l3: "map_of (rev ?kvs) ''message'' = Some (projr (json_Marshal_ptr ''*sarif.Message'' (Message_MarshalJSON scn ord) (Location.Message strct)))"
    by (rule written_lookup [OF dist]) (subst rs, intro list.set_intros)
  have l4: "map_of (rev ?kvs) ''physicalLocation'' = Some (projr (json_Marshal_ptr ''*sarif.PhysicalLocation'' (PhysicalLocation_MarshalJSON scn ord) (Location.PhysicalLocation strct)))"
    by (rule written_lookup [OF dist]) (subst rs, intro list.set_intros)
  have l5: "map_of (rev ?kvs) ''properties'' = Some (projr (json_Marshal_bytes ''*sarif.PropertyBag'' (PropertyBag_MarshalJSON scn ord) (Location.Properties strct)))"
    by (rule written_lookup [OF dist]) (subst rs, intro list.set_intros)
  have l6: "map_of (rev ?kvs) ''relationships'' = Some (projr (json_Marshal_slice (json_Marshal_ptr ''*sarif.LocationRelationship'' (LocationRelationship_MarshalJSON scn ord)) (Location.Relationships strct)))"
    by (rule written_lookup [OF dist]) (subst rs, intro list.set_intros)
  have dec: "Location_decodes ord' (map_of (rev ?kvs)) strct"
    unfolding Location_decodes_def l0 l1 l2 l3 l4 l5 l6
    by (simp only: field_ok_Some fs written_dom keys subset_refl option.simps simp_thms)
  then have "Location_UnmarshalJSON ord' (JObj ?kvs) = Inr strct"
    by (simp only: Location_decode_iff)
  with enc show "rt_object (Location_MarshalJSON scn ord) (Location_UnmarshalJSON ord') strct"
    unfolding rt_object_def by blast
qed

definition Location_small_bags :: "Location \<Rightarrow> bool" where
  "Location_small_bags strct \<longleftrightarrow>
     slice_all (ptr_all Region_small_bags) (Location.Annotations strct) \<and>
     slice_all (ptr_all LogicalLocation_small_bags) (Location.LogicalLocations strct) \<and>
     ptr_all Message_small_bags (Location.Message strct) \<and>
     ptr_all PhysicalLocation_small_bags (Location.PhysicalLocation strct) \<and>
     ptr_all PropertyBag_small_bags (Location.Properties strct) \<and>
     slice_all (ptr_all LocationRelationship_small_bags) (Location.Relationships strct)"

lemma Location_same_output:
  "same_output (Location_MarshalJSON scn ord) (Location_MarshalJSON scn ord') Location_small_bags"
  unfolding same_output_def
proof (intro allI impI)
  fix strct assume v: "Location_small_bags strct"
  note v' = v [unfolded Location_small_bags_def]
  have e0: "json_Marshal_slice (json_Marshal_ptr ''*sarif.Region'' (Region_MarshalJSON scn ord)) (Location.Annotations strct) =
      json_Marshal_slice (json_Marshal_ptr ''*sarif.Region'' (Region_MarshalJSON scn ord')) (Location.Annotations strct)"
    by (rule same_outputD [OF same_output_slice [OF same_output_ptr [OF Region_same_output]]]) (use v' in simp)
  have e2: "json_Marshal_slice (json_Marshal_ptr ''*sarif.LogicalLocation'' (LogicalLocation_MarshalJSON scn ord)) (Location.LogicalLocations strct) =
      json_Marshal_slice (json_Marshal_ptr ''*sarif.LogicalLocation'' (LogicalLocation_MarshalJSON scn ord')) (Location.LogicalLocations strct)"
    by (rule same_outputD [OF same_output_slice [OF same_output_ptr [OF LogicalLocation_same_output]]]) (use v' in simp)
  have e3: "json_Marshal_ptr ''*sarif.Message'' (Message_MarshalJSON scn ord) (Location.Message strct) =
      json_Marshal_ptr ''*sarif.Message'' (Message_MarshalJSON scn ord') (Location.Message strct)"
    by (rule same_outputD [OF same_output_ptr [OF Message_same_output]]) (use v' in simp)
  have e4: "json_Marshal_ptr ''*sarif.PhysicalLocation'' (PhysicalLocation_MarshalJSON scn ord) (Location.PhysicalLocation strct) =
      json_Marshal_ptr ''*sarif.PhysicalLocation'' (PhysicalLocation_MarshalJSON scn ord') (Location.PhysicalLocation strct)"
    by (rule same_outputD [OF same_output_ptr [OF PhysicalLocation_same_output]]) (use v' in simp)
  have e5: "json_Marshal_bytes ''*sarif.PropertyBag'' (PropertyBag_MarshalJSON scn ord) (Location.Properties strct) =
      json_Marshal_bytes ''*sarif.PropertyBag'' (PropertyBag_MarshalJSON scn ord') (Location.Properties strct)"
    by (rule same_outputD [OF PropertyBag_field_same_output]) (use v' in simp)
  have e6: "json_Marshal_slice (json_Marshal_ptr ''*sarif.LocationRelationship'' (LocationRelationship_MarshalJSON scn ord)) (Location.Relationships strct) =
      json_Marshal_slice (json_Marshal_ptr ''*sarif.LocationRelationship'' (LocationRelationship_MarshalJSON scn ord')) (Location.Relationships strct)"
    by (rule same_outputD [OF same_output_slice [OF same_output_ptr [OF LocationRelationship_same_output]]]) (use v' in simp)
  show "Location_MarshalJSON scn ord strct = Location_MarshalJSON scn ord' strct"
    by (simp only: Location_MarshalJSON_def e0 e2 e3 e4 e5 e6)
qed

lemma Location_writes_keys: "writes_keys (Location_MarshalJSON scn ord) Location_keys"
  unfolding writes_keys_def by (intro allI impI) (erule Location_keys_written)

lemma Location_unknown_key:
  assumes new: "k \<notin> set Location_keys" and key: "k \<in> fst ` set kvs"
    and rest: "Location_UnmarshalJSON ord (JObj (filter (\<lambda>e. fst e \<noteq> k) kvs)) = Inr strct"
  shows "Location_UnmarshalJSON ord (JObj kvs) = Inl (not_allowed k)"
proof -
  have rej: "switch k (Location_cases ord v) (reject k) s = Inl (not_allowed k)" for v s
    by (rule switch_rejects) (simp only: Location_cases_keys new not_False_eq_True)
  from rest obtain t where
    "range_loop (\<lambda>k v. switch k (Location_cases ord v) (reject k)) (members ord (filter (\<lambda>e. fst e \<noteq> k) kvs)) Location_zero = Inr t"
    by (cases "range_loop (\<lambda>k v. switch k (Location_cases ord v) (reject k)) (members ord (filter (\<lambda>e. fst e \<noteq> k) kvs)) Location_zero")
       (simp_all add: Location_UnmarshalJSON_def members_def)
  from unknown_key_named [OF Location_regular rej key this]
  show ?thesis by (simp add: Location_UnmarshalJSON_def members_def)
qed

lemma Location_unknown_key_fails:
  assumes "k \<notin> set Location_keys" and "k \<in> fst ` set kvs"
  shows "isl (Location_UnmarshalJSON ord (JObj kvs))"
proof (cases "Location_UnmarshalJSON ord (JObj kvs)")
  case (Inr strct)
  then have "dom (map_of (rev kvs)) \<subseteq> set Location_keys"
    by (simp only: Location_decode_iff Location_decodesD(1))
  with assms show ?thesis by (auto simp: dom_map_of_conv_image_fst)
qed simp

lemma Location_rejects_unknown_keys: "rejects_unknown_keys (Location_UnmarshalJSON ord) Location_keys"
  by (rule rejects_unknown_keysI) (erule (1) Location_unknown_key_fails, erule (2) Location_unknown_key)

subsection \<open>StackFrame: decoding and encoding\<close>

definition StackFrame_keys :: "string list" where
  "StackFrame_keys = [''location'', ''module'', ''parameters'', ''properties'', ''threadId'']"

definition StackFrame_decodes :: "order \<Rightarrow> (string \<rightharpoonup> json) \<Rightarrow> StackFrame \<Rightarrow> bool" where
  "StackFrame_decodes ord m strct \<longleftrightarrow>
     dom m \<subseteq> set StackFrame_keys \<and>
     field_ok (json_Unmarshal_ptr (Location_UnmarshalJSON ord)) (m ''location'') None (StackFrame.Location strct) \<and>
     field_ok json_Unmarshal_string (m ''module'') [] (StackFrame.Module strct) \<and>
     field_ok (json_Unmarshal_slice json_Unmarshal_string) (m ''parameters'') None (StackFrame.Parameters strct) \<and>
     field_ok (json_Unmarshal_ptr (PropertyBag_UnmarshalJSON ord)) (m ''properties'') None (StackFrame.Properties strct) \<and>
     field_ok json_Unmarshal_int (m ''threadId'') 0 (StackFrame.ThreadId strct)"

lemma StackFrame_cases_keys: "fst ` set (StackFrame_cases ord v) = set StackFrame_keys"
  by (rule keys_image) (simp add: StackFrame_cases_def StackFrame_keys_def)

lemma StackFrame_regular: "regular (\<lambda>k v. switch k (StackFrame_cases ord v) (reject k))"
  by (rule regular_switch) (simp add: StackFrame_cases_def)

lemma StackFrame_fields:
  "field_case (StackFrame_cases ord) StackFrame.Location ''location'' (json_Unmarshal_ptr (Location_UnmarshalJSON ord))"
  "field_case (StackFrame_cases ord) StackFrame.Module ''module'' json_Unmarshal_string"
  "field_case (StackFrame_cases ord) StackFrame.Parameters ''parameters'' (json_Unmarshal_slice json_Unmarshal_string)"
  "field_case (StackFrame_cases ord) StackFrame.Properties ''properties'' (json_Unmarshal_ptr (PropertyBag_UnmarshalJSON ord))"
  "field_case (StackFrame_cases ord) StackFrame.ThreadId ''threadId'' json_Unmarshal_int"
  unfolding field_case_def StackFrame_cases_def
  by (simp_all add: writes_into writes_received keeps_into split_def)

lemma StackFrame_loop_sound:
  assumes loop: "range_loop (\<lambda>k v. switch k (StackFrame_cases ord v) (reject k)) (members ord kvs) StackFrame_zero = Inr strct"
  shows "dom (map_of (rev kvs)) \<subseteq> set StackFrame_keys \<and>
     field_ok (json_Unmarshal_ptr (Location_UnmarshalJSON ord)) (map_of (rev kvs) ''location'') None (StackFrame.Location strct) \<and>
     field_ok json_Unmarshal_string (map_of (rev kvs) ''module'') [] (StackFrame.Module strct) \<and>
     field_ok (json_Unmarshal_slice json_Unmarshal_string) (map_of (rev kvs) ''parameters'') None (StackFrame.Parameters strct) \<and>
     field_ok (json_Unmarshal_ptr (PropertyBag_UnmarshalJSON ord)) (map_of (rev kvs) ''properties'') None (StackFrame.Properties strct) \<and>
     field_ok json_Unmarshal_int (map_of (rev kvs) ''threadId'') 0 (StackFrame.ThreadId strct)"
proof -
  have "fst ` set (members ord kvs) \<subseteq> set StackFrame_keys"
    by (rule loop_keys_known [OF loop]) (rule StackFrame_cases_keys)
  then have keys: "dom (map_of (rev kvs)) \<subseteq> set StackFrame_keys"
    by (simp add: dom_members [of kvs ord])
  note fld = field_after_loop [OF _ members_distinct loop, unfolded map_of_members]
  show ?thesis
    using keys fld [OF StackFrame_fields(1)] fld [OF StackFrame_fields(2)] fld [OF StackFrame_fields(3)] fld [OF StackFrame_fields(4)] fld [OF StackFrame_fields(5)] 
    by (simp only: prod.case StackFrame_zero_def StackFrame.select_convs simp_thms)
qed

lemma StackFrame_decodesD:
  assumes "StackFrame_decodes ord m strct"
  shows "dom m \<subseteq> set StackFrame_keys"
    and "field_ok (json_Unmarshal_ptr (Location_UnmarshalJSON ord)) (m ''location'') None (StackFrame.Location strct)"
    and "field_ok json_Unmarshal_string (m ''module'') [] (StackFrame.Module strct)"
    and "field_ok (json_Unmarshal_slice json_Unmarshal_string) (m ''parameters'') None (StackFrame.Parameters strct)"
    and "field_ok (json_Unmarshal_ptr (PropertyBag_UnmarshalJSON ord)) (m ''properties'') None (StackFrame.Properties strct)"
    and "field_ok json_Unmarshal_int (m ''threadId'') 0 (StackFrame.ThreadId strct)"
  using assms unfolding StackFrame_decodes_def by - (elim conjE, assumption)+

lemma StackFrame_decodes_unique:
  assumes "StackFrame_decodes ord m a" and "StackFrame_decodes ord m b"
  shows "a = b"
  apply (rule StackFrame.equality)
  apply (rule field_ok_unique [OF StackFrame_decodesD(2) [OF assms(1)] StackFrame_decodesD(2) [OF assms(2)]])
  apply (rule field_ok_unique [OF StackFrame_decodesD(3) [OF assms(1)] StackFrame_decodesD(3) [OF assms(2)]])
  apply (rule field_ok_unique [OF StackFrame_decodesD(4) [OF assms(1)] StackFrame_decodesD(4) [OF assms(2)]])
  apply (rule field_ok_unique [OF StackFrame_decodesD(5) [OF assms(1)] StackFrame_decodesD(5) [OF assms(2)]])
  apply (rule field_ok_unique [OF StackFrame_decodesD(6) [OF assms(1)] StackFrame_decodesD(6) [OF assms(2)]])
  apply simp
  done

lemma StackFrame_accepts:
  assumes "StackFrame_decodes ord m strct" and "m k = Some v"
  shows "accepting (switch k (StackFrame_cases ord v) (reject k))"
proof -
  from assms have "k \<in> set StackFrame_keys" by (auto simp: StackFrame_decodes_def)
  then have key: "k \<in> fst ` set (StackFrame_cases ord v)"
    by (simp only: StackFrame_cases_keys)
  have rows: "list_all (\<lambda>(c, h). m c = Some v \<longrightarrow> accepting h) (StackFrame_cases ord v)"
    unfolding StackFrame_cases_def list.pred_inject
    apply (rule conjI [OF accept_row [where m = m and v = v, OF StackFrame_decodesD(2) [OF assms(1)]]])
    apply (rule conjI [OF accept_row [where m = m and v = v, OF StackFrame_decodesD(3) [OF assms(1)]]])
    apply (rule conjI [OF accept_row [where m = m and v = v, OF StackFrame_decodesD(4) [OF assms(1)]]])
    apply (rule conjI [OF accept_row [where m = m and v = v, OF StackFrame_decodesD(5) [OF assms(1)]]])
    apply (rule conjI [OF accept_row [where m = m and v = v, OF StackFrame_decodesD(6) [OF assms(1)]]])
    apply simp
    done
  show ?thesis by (rule rows_accept [OF rows assms(2) key])
qed

lemma StackFrame_decode_iff:
  "StackFrame_UnmarshalJSON ord (JObj kvs) = Inr strct \<longleftrightarrow>
   StackFrame_decodes ord (map_of (rev kvs)) strct"
proof
  assume "StackFrame_UnmarshalJSON ord (JObj kvs) = Inr strct"
  then have loop: "range_loop (\<lambda>k v. switch k (StackFrame_cases ord v) (reject k)) (members ord kvs) StackFrame_zero = Inr strct"
    by (auto simp: StackFrame_UnmarshalJSON_def members_def split: sum.splits)
  from StackFrame_loop_sound [OF loop]
  show "StackFrame_decodes ord (map_of (rev kvs)) strct"
    by (simp add: StackFrame_decodes_def)
next
  assume d: "StackFrame_decodes ord (map_of (rev kvs)) strct"
  have "\<exists>t. range_loop (\<lambda>k v. switch k (StackFrame_cases ord v) (reject k)) (members ord kvs) StackFrame_zero = Inr t"
  proof (rule loop_succeeds [OF StackFrame_regular])
    fix k v assume "(k, v) \<in> set (members ord kvs)"
    then have "map_of (rev kvs) k = Some v" by (rule member_lookup)
    from StackFrame_accepts [OF d this]
    show "accepting (switch k (StackFrame_cases ord v) (reject k))" .
  qed
  then obtain strct' where
    loop: "range_loop (\<lambda>k v. switch k (StackFrame_cases ord v) (reject k)) (members ord kvs) StackFrame_zero = Inr strct'" ..
  from StackFrame_loop_sound [OF loop]
  have d': "StackFrame_decodes ord (map_of (rev kvs)) strct'"
    by (simp add: StackFrame_decodes_def)
  from StackFrame_decodes_unique [OF d' d] have "strct' = strct" .
  with loop show "StackFrame_UnmarshalJSON ord (JObj kvs) = Inr strct"
    by (simp add: StackFrame_UnmarshalJSON_def members_def)
qed

definition StackFrame_results :: "scanner \<Rightarrow> order \<Rightarrow> StackFrame \<Rightarrow> (string \<times> (error + json)) list" where
  "StackFrame_results scn ord strct =
     [(''location'', json_Marshal_ptr ''*sarif.Location'' (Location_MarshalJSON scn ord) (StackFrame.Location strct)),
      (''module'', json_Marshal_string (StackFrame.Module strct)),
      (''parameters'', json_Marshal_slice json_Marshal_string (StackFrame.Parameters strct)),
      (''properties'', json_Marshal_bytes ''*sarif.PropertyBag'' (PropertyBag_MarshalJSON scn ord) (StackFrame.Properties strct)),
      (''threadId'', json_Marshal_int (StackFrame.ThreadId strct))]"

lemma StackFrame_MarshalJSON_results:
  "StackFrame_MarshalJSON scn ord strct = object (emit_all (StackFrame_results scn ord strct))"
  by (simp add: StackFrame_MarshalJSON_def StackFrame_results_def emit_nilcheck)

lemma StackFrame_keys_written:
  "StackFrame_MarshalJSON scn ord strct = Inr j \<Longrightarrow> \<exists>kvs. j = JObj kvs \<and> map fst kvs = StackFrame_keys"
  using keys_written [of "StackFrame_results scn ord strct" j]
  by (simp add: StackFrame_MarshalJSON_results StackFrame_results_def StackFrame_keys_def)

definition StackFrame_encodable :: "scanner \<Rightarrow> order \<Rightarrow> StackFrame \<Rightarrow> bool" where
  "StackFrame_encodable scn ord strct \<longleftrightarrow>
     ptr_all (Location_encodable scn ord) (StackFrame.Location strct) \<and>
     ptr_all (PropertyBag_encodable scn ord) (StackFrame.Properties strct)"

lemma StackFrame_fails_unless: "fails_unless (StackFrame_MarshalJSON scn ord) (StackFrame_encodable scn ord)"
  unfolding fails_unless_def StackFrame_MarshalJSON_results StackFrame_results_def StackFrame_encodable_def isl_object_emit_all
  by (auto simp add: always_simps
      fails_unlessD [OF fails_unless_ptr [OF Location_fails_unless]]
      fails_unlessD [OF fails_unless_string]
      fails_unlessD [OF fails_unless_slice [OF fails_unless_string]]
      fails_unlessD [OF PropertyBag_field_fails_unless]
      fails_unlessD [OF fails_unless_int])

definition StackFrame_valid :: "StackFrame \<Rightarrow> bool" where
  "StackFrame_valid strct \<longleftrightarrow>
     ptr_all Location_valid (StackFrame.Location strct) \<and>
     ptr_all PropertyBag_valid (StackFrame.Properties strct)"

lemma StackFrame_keys_distinct: "distinct StackFrame_keys"
  by (simp add: StackFrame_keys_def)

lemma StackFrame_round_trips:
  "round_trips_object (StackFrame_MarshalJSON scn ord) (StackFrame_UnmarshalJSON ord') StackFrame_valid"
  unfolding round_trips_object_def
proof (intro allI impI)
  fix strct assume v: "StackFrame_valid strct"
  note v' = v [unfolded StackFrame_valid_def]
  let ?rs = "StackFrame_results scn ord strct"
  let ?kvs = "map (\<lambda>e. (fst e, projr (snd e))) ?rs"
  have f0: "\<not> isl (json_Marshal_ptr ''*sarif.Location'' (Location_MarshalJSON scn ord) (StackFrame.Location strct)) \<and>
      json_Unmarshal_ptr (Location_UnmarshalJSON ord') (projr (json_Marshal_ptr ''*sarif.Location'' (Location_MarshalJSON scn ord) (StackFrame.Location strct))) = Inr (StackFrame.Location strct)"
    by (rule round_tripsD [OF round_trips_ptr [OF Location_round_trips]]) (use v' in simp)
  have f1: "\<not> isl (json_Marshal_string (StackFrame.Module strct)) \<and>
      json_Unmarshal_string (projr (json_Marshal_string (StackFrame.Module strct))) = Inr (StackFrame.Module strct)"
    by (rule round_tripsD [OF round_trips_string]) (use v' in simp)
  have f2: "\<not> isl (json_Marshal_slice json_Marshal_string (StackFrame.Parameters strct)) \<and>
      json_Unmarshal_slice json_Unmarshal_string (projr (json_Marshal_slice json_Marshal_string (StackFrame.Parameters strct))) = Inr (StackFrame.Parameters strct)"
    by (rule round_tripsD [OF round_trips_slice [OF round_trips_string]]) (use v' in simp)
  have f3: "\<not> isl (json_Marshal_bytes ''*sarif.PropertyBag'' (PropertyBag_MarshalJSON scn ord) (StackFrame.Properties strct)) \<and>
      json_Unmarshal_ptr (PropertyBag_UnmarshalJSON ord') (projr (json_Marshal_bytes ''*sarif.PropertyBag'' (PropertyBag_MarshalJSON scn ord) (StackFrame.Properties strct))) = Inr (StackFrame.Properties strct)"
    by (rule round_tripsD [OF PropertyBag_field_round_trips]) (use v' in simp)
  have f4: "\<not> isl (json_Marshal_int (StackFrame.ThreadId strct)) \<and>
      json_Unmarshal_int (projr (json_Marshal_int (StackFrame.ThreadId strct))) = Inr (StackFrame.ThreadId strct)"
    by (rule round_tripsD [OF round_trips_int]) (use v' in simp)
  note fs = f0 f1 f2 f3 f4
  have rs: "?rs =
     [(''location'', json_Marshal_ptr ''*sarif.Location'' (Location_MarshalJSON scn ord) (StackFrame.Location strct)),
      (''module'', json_Marshal_string (StackFrame.Module strct)),
      (''parameters'', json_Marshal_slice json_Marshal_string (StackFrame.Parameters strct)),
      (''properties'', json_Marshal_bytes ''*sarif.PropertyBag'' (PropertyBag_MarshalJSON scn ord) (StackFrame.Properties strct)),
      (''threadId'', json_Marshal_int (StackFrame.ThreadId strct))]"
    by (auto simp add: StackFrame_results_def)
  have keys: "map fst ?rs = StackFrame_keys"
    by (simp add: StackFrame_results_def StackFrame_keys_def)
  then have dist: "distinct (map fst ?rs)"
    by (simp only: StackFrame_keys_distinct)
  have ok: "list_all (\<lambda>e. \<not> isl (snd e)) ?rs"
    unfolding rs by (simp only: list.pred_inject snd_conv fs simp_thms)
  then have enc: "StackFrame_MarshalJSON scn ord strct = Inr (JObj ?kvs)"
    by (simp add: StackFrame_MarshalJSON_results [of scn ord strct] object_emit_all_eq_Inr)
  have l0: "map_of (rev ?kvs) ''location'' = Some (projr (json_Marshal_ptr ''*sarif.Location'' (Location_MarshalJSON scn ord) (StackFrame.Location strct)))"
    by (rule written_lookup [OF dist]) (subst rs, intro list.set_intros)
  have l1: "map_of (rev ?kvs) ''module'' = Some (projr (json_Marshal_string (StackFrame.Module strct)))"
    by (rule written_lookup [OF dist]) (subst rs, intro list.set_intros)
  have l2: "map_of (rev ?kvs) ''parameters'' = Some (projr (json_Marshal_slice json_Marshal_string (StackFrame.Parameters strct)))"
    by (rule written_lookup [OF dist]) (subst rs, intro list.set_intros)
  have l3: "map_of (rev ?kvs) ''properties'' = Some (projr (json_Marshal_bytes ''*sarif.PropertyBag'' (PropertyBag_MarshalJSON scn ord) (StackFrame.Properties strct)))"
    by (rule written_lookup [OF dist]) (subst rs, intro list.set_intros)
  have l4: "map_of (rev ?kvs) ''threadId'' = Some (projr (json_Marshal_int (StackFrame.ThreadId strct)))"
    by (rule written_lookup [OF dist]) (subst rs, intro list.set_intros)
  have dec: "StackFrame_decodes ord' (map_of (rev ?kvs)) strct"
    unfolding StackFrame_decodes_def l0 l1 l2 l3 l4
    by (simp only: field_ok_Some fs written_dom keys subset_refl option.simps simp_thms)
  then have "StackFrame_UnmarshalJSON ord' (JObj ?kvs) = Inr strct"
    by (simp only: StackFrame_decode_iff)
  with enc show "rt_object (StackFrame_MarshalJSON scn ord) (StackFrame_UnmarshalJSON ord') strct"
    unfolding rt_object_def by blast
qed

definition StackFrame_small_bags :: "StackFrame \<Rightarrow> bool" where
  "StackFrame_small_bags strct \<longleftrightarrow>
     ptr_all Location_small_bags (StackFrame.Location strct) \<and>
     ptr_all PropertyBag_small_bags (StackFrame.Properties strct)"

lemma StackFrame_same_output:
  "same_output (StackFrame_MarshalJSON scn ord) (StackFrame_MarshalJSON scn ord') StackFrame_small_bags"
  unfolding same_output_def
proof (intro allI impI)
  fix strct assume v: "StackFrame_small_bags strct"
  note v' = v [unfolded StackFrame_small_bags_def]
  have e0: "json_Marshal_ptr ''*sarif.Location'' (Location_MarshalJSON scn ord) (StackFrame.Location strct) =
      json_Marshal_ptr ''*sarif.Location'' (Location_MarshalJSON scn ord') (StackFrame.Location strct)"
    by (rule same_outputD [OF same_output_ptr [OF Location_same_output]]) (use v' in simp)
  have e3: "json_Marshal_bytes ''*sarif.PropertyBag'' (PropertyBag_MarshalJSON scn ord) (StackFrame.Properties strct) =
      json_Marshal_bytes ''*sarif.PropertyBag'' (PropertyBag_MarshalJSON scn ord') (StackFrame.Properties strct)"
    by (rule same_outputD [OF PropertyBag_field_same_output]) (use v' in simp)
  show "StackFrame_MarshalJSON scn ord strct = StackFrame_MarshalJSON scn ord' strct"
    by (simp only: StackFrame_MarshalJSON_def e0 e3)
qed

lemma StackFrame_writes_keys: "writes_keys (StackFrame_MarshalJSON scn ord) StackFrame_keys"
  unfolding writes_keys_def by (intro allI impI) (erule StackFrame_keys_written)

lemma StackFrame_unknown_key:
  assumes new: "k \<notin> set StackFrame_keys" and key: "k \<in> fst ` set kvs"
    and rest: "StackFrame_UnmarshalJSON ord (JObj (filter (\<lambda>e. fst e \<noteq> k) kvs)) = Inr strct"
  shows "StackFrame_UnmarshalJSON ord (JObj kvs) = Inl (not_allowed k)"
proof -
  have rej: "switch k (StackFrame_cases ord v) (reject k) s = Inl (not_allowed k)" for v s
    by (rule switch_rejects) (simp only: StackFrame_cases_keys new not_False_eq_True)
  from rest obtain t where
    "range_loop (\<lambda>k v. switch k (StackFrame_cases ord v) (reject k)) (members ord (filter (\<lambda>e. fst e \<noteq> k) kvs)) StackFrame_zero = Inr t"
    by (cases "range_loop (\<lambda>k v. switch k (StackFrame_cases ord v) (reject k)) (members ord (filter (\<lambda>e. fst e \<noteq> k) kvs)) StackFrame_zero")
       (simp_all add: StackFrame_UnmarshalJSON_def members_def)
  from unknown_key_named [OF StackFrame_regular rej key this]
  show ?thesis by (simp add: StackFrame_UnmarshalJSON_def members_def)
qed

lemma StackFrame_unknown_key_fails:
  assumes "k \<notin> set StackFrame_keys" and "k \<in> fst ` set kvs"
  shows "isl (StackFrame_UnmarshalJSON ord (JObj kvs))"
proof (cases "StackFrame_UnmarshalJSON ord (JObj kvs)")
  case (Inr strct)
  then have "dom (map_of (rev kvs)) \<subseteq> set StackFrame_keys"
    by (simp only: StackFrame_decode_iff StackFrame_decodesD(1))
  with assms show ?thesis by (auto simp: dom_map_of_conv_image_fst)
qed simp

lemma StackFrame_rejects_unknown_keys: "rejects_unknown_keys (StackFrame_UnmarshalJSON ord) StackFrame_keys"
  by (rule rejects_unknown_keysI) (erule (1) StackFrame_unknown_key_fails, erule (2) StackFrame_unknown_key)

subsection \<open>Stack: decoding and encoding\<close>

definition Stack_keys :: "string list" where
  "Stack_keys = [''frames'', ''message'', ''properties'']"

definition Stack_decodes :: "order \<Rightarrow> (string \<rightharpoonup> json) \<Rightarrow> Stack \<Rightarrow> bool" where
  "Stack_decodes ord m strct \<longleftrightarrow>
     dom m \<subseteq> set Stack_keys \<and>
     field_ok (json_Unmarshal_slice (json_Unmarshal_ptr (StackFrame_UnmarshalJSON ord))) (m ''frames'') None (Stack.Frames strct) \<and>
     field_ok (json_Unmarshal_ptr (Message_UnmarshalJSON ord)) (m ''message'') None (Stack.Message strct) \<and>
     field_ok (json_Unmarshal_ptr (PropertyBag_UnmarshalJSON ord)) (m ''properties'') None (Stack.Properties strct) \<and>
     m ''frames'' \<noteq> None"

lemma Stack_cases_keys: "fst ` set (Stack_cases ord v) = set Stack_keys"
  by (rule keys_image) (simp add: Stack_cases_def Stack_keys_def)

lemma Stack_regular: "regular (\<lambda>k v. switch k (Stack_cases ord v) (reject k))"
  by (rule regular_switch) (simp add: Stack_cases_def)

lemma Stack_fields:
  "field_case (Stack_cases ord) (\<lambda>(strct, framesReceived). Stack.Frames strct) ''frames'' (json_Unmarshal_slice (json_Unmarshal_ptr (StackFrame_UnmarshalJSON ord)))"
  "field_case (Stack_cases ord) (\<lambda>(strct, framesReceived). Stack.Message strct) ''message'' (json_Unmarshal_ptr (Message_UnmarshalJSON ord))"
  "field_case (Stack_cases ord) (\<lambda>(strct, framesReceived). Stack.Properties strct) ''properties'' (json_Unmarshal_ptr (PropertyBag_UnmarshalJSON ord))"
  "field_case (Stack_cases ord) (\<lambda>(strct, framesReceived). framesReceived) ''frames'' (received (json_Unmarshal_slice (json_Unmarshal_ptr (StackFrame_UnmarshalJSON ord))))"
  unfolding field_case_def Stack_cases_def
  by (simp_all add: writes_into writes_received keeps_into split_def)

lemma Stack_loop_sound:
  assumes loop: "range_loop (\<lambda>k v. switch k (Stack_cases ord v) (reject k)) (members ord kvs) (Stack_zero, False) = Inr (strct, framesReceived)"
  shows "dom (map_of (rev kvs)) \<subseteq> set Stack_keys \<and>
     field_ok (json_Unmarshal_slice (json_Unmarshal_ptr (StackFrame_UnmarshalJSON ord))) (map_of (rev kvs) ''frames'') None (Stack.Frames strct) \<and>
     field_ok (json_Unmarshal_ptr (Message_UnmarshalJSON ord)) (map_of (rev kvs) ''message'') None (Stack.Message strct) \<and>
     field_ok (json_Unmarshal_ptr (PropertyBag_UnmarshalJSON ord)) (map_of (rev kvs) ''properties'') None (Stack.Properties strct) \<and>
     (framesReceived \<longleftrightarrow> map_of (rev kvs) ''frames'' \<noteq> None)"
proof -
  have "fst ` set (members ord kvs) \<subseteq> set Stack_keys"
    by (rule loop_keys_known [OF loop]) (rule Stack_cases_keys)
  then have keys: "dom (map_of (rev kvs)) \<subseteq> set Stack_keys"
    by (simp add: dom_members [of kvs ord])
  note fld = field_after_loop [OF _ members_distinct loop, unfolded map_of_members]
  note flg = flag_after_loop [OF _ members_distinct loop, unfolded map_of_members]
  show ?thesis
    using keys fld [OF Stack_fields(1)] fld [OF Stack_fields(2)] fld [OF Stack_fields(3)] flg [OF Stack_fields(4)]
    by (simp only: prod.case Stack_zero_def Stack.select_convs simp_thms)
qed

lemma Stack_decodesD:
  assumes "Stack_decodes ord m strct"
  shows "dom m \<subseteq> set Stack_keys"
    and "field_ok (json_Unmarshal_slice (json_Unmarshal_ptr (StackFrame_UnmarshalJSON ord))) (m ''frames'') None (Stack.Frames strct)"
    and "field_ok (json_Unmarshal_ptr (Message_UnmarshalJSON ord)) (m ''message'') None (Stack.Message strct)"
    and "field_ok (json_Unmarshal_ptr (PropertyBag_UnmarshalJSON ord)) (m ''properties'') None (Stack.Properties strct)"
    and "m ''frames'' \<noteq> None"
  using assms unfolding Stack_decodes_def by - (elim conjE, assumption)+

lemma Stack_decodes_unique:
  assumes "Stack_decodes ord m a" and "Stack_decodes ord m b"
  shows "a = b"
  apply (rule Stack.equality)
  apply (rule field_ok_unique [OF Stack_decodesD(2) [OF assms(1)] Stack_decodesD(2) [OF assms(2)]])
  apply (rule field_ok_unique [OF Stack_decodesD(3) [OF assms(1)] Stack_decodesD(3) [OF assms(2)]])
  apply (rule field_ok_unique [OF Stack_decodesD(4) [OF assms(1)] Stack_decodesD(4) [OF assms(2)]])
  apply simp
  done

lemma Stack_accepts:
  assumes "Stack_decodes ord m strct" and "m k = Some v"
  shows "accepting (switch k (Stack_cases ord v) (reject k))"
proof -
  from assms have "k \<in> set Stack_keys" by (auto simp: Stack_decodes_def)
  then have key: "k \<in> fst ` set (Stack_cases ord v)"
    by (simp only: Stack_cases_keys)
  have rows: "list_all (\<lambda>(c, h). m c = Some v \<longrightarrow> accepting h) (Stack_cases ord v)"
    unfolding Stack_cases_def list.pred_inject
    apply (rule conjI [OF accept_row [where m = m and v = v, OF Stack_decodesD(2) [OF assms(1)]]])
    apply (rule conjI [OF accept_row [where m = m and v = v, OF Stack_decodesD(3) [OF assms(1)]]])
    apply (rule conjI [OF accept_row [where m = m and v = v, OF Stack_decodesD(4) [OF assms(1)]]])
    apply simp
    done
  show ?thesis by (rule rows_accept [OF rows assms(2) key])
qed

lemma Stack_decode_iff:
  "Stack_UnmarshalJSON ord (JObj kvs) = Inr strct \<longleftrightarrow>
   Stack_decodes ord (map_of (rev kvs)) strct"
proof
  assume "Stack_UnmarshalJSON ord (JObj kvs) = Inr strct"
  then obtain framesReceived where
    loop: "range_loop (\<lambda>k v. switch k (Stack_cases ord v) (reject k)) (members ord kvs) (Stack_zero, False) = Inr (strct, framesReceived)"
    and fin: "framesReceived"
    by (auto simp: Stack_UnmarshalJSON_def members_def split: sum.splits if_splits)
  from Stack_loop_sound [OF loop] fin
  show "Stack_decodes ord (map_of (rev kvs)) strct"
    by (simp add: Stack_decodes_def)
next
  assume d: "Stack_decodes ord (map_of (rev kvs)) strct"
  have "\<exists>t. range_loop (\<lambda>k v. switch k (Stack_cases ord v) (reject k)) (members ord kvs) (Stack_zero, False) = Inr t"
  proof (rule loop_succeeds [OF Stack_regular])
    fix k v assume "(k, v) \<in> set (members ord kvs)"
    then have "map_of (rev kvs) k = Some v" by (rule member_lookup)
    from Stack_accepts [OF d this]
    show "accepting (switch k (Stack_cases ord v) (reject k))" .
  qed
  then obtain t where "range_loop (\<lambda>k v. switch k (Stack_cases ord v) (reject k)) (members ord kvs) (Stack_zero, False) = Inr t" ..
  then obtain strct' framesReceived where
    loop: "range_loop (\<lambda>k v. switch k (Stack_cases ord v) (reject k)) (members ord kvs) (Stack_zero, False) = Inr (strct', framesReceived)"
    by (cases t) auto
  from Stack_loop_sound [OF loop] d
  have fin: "framesReceived"
    and d': "Stack_decodes ord (map_of (rev kvs)) strct'"
    by (simp_all add: Stack_decodes_def)
  from Stack_decodes_unique [OF d' d] have "strct' = strct" .
  with loop fin show "Stack_UnmarshalJSON ord (JObj kvs) = Inr strct"
    by (simp add: Stack_UnmarshalJSON_def members_def)
qed

definition Stack_results :: "scanner \<Rightarrow> order \<Rightarrow> Stack \<Rightarrow> (string \<times> (error + json)) list" where
  "Stack_results scn ord strct =
     [(''frames'', json_Marshal_slice (json_Marshal_ptr ''*sarif.StackFrame'' (StackFrame_MarshalJSON scn ord)) (Stack.Frames strct)),
      (''message'', json_Marshal_ptr ''*sarif.Message'' (Message_MarshalJSON scn ord) (Stack.Message strct)),
      (''properties'', json_Marshal_bytes ''*sarif.PropertyBag'' (PropertyBag_MarshalJSON scn ord) (Stack.Properties strct))]"

lemma Stack_MarshalJSON_results:
  "Stack_MarshalJSON scn ord strct = object (emit_all (Stack_results scn ord strct))"
  by (simp add: Stack_MarshalJSON_def Stack_results_def emit_nilcheck)

lemma Stack_keys_written:
  "Stack_MarshalJSON scn ord strct = Inr j \<Longrightarrow> \<exists>kvs. j = JObj kvs \<and> map fst kvs = Stack_keys"
  using keys_written [of "Stack_results scn ord strct" j]
  by (simp add: Stack_MarshalJSON_results Stack_results_def Stack_keys_def)

definition Stack_encodable :: "scanner \<Rightarrow> order \<Rightarrow> Stack \<Rightarrow> bool" where
  "Stack_encodable scn ord strct \<longleftrightarrow>
     slice_all (ptr_all (StackFrame_encodable scn ord)) (Stack.Frames strct) \<and>
     ptr_all (Message_encodable scn ord) (Stack.Message strct) \<and>
     ptr_all (PropertyBag_encodable scn ord) (Stack.Properties strct)"

lemma Stack_fails_unless: "fails_unless (Stack_MarshalJSON scn ord) (Stack_encodable scn ord)"
  unfolding fails_unless_def Stack_MarshalJSON_results Stack_results_def Stack_encodable_def isl_object_emit_all
  by (auto simp add: always_simps
      fails_unlessD [OF fails_unless_slice [OF fails_unless_ptr [OF StackFrame_fails_unless]]]
      fails_unlessD [OF fails_unless_ptr [OF Message_fails_unless]]
      fails_unlessD [OF PropertyBag_field_fails_unless])

definition Stack_valid :: "Stack \<Rightarrow> bool" where
  "Stack_valid strct \<longleftrightarrow>
     slice_all (ptr_all StackFrame_valid) (Stack.Frames strct) \<and>
     ptr_all Message_valid (Stack.Message strct) \<and>
     ptr_all PropertyBag_valid (Stack.Properties strct)"

lemma Stack_keys_distinct: "distinct Stack_keys"
  by (simp add: Stack_keys_def)

lemma Stack_round_trips:
  "round_trips_object (Stack_MarshalJSON scn ord) (Stack_UnmarshalJSON ord') Stack_valid"
  unfolding round_trips_object_def
proof (intro allI impI)
  fix strct assume v: "Stack_valid strct"
  note v' = v [unfolded Stack_valid_def]
  let ?rs = "Stack_results scn ord strct"
  let ?kvs = "map (\<lambda>e. (fst e, projr (snd e))) ?rs"
  have f0: "\<not> isl (json_Marshal_slice (json_Marshal_ptr ''*sarif.StackFrame'' (StackFrame_MarshalJSON scn ord)) (Stack.Frames strct)) \<and>
      json_Unmarshal_slice (json_Unmarshal_ptr (StackFrame_UnmarshalJSON ord')) (projr (json_Marshal_slice (json_Marshal_ptr ''*sarif.StackFrame'' (StackFrame_MarshalJSON scn ord)) (Stack.Frames strct))) = Inr (Stack.Frames strct)"
    by (rule round_tripsD [OF round_trips_slice [OF round_trips_ptr [OF StackFrame_round_trips]]]) (use v' in simp)
  have f1: "\<not> isl (json_Marshal_ptr ''*sarif.Message'' (Message_MarshalJSON scn ord) (Stack.Message strct)) \<and>
      json_Unmarshal_ptr (Message_UnmarshalJSON ord') (projr (json_Marshal_ptr ''*sarif.Message'' (Message_MarshalJSON scn ord) (Stack.Message strct))) = Inr (Stack.Message strct)"
    by (rule round_tripsD [OF round_trips_ptr [OF Message_round_trips]]) (use v' in simp)
  have f2: "\<not> isl (json_Marshal_bytes ''*sarif.PropertyBag'' (PropertyBag_MarshalJSON scn ord) (Stack.Properties strct)) \<and>
      json_Unmarshal_ptr (PropertyBag_UnmarshalJSON ord') (projr (json_Marshal_bytes ''*sarif.PropertyBag'' (PropertyBag_MarshalJSON scn ord) (Stack.Properties strct))) = Inr (Stack.Properties strct)"
    by (rule round_tripsD [OF PropertyBag_field_round_trips]) (use v' in simp)
  note fs = f0 f1 f2
  have rs: "?rs =
     [(''frames'', json_Marshal_slice (json_Marshal_ptr ''*sarif.StackFrame'' (StackFrame_MarshalJSON scn ord)) (Stack.Frames strct)),
      (''message'', json_Marshal_ptr ''*sarif.Message'' (Message_MarshalJSON scn ord) (Stack.Message strct)),
      (''properties'', json_Marshal_bytes ''*sarif.PropertyBag'' (PropertyBag_MarshalJSON scn ord) (Stack.Properties strct))]"
    by (auto simp add: Stack_results_def)
  have keys: "map fst ?rs = Stack_keys"
    by (simp add: Stack_results_def Stack_keys_def)
  then have dist: "distinct (map fst ?rs)"
    by (simp only: Stack_keys_distinct)
  have ok: "list_all (\<lambda>e. \<not> isl (snd e)) ?rs"
    unfolding rs by (simp only: list.pred_inject snd_conv fs simp_thms)
  then have enc: "Stack_MarshalJSON scn ord strct = Inr (JObj ?kvs)"
    by (simp add: Stack_MarshalJSON_results [of scn ord strct] object_emit_all_eq_Inr)
  have l0: "map_of (rev ?kvs) ''frames'' = Some (projr (json_Marshal_slice (json_Marshal_ptr ''*sarif.StackFrame'' (StackFrame_MarshalJSON scn ord)) (Stack.Frames strct)))"
    by (rule written_lookup [OF dist]) (subst rs, intro list.set_intros)
  have l1: "map_of (rev ?kvs) ''message'' = Some (projr (json_Marshal_ptr ''*sarif.Message'' (Message_MarshalJSON scn ord) (Stack.Message strct)))"
    by (rule written_lookup [OF dist]) (subst rs, intro list.set_intros)
  have l2: "map_of (rev ?kvs) ''properties'' = Some (projr (json_Marshal_bytes ''*sarif.PropertyBag'' (PropertyBag_MarshalJSON scn ord) (Stack.Properties strct)))"
    by (rule written_lookup [OF dist]) (subst rs, intro list.set_intros)
  have dec: "Stack_decodes ord' (map_of (rev ?kvs)) strct"
    unfolding Stack_decodes_def l0 l1 l2
    by (simp only: field_ok_Some fs written_dom keys subset_refl option.simps simp_thms)
  then have "Stack_UnmarshalJSON ord' (JObj ?kvs) = Inr strct"
    by (simp only: Stack_decode_iff)
  with enc show "rt_object (Stack_MarshalJSON scn ord) (Stack_UnmarshalJSON ord') strct"
    unfolding rt_object_def by blast
qed

definition Stack_small_bags :: "Stack \<Rightarrow> bool" where
  "Stack_small_bags strct \<longleftrightarrow>
     slice_all (ptr_all StackFrame_small_bags) (Stack.Frames strct) \<and>
     ptr_all Message_small_bags (Stack.Message strct) \<and>
     ptr_all PropertyBag_small_bags (Stack.Properties strct)"

lemma Stack_same_output:
  "same_output (Stack_MarshalJSON scn ord) (Stack_MarshalJSON scn ord') Stack_small_bags"
  unfolding same_output_def
proof (intro allI impI)
  fix strct assume v: "Stack_small_bags strct"
  note v' = v [unfolded Stack_small_bags_def]
  have e0: "json_Marshal_slice (json_Marshal_ptr ''*sarif.StackFrame'' (StackFrame_MarshalJSON scn ord)) (Stack.Frames strct) =
      json_Marshal_slice (json_Marshal_ptr ''*sarif.StackFrame'' (StackFrame_MarshalJSON scn ord')) (Stack.Frames strct)"
    by (rule same_outputD [OF same_output_slice [OF same_output_ptr [OF StackFrame_same_output]]]) (use v' in simp)
  have e1: "json_Marshal_ptr ''*sarif.Message'' (Message_MarshalJSON scn ord) (Stack.Message strct) =
      json_Marshal_ptr ''*sarif.Message'' (Message_MarshalJSON scn ord') (Stack.Message strct)"
    by (rule same_outputD [OF same_output_ptr [OF Message_same_output]]) (use v' in simp)
  have e2: "json_Marshal_bytes ''*sarif.PropertyBag'' (PropertyBag_MarshalJSON scn ord) (Stack.Properties strct) =
      json_Marshal_bytes ''*sarif.PropertyBag'' (PropertyBag_MarshalJSON scn ord') (Stack.Properties strct)"
    by (rule same_outputD [OF PropertyBag_field_same_output]) (use v' in simp)
  show "Stack_MarshalJSON scn ord strct = Stack_MarshalJSON scn ord' strct"
    by (simp only: Stack_MarshalJSON_def e0 e1 e2)
qed

lemma Stack_writes_keys: "writes_keys (Stack_MarshalJSON scn ord) Stack_keys"
  unfolding writes_keys_def by (intro allI impI) (erule Stack_keys_written)

lemma Stack_unknown_key:
  assumes new: "k \<notin> set Stack_keys" and key: "k \<in> fst ` set kvs"
    and rest: "Stack_UnmarshalJSON ord (JObj (filter (\<lambda>e. fst e \<noteq> k) kvs)) = Inr strct"
  shows "Stack_UnmarshalJSON ord (JObj kvs) = Inl (not_allowed k)"
proof -
  have rej: "switch k (Stack_cases ord v) (reject k) s = Inl (not_allowed k)" for v s
    by (rule switch_rejects) (simp only: Stack_cases_keys new not_False_eq_True)
  from rest obtain t where
    "range_loop (\<lambda>k v. switch k (Stack_cases ord v) (reject k)) (members ord (filter (\<lambda>e. fst e \<noteq> k) kvs)) (Stack_zero, False) = Inr t"
    by (cases "range_loop (\<lambda>k v. switch k (Stack_cases ord v) (reject k)) (members ord (filter (\<lambda>e. fst e \<noteq> k) kvs)) (Stack_zero, False)")
       (simp_all add: Stack_UnmarshalJSON_def members_def)
  from unknown_key_named [OF Stack_regular rej key this]
  show ?thesis by (simp add: Stack_UnmarshalJSON_def members_def)
qed

lemma Stack_unknown_key_fails:
  assumes "k \<notin> set Stack_keys" and "k \<in> fst ` set kvs"
  shows "isl (Stack_UnmarshalJSON ord (JObj kvs))"
proof (cases "Stack_UnmarshalJSON ord (JObj kvs)")
  case (Inr strct)
  then have "dom (map_of (rev kvs)) \<subseteq> set Stack_keys"
    by (simp only: Stack_decode_iff Stack_decodesD(1))
  with assms show ?thesis by (auto simp: dom_map_of_conv_image_fst)
qed simp

lemma Stack_required_present:
  assumes "Stack_UnmarshalJSON ord (JObj kvs) = Inr strct"
  shows "''frames'' \<in> fst ` set kvs"
proof -
  from assms have d: "Stack_decodes ord (map_of (rev kvs)) strct" by (simp only: Stack_decode_iff)
  show "''frames'' \<in> fst ` set kvs"
    using Stack_decodesD(5) [OF d]
    by (simp_all only: present_key)
qed

lemma Stack_without_Frames:
  assumes "Stack_UnmarshalJSON ord (JObj kvs) = Inr strct"
  shows "Stack_UnmarshalJSON ord (JObj (filter (\<lambda>e. fst e \<noteq> ''frames'') kvs)) =
    Inl (RequiredNotPresent ''frames'')"
proof -
  from assms have d: "Stack_decodes ord (map_of (rev kvs)) strct" by (simp only: Stack_decode_iff)
  have "\<exists>t. range_loop (\<lambda>k v. switch k (Stack_cases ord v) (reject k)) (members ord (filter (\<lambda>e. fst e \<noteq> ''frames'') kvs))
      (Stack_zero, False) = Inr t"
  proof (rule loop_succeeds [OF Stack_regular])
    fix k v assume "(k, v) \<in> set (members ord (filter (\<lambda>e. fst e \<noteq> ''frames'') kvs))"
    then have "map_of (rev kvs) k = Some v" by (rule member_lookup_filter)
    from Stack_accepts [OF d this]
    show "accepting (switch k (Stack_cases ord v) (reject k))" .
  qed
  then obtain t where "range_loop (\<lambda>k v. switch k (Stack_cases ord v) (reject k)) (members ord (filter (\<lambda>e. fst e \<noteq> ''frames'') kvs))
      (Stack_zero, False) = Inr t" ..
  then obtain strct' framesReceived where
    loop: "range_loop (\<lambda>k v. switch k (Stack_cases ord v) (reject k)) (members ord (filter (\<lambda>e. fst e \<noteq> ''frames'') kvs))
      (Stack_zero, False) = Inr (strct', framesReceived)"
    by (cases t) auto
  from Stack_loop_sound [OF loop] Stack_decodesD(5) [OF d]
  have "\<not> framesReceived"
    by (simp_all add: lookup_filter)
  with loop show ?thesis
    by (simp add: Stack_UnmarshalJSON_def members_def)
qed


lemma Stack_rejects_unknown_keys: "rejects_unknown_keys (Stack_UnmarshalJSON ord) Stack_keys"
  by (rule rejects_unknown_keysI) (erule (1) Stack_unknown_key_fails, erule (2) Stack_unknown_key)

lemma Stack_requires_Frames: "requires_key (Stack_UnmarshalJSON ord) ''frames''"
  by (rule requires_keyI) (erule Stack_required_present(1), erule Stack_without_Frames)


subsection \<open>WebRequest: decoding and encoding\<close>

definition WebRequest_keys :: "string list" where
  "WebRequest_keys = [''body'', ''headers'', ''index'', ''method'', ''parameters'', ''properties'', ''protocol'', ''target'', ''version'']"

definition WebRequest_decodes :: "order \<Rightarrow> (string \<rightharpoonup> json) \<Rightarrow> WebRequest \<Rightarrow> bool" where
  "WebRequest_decodes ord m strct \<longleftrightarrow>
     dom m \<subseteq> set WebRequest_keys \<and>
     field_ok (json_Unmarshal_ptr (ArtifactContent_UnmarshalJSON ord)) (m ''body'') None (WebRequest.Body strct) \<and>
     field_ok (json_Unmarshal_map json_Unmarshal_string) (m ''headers'') None (WebRequest.Headers strct) \<and>
     field_ok json_Unmarshal_int (m ''index'') 0 (WebRequest.Index strct) \<and>
     field_ok json_Unmarshal_string (m ''method'') [] (WebRequest.Method strct) \<and>
     field_ok (json_Unmarshal_map json_Unmarshal_string) (m ''parameters'') None (WebRequest.Parameters strct) \<and>
     field_ok (json_Unmarshal_ptr (PropertyBag_UnmarshalJSON ord)) (m ''properties'') None (WebRequest.Properties strct) \<and>
     field_ok json_Unmarshal_string (m ''protocol'') [] (WebRequest.Protocol strct) \<and>
     field_ok json_Unmarshal_string (m ''target'') [] (WebRequest.Target strct) \<and>
     field_ok json_Unmarshal_string (m ''version'') [] (WebRequest.Version strct)"

lemma WebRequest_cases_keys: "fst ` set (WebRequest_cases ord v) = set WebRequest_keys"
  by (rule keys_image) (simp add: WebRequest_cases_def WebRequest_keys_def)

lemma WebRequest_regular: "regular (\<lambda>k v. switch k (WebRequest_cases ord v) (reject k))"
  by (rule regular_switch) (simp add: WebRequest_cases_def)

lemma WebRequest_fields:
  "field_case (WebRequest_cases ord) WebRequest.Body ''body'' (json_Unmarshal_ptr (ArtifactContent_UnmarshalJSON ord))"
  "field_case (WebRequest_cases ord) WebRequest.Headers ''headers'' (json_Unmarshal_map json_Unmarshal_string)"
  "field_case (WebRequest_cases ord) WebRequest.Index ''index'' json_Unmarshal_int"
  "field_case (WebRequest_cases ord) WebRequest.Method ''method'' json_Unmarshal_string"
  "field_case (WebRequest_cases ord) WebRequest.Parameters ''parameters'' (json_Unmarshal_map json_Unmarshal_string)"
  "field_case (WebRequest_cases ord) WebRequest.Properties ''properties'' (json_Unmarshal_ptr (PropertyBag_UnmarshalJSON ord))"
  "field_case (WebRequest_cases ord) WebRequest.Protocol ''protocol'' json_Unmarshal_string"
  "field_case (WebRequest_cases ord) WebRequest.Target ''target'' json_Unmarshal_string"
  "field_case (WebRequest_cases ord) WebRequest.Version ''version'' json_Unmarshal_string"
  unfolding field_case_def WebRequest_cases_def
  by (simp_all add: writes_into writes_received keeps_into split_def)

lemma WebRequest_loop_sound:
  assumes loop: "range_loop (\<lambda>k v. switch k (WebRequest_cases ord v) (reject k)) (members ord kvs) WebRequest_zero = Inr strct"
  shows "dom (map_of (rev kvs)) \<subseteq> set WebRequest_keys \<and>
     field_ok (json_Unmarshal_ptr (ArtifactContent_UnmarshalJSON ord)) (map_of (rev kvs) ''body'') None (WebRequest.Body strct) \<and>
     field_ok (json_Unmarshal_map json_Unmarshal_string) (map_of (rev kvs) ''headers'') None (WebRequest.Headers strct) \<and>
     field_ok json_Unmarshal_int (map_of (rev kvs) ''index'') 0 (WebRequest.Index strct) \<and>
     field_ok json_Unmarshal_string (map_of (rev kvs) ''method'') [] (WebRequest.Method strct) \<and>
     field_ok (json_Unmarshal_map json_Unmarshal_string) (map_of (rev kvs) ''parameters'') None (WebRequest.Parameters strct) \<and>
     field_ok (json_Unmarshal_ptr (PropertyBag_UnmarshalJSON ord)) (map_of (rev kvs) ''properties'') None (WebRequest.Properties strct) \<and>
     field_ok json_Unmarshal_string (map_of (rev kvs) ''protocol'') [] (WebRequest.Protocol strct) \<and>
     field_ok json_Unmarshal_string (map_of (rev kvs) ''target'') [] (WebRequest.Target strct) \<and>
     field_ok json_Unmarshal_string (map_of (rev kvs) ''version'') [] (WebRequest.Version strct)"
proof -
  have "fst ` set (members ord kvs) \<subseteq> set WebRequest_keys"
    by (rule loop_keys_known [OF loop]) (rule WebRequest_cases_keys)
  then have keys: "dom (map_of (rev kvs)) \<subseteq> set WebRequest_keys"
    by (simp add: dom_members [of kvs ord])
  note fld = field_after_loop [OF _ members_distinct loop, unfolded map_of_members]
  show ?thesis
    using keys fld [OF WebRequest_fields(1)] fld [OF WebRequest_fields(2)] fld [OF WebRequest_fields(3)] fld [OF WebRequest_fields(4)] fld [OF WebRequest_fields(5)] fld [OF WebRequest_fields(6)] fld [OF WebRequest_fields(7)] fld [OF WebRequest_fields(8)] fld [OF WebRequest_fields(9)] 
    by (simp only: prod.case WebRequest_zero_def WebRequest.select_convs simp_thms)
qed

lemma WebRequest_decodesD:
  assumes "WebRequest_decodes ord m strct"
  shows "dom m \<subseteq> set WebRequest_keys"
    and "field_ok (json_Unmarshal_ptr (ArtifactContent_UnmarshalJSON ord)) (m ''body'') None (WebRequest.Body strct)"
    and "field_ok (json_Unmarshal_map json_Unmarshal_string) (m ''headers'') None (WebRequest.Headers strct)"
    and "field_ok json_Unmarshal_int (m ''index'') 0 (WebRequest.Index strct)"
    and "field_ok json_Unmarshal_string (m ''method'') [] (WebRequest.Method strct)"
    and "field_ok (json_Unmarshal_map json_Unmarshal_string) (m ''parameters'') None (WebRequest.Parameters strct)"
    and "field_ok (json_Unmarshal_ptr (PropertyBag_UnmarshalJSON ord)) (m ''properties'') None (WebRequest.Properties strct)"
    and "field_ok json_Unmarshal_string (m ''protocol'') [] (WebRequest.Protocol strct)"
    and "field_ok json_Unmarshal_string (m ''target'') [] (WebRequest.Target strct)"
    and "field_ok json_Unmarshal_string (m ''version'') [] (WebRequest.Version strct)"
  using assms unfolding WebRequest_decodes_def by - (elim conjE, assumption)+

lemma WebRequest_decodes_unique:
  assumes "WebRequest_decodes ord m a" and "WebRequest_decodes ord m b"
  shows "a = b"
  apply (rule WebRequest.equality)
  apply (rule field_ok_unique [OF WebRequest_decodesD(2) [OF assms(1)] WebRequest_decodesD(2) [OF assms(2)]])
  apply (rule field_ok_unique [OF WebRequest_decodesD(3) [OF assms(1)] WebRequest_decodesD(3) [OF assms(2)]])
  apply (rule field_ok_unique [OF WebRequest_decodesD(4) [OF assms(1)] WebRequest_decodesD(4) [OF assms(2)]])
  apply (rule field_ok_unique [OF WebRequest_decodesD(5) [OF assms(1)] WebRequest_decodesD(5) [OF assms(2)]])
  apply (rule field_ok_unique [OF WebRequest_decodesD(6) [OF assms(1)] WebRequest_decodesD(6) [OF assms(2)]])
  apply (rule field_ok_unique [OF WebRequest_decodesD(7) [OF assms(1)] WebRequest_decodesD(7) [OF assms(2)]])
  apply (rule field_ok_unique [OF WebRequest_decodesD(8) [OF assms(1)] WebRequest_decodesD(8) [OF assms(2)]])
  apply (rule field_ok_unique [OF WebRequest_decodesD(9) [OF assms(1)] WebRequest_decodesD(9) [OF assms(2)]])
  apply (rule field_ok_unique [OF WebRequest_decodesD(10) [OF assms(1)] WebRequest_decodesD(10) [OF assms(2)]])
  apply simp
  done

lemma WebRequest_accepts:
  assumes "WebRequest_decodes ord m strct" and "m k = Some v"
  shows "accepting (switch k (WebRequest_cases ord v) (reject k))"
proof -
  from assms have "k \<in> set WebRequest_keys" by (auto simp: WebRequest_decodes_def)
  then have key: "k \<in> fst ` set (WebRequest_cases ord v)"
    by (simp only: WebRequest_cases_keys)
  have rows: "list_all (\<lambda>(c, h). m c = Some v \<longrightarrow> accepting h) (WebRequest_cases ord v)"
    unfolding WebRequest_cases_def list.pred_inject
    apply (rule conjI [OF accept_row [where m = m and v = v, OF WebRequest_decodesD(2) [OF assms(1)]]])
    apply (rule conjI [OF accept_row [where m = m and v = v, OF WebRequest_decodesD(3) [OF assms(1)]]])
    apply (rule conjI [OF accept_row [where m = m and v = v, OF WebRequest_decodesD(4) [OF assms(1)]]])
    apply (rule conjI [OF accept_row [where m = m and v = v, OF WebRequest_decodesD(5) [OF assms(1)]]])
    apply (rule conjI [OF accept_row [where m = m and v = v, OF WebRequest_decodesD(6) [OF assms(1)]]])
    apply (rule conjI [OF accept_row [where m = m and v = v, OF WebRequest_decodesD(7) [OF assms(1)]]])
    apply (rule conjI [OF accept_row [where m = m and v = v, OF WebRequest_decodesD(8) [OF assms(1)]]])
    apply (rule conjI [OF accept_row [where m = m and v = v, OF WebRequest_decodesD(9) [OF assms(1)]]])
    apply (rule conjI [OF accept_row [where m = m and v = v, OF WebRequest_decodesD(10) [OF assms(1)]]])
    apply simp
    done
  show ?thesis by (rule rows_accept [OF rows assms(2) key])
qed

lemma WebRequest_decode_iff:
  "WebRequest_UnmarshalJSON ord (JObj kvs) = Inr strct \<longleftrightarrow>
   WebRequest_decodes ord (map_of (rev kvs)) strct"
proof
  assume "WebRequest_UnmarshalJSON ord (JObj kvs) = Inr strct"
  then have loop: "range_loop (\<lambda>k v. switch k (WebRequest_cases ord v) (reject k)) (members ord kvs) WebRequest_zero = Inr strct"
    by (auto simp: WebRequest_UnmarshalJSON_def members_def split: sum.splits)
  from WebRequest_loop_sound [OF loop]
  show "WebRequest_decodes ord (map_of (rev kvs)) strct"
    by (simp add: WebRequest_decodes_def)
next
  assume d: "WebRequest_decodes ord (map_of (rev kvs)) strct"
  have "\<exists>t. range_loop (\<lambda>k v. switch k (WebRequest_cases ord v) (reject k)) (members ord kvs) WebRequest_zero = Inr t"
  proof (rule loop_succeeds [OF WebRequest_regular])
    fix k v assume "(k, v) \<in> set (members ord kvs)"
    then have "map_of (rev kvs) k = Some v" by (rule member_lookup)
    from WebRequest_accepts [OF d this]
    show "accepting (switch k (WebRequest_cases ord v) (reject k))" .
  qed
  then obtain strct' where
    loop: "range_loop (\<lambda>k v. switch k (WebRequest_cases ord v) (reject k)) (members ord kvs) WebRequest_zero = Inr strct'" ..
  from WebRequest_loop_sound [OF loop]
  have d': "WebRequest_decodes ord (map_of (rev kvs)) strct'"
    by (simp add: WebRequest_decodes_def)
  from WebRequest_decodes_unique [OF d' d] have "strct' = strct" .
  with loop show "WebRequest_UnmarshalJSON ord (JObj kvs) = Inr strct"
    by (simp add: WebRequest_UnmarshalJSON_def members_def)
qed

definition WebRequest_results :: "scanner \<Rightarrow> order \<Rightarrow> WebRequest \<Rightarrow> (string \<times> (error + json)) list" where
  "WebRequest_results scn ord strct =
     [(''body'', json_Marshal_ptr ''*sarif.ArtifactContent'' (ArtifactContent_MarshalJSON scn ord) (WebRequest.Body strct)),
      (''headers'', json_Marshal_map json_Marshal_string (WebRequest.Headers strct)),
      (''index'', json_Marshal_int (WebRequest.Index strct)),
      (''method'', json_Marshal_string (WebRequest.Method strct)),
      (''parameters'', json_Marshal_map json_Marshal_string (WebRequest.Parameters strct)),
      (''properties'', json_Marshal_bytes ''*sarif.PropertyBag'' (PropertyBag_MarshalJSON scn ord) (WebRequest.Properties strct)),
      (''protocol'', json_Marshal_string (WebRequest.Protocol strct)),
      (''target'', json_Marshal_string (WebRequest.Target strct)),
      (''version'', json_Marshal_string (WebRequest.Version strct))]"

lemma WebRequest_MarshalJSON_results:
  "WebRequest_MarshalJSON scn ord strct = object (emit_all (WebRequest_results scn ord strct))"
  by (simp add: WebRequest_MarshalJSON_def WebRequest_results_def emit_nilcheck)

lemma WebRequest_keys_written:
  "WebRequest_MarshalJSON scn ord strct = Inr j \<Longrightarrow> \<exists>kvs. j = JObj kvs \<and> map fst kvs = WebRequest_keys"
  using keys_written [of "WebRequest_results scn ord strct" j]
  by (simp add: WebRequest_MarshalJSON_results WebRequest_results_def WebRequest_keys_def)

definition WebRequest_encodable :: "scanner \<Rightarrow> order \<Rightarrow> WebRequest \<Rightarrow> bool" where
  "WebRequest_encodable scn ord strct \<longleftrightarrow>
     ptr_all (ArtifactContent_encodable scn ord) (WebRequest.Body strct) \<and>
     ptr_all (PropertyBag_encodable scn ord) (WebRequest.Properties strct)"

lemma WebRequest_fails_unless: "fails_unless (WebRequest_MarshalJSON scn ord) (WebRequest_encodable scn ord)"
  unfolding fails_unless_def WebRequest_MarshalJSON_results WebRequest_results_def WebRequest_encodable_def isl_object_emit_all
  by (auto simp add: always_simps
      fails_unlessD [OF fails_unless_ptr [OF ArtifactContent_fails_unless]]
      fails_unlessD [OF fails_unless_map [OF fails_unless_string]]
      fails_unlessD [OF fails_unless_int]
      fails_unlessD [OF fails_unless_string]
      fails_unlessD [OF PropertyBag_field_fails_unless])

definition WebRequest_valid :: "WebRequest \<Rightarrow> bool" where
  "WebRequest_valid strct \<longleftrightarrow>
     ptr_all ArtifactContent_valid (WebRequest.Body strct) \<and>
     map_valid always (WebRequest.Headers strct) \<and>
     map_valid always (WebRequest.Parameters strct) \<and>
     ptr_all PropertyBag_valid (WebRequest.Properties strct)"

lemma WebRequest_keys_distinct: "distinct WebRequest_keys"
  by (simp add: WebRequest_keys_def)

lemma WebRequest_round_trips:
  "round_trips_object (WebRequest_MarshalJSON scn ord) (WebRequest_UnmarshalJSON ord') WebRequest_valid"
  unfolding round_trips_object_def
proof (intro allI impI)
  fix strct assume v: "WebRequest_valid strct"
  note v' = v [unfolded WebRequest_valid_def]
  let ?rs = "WebRequest_results scn ord strct"
  let ?kvs = "map (\<lambda>e. (fst e, projr (snd e))) ?rs"
  have f0: "\<not> isl (json_Marshal_ptr ''*sarif.ArtifactContent'' (ArtifactContent_MarshalJSON scn ord) (WebRequest.Body strct)) \<and>
      json_Unmarshal_ptr (ArtifactContent_UnmarshalJSON ord') (projr (json_Marshal_ptr ''*sarif.ArtifactContent'' (ArtifactContent_MarshalJSON scn ord) (WebRequest.Body strct))) = Inr (WebRequest.Body strct)"
    by (rule round_tripsD [OF round_trips_ptr [OF ArtifactContent_round_trips]]) (use v' in simp)
  have f1: "\<not> isl (json_Marshal_map json_Marshal_string (WebRequest.Headers strct)) \<and>
      json_Unmarshal_map json_Unmarshal_string (projr (json_Marshal_map json_Marshal_string (WebRequest.Headers strct))) = Inr (WebRequest.Headers strct)"
    by (rule round_tripsD [OF round_trips_map [OF round_trips_string]]) (use v' in simp)
  have f2: "\<not> isl (json_Marshal_int (WebRequest.Index strct)) \<and>
      json_Unmarshal_int (projr (json_Marshal_int (WebRequest.Index strct))) = Inr (WebRequest.Index strct)"
    by (rule round_tripsD [OF round_trips_int]) (use v' in simp)
  have f3: "\<not> isl (json_Marshal_string (WebRequest.Method strct)) \<and>
      json_Unmarshal_string (projr (json_Marshal_string (WebRequest.Method strct))) = Inr (WebRequest.Method strct)"
    by (rule round_tripsD [OF round_trips_string]) (use v' in simp)
  have f4: "\<not> isl (json_Marshal_map json_Marshal_string (WebRequest.Parameters strct)) \<and>
      json_Unmarshal_map json_Unmarshal_string (projr (json_Marshal_map json_Marshal_string (WebRequest.Parameters strct))) = Inr (WebRequest.Parameters strct)"
    by (rule round_tripsD [OF round_trips_map [OF round_trips_string]]) (use v' in simp)
  have f5: "\<not> isl (json_Marshal_bytes ''*sarif.PropertyBag'' (PropertyBag_MarshalJSON scn ord) (WebRequest.Properties strct)) \<and>
      json_Unmarshal_ptr (PropertyBag_UnmarshalJSON ord') (projr (json_Marshal_bytes ''*sarif.PropertyBag'' (PropertyBag_MarshalJSON scn ord) (WebRequest.Properties strct))) = Inr (WebRequest.Properties strct)"
    by (rule round_tripsD [OF PropertyBag_field_round_trips]) (use v' in simp)
  have f6: "\<not> isl (json_Marshal_string (WebRequest.Protocol strct)) \<and>
      json_Unmarshal_string (projr (json_Marshal_string (WebRequest.Protocol strct))) = Inr (WebRequest.Protocol strct)"
    by (rule round_tripsD [OF round_trips_string]) (use v' in simp)
  have f7: "\<not> isl (json_Marshal_string (WebRequest.Target strct)) \<and>
      json_Unmarshal_string (projr (json_Marshal_string (WebRequest.Target strct))) = Inr (WebRequest.Target strct)"
    by (rule round_tripsD [OF round_trips_string]) (use v' in simp)
  have f8: "\<not> isl (json_Marshal_string (WebRequest.Version strct)) \<and>
      json_Unmarshal_string (projr (json_Marshal_string (WebRequest.Version strct))) = Inr (WebRequest.Version strct)"
    by (rule round_tripsD [OF round_trips_string]) (use v' in simp)
  note fs = f0 f1 f2 f3 f4 f5 f6 f7 f8
  have rs: "?rs =
     [(''body'', json_Marshal_ptr ''*sarif.ArtifactContent'' (ArtifactContent_MarshalJSON scn ord) (WebRequest.Body strct)),
      (''headers'', json_Marshal_map json_Marshal_string (WebRequest.Headers strct)),
      (''index'', json_Marshal_int (WebRequest.Index strct)),
      (''method'', json_Marshal_string (WebRequest.Method strct)),
      (''parameters'', json_Marshal_map json_Marshal_string (WebRequest.Parameters strct)),
      (''properties'', json_Marshal_bytes ''*sarif.PropertyBag'' (PropertyBag_MarshalJSON scn ord) (WebRequest.Properties strct)),
      (''protocol'', json_Marshal_string (WebRequest.Protocol strct)),
      (''target'', json_Marshal_string (WebRequest.Target strct)),
      (''version'', json_Marshal_string (WebRequest.Version strct))]"
    by (auto simp add: WebRequest_results_def)
  have keys: "map fst ?rs = WebRequest_keys"
    by (simp add: WebRequest_results_def WebRequest_keys_def)
  then have dist: "distinct (map fst ?rs)"
    by (simp only: WebRequest_keys_distinct)
  have ok: "list_all (\<lambda>e. \<not> isl (snd e)) ?rs"
    unfolding rs by (simp only: list.pred_inject snd_conv fs simp_thms)
  then have enc: "WebRequest_MarshalJSON scn ord strct = Inr (JObj ?kvs)"
    by (simp add: WebRequest_MarshalJSON_results [of scn ord strct] object_emit_all_eq_Inr)
  have l0: "map_of (rev ?kvs) ''body'' = Some (projr (json_Marshal_ptr ''*sarif.ArtifactContent'' (ArtifactContent_MarshalJSON scn ord) (WebRequest.Body strct)))"
    by (rule written_lookup [OF dist]) (subst rs, intro list.set_intros)
  have l1: "map_of (rev ?kvs) ''headers'' = Some (projr (json_Marshal_map json_Marshal_string (WebRequest.Headers strct)))"
    by (rule written_lookup [OF dist]) (subst rs, intro list.set_intros)
  have l2: "map_of (rev ?kvs) ''index'' = Some (projr (json_Marshal_int (WebRequest.Index strct)))"
    by (rule written_lookup [OF dist]) (subst rs, intro list.set_intros)
  have l3: "map_of (rev ?kvs) ''method'' = Some (projr (json_Marshal_string (WebRequest.Method strct)))"
    by (rule written_lookup [OF dist]) (subst rs, intro list.set_intros)
  have l4: "map_of (rev ?kvs) ''parameters'' = Some (projr (json_Marshal_map json_Marshal_string (WebRequest.Parameters strct)))"
    by (rule written_lookup [OF dist]) (subst rs, intro list.set_intros)
  have l5: "map_of (rev ?kvs) ''properties'' = Some (projr (json_Marshal_bytes ''*sarif.PropertyBag'' (PropertyBag_MarshalJSON scn ord) (WebRequest.Properties strct)))"
    by (rule written_lookup [OF dist]) (subst rs, intro list.set_intros)
  have l6: "map_of (rev ?kvs) ''protocol'' = Some (projr (json_Marshal_string (WebRequest.Protocol strct)))"
    by (rule written_lookup [OF dist]) (subst rs, intro list.set_intros)
  have l7: "map_of (rev ?kvs) ''target'' = Some (projr (json_Marshal_string (WebRequest.Target strct)))"
    by (rule written_lookup [OF dist]) (subst rs, intro list.set_intros)
  have l8: "map_of (rev ?kvs) ''version'' = Some (projr (json_Marshal_string (WebRequest.Version strct)))"
    by (rule written_lookup [OF dist]) (subst rs, intro list.set_intros)
  have dec: "WebRequest_decodes ord' (map_of (rev ?kvs)) strct"
    unfolding WebRequest_decodes_def l0 l1 l2 l3 l4 l5 l6 l7 l8
    by (simp only: field_ok_Some fs written_dom keys subset_refl option.simps simp_thms)
  then have "WebRequest_UnmarshalJSON ord' (JObj ?kvs) = Inr strct"
    by (simp only: WebRequest_decode_iff)
  with enc show "rt_object (WebRequest_MarshalJSON scn ord) (WebRequest_UnmarshalJSON ord') strct"
    unfolding rt_object_def by blast
qed

definition WebRequest_small_bags :: "WebRequest \<Rightarrow> bool" where
  "WebRequest_small_bags strct \<longleftrightarrow>
     ptr_all ArtifactContent_small_bags (WebRequest.Body strct) \<and>
     ptr_all PropertyBag_small_bags (WebRequest.Properties strct)"

lemma WebRequest_same_output:
  "same_output (WebRequest_MarshalJSON scn ord) (WebRequest_MarshalJSON scn ord') WebRequest_small_bags"
  unfolding same_output_def
proof (intro allI impI)
  fix strct assume v: "WebRequest_small_bags strct"
  note v' = v [unfolded WebRequest_small_bags_def]
  have e0: "json_Marshal_ptr ''*sarif.ArtifactContent'' (ArtifactContent_MarshalJSON scn ord) (WebRequest.Body strct) =
      json_Marshal_ptr ''*sarif.ArtifactContent'' (ArtifactContent_MarshalJSON scn ord') (WebRequest.Body strct)"
    by (rule same_outputD [OF same_output_ptr [OF ArtifactContent_same_output]]) (use v' in simp)
  have e5: "json_Marshal_bytes ''*sarif.PropertyBag'' (PropertyBag_MarshalJSON scn ord) (WebRequest.Properties strct) =
      json_Marshal_bytes ''*sarif.PropertyBag'' (PropertyBag_MarshalJSON scn ord') (WebRequest.Properties strct)"
    by (rule same_outputD [OF PropertyBag_field_same_output]) (use v' in simp)
  show "WebRequest_MarshalJSON scn ord strct = WebRequest_MarshalJSON scn ord' strct"
    by (simp only: WebRequest_MarshalJSON_def e0 e5)
qed

lemma WebRequest_writes_keys: "writes_keys (WebRequest_MarshalJSON scn ord) WebRequest_keys"
  unfolding writes_keys_def by (intro allI impI) (erule WebRequest_keys_written)

lemma WebRequest_unknown_key:
  assumes new: "k \<notin> set WebRequest_keys" and key: "k \<in> fst ` set kvs"
    and rest: "WebRequest_UnmarshalJSON ord (JObj (filter (\<lambda>e. fst e \<noteq> k) kvs)) = Inr strct"
  shows "WebRequest_UnmarshalJSON ord (JObj kvs) = Inl (not_allowed k)"
proof -
  have rej: "switch k (WebRequest_cases ord v) (reject k) s = Inl (not_allowed k)" for v s
    by (rule switch_rejects) (simp only: WebRequest_cases_keys new not_False_eq_True)
  from rest obtain t where
    "range_loop (\<lambda>k v. switch k (WebRequest_cases ord v) (reject k)) (members ord (filter (\<lambda>e. fst e \<noteq> k) kvs)) WebRequest_zero = Inr t"
    by (cases "range_loop (\<lambda>k v. switch k (WebRequest_cases ord v) (reject k)) (members ord (filter (\<lambda>e. fst e \<noteq> k) kvs)) WebRequest_zero")
       (simp_all add: WebRequest_UnmarshalJSON_def members_def)
  from unknown_key_named [OF WebRequest_regular rej key this]
  show ?thesis by (simp add: WebRequest_UnmarshalJSON_def members_def)
qed

lemma WebRequest_unknown_key_fails:
  assumes "k \<notin> set WebRequest_keys" and "k \<in> fst ` set kvs"
  shows "isl (WebRequest_UnmarshalJSON ord (JObj kvs))"
proof (cases "WebRequest_UnmarshalJSON ord (JObj kvs)")
  case (Inr strct)
  then have "dom (map_of (rev kvs)) \<subseteq> set WebRequest_keys"
    by (simp only: WebRequest_decode_iff WebRequest_decodesD(1))
  with assms show ?thesis by (auto simp: dom_map_of_conv_image_fst)
qed simp

lemma WebRequest_rejects_unknown_keys: "rejects_unknown_keys (WebRequest_UnmarshalJSON ord) WebRequest_keys"
  by (rule rejects_unknown_keysI) (erule (1) WebRequest_unknown_key_fails, erule (2) WebRequest_unknown_key)

subsection \<open>WebResponse: decoding and encoding\<close>

definition WebResponse_keys :: "string list" where
  "WebResponse_keys = [''body'', ''headers'', ''index'', ''noResponseReceived'', ''properties'', ''protocol'', ''reasonPhrase'', ''statusCode'', ''version'']"

definition WebResponse_decodes :: "order \<Rightarrow> (string \<rightharpoonup> json) \<Rightarrow> WebResponse \<Rightarrow> bool" where
  "WebResponse_decodes ord m strct \<longleftrightarrow>
     dom m \<subseteq> set WebResponse_keys \<and>
     field_ok (json_Unmarshal_ptr (ArtifactContent_UnmarshalJSON ord)) (m ''body'') None (WebResponse.Body strct) \<and>
     field_ok (json_Unmarshal_map json_Unmarshal_string) (m ''headers'') None (WebResponse.Headers strct) \<and>
     field_ok json_Unmarshal_int (m ''index'') 0 (WebResponse.Index strct) \<and>
     field_ok json_Unmarshal_bool (m ''noResponseReceived'') False (WebResponse.NoResponseReceived strct) \<and>
     field_ok (json_Unmarshal_ptr (PropertyBag_UnmarshalJSON ord)) (m ''properties'') None (WebResponse.Properties strct) \<and>
     field_ok json_Unmarshal_string (m ''protocol'') [] (WebResponse.Protocol strct) \<and>
     field_ok json_Unmarshal_string (m ''reasonPhrase'') [] (WebResponse.ReasonPhrase strct) \<and>
     field_ok json_Unmarshal_int (m ''statusCode'') 0 (WebResponse.StatusCode strct) \<and>
     field_ok json_Unmarshal_string (m ''version'') [] (WebResponse.Version strct)"

lemma WebResponse_cases_keys: "fst ` set (WebResponse_cases ord v) = set WebResponse_keys"
  by (rule keys_image) (simp add: WebResponse_cases_def WebResponse_keys_def)

lemma WebResponse_regular: "regular (\<lambda>k v. switch k (WebResponse_cases ord v) (reject k))"
  by (rule regular_switch) (simp add: WebResponse_cases_def)

lemma WebResponse_fields:
  "field_case (WebResponse_cases ord) WebResponse.Body ''body'' (json_Unmarshal_ptr (ArtifactContent_UnmarshalJSON ord))"
  "field_case (WebResponse_cases ord) WebResponse.Headers ''headers'' (json_Unmarshal_map json_Unmarshal_string)"
  "field_case (WebResponse_cases ord) WebResponse.Index ''index'' json_Unmarshal_int"
  "field_case (WebResponse_cases ord) WebResponse.NoResponseReceived ''noResponseReceived'' json_Unmarshal_bool"
  "field_case (WebResponse_cases ord) WebResponse.Properties ''properties'' (json_Unmarshal_ptr (PropertyBag_UnmarshalJSON ord))"
  "field_case (WebResponse_cases ord) WebResponse.Protocol ''protocol'' json_Unmarshal_string"
  "field_case (WebResponse_cases ord) WebResponse.ReasonPhrase ''reasonPhrase'' json_Unmarshal_string"
  "field_case (WebResponse_cases ord) WebResponse.StatusCode ''statusCode'' json_Unmarshal_int"
  "field_case (WebResponse_cases ord) WebResponse.Version ''version'' json_Unmarshal_string"
  unfolding field_case_def WebResponse_cases_def
  by (simp_all add: writes_into writes_received keeps_into split_def)

lemma WebResponse_loop_sound:
  assumes loop: "range_loop (\<lambda>k v. switch k (WebResponse_cases ord v) (reject k)) (members ord kvs) WebResponse_zero = Inr strct"
  shows "dom (map_of (rev kvs)) \<subseteq> set WebResponse_keys \<and>
     field_ok (json_Unmarshal_ptr (ArtifactContent_UnmarshalJSON ord)) (map_of (rev kvs) ''body'') None (WebResponse.Body strct) \<and>
     field_ok (json_Unmarshal_map json_Unmarshal_string) (map_of (rev kvs) ''headers'') None (WebResponse.Headers strct) \<and>
     field_ok json_Unmarshal_int (map_of (rev kvs) ''index'') 0 (WebResponse.Index strct) \<and>
     field_ok json_Unmarshal_bool (map_of (rev kvs) ''noResponseReceived'') False (WebResponse.NoResponseReceived strct) \<and>
     field_ok (json_Unmarshal_ptr (PropertyBag_UnmarshalJSON ord)) (map_of (rev kvs) ''properties'') None (WebResponse.Properties strct) \<and>
     field_ok json_Unmarshal_string (map_of (rev kvs) ''protocol'') [] (WebResponse.Protocol strct) \<and>
     field_ok json_Unmarshal_string (map_of (rev kvs) ''reasonPhrase'') [] (WebResponse.ReasonPhrase strct) \<and>
     field_ok json_Unmarshal_int (map_of (rev kvs) ''statusCode'') 0 (WebResponse.StatusCode strct) \<and>
     field_ok json_Unmarshal_string (map_of (rev kvs) ''version'') [] (WebResponse.Version strct)"
proof -
  have "fst ` set (members ord kvs) \<subseteq> set WebResponse_keys"
    by (rule loop_keys_known [OF loop]) (rule WebResponse_cases_keys)
  then have keys: "dom (map_of (rev kvs)) \<subseteq> set WebResponse_keys"
    by (simp add: dom_members [of kvs ord])
  note fld = field_after_loop [OF _ members_distinct loop, unfolded map_of_members]
  show ?thesis
    using keys fld [OF WebResponse_fields(1)] fld [OF WebResponse_fields(2)] fld [OF WebResponse_fields(3)] fld [OF WebResponse_fields(4)] fld [OF WebResponse_fields(5)] fld [OF WebResponse_fields(6)] fld [OF WebResponse_fields(7)] fld [OF WebResponse_fields(8)] fld [OF WebResponse_fields(9)] 
    by (simp only: prod.case WebResponse_zero_def WebResponse.select_convs simp_thms)
qed

lemma WebResponse_decodesD:
  assumes "WebResponse_decodes ord m strct"
  shows "dom m \<subseteq> set WebResponse_keys"
    and "field_ok (json_Unmarshal_ptr (ArtifactContent_UnmarshalJSON ord)) (m ''body'') None (WebResponse.Body strct)"
    and "field_ok (json_Unmarshal_map json_Unmarshal_string) (m ''headers'') None (WebResponse.Headers strct)"
    and "field_ok json_Unmarshal_int (m ''index'') 0 (WebResponse.Index strct)"
    and "field_ok json_Unmarshal_bool (m ''noResponseReceived'') False (WebResponse.NoResponseReceived strct)"
    and "field_ok (json_Unmarshal_ptr (PropertyBag_UnmarshalJSON ord)) (m ''properties'') None (WebResponse.Properties strct)"
    and "field_ok json_Unmarshal_string (m ''protocol'') [] (WebResponse.Protocol strct)"
    and "field_ok json_Unmarshal_string (m ''reasonPhrase'') [] (WebResponse.ReasonPhrase strct)"
    and "field_ok json_Unmarshal_int (m ''statusCode'') 0 (WebResponse.StatusCode strct)"
    and "field_ok json_Unmarshal_string (m ''version'') [] (WebResponse.Version strct)"
  using assms unfolding WebResponse_decodes_def by - (elim conjE, assumption)+

lemma WebResponse_decodes_unique:
  assumes "WebResponse_decodes ord m a" and "WebResponse_decodes ord m b"
  shows "a = b"
  apply (rule WebResponse.equality)
  apply (rule field_ok_unique [OF WebResponse_decodesD(2) [OF assms(1)] WebResponse_decodesD(2) [OF assms(2)]])
  apply (rule field_ok_unique [OF WebResponse_decodesD(3) [OF assms(1)] WebResponse_decodesD(3) [OF assms(2)]])
  apply (rule field_ok_unique [OF WebResponse_decodesD(4) [OF assms(1)] WebResponse_decodesD(4) [OF assms(2)]])
  apply (rule field_ok_unique [OF WebResponse_decodesD(5) [OF assms(1)] WebResponse_decodesD(5) [OF assms(2)]])
  apply (rule field_ok_unique [OF WebResponse_decodesD(6) [OF assms(1)] WebResponse_decodesD(6) [OF assms(2)]])
  apply (rule field_ok_unique [OF WebResponse_decodesD(7) [OF assms(1)] WebResponse_decodesD(7) [OF assms(2)]])
  apply (rule field_ok_unique [OF WebResponse_decodesD(8) [OF assms(1)] WebResponse_decodesD(8) [OF assms(2)]])
  apply (rule field_ok_unique [OF WebResponse_decodesD(9) [OF assms(1)] WebResponse_decodesD(9) [OF assms(2)]])
  apply (rule field_ok_unique [OF WebResponse_decodesD(10) [OF assms(1)] WebResponse_decodesD(10) [OF assms(2)]])
  apply simp
  done

lemma WebResponse_accepts:
  assumes "WebResponse_decodes ord m strct" and "m k = Some v"
  shows "accepting (switch k (WebResponse_cases ord v) (reject k))"
proof -
  from assms have "k \<in> set WebResponse_keys" by (auto simp: WebResponse_decodes_def)
  then have key: "k \<in> fst ` set (WebResponse_cases ord v)"
    by (simp only: WebResponse_cases_keys)
  have rows: "list_all (\<lambda>(c, h). m c = Some v \<longrightarrow> accepting h) (WebResponse_cases ord v)"
    unfolding WebResponse_cases_def list.pred_inject
    apply (rule conjI [OF accept_row [where m = m and v = v, OF WebResponse_decodesD(2) [OF assms(1)]]])
    apply (rule conjI [OF accept_row [where m = m and v = v, OF WebResponse_decodesD(3) [OF assms(1)]]])
    apply (rule conjI [OF accept_row [where m = m and v = v, OF WebResponse_decodesD(4) [OF assms(1)]]])
    apply (rule conjI [OF accept_row [where m = m and v = v, OF WebResponse_decodesD(5) [OF assms(1)]]])
    apply (rule conjI [OF accept_row [where m = m and v = v, OF WebResponse_decodesD(6) [OF assms(1)]]])
    apply (rule conjI [OF accept_row [where m = m and v = v, OF WebResponse_decodesD(7) [OF assms(1)]]])
    apply (rule conjI [OF accept_row [where m = m and v = v, OF WebResponse_decodesD(8) [OF assms(1)]]])
    apply (rule conjI [OF accept_row [where m = m and v = v, OF WebResponse_decodesD(9) [OF assms(1)]]])
    apply (rule conjI [OF accept_row [where m = m and v = v, OF WebResponse_decodesD(10) [OF assms(1)]]])
    apply simp
    done
  show ?thesis by (rule rows_accept [OF rows assms(2) key])
qed

lemma WebResponse_decode_iff:
  "WebResponse_UnmarshalJSON ord (JObj kvs) = Inr strct \<longleftrightarrow>
   WebResponse_decodes ord (map_of (rev kvs)) strct"
proof
  assume "WebResponse_UnmarshalJSON ord (JObj kvs) = Inr strct"
  then have loop: "range_loop (\<lambda>k v. switch k (WebResponse_cases ord v) (reject k)) (members ord kvs) WebResponse_zero = Inr strct"
    by (auto simp: WebResponse_UnmarshalJSON_def members_def split: sum.splits)
  from WebResponse_loop_sound [OF loop]
  show "WebResponse_decodes ord (map_of (rev kvs)) strct"
    by (simp add: WebResponse_decodes_def)
next
  assume d: "WebResponse_decodes ord (map_of (rev kvs)) strct"
  have "\<exists>t. range_loop (\<lambda>k v. switch k (WebResponse_cases ord v) (reject k)) (members ord kvs) WebResponse_zero = Inr t"
  proof (rule loop_succeeds [OF WebResponse_regular])
    fix k v assume "(k, v) \<in> set (members ord kvs)"
    then have "map_of (rev kvs) k = Some v" by (rule member_lookup)
    from WebResponse_accepts [OF d this]
    show "accepting (switch k (WebResponse_cases ord v) (reject k))" .
  qed
  then obtain strct' where
    loop: "range_loop (\<lambda>k v. switch k (WebResponse_cases ord v) (reject k)) (members ord kvs) WebResponse_zero = Inr strct'" ..
  from WebResponse_loop_sound [OF loop]
  have d': "WebResponse_decodes ord (map_of (rev kvs)) strct'"
    by (simp add: WebResponse_decodes_def)
  from WebResponse_decodes_unique [OF d' d] have "strct' = strct" .
  with loop show "WebResponse_UnmarshalJSON ord (JObj kvs) = Inr strct"
    by (simp add: WebResponse_UnmarshalJSON_def members_def)
qed

definition WebResponse_results :: "scanner \<Rightarrow> order \<Rightarrow> WebResponse \<Rightarrow> (string \<times> (error + json)) list" where
  "WebResponse_results scn ord strct =
     [(''body'', json_Marshal_ptr ''*sarif.ArtifactContent'' (ArtifactContent_MarshalJSON scn ord) (WebResponse.Body strct)),
      (''headers'', json_Marshal_map json_Marshal_string (WebResponse.Headers strct)),
      (''index'', json_Marshal_int (WebResponse.Index strct)),
      (''noResponseReceived'', json_Marshal_bool (WebResponse.NoResponseReceived strct)),
      (''properties'', json_Marshal_bytes ''*sarif.PropertyBag'' (PropertyBag_MarshalJSON scn ord) (WebResponse.Properties strct)),
      (''protocol'', json_Marshal_string (WebResponse.Protocol strct)),
      (''reasonPhrase'', json_Marshal_string (WebResponse.ReasonPhrase strct)),
      (''statusCode'', json_Marshal_int (WebResponse.StatusCode strct)),
      (''version'', json_Marshal_string (WebResponse.Version strct))]"

lemma WebResponse_MarshalJSON_results:
  "WebResponse_MarshalJSON scn ord strct = object (emit_all (WebResponse_results scn ord strct))"
  by (simp add: WebResponse_MarshalJSON_def WebResponse_results_def emit_nilcheck)

lemma WebResponse_keys_written:
  "WebResponse_MarshalJSON scn ord strct = Inr j \<Longrightarrow> \<exists>kvs. j = JObj kvs \<and> map fst kvs = WebResponse_keys"
  using keys_written [of "WebResponse_results scn ord strct" j]
  by (simp add: WebResponse_MarshalJSON_results WebResponse_results_def WebResponse_keys_def)

definition WebResponse_encodable :: "scanner \<Rightarrow> order \<Rightarrow> WebResponse \<Rightarrow> bool" where
  "WebResponse_encodable scn ord strct \<longleftrightarrow>
     ptr_all (ArtifactContent_encodable scn ord) (WebResponse.Body strct) \<and>
     ptr_all (PropertyBag_encodable scn ord) (WebResponse.Properties strct)"

lemma WebResponse_fails_unless: "fails_unless (WebResponse_MarshalJSON scn ord) (WebResponse_encodable scn ord)"
  unfolding fails_unless_def WebResponse_MarshalJSON_results WebResponse_results_def WebResponse_encodable_def isl_object_emit_all
  by (auto simp add: always_simps
      fails_unlessD [OF fails_unless_ptr [OF ArtifactContent_fails_unless]]
      fails_unlessD [OF fails_unless_map [OF fails_unless_string]]
      fails_unlessD [OF fails_unless_int]
      fails_unlessD [OF fails_unless_bool]
      fails_unlessD [OF PropertyBag_field_fails_unless]
      fails_unlessD [OF fails_unless_string])

definition WebResponse_valid :: "WebResponse \<Rightarrow> bool" where
  "WebResponse_valid strct \<longleftrightarrow>
     ptr_all ArtifactContent_valid (WebResponse.Body strct) \<and>
     map_valid always (WebResponse.Headers strct) \<and>
     ptr_all PropertyBag_valid (WebResponse.Properties strct)"

lemma WebResponse_keys_distinct: "distinct WebResponse_keys"
  by (simp add: WebResponse_keys_def)

lemma WebResponse_round_trips:
  "round_trips_object (WebResponse_MarshalJSON scn ord) (WebResponse_UnmarshalJSON ord') WebResponse_valid"
  unfolding round_trips_object_def
proof (intro allI impI)
  fix strct assume v: "WebResponse_valid strct"
  note v' = v [unfolded WebResponse_valid_def]
  let ?rs = "WebResponse_results scn ord strct"
  let ?kvs = "map (\<lambda>e. (fst e, projr (snd e))) ?rs"
  have f0: "\<not> isl (json_Marshal_ptr ''*sarif.ArtifactContent'' (ArtifactContent_MarshalJSON scn ord) (WebResponse.Body strct)) \<and>
      json_Unmarshal_ptr (ArtifactContent_UnmarshalJSON ord') (projr (json_Marshal_ptr ''*sarif.ArtifactContent'' (ArtifactContent_MarshalJSON scn ord) (WebResponse.Body strct))) = Inr (WebResponse.Body strct)"
    by (rule round_tripsD [OF round_trips_ptr [OF ArtifactContent_round_trips]]) (use v' in simp)
  have f1: "\<not> isl (json_Marshal_map json_Marshal_string (WebResponse.Headers strct)) \<and>
      json_Unmarshal_map json_Unmarshal_string (projr (json_Marshal_map json_Marshal_string (WebResponse.Headers strct))) = Inr (WebResponse.Headers strct)"
    by (rule round_tripsD [OF round_trips_map [OF round_trips_string]]) (use v' in simp)
  have f2: "\<not> isl (json_Marshal_int (WebResponse.Index strct)) \<and>
      json_Unmarshal_int (projr (json_Marshal_int (WebResponse.Index strct))) = Inr (WebResponse.Index strct)"
    by (rule round_tripsD [OF round_trips_int]) (use v' in simp)
  have f3: "\<not> isl (json_Marshal_bool (WebResponse.NoResponseReceived strct)) \<and>
      json_Unmarshal_bool (projr (json_Marshal_bool (WebResponse.NoResponseReceived strct))) = Inr (WebResponse.NoResponseReceived strct)"
    by (rule round_tripsD [OF round_trips_bool]) (use v' in simp)
  have f4: "\<not> isl (json_Marshal_bytes ''*sarif.PropertyBag'' (PropertyBag_MarshalJSON scn ord) (WebResponse.Properties strct)) \<and>
      json_Unmarshal_ptr (PropertyBag_UnmarshalJSON ord') (projr (json_Marshal_bytes ''*sarif.PropertyBag'' (PropertyBag_MarshalJSON scn ord) (WebResponse.Properties strct))) = Inr (WebResponse.Properties strct)"
    by (rule round_tripsD [OF PropertyBag_field_round_trips]) (use v' in simp)
  have f5: "\<not> isl (json_Marshal_string (WebResponse.Protocol strct)) \<and>
      json_Unmarshal_string (projr (json_Marshal_string (WebResponse.Protocol strct))) = Inr (WebResponse.Protocol strct)"
    by (rule round_tripsD [OF round_trips_string]) (use v' in simp)
  have f6: "\<not> isl (json_Marshal_string (WebResponse.ReasonPhrase strct)) \<and>
      json_Unmarshal_string (projr (json_Marshal_string (WebResponse.ReasonPhrase strct))) = Inr (WebResponse.ReasonPhrase strct)"
    by (rule round_tripsD [OF round_trips_string]) (use v' in simp)
  have f7: "\<not> isl (json_Marshal_int (WebResponse.StatusCode strct)) \<and>
      json_Unmarshal_int (projr (json_Marshal_int (WebResponse.StatusCode strct))) = Inr (WebResponse.StatusCode strct)"
    by (rule round_tripsD [OF round_trips_int]) (use v' in simp)
  have f8: "\<not> isl (json_Marshal_string (WebResponse.Version strct)) \<and>
      json_Unmarshal_string (projr (json_Marshal_string (WebResponse.Version strct))) = Inr (WebResponse.Version strct)"
    by (rule round_tripsD [OF round_trips_string]) (use v' in simp)
  note fs = f0 f1 f2 f3 f4 f5 f6 f7 f8
  have rs: "?rs =
     [(''body'', json_Marshal_ptr ''*sarif.ArtifactContent'' (ArtifactContent_MarshalJSON scn ord) (WebResponse.Body strct)),
      (''headers'', json_Marshal_map json_Marshal_string (WebResponse.Headers strct)),
      (''index'', json_Marshal_int (WebResponse.Index strct)),
      (''noResponseReceived'', json_Marshal_bool (WebResponse.NoResponseReceived strct)),
      (''properties'', json_Marshal_bytes ''*sarif.PropertyBag'' (PropertyBag_MarshalJSON scn ord) (WebResponse.Properties strct)),
      (''protocol'', json_Marshal_string (WebResponse.Protocol strct)),
      (''reasonPhrase'', json_Marshal_string (WebResponse.ReasonPhrase strct)),
      (''statusCode'', json_Marshal_int (WebResponse.StatusCode strct)),
      (''version'', json_Marshal_string (WebResponse.Version strct))]"
    by (auto simp add: WebResponse_results_def)
  have keys: "map fst ?rs = WebResponse_keys"
    by (simp add: WebResponse_results_def WebResponse_keys_def)
  then have dist: "distinct (map fst ?rs)"
    by (simp only: WebResponse_keys_distinct)
  have ok: "list_all (\<lambda>e. \<not> isl (snd e)) ?rs"
    unfolding rs by (simp only: list.pred_inject snd_conv fs simp_thms)
  then have enc: "WebResponse_MarshalJSON scn ord strct = Inr (JObj ?kvs)"
    by (simp add: WebResponse_MarshalJSON_results [of scn ord strct] object_emit_all_eq_Inr)
  have l0: "map_of (rev ?kvs) ''body'' = Some (projr (json_Marshal_ptr ''*sarif.ArtifactContent'' (ArtifactContent_MarshalJSON scn ord) (WebResponse.Body strct)))"
    by (rule written_lookup [OF dist]) (subst rs, intro list.set_intros)
  have l1: "map_of (rev ?kvs) ''headers'' = Some (projr (json_Marshal_map json_Marshal_string (WebResponse.Headers strct)))"
    by (rule written_lookup [OF dist]) (subst rs, intro list.set_intros)
  have l2: "map_of (rev ?kvs) ''index'' = Some (projr (json_Marshal_int (WebResponse.Index strct)))"
    by (rule written_lookup [OF dist]) (subst rs, intro list.set_intros)
  have l3: "map_of (rev ?kvs) ''noResponseReceived'' = Some (projr (json_Marshal_bool (WebResponse.NoResponseReceived strct)))"
    by (rule written_lookup [OF dist]) (subst rs, intro list.set_intros)
  have l4: "map_of (rev ?kvs) ''properties'' = Some (projr (json_Marshal_bytes ''*sarif.PropertyBag'' (PropertyBag_MarshalJSON scn ord) (WebResponse.Properties strct)))"
    by (rule written_lookup [OF dist]) (subst rs, intro list.set_intros)
  have l5: "map_of (rev ?kvs) ''protocol'' = Some (projr (json_Marshal_string (WebResponse.Protocol strct)))"
    by (rule written_lookup [OF dist]) (subst rs, intro list.set_intros)
  have l6: "map_of (rev ?kvs) ''reasonPhrase'' = Some (projr (json_Marshal_string (WebResponse.ReasonPhrase strct)))"
    by (rule written_lookup [OF dist]) (subst rs, intro list.set_intros)
  have l7: "map_of (rev ?kvs) ''statusCode'' = Some (projr (json_Marshal_int (WebResponse.StatusCode strct)))"
    by (rule written_lookup [OF dist]) (subst rs, intro list.set_intros)
  have l8: "map_of (rev ?kvs) ''version'' = Some (projr (json_Marshal_string (WebResponse.Version strct)))"
    by (rule written_lookup [OF dist]) (subst rs, intro list.set_intros)
  have dec: "WebResponse_decodes ord' (map_of (rev ?kvs)) strct"
    unfolding WebResponse_decodes_def l0 l1 l2 l3 l4 l5 l6 l7 l8
    by (simp only: field_ok_Some fs written_dom keys subset_refl option.simps simp_thms)
  then have "WebResponse_UnmarshalJSON ord' (JObj ?kvs) = Inr strct"
    by (simp only: WebResponse_decode_iff)
  with enc show "rt_object (WebResponse_MarshalJSON scn ord) (WebResponse_UnmarshalJSON ord') strct"
    unfolding rt_object_def by blast
qed

definition WebResponse_small_bags :: "WebResponse \<Rightarrow> bool" where
  "WebResponse_small_bags strct \<longleftrightarrow>
     ptr_all ArtifactContent_small_bags (WebResponse.Body strct) \<and>
     ptr_all PropertyBag_small_bags (WebResponse.Properties strct)"

lemma WebResponse_same_output:
  "same_output (WebResponse_MarshalJSON scn ord) (WebResponse_MarshalJSON scn ord') WebResponse_small_bags"
  unfolding same_output_def
proof (intro allI impI)
  fix strct assume v: "WebResponse_small_bags strct"
  note v' = v [unfolded WebResponse_small_bags_def]
  have e0: "json_Marshal_ptr ''*sarif.ArtifactContent'' (ArtifactContent_MarshalJSON scn ord) (WebResponse.Body strct) =
      json_Marshal_ptr ''*sarif.ArtifactContent'' (ArtifactContent_MarshalJSON scn ord') (WebResponse.Body strct)"
    by (rule same_outputD [OF same_output_ptr [OF ArtifactContent_same_output]]) (use v' in simp)
  have e4: "json_Marshal_bytes ''*sarif.PropertyBag'' (PropertyBag_MarshalJSON scn ord) (WebResponse.Properties strct) =
      json_Marshal_bytes ''*sarif.PropertyBag'' (PropertyBag_MarshalJSON scn ord') (WebResponse.Properties strct)"
    by (rule same_outputD [OF PropertyBag_field_same_output]) (use v' in simp)
  show "WebResponse_MarshalJSON scn ord strct = WebResponse_MarshalJSON scn ord' strct"
    by (simp only: WebResponse_MarshalJSON_def e0 e4)
qed

lemma WebResponse_writes_keys: "writes_keys (WebResponse_MarshalJSON scn ord) WebResponse_keys"
  unfolding writes_keys_def by (intro allI impI) (erule WebResponse_keys_written)

lemma WebResponse_unknown_key:
  assumes new: "k \<notin> set WebResponse_keys" and key: "k \<in> fst ` set kvs"
    and rest: "WebResponse_UnmarshalJSON ord (JObj (filter (\<lambda>e. fst e \<noteq> k) kvs)) = Inr strct"
  shows "WebResponse_UnmarshalJSON ord (JObj kvs) = Inl (not_allowed k)"
proof -
  have rej: "switch k (WebResponse_cases ord v) (reject k) s = Inl (not_allowed k)" for v s
    by (rule switch_rejects) (simp only: WebResponse_cases_keys new not_False_eq_True)
  from rest obtain t where
    "range_loop (\<lambda>k v. switch k (WebResponse_cases ord v) (reject k)) (members ord (filter (\<lambda>e. fst e \<noteq> k) kvs)) WebResponse_zero = Inr t"
    by (cases "range_loop (\<lambda>k v. switch k (WebResponse_cases ord v) (reject k)) (members ord (filter (\<lambda>e. fst e \<noteq> k) kvs)) WebResponse_zero")
       (simp_all add: WebResponse_UnmarshalJSON_def members_def)
  from unknown_key_named [OF WebResponse_regular rej key this]
  show ?thesis by (simp add: WebResponse_UnmarshalJSON_def members_def)
qed

lemma WebResponse_unknown_key_fails:
  assumes "k \<notin> set WebResponse_keys" and "k \<in> fst ` set kvs"
  shows "isl (WebResponse_UnmarshalJSON ord (JObj kvs))"
proof (cases "WebResponse_UnmarshalJSON ord (JObj kvs)")
  case (Inr strct)
  then have "dom (map_of (rev kvs)) \<subseteq> set WebResponse_keys"
    by (simp only: WebResponse_decode_iff WebResponse_decodesD(1))
  with assms show ?thesis by (auto simp: dom_map_of_conv_image_fst)
qed simp

lemma WebResponse_rejects_unknown_keys: "rejects_unknown_keys (WebResponse_UnmarshalJSON ord) WebResponse_keys"
  by (rule rejects_unknown_keysI) (erule (1) WebResponse_unknown_key_fails, erule (2) WebResponse_unknown_key)

subsection \<open>ThreadFlowLocation: decoding and encoding\<close>

definition ThreadFlowLocation_keys :: "string list" where
  "ThreadFlowLocation_keys = [''executionOrder'', ''executionTimeUtc'', ''importance'', ''index'', ''kinds'', ''location'', ''module'', ''nestingLevel'', ''properties'', ''stack'', ''state'', ''taxa'', ''webRequest'', ''webResponse'']"

definition ThreadFlowLocation_decodes :: "order \<Rightarrow> (string \<rightharpoonup> json) \<Rightarrow> ThreadFlowLocation \<Rightarrow> bool" where
  "ThreadFlowLocation_decodes ord m strct \<longleftrightarrow>
     dom m \<subseteq> set ThreadFlowLocation_keys \<and>
     field_ok json_Unmarshal_int (m ''executionOrder'') 0 (ThreadFlowLocation.ExecutionOrder strct) \<and>
     field_ok json_Unmarshal_string (m ''executionTimeUtc'') [] (ThreadFlowLocation.ExecutionTimeUtc strct) \<and>
     field_ok json_Unmarshal_string (m ''importance'') [] (ThreadFlowLocation.Importance strct) \<and>
     field_ok json_Unmarshal_int (m ''index'') 0 (ThreadFlowLocation.Index strct) \<and>
     field_ok (json_Unmarshal_slice json_Unmarshal_string) (m ''kinds'') None (ThreadFlowLocation.Kinds strct) \<and>
     field_ok (json_Unmarshal_ptr (Location_UnmarshalJSON ord)) (m ''location'') None (ThreadFlowLocation.Location strct) \<and>
     field_ok json_Unmarshal_string (m ''module'') [] (ThreadFlowLocation.Module strct) \<and>
     field_ok json_Unmarshal_int (m ''nestingLevel'') 0 (ThreadFlowLocation.NestingLevel strct) \<and>
     field_ok (json_Unmarshal_ptr (PropertyBag_UnmarshalJSON ord)) (m ''properties'') None (ThreadFlowLocation.Properties strct) \<and>
     field_ok (json_Unmarshal_ptr (Stack_UnmarshalJSON ord)) (m ''stack'') None (ThreadFlowLocation.Stack strct) \<and>
     field_ok (json_Unmarshal_map (json_Unmarshal_ptr (MultiformatMessageString_UnmarshalJSON ord))) (m ''state'') None (ThreadFlowLocation.State strct) \<and>
     field_ok (json_Unmarshal_slice (json_Unmarshal_ptr (ReportingDescriptorReference_UnmarshalJSON ord))) (m ''taxa'') None (ThreadFlowLocation.Taxa strct) \<and>
     field_ok (json_Unmarshal_ptr (WebRequest_UnmarshalJSON ord)) (m ''webRequest'') None (ThreadFlowLocation.WebRequest strct) \<and>
     field_ok (json_Unmarshal_ptr (WebResponse_UnmarshalJSON ord)) (m ''webResponse'') None (ThreadFlowLocation.WebResponse strct)"

lemma ThreadFlowLocation_cases_keys: "fst ` set (ThreadFlowLocation_cases ord v) = set ThreadFlowLocation_keys"
  by (rule keys_image) (simp add: ThreadFlowLocation_cases_def ThreadFlowLocation_keys_def)

lemma ThreadFlowLocation_regular: "regular (\<lambda>k v. switch k (ThreadFlowLocation_cases ord v) (reject k))"
  by (rule regular_switch) (simp add: ThreadFlowLocation_cases_def)

lemma ThreadFlowLocation_fields:
  "field_case (ThreadFlowLocation_cases ord) ThreadFlowLocation.ExecutionOrder ''executionOrder'' json_Unmarshal_int"
  "field_case (ThreadFlowLocation_cases ord) ThreadFlowLocation.ExecutionTimeUtc ''executionTimeUtc'' json_Unmarshal_string"
  "field_case (ThreadFlowLocation_cases ord) ThreadFlowLocation.Importance ''importance'' json_Unmarshal_string"
  "field_case (ThreadFlowLocation_cases ord) ThreadFlowLocation.Index ''index'' json_Unmarshal_int"
  "field_case (ThreadFlowLocation_cases ord) ThreadFlowLocation.Kinds ''kinds'' (json_Unmarshal_slice json_Unmarshal_string)"
  "field_case (ThreadFlowLocation_cases ord) ThreadFlowLocation.Location ''location'' (json_Unmarshal_ptr (Location_UnmarshalJSON ord))"
  "field_case (ThreadFlowLocation_cases ord) ThreadFlowLocation.Module ''module'' json_Unmarshal_string"
  "field_case (ThreadFlowLocation_cases ord) ThreadFlowLocation.NestingLevel ''nestingLevel'' json_Unmarshal_int"
  "field_case (ThreadFlowLocation_cases ord) ThreadFlowLocation.Properties ''properties'' (json_Unmarshal_ptr (PropertyBag_UnmarshalJSON ord))"
  "field_case (ThreadFlowLocation_cases ord) ThreadFlowLocation.Stack ''stack'' (json_Unmarshal_ptr (Stack_UnmarshalJSON ord))"
  "field_case (ThreadFlowLocation_cases ord) ThreadFlowLocation.State ''state'' (json_Unmarshal_map (json_Unmarshal_ptr (MultiformatMessageString_UnmarshalJSON ord)))"
  "field_case (ThreadFlowLocation_cases ord) ThreadFlowLocation.Taxa ''taxa'' (json_Unmarshal_slice (json_Unmarshal_ptr (ReportingDescriptorReference_UnmarshalJSON ord)))"
  "field_case (ThreadFlowLocation_cases ord) ThreadFlowLocation.WebRequest ''webRequest'' (json_Unmarshal_ptr (WebRequest_UnmarshalJSON ord))"
  "field_case (ThreadFlowLocation_cases ord) ThreadFlowLocation.WebResponse ''webResponse'' (json_Unmarshal_ptr (WebResponse_UnmarshalJSON ord))"
  unfolding field_case_def ThreadFlowLocation_cases_def
  by (simp_all add: writes_into writes_received keeps_into split_def)

lemma ThreadFlowLocation_loop_sound:
  assumes loop: "range_loop (\<lambda>k v. switch k (ThreadFlowLocation_cases ord v) (reject k)) (members ord kvs) ThreadFlowLocation_zero = Inr strct"
  shows "dom (map_of (rev kvs)) \<subseteq> set ThreadFlowLocation_keys \<and>
     field_ok json_Unmarshal_int (map_of (rev kvs) ''executionOrder'') 0 (ThreadFlowLocation.ExecutionOrder strct) \<and>
     field_ok json_Unmarshal_string (map_of (rev kvs) ''executionTimeUtc'') [] (ThreadFlowLocation.ExecutionTimeUtc strct) \<and>
     field_ok json_Unmarshal_string (map_of (rev kvs) ''importance'') [] (ThreadFlowLocation.Importance strct) \<and>
     field_ok json_Unmarshal_int (map_of (rev kvs) ''index'') 0 (ThreadFlowLocation.Index strct) \<and>
     field_ok (json_Unmarshal_slice json_Unmarshal_string) (map_of (rev kvs) ''kinds'') None (ThreadFlowLocation.Kinds strct) \<and>
     field_ok (json_Unmarshal_ptr (Location_UnmarshalJSON ord)) (map_of (rev kvs) ''location'') None (ThreadFlowLocation.Location strct) \<and>
     field_ok json_Unmarshal_string (map_of (rev kvs) ''module'') [] (ThreadFlowLocation.Module strct) \<and>
     field_ok json_Unmarshal_int (map_of (rev kvs) ''nestingLevel'') 0 (ThreadFlowLocation.NestingLevel strct) \<and>
     field_ok (json_Unmarshal_ptr (PropertyBag_UnmarshalJSON ord)) (map_of (rev kvs) ''properties'') None (ThreadFlowLocation.Properties strct) \<and>
     field_ok (json_Unmarshal_ptr (Stack_UnmarshalJSON ord)) (map_of (rev kvs) ''stack'') None (ThreadFlowLocation.Stack strct) \<and>
     field_ok (json_Unmarshal_map (json_Unmarshal_ptr (MultiformatMessageString_UnmarshalJSON ord))) (map_of (rev kvs) ''state'') None (ThreadFlowLocation.State strct) \<and>
     field_ok (json_Unmarshal_slice (json_Unmarshal_ptr (ReportingDescriptorReference_UnmarshalJSON ord))) (map_of (rev kvs) ''taxa'') None (ThreadFlowLocation.Taxa strct) \<and>
     field_ok (json_Unmarshal_ptr (WebRequest_UnmarshalJSON ord)) (map_of (rev kvs) ''webRequest'') None (ThreadFlowLocation.WebRequest strct) \<and>
     field_ok (json_Unmarshal_ptr (WebResponse_UnmarshalJSON ord)) (map_of (rev kvs) ''webResponse'') None (ThreadFlowLocation.WebResponse strct)"
proof -
  have "fst ` set (members ord kvs) \<subseteq> set ThreadFlowLocation_keys"
    by (rule loop_keys_known [OF loop]) (rule ThreadFlowLocation_cases_keys)
  then have keys: "dom (map_of (rev kvs)) \<subseteq> set ThreadFlowLocation_keys"
    by (simp add: dom_members [of kvs ord])
  note fld = field_after_loop [OF _ members_distinct loop, unfolded map_of_members]
  show ?thesis
    using keys fld [OF ThreadFlowLocation_fields(1)] fld [OF ThreadFlowLocation_fields(2)] fld [OF ThreadFlowLocation_fields(3)] fld [OF ThreadFlowLocation_fields(4)] fld [OF ThreadFlowLocation_fields(5)] fld [OF ThreadFlowLocation_fields(6)] fld [OF ThreadFlowLocation_fields(7)] fld [OF ThreadFlowLocation_fields(8)] fld [OF ThreadFlowLocation_fields(9)] fld [OF ThreadFlowLocation_fields(10)] fld [OF ThreadFlowLocation_fields(11)] fld [OF ThreadFlowLocation_fields(12)] fld [OF ThreadFlowLocation_fields(13)] fld [OF ThreadFlowLocation_fields(14)] 
    by (simp only: prod.case ThreadFlowLocation_zero_def ThreadFlowLocation.select_convs simp_thms)
qed

lemma ThreadFlowLocation_decodesD:
  assumes "ThreadFlowLocation_decodes ord m strct"
  shows "dom m \<subseteq> set ThreadFlowLocation_keys"
    and "field_ok json_Unmarshal_int (m ''executionOrder'') 0 (ThreadFlowLocation.ExecutionOrder strct)"
    and "field_ok json_Unmarshal_string (m ''executionTimeUtc'') [] (ThreadFlowLocation.ExecutionTimeUtc strct)"
    and "field_ok json_Unmarshal_string (m ''importance'') [] (ThreadFlowLocation.Importance strct)"
    and "field_ok json_Unmarshal_int (m ''index'') 0 (ThreadFlowLocation.Index strct)"
    and "field_ok (json_Unmarshal_slice json_Unmarshal_string) (m ''kinds'') None (ThreadFlowLocation.Kinds strct)"
    and "field_ok (json_Unmarshal_ptr (Location_UnmarshalJSON ord)) (m ''location'') None (ThreadFlowLocation.Location strct)"
    and "field_ok json_Unmarshal_string (m ''module'') [] (ThreadFlowLocation.Module strct)"
    and "field_ok json_Unmarshal_int (m ''nestingLevel'') 0 (ThreadFlowLocation.NestingLevel strct)"
    and "field_ok (json_Unmarshal_ptr (PropertyBag_UnmarshalJSON ord)) (m ''properties'') None (ThreadFlowLocation.Properties strct)"
    and "field_ok (json_Unmarshal_ptr (Stack_UnmarshalJSON ord)) (m ''stack'') None (ThreadFlowLocation.Stack strct)"
    and "field_ok (json_Unmarshal_map (json_Unmarshal_ptr (MultiformatMessageString_UnmarshalJSON ord))) (m ''state'') None (ThreadFlowLocation.State strct)"
    and "field_ok (json_Unmarshal_slice (json_Unmarshal_ptr (ReportingDescriptorReference_UnmarshalJSON ord))) (m ''taxa'') None (ThreadFlowLocation.Taxa strct)"
    and "field_ok (json_Unmarshal_ptr (WebRequest_UnmarshalJSON ord)) (m ''webRequest'') None (ThreadFlowLocation.WebRequest strct)"
    and "field_ok (json_Unmarshal_ptr (WebResponse_UnmarshalJSON ord)) (m ''webResponse'') None (ThreadFlowLocation.WebResponse strct)"
  using assms unfolding ThreadFlowLocation_decodes_def by - (elim conjE, assumption)+

lemma ThreadFlowLocation_decodes_unique:
  assumes "ThreadFlowLocation_decodes ord m a" and "ThreadFlowLocation_decodes ord m b"
  shows "a = b"
  apply (rule ThreadFlowLocation.equality)
  apply (rule field_ok_unique [OF ThreadFlowLocation_decodesD(2) [OF assms(1)] ThreadFlowLocation_decodesD(2) [OF assms(2)]])
  apply (rule field_ok_unique [OF ThreadFlowLocation_decodesD(3) [OF assms(1)] ThreadFlowLocation_decodesD(3) [OF assms(2)]])
  apply (rule field_ok_unique [OF ThreadFlowLocation_decodesD(4) [OF assms(1)] ThreadFlowLocation_decodesD(4) [OF assms(2)]])
  apply (rule field_ok_unique [OF ThreadFlowLocation_decodesD(5) [OF assms(1)] ThreadFlowLocation_decodesD(5) [OF assms(2)]])
  apply (rule field_ok_unique [OF ThreadFlowLocation_decodesD(6) [OF assms(1)] ThreadFlowLocation_decodesD(6) [OF assms(2)]])
  apply (rule field_ok_unique [OF ThreadFlowLocation_decodesD(7) [OF assms(1)] ThreadFlowLocation_decodesD(7) [OF assms(2)]])
  apply (rule field_ok_unique [OF ThreadFlowLocation_decodesD(8) [OF assms(1)] ThreadFlowLocation_decodesD(8) [OF assms(2)]])
  apply (rule field_ok_unique [OF ThreadFlowLocation_decodesD(9) [OF assms(1)] ThreadFlowLocation_decodesD(9) [OF assms(2)]])
  apply (rule field_ok_unique [OF ThreadFlowLocation_decodesD(10) [OF assms(1)] ThreadFlowLocation_decodesD(10) [OF assms(2)]])
  apply (rule field_ok_unique [OF ThreadFlowLocation_decodesD(11) [OF assms(1)] ThreadFlowLocation_decodesD(11) [OF assms(2)]])
  apply (rule field_ok_unique [OF ThreadFlowLocation_decodesD(12) [OF assms(1)] ThreadFlowLocation_decodesD(12) [OF assms(2)]])
  apply (rule field_ok_unique [OF ThreadFlowLocation_decodesD(13) [OF assms(1)] ThreadFlowLocation_decodesD(13) [OF assms(2)]])
  apply (rule field_ok_unique [OF ThreadFlowLocation_decodesD(14) [OF assms(1)] ThreadFlowLocation_decodesD(14) [OF assms(2)]])
  apply (rule field_ok_unique [OF ThreadFlowLocation_decodesD(15) [OF assms(1)] ThreadFlowLocation_decodesD(15) [OF assms(2)]])
  apply simp
  done

lemma ThreadFlowLocation_accepts:
  assumes "ThreadFlowLocation_decodes ord m strct" and "m k = Some v"
  shows "accepting (switch k (ThreadFlowLocation_cases ord v) (reject k))"
proof -
  from assms have "k \<in> set ThreadFlowLocation_keys" by (auto simp: ThreadFlowLocation_decodes_def)
  then have key: "k \<in> fst ` set (ThreadFlowLocation_cases ord v)"
    by (simp only: ThreadFlowLocation_cases_keys)
  have rows: "list_all (\<lambda>(c, h). m c = Some v \<longrightarrow> accepting h) (ThreadFlowLocation_cases ord v)"
    unfolding ThreadFlowLocation_cases_def list.pred_inject
    apply (rule conjI [OF accept_row [where m = m and v = v, OF ThreadFlowLocation_decodesD(2) [OF assms(1)]]])
    apply (rule conjI [OF accept_row [where m = m and v = v, OF ThreadFlowLocation_decodesD(3) [OF assms(1)]]])
    apply (rule conjI [OF accept_row [where m = m and v = v, OF ThreadFlowLocation_decodesD(4) [OF assms(1)]]])
    apply (rule conjI [OF accept_row [where m = m and v = v, OF ThreadFlowLocation_decodesD(5) [OF assms(1)]]])
    apply (rule conjI [OF accept_row [where m = m and v = v, OF ThreadFlowLocation_decodesD(6) [OF assms(1)]]])
    apply (rule conjI [OF accept_row [where m = m and v = v, OF ThreadFlowLocation_decodesD(7) [OF assms(1)]]])
    apply (rule conjI [OF accept_row [where m = m and v = v, OF ThreadFlowLocation_decodesD(8) [OF assms(1)]]])
    apply (rule conjI [OF accept_row [where m = m and v = v, OF ThreadFlowLocation_decodesD(9) [OF assms(1)]]])
    apply (rule conjI [OF accept_row [where m = m and v = v, OF ThreadFlowLocation_decodesD(10) [OF assms(1)]]])
    apply (rule conjI [OF accept_row [where m = m and v = v, OF ThreadFlowLocation_decodesD(11) [OF assms(1)]]])
    apply (rule conjI [OF accept_row [where m = m and v = v, OF ThreadFlowLocation_decodesD(12) [OF assms(1)]]])
    apply (rule conjI [OF accept_row [where m = m and v = v, OF ThreadFlowLocation_decodesD(13) [OF assms(1)]]])
    apply (rule conjI [OF accept_row [where m = m and v = v, OF ThreadFlowLocation_decodesD(14) [OF assms(1)]]])
    apply (rule conjI [OF accept_row [where m = m and v = v, OF ThreadFlowLocation_decodesD(15) [OF assms(1)]]])
    apply simp
    done
  show ?thesis by (rule rows_accept [OF rows assms(2) key])
qed

lemma ThreadFlowLocation_decode_iff:
  "ThreadFlowLocation_UnmarshalJSON ord (JObj kvs) = Inr strct \<longleftrightarrow>
   ThreadFlowLocation_decodes ord (map_of (rev kvs)) strct"
proof
  assume "ThreadFlowLocation_UnmarshalJSON ord (JObj kvs) = Inr strct"
  then have loop: "range_loop (\<lambda>k v. switch k (ThreadFlowLocation_cases ord v) (reject k)) (members ord kvs) ThreadFlowLocation_zero = Inr strct"
    by (auto simp: ThreadFlowLocation_UnmarshalJSON_def members_def split: sum.splits)
  from ThreadFlowLocation_loop_sound [OF loop]
  show "ThreadFlowLocation_decodes ord (map_of (rev kvs)) strct"
    by (simp add: ThreadFlowLocation_decodes_def)
next
  assume d: "ThreadFlowLocation_decodes ord (map_of (rev kvs)) strct"
  have "\<exists>t. range_loop (\<lambda>k v. switch k (ThreadFlowLocation_cases ord v) (reject k)) (members ord kvs) ThreadFlowLocation_zero = Inr t"
  proof (rule loop_succeeds [OF ThreadFlowLocation_regular])
    fix k v assume "(k, v) \<in> set (members ord kvs)"
    then have "map_of (rev kvs) k = Some v" by (rule member_lookup)
    from ThreadFlowLocation_accepts [OF d this]
    show "accepting (switch k (ThreadFlowLocation_cases ord v) (reject k))" .
  qed
  then obtain strct' where
    loop: "range_loop (\<lambda>k v. switch k (ThreadFlowLocation_cases ord v) (reject k)) (members ord kvs) ThreadFlowLocation_zero = Inr strct'" ..
  from ThreadFlowLocation_loop_sound [OF loop]
  have d': "ThreadFlowLocation_decodes ord (map_of (rev kvs)) strct'"
    by (simp add: ThreadFlowLocation_decodes_def)
  from ThreadFlowLocation_decodes_unique [OF d' d] have "strct' = strct" .
  with loop show "ThreadFlowLocation_UnmarshalJSON ord (JObj kvs) = Inr strct"
    by (simp add: ThreadFlowLocation_UnmarshalJSON_def members_def)
qed

definition ThreadFlowLocation_results :: "scanner \<Rightarrow> order \<Rightarrow> ThreadFlowLocation \<Rightarrow> (string \<times> (error + json)) list" where
  "ThreadFlowLocation_results scn ord strct =
     [(''executionOrder'', json_Marshal_int (ThreadFlowLocation.ExecutionOrder strct)),
      (''executionTimeUtc'', json_Marshal_string (ThreadFlowLocation.ExecutionTimeUtc strct)),
      (''importance'', json_Marshal_string (ThreadFlowLocation.Importance strct)),
      (''index'', json_Marshal_int (ThreadFlowLocation.Index strct)),
      (''kinds'', json_Marshal_slice json_Marshal_string (ThreadFlowLocation.Kinds strct)),
      (''location'', json_Marshal_ptr ''*sarif.Location'' (Location_MarshalJSON scn ord) (ThreadFlowLocation.Location strct)),
      (''module'', json_Marshal_string (ThreadFlowLocation.Module strct)),
      (''nestingLevel'', json_Marshal_int (ThreadFlowLocation.NestingLevel strct)),
      (''properties'', json_Marshal_bytes ''*sarif.PropertyBag'' (PropertyBag_MarshalJSON scn ord) (ThreadFlowLocation.Properties strct)),
      (''stack'', json_Marshal_ptr ''*sarif.Stack'' (Stack_MarshalJSON scn ord) (ThreadFlowLocation.Stack strct)),
      (''state'', json_Marshal_map (json_Marshal_ptr ''*sarif.MultiformatMessageString'' (MultiformatMessageString_MarshalJSON scn ord)) (ThreadFlowLocation.State strct)),
      (''taxa'', json_Marshal_slice (json_Marshal_ptr ''*sarif.ReportingDescriptorReference'' (ReportingDescriptorReference_MarshalJSON scn ord)) (ThreadFlowLocation.Taxa strct)),
      (''webRequest'', json_Marshal_ptr ''*sarif.WebRequest'' (WebRequest_MarshalJSON scn ord) (ThreadFlowLocation.WebRequest strct)),
      (''webResponse'', json_Marshal_ptr ''*sarif.WebResponse'' (WebResponse_MarshalJSON scn ord) (ThreadFlowLocation.WebResponse strct))]"

lemma ThreadFlowLocation_MarshalJSON_results:
  "ThreadFlowLocation_MarshalJSON scn ord strct = object (emit_all (ThreadFlowLocation_results scn ord strct))"
  by (simp add: ThreadFlowLocation_MarshalJSON_def ThreadFlowLocation_results_def emit_nilcheck)

lemma ThreadFlowLocation_keys_written:
  "ThreadFlowLocation_MarshalJSON scn ord strct = Inr j \<Longrightarrow> \<exists>kvs. j = JObj kvs \<and> map fst kvs = ThreadFlowLocation_keys"
  using keys_written [of "ThreadFlowLocation_results scn ord strct" j]
  by (simp add: ThreadFlowLocation_MarshalJSON_results ThreadFlowLocation_results_def ThreadFlowLocation_keys_def)

definition ThreadFlowLocation_encodable :: "scanner \<Rightarrow> order \<Rightarrow> ThreadFlowLocation \<Rightarrow> bool" where
  "ThreadFlowLocation_encodable scn ord strct \<longleftrightarrow>
     ptr_all (Location_encodable scn ord) (ThreadFlowLocation.Location strct) \<and>
     ptr_all (PropertyBag_encodable scn ord) (ThreadFlowLocation.Properties strct) \<and>
     ptr_all (Stack_encodable scn ord) (ThreadFlowLocation.Stack strct) \<and>
     map_all (ptr_all (MultiformatMessageString_encodable scn ord)) (ThreadFlowLocation.State strct) \<and>
     slice_all (ptr_all (ReportingDescriptorReference_encodable scn ord)) (ThreadFlowLocation.Taxa strct) \<and>
     ptr_all (WebRequest_encodable scn ord) (ThreadFlowLocation.WebRequest strct) \<and>
     ptr_all (WebResponse_encodable scn ord) (ThreadFlowLocation.WebResponse strct)"

lemma ThreadFlowLocation_fails_unless: "fails_unless (ThreadFlowLocation_MarshalJSON scn ord) (ThreadFlowLocation_encodable scn ord)"
  unfolding fails_unless_def ThreadFlowLocation_MarshalJSON_results ThreadFlowLocation_results_def ThreadFlowLocation_encodable_def isl_object_emit_all
  by (auto simp add: always_simps
      fails_unlessD [OF fails_unless_int]
      fails_unlessD [OF fails_unless_string]
      fails_unlessD [OF fails_unless_slice [OF fails_unless_string]]
      fails_unlessD [OF fails_unless_ptr [OF Location_fails_unless]]
      fails_unlessD [OF PropertyBag_field_fails_unless]
      fails_unlessD [OF fails_unless_ptr [OF Stack_fails_unless]]
      fails_unlessD [OF fails_unless_map [OF fails_unless_ptr [OF MultiformatMessageString_fails_unless]]]
      fails_unlessD [OF fails_unless_slice [OF fails_unless_ptr [OF ReportingDescriptorReference_fails_unless]]]
      fails_unlessD [OF fails_unless_ptr [OF WebRequest_fails_unless]]
      fails_unlessD [OF fails_unless_ptr [OF WebResponse_fails_unless]])

definition ThreadFlowLocation_valid :: "ThreadFlowLocation \<Rightarrow> bool" where
  "ThreadFlowLocation_valid strct \<longleftrightarrow>
     ptr_all Location_valid (ThreadFlowLocation.Location strct) \<and>
     ptr_all PropertyBag_valid (ThreadFlowLocation.Properties strct) \<and>
     ptr_all Stack_valid (ThreadFlowLocation.Stack strct) \<and>
     map_valid (ptr_all MultiformatMessageString_valid) (ThreadFlowLocation.State strct) \<and>
     slice_all (ptr_all ReportingDescriptorReference_valid) (ThreadFlowLocation.Taxa strct) \<and>
     ptr_all WebRequest_valid (ThreadFlowLocation.WebRequest strct) \<and>
     ptr_all WebResponse_valid (ThreadFlowLocation.WebResponse strct)"

lemma ThreadFlowLocation_keys_distinct: "distinct ThreadFlowLocation_keys"
  by (simp add: ThreadFlowLocation_keys_def)

lemma ThreadFlowLocation_round_trips:
  "round_trips_object (ThreadFlowLocation_MarshalJSON scn ord) (ThreadFlowLocation_UnmarshalJSON ord') ThreadFlowLocation_valid"
  unfolding round_trips_object_def
proof (intro allI impI)
  fix strct assume v: "ThreadFlowLocation_valid strct"
  note v' = v [unfolded ThreadFlowLocation_valid_def]
  let ?rs = "ThreadFlowLocation_results scn ord strct"
  let ?kvs = "map (\<lambda>e. (fst e, projr (snd e))) ?rs"
  have f0: "\<not> isl (json_Marshal_int (ThreadFlowLocation.ExecutionOrder strct)) \<and>
      json_Unmarshal_int (projr (json_Marshal_int (ThreadFlowLocation.ExecutionOrder strct))) = Inr (ThreadFlowLocation.ExecutionOrder strct)"
    by (rule round_tripsD [OF round_trips_int]) (use v' in simp)
  have f1: "\<not> isl (json_Marshal_string (ThreadFlowLocation.ExecutionTimeUtc strct)) \<and>
      json_Unmarshal_string (projr (json_Marshal_string (ThreadFlowLocation.ExecutionTimeUtc strct))) = Inr (ThreadFlowLocation.ExecutionTimeUtc strct)"
    by (rule round_tripsD [OF round_trips_string]) (use v' in simp)
  have f2: "\<not> isl (json_Marshal_string (ThreadFlowLocation.Importance strct)) \<and>
      json_Unmarshal_string (projr (json_Marshal_string (ThreadFlowLocation.Importance strct))) = Inr (ThreadFlowLocation.Importance strct)"
    by (rule round_tripsD [OF round_trips_string]) (use v' in simp)
  have f3: "\<not> isl (json_Marshal_int (ThreadFlowLocation.Index strct)) \<and>
      json_Unmarshal_int (projr (json_Marshal_int (ThreadFlowLocation.Index strct))) = Inr (ThreadFlowLocation.Index strct)"
    by (rule round_tripsD [OF round_trips_int]) (use v' in simp)
  have f4: "\<not> isl (json_Marshal_slice json_Marshal_string (ThreadFlowLocation.Kinds strct)) \<and>
      json_Unmarshal_slice json_Unmarshal_string (projr (json_Marshal_slice json_Marshal_string (ThreadFlowLocation.Kinds strct))) = Inr (ThreadFlowLocation.Kinds strct)"
    by (rule round_tripsD [OF round_trips_slice [OF round_trips_string]]) (use v' in simp)
  have f5: "\<not> isl (json_Marshal_ptr ''*sarif.Location'' (Location_MarshalJSON scn ord) (ThreadFlowLocation.Location strct)) \<and>
      json_Unmarshal_ptr (Location_UnmarshalJSON ord') (projr (json_Marshal_ptr ''*sarif.Location'' (Location_MarshalJSON scn ord) (ThreadFlowLocation.Location strct))) = Inr (ThreadFlowLocation.Location strct)"
    by (rule round_tripsD [OF round_trips_ptr [OF Location_round_trips]]) (use v' in simp)
  have f6: "\<not> isl (json_Marshal_string (ThreadFlowLocation.Module strct)) \<and>
      json_Unmarshal_string (projr (json_Marshal_string (ThreadFlowLocation.Module strct))) = Inr (ThreadFlowLocation.Module strct)"
    by (rule round_tripsD [OF round_trips_string]) (use v' in simp)
  have f7: "\<not> isl (json_Marshal_int (ThreadFlowLocation.NestingLevel strct)) \<and>
      json_Unmarshal_int (projr (json_Marshal_int (ThreadFlowLocation.NestingLevel strct))) = Inr (ThreadFlowLocation.NestingLevel strct)"
    by (rule round_tripsD [OF round_trips_int]) (use v' in simp)
  have f8: "\<not> isl (json_Marshal_bytes ''*sarif.PropertyBag'' (PropertyBag_MarshalJSON scn ord) (ThreadFlowLocation.Properties strct)) \<and>
      json_Unmarshal_ptr (PropertyBag_UnmarshalJSON ord') (projr (json_Marshal_bytes ''*sarif.PropertyBag'' (PropertyBag_MarshalJSON scn ord) (ThreadFlowLocation.Properties strct))) = Inr (ThreadFlowLocation.Properties strct)"
    by (rule round_tripsD [OF PropertyBag_field_round_trips]) (use v' in simp)
  have f9: "\<not> isl (json_Marshal_ptr ''*sarif.Stack'' (Stack_MarshalJSON scn ord) (ThreadFlowLocation.Stack strct)) \<and>
      json_Unmarshal_ptr (Stack_UnmarshalJSON ord') (projr (json_Marshal_ptr ''*sarif.Stack'' (Stack_MarshalJSON scn ord) (ThreadFlowLocation.Stack strct))) = Inr (ThreadFlowLocation.Stack strct)"
    by (rule round_tripsD [OF round_trips_ptr [OF Stack_round_trips]]) (use v' in simp)
  have f10: "\<not> isl (json_Marshal_map (json_Marshal_ptr ''*sarif.MultiformatMessageString'' (MultiformatMessageString_MarshalJSON scn ord)) (ThreadFlowLocation.State strct)) \<and>
      json_Unmarshal_map (json_Unmarshal_ptr (MultiformatMessageString_UnmarshalJSON ord')) (projr (json_Marshal_map (json_Marshal_ptr ''*sarif.MultiformatMessageString'' (MultiformatMessageString_MarshalJSON scn ord)) (ThreadFlowLocation.State strct))) = Inr (ThreadFlowLocation.State strct)"
    by (rule round_tripsD [OF round_trips_map [OF round_trips_ptr [OF MultiformatMessageString_round_trips]]]) (use v' in simp)
  have f11: "\<not> isl (json_Marshal_slice (json_Marshal_ptr ''*sarif.ReportingDescriptorReference'' (ReportingDescriptorReference_MarshalJSON scn ord)) (ThreadFlowLocation.Taxa strct)) \<and>
      json_Unmarshal_slice (json_Unmarshal_ptr (ReportingDescriptorReference_UnmarshalJSON ord')) (projr (json_Marshal_slice (json_Marshal_ptr ''*sarif.ReportingDescriptorReference'' (ReportingDescriptorReference_MarshalJSON scn ord)) (ThreadFlowLocation.Taxa strct))) = Inr (ThreadFlowLocation.Taxa strct)"
    by (rule round_tripsD [OF round_trips_slice [OF round_trips_ptr [OF ReportingDescriptorReference_round_trips]]]) (use v' in simp)
  have f12: "\<not> isl (json_Marshal_ptr ''*sarif.WebRequest'' (WebRequest_MarshalJSON scn ord) (ThreadFlowLocation.WebRequest strct)) \<and>
      json_Unmarshal_ptr (WebRequest_UnmarshalJSON ord') (projr (json_Marshal_ptr ''*sarif.WebRequest'' (WebRequest_MarshalJSON scn ord) (ThreadFlowLocation.WebRequest strct))) = Inr (ThreadFlowLocation.WebRequest strct)"
    by (rule round_tripsD [OF round_trips_ptr [OF WebRequest_round_trips]]) (use v' in simp)
  have f13: "\<not> isl (json_Marshal_ptr ''*sarif.WebResponse'' (WebResponse_MarshalJSON scn ord) (ThreadFlowLocation.WebResponse strct)) \<and>
      json_Unmarshal_ptr (WebResponse_UnmarshalJSON ord') (projr (json_Marshal_ptr ''*sarif.WebResponse'' (WebResponse_MarshalJSON scn ord) (ThreadFlowLocation.WebResponse strct))) = Inr (ThreadFlowLocation.WebResponse strct)"
    by (rule round_tripsD [OF round_trips_ptr [OF WebResponse_round_trips]]) (use v' in simp)
  note fs = f0 f1 f2 f3 f4 f5 f6 f7 f8 f9 f10 f11 f12 f13
  have rs: "?rs =
     [(''executionOrder'', json_Marshal_int (ThreadFlowLocation.ExecutionOrder strct)),
      (''executionTimeUtc'', json_Marshal_string (ThreadFlowLocation.ExecutionTimeUtc strct)),
      (''importance'', json_Marshal_string (ThreadFlowLocation.Importance strct)),
      (''index'', json_Marshal_int (ThreadFlowLocation.Index strct)),
      (''kinds'', json_Marshal_slice json_Marshal_string (ThreadFlowLocation.Kinds strct)),
      (''location'', json_Marshal_ptr ''*sarif.Location'' (Location_MarshalJSON scn ord) (ThreadFlowLocation.Location strct)),
      (''module'', json_Marshal_string (ThreadFlowLocation.Module strct)),
      (''nestingLevel'', json_Marshal_int (ThreadFlowLocation.NestingLevel strct)),
      (''properties'', json_Marshal_bytes ''*sarif.PropertyBag'' (PropertyBag_MarshalJSON scn ord) (ThreadFlowLocation.Properties strct)),
      (''stack'', json_Marshal_ptr ''*sarif.Stack'' (Stack_MarshalJSON scn ord) (ThreadFlowLocation.Stack strct)),
      (''state'', json_Marshal_map (json_Marshal_ptr ''*sarif.MultiformatMessageString'' (MultiformatMessageString_MarshalJSON scn ord)) (ThreadFlowLocation.State strct)),
      (''taxa'', json_Marshal_slice (json_Marshal_ptr ''*sarif.ReportingDescriptorReference'' (ReportingDescriptorReference_MarshalJSON scn ord)) (ThreadFlowLocation.Taxa strct)),
      (''webRequest'', json_Marshal_ptr ''*sarif.WebRequest'' (WebRequest_MarshalJSON scn ord) (ThreadFlowLocation.WebRequest strct)),
      (''webResponse'', json_Marshal_ptr ''*sarif.WebResponse'' (WebResponse_MarshalJSON scn ord) (ThreadFlowLocation.WebResponse strct))]"
    by (auto simp add: ThreadFlowLocation_results_def)
  have keys: "map fst ?rs = ThreadFlowLocation_keys"
    by (simp add: ThreadFlowLocation_results_def ThreadFlowLocation_keys_def)
  then have dist: "distinct (map fst ?rs)"
    by (simp only: ThreadFlowLocation_keys_distinct)
  have ok: "list_all (\<lambda>e. \<not> isl (snd e)) ?rs"
    unfolding rs by (simp only: list.pred_inject snd_conv fs simp_thms)
  then have enc: "ThreadFlowLocation_MarshalJSON scn ord strct = Inr (JObj ?kvs)"
    by (simp add: ThreadFlowLocation_MarshalJSON_results [of scn ord strct] object_emit_all_eq_Inr)
  have l0: "map_of (rev ?kvs) ''executionOrder'' = Some (projr (json_Marshal_int (ThreadFlowLocation.ExecutionOrder strct)))"
    by (rule written_lookup [OF dist]) (subst rs, intro list.set_intros)
  have l1: "map_of (rev ?kvs) ''executionTimeUtc'' = Some (projr (json_Marshal_string (ThreadFlowLocation.ExecutionTimeUtc strct)))"
    by (rule written_lookup [OF dist]) (subst rs, intro list.set_intros)
  have l2: "map_of (rev ?kvs) ''importance'' = Some (projr (json_Marshal_string (ThreadFlowLocation.Importance strct)))"
    by (rule written_lookup [OF dist]) (subst rs, intro list.set_intros)
  have l3: "map_of (rev ?kvs) ''index'' = Some (projr (json_Marshal_int (ThreadFlowLocation.Index strct)))"
    by (rule written_lookup [OF dist]) (subst rs, intro list.set_intros)
  have l4: "map_of (rev ?kvs) ''kinds'' = Some (projr (json_Marshal_slice json_Marshal_string (ThreadFlowLocation.Kinds strct)))"
    by (rule written_lookup [OF dist]) (subst rs, intro list.set_intros)
  have l5: "map_of (rev ?kvs) ''location'' = Some (projr (json_Marshal_ptr ''*sarif.Location'' (Location_MarshalJSON scn ord) (ThreadFlowLocation.Location strct)))"
    by (rule written_lookup [OF dist]) (subst rs, intro list.set_intros)
  have l6: "map_of (rev ?kvs) ''module'' = Some (projr (json_Marshal_string (ThreadFlowLocation.Module strct)))"
    by (rule written_lookup [OF dist]) (subst rs, intro list.set_intros)
  have l7: "map_of (rev ?kvs) ''nestingLevel'' = Some (projr (json_Marshal_int (ThreadFlowLocation.NestingLevel strct)))"
    by (rule written_lookup [OF dist]) (subst rs, intro list.set_intros)
  have l8: "map_of (rev ?kvs) ''properties'' = Some (projr (json_Marshal_bytes ''*sarif.PropertyBag'' (PropertyBag_MarshalJSON scn ord) (ThreadFlowLocation.Properties strct)))"
    by (rule written_lookup [OF dist]) (subst rs, intro list.set_intros)
  have l9: "map_of (rev ?kvs) ''stack'' = Some (projr (json_Marshal_ptr ''*sarif.Stack'' (Stack_MarshalJSON scn ord) (ThreadFlowLocation.Stack strct)))"
    by (rule written_lookup [OF dist]) (subst rs, intro list.set_intros)
  have l10: "map_of (rev ?kvs) ''state'' = Some (projr (json_Marshal_map (json_Marshal_ptr ''*sarif.MultiformatMessageString'' (MultiformatMessageString_MarshalJSON scn ord)) (ThreadFlowLocation.State strct)))"
    by (rule written_lookup [OF dist]) (subst rs, intro list.set_intros)
  have l11: "map_of (rev ?kvs) ''taxa'' = Some (projr (json_Marshal_slice (json_Marshal_ptr ''*sarif.ReportingDescriptorReference'' (ReportingDescriptorReference_MarshalJSON scn ord)) (ThreadFlowLocation.Taxa strct)))"
    by (rule written_lookup [OF dist]) (subst rs, intro list.set_intros)
  have l12: "map_of (rev ?kvs) ''webRequest'' = Some (projr (json_Marshal_ptr ''*sarif.WebRequest'' (WebRequest_MarshalJSON scn ord) (ThreadFlowLocation.WebRequest strct)))"
    by (rule written_lookup [OF dist]) (subst rs, intro list.set_intros)
  have l13: "map_of (rev ?kvs) ''webResponse'' = Some (projr (json_Marshal_ptr ''*sarif.WebResponse'' (WebResponse_MarshalJSON scn ord) (ThreadFlowLocation.WebResponse strct)))"
    by (rule written_lookup [OF dist]) (subst rs, intro list.set_intros)
  have dec: "ThreadFlowLocation_decodes ord' (map_of (rev ?kvs)) strct"
    unfolding ThreadFlowLocation_decodes_def l0 l1 l2 l3 l4 l5 l6 l7 l8 l9 l10 l11 l12 l13
    by (simp only: field_ok_Some fs written_dom keys subset_refl option.simps simp_thms)
  then have "ThreadFlowLocation_UnmarshalJSON ord' (JObj ?kvs) = Inr strct"
    by (simp only: ThreadFlowLocation_decode_iff)
  with enc show "rt_object (ThreadFlowLocation_MarshalJSON scn ord) (ThreadFlowLocation_UnmarshalJSON ord') strct"
    unfolding rt_object_def by blast
qed

definition ThreadFlowLocation_small_bags :: "ThreadFlowLocation \<Rightarrow> bool" where
  "ThreadFlowLocation_small_bags strct \<longleftrightarrow>
     ptr_all Location_small_bags (ThreadFlowLocation.Location strct) \<and>
     ptr_all PropertyBag_small_bags (ThreadFlowLocation.Properties strct) \<and>
     ptr_all Stack_small_bags (ThreadFlowLocation.Stack strct) \<and>
     map_all (ptr_all MultiformatMessageString_small_bags) (ThreadFlowLocation.State strct) \<and>
     slice_all (ptr_all ReportingDescriptorReference_small_bags) (ThreadFlowLocation.Taxa strct) \<and>
     ptr_all WebRequest_small_bags (ThreadFlowLocation.WebRequest strct) \<and>
     ptr_all WebResponse_small_bags (ThreadFlowLocation.WebResponse strct)"

lemma ThreadFlowLocation_same_output:
  "same_output (ThreadFlowLocation_MarshalJSON scn ord) (ThreadFlowLocation_MarshalJSON scn ord') ThreadFlowLocation_small_bags"
  unfolding same_output_def
proof (intro allI impI)
  fix strct assume v: "ThreadFlowLocation_small_bags strct"
  note v' = v [unfolded ThreadFlowLocation_small_bags_def]
  have e5: "json_Marshal_ptr ''*sarif.Location'' (Location_MarshalJSON scn ord) (ThreadFlowLocation.Location strct) =
      json_Marshal_ptr ''*sarif.Location'' (Location_MarshalJSON scn ord') (ThreadFlowLocation.Location strct)"
    by (rule same_outputD [OF same_output_ptr [OF Location_same_output]]) (use v' in simp)
  have e8: "json_Marshal_bytes ''*sarif.PropertyBag'' (PropertyBag_MarshalJSON scn ord) (ThreadFlowLocation.Properties strct) =
      json_Marshal_bytes ''*sarif.PropertyBag'' (PropertyBag_MarshalJSON scn ord') (ThreadFlowLocation.Properties strct)"
    by (rule same_outputD [OF PropertyBag_field_same_output]) (use v' in simp)
  have e9: "json_Marshal_ptr ''*sarif.Stack'' (Stack_MarshalJSON scn ord) (ThreadFlowLocation.Stack strct) =
      json_Marshal_ptr ''*sarif.Stack'' (Stack_MarshalJSON scn ord') (ThreadFlowLocation.Stack strct)"
    by (rule same_outputD [OF same_output_ptr [OF Stack_same_output]]) (use v' in simp)
  have e10: "json_Marshal_map (json_Marshal_ptr ''*sarif.MultiformatMessageString'' (MultiformatMessageString_MarshalJSON scn ord)) (ThreadFlowLocation.State strct) =
      json_Marshal_map (json_Marshal_ptr ''*sarif.MultiformatMessageString'' (MultiformatMessageString_MarshalJSON scn ord')) (ThreadFlowLocation.State strct)"
    by (rule same_outputD [OF same_output_map [OF same_output_ptr [OF MultiformatMessageString_same_output]]]) (use v' in simp)
  have e11: "json_Marshal_slice (json_Marshal_ptr ''*sarif.ReportingDescriptorReference'' (ReportingDescriptorReference_MarshalJSON scn ord)) (ThreadFlowLocation.Taxa strct) =
      json_Marshal_slice (json_Marshal_ptr ''*sarif.ReportingDescriptorReference'' (ReportingDescriptorReference_MarshalJSON scn ord')) (ThreadFlowLocation.Taxa strct)"
    by (rule same_outputD [OF same_output_slice [OF same_output_ptr [OF ReportingDescriptorReference_same_output]]]) (use v' in simp)
  have e12: "json_Marshal_ptr ''*sarif.WebRequest'' (WebRequest_MarshalJSON scn ord) (ThreadFlowLocation.WebRequest strct) =
      json_Marshal_ptr ''*sarif.WebRequest'' (WebRequest_MarshalJSON scn ord') (ThreadFlowLocation.WebRequest strct)"
    by (rule same_outputD [OF same_output_ptr [OF WebRequest_same_output]]) (use v' in simp)
  have e13: "json_Marshal_ptr ''*sarif.WebResponse'' (WebResponse_MarshalJSON scn ord) (ThreadFlowLocation.WebResponse strct) =
      json_Marshal_ptr ''*sarif.WebResponse'' (WebResponse_MarshalJSON scn ord') (ThreadFlowLocation.WebResponse strct)"
    by (rule same_outputD [OF same_output_ptr [OF WebResponse_same_output]]) (use v' in simp)
  show "ThreadFlowLocation_MarshalJSON scn ord strct = ThreadFlowLocation_MarshalJSON scn ord' strct"
    by (simp only: ThreadFlowLocation_MarshalJSON_def e5 e8 e9 e10 e11 e12 e13)
qed

lemma ThreadFlowLocation_writes_keys: "writes_keys (ThreadFlowLocation_MarshalJSON scn ord) ThreadFlowLocation_keys"
  unfolding writes_keys_def by (intro allI impI) (erule ThreadFlowLocation_keys_written)

lemma ThreadFlowLocation_unknown_key:
  assumes new: "k \<notin> set ThreadFlowLocation_keys" and key: "k \<in> fst ` set kvs"
    and rest: "ThreadFlowLocation_UnmarshalJSON ord (JObj (filter (\<lambda>e. fst e \<noteq> k) kvs)) = Inr strct"
  shows "ThreadFlowLocation_UnmarshalJSON ord (JObj kvs) = Inl (not_allowed k)"
proof -
  have rej: "switch k (ThreadFlowLocation_cases ord v) (reject k) s = Inl (not_allowed k)" for v s
    by (rule switch_rejects) (simp only: ThreadFlowLocation_cases_keys new not_False_eq_True)
  from rest obtain t where
    "range_loop (\<lambda>k v. switch k (ThreadFlowLocation_cases ord v) (reject k)) (members ord (filter (\<lambda>e. fst e \<noteq> k) kvs)) ThreadFlowLocation_zero = Inr t"
    by (cases "range_loop (\<lambda>k v. switch k (ThreadFlowLocation_cases ord v) (reject k)) (members ord (filter (\<lambda>e. fst e \<noteq> k) kvs)) ThreadFlowLocation_zero")
       (simp_all add: ThreadFlowLocation_UnmarshalJSON_def members_def)
  from unknown_key_named [OF ThreadFlowLocation_regular rej key this]
  show ?thesis by (simp add: ThreadFlowLocation_UnmarshalJSON_def members_def)
qed

lemma ThreadFlowLocation_unknown_key_fails:
  assumes "k \<notin> set ThreadFlowLocation_keys" and "k \<in> fst ` set kvs"
  shows "isl (ThreadFlowLocation_UnmarshalJSON ord (JObj kvs))"
proof (cases "ThreadFlowLocation_UnmarshalJSON ord (JObj kvs)")
  case (Inr strct)
  then have "dom (map_of (rev kvs)) \<subseteq> set ThreadFlowLocation_keys"
    by (simp only: ThreadFlowLocation_decode_iff ThreadFlowLocation_decodesD(1))
  with assms show ?thesis by (auto simp: dom_map_of_conv_image_fst)
qed simp

lemma ThreadFlowLocation_rejects_unknown_keys: "rejects_unknown_keys (ThreadFlowLocation_UnmarshalJSON ord) ThreadFlowLocation_keys"
  by (rule rejects_unknown_keysI) (erule (1) ThreadFlowLocation_unknown_key_fails, erule (2) ThreadFlowLocation_unknown_key)

subsection \<open>ThreadFlow: decoding and encoding\<close>

definition ThreadFlow_keys :: "string list" where
  "ThreadFlow_keys = [''id'', ''immutableState'', ''initialState'', ''locations'', ''message'', ''properties'']"

definition ThreadFlow_decodes :: "order \<Rightarrow> (string \<rightharpoonup> json) \<Rightarrow> ThreadFlow \<Rightarrow> bool" where
  "ThreadFlow_decodes ord m strct \<longleftrightarrow>
     dom m \<subseteq> set ThreadFlow_keys \<and>
     field_ok json_Unmarshal_string (m ''id'') [] (ThreadFlow.Id strct) \<and>
     field_ok (json_Unmarshal_map (json_Unmarshal_ptr (MultiformatMessageString_UnmarshalJSON ord))) (m ''immutableState'') None (ThreadFlow.ImmutableState strct) \<and>
     field_ok (json_Unmarshal_map (json_Unmarshal_ptr (MultiformatMessageString_UnmarshalJSON ord))) (m ''initialState'') None (ThreadFlow.InitialState strct) \<and>
     field_ok (json_Unmarshal_slice (json_Unmarshal_ptr (ThreadFlowLocation_UnmarshalJSON ord))) (m ''locations'') None (ThreadFlow.Locations strct) \<and>
     field_ok (json_Unmarshal_ptr (Message_UnmarshalJSON ord)) (m ''message'') None (ThreadFlow.Message strct) \<and>
     field_ok (json_Unmarshal_ptr (PropertyBag_UnmarshalJSON ord)) (m ''properties'') None (ThreadFlow.Properties strct) \<and>
     m ''locations'' \<noteq> None"

lemma ThreadFlow_cases_keys: "fst ` set (ThreadFlow_cases ord v) = set ThreadFlow_keys"
  by (rule keys_image) (simp add: ThreadFlow_cases_def ThreadFlow_keys_def)

lemma ThreadFlow_regular: "regular (\<lambda>k v. switch k (ThreadFlow_cases ord v) (reject k))"
  by (rule regular_switch) (simp add: ThreadFlow_cases_def)

lemma ThreadFlow_fields:
  "field_case (ThreadFlow_cases ord) (\<lambda>(strct, locationsReceived). ThreadFlow.Id strct) ''id'' json_Unmarshal_string"
  "field_case (ThreadFlow_cases ord) (\<lambda>(strct, locationsReceived). ThreadFlow.ImmutableState strct) ''immutableState'' (json_Unmarshal_map (json_Unmarshal_ptr (MultiformatMessageString_UnmarshalJSON ord)))"
  "field_case (ThreadFlow_cases ord) (\<lambda>(strct, locationsReceived). ThreadFlow.InitialState strct) ''initialState'' (json_Unmarshal_map (json_Unmarshal_ptr (MultiformatMessageString_UnmarshalJSON ord)))"
  "field_case (ThreadFlow_cases ord) (\<lambda>(strct, locationsReceived). ThreadFlow.Locations strct) ''locations'' (json_Unmarshal_slice (json_Unmarshal_ptr (ThreadFlowLocation_UnmarshalJSON ord)))"
  "field_case (ThreadFlow_cases ord) (\<lambda>(strct, locationsReceived). ThreadFlow.Message strct) ''message'' (json_Unmarshal_ptr (Message_UnmarshalJSON ord))"
  "field_case (ThreadFlow_cases ord) (\<lambda>(strct, locationsReceived). ThreadFlow.Properties strct) ''properties'' (json_Unmarshal_ptr (PropertyBag_UnmarshalJSON ord))"
  "field_case (ThreadFlow_cases ord) (\<lambda>(strct, locationsReceived). locationsReceived) ''locations'' (received (json_Unmarshal_slice (json_Unmarshal_ptr (ThreadFlowLocation_UnmarshalJSON ord))))"
  unfolding field_case_def ThreadFlow_cases_def
  by (simp_all add: writes_into writes_received keeps_into split_def)

lemma ThreadFlow_loop_sound:
  assumes loop: "range_loop (\<lambda>k v. switch k (ThreadFlow_cases ord v) (reject k)) (members ord kvs) (ThreadFlow_zero, False) = Inr (strct, locationsReceived)"
  shows "dom (map_of (rev kvs)) \<subseteq> set ThreadFlow_keys \<and>
     field_ok json_Unmarshal_string (map_of (rev kvs) ''id'') [] (ThreadFlow.Id strct) \<and>
     field_ok (json_Unmarshal_map (json_Unmarshal_ptr (MultiformatMessageString_UnmarshalJSON ord))) (map_of (rev kvs) ''immutableState'') None (ThreadFlow.ImmutableState strct) \<and>
     field_ok (json_Unmarshal_map (json_Unmarshal_ptr (MultiformatMessageString_UnmarshalJSON ord))) (map_of (rev kvs) ''initialState'') None (ThreadFlow.InitialState strct) \<and>
     field_ok (json_Unmarshal_slice (json_Unmarshal_ptr (ThreadFlowLocation_UnmarshalJSON ord))) (map_of (rev kvs) ''locations'') None (ThreadFlow.Locations strct) \<and>
     field_ok (json_Unmarshal_ptr (Message_UnmarshalJSON ord)) (map_of (rev kvs) ''message'') None (ThreadFlow.Message strct) \<and>
     field_ok (json_Unmarshal_ptr (PropertyBag_UnmarshalJSON ord)) (map_of (rev kvs) ''properties'') None (ThreadFlow.Properties strct) \<and>
     (locationsReceived \<longleftrightarrow> map_of (rev kvs) ''locations'' \<noteq> None)"
proof -
  have "fst ` set (members ord kvs) \<subseteq> set ThreadFlow_keys"
    by (rule loop_keys_known [OF loop]) (rule ThreadFlow_cases_keys)
  then have keys: "dom (map_of (rev kvs)) \<subseteq> set ThreadFlow_keys"
    by (simp add: dom_members [of kvs ord])
  note fld = field_after_loop [OF _ members_distinct loop, unfolded map_of_members]
  note flg = flag_after_loop [OF _ members_distinct loop, unfolded map_of_members]
  show ?thesis
    using keys fld [OF ThreadFlow_fields(1)] fld [OF ThreadFlow_fields(2)] fld [OF ThreadFlow_fields(3)] fld [OF ThreadFlow_fields(4)] fld [OF ThreadFlow_fields(5)] fld [OF ThreadFlow_fields(6)] flg [OF ThreadFlow_fields(7)]
    by (simp only: prod.case ThreadFlow_zero_def ThreadFlow.select_convs simp_thms)
qed

lemma ThreadFlow_decodesD:
  assumes "ThreadFlow_decodes ord m strct"
  shows "dom m \<subseteq> set ThreadFlow_keys"
    and "field_ok json_Unmarshal_string (m ''id'') [] (ThreadFlow.Id strct)"
    and "field_ok (json_Unmarshal_map (json_Unmarshal_ptr (MultiformatMessageString_UnmarshalJSON ord))) (m ''immutableState'') None (ThreadFlow.ImmutableState strct)"
    and "field_ok (json_Unmarshal_map (json_Unmarshal_ptr (MultiformatMessageString_UnmarshalJSON ord))) (m ''initialState'') None (ThreadFlow.InitialState strct)"
    and "field_ok (json_Unmarshal_slice (json_Unmarshal_ptr (ThreadFlowLocation_UnmarshalJSON ord))) (m ''locations'') None (ThreadFlow.Locations strct)"
    and "field_ok (json_Unmarshal_ptr (Message_UnmarshalJSON ord)) (m ''message'') None (ThreadFlow.Message strct)"
    and "field_ok (json_Unmarshal_ptr (PropertyBag_UnmarshalJSON ord)) (m ''properties'') None (ThreadFlow.Properties strct)"
    and "m ''locations'' \<noteq> None"
  using assms unfolding ThreadFlow_decodes_def by - (elim conjE, assumption)+

lemma ThreadFlow_decodes_unique:
  assumes "ThreadFlow_decodes ord m a" and "ThreadFlow_decodes ord m b"
  shows "a = b"
  apply (rule ThreadFlow.equality)
  apply (rule field_ok_unique [OF ThreadFlow_decodesD(2) [OF assms(1)] ThreadFlow_decodesD(2) [OF assms(2)]])
  apply (rule field_ok_unique [OF ThreadFlow_decodesD(3) [OF assms(1)] ThreadFlow_decodesD(3) [OF assms(2)]])
  apply (rule field_ok_unique [OF ThreadFlow_decodesD(4) [OF assms(1)] ThreadFlow_decodesD(4) [OF assms(2)]])
  apply (rule field_ok_unique [OF ThreadFlow_decodesD(5) [OF assms(1)] ThreadFlow_decodesD(5) [OF assms(2)]])
  apply (rule field_ok_unique [OF ThreadFlow_decodesD(6) [OF assms(1)] ThreadFlow_decodesD(6) [OF assms(2)]])
  apply (rule field_ok_unique [OF ThreadFlow_decodesD(7) [OF assms(1)] ThreadFlow_decodesD(7) [OF assms(2)]])
  apply simp
  done

lemma ThreadFlow_accepts:
  assumes "ThreadFlow_decodes ord m strct" and "m k = Some v"
  shows "accepting (switch k (ThreadFlow_cases ord v) (reject k))"
proof -
  from assms have "k \<in> set ThreadFlow_keys" by (auto simp: ThreadFlow_decodes_def)
  then have key: "k \<in> fst ` set (ThreadFlow_cases ord v)"
    by (simp only: ThreadFlow_cases_keys)
  have rows: "list_all (\<lambda>(c, h). m c = Some v \<longrightarrow> accepting h) (ThreadFlow_cases ord v)"
    unfolding ThreadFlow_cases_def list.pred_inject
    apply (rule conjI [OF accept_row [where m = m and v = v, OF ThreadFlow_decodesD(2) [OF assms(1)]]])
    apply (rule conjI [OF accept_row [where m = m and v = v, OF ThreadFlow_decodesD(3) [OF assms(1)]]])
    apply (rule conjI [OF accept_row [where m = m and v = v, OF ThreadFlow_decodesD(4) [OF assms(1)]]])
    apply (rule conjI [OF accept_row [where m = m and v = v, OF ThreadFlow_decodesD(5) [OF assms(1)]]])
    apply (rule conjI [OF accept_row [where m = m and v = v, OF ThreadFlow_decodesD(6) [OF assms(1)]]])
    apply (rule conjI [OF accept_row [where m = m and v = v, OF ThreadFlow_decodesD(7) [OF assms(1)]]])
    apply simp
    done
  show ?thesis by (rule rows_accept [OF rows assms(2) key])
qed

lemma ThreadFlow_decode_iff:
  "ThreadFlow_UnmarshalJSON ord (JObj kvs) = Inr strct \<longleftrightarrow>
   ThreadFlow_decodes ord (map_of (rev kvs)) strct"
proof
  assume "ThreadFlow_UnmarshalJSON ord (JObj kvs) = Inr strct"
  then obtain locationsReceived where
    loop: "range_loop (\<lambda>k v. switch k (ThreadFlow_cases ord v) (reject k)) (members ord kvs) (ThreadFlow_zero, False) = Inr (strct, locationsReceived)"
    and fin: "locationsReceived"
    by (auto simp: ThreadFlow_UnmarshalJSON_def members_def split: sum.splits if_splits)
  from ThreadFlow_loop_sound [OF loop] fin
  show "ThreadFlow_decodes ord (map_of (rev kvs)) strct"
    by (simp add: ThreadFlow_decodes_def)
next
  assume d: "ThreadFlow_decodes ord (map_of (rev kvs)) strct"
  have "\<exists>t. range_loop (\<lambda>k v. switch k (ThreadFlow_cases ord v) (reject k)) (members ord kvs) (ThreadFlow_zero, False) = Inr t"
  proof (rule loop_succeeds [OF ThreadFlow_regular])
    fix k v assume "(k, v) \<in> set (members ord kvs)"
    then have "map_of (rev kvs) k = Some v" by (rule member_lookup)
    from ThreadFlow_accepts [OF d this]
    show "accepting (switch k (ThreadFlow_cases ord v) (reject k))" .
  qed
  then obtain t where "range_loop (\<lambda>k v. switch k (ThreadFlow_cases ord v) (reject k)) (members ord kvs) (ThreadFlow_zero, False) = Inr t" ..
  then obtain strct' locationsReceived where
    loop: "range_loop (\<lambda>k v. switch k (ThreadFlow_cases ord v) (reject k)) (members ord kvs) (ThreadFlow_zero, False) = Inr (strct', locationsReceived)"
    by (cases t) auto
  from ThreadFlow_loop_sound [OF loop] d
  have fin: "locationsReceived"
    and d': "ThreadFlow_decodes ord (map_of (rev kvs)) strct'"
    by (simp_all add: ThreadFlow_decodes_def)
  from ThreadFlow_decodes_unique [OF d' d] have "strct' = strct" .
  with loop fin show "ThreadFlow_UnmarshalJSON ord (JObj kvs) = Inr strct"
    by (simp add: ThreadFlow_UnmarshalJSON_def members_def)
qed

definition ThreadFlow_results :: "scanner \<Rightarrow> order \<Rightarrow> ThreadFlow \<Rightarrow> (string \<times> (error + json)) list" where
  "ThreadFlow_results scn ord strct =
     [(''id'', json_Marshal_string (ThreadFlow.Id strct)),
      (''immutableState'', json_Marshal_map (json_Marshal_ptr ''*sarif.MultiformatMessageString'' (MultiformatMessageString_MarshalJSON scn ord)) (ThreadFlow.ImmutableState strct)),
      (''initialState'', json_Marshal_map (json_Marshal_ptr ''*sarif.MultiformatMessageString'' (MultiformatMessageString_MarshalJSON scn ord)) (ThreadFlow.InitialState strct)),
      (''locations'', json_Marshal_slice (json_Marshal_ptr ''*sarif.ThreadFlowLocation'' (ThreadFlowLocation_MarshalJSON scn ord)) (ThreadFlow.Locations strct)),
      (''message'', json_Marshal_ptr ''*sarif.Message'' (Message_MarshalJSON scn ord) (ThreadFlow.Message strct)),
      (''properties'', json_Marshal_bytes ''*sarif.PropertyBag'' (PropertyBag_MarshalJSON scn ord) (ThreadFlow.Properties strct))]"

lemma ThreadFlow_MarshalJSON_results:
  "ThreadFlow_MarshalJSON scn ord strct = object (emit_all (ThreadFlow_results scn ord strct))"
  by (simp add: ThreadFlow_MarshalJSON_def ThreadFlow_results_def emit_nilcheck)

lemma ThreadFlow_keys_written:
  "ThreadFlow_MarshalJSON scn ord strct = Inr j \<Longrightarrow> \<exists>kvs. j = JObj kvs \<and> map fst kvs = ThreadFlow_keys"
  using keys_written [of "ThreadFlow_results scn ord strct" j]
  by (simp add: ThreadFlow_MarshalJSON_results ThreadFlow_results_def ThreadFlow_keys_def)

definition ThreadFlow_encodable :: "scanner \<Rightarrow> order \<Rightarrow> ThreadFlow \<Rightarrow> bool" where
  "ThreadFlow_encodable scn ord strct \<longleftrightarrow>
     map_all (ptr_all (MultiformatMessageString_encodable scn ord)) (ThreadFlow.ImmutableState strct) \<and>
     map_all (ptr_all (MultiformatMessageString_encodable scn ord)) (ThreadFlow.InitialState strct) \<and>
     slice_all (ptr_all (ThreadFlowLocation_encodable scn ord)) (ThreadFlow.Locations strct) \<and>
     ptr_all (Message_encodable scn ord) (ThreadFlow.Message strct) \<and>
     ptr_all (PropertyBag_encodable scn ord) (ThreadFlow.Properties strct)"

lemma ThreadFlow_fails_unless: "fails_unless (ThreadFlow_MarshalJSON scn ord) (ThreadFlow_encodable scn ord)"
  unfolding fails_unless_def ThreadFlow_MarshalJSON_results ThreadFlow_results_def ThreadFlow_encodable_def isl_object_emit_all
  by (auto simp add: always_simps
      fails_unlessD [OF fails_unless_string]
      fails_unlessD [OF fails_unless_map [OF fails_unless_ptr [OF MultiformatMessageString_fails_unless]]]
      fails_unlessD [OF fails_unless_slice [OF fails_unless_ptr [OF ThreadFlowLocation_fails_unless]]]
      fails_unlessD [OF fails_unless_ptr [OF Message_fails_unless]]
      fails_unlessD [OF PropertyBag_field_fails_unless])

definition ThreadFlow_valid :: "ThreadFlow \<Rightarrow> bool" where
  "ThreadFlow_valid strct \<longleftrightarrow>
     map_valid (ptr_all MultiformatMessageString_valid) (ThreadFlow.ImmutableState strct) \<and>
     map_valid (ptr_all MultiformatMessageString_valid) (ThreadFlow.InitialState strct) \<and>
     slice_all (ptr_all ThreadFlowLocation_valid) (ThreadFlow.Locations strct) \<and>
     ptr_all Message_valid (ThreadFlow.Message strct) \<and>
     ptr_all PropertyBag_valid (ThreadFlow.Properties strct)"

lemma ThreadFlow_keys_distinct: "distinct ThreadFlow_keys"
  by (simp add: ThreadFlow_keys_def)

lemma ThreadFlow_round_trips:
  "round_trips_object (ThreadFlow_MarshalJSON scn ord) (ThreadFlow_UnmarshalJSON ord') ThreadFlow_valid"
  unfolding round_trips_object_def
proof (intro allI impI)
  fix strct assume v: "ThreadFlow_valid strct"
  note v' = v [unfolded ThreadFlow_valid_def]
  let ?rs = "ThreadFlow_results scn ord strct"
  let ?kvs = "map (\<lambda>e. (fst e, projr (snd e))) ?rs"
  have f0: "\<not> isl (json_Marshal_string (ThreadFlow.Id strct)) \<and>
      json_Unmarshal_string (projr (json_Marshal_string (ThreadFlow.Id strct))) = Inr (ThreadFlow.Id strct)"
    by (rule round_tripsD [OF round_trips_string]) (use v' in simp)
  have f1: "\<not> isl (json_Marshal_map (json_Marshal_ptr ''*sarif.MultiformatMessageString'' (MultiformatMessageString_MarshalJSON scn ord)) (ThreadFlow.ImmutableState strct)) \<and>
      json_Unmarshal_map (json_Unmarshal_ptr (MultiformatMessageString_UnmarshalJSON ord')) (projr (json_Marshal_map (json_Marshal_ptr ''*sarif.MultiformatMessageString'' (MultiformatMessageString_MarshalJSON scn ord)) (ThreadFlow.ImmutableState strct))) = Inr (ThreadFlow.ImmutableState strct)"
    by (rule round_tripsD [OF round_trips_map [OF round_trips_ptr [OF MultiformatMessageString_round_trips]]]) (use v' in simp)
  have f2: "\<not> isl (json_Marshal_map (json_Marshal_ptr ''*sarif.MultiformatMessageString'' (MultiformatMessageString_MarshalJSON scn ord)) (ThreadFlow.InitialState strct)) \<and>
      json_Unmarshal_map (json_Unmarshal_ptr (MultiformatMessageString_UnmarshalJSON ord')) (projr (json_Marshal_map (json_Marshal_ptr ''*sarif.MultiformatMessageString'' (MultiformatMessageString_MarshalJSON scn ord)) (ThreadFlow.InitialState strct))) = Inr (ThreadFlow.InitialState strct)"
    by (rule round_tripsD [OF round_trips_map [OF round_trips_ptr [OF MultiformatMessageString_round_trips]]]) (use v' in simp)
  have f3: "\<not> isl (json_Marshal_slice (json_Marshal_ptr ''*sarif.ThreadFlowLocation'' (ThreadFlowLocation_MarshalJSON scn ord)) (ThreadFlow.Locations strct)) \<and>
      json_Unmarshal_slice (json_Unmarshal_ptr (ThreadFlowLocation_UnmarshalJSON ord')) (projr (json_Marshal_slice (json_Marshal_ptr ''*sarif.ThreadFlowLocation'' (ThreadFlowLocation_MarshalJSON scn ord)) (ThreadFlow.Locations strct))) = Inr (ThreadFlow.Locations strct)"
    by (rule round_tripsD [OF round_trips_slice [OF round_trips_ptr [OF ThreadFlowLocation_round_trips]]]) (use v' in simp)
  have f4: "\<not> isl (json_Marshal_ptr ''*sarif.Message'' (Message_MarshalJSON scn ord) (ThreadFlow.Message strct)) \<and>
      json_Unmarshal_ptr (Message_UnmarshalJSON ord') (projr (json_Marshal_ptr ''*sarif.Message'' (Message_MarshalJSON scn ord) (ThreadFlow.Message strct))) = Inr (ThreadFlow.Message strct)"
    by (rule round_tripsD [OF round_trips_ptr [OF Message_round_trips]]) (use v' in simp)
  have f5: "\<not> isl (json_Marshal_bytes ''*sarif.PropertyBag'' (PropertyBag_MarshalJSON scn ord) (ThreadFlow.Properties strct)) \<and>
      json_Unmarshal_ptr (PropertyBag_UnmarshalJSON ord') (projr (json_Marshal_bytes ''*sarif.PropertyBag'' (PropertyBag_MarshalJSON scn ord) (ThreadFlow.Properties strct))) = Inr (ThreadFlow.Properties strct)"
    by (rule round_tripsD [OF PropertyBag_field_round_trips]) (use v' in simp)
  note fs = f0 f1 f2 f3 f4 f5
  have rs: "?rs =
     [(''id'', json_Marshal_string (ThreadFlow.Id strct)),
      (''immutableState'', json_Marshal_map (json_Marshal_ptr ''*sarif.MultiformatMessageString'' (MultiformatMessageString_MarshalJSON scn ord)) (ThreadFlow.ImmutableState strct)),
      (''initialState'', json_Marshal_map (json_Marshal_ptr ''*sarif.MultiformatMessageString'' (MultiformatMessageString_MarshalJSON scn ord)) (ThreadFlow.InitialState strct)),
      (''locations'', json_Marshal_slice (json_Marshal_ptr ''*sarif.ThreadFlowLocation'' (ThreadFlowLocation_MarshalJSON scn ord)) (ThreadFlow.Locations strct)),
      (''message'', json_Marshal_ptr ''*sarif.Message'' (Message_MarshalJSON scn ord) (ThreadFlow.Message strct)),
      (''properties'', json_Marshal_bytes ''*sarif.PropertyBag'' (PropertyBag_MarshalJSON scn ord) (ThreadFlow.Properties strct))]"
    by (auto simp add: ThreadFlow_results_def)
  have keys: "map fst ?rs = ThreadFlow_keys"
    by (simp add: ThreadFlow_results_def ThreadFlow_keys_def)
  then have dist: "distinct (map fst ?rs)"
    by (simp only: ThreadFlow_keys_distinct)
  have ok: "list_all (\<lambda>e. \<not> isl (snd e)) ?rs"
    unfolding rs by (simp only: list.pred_inject snd_conv fs simp_thms)
  then have enc: "ThreadFlow_MarshalJSON scn ord strct = Inr (JObj ?kvs)"
    by (simp add: ThreadFlow_MarshalJSON_results [of scn ord strct] object_emit_all_eq_Inr)
  have l0: "map_of (rev ?kvs) ''id'' = Some (projr (json_Marshal_string (ThreadFlow.Id strct)))"
    by (rule written_lookup [OF dist]) (subst rs, intro list.set_intros)
  have l1: "map_of (rev ?kvs) ''immutableState'' = Some (projr (json_Marshal_map (json_Marshal_ptr ''*sarif.MultiformatMessageString'' (MultiformatMessageString_MarshalJSON scn ord)) (ThreadFlow.ImmutableState strct)))"
    by (rule written_lookup [OF dist]) (subst rs, intro list.set_intros)
  have l2: "map_of (rev ?kvs) ''initialState'' = Some (projr (json_Marshal_map (json_Marshal_ptr ''*sarif.MultiformatMessageString'' (MultiformatMessageString_MarshalJSON scn ord)) (ThreadFlow.InitialState strct)))"
    by (rule written_lookup [OF dist]) (subst rs, intro list.set_intros)
  have l3: "map_of (rev ?kvs) ''locations'' = Some (projr (json_Marshal_slice (json_Marshal_ptr ''*sarif.ThreadFlowLocation'' (ThreadFlowLocation_MarshalJSON scn ord)) (ThreadFlow.Locations strct)))"
    by (rule written_lookup [OF dist]) (subst rs, intro list.set_intros)
  have l4: "map_of (rev ?kvs) ''message'' = Some (projr (json_Marshal_ptr ''*sarif.Message'' (Message_MarshalJSON scn ord) (ThreadFlow.Message strct)))"
    by (rule written_lookup [OF dist]) (subst rs, intro list.set_intros)
  have l5: "map_of (rev ?kvs) ''properties'' = Some (projr (json_Marshal_bytes ''*sarif.PropertyBag'' (PropertyBag_MarshalJSON scn ord) (ThreadFlow.Properties strct)))"
    by (rule written_lookup [OF dist]) (subst rs, intro list.set_intros)
  have dec: "ThreadFlow_decodes ord' (map_of (rev ?kvs)) strct"
    unfolding ThreadFlow_decodes_def l0 l1 l2 l3 l4 l5
    by (simp only: field_ok_Some fs written_dom keys subset_refl option.simps simp_thms)
  then have "ThreadFlow_UnmarshalJSON ord' (JObj ?kvs) = Inr strct"
    by (simp only: ThreadFlow_decode_iff)
  with enc show "rt_object (ThreadFlow_MarshalJSON scn ord) (ThreadFlow_UnmarshalJSON ord') strct"
    unfolding rt_object_def by blast
qed

definition ThreadFlow_small_bags :: "ThreadFlow \<Rightarrow> bool" where
  "ThreadFlow_small_bags strct \<longleftrightarrow>
     map_all (ptr_all MultiformatMessageString_small_bags) (ThreadFlow.ImmutableState strct) \<and>
     map_all (ptr_all MultiformatMessageString_small_bags) (ThreadFlow.InitialState strct) \<and>
     slice_all (ptr_all ThreadFlowLocation_small_bags) (ThreadFlow.Locations strct) \<and>
     ptr_all Message_small_bags (ThreadFlow.Message strct) \<and>
     ptr_all PropertyBag_small_bags (ThreadFlow.Properties strct)"

lemma ThreadFlow_same_output:
  "same_output (ThreadFlow_MarshalJSON scn ord) (ThreadFlow_MarshalJSON scn ord') ThreadFlow_small_bags"
  unfolding same_output_def
proof (intro allI impI)
  fix strct assume v: "ThreadFlow_small_bags strct"
  note v' = v [unfolded ThreadFlow_small_bags_def]
  have e1: "json_Marshal_map (json_Marshal_ptr ''*sarif.MultiformatMessageString'' (MultiformatMessageString_MarshalJSON scn ord)) (ThreadFlow.ImmutableState strct) =
      json_Marshal_map (json_Marshal_ptr ''*sarif.MultiformatMessageString'' (MultiformatMessageString_MarshalJSON scn ord')) (ThreadFlow.ImmutableState strct)"
    by (rule same_outputD [OF same_output_map [OF same_output_ptr [OF MultiformatMessageString_same_output]]]) (use v' in simp)
  have e2: "json_Marshal_map (json_Marshal_ptr ''*sarif.MultiformatMessageString'' (MultiformatMessageString_MarshalJSON scn ord)) (ThreadFlow.InitialState strct) =
      json_Marshal_map (json_Marshal_ptr ''*sarif.MultiformatMessageString'' (MultiformatMessageString_MarshalJSON scn ord')) (ThreadFlow.InitialState strct)"
    by (rule same_outputD [OF same_output_map [OF same_output_ptr [OF MultiformatMessageString_same_output]]]) (use v' in simp)
  have e3: "json_Marshal_slice (json_Marshal_ptr ''*sarif.ThreadFlowLocation'' (ThreadFlowLocation_MarshalJSON scn ord)) (ThreadFlow.Locations strct) =
      json_Marshal_slice (json_Marshal_ptr ''*sarif.ThreadFlowLocation'' (ThreadFlowLocation_MarshalJSON scn ord')) (ThreadFlow.Locations strct)"
    by (rule same_outputD [OF same_output_slice [OF same_output_ptr [OF ThreadFlowLocation_same_output]]]) (use v' in simp)
  have e4: "json_Marshal_ptr ''*sarif.Message'' (Message_MarshalJSON scn ord) (ThreadFlow.Message strct) =
      json_Marshal_ptr ''*sarif.Message'' (Message_MarshalJSON scn ord') (ThreadFlow.Message strct)"
    by (rule same_outputD [OF same_output_ptr [OF Message_same_output]]) (use v' in simp)
  have e5: "json_Marshal_bytes ''*sarif.PropertyBag'' (PropertyBag_MarshalJSON scn ord) (ThreadFlow.Properties strct) =
      json_Marshal_bytes ''*sarif.PropertyBag'' (PropertyBag_MarshalJSON scn ord') (ThreadFlow.Properties strct)"
    by (rule same_outputD [OF PropertyBag_field_same_output]) (use v' in simp)
  show "ThreadFlow_MarshalJSON scn ord strct = ThreadFlow_MarshalJSON scn ord' strct"
    by (simp only: ThreadFlow_MarshalJSON_def e1 e2 e3 e4 e5)
qed

lemma ThreadFlow_writes_keys: "writes_keys (ThreadFlow_MarshalJSON scn ord) ThreadFlow_keys"
  unfolding writes_keys_def by (intro allI impI) (erule ThreadFlow_keys_written)

lemma ThreadFlow_unknown_key:
  assumes new: "k \<notin> set ThreadFlow_keys" and key: "k \<in> fst ` set kvs"
    and rest: "ThreadFlow_UnmarshalJSON ord (JObj (filter (\<lambda>e. fst e \<noteq> k) kvs)) = Inr strct"
  shows "ThreadFlow_UnmarshalJSON ord (JObj kvs) = Inl (not_allowed k)"
proof -
  have rej: "switch k (ThreadFlow_cases ord v) (reject k) s = Inl (not_allowed k)" for v s
    by (rule switch_rejects) (simp only: ThreadFlow_cases_keys new not_False_eq_True)
  from rest obtain t where
    "range_loop (\<lambda>k v. switch k (ThreadFlow_cases ord v) (reject k)) (members ord (filter (\<lambda>e. fst e \<noteq> k) kvs)) (ThreadFlow_zero, False) = Inr t"
    by (cases "range_loop (\<lambda>k v. switch k (ThreadFlow_cases ord v) (reject k)) (members ord (filter (\<lambda>e. fst e \<noteq> k) kvs)) (ThreadFlow_zero, False)")
       (simp_all add: ThreadFlow_UnmarshalJSON_def members_def)
  from unknown_key_named [OF ThreadFlow_regular rej key this]
  show ?thesis by (simp add: ThreadFlow_UnmarshalJSON_def members_def)
qed

lemma ThreadFlow_unknown_key_fails:
  assumes "k \<notin> set ThreadFlow_keys" and "k \<in> fst ` set kvs"
  shows "isl (ThreadFlow_UnmarshalJSON ord (JObj kvs))"
proof (cases "ThreadFlow_UnmarshalJSON ord (JObj kvs)")
  case (Inr strct)
  then have "dom (map_of (rev kvs)) \<subseteq> set ThreadFlow_keys"
    by (simp only: ThreadFlow_decode_iff ThreadFlow_decodesD(1))
  with assms show ?thesis by (auto simp: dom_map_of_conv_image_fst)
qed simp

lemma ThreadFlow_required_present:
  assumes "ThreadFlow_UnmarshalJSON ord (JObj kvs) = Inr strct"
  shows "''locations'' \<in> fst ` set kvs"
proof -
  from assms have d: "ThreadFlow_decodes ord (map_of (rev kvs)) strct" by (simp only: ThreadFlow_decode_iff)
  show "''locations'' \<in> fst ` set kvs"
    using ThreadFlow_decodesD(8) [OF d]
    by (simp_all only: present_key)
qed

lemma ThreadFlow_without_Locations:
  assumes "ThreadFlow_UnmarshalJSON ord (JObj kvs) = Inr strct"
  shows "ThreadFlow_UnmarshalJSON ord (JObj (filter (\<lambda>e. fst e \<noteq> ''locations'') kvs)) =
    Inl (RequiredNotPresent ''locations'')"
proof -
  from assms have d: "ThreadFlow_decodes ord (map_of (rev kvs)) strct" by (simp only: ThreadFlow_decode_iff)
  have "\<exists>t. range_loop (\<lambda>k v. switch k (ThreadFlow_cases ord v) (reject k)) (members ord (filter (\<lambda>e. fst e \<noteq> ''locations'') kvs))
      (ThreadFlow_zero, False) = Inr t"
  proof (rule loop_succeeds [OF ThreadFlow_regular])
    fix k v assume "(k, v) \<in> set (members ord (filter (\<lambda>e. fst e \<noteq> ''locations'') kvs))"
    then have "map_of (rev kvs) k = Some v" by (rule member_lookup_filter)
    from ThreadFlow_accepts [OF d this]
    show "accepting (switch k (ThreadFlow_cases ord v) (reject k))" .
  qed
  then obtain t where "range_loop (\<lambda>k v. switch k (ThreadFlow_cases ord v) (reject k)) (members ord (filter (\<lambda>e. fst e \<noteq> ''locations'') kvs))
      (ThreadFlow_zero, False) = Inr t" ..
  then obtain strct' locationsReceived where
    loop: "range_loop (\<lambda>k v. switch k (ThreadFlow_cases ord v) (reject k)) (members ord (filter (\<lambda>e. fst e \<noteq> ''locations'') kvs))
      (ThreadFlow_zero, False) = Inr (strct', locationsReceived)"
    by (cases t) auto
  from ThreadFlow_loop_sound [OF loop] ThreadFlow_decodesD(8) [OF d]
  have "\<not> locationsReceived"
    by (simp_all add: lookup_filter)
  with loop show ?thesis
    by (simp add: ThreadFlow_UnmarshalJSON_def members_def)
qed


lemma ThreadFlow_rejects_unknown_keys: "rejects_unknown_keys (ThreadFlow_UnmarshalJSON ord) ThreadFlow_keys"
  by (rule rejects_unknown_keysI) (erule (1) ThreadFlow_unknown_key_fails, erule (2) ThreadFlow_unknown_key)

lemma ThreadFlow_requires_Locations: "requires_key (ThreadFlow_UnmarshalJSON ord) ''locations''"
  by (rule requires_keyI) (erule ThreadFlow_required_present(1), erule ThreadFlow_without_Locations)


subsection \<open>CodeFlow: decoding and encoding\<close>

definition CodeFlow_keys :: "string list" where
  "CodeFlow_keys = [''message'', ''properties'', ''threadFlows'']"

definition CodeFlow_decodes :: "order \<Rightarrow> (string \<rightharpoonup> json) \<Rightarrow> CodeFlow \<Rightarrow> bool" where
  "CodeFlow_decodes ord m strct \<longleftrightarrow>
     dom m \<subseteq> set CodeFlow_keys \<and>
     field_ok (json_Unmarshal_ptr (Message_UnmarshalJSON ord)) (m ''message'') None (CodeFlow.Message strct) \<and>
     field_ok (json_Unmarshal_ptr (PropertyBag_UnmarshalJSON ord)) (m ''properties'') None (CodeFlow.Properties strct) \<and>
     field_ok (json_Unmarshal_slice (json_Unmarshal_ptr (ThreadFlow_UnmarshalJSON ord))) (m ''threadFlows'') None (CodeFlow.ThreadFlows strct) \<and>
     m ''threadFlows'' \<noteq> None"

lemma CodeFlow_cases_keys: "fst ` set (CodeFlow_cases ord v) = set CodeFlow_keys"
  by (rule keys_image) (simp add: CodeFlow_cases_def CodeFlow_keys_def)

lemma CodeFlow_regular: "regular (\<lambda>k v. switch k (CodeFlow_cases ord v) (reject k))"
  by (rule regular_switch) (simp add: CodeFlow_cases_def)

lemma CodeFlow_fields:
  "field_case (CodeFlow_cases ord) (\<lambda>(strct, threadFlowsReceived). CodeFlow.Message strct) ''message'' (json_Unmarshal_ptr (Message_UnmarshalJSON ord))"
  "field_case (CodeFlow_cases ord) (\<lambda>(strct, threadFlowsReceived). CodeFlow.Properties strct) ''properties'' (json_Unmarshal_ptr (PropertyBag_UnmarshalJSON ord))"
  "field_case (CodeFlow_cases ord) (\<lambda>(strct, threadFlowsReceived). CodeFlow.ThreadFlows strct) ''threadFlows'' (json_Unmarshal_slice (json_Unmarshal_ptr (ThreadFlow_UnmarshalJSON ord)))"
  "field_case (CodeFlow_cases ord) (\<lambda>(strct, threadFlowsReceived). threadFlowsReceived) ''threadFlows'' (received (json_Unmarshal_slice (json_Unmarshal_ptr (ThreadFlow_UnmarshalJSON ord))))"
  unfolding field_case_def CodeFlow_cases_def
  by (simp_all add: writes_into writes_received keeps_into split_def)

lemma CodeFlow_loop_sound:
  assumes loop: "range_loop (\<lambda>k v. switch k (CodeFlow_cases ord v) (reject k)) (members ord kvs) (CodeFlow_zero, False) = Inr (strct, threadFlowsReceived)"
  shows "dom (map_of (rev kvs)) \<subseteq> set CodeFlow_keys \<and>
     field_ok (json_Unmarshal_ptr (Message_UnmarshalJSON ord)) (map_of (rev kvs) ''message'') None (CodeFlow.Message strct) \<and>
     field_ok (json_Unmarshal_ptr (PropertyBag_UnmarshalJSON ord)) (map_of (rev kvs) ''properties'') None (CodeFlow.Properties strct) \<and>
     field_ok (json_Unmarshal_slice (json_Unmarshal_ptr (ThreadFlow_UnmarshalJSON ord))) (map_of (rev kvs) ''threadFlows'') None (CodeFlow.ThreadFlows strct) \<and>
     (threadFlowsReceived \<longleftrightarrow> map_of (rev kvs) ''threadFlows'' \<noteq> None)"
proof -
  have "fst ` set (members ord kvs) \<subseteq> set CodeFlow_keys"
    by (rule loop_keys_known [OF loop]) (rule CodeFlow_cases_keys)
  then have keys: "dom (map_of (rev kvs)) \<subseteq> set CodeFlow_keys"
    by (simp add: dom_members [of kvs ord])
  note fld = field_after_loop [OF _ members_distinct loop, unfolded map_of_members]
  note flg = flag_after_loop [OF _ members_distinct loop, unfolded map_of_members]
  show ?thesis
    using keys fld [OF CodeFlow_fields(1)] fld [OF CodeFlow_fields(2)] fld [OF CodeFlow_fields(3)] flg [OF CodeFlow_fields(4)]
    by (simp only: prod.case CodeFlow_zero_def CodeFlow.select_convs simp_thms)
qed

lemma CodeFlow_decodesD:
  assumes "CodeFlow_decodes ord m strct"
  shows "dom m \<subseteq> set CodeFlow_keys"
    and "field_ok (json_Unmarshal_ptr (Message_UnmarshalJSON ord)) (m ''message'') None (CodeFlow.Message strct)"
    and "field_ok (json_Unmarshal_ptr (PropertyBag_UnmarshalJSON ord)) (m ''properties'') None (CodeFlow.Properties strct)"
    and "field_ok (json_Unmarshal_slice (json_Unmarshal_ptr (ThreadFlow_UnmarshalJSON ord))) (m ''threadFlows'') None (CodeFlow.ThreadFlows strct)"
    and "m ''threadFlows'' \<noteq> None"
  using assms unfolding CodeFlow_decodes_def by - (elim conjE, assumption)+

lemma CodeFlow_decodes_unique:
  assumes "CodeFlow_decodes ord m a" and "CodeFlow_decodes ord m b"
  shows "a = b"
  apply (rule CodeFlow.equality)
  apply (rule field_ok_unique [OF CodeFlow_decodesD(2) [OF assms(1)] CodeFlow_decodesD(2) [OF assms(2)]])
  apply (rule field_ok_unique [OF CodeFlow_decodesD(3) [OF assms(1)] CodeFlow_decodesD(3) [OF assms(2)]])
  apply (rule field_ok_unique [OF CodeFlow_decodesD(4) [OF assms(1)] CodeFlow_decodesD(4) [OF assms(2)]])
  apply simp
  done

lemma CodeFlow_accepts:
  assumes "CodeFlow_decodes ord m strct" and "m k = Some v"
  shows "accepting (switch k (CodeFlow_cases ord v) (reject k))"
proof -
  from assms have "k \<in> set CodeFlow_keys" by (auto simp: CodeFlow_decodes_def)
  then have key: "k \<in> fst ` set (CodeFlow_cases ord v)"
    by (simp only: CodeFlow_cases_keys)
  have rows: "list_all (\<lambda>(c, h). m c = Some v \<longrightarrow> accepting h) (CodeFlow_cases ord v)"
    unfolding CodeFlow_cases_def list.pred_inject
    apply (rule conjI [OF accept_row [where m = m and v = v, OF CodeFlow_decodesD(2) [OF assms(1)]]])
    apply (rule conjI [OF accept_row [where m = m and v = v, OF CodeFlow_decodesD(3) [OF assms(1)]]])
    apply (rule conjI [OF accept_row [where m = m and v = v, OF CodeFlow_decodesD(4) [OF assms(1)]]])
    apply simp
    done
  show ?thesis by (rule rows_accept [OF rows assms(2) key])
qed

lemma CodeFlow_decode_iff:
  "CodeFlow_UnmarshalJSON ord (JObj kvs) = Inr strct \<longleftrightarrow>
   CodeFlow_decodes ord (map_of (rev kvs)) strct"
proof
  assume "CodeFlow_UnmarshalJSON ord (JObj kvs) = Inr strct"
  then obtain threadFlowsReceived where
    loop: "range_loop (\<lambda>k v. switch k (CodeFlow_cases ord v) (reject k)) (members ord kvs) (CodeFlow_zero, False) = Inr (strct, threadFlowsReceived)"
    and fin: "threadFlowsReceived"
    by (auto simp: CodeFlow_UnmarshalJSON_def members_def split: sum.splits if_splits)
  from CodeFlow_loop_sound [OF loop] fin
  show "CodeFlow_decodes ord (map_of (rev kvs)) strct"
    by (simp add: CodeFlow_decodes_def)
next
  assume d: "CodeFlow_decodes ord (map_of (rev kvs)) strct"
  have "\<exists>t. range_loop (\<lambda>k v. switch k (CodeFlow_cases ord v) (reject k)) (members ord kvs) (CodeFlow_zero, False) = Inr t"
  proof (rule loop_succeeds [OF CodeFlow_regular])
    fix k v assume "(k, v) \<in> set (members ord kvs)"
    then have "map_of (rev kvs) k = Some v" by (rule member_lookup)
    from CodeFlow_accepts [OF d this]
    show "accepting (switch k (CodeFlow_cases ord v) (reject k))" .
  qed
  then obtain t where "range_loop (\<lambda>k v. switch k (CodeFlow_cases ord v) (reject k)) (members ord kvs) (CodeFlow_zero, False) = Inr t" ..
  then obtain strct' threadFlowsReceived where
    loop: "range_loop (\<lambda>k v. switch k (CodeFlow_cases ord v) (reject k)) (members ord kvs) (CodeFlow_zero, False) = Inr (strct', threadFlowsReceived)"
    by (cases t) auto
  from CodeFlow_loop_sound [OF loop] d
  have fin: "threadFlowsReceived"
    and d': "CodeFlow_decodes ord (map_of (rev kvs)) strct'"
    by (simp_all add: CodeFlow_decodes_def)
  from CodeFlow_decodes_unique [OF d' d] have "strct' = strct" .
  with loop fin show "CodeFlow_UnmarshalJSON ord (JObj kvs) = Inr strct"
    by (simp add: CodeFlow_UnmarshalJSON_def members_def)
qed

definition CodeFlow_results :: "scanner \<Rightarrow> order \<Rightarrow> CodeFlow \<Rightarrow> (string \<times> (error + json)) list" where
  "CodeFlow_results scn ord strct =
     [(''message'', json_Marshal_ptr ''*sarif.Message'' (Message_MarshalJSON scn ord) (CodeFlow.Message strct)),
      (''properties'', json_Marshal_bytes ''*sarif.PropertyBag'' (PropertyBag_MarshalJSON scn ord) (CodeFlow.Properties strct)),
      (''threadFlows'', json_Marshal_slice (json_Marshal_ptr ''*sarif.ThreadFlow'' (ThreadFlow_MarshalJSON scn ord)) (CodeFlow.ThreadFlows strct))]"

lemma CodeFlow_MarshalJSON_results:
  "CodeFlow_MarshalJSON scn ord strct = object (emit_all (CodeFlow_results scn ord strct))"
  by (simp add: CodeFlow_MarshalJSON_def CodeFlow_results_def emit_nilcheck)

lemma CodeFlow_keys_written:
  "CodeFlow_MarshalJSON scn ord strct = Inr j \<Longrightarrow> \<exists>kvs. j = JObj kvs \<and> map fst kvs = CodeFlow_keys"
  using keys_written [of "CodeFlow_results scn ord strct" j]
  by (simp add: CodeFlow_MarshalJSON_results CodeFlow_results_def CodeFlow_keys_def)

definition CodeFlow_encodable :: "scanner \<Rightarrow> order \<Rightarrow> CodeFlow \<Rightarrow> bool" where
  "CodeFlow_encodable scn ord strct \<longleftrightarrow>
     ptr_all (Message_encodable scn ord) (CodeFlow.Message strct) \<and>
     ptr_all (PropertyBag_encodable scn ord) (CodeFlow.Properties strct) \<and>
     slice_all (ptr_all (ThreadFlow_encodable scn ord)) (CodeFlow.ThreadFlows strct)"

lemma CodeFlow_fails_unless: "fails_unless (CodeFlow_MarshalJSON scn ord) (CodeFlow_encodable scn ord)"
  unfolding fails_unless_def CodeFlow_MarshalJSON_results CodeFlow_results_def CodeFlow_encodable_def isl_object_emit_all
  by (auto simp add: always_simps
      fails_unlessD [OF fails_unless_ptr [OF Message_fails_unless]]
      fails_unlessD [OF PropertyBag_field_fails_unless]
      fails_unlessD [OF fails_unless_slice [OF fails_unless_ptr [OF ThreadFlow_fails_unless]]])

definition CodeFlow_valid :: "CodeFlow \<Rightarrow> bool" where
  "CodeFlow_valid strct \<longleftrightarrow>
     ptr_all Message_valid (CodeFlow.Message strct) \<and>
     ptr_all PropertyBag_valid (CodeFlow.Properties strct) \<and>
     slice_all (ptr_all ThreadFlow_valid) (CodeFlow.ThreadFlows strct)"

lemma CodeFlow_keys_distinct: "distinct CodeFlow_keys"
  by (simp add: CodeFlow_keys_def)

lemma CodeFlow_round_trips:
  "round_trips_object (CodeFlow_MarshalJSON scn ord) (CodeFlow_UnmarshalJSON ord') CodeFlow_valid"
  unfolding round_trips_object_def
proof (intro allI impI)
  fix strct assume v: "CodeFlow_valid strct"
  note v' = v [unfolded CodeFlow_valid_def]
  let ?rs = "CodeFlow_results scn ord strct"
  let ?kvs = "map (\<lambda>e. (fst e, projr (snd e))) ?rs"
  have f0: "\<not> isl (json_Marshal_ptr ''*sarif.Message'' (Message_MarshalJSON scn ord) (CodeFlow.Message strct)) \<and>
      json_Unmarshal_ptr (Message_UnmarshalJSON ord') (projr (json_Marshal_ptr ''*sarif.Message'' (Message_MarshalJSON scn ord) (CodeFlow.Message strct))) = Inr (CodeFlow.Message strct)"
    by (rule round_tripsD [OF round_trips_ptr [OF Message_round_trips]]) (use v' in simp)
  have f1: "\<not> isl (json_Marshal_bytes ''*sarif.PropertyBag'' (PropertyBag_MarshalJSON scn ord) (CodeFlow.Properties strct)) \<and>
      json_Unmarshal_ptr (PropertyBag_UnmarshalJSON ord') (projr (json_Marshal_bytes ''*sarif.PropertyBag'' (PropertyBag_MarshalJSON scn ord) (CodeFlow.Properties strct))) = Inr (CodeFlow.Properties strct)"
    by (rule round_tripsD [OF PropertyBag_field_round_trips]) (use v' in simp)
  have f2: "\<not> isl (json_Marshal_slice (json_Marshal_ptr ''*sarif.ThreadFlow'' (ThreadFlow_MarshalJSON scn ord)) (CodeFlow.ThreadFlows strct)) \<and>
      json_Unmarshal_slice (json_Unmarshal_ptr (ThreadFlow_UnmarshalJSON ord')) (projr (json_Marshal_slice (json_Marshal_ptr ''*sarif.ThreadFlow'' (ThreadFlow_MarshalJSON scn ord)) (CodeFlow.ThreadFlows strct))) = Inr (CodeFlow.ThreadFlows strct)"
    by (rule round_tripsD [OF round_trips_slice [OF round_trips_ptr [OF ThreadFlow_round_trips]]]) (use v' in simp)
  note fs = f0 f1 f2
  have rs: "?rs =
     [(''message'', json_Marshal_ptr ''*sarif.Message'' (Message_MarshalJSON scn ord) (CodeFlow.Message strct)),
      (''properties'', json_Marshal_bytes ''*sarif.PropertyBag'' (PropertyBag_MarshalJSON scn ord) (CodeFlow.Properties strct)),
      (''threadFlows'', json_Marshal_slice (json_Marshal_ptr ''*sarif.ThreadFlow'' (ThreadFlow_MarshalJSON scn ord)) (CodeFlow.ThreadFlows strct))]"
    by (auto simp add: CodeFlow_results_def)
  have keys: "map fst ?rs = CodeFlow_keys"
    by (simp add: CodeFlow_results_def CodeFlow_keys_def)
  then have dist: "distinct (map fst ?rs)"
    by (simp only: CodeFlow_keys_distinct)
  have ok: "list_all (\<lambda>e. \<not> isl (snd e)) ?rs"
    unfolding rs by (simp only: list.pred_inject snd_conv fs simp_thms)
  then have enc: "CodeFlow_MarshalJSON scn ord strct = Inr (JObj ?kvs)"
    by (simp add: CodeFlow_MarshalJSON_results [of scn ord strct] object_emit_all_eq_Inr)
  have l0: "map_of (rev ?kvs) ''message'' = Some (projr (json_Marshal_ptr ''*sarif.Message'' (Message_MarshalJSON scn ord) (CodeFlow.Message strct)))"
    by (rule written_lookup [OF dist]) (subst rs, intro list.set_intros)
  have l1: "map_of (rev ?kvs) ''properties'' = Some (projr (json_Marshal_bytes ''*sarif.PropertyBag'' (PropertyBag_MarshalJSON scn ord) (CodeFlow.Properties strct)))"
    by (rule written_lookup [OF dist]) (subst rs, intro list.set_intros)
  have l2: "map_of (rev ?kvs) ''threadFlows'' = Some (projr (json_Marshal_slice (json_Marshal_ptr ''*sarif.ThreadFlow'' (ThreadFlow_MarshalJSON scn ord)) (CodeFlow.ThreadFlows strct)))"
    by (rule written_lookup [OF dist]) (subst rs, intro list.set_intros)
  have dec: "CodeFlow_decodes ord' (map_of (rev ?kvs)) strct"
    unfolding CodeFlow_decodes_def l0 l1 l2
    by (simp only: field_ok_Some fs written_dom keys subset_refl option.simps simp_thms)
  then have "CodeFlow_UnmarshalJSON ord' (JObj ?kvs) = Inr strct"
    by (simp only: CodeFlow_decode_iff)
  with enc show "rt_object (CodeFlow_MarshalJSON scn ord) (CodeFlow_UnmarshalJSON ord') strct"
    unfolding rt_object_def by blast
qed

definition CodeFlow_small_bags :: "CodeFlow \<Rightarrow> bool" where
  "CodeFlow_small_bags strct \<longleftrightarrow>
     ptr_all Message_small_bags (CodeFlow.Message strct) \<and>
     ptr_all PropertyBag_small_bags (CodeFlow.Properties strct) \<and>
     slice_all (ptr_all ThreadFlow_small_bags) (CodeFlow.ThreadFlows strct)"

lemma CodeFlow_same_output:
  "same_output (CodeFlow_MarshalJSON scn ord) (CodeFlow_MarshalJSON scn ord') CodeFlow_small_bags"
  unfolding same_output_def
proof (intro allI impI)
  fix strct assume v: "CodeFlow_small_bags strct"
  note v' = v [unfolded CodeFlow_small_bags_def]
  have e0: "json_Marshal_ptr ''*sarif.Message'' (Message_MarshalJSON scn ord) (CodeFlow.Message strct) =
      json_Marshal_ptr ''*sarif.Message'' (Message_MarshalJSON scn ord') (CodeFlow.Message strct)"
    by (rule same_outputD [OF same_output_ptr [OF Message_same_output]]) (use v' in simp)
  have e1: "json_Marshal_bytes ''*sarif.PropertyBag'' (PropertyBag_MarshalJSON scn ord) (CodeFlow.Properties strct) =
      json_Marshal_bytes ''*sarif.PropertyBag'' (PropertyBag_MarshalJSON scn ord') (CodeFlow.Properties strct)"
    by (rule same_outputD [OF PropertyBag_field_same_output]) (use v' in simp)
  have e2: "json_Marshal_slice (json_Marshal_ptr ''*sarif.ThreadFlow'' (ThreadFlow_MarshalJSON scn ord)) (CodeFlow.ThreadFlows strct) =
      json_Marshal_slice (json_Marshal_ptr ''*sarif.ThreadFlow'' (ThreadFlow_MarshalJSON scn ord')) (CodeFlow.ThreadFlows strct)"
    by (rule same_outputD [OF same_output_slice [OF same_output_ptr [OF ThreadFlow_same_output]]]) (use v' in simp)
  show "CodeFlow_MarshalJSON scn ord strct = CodeFlow_MarshalJSON scn ord' strct"
    by (simp only: CodeFlow_MarshalJSON_def e0 e1 e2)
qed

lemma CodeFlow_writes_keys: "writes_keys (CodeFlow_MarshalJSON scn ord) CodeFlow_keys"
  unfolding writes_keys_def by (intro allI impI) (erule CodeFlow_keys_written)

lemma CodeFlow_unknown_key:
  assumes new: "k \<notin> set CodeFlow_keys" and key: "k \<in> fst ` set kvs"
    and rest: "CodeFlow_UnmarshalJSON ord (JObj (filter (\<lambda>e. fst e \<noteq> k) kvs)) = Inr strct"
  shows "CodeFlow_UnmarshalJSON ord (JObj kvs) = Inl (not_allowed k)"
proof -
  have rej: "switch k (CodeFlow_cases ord v) (reject k) s = Inl (not_allowed k)" for v s
    by (rule switch_rejects) (simp only: CodeFlow_cases_keys new not_False_eq_True)
  from rest obtain t where
    "range_loop (\<lambda>k v. switch k (CodeFlow_cases ord v) (reject k)) (members ord (filter (\<lambda>e. fst e \<noteq> k) kvs)) (CodeFlow_zero, False) = Inr t"
    by (cases "range_loop (\<lambda>k v. switch k (CodeFlow_cases ord v) (reject k)) (members ord (filter (\<lambda>e. fst e \<noteq> k) kvs)) (CodeFlow_zero, False)")
       (simp_all add: CodeFlow_UnmarshalJSON_def members_def)
  from unknown_key_named [OF CodeFlow_regular rej key this]
  show ?thesis by (simp add: CodeFlow_UnmarshalJSON_def members_def)
qed

lemma CodeFlow_unknown_key_fails:
  assumes "k \<notin> set CodeFlow_keys" and "k \<in> fst ` set kvs"
  shows "isl (CodeFlow_UnmarshalJSON ord (JObj kvs))"
proof (cases "CodeFlow_UnmarshalJSON ord (JObj kvs)")
  case (Inr strct)
  then have "dom (map_of (rev kvs)) \<subseteq> set CodeFlow_keys"
    by (simp only: CodeFlow_decode_iff CodeFlow_decodesD(1))
  with assms show ?thesis by (auto simp: dom_map_of_conv_image_fst)
qed simp

lemma CodeFlow_required_present:
  assumes "CodeFlow_UnmarshalJSON ord (JObj kvs) = Inr strct"
  shows "''threadFlows'' \<in> fst ` set kvs"
proof -
  from assms have d: "CodeFlow_decodes ord (map_of (rev kvs)) strct" by (simp only: CodeFlow_decode_iff)
  show "''threadFlows'' \<in> fst ` set kvs"
    using CodeFlow_decodesD(5) [OF d]
    by (simp_all only: present_key)
qed

lemma CodeFlow_without_ThreadFlows:
  assumes "CodeFlow_UnmarshalJSON ord (JObj kvs) = Inr strct"
  shows "CodeFlow_UnmarshalJSON ord (JObj (filter (\<lambda>e. fst e \<noteq> ''threadFlows'') kvs)) =
    Inl (RequiredNotPresent ''threadFlows'')"
proof -
  from assms have d: "CodeFlow_decodes ord (map_of (rev kvs)) strct" by (simp only: CodeFlow_decode_iff)
  have "\<exists>t. range_loop (\<lambda>k v. switch k (CodeFlow_cases ord v) (reject k)) (members ord (filter (\<lambda>e. fst e \<noteq> ''threadFlows'') kvs))
      (CodeFlow_zero, False) = Inr t"
  proof (rule loop_succeeds [OF CodeFlow_regular])
    fix k v assume "(k, v) \<in> set (members ord (filter (\<lambda>e. fst e \<noteq> ''threadFlows'') kvs))"
    then have "map_of (rev kvs) k = Some v" by (rule member_lookup_filter)
    from CodeFlow_accepts [OF d this]
    show "accepting (switch k (CodeFlow_cases ord v) (reject k))" .
  qed
  then obtain t where "range_loop (\<lambda>k v. switch k (CodeFlow_cases ord v) (reject k)) (members ord (filter (\<lambda>e. fst e \<noteq> ''threadFlows'') kvs))
      (CodeFlow_zero, False) = Inr t" ..
  then obtain strct' threadFlowsReceived where
    loop: "range_loop (\<lambda>k v. switch k (CodeFlow_cases ord v) (reject k)) (members ord (filter (\<lambda>e. fst e \<noteq> ''threadFlows'') kvs))
      (CodeFlow_zero, False) = Inr (strct', threadFlowsReceived)"
    by (cases t) auto
  from CodeFlow_loop_sound [OF loop] CodeFlow_decodesD(5) [OF d]
  have "\<not> threadFlowsReceived"
    by (simp_all add: lookup_filter)
  with loop show ?thesis
    by (simp add: CodeFlow_UnmarshalJSON_def members_def)
qed


lemma CodeFlow_rejects_unknown_keys: "rejects_unknown_keys (CodeFlow_UnmarshalJSON ord) CodeFlow_keys"
  by (rule rejects_unknown_keysI) (erule (1) CodeFlow_unknown_key_fails, erule (2) CodeFlow_unknown_key)

lemma CodeFlow_requires_ThreadFlows: "requires_key (CodeFlow_UnmarshalJSON ord) ''threadFlows''"
  by (rule requires_keyI) (erule CodeFlow_required_present(1), erule CodeFlow_without_ThreadFlows)


subsection \<open>ReportingConfiguration: decoding and encoding\<close>

definition ReportingConfiguration_keys :: "string list" where
  "ReportingConfiguration_keys = [''enabled'', ''level'', ''parameters'', ''properties'', ''rank'']"

definition ReportingConfiguration_decodes :: "order \<Rightarrow> (string \<rightharpoonup> json) \<Rightarrow> ReportingConfiguration \<Rightarrow> bool" where
  "ReportingConfiguration_decodes ord m strct \<longleftrightarrow>
     dom m \<subseteq> set ReportingConfiguration_keys \<and>
     field_ok json_Unmarshal_bool (m ''enabled'') False (ReportingConfiguration.Enabled strct) \<and>
     field_ok json_Unmarshal_string (m ''level'') [] (ReportingConfiguration.Level strct) \<and>
     field_ok (json_Unmarshal_ptr (PropertyBag_UnmarshalJSON ord)) (m ''parameters'') None (ReportingConfiguration.Parameters strct) \<and>
     field_ok (json_Unmarshal_ptr (PropertyBag_UnmarshalJSON ord)) (m ''properties'') None (ReportingConfiguration.Properties strct) \<and>
     field_ok json_Unmarshal_float64 (m ''rank'') (Finite (NInt 0)) (ReportingConfiguration.Rank strct)"

lemma ReportingConfiguration_cases_keys: "fst ` set (ReportingConfiguration_cases ord v) = set ReportingConfiguration_keys"
  by (rule keys_image) (simp add: ReportingConfiguration_cases_def ReportingConfiguration_keys_def)

lemma ReportingConfiguration_regular: "regular (\<lambda>k v. switch k (ReportingConfiguration_cases ord v) (reject k))"
  by (rule regular_switch) (simp add: ReportingConfiguration_cases_def)

lemma ReportingConfiguration_fields:
  "field_case (ReportingConfiguration_cases ord) ReportingConfiguration.Enabled ''enabled'' json_Unmarshal_bool"
  "field_case (ReportingConfiguration_cases ord) ReportingConfiguration.Level ''level'' json_Unmarshal_string"
  "field_case (ReportingConfiguration_cases ord) ReportingConfiguration.Parameters ''parameters'' (json_Unmarshal_ptr (PropertyBag_UnmarshalJSON ord))"
  "field_case (ReportingConfiguration_cases ord) ReportingConfiguration.Properties ''properties'' (json_Unmarshal_ptr (PropertyBag_UnmarshalJSON ord))"
  "field_case (ReportingConfiguration_cases ord) ReportingConfiguration.Rank ''rank'' json_Unmarshal_float64"
  unfolding field_case_def ReportingConfiguration_cases_def
  by (simp_all add: writes_into writes_received keeps_into split_def)

lemma ReportingConfiguration_loop_sound:
  assumes loop: "range_loop (\<lambda>k v. switch k (ReportingConfiguration_cases ord v) (reject k)) (members ord kvs) ReportingConfiguration_zero = Inr strct"
  shows "dom (map_of (rev kvs)) \<subseteq> set ReportingConfiguration_keys \<and>
     field_ok json_Unmarshal_bool (map_of (rev kvs) ''enabled'') False (ReportingConfiguration.Enabled strct) \<and>
     field_ok json_Unmarshal_string (map_of (rev kvs) ''level'') [] (ReportingConfiguration.Level strct) \<and>
     field_ok (json_Unmarshal_ptr (PropertyBag_UnmarshalJSON ord)) (map_of (rev kvs) ''parameters'') None (ReportingConfiguration.Parameters strct) \<and>
     field_ok (json_Unmarshal_ptr (PropertyBag_UnmarshalJSON ord)) (map_of (rev kvs) ''properties'') None (ReportingConfiguration.Properties strct) \<and>
     field_ok json_Unmarshal_float64 (map_of (rev kvs) ''rank'') (Finite (NInt 0)) (ReportingConfiguration.Rank strct)"
proof -
  have "fst ` set (members ord kvs) \<subseteq> set ReportingConfiguration_keys"
    by (rule loop_keys_known [OF loop]) (rule ReportingConfiguration_cases_keys)
  then have keys: "dom (map_of (rev kvs)) \<subseteq> set ReportingConfiguration_keys"
    by (simp add: dom_members [of kvs ord])
  note fld = field_after_loop [OF _ members_distinct loop, unfolded map_of_members]
  show ?thesis
    using keys fld [OF ReportingConfiguration_fields(1)] fld [OF ReportingConfiguration_fields(2)] fld [OF ReportingConfiguration_fields(3)] fld [OF ReportingConfiguration_fields(4)] fld [OF ReportingConfiguration_fields(5)] 
    by (simp only: prod.case ReportingConfiguration_zero_def ReportingConfiguration.select_convs simp_thms)
qed

lemma ReportingConfiguration_decodesD:
  assumes "ReportingConfiguration_decodes ord m strct"
  shows "dom m \<subseteq> set ReportingConfiguration_keys"
    and "field_ok json_Unmarshal_bool (m ''enabled'') False (ReportingConfiguration.Enabled strct)"
    and "field_ok json_Unmarshal_string (m ''level'') [] (ReportingConfiguration.Level strct)"
    and "field_ok (json_Unmarshal_ptr (PropertyBag_UnmarshalJSON ord)) (m ''parameters'') None (ReportingConfiguration.Parameters strct)"
    and "field_ok (json_Unmarshal_ptr (PropertyBag_UnmarshalJSON ord)) (m ''properties'') None (ReportingConfiguration.Properties strct)"
    and "field_ok json_Unmarshal_float64 (m ''rank'') (Finite (NInt 0)) (ReportingConfiguration.Rank strct)"
  using assms unfolding ReportingConfiguration_decodes_def by - (elim conjE, assumption)+

lemma ReportingConfiguration_decodes_unique:
  assumes "ReportingConfiguration_decodes ord m a" and "ReportingConfiguration_decodes ord m b"
  shows "a = b"
  apply (rule ReportingConfiguration.equality)
  apply (rule field_ok_unique [OF ReportingConfiguration_decodesD(2) [OF assms(1)] ReportingConfiguration_decodesD(2) [OF assms(2)]])
  apply (rule field_ok_unique [OF ReportingConfiguration_decodesD(3) [OF assms(1)] ReportingConfiguration_decodesD(3) [OF assms(2)]])
  apply (rule field_ok_unique [OF ReportingConfiguration_decodesD(4) [OF assms(1)] ReportingConfiguration_decodesD(4) [OF assms(2)]])
  apply (rule field_ok_unique [OF ReportingConfiguration_decodesD(5) [OF assms(1)] ReportingConfiguration_decodesD(5) [OF assms(2)]])
  apply (rule field_ok_unique [OF ReportingConfiguration_decodesD(6) [OF assms(1)] ReportingConfiguration_decodesD(6) [OF assms(2)]])
  apply simp
  done

lemma ReportingConfiguration_accepts:
  assumes "ReportingConfiguration_decodes ord m strct" and "m k = Some v"
  shows "accepting (switch k (ReportingConfiguration_cases ord v) (reject k))"
proof -
  from assms have "k \<in> set ReportingConfiguration_keys" by (auto simp: ReportingConfiguration_decodes_def)
  then have key: "k \<in> fst ` set (ReportingConfiguration_cases ord v)"
    by (simp only: ReportingConfiguration_cases_keys)
  have rows: "list_all (\<lambda>(c, h). m c = Some v \<longrightarrow> accepting h) (ReportingConfiguration_cases ord v)"
    unfolding ReportingConfiguration_cases_def list.pred_inject
    apply (rule conjI [OF accept_row [where m = m and v = v, OF ReportingConfiguration_decodesD(2) [OF assms(1)]]])
    apply (rule conjI [OF accept_row [where m = m and v = v, OF ReportingConfiguration_decodesD(3) [OF assms(1)]]])
    apply (rule conjI [OF accept_row [where m = m and v = v, OF ReportingConfiguration_decodesD(4) [OF assms(1)]]])
    apply (rule conjI [OF accept_row [where m = m and v = v, OF ReportingConfiguration_decodesD(5) [OF assms(1)]]])
    apply (rule conjI [OF accept_row [where m = m and v = v, OF ReportingConfiguration_decodesD(6) [OF assms(1)]]])
    apply simp
    done
  show ?thesis by (rule rows_accept [OF rows assms(2) key])
qed

lemma ReportingConfiguration_decode_iff:
  "ReportingConfiguration_UnmarshalJSON ord (JObj kvs) = Inr strct \<longleftrightarrow>
   ReportingConfiguration_decodes ord (map_of (rev kvs)) strct"
proof
  assume "ReportingConfiguration_UnmarshalJSON ord (JObj kvs) = Inr strct"
  then have loop: "range_loop (\<lambda>k v. switch k (ReportingConfiguration_cases ord v) (reject k)) (members ord kvs) ReportingConfiguration_zero = Inr strct"
    by (auto simp: ReportingConfiguration_UnmarshalJSON_def members_def split: sum.splits)
  from ReportingConfiguration_loop_sound [OF loop]
  show "ReportingConfiguration_decodes ord (map_of (rev kvs)) strct"
    by (simp add: ReportingConfiguration_decodes_def)
next
  assume d: "ReportingConfiguration_decodes ord (map_of (rev kvs)) strct"
  have "\<exists>t. range_loop (\<lambda>k v. switch k (ReportingConfiguration_cases ord v) (reject k)) (members ord kvs) ReportingConfiguration_zero = Inr t"
  proof (rule loop_succeeds [OF ReportingConfiguration_regular])
    fix k v assume "(k, v) \<in> set (members ord kvs)"
    then have "map_of (rev kvs) k = Some v" by (rule member_lookup)
    from ReportingConfiguration_accepts [OF d this]
    show "accepting (switch k (ReportingConfiguration_cases ord v) (reject k))" .
  qed
  then obtain strct' where
    loop: "range_loop (\<lambda>k v. switch k (ReportingConfiguration_cases ord v) (reject k)) (members ord kvs) ReportingConfiguration_zero = Inr strct'" ..
  from ReportingConfiguration_loop_sound [OF loop]
  have d': "ReportingConfiguration_decodes ord (map_of (rev kvs)) strct'"
    by (simp add: ReportingConfiguration_decodes_def)
  from ReportingConfiguration_decodes_unique [OF d' d] have "strct' = strct" .
  with loop show "ReportingConfiguration_UnmarshalJSON ord (JObj kvs) = Inr strct"
    by (simp add: ReportingConfiguration_UnmarshalJSON_def members_def)
qed

definition ReportingConfiguration_results :: "scanner \<Rightarrow> order \<Rightarrow> ReportingConfiguration \<Rightarrow> (string \<times> (error + json)) list" where
  "ReportingConfiguration_results scn ord strct =
     [(''enabled'', json_Marshal_bool (ReportingConfiguration.Enabled strct)),
      (''level'', json_Marshal_string (ReportingConfiguration.Level strct)),
      (''parameters'', json_Marshal_bytes ''*sarif.PropertyBag'' (PropertyBag_MarshalJSON scn ord) (ReportingConfiguration.Parameters strct)),
      (''properties'', json_Marshal_bytes ''*sarif.PropertyBag'' (PropertyBag_MarshalJSON scn ord) (ReportingConfiguration.Properties strct)),
      (''rank'', json_Marshal_float64 (ReportingConfiguration.Rank strct))]"

lemma ReportingConfiguration_MarshalJSON_results:
  "ReportingConfiguration_MarshalJSON scn ord strct = object (emit_all (ReportingConfiguration_results scn ord strct))"
  by (simp add: ReportingConfiguration_MarshalJSON_def ReportingConfiguration_results_def emit_nilcheck)

lemma ReportingConfiguration_keys_written:
  "ReportingConfiguration_MarshalJSON scn ord strct = Inr j \<Longrightarrow> \<exists>kvs. j = JObj kvs \<and> map fst kvs = ReportingConfiguration_keys"
  using keys_written [of "ReportingConfiguration_results scn ord strct" j]
  by (simp add: ReportingConfiguration_MarshalJSON_results ReportingConfiguration_results_def ReportingConfiguration_keys_def)

definition ReportingConfiguration_encodable :: "scanner \<Rightarrow> order \<Rightarrow> ReportingConfiguration \<Rightarrow> bool" where
  "ReportingConfiguration_encodable scn ord strct \<longleftrightarrow>
     ptr_all (PropertyBag_encodable scn ord) (ReportingConfiguration.Parameters strct) \<and>
     ptr_all (PropertyBag_encodable scn ord) (ReportingConfiguration.Properties strct) \<and>
     finite64 (ReportingConfiguration.Rank strct)"

lemma ReportingConfiguration_fails_unless: "fails_unless (ReportingConfiguration_MarshalJSON scn ord) (ReportingConfiguration_encodable scn ord)"
  unfolding fails_unless_def ReportingConfiguration_MarshalJSON_results ReportingConfiguration_results_def ReportingConfiguration_encodable_def isl_object_emit_all
  by (auto simp add: always_simps
      fails_unlessD [OF fails_unless_bool]
      fails_unlessD [OF fails_unless_string]
      fails_unlessD [OF PropertyBag_field_fails_unless]
      fails_unlessD [OF fails_unless_float64])

definition ReportingConfiguration_valid :: "ReportingConfiguration \<Rightarrow> bool" where
  "ReportingConfiguration_valid strct \<longleftrightarrow>
     ptr_all PropertyBag_valid (ReportingConfiguration.Parameters strct) \<and>
     ptr_all PropertyBag_valid (ReportingConfiguration.Properties strct) \<and>
     float64_valid (ReportingConfiguration.Rank strct)"

lemma ReportingConfiguration_keys_distinct: "distinct ReportingConfiguration_keys"
  by (simp add: ReportingConfiguration_keys_def)

lemma ReportingConfiguration_round_trips:
  "round_trips_object (ReportingConfiguration_MarshalJSON scn ord) (ReportingConfiguration_UnmarshalJSON ord') ReportingConfiguration_valid"
  unfolding round_trips_object_def
proof (intro allI impI)
  fix strct assume v: "ReportingConfiguration_valid strct"
  note v' = v [unfolded ReportingConfiguration_valid_def]
  let ?rs = "ReportingConfiguration_results scn ord strct"
  let ?kvs = "map (\<lambda>e. (fst e, projr (snd e))) ?rs"
  have f0: "\<not> isl (json_Marshal_bool (ReportingConfiguration.Enabled strct)) \<and>
      json_Unmarshal_bool (projr (json_Marshal_bool (ReportingConfiguration.Enabled strct))) = Inr (ReportingConfiguration.Enabled strct)"
    by (rule round_tripsD [OF round_trips_bool]) (use v' in simp)
  have f1: "\<not> isl (json_Marshal_string (ReportingConfiguration.Level strct)) \<and>
      json_Unmarshal_string (projr (json_Marshal_string (ReportingConfiguration.Level strct))) = Inr (ReportingConfiguration.Level strct)"
    by (rule round_tripsD [OF round_trips_string]) (use v' in simp)
  have f2: "\<not> isl (json_Marshal_bytes ''*sarif.PropertyBag'' (PropertyBag_MarshalJSON scn ord) (ReportingConfiguration.Parameters strct)) \<and>
      json_Unmarshal_ptr (PropertyBag_UnmarshalJSON ord') (projr (json_Marshal_bytes ''*sarif.PropertyBag'' (PropertyBag_MarshalJSON scn ord) (ReportingConfiguration.Parameters strct))) = Inr (ReportingConfiguration.Parameters strct)"
    by (rule round_tripsD [OF PropertyBag_field_round_trips]) (use v' in simp)
  have f3: "\<not> isl (json_Marshal_bytes ''*sarif.PropertyBag'' (PropertyBag_MarshalJSON scn ord) (ReportingConfiguration.Properties strct)) \<and>
      json_Unmarshal_ptr (PropertyBag_UnmarshalJSON ord') (projr (json_Marshal_bytes ''*sarif.PropertyBag'' (PropertyBag_MarshalJSON scn ord) (ReportingConfiguration.Properties strct))) = Inr (ReportingConfiguration.Properties strct)"
    by (rule round_tripsD [OF PropertyBag_field_round_trips]) (use v' in simp)
  have f4: "\<not> isl (json_Marshal_float64 (ReportingConfiguration.Rank strct)) \<and>
      json_Unmarshal_float64 (projr (json_Marshal_float64 (ReportingConfiguration.Rank strct))) = Inr (ReportingConfiguration.Rank strct)"
    by (rule round_tripsD [OF round_trips_float64]) (use v' in simp)
  note fs = f0 f1 f2 f3 f4
  have rs: "?rs =
     [(''enabled'', json_Marshal_bool (ReportingConfiguration.Enabled strct)),
      (''level'', json_Marshal_string (ReportingConfiguration.Level strct)),
      (''parameters'', json_Marshal_bytes ''*sarif.PropertyBag'' (PropertyBag_MarshalJSON scn ord) (ReportingConfiguration.Parameters strct)),
      (''properties'', json_Marshal_bytes ''*sarif.PropertyBag'' (PropertyBag_MarshalJSON scn ord) (ReportingConfiguration.Properties strct)),
      (''rank'', json_Marshal_float64 (ReportingConfiguration.Rank strct))]"
    by (auto simp add: ReportingConfiguration_results_def)
  have keys: "map fst ?rs = ReportingConfiguration_keys"
    by (simp add: ReportingConfiguration_results_def ReportingConfiguration_keys_def)
  then have dist: "distinct (map fst ?rs)"
    by (simp only: ReportingConfiguration_keys_distinct)
  have ok: "list_all (\<lambda>e. \<not> isl (snd e)) ?rs"
    unfolding rs by (simp only: list.pred_inject snd_conv fs simp_thms)
  then have enc: "ReportingConfiguration_MarshalJSON scn ord strct = Inr (JObj ?kvs)"
    by (simp add: ReportingConfiguration_MarshalJSON_results [of scn ord strct] object_emit_all_eq_Inr)
  have l0: "map_of (rev ?kvs) ''enabled'' = Some (projr (json_Marshal_bool (ReportingConfiguration.Enabled strct)))"
    by (rule written_lookup [OF dist]) (subst rs, intro list.set_intros)
  have l1: "map_of (rev ?kvs) ''level'' = Some (projr (json_Marshal_string (ReportingConfiguration.Level strct)))"
    by (rule written_lookup [OF dist]) (subst rs, intro list.set_intros)
  have l2: "map_of (rev ?kvs) ''parameters'' = Some (projr (json_Marshal_bytes ''*sarif.PropertyBag'' (PropertyBag_MarshalJSON scn ord) (ReportingConfiguration.Parameters strct)))"
    by (rule written_lookup [OF dist]) (subst rs, intro list.set_intros)
  have l3: "map_of (rev ?kvs) ''properties'' = Some (projr (json_Marshal_bytes ''*sarif.PropertyBag'' (PropertyBag_MarshalJSON scn ord) (ReportingConfiguration.Properties strct)))"
    by (rule written_lookup [OF dist]) (subst rs, intro list.set_intros)
  have l4: "map_of (rev ?kvs) ''rank'' = Some (projr (json_Marshal_float64 (ReportingConfiguration.Rank strct)))"
    by (rule written_lookup [OF dist]) (subst rs, intro list.set_intros)
  have dec: "ReportingConfiguration_decodes ord' (map_of (rev ?kvs)) strct"
    unfolding ReportingConfiguration_decodes_def l0 l1 l2 l3 l4
    by (simp only: field_ok_Some fs written_dom keys subset_refl option.simps simp_thms)
  then have "ReportingConfiguration_UnmarshalJSON ord' (JObj ?kvs) = Inr strct"
    by (simp only: ReportingConfiguration_decode_iff)
  with enc show "rt_object (ReportingConfiguration_MarshalJSON scn ord) (ReportingConfiguration_UnmarshalJSON ord') strct"
    unfolding rt_object_def by blast
qed

definition ReportingConfiguration_small_bags :: "ReportingConfiguration \<Rightarrow> bool" where
  "ReportingConfiguration_small_bags strct \<longleftrightarrow>
     ptr_all PropertyBag_small_bags (ReportingConfiguration.Parameters strct) \<and>
     ptr_all PropertyBag_small_bags (ReportingConfiguration.Properties strct)"

lemma ReportingConfiguration_same_output:
  "same_output (ReportingConfiguration_MarshalJSON scn ord) (ReportingConfiguration_MarshalJSON scn ord') ReportingConfiguration_small_bags"
  unfolding same_output_def
proof (intro allI impI)
  fix strct assume v: "ReportingConfiguration_small_bags strct"
  note v' = v [unfolded ReportingConfiguration_small_bags_def]
  have e2: "json_Marshal_bytes ''*sarif.PropertyBag'' (PropertyBag_MarshalJSON scn ord) (ReportingConfiguration.Parameters strct) =
      json_Marshal_bytes ''*sarif.PropertyBag'' (PropertyBag_MarshalJSON scn ord') (ReportingConfiguration.Parameters strct)"
    by (rule same_outputD [OF PropertyBag_field_same_output]) (use v' in simp)
  have e3: "json_Marshal_bytes ''*sarif.PropertyBag'' (PropertyBag_MarshalJSON scn ord) (ReportingConfiguration.Properties strct) =
      json_Marshal_bytes ''*sarif.PropertyBag'' (PropertyBag_MarshalJSON scn ord') (ReportingConfiguration.Properties strct)"
    by (rule same_outputD [OF PropertyBag_field_same_output]) (use v' in simp)
  show "ReportingConfiguration_MarshalJSON scn ord strct = ReportingConfiguration_MarshalJSON scn ord' strct"
    by (simp only: ReportingConfiguration_MarshalJSON_def e2 e3)
qed

lemma ReportingConfiguration_writes_keys: "writes_keys (ReportingConfiguration_MarshalJSON scn ord) ReportingConfiguration_keys"
  unfolding writes_keys_def by (intro allI impI) (erule ReportingConfiguration_keys_written)

lemma ReportingConfiguration_unknown_key:
  assumes new: "k \<notin> set ReportingConfiguration_keys" and key: "k \<in> fst ` set kvs"
    and rest: "ReportingConfiguration_UnmarshalJSON ord (JObj (filter (\<lambda>e. fst e \<noteq> k) kvs)) = Inr strct"
  shows "ReportingConfiguration_UnmarshalJSON ord (JObj kvs) = Inl (not_allowed k)"
proof -
  have rej: "switch k (ReportingConfiguration_cases ord v) (reject k) s = Inl (not_allowed k)" for v s
    by (rule switch_rejects) (simp only: ReportingConfiguration_cases_keys new not_False_eq_True)
  from rest obtain t where
    "range_loop (\<lambda>k v. switch k (ReportingConfiguration_cases ord v) (reject k)) (members ord (filter (\<lambda>e. fst e \<noteq> k) kvs)) ReportingConfiguration_zero = Inr t"
    by (cases "range_loop (\<lambda>k v. switch k (ReportingConfiguration_cases ord v) (reject k)) (members ord (filter (\<lambda>e. fst e \<noteq> k) kvs)) ReportingConfiguration_zero")
       (simp_all add: ReportingConfiguration_UnmarshalJSON_def members_def)
  from unknown_key_named [OF ReportingConfiguration_regular rej key this]
  show ?thesis by (simp add: ReportingConfiguration_UnmarshalJSON_def members_def)
qed

lemma ReportingConfiguration_unknown_key_fails:
  assumes "k \<notin> set ReportingConfiguration_keys" and "k \<in> fst ` set kvs"
  shows "isl (ReportingConfiguration_UnmarshalJSON ord (JObj kvs))"
proof (cases "ReportingConfiguration_UnmarshalJSON ord (JObj kvs)")
  case (Inr strct)
  then have "dom (map_of (rev kvs)) \<subseteq> set ReportingConfiguration_keys"
    by (simp only: ReportingConfiguration_decode_iff ReportingConfiguration_decodesD(1))
  with assms show ?thesis by (auto simp: dom_map_of_conv_image_fst)
qed simp

lemma ReportingConfiguration_rejects_unknown_keys: "rejects_unknown_keys (ReportingConfiguration_UnmarshalJSON ord) ReportingConfiguration_keys"
  by (rule rejects_unknown_keysI) (erule (1) ReportingConfiguration_unknown_key_fails, erule (2) ReportingConfiguration_unknown_key)

subsection \<open>ConfigurationOverride: decoding and encoding\<close>

definition ConfigurationOverride_keys :: "string list" where
  "ConfigurationOverride_keys = [''configuration'', ''descriptor'', ''properties'']"

definition ConfigurationOverride_decodes :: "order \<Rightarrow> (string \<rightharpoonup> json) \<Rightarrow> ConfigurationOverride \<Rightarrow> bool" where
  "ConfigurationOverride_decodes ord m strct \<longleftrightarrow>
     dom m \<subseteq> set ConfigurationOverride_keys \<and>
     field_ok (json_Unmarshal_ptr (ReportingConfiguration_UnmarshalJSON ord)) (m ''configuration'') None (ConfigurationOverride.Configuration strct) \<and>
     field_ok (json_Unmarshal_ptr (ReportingDescriptorReference_UnmarshalJSON ord)) (m ''descriptor'') None (ConfigurationOverride.Descriptor strct) \<and>
     field_ok (json_Unmarshal_ptr (PropertyBag_UnmarshalJSON ord)) (m ''properties'') None (ConfigurationOverride.Properties strct) \<and>
     m ''configuration'' \<noteq> None \<and>
     m ''descriptor'' \<noteq> None"

lemma ConfigurationOverride_cases_keys: "fst ` set (ConfigurationOverride_cases ord v) = set ConfigurationOverride_keys"
  by (rule keys_image) (simp add: ConfigurationOverride_cases_def ConfigurationOverride_keys_def)

lemma ConfigurationOverride_regular: "regular (\<lambda>k v. switch k (ConfigurationOverride_cases ord v) (reject k))"
  by (rule regular_switch) (simp add: ConfigurationOverride_cases_def)

lemma ConfigurationOverride_fields:
  "field_case (ConfigurationOverride_cases ord) (\<lambda>(strct, configurationReceived, descriptorReceived). ConfigurationOverride.Configuration strct) ''configuration'' (json_Unmarshal_ptr (ReportingConfiguration_UnmarshalJSON ord))"
  "field_case (ConfigurationOverride_cases ord) (\<lambda>(strct, configurationReceived, descriptorReceived). ConfigurationOverride.Descriptor strct) ''descriptor'' (json_Unmarshal_ptr (ReportingDescriptorReference_UnmarshalJSON ord))"
  "field_case (ConfigurationOverride_cases ord) (\<lambda>(strct, configurationReceived, descriptorReceived). ConfigurationOverride.Properties strct) ''properties'' (json_Unmarshal_ptr (PropertyBag_UnmarshalJSON ord))"
  "field_case (ConfigurationOverride_cases ord) (\<lambda>(strct, configurationReceived, descriptorReceived). configurationReceived) ''configuration'' (received (json_Unmarshal_ptr (ReportingConfiguration_UnmarshalJSON ord)))"
  "field_case (ConfigurationOverride_cases ord) (\<lambda>(strct, configurationReceived, descriptorReceived). descriptorReceived) ''descriptor'' (received (json_Unmarshal_ptr (ReportingDescriptorReference_UnmarshalJSON ord)))"
  unfolding field_case_def ConfigurationOverride_cases_def
  by (simp_all add: writes_into writes_received keeps_into split_def)

lemma ConfigurationOverride_loop_sound:
  assumes loop: "range_loop (\<lambda>k v. switch k (ConfigurationOverride_cases ord v) (reject k)) (members ord kvs) (ConfigurationOverride_zero, False, False) = Inr (strct, configurationReceived, descriptorReceived)"
  shows "dom (map_of (rev kvs)) \<subseteq> set ConfigurationOverride_keys \<and>
     field_ok (json_Unmarshal_ptr (ReportingConfiguration_UnmarshalJSON ord)) (map_of (rev kvs) ''configuration'') None (ConfigurationOverride.Configuration strct) \<and>
     field_ok (json_Unmarshal_ptr (ReportingDescriptorReference_UnmarshalJSON ord)) (map_of (rev kvs) ''descriptor'') None (ConfigurationOverride.Descriptor strct) \<and>
     field_ok (json_Unmarshal_ptr (PropertyBag_UnmarshalJSON ord)) (map_of (rev kvs) ''properties'') None (ConfigurationOverride.Properties strct) \<and>
     (configurationReceived \<longleftrightarrow> map_of (rev kvs) ''configuration'' \<noteq> None) \<and>
     (descriptorReceived \<longleftrightarrow> map_of (rev kvs) ''descriptor'' \<noteq> None)"
proof -
  have "fst ` set (members ord kvs) \<subseteq> set ConfigurationOverride_keys"
    by (rule loop_keys_known [OF loop]) (rule ConfigurationOverride_cases_keys)
  then have keys: "dom (map_of (rev kvs)) \<subseteq> set ConfigurationOverride_keys"
    by (simp add: dom_members [of kvs ord])
  note fld = field_after_loop [OF _ members_distinct loop, unfolded map_of_members]
  note flg = flag_after_loop [OF _ members_distinct loop, unfolded map_of_members]
  show ?thesis
    using keys fld [OF ConfigurationOverride_fields(1)] fld [OF ConfigurationOverride_fields(2)] fld [OF ConfigurationOverride_fields(3)] flg [OF ConfigurationOverride_fields(4)] flg [OF ConfigurationOverride_fields(5)]
    by (simp only: prod.case ConfigurationOverride_zero_def ConfigurationOverride.select_convs simp_thms)
qed

lemma ConfigurationOverride_decodesD:
  assumes "ConfigurationOverride_decodes ord m strct"
  shows "dom m \<subseteq> set ConfigurationOverride_keys"
    and "field_ok (json_Unmarshal_ptr (ReportingConfiguration_UnmarshalJSON ord)) (m ''configuration'') None (ConfigurationOverride.Configuration strct)"
    and "field_ok (json_Unmarshal_ptr (ReportingDescriptorReference_UnmarshalJSON ord)) (m ''descriptor'') None (ConfigurationOverride.Descriptor strct)"
    and "field_ok (json_Unmarshal_ptr (PropertyBag_UnmarshalJSON ord)) (m ''properties'') None (ConfigurationOverride.Properties strct)"
    and "m ''configuration'' \<noteq> None"
    and "m ''descriptor'' \<noteq> None"
  using assms unfolding ConfigurationOverride_decodes_def by - (elim conjE, assumption)+

lemma ConfigurationOverride_decodes_unique:
  assumes "ConfigurationOverride_decodes ord m a" and "ConfigurationOverride_decodes ord m b"
  shows "a = b"
  apply (rule ConfigurationOverride.equality)
  apply (rule field_ok_unique [OF ConfigurationOverride_decodesD(2) [OF assms(1)] ConfigurationOverride_decodesD(2) [OF assms(2)]])
  apply (rule field_ok_unique [OF ConfigurationOverride_decodesD(3) [OF assms(1)] ConfigurationOverride_decodesD(3) [OF assms(2)]])
  apply (rule field_ok_unique [OF ConfigurationOverride_decodesD(4) [OF assms(1)] ConfigurationOverride_decodesD(4) [OF assms(2)]])
  apply simp
  done

lemma ConfigurationOverride_accepts:
  assumes "ConfigurationOverride_decodes ord m strct" and "m k = Some v"
  shows "accepting (switch k (ConfigurationOverride_cases ord v) (reject k))"
proof -
  from assms have "k \<in> set ConfigurationOverride_keys" by (auto simp: ConfigurationOverride_decodes_def)
  then have key: "k \<in> fst ` set (ConfigurationOverride_cases ord v)"
    by (simp only: ConfigurationOverride_cases_keys)
  have rows: "list_all (\<lambda>(c, h). m c = Some v \<longrightarrow> accepting h) (ConfigurationOverride_cases ord v)"
    unfolding ConfigurationOverride_cases_def list.pred_inject
    apply (rule conjI [OF accept_row [where m = m and v = v, OF ConfigurationOverride_decodesD(2) [OF assms(1)]]])
    apply (rule conjI [OF accept_row [where m = m and v = v, OF ConfigurationOverride_decodesD(3) [OF assms(1)]]])
    apply (rule conjI [OF accept_row [where m = m and v = v, OF ConfigurationOverride_decodesD(4) [OF assms(1)]]])
    apply simp
    done
  show ?thesis by (rule rows_accept [OF rows assms(2) key])
qed

lemma ConfigurationOverride_decode_iff:
  "ConfigurationOverride_UnmarshalJSON ord (JObj kvs) = Inr strct \<longleftrightarrow>
   ConfigurationOverride_decodes ord (map_of (rev kvs)) strct"
proof
  assume "ConfigurationOverride_UnmarshalJSON ord (JObj kvs) = Inr strct"
  then obtain configurationReceived descriptorReceived where
    loop: "range_loop (\<lambda>k v. switch k (ConfigurationOverride_cases ord v) (reject k)) (members ord kvs) (ConfigurationOverride_zero, False, False) = Inr (strct, configurationReceived, descriptorReceived)"
    and fin: "configurationReceived" "descriptorReceived"
    by (auto simp: ConfigurationOverride_UnmarshalJSON_def members_def split: sum.splits if_splits)
  from ConfigurationOverride_loop_sound [OF loop] fin
  show "ConfigurationOverride_decodes ord (map_of (rev kvs)) strct"
    by (simp add: ConfigurationOverride_decodes_def)
next
  assume d: "ConfigurationOverride_decodes ord (map_of (rev kvs)) strct"
  have "\<exists>t. range_loop (\<lambda>k v. switch k (ConfigurationOverride_cases ord v) (reject k)) (members ord kvs) (ConfigurationOverride_zero, False, False) = Inr t"
  proof (rule loop_succeeds [OF ConfigurationOverride_regular])
    fix k v assume "(k, v) \<in> set (members ord kvs)"
    then have "map_of (rev kvs) k = Some v" by (rule member_lookup)
    from ConfigurationOverride_accepts [OF d this]
    show "accepting (switch k (ConfigurationOverride_cases ord v) (reject k))" .
  qed
  then obtain t where "range_loop (\<lambda>k v. switch k (ConfigurationOverride_cases ord v) (reject k)) (members ord kvs) (ConfigurationOverride_zero, False, False) = Inr t" ..
  then obtain strct' configurationReceived descriptorReceived where
    loop: "range_loop (\<lambda>k v. switch k (ConfigurationOverride_cases ord v) (reject k)) (members ord kvs) (ConfigurationOverride_zero, False, False) = Inr (strct', configurationReceived, descriptorReceived)"
    by (cases t) auto
  from ConfigurationOverride_loop_sound [OF loop] d
  have fin: "configurationReceived" "descriptorReceived"
    and d': "ConfigurationOverride_decodes ord (map_of (rev kvs)) strct'"
    by (simp_all add: ConfigurationOverride_decodes_def)
  from ConfigurationOverride_decodes_unique [OF d' d] have "strct' = strct" .
  with loop fin show "ConfigurationOverride_UnmarshalJSON ord (JObj kvs) = Inr strct"
    by (simp add: ConfigurationOverride_UnmarshalJSON_def members_def)
qed

definition ConfigurationOverride_results :: "scanner \<Rightarrow> order \<Rightarrow> ConfigurationOverride \<Rightarrow> (string \<times> (error + json)) list" where
  "ConfigurationOverride_results scn ord strct =
     [(''configuration'', if ConfigurationOverride.Configuration strct = None then Inl (RequiredField ''configuration'') else json_Marshal_ptr ''*sarif.ReportingConfiguration'' (ReportingConfiguration_MarshalJSON scn ord) (ConfigurationOverride.Configuration strct)),
      (''descriptor'', if ConfigurationOverride.Descriptor strct = None then Inl (RequiredField ''descriptor'') else json_Marshal_ptr ''*sarif.ReportingDescriptorReference'' (ReportingDescriptorReference_MarshalJSON scn ord) (ConfigurationOverride.Descriptor strct)),
      (''properties'', json_Marshal_bytes ''*sarif.PropertyBag'' (PropertyBag_MarshalJSON scn ord) (ConfigurationOverride.Properties strct))]"

lemma ConfigurationOverride_MarshalJSON_results:
  "ConfigurationOverride_MarshalJSON scn ord strct = object (emit_all (ConfigurationOverride_results scn ord strct))"
  by (simp add: ConfigurationOverride_MarshalJSON_def ConfigurationOverride_results_def emit_nilcheck)

lemma ConfigurationOverride_keys_written:
  "ConfigurationOverride_MarshalJSON scn ord strct = Inr j \<Longrightarrow> \<exists>kvs. j = JObj kvs \<and> map fst kvs = ConfigurationOverride_keys"
  using keys_written [of "ConfigurationOverride_results scn ord strct" j]
  by (simp add: ConfigurationOverride_MarshalJSON_results ConfigurationOverride_results_def ConfigurationOverride_keys_def)

definition ConfigurationOverride_encodable :: "scanner \<Rightarrow> order \<Rightarrow> ConfigurationOverride \<Rightarrow> bool" where
  "ConfigurationOverride_encodable scn ord strct \<longleftrightarrow>
     ConfigurationOverride.Configuration strct \<noteq> None \<and>
     ptr_all (ReportingConfiguration_encodable scn ord) (ConfigurationOverride.Configuration strct) \<and>
     ConfigurationOverride.Descriptor strct \<noteq> None \<and>
     ptr_all (ReportingDescriptorReference_encodable scn ord) (ConfigurationOverride.Descriptor strct) \<and>
     ptr_all (PropertyBag_encodable scn ord) (ConfigurationOverride.Properties strct)"

lemma ConfigurationOverride_fails_unless: "fails_unless (ConfigurationOverride_MarshalJSON scn ord) (ConfigurationOverride_encodable scn ord)"
  unfolding fails_unless_def ConfigurationOverride_MarshalJSON_results ConfigurationOverride_results_def ConfigurationOverride_encodable_def isl_object_emit_all
  by (auto simp add: always_simps
      fails_unlessD [OF fails_unless_ptr [OF ReportingConfiguration_fails_unless]]
      fails_unlessD [OF fails_unless_ptr [OF ReportingDescriptorReference_fails_unless]]
      fails_unlessD [OF PropertyBag_field_fails_unless])

definition ConfigurationOverride_valid :: "ConfigurationOverride \<Rightarrow> bool" where
  "ConfigurationOverride_valid strct \<longleftrightarrow>
     ConfigurationOverride.Configuration strct \<noteq> None \<and>
     ptr_all ReportingConfiguration_valid (ConfigurationOverride.Configuration strct) \<and>
     ConfigurationOverride.Descriptor strct \<noteq> None \<and>
     ptr_all ReportingDescriptorReference_valid (ConfigurationOverride.Descriptor strct) \<and>
     ptr_all PropertyBag_valid (ConfigurationOverride.Properties strct)"

lemma ConfigurationOverride_keys_distinct: "distinct ConfigurationOverride_keys"
  by (simp add: ConfigurationOverride_keys_def)

lemma ConfigurationOverride_round_trips:
  "round_trips_object (ConfigurationOverride_MarshalJSON scn ord) (ConfigurationOverride_UnmarshalJSON ord') ConfigurationOverride_valid"
  unfolding round_trips_object_def
proof (intro allI impI)
  fix strct assume v: "ConfigurationOverride_valid strct"
  note v' = v [unfolded ConfigurationOverride_valid_def]
  let ?rs = "ConfigurationOverride_results scn ord strct"
  let ?kvs = "map (\<lambda>e. (fst e, projr (snd e))) ?rs"
  have f0: "\<not> isl (json_Marshal_ptr ''*sarif.ReportingConfiguration'' (ReportingConfiguration_MarshalJSON scn ord) (ConfigurationOverride.Configuration strct)) \<and>
      json_Unmarshal_ptr (ReportingConfiguration_UnmarshalJSON ord') (projr (json_Marshal_ptr ''*sarif.ReportingConfiguration'' (ReportingConfiguration_MarshalJSON scn ord) (ConfigurationOverride.Configuration strct))) = Inr (ConfigurationOverride.Configuration strct)"
    by (rule round_tripsD [OF round_trips_ptr [OF ReportingConfiguration_round_trips]]) (use v' in simp)
  have f1: "\<not> isl (json_Marshal_ptr ''*sarif.ReportingDescriptorReference'' (ReportingDescriptorReference_MarshalJSON scn ord) (ConfigurationOverride.Descriptor strct)) \<and>
      json_Unmarshal_ptr (ReportingDescriptorReference_UnmarshalJSON ord') (projr (json_Marshal_ptr ''*sarif.ReportingDescriptorReference'' (ReportingDescriptorReference_MarshalJSON scn ord) (ConfigurationOverride.Descriptor strct))) = Inr (ConfigurationOverride.Descriptor strct)"
    by (rule round_tripsD [OF round_trips_ptr [OF ReportingDescriptorReference_round_trips]]) (use v' in simp)
  have f2: "\<not> isl (json_Marshal_bytes ''*sarif.PropertyBag'' (PropertyBag_MarshalJSON scn ord) (ConfigurationOverride.Properties strct)) \<and>
      json_Unmarshal_ptr (PropertyBag_UnmarshalJSON ord') (projr (json_Marshal_bytes ''*sarif.PropertyBag'' (PropertyBag_MarshalJSON scn ord) (ConfigurationOverride.Properties strct))) = Inr (ConfigurationOverride.Properties strct)"
    by (rule round_tripsD [OF PropertyBag_field_round_trips]) (use v' in simp)
  note fs = f0 f1 f2
  have nn: "ConfigurationOverride.Configuration strct \<noteq> None" "ConfigurationOverride.Descriptor strct \<noteq> None"
    using v' by simp_all
  have rs: "?rs =
     [(''configuration'', json_Marshal_ptr ''*sarif.ReportingConfiguration'' (ReportingConfiguration_MarshalJSON scn ord) (ConfigurationOverride.Configuration strct)),
      (''descriptor'', json_Marshal_ptr ''*sarif.ReportingDescriptorReference'' (ReportingDescriptorReference_MarshalJSON scn ord) (ConfigurationOverride.Descriptor strct)),
      (''properties'', json_Marshal_bytes ''*sarif.PropertyBag'' (PropertyBag_MarshalJSON scn ord) (ConfigurationOverride.Properties strct))]"
    using nn by (auto simp add: ConfigurationOverride_results_def)
  have keys: "map fst ?rs = ConfigurationOverride_keys"
    by (simp add: ConfigurationOverride_results_def ConfigurationOverride_keys_def)
  then have dist: "distinct (map fst ?rs)"
    by (simp only: ConfigurationOverride_keys_distinct)
  have ok: "list_all (\<lambda>e. \<not> isl (snd e)) ?rs"
    unfolding rs by (simp only: list.pred_inject snd_conv fs simp_thms)
  then have enc: "ConfigurationOverride_MarshalJSON scn ord strct = Inr (JObj ?kvs)"
    by (simp add: ConfigurationOverride_MarshalJSON_results [of scn ord strct] object_emit_all_eq_Inr)
  have l0: "map_of (rev ?kvs) ''configuration'' = Some (projr (json_Marshal_ptr ''*sarif.ReportingConfiguration'' (ReportingConfiguration_MarshalJSON scn ord) (ConfigurationOverride.Configuration strct)))"
    by (rule written_lookup [OF dist]) (subst rs, intro list.set_intros)
  have l1: "map_of (rev ?kvs) ''descriptor'' = Some (projr (json_Marshal_ptr ''*sarif.ReportingDescriptorReference'' (ReportingDescriptorReference_MarshalJSON scn ord) (ConfigurationOverride.Descriptor strct)))"
    by (rule written_lookup [OF dist]) (subst rs, intro list.set_intros)
  have l2: "map_of (rev ?kvs) ''properties'' = Some (projr (json_Marshal_bytes ''*sarif.PropertyBag'' (PropertyBag_MarshalJSON scn ord) (ConfigurationOverride.Properties strct)))"
    by (rule written_lookup [OF dist]) (subst rs, intro list.set_intros)
  have dec: "ConfigurationOverride_decodes ord' (map_of (rev ?kvs)) strct"
    unfolding ConfigurationOverride_decodes_def l0 l1 l2
    by (simp only: field_ok_Some fs written_dom keys subset_refl option.simps simp_thms)
  then have "ConfigurationOverride_UnmarshalJSON ord' (JObj ?kvs) = Inr strct"
    by (simp only: ConfigurationOverride_decode_iff)
  with enc show "rt_object (ConfigurationOverride_MarshalJSON scn ord) (ConfigurationOverride_UnmarshalJSON ord') strct"
    unfolding rt_object_def by blast
qed

definition ConfigurationOverride_small_bags :: "ConfigurationOverride \<Rightarrow> bool" where
  "ConfigurationOverride_small_bags strct \<longleftrightarrow>
     ptr_all ReportingConfiguration_small_bags (ConfigurationOverride.Configuration strct) \<and>
     ptr_all ReportingDescriptorReference_small_bags (ConfigurationOverride.Descriptor strct) \<and>
     ptr_all PropertyBag_small_bags (ConfigurationOverride.Properties strct)"

lemma ConfigurationOverride_same_output:
  "same_output (ConfigurationOverride_MarshalJSON scn ord) (ConfigurationOverride_MarshalJSON scn ord') ConfigurationOverride_small_bags"
  unfolding same_output_def
proof (intro allI impI)
  fix strct assume v: "ConfigurationOverride_small_bags strct"
  note v' = v [unfolded ConfigurationOverride_small_bags_def]
  have e0: "json_Marshal_ptr ''*sarif.ReportingConfiguration'' (ReportingConfiguration_MarshalJSON scn ord) (ConfigurationOverride.Configuration strct) =
      json_Marshal_ptr ''*sarif.ReportingConfiguration'' (ReportingConfiguration_MarshalJSON scn ord') (ConfigurationOverride.Configuration strct)"
    by (rule same_outputD [OF same_output_ptr [OF ReportingConfiguration_same_output]]) (use v' in simp)
  have e1: "json_Marshal_ptr ''*sarif.ReportingDescriptorReference'' (ReportingDescriptorReference_MarshalJSON scn ord) (ConfigurationOverride.Descriptor strct) =
      json_Marshal_ptr ''*sarif.ReportingDescriptorReference'' (ReportingDescriptorReference_MarshalJSON scn ord') (ConfigurationOverride.Descriptor strct)"
    by (rule same_outputD [OF same_output_ptr [OF ReportingDescriptorReference_same_output]]) (use v' in simp)
  have e2: "json_Marshal_bytes ''*sarif.PropertyBag'' (PropertyBag_MarshalJSON scn ord) (ConfigurationOverride.Properties strct) =
      json_Marshal_bytes ''*sarif.PropertyBag'' (PropertyBag_MarshalJSON scn ord') (ConfigurationOverride.Properties strct)"
    by (rule same_outputD [OF PropertyBag_field_same_output]) (use v' in simp)
  show "ConfigurationOverride_MarshalJSON scn ord strct = ConfigurationOverride_MarshalJSON scn ord' strct"
    by (simp only: ConfigurationOverride_MarshalJSON_def e0 e1 e2)
qed

lemma ConfigurationOverride_writes_keys: "writes_keys (ConfigurationOverride_MarshalJSON scn ord) ConfigurationOverride_keys"
  unfolding writes_keys_def by (intro allI impI) (erule ConfigurationOverride_keys_written)

lemma ConfigurationOverride_unknown_key:
  assumes new: "k \<notin> set ConfigurationOverride_keys" and key: "k \<in> fst ` set kvs"
    and rest: "ConfigurationOverride_UnmarshalJSON ord (JObj (filter (\<lambda>e. fst e \<noteq> k) kvs)) = Inr strct"
  shows "ConfigurationOverride_UnmarshalJSON ord (JObj kvs) = Inl (not_allowed k)"
proof -
  have rej: "switch k (ConfigurationOverride_cases ord v) (reject k) s = Inl (not_allowed k)" for v s
    by (rule switch_rejects) (simp only: ConfigurationOverride_cases_keys new not_False_eq_True)
  from rest obtain t where
    "range_loop (\<lambda>k v. switch k (ConfigurationOverride_cases ord v) (reject k)) (members ord (filter (\<lambda>e. fst e \<noteq> k) kvs)) (ConfigurationOverride_zero, False, False) = Inr t"
    by (cases "range_loop (\<lambda>k v. switch k (ConfigurationOverride_cases ord v) (reject k)) (members ord (filter (\<lambda>e. fst e \<noteq> k) kvs)) (ConfigurationOverride_zero, False, False)")
       (simp_all add: ConfigurationOverride_UnmarshalJSON_def members_def)
  from unknown_key_named [OF ConfigurationOverride_regular rej key this]
  show ?thesis by (simp add: ConfigurationOverride_UnmarshalJSON_def members_def)
qed

lemma ConfigurationOverride_unknown_key_fails:
  assumes "k \<notin> set ConfigurationOverride_keys" and "k \<in> fst ` set kvs"
  shows "isl (ConfigurationOverride_UnmarshalJSON ord (JObj kvs))"
proof (cases "ConfigurationOverride_UnmarshalJSON ord (JObj kvs)")
  case (Inr strct)
  then have "dom (map_of (rev kvs)) \<subseteq> set ConfigurationOverride_keys"
    by (simp only: ConfigurationOverride_decode_iff ConfigurationOverride_decodesD(1))
  with assms show ?thesis by (auto simp: dom_map_of_conv_image_fst)
qed simp

lemma ConfigurationOverride_required_present:
  assumes "ConfigurationOverride_UnmarshalJSON ord (JObj kvs) = Inr strct"
  shows "''configuration'' \<in> fst ` set kvs"
    and "''descriptor'' \<in> fst ` set kvs"
proof -
  from assms have d: "ConfigurationOverride_decodes ord (map_of (rev kvs)) strct" by (simp only: ConfigurationOverride_decode_iff)
  show "''configuration'' \<in> fst ` set kvs"
    and "''descriptor'' \<in> fst ` set kvs"
    using ConfigurationOverride_decodesD(5) [OF d] ConfigurationOverride_decodesD(6) [OF d]
    by (simp_all only: present_key)
qed

lemma ConfigurationOverride_without_Configuration:
  assumes "ConfigurationOverride_UnmarshalJSON ord (JObj kvs) = Inr strct"
  shows "ConfigurationOverride_UnmarshalJSON ord (JObj (filter (\<lambda>e. fst e \<noteq> ''configuration'') kvs)) =
    Inl (RequiredNotPresent ''configuration'')"
proof -
  from assms have d: "ConfigurationOverride_decodes ord (map_of (rev kvs)) strct" by (simp only: ConfigurationOverride_decode_iff)
  have "\<exists>t. range_loop (\<lambda>k v. switch k (ConfigurationOverride_cases ord v) (reject k)) (members ord (filter (\<lambda>e. fst e \<noteq> ''configuration'') kvs))
      (ConfigurationOverride_zero, False, False) = Inr t"
  proof (rule loop_succeeds [OF ConfigurationOverride_regular])
    fix k v assume "(k, v) \<in> set (members ord (filter (\<lambda>e. fst e \<noteq> ''configuration'') kvs))"
    then have "map_of (rev kvs) k = Some v" by (rule member_lookup_filter)
    from ConfigurationOverride_accepts [OF d this]
    show "accepting (switch k (ConfigurationOverride_cases ord v) (reject k))" .
  qed
  then obtain t where "range_loop (\<lambda>k v. switch k (ConfigurationOverride_cases ord v) (reject k)) (members ord (filter (\<lambda>e. fst e \<noteq> ''configuration'') kvs))
      (ConfigurationOverride_zero, False, False) = Inr t" ..
  then obtain strct' configurationReceived descriptorReceived where
    loop: "range_loop (\<lambda>k v. switch k (ConfigurationOverride_cases ord v) (reject k)) (members ord (filter (\<lambda>e. fst e \<noteq> ''configuration'') kvs))
      (ConfigurationOverride_zero, False, False) = Inr (strct', configurationReceived, descriptorReceived)"
    by (cases t) auto
  from ConfigurationOverride_loop_sound [OF loop] ConfigurationOverride_decodesD(5) [OF d] ConfigurationOverride_decodesD(6) [OF d]
  have "\<not> configurationReceived" "descriptorReceived"
    by (simp_all add: lookup_filter)
  with loop show ?thesis
    by (simp add: ConfigurationOverride_UnmarshalJSON_def members_def)
qed

lemma ConfigurationOverride_without_Descriptor:
  assumes "ConfigurationOverride_UnmarshalJSON ord (JObj kvs) = Inr strct"
  shows "ConfigurationOverride_UnmarshalJSON ord (JObj (filter (\<lambda>e. fst e \<noteq> ''descriptor'') kvs)) =
    Inl (RequiredNotPresent ''descriptor'')"
proof -
  from assms have d: "ConfigurationOverride_decodes ord (map_of (rev kvs)) strct" by (simp only: ConfigurationOverride_decode_iff)
  have "\<exists>t. range_loop (\<lambda>k v. switch k (ConfigurationOverride_cases ord v) (reject k)) (members ord (filter (\<lambda>e. fst e \<noteq> ''descriptor'') kvs))
      (ConfigurationOverride_zero, False, False) = Inr t"
  proof (rule loop_succeeds [OF ConfigurationOverride_regular])
    fix k v assume "(k, v) \<in> set (members ord (filter (\<lambda>e. fst e \<noteq> ''descriptor'') kvs))"
    then have "map_of (rev kvs) k = Some v" by (rule member_lookup_filter)
    from ConfigurationOverride_accepts [OF d this]
    show "accepting (switch k (ConfigurationOverride_cases ord v) (reject k))" .
  qed
  then obtain t where "range_loop (\<lambda>k v. switch k (ConfigurationOverride_cases ord v) (reject k)) (members ord (filter (\<lambda>e. fst e \<noteq> ''descriptor'') kvs))
      (ConfigurationOverride_zero, False, False) = Inr t" ..
  then obtain strct' configurationReceived descriptorReceived where
    loop: "range_loop (\<lambda>k v. switch k (ConfigurationOverride_cases ord v) (reject k)) (members ord (filter (\<lambda>e. fst e \<noteq> ''descriptor'') kvs))
      (ConfigurationOverride_zero, False, False) = Inr (strct', configurationReceived, descriptorReceived)"
    by (cases t) auto
  from ConfigurationOverride_loop_sound [OF loop] ConfigurationOverride_decodesD(5) [OF d] ConfigurationOverride_decodesD(6) [OF d]
  have "configurationReceived" "\<not> descriptorReceived"
    by (simp_all add: lookup_filter)
  with loop show ?thesis
    by (simp add: ConfigurationOverride_UnmarshalJSON_def members_def)
qed



lemma ConfigurationOverride_rejects_unknown_keys: "rejects_unknown_keys (ConfigurationOverride_UnmarshalJSON ord) ConfigurationOverride_keys"
  by (rule rejects_unknown_keysI) (erule (1) ConfigurationOverride_unknown_key_fails, erule (2) ConfigurationOverride_unknown_key)

lemma ConfigurationOverride_requires_Configuration: "requires_key (ConfigurationOverride_UnmarshalJSON ord) ''configuration''"
  by (rule requires_keyI) (erule ConfigurationOverride_required_present(1), erule ConfigurationOverride_without_Configuration)


lemma ConfigurationOverride_requires_Descriptor: "requires_key (ConfigurationOverride_UnmarshalJSON ord) ''descriptor''"
  by (rule requires_keyI) (erule ConfigurationOverride_required_present(2), erule ConfigurationOverride_without_Descriptor)


subsection \<open>TranslationMetadata: decoding and encoding\<close>

definition TranslationMetadata_keys :: "string list" where
  "TranslationMetadata_keys = [''downloadUri'', ''fullDescription'', ''fullName'', ''informationUri'', ''name'', ''properties'', ''shortDescription'']"

definition TranslationMetadata_decodes :: "order \<Rightarrow> (string \<rightharpoonup> json) \<Rightarrow> TranslationMetadata \<Rightarrow> bool" where
  "TranslationMetadata_decodes ord m strct \<longleftrightarrow>
     dom m \<subseteq> set TranslationMetadata_keys \<and>
     field_ok json_Unmarshal_string (m ''downloadUri'') [] (TranslationMetadata.DownloadUri strct) \<and>
     field_ok (json_Unmarshal_ptr (MultiformatMessageString_UnmarshalJSON ord)) (m ''fullDescription'') None (TranslationMetadata.FullDescription strct) \<and>
     field_ok json_Unmarshal_string (m ''fullName'') [] (TranslationMetadata.FullName strct) \<and>
     field_ok json_Unmarshal_string (m ''informationUri'') [] (TranslationMetadata.InformationUri strct) \<and>
     field_ok json_Unmarshal_string (m ''name'') [] (TranslationMetadata.Name strct) \<and>
     field_ok (json_Unmarshal_ptr (PropertyBag_UnmarshalJSON ord)) (m ''properties'') None (TranslationMetadata.Properties strct) \<and>
     field_ok (json_Unmarshal_ptr (MultiformatMessageString_UnmarshalJSON ord)) (m ''shortDescription'') None (TranslationMetadata.ShortDescription strct) \<and>
     m ''name'' \<noteq> None"

lemma TranslationMetadata_cases_keys: "fst ` set (TranslationMetadata_cases ord v) = set TranslationMetadata_keys"
  by (rule keys_image) (simp add: TranslationMetadata_cases_def TranslationMetadata_keys_def)

lemma TranslationMetadata_regular: "regular (\<lambda>k v. switch k (TranslationMetadata_cases ord v) (reject k))"
  by (rule regular_switch) (simp add: TranslationMetadata_cases_def)

lemma TranslationMetadata_fields:
  "field_case (TranslationMetadata_cases ord) (\<lambda>(strct, nameReceived). TranslationMetadata.DownloadUri strct) ''downloadUri'' json_Unmarshal_string"
  "field_case (TranslationMetadata_cases ord) (\<lambda>(strct, nameReceived). TranslationMetadata.FullDescription strct) ''fullDescription'' (json_Unmarshal_ptr (MultiformatMessageString_UnmarshalJSON ord))"
  "field_case (TranslationMetadata_cases ord) (\<lambda>(strct, nameReceived). TranslationMetadata.FullName strct) ''fullName'' json_Unmarshal_string"
  "field_case (TranslationMetadata_cases ord) (\<lambda>(strct, nameReceived). TranslationMetadata.InformationUri strct) ''informationUri'' json_Unmarshal_string"
  "field_case (TranslationMetadata_cases ord) (\<lambda>(strct, nameReceived). TranslationMetadata.Name strct) ''name'' json_Unmarshal_string"
  "field_case (TranslationMetadata_cases ord) (\<lambda>(strct, nameReceived). TranslationMetadata.Properties strct) ''properties'' (json_Unmarshal_ptr (PropertyBag_UnmarshalJSON ord))"
  "field_case (TranslationMetadata_cases ord) (\<lambda>(strct, nameReceived). TranslationMetadata.ShortDescription strct) ''shortDescription'' (json_Unmarshal_ptr (MultiformatMessageString_UnmarshalJSON ord))"
  "field_case (TranslationMetadata_cases ord) (\<lambda>(strct, nameReceived). nameReceived) ''name'' (received json_Unmarshal_string)"
  unfolding field_case_def TranslationMetadata_cases_def
  by (simp_all add: writes_into writes_received keeps_into split_def)

lemma TranslationMetadata_loop_sound:
  assumes loop: "range_loop (\<lambda>k v. switch k (TranslationMetadata_cases ord v) (reject k)) (members ord kvs) (TranslationMetadata_zero, False) = Inr (strct, nameReceived)"
  shows "dom (map_of (rev kvs)) \<subseteq> set TranslationMetadata_keys \<and>
     field_ok json_Unmarshal_string (map_of (rev kvs) ''downloadUri'') [] (TranslationMetadata.DownloadUri strct) \<and>
     field_ok (json_Unmarshal_ptr (MultiformatMessageString_UnmarshalJSON ord)) (map_of (rev kvs) ''fullDescription'') None (TranslationMetadata.FullDescription strct) \<and>
     field_ok json_Unmarshal_string (map_of (rev kvs) ''fullName'') [] (TranslationMetadata.FullName strct) \<and>
     field_ok json_Unmarshal_string (map_of (rev kvs) ''informationUri'') [] (TranslationMetadata.InformationUri strct) \<and>
     field_ok json_Unmarshal_string (map_of (rev kvs) ''name'') [] (TranslationMetadata.Name strct) \<and>
     field_ok (json_Unmarshal_ptr (PropertyBag_UnmarshalJSON ord)) (map_of (rev kvs) ''properties'') None (TranslationMetadata.Properties strct) \<and>
     field_ok (json_Unmarshal_ptr (MultiformatMessageString_UnmarshalJSON ord)) (map_of (rev kvs) ''shortDescription'') None (TranslationMetadata.ShortDescription strct) \<and>
     (nameReceived \<longleftrightarrow> map_of (rev kvs) ''name'' \<noteq> None)"
proof -
  have "fst ` set (members ord kvs) \<subseteq> set TranslationMetadata_keys"
    by (rule loop_keys_known [OF loop]) (rule TranslationMetadata_cases_keys)
  then have keys: "dom (map_of (rev kvs)) \<subseteq> set TranslationMetadata_keys"
    by (simp add: dom_members [of kvs ord])
  note fld = field_after_loop [OF _ members_distinct loop, unfolded map_of_members]
  note flg = flag_after_loop [OF _ members_distinct loop, unfolded map_of_members]
  show ?thesis
    using keys fld [OF TranslationMetadata_fields(1)] fld [OF TranslationMetadata_fields(2)] fld [OF TranslationMetadata_fields(3)] fld [OF TranslationMetadata_fields(4)] fld [OF TranslationMetadata_fields(5)] fld [OF TranslationMetadata_fields(6)] fld [OF TranslationMetadata_fields(7)] flg [OF TranslationMetadata_fields(8)]
    by (simp only: prod.case TranslationMetadata_zero_def TranslationMetadata.select_convs simp_thms)
qed

lemma TranslationMetadata_decodesD:
  assumes "TranslationMetadata_decodes ord m strct"
  shows "dom m \<subseteq> set TranslationMetadata_keys"
    and "field_ok json_Unmarshal_string (m ''downloadUri'') [] (TranslationMetadata.DownloadUri strct)"
    and "field_ok (json_Unmarshal_ptr (MultiformatMessageString_UnmarshalJSON ord)) (m ''fullDescription'') None (TranslationMetadata.FullDescription strct)"
    and "field_ok json_Unmarshal_string (m ''fullName'') [] (TranslationMetadata.FullName strct)"
    and "field_ok json_Unmarshal_string (m ''informationUri'') [] (TranslationMetadata.InformationUri strct)"
    and "field_ok json_Unmarshal_string (m ''name'') [] (TranslationMetadata.Name strct)"
    and "field_ok (json_Unmarshal_ptr (PropertyBag_UnmarshalJSON ord)) (m ''properties'') None (TranslationMetadata.Properties strct)"
    and "field_ok (json_Unmarshal_ptr (MultiformatMessageString_UnmarshalJSON ord)) (m ''shortDescription'') None (TranslationMetadata.ShortDescription strct)"
    and "m ''name'' \<noteq> None"
  using assms unfolding TranslationMetadata_decodes_def by - (elim conjE, assumption)+

lemma TranslationMetadata_decodes_unique:
  assumes "TranslationMetadata_decodes ord m a" and "TranslationMetadata_decodes ord m b"
  shows "a = b"
  apply (rule TranslationMetadata.equality)
  apply (rule field_ok_unique [OF TranslationMetadata_decodesD(2) [OF assms(1)] TranslationMetadata_decodesD(2) [OF assms(2)]])
  apply (rule field_ok_unique [OF TranslationMetadata_decodesD(3) [OF assms(1)] TranslationMetadata_decodesD(3) [OF assms(2)]])
  apply (rule field_ok_unique [OF TranslationMetadata_decodesD(4) [OF assms(1)] TranslationMetadata_decodesD(4) [OF assms(2)]])
  apply (rule field_ok_unique [OF TranslationMetadata_decodesD(5) [OF assms(1)] TranslationMetadata_decodesD(5) [OF assms(2)]])
  apply (rule field_ok_unique [OF TranslationMetadata_decodesD(6) [OF assms(1)] TranslationMetadata_decodesD(6) [OF assms(2)]])
  apply (rule field_ok_unique [OF TranslationMetadata_decodesD(7) [OF assms(1)] TranslationMetadata_decodesD(7) [OF assms(2)]])
  apply (rule field_ok_unique [OF TranslationMetadata_decodesD(8) [OF assms(1)] TranslationMetadata_decodesD(8) [OF assms(2)]])
  apply simp
  done

lemma TranslationMetadata_accepts:
  assumes "TranslationMetadata_decodes ord m strct" and "m k = Some v"
  shows "accepting (switch k (TranslationMetadata_cases ord v) (reject k))"
proof -
  from assms have "k \<in> set TranslationMetadata_keys" by (auto simp: TranslationMetadata_decodes_def)
  then have key: "k \<in> fst ` set (TranslationMetadata_cases ord v)"
    by (simp only: TranslationMetadata_cases_keys)
  have rows: "list_all (\<lambda>(c, h). m c = Some v \<longrightarrow> accepting h) (TranslationMetadata_cases ord v)"
    unfolding TranslationMetadata_cases_def list.pred_inject
    apply (rule conjI [OF accept_row [where m = m and v = v, OF TranslationMetadata_decodesD(2) [OF assms(1)]]])
    apply (rule conjI [OF accept_row [where m = m and v = v, OF TranslationMetadata_decodesD(3) [OF assms(1)]]])
    apply (rule conjI [OF accept_row [where m = m and v = v, OF TranslationMetadata_decodesD(4) [OF assms(1)]]])
    apply (rule conjI [OF accept_row [where m = m and v = v, OF TranslationMetadata_decodesD(5) [OF assms(1)]]])
    apply (rule conjI [OF accept_row [where m = m and v = v, OF TranslationMetadata_decodesD(6) [OF assms(1)]]])
    apply (rule conjI [OF accept_row [where m = m and v = v, OF TranslationMetadata_decodesD(7) [OF assms(1)]]])
    apply (rule conjI [OF accept_row [where m = m and v = v, OF TranslationMetadata_decodesD(8) [OF assms(1)]]])
    apply simp
    done
  show ?thesis by (rule rows_accept [OF rows assms(2) key])
qed

lemma TranslationMetadata_decode_iff:
  "TranslationMetadata_UnmarshalJSON ord (JObj kvs) = Inr strct \<longleftrightarrow>
   TranslationMetadata_decodes ord (map_of (rev kvs)) strct"
proof
  assume "TranslationMetadata_UnmarshalJSON ord (JObj kvs) = Inr strct"
  then obtain nameReceived where
    loop: "range_loop (\<lambda>k v. switch k (TranslationMetadata_cases ord v) (reject k)) (members ord kvs) (TranslationMetadata_zero, False) = Inr (strct, nameReceived)"
    and fin: "nameReceived"
    by (auto simp: TranslationMetadata_UnmarshalJSON_def members_def split: sum.splits if_splits)
  from TranslationMetadata_loop_sound [OF loop] fin
  show "TranslationMetadata_decodes ord (map_of (rev kvs)) strct"
    by (simp add: TranslationMetadata_decodes_def)
next
  assume d: "TranslationMetadata_decodes ord (map_of (rev kvs)) strct"
  have "\<exists>t. range_loop (\<lambda>k v. switch k (TranslationMetadata_cases ord v) (reject k)) (members ord kvs) (TranslationMetadata_zero, False) = Inr t"
  proof (rule loop_succeeds [OF TranslationMetadata_regular])
    fix k v assume "(k, v) \<in> set (members ord kvs)"
    then have "map_of (rev kvs) k = Some v" by (rule member_lookup)
    from TranslationMetadata_accepts [OF d this]
    show "accepting (switch k (TranslationMetadata_cases ord v) (reject k))" .
  qed
  then obtain t where "range_loop (\<lambda>k v. switch k (TranslationMetadata_cases ord v) (reject k)) (members ord kvs) (TranslationMetadata_zero, False) = Inr t" ..
  then obtain strct' nameReceived where
    loop: "range_loop (\<lambda>k v. switch k (TranslationMetadata_cases ord v) (reject k)) (members ord kvs) (TranslationMetadata_zero, False) = Inr (strct', nameReceived)"
    by (cases t) auto
  from TranslationMetadata_loop_sound [OF loop] d
  have fin: "nameReceived"
    and d': "TranslationMetadata_decodes ord (map_of (rev kvs)) strct'"
    by (simp_all add: TranslationMetadata_decodes_def)
  from TranslationMetadata_decodes_unique [OF d' d] have "strct' = strct" .
  with loop fin show "TranslationMetadata_UnmarshalJSON ord (JObj kvs) = Inr strct"
    by (simp add: TranslationMetadata_UnmarshalJSON_def members_def)
qed

definition TranslationMetadata_results :: "scanner \<Rightarrow> order \<Rightarrow> TranslationMetadata \<Rightarrow> (string \<times> (error + json)) list" where
  "TranslationMetadata_results scn ord strct =
     [(''downloadUri'', json_Marshal_string (TranslationMetadata.DownloadUri strct)),
      (''fullDescription'', json_Marshal_ptr ''*sarif.MultiformatMessageString'' (MultiformatMessageString_MarshalJSON scn ord) (TranslationMetadata.FullDescription strct)),
      (''fullName'', json_Marshal_string (TranslationMetadata.FullName strct)),
      (''informationUri'', json_Marshal_string (TranslationMetadata.InformationUri strct)),
      (''name'', json_Marshal_string (TranslationMetadata.Name strct)),
      (''properties'', json_Marshal_bytes ''*sarif.PropertyBag'' (PropertyBag_MarshalJSON scn ord) (TranslationMetadata.Properties strct)),
      (''shortDescription'', json_Marshal_ptr ''*sarif.MultiformatMessageString'' (MultiformatMessageString_MarshalJSON scn ord) (TranslationMetadata.ShortDescription strct))]"

lemma TranslationMetadata_MarshalJSON_results:
  "TranslationMetadata_MarshalJSON scn ord strct = object (emit_all (TranslationMetadata_results scn ord strct))"
  by (simp add: TranslationMetadata_MarshalJSON_def TranslationMetadata_results_def emit_nilcheck)

lemma TranslationMetadata_keys_written:
  "TranslationMetadata_MarshalJSON scn ord strct = Inr j \<Longrightarrow> \<exists>kvs. j = JObj kvs \<and> map fst kvs = TranslationMetadata_keys"
  using keys_written [of "TranslationMetadata_results scn ord strct" j]
  by (simp add: TranslationMetadata_MarshalJSON_results TranslationMetadata_results_def TranslationMetadata_keys_def)

definition TranslationMetadata_encodable :: "scanner \<Rightarrow> order \<Rightarrow> TranslationMetadata \<Rightarrow> bool" where
  "TranslationMetadata_encodable scn ord strct \<longleftrightarrow>
     ptr_all (MultiformatMessageString_encodable scn ord) (TranslationMetadata.FullDescription strct) \<and>
     ptr_all (PropertyBag_encodable scn ord) (TranslationMetadata.Properties strct) \<and>
     ptr_all (MultiformatMessageString_encodable scn ord) (TranslationMetadata.ShortDescription strct)"

lemma TranslationMetadata_fails_unless: "fails_unless (TranslationMetadata_MarshalJSON scn ord) (TranslationMetadata_encodable scn ord)"
  unfolding fails_unless_def TranslationMetadata_MarshalJSON_results TranslationMetadata_results_def TranslationMetadata_encodable_def isl_object_emit_all
  by (auto simp add: always_simps
      fails_unlessD [OF fails_unless_string]
      fails_unlessD [OF fails_unless_ptr [OF MultiformatMessageString_fails_unless]]
      fails_unlessD [OF PropertyBag_field_fails_unless])

definition TranslationMetadata_valid :: "TranslationMetadata \<Rightarrow> bool" where
  "TranslationMetadata_valid strct \<longleftrightarrow>
     ptr_all MultiformatMessageString_valid (TranslationMetadata.FullDescription strct) \<and>
     ptr_all PropertyBag_valid (TranslationMetadata.Properties strct) \<and>
     ptr_all MultiformatMessageString_valid (TranslationMetadata.ShortDescription strct)"

lemma TranslationMetadata_keys_distinct: "distinct TranslationMetadata_keys"
  by (simp add: TranslationMetadata_keys_def)

lemma TranslationMetadata_round_trips:
  "round_trips_object (TranslationMetadata_MarshalJSON scn ord) (TranslationMetadata_UnmarshalJSON ord') TranslationMetadata_valid"
  unfolding round_trips_object_def
proof (intro allI impI)
  fix strct assume v: "TranslationMetadata_valid strct"
  note v' = v [unfolded TranslationMetadata_valid_def]
  let ?rs = "TranslationMetadata_results scn ord strct"
  let ?kvs = "map (\<lambda>e. (fst e, projr (snd e))) ?rs"
  have f0: "\<not> isl (json_Marshal_string (TranslationMetadata.DownloadUri strct)) \<and>
      json_Unmarshal_string (projr (json_Marshal_string (TranslationMetadata.DownloadUri strct))) = Inr (TranslationMetadata.DownloadUri strct)"
    by (rule round_tripsD [OF round_trips_string]) (use v' in simp)
  have f1: "\<not> isl (json_Marshal_ptr ''*sarif.MultiformatMessageString'' (MultiformatMessageString_MarshalJSON scn ord) (TranslationMetadata.FullDescription strct)) \<and>
      json_Unmarshal_ptr (MultiformatMessageString_UnmarshalJSON ord') (projr (json_Marshal_ptr ''*sarif.MultiformatMessageString'' (MultiformatMessageString_MarshalJSON scn ord) (TranslationMetadata.FullDescription strct))) = Inr (TranslationMetadata.FullDescription strct)"
    by (rule round_tripsD [OF round_trips_ptr [OF MultiformatMessageString_round_trips]]) (use v' in simp)
  have f2: "\<not> isl (json_Marshal_string (TranslationMetadata.FullName strct)) \<and>
      json_Unmarshal_string (projr (json_Marshal_string (TranslationMetadata.FullName strct))) = Inr (TranslationMetadata.FullName strct)"
    by (rule round_tripsD [OF round_trips_string]) (use v' in simp)
  have f3: "\<not> isl (json_Marshal_string (TranslationMetadata.InformationUri strct)) \<and>
      json_Unmarshal_string (projr (json_Marshal_string (TranslationMetadata.InformationUri strct))) = Inr (TranslationMetadata.InformationUri strct)"
    by (rule round_tripsD [OF round_trips_string]) (use v' in simp)
  have f4: "\<not> isl (json_Marshal_string (TranslationMetadata.Name strct)) \<and>
      json_Unmarshal_string (projr (json_Marshal_string (TranslationMetadata.Name strct))) = Inr (TranslationMetadata.Name strct)"
    by (rule round_tripsD [OF round_trips_string]) (use v' in simp)
  have f5: "\<not> isl (json_Marshal_bytes ''*sarif.PropertyBag'' (PropertyBag_MarshalJSON scn ord) (TranslationMetadata.Properties strct)) \<and>
      json_Unmarshal_ptr (PropertyBag_UnmarshalJSON ord') (projr (json_Marshal_bytes ''*sarif.PropertyBag'' (PropertyBag_MarshalJSON scn ord) (TranslationMetadata.Properties strct))) = Inr (TranslationMetadata.Properties strct)"
    by (rule round_tripsD [OF PropertyBag_field_round_trips]) (use v' in simp)
  have f6: "\<not> isl (json_Marshal_ptr ''*sarif.MultiformatMessageString'' (MultiformatMessageString_MarshalJSON scn ord) (TranslationMetadata.ShortDescription strct)) \<and>
      json_Unmarshal_ptr (MultiformatMessageString_UnmarshalJSON ord') (projr (json_Marshal_ptr ''*sarif.MultiformatMessageString'' (MultiformatMessageString_MarshalJSON scn ord) (TranslationMetadata.ShortDescription strct))) = Inr (TranslationMetadata.ShortDescription strct)"
    by (rule round_tripsD [OF round_trips_ptr [OF MultiformatMessageString_round_trips]]) (use v' in simp)
  note fs = f0 f1 f2 f3 f4 f5 f6
  have rs: "?rs =
     [(''downloadUri'', json_Marshal_string (TranslationMetadata.DownloadUri strct)),
      (''fullDescription'', json_Marshal_ptr ''*sarif.MultiformatMessageString'' (MultiformatMessageString_MarshalJSON scn ord) (TranslationMetadata.FullDescription strct)),
      (''fullName'', json_Marshal_string (TranslationMetadata.FullName strct)),
      (''informationUri'', json_Marshal_string (TranslationMetadata.InformationUri strct)),
      (''name'', json_Marshal_string (TranslationMetadata.Name strct)),
      (''properties'', json_Marshal_bytes ''*sarif.PropertyBag'' (PropertyBag_MarshalJSON scn ord) (TranslationMetadata.Properties strct)),
      (''shortDescription'', json_Marshal_ptr ''*sarif.MultiformatMessageString'' (MultiformatMessageString_MarshalJSON scn ord) (TranslationMetadata.ShortDescription strct))]"
    by (auto simp add: TranslationMetadata_results_def)
  have keys: "map fst ?rs = TranslationMetadata_keys"
    by (simp add: TranslationMetadata_results_def TranslationMetadata_keys_def)
  then have dist: "distinct (map fst ?rs)"
    by (simp only: TranslationMetadata_keys_distinct)
  have ok: "list_all (\<lambda>e. \<not> isl (snd e)) ?rs"
    unfolding rs by (simp only: list.pred_inject snd_conv fs simp_thms)
  then have enc: "TranslationMetadata_MarshalJSON scn ord strct = Inr (JObj ?kvs)"
    by (simp add: TranslationMetadata_MarshalJSON_results [of scn ord strct] object_emit_all_eq_Inr)
  have l0: "map_of (rev ?kvs) ''downloadUri'' = Some (projr (json_Marshal_string (TranslationMetadata.DownloadUri strct)))"
    by (rule written_lookup [OF dist]) (subst rs, intro list.set_intros)
  have l1: "map_of (rev ?kvs) ''fullDescription'' = Some (projr (json_Marshal_ptr ''*sarif.MultiformatMessageString'' (MultiformatMessageString_MarshalJSON scn ord) (TranslationMetadata.FullDescription strct)))"
    by (rule written_lookup [OF dist]) (subst rs, intro list.set_intros)
  have l2: "map_of (rev ?kvs) ''fullName'' = Some (projr (json_Marshal_string (TranslationMetadata.FullName strct)))"
    by (rule written_lookup [OF dist]) (subst rs, intro list.set_intros)
  have l3: "map_of (rev ?kvs) ''informationUri'' = Some (projr (json_Marshal_string (TranslationMetadata.InformationUri strct)))"
    by (rule written_lookup [OF dist]) (subst rs, intro list.set_intros)
  have l4: "map_of (rev ?kvs) ''name'' = Some (projr (json_Marshal_string (TranslationMetadata.Name strct)))"
    by (rule written_lookup [OF dist]) (subst rs, intro list.set_intros)
  have l5: "map_of (rev ?kvs) ''properties'' = Some (projr (json_Marshal_bytes ''*sarif.PropertyBag'' (PropertyBag_MarshalJSON scn ord) (TranslationMetadata.Properties strct)))"
    by (rule written_lookup [OF dist]) (subst rs, intro list.set_intros)
  have l6: "map_of (rev ?kvs) ''shortDescription'' = Some (projr (json_Marshal_ptr ''*sarif.MultiformatMessageString'' (MultiformatMessageString_MarshalJSON scn ord) (TranslationMetadata.ShortDescription strct)))"
    by (rule written_lookup [OF dist]) (subst rs, intro list.set_intros)
  have dec: "TranslationMetadata_decodes ord' (map_of (rev ?kvs)) strct"
    unfolding TranslationMetadata_decodes_def l0 l1 l2 l3 l4 l5 l6
    by (simp only: field_ok_Some fs written_dom keys subset_refl option.simps simp_thms)
  then have "TranslationMetadata_UnmarshalJSON ord' (JObj ?kvs) = Inr strct"
    by (simp only: TranslationMetadata_decode_iff)
  with enc show "rt_object (TranslationMetadata_MarshalJSON scn ord) (TranslationMetadata_UnmarshalJSON ord') strct"
    unfolding rt_object_def by blast
qed

definition TranslationMetadata_small_bags :: "TranslationMetadata \<Rightarrow> bool" where
  "TranslationMetadata_small_bags strct \<longleftrightarrow>
     ptr_all MultiformatMessageString_small_bags (TranslationMetadata.FullDescription strct) \<and>
     ptr_all PropertyBag_small_bags (TranslationMetadata.Properties strct) \<and>
     ptr_all MultiformatMessageString_small_bags (TranslationMetadata.ShortDescription strct)"

lemma TranslationMetadata_same_output:
  "same_output (TranslationMetadata_MarshalJSON scn ord) (TranslationMetadata_MarshalJSON scn ord') TranslationMetadata_small_bags"
  unfolding same_output_def
proof (intro allI impI)
  fix strct assume v: "TranslationMetadata_small_bags strct"
  note v' = v [unfolded TranslationMetadata_small_bags_def]
  have e1: "json_Marshal_ptr ''*sarif.MultiformatMessageString'' (MultiformatMessageString_MarshalJSON scn ord) (TranslationMetadata.FullDescription strct) =
      json_Marshal_ptr ''*sarif.MultiformatMessageString'' (MultiformatMessageString_MarshalJSON scn ord') (TranslationMetadata.FullDescription strct)"
    by (rule same_outputD [OF same_output_ptr [OF MultiformatMessageString_same_output]]) (use v' in simp)
  have e5: "json_Marshal_bytes ''*sarif.PropertyBag'' (PropertyBag_MarshalJSON scn ord) (TranslationMetadata.Properties strct) =
      json_Marshal_bytes ''*sarif.PropertyBag'' (PropertyBag_MarshalJSON scn ord') (TranslationMetadata.Properties strct)"
    by (rule same_outputD [OF PropertyBag_field_same_output]) (use v' in simp)
  have e6: "json_Marshal_ptr ''*sarif.MultiformatMessageString'' (MultiformatMessageString_MarshalJSON scn ord) (TranslationMetadata.ShortDescription strct) =
      json_Marshal_ptr ''*sarif.MultiformatMessageString'' (MultiformatMessageString_MarshalJSON scn ord') (TranslationMetadata.ShortDescription strct)"
    by (rule same_outputD [OF same_output_ptr [OF MultiformatMessageString_same_output]]) (use v' in simp)
  show "TranslationMetadata_MarshalJSON scn ord strct = TranslationMetadata_MarshalJSON scn ord' strct"
    by (simp only: TranslationMetadata_MarshalJSON_def e1 e5 e6)
qed

lemma TranslationMetadata_writes_keys: "writes_keys (TranslationMetadata_MarshalJSON scn ord) TranslationMetadata_keys"
  unfolding writes_keys_def by (intro allI impI) (erule TranslationMetadata_keys_written)

lemma TranslationMetadata_unknown_key:
  assumes new: "k \<notin> set TranslationMetadata_keys" and key: "k \<in> fst ` set kvs"
    and rest: "TranslationMetadata_UnmarshalJSON ord (JObj (filter (\<lambda>e. fst e \<noteq> k) kvs)) = Inr strct"
  shows "TranslationMetadata_UnmarshalJSON ord (JObj kvs) = Inl (not_allowed k)"
proof -
  have rej: "switch k (TranslationMetadata_cases ord v) (reject k) s = Inl (not_allowed k)" for v s
    by (rule switch_rejects) (simp only: TranslationMetadata_cases_keys new not_False_eq_True)
  from rest obtain t where
    "range_loop (\<lambda>k v. switch k (TranslationMetadata_cases ord v) (reject k)) (members ord (filter (\<lambda>e. fst e \<noteq> k) kvs)) (TranslationMetadata_zero, False) = Inr t"
    by (cases "range_loop (\<lambda>k v. switch k (TranslationMetadata_cases ord v) (reject k)) (members ord (filter (\<lambda>e. fst e \<noteq> k) kvs)) (TranslationMetadata_zero, False)")
       (simp_all add: TranslationMetadata_UnmarshalJSON_def members_def)
  from unknown_key_named [OF TranslationMetadata_regular rej key this]
  show ?thesis by (simp add: TranslationMetadata_UnmarshalJSON_def members_def)
qed

lemma TranslationMetadata_unknown_key_fails:
  assumes "k \<notin> set TranslationMetadata_keys" and "k \<in> fst ` set kvs"
  shows "isl (TranslationMetadata_UnmarshalJSON ord (JObj kvs))"
proof (cases "TranslationMetadata_UnmarshalJSON ord (JObj kvs)")
  case (Inr strct)
  then have "dom (map_of (rev kvs)) \<subseteq> set TranslationMetadata_keys"
    by (simp only: TranslationMetadata_decode_iff TranslationMetadata_decodesD(1))
  with assms show ?thesis by (auto simp: dom_map_of_conv_image_fst)
qed simp

lemma TranslationMetadata_required_present:
  assumes "TranslationMetadata_UnmarshalJSON ord (JObj kvs) = Inr strct"
  shows "''name'' \<in> fst ` set kvs"
proof -
  from assms have d: "TranslationMetadata_decodes ord (map_of (rev kvs)) strct" by (simp only: TranslationMetadata_decode_iff)
  show "''name'' \<in> fst ` set kvs"
    using TranslationMetadata_decodesD(9) [OF d]
    by (simp_all only: present_key)
qed

lemma TranslationMetadata_without_Name:
  assumes "TranslationMetadata_UnmarshalJSON ord (JObj kvs) = Inr strct"
  shows "TranslationMetadata_UnmarshalJSON ord (JObj (filter (\<lambda>e. fst e \<noteq> ''name'') kvs)) =
    Inl (RequiredNotPresent ''name'')"
proof -
  from assms have d: "TranslationMetadata_decodes ord (map_of (rev kvs)) strct" by (simp only: TranslationMetadata_decode_iff)
  have "\<exists>t. range_loop (\<lambda>k v. switch k (TranslationMetadata_cases ord v) (reject k)) (members ord (filter (\<lambda>e. fst e \<noteq> ''name'') kvs))
      (TranslationMetadata_zero, False) = Inr t"
  proof (rule loop_succeeds [OF TranslationMetadata_regular])
    fix k v assume "(k, v) \<in> set (members ord (filter (\<lambda>e. fst e \<noteq> ''name'') kvs))"
    then have "map_of (rev kvs) k = Some v" by (rule member_lookup_filter)
    from TranslationMetadata_accepts [OF d this]
    show "accepting (switch k (TranslationMetadata_cases ord v) (reject k))" .
  qed
  then obtain t where "range_loop (\<lambda>k v. switch k (TranslationMetadata_cases ord v) (reject k)) (members ord (filter (\<lambda>e. fst e \<noteq> ''name'') kvs))
      (TranslationMetadata_zero, False) = Inr t" ..
  then obtain strct' nameReceived where
    loop: "range_loop (\<lambda>k v. switch k (TranslationMetadata_cases ord v) (reject k)) (members ord (filter (\<lambda>e. fst e \<noteq> ''name'') kvs))
      (TranslationMetadata_zero, False) = Inr (strct', nameReceived)"
    by (cases t) auto
  from TranslationMetadata_loop_sound [OF loop] TranslationMetadata_decodesD(9) [OF d]
  have "\<not> nameReceived"
    by (simp_all add: lookup_filter)
  with loop show ?thesis
    by (simp add: TranslationMetadata_UnmarshalJSON_def members_def)
qed


lemma TranslationMetadata_rejects_unknown_keys: "rejects_unknown_keys (TranslationMetadata_UnmarshalJSON ord) TranslationMetadata_keys"
  by (rule rejects_unknown_keysI) (erule (1) TranslationMetadata_unknown_key_fails, erule (2) TranslationMetadata_unknown_key)

lemma TranslationMetadata_requires_Name: "requires_key (TranslationMetadata_UnmarshalJSON ord) ''name''"
  by (rule requires_keyI) (erule TranslationMetadata_required_present(1), erule TranslationMetadata_without_Name)


subsection \<open>ReportingDescriptorRelationship: decoding and encoding\<close>

definition ReportingDescriptorRelationship_keys :: "string list" where
  "ReportingDescriptorRelationship_keys = [''description'', ''kinds'', ''properties'', ''target'']"

definition ReportingDescriptorRelationship_decodes :: "order \<Rightarrow> (string \<rightharpoonup> json) \<Rightarrow> ReportingDescriptorRelationship \<Rightarrow> bool" where
  "ReportingDescriptorRelationship_decodes ord m strct \<longleftrightarrow>
     dom m \<subseteq> set ReportingDescriptorRelationship_keys \<and>
     field_ok (json_Unmarshal_ptr (Message_UnmarshalJSON ord)) (m ''description'') None (ReportingDescriptorRelationship.Description strct) \<and>
     field_ok (json_Unmarshal_slice json_Unmarshal_string) (m ''kinds'') None (ReportingDescriptorRelationship.Kinds strct) \<and>
     field_ok (json_Unmarshal_ptr (PropertyBag_UnmarshalJSON ord)) (m ''properties'') None (ReportingDescriptorRelationship.Properties strct) \<and>
     field_ok (json_Unmarshal_ptr (ReportingDescriptorReference_UnmarshalJSON ord)) (m ''target'') None (ReportingDescriptorRelationship.Target strct) \<and>
     m ''target'' \<noteq> None"

lemma ReportingDescriptorRelationship_cases_keys: "fst ` set (ReportingDescriptorRelationship_cases ord v) = set ReportingDescriptorRelationship_keys"
  by (rule keys_image) (simp add: ReportingDescriptorRelationship_cases_def ReportingDescriptorRelationship_keys_def)

lemma ReportingDescriptorRelationship_regular: "regular (\<lambda>k v. switch k (ReportingDescriptorRelationship_cases ord v) (reject k))"
  by (rule regular_switch) (simp add: ReportingDescriptorRelationship_cases_def)

lemma ReportingDescriptorRelationship_fields:
  "field_case (ReportingDescriptorRelationship_cases ord) (\<lambda>(strct, targetReceived). ReportingDescriptorRelationship.Description strct) ''description'' (json_Unmarshal_ptr (Message_UnmarshalJSON ord))"
  "field_case (ReportingDescriptorRelationship_cases ord) (\<lambda>(strct, targetReceived). ReportingDescriptorRelationship.Kinds strct) ''kinds'' (json_Unmarshal_slice json_Unmarshal_string)"
  "field_case (ReportingDescriptorRelationship_cases ord) (\<lambda>(strct, targetReceived). ReportingDescriptorRelationship.Properties strct) ''properties'' (json_Unmarshal_ptr (PropertyBag_UnmarshalJSON ord))"
  "field_case (ReportingDescriptorRelationship_cases ord) (\<lambda>(strct, targetReceived). ReportingDescriptorRelationship.Target strct) ''target'' (json_Unmarshal_ptr (ReportingDescriptorReference_UnmarshalJSON ord))"
  "field_case (ReportingDescriptorRelationship_cases ord) (\<lambda>(strct, targetReceived). targetReceived) ''target'' (received (json_Unmarshal_ptr (ReportingDescriptorReference_UnmarshalJSON ord)))"
  unfolding field_case_def ReportingDescriptorRelationship_cases_def
  by (simp_all add: writes_into writes_received keeps_into split_def)

lemma ReportingDescriptorRelationship_loop_sound:
  assumes loop: "range_loop (\<lambda>k v. switch k (ReportingDescriptorRelationship_cases ord v) (reject k)) (members ord kvs) (ReportingDescriptorRelationship_zero, False) = Inr (strct, targetReceived)"
  shows "dom (map_of (rev kvs)) \<subseteq> set ReportingDescriptorRelationship_keys \<and>
     field_ok (json_Unmarshal_ptr (Message_UnmarshalJSON ord)) (map_of (rev kvs) ''description'') None (ReportingDescriptorRelationship.Description strct) \<and>
     field_ok (json_Unmarshal_slice json_Unmarshal_string) (map_of (rev kvs) ''kinds'') None (ReportingDescriptorRelationship.Kinds strct) \<and>
     field_ok (json_Unmarshal_ptr (PropertyBag_UnmarshalJSON ord)) (map_of (rev kvs) ''properties'') None (ReportingDescriptorRelationship.Properties strct) \<and>
     field_ok (json_Unmarshal_ptr (ReportingDescriptorReference_UnmarshalJSON ord)) (map_of (rev kvs) ''target'') None (ReportingDescriptorRelationship.Target strct) \<and>
     (targetReceived \<longleftrightarrow> map_of (rev kvs) ''target'' \<noteq> None)"
proof -
  have "fst ` set (members ord kvs) \<subseteq> set ReportingDescriptorRelationship_keys"
    by (rule loop_keys_known [OF loop]) (rule ReportingDescriptorRelationship_cases_keys)
  then have keys: "dom (map_of (rev kvs)) \<subseteq> set ReportingDescriptorRelationship_keys"
    by (simp add: dom_members [of kvs ord])
  note fld = field_after_loop [OF _ members_distinct loop, unfolded map_of_members]
  note flg = flag_after_loop [OF _ members_distinct loop, unfolded map_of_members]
  show ?thesis
    using keys fld [OF ReportingDescriptorRelationship_fields(1)] fld [OF ReportingDescriptorRelationship_fields(2)] fld [OF ReportingDescriptorRelationship_fields(3)] fld [OF ReportingDescriptorRelationship_fields(4)] flg [OF ReportingDescriptorRelationship_fields(5)]
    by (simp only: prod.case ReportingDescriptorRelationship_zero_def ReportingDescriptorRelationship.select_convs simp_thms)
qed

lemma ReportingDescriptorRelationship_decodesD:
  assumes "ReportingDescriptorRelationship_decodes ord m strct"
  shows "dom m \<subseteq> set ReportingDescriptorRelationship_keys"
    and "field_ok (json_Unmarshal_ptr (Message_UnmarshalJSON ord)) (m ''description'') None (ReportingDescriptorRelationship.Description strct)"
    and "field_ok (json_Unmarshal_slice json_Unmarshal_string) (m ''kinds'') None (ReportingDescriptorRelationship.Kinds strct)"
    and "field_ok (json_Unmarshal_ptr (PropertyBag_UnmarshalJSON ord)) (m ''properties'') None (ReportingDescriptorRelationship.Properties strct)"
    and "field_ok (json_Unmarshal_ptr (ReportingDescriptorReference_UnmarshalJSON ord)) (m ''target'') None (ReportingDescriptorRelationship.Target strct)"
    and "m ''target'' \<noteq> None"
  using assms unfolding ReportingDescriptorRelationship_decodes_def by - (elim conjE, assumption)+

lemma ReportingDescriptorRelationship_decodes_unique:
  assumes "ReportingDescriptorRelationship_decodes ord m a" and "ReportingDescriptorRelationship_decodes ord m b"
  shows "a = b"
  apply (rule ReportingDescriptorRelationship.equality)
  apply (rule field_ok_unique [OF ReportingDescriptorRelationship_decodesD(2) [OF assms(1)] ReportingDescriptorRelationship_decodesD(2) [OF assms(2)]])
  apply (rule field_ok_unique [OF ReportingDescriptorRelationship_decodesD(3) [OF assms(1)] ReportingDescriptorRelationship_decodesD(3) [OF assms(2)]])
  apply (rule field_ok_unique [OF ReportingDescriptorRelationship_decodesD(4) [OF assms(1)] ReportingDescriptorRelationship_decodesD(4) [OF assms(2)]])
  apply (rule field_ok_unique [OF ReportingDescriptorRelationship_decodesD(5) [OF assms(1)] ReportingDescriptorRelationship_decodesD(5) [OF assms(2)]])
  apply simp
  done

lemma ReportingDescriptorRelationship_accepts:
  assumes "ReportingDescriptorRelationship_decodes ord m strct" and "m k = Some v"
  shows "accepting (switch k (ReportingDescriptorRelationship_cases ord v) (reject k))"
proof -
  from assms have "k \<in> set ReportingDescriptorRelationship_keys" by (auto simp: ReportingDescriptorRelationship_decodes_def)
  then have key: "k \<in> fst ` set (ReportingDescriptorRelationship_cases ord v)"
    by (simp only: ReportingDescriptorRelationship_cases_keys)
  have rows: "list_all (\<lambda>(c, h). m c = Some v \<longrightarrow> accepting h) (ReportingDescriptorRelationship_cases ord v)"
    unfolding ReportingDescriptorRelationship_cases_def list.pred_inject
    apply (rule conjI [OF accept_row [where m = m and v = v, OF ReportingDescriptorRelationship_decodesD(2) [OF assms(1)]]])
    apply (rule conjI [OF accept_row [where m = m and v = v, OF ReportingDescriptorRelationship_decodesD(3) [OF assms(1)]]])
    apply (rule conjI [OF accept_row [where m = m and v = v, OF ReportingDescriptorRelationship_decodesD(4) [OF assms(1)]]])
    apply (rule conjI [OF accept_row [where m = m and v = v, OF ReportingDescriptorRelationship_decodesD(5) [OF assms(1)]]])
    apply simp
    done
  show ?thesis by (rule rows_accept [OF rows assms(2) key])
qed

lemma ReportingDescriptorRelationship_decode_iff:
  "ReportingDescriptorRelationship_UnmarshalJSON ord (JObj kvs) = Inr strct \<longleftrightarrow>
   ReportingDescriptorRelationship_decodes ord (map_of (rev kvs)) strct"
proof
  assume "ReportingDescriptorRelationship_UnmarshalJSON ord (JObj kvs) = Inr strct"
  then obtain targetReceived where
    loop: "range_loop (\<lambda>k v. switch k (ReportingDescriptorRelationship_cases ord v) (reject k)) (members ord kvs) (ReportingDescriptorRelationship_zero, False) = Inr (strct, targetReceived)"
    and fin: "targetReceived"
    by (auto simp: ReportingDescriptorRelationship_UnmarshalJSON_def members_def split: sum.splits if_splits)
  from ReportingDescriptorRelationship_loop_sound [OF loop] fin
  show "ReportingDescriptorRelationship_decodes ord (map_of (rev kvs)) strct"
    by (simp add: ReportingDescriptorRelationship_decodes_def)
next
  assume d: "ReportingDescriptorRelationship_decodes ord (map_of (rev kvs)) strct"
  have "\<exists>t. range_loop (\<lambda>k v. switch k (ReportingDescriptorRelationship_cases ord v) (reject k)) (members ord kvs) (ReportingDescriptorRelationship_zero, False) = Inr t"
  proof (rule loop_succeeds [OF ReportingDescriptorRelationship_regular])
    fix k v assume "(k, v) \<in> set (members ord kvs)"
    then have "map_of (rev kvs) k = Some v" by (rule member_lookup)
    from ReportingDescriptorRelationship_accepts [OF d this]
    show "accepting (switch k (ReportingDescriptorRelationship_cases ord v) (reject k))" .
  qed
  then obtain t where "range_loop (\<lambda>k v. switch k (ReportingDescriptorRelationship_cases ord v) (reject k)) (members ord kvs) (ReportingDescriptorRelationship_zero, False) = Inr t" ..
  then obtain strct' targetReceived where
    loop: "range_loop (\<lambda>k v. switch k (ReportingDescriptorRelationship_cases ord v) (reject k)) (members ord kvs) (ReportingDescriptorRelationship_zero, False) = Inr (strct', targetReceived)"
    by (cases t) auto
  from ReportingDescriptorRelationship_loop_sound [OF loop] d
  have fin: "targetReceived"
    and d': "ReportingDescriptorRelationship_decodes ord (map_of (rev kvs)) strct'"
    by (simp_all add: ReportingDescriptorRelationship_decodes_def)
  from ReportingDescriptorRelationship_decodes_unique [OF d' d] have "strct' = strct" .
  with loop fin show "ReportingDescriptorRelationship_UnmarshalJSON ord (JObj kvs) = Inr strct"
    by (simp add: ReportingDescriptorRelationship_UnmarshalJSON_def members_def)
qed

definition ReportingDescriptorRelationship_results :: "scanner \<Rightarrow> order \<Rightarrow> ReportingDescriptorRelationship \<Rightarrow> (string \<times> (error + json)) list" where
  "ReportingDescriptorRelationship_results scn ord strct =
     [(''description'', json_Marshal_ptr ''*sarif.Message'' (Message_MarshalJSON scn ord) (ReportingDescriptorRelationship.Description strct)),
      (''kinds'', json_Marshal_slice json_Marshal_string (ReportingDescriptorRelationship.Kinds strct)),
      (''properties'', json_Marshal_bytes ''*sarif.PropertyBag'' (PropertyBag_MarshalJSON scn ord) (ReportingDescriptorRelationship.Properties strct)),
      (''target'', if ReportingDescriptorRelationship.Target strct = None then Inl (RequiredField ''target'') else json_Marshal_ptr ''*sarif.ReportingDescriptorReference'' (ReportingDescriptorReference_MarshalJSON scn ord) (ReportingDescriptorRelationship.Target strct))]"

lemma ReportingDescriptorRelationship_MarshalJSON_results:
  "ReportingDescriptorRelationship_MarshalJSON scn ord strct = object (emit_all (ReportingDescriptorRelationship_results scn ord strct))"
  by (simp add: ReportingDescriptorRelationship_MarshalJSON_def ReportingDescriptorRelationship_results_def emit_nilcheck)

lemma ReportingDescriptorRelationship_keys_written:
  "ReportingDescriptorRelationship_MarshalJSON scn ord strct = Inr j \<Longrightarrow> \<exists>kvs. j = JObj kvs \<and> map fst kvs = ReportingDescriptorRelationship_keys"
  using keys_written [of "ReportingDescriptorRelationship_results scn ord strct" j]
  by (simp add: ReportingDescriptorRelationship_MarshalJSON_results ReportingDescriptorRelationship_results_def ReportingDescriptorRelationship_keys_def)

definition ReportingDescriptorRelationship_encodable :: "scanner \<Rightarrow> order \<Rightarrow> ReportingDescriptorRelationship \<Rightarrow> bool" where
  "ReportingDescriptorRelationship_encodable scn ord strct \<longleftrightarrow>
     ptr_all (Message_encodable scn ord) (ReportingDescriptorRelationship.Description strct) \<and>
     ptr_all (PropertyBag_encodable scn ord) (ReportingDescriptorRelationship.Properties strct) \<and>
     ReportingDescriptorRelationship.Target strct \<noteq> None \<and>
     ptr_all (ReportingDescriptorReference_encodable scn ord) (ReportingDescriptorRelationship.Target strct)"

lemma ReportingDescriptorRelationship_fails_unless: "fails_unless (ReportingDescriptorRelationship_MarshalJSON scn ord) (ReportingDescriptorRelationship_encodable scn ord)"
  unfolding fails_unless_def ReportingDescriptorRelationship_MarshalJSON_results ReportingDescriptorRelationship_results_def ReportingDescriptorRelationship_encodable_def isl_object_emit_all
  by (auto simp add: always_simps
      fails_unlessD [OF fails_unless_ptr [OF Message_fails_unless]]
      fails_unlessD [OF fails_unless_slice [OF fails_unless_string]]
      fails_unlessD [OF PropertyBag_field_fails_unless]
      fails_unlessD [OF fails_unless_ptr [OF ReportingDescriptorReference_fails_unless]])

definition ReportingDescriptorRelationship_valid :: "ReportingDescriptorRelationship \<Rightarrow> bool" where
  "ReportingDescriptorRelationship_valid strct \<longleftrightarrow>
     ptr_all Message_valid (ReportingDescriptorRelationship.Description strct) \<and>
     ptr_all PropertyBag_valid (ReportingDescriptorRelationship.Properties strct) \<and>
     ReportingDescriptorRelationship.Target strct \<noteq> None \<and>
     ptr_all ReportingDescriptorReference_valid (ReportingDescriptorRelationship.Target strct)"

lemma ReportingDescriptorRelationship_keys_distinct: "distinct ReportingDescriptorRelationship_keys"
  by (simp add: ReportingDescriptorRelationship_keys_def)

lemma ReportingDescriptorRelationship_round_trips:
  "round_trips_object (ReportingDescriptorRelationship_MarshalJSON scn ord) (ReportingDescriptorRelationship_UnmarshalJSON ord') ReportingDescriptorRelationship_valid"
  unfolding round_trips_object_def
proof (intro allI impI)
  fix strct assume v: "ReportingDescriptorRelationship_valid strct"
  note v' = v [unfolded ReportingDescriptorRelationship_valid_def]
  let ?rs = "ReportingDescriptorRelationship_results scn ord strct"
  let ?kvs = "map (\<lambda>e. (fst e, projr (snd e))) ?rs"
  have f0: "\<not> isl (json_Marshal_ptr ''*sarif.Message'' (Message_MarshalJSON scn ord) (ReportingDescriptorRelationship.Description strct)) \<and>
      json_Unmarshal_ptr (Message_UnmarshalJSON ord') (projr (json_Marshal_ptr ''*sarif.Message'' (Message_MarshalJSON scn ord) (ReportingDescriptorRelationship.Description strct))) = Inr (ReportingDescriptorRelationship.Description strct)"
    by (rule round_tripsD [OF round_trips_ptr [OF Message_round_trips]]) (use v' in simp)
  have f1: "\<not> isl (json_Marshal_slice json_Marshal_string (ReportingDescriptorRelationship.Kinds strct)) \<and>
      json_Unmarshal_slice json_Unmarshal_string (projr (json_Marshal_slice json_Marshal_string (ReportingDescriptorRelationship.Kinds strct))) = Inr (ReportingDescriptorRelationship.Kinds strct)"
    by (rule round_tripsD [OF round_trips_slice [OF round_trips_string]]) (use v' in simp)
  have f2: "\<not> isl (json_Marshal_bytes ''*sarif.PropertyBag'' (PropertyBag_MarshalJSON scn ord) (ReportingDescriptorRelationship.Properties strct)) \<and>
      json_Unmarshal_ptr (PropertyBag_UnmarshalJSON ord') (projr (json_Marshal_bytes ''*sarif.PropertyBag'' (PropertyBag_MarshalJSON scn ord) (ReportingDescriptorRelationship.Properties strct))) = Inr (ReportingDescriptorRelationship.Properties strct)"
    by (rule round_tripsD [OF PropertyBag_field_round_trips]) (use v' in simp)
  have f3: "\<not> isl (json_Marshal_ptr ''*sarif.ReportingDescriptorReference'' (ReportingDescriptorReference_MarshalJSON scn ord) (ReportingDescriptorRelationship.Target strct)) \<and>
      json_Unmarshal_ptr (ReportingDescriptorReference_UnmarshalJSON ord') (projr (json_Marshal_ptr ''*sarif.ReportingDescriptorReference'' (ReportingDescriptorReference_MarshalJSON scn ord) (ReportingDescriptorRelationship.Target strct))) = Inr (ReportingDescriptorRelationship.Target strct)"
    by (rule round_tripsD [OF round_trips_ptr [OF ReportingDescriptorReference_round_trips]]) (use v' in simp)
  note fs = f0 f1 f2 f3
  have nn: "ReportingDescriptorRelationship.Target strct \<noteq> None"
    using v' by simp_all
  have rs: "?rs =
     [(''description'', json_Marshal_ptr ''*sarif.Message'' (Message_MarshalJSON scn ord) (ReportingDescriptorRelationship.Description strct)),
      (''kinds'', json_Marshal_slice json_Marshal_string (ReportingDescriptorRelationship.Kinds strct)),
      (''properties'', json_Marshal_bytes ''*sarif.PropertyBag'' (PropertyBag_MarshalJSON scn ord) (ReportingDescriptorRelationship.Properties strct)),
      (''target'', json_Marshal_ptr ''*sarif.ReportingDescriptorReference'' (ReportingDescriptorReference_MarshalJSON scn ord) (ReportingDescriptorRelationship.Target strct))]"
    using nn by (auto simp add: ReportingDescriptorRelationship_results_def)
  have keys: "map fst ?rs = ReportingDescriptorRelationship_keys"
    by (simp add: ReportingDescriptorRelationship_results_def ReportingDescriptorRelationship_keys_def)
  then have dist: "distinct (map fst ?rs)"
    by (simp only: ReportingDescriptorRelationship_keys_distinct)
  have ok: "list_all (\<lambda>e. \<not> isl (snd e)) ?rs"
    unfolding rs by (simp only: list.pred_inject snd_conv fs simp_thms)
  then have enc: "ReportingDescriptorRelationship_MarshalJSON scn ord strct = Inr (JObj ?kvs)"
    by (simp add: ReportingDescriptorRelationship_MarshalJSON_results [of scn ord strct] object_emit_all_eq_Inr)
  have l0: "map_of (rev ?kvs) ''description'' = Some (projr (json_Marshal_ptr ''*sarif.Message'' (Message_MarshalJSON scn ord) (ReportingDescriptorRelationship.Description strct)))"
    by (rule written_lookup [OF dist]) (subst rs, intro list.set_intros)
  have l1: "map_of (rev ?kvs) ''kinds'' = Some (projr (json_Marshal_slice json_Marshal_string (ReportingDescriptorRelationship.Kinds strct)))"
    by (rule written_lookup [OF dist]) (subst rs, intro list.set_intros)
  have l2: "map_of (rev ?kvs) ''properties'' = Some (projr (json_Marshal_bytes ''*sarif.PropertyBag'' (PropertyBag_MarshalJSON scn ord) (ReportingDescriptorRelationship.Properties strct)))"
    by (rule written_lookup [OF dist]) (subst rs, intro list.set_intros)
  have l3: "map_of (rev ?kvs) ''target'' = Some (projr (json_Marshal_ptr ''*sarif.ReportingDescriptorReference'' (ReportingDescriptorReference_MarshalJSON scn ord) (ReportingDescriptorRelationship.Target strct)))"
    by (rule written_lookup [OF dist]) (subst rs, intro list.set_intros)
  have dec: "ReportingDescriptorRelationship_decodes ord' (map_of (rev ?kvs)) strct"
    unfolding ReportingDescriptorRelationship_decodes_def l0 l1 l2 l3
    by (simp only: field_ok_Some fs written_dom keys subset_refl option.simps simp_thms)
  then have "ReportingDescriptorRelationship_UnmarshalJSON ord' (JObj ?kvs) = Inr strct"
    by (simp only: ReportingDescriptorRelationship_decode_iff)
  with enc show "rt_object (ReportingDescriptorRelationship_MarshalJSON scn ord) (ReportingDescriptorRelationship_UnmarshalJSON ord') strct"
    unfolding rt_object_def by blast
qed

definition ReportingDescriptorRelationship_small_bags :: "ReportingDescriptorRelationship \<Rightarrow> bool" where
  "ReportingDescriptorRelationship_small_bags strct \<longleftrightarrow>
     ptr_all Message_small_bags (ReportingDescriptorRelationship.Description strct) \<and>
     ptr_all PropertyBag_small_bags (ReportingDescriptorRelationship.Properties strct) \<and>
     ptr_all ReportingDescriptorReference_small_bags (ReportingDescriptorRelationship.Target strct)"

lemma ReportingDescriptorRelationship_same_output:
  "same_output (ReportingDescriptorRelationship_MarshalJSON scn ord) (ReportingDescriptorRelationship_MarshalJSON scn ord') ReportingDescriptorRelationship_small_bags"
  unfolding same_output_def
proof (intro allI impI)
  fix strct assume v: "ReportingDescriptorRelationship_small_bags strct"
  note v' = v [unfolded ReportingDescriptorRelationship_small_bags_def]
  have e0: "json_Marshal_ptr ''*sarif.Message'' (Message_MarshalJSON scn ord) (ReportingDescriptorRelationship.Description strct) =
      json_Marshal_ptr ''*sarif.Message'' (Message_MarshalJSON scn ord') (ReportingDescriptorRelationship.Description strct)"
    by (rule same_outputD [OF same_output_ptr [OF Message_same_output]]) (use v' in simp)
  have e2: "json_Marshal_bytes ''*sarif.PropertyBag'' (PropertyBag_MarshalJSON scn ord) (ReportingDescriptorRelationship.Properties strct) =
      json_Marshal_bytes ''*sarif.PropertyBag'' (PropertyBag_MarshalJSON scn ord') (ReportingDescriptorRelationship.Properties strct)"
    by (rule same_outputD [OF PropertyBag_field_same_output]) (use v' in simp)
  have e3: "json_Marshal_ptr ''*sarif.ReportingDescriptorReference'' (ReportingDescriptorReference_MarshalJSON scn ord) (ReportingDescriptorRelationship.Target strct) =
      json_Marshal_ptr ''*sarif.ReportingDescriptorReference'' (ReportingDescriptorReference_MarshalJSON scn ord') (ReportingDescriptorRelationship.Target strct)"
    by (rule same_outputD [OF same_output_ptr [OF ReportingDescriptorReference_same_output]]) (use v' in simp)
  show "ReportingDescriptorRelationship_MarshalJSON scn ord strct = ReportingDescriptorRelationship_MarshalJSON scn ord' strct"
    by (simp only: ReportingDescriptorRelationship_MarshalJSON_def e0 e2 e3)
qed

lemma ReportingDescriptorRelationship_writes_keys: "writes_keys (ReportingDescriptorRelationship_MarshalJSON scn ord) ReportingDescriptorRelationship_keys"
  unfolding writes_keys_def by (intro allI impI) (erule ReportingDescriptorRelationship_keys_written)

lemma ReportingDescriptorRelationship_unknown_key:
  assumes new: "k \<notin> set ReportingDescriptorRelationship_keys" and key: "k \<in> fst ` set kvs"
    and rest: "ReportingDescriptorRelationship_UnmarshalJSON ord (JObj (filter (\<lambda>e. fst e \<noteq> k) kvs)) = Inr strct"
  shows "ReportingDescriptorRelationship_UnmarshalJSON ord (JObj kvs) = Inl (not_allowed k)"
proof -
  have rej: "switch k (ReportingDescriptorRelationship_cases ord v) (reject k) s = Inl (not_allowed k)" for v s
    by (rule switch_rejects) (simp only: ReportingDescriptorRelationship_cases_keys new not_False_eq_True)
  from rest obtain t where
    "range_loop (\<lambda>k v. switch k (ReportingDescriptorRelationship_cases ord v) (reject k)) (members ord (filter (\<lambda>e. fst e \<noteq> k) kvs)) (ReportingDescriptorRelationship_zero, False) = Inr t"
    by (cases "range_loop (\<lambda>k v. switch k (ReportingDescriptorRelationship_cases ord v) (reject k)) (members ord (filter (\<lambda>e. fst e \<noteq> k) kvs)) (ReportingDescriptorRelationship_zero, False)")
       (simp_all add: ReportingDescriptorRelationship_UnmarshalJSON_def members_def)
  from unknown_key_named [OF ReportingDescriptorRelationship_regular rej key this]
  show ?thesis by (simp add: ReportingDescriptorRelationship_UnmarshalJSON_def members_def)
qed

lemma ReportingDescriptorRelationship_unknown_key_fails:
  assumes "k \<notin> set ReportingDescriptorRelationship_keys" and "k \<in> fst ` set kvs"
  shows "isl (ReportingDescriptorRelationship_UnmarshalJSON ord (JObj kvs))"
proof (cases "ReportingDescriptorRelationship_UnmarshalJSON ord (JObj kvs)")
  case (Inr strct)
  then have "dom (map_of (rev kvs)) \<subseteq> set ReportingDescriptorRelationship_keys"
    by (simp only: ReportingDescriptorRelationship_decode_iff ReportingDescriptorRelationship_decodesD(1))
  with assms show ?thesis by (auto simp: dom_map_of_conv_image_fst)
qed simp

lemma ReportingDescriptorRelationship_required_present:
  assumes "ReportingDescriptorRelationship_UnmarshalJSON ord (JObj kvs) = Inr strct"
  shows "''target'' \<in> fst ` set kvs"
proof -
  from assms have d: "ReportingDescriptorRelationship_decodes ord (map_of (rev kvs)) strct" by (simp only: ReportingDescriptorRelationship_decode_iff)
  show "''target'' \<in> fst ` set kvs"
    using ReportingDescriptorRelationship_decodesD(6) [OF d]
    by (simp_all only: present_key)
qed

lemma ReportingDescriptorRelationship_without_Target:
  assumes "ReportingDescriptorRelationship_UnmarshalJSON ord (JObj kvs) = Inr strct"
  shows "ReportingDescriptorRelationship_UnmarshalJSON ord (JObj (filter (\<lambda>e. fst e \<noteq> ''target'') kvs)) =
    Inl (RequiredNotPresent ''target'')"
proof -
  from assms have d: "ReportingDescriptorRelationship_decodes ord (map_of (rev kvs)) strct" by (simp only: ReportingDescriptorRelationship_decode_iff)
  have "\<exists>t. range_loop (\<lambda>k v. switch k (ReportingDescriptorRelationship_cases ord v) (reject k)) (members ord (filter (\<lambda>e. fst e \<noteq> ''target'') kvs))
      (ReportingDescriptorRelationship_zero, False) = Inr t"
  proof (rule loop_succeeds [OF ReportingDescriptorRelationship_regular])
    fix k v assume "(k, v) \<in> set (members ord (filter (\<lambda>e. fst e \<noteq> ''target'') kvs))"
    then have "map_of (rev kvs) k = Some v" by (rule member_lookup_filter)
    from ReportingDescriptorRelationship_accepts [OF d this]
    show "accepting (switch k (ReportingDescriptorRelationship_cases ord v) (reject k))" .
  qed
  then obtain t where "range_loop (\<lambda>k v. switch k (ReportingDescriptorRelationship_cases ord v) (reject k)) (members ord (filter (\<lambda>e. fst e \<noteq> ''target'') kvs))
      (ReportingDescriptorRelationship_zero, False) = Inr t" ..
  then obtain strct' targetReceived where
    loop: "range_loop (\<lambda>k v. switch k (ReportingDescriptorRelationship_cases ord v) (reject k)) (members ord (filter (\<lambda>e. fst e \<noteq> ''target'') kvs))
      (ReportingDescriptorRelationship_zero, False) = Inr (strct', targetReceived)"
    by (cases t) auto
  from ReportingDescriptorRelationship_loop_sound [OF loop] ReportingDescriptorRelationship_decodesD(6) [OF d]
  have "\<not> targetReceived"
    by (simp_all add: lookup_filter)
  with loop show ?thesis
    by (simp add: ReportingDescriptorRelationship_UnmarshalJSON_def members_def)
qed


lemma ReportingDescriptorRelationship_rejects_unknown_keys: "rejects_unknown_keys (ReportingDescriptorRelationship_UnmarshalJSON ord) ReportingDescriptorRelationship_keys"
  by (rule rejects_unknown_keysI) (erule (1) ReportingDescriptorRelationship_unknown_key_fails, erule (2) ReportingDescriptorRelationship_unknown_key)

lemma ReportingDescriptorRelationship_requires_Target: "requires_key (ReportingDescriptorRelationship_UnmarshalJSON ord) ''target''"
  by (rule requires_keyI) (erule ReportingDescriptorRelationship_required_present(1), erule ReportingDescriptorRelationship_without_Target)


subsection \<open>ReportingDescriptor: decoding and encoding\<close>

definition ReportingDescriptor_keys :: "string list" where
  "ReportingDescriptor_keys = [''defaultConfiguration'', ''deprecatedGuids'', ''deprecatedIds'', ''deprecatedNames'', ''fullDescription'', ''guid'', ''help'', ''helpUri'', ''id'', ''messageStrings'', ''name'', ''properties'', ''relationships'', ''shortDescription'']"

definition ReportingDescriptor_decodes :: "order \<Rightarrow> (string \<rightharpoonup> json) \<Rightarrow> ReportingDescriptor \<Rightarrow> bool" where
  "ReportingDescriptor_decodes ord m strct \<longleftrightarrow>
     dom m \<subseteq> set ReportingDescriptor_keys \<and>
     field_ok (json_Unmarshal_ptr (ReportingConfiguration_UnmarshalJSON ord)) (m ''defaultConfiguration'') None (ReportingDescriptor.DefaultConfiguration strct) \<and>
     field_ok (json_Unmarshal_slice json_Unmarshal_string) (m ''deprecatedGuids'') None (ReportingDescriptor.DeprecatedGuids strct) \<and>
     field_ok (json_Unmarshal_slice json_Unmarshal_string) (m ''deprecatedIds'') None (ReportingDescriptor.DeprecatedIds strct) \<and>
     field_ok (json_Unmarshal_slice json_Unmarshal_string) (m ''deprecatedNames'') None (ReportingDescriptor.DeprecatedNames strct) \<and>
     field_ok (json_Unmarshal_ptr (MultiformatMessageString_UnmarshalJSON ord)) (m ''fullDescription'') None (ReportingDescriptor.FullDescription strct) \<and>
     field_ok json_Unmarshal_string (m ''guid'') [] (ReportingDescriptor.Guid strct) \<and>
     field_ok (json_Unmarshal_ptr (MultiformatMessageString_UnmarshalJSON ord)) (m ''help'') None (ReportingDescriptor.Help strct) \<and>
     field_ok json_Unmarshal_string (m ''helpUri'') [] (ReportingDescriptor.HelpUri strct) \<and>
     field_ok json_Unmarshal_string (m ''id'') [] (ReportingDescriptor.Id strct) \<and>
     field_ok (json_Unmarshal_map (json_Unmarshal_ptr (MultiformatMessageString_UnmarshalJSON ord))) (m ''messageStrings'') None (ReportingDescriptor.MessageStrings strct) \<and>
     field_ok json_Unmarshal_string (m ''name'') [] (ReportingDescriptor.Name strct) \<and>
     field_ok (json_Unmarshal_ptr (PropertyBag_UnmarshalJSON ord)) (m ''properties'') None (ReportingDescriptor.Properties strct) \<and>
     field_ok (json_Unmarshal_slice (json_Unmarshal_ptr (ReportingDescriptorRelationship_UnmarshalJSON ord))) (m ''relationships'') None (ReportingDescriptor.Relationships strct) \<and>
     field_ok (json_Unmarshal_ptr (MultiformatMessageString_UnmarshalJSON ord)) (m ''shortDescription'') None (ReportingDescriptor.ShortDescription strct) \<and>
     m ''id'' \<noteq> None"

lemma ReportingDescriptor_cases_keys: "fst ` set (ReportingDescriptor_cases ord v) = set ReportingDescriptor_keys"
  by (rule keys_image) (simp add: ReportingDescriptor_cases_def ReportingDescriptor_keys_def)

lemma ReportingDescriptor_regular: "regular (\<lambda>k v. switch k (ReportingDescriptor_cases ord v) (reject k))"
  by (rule regular_switch) (simp add: ReportingDescriptor_cases_def)

lemma ReportingDescriptor_fields:
  "field_case (ReportingDescriptor_cases ord) (\<lambda>(strct, idReceived). ReportingDescriptor.DefaultConfiguration strct) ''defaultConfiguration'' (json_Unmarshal_ptr (ReportingConfiguration_UnmarshalJSON ord))"
  "field_case (ReportingDescriptor_cases ord) (\<lambda>(strct, idReceived). ReportingDescriptor.DeprecatedGuids strct) ''deprecatedGuids'' (json_Unmarshal_slice json_Unmarshal_string)"
  "field_case (ReportingDescriptor_cases ord) (\<lambda>(strct, idReceived). ReportingDescriptor.DeprecatedIds strct) ''deprecatedIds'' (json_Unmarshal_slice json_Unmarshal_string)"
  "field_case (ReportingDescriptor_cases ord) (\<lambda>(strct, idReceived). ReportingDescriptor.DeprecatedNames strct) ''deprecatedNames'' (json_Unmarshal_slice json_Unmarshal_string)"
  "field_case (ReportingDescriptor_cases ord) (\<lambda>(strct, idReceived). ReportingDescriptor.FullDescription strct) ''fullDescription'' (json_Unmarshal_ptr (MultiformatMessageString_UnmarshalJSON ord))"
  "field_case (ReportingDescriptor_cases ord) (\<lambda>(strct, idReceived). ReportingDescriptor.Guid strct) ''guid'' json_Unmarshal_string"
  "field_case (ReportingDescriptor_cases ord) (\<lambda>(strct, idReceived). ReportingDescriptor.Help strct) ''help'' (json_Unmarshal_ptr (MultiformatMessageString_UnmarshalJSON ord))"
  "field_case (ReportingDescriptor_cases ord) (\<lambda>(strct, idReceived). ReportingDescriptor.HelpUri strct) ''helpUri'' json_Unmarshal_string"
  "field_case (ReportingDescriptor_cases ord) (\<lambda>(strct, idReceived). ReportingDescriptor.Id strct) ''id'' json_Unmarshal_string"
  "field_case (ReportingDescriptor_cases ord) (\<lambda>(strct, idReceived). ReportingDescriptor.MessageStrings strct) ''messageStrings'' (json_Unmarshal_map (json_Unmarshal_ptr (MultiformatMessageString_UnmarshalJSON ord)))"
  "field_case (ReportingDescriptor_cases ord) (\<lambda>(strct, idReceived). ReportingDescriptor.Name strct) ''name'' json_Unmarshal_string"
  "field_case (ReportingDescriptor_cases ord) (\<lambda>(strct, idReceived). ReportingDescriptor.Properties strct) ''properties'' (json_Unmarshal_ptr (PropertyBag_UnmarshalJSON ord))"
  "field_case (ReportingDescriptor_cases ord) (\<lambda>(strct, idReceived). ReportingDescriptor.Relationships strct) ''relationships'' (json_Unmarshal_slice (json_Unmarshal_ptr (ReportingDescriptorRelationship_UnmarshalJSON ord)))"
  "field_case (ReportingDescriptor_cases ord) (\<lambda>(strct, idReceived). ReportingDescriptor.ShortDescription strct) ''shortDescription'' (json_Unmarshal_ptr (MultiformatMessageString_UnmarshalJSON ord))"
  "field_case (ReportingDescriptor_cases ord) (\<lambda>(strct, idReceived). idReceived) ''id'' (received json_Unmarshal_string)"
  unfolding field_case_def ReportingDescriptor_cases_def
  by (simp_all add: writes_into writes_received keeps_into split_def)

lemma ReportingDescriptor_loop_sound:
  assumes loop: "range_loop (\<lambda>k v. switch k (ReportingDescriptor_cases ord v) (reject k)) (members ord kvs) (ReportingDescriptor_zero, False) = Inr (strct, idReceived)"
  shows "dom (map_of (rev kvs)) \<subseteq> set ReportingDescriptor_keys \<and>
     field_ok (json_Unmarshal_ptr (ReportingConfiguration_UnmarshalJSON ord)) (map_of (rev kvs) ''defaultConfiguration'') None (ReportingDescriptor.DefaultConfiguration strct) \<and>
     field_ok (json_Unmarshal_slice json_Unmarshal_string) (map_of (rev kvs) ''deprecatedGuids'') None (ReportingDescriptor.DeprecatedGuids strct) \<and>
     field_ok (json_Unmarshal_slice json_Unmarshal_string) (map_of (rev kvs) ''deprecatedIds'') None (ReportingDescriptor.DeprecatedIds strct) \<and>
     field_ok (json_Unmarshal_slice json_Unmarshal_string) (map_of (rev kvs) ''deprecatedNames'') None (ReportingDescriptor.DeprecatedNames strct) \<and>
     field_ok (json_Unmarshal_ptr (MultiformatMessageString_UnmarshalJSON ord)) (map_of (rev kvs) ''fullDescription'') None (ReportingDescriptor.FullDescription strct) \<and>
     field_ok json_Unmarshal_string (map_of (rev kvs) ''guid'') [] (ReportingDescriptor.Guid strct) \<and>
     field_ok (json_Unmarshal_ptr (MultiformatMessageString_UnmarshalJSON ord)) (map_of (rev kvs) ''help'') None (ReportingDescriptor.Help strct) \<and>
     field_ok json_Unmarshal_string (map_of (rev kvs) ''helpUri'') [] (ReportingDescriptor.HelpUri strct) \<and>
     field_ok json_Unmarshal_string (map_of (rev kvs) ''id'') [] (ReportingDescriptor.Id strct) \<and>
     field_ok (json_Unmarshal_map (json_Unmarshal_ptr (MultiformatMessageString_UnmarshalJSON ord))) (map_of (rev kvs) ''messageStrings'') None (ReportingDescriptor.MessageStrings strct) \<and>
     field_ok json_Unmarshal_string (map_of (rev kvs) ''name'') [] (ReportingDescriptor.Name strct) \<and>
     field_ok (json_Unmarshal_ptr (PropertyBag_UnmarshalJSON ord)) (map_of (rev kvs) ''properties'') None (ReportingDescriptor.Properties strct) \<and>
     field_ok (json_Unmarshal_slice (json_Unmarshal_ptr (ReportingDescriptorRelationship_UnmarshalJSON ord))) (map_of (rev kvs) ''relationships'') None (ReportingDescriptor.Relationships strct) \<and>
     field_ok (json_Unmarshal_ptr (MultiformatMessageString_UnmarshalJSON ord)) (map_of (rev kvs) ''shortDescription'') None (ReportingDescriptor.ShortDescription strct) \<and>
     (idReceived \<longleftrightarrow> map_of (rev kvs) ''id'' \<noteq> None)"
proof -
  have "fst ` set (members ord kvs) \<subseteq> set ReportingDescriptor_keys"
    by (rule loop_keys_known [OF loop]) (rule ReportingDescriptor_cases_keys)
  then have keys: "dom (map_of (rev kvs)) \<subseteq> set ReportingDescriptor_keys"
    by (simp add: dom_members [of kvs ord])
  note fld = field_after_loop [OF _ members_distinct loop, unfolded map_of_members]
  note flg = flag_after_loop [OF _ members_distinct loop, unfolded map_of_members]
  show ?thesis
    using keys fld [OF ReportingDescriptor_fields(1)] fld [OF ReportingDescriptor_fields(2)] fld [OF ReportingDescriptor_fields(3)] fld [OF ReportingDescriptor_fields(4)] fld [OF ReportingDescriptor_fields(5)] fld [OF ReportingDescriptor_fields(6)] fld [OF ReportingDescriptor_fields(7)] fld [OF ReportingDescriptor_fields(8)] fld [OF ReportingDescriptor_fields(9)] fld [OF ReportingDescriptor_fields(10)] fld [OF ReportingDescriptor_fields(11)] fld [OF ReportingDescriptor_fields(12)] fld [OF ReportingDescriptor_fields(13)] fld [OF ReportingDescriptor_fields(14)] flg [OF ReportingDescriptor_fields(15)]
    by (simp only: prod.case ReportingDescriptor_zero_def ReportingDescriptor.select_convs simp_thms)
qed

lemma ReportingDescriptor_decodesD:
  assumes "ReportingDescriptor_decodes ord m strct"
  shows "dom m \<subseteq> set ReportingDescriptor_keys"
    and "field_ok (json_Unmarshal_ptr (ReportingConfiguration_UnmarshalJSON ord)) (m ''defaultConfiguration'') None (ReportingDescriptor.DefaultConfiguration strct)"
    and "field_ok (json_Unmarshal_slice json_Unmarshal_string) (m ''deprecatedGuids'') None (ReportingDescriptor.DeprecatedGuids strct)"
    and "field_ok (json_Unmarshal_slice json_Unmarshal_string) (m ''deprecatedIds'') None (ReportingDescriptor.DeprecatedIds strct)"
    and "field_ok (json_Unmarshal_slice json_Unmarshal_string) (m ''deprecatedNames'') None (ReportingDescriptor.DeprecatedNames strct)"
    and "field_ok (json_Unmarshal_ptr (MultiformatMessageString_UnmarshalJSON ord)) (m ''fullDescription'') None (ReportingDescriptor.FullDescription strct)"
    and "field_ok json_Unmarshal_string (m ''guid'') [] (ReportingDescriptor.Guid strct)"
    and "field_ok (json_Unmarshal_ptr (MultiformatMessageString_UnmarshalJSON ord)) (m ''help'') None (ReportingDescriptor.Help strct)"
    and "field_ok json_Unmarshal_string (m ''helpUri'') [] (ReportingDescriptor.HelpUri strct)"
    and "field_ok json_Unmarshal_string (m ''id'') [] (ReportingDescriptor.Id strct)"
    and "field_ok (json_Unmarshal_map (json_Unmarshal_ptr (MultiformatMessageString_UnmarshalJSON ord))) (m ''messageStrings'') None (ReportingDescriptor.MessageStrings strct)"
    and "field_ok json_Unmarshal_string (m ''name'') [] (ReportingDescriptor.Name strct)"
    and "field_ok (json_Unmarshal_ptr (PropertyBag_UnmarshalJSON ord)) (m ''properties'') None (ReportingDescriptor.Properties strct)"
    and "field_ok (json_Unmarshal_slice (json_Unmarshal_ptr (ReportingDescriptorRelationship_UnmarshalJSON ord))) (m ''relationships'') None (ReportingDescriptor.Relationships strct)"
    and "field_ok (json_Unmarshal_ptr (MultiformatMessageString_UnmarshalJSON ord)) (m ''shortDescription'') None (ReportingDescriptor.ShortDescription strct)"
    and "m ''id'' \<noteq> None"
  using assms unfolding ReportingDescriptor_decodes_def by - (elim conjE, assumption)+

lemma ReportingDescriptor_decodes_unique:
  assumes "ReportingDescriptor_decodes ord m a" and "ReportingDescriptor_decodes ord m b"
  shows "a = b"
  apply (rule ReportingDescriptor.equality)
  apply (rule field_ok_unique [OF ReportingDescriptor_decodesD(2) [OF assms(1)] ReportingDescriptor_decodesD(2) [OF assms(2)]])
  apply (rule field_ok_unique [OF ReportingDescriptor_decodesD(3) [OF assms(1)] ReportingDescriptor_decodesD(3) [OF assms(2)]])
  apply (rule field_ok_unique [OF ReportingDescriptor_decodesD(4) [OF assms(1)] ReportingDescriptor_decodesD(4) [OF assms(2)]])
  apply (rule field_ok_unique [OF ReportingDescriptor_decodesD(5) [OF assms(1)] ReportingDescriptor_decodesD(5) [OF assms(2)]])
  apply (rule field_ok_unique [OF ReportingDescriptor_decodesD(6) [OF assms(1)] ReportingDescriptor_decodesD(6) [OF assms(2)]])
  apply (rule field_ok_unique [OF ReportingDescriptor_decodesD(7) [OF assms(1)] ReportingDescriptor_decodesD(7) [OF assms(2)]])
  apply (rule field_ok_unique [OF ReportingDescriptor_decodesD(8) [OF assms(1)] ReportingDescriptor_decodesD(8) [OF assms(2)]])
  apply (rule field_ok_unique [OF ReportingDescriptor_decodesD(9) [OF assms(1)] ReportingDescriptor_decodesD(9) [OF assms(2)]])
  apply (rule field_ok_unique [OF ReportingDescriptor_decodesD(10) [OF assms(1)] ReportingDescriptor_decodesD(10) [OF assms(2)]])
  apply (rule field_ok_unique [OF ReportingDescriptor_decodesD(11) [OF assms(1)] ReportingDescriptor_decodesD(11) [OF assms(2)]])
  apply (rule field_ok_unique [OF ReportingDescriptor_decodesD(12) [OF assms(1)] ReportingDescriptor_decodesD(12) [OF assms(2)]])
  apply (rule field_ok_unique [OF ReportingDescriptor_decodesD(13) [OF assms(1)] ReportingDescriptor_decodesD(13) [OF assms(2)]])
  apply (rule field_ok_unique [OF ReportingDescriptor_decodesD(14) [OF assms(1)] ReportingDescriptor_decodesD(14) [OF assms(2)]])
  apply (rule field_ok_unique [OF ReportingDescriptor_decodesD(15) [OF assms(1)] ReportingDescriptor_decodesD(15) [OF assms(2)]])
  apply simp
  done

lemma ReportingDescriptor_accepts:
  assumes "ReportingDescriptor_decodes ord m strct" and "m k = Some v"
  shows "accepting (switch k (ReportingDescriptor_cases ord v) (reject k))"
proof -
  from assms have "k \<in> set ReportingDescriptor_keys" by (auto simp: ReportingDescriptor_decodes_def)
  then have key: "k \<in> fst ` set (ReportingDescriptor_cases ord v)"
    by (simp only: ReportingDescriptor_cases_keys)
  have rows: "list_all (\<lambda>(c, h). m c = Some v \<longrightarrow> accepting h) (ReportingDescriptor_cases ord v)"
    unfolding ReportingDescriptor_cases_def list.pred_inject
    apply (rule conjI [OF accept_row [where m = m and v = v, OF ReportingDescriptor_decodesD(2) [OF assms(1)]]])
    apply (rule conjI [OF accept_row [where m = m and v = v, OF ReportingDescriptor_decodesD(3) [OF assms(1)]]])
    apply (rule conjI [OF accept_row [where m = m and v = v, OF ReportingDescriptor_decodesD(4) [OF assms(1)]]])
    apply (rule conjI [OF accept_row [where m = m and v = v, OF ReportingDescriptor_decodesD(5) [OF assms(1)]]])
    apply (rule conjI [OF accept_row [where m = m and v = v, OF ReportingDescriptor_decodesD(6) [OF assms(1)]]])
    apply (rule conjI [OF accept_row [where m = m and v = v, OF ReportingDescriptor_decodesD(7) [OF assms(1)]]])
    apply (rule conjI [OF accept_row [where m = m and v = v, OF ReportingDescriptor_decodesD(8) [OF assms(1)]]])
    apply (rule conjI [OF accept_row [where m = m and v = v, OF ReportingDescriptor_decodesD(9) [OF assms(1)]]])
    apply (rule conjI [OF accept_row [where m = m and v = v, OF ReportingDescriptor_decodesD(10) [OF assms(1)]]])
    apply (rule conjI [OF accept_row [where m = m and v = v, OF ReportingDescriptor_decodesD(11) [OF assms(1)]]])
    apply (rule conjI [OF accept_row [where m = m and v = v, OF ReportingDescriptor_decodesD(12) [OF assms(1)]]])
    apply (rule conjI [OF accept_row [where m = m and v = v, OF ReportingDescriptor_decodesD(13) [OF assms(1)]]])
    apply (rule conjI [OF accept_row [where m = m and v = v, OF ReportingDescriptor_decodesD(14) [OF assms(1)]]])
    apply (rule conjI [OF accept_row [where m = m and v = v, OF ReportingDescriptor_decodesD(15) [OF assms(1)]]])
    apply simp
    done
  show ?thesis by (rule rows_accept [OF rows assms(2) key])
qed

lemma ReportingDescriptor_decode_iff:
  "ReportingDescriptor_UnmarshalJSON ord (JObj kvs) = Inr strct \<longleftrightarrow>
   ReportingDescriptor_decodes ord (map_of (rev kvs)) strct"
proof
  assume "ReportingDescriptor_UnmarshalJSON ord (JObj kvs) = Inr strct"
  then obtain idReceived where
    loop: "range_loop (\<lambda>k v. switch k (ReportingDescriptor_cases ord v) (reject k)) (members ord kvs) (ReportingDescriptor_zero, False) = Inr (strct, idReceived)"
    and fin: "idReceived"
    by (auto simp: ReportingDescriptor_UnmarshalJSON_def members_def split: sum.splits if_splits)
  from ReportingDescriptor_loop_sound [OF loop] fin
  show "ReportingDescriptor_decodes ord (map_of (rev kvs)) strct"
    by (simp add: ReportingDescriptor_decodes_def)
next
  assume d: "ReportingDescriptor_decodes ord (map_of (rev kvs)) strct"
  have "\<exists>t. range_loop (\<lambda>k v. switch k (ReportingDescriptor_cases ord v) (reject k)) (members ord kvs) (ReportingDescriptor_zero, False) = Inr t"
  proof (rule loop_succeeds [OF ReportingDescriptor_regular])
    fix k v assume "(k, v) \<in> set (members ord kvs)"
    then have "map_of (rev kvs) k = Some v" by (rule member_lookup)
    from ReportingDescriptor_accepts [OF d this]
    show "accepting (switch k (ReportingDescriptor_cases ord v) (reject k))" .
  qed
  then obtain t where "range_loop (\<lambda>k v. switch k (ReportingDescriptor_cases ord v) (reject k)) (members ord kvs) (ReportingDescriptor_zero, False) = Inr t" ..
  then obtain strct' idReceived where
    loop: "range_loop (\<lambda>k v. switch k (ReportingDescriptor_cases ord v) (reject k)) (members ord kvs) (ReportingDescriptor_zero, False) = Inr (strct', idReceived)"
    by (cases t) auto
  from ReportingDescriptor_loop_sound [OF loop] d
  have fin: "idReceived"
    and d': "ReportingDescriptor_decodes ord (map_of (rev kvs)) strct'"
    by (simp_all add: ReportingDescriptor_decodes_def)
  from ReportingDescriptor_decodes_unique [OF d' d] have "strct' = strct" .
  with loop fin show "ReportingDescriptor_UnmarshalJSON ord (JObj kvs) = Inr strct"
    by (simp add: ReportingDescriptor_UnmarshalJSON_def members_def)
qed

definition ReportingDescriptor_results :: "scanner \<Rightarrow> order \<Rightarrow> ReportingDescriptor \<Rightarrow> (string \<times> (error + json)) list" where
  "ReportingDescriptor_results scn ord strct =
     [(''defaultConfiguration'', json_Marshal_ptr ''*sarif.ReportingConfiguration'' (ReportingConfiguration_MarshalJSON scn ord) (ReportingDescriptor.DefaultConfiguration strct)),
      (''deprecatedGuids'', json_Marshal_slice json_Marshal_string (ReportingDescriptor.DeprecatedGuids strct)),
      (''deprecatedIds'', json_Marshal_slice json_Marshal_string (ReportingDescriptor.DeprecatedIds strct)),
      (''deprecatedNames'', json_Marshal_slice json_Marshal_string (ReportingDescriptor.DeprecatedNames strct)),
      (''fullDescription'', json_Marshal_ptr ''*sarif.MultiformatMessageString'' (MultiformatMessageString_MarshalJSON scn ord) (ReportingDescriptor.FullDescription strct)),
      (''guid'', json_Marshal_string (ReportingDescriptor.Guid strct)),
      (''help'', json_Marshal_ptr ''*sarif.MultiformatMessageString'' (MultiformatMessageString_MarshalJSON scn ord) (ReportingDescriptor.Help strct)),
      (''helpUri'', json_Marshal_string (ReportingDescriptor.HelpUri strct)),
      (''id'', json_Marshal_string (ReportingDescriptor.Id strct)),
      (''messageStrings'', json_Marshal_map (json_Marshal_ptr ''*sarif.MultiformatMessageString'' (MultiformatMessageString_MarshalJSON scn ord)) (ReportingDescriptor.MessageStrings strct)),
      (''name'', json_Marshal_string (ReportingDescriptor.Name strct)),
      (''properties'', json_Marshal_bytes ''*sarif.PropertyBag'' (PropertyBag_MarshalJSON scn ord) (ReportingDescriptor.Properties strct)),
      (''relationships'', json_Marshal_slice (json_Marshal_ptr ''*sarif.ReportingDescriptorRelationship'' (ReportingDescriptorRelationship_MarshalJSON scn ord)) (ReportingDescriptor.Relationships strct)),
      (''shortDescription'', json_Marshal_ptr ''*sarif.MultiformatMessageString'' (MultiformatMessageString_MarshalJSON scn ord) (ReportingDescriptor.ShortDescription strct))]"

lemma ReportingDescriptor_MarshalJSON_results:
  "ReportingDescriptor_MarshalJSON scn ord strct = object (emit_all (ReportingDescriptor_results scn ord strct))"
  by (simp add: ReportingDescriptor_MarshalJSON_def ReportingDescriptor_results_def emit_nilcheck)

lemma ReportingDescriptor_keys_written:
  "ReportingDescriptor_MarshalJSON scn ord strct = Inr j \<Longrightarrow> \<exists>kvs. j = JObj kvs \<and> map fst kvs = ReportingDescriptor_keys"
  using keys_written [of "ReportingDescriptor_results scn ord strct" j]
  by (simp add: ReportingDescriptor_MarshalJSON_results ReportingDescriptor_results_def ReportingDescriptor_keys_def)

definition ReportingDescriptor_encodable :: "scanner \<Rightarrow> order \<Rightarrow> ReportingDescriptor \<Rightarrow> bool" where
  "ReportingDescriptor_encodable scn ord strct \<longleftrightarrow>
     ptr_all (ReportingConfiguration_encodable scn ord) (ReportingDescriptor.DefaultConfiguration strct) \<and>
     ptr_all (MultiformatMessageString_encodable scn ord) (ReportingDescriptor.FullDescription strct) \<and>
     ptr_all (MultiformatMessageString_encodable scn ord) (ReportingDescriptor.Help strct) \<and>
     map_all (ptr_all (MultiformatMessageString_encodable scn ord)) (ReportingDescriptor.MessageStrings strct) \<and>
     ptr_all (PropertyBag_encodable scn ord) (ReportingDescriptor.Properties strct) \<and>
     slice_all (ptr_all (ReportingDescriptorRelationship_encodable scn ord)) (ReportingDescriptor.Relationships strct) \<and>
     ptr_all (MultiformatMessageString_encodable scn ord) (ReportingDescriptor.ShortDescription strct)"

lemma ReportingDescriptor_fails_unless: "fails_unless (ReportingDescriptor_MarshalJSON scn ord) (ReportingDescriptor_encodable scn ord)"
  unfolding fails_unless_def ReportingDescriptor_MarshalJSON_results ReportingDescriptor_results_def ReportingDescriptor_encodable_def isl_object_emit_all
  by (auto simp add: always_simps
      fails_unlessD [OF fails_unless_ptr [OF ReportingConfiguration_fails_unless]]
      fails_unlessD [OF fails_unless_slice [OF fails_unless_string]]
      fails_unlessD [OF fails_unless_ptr [OF MultiformatMessageString_fails_unless]]
      fails_unlessD [OF fails_unless_string]
      fails_unlessD [OF fails_unless_map [OF fails_unless_ptr [OF MultiformatMessageString_fails_unless]]]
      fails_unlessD [OF PropertyBag_field_fails_unless]
      fails_unlessD [OF fails_unless_slice [OF fails_unless_ptr [OF ReportingDescriptorRelationship_fails_unless]]])

definition ReportingDescriptor_valid :: "ReportingDescriptor \<Rightarrow> bool" where
  "ReportingDescriptor_valid strct \<longleftrightarrow>
     ptr_all ReportingConfiguration_valid (ReportingDescriptor.DefaultConfiguration strct) \<and>
     ptr_all MultiformatMessageString_valid (ReportingDescriptor.FullDescription strct) \<and>
     ptr_all MultiformatMessageString_valid (ReportingDescriptor.Help strct) \<and>
     map_valid (ptr_all MultiformatMessageString_valid) (ReportingDescriptor.MessageStrings strct) \<and>
     ptr_all PropertyBag_valid (ReportingDescriptor.Properties strct) \<and>
     slice_all (ptr_all ReportingDescriptorRelationship_valid) (ReportingDescriptor.Relationships strct) \<and>
     ptr_all MultiformatMessageString_valid (ReportingDescriptor.ShortDescription strct)"

lemma ReportingDescriptor_keys_distinct: "distinct ReportingDescriptor_keys"
  by (simp add: ReportingDescriptor_keys_def)

lemma ReportingDescriptor_round_trips:
  "round_trips_object (ReportingDescriptor_MarshalJSON scn ord) (ReportingDescriptor_UnmarshalJSON ord') ReportingDescriptor_valid"
  unfolding round_trips_object_def
proof (intro allI impI)
  fix strct assume v: "ReportingDescriptor_valid strct"
  note v' = v [unfolded ReportingDescriptor_valid_def]
  let ?rs = "ReportingDescriptor_results scn ord strct"
  let ?kvs = "map (\<lambda>e. (fst e, projr (snd e))) ?rs"
  have f0: "\<not> isl (json_Marshal_ptr ''*sarif.ReportingConfiguration'' (ReportingConfiguration_MarshalJSON scn ord) (ReportingDescriptor.DefaultConfiguration strct)) \<and>
      json_Unmarshal_ptr (ReportingConfiguration_UnmarshalJSON ord') (projr (json_Marshal_ptr ''*sarif.ReportingConfiguration'' (ReportingConfiguration_MarshalJSON scn ord) (ReportingDescriptor.DefaultConfiguration strct))) = Inr (ReportingDescriptor.DefaultConfiguration strct)"
    by (rule round_tripsD [OF round_trips_ptr [OF ReportingConfiguration_round_trips]]) (use v' in simp)
  have f1: "\<not> isl (json_Marshal_slice json_Marshal_string (ReportingDescriptor.DeprecatedGuids strct)) \<and>
      json_Unmarshal_slice json_Unmarshal_string (projr (json_Marshal_slice json_Marshal_string (ReportingDescriptor.DeprecatedGuids strct))) = Inr (ReportingDescriptor.DeprecatedGuids strct)"
    by (rule round_tripsD [OF round_trips_slice [OF round_trips_string]]) (use v' in simp)
  have f2: "\<not> isl (json_Marshal_slice json_Marshal_string (ReportingDescriptor.DeprecatedIds strct)) \<and>
      json_Unmarshal_slice json_Unmarshal_string (projr (json_Marshal_slice json_Marshal_string (ReportingDescriptor.DeprecatedIds strct))) = Inr (ReportingDescriptor.DeprecatedIds strct)"
    by (rule round_tripsD [OF round_trips_slice [OF round_trips_string]]) (use v' in simp)
  have f3: "\<not> isl (json_Marshal_slice json_Marshal_string (ReportingDescriptor.DeprecatedNames strct)) \<and>
      json_Unmarshal_slice json_Unmarshal_string (projr (json_Marshal_slice json_Marshal_string (ReportingDescriptor.DeprecatedNames strct))) = Inr (ReportingDescriptor.DeprecatedNames strct)"
    by (rule round_tripsD [OF round_trips_slice [OF round_trips_string]]) (use v' in simp)
  have f4: "\<not> isl (json_Marshal_ptr ''*sarif.MultiformatMessageString'' (MultiformatMessageString_MarshalJSON scn ord) (ReportingDescriptor.FullDescription strct)) \<and>
      json_Unmarshal_ptr (MultiformatMessageString_UnmarshalJSON ord') (projr (json_Marshal_ptr ''*sarif.MultiformatMessageString'' (MultiformatMessageString_MarshalJSON scn ord) (ReportingDescriptor.FullDescription strct))) = Inr (ReportingDescriptor.FullDescription strct)"
    by (rule round_tripsD [OF round_trips_ptr [OF MultiformatMessageString_round_trips]]) (use v' in simp)
  have f5: "\<not> isl (json_Marshal_string (ReportingDescriptor.Guid strct)) \<and>
      json_Unmarshal_string (projr (json_Marshal_string (ReportingDescriptor.Guid strct))) = Inr (ReportingDescriptor.Guid strct)"
    by (rule round_tripsD [OF round_trips_string]) (use v' in simp)
  have f6: "\<not> isl (json_Marshal_ptr ''*sarif.MultiformatMessageString'' (MultiformatMessageString_MarshalJSON scn ord) (ReportingDescriptor.Help strct)) \<and>
      json_Unmarshal_ptr (MultiformatMessageString_UnmarshalJSON ord') (projr (json_Marshal_ptr ''*sarif.MultiformatMessageString'' (MultiformatMessageString_MarshalJSON scn ord) (ReportingDescriptor.Help strct))) = Inr (ReportingDescriptor.Help strct)"
    by (rule round_tripsD [OF round_trips_ptr [OF MultiformatMessageString_round_trips]]) (use v' in simp)
  have f7: "\<not> isl (json_Marshal_string (ReportingDescriptor.HelpUri strct)) \<and>
      json_Unmarshal_string (projr (json_Marshal_string (ReportingDescriptor.HelpUri strct))) = Inr (ReportingDescriptor.HelpUri strct)"
    by (rule round_tripsD [OF round_trips_string]) (use v' in simp)
  have f8: "\<not> isl (json_Marshal_string (ReportingDescriptor.Id strct)) \<and>
      json_Unmarshal_string (projr (json_Marshal_string (ReportingDescriptor.Id strct))) = Inr (ReportingDescriptor.Id strct)"
    by (rule round_tripsD [OF round_trips_string]) (use v' in simp)
  have f9: "\<not> isl (json_Marshal_map (json_Marshal_ptr ''*sarif.MultiformatMessageString'' (MultiformatMessageString_MarshalJSON scn ord)) (ReportingDescriptor.MessageStrings strct)) \<and>
      json_Unmarshal_map (json_Unmarshal_ptr (MultiformatMessageString_UnmarshalJSON ord')) (projr (json_Marshal_map (json_Marshal_ptr ''*sarif.MultiformatMessageString'' (MultiformatMessageString_MarshalJSON scn ord)) (ReportingDescriptor.MessageStrings strct))) = Inr (ReportingDescriptor.MessageStrings strct)"
    by (rule round_tripsD [OF round_trips_map [OF round_trips_ptr [OF MultiformatMessageString_round_trips]]]) (use v' in simp)
  have f10: "\<not> isl (json_Marshal_string (ReportingDescriptor.Name strct)) \<and>
      json_Unmarshal_string (projr (json_Marshal_string (ReportingDescriptor.Name strct))) = Inr (ReportingDescriptor.Name strct)"
    by (rule round_tripsD [OF round_trips_string]) (use v' in simp)
  have f11: "\<not> isl (json_Marshal_bytes ''*sarif.PropertyBag'' (PropertyBag_MarshalJSON scn ord) (ReportingDescriptor.Properties strct)) \<and>
      json_Unmarshal_ptr (PropertyBag_UnmarshalJSON ord') (projr (json_Marshal_bytes ''*sarif.PropertyBag'' (PropertyBag_MarshalJSON scn ord) (ReportingDescriptor.Properties strct))) = Inr (ReportingDescriptor.Properties strct)"
    by (rule round_tripsD [OF PropertyBag_field_round_trips]) (use v' in simp)
  have f12: "\<not> isl (json_Marshal_slice (json_Marshal_ptr ''*sarif.ReportingDescriptorRelationship'' (ReportingDescriptorRelationship_MarshalJSON scn ord)) (ReportingDescriptor.Relationships strct)) \<and>
      json_Unmarshal_slice (json_Unmarshal_ptr (ReportingDescriptorRelationship_UnmarshalJSON ord')) (projr (json_Marshal_slice (json_Marshal_ptr ''*sarif.ReportingDescriptorRelationship'' (ReportingDescriptorRelationship_MarshalJSON scn ord)) (ReportingDescriptor.Relationships strct))) = Inr (ReportingDescriptor.Relationships strct)"
    by (rule round_tripsD [OF round_trips_slice [OF round_trips_ptr [OF ReportingDescriptorRelationship_round_trips]]]) (use v' in simp)
  have f13: "\<not> isl (json_Marshal_ptr ''*sarif.MultiformatMessageString'' (MultiformatMessageString_MarshalJSON scn ord) (ReportingDescriptor.ShortDescription strct)) \<and>
      json_Unmarshal_ptr (MultiformatMessageString_UnmarshalJSON ord') (projr (json_Marshal_ptr ''*sarif.MultiformatMessageString'' (MultiformatMessageString_MarshalJSON scn ord) (ReportingDescriptor.ShortDescription strct))) = Inr (ReportingDescriptor.ShortDescription strct)"
    by (rule round_tripsD [OF round_trips_ptr [OF MultiformatMessageString_round_trips]]) (use v' in simp)
  note fs = f0 f1 f2 f3 f4 f5 f6 f7 f8 f9 f10 f11 f12 f13
  have rs: "?rs =
     [(''defaultConfiguration'', json_Marshal_ptr ''*sarif.ReportingConfiguration'' (ReportingConfiguration_MarshalJSON scn ord) (ReportingDescriptor.DefaultConfiguration strct)),
      (''deprecatedGuids'', json_Marshal_slice json_Marshal_string (ReportingDescriptor.DeprecatedGuids strct)),
      (''deprecatedIds'', json_Marshal_slice json_Marshal_string (ReportingDescriptor.DeprecatedIds strct)),
      (''deprecatedNames'', json_Marshal_slice json_Marshal_string (ReportingDescriptor.DeprecatedNames strct)),
      (''fullDescription'', json_Marshal_ptr ''*sarif.MultiformatMessageString'' (MultiformatMessageString_MarshalJSON scn ord) (ReportingDescriptor.FullDescription strct)),
      (''guid'', json_Marshal_string (ReportingDescriptor.Guid strct)),
      (''help'', json_Marshal_ptr ''*sarif.MultiformatMessageString'' (MultiformatMessageString_MarshalJSON scn ord) (ReportingDescriptor.Help strct)),
      (''helpUri'', json_Marshal_string (ReportingDescriptor.HelpUri strct)),
      (''id'', json_Marshal_string (ReportingDescriptor.Id strct)),
      (''messageStrings'', json_Marshal_map (json_Marshal_ptr ''*sarif.MultiformatMessageString'' (MultiformatMessageString_MarshalJSON scn ord)) (ReportingDescriptor.MessageStrings strct)),
      (''name'', json_Marshal_string (ReportingDescriptor.Name strct)),
      (''properties'', json_Marshal_bytes ''*sarif.PropertyBag'' (PropertyBag_MarshalJSON scn ord) (ReportingDescriptor.Properties strct)),
      (''relationships'', json_Marshal_slice (json_Marshal_ptr ''*sarif.ReportingDescriptorRelationship'' (ReportingDescriptorRelationship_MarshalJSON scn ord)) (ReportingDescriptor.Relationships strct)),
      (''shortDescription'', json_Marshal_ptr ''*sarif.MultiformatMessageString'' (MultiformatMessageString_MarshalJSON scn ord) (ReportingDescriptor.ShortDescription strct))]"
    by (auto simp add: ReportingDescriptor_results_def)
  have keys: "map fst ?rs = ReportingDescriptor_keys"
    by (simp add: ReportingDescriptor_results_def ReportingDescriptor_keys_def)
  then have dist: "distinct (map fst ?rs)"
    by (simp only: ReportingDescriptor_keys_distinct)
  have ok: "list_all (\<lambda>e. \<not> isl (snd e)) ?rs"
    unfolding rs by (simp only: list.pred_inject snd_conv fs simp_thms)
  then have enc: "ReportingDescriptor_MarshalJSON scn ord strct = Inr (JObj ?kvs)"
    by (simp add: ReportingDescriptor_MarshalJSON_results [of scn ord strct] object_emit_all_eq_Inr)
  have l0: "map_of (rev ?kvs) ''defaultConfiguration'' = Some (projr (json_Marshal_ptr ''*sarif.ReportingConfiguration'' (ReportingConfiguration_MarshalJSON scn ord) (ReportingDescriptor.DefaultConfiguration strct)))"
    by (rule written_lookup [OF dist]) (subst rs, intro list.set_intros)
  have l1: "map_of (rev ?kvs) ''deprecatedGuids'' = Some (projr (json_Marshal_slice json_Marshal_string (ReportingDescriptor.DeprecatedGuids strct)))"
    by (rule written_lookup [OF dist]) (subst rs, intro list.set_intros)
  have l2: "map_of (rev ?kvs) ''deprecatedIds'' = Some (projr (json_Marshal_slice json_Marshal_string (ReportingDescriptor.DeprecatedIds strct)))"
    by (rule written_lookup [OF dist]) (subst rs, intro list.set_intros)
  have l3: "map_of (rev ?kvs) ''deprecatedNames'' = Some (projr (json_Marshal_slice json_Marshal_string (ReportingDescriptor.DeprecatedNames strct)))"
    by (rule written_lookup [OF dist]) (subst rs, intro list.set_intros)
  have l4: "map_of (rev ?kvs) ''fullDescription'' = Some (projr (json_Marshal_ptr ''*sarif.MultiformatMessageString'' (MultiformatMessageString_MarshalJSON scn ord) (ReportingDescriptor.FullDescription strct)))"
    by (rule written_lookup [OF dist]) (subst rs, intro list.set_intros)
  have l5: "map_of (rev ?kvs) ''guid'' = Some (projr (json_Marshal_string (ReportingDescriptor.Guid strct)))"
    by (rule written_lookup [OF dist]) (subst rs, intro list.set_intros)
  have l6: "map_of (rev ?kvs) ''help'' = Some (projr (json_Marshal_ptr ''*sarif.MultiformatMessageString'' (MultiformatMessageString_MarshalJSON scn ord) (ReportingDescriptor.Help strct)))"
    by (rule written_lookup [OF dist]) (subst rs, intro list.set_intros)
  have l7: "map_of (rev ?kvs) ''helpUri'' = Some (projr (json_Marshal_string (ReportingDescriptor.HelpUri strct)))"
    by (rule written_lookup [OF dist]) (subst rs, intro list.set_intros)
  have l8: "map_of (rev ?kvs) ''id'' = Some (projr (json_Marshal_string (ReportingDescriptor.Id strct)))"
    by (rule written_lookup [OF dist]) (subst rs, intro list.set_intros)
  have l9: "map_of (rev ?kvs) ''messageStrings'' = Some (projr (json_Marshal_map (json_Marshal_ptr ''*sarif.MultiformatMessageString'' (MultiformatMessageString_MarshalJSON scn ord)) (ReportingDescriptor.MessageStrings strct)))"
    by (rule written_lookup [OF dist]) (subst rs, intro list.set_intros)
  have l10: "map_of (rev ?kvs) ''name'' = Some (projr (json_Marshal_string (ReportingDescriptor.Name strct)))"
    by (rule written_lookup [OF dist]) (subst rs, intro list.set_intros)
  have l11: "map_of (rev ?kvs) ''properties'' = Some (projr (json_Marshal_bytes ''*sarif.PropertyBag'' (PropertyBag_MarshalJSON scn ord) (ReportingDescriptor.Properties strct)))"
    by (rule written_lookup [OF dist]) (subst rs, intro list.set_intros)
  have l12: "map_of (rev ?kvs) ''relationships'' = Some (projr (json_Marshal_slice (json_Marshal_ptr ''*sarif.ReportingDescriptorRelationship'' (ReportingDescriptorRelationship_MarshalJSON scn ord)) (ReportingDescriptor.Relationships strct)))"
    by (rule written_lookup [OF dist]) (subst rs, intro list.set_intros)
  have l13: "map_of (rev ?kvs) ''shortDescription'' = Some (projr (json_Marshal_ptr ''*sarif.MultiformatMessageString'' (MultiformatMessageString_MarshalJSON scn ord) (ReportingDescriptor.ShortDescription strct)))"
    by (rule written_lookup [OF dist]) (subst rs, intro list.set_intros)
  have dec: "ReportingDescriptor_decodes ord' (map_of (rev ?kvs)) strct"
    unfolding ReportingDescriptor_decodes_def l0 l1 l2 l3 l4 l5 l6 l7 l8 l9 l10 l11 l12 l13
    by (simp only: field_ok_Some fs written_dom keys subset_refl option.simps simp_thms)
  then have "ReportingDescriptor_UnmarshalJSON ord' (JObj ?kvs) = Inr strct"
    by (simp only: ReportingDescriptor_decode_iff)
  with enc show "rt_object (ReportingDescriptor_MarshalJSON scn ord) (ReportingDescriptor_UnmarshalJSON ord') strct"
    unfolding rt_object_def by blast
qed

definition ReportingDescriptor_small_bags :: "ReportingDescriptor \<Rightarrow> bool" where
  "ReportingDescriptor_small_bags strct \<longleftrightarrow>
     ptr_all ReportingConfiguration_small_bags (ReportingDescriptor.DefaultConfiguration strct) \<and>
     ptr_all MultiformatMessageString_small_bags (ReportingDescriptor.FullDescription strct) \<and>
     ptr_all MultiformatMessageString_small_bags (ReportingDescriptor.Help strct) \<and>
     map_all (ptr_all MultiformatMessageString_small_bags) (ReportingDescriptor.MessageStrings strct) \<and>
     ptr_all PropertyBag_small_bags (ReportingDescriptor.Properties strct) \<and>
     slice_all (ptr_all ReportingDescriptorRelationship_small_bags) (ReportingDescriptor.Relationships strct) \<and>
     ptr_all MultiformatMessageString_small_bags (ReportingDescriptor.ShortDescription strct)"

lemma ReportingDescriptor_same_output:
  "same_output (ReportingDescriptor_MarshalJSON scn ord) (ReportingDescriptor_MarshalJSON scn ord') ReportingDescriptor_small_bags"
  unfolding same_output_def
proof (intro allI impI)
  fix strct assume v: "ReportingDescriptor_small_bags strct"
  note v' = v [unfolded ReportingDescriptor_small_bags_def]
  have e0: "json_Marshal_ptr ''*sarif.ReportingConfiguration'' (ReportingConfiguration_MarshalJSON scn ord) (ReportingDescriptor.DefaultConfiguration strct) =
      json_Marshal_ptr ''*sarif.ReportingConfiguration'' (ReportingConfiguration_MarshalJSON scn ord') (ReportingDescriptor.DefaultConfiguration strct)"
    by (rule same_outputD [OF same_output_ptr [OF ReportingConfiguration_same_output]]) (use v' in simp)
  have e4: "json_Marshal_ptr ''*sarif.MultiformatMessageString'' (MultiformatMessageString_MarshalJSON scn ord) (ReportingDescriptor.FullDescription strct) =
      json_Marshal_ptr ''*sarif.MultiformatMessageString'' (MultiformatMessageString_MarshalJSON scn ord') (ReportingDescriptor.FullDescription strct)"
    by (rule same_outputD [OF same_output_ptr [OF MultiformatMessageString_same_output]]) (use v' in simp)
  have e6: "json_Marshal_ptr ''*sarif.MultiformatMessageString'' (MultiformatMessageString_MarshalJSON scn ord) (ReportingDescriptor.Help strct) =
      json_Marshal_ptr ''*sarif.MultiformatMessageString'' (MultiformatMessageString_MarshalJSON scn ord') (ReportingDescriptor.Help strct)"
    by (rule same_outputD [OF same_output_ptr [OF MultiformatMessageString_same_output]]) (use v' in simp)
  have e9: "json_Marshal_map (json_Marshal_ptr ''*sarif.MultiformatMessageString'' (MultiformatMessageString_MarshalJSON scn ord)) (ReportingDescriptor.MessageStrings strct) =
      json_Marshal_map (json_Marshal_ptr ''*sarif.MultiformatMessageString'' (MultiformatMessageString_MarshalJSON scn ord')) (ReportingDescriptor.MessageStrings strct)"
    by (rule same_outputD [OF same_output_map [OF same_output_ptr [OF MultiformatMessageString_same_output]]]) (use v' in simp)
  have e11: "json_Marshal_bytes ''*sarif.PropertyBag'' (PropertyBag_MarshalJSON scn ord) (ReportingDescriptor.Properties strct) =
      json_Marshal_bytes ''*sarif.PropertyBag'' (PropertyBag_MarshalJSON scn ord') (ReportingDescriptor.Properties strct)"
    by (rule same_outputD [OF PropertyBag_field_same_output]) (use v' in simp)
  have e12: "json_Marshal_slice (json_Marshal_ptr ''*sarif.ReportingDescriptorRelationship'' (ReportingDescriptorRelationship_MarshalJSON scn ord)) (ReportingDescriptor.Relationships strct) =
      json_Marshal_slice (json_Marshal_ptr ''*sarif.ReportingDescriptorRelationship'' (ReportingDescriptorRelationship_MarshalJSON scn ord')) (ReportingDescriptor.Relationships strct)"
    by (rule same_outputD [OF same_output_slice [OF same_output_ptr [OF ReportingDescriptorRelationship_same_output]]]) (use v' in simp)
  have e13: "json_Marshal_ptr ''*sarif.MultiformatMessageString'' (MultiformatMessageString_MarshalJSON scn ord) (ReportingDescriptor.ShortDescription strct) =
      json_Marshal_ptr ''*sarif.MultiformatMessageString'' (MultiformatMessageString_MarshalJSON scn ord') (ReportingDescriptor.ShortDescription strct)"
    by (rule same_outputD [OF same_output_ptr [OF MultiformatMessageString_same_output]]) (use v' in simp)
  show "ReportingDescriptor_MarshalJSON scn ord strct = ReportingDescriptor_MarshalJSON scn ord' strct"
    by (simp only: ReportingDescriptor_MarshalJSON_def e0 e4 e6 e9 e11 e12 e13)
qed

lemma ReportingDescriptor_writes_keys: "writes_keys (ReportingDescriptor_MarshalJSON scn ord) ReportingDescriptor_keys"
  unfolding writes_keys_def by (intro allI impI) (erule ReportingDescriptor_keys_written)

lemma ReportingDescriptor_unknown_key:
  assumes new: "k \<notin> set ReportingDescriptor_keys" and key: "k \<in> fst ` set kvs"
    and rest: "ReportingDescriptor_UnmarshalJSON ord (JObj (filter (\<lambda>e. fst e \<noteq> k) kvs)) = Inr strct"
  shows "ReportingDescriptor_UnmarshalJSON ord (JObj kvs) = Inl (not_allowed k)"
proof -
  have rej: "switch k (ReportingDescriptor_cases ord v) (reject k) s = Inl (not_allowed k)" for v s
    by (rule switch_rejects) (simp only: ReportingDescriptor_cases_keys new not_False_eq_True)
  from rest obtain t where
    "range_loop (\<lambda>k v. switch k (ReportingDescriptor_cases ord v) (reject k)) (members ord (filter (\<lambda>e. fst e \<noteq> k) kvs)) (ReportingDescriptor_zero, False) = Inr t"
    by (cases "range_loop (\<lambda>k v. switch k (ReportingDescriptor_cases ord v) (reject k)) (members ord (filter (\<lambda>e. fst e \<noteq> k) kvs)) (ReportingDescriptor_zero, False)")
       (simp_all add: ReportingDescriptor_UnmarshalJSON_def members_def)
  from unknown_key_named [OF ReportingDescriptor_regular rej key this]
  show ?thesis by (simp add: ReportingDescriptor_UnmarshalJSON_def members_def)
qed

lemma ReportingDescriptor_unknown_key_fails:
  assumes "k \<notin> set ReportingDescriptor_keys" and "k \<in> fst ` set kvs"
  shows "isl (ReportingDescriptor_UnmarshalJSON ord (JObj kvs))"
proof (cases "ReportingDescriptor_UnmarshalJSON ord (JObj kvs)")
  case (Inr strct)
  then have "dom (map_of (rev kvs)) \<subseteq> set ReportingDescriptor_keys"
    by (simp only: ReportingDescriptor_decode_iff ReportingDescriptor_decodesD(1))
  with assms show ?thesis by (auto simp: dom_map_of_conv_image_fst)
qed simp

lemma ReportingDescriptor_required_present:
  assumes "ReportingDescriptor_UnmarshalJSON ord (JObj kvs) = Inr strct"
  shows "''id'' \<in> fst ` set kvs"
proof -
  from assms have d: "ReportingDescriptor_decodes ord (map_of (rev kvs)) strct" by (simp only: ReportingDescriptor_decode_iff)
  show "''id'' \<in> fst ` set kvs"
    using ReportingDescriptor_decodesD(16) [OF d]
    by (simp_all only: present_key)
qed

lemma ReportingDescriptor_without_Id:
  assumes "ReportingDescriptor_UnmarshalJSON ord (JObj kvs) = Inr strct"
  shows "ReportingDescriptor_UnmarshalJSON ord (JObj (filter (\<lambda>e. fst e \<noteq> ''id'') kvs)) =
    Inl (RequiredNotPresent ''id'')"
proof -
  from assms have d: "ReportingDescriptor_decodes ord (map_of (rev kvs)) strct" by (simp only: ReportingDescriptor_decode_iff)
  have "\<exists>t. range_loop (\<lambda>k v. switch k (ReportingDescriptor_cases ord v) (reject k)) (members ord (filter (\<lambda>e. fst e \<noteq> ''id'') kvs))
      (ReportingDescriptor_zero, False) = Inr t"
  proof (rule loop_succeeds [OF ReportingDescriptor_regular])
    fix k v assume "(k, v) \<in> set (members ord (filter (\<lambda>e. fst e \<noteq> ''id'') kvs))"
    then have "map_of (rev kvs) k = Some v" by (rule member_lookup_filter)
    from ReportingDescriptor_accepts [OF d this]
    show "accepting (switch k (ReportingDescriptor_cases ord v) (reject k))" .
  qed
  then obtain t where "range_loop (\<lambda>k v. switch k (ReportingDescriptor_cases ord v) (reject k)) (members ord (filter (\<lambda>e. fst e \<noteq> ''id'') kvs))
      (ReportingDescriptor_zero, False) = Inr t" ..
  then obtain strct' idReceived where
    loop: "range_loop (\<lambda>k v. switch k (ReportingDescriptor_cases ord v) (reject k)) (members ord (filter (\<lambda>e. fst e \<noteq> ''id'') kvs))
      (ReportingDescriptor_zero, False) = Inr (strct', idReceived)"
    by (cases t) auto
  from ReportingDescriptor_loop_sound [OF loop] ReportingDescriptor_decodesD(16) [OF d]
  have "\<not> idReceived"
    by (simp_all add: lookup_filter)
  with loop show ?thesis
    by (simp add: ReportingDescriptor_UnmarshalJSON_def members_def)
qed


lemma ReportingDescriptor_rejects_unknown_keys: "rejects_unknown_keys (ReportingDescriptor_UnmarshalJSON ord) ReportingDescriptor_keys"
  by (rule rejects_unknown_keysI) (erule (1) ReportingDescriptor_unknown_key_fails, erule (2) ReportingDescriptor_unknown_key)

lemma ReportingDescriptor_requires_Id: "requires_key (ReportingDescriptor_UnmarshalJSON ord) ''id''"
  by (rule requires_keyI) (erule ReportingDescriptor_required_present(1), erule ReportingDescriptor_without_Id)


subsection \<open>ToolComponent: decoding and encoding\<close>

definition ToolComponent_keys :: "string list" where
  "ToolComponent_keys = [''associatedComponent'', ''contents'', ''dottedQuadFileVersion'', ''downloadUri'', ''fullDescription'', ''fullName'', ''globalMessageStrings'', ''guid'', ''informationUri'', ''isComprehensive'', ''language'', ''localizedDataSemanticVersion'', ''locations'', ''minimumRequiredLocalizedDataSemanticVersion'', ''name'', ''notifications'', ''organization'', ''product'', ''productSuite'', ''properties'', ''releaseDateUtc'', ''rules'', ''semanticVersion'', ''shortDescription'', ''supportedTaxonomies'', ''taxa'', ''translationMetadata'', ''version'']"

definition ToolComponent_decodes :: "order \<Rightarrow> (string \<rightharpoonup> json) \<Rightarrow> ToolComponent \<Rightarrow> bool" where
  "ToolComponent_decodes ord m strct \<longleftrightarrow>
     dom m \<subseteq> set ToolComponent_keys \<and>
     field_ok (json_Unmarshal_ptr (ToolComponentReference_UnmarshalJSON ord)) (m ''associatedComponent'') None (ToolComponent.AssociatedComponent strct) \<and>
     field_ok json_Unmarshal_string (m ''contents'') [] (ToolComponent.Contents strct) \<and>
     field_ok json_Unmarshal_string (m ''dottedQuadFileVersion'') [] (ToolComponent.DottedQuadFileVersion strct) \<and>
     field_ok json_Unmarshal_string (m ''downloadUri'') [] (ToolComponent.DownloadUri strct) \<and>
     field_ok (json_Unmarshal_ptr (MultiformatMessageString_UnmarshalJSON ord)) (m ''fullDescription'') None (ToolComponent.FullDescription strct) \<and>
     field_ok json_Unmarshal_string (m ''fullName'') [] (ToolComponent.FullName strct) \<and>
     field_ok (json_Unmarshal_map (json_Unmarshal_ptr (MultiformatMessageString_UnmarshalJSON ord))) (m ''globalMessageStrings'') None (ToolComponent.GlobalMessageStrings strct) \<and>
     field_ok json_Unmarshal_string (m ''guid'') [] (ToolComponent.Guid strct) \<and>
     field_ok json_Unmarshal_string (m ''informationUri'') [] (ToolComponent.InformationUri strct) \<and>
     field_ok json_Unmarshal_bool (m ''isComprehensive'') False (ToolComponent.IsComprehensive strct) \<and>
     field_ok json_Unmarshal_string (m ''language'') [] (ToolComponent.Language strct) \<and>
     field_ok json_Unmarshal_string (m ''localizedDataSemanticVersion'') [] (ToolComponent.LocalizedDataSemanticVersion strct) \<and>
     field_ok (json_Unmarshal_slice (json_Unmarshal_ptr (ArtifactLocation_UnmarshalJSON ord))) (m ''locations'') None (ToolComponent.Locations strct) \<and>
     field_ok json_Unmarshal_string (m ''minimumRequiredLocalizedDataSemanticVersion'') [] (ToolComponent.MinimumRequiredLocalizedDataSemanticVersion strct) \<and>
     field_ok json_Unmarshal_string (m ''name'') [] (ToolComponent.Name strct) \<and>
     field_ok (json_Unmarshal_slice (json_Unmarshal_ptr (ReportingDescriptor_UnmarshalJSON ord))) (m ''notifications'') None (ToolComponent.Notifications strct) \<and>
     field_ok json_Unmarshal_string (m ''organization'') [] (ToolComponent.Organization strct) \<and>
     field_ok json_Unmarshal_string (m ''product'') [] (ToolComponent.Product strct) \<and>
     field_ok json_Unmarshal_string (m ''productSuite'') [] (ToolComponent.ProductSuite strct) \<and>
     field_ok (json_Unmarshal_ptr (PropertyBag_UnmarshalJSON ord)) (m ''properties'') None (ToolComponent.Properties strct) \<and>
     field_ok json_Unmarshal_string (m ''releaseDateUtc'') [] (ToolComponent.ReleaseDateUtc strct) \<and>
     field_ok (json_Unmarshal_slice (json_Unmarshal_ptr (ReportingDescriptor_UnmarshalJSON ord))) (m ''rules'') None (ToolComponent.Rules strct) \<and>
     field_ok json_Unmarshal_string (m ''semanticVersion'') [] (ToolComponent.SemanticVersion strct) \<and>
     field_ok (json_Unmarshal_ptr (MultiformatMessageString_UnmarshalJSON ord)) (m ''shortDescription'') None (ToolComponent.ShortDescription strct) \<and>
     field_ok (json_Unmarshal_slice (json_Unmarshal_ptr (ToolComponentReference_UnmarshalJSON ord))) (m ''supportedTaxonomies'') None (ToolComponent.SupportedTaxonomies strct) \<and>
     field_ok (json_Unmarshal_slice (json_Unmarshal_ptr (ReportingDescriptor_UnmarshalJSON ord))) (m ''taxa'') None (ToolComponent.Taxa strct) \<and>
     field_ok (json_Unmarshal_ptr (TranslationMetadata_UnmarshalJSON ord)) (m ''translationMetadata'') None (ToolComponent.TranslationMetadata strct) \<and>
     field_ok json_Unmarshal_string (m ''version'') [] (ToolComponent.Version strct) \<and>
     m ''name'' \<noteq> None"

lemma ToolComponent_cases_keys: "fst ` set (ToolComponent_cases ord v) = set ToolComponent_keys"
  by (rule keys_image) (simp add: ToolComponent_cases_def ToolComponent_keys_def)

lemma ToolComponent_regular: "regular (\<lambda>k v. switch k (ToolComponent_cases ord v) (reject k))"
  by (rule regular_switch) (simp add: ToolComponent_cases_def)

lemma ToolComponent_fields:
  "field_case (ToolComponent_cases ord) (\<lambda>(strct, nameReceived). ToolComponent.AssociatedComponent strct) ''associatedComponent'' (json_Unmarshal_ptr (ToolComponentReference_UnmarshalJSON ord))"
  "field_case (ToolComponent_cases ord) (\<lambda>(strct, nameReceived). ToolComponent.Contents strct) ''contents'' json_Unmarshal_string"
  "field_case (ToolComponent_cases ord) (\<lambda>(strct, nameReceived). ToolComponent.DottedQuadFileVersion strct) ''dottedQuadFileVersion'' json_Unmarshal_string"
  "field_case (ToolComponent_cases ord) (\<lambda>(strct, nameReceived). ToolComponent.DownloadUri strct) ''downloadUri'' json_Unmarshal_string"
  "field_case (ToolComponent_cases ord) (\<lambda>(strct, nameReceived). ToolComponent.FullDescription strct) ''fullDescription'' (json_Unmarshal_ptr (MultiformatMessageString_UnmarshalJSON ord))"
  "field_case (ToolComponent_cases ord) (\<lambda>(strct, nameReceived). ToolComponent.FullName strct) ''fullName'' json_Unmarshal_string"
  "field_case (ToolComponent_cases ord) (\<lambda>(strct, nameReceived). ToolComponent.GlobalMessageStrings strct) ''globalMessageStrings'' (json_Unmarshal_map (json_Unmarshal_ptr (MultiformatMessageString_UnmarshalJSON ord)))"
  "field_case (ToolComponent_cases ord) (\<lambda>(strct, nameReceived). ToolComponent.Guid strct) ''guid'' json_Unmarshal_string"
  "field_case (ToolComponent_cases ord) (\<lambda>(strct, nameReceived). ToolComponent.InformationUri strct) ''informationUri'' json_Unmarshal_string"
  "field_case (ToolComponent_cases ord) (\<lambda>(strct, nameReceived). ToolComponent.IsComprehensive strct) ''isComprehensive'' json_Unmarshal_bool"
  "field_case (ToolComponent_cases ord) (\<lambda>(strct, nameReceived). ToolComponent.Language strct) ''language'' json_Unmarshal_string"
  "field_case (ToolComponent_cases ord) (\<lambda>(strct, nameReceived). ToolComponent.LocalizedDataSemanticVersion strct) ''localizedDataSemanticVersion'' json_Unmarshal_string"
  "field_case (ToolComponent_cases ord) (\<lambda>(strct, nameReceived). ToolComponent.Locations strct) ''locations'' (json_Unmarshal_slice (json_Unmarshal_ptr (ArtifactLocation_UnmarshalJSON ord)))"
  "field_case (ToolComponent_cases ord) (\<lambda>(strct, nameReceived). ToolComponent.MinimumRequiredLocalizedDataSemanticVersion strct) ''minimumRequiredLocalizedDataSemanticVersion'' json_Unmarshal_string"
  "field_case (ToolComponent_cases ord) (\<lambda>(strct, nameReceived). ToolComponent.Name strct) ''name'' json_Unmarshal_string"
  "field_case (ToolComponent_cases ord) (\<lambda>(strct, nameReceived). ToolComponent.Notifications strct) ''notifications'' (json_Unmarshal_slice (json_Unmarshal_ptr (ReportingDescriptor_UnmarshalJSON ord)))"
  "field_case (ToolComponent_cases ord) (\<lambda>(strct, nameReceived). ToolComponent.Organization strct) ''organization'' json_Unmarshal_string"
  "field_case (ToolComponent_cases ord) (\<lambda>(strct, nameReceived). ToolComponent.Product strct) ''product'' json_Unmarshal_string"
  "field_case (ToolComponent_cases ord) (\<lambda>(strct, nameReceived). ToolComponent.ProductSuite strct) ''productSuite'' json_Unmarshal_string"
  "field_case (ToolComponent_cases ord) (\<lambda>(strct, nameReceived). ToolComponent.Properties strct) ''properties'' (json_Unmarshal_ptr (PropertyBag_UnmarshalJSON ord))"
  "field_case (ToolComponent_cases ord) (\<lambda>(strct, nameReceived). ToolComponent.ReleaseDateUtc strct) ''releaseDateUtc'' json_Unmarshal_string"
  "field_case (ToolComponent_cases ord) (\<lambda>(strct, nameReceived). ToolComponent.Rules strct) ''rules'' (json_Unmarshal_slice (json_Unmarshal_ptr (ReportingDescriptor_UnmarshalJSON ord)))"
  "field_case (ToolComponent_cases ord) (\<lambda>(strct, nameReceived). ToolComponent.SemanticVersion strct) ''semanticVersion'' json_Unmarshal_string"
  "field_case (ToolComponent_cases ord) (\<lambda>(strct, nameReceived). ToolComponent.ShortDescription strct) ''shortDescription'' (json_Unmarshal_ptr (MultiformatMessageString_UnmarshalJSON ord))"
  "field_case (ToolComponent_cases ord) (\<lambda>(strct, nameReceived). ToolComponent.SupportedTaxonomies strct) ''supportedTaxonomies'' (json_Unmarshal_slice (json_Unmarshal_ptr (ToolComponentReference_UnmarshalJSON ord)))"
  "field_case (ToolComponent_cases ord) (\<lambda>(strct, nameReceived). ToolComponent.Taxa strct) ''taxa'' (json_Unmarshal_slice (json_Unmarshal_ptr (ReportingDescriptor_UnmarshalJSON ord)))"
  "field_case (ToolComponent_cases ord) (\<lambda>(strct, nameReceived). ToolComponent.TranslationMetadata strct) ''translationMetadata'' (json_Unmarshal_ptr (TranslationMetadata_UnmarshalJSON ord))"
  "field_case (ToolComponent_cases ord) (\<lambda>(strct, nameReceived). ToolComponent.Version strct) ''version'' json_Unmarshal_string"
  "field_case (ToolComponent_cases ord) (\<lambda>(strct, nameReceived). nameReceived) ''name'' (received json_Unmarshal_string)"
  unfolding field_case_def ToolComponent_cases_def
  by (simp_all add: writes_into writes_received keeps_into split_def)

lemma ToolComponent_loop_sound:
  assumes loop: "range_loop (\<lambda>k v. switch k (ToolComponent_cases ord v) (reject k)) (members ord kvs) (ToolComponent_zero, False) = Inr (strct, nameReceived)"
  shows "dom (map_of (rev kvs)) \<subseteq> set ToolComponent_keys \<and>
     field_ok (json_Unmarshal_ptr (ToolComponentReference_UnmarshalJSON ord)) (map_of (rev kvs) ''associatedComponent'') None (ToolComponent.AssociatedComponent strct) \<and>
     field_ok json_Unmarshal_string (map_of (rev kvs) ''contents'') [] (ToolComponent.Contents strct) \<and>
     field_ok json_Unmarshal_string (map_of (rev kvs) ''dottedQuadFileVersion'') [] (ToolComponent.DottedQuadFileVersion strct) \<and>
     field_ok json_Unmarshal_string (map_of (rev kvs) ''downloadUri'') [] (ToolComponent.DownloadUri strct) \<and>
     field_ok (json_Unmarshal_ptr (MultiformatMessageString_UnmarshalJSON ord)) (map_of (rev kvs) ''fullDescription'') None (ToolComponent.FullDescription strct) \<and>
     field_ok json_Unmarshal_string (map_of (rev kvs) ''fullName'') [] (ToolComponent.FullName strct) \<and>
     field_ok (json_Unmarshal_map (json_Unmarshal_ptr (MultiformatMessageString_UnmarshalJSON ord))) (map_of (rev kvs) ''globalMessageStrings'') None (ToolComponent.GlobalMessageStrings strct) \<and>
     field_ok json_Unmarshal_string (map_of (rev kvs) ''guid'') [] (ToolComponent.Guid strct) \<and>
     field_ok json_Unmarshal_string (map_of (rev kvs) ''informationUri'') [] (ToolComponent.InformationUri strct) \<and>
     field_ok json_Unmarshal_bool (map_of (rev kvs) ''isComprehensive'') False (ToolComponent.IsComprehensive strct) \<and>
     field_ok json_Unmarshal_string (map_of (rev kvs) ''language'') [] (ToolComponent.Language strct) \<and>
     field_ok json_Unmarshal_string (map_of (rev kvs) ''localizedDataSemanticVersion'') [] (ToolComponent.LocalizedDataSemanticVersion strct) \<and>
     field_ok (json_Unmarshal_slice (json_Unmarshal_ptr (ArtifactLocation_UnmarshalJSON ord))) (map_of (rev kvs) ''locations'') None (ToolComponent.Locations strct) \<and>
     field_ok json_Unmarshal_string (map_of (rev kvs) ''minimumRequiredLocalizedDataSemanticVersion'') [] (ToolComponent.MinimumRequiredLocalizedDataSemanticVersion strct) \<and>
     field_ok json_Unmarshal_string (map_of (rev kvs) ''name'') [] (ToolComponent.Name strct) \<and>
     field_ok (json_Unmarshal_slice (json_Unmarshal_ptr (ReportingDescriptor_UnmarshalJSON ord))) (map_of (rev kvs) ''notifications'') None (ToolComponent.Notifications strct) \<and>
     field_ok json_Unmarshal_string (map_of (rev kvs) ''organization'') [] (ToolComponent.Organization strct) \<and>
     field_ok json_Unmarshal_string (map_of (rev kvs) ''product'') [] (ToolComponent.Product strct) \<and>
     field_ok json_Unmarshal_string (map_of (rev kvs) ''productSuite'') [] (ToolComponent.ProductSuite strct) \<and>
     field_ok (json_Unmarshal_ptr (PropertyBag_UnmarshalJSON ord)) (map_of (rev kvs) ''properties'') None (ToolComponent.Properties strct) \<and>
     field_ok json_Unmarshal_string (map_of (rev kvs) ''releaseDateUtc'') [] (ToolComponent.ReleaseDateUtc strct) \<and>
     field_ok (json_Unmarshal_slice (json_Unmarshal_ptr (ReportingDescriptor_UnmarshalJSON ord))) (map_of (rev kvs) ''rules'') None (ToolComponent.Rules strct) \<and>
     field_ok json_Unmarshal_string (map_of (rev kvs) ''semanticVersion'') [] (ToolComponent.SemanticVersion strct) \<and>
     field_ok (json_Unmarshal_ptr (MultiformatMessageString_UnmarshalJSON ord)) (map_of (rev kvs) ''shortDescription'') None (ToolComponent.ShortDescription strct) \<and>
     field_ok (json_Unmarshal_slice (json_Unmarshal_ptr (ToolComponentReference_UnmarshalJSON ord))) (map_of (rev kvs) ''supportedTaxonomies'') None (ToolComponent.SupportedTaxonomies strct) \<and>
     field_ok (json_Unmarshal_slice (json_Unmarshal_ptr (ReportingDescriptor_UnmarshalJSON ord))) (map_of (rev kvs) ''taxa'') None (ToolComponent.Taxa strct) \<and>
     field_ok (json_Unmarshal_ptr (TranslationMetadata_UnmarshalJSON ord)) (map_of (rev kvs) ''translationMetadata'') None (ToolComponent.TranslationMetadata strct) \<and>
     field_ok json_Unmarshal_string (map_of (rev kvs) ''version'') [] (ToolComponent.Version strct) \<and>
     (nameReceived \<longleftrightarrow> map_of (rev kvs) ''name'' \<noteq> None)"
proof -
  have "fst ` set (members ord kvs) \<subseteq> set ToolComponent_keys"
    by (rule loop_keys_known [OF loop]) (rule ToolComponent_cases_keys)
  then have keys: "dom (map_of (rev kvs)) \<subseteq> set ToolComponent_keys"
    by (simp add: dom_members [of kvs ord])
  note fld = field_after_loop [OF _ members_distinct loop, unfolded map_of_members]
  note flg = flag_after_loop [OF _ members_distinct loop, unfolded map_of_members]
  show ?thesis
    using keys fld [OF ToolComponent_fields(1)] fld [OF ToolComponent_fields(2)] fld [OF ToolComponent_fields(3)] fld [OF ToolComponent_fields(4)] fld [OF ToolComponent_fields(5)] fld [OF ToolComponent_fields(6)] fld [OF ToolComponent_fields(7)] fld [OF ToolComponent_fields(8)] fld [OF ToolComponent_fields(9)] fld [OF ToolComponent_fields(10)] fld [OF ToolComponent_fields(11)] fld [OF ToolComponent_fields(12)] fld [OF ToolComponent_fields(13)] fld [OF ToolComponent_fields(14)] fld [OF ToolComponent_fields(15)] fld [OF ToolComponent_fields(16)] fld [OF ToolComponent_fields(17)] fld [OF ToolComponent_fields(18)] fld [OF ToolComponent_fields(19)] fld [OF ToolComponent_fields(20)] fld [OF ToolComponent_fields(21)] fld [OF ToolComponent_fields(22)] fld [OF ToolComponent_fields(23)] fld [OF ToolComponent_fields(24)] fld [OF ToolComponent_fields(25)] fld [OF ToolComponent_fields(26)] fld [OF ToolComponent_fields(27)] fld [OF ToolComponent_fields(28)] flg [OF ToolComponent_fields(29)]
    by (simp only: prod.case ToolComponent_zero_def ToolComponent.select_convs simp_thms)
qed

lemma ToolComponent_decodesD:
  assumes "ToolComponent_decodes ord m strct"
  shows "dom m \<subseteq> set ToolComponent_keys"
    and "field_ok (json_Unmarshal_ptr (ToolComponentReference_UnmarshalJSON ord)) (m ''associatedComponent'') None (ToolComponent.AssociatedComponent strct)"
    and "field_ok json_Unmarshal_string (m ''contents'') [] (ToolComponent.Contents strct)"
    and "field_ok json_Unmarshal_string (m ''dottedQuadFileVersion'') [] (ToolComponent.DottedQuadFileVersion strct)"
    and "field_ok json_Unmarshal_string (m ''downloadUri'') [] (ToolComponent.DownloadUri strct)"
    and "field_ok (json_Unmarshal_ptr (MultiformatMessageString_UnmarshalJSON ord)) (m ''fullDescription'') None (ToolComponent.FullDescription strct)"
    and "field_ok json_Unmarshal_string (m ''fullName'') [] (ToolComponent.FullName strct)"
    and "field_ok (json_Unmarshal_map (json_Unmarshal_ptr (MultiformatMessageString_UnmarshalJSON ord))) (m ''globalMessageStrings'') None (ToolComponent.GlobalMessageStrings strct)"
    and "field_ok json_Unmarshal_string (m ''guid'') [] (ToolComponent.Guid strct)"
    and "field_ok json_Unmarshal_string (m ''informationUri'') [] (ToolComponent.InformationUri strct)"
    and "field_ok json_Unmarshal_bool (m ''isComprehensive'') False (ToolComponent.IsComprehensive strct)"
    and "field_ok json_Unmarshal_string (m ''language'') [] (ToolComponent.Language strct)"
    and "field_ok json_Unmarshal_string (m ''localizedDataSemanticVersion'') [] (ToolComponent.LocalizedDataSemanticVersion strct)"
    and "field_ok (json_Unmarshal_slice (json_Unmarshal_ptr (ArtifactLocation_UnmarshalJSON ord))) (m ''locations'') None (ToolComponent.Locations strct)"
    and "field_ok json_Unmarshal_string (m ''minimumRequiredLocalizedDataSemanticVersion'') [] (ToolComponent.MinimumRequiredLocalizedDataSemanticVersion strct)"
    and "field_ok json_Unmarshal_string (m ''name'') [] (ToolComponent.Name strct)"
    and "field_ok (json_Unmarshal_slice (json_Unmarshal_ptr (ReportingDescriptor_UnmarshalJSON ord))) (m ''notifications'') None (ToolComponent.Notifications strct)"
    and "field_ok json_Unmarshal_string (m ''organization'') [] (ToolComponent.Organization strct)"
    and "field_ok json_Unmarshal_string (m ''product'') [] (ToolComponent.Product strct)"
    and "field_ok json_Unmarshal_string (m ''productSuite'') [] (ToolComponent.ProductSuite strct)"
    and "field_ok (json_Unmarshal_ptr (PropertyBag_UnmarshalJSON ord)) (m ''properties'') None (ToolComponent.Properties strct)"
    and "field_ok json_Unmarshal_string (m ''releaseDateUtc'') [] (ToolComponent.ReleaseDateUtc strct)"
    and "field_ok (json_Unmarshal_slice (json_Unmarshal_ptr (ReportingDescriptor_UnmarshalJSON ord))) (m ''rules'') None (ToolComponent.Rules strct)"
    and "field_ok json_Unmarshal_string (m ''semanticVersion'') [] (ToolComponent.SemanticVersion strct)"
    and "field_ok (json_Unmarshal_ptr (MultiformatMessageString_UnmarshalJSON ord)) (m ''shortDescription'') None (ToolComponent.ShortDescription strct)"
    and "field_ok (json_Unmarshal_slice (json_Unmarshal_ptr (ToolComponentReference_UnmarshalJSON ord))) (m ''supportedTaxonomies'') None (ToolComponent.SupportedTaxonomies strct)"
    and "field_ok (json_Unmarshal_slice (json_Unmarshal_ptr (ReportingDescriptor_UnmarshalJSON ord))) (m ''taxa'') None (ToolComponent.Taxa strct)"
    and "field_ok (json_Unmarshal_ptr (TranslationMetadata_UnmarshalJSON ord)) (m ''translationMetadata'') None (ToolComponent.TranslationMetadata strct)"
    and "field_ok json_Unmarshal_string (m ''version'') [] (ToolComponent.Version strct)"
    and "m ''name'' \<noteq> None"
  using assms unfolding ToolComponent_decodes_def by - (elim conjE, assumption)+

lemma ToolComponent_decodes_unique:
  assumes "ToolComponent_decodes ord m a" and "ToolComponent_decodes ord m b"
  shows "a = b"
  apply (rule ToolComponent.equality)
  apply (rule field_ok_unique [OF ToolComponent_decodesD(2) [OF assms(1)] ToolComponent_decodesD(2) [OF assms(2)]])
  apply (rule field_ok_unique [OF ToolComponent_decodesD(3) [OF assms(1)] ToolComponent_decodesD(3) [OF assms(2)]])
  apply (rule field_ok_unique [OF ToolComponent_decodesD(4) [OF assms(1)] ToolComponent_decodesD(4) [OF assms(2)]])
  apply (rule field_ok_unique [OF ToolComponent_decodesD(5) [OF assms(1)] ToolComponent_decodesD(5) [OF assms(2)]])
  apply (rule field_ok_unique [OF ToolComponent_decodesD(6) [OF assms(1)] ToolComponent_decodesD(6) [OF assms(2)]])
  apply (rule field_ok_unique [OF ToolComponent_decodesD(7) [OF assms(1)] ToolComponent_decodesD(7) [OF assms(2)]])
  apply (rule field_ok_unique [OF ToolComponent_decodesD(8) [OF assms(1)] ToolComponent_decodesD(8) [OF assms(2)]])
  apply (rule field_ok_unique [OF ToolComponent_decodesD(9) [OF assms(1)] ToolComponent_decodesD(9) [OF assms(2)]])
  apply (rule field_ok_unique [OF ToolComponent_decodesD(10) [OF assms(1)] ToolComponent_decodesD(10) [OF assms(2)]])
  apply (rule field_ok_unique [OF ToolComponent_decodesD(11) [OF assms(1)] ToolComponent_decodesD(11) [OF assms(2)]])
  apply (rule field_ok_unique [OF ToolComponent_decodesD(12) [OF assms(1)] ToolComponent_decodesD(12) [OF assms(2)]])
  apply (rule field_ok_unique [OF ToolComponent_decodesD(13) [OF assms(1)] ToolComponent_decodesD(13) [OF assms(2)]])
  apply (rule field_ok_unique [OF ToolComponent_decodesD(14) [OF assms(1)] ToolComponent_decodesD(14) [OF assms(2)]])
  apply (rule field_ok_unique [OF ToolComponent_decodesD(15) [OF assms(1)] ToolComponent_decodesD(15) [OF assms(2)]])
  apply (rule field_ok_unique [OF ToolComponent_decodesD(16) [OF assms(1)] ToolComponent_decodesD(16) [OF assms(2)]])
  apply (rule field_ok_unique [OF ToolComponent_decodesD(17) [OF assms(1)] ToolComponent_decodesD(17) [OF assms(2)]])
  apply (rule field_ok_unique [OF ToolComponent_decodesD(18) [OF assms(1)] ToolComponent_decodesD(18) [OF assms(2)]])
  apply (rule field_ok_unique [OF ToolComponent_decodesD(19) [OF assms(1)] ToolComponent_decodesD(19) [OF assms(2)]])
  apply (rule field_ok_unique [OF ToolComponent_decodesD(20) [OF assms(1)] ToolComponent_decodesD(20) [OF assms(2)]])
  apply (rule field_ok_unique [OF ToolComponent_decodesD(21) [OF assms(1)] ToolComponent_decodesD(21) [OF assms(2)]])
  apply (rule field_ok_unique [OF ToolComponent_decodesD(22) [OF assms(1)] ToolComponent_decodesD(22) [OF assms(2)]])
  apply (rule field_ok_unique [OF ToolComponent_decodesD(23) [OF assms(1)] ToolComponent_decodesD(23) [OF assms(2)]])
  apply (rule field_ok_unique [OF ToolComponent_decodesD(24) [OF assms(1)] ToolComponent_decodesD(24) [OF assms(2)]])
  apply (rule field_ok_unique [OF ToolComponent_decodesD(25) [OF assms(1)] ToolComponent_decodesD(25) [OF assms(2)]])
  apply (rule field_ok_unique [OF ToolComponent_decodesD(26) [OF assms(1)] ToolComponent_decodesD(26) [OF assms(2)]])
  apply (rule field_ok_unique [OF ToolComponent_decodesD(27) [OF assms(1)] ToolComponent_decodesD(27) [OF assms(2)]])
  apply (rule field_ok_unique [OF ToolComponent_decodesD(28) [OF assms(1)] ToolComponent_decodesD(28) [OF assms(2)]])
  apply (rule field_ok_unique [OF ToolComponent_decodesD(29) [OF assms(1)] ToolComponent_decodesD(29) [OF assms(2)]])
  apply simp
  done

lemma ToolComponent_accepts:
  assumes "ToolComponent_decodes ord m strct" and "m k = Some v"
  shows "accepting (switch k (ToolComponent_cases ord v) (reject k))"
proof -
  from assms have "k \<in> set ToolComponent_keys" by (auto simp: ToolComponent_decodes_def)
  then have key: "k \<in> fst ` set (ToolComponent_cases ord v)"
    by (simp only: ToolComponent_cases_keys)
  have rows: "list_all (\<lambda>(c, h). m c = Some v \<longrightarrow> accepting h) (ToolComponent_cases ord v)"
    unfolding ToolComponent_cases_def list.pred_inject
    apply (rule conjI [OF accept_row [where m = m and v = v, OF ToolComponent_decodesD(2) [OF assms(1)]]])
    apply (rule conjI [OF accept_row [where m = m and v = v, OF ToolComponent_decodesD(3) [OF assms(1)]]])
    apply (rule conjI [OF accept_row [where m = m and v = v, OF ToolComponent_decodesD(4) [OF assms(1)]]])
    apply (rule conjI [OF accept_row [where m = m and v = v, OF ToolComponent_decodesD(5) [OF assms(1)]]])
    apply (rule conjI [OF accept_row [where m = m and v = v, OF ToolComponent_decodesD(6) [OF assms(1)]]])
    apply (rule conjI [OF accept_row [where m = m and v = v, OF ToolComponent_decodesD(7) [OF assms(1)]]])
    apply (rule conjI [OF accept_row [where m = m and v = v, OF ToolComponent_decodesD(8) [OF assms(1)]]])
    apply (rule conjI [OF accept_row [where m = m and v = v, OF ToolComponent_decodesD(9) [OF assms(1)]]])
    apply (rule conjI [OF accept_row [where m = m and v = v, OF ToolComponent_decodesD(10) [OF assms(1)]]])
    apply (rule conjI [OF accept_row [where m = m and v = v, OF ToolComponent_decodesD(11) [OF assms(1)]]])
    apply (rule conjI [OF accept_row [where m = m and v = v, OF ToolComponent_decodesD(12) [OF assms(1)]]])
    apply (rule conjI [OF accept_row [where m = m and v = v, OF ToolComponent_decodesD(13) [OF assms(1)]]])
    apply (rule conjI [OF accept_row [where m = m and v = v, OF ToolComponent_decodesD(14) [OF assms(1)]]])
    apply (rule conjI [OF accept_row [where m = m and v = v, OF ToolComponent_decodesD(15) [OF assms(1)]]])
    apply (rule conjI [OF accept_row [where m = m and v = v, OF ToolComponent_decodesD(16) [OF assms(1)]]])
    apply (rule conjI [OF accept_row [where m = m and v = v, OF ToolComponent_decodesD(17) [OF assms(1)]]])
    apply (rule conjI [OF accept_row [where m = m and v = v, OF ToolComponent_decodesD(18) [OF assms(1)]]])
    apply (rule conjI [OF accept_row [where m = m and v = v, OF ToolComponent_decodesD(19) [OF assms(1)]]])
    apply (rule conjI [OF accept_row [where m = m and v = v, OF ToolComponent_decodesD(20) [OF assms(1)]]])
    apply (rule conjI [OF accept_row [where m = m and v = v, OF ToolComponent_decodesD(21) [OF assms(1)]]])
    apply (rule conjI [OF accept_row [where m = m and v = v, OF ToolComponent_decodesD(22) [OF assms(1)]]])
    apply (rule conjI [OF accept_row [where m = m and v = v, OF ToolComponent_decodesD(23) [OF assms(1)]]])
    apply (rule conjI [OF accept_row [where m = m and v = v, OF ToolComponent_decodesD(24) [OF assms(1)]]])
    apply (rule conjI [OF accept_row [where m = m and v = v, OF ToolComponent_decodesD(25) [OF assms(1)]]])
    apply (rule conjI [OF accept_row [where m = m and v = v, OF ToolComponent_decodesD(26) [OF assms(1)]]])
    apply (rule conjI [OF accept_row [where m = m and v = v, OF ToolComponent_decodesD(27) [OF assms(1)]]])
    apply (rule conjI [OF accept_row [where m = m and v = v, OF ToolComponent_decodesD(28) [OF assms(1)]]])
    apply (rule conjI [OF accept_row [where m = m and v = v, OF ToolComponent_decodesD(29) [OF assms(1)]]])
    apply simp
    done
  show ?thesis by (rule rows_accept [OF rows assms(2) key])
qed

lemma ToolComponent_decode_iff:
  "ToolComponent_UnmarshalJSON ord (JObj kvs) = Inr strct \<longleftrightarrow>
   ToolComponent_decodes ord (map_of (rev kvs)) strct"
proof
  assume "ToolComponent_UnmarshalJSON ord (JObj kvs) = Inr strct"
  then obtain nameReceived where
    loop: "range_loop (\<lambda>k v. switch k (ToolComponent_cases ord v) (reject k)) (members ord kvs) (ToolComponent_zero, False) = Inr (strct, nameReceived)"
    and fin: "nameReceived"
    by (auto simp: ToolComponent_UnmarshalJSON_def members_def split: sum.splits if_splits)
  from ToolComponent_loop_sound [OF loop] fin
  show "ToolComponent_decodes ord (map_of (rev kvs)) strct"
    by (simp add: ToolComponent_decodes_def)
next
  assume d: "ToolComponent_decodes ord (map_of (rev kvs)) strct"
  have "\<exists>t. range_loop (\<lambda>k v. switch k (ToolComponent_cases ord v) (reject k)) (members ord kvs) (ToolComponent_zero, False) = Inr t"
  proof (rule loop_succeeds [OF ToolComponent_regular])
    fix k v assume "(k, v) \<in> set (members ord kvs)"
    then have "map_of (rev kvs) k = Some v" by (rule member_lookup)
    from ToolComponent_accepts [OF d this]
    show "accepting (switch k (ToolComponent_cases ord v) (reject k))" .
  qed
  then obtain t where "range_loop (\<lambda>k v. switch k (ToolComponent_cases ord v) (reject k)) (members ord kvs) (ToolComponent_zero, False) = Inr t" ..
  then obtain strct' nameReceived where
    loop: "range_loop (\<lambda>k v. switch k (ToolComponent_cases ord v) (reject k)) (members ord kvs) (ToolComponent_zero, False) = Inr (strct', nameReceived)"
    by (cases t) auto
  from ToolComponent_loop_sound [OF loop] d
  have fin: "nameReceived"
    and d': "ToolComponent_decodes ord (map_of (rev kvs)) strct'"
    by (simp_all add: ToolComponent_decodes_def)
  from ToolComponent_decodes_unique [OF d' d] have "strct' = strct" .
  with loop fin show "ToolComponent_UnmarshalJSON ord (JObj kvs) = Inr strct"
    by (simp add: ToolComponent_UnmarshalJSON_def members_def)
qed

definition ToolComponent_results :: "scanner \<Rightarrow> order \<Rightarrow> ToolComponent \<Rightarrow> (string \<times> (error + json)) list" where
  "ToolComponent_results scn ord strct =
     [(''associatedComponent'', json_Marshal_ptr ''*sarif.ToolComponentReference'' (ToolComponentReference_MarshalJSON scn ord) (ToolComponent.AssociatedComponent strct)),
      (''contents'', json_Marshal_string (ToolComponent.Contents strct)),
      (''dottedQuadFileVersion'', json_Marshal_string (ToolComponent.DottedQuadFileVersion strct)),
      (''downloadUri'', json_Marshal_string (ToolComponent.DownloadUri strct)),
      (''fullDescription'', json_Marshal_ptr ''*sarif.MultiformatMessageString'' (MultiformatMessageString_MarshalJSON scn ord) (ToolComponent.FullDescription strct)),
      (''fullName'', json_Marshal_string (ToolComponent.FullName strct)),
      (''globalMessageStrings'', json_Marshal_map (json_Marshal_ptr ''*sarif.MultiformatMessageString'' (MultiformatMessageString_MarshalJSON scn ord)) (ToolComponent.GlobalMessageStrings strct)),
      (''guid'', json_Marshal_string (ToolComponent.Guid strct)),
      (''informationUri'', json_Marshal_string (ToolComponent.InformationUri strct)),
      (''isComprehensive'', json_Marshal_bool (ToolComponent.IsComprehensive strct)),
      (''language'', json_Marshal_string (ToolComponent.Language strct)),
      (''localizedDataSemanticVersion'', json_Marshal_string (ToolComponent.LocalizedDataSemanticVersion strct)),
      (''locations'', json_Marshal_slice (json_Marshal_ptr ''*sarif.ArtifactLocation'' (ArtifactLocation_MarshalJSON scn ord)) (ToolComponent.Locations strct)),
      (''minimumRequiredLocalizedDataSemanticVersion'', json_Marshal_string (ToolComponent.MinimumRequiredLocalizedDataSemanticVersion strct)),
      (''name'', json_Marshal_string (ToolComponent.Name strct)),
      (''notifications'', json_Marshal_slice (json_Marshal_ptr ''*sarif.ReportingDescriptor'' (ReportingDescriptor_MarshalJSON scn ord)) (ToolComponent.Notifications strct)),
      (''organization'', json_Marshal_string (ToolComponent.Organization strct)),
      (''product'', json_Marshal_string (ToolComponent.Product strct)),
      (''productSuite'', json_Marshal_string (ToolComponent.ProductSuite strct)),
      (''properties'', json_Marshal_bytes ''*sarif.PropertyBag'' (PropertyBag_MarshalJSON scn ord) (ToolComponent.Properties strct)),
      (''releaseDateUtc'', json_Marshal_string (ToolComponent.ReleaseDateUtc strct)),
      (''rules'', json_Marshal_slice (json_Marshal_ptr ''*sarif.ReportingDescriptor'' (ReportingDescriptor_MarshalJSON scn ord)) (ToolComponent.Rules strct)),
      (''semanticVersion'', json_Marshal_string (ToolComponent.SemanticVersion strct)),
      (''shortDescription'', json_Marshal_ptr ''*sarif.MultiformatMessageString'' (MultiformatMessageString_MarshalJSON scn ord) (ToolComponent.ShortDescription strct)),
      (''supportedTaxonomies'', json_Marshal_slice (json_Marshal_ptr ''*sarif.ToolComponentReference'' (ToolComponentReference_MarshalJSON scn ord)) (ToolComponent.SupportedTaxonomies strct)),
      (''taxa'', json_Marshal_slice (json_Marshal_ptr ''*sarif.ReportingDescriptor'' (ReportingDescriptor_MarshalJSON scn ord)) (ToolComponent.Taxa strct)),
      (''translationMetadata'', json_Marshal_ptr ''*sarif.TranslationMetadata'' (TranslationMetadata_MarshalJSON scn ord) (ToolComponent.TranslationMetadata strct)),
      (''version'', json_Marshal_string (ToolComponent.Version strct))]"

lemma ToolComponent_MarshalJSON_results:
  "ToolComponent_MarshalJSON scn ord strct = object (emit_all (ToolComponent_results scn ord strct))"
  by (simp add: ToolComponent_MarshalJSON_def ToolComponent_results_def emit_nilcheck)

lemma ToolComponent_keys_written:
  "ToolComponent_MarshalJSON scn ord strct = Inr j \<Longrightarrow> \<exists>kvs. j = JObj kvs \<and> map fst kvs = ToolComponent_keys"
  using keys_written [of "ToolComponent_results scn ord strct" j]
  by (simp add: ToolComponent_MarshalJSON_results ToolComponent_results_def ToolComponent_keys_def)

definition ToolComponent_encodable :: "scanner \<Rightarrow> order \<Rightarrow> ToolComponent \<Rightarrow> bool" where
  "ToolComponent_encodable scn ord strct \<longleftrightarrow>
     ptr_all (ToolComponentReference_encodable scn ord) (ToolComponent.AssociatedComponent strct) \<and>
     ptr_all (MultiformatMessageString_encodable scn ord) (ToolComponent.FullDescription strct) \<and>
     map_all (ptr_all (MultiformatMessageString_encodable scn ord)) (ToolComponent.GlobalMessageStrings strct) \<and>
     slice_all (ptr_all (ArtifactLocation_encodable scn ord)) (ToolComponent.Locations strct) \<and>
     slice_all (ptr_all (ReportingDescriptor_encodable scn ord)) (ToolComponent.Notifications strct) \<and>
     ptr_all (PropertyBag_encodable scn ord) (ToolComponent.Properties strct) \<and>
     slice_all (ptr_all (ReportingDescriptor_encodable scn ord)) (ToolComponent.Rules strct) \<and>
     ptr_all (MultiformatMessageString_encodable scn ord) (ToolComponent.ShortDescription strct) \<and>
     slice_all (ptr_all (ToolComponentReference_encodable scn ord)) (ToolComponent.SupportedTaxonomies strct) \<and>
     slice_all (ptr_all (ReportingDescriptor_encodable scn ord)) (ToolComponent.Taxa strct) \<and>
     ptr_all (TranslationMetadata_encodable scn ord) (ToolComponent.TranslationMetadata strct)"

lemma ToolComponent_fails_unless: "fails_unless (ToolComponent_MarshalJSON scn ord) (ToolComponent_encodable scn ord)"
  unfolding fails_unless_def ToolComponent_MarshalJSON_results ToolComponent_results_def ToolComponent_encodable_def isl_object_emit_all
  by (auto simp add: always_simps
      fails_unlessD [OF fails_unless_ptr [OF ToolComponentReference_fails_unless]]
      fails_unlessD [OF fails_unless_string]
      fails_unlessD [OF fails_unless_ptr [OF MultiformatMessageString_fails_unless]]
      fails_unlessD [OF fails_unless_map [OF fails_unless_ptr [OF MultiformatMessageString_fails_unless]]]
      fails_unlessD [OF fails_unless_bool]
      fails_unlessD [OF fails_unless_slice [OF fails_unless_ptr [OF ArtifactLocation_fails_unless]]]
      fails_unlessD [OF fails_unless_slice [OF fails_unless_ptr [OF ReportingDescriptor_fails_unless]]]
      fails_unlessD [OF PropertyBag_field_fails_unless]
      fails_unlessD [OF fails_unless_slice [OF fails_unless_ptr [OF ToolComponentReference_fails_unless]]]
      fails_unlessD [OF fails_unless_ptr [OF TranslationMetadata_fails_unless]])

definition ToolComponent_valid :: "ToolComponent \<Rightarrow> bool" where
  "ToolComponent_valid strct \<longleftrightarrow>
     ptr_all ToolComponentReference_valid (ToolComponent.AssociatedComponent strct) \<and>
     ptr_all MultiformatMessageString_valid (ToolComponent.FullDescription strct) \<and>
     map_valid (ptr_all MultiformatMessageString_valid) (ToolComponent.GlobalMessageStrings strct) \<and>
     slice_all (ptr_all ArtifactLocation_valid) (ToolComponent.Locations strct) \<and>
     slice_all (ptr_all ReportingDescriptor_valid) (ToolComponent.Notifications strct) \<and>
     ptr_all PropertyBag_valid (ToolComponent.Properties strct) \<and>
     slice_all (ptr_all ReportingDescriptor_valid) (ToolComponent.Rules strct) \<and>
     ptr_all MultiformatMessageString_valid (ToolComponent.ShortDescription strct) \<and>
     slice_all (ptr_all ToolComponentReference_valid) (ToolComponent.SupportedTaxonomies strct) \<and>
     slice_all (ptr_all ReportingDescriptor_valid) (ToolComponent.Taxa strct) \<and>
     ptr_all TranslationMetadata_valid (ToolComponent.TranslationMetadata strct)"

lemma ToolComponent_keys_distinct: "distinct ToolComponent_keys"
  by (simp add: ToolComponent_keys_def)

lemma ToolComponent_round_trips:
  "round_trips_object (ToolComponent_MarshalJSON scn ord) (ToolComponent_UnmarshalJSON ord') ToolComponent_valid"
  unfolding round_trips_object_def
proof (intro allI impI)
  fix strct assume v: "ToolComponent_valid strct"
  note v' = v [unfolded ToolComponent_valid_def]
  let ?rs = "ToolComponent_results scn ord strct"
  let ?kvs = "map (\<lambda>e. (fst e, projr (snd e))) ?rs"
  have f0: "\<not> isl (json_Marshal_ptr ''*sarif.ToolComponentReference'' (ToolComponentReference_MarshalJSON scn ord) (ToolComponent.AssociatedComponent strct)) \<and>
      json_Unmarshal_ptr (ToolComponentReference_UnmarshalJSON ord') (projr (json_Marshal_ptr ''*sarif.ToolComponentReference'' (ToolComponentReference_MarshalJSON scn ord) (ToolComponent.AssociatedComponent strct))) = Inr (ToolComponent.AssociatedComponent strct)"
    by (rule round_tripsD [OF round_trips_ptr [OF ToolComponentReference_round_trips]]) (use v' in simp)
  have f1: "\<not> isl (json_Marshal_string (ToolComponent.Contents strct)) \<and>
      json_Unmarshal_string (projr (json_Marshal_string (ToolComponent.Contents strct))) = Inr (ToolComponent.Contents strct)"
    by (rule round_tripsD [OF round_trips_string]) (use v' in simp)
  have f2: "\<not> isl (json_Marshal_string (ToolComponent.DottedQuadFileVersion strct)) \<and>
      json_Unmarshal_string (projr (json_Marshal_string (ToolComponent.DottedQuadFileVersion strct))) = Inr (ToolComponent.DottedQuadFileVersion strct)"
    by (rule round_tripsD [OF round_trips_string]) (use v' in simp)
  have f3: "\<not> isl (json_Marshal_string (ToolComponent.DownloadUri strct)) \<and>
      json_Unmarshal_string (projr (json_Marshal_string (ToolComponent.DownloadUri strct))) = Inr (ToolComponent.DownloadUri strct)"
    by (rule round_tripsD [OF round_trips_string]) (use v' in simp)
  have f4: "\<not> isl (json_Marshal_ptr ''*sarif.MultiformatMessageString'' (MultiformatMessageString_MarshalJSON scn ord) (ToolComponent.FullDescription strct)) \<and>
      json_Unmarshal_ptr (MultiformatMessageString_UnmarshalJSON ord') (projr (json_Marshal_ptr ''*sarif.MultiformatMessageString'' (MultiformatMessageString_MarshalJSON scn ord) (ToolComponent.FullDescription strct))) = Inr (ToolComponent.FullDescription strct)"
    by (rule round_tripsD [OF round_trips_ptr [OF MultiformatMessageString_round_trips]]) (use v' in simp)
  have f5: "\<not> isl (json_Marshal_string (ToolComponent.FullName strct)) \<and>
      json_Unmarshal_string (projr (json_Marshal_string (ToolComponent.FullName strct))) = Inr (ToolComponent.FullName strct)"
    by (rule round_tripsD [OF round_trips_string]) (use v' in simp)
  have f6: "\<not> isl (json_Marshal_map (json_Marshal_ptr ''*sarif.MultiformatMessageString'' (MultiformatMessageString_MarshalJSON scn ord)) (ToolComponent.GlobalMessageStrings strct)) \<and>
      json_Unmarshal_map (json_Unmarshal_ptr (MultiformatMessageString_UnmarshalJSON ord')) (projr (json_Marshal_map (json_Marshal_ptr ''*sarif.MultiformatMessageString'' (MultiformatMessageString_MarshalJSON scn ord)) (ToolComponent.GlobalMessageStrings strct))) = Inr (ToolComponent.GlobalMessageStrings strct)"
    by (rule round_tripsD [OF round_trips_map [OF round_trips_ptr [OF MultiformatMessageString_round_trips]]]) (use v' in simp)
  have f7: "\<not> isl (json_Marshal_string (ToolComponent.Guid strct)) \<and>
      json_Unmarshal_string (projr (json_Marshal_string (ToolComponent.Guid strct))) = Inr (ToolComponent.Guid strct)"
    by (rule round_tripsD [OF round_trips_string]) (use v' in simp)
  have f8: "\<not> isl (json_Marshal_string (ToolComponent.InformationUri strct)) \<and>
      json_Unmarshal_string (projr (json_Marshal_string (ToolComponent.InformationUri strct))) = Inr (ToolComponent.InformationUri strct)"
    by (rule round_tripsD [OF round_trips_string]) (use v' in simp)
  have f9: "\<not> isl (json_Marshal_bool (ToolComponent.IsComprehensive strct)) \<and>
      json_Unmarshal_bool (projr (json_Marshal_bool (ToolComponent.IsComprehensive strct))) = Inr (ToolComponent.IsComprehensive strct)"
    by (rule round_tripsD [OF round_trips_bool]) (use v' in simp)
  have f10: "\<not> isl (json_Marshal_string (ToolComponent.Language strct)) \<and>
      json_Unmarshal_string (projr (json_Marshal_string (ToolComponent.Language strct))) = Inr (ToolComponent.Language strct)"
    by (rule round_tripsD [OF round_trips_string]) (use v' in simp)
  have f11: "\<not> isl (json_Marshal_string (ToolComponent.LocalizedDataSemanticVersion strct)) \<and>
      json_Unmarshal_string (projr (json_Marshal_string (ToolComponent.LocalizedDataSemanticVersion strct))) = Inr (ToolComponent.LocalizedDataSemanticVersion strct)"
    by (rule round_tripsD [OF round_trips_string]) (use v' in simp)
  have f12: "\<not> isl (json_Marshal_slice (json_Marshal_ptr ''*sarif.ArtifactLocation'' (ArtifactLocation_MarshalJSON scn ord)) (ToolComponent.Locations strct)) \<and>
      json_Unmarshal_slice (json_Unmarshal_ptr (ArtifactLocation_UnmarshalJSON ord')) (projr (json_Marshal_slice (json_Marshal_ptr ''*sarif.ArtifactLocation'' (ArtifactLocation_MarshalJSON scn ord)) (ToolComponent.Locations strct))) = Inr (ToolComponent.Locations strct)"
    by (rule round_tripsD [OF round_trips_slice [OF round_trips_ptr [OF ArtifactLocation_round_trips]]]) (use v' in simp)
  have f13: "\<not> isl (json_Marshal_string (ToolComponent.MinimumRequiredLocalizedDataSemanticVersion strct)) \<and>
      json_Unmarshal_string (projr (json_Marshal_string (ToolComponent.MinimumRequiredLocalizedDataSemanticVersion strct))) = Inr (ToolComponent.MinimumRequiredLocalizedDataSemanticVersion strct)"
    by (rule round_tripsD [OF round_trips_string]) (use v' in simp)
  have f14: "\<not> isl (json_Marshal_string (ToolComponent.Name strct)) \<and>
      json_Unmarshal_string (projr (json_Marshal_string (ToolComponent.Name strct))) = Inr (ToolComponent.Name strct)"
    by (rule round_tripsD [OF round_trips_string]) (use v' in simp)
  have f15: "\<not> isl (json_Marshal_slice (json_Marshal_ptr ''*sarif.ReportingDescriptor'' (ReportingDescriptor_MarshalJSON scn ord)) (ToolComponent.Notifications strct)) \<and>
      json_Unmarshal_slice (json_Unmarshal_ptr (ReportingDescriptor_UnmarshalJSON ord')) (projr (json_Marshal_slice (json_Marshal_ptr ''*sarif.ReportingDescriptor'' (ReportingDescriptor_MarshalJSON scn ord)) (ToolComponent.Notifications strct))) = Inr (ToolComponent.Notifications strct)"
    by (rule round_tripsD [OF round_trips_slice [OF round_trips_ptr [OF ReportingDescriptor_round_trips]]]) (use v' in simp)
  have f16: "\<not> isl (json_Marshal_string (ToolComponent.Organization strct)) \<and>
      json_Unmarshal_string (projr (json_Marshal_string (ToolComponent.Organization strct))) = Inr (ToolComponent.Organization strct)"
    by (rule round_tripsD [OF round_trips_string]) (use v' in simp)
  have f17: "\<not> isl (json_Marshal_string (ToolComponent.Product strct)) \<and>
      json_Unmarshal_string (projr (json_Marshal_string (ToolComponent.Product strct))) = Inr (ToolComponent.Product strct)"
    by (rule round_tripsD [OF round_trips_string]) (use v' in simp)
  have f18: "\<not> isl (json_Marshal_string (ToolComponent.ProductSuite strct)) \<and>
      json_Unmarshal_string (projr (json_Marshal_string (ToolComponent.ProductSuite strct))) = Inr (ToolComponent.ProductSuite strct)"
    by (rule round_tripsD [OF round_trips_string]) (use v' in simp)
  have f19: "\<not> isl (json_Marshal_bytes ''*sarif.PropertyBag'' (PropertyBag_MarshalJSON scn ord) (ToolComponent.Properties strct)) \<and>
      json_Unmarshal_ptr (PropertyBag_UnmarshalJSON ord') (projr (json_Marshal_bytes ''*sarif.PropertyBag'' (PropertyBag_MarshalJSON scn ord) (ToolComponent.Properties strct))) = Inr (ToolComponent.Properties strct)"
    by (rule round_tripsD [OF PropertyBag_field_round_trips]) (use v' in simp)
  have f20: "\<not> isl (json_Marshal_string (ToolComponent.ReleaseDateUtc strct)) \<and>
      json_Unmarshal_string (projr (json_Marshal_string (ToolComponent.ReleaseDateUtc strct))) = Inr (ToolComponent.ReleaseDateUtc strct)"
    by (rule round_tripsD [OF round_trips_string]) (use v' in simp)
  have f21: "\<not> isl (json_Marshal_slice (json_Marshal_ptr ''*sarif.ReportingDescriptor'' (ReportingDescriptor_MarshalJSON scn ord)) (ToolComponent.Rules strct)) \<and>
      json_Unmarshal_slice (json_Unmarshal_ptr (ReportingDescriptor_UnmarshalJSON ord')) (projr (json_Marshal_slice (json_Marshal_ptr ''*sarif.ReportingDescriptor'' (ReportingDescriptor_MarshalJSON scn ord)) (ToolComponent.Rules strct))) = Inr (ToolComponent.Rules strct)"
    by (rule round_tripsD [OF round_trips_slice [OF round_trips_ptr [OF ReportingDescriptor_round_trips]]]) (use v' in simp)
  have f22: "\<not> isl (json_Marshal_string (ToolComponent.SemanticVersion strct)) \<and>
      json_Unmarshal_string (projr (json_Marshal_string (ToolComponent.SemanticVersion strct))) = Inr (ToolComponent.SemanticVersion strct)"
    by (rule round_tripsD [OF round_trips_string]) (use v' in simp)
  have f23: "\<not> isl (json_Marshal_ptr ''*sarif.MultiformatMessageString'' (MultiformatMessageString_MarshalJSON scn ord) (ToolComponent.ShortDescription strct)) \<and>
      json_Unmarshal_ptr (MultiformatMessageString_UnmarshalJSON ord') (projr (json_Marshal_ptr ''*sarif.MultiformatMessageString'' (MultiformatMessageString_MarshalJSON scn ord) (ToolComponent.ShortDescription strct))) = Inr (ToolComponent.ShortDescription strct)"
    by (rule round_tripsD [OF round_trips_ptr [OF MultiformatMessageString_round_trips]]) (use v' in simp)
  have f24: "\<not> isl (json_Marshal_slice (json_Marshal_ptr ''*sarif.ToolComponentReference'' (ToolComponentReference_MarshalJSON scn ord)) (ToolComponent.SupportedTaxonomies strct)) \<and>
      json_Unmarshal_slice (json_Unmarshal_ptr (ToolComponentReference_UnmarshalJSON ord')) (projr (json_Marshal_slice (json_Marshal_ptr ''*sarif.ToolComponentReference'' (ToolComponentReference_MarshalJSON scn ord)) (ToolComponent.SupportedTaxonomies strct))) = Inr (ToolComponent.SupportedTaxonomies strct)"
    by (rule round_tripsD [OF round_trips_slice [OF round_trips_ptr [OF ToolComponentReference_round_trips]]]) (use v' in simp)
  have f25: "\<not> isl (json_Marshal_slice (json_Marshal_ptr ''*sarif.ReportingDescriptor'' (ReportingDescriptor_MarshalJSON scn ord)) (ToolComponent.Taxa strct)) \<and>
      json_Unmarshal_slice (json_Unmarshal_ptr (ReportingDescriptor_UnmarshalJSON ord')) (projr (json_Marshal_slice (json_Marshal_ptr ''*sarif.ReportingDescriptor'' (ReportingDescriptor_MarshalJSON scn ord)) (ToolComponent.Taxa strct))) = Inr (ToolComponent.Taxa strct)"
    by (rule round_tripsD [OF round_trips_slice [OF round_trips_ptr [OF ReportingDescriptor_round_trips]]]) (use v' in simp)
  have f26: "\<not> isl (json_Marshal_ptr ''*sarif.TranslationMetadata'' (TranslationMetadata_MarshalJSON scn ord) (ToolComponent.TranslationMetadata strct)) \<and>
      json_Unmarshal_ptr (TranslationMetadata_UnmarshalJSON ord') (projr (json_Marshal_ptr ''*sarif.TranslationMetadata'' (TranslationMetadata_MarshalJSON scn ord) (ToolComponent.TranslationMetadata strct))) = Inr (ToolComponent.TranslationMetadata strct)"
    by (rule round_tripsD [OF round_trips_ptr [OF TranslationMetadata_round_trips]]) (use v' in simp)
  have f27: "\<not> isl (json_Marshal_string (ToolComponent.Version strct)) \<and>
      json_Unmarshal_string (projr (json_Marshal_string (ToolComponent.Version strct))) = Inr (ToolComponent.Version strct)"
    by (rule round_tripsD [OF round_trips_string]) (use v' in simp)
  note fs = f0 f1 f2 f3 f4 f5 f6 f7 f8 f9 f10 f11 f12 f13 f14 f15 f16 f17 f18 f19 f20 f21 f22 f23 f24 f25 f26 f27
  have rs: "?rs =
     [(''associatedComponent'', json_Marshal_ptr ''*sarif.ToolComponentReference'' (ToolComponentReference_MarshalJSON scn ord) (ToolComponent.AssociatedComponent strct)),
      (''contents'', json_Marshal_string (ToolComponent.Contents strct)),
      (''dottedQuadFileVersion'', json_Marshal_string (ToolComponent.DottedQuadFileVersion strct)),
      (''downloadUri'', json_Marshal_string (ToolComponent.DownloadUri strct)),
      (''fullDescription'', json_Marshal_ptr ''*sarif.MultiformatMessageString'' (MultiformatMessageString_MarshalJSON scn ord) (ToolComponent.FullDescription strct)),
      (''fullName'', json_Marshal_string (ToolComponent.FullName strct)),
      (''globalMessageStrings'', json_Marshal_map (json_Marshal_ptr ''*sarif.MultiformatMessageString'' (MultiformatMessageString_MarshalJSON scn ord)) (ToolComponent.GlobalMessageStrings strct)),
      (''guid'', json_Marshal_string (ToolComponent.Guid strct)),
      (''informationUri'', json_Marshal_string (ToolComponent.InformationUri strct)),
      (''isComprehensive'', json_Marshal_bool (ToolComponent.IsComprehensive strct)),
      (''language'', json_Marshal_string (ToolComponent.Language strct)),
      (''localizedDataSemanticVersion'', json_Marshal_string (ToolComponent.LocalizedDataSemanticVersion strct)),
      (''locations'', json_Marshal_slice (json_Marshal_ptr ''*sarif.ArtifactLocation'' (ArtifactLocation_MarshalJSON scn ord)) (ToolComponent.Locations strct)),
      (''minimumRequiredLocalizedDataSemanticVersion'', json_Marshal_string (ToolComponent.MinimumRequiredLocalizedDataSemanticVersion strct)),
      (''name'', json_Marshal_string (ToolComponent.Name strct)),
      (''notifications'', json_Marshal_slice (json_Marshal_ptr ''*sarif.ReportingDescriptor'' (ReportingDescriptor_MarshalJSON scn ord)) (ToolComponent.Notifications strct)),
      (''organization'', json_Marshal_string (ToolComponent.Organization strct)),
      (''product'', json_Marshal_string (ToolComponent.Product strct)),
      (''productSuite'', json_Marshal_string (ToolComponent.ProductSuite strct)),
      (''properties'', json_Marshal_bytes ''*sarif.PropertyBag'' (PropertyBag_MarshalJSON scn ord) (ToolComponent.Properties strct)),
      (''releaseDateUtc'', json_Marshal_string (ToolComponent.ReleaseDateUtc strct)),
      (''rules'', json_Marshal_slice (json_Marshal_ptr ''*sarif.ReportingDescriptor'' (ReportingDescriptor_MarshalJSON scn ord)) (ToolComponent.Rules strct)),
      (''semanticVersion'', json_Marshal_string (ToolComponent.SemanticVersion strct)),
      (''shortDescription'', json_Marshal_ptr ''*sarif.MultiformatMessageString'' (MultiformatMessageString_MarshalJSON scn ord) (ToolComponent.ShortDescription strct)),
      (''supportedTaxonomies'', json_Marshal_slice (json_Marshal_ptr ''*sarif.ToolComponentReference'' (ToolComponentReference_MarshalJSON scn ord)) (ToolComponent.SupportedTaxonomies strct)),
      (''taxa'', json_Marshal_slice (json_Marshal_ptr ''*sarif.ReportingDescriptor'' (ReportingDescriptor_MarshalJSON scn ord)) (ToolComponent.Taxa strct)),
      (''translationMetadata'', json_Marshal_ptr ''*sarif.TranslationMetadata'' (TranslationMetadata_MarshalJSON scn ord) (ToolComponent.TranslationMetadata strct)),
      (''version'', json_Marshal_string (ToolComponent.Version strct))]"
    by (auto simp add: ToolComponent_results_def)
  have keys: "map fst ?rs = ToolComponent_keys"
    by (simp add: ToolComponent_results_def ToolComponent_keys_def)
  then have dist: "distinct (map fst ?rs)"
    by (simp only: ToolComponent_keys_distinct)
  have ok: "list_all (\<lambda>e. \<not> isl (snd e)) ?rs"
    unfolding rs by (simp only: list.pred_inject snd_conv fs simp_thms)
  then have enc: "ToolComponent_MarshalJSON scn ord strct = Inr (JObj ?kvs)"
    by (simp add: ToolComponent_MarshalJSON_results [of scn ord strct] object_emit_all_eq_Inr)
  have l0: "map_of (rev ?kvs) ''associatedComponent'' = Some (projr (json_Marshal_ptr ''*sarif.ToolComponentReference'' (ToolComponentReference_MarshalJSON scn ord) (ToolComponent.AssociatedComponent strct)))"
    by (rule written_lookup [OF dist]) (subst rs, intro list.set_intros)
  have l1: "map_of (rev ?kvs) ''contents'' = Some (projr (json_Marshal_string (ToolComponent.Contents strct)))"
    by (rule written_lookup [OF dist]) (subst rs, intro list.set_intros)
  have l2: "map_of (rev ?kvs) ''dottedQuadFileVersion'' = Some (projr (json_Marshal_string (ToolComponent.DottedQuadFileVersion strct)))"
    by (rule written_lookup [OF dist]) (subst rs, intro list.set_intros)
  have l3: "map_of (rev ?kvs) ''downloadUri'' = Some (projr (json_Marshal_string (ToolComponent.DownloadUri strct)))"
    by (rule written_lookup [OF dist]) (subst rs, intro list.set_intros)
  have l4: "map_of (rev ?kvs) ''fullDescription'' = Some (projr (json_Marshal_ptr ''*sarif.MultiformatMessageString'' (MultiformatMessageString_MarshalJSON scn ord) (ToolComponent.FullDescription strct)))"
    by (rule written_lookup [OF dist]) (subst rs, intro list.set_intros)
  have l5: "map_of (rev ?kvs) ''fullName'' = Some (projr (json_Marshal_string (ToolComponent.FullName strct)))"
    by (rule written_lookup [OF dist]) (subst rs, intro list.set_intros)
  have l6: "map_of (rev ?kvs) ''globalMessageStrings'' = Some (projr (json_Marshal_map (json_Marshal_ptr ''*sarif.MultiformatMessageString'' (MultiformatMessageString_MarshalJSON scn ord)) (ToolComponent.GlobalMessageStrings strct)))"
    by (rule written_lookup [OF dist]) (subst rs, intro list.set_intros)
  have l7: "map_of (rev ?kvs) ''guid'' = Some (projr (json_Marshal_string (ToolComponent.Guid strct)))"
    by (rule written_lookup [OF dist]) (subst rs, intro list.set_intros)
  have l8: "map_of (rev ?kvs) ''informationUri'' = Some (projr (json_Marshal_string (ToolComponent.InformationUri strct)))"
    by (rule written_lookup [OF dist]) (subst rs, intro list.set_intros)
  have l9: "map_of (rev ?kvs) ''isComprehensive'' = Some (projr (json_Marshal_bool (ToolComponent.IsComprehensive strct)))"
    by (rule written_lookup [OF dist]) (subst rs, intro list.set_intros)
  have l10: "map_of (rev ?kvs) ''language'' = Some (projr (json_Marshal_string (ToolComponent.Language strct)))"
    by (rule written_lookup [OF dist]) (subst rs, intro list.set_intros)
  have l11: "map_of (rev ?kvs) ''localizedDataSemanticVersion'' = Some (projr (json_Marshal_string (ToolComponent.LocalizedDataSemanticVersion strct)))"
    by (rule written_lookup [OF dist]) (subst rs, intro list.set_intros)
  have l12: "map_of (rev ?kvs) ''locations'' = Some (projr (json_Marshal_slice (json_Marshal_ptr ''*sarif.ArtifactLocation'' (ArtifactLocation_MarshalJSON scn ord)) (ToolComponent.Locations strct)))"
    by (rule written_lookup [OF dist]) (subst rs, intro list.set_intros)
  have l13: "map_of (rev ?kvs) ''minimumRequiredLocalizedDataSemanticVersion'' = Some (projr (json_Marshal_string (ToolComponent.MinimumRequiredLocalizedDataSemanticVersion strct)))"
    by (rule written_lookup [OF dist]) (subst rs, intro list.set_intros)
  have l14: "map_of (rev ?kvs) ''name'' = Some (projr (json_Marshal_string (ToolComponent.Name strct)))"
    by (rule written_lookup [OF dist]) (subst rs, intro list.set_intros)
  have l15: "map_of (rev ?kvs) ''notifications'' = Some (projr (json_Marshal_slice (json_Marshal_ptr ''*sarif.ReportingDescriptor'' (ReportingDescriptor_MarshalJSON scn ord)) (ToolComponent.Notifications strct)))"
    by (rule written_lookup [OF dist]) (subst rs, intro list.set_intros)
  have l16: "map_of (rev ?kvs) ''organization'' = Some (projr (json_Marshal_string (ToolComponent.Organization strct)))"
    by (rule written_lookup [OF dist]) (subst rs, intro list.set_intros)
  have l17: "map_of (rev ?kvs) ''product'' = Some (projr (json_Marshal_string (ToolComponent.Product strct)))"
    by (rule written_lookup [OF dist]) (subst rs, intro list.set_intros)
  have l18: "map_of (rev ?kvs) ''productSuite'' = Some (projr (json_Marshal_string (ToolComponent.ProductSuite strct)))"
    by (rule written_lookup [OF dist]) (subst rs, intro list.set_intros)
  have l19: "map_of (rev ?kvs) ''properties'' = Some (projr (json_Marshal_bytes ''*sarif.PropertyBag'' (PropertyBag_MarshalJSON scn ord) (ToolComponent.Properties strct)))"
    by (rule written_lookup [OF dist]) (subst rs, intro list.set_intros)
  have l20: "map_of (rev ?kvs) ''releaseDateUtc'' = Some (projr (json_Marshal_string (ToolComponent.ReleaseDateUtc strct)))"
    by (rule written_lookup [OF dist]) (subst rs, intro list.set_intros)
  have l21: "map_of (rev ?kvs) ''rules'' = Some (projr (json_Marshal_slice (json_Marshal_ptr ''*sarif.ReportingDescriptor'' (ReportingDescriptor_MarshalJSON scn ord)) (ToolComponent.Rules strct)))"
    by (rule written_lookup [OF dist]) (subst rs, intro list.set_intros)
  have l22: "map_of (rev ?kvs) ''semanticVersion'' = Some (projr (json_Marshal_string (ToolComponent.SemanticVersion strct)))"
    by (rule written_lookup [OF dist]) (subst rs, intro list.set_intros)
  have l23: "map_of (rev ?kvs) ''shortDescription'' = Some (projr (json_Marshal_ptr ''*sarif.MultiformatMessageString'' (MultiformatMessageString_MarshalJSON scn ord) (ToolComponent.ShortDescription strct)))"
    by (rule written_lookup [OF dist]) (subst rs, intro list.set_intros)
  have l24: "map_of (rev ?kvs) ''supportedTaxonomies'' = Some (projr (json_Marshal_slice (json_Marshal_ptr ''*sarif.ToolComponentReference'' (ToolComponentReference_MarshalJSON scn ord)) (ToolComponent.SupportedTaxonomies strct)))"
    by (rule written_lookup [OF dist]) (subst rs, intro list.set_intros)
  have l25: "map_of (rev ?kvs) ''taxa'' = Some (projr (json_Marshal_slice (json_Marshal_ptr ''*sarif.ReportingDescriptor'' (ReportingDescriptor_MarshalJSON scn ord)) (ToolComponent.Taxa strct)))"
    by (rule written_lookup [OF dist]) (subst rs, intro list.set_intros)
  have l26: "map_of (rev ?kvs) ''translationMetadata'' = Some (projr (json_Marshal_ptr ''*sarif.TranslationMetadata'' (TranslationMetadata_MarshalJSON scn ord) (ToolComponent.TranslationMetadata strct)))"
    by (rule written_lookup [OF dist]) (subst rs, intro list.set_intros)
  have l27: "map_of (rev ?kvs) ''version'' = Some (projr (json_Marshal_string (ToolComponent.Version strct)))"
    by (rule written_lookup [OF dist]) (subst rs, intro list.set_intros)
  have dec: "ToolComponent_decodes ord' (map_of (rev ?kvs)) strct"
    unfolding ToolComponent_decodes_def l0 l1 l2 l3 l4 l5 l6 l7 l8 l9 l10 l11 l12 l13 l14 l15 l16 l17 l18 l19 l20 l21 l22 l23 l24 l25 l26 l27
    by (simp only: field_ok_Some fs written_dom keys subset_refl option.simps simp_thms)
  then have "ToolComponent_UnmarshalJSON ord' (JObj ?kvs) = Inr strct"
    by (simp only: ToolComponent_decode_iff)
  with enc show "rt_object (ToolComponent_MarshalJSON scn ord) (ToolComponent_UnmarshalJSON ord') strct"
    unfolding rt_object_def by blast
qed

definition ToolComponent_small_bags :: "ToolComponent \<Rightarrow> bool" where
  "ToolComponent_small_bags strct \<longleftrightarrow>
     ptr_all ToolComponentReference_small_bags (ToolComponent.AssociatedComponent strct) \<and>
     ptr_all MultiformatMessageString_small_bags (ToolComponent.FullDescription strct) \<and>
     map_all (ptr_all MultiformatMessageString_small_bags) (ToolComponent.GlobalMessageStrings strct) \<and>
     slice_all (ptr_all ArtifactLocation_small_bags) (ToolComponent.Locations strct) \<and>
     slice_all (ptr_all ReportingDescriptor_small_bags) (ToolComponent.Notifications strct) \<and>
     ptr_all PropertyBag_small_bags (ToolComponent.Properties strct) \<and>
     slice_all (ptr_all ReportingDescriptor_small_bags) (ToolComponent.Rules strct) \<and>
     ptr_all MultiformatMessageString_small_bags (ToolComponent.ShortDescription strct) \<and>
     slice_all (ptr_all ToolComponentReference_small_bags) (ToolComponent.SupportedTaxonomies strct) \<and>
     slice_all (ptr_all ReportingDescriptor_small_bags) (ToolComponent.Taxa strct) \<and>
     ptr_all TranslationMetadata_small_bags (ToolComponent.TranslationMetadata strct)"

lemma ToolComponent_same_output:
  "same_output (ToolComponent_MarshalJSON scn ord) (ToolComponent_MarshalJSON scn ord') ToolComponent_small_bags"
  unfolding same_output_def
proof (intro allI impI)
  fix strct assume v: "ToolComponent_small_bags strct"
  note v' = v [unfolded ToolComponent_small_bags_def]
  have e0: "json_Marshal_ptr ''*sarif.ToolComponentReference'' (ToolComponentReference_MarshalJSON scn ord) (ToolComponent.AssociatedComponent strct) =
      json_Marshal_ptr ''*sarif.ToolComponentReference'' (ToolComponentReference_MarshalJSON scn ord') (ToolComponent.AssociatedComponent strct)"
    by (rule same_outputD [OF same_output_ptr [OF ToolComponentReference_same_output]]) (use v' in simp)
  have e4: "json_Marshal_ptr ''*sarif.MultiformatMessageString'' (MultiformatMessageString_MarshalJSON scn ord) (ToolComponent.FullDescription strct) =
      json_Marshal_ptr ''*sarif.MultiformatMessageString'' (MultiformatMessageString_MarshalJSON scn ord') (ToolComponent.FullDescription strct)"
    by (rule same_outputD [OF same_output_ptr [OF MultiformatMessageString_same_output]]) (use v' in simp)
  have e6: "json_Marshal_map (json_Marshal_ptr ''*sarif.MultiformatMessageString'' (MultiformatMessageString_MarshalJSON scn ord)) (ToolComponent.GlobalMessageStrings strct) =
      json_Marshal_map (json_Marshal_ptr ''*sarif.MultiformatMessageString'' (MultiformatMessageString_MarshalJSON scn ord')) (ToolComponent.GlobalMessageStrings strct)"
    by (rule same_outputD [OF same_output_map [OF same_output_ptr [OF MultiformatMessageString_same_output]]]) (use v' in simp)
  have e12: "json_Marshal_slice (json_Marshal_ptr ''*sarif.ArtifactLocation'' (ArtifactLocation_MarshalJSON scn ord)) (ToolComponent.Locations strct) =
      json_Marshal_slice (json_Marshal_ptr ''*sarif.ArtifactLocation'' (ArtifactLocation_MarshalJSON scn ord')) (ToolComponent.Locations strct)"
    by (rule same_outputD [OF same_output_slice [OF same_output_ptr [OF ArtifactLocation_same_output]]]) (use v' in simp)
  have e15: "json_Marshal_slice (json_Marshal_ptr ''*sarif.ReportingDescriptor'' (ReportingDescriptor_MarshalJSON scn ord)) (ToolComponent.Notifications strct) =
      json_Marshal_slice (json_Marshal_ptr ''*sarif.ReportingDescriptor'' (ReportingDescriptor_MarshalJSON scn ord')) (ToolComponent.Notifications strct)"
    by (rule same_outputD [OF same_output_slice [OF same_output_ptr [OF ReportingDescriptor_same_output]]]) (use v' in simp)
  have e19: "json_Marshal_bytes ''*sarif.PropertyBag'' (PropertyBag_MarshalJSON scn ord) (ToolComponent.Properties strct) =
      json_Marshal_bytes ''*sarif.PropertyBag'' (PropertyBag_MarshalJSON scn ord') (ToolComponent.Properties strct)"
    by (rule same_outputD [OF PropertyBag_field_same_output]) (use v' in simp)
  have e21: "json_Marshal_slice (json_Marshal_ptr ''*sarif.ReportingDescriptor'' (ReportingDescriptor_MarshalJSON scn ord)) (ToolComponent.Rules strct) =
      json_Marshal_slice (json_Marshal_ptr ''*sarif.ReportingDescriptor'' (ReportingDescriptor_MarshalJSON scn ord')) (ToolComponent.Rules strct)"
    by (rule same_outputD [OF same_output_slice [OF same_output_ptr [OF ReportingDescriptor_same_output]]]) (use v' in simp)
  have e23: "json_Marshal_ptr ''*sarif.MultiformatMessageString'' (MultiformatMessageString_MarshalJSON scn ord) (ToolComponent.ShortDescription strct) =
      json_Marshal_ptr ''*sarif.MultiformatMessageString'' (MultiformatMessageString_MarshalJSON scn ord') (ToolComponent.ShortDescription strct)"
    by (rule same_outputD [OF same_output_ptr [OF MultiformatMessageString_same_output]]) (use v' in simp)
  have e24: "json_Marshal_slice (json_Marshal_ptr ''*sarif.ToolComponentReference'' (ToolComponentReference_MarshalJSON scn ord)) (ToolComponent.SupportedTaxonomies strct) =
      json_Marshal_slice (json_Marshal_ptr ''*sarif.ToolComponentReference'' (ToolComponentReference_MarshalJSON scn ord')) (ToolComponent.SupportedTaxonomies strct)"
    by (rule same_outputD [OF same_output_slice [OF same_output_ptr [OF ToolComponentReference_same_output]]]) (use v' in simp)
  have e25: "json_Marshal_slice (json_Marshal_ptr ''*sarif.ReportingDescriptor'' (ReportingDescriptor_MarshalJSON scn ord)) (ToolComponent.Taxa strct) =
      json_Marshal_slice (json_Marshal_ptr ''*sarif.ReportingDescriptor'' (ReportingDescriptor_MarshalJSON scn ord')) (ToolComponent.Taxa strct)"
    by (rule same_outputD [OF same_output_slice [OF same_output_ptr [OF ReportingDescriptor_same_output]]]) (use v' in simp)
  have e26: "json_Marshal_ptr ''*sarif.TranslationMetadata'' (TranslationMetadata_MarshalJSON scn ord) (ToolComponent.TranslationMetadata strct) =
      json_Marshal_ptr ''*sarif.TranslationMetadata'' (TranslationMetadata_MarshalJSON scn ord') (ToolComponent.TranslationMetadata strct)"
    by (rule same_outputD [OF same_output_ptr [OF TranslationMetadata_same_output]]) (use v' in simp)
  show "ToolComponent_MarshalJSON scn ord strct = ToolComponent_MarshalJSON scn ord' strct"
    by (simp only: ToolComponent_MarshalJSON_def e0 e4 e6 e12 e15 e19 e21 e23 e24 e25 e26)
qed

lemma ToolComponent_writes_keys: "writes_keys (ToolComponent_MarshalJSON scn ord) ToolComponent_keys"
  unfolding writes_keys_def by (intro allI impI) (erule ToolComponent_keys_written)

lemma ToolComponent_unknown_key:
  assumes new: "k \<notin> set ToolComponent_keys" and key: "k \<in> fst ` set kvs"
    and rest: "ToolComponent_UnmarshalJSON ord (JObj (filter (\<lambda>e. fst e \<noteq> k) kvs)) = Inr strct"
  shows "ToolComponent_UnmarshalJSON ord (JObj kvs) = Inl (not_allowed k)"
proof -
  have rej: "switch k (ToolComponent_cases ord v) (reject k) s = Inl (not_allowed k)" for v s
    by (rule switch_rejects) (simp only: ToolComponent_cases_keys new not_False_eq_True)
  from rest obtain t where
    "range_loop (\<lambda>k v. switch k (ToolComponent_cases ord v) (reject k)) (members ord (filter (\<lambda>e. fst e \<noteq> k) kvs)) (ToolComponent_zero, False) = Inr t"
    by (cases "range_loop (\<lambda>k v. switch k (ToolComponent_cases ord v) (reject k)) (members ord (filter (\<lambda>e. fst e \<noteq> k) kvs)) (ToolComponent_zero, False)")
       (simp_all add: ToolComponent_UnmarshalJSON_def members_def)
  from unknown_key_named [OF ToolComponent_regular rej key this]
  show ?thesis by (simp add: ToolComponent_UnmarshalJSON_def members_def)
qed

lemma ToolComponent_unknown_key_fails:
  assumes "k \<notin> set ToolComponent_keys" and "k \<in> fst ` set kvs"
  shows "isl (ToolComponent_UnmarshalJSON ord (JObj kvs))"
proof (cases "ToolComponent_UnmarshalJSON ord (JObj kvs)")
  case (Inr strct)
  then have "dom (map_of (rev kvs)) \<subseteq> set ToolComponent_keys"
    by (simp only: ToolComponent_decode_iff ToolComponent_decodesD(1))
  with assms show ?thesis by (auto simp: dom_map_of_conv_image_fst)
qed simp

lemma ToolComponent_required_present:
  assumes "ToolComponent_UnmarshalJSON ord (JObj kvs) = Inr strct"
  shows "''name'' \<in> fst ` set kvs"
proof -
  from assms have d: "ToolComponent_decodes ord (map_of (rev kvs)) strct" by (simp only: ToolComponent_decode_iff)
  show "''name'' \<in> fst ` set kvs"
    using ToolComponent_decodesD(30) [OF d]
    by (simp_all only: present_key)
qed

lemma ToolComponent_without_Name:
  assumes "ToolComponent_UnmarshalJSON ord (JObj kvs) = Inr strct"
  shows "ToolComponent_UnmarshalJSON ord (JObj (filter (\<lambda>e. fst e \<noteq> ''name'') kvs)) =
    Inl (RequiredNotPresent ''name'')"
proof -
  from assms have d: "ToolComponent_decodes ord (map_of (rev kvs)) strct" by (simp only: ToolComponent_decode_iff)
  have "\<exists>t. range_loop (\<lambda>k v. switch k (ToolComponent_cases ord v) (reject k)) (members ord (filter (\<lambda>e. fst e \<noteq> ''name'') kvs))
      (ToolComponent_zero, False) = Inr t"
  proof (rule loop_succeeds [OF ToolComponent_regular])
    fix k v assume "(k, v) \<in> set (members ord (filter (\<lambda>e. fst e \<noteq> ''name'') kvs))"
    then have "map_of (rev kvs) k = Some v" by (rule member_lookup_filter)
    from ToolComponent_accepts [OF d this]
    show "accepting (switch k (ToolComponent_cases ord v) (reject k))" .
  qed
  then obtain t where "range_loop (\<lambda>k v. switch k (ToolComponent_cases ord v) (reject k)) (members ord (filter (\<lambda>e. fst e \<noteq> ''name'') kvs))
      (ToolComponent_zero, False) = Inr t" ..
  then obtain strct' nameReceived where
    loop: "range_loop (\<lambda>k v. switch k (ToolComponent_cases ord v) (reject k)) (members ord (filter (\<lambda>e. fst e \<noteq> ''name'') kvs))
      (ToolComponent_zero, False) = Inr (strct', nameReceived)"
    by (cases t) auto
  from ToolComponent_loop_sound [OF loop] ToolComponent_decodesD(30) [OF d]
  have "\<not> nameReceived"
    by (simp_all add: lookup_filter)
  with loop show ?thesis
    by (simp add: ToolComponent_UnmarshalJSON_def members_def)
qed


lemma ToolComponent_rejects_unknown_keys: "rejects_unknown_keys (ToolComponent_UnmarshalJSON ord) ToolComponent_keys"
  by (rule rejects_unknown_keysI) (erule (1) ToolComponent_unknown_key_fails, erule (2) ToolComponent_unknown_key)

lemma ToolComponent_requires_Name: "requires_key (ToolComponent_UnmarshalJSON ord) ''name''"
  by (rule requires_keyI) (erule ToolComponent_required_present(1), erule ToolComponent_without_Name)


subsection \<open>Tool: decoding and encoding\<close>

definition Tool_keys :: "string list" where
  "Tool_keys = [''driver'', ''extensions'', ''properties'']"

definition Tool_decodes :: "order \<Rightarrow> (string \<rightharpoonup> json) \<Rightarrow> Tool \<Rightarrow> bool" where
  "Tool_decodes ord m strct \<longleftrightarrow>
     dom m \<subseteq> set Tool_keys \<and>
     field_ok (json_Unmarshal_ptr (ToolComponent_UnmarshalJSON ord)) (m ''driver'') None (Tool.Driver strct) \<and>
     field_ok (json_Unmarshal_slice (json_Unmarshal_ptr (ToolComponent_UnmarshalJSON ord))) (m ''extensions'') None (Tool.Extensions strct) \<and>
     field_ok (json_Unmarshal_ptr (PropertyBag_UnmarshalJSON ord)) (m ''properties'') None (Tool.Properties strct) \<and>
     m ''driver'' \<noteq> None"

lemma Tool_cases_keys: "fst ` set (Tool_cases ord v) = set Tool_keys"
  by (rule keys_image) (simp add: Tool_cases_def Tool_keys_def)

lemma Tool_regular: "regular (\<lambda>k v. switch k (Tool_cases ord v) (reject k))"
  by (rule regular_switch) (simp add: Tool_cases_def)

lemma Tool_fields:
  "field_case (Tool_cases ord) (\<lambda>(strct, driverReceived). Tool.Driver strct) ''driver'' (json_Unmarshal_ptr (ToolComponent_UnmarshalJSON ord))"
  "field_case (Tool_cases ord) (\<lambda>(strct, driverReceived). Tool.Extensions strct) ''extensions'' (json_Unmarshal_slice (json_Unmarshal_ptr (ToolComponent_UnmarshalJSON ord)))"
  "field_case (Tool_cases ord) (\<lambda>(strct, driverReceived). Tool.Properties strct) ''properties'' (json_Unmarshal_ptr (PropertyBag_UnmarshalJSON ord))"
  "field_case (Tool_cases ord) (\<lambda>(strct, driverReceived). driverReceived) ''driver'' (received (json_Unmarshal_ptr (ToolComponent_UnmarshalJSON ord)))"
  unfolding field_case_def Tool_cases_def
  by (simp_all add: writes_into writes_received keeps_into split_def)

lemma Tool_loop_sound:
  assumes loop: "range_loop (\<lambda>k v. switch k (Tool_cases ord v) (reject k)) (members ord kvs) (Tool_zero, False) = Inr (strct, driverReceived)"
  shows "dom (map_of (rev kvs)) \<subseteq> set Tool_keys \<and>
     field_ok (json_Unmarshal_ptr (ToolComponent_UnmarshalJSON ord)) (map_of (rev kvs) ''driver'') None (Tool.Driver strct) \<and>
     field_ok (json_Unmarshal_slice (json_Unmarshal_ptr (ToolComponent_UnmarshalJSON ord))) (map_of (rev kvs) ''extensions'') None (Tool.Extensions strct) \<and>
     field_ok (json_Unmarshal_ptr (PropertyBag_UnmarshalJSON ord)) (map_of (rev kvs) ''properties'') None (Tool.Properties strct) \<and>
     (driverReceived \<longleftrightarrow> map_of (rev kvs) ''driver'' \<noteq> None)"
proof -
  have "fst ` set (members ord kvs) \<subseteq> set Tool_keys"
    by (rule loop_keys_known [OF loop]) (rule Tool_cases_keys)
  then have keys: "dom (map_of (rev kvs)) \<subseteq> set Tool_keys"
    by (simp add: dom_members [of kvs ord])
  note fld = field_after_loop [OF _ members_distinct loop, unfolded map_of_members]
  note flg = flag_after_loop [OF _ members_distinct loop, unfolded map_of_members]
  show ?thesis
    using keys fld [OF Tool_fields(1)] fld [OF Tool_fields(2)] fld [OF Tool_fields(3)] flg [OF Tool_fields(4)]
    by (simp only: prod.case Tool_zero_def Tool.select_convs simp_thms)
qed

lemma Tool_decodesD:
  assumes "Tool_decodes ord m strct"
  shows "dom m \<subseteq> set Tool_keys"
    and "field_ok (json_Unmarshal_ptr (ToolComponent_UnmarshalJSON ord)) (m ''driver'') None (Tool.Driver strct)"
    and "field_ok (json_Unmarshal_slice (json_Unmarshal_ptr (ToolComponent_UnmarshalJSON ord))) (m ''extensions'') None (Tool.Extensions strct)"
    and "field_ok (json_Unmarshal_ptr (PropertyBag_UnmarshalJSON ord)) (m ''properties'') None (Tool.Properties strct)"
    and "m ''driver'' \<noteq> None"
  using assms unfolding Tool_decodes_def by - (elim conjE, assumption)+

lemma Tool_decodes_unique:
  assumes "Tool_decodes ord m a" and "Tool_decodes ord m b"
  shows "a = b"
  apply (rule Tool.equality)
  apply (rule field_ok_unique [OF Tool_decodesD(2) [OF assms(1)] Tool_decodesD(2) [OF assms(2)]])
  apply (rule field_ok_unique [OF Tool_decodesD(3) [OF assms(1)] Tool_decodesD(3) [OF assms(2)]])
  apply (rule field_ok_unique [OF Tool_decodesD(4) [OF assms(1)] Tool_decodesD(4) [OF assms(2)]])
  apply simp
  done

lemma Tool_accepts:
  assumes "Tool_decodes ord m strct" and "m k = Some v"
  shows "accepting (switch k (Tool_cases ord v) (reject k))"
proof -
  from assms have "k \<in> set Tool_keys" by (auto simp: Tool_decodes_def)
  then have key: "k \<in> fst ` set (Tool_cases ord v)"
    by (simp only: Tool_cases_keys)
  have rows: "list_all (\<lambda>(c, h). m c = Some v \<longrightarrow> accepting h) (Tool_cases ord v)"
    unfolding Tool_cases_def list.pred_inject
    apply (rule conjI [OF accept_row [where m = m and v = v, OF Tool_decodesD(2) [OF assms(1)]]])
    apply (rule conjI [OF accept_row [where m = m and v = v, OF Tool_decodesD(3) [OF assms(1)]]])
    apply (rule conjI [OF accept_row [where m = m and v = v, OF Tool_decodesD(4) [OF assms(1)]]])
    apply simp
    done
  show ?thesis by (rule rows_accept [OF rows assms(2) key])
qed

lemma Tool_decode_iff:
  "Tool_UnmarshalJSON ord (JObj kvs) = Inr strct \<longleftrightarrow>
   Tool_decodes ord (map_of (rev kvs)) strct"
proof
  assume "Tool_UnmarshalJSON ord (JObj kvs) = Inr strct"
  then obtain driverReceived where
    loop: "range_loop (\<lambda>k v. switch k (Tool_cases ord v) (reject k)) (members ord kvs) (Tool_zero, False) = Inr (strct, driverReceived)"
    and fin: "driverReceived"
    by (auto simp: Tool_UnmarshalJSON_def members_def split: sum.splits if_splits)
  from Tool_loop_sound [OF loop] fin
  show "Tool_decodes ord (map_of (rev kvs)) strct"
    by (simp add: Tool_decodes_def)
next
  assume d: "Tool_decodes ord (map_of (rev kvs)) strct"
  have "\<exists>t. range_loop (\<lambda>k v. switch k (Tool_cases ord v) (reject k)) (members ord kvs) (Tool_zero, False) = Inr t"
  proof (rule loop_succeeds [OF Tool_regular])
    fix k v assume "(k, v) \<in> set (members ord kvs)"
    then have "map_of (rev kvs) k = Some v" by (rule member_lookup)
    from Tool_accepts [OF d this]
    show "accepting (switch k (Tool_cases ord v) (reject k))" .
  qed
  then obtain t where "range_loop (\<lambda>k v. switch k (Tool_cases ord v) (reject k)) (members ord kvs) (Tool_zero, False) = Inr t" ..
  then obtain strct' driverReceived where
    loop: "range_loop (\<lambda>k v. switch k (Tool_cases ord v) (reject k)) (members ord kvs) (Tool_zero, False) = Inr (strct', driverReceived)"
    by (cases t) auto
  from Tool_loop_sound [OF loop] d
  have fin: "driverReceived"
    and d': "Tool_decodes ord (map_of (rev kvs)) strct'"
    by (simp_all add: Tool_decodes_def)
  from Tool_decodes_unique [OF d' d] have "strct' = strct" .
  with loop fin show "Tool_UnmarshalJSON ord (JObj kvs) = Inr strct"
    by (simp add: Tool_UnmarshalJSON_def members_def)
qed

definition Tool_results :: "scanner \<Rightarrow> order \<Rightarrow> Tool \<Rightarrow> (string \<times> (error + json)) list" where
  "Tool_results scn ord strct =
     [(''driver'', if Tool.Driver strct = None then Inl (RequiredField ''driver'') else json_Marshal_ptr ''*sarif.ToolComponent'' (ToolComponent_MarshalJSON scn ord) (Tool.Driver strct)),
      (''extensions'', json_Marshal_slice (json_Marshal_ptr ''*sarif.ToolComponent'' (ToolComponent_MarshalJSON scn ord)) (Tool.Extensions strct)),
      (''properties'', json_Marshal_bytes ''*sarif.PropertyBag'' (PropertyBag_MarshalJSON scn ord) (Tool.Properties strct))]"

lemma Tool_MarshalJSON_results:
  "Tool_MarshalJSON scn ord strct = object (emit_all (Tool_results scn ord strct))"
  by (simp add: Tool_MarshalJSON_def Tool_results_def emit_nilcheck)

lemma Tool_keys_written:
  "Tool_MarshalJSON scn ord strct = Inr j \<Longrightarrow> \<exists>kvs. j = JObj kvs \<and> map fst kvs = Tool_keys"
  using keys_written [of "Tool_results scn ord strct" j]
  by (simp add: Tool_MarshalJSON_results Tool_results_def Tool_keys_def)

definition Tool_encodable :: "scanner \<Rightarrow> order \<Rightarrow> Tool \<Rightarrow> bool" where
  "Tool_encodable scn ord strct \<longleftrightarrow>
     Tool.Driver strct \<noteq> None \<and>
     ptr_all (ToolComponent_encodable scn ord) (Tool.Driver strct) \<and>
     slice_all (ptr_all (ToolComponent_encodable scn ord)) (Tool.Extensions strct) \<and>
     ptr_all (PropertyBag_encodable scn ord) (Tool.Properties strct)"

lemma Tool_fails_unless: "fails_unless (Tool_MarshalJSON scn ord) (Tool_encodable scn ord)"
  unfolding fails_unless_def Tool_MarshalJSON_results Tool_results_def Tool_encodable_def isl_object_emit_all
  by (auto simp add: always_simps
      fails_unlessD [OF fails_unless_ptr [OF ToolComponent_fails_unless]]
      fails_unlessD [OF fails_unless_slice [OF fails_unless_ptr [OF ToolComponent_fails_unless]]]
      fails_unlessD [OF PropertyBag_field_fails_unless])

definition Tool_valid :: "Tool \<Rightarrow> bool" where
  "Tool_valid strct \<longleftrightarrow>
     Tool.Driver strct \<noteq> None \<and>
     ptr_all ToolComponent_valid (Tool.Driver strct) \<and>
     slice_all (ptr_all ToolComponent_valid) (Tool.Extensions strct) \<and>
     ptr_all PropertyBag_valid (Tool.Properties strct)"

lemma Tool_keys_distinct: "distinct Tool_keys"
  by (simp add: Tool_keys_def)

lemma Tool_round_trips:
  "round_trips_object (Tool_MarshalJSON scn ord) (Tool_UnmarshalJSON ord') Tool_valid"
  unfolding round_trips_object_def
proof (intro allI impI)
  fix strct assume v: "Tool_valid strct"
  note v' = v [unfolded Tool_valid_def]
  let ?rs = "Tool_results scn ord strct"
  let ?kvs = "map (\<lambda>e. (fst e, projr (snd e))) ?rs"
  have f0: "\<not> isl (json_Marshal_ptr ''*sarif.ToolComponent'' (ToolComponent_MarshalJSON scn ord) (Tool.Driver strct)) \<and>
      json_Unmarshal_ptr (ToolComponent_UnmarshalJSON ord') (projr (json_Marshal_ptr ''*sarif.ToolComponent'' (ToolComponent_MarshalJSON scn ord) (Tool.Driver strct))) = Inr (Tool.Driver strct)"
    by (rule round_tripsD [OF round_trips_ptr [OF ToolComponent_round_trips]]) (use v' in simp)
  have f1: "\<not> isl (json_Marshal_slice (json_Marshal_ptr ''*sarif.ToolComponent'' (ToolComponent_MarshalJSON scn ord)) (Tool.Extensions strct)) \<and>
      json_Unmarshal_slice (json_Unmarshal_ptr (ToolComponent_UnmarshalJSON ord')) (projr (json_Marshal_slice (json_Marshal_ptr ''*sarif.ToolComponent'' (ToolComponent_MarshalJSON scn ord)) (Tool.Extensions strct))) = Inr (Tool.Extensions strct)"
    by (rule round_tripsD [OF round_trips_slice [OF round_trips_ptr [OF ToolComponent_round_trips]]]) (use v' in simp)
  have f2: "\<not> isl (json_Marshal_bytes ''*sarif.PropertyBag'' (PropertyBag_MarshalJSON scn ord) (Tool.Properties strct)) \<and>
      json_Unmarshal_ptr (PropertyBag_UnmarshalJSON ord') (projr (json_Marshal_bytes ''*sarif.PropertyBag'' (PropertyBag_MarshalJSON scn ord) (Tool.Properties strct))) = Inr (Tool.Properties strct)"
    by (rule round_tripsD [OF PropertyBag_field_round_trips]) (use v' in simp)
  note fs = f0 f1 f2
  have nn: "Tool.Driver strct \<noteq> None"
    using v' by simp_all
  have rs: "?rs =
     [(''driver'', json_Marshal_ptr ''*sarif.ToolComponent'' (ToolComponent_MarshalJSON scn ord) (Tool.Driver strct)),
      (''extensions'', json_Marshal_slice (json_Marshal_ptr ''*sarif.ToolComponent'' (ToolComponent_MarshalJSON scn ord)) (Tool.Extensions strct)),
      (''properties'', json_Marshal_bytes ''*sarif.PropertyBag'' (PropertyBag_MarshalJSON scn ord) (Tool.Properties strct))]"
    using nn by (auto simp add: Tool_results_def)
  have keys: "map fst ?rs = Tool_keys"
    by (simp add: Tool_results_def Tool_keys_def)
  then have dist: "distinct (map fst ?rs)"
    by (simp only: Tool_keys_distinct)
  have ok: "list_all (\<lambda>e. \<not> isl (snd e)) ?rs"
    unfolding rs by (simp only: list.pred_inject snd_conv fs simp_thms)
  then have enc: "Tool_MarshalJSON scn ord strct = Inr (JObj ?kvs)"
    by (simp add: Tool_MarshalJSON_results [of scn ord strct] object_emit_all_eq_Inr)
  have l0: "map_of (rev ?kvs) ''driver'' = Some (projr (json_Marshal_ptr ''*sarif.ToolComponent'' (ToolComponent_MarshalJSON scn ord) (Tool.Driver strct)))"
    by (rule written_lookup [OF dist]) (subst rs, intro list.set_intros)
  have l1: "map_of (rev ?kvs) ''extensions'' = Some (projr (json_Marshal_slice (json_Marshal_ptr ''*sarif.ToolComponent'' (ToolComponent_MarshalJSON scn ord)) (Tool.Extensions strct)))"
    by (rule written_lookup [OF dist]) (subst rs, intro list.set_intros)
  have l2: "map_of (rev ?kvs) ''properties'' = Some (projr (json_Marshal_bytes ''*sarif.PropertyBag'' (PropertyBag_MarshalJSON scn ord) (Tool.Properties strct)))"
    by (rule written_lookup [OF dist]) (subst rs, intro list.set_intros)
  have dec: "Tool_decodes ord' (map_of (rev ?kvs)) strct"
    unfolding Tool_decodes_def l0 l1 l2
    by (simp only: field_ok_Some fs written_dom keys subset_refl option.simps simp_thms)
  then have "Tool_UnmarshalJSON ord' (JObj ?kvs) = Inr strct"
    by (simp only: Tool_decode_iff)
  with enc show "rt_object (Tool_MarshalJSON scn ord) (Tool_UnmarshalJSON ord') strct"
    unfolding rt_object_def by blast
qed

definition Tool_small_bags :: "Tool \<Rightarrow> bool" where
  "Tool_small_bags strct \<longleftrightarrow>
     ptr_all ToolComponent_small_bags (Tool.Driver strct) \<and>
     slice_all (ptr_all ToolComponent_small_bags) (Tool.Extensions strct) \<and>
     ptr_all PropertyBag_small_bags (Tool.Properties strct)"

lemma Tool_same_output:
  "same_output (Tool_MarshalJSON scn ord) (Tool_MarshalJSON scn ord') Tool_small_bags"
  unfolding same_output_def
proof (intro allI impI)
  fix strct assume v: "Tool_small_bags strct"
  note v' = v [unfolded Tool_small_bags_def]
  have e0: "json_Marshal_ptr ''*sarif.ToolComponent'' (ToolComponent_MarshalJSON scn ord) (Tool.Driver strct) =
      json_Marshal_ptr ''*sarif.ToolComponent'' (ToolComponent_MarshalJSON scn ord') (Tool.Driver strct)"
    by (rule same_outputD [OF same_output_ptr [OF ToolComponent_same_output]]) (use v' in simp)
  have e1: "json_Marshal_slice (json_Marshal_ptr ''*sarif.ToolComponent'' (ToolComponent_MarshalJSON scn ord)) (Tool.Extensions strct) =
      json_Marshal_slice (json_Marshal_ptr ''*sarif.ToolComponent'' (ToolComponent_MarshalJSON scn ord')) (Tool.Extensions strct)"
    by (rule same_outputD [OF same_output_slice [OF same_output_ptr [OF ToolComponent_same_output]]]) (use v' in simp)
  have e2: "json_Marshal_bytes ''*sarif.PropertyBag'' (PropertyBag_MarshalJSON scn ord) (Tool.Properties strct) =
      json_Marshal_bytes ''*sarif.PropertyBag'' (PropertyBag_MarshalJSON scn ord') (Tool.Properties strct)"
    by (rule same_outputD [OF PropertyBag_field_same_output]) (use v' in simp)
  show "Tool_MarshalJSON scn ord strct = Tool_MarshalJSON scn ord' strct"
    by (simp only: Tool_MarshalJSON_def e0 e1 e2)
qed

lemma Tool_writes_keys: "writes_keys (Tool_MarshalJSON scn ord) Tool_keys"
  unfolding writes_keys_def by (intro allI impI) (erule Tool_keys_written)

lemma Tool_unknown_key:
  assumes new: "k \<notin> set Tool_keys" and key: "k \<in> fst ` set kvs"
    and rest: "Tool_UnmarshalJSON ord (JObj (filter (\<lambda>e. fst e \<noteq> k) kvs)) = Inr strct"
  shows "Tool_UnmarshalJSON ord (JObj kvs) = Inl (not_allowed k)"
proof -
  have rej: "switch k (Tool_cases ord v) (reject k) s = Inl (not_allowed k)" for v s
    by (rule switch_rejects) (simp only: Tool_cases_keys new not_False_eq_True)
  from rest obtain t where
    "range_loop (\<lambda>k v. switch k (Tool_cases ord v) (reject k)) (members ord (filter (\<lambda>e. fst e \<noteq> k) kvs)) (Tool_zero, False) = Inr t"
    by (cases "range_loop (\<lambda>k v. switch k (Tool_cases ord v) (reject k)) (members ord (filter (\<lambda>e. fst e \<noteq> k) kvs)) (Tool_zero, False)")
       (simp_all add: Tool_UnmarshalJSON_def members_def)
  from unknown_key_named [OF Tool_regular rej key this]
  show ?thesis by (simp add: Tool_UnmarshalJSON_def members_def)
qed

lemma Tool_unknown_key_fails:
  assumes "k \<notin> set Tool_keys" and "k \<in> fst ` set kvs"
  shows "isl (Tool_UnmarshalJSON ord (JObj kvs))"
proof (cases "Tool_UnmarshalJSON ord (JObj kvs)")
  case (Inr strct)
  then have "dom (map_of (rev kvs)) \<subseteq> set Tool_keys"
    by (simp only: Tool_decode_iff Tool_decodesD(1))
  with assms show ?thesis by (auto simp: dom_map_of_conv_image_fst)
qed simp

lemma Tool_required_present:
  assumes "Tool_UnmarshalJSON ord (JObj kvs) = Inr strct"
  shows "''driver'' \<in> fst ` set kvs"
proof -
  from assms have d: "Tool_decodes ord (map_of (rev kvs)) strct" by (simp only: Tool_decode_iff)
  show "''driver'' \<in> fst ` set kvs"
    using Tool_decodesD(5) [OF d]
    by (simp_all only: present_key)
qed

lemma Tool_without_Driver:
  assumes "Tool_UnmarshalJSON ord (JObj kvs) = Inr strct"
  shows "Tool_UnmarshalJSON ord (JObj (filter (\<lambda>e. fst e \<noteq> ''driver'') kvs)) =
    Inl (RequiredNotPresent ''driver'')"
proof -
  from assms have d: "Tool_decodes ord (map_of (rev kvs)) strct" by (simp only: Tool_decode_iff)
  have "\<exists>t. range_loop (\<lambda>k v. switch k (Tool_cases ord v) (reject k)) (members ord (filter (\<lambda>e. fst e \<noteq> ''driver'') kvs))
      (Tool_zero, False) = Inr t"
  proof (rule loop_succeeds [OF Tool_regular])
    fix k v assume "(k, v) \<in> set (members ord (filter (\<lambda>e. fst e \<noteq> ''driver'') kvs))"
    then have "map_of (rev kvs) k = Some v" by (rule member_lookup_filter)
    from Tool_accepts [OF d this]
    show "accepting (switch k (Tool_cases ord v) (reject k))" .
  qed
  then obtain t where "range_loop (\<lambda>k v. switch k (Tool_cases ord v) (reject k)) (members ord (filter (\<lambda>e. fst e \<noteq> ''driver'') kvs))
      (Tool_zero, False) = Inr t" ..
  then obtain strct' driverReceived where
    loop: "range_loop (\<lambda>k v. switch k (Tool_cases ord v) (reject k)) (members ord (filter (\<lambda>e. fst e \<noteq> ''driver'') kvs))
      (Tool_zero, False) = Inr (strct', driverReceived)"
    by (cases t) auto
  from Tool_loop_sound [OF loop] Tool_decodesD(5) [OF d]
  have "\<not> driverReceived"
    by (simp_all add: lookup_filter)
  with loop show ?thesis
    by (simp add: Tool_UnmarshalJSON_def members_def)
qed


lemma Tool_rejects_unknown_keys: "rejects_unknown_keys (Tool_UnmarshalJSON ord) Tool_keys"
  by (rule rejects_unknown_keysI) (erule (1) Tool_unknown_key_fails, erule (2) Tool_unknown_key)

lemma Tool_requires_Driver: "requires_key (Tool_UnmarshalJSON ord) ''driver''"
  by (rule requires_keyI) (erule Tool_required_present(1), erule Tool_without_Driver)


subsection \<open>Exception: decoding and encoding\<close>

definition Exception_keys :: "string list" where
  "Exception_keys = [''innerExceptions'', ''kind'', ''message'', ''properties'', ''stack'']"

definition Exception_decodes :: "order \<Rightarrow> (string \<rightharpoonup> json) \<Rightarrow> Exception \<Rightarrow> bool" where
  "Exception_decodes ord m strct \<longleftrightarrow>
     dom m \<subseteq> set Exception_keys \<and>
     field_ok (json_Unmarshal_slice (json_Unmarshal_ptr (Exception_UnmarshalJSON ord))) (m ''innerExceptions'') None (Exception.InnerExceptions strct) \<and>
     field_ok json_Unmarshal_string (m ''kind'') [] (Exception.Kind strct) \<and>
     field_ok json_Unmarshal_string (m ''message'') [] (Exception.Message strct) \<and>
     field_ok (json_Unmarshal_ptr (PropertyBag_UnmarshalJSON ord)) (m ''properties'') None (Exception.Properties strct) \<and>
     field_ok (json_Unmarshal_ptr (Stack_UnmarshalJSON ord)) (m ''stack'') None (Exception.Stack strct)"

definition Exception_cases :: "order \<Rightarrow> json \<Rightarrow> (string \<times> (Exception) action) list" where
  "Exception_cases ord v =
     [(''innerExceptions'', into (json_Unmarshal_slice (json_Unmarshal_ptr (Exception_UnmarshalJSON ord)) v)
         (\<lambda>x strct. Exception.Exception x (Exception.Kind strct) (Exception.Message strct) (Exception.Properties strct) (Exception.Stack strct))),
      (''kind'', into (json_Unmarshal_string v)
         (\<lambda>x strct. Exception.Exception (Exception.InnerExceptions strct) x (Exception.Message strct) (Exception.Properties strct) (Exception.Stack strct))),
      (''message'', into (json_Unmarshal_string v)
         (\<lambda>x strct. Exception.Exception (Exception.InnerExceptions strct) (Exception.Kind strct) x (Exception.Properties strct) (Exception.Stack strct))),
      (''properties'', into (json_Unmarshal_ptr (PropertyBag_UnmarshalJSON ord) v)
         (\<lambda>x strct. Exception.Exception (Exception.InnerExceptions strct) (Exception.Kind strct) (Exception.Message strct) x (Exception.Stack strct))),
      (''stack'', into (json_Unmarshal_ptr (Stack_UnmarshalJSON ord) v)
         (\<lambda>x strct. Exception.Exception (Exception.InnerExceptions strct) (Exception.Kind strct) (Exception.Message strct) (Exception.Properties strct) x))]"

lemma Exception_UnmarshalJSON_unfold:
  "Exception_UnmarshalJSON ord b =
     (case json_Unmarshal_RawMessages b of
        Inl err \<Rightarrow> Inl err
      | Inr jsonMap \<Rightarrow>
          (case range_loop (\<lambda>k v. switch k (Exception_cases ord v) (reject k))
                  (range_map ord jsonMap) Exception_zero of
             Inl err \<Rightarrow> Inl err
           | Inr strct \<Rightarrow>
              Inr strct))"
  unfolding Exception_cases_def by (rule Exception_UnmarshalJSON.simps)

lemma Exception_cases_keys: "fst ` set (Exception_cases ord v) = set Exception_keys"
  by (rule keys_image) (simp add: Exception_cases_def Exception_keys_def)

lemma Exception_regular: "regular (\<lambda>k v. switch k (Exception_cases ord v) (reject k))"
  by (rule regular_switch) (simp add: Exception_cases_def)

lemma Exception_fields:
  "field_case (Exception_cases ord) Exception.InnerExceptions ''innerExceptions'' (json_Unmarshal_slice (json_Unmarshal_ptr (Exception_UnmarshalJSON ord)))"
  "field_case (Exception_cases ord) Exception.Kind ''kind'' json_Unmarshal_string"
  "field_case (Exception_cases ord) Exception.Message ''message'' json_Unmarshal_string"
  "field_case (Exception_cases ord) Exception.Properties ''properties'' (json_Unmarshal_ptr (PropertyBag_UnmarshalJSON ord))"
  "field_case (Exception_cases ord) Exception.Stack ''stack'' (json_Unmarshal_ptr (Stack_UnmarshalJSON ord))"
  unfolding field_case_def Exception_cases_def
  by (simp_all add: writes_into writes_received keeps_into split_def)

lemma Exception_loop_sound:
  assumes loop: "range_loop (\<lambda>k v. switch k (Exception_cases ord v) (reject k)) (members ord kvs) Exception_zero = Inr strct"
  shows "dom (map_of (rev kvs)) \<subseteq> set Exception_keys \<and>
     field_ok (json_Unmarshal_slice (json_Unmarshal_ptr (Exception_UnmarshalJSON ord))) (map_of (rev kvs) ''innerExceptions'') None (Exception.InnerExceptions strct) \<and>
     field_ok json_Unmarshal_string (map_of (rev kvs) ''kind'') [] (Exception.Kind strct) \<and>
     field_ok json_Unmarshal_string (map_of (rev kvs) ''message'') [] (Exception.Message strct) \<and>
     field_ok (json_Unmarshal_ptr (PropertyBag_UnmarshalJSON ord)) (map_of (rev kvs) ''properties'') None (Exception.Properties strct) \<and>
     field_ok (json_Unmarshal_ptr (Stack_UnmarshalJSON ord)) (map_of (rev kvs) ''stack'') None (Exception.Stack strct)"
proof -
  have "fst ` set (members ord kvs) \<subseteq> set Exception_keys"
    by (rule loop_keys_known [OF loop]) (rule Exception_cases_keys)
  then have keys: "dom (map_of (rev kvs)) \<subseteq> set Exception_keys"
    by (simp add: dom_members [of kvs ord])
  note fld = field_after_loop [OF _ members_distinct loop, unfolded map_of_members]
  show ?thesis
    using keys fld [OF Exception_fields(1)] fld [OF Exception_fields(2)] fld [OF Exception_fields(3)] fld [OF Exception_fields(4)] fld [OF Exception_fields(5)] 
    by (simp only: prod.case Exception_zero_def Exception.sel simp_thms)
qed

lemma Exception_decodesD:
  assumes "Exception_decodes ord m strct"
  shows "dom m \<subseteq> set Exception_keys"
    and "field_ok (json_Unmarshal_slice (json_Unmarshal_ptr (Exception_UnmarshalJSON ord))) (m ''innerExceptions'') None (Exception.InnerExceptions strct)"
    and "field_ok json_Unmarshal_string (m ''kind'') [] (Exception.Kind strct)"
    and "field_ok json_Unmarshal_string (m ''message'') [] (Exception.Message strct)"
    and "field_ok (json_Unmarshal_ptr (PropertyBag_UnmarshalJSON ord)) (m ''properties'') None (Exception.Properties strct)"
    and "field_ok (json_Unmarshal_ptr (Stack_UnmarshalJSON ord)) (m ''stack'') None (Exception.Stack strct)"
  using assms unfolding Exception_decodes_def by - (elim conjE, assumption)+

lemma Exception_decodes_unique:
  assumes "Exception_decodes ord m a" and "Exception_decodes ord m b"
  shows "a = b"
  apply (rule Exception.expand)
  apply (intro conjI)
  apply (rule field_ok_unique [OF Exception_decodesD(2) [OF assms(1)] Exception_decodesD(2) [OF assms(2)]])
  apply (rule field_ok_unique [OF Exception_decodesD(3) [OF assms(1)] Exception_decodesD(3) [OF assms(2)]])
  apply (rule field_ok_unique [OF Exception_decodesD(4) [OF assms(1)] Exception_decodesD(4) [OF assms(2)]])
  apply (rule field_ok_unique [OF Exception_decodesD(5) [OF assms(1)] Exception_decodesD(5) [OF assms(2)]])
  apply (rule field_ok_unique [OF Exception_decodesD(6) [OF assms(1)] Exception_decodesD(6) [OF assms(2)]])
  done

lemma Exception_accepts:
  assumes "Exception_decodes ord m strct" and "m k = Some v"
  shows "accepting (switch k (Exception_cases ord v) (reject k))"
proof -
  from assms have "k \<in> set Exception_keys" by (auto simp: Exception_decodes_def)
  then have key: "k \<in> fst ` set (Exception_cases ord v)"
    by (simp only: Exception_cases_keys)
  have rows: "list_all (\<lambda>(c, h). m c = Some v \<longrightarrow> accepting h) (Exception_cases ord v)"
    unfolding Exception_cases_def list.pred_inject
    apply (rule conjI [OF accept_row [where m = m and v = v, OF Exception_decodesD(2) [OF assms(1)]]])
    apply (rule conjI [OF accept_row [where m = m and v = v, OF Exception_decodesD(3) [OF assms(1)]]])
    apply (rule conjI [OF accept_row [where m = m and v = v, OF Exception_decodesD(4) [OF assms(1)]]])
    apply (rule conjI [OF accept_row [where m = m and v = v, OF Exception_decodesD(5) [OF assms(1)]]])
    apply (rule conjI [OF accept_row [where m = m and v = v, OF Exception_decodesD(6) [OF assms(1)]]])
    apply simp
    done
  show ?thesis by (rule rows_accept [OF rows assms(2) key])
qed

lemma Exception_decode_iff:
  "Exception_UnmarshalJSON ord (JObj kvs) = Inr strct \<longleftrightarrow>
   Exception_decodes ord (map_of (rev kvs)) strct"
proof
  assume "Exception_UnmarshalJSON ord (JObj kvs) = Inr strct"
  then have loop: "range_loop (\<lambda>k v. switch k (Exception_cases ord v) (reject k)) (members ord kvs) Exception_zero = Inr strct"
    by (auto simp: Exception_UnmarshalJSON_unfold members_def split: sum.splits)
  from Exception_loop_sound [OF loop]
  show "Exception_decodes ord (map_of (rev kvs)) strct"
    by (simp add: Exception_decodes_def)
next
  assume d: "Exception_decodes ord (map_of (rev kvs)) strct"
  have "\<exists>t. range_loop (\<lambda>k v. switch k (Exception_cases ord v) (reject k)) (members ord kvs) Exception_zero = Inr t"
  proof (rule loop_succeeds [OF Exception_regular])
    fix k v assume "(k, v) \<in> set (members ord kvs)"
    then have "map_of (rev kvs) k = Some v" by (rule member_lookup)
    from Exception_accepts [OF d this]
    show "accepting (switch k (Exception_cases ord v) (reject k))" .
  qed
  then obtain strct' where
    loop: "range_loop (\<lambda>k v. switch k (Exception_cases ord v) (reject k)) (members ord kvs) Exception_zero = Inr strct'" ..
  from Exception_loop_sound [OF loop]
  have d': "Exception_decodes ord (map_of (rev kvs)) strct'"
    by (simp add: Exception_decodes_def)
  from Exception_decodes_unique [OF d' d] have "strct' = strct" .
  with loop show "Exception_UnmarshalJSON ord (JObj kvs) = Inr strct"
    by (simp add: Exception_UnmarshalJSON_unfold members_def)
qed

definition Exception_results :: "scanner \<Rightarrow> order \<Rightarrow> Exception \<Rightarrow> (string \<times> (error + json)) list" where
  "Exception_results scn ord strct =
     [(''innerExceptions'', json_Marshal_slice (json_Marshal_ptr ''*sarif.Exception'' (Exception_MarshalJSON scn ord)) (Exception.InnerExceptions strct)),
      (''kind'', json_Marshal_string (Exception.Kind strct)),
      (''message'', json_Marshal_string (Exception.Message strct)),
      (''properties'', json_Marshal_bytes ''*sarif.PropertyBag'' (PropertyBag_MarshalJSON scn ord) (Exception.Properties strct)),
      (''stack'', json_Marshal_ptr ''*sarif.Stack'' (Stack_MarshalJSON scn ord) (Exception.Stack strct))]"

lemma Exception_MarshalJSON_results:
  "Exception_MarshalJSON scn ord strct = object (emit_all (Exception_results scn ord strct))"
  by (simp add: Exception_MarshalJSON.simps Exception_results_def emit_nilcheck)

lemma Exception_keys_written:
  "Exception_MarshalJSON scn ord strct = Inr j \<Longrightarrow> \<exists>kvs. j = JObj kvs \<and> map fst kvs = Exception_keys"
  using keys_written [of "Exception_results scn ord strct" j]
  by (simp add: Exception_MarshalJSON_results Exception_results_def Exception_keys_def)

function Exception_encodable :: "scanner \<Rightarrow> order \<Rightarrow> Exception \<Rightarrow> bool" where
  "Exception_encodable scn ord strct \<longleftrightarrow>
     slice_all (ptr_all (Exception_encodable scn ord)) (Exception.InnerExceptions strct) \<and>
     ptr_all (PropertyBag_encodable scn ord) (Exception.Properties strct) \<and>
     ptr_all (Stack_encodable scn ord) (Exception.Stack strct)"

  by pat_completeness auto

termination Exception_encodable
  by (relation "measure (\<lambda>(scn, ord, strct). size strct)") (auto simp: Exception_size_InnerExceptions)

declare Exception_encodable.simps [simp del]

lemma Exception_fails_unless: "fails_unless (Exception_MarshalJSON scn ord) (Exception_encodable scn ord)"
  unfolding fails_unless_def
proof
  fix strct
  show "isl (Exception_MarshalJSON scn ord strct) \<longleftrightarrow> \<not> Exception_encodable scn ord strct"
  proof (induction strct rule: measure_induct_rule [of size])
    case (less strct)
    have inner: "isl (json_Marshal_slice (json_Marshal_ptr ''*sarif.Exception'' (Exception_MarshalJSON scn ord)) (Exception.InnerExceptions strct)) \<longleftrightarrow>
        \<not> slice_all (ptr_all (Exception_encodable scn ord)) (Exception.InnerExceptions strct)"
      by (rule isl_slice_of_ptrs, rule less, erule (1) Exception_size_InnerExceptions)
    show ?case
      unfolding Exception_MarshalJSON_results [of scn ord strct] Exception_results_def Exception_encodable.simps [of scn ord strct] isl_object_emit_all
      by (auto simp add: always_simps inner
        fails_unlessD [OF fails_unless_string]
        fails_unlessD [OF PropertyBag_field_fails_unless]
        fails_unlessD [OF fails_unless_ptr [OF Stack_fails_unless]])
  qed
qed

function Exception_valid :: "Exception \<Rightarrow> bool" where
  "Exception_valid strct \<longleftrightarrow>
     slice_all (ptr_all Exception_valid) (Exception.InnerExceptions strct) \<and>
     ptr_all PropertyBag_valid (Exception.Properties strct) \<and>
     ptr_all Stack_valid (Exception.Stack strct)"

  by pat_completeness auto

termination Exception_valid
  by (relation "measure size") (auto simp: Exception_size_InnerExceptions)

declare Exception_valid.simps [simp del]

lemma Exception_keys_distinct: "distinct Exception_keys"
  by (simp add: Exception_keys_def)

lemma Exception_round_trips:
  "round_trips_object (Exception_MarshalJSON scn ord) (Exception_UnmarshalJSON ord') Exception_valid"
  unfolding round_trips_object_def
proof (intro allI impI)
  fix strct :: Exception assume "Exception_valid strct"
  then show "rt_object (Exception_MarshalJSON scn ord) (Exception_UnmarshalJSON ord') strct"
  proof (induction strct rule: measure_induct_rule [of size])
  case (less strct)
  note v = less.prems
  note v' = v [unfolded Exception_valid.simps [of strct]]
  have inner: "rt_object (Exception_MarshalJSON scn ord) (Exception_UnmarshalJSON ord') y"
    if a: "Exception.InnerExceptions strct = Some xs" "Some y \<in> set xs" for xs y
  proof -
    from v' have "slice_all (ptr_all Exception_valid) (Exception.InnerExceptions strct)" by simp
    from slice_of_ptrs_element [OF this a] have "Exception_valid y" .
    with less.IH [OF Exception_size_InnerExceptions [OF a]] show ?thesis .
  qed
  let ?rs = "Exception_results scn ord strct"
  let ?kvs = "map (\<lambda>e. (fst e, projr (snd e))) ?rs"
  have f0: "\<not> isl (json_Marshal_slice (json_Marshal_ptr ''*sarif.Exception'' (Exception_MarshalJSON scn ord)) (Exception.InnerExceptions strct)) \<and>
      json_Unmarshal_slice (json_Unmarshal_ptr (Exception_UnmarshalJSON ord')) (projr (json_Marshal_slice (json_Marshal_ptr ''*sarif.Exception'' (Exception_MarshalJSON scn ord)) (Exception.InnerExceptions strct))) = Inr (Exception.InnerExceptions strct)"
    by (rule rtD [OF rt_slice_of_ptrs [OF inner]])
  have f1: "\<not> isl (json_Marshal_string (Exception.Kind strct)) \<and>
      json_Unmarshal_string (projr (json_Marshal_string (Exception.Kind strct))) = Inr (Exception.Kind strct)"
    by (rule round_tripsD [OF round_trips_string]) (use v' in simp)
  have f2: "\<not> isl (json_Marshal_string (Exception.Message strct)) \<and>
      json_Unmarshal_string (projr (json_Marshal_string (Exception.Message strct))) = Inr (Exception.Message strct)"
    by (rule round_tripsD [OF round_trips_string]) (use v' in simp)
  have f3: "\<not> isl (json_Marshal_bytes ''*sarif.PropertyBag'' (PropertyBag_MarshalJSON scn ord) (Exception.Properties strct)) \<and>
      json_Unmarshal_ptr (PropertyBag_UnmarshalJSON ord') (projr (json_Marshal_bytes ''*sarif.PropertyBag'' (PropertyBag_MarshalJSON scn ord) (Exception.Properties strct))) = Inr (Exception.Properties strct)"
    by (rule round_tripsD [OF PropertyBag_field_round_trips]) (use v' in simp)
  have f4: "\<not> isl (json_Marshal_ptr ''*sarif.Stack'' (Stack_MarshalJSON scn ord) (Exception.Stack strct)) \<and>
      json_Unmarshal_ptr (Stack_UnmarshalJSON ord') (projr (json_Marshal_ptr ''*sarif.Stack'' (Stack_MarshalJSON scn ord) (Exception.Stack strct))) = Inr (Exception.Stack strct)"
    by (rule round_tripsD [OF round_trips_ptr [OF Stack_round_trips]]) (use v' in simp)
  note fs = f0 f1 f2 f3 f4
  have rs: "?rs =
     [(''innerExceptions'', json_Marshal_slice (json_Marshal_ptr ''*sarif.Exception'' (Exception_MarshalJSON scn ord)) (Exception.InnerExceptions strct)),
      (''kind'', json_Marshal_string (Exception.Kind strct)),
      (''message'', json_Marshal_string (Exception.Message strct)),
      (''properties'', json_Marshal_bytes ''*sarif.PropertyBag'' (PropertyBag_MarshalJSON scn ord) (Exception.Properties strct)),
      (''stack'', json_Marshal_ptr ''*sarif.Stack'' (Stack_MarshalJSON scn ord) (Exception.Stack strct))]"
    by (auto simp add: Exception_results_def)
  have keys: "map fst ?rs = Exception_keys"
    by (simp add: Exception_results_def Exception_keys_def)
  then have dist: "distinct (map fst ?rs)"
    by (simp only: Exception_keys_distinct)
  have ok: "list_all (\<lambda>e. \<not> isl (snd e)) ?rs"
    unfolding rs by (simp only: list.pred_inject snd_conv fs simp_thms)
  then have enc: "Exception_MarshalJSON scn ord strct = Inr (JObj ?kvs)"
    by (simp add: Exception_MarshalJSON_results [of scn ord strct] object_emit_all_eq_Inr)
  have l0: "map_of (rev ?kvs) ''innerExceptions'' = Some (projr (json_Marshal_slice (json_Marshal_ptr ''*sarif.Exception'' (Exception_MarshalJSON scn ord)) (Exception.InnerExceptions strct)))"
    by (rule written_lookup [OF dist]) (subst rs, intro list.set_intros)
  have l1: "map_of (rev ?kvs) ''kind'' = Some (projr (json_Marshal_string (Exception.Kind strct)))"
    by (rule written_lookup [OF dist]) (subst rs, intro list.set_intros)
  have l2: "map_of (rev ?kvs) ''message'' = Some (projr (json_Marshal_string (Exception.Message strct)))"
    by (rule written_lookup [OF dist]) (subst rs, intro list.set_intros)
  have l3: "map_of (rev ?kvs) ''properties'' = Some (projr (json_Marshal_bytes ''*sarif.PropertyBag'' (PropertyBag_MarshalJSON scn ord) (Exception.Properties strct)))"
    by (rule written_lookup [OF dist]) (subst rs, intro list.set_intros)
  have l4: "map_of (rev ?kvs) ''stack'' = Some (projr (json_Marshal_ptr ''*sarif.Stack'' (Stack_MarshalJSON scn ord) (Exception.Stack strct)))"
    by (rule written_lookup [OF dist]) (subst rs, intro list.set_intros)
  have dec: "Exception_decodes ord' (map_of (rev ?kvs)) strct"
    unfolding Exception_decodes_def l0 l1 l2 l3 l4
    by (simp only: field_ok_Some fs written_dom keys subset_refl option.simps simp_thms)
  then have "Exception_UnmarshalJSON ord' (JObj ?kvs) = Inr strct"
    by (simp only: Exception_decode_iff)
  with enc show ?case
    unfolding rt_object_def by blast
  qed
qed

function Exception_small_bags :: "Exception \<Rightarrow> bool" where
  "Exception_small_bags strct \<longleftrightarrow>
     slice_all (ptr_all Exception_small_bags) (Exception.InnerExceptions strct) \<and>
     ptr_all PropertyBag_small_bags (Exception.Properties strct) \<and>
     ptr_all Stack_small_bags (Exception.Stack strct)"

  by pat_completeness auto

termination Exception_small_bags
  by (relation "measure size") (auto simp: Exception_size_InnerExceptions)

declare Exception_small_bags.simps [simp del]

lemma Exception_same_output:
  "same_output (Exception_MarshalJSON scn ord) (Exception_MarshalJSON scn ord') Exception_small_bags"
  unfolding same_output_def
proof (intro allI impI)
  fix strct :: Exception assume "Exception_small_bags strct"
  then show "Exception_MarshalJSON scn ord strct = Exception_MarshalJSON scn ord' strct"
  proof (induction strct rule: measure_induct_rule [of size])
  case (less strct)
  note v' = less.prems [unfolded Exception_small_bags.simps [of strct]]
  have inner: "Exception_MarshalJSON scn ord y = Exception_MarshalJSON scn ord' y"
    if a: "Exception.InnerExceptions strct = Some xs" "Some y \<in> set xs" for xs y
  proof -
    from v' have "slice_all (ptr_all Exception_small_bags) (Exception.InnerExceptions strct)" by simp
    from slice_of_ptrs_element [OF this a] have "Exception_small_bags y" .
    with less.IH [OF Exception_size_InnerExceptions [OF a]] show ?thesis .
  qed
  have e0: "json_Marshal_slice (json_Marshal_ptr ''*sarif.Exception'' (Exception_MarshalJSON scn ord)) (Exception.InnerExceptions strct) =
      json_Marshal_slice (json_Marshal_ptr ''*sarif.Exception'' (Exception_MarshalJSON scn ord')) (Exception.InnerExceptions strct)"
    by (rule same_slice_of_ptrs [OF inner])
  have e3: "json_Marshal_bytes ''*sarif.PropertyBag'' (PropertyBag_MarshalJSON scn ord) (Exception.Properties strct) =
      json_Marshal_bytes ''*sarif.PropertyBag'' (PropertyBag_MarshalJSON scn ord') (Exception.Properties strct)"
    by (rule same_outputD [OF PropertyBag_field_same_output]) (use v' in simp)
  have e4: "json_Marshal_ptr ''*sarif.Stack'' (Stack_MarshalJSON scn ord) (Exception.Stack strct) =
      json_Marshal_ptr ''*sarif.Stack'' (Stack_MarshalJSON scn ord') (Exception.Stack strct)"
    by (rule same_outputD [OF same_output_ptr [OF Stack_same_output]]) (use v' in simp)
  show ?case
    by (simp only: Exception_MarshalJSON.simps [of scn ord strct] Exception_MarshalJSON.simps [of scn ord' strct] e0 e3 e4)
  qed
qed

lemma Exception_writes_keys: "writes_keys (Exception_MarshalJSON scn ord) Exception_keys"
  unfolding writes_keys_def by (intro allI impI) (erule Exception_keys_written)

lemma Exception_unknown_key:
  assumes new: "k \<notin> set Exception_keys" and key: "k \<in> fst ` set kvs"
    and rest: "Exception_UnmarshalJSON ord (JObj (filter (\<lambda>e. fst e \<noteq> k) kvs)) = Inr strct"
  shows "Exception_UnmarshalJSON ord (JObj kvs) = Inl (not_allowed k)"
proof -
  have rej: "switch k (Exception_cases ord v) (reject k) s = Inl (not_allowed k)" for v s
    by (rule switch_rejects) (simp only: Exception_cases_keys new not_False_eq_True)
  from rest obtain t where
    "range_loop (\<lambda>k v. switch k (Exception_cases ord v) (reject k)) (members ord (filter (\<lambda>e. fst e \<noteq> k) kvs)) Exception_zero = Inr t"
    by (cases "range_loop (\<lambda>k v. switch k (Exception_cases ord v) (reject k)) (members ord (filter (\<lambda>e. fst e \<noteq> k) kvs)) Exception_zero")
       (simp_all add: Exception_UnmarshalJSON_unfold members_def)
  from unknown_key_named [OF Exception_regular rej key this]
  show ?thesis by (simp add: Exception_UnmarshalJSON_unfold members_def)
qed

lemma Exception_unknown_key_fails:
  assumes "k \<notin> set Exception_keys" and "k \<in> fst ` set kvs"
  shows "isl (Exception_UnmarshalJSON ord (JObj kvs))"
proof (cases "Exception_UnmarshalJSON ord (JObj kvs)")
  case (Inr strct)
  then have "dom (map_of (rev kvs)) \<subseteq> set Exception_keys"
    by (simp only: Exception_decode_iff Exception_decodesD(1))
  with assms show ?thesis by (auto simp: dom_map_of_conv_image_fst)
qed simp

lemma Exception_rejects_unknown_keys: "rejects_unknown_keys (Exception_UnmarshalJSON ord) Exception_keys"
  by (rule rejects_unknown_keysI) (erule (1) Exception_unknown_key_fails, erule (2) Exception_unknown_key)

subsection \<open>Notification: decoding and encoding\<close>

definition Notification_keys :: "string list" where
  "Notification_keys = [''associatedRule'', ''descriptor'', ''exception'', ''level'', ''locations'', ''message'', ''properties'', ''threadId'', ''timeUtc'']"

definition Notification_decodes :: "order \<Rightarrow> (string \<rightharpoonup> json) \<Rightarrow> Notification \<Rightarrow> bool" where
  "Notification_decodes ord m strct \<longleftrightarrow>
     dom m \<subseteq> set Notification_keys \<and>
     field_ok (json_Unmarshal_ptr (ReportingDescriptorReference_UnmarshalJSON ord)) (m ''associatedRule'') None (Notification.AssociatedRule strct) \<and>
     field_ok (json_Unmarshal_ptr (ReportingDescriptorReference_UnmarshalJSON ord)) (m ''descriptor'') None (Notification.Descriptor strct) \<and>
     field_ok (json_Unmarshal_ptr (Exception_UnmarshalJSON ord)) (m ''exception'') None (Notification.Exception strct) \<and>
     field_ok json_Unmarshal_string (m ''level'') [] (Notification.Level strct) \<and>
     field_ok (json_Unmarshal_slice (json_Unmarshal_ptr (Location_UnmarshalJSON ord))) (m ''locations'') None (Notification.Locations strct) \<and>
     field_ok (json_Unmarshal_ptr (Message_UnmarshalJSON ord)) (m ''message'') None (Notification.Message strct) \<and>
     field_ok (json_Unmarshal_ptr (PropertyBag_UnmarshalJSON ord)) (m ''properties'') None (Notification.Properties strct) \<and>
     field_ok json_Unmarshal_int (m ''threadId'') 0 (Notification.ThreadId strct) \<and>
     field_ok json_Unmarshal_string (m ''timeUtc'') [] (Notification.TimeUtc strct) \<and>
     m ''message'' \<noteq> None"

lemma Notification_cases_keys: "fst ` set (Notification_cases ord v) = set Notification_keys"
  by (rule keys_image) (simp add: Notification_cases_def Notification_keys_def)

lemma Notification_regular: "regular (\<lambda>k v. switch k (Notification_cases ord v) (reject k))"
  by (rule regular_switch) (simp add: Notification_cases_def)

lemma Notification_fields:
  "field_case (Notification_cases ord) (\<lambda>(strct, messageReceived). Notification.AssociatedRule strct) ''associatedRule'' (json_Unmarshal_ptr (ReportingDescriptorReference_UnmarshalJSON ord))"
  "field_case (Notification_cases ord) (\<lambda>(strct, messageReceived). Notification.Descriptor strct) ''descriptor'' (json_Unmarshal_ptr (ReportingDescriptorReference_UnmarshalJSON ord))"
  "field_case (Notification_cases ord) (\<lambda>(strct, messageReceived). Notification.Exception strct) ''exception'' (json_Unmarshal_ptr (Exception_UnmarshalJSON ord))"
  "field_case (Notification_cases ord) (\<lambda>(strct, messageReceived). Notification.Level strct) ''level'' json_Unmarshal_string"
  "field_case (Notification_cases ord) (\<lambda>(strct, messageReceived). Notification.Locations strct) ''locations'' (json_Unmarshal_slice (json_Unmarshal_ptr (Location_UnmarshalJSON ord)))"
  "field_case (Notification_cases ord) (\<lambda>(strct, messageReceived). Notification.Message strct) ''message'' (json_Unmarshal_ptr (Message_UnmarshalJSON ord))"
  "field_case (Notification_cases ord) (\<lambda>(strct, messageReceived). Notification.Properties strct) ''properties'' (json_Unmarshal_ptr (PropertyBag_UnmarshalJSON ord))"
  "field_case (Notification_cases ord) (\<lambda>(strct, messageReceived). Notification.ThreadId strct) ''threadId'' json_Unmarshal_int"
  "field_case (Notification_cases ord) (\<lambda>(strct, messageReceived). Notification.TimeUtc strct) ''timeUtc'' json_Unmarshal_string"
  "field_case (Notification_cases ord) (\<lambda>(strct, messageReceived). messageReceived) ''message'' (received (json_Unmarshal_ptr (Message_UnmarshalJSON ord)))"
  unfolding field_case_def Notification_cases_def
  by (simp_all add: writes_into writes_received keeps_into split_def)

lemma Notification_loop_sound:
  assumes loop: "range_loop (\<lambda>k v. switch k (Notification_cases ord v) (reject k)) (members ord kvs) (Notification_zero, False) = Inr (strct, messageReceived)"
  shows "dom (map_of (rev kvs)) \<subseteq> set Notification_keys \<and>
     field_ok (json_Unmarshal_ptr (ReportingDescriptorReference_UnmarshalJSON ord)) (map_of (rev kvs) ''associatedRule'') None (Notification.AssociatedRule strct) \<and>
     field_ok (json_Unmarshal_ptr (ReportingDescriptorReference_UnmarshalJSON ord)) (map_of (rev kvs) ''descriptor'') None (Notification.Descriptor strct) \<and>
     field_ok (json_Unmarshal_ptr (Exception_UnmarshalJSON ord)) (map_of (rev kvs) ''exception'') None (Notification.Exception strct) \<and>
     field_ok json_Unmarshal_string (map_of (rev kvs) ''level'') [] (Notification.Level strct) \<and>
     field_ok (json_Unmarshal_slice (json_Unmarshal_ptr (Location_UnmarshalJSON ord))) (map_of (rev kvs) ''locations'') None (Notification.Locations strct) \<and>
     field_ok (json_Unmarshal_ptr (Message_UnmarshalJSON ord)) (map_of (rev kvs) ''message'') None (Notification.Message strct) \<and>
     field_ok (json_Unmarshal_ptr (PropertyBag_UnmarshalJSON ord)) (map_of (rev kvs) ''properties'') None (Notification.Properties strct) \<and>
     field_ok json_Unmarshal_int (map_of (rev kvs) ''threadId'') 0 (Notification.ThreadId strct) \<and>
     field_ok json_Unmarshal_string (map_of (rev kvs) ''timeUtc'') [] (Notification.TimeUtc strct) \<and>
     (messageReceived \<longleftrightarrow> map_of (rev kvs) ''message'' \<noteq> None)"
proof -
  have "fst ` set (members ord kvs) \<subseteq> set Notification_keys"
    by (rule loop_keys_known [OF loop]) (rule Notification_cases_keys)
  then have keys: "dom (map_of (rev kvs)) \<subseteq> set Notification_keys"
    by (simp add: dom_members [of kvs ord])
  note fld = field_after_loop [OF _ members_distinct loop, unfolded map_of_members]
  note flg = flag_after_loop [OF _ members_distinct loop, unfolded map_of_members]
  show ?thesis
    using keys fld [OF Notification_fields(1)] fld [OF Notification_fields(2)] fld [OF Notification_fields(3)] fld [OF Notification_fields(4)] fld [OF Notification_fields(5)] fld [OF Notification_fields(6)] fld [OF Notification_fields(7)] fld [OF Notification_fields(8)] fld [OF Notification_fields(9)] flg [OF Notification_fields(10)]
    by (simp only: prod.case Notification_zero_def Notification.select_convs simp_thms)
qed

lemma Notification_decodesD:
  assumes "Notification_decodes ord m strct"
  shows "dom m \<subseteq> set Notification_keys"
    and "field_ok (json_Unmarshal_ptr (ReportingDescriptorReference_UnmarshalJSON ord)) (m ''associatedRule'') None (Notification.AssociatedRule strct)"
    and "field_ok (json_Unmarshal_ptr (ReportingDescriptorReference_UnmarshalJSON ord)) (m ''descriptor'') None (Notification.Descriptor strct)"
    and "field_ok (json_Unmarshal_ptr (Exception_UnmarshalJSON ord)) (m ''exception'') None (Notification.Exception strct)"
    and "field_ok json_Unmarshal_string (m ''level'') [] (Notification.Level strct)"
    and "field_ok (json_Unmarshal_slice (json_Unmarshal_ptr (Location_UnmarshalJSON ord))) (m ''locations'') None (Notification.Locations strct)"
    and "field_ok (json_Unmarshal_ptr (Message_UnmarshalJSON ord)) (m ''message'') None (Notification.Message strct)"
    and "field_ok (json_Unmarshal_ptr (PropertyBag_UnmarshalJSON ord)) (m ''properties'') None (Notification.Properties strct)"
    and "field_ok json_Unmarshal_int (m ''threadId'') 0 (Notification.ThreadId strct)"
    and "field_ok json_Unmarshal_string (m ''timeUtc'') [] (Notification.TimeUtc strct)"
    and "m ''message'' \<noteq> None"
  using assms unfolding Notification_decodes_def by - (elim conjE, assumption)+

lemma Notification_decodes_unique:
  assumes "Notification_decodes ord m a" and "Notification_decodes ord m b"
  shows "a = b"
  apply (rule Notification.equality)
  apply (rule field_ok_unique [OF Notification_decodesD(2) [OF assms(1)] Notification_decodesD(2) [OF assms(2)]])
  apply (rule field_ok_unique [OF Notification_decodesD(3) [OF assms(1)] Notification_decodesD(3) [OF assms(2)]])
  apply (rule field_ok_unique [OF Notification_decodesD(4) [OF assms(1)] Notification_decodesD(4) [OF assms(2)]])
  apply (rule field_ok_unique [OF Notification_decodesD(5) [OF assms(1)] Notification_decodesD(5) [OF assms(2)]])
  apply (rule field_ok_unique [OF Notification_decodesD(6) [OF assms(1)] Notification_decodesD(6) [OF assms(2)]])
  apply (rule field_ok_unique [OF Notification_decodesD(7) [OF assms(1)] Notification_decodesD(7) [OF assms(2)]])
  apply (rule field_ok_unique [OF Notification_decodesD(8) [OF assms(1)] Notification_decodesD(8) [OF assms(2)]])
  apply (rule field_ok_unique [OF Notification_decodesD(9) [OF assms(1)] Notification_decodesD(9) [OF assms(2)]])
  apply (rule field_ok_unique [OF Notification_decodesD(10) [OF assms(1)] Notification_decodesD(10) [OF assms(2)]])
  apply simp
  done

lemma Notification_accepts:
  assumes "Notification_decodes ord m strct" and "m k = Some v"
  shows "accepting (switch k (Notification_cases ord v) (reject k))"
proof -
  from assms have "k \<in> set Notification_keys" by (auto simp: Notification_decodes_def)
  then have key: "k \<in> fst ` set (Notification_cases ord v)"
    by (simp only: Notification_cases_keys)
  have rows: "list_all (\<lambda>(c, h). m c = Some v \<longrightarrow> accepting h) (Notification_cases ord v)"
    unfolding Notification_cases_def list.pred_inject
    apply (rule conjI [OF accept_row [where m = m and v = v, OF Notification_decodesD(2) [OF assms(1)]]])
    apply (rule conjI [OF accept_row [where m = m and v = v, OF Notification_decodesD(3) [OF assms(1)]]])
    apply (rule conjI [OF accept_row [where m = m and v = v, OF Notification_decodesD(4) [OF assms(1)]]])
    apply (rule conjI [OF accept_row [where m = m and v = v, OF Notification_decodesD(5) [OF assms(1)]]])
    apply (rule conjI [OF accept_row [where m = m and v = v, OF Notification_decodesD(6) [OF assms(1)]]])
    apply (rule conjI [OF accept_row [where m = m and v = v, OF Notification_decodesD(7) [OF assms(1)]]])
    apply (rule conjI [OF accept_row [where m = m and v = v, OF Notification_decodesD(8) [OF assms(1)]]])
    apply (rule conjI [OF accept_row [where m = m and v = v, OF Notification_decodesD(9) [OF assms(1)]]])
    apply (rule conjI [OF accept_row [where m = m and v = v, OF Notification_decodesD(10) [OF assms(1)]]])
    apply simp
    done
  show ?thesis by (rule rows_accept [OF rows assms(2) key])
qed

lemma Notification_decode_iff:
  "Notification_UnmarshalJSON ord (JObj kvs) = Inr strct \<longleftrightarrow>
   Notification_decodes ord (map_of (rev kvs)) strct"
proof
  assume "Notification_UnmarshalJSON ord (JObj kvs) = Inr strct"
  then obtain messageReceived where
    loop: "range_loop (\<lambda>k v. switch k (Notification_cases ord v) (reject k)) (members ord kvs) (Notification_zero, False) = Inr (strct, messageReceived)"
    and fin: "messageReceived"
    by (auto simp: Notification_UnmarshalJSON_def members_def split: sum.splits if_splits)
  from Notification_loop_sound [OF loop] fin
  show "Notification_decodes ord (map_of (rev kvs)) strct"
    by (simp add: Notification_decodes_def)
next
  assume d: "Notification_decodes ord (map_of (rev kvs)) strct"
  have "\<exists>t. range_loop (\<lambda>k v. switch k (Notification_cases ord v) (reject k)) (members ord kvs) (Notification_zero, False) = Inr t"
  proof (rule loop_succeeds [OF Notification_regular])
    fix k v assume "(k, v) \<in> set (members ord kvs)"
    then have "map_of (rev kvs) k = Some v" by (rule member_lookup)
    from Notification_accepts [OF d this]
    show "accepting (switch k (Notification_cases ord v) (reject k))" .
  qed
  then obtain t where "range_loop (\<lambda>k v. switch k (Notification_cases ord v) (reject k)) (members ord kvs) (Notification_zero, False) = Inr t" ..
  then obtain strct' messageReceived where
    loop: "range_loop (\<lambda>k v. switch k (Notification_cases ord v) (reject k)) (members ord kvs) (Notification_zero, False) = Inr (strct', messageReceived)"
    by (cases t) auto
  from Notification_loop_sound [OF loop] d
  have fin: "messageReceived"
    and d': "Notification_decodes ord (map_of (rev kvs)) strct'"
    by (simp_all add: Notification_decodes_def)
  from Notification_decodes_unique [OF d' d] have "strct' = strct" .
  with loop fin show "Notification_UnmarshalJSON ord (JObj kvs) = Inr strct"
    by (simp add: Notification_UnmarshalJSON_def members_def)
qed

definition Notification_results :: "scanner \<Rightarrow> order \<Rightarrow> Notification \<Rightarrow> (string \<times> (error + json)) list" where
  "Notification_results scn ord strct =
     [(''associatedRule'', json_Marshal_ptr ''*sarif.ReportingDescriptorReference'' (ReportingDescriptorReference_MarshalJSON scn ord) (Notification.AssociatedRule strct)),
      (''descriptor'', json_Marshal_ptr ''*sarif.ReportingDescriptorReference'' (ReportingDescriptorReference_MarshalJSON scn ord) (Notification.Descriptor strct)),
      (''exception'', json_Marshal_ptr ''*sarif.Exception'' (Exception_MarshalJSON scn ord) (Notification.Exception strct)),
      (''level'', json_Marshal_string (Notification.Level strct)),
      (''locations'', json_Marshal_slice (json_Marshal_ptr ''*sarif.Location'' (Location_MarshalJSON scn ord)) (Notification.Locations strct)),
      (''message'', if Notification.Message strct = None then Inl (RequiredField ''message'') else json_Marshal_ptr ''*sarif.Message'' (Message_MarshalJSON scn ord) (Notification.Message strct)),
      (''properties'', json_Marshal_bytes ''*sarif.PropertyBag'' (PropertyBag_MarshalJSON scn ord) (Notification.Properties strct)),
      (''threadId'', json_Marshal_int (Notification.ThreadId strct)),
      (''timeUtc'', json_Marshal_string (Notification.TimeUtc strct))]"

lemma Notification_MarshalJSON_results:
  "Notification_MarshalJSON scn ord strct = object (emit_all (Notification_results scn ord strct))"
  by (simp add: Notification_MarshalJSON_def Notification_results_def emit_nilcheck)

lemma Notification_keys_written:
  "Notification_MarshalJSON scn ord strct = Inr j \<Longrightarrow> \<exists>kvs. j = JObj kvs \<and> map fst kvs = Notification_keys"
  using keys_written [of "Notification_results scn ord strct" j]
  by (simp add: Notification_MarshalJSON_results Notification_results_def Notification_keys_def)

definition Notification_encodable :: "scanner \<Rightarrow> order \<Rightarrow> Notification \<Rightarrow> bool" where
  "Notification_encodable scn ord strct \<longleftrightarrow>
     ptr_all (ReportingDescriptorReference_encodable scn ord) (Notification.AssociatedRule strct) \<and>
     ptr_all (ReportingDescriptorReference_encodable scn ord) (Notification.Descriptor strct) \<and>
     ptr_all (Exception_encodable scn ord) (Notification.Exception strct) \<and>
     slice_all (ptr_all (Location_encodable scn ord)) (Notification.Locations strct) \<and>
     Notification.Message strct \<noteq> None \<and>
     ptr_all (Message_encodable scn ord) (Notification.Message strct) \<and>
     ptr_all (PropertyBag_encodable scn ord) (Notification.Properties strct)"

lemma Notification_fails_unless: "fails_unless (Notification_MarshalJSON scn ord) (Notification_encodable scn ord)"
  unfolding fails_unless_def Notification_MarshalJSON_results Notification_results_def Notification_encodable_def isl_object_emit_all
  by (auto simp add: always_simps
      fails_unlessD [OF fails_unless_ptr [OF ReportingDescriptorReference_fails_unless]]
      fails_unlessD [OF fails_unless_ptr [OF Exception_fails_unless]]
      fails_unlessD [OF fails_unless_string]
      fails_unlessD [OF fails_unless_slice [OF fails_unless_ptr [OF Location_fails_unless]]]
      fails_unlessD [OF fails_unless_ptr [OF Message_fails_unless]]
      fails_unlessD [OF PropertyBag_field_fails_unless]
      fails_unlessD [OF fails_unless_int])

definition Notification_valid :: "Notification \<Rightarrow> bool" where
  "Notification_valid strct \<longleftrightarrow>
     ptr_all ReportingDescriptorReference_valid (Notification.AssociatedRule strct) \<and>
     ptr_all ReportingDescriptorReference_valid (Notification.Descriptor strct) \<and>
     ptr_all Exception_valid (Notification.Exception strct) \<and>
     slice_all (ptr_all Location_valid) (Notification.Locations strct) \<and>
     Notification.Message strct \<noteq> None \<and>
     ptr_all Message_valid (Notification.Message strct) \<and>
     ptr_all PropertyBag_valid (Notification.Properties strct)"

lemma Notification_keys_distinct: "distinct Notification_keys"
  by (simp add: Notification_keys_def)

lemma Notification_round_trips:
  "round_trips_object (Notification_MarshalJSON scn ord) (Notification_UnmarshalJSON ord') Notification_valid"
  unfolding round_trips_object_def
proof (intro allI impI)
  fix strct assume v: "Notification_valid strct"
  note v' = v [unfolded Notification_valid_def]
  let ?rs = "Notification_results scn ord strct"
  let ?kvs = "map (\<lambda>e. (fst e, projr (snd e))) ?rs"
  have f0: "\<not> isl (json_Marshal_ptr ''*sarif.ReportingDescriptorReference'' (ReportingDescriptorReference_MarshalJSON scn ord) (Notification.AssociatedRule strct)) \<and>
      json_Unmarshal_ptr (ReportingDescriptorReference_UnmarshalJSON ord') (projr (json_Marshal_ptr ''*sarif.ReportingDescriptorReference'' (ReportingDescriptorReference_MarshalJSON scn ord) (Notification.AssociatedRule strct))) = Inr (Notification.AssociatedRule strct)"
    by (rule round_tripsD [OF round_trips_ptr [OF ReportingDescriptorReference_round_trips]]) (use v' in simp)
  have f1: "\<not> isl (json_Marshal_ptr ''*sarif.ReportingDescriptorReference'' (ReportingDescriptorReference_MarshalJSON scn ord) (Notification.Descriptor strct)) \<and>
      json_Unmarshal_ptr (ReportingDescriptorReference_UnmarshalJSON ord') (projr (json_Marshal_ptr ''*sarif.ReportingDescriptorReference'' (ReportingDescriptorReference_MarshalJSON scn ord) (Notification.Descriptor strct))) = Inr (Notification.Descriptor strct)"
    by (rule round_tripsD [OF round_trips_ptr [OF ReportingDescriptorReference_round_trips]]) (use v' in simp)
  have f2: "\<not> isl (json_Marshal_ptr ''*sarif.Exception'' (Exception_MarshalJSON scn ord) (Notification.Exception strct)) \<and>
      json_Unmarshal_ptr (Exception_UnmarshalJSON ord') (projr (json_Marshal_ptr ''*sarif.Exception'' (Exception_MarshalJSON scn ord) (Notification.Exception strct))) = Inr (Notification.Exception strct)"
    by (rule round_tripsD [OF round_trips_ptr [OF Exception_round_trips]]) (use v' in simp)
  have f3: "\<not> isl (json_Marshal_string (Notification.Level strct)) \<and>
      json_Unmarshal_string (projr (json_Marshal_string (Notification.Level strct))) = Inr (Notification.Level strct)"
    by (rule round_tripsD [OF round_trips_string]) (use v' in simp)
  have f4: "\<not> isl (json_Marshal_slice (json_Marshal_ptr ''*sarif.Location'' (Location_MarshalJSON scn ord)) (Notification.Locations strct)) \<and>
      json_Unmarshal_slice (json_Unmarshal_ptr (Location_UnmarshalJSON ord')) (projr (json_Marshal_slice (json_Marshal_ptr ''*sarif.Location'' (Location_MarshalJSON scn ord)) (Notification.Locations strct))) = Inr (Notification.Locations strct)"
    by (rule round_tripsD [OF round_trips_slice [OF round_trips_ptr [OF Location_round_trips]]]) (use v' in simp)
  have f5: "\<not> isl (json_Marshal_ptr ''*sarif.Message'' (Message_MarshalJSON scn ord) (Notification.Message strct)) \<and>
      json_Unmarshal_ptr (Message_UnmarshalJSON ord') (projr (json_Marshal_ptr ''*sarif.Message'' (Message_MarshalJSON scn ord) (Notification.Message strct))) = Inr (Notification.Message strct)"
    by (rule round_tripsD [OF round_trips_ptr [OF Message_round_trips]]) (use v' in simp)
  have f6: "\<not> isl (json_Marshal_bytes ''*sarif.PropertyBag'' (PropertyBag_MarshalJSON scn ord) (Notification.Properties strct)) \<and>
      json_Unmarshal_ptr (PropertyBag_UnmarshalJSON ord') (projr (json_Marshal_bytes ''*sarif.PropertyBag'' (PropertyBag_MarshalJSON scn ord) (Notification.Properties strct))) = Inr (Notification.Properties strct)"
    by (rule round_tripsD [OF PropertyBag_field_round_trips]) (use v' in simp)
  have f7: "\<not> isl (json_Marshal_int (Notification.ThreadId strct)) \<and>
      json_Unmarshal_int (projr (json_Marshal_int (Notification.ThreadId strct))) = Inr (Notification.ThreadId strct)"
    by (rule round_tripsD [OF round_trips_int]) (use v' in simp)
  have f8: "\<not> isl (json_Marshal_string (Notification.TimeUtc strct)) \<and>
      json_Unmarshal_string (projr (json_Marshal_string (Notification.TimeUtc strct))) = Inr (Notification.TimeUtc strct)"
    by (rule round_tripsD [OF round_trips_string]) (use v' in simp)
  note fs = f0 f1 f2 f3 f4 f5 f6 f7 f8
  have nn: "Notification.Message strct \<noteq> None"
    using v' by simp_all
  have rs: "?rs =
     [(''associatedRule'', json_Marshal_ptr ''*sarif.ReportingDescriptorReference'' (ReportingDescriptorReference_MarshalJSON scn ord) (Notification.AssociatedRule strct)),
      (''descriptor'', json_Marshal_ptr ''*sarif.ReportingDescriptorReference'' (ReportingDescriptorReference_MarshalJSON scn ord) (Notification.Descriptor strct)),
      (''exception'', json_Marshal_ptr ''*sarif.Exception'' (Exception_MarshalJSON scn ord) (Notification.Exception strct)),
      (''level'', json_Marshal_string (Notification.Level strct)),
      (''locations'', json_Marshal_slice (json_Marshal_ptr ''*sarif.Location'' (Location_MarshalJSON scn ord)) (Notification.Locations strct)),
      (''message'', json_Marshal_ptr ''*sarif.Message'' (Message_MarshalJSON scn ord) (Notification.Message strct)),
      (''properties'', json_Marshal_bytes ''*sarif.PropertyBag'' (PropertyBag_MarshalJSON scn ord) (Notification.Properties strct)),
      (''threadId'', json_Marshal_int (Notification.ThreadId strct)),
      (''timeUtc'', json_Marshal_string (Notification.TimeUtc strct))]"
    using nn by (auto simp add: Notification_results_def)
  have keys: "map fst ?rs = Notification_keys"
    by (simp add: Notification_results_def Notification_keys_def)
  then have dist: "distinct (map fst ?rs)"
    by (simp only: Notification_keys_distinct)
  have ok: "list_all (\<lambda>e. \<not> isl (snd e)) ?rs"
    unfolding rs by (simp only: list.pred_inject snd_conv fs simp_thms)
  then have enc: "Notification_MarshalJSON scn ord strct = Inr (JObj ?kvs)"
    by (simp add: Notification_MarshalJSON_results [of scn ord strct] object_emit_all_eq_Inr)
  have l0: "map_of (rev ?kvs) ''associatedRule'' = Some (projr (json_Marshal_ptr ''*sarif.ReportingDescriptorReference'' (ReportingDescriptorReference_MarshalJSON scn ord) (Notification.AssociatedRule strct)))"
    by (rule written_lookup [OF dist]) (subst rs, intro list.set_intros)
  have l1: "map_of (rev ?kvs) ''descriptor'' = Some (projr (json_Marshal_ptr ''*sarif.ReportingDescriptorReference'' (ReportingDescriptorReference_MarshalJSON scn ord) (Notification.Descriptor strct)))"
    by (rule written_lookup [OF dist]) (subst rs, intro list.set_intros)
  have l2: "map_of (rev ?kvs) ''exception'' = Some (projr (json_Marshal_ptr ''*sarif.Exception'' (Exception_MarshalJSON scn ord) (Notification.Exception strct)))"
    by (rule written_lookup [OF dist]) (subst rs, intro list.set_intros)
  have l3: "map_of (rev ?kvs) ''level'' = Some (projr (json_Marshal_string (Notification.Level strct)))"
    by (rule written_lookup [OF dist]) (subst rs, intro list.set_intros)
  have l4: "map_of (rev ?kvs) ''locations'' = Some (projr (json_Marshal_slice (json_Marshal_ptr ''*sarif.Location'' (Location_MarshalJSON scn ord)) (Notification.Locations strct)))"
    by (rule written_lookup [OF dist]) (subst rs, intro list.set_intros)
  have l5: "map_of (rev ?kvs) ''message'' = Some (projr (json_Marshal_ptr ''*sarif.Message'' (Message_MarshalJSON scn ord) (Notification.Message strct)))"
    by (rule written_lookup [OF dist]) (subst rs, intro list.set_intros)
  have l6: "map_of (rev ?kvs) ''properties'' = Some (projr (json_Marshal_bytes ''*sarif.PropertyBag'' (PropertyBag_MarshalJSON scn ord) (Notification.Properties strct)))"
    by (rule written_lookup [OF dist]) (subst rs, intro list.set_intros)
  have l7: "map_of (rev ?kvs) ''threadId'' = Some (projr (json_Marshal_int (Notification.ThreadId strct)))"
    by (rule written_lookup [OF dist]) (subst rs, intro list.set_intros)
  have l8: "map_of (rev ?kvs) ''timeUtc'' = Some (projr (json_Marshal_string (Notification.TimeUtc strct)))"
    by (rule written_lookup [OF dist]) (subst rs, intro list.set_intros)
  have dec: "Notification_decodes ord' (map_of (rev ?kvs)) strct"
    unfolding Notification_decodes_def l0 l1 l2 l3 l4 l5 l6 l7 l8
    by (simp only: field_ok_Some fs written_dom keys subset_refl option.simps simp_thms)
  then have "Notification_UnmarshalJSON ord' (JObj ?kvs) = Inr strct"
    by (simp only: Notification_decode_iff)
  with enc show "rt_object (Notification_MarshalJSON scn ord) (Notification_UnmarshalJSON ord') strct"
    unfolding rt_object_def by blast
qed

definition Notification_small_bags :: "Notification \<Rightarrow> bool" where
  "Notification_small_bags strct \<longleftrightarrow>
     ptr_all ReportingDescriptorReference_small_bags (Notification.AssociatedRule strct) \<and>
     ptr_all ReportingDescriptorReference_small_bags (Notification.Descriptor strct) \<and>
     ptr_all Exception_small_bags (Notification.Exception strct) \<and>
     slice_all (ptr_all Location_small_bags) (Notification.Locations strct) \<and>
     ptr_all Message_small_bags (Notification.Message strct) \<and>
     ptr_all PropertyBag_small_bags (Notification.Properties strct)"

lemma Notification_same_output:
  "same_output (Notification_MarshalJSON scn ord) (Notification_MarshalJSON scn ord') Notification_small_bags"
  unfolding same_output_def
proof (intro allI impI)
  fix strct assume v: "Notification_small_bags strct"
  note v' = v [unfolded Notification_small_bags_def]
  have e0: "json_Marshal_ptr ''*sarif.ReportingDescriptorReference'' (ReportingDescriptorReference_MarshalJSON scn ord) (Notification.AssociatedRule strct) =
      json_Marshal_ptr ''*sarif.ReportingDescriptorReference'' (ReportingDescriptorReference_MarshalJSON scn ord') (Notification.AssociatedRule strct)"
    by (rule same_outputD [OF same_output_ptr [OF ReportingDescriptorReference_same_output]]) (use v' in simp)
  have e1: "json_Marshal_ptr ''*sarif.ReportingDescriptorReference'' (ReportingDescriptorReference_MarshalJSON scn ord) (Notification.Descriptor strct) =
      json_Marshal_ptr ''*sarif.ReportingDescriptorReference'' (ReportingDescriptorReference_MarshalJSON scn ord') (Notification.Descriptor strct)"
    by (rule same_outputD [OF same_output_ptr [OF ReportingDescriptorReference_same_output]]) (use v' in simp)
  have e2: "json_Marshal_ptr ''*sarif.Exception'' (Exception_MarshalJSON scn ord) (Notification.Exception strct) =
      json_Marshal_ptr ''*sarif.Exception'' (Exception_MarshalJSON scn ord') (Notification.Exception strct)"
    by (rule same_outputD [OF same_output_ptr [OF Exception_same_output]]) (use v' in simp)
  have e4: "json_Marshal_slice (json_Marshal_ptr ''*sarif.Location'' (Location_MarshalJSON scn ord)) (Notification.Locations strct) =
      json_Marshal_slice (json_Marshal_ptr ''*sarif.Location'' (Location_MarshalJSON scn ord')) (Notification.Locations strct)"
    by (rule same_outputD [OF same_output_slice [OF same_output_ptr [OF Location_same_output]]]) (use v' in simp)
  have e5: "json_Marshal_ptr ''*sarif.Message'' (Message_MarshalJSON scn ord) (Notification.Message strct) =
      json_Marshal_ptr ''*sarif.Message'' (Message_MarshalJSON scn ord') (Notification.Message strct)"
    by (rule same_outputD [OF same_output_ptr [OF Message_same_output]]) (use v' in simp)
  have e6: "json_Marshal_bytes ''*sarif.PropertyBag'' (PropertyBag_MarshalJSON scn ord) (Notification.Properties strct) =
      json_Marshal_bytes ''*sarif.PropertyBag'' (PropertyBag_MarshalJSON scn ord') (Notification.Properties strct)"
    by (rule same_outputD [OF PropertyBag_field_same_output]) (use v' in simp)
  show "Notification_MarshalJSON scn ord strct = Notification_MarshalJSON scn ord' strct"
    by (simp only: Notification_MarshalJSON_def e0 e1 e2 e4 e5 e6)
qed

lemma Notification_writes_keys: "writes_keys (Notification_MarshalJSON scn ord) Notification_keys"
  unfolding writes_keys_def by (intro allI impI) (erule Notification_keys_written)

lemma Notification_unknown_key:
  assumes new: "k \<notin> set Notification_keys" and key: "k \<in> fst ` set kvs"
    and rest: "Notification_UnmarshalJSON ord (JObj (filter (\<lambda>e. fst e \<noteq> k) kvs)) = Inr strct"
  shows "Notification_UnmarshalJSON ord (JObj kvs) = Inl (not_allowed k)"
proof -
  have rej: "switch k (Notification_cases ord v) (reject k) s = Inl (not_allowed k)" for v s
    by (rule switch_rejects) (simp only: Notification_cases_keys new not_False_eq_True)
  from rest obtain t where
    "range_loop (\<lambda>k v. switch k (Notification_cases ord v) (reject k)) (members ord (filter (\<lambda>e. fst e \<noteq> k) kvs)) (Notification_zero, False) = Inr t"
    by (cases "range_loop (\<lambda>k v. switch k (Notification_cases ord v) (reject k)) (members ord (filter (\<lambda>e. fst e \<noteq> k) kvs)) (Notification_zero, False)")
       (simp_all add: Notification_UnmarshalJSON_def members_def)
  from unknown_key_named [OF Notification_regular rej key this]
  show ?thesis by (simp add: Notification_UnmarshalJSON_def members_def)
qed

lemma Notification_unknown_key_fails:
  assumes "k \<notin> set Notification_keys" and "k \<in> fst ` set kvs"
  shows "isl (Notification_UnmarshalJSON ord (JObj kvs))"
proof (cases "Notification_UnmarshalJSON ord (JObj kvs)")
  case (Inr strct)
  then have "dom (map_of (rev kvs)) \<subseteq> set Notification_keys"
    by (simp only: Notification_decode_iff Notification_decodesD(1))
  with assms show ?thesis by (auto simp: dom_map_of_conv_image_fst)
qed simp

lemma Notification_required_present:
  assumes "Notification_UnmarshalJSON ord (JObj kvs) = Inr strct"
  shows "''message'' \<in> fst ` set kvs"
proof -
  from assms have d: "Notification_decodes ord (map_of (rev kvs)) strct" by (simp only: Notification_decode_iff)
  show "''message'' \<in> fst ` set kvs"
    using Notification_decodesD(11) [OF d]
    by (simp_all only: present_key)
qed

lemma Notification_without_Message:
  assumes "Notification_UnmarshalJSON ord (JObj kvs) = Inr strct"
  shows "Notification_UnmarshalJSON ord (JObj (filter (\<lambda>e. fst e \<noteq> ''message'') kvs)) =
    Inl (RequiredNotPresent ''message'')"
proof -
  from assms have d: "Notification_decodes ord (map_of (rev kvs)) strct" by (simp only: Notification_decode_iff)
  have "\<exists>t. range_loop (\<lambda>k v. switch k (Notification_cases ord v) (reject k)) (members ord (filter (\<lambda>e. fst e \<noteq> ''message'') kvs))
      (Notification_zero, False) = Inr t"
  proof (rule loop_succeeds [OF Notification_regular])
    fix k v assume "(k, v) \<in> set (members ord (filter (\<lambda>e. fst e \<noteq> ''message'') kvs))"
    then have "map_of (rev kvs) k = Some v" by (rule member_lookup_filter)
    from Notification_accepts [OF d this]
    show "accepting (switch k (Notification_cases ord v) (reject k))" .
  qed
  then obtain t where "range_loop (\<lambda>k v. switch k (Notification_cases ord v) (reject k)) (members ord (filter (\<lambda>e. fst e \<noteq> ''message'') kvs))
      (Notification_zero, False) = Inr t" ..
  then obtain strct' messageReceived where
    loop: "range_loop (\<lambda>k v. switch k (Notification_cases ord v) (reject k)) (members ord (filter (\<lambda>e. fst e \<noteq> ''message'') kvs))
      (Notification_zero, False) = Inr (strct', messageReceived)"
    by (cases t) auto
  from Notification_loop_sound [OF loop] Notification_decodesD(11) [OF d]
  have "\<not> messageReceived"
    by (simp_all add: lookup_filter)
  with loop show ?thesis
    by (simp add: Notification_UnmarshalJSON_def members_def)
qed


lemma Notification_rejects_unknown_keys: "rejects_unknown_keys (Notification_UnmarshalJSON ord) Notification_keys"
  by (rule rejects_unknown_keysI) (erule (1) Notification_unknown_key_fails, erule (2) Notification_unknown_key)

lemma Notification_requires_Message: "requires_key (Notification_UnmarshalJSON ord) ''message''"
  by (rule requires_keyI) (erule Notification_required_present(1), erule Notification_without_Message)


subsection \<open>Invocation: decoding and encoding\<close>

definition Invocation_keys :: "string list" where
  "Invocation_keys = [''account'', ''arguments'', ''commandLine'', ''endTimeUtc'', ''environmentVariables'', ''executableLocation'', ''executionSuccessful'', ''exitCode'', ''exitCodeDescription'', ''exitSignalName'', ''exitSignalNumber'', ''machine'', ''notificationConfigurationOverrides'', ''processId'', ''processStartFailureMessage'', ''properties'', ''responseFiles'', ''ruleConfigurationOverrides'', ''startTimeUtc'', ''stderr'', ''stdin'', ''stdout'', ''stdoutStderr'', ''toolConfigurationNotifications'', ''toolExecutionNotifications'', ''workingDirectory'']"

definition Invocation_decodes :: "order \<Rightarrow> (string \<rightharpoonup> json) \<Rightarrow> Invocation \<Rightarrow> bool" where
  "Invocation_decodes ord m strct \<longleftrightarrow>
     dom m \<subseteq> set Invocation_keys \<and>
     field_ok json_Unmarshal_string (m ''account'') [] (Invocation.Account strct) \<and>
     field_ok (json_Unmarshal_slice json_Unmarshal_string) (m ''arguments'') None (Invocation.Arguments strct) \<and>
     field_ok json_Unmarshal_string (m ''commandLine'') [] (Invocation.CommandLine strct) \<and>
     field_ok json_Unmarshal_string (m ''endTimeUtc'') [] (Invocation.EndTimeUtc strct) \<and>
     field_ok (json_Unmarshal_map json_Unmarshal_string) (m ''environmentVariables'') None (Invocation.EnvironmentVariables strct) \<and>
     field_ok (json_Unmarshal_ptr (ArtifactLocation_UnmarshalJSON ord)) (m ''executableLocation'') None (Invocation.ExecutableLocation strct) \<and>
     field_ok json_Unmarshal_bool (m ''executionSuccessful'') False (Invocation.ExecutionSuccessful strct) \<and>
     field_ok json_Unmarshal_int (m ''exitCode'') 0 (Invocation.ExitCode strct) \<and>
     field_ok json_Unmarshal_string (m ''exitCodeDescription'') [] (Invocation.ExitCodeDescription strct) \<and>
     field_ok json_Unmarshal_string (m ''exitSignalName'') [] (Invocation.ExitSignalName strct) \<and>
     field_ok json_Unmarshal_int (m ''exitSignalNumber'') 0 (Invocation.ExitSignalNumber strct) \<and>
     field_ok json_Unmarshal_string (m ''machine'') [] (Invocation.Machine strct) \<and>
     field_ok (json_Unmarshal_slice (json_Unmarshal_ptr (ConfigurationOverride_UnmarshalJSON ord))) (m ''notificationConfigurationOverrides'') None (Invocation.NotificationConfigurationOverrides strct) \<and>
     field_ok json_Unmarshal_int (m ''processId'') 0 (Invocation.ProcessId strct) \<and>
     field_ok json_Unmarshal_string (m ''processStartFailureMessage'') [] (Invocation.ProcessStartFailureMessage strct) \<and>
     field_ok (json_Unmarshal_ptr (PropertyBag_UnmarshalJSON ord)) (m ''properties'') None (Invocation.Properties strct) \<and>
     field_ok (json_Unmarshal_slice (json_Unmarshal_ptr (ArtifactLocation_UnmarshalJSON ord))) (m ''responseFiles'') None (Invocation.ResponseFiles strct) \<and>
     field_ok (json_Unmarshal_slice (json_Unmarshal_ptr (ConfigurationOverride_UnmarshalJSON ord))) (m ''ruleConfigurationOverrides'') None (Invocation.RuleConfigurationOverrides strct) \<and>
     field_ok json_Unmarshal_string (m ''startTimeUtc'') [] (Invocation.StartTimeUtc strct) \<and>
     field_ok (json_Unmarshal_ptr (ArtifactLocation_UnmarshalJSON ord)) (m ''stderr'') None (Invocation.Stderr strct) \<and>
     field_ok (json_Unmarshal_ptr (ArtifactLocation_UnmarshalJSON ord)) (m ''stdin'') None (Invocation.Stdin strct) \<and>
     field_ok (json_Unmarshal_ptr (ArtifactLocation_UnmarshalJSON ord)) (m ''stdout'') None (Invocation.Stdout strct) \<and>
     field_ok (json_Unmarshal_ptr (ArtifactLocation_UnmarshalJSON ord)) (m ''stdoutStderr'') None (Invocation.StdoutStderr strct) \<and>
     field_ok (json_Unmarshal_slice (json_Unmarshal_ptr (Notification_UnmarshalJSON ord))) (m ''toolConfigurationNotifications'') None (Invocation.ToolConfigurationNotifications strct) \<and>
     field_ok (json_Unmarshal_slice (json_Unmarshal_ptr (Notification_UnmarshalJSON ord))) (m ''toolExecutionNotifications'') None (Invocation.ToolExecutionNotifications strct) \<and>
     field_ok (json_Unmarshal_ptr (ArtifactLocation_UnmarshalJSON ord)) (m ''workingDirectory'') None (Invocation.WorkingDirectory strct) \<and>
     m ''executionSuccessful'' \<noteq> None"

lemma Invocation_cases_keys: "fst ` set (Invocation_cases ord v) = set Invocation_keys"
  by (rule keys_image) (simp add: Invocation_cases_def Invocation_keys_def)

lemma Invocation_regular: "regular (\<lambda>k v. switch k (Invocation_cases ord v) (reject k))"
  by (rule regular_switch) (simp add: Invocation_cases_def)

lemma Invocation_fields:
  "field_case (Invocation_cases ord) (\<lambda>(strct, executionSuccessfulReceived). Invocation.Account strct) ''account'' json_Unmarshal_string"
  "field_case (Invocation_cases ord) (\<lambda>(strct, executionSuccessfulReceived). Invocation.Arguments strct) ''arguments'' (json_Unmarshal_slice json_Unmarshal_string)"
  "field_case (Invocation_cases ord) (\<lambda>(strct, executionSuccessfulReceived). Invocation.CommandLine strct) ''commandLine'' json_Unmarshal_string"
  "field_case (Invocation_cases ord) (\<lambda>(strct, executionSuccessfulReceived). Invocation.EndTimeUtc strct) ''endTimeUtc'' json_Unmarshal_string"
  "field_case (Invocation_cases ord) (\<lambda>(strct, executionSuccessfulReceived). Invocation.EnvironmentVariables strct) ''environmentVariables'' (json_Unmarshal_map json_Unmarshal_string)"
  "field_case (Invocation_cases ord) (\<lambda>(strct, executionSuccessfulReceived). Invocation.ExecutableLocation strct) ''executableLocation'' (json_Unmarshal_ptr (ArtifactLocation_UnmarshalJSON ord))"
  "field_case (Invocation_cases ord) (\<lambda>(strct, executionSuccessfulReceived). Invocation.ExecutionSuccessful strct) ''executionSuccessful'' json_Unmarshal_bool"
  "field_case (Invocation_cases ord) (\<lambda>(strct, executionSuccessfulReceived). Invocation.ExitCode strct) ''exitCode'' json_Unmarshal_int"
  "field_case (Invocation_cases ord) (\<lambda>(strct, executionSuccessfulReceived). Invocation.ExitCodeDescription strct) ''exitCodeDescription'' json_Unmarshal_string"
  "field_case (Invocation_cases ord) (\<lambda>(strct, executionSuccessfulReceived). Invocation.ExitSignalName strct) ''exitSignalName'' json_Unmarshal_string"
  "field_case (Invocation_cases ord) (\<lambda>(strct, executionSuccessfulReceived). Invocation.ExitSignalNumber strct) ''exitSignalNumber'' json_Unmarshal_int"
  "field_case (Invocation_cases ord) (\<lambda>(strct, executionSuccessfulReceived). Invocation.Machine strct) ''machine'' json_Unmarshal_string"
  "field_case (Invocation_cases ord) (\<lambda>(strct, executionSuccessfulReceived). Invocation.NotificationConfigurationOverrides strct) ''notificationConfigurationOverrides'' (json_Unmarshal_slice (json_Unmarshal_ptr (ConfigurationOverride_UnmarshalJSON ord)))"
  "field_case (Invocation_cases ord) (\<lambda>(strct, executionSuccessfulReceived). Invocation.ProcessId strct) ''processId'' json_Unmarshal_int"
  "field_case (Invocation_cases ord) (\<lambda>(strct, executionSuccessfulReceived). Invocation.ProcessStartFailureMessage strct) ''processStartFailureMessage'' json_Unmarshal_string"
  "field_case (Invocation_cases ord) (\<lambda>(strct, executionSuccessfulReceived). Invocation.Properties strct) ''properties'' (json_Unmarshal_ptr (PropertyBag_UnmarshalJSON ord))"
  "field_case (Invocation_cases ord) (\<lambda>(strct, executionSuccessfulReceived). Invocation.ResponseFiles strct) ''responseFiles'' (json_Unmarshal_slice (json_Unmarshal_ptr (ArtifactLocation_UnmarshalJSON ord)))"
  "field_case (Invocation_cases ord) (\<lambda>(strct, executionSuccessfulReceived). Invocation.RuleConfigurationOverrides strct) ''ruleConfigurationOverrides'' (json_Unmarshal_slice (json_Unmarshal_ptr (ConfigurationOverride_UnmarshalJSON ord)))"
  "field_case (Invocation_cases ord) (\<lambda>(strct, executionSuccessfulReceived). Invocation.StartTimeUtc strct) ''startTimeUtc'' json_Unmarshal_string"
  "field_case (Invocation_cases ord) (\<lambda>(strct, executionSuccessfulReceived). Invocation.Stderr strct) ''stderr'' (json_Unmarshal_ptr (ArtifactLocation_UnmarshalJSON ord))"
  "field_case (Invocation_cases ord) (\<lambda>(strct, executionSuccessfulReceived). Invocation.Stdin strct) ''stdin'' (json_Unmarshal_ptr (ArtifactLocation_UnmarshalJSON ord))"
  "field_case (Invocation_cases ord) (\<lambda>(strct, executionSuccessfulReceived). Invocation.Stdout strct) ''stdout'' (json_Unmarshal_ptr (ArtifactLocation_UnmarshalJSON ord))"
  "field_case (Invocation_cases ord) (\<lambda>(strct, executionSuccessfulReceived). Invocation.StdoutStderr strct) ''stdoutStderr'' (json_Unmarshal_ptr (ArtifactLocation_UnmarshalJSON ord))"
  "field_case (Invocation_cases ord) (\<lambda>(strct, executionSuccessfulReceived). Invocation.ToolConfigurationNotifications strct) ''toolConfigurationNotifications'' (json_Unmarshal_slice (json_Unmarshal_ptr (Notification_UnmarshalJSON ord)))"
  "field_case (Invocation_cases ord) (\<lambda>(strct, executionSuccessfulReceived). Invocation.ToolExecutionNotifications strct) ''toolExecutionNotifications'' (json_Unmarshal_slice (json_Unmarshal_ptr (Notification_UnmarshalJSON ord)))"
  "field_case (Invocation_cases ord) (\<lambda>(strct, executionSuccessfulReceived). Invocation.WorkingDirectory strct) ''workingDirectory'' (json_Unmarshal_ptr (ArtifactLocation_UnmarshalJSON ord))"
  "field_case (Invocation_cases ord) (\<lambda>(strct, executionSuccessfulReceived). executionSuccessfulReceived) ''executionSuccessful'' (received json_Unmarshal_bool)"
  unfolding field_case_def Invocation_cases_def
  by (simp_all add: writes_into writes_received keeps_into split_def)

lemma Invocation_loop_sound:
  assumes loop: "range_loop (\<lambda>k v. switch k (Invocation_cases ord v) (reject k)) (members ord kvs) (Invocation_zero, False) = Inr (strct, executionSuccessfulReceived)"
  shows "dom (map_of (rev kvs)) \<subseteq> set Invocation_keys \<and>
     field_ok json_Unmarshal_string (map_of (rev kvs) ''account'') [] (Invocation.Account strct) \<and>
     field_ok (json_Unmarshal_slice json_Unmarshal_string) (map_of (rev kvs) ''arguments'') None (Invocation.Arguments strct) \<and>
     field_ok json_Unmarshal_string (map_of (rev kvs) ''commandLine'') [] (Invocation.CommandLine strct) \<and>
     field_ok json_Unmarshal_string (map_of (rev kvs) ''endTimeUtc'') [] (Invocation.EndTimeUtc strct) \<and>
     field_ok (json_Unmarshal_map json_Unmarshal_string) (map_of (rev kvs) ''environmentVariables'') None (Invocation.EnvironmentVariables strct) \<and>
     field_ok (json_Unmarshal_ptr (ArtifactLocation_UnmarshalJSON ord)) (map_of (rev kvs) ''executableLocation'') None (Invocation.ExecutableLocation strct) \<and>
     field_ok json_Unmarshal_bool (map_of (rev kvs) ''executionSuccessful'') False (Invocation.ExecutionSuccessful strct) \<and>
     field_ok json_Unmarshal_int (map_of (rev kvs) ''exitCode'') 0 (Invocation.ExitCode strct) \<and>
     field_ok json_Unmarshal_string (map_of (rev kvs) ''exitCodeDescription'') [] (Invocation.ExitCodeDescription strct) \<and>
     field_ok json_Unmarshal_string (map_of (rev kvs) ''exitSignalName'') [] (Invocation.ExitSignalName strct) \<and>
     field_ok json_Unmarshal_int (map_of (rev kvs) ''exitSignalNumber'') 0 (Invocation.ExitSignalNumber strct) \<and>
     field_ok json_Unmarshal_string (map_of (rev kvs) ''machine'') [] (Invocation.Machine strct) \<and>
     field_ok (json_Unmarshal_slice (json_Unmarshal_ptr (ConfigurationOverride_UnmarshalJSON ord))) (map_of (rev kvs) ''notificationConfigurationOverrides'') None (Invocation.NotificationConfigurationOverrides strct) \<and>
     field_ok json_Unmarshal_int (map_of (rev kvs) ''processId'') 0 (Invocation.ProcessId strct) \<and>
     field_ok json_Unmarshal_string (map_of (rev kvs) ''processStartFailureMessage'') [] (Invocation.ProcessStartFailureMessage strct) \<and>
     field_ok (json_Unmarshal_ptr (PropertyBag_UnmarshalJSON ord)) (map_of (rev kvs) ''properties'') None (Invocation.Properties strct) \<and>
     field_ok (json_Unmarshal_slice (json_Unmarshal_ptr (ArtifactLocation_UnmarshalJSON ord))) (map_of (rev kvs) ''responseFiles'') None (Invocation.ResponseFiles strct) \<and>
     field_ok (json_Unmarshal_slice (json_Unmarshal_ptr (ConfigurationOverride_UnmarshalJSON ord))) (map_of (rev kvs) ''ruleConfigurationOverrides'') None (Invocation.RuleConfigurationOverrides strct) \<and>
     field_ok json_Unmarshal_string (map_of (rev kvs) ''startTimeUtc'') [] (Invocation.StartTimeUtc strct) \<and>
     field_ok (json_Unmarshal_ptr (ArtifactLocation_UnmarshalJSON ord)) (map_of (rev kvs) ''stderr'') None (Invocation.Stderr strct) \<and>
     field_ok (json_Unmarshal_ptr (ArtifactLocation_UnmarshalJSON ord)) (map_of (rev kvs) ''stdin'') None (Invocation.Stdin strct) \<and>
     field_ok (json_Unmarshal_ptr (ArtifactLocation_UnmarshalJSON ord)) (map_of (rev kvs) ''stdout'') None (Invocation.Stdout strct) \<and>
     field_ok (json_Unmarshal_ptr (ArtifactLocation_UnmarshalJSON ord)) (map_of (rev kvs) ''stdoutStderr'') None (Invocation.StdoutStderr strct) \<and>
     field_ok (json_Unmarshal_slice (json_Unmarshal_ptr (Notification_UnmarshalJSON ord))) (map_of (rev kvs) ''toolConfigurationNotifications'') None (Invocation.ToolConfigurationNotifications strct) \<and>
     field_ok (json_Unmarshal_slice (json_Unmarshal_ptr (Notification_UnmarshalJSON ord))) (map_of (rev kvs) ''toolExecutionNotifications'') None (Invocation.ToolExecutionNotifications strct) \<and>
     field_ok (json_Unmarshal_ptr (ArtifactLocation_UnmarshalJSON ord)) (map_of (rev kvs) ''workingDirectory'') None (Invocation.WorkingDirectory strct) \<and>
     (executionSuccessfulReceived \<longleftrightarrow> map_of (rev kvs) ''executionSuccessful'' \<noteq> None)"
proof -
  have "fst ` set (members ord kvs) \<subseteq> set Invocation_keys"
    by (rule loop_keys_known [OF loop]) (rule Invocation_cases_keys)
  then have keys: "dom (map_of (rev kvs)) \<subseteq> set Invocation_keys"
    by (simp add: dom_members [of kvs ord])
  note fld = field_after_loop [OF _ members_distinct loop, unfolded map_of_members]
  note flg = flag_after_loop [OF _ members_distinct loop, unfolded map_of_members]
  show ?thesis
    using keys fld [OF Invocation_fields(1)] fld [OF Invocation_fields(2)] fld [OF Invocation_fields(3)] fld [OF Invocation_fields(4)] fld [OF Invocation_fields(5)] fld [OF Invocation_fields(6)] fld [OF Invocation_fields(7)] fld [OF Invocation_fields(8)] fld [OF Invocation_fields(9)] fld [OF Invocation_fields(10)] fld [OF Invocation_fields(11)] fld [OF Invocation_fields(12)] fld [OF Invocation_fields(13)] fld [OF Invocation_fields(14)] fld [OF Invocation_fields(15)] fld [OF Invocation_fields(16)] fld [OF Invocation_fields(17)] fld [OF Invocation_fields(18)] fld [OF Invocation_fields(19)] fld [OF Invocation_fields(20)] fld [OF Invocation_fields(21)] fld [OF Invocation_fields(22)] fld [OF Invocation_fields(23)] fld [OF Invocation_fields(24)] fld [OF Invocation_fields(25)] fld [OF Invocation_fields(26)] flg [OF Invocation_fields(27)]
    by (simp only: prod.case Invocation_zero_def Invocation.select_convs simp_thms)
qed

lemma Invocation_decodesD:
  assumes "Invocation_decodes ord m strct"
  shows "dom m \<subseteq> set Invocation_keys"
    and "field_ok json_Unmarshal_string (m ''account'') [] (Invocation.Account strct)"
    and "field_ok (json_Unmarshal_slice json_Unmarshal_string) (m ''arguments'') None (Invocation.Arguments strct)"
    and "field_ok json_Unmarshal_string (m ''commandLine'') [] (Invocation.CommandLine strct)"
    and "field_ok json_Unmarshal_string (m ''endTimeUtc'') [] (Invocation.EndTimeUtc strct)"
    and "field_ok (json_Unmarshal_map json_Unmarshal_string) (m ''environmentVariables'') None (Invocation.EnvironmentVariables strct)"
    and "field_ok (json_Unmarshal_ptr (ArtifactLocation_UnmarshalJSON ord)) (m ''executableLocation'') None (Invocation.ExecutableLocation strct)"
    and "field_ok json_Unmarshal_bool (m ''executionSuccessful'') False (Invocation.ExecutionSuccessful strct)"
    and "field_ok json_Unmarshal_int (m ''exitCode'') 0 (Invocation.ExitCode strct)"
    and "field_ok json_Unmarshal_string (m ''exitCodeDescription'') [] (Invocation.ExitCodeDescription strct)"
    and "field_ok json_Unmarshal_string (m ''exitSignalName'') [] (Invocation.ExitSignalName strct)"
    and "field_ok json_Unmarshal_int (m ''exitSignalNumber'') 0 (Invocation.ExitSignalNumber strct)"
    and "field_ok json_Unmarshal_string (m ''machine'') [] (Invocation.Machine strct)"
    and "field_ok (json_Unmarshal_slice (json_Unmarshal_ptr (ConfigurationOverride_UnmarshalJSON ord))) (m ''notificationConfigurationOverrides'') None (Invocation.NotificationConfigurationOverrides strct)"
    and "field_ok json_Unmarshal_int (m ''processId'') 0 (Invocation.ProcessId strct)"
    and "field_ok json_Unmarshal_string (m ''processStartFailureMessage'') [] (Invocation.ProcessStartFailureMessage strct)"
    and "field_ok (json_Unmarshal_ptr (PropertyBag_UnmarshalJSON ord)) (m ''properties'') None (Invocation.Properties strct)"
    and "field_ok (json_Unmarshal_slice (json_Unmarshal_ptr (ArtifactLocation_UnmarshalJSON ord))) (m ''responseFiles'') None (Invocation.ResponseFiles strct)"
    and "field_ok (json_Unmarshal_slice (json_Unmarshal_ptr (ConfigurationOverride_UnmarshalJSON ord))) (m ''ruleConfigurationOverrides'') None (Invocation.RuleConfigurationOverrides strct)"
    and "field_ok json_Unmarshal_string (m ''startTimeUtc'') [] (Invocation.StartTimeUtc strct)"
    and "field_ok (json_Unmarshal_ptr (ArtifactLocation_UnmarshalJSON ord)) (m ''stderr'') None (Invocation.Stderr strct)"
    and "field_ok (json_Unmarshal_ptr (ArtifactLocation_UnmarshalJSON ord)) (m ''stdin'') None (Invocation.Stdin strct)"
    and "field_ok (json_Unmarshal_ptr (ArtifactLocation_UnmarshalJSON ord)) (m ''stdout'') None (Invocation.Stdout strct)"
    and "field_ok (json_Unmarshal_ptr (ArtifactLocation_UnmarshalJSON ord)) (m ''stdoutStderr'') None (Invocation.StdoutStderr strct)"
    and "field_ok (json_Unmarshal_slice (json_Unmarshal_ptr (Notification_UnmarshalJSON ord))) (m ''toolConfigurationNotifications'') None (Invocation.ToolConfigurationNotifications strct)"
    and "field_ok (json_Unmarshal_slice (json_Unmarshal_ptr (Notification_UnmarshalJSON ord))) (m ''toolExecutionNotifications'') None (Invocation.ToolExecutionNotifications strct)"
    and "field_ok (json_Unmarshal_ptr (ArtifactLocation_UnmarshalJSON ord)) (m ''workingDirectory'') None (Invocation.WorkingDirectory strct)"
    and "m ''executionSuccessful'' \<noteq> None"
  using assms unfolding Invocation_decodes_def by - (elim conjE, assumption)+

lemma Invocation_decodes_unique:
  assumes "Invocation_decodes ord m a" and "Invocation_decodes ord m b"
  shows "a = b"
  apply (rule Invocation.equality)
  apply (rule field_ok_unique [OF Invocation_decodesD(2) [OF assms(1)] Invocation_decodesD(2) [OF assms(2)]])
  apply (rule field_ok_unique [OF Invocation_decodesD(3) [OF assms(1)] Invocation_decodesD(3) [OF assms(2)]])
  apply (rule field_ok_unique [OF Invocation_decodesD(4) [OF assms(1)] Invocation_decodesD(4) [OF assms(2)]])
  apply (rule field_ok_unique [OF Invocation_decodesD(5) [OF assms(1)] Invocation_decodesD(5) [OF assms(2)]])
  apply (rule field_ok_unique [OF Invocation_decodesD(6) [OF assms(1)] Invocation_decodesD(6) [OF assms(2)]])
  apply (rule field_ok_unique [OF Invocation_decodesD(7) [OF assms(1)] Invocation_decodesD(7) [OF assms(2)]])
  apply (rule field_ok_unique [OF Invocation_decodesD(8) [OF assms(1)] Invocation_decodesD(8) [OF assms(2)]])
  apply (rule field_ok_unique [OF Invocation_decodesD(9) [OF assms(1)] Invocation_decodesD(9) [OF assms(2)]])
  apply (rule field_ok_unique [OF Invocation_decodesD(10) [OF assms(1)] Invocation_decodesD(10) [OF assms(2)]])
  apply (rule field_ok_unique [OF Invocation_decodesD(11) [OF assms(1)] Invocation_decodesD(11) [OF assms(2)]])
  apply (rule field_ok_unique [OF Invocation_decodesD(12) [OF assms(1)] Invocation_decodesD(12) [OF assms(2)]])
  apply (rule field_ok_unique [OF Invocation_decodesD(13) [OF assms(1)] Invocation_decodesD(13) [OF assms(2)]])
  apply (rule field_ok_unique [OF Invocation_decodesD(14) [OF assms(1)] Invocation_decodesD(14) [OF assms(2)]])
  apply (rule field_ok_unique [OF Invocation_decodesD(15) [OF assms(1)] Invocation_decodesD(15) [OF assms(2)]])
  apply (rule field_ok_unique [OF Invocation_decodesD(16) [OF assms(1)] Invocation_decodesD(16) [OF assms(2)]])
  apply (rule field_ok_unique [OF Invocation_decodesD(17) [OF assms(1)] Invocation_decodesD(17) [OF assms(2)]])
  apply (rule field_ok_unique [OF Invocation_decodesD(18) [OF assms(1)] Invocation_decodesD(18) [OF assms(2)]])
  apply (rule field_ok_unique [OF Invocation_decodesD(19) [OF assms(1)] Invocation_decodesD(19) [OF assms(2)]])
  apply (rule field_ok_unique [OF Invocation_decodesD(20) [OF assms(1)] Invocation_decodesD(20) [OF assms(2)]])
  apply (rule field_ok_unique [OF Invocation_decodesD(21) [OF assms(1)] Invocation_decodesD(21) [OF assms(2)]])
  apply (rule field_ok_unique [OF Invocation_decodesD(22) [OF assms(1)] Invocation_decodesD(22) [OF assms(2)]])
  apply (rule field_ok_unique [OF Invocation_decodesD(23) [OF assms(1)] Invocation_decodesD(23) [OF assms(2)]])
  apply (rule field_ok_unique [OF Invocation_decodesD(24) [OF assms(1)] Invocation_decodesD(24) [OF assms(2)]])
  apply (rule field_ok_unique [OF Invocation_decodesD(25) [OF assms(1)] Invocation_decodesD(25) [OF assms(2)]])
  apply (rule field_ok_unique [OF Invocation_decodesD(26) [OF assms(1)] Invocation_decodesD(26) [OF assms(2)]])
  apply (rule field_ok_unique [OF Invocation_decodesD(27) [OF assms(1)] Invocation_decodesD(27) [OF assms(2)]])
  apply simp
  done

lemma Invocation_accepts:
  assumes "Invocation_decodes ord m strct" and "m k = Some v"
  shows "accepting (switch k (Invocation_cases ord v) (reject k))"
proof -
  from assms have "k \<in> set Invocation_keys" by (auto simp: Invocation_decodes_def)
  then have key: "k \<in> fst ` set (Invocation_cases ord v)"
    by (simp only: Invocation_cases_keys)
  have rows: "list_all (\<lambda>(c, h). m c = Some v \<longrightarrow> accepting h) (Invocation_cases ord v)"
    unfolding Invocation_cases_def list.pred_inject
    apply (rule conjI [OF accept_row [where m = m and v = v, OF Invocation_decodesD(2) [OF assms(1)]]])
    apply (rule conjI [OF accept_row [where m = m and v = v, OF Invocation_decodesD(3) [OF assms(1)]]])
    apply (rule conjI [OF accept_row [where m = m and v = v, OF Invocation_decodesD(4) [OF assms(1)]]])
    apply (rule conjI [OF accept_row [where m = m and v = v, OF Invocation_decodesD(5) [OF assms(1)]]])
    apply (rule conjI [OF accept_row [where m = m and v = v, OF Invocation_decodesD(6) [OF assms(1)]]])
    apply (rule conjI [OF accept_row [where m = m and v = v, OF Invocation_decodesD(7) [OF assms(1)]]])
    apply (rule conjI [OF accept_row [where m = m and v = v, OF Invocation_decodesD(8) [OF assms(1)]]])
    apply (rule conjI [OF accept_row [where m = m and v = v, OF Invocation_decodesD(9) [OF assms(1)]]])
    apply (rule conjI [OF accept_row [where m = m and v = v, OF Invocation_decodesD(10) [OF assms(1)]]])
    apply (rule conjI [OF accept_row [where m = m and v = v, OF Invocation_decodesD(11) [OF assms(1)]]])
    apply (rule conjI [OF accept_row [where m = m and v = v, OF Invocation_decodesD(12) [OF assms(1)]]])
    apply (rule conjI [OF accept_row [where m = m and v = v, OF Invocation_decodesD(13) [OF assms(1)]]])
    apply (rule conjI [OF accept_row [where m = m and v = v, OF Invocation_decodesD(14) [OF assms(1)]]])
    apply (rule conjI [OF accept_row [where m = m and v = v, OF Invocation_decodesD(15) [OF assms(1)]]])
    apply (rule conjI [OF accept_row [where m = m and v = v, OF Invocation_decodesD(16) [OF assms(1)]]])
    apply (rule conjI [OF accept_row [where m = m and v = v, OF Invocation_decodesD(17) [OF assms(1)]]])
    apply (rule conjI [OF accept_row [where m = m and v = v, OF Invocation_decodesD(18) [OF assms(1)]]])
    apply (rule conjI [OF accept_row [where m = m and v = v, OF Invocation_decodesD(19) [OF assms(1)]]])
    apply (rule conjI [OF accept_row [where m = m and v = v, OF Invocation_decodesD(20) [OF assms(1)]]])
    apply (rule conjI [OF accept_row [where m = m and v = v, OF Invocation_decodesD(21) [OF assms(1)]]])
    apply (rule conjI [OF accept_row [where m = m and v = v, OF Invocation_decodesD(22) [OF assms(1)]]])
    apply (rule conjI [OF accept_row [where m = m and v = v, OF Invocation_decodesD(23) [OF assms(1)]]])
    apply (rule conjI [OF accept_row [where m = m and v = v, OF Invocation_decodesD(24) [OF assms(1)]]])
    apply (rule conjI [OF accept_row [where m = m and v = v, OF Invocation_decodesD(25) [OF assms(1)]]])
    apply (rule conjI [OF accept_row [where m = m and v = v, OF Invocation_decodesD(26) [OF assms(1)]]])
    apply (rule conjI [OF accept_row [where m = m and v = v, OF Invocation_decodesD(27) [OF assms(1)]]])
    apply simp
    done
  show ?thesis by (rule rows_accept [OF rows assms(2) key])
qed

lemma Invocation_decode_iff:
  "Invocation_UnmarshalJSON ord (JObj kvs) = Inr strct \<longleftrightarrow>
   Invocation_decodes ord (map_of (rev kvs)) strct"
proof
  assume "Invocation_UnmarshalJSON ord (JObj kvs) = Inr strct"
  then obtain executionSuccessfulReceived where
    loop: "range_loop (\<lambda>k v. switch k (Invocation_cases ord v) (reject k)) (members ord kvs) (Invocation_zero, False) = Inr (strct, executionSuccessfulReceived)"
    and fin: "executionSuccessfulReceived"
    by (auto simp: Invocation_UnmarshalJSON_def members_def split: sum.splits if_splits)
  from Invocation_loop_sound [OF loop] fin
  show "Invocation_decodes ord (map_of (rev kvs)) strct"
    by (simp add: Invocation_decodes_def)
next
  assume d: "Invocation_decodes ord (map_of (rev kvs)) strct"
  have "\<exists>t. range_loop (\<lambda>k v. switch k (Invocation_cases ord v) (reject k)) (members ord kvs) (Invocation_zero, False) = Inr t"
  proof (rule loop_succeeds [OF Invocation_regular])
    fix k v assume "(k, v) \<in> set (members ord kvs)"
    then have "map_of (rev kvs) k = Some v" by (rule member_lookup)
    from Invocation_accepts [OF d this]
    show "accepting (switch k (Invocation_cases ord v) (reject k))" .
  qed
  then obtain t where "range_loop (\<lambda>k v. switch k (Invocation_cases ord v) (reject k)) (members ord kvs) (Invocation_zero, False) = Inr t" ..
  then obtain strct' executionSuccessfulReceived where
    loop: "range_loop (\<lambda>k v. switch k (Invocation_cases ord v) (reject k)) (members ord kvs) (Invocation_zero, False) = Inr (strct', executionSuccessfulReceived)"
    by (cases t) auto
  from Invocation_loop_sound [OF loop] d
  have fin: "executionSuccessfulReceived"
    and d': "Invocation_decodes ord (map_of (rev kvs)) strct'"
    by (simp_all add: Invocation_decodes_def)
  from Invocation_decodes_unique [OF d' d] have "strct' = strct" .
  with loop fin show "Invocation_UnmarshalJSON ord (JObj kvs) = Inr strct"
    by (simp add: Invocation_UnmarshalJSON_def members_def)
qed

definition Invocation_results :: "scanner \<Rightarrow> order \<Rightarrow> Invocation \<Rightarrow> (string \<times> (error + json)) list" where
  "Invocation_results scn ord strct =
     [(''account'', json_Marshal_string (Invocation.Account strct)),
      (''arguments'', json_Marshal_slice json_Marshal_string (Invocation.Arguments strct)),
      (''commandLine'', json_Marshal_string (Invocation.CommandLine strct)),
      (''endTimeUtc'', json_Marshal_string (Invocation.EndTimeUtc strct)),
      (''environmentVariables'', json_Marshal_map json_Marshal_string (Invocation.EnvironmentVariables strct)),
      (''executableLocation'', json_Marshal_ptr ''*sarif.ArtifactLocation'' (ArtifactLocation_MarshalJSON scn ord) (Invocation.ExecutableLocation strct)),
      (''executionSuccessful'', json_Marshal_bool (Invocation.ExecutionSuccessful strct)),
      (''exitCode'', json_Marshal_int (Invocation.ExitCode strct)),
      (''exitCodeDescription'', json_Marshal_string (Invocation.ExitCodeDescription strct)),
      (''exitSignalName'', json_Marshal_string (Invocation.ExitSignalName strct)),
      (''exitSignalNumber'', json_Marshal_int (Invocation.ExitSignalNumber strct)),
      (''machine'', json_Marshal_string (Invocation.Machine strct)),
      (''notificationConfigurationOverrides'', json_Marshal_slice (json_Marshal_ptr ''*sarif.ConfigurationOverride'' (ConfigurationOverride_MarshalJSON scn ord)) (Invocation.NotificationConfigurationOverrides strct)),
      (''processId'', json_Marshal_int (Invocation.ProcessId strct)),
      (''processStartFailureMessage'', json_Marshal_string (Invocation.ProcessStartFailureMessage strct)),
      (''properties'', json_Marshal_bytes ''*sarif.PropertyBag'' (PropertyBag_MarshalJSON scn ord) (Invocation.Properties strct)),
      (''responseFiles'', json_Marshal_slice (json_Marshal_ptr ''*sarif.ArtifactLocation'' (ArtifactLocation_MarshalJSON scn ord)) (Invocation.ResponseFiles strct)),
      (''ruleConfigurationOverrides'', json_Marshal_slice (json_Marshal_ptr ''*sarif.ConfigurationOverride'' (ConfigurationOverride_MarshalJSON scn ord)) (Invocation.RuleConfigurationOverrides strct)),
      (''startTimeUtc'', json_Marshal_string (Invocation.StartTimeUtc strct)),
      (''stderr'', json_Marshal_ptr ''*sarif.ArtifactLocation'' (ArtifactLocation_MarshalJSON scn ord) (Invocation.Stderr strct)),
      (''stdin'', json_Marshal_ptr ''*sarif.ArtifactLocation'' (ArtifactLocation_MarshalJSON scn ord) (Invocation.Stdin strct)),
      (''stdout'', json_Marshal_ptr ''*sarif.ArtifactLocation'' (ArtifactLocation_MarshalJSON scn ord) (Invocation.Stdout strct)),
      (''stdoutStderr'', json_Marshal_ptr ''*sarif.ArtifactLocation'' (ArtifactLocation_MarshalJSON scn ord) (Invocation.StdoutStderr strct)),
      (''toolConfigurationNotifications'', json_Marshal_slice (json_Marshal_ptr ''*sarif.Notification'' (Notification_MarshalJSON scn ord)) (Invocation.ToolConfigurationNotifications strct)),
      (''toolExecutionNotifications'', json_Marshal_slice (json_Marshal_ptr ''*sarif.Notification'' (Notification_MarshalJSON scn ord)) (Invocation.ToolExecutionNotifications strct)),
      (''workingDirectory'', json_Marshal_ptr ''*sarif.ArtifactLocation'' (ArtifactLocation_MarshalJSON scn ord) (Invocation.WorkingDirectory strct))]"

lemma Invocation_MarshalJSON_results:
  "Invocation_MarshalJSON scn ord strct = object (emit_all (Invocation_results scn ord strct))"
  by (simp add: Invocation_MarshalJSON_def Invocation_results_def emit_nilcheck)

lemma Invocation_keys_written:
  "Invocation_MarshalJSON scn ord strct = Inr j \<Longrightarrow> \<exists>kvs. j = JObj kvs \<and> map fst kvs = Invocation_keys"
  using keys_written [of "Invocation_results scn ord strct" j]
  by (simp add: Invocation_MarshalJSON_results Invocation_results_def Invocation_keys_def)

definition Invocation_encodable :: "scanner \<Rightarrow> order \<Rightarrow> Invocation \<Rightarrow> bool" where
  "Invocation_encodable scn ord strct \<longleftrightarrow>
     ptr_all (ArtifactLocation_encodable scn ord) (Invocation.ExecutableLocation strct) \<and>
     slice_all (ptr_all (ConfigurationOverride_encodable scn ord)) (Invocation.NotificationConfigurationOverrides strct) \<and>
     ptr_all (PropertyBag_encodable scn ord) (Invocation.Properties strct) \<and>
     slice_all (ptr_all (ArtifactLocation_encodable scn ord)) (Invocation.ResponseFiles strct) \<and>
     slice_all (ptr_all (ConfigurationOverride_encodable scn ord)) (Invocation.RuleConfigurationOverrides strct) \<and>
     ptr_all (ArtifactLocation_encodable scn ord) (Invocation.Stderr strct) \<and>
     ptr_all (ArtifactLocation_encodable scn ord) (Invocation.Stdin strct) \<and>
     ptr_all (ArtifactLocation_encodable scn ord) (Invocation.Stdout strct) \<and>
     ptr_all (ArtifactLocation_encodable scn ord) (Invocation.StdoutStderr strct) \<and>
     slice_all (ptr_all (Notification_encodable scn ord)) (Invocation.ToolConfigurationNotifications strct) \<and>
     slice_all (ptr_all (Notification_encodable scn ord)) (Invocation.ToolExecutionNotifications strct) \<and>
     ptr_all (ArtifactLocation_encodable scn ord) (Invocation.WorkingDirectory strct)"

lemma Invocation_fails_unless: "fails_unless (Invocation_MarshalJSON scn ord) (Invocation_encodable scn ord)"
  unfolding fails_unless_def Invocation_MarshalJSON_results Invocation_results_def Invocation_encodable_def isl_object_emit_all
  by (auto simp add: always_simps
      fails_unlessD [OF fails_unless_string]
      fails_unlessD [OF fails_unless_slice [OF fails_unless_string]]
      fails_unlessD [OF fails_unless_map [OF fails_unless_string]]
      fails_unlessD [OF fails_unless_ptr [OF ArtifactLocation_fails_unless]]
      fails_unlessD [OF fails_unless_bool]
      fails_unlessD [OF fails_unless_int]
      fails_unlessD [OF fails_unless_slice [OF fails_unless_ptr [OF ConfigurationOverride_fails_unless]]]
      fails_unlessD [OF PropertyBag_field_fails_unless]
      fails_unlessD [OF fails_unless_slice [OF fails_unless_ptr [OF ArtifactLocation_fails_unless]]]
      fails_unlessD [OF fails_unless_slice [OF fails_unless_ptr [OF Notification_fails_unless]]])

definition Invocation_valid :: "Invocation \<Rightarrow> bool" where
  "Invocation_valid strct \<longleftrightarrow>
     map_valid always (Invocation.EnvironmentVariables strct) \<and>
     ptr_all ArtifactLocation_valid (Invocation.ExecutableLocation strct) \<and>
     slice_all (ptr_all ConfigurationOverride_valid) (Invocation.NotificationConfigurationOverrides strct) \<and>
     ptr_all PropertyBag_valid (Invocation.Properties strct) \<and>
     slice_all (ptr_all ArtifactLocation_valid) (Invocation.ResponseFiles strct) \<and>
     slice_all (ptr_all ConfigurationOverride_valid) (Invocation.RuleConfigurationOverrides strct) \<and>
     ptr_all ArtifactLocation_valid (Invocation.Stderr strct) \<and>
     ptr_all ArtifactLocation_valid (Invocation.Stdin strct) \<and>
     ptr_all ArtifactLocation_valid (Invocation.Stdout strct) \<and>
     ptr_all ArtifactLocation_valid (Invocation.StdoutStderr strct) \<and>
     slice_all (ptr_all Notification_valid) (Invocation.ToolConfigurationNotifications strct) \<and>
     slice_all (ptr_all Notification_valid) (Invocation.ToolExecutionNotifications strct) \<and>
     ptr_all ArtifactLocation_valid (Invocation.WorkingDirectory strct)"

lemma Invocation_keys_distinct: "distinct Invocation_keys"
  by (simp add: Invocation_keys_def)

lemma Invocation_round_trips:
  "round_trips_object (Invocation_MarshalJSON scn ord) (Invocation_UnmarshalJSON ord') Invocation_valid"
  unfolding round_trips_object_def
proof (intro allI impI)
  fix strct assume v: "Invocation_valid strct"
  note v' = v [unfolded Invocation_valid_def]
  let ?rs = "Invocation_results scn ord strct"
  let ?kvs = "map (\<lambda>e. (fst e, projr (snd e))) ?rs"
  have f0: "\<not> isl (json_Marshal_string (Invocation.Account strct)) \<and>
      json_Unmarshal_string (projr (json_Marshal_string (Invocation.Account strct))) = Inr (Invocation.Account strct)"
    by (rule round_tripsD [OF round_trips_string]) (use v' in simp)
  have f1: "\<not> isl (json_Marshal_slice json_Marshal_string (Invocation.Arguments strct)) \<and>
      json_Unmarshal_slice json_Unmarshal_string (projr (json_Marshal_slice json_Marshal_string (Invocation.Arguments strct))) = Inr (Invocation.Arguments strct)"
    by (rule round_tripsD [OF round_trips_slice [OF round_trips_string]]) (use v' in simp)
  have f2: "\<not> isl (json_Marshal_string (Invocation.CommandLine strct)) \<and>
      json_Unmarshal_string (projr (json_Marshal_string (Invocation.CommandLine strct))) = Inr (Invocation.CommandLine strct)"
    by (rule round_tripsD [OF round_trips_string]) (use v' in simp)
  have f3: "\<not> isl (json_Marshal_string (Invocation.EndTimeUtc strct)) \<and>
      json_Unmarshal_string (projr (json_Marshal_string (Invocation.EndTimeUtc strct))) = Inr (Invocation.EndTimeUtc strct)"
    by (rule round_tripsD [OF round_trips_string]) (use v' in simp)
  have f4: "\<not> isl (json_Marshal_map json_Marshal_string (Invocation.EnvironmentVariables strct)) \<and>
      json_Unmarshal_map json_Unmarshal_string (projr (json_Marshal_map json_Marshal_string (Invocation.EnvironmentVariables strct))) = Inr (Invocation.EnvironmentVariables strct)"
    by (rule round_tripsD [OF round_trips_map [OF round_trips_string]]) (use v' in simp)
  have f5: "\<not> isl (json_Marshal_ptr ''*sarif.ArtifactLocation'' (ArtifactLocation_MarshalJSON scn ord) (Invocation.ExecutableLocation strct)) \<and>
      json_Unmarshal_ptr (ArtifactLocation_UnmarshalJSON ord') (projr (json_Marshal_ptr ''*sarif.ArtifactLocation'' (ArtifactLocation_MarshalJSON scn ord) (Invocation.ExecutableLocation strct))) = Inr (Invocation.ExecutableLocation strct)"
    by (rule round_tripsD [OF round_trips_ptr [OF ArtifactLocation_round_trips]]) (use v' in simp)
  have f6: "\<not> isl (json_Marshal_bool (Invocation.ExecutionSuccessful strct)) \<and>
      json_Unmarshal_bool (projr (json_Marshal_bool (Invocation.ExecutionSuccessful strct))) = Inr (Invocation.ExecutionSuccessful strct)"
    by (rule round_tripsD [OF round_trips_bool]) (use v' in simp)
  have f7: "\<not> isl (json_Marshal_int (Invocation.ExitCode strct)) \<and>
      json_Unmarshal_int (projr (json_Marshal_int (Invocation.ExitCode strct))) = Inr (Invocation.ExitCode strct)"
    by (rule round_tripsD [OF round_trips_int]) (use v' in simp)
  have f8: "\<not> isl (json_Marshal_string (Invocation.ExitCodeDescription strct)) \<and>
      json_Unmarshal_string (projr (json_Marshal_string (Invocation.ExitCodeDescription strct))) = Inr (Invocation.ExitCodeDescription strct)"
    by (rule round_tripsD [OF round_trips_string]) (use v' in simp)
  have f9: "\<not> isl (json_Marshal_string (Invocation.ExitSignalName strct)) \<and>
      json_Unmarshal_string (projr (json_Marshal_string (Invocation.ExitSignalName strct))) = Inr (Invocation.ExitSignalName strct)"
    by (rule round_tripsD [OF round_trips_string]) (use v' in simp)
  have f10: "\<not> isl (json_Marshal_int (Invocation.ExitSignalNumber strct)) \<and>
      json_Unmarshal_int (projr (json_Marshal_int (Invocation.ExitSignalNumber strct))) = Inr (Invocation.ExitSignalNumber strct)"
    by (rule round_tripsD [OF round_trips_int]) (use v' in simp)
  have f11: "\<not> isl (json_Marshal_string (Invocation.Machine strct)) \<and>
      json_Unmarshal_string (projr (json_Marshal_string (Invocation.Machine strct))) = Inr (Invocation.Machine strct)"
    by (rule round_tripsD [OF round_trips_string]) (use v' in simp)
  have f12: "\<not> isl (json_Marshal_slice (json_Marshal_ptr ''*sarif.ConfigurationOverride'' (ConfigurationOverride_MarshalJSON scn ord)) (Invocation.NotificationConfigurationOverrides strct)) \<and>
      json_Unmarshal_slice (json_Unmarshal_ptr (ConfigurationOverride_UnmarshalJSON ord')) (projr (json_Marshal_slice (json_Marshal_ptr ''*sarif.ConfigurationOverride'' (ConfigurationOverride_MarshalJSON scn ord)) (Invocation.NotificationConfigurationOverrides strct))) = Inr (Invocation.NotificationConfigurationOverrides strct)"
    by (rule round_tripsD [OF round_trips_slice [OF round_trips_ptr [OF ConfigurationOverride_round_trips]]]) (use v' in simp)
  have f13: "\<not> isl (json_Marshal_int (Invocation.ProcessId strct)) \<and>
      json_Unmarshal_int (projr (json_Marshal_int (Invocation.ProcessId strct))) = Inr (Invocation.ProcessId strct)"
    by (rule round_tripsD [OF round_trips_int]) (use v' in simp)
  have f14: "\<not> isl (json_Marshal_string (Invocation.ProcessStartFailureMessage strct)) \<and>
      json_Unmarshal_string (projr (json_Marshal_string (Invocation.ProcessStartFailureMessage strct))) = Inr (Invocation.ProcessStartFailureMessage strct)"
    by (rule round_tripsD [OF round_trips_string]) (use v' in simp)
  have f15: "\<not> isl (json_Marshal_bytes ''*sarif.PropertyBag'' (PropertyBag_MarshalJSON scn ord) (Invocation.Properties strct)) \<and>
      json_Unmarshal_ptr (PropertyBag_UnmarshalJSON ord') (projr (json_Marshal_bytes ''*sarif.PropertyBag'' (PropertyBag_MarshalJSON scn ord) (Invocation.Properties strct))) = Inr (Invocation.Properties strct)"
    by (rule round_tripsD [OF PropertyBag_field_round_trips]) (use v' in simp)
  have f16: "\<not> isl (json_Marshal_slice (json_Marshal_ptr ''*sarif.ArtifactLocation'' (ArtifactLocation_MarshalJSON scn ord)) (Invocation.ResponseFiles strct)) \<and>
      json_Unmarshal_slice (json_Unmarshal_ptr (ArtifactLocation_UnmarshalJSON ord')) (projr (json_Marshal_slice (json_Marshal_ptr ''*sarif.ArtifactLocation'' (ArtifactLocation_MarshalJSON scn ord)) (Invocation.ResponseFiles strct))) = Inr (Invocation.ResponseFiles strct)"
    by (rule round_tripsD [OF round_trips_slice [OF round_trips_ptr [OF ArtifactLocation_round_trips]]]) (use v' in simp)
  have f17: "\<not> isl (json_Marshal_slice (json_Marshal_ptr ''*sarif.ConfigurationOverride'' (ConfigurationOverride_MarshalJSON scn ord)) (Invocation.RuleConfigurationOverrides strct)) \<and>
      json_Unmarshal_slice (json_Unmarshal_ptr (ConfigurationOverride_UnmarshalJSON ord')) (projr (json_Marshal_slice (json_Marshal_ptr ''*sarif.ConfigurationOverride'' (ConfigurationOverride_MarshalJSON scn ord)) (Invocation.RuleConfigurationOverrides strct))) = Inr (Invocation.RuleConfigurationOverrides strct)"
    by (rule round_tripsD [OF round_trips_slice [OF round_trips_ptr [OF ConfigurationOverride_round_trips]]]) (use v' in simp)
  have f18: "\<not> isl (json_Marshal_string (Invocation.StartTimeUtc strct)) \<and>
      json_Unmarshal_string (projr (json_Marshal_string (Invocation.StartTimeUtc strct))) = Inr (Invocation.StartTimeUtc strct)"
    by (rule round_tripsD [OF round_trips_string]) (use v' in simp)
  have f19: "\<not> isl (json_Marshal_ptr ''*sarif.ArtifactLocation'' (ArtifactLocation_MarshalJSON scn ord) (Invocation.Stderr strct)) \<and>
      json_Unmarshal_ptr (ArtifactLocation_UnmarshalJSON ord') (projr (json_Marshal_ptr ''*sarif.ArtifactLocation'' (ArtifactLocation_MarshalJSON scn ord) (Invocation.Stderr strct))) = Inr (Invocation.Stderr strct)"
    by (rule round_tripsD [OF round_trips_ptr [OF ArtifactLocation_round_trips]]) (use v' in simp)
  have f20: "\<not> isl (json_Marshal_ptr ''*sarif.ArtifactLocation'' (ArtifactLocation_MarshalJSON scn ord) (Invocation.Stdin strct)) \<and>
      json_Unmarshal_ptr (ArtifactLocation_UnmarshalJSON ord') (projr (json_Marshal_ptr ''*sarif.ArtifactLocation'' (ArtifactLocation_MarshalJSON scn ord) (Invocation.Stdin strct))) = Inr (Invocation.Stdin strct)"
    by (rule round_tripsD [OF round_trips_ptr [OF ArtifactLocation_round_trips]]) (use v' in simp)
  have f21: "\<not> isl (json_Marshal_ptr ''*sarif.ArtifactLocation'' (ArtifactLocation_MarshalJSON scn ord) (Invocation.Stdout strct)) \<and>
      json_Unmarshal_ptr (ArtifactLocation_UnmarshalJSON ord') (projr (json_Marshal_ptr ''*sarif.ArtifactLocation'' (ArtifactLocation_MarshalJSON scn ord) (Invocation.Stdout strct))) = Inr (Invocation.Stdout strct)"
    by (rule round_tripsD [OF round_trips_ptr [OF ArtifactLocation_round_trips]]) (use v' in simp)
  have f22: "\<not> isl (json_Marshal_ptr ''*sarif.ArtifactLocation'' (ArtifactLocation_MarshalJSON scn ord) (Invocation.StdoutStderr strct)) \<and>
      json_Unmarshal_ptr (ArtifactLocation_UnmarshalJSON ord') (projr (json_Marshal_ptr ''*sarif.ArtifactLocation'' (ArtifactLocation_MarshalJSON scn ord) (Invocation.StdoutStderr strct))) = Inr (Invocation.StdoutStderr strct)"
    by (rule round_tripsD [OF round_trips_ptr [OF ArtifactLocation_round_trips]]) (use v' in simp)
  have f23: "\<not> isl (json_Marshal_slice (json_Marshal_ptr ''*sarif.Notification'' (Notification_MarshalJSON scn ord)) (Invocation.ToolConfigurationNotifications strct)) \<and>
      json_Unmarshal_slice (json_Unmarshal_ptr (Notification_UnmarshalJSON ord')) (projr (json_Marshal_slice (json_Marshal_ptr ''*sarif.Notification'' (Notification_MarshalJSON scn ord)) (Invocation.ToolConfigurationNotifications strct))) = Inr (Invocation.ToolConfigurationNotifications strct)"
    by (rule round_tripsD [OF round_trips_slice [OF round_trips_ptr [OF Notification_round_trips]]]) (use v' in simp)
  have f24: "\<not> isl (json_Marshal_slice (json_Marshal_ptr ''*sarif.Notification'' (Notification_MarshalJSON scn ord)) (Invocation.ToolExecutionNotifications strct)) \<and>
      json_Unmarshal_slice (json_Unmarshal_ptr (Notification_UnmarshalJSON ord')) (projr (json_Marshal_slice (json_Marshal_ptr ''*sarif.Notification'' (Notification_MarshalJSON scn ord)) (Invocation.ToolExecutionNotifications strct))) = Inr (Invocation.ToolExecutionNotifications strct)"
    by (rule round_tripsD [OF round_trips_slice [OF round_trips_ptr [OF Notification_round_trips]]]) (use v' in simp)
  have f25: "\<not> isl (json_Marshal_ptr ''*sarif.ArtifactLocation'' (ArtifactLocation_MarshalJSON scn ord) (Invocation.WorkingDirectory strct)) \<and>
      json_Unmarshal_ptr (ArtifactLocation_UnmarshalJSON ord') (projr (json_Marshal_ptr ''*sarif.ArtifactLocation'' (ArtifactLocation_MarshalJSON scn ord) (Invocation.WorkingDirectory strct))) = Inr (Invocation.WorkingDirectory strct)"
    by (rule round_tripsD [OF round_trips_ptr [OF ArtifactLocation_round_trips]]) (use v' in simp)
  note fs = f0 f1 f2 f3 f4 f5 f6 f7 f8 f9 f10 f11 f12 f13 f14 f15 f16 f17 f18 f19 f20 f21 f22 f23 f24 f25
  have rs: "?rs =
     [(''account'', json_Marshal_string (Invocation.Account strct)),
      (''arguments'', json_Marshal_slice json_Marshal_string (Invocation.Arguments strct)),
      (''commandLine'', json_Marshal_string (Invocation.CommandLine strct)),
      (''endTimeUtc'', json_Marshal_string (Invocation.EndTimeUtc strct)),
      (''environmentVariables'', json_Marshal_map json_Marshal_string (Invocation.EnvironmentVariables strct)),
      (''executableLocation'', json_Marshal_ptr ''*sarif.ArtifactLocation'' (ArtifactLocation_MarshalJSON scn ord) (Invocation.ExecutableLocation strct)),
      (''executionSuccessful'', json_Marshal_bool (Invocation.ExecutionSuccessful strct)),
      (''exitCode'', json_Marshal_int (Invocation.ExitCode strct)),
      (''exitCodeDescription'', json_Marshal_string (Invocation.ExitCodeDescription strct)),
      (''exitSignalName'', json_Marshal_string (Invocation.ExitSignalName strct)),
      (''exitSignalNumber'', json_Marshal_int (Invocation.ExitSignalNumber strct)),
      (''machine'', json_Marshal_string (Invocation.Machine strct)),
      (''notificationConfigurationOverrides'', json_Marshal_slice (json_Marshal_ptr ''*sarif.ConfigurationOverride'' (ConfigurationOverride_MarshalJSON scn ord)) (Invocation.NotificationConfigurationOverrides strct)),
      (''processId'', json_Marshal_int (Invocation.ProcessId strct)),
      (''processStartFailureMessage'', json_Marshal_string (Invocation.ProcessStartFailureMessage strct)),
      (''properties'', json_Marshal_bytes ''*sarif.PropertyBag'' (PropertyBag_MarshalJSON scn ord) (Invocation.Properties strct)),
      (''responseFiles'', json_Marshal_slice (json_Marshal_ptr ''*sarif.ArtifactLocation'' (ArtifactLocation_MarshalJSON scn ord)) (Invocation.ResponseFiles strct)),
      (''ruleConfigurationOverrides'', json_Marshal_slice (json_Marshal_ptr ''*sarif.ConfigurationOverride'' (ConfigurationOverride_MarshalJSON scn ord)) (Invocation.RuleConfigurationOverrides strct)),
      (''startTimeUtc'', json_Marshal_string (Invocation.StartTimeUtc strct)),
      (''stderr'', json_Marshal_ptr ''*sarif.ArtifactLocation'' (ArtifactLocation_MarshalJSON scn ord) (Invocation.Stderr strct)),
      (''stdin'', json_Marshal_ptr ''*sarif.ArtifactLocation'' (ArtifactLocation_MarshalJSON scn ord) (Invocation.Stdin strct)),
      (''stdout'', json_Marshal_ptr ''*sarif.ArtifactLocation'' (ArtifactLocation_MarshalJSON scn ord) (Invocation.Stdout strct)),
      (''stdoutStderr'', json_Marshal_ptr ''*sarif.ArtifactLocation'' (ArtifactLocation_MarshalJSON scn ord) (Invocation.StdoutStderr strct)),
      (''toolConfigurationNotifications'', json_Marshal_slice (json_Marshal_ptr ''*sarif.Notification'' (Notification_MarshalJSON scn ord)) (Invocation.ToolConfigurationNotifications strct)),
      (''toolExecutionNotifications'', json_Marshal_slice (json_Marshal_ptr ''*sarif.Notification'' (Notification_MarshalJSON scn ord)) (Invocation.ToolExecutionNotifications strct)),
      (''workingDirectory'', json_Marshal_ptr ''*sarif.ArtifactLocation'' (ArtifactLocation_MarshalJSON scn ord) (Invocation.WorkingDirectory strct))]"
    by (auto simp add: Invocation_results_def)
  have keys: "map fst ?rs = Invocation_keys"
    by (simp add: Invocation_results_def Invocation_keys_def)
  then have dist: "distinct (map fst ?rs)"
    by (simp only: Invocation_keys_distinct)
  have ok: "list_all (\<lambda>e. \<not> isl (snd e)) ?rs"
    unfolding rs by (simp only: list.pred_inject snd_conv fs simp_thms)
  then have enc: "Invocation_MarshalJSON scn ord strct = Inr (JObj ?kvs)"
    by (simp add: Invocation_MarshalJSON_results [of scn ord strct] object_emit_all_eq_Inr)
  have l0: "map_of (rev ?kvs) ''account'' = Some (projr (json_Marshal_string (Invocation.Account strct)))"
    by (rule written_lookup [OF dist]) (subst rs, intro list.set_intros)
  have l1: "map_of (rev ?kvs) ''arguments'' = Some (projr (json_Marshal_slice json_Marshal_string (Invocation.Arguments strct)))"
    by (rule written_lookup [OF dist]) (subst rs, intro list.set_intros)
  have l2: "map_of (rev ?kvs) ''commandLine'' = Some (projr (json_Marshal_string (Invocation.CommandLine strct)))"
    by (rule written_lookup [OF dist]) (subst rs, intro list.set_intros)
  have l3: "map_of (rev ?kvs) ''endTimeUtc'' = Some (projr (json_Marshal_string (Invocation.EndTimeUtc strct)))"
    by (rule written_lookup [OF dist]) (subst rs, intro list.set_intros)
  have l4: "map_of (rev ?kvs) ''environmentVariables'' = Some (projr (json_Marshal_map json_Marshal_string (Invocation.EnvironmentVariables strct)))"
    by (rule written_lookup [OF dist]) (subst rs, intro list.set_intros)
  have l5: "map_of (rev ?kvs) ''executableLocation'' = Some (projr (json_Marshal_ptr ''*sarif.ArtifactLocation'' (ArtifactLocation_MarshalJSON scn ord) (Invocation.ExecutableLocation strct)))"
    by (rule written_lookup [OF dist]) (subst rs, intro list.set_intros)
  have l6: "map_of (rev ?kvs) ''executionSuccessful'' = Some (projr (json_Marshal_bool (Invocation.ExecutionSuccessful strct)))"
    by (rule written_lookup [OF dist]) (subst rs, intro list.set_intros)
  have l7: "map_of (rev ?kvs) ''exitCode'' = Some (projr (json_Marshal_int (Invocation.ExitCode strct)))"
    by (rule written_lookup [OF dist]) (subst rs, intro list.set_intros)
  have l8: "map_of (rev ?kvs) ''exitCodeDescription'' = Some (projr (json_Marshal_string (Invocation.ExitCodeDescription strct)))"
    by (rule written_lookup [OF dist]) (subst rs, intro list.set_intros)
  have l9: "map_of (rev ?kvs) ''exitSignalName'' = Some (projr (json_Marshal_string (Invocation.ExitSignalName strct)))"
    by (rule written_lookup [OF dist]) (subst rs, intro list.set_intros)
  have l10: "map_of (rev ?kvs) ''exitSignalNumber'' = Some (projr (json_Marshal_int (Invocation.ExitSignalNumber strct)))"
    by (rule written_lookup [OF dist]) (subst rs, intro list.set_intros)
  have l11: "map_of (rev ?kvs) ''machine'' = Some (projr (json_Marshal_string (Invocation.Machine strct)))"
    by (rule written_lookup [OF dist]) (subst rs, intro list.set_intros)
  have l12: "map_of (rev ?kvs) ''notificationConfigurationOverrides'' = Some (projr (json_Marshal_slice (json_Marshal_ptr ''*sarif.ConfigurationOverride'' (ConfigurationOverride_MarshalJSON scn ord)) (Invocation.NotificationConfigurationOverrides strct)))"
    by (rule written_lookup [OF dist]) (subst rs, intro list.set_intros)
  have l13: "map_of (rev ?kvs) ''processId'' = Some (projr (json_Marshal_int (Invocation.ProcessId strct)))"
    by (rule written_lookup [OF dist]) (subst rs, intro list.set_intros)
  have l14: "map_of (rev ?kvs) ''processStartFailureMessage'' = Some (projr (json_Marshal_string (Invocation.ProcessStartFailureMessage strct)))"
    by (rule written_lookup [OF dist]) (subst rs, intro list.set_intros)
  have l15: "map_of (rev ?kvs) ''properties'' = Some (projr (json_Marshal_bytes ''*sarif.PropertyBag'' (PropertyBag_MarshalJSON scn ord) (Invocation.Properties strct)))"
    by (rule written_lookup [OF dist]) (subst rs, intro list.set_intros)
  have l16: "map_of (rev ?kvs) ''responseFiles'' = Some (projr (json_Marshal_slice (json_Marshal_ptr ''*sarif.ArtifactLocation'' (ArtifactLocation_MarshalJSON scn ord)) (Invocation.ResponseFiles strct)))"
    by (rule written_lookup [OF dist]) (subst rs, intro list.set_intros)
  have l17: "map_of (rev ?kvs) ''ruleConfigurationOverrides'' = Some (projr (json_Marshal_slice (json_Marshal_ptr ''*sarif.ConfigurationOverride'' (ConfigurationOverride_MarshalJSON scn ord)) (Invocation.RuleConfigurationOverrides strct)))"
    by (rule written_lookup [OF dist]) (subst rs, intro list.set_intros)
  have l18: "map_of (rev ?kvs) ''startTimeUtc'' = Some (projr (json_Marshal_string (Invocation.StartTimeUtc strct)))"
    by (rule written_lookup [OF dist]) (subst rs, intro list.set_intros)
  have l19: "map_of (rev ?kvs) ''stderr'' = Some (projr (json_Marshal_ptr ''*sarif.ArtifactLocation'' (ArtifactLocation_MarshalJSON scn ord) (Invocation.Stderr strct)))"
    by (rule written_lookup [OF dist]) (subst rs, intro list.set_intros)
  have l20: "map_of (rev ?kvs) ''stdin'' = Some (projr (json_Marshal_ptr ''*sarif.ArtifactLocation'' (ArtifactLocation_MarshalJSON scn ord) (Invocation.Stdin strct)))"
    by (rule written_lookup [OF dist]) (subst rs, intro list.set_intros)
  have l21: "map_of (rev ?kvs) ''stdout'' = Some (projr (json_Marshal_ptr ''*sarif.ArtifactLocation'' (ArtifactLocation_MarshalJSON scn ord) (Invocation.Stdout strct)))"
    by (rule written_lookup [OF dist]) (subst rs, intro list.set_intros)
  have l22: "map_of (rev ?kvs) ''stdoutStderr'' = Some (projr (json_Marshal_ptr ''*sarif.ArtifactLocation'' (ArtifactLocation_MarshalJSON scn ord) (Invocation.StdoutStderr strct)))"
    by (rule written_lookup [OF dist]) (subst rs, intro list.set_intros)
  have l23: "map_of (rev ?kvs) ''toolConfigurationNotifications'' = Some (projr (json_Marshal_slice (json_Marshal_ptr ''*sarif.Notification'' (Notification_MarshalJSON scn ord)) (Invocation.ToolConfigurationNotifications strct)))"
    by (rule written_lookup [OF dist]) (subst rs, intro list.set_intros)
  have l24: "map_of (rev ?kvs) ''toolExecutionNotifications'' = Some (projr (json_Marshal_slice (json_Marshal_ptr ''*sarif.Notification'' (Notification_MarshalJSON scn ord)) (Invocation.ToolExecutionNotifications strct)))"
    by (rule written_lookup [OF dist]) (subst rs, intro list.set_intros)
  have l25: "map_of (rev ?kvs) ''workingDirectory'' = Some (projr (json_Marshal_ptr ''*sarif.ArtifactLocation'' (ArtifactLocation_MarshalJSON scn ord) (Invocation.WorkingDirectory strct)))"
    by (rule written_lookup [OF dist]) (subst rs, intro list.set_intros)
  have dec: "Invocation_decodes ord' (map_of (rev ?kvs)) strct"
    unfolding Invocation_decodes_def l0 l1 l2 l3 l4 l5 l6 l7 l8 l9 l10 l11 l12 l13 l14 l15 l16 l17 l18 l19 l20 l21 l22 l23 l24 l25
    by (simp only: field_ok_Some fs written_dom keys subset_refl option.simps simp_thms)
  then have "Invocation_UnmarshalJSON ord' (JObj ?kvs) = Inr strct"
    by (simp only: Invocation_decode_iff)
  with enc show "rt_object (Invocation_MarshalJSON scn ord) (Invocation_UnmarshalJSON ord') strct"
    unfolding rt_object_def by blast
qed

definition Invocation_small_bags :: "Invocation \<Rightarrow> bool" where
  "Invocation_small_bags strct \<longleftrightarrow>
     ptr_all ArtifactLocation_small_bags (Invocation.ExecutableLocation strct) \<and>
     slice_all (ptr_all ConfigurationOverride_small_bags) (Invocation.NotificationConfigurationOverrides strct) \<and>
     ptr_all PropertyBag_small_bags (Invocation.Properties strct) \<and>
     slice_all (ptr_all ArtifactLocation_small_bags) (Invocation.ResponseFiles strct) \<and>
     slice_all (ptr_all ConfigurationOverride_small_bags) (Invocation.RuleConfigurationOverrides strct) \<and>
     ptr_all ArtifactLocation_small_bags (Invocation.Stderr strct) \<and>
     ptr_all ArtifactLocation_small_bags (Invocation.Stdin strct) \<and>
     ptr_all ArtifactLocation_small_bags (Invocation.Stdout strct) \<and>
     ptr_all ArtifactLocation_small_bags (Invocation.StdoutStderr strct) \<and>
     slice_all (ptr_all Notification_small_bags) (Invocation.ToolConfigurationNotifications strct) \<and>
     slice_all (ptr_all Notification_small_bags) (Invocation.ToolExecutionNotifications strct) \<and>
     ptr_all ArtifactLocation_small_bags (Invocation.WorkingDirectory strct)"

lemma Invocation_same_output:
  "same_output (Invocation_MarshalJSON scn ord) (Invocation_MarshalJSON scn ord') Invocation_small_bags"
  unfolding same_output_def
proof (intro allI impI)
  fix strct assume v: "Invocation_small_bags strct"
  note v' = v [unfolded Invocation_small_bags_def]
  have e5: "json_Marshal_ptr ''*sarif.ArtifactLocation'' (ArtifactLocation_MarshalJSON scn ord) (Invocation.ExecutableLocation strct) =
      json_Marshal_ptr ''*sarif.ArtifactLocation'' (ArtifactLocation_MarshalJSON scn ord') (Invocation.ExecutableLocation strct)"
    by (rule same_outputD [OF same_output_ptr [OF ArtifactLocation_same_output]]) (use v' in simp)
  have e12: "json_Marshal_slice (json_Marshal_ptr ''*sarif.ConfigurationOverride'' (ConfigurationOverride_MarshalJSON scn ord)) (Invocation.NotificationConfigurationOverrides strct) =
      json_Marshal_slice (json_Marshal_ptr ''*sarif.ConfigurationOverride'' (ConfigurationOverride_MarshalJSON scn ord')) (Invocation.NotificationConfigurationOverrides strct)"
    by (rule same_outputD [OF same_output_slice [OF same_output_ptr [OF ConfigurationOverride_same_output]]]) (use v' in simp)
  have e15: "json_Marshal_bytes ''*sarif.PropertyBag'' (PropertyBag_MarshalJSON scn ord) (Invocation.Properties strct) =
      json_Marshal_bytes ''*sarif.PropertyBag'' (PropertyBag_MarshalJSON scn ord') (Invocation.Properties strct)"
    by (rule same_outputD [OF PropertyBag_field_same_output]) (use v' in simp)
  have e16: "json_Marshal_slice (json_Marshal_ptr ''*sarif.ArtifactLocation'' (ArtifactLocation_MarshalJSON scn ord)) (Invocation.ResponseFiles strct) =
      json_Marshal_slice (json_Marshal_ptr ''*sarif.ArtifactLocation'' (ArtifactLocation_MarshalJSON scn ord')) (Invocation.ResponseFiles strct)"
    by (rule same_outputD [OF same_output_slice [OF same_output_ptr [OF ArtifactLocation_same_output]]]) (use v' in simp)
  have e17: "json_Marshal_slice (json_Marshal_ptr ''*sarif.ConfigurationOverride'' (ConfigurationOverride_MarshalJSON scn ord)) (Invocation.RuleConfigurationOverrides strct) =
      json_Marshal_slice (json_Marshal_ptr ''*sarif.ConfigurationOverride'' (ConfigurationOverride_MarshalJSON scn ord')) (Invocation.RuleConfigurationOverrides strct)"
    by (rule same_outputD [OF same_output_slice [OF same_output_ptr [OF ConfigurationOverride_same_output]]]) (use v' in simp)
  have e19: "json_Marshal_ptr ''*sarif.ArtifactLocation'' (ArtifactLocation_MarshalJSON scn ord) (Invocation.Stderr strct) =
      json_Marshal_ptr ''*sarif.ArtifactLocation'' (ArtifactLocation_MarshalJSON scn ord') (Invocation.Stderr strct)"
    by (rule same_outputD [OF same_output_ptr [OF ArtifactLocation_same_output]]) (use v' in simp)
  have e20: "json_Marshal_ptr ''*sarif.ArtifactLocation'' (ArtifactLocation_MarshalJSON scn ord) (Invocation.Stdin strct) =
      json_Marshal_ptr ''*sarif.ArtifactLocation'' (ArtifactLocation_MarshalJSON scn ord') (Invocation.Stdin strct)"
    by (rule same_outputD [OF same_output_ptr [OF ArtifactLocation_same_output]]) (use v' in simp)
  have e21: "json_Marshal_ptr ''*sarif.ArtifactLocation'' (ArtifactLocation_MarshalJSON scn ord) (Invocation.Stdout strct) =
      json_Marshal_ptr ''*sarif.ArtifactLocation'' (ArtifactLocation_MarshalJSON scn ord') (Invocation.Stdout strct)"
    by (rule same_outputD [OF same_output_ptr [OF ArtifactLocation_same_output]]) (use v' in simp)
  have e22: "json_Marshal_ptr ''*sarif.ArtifactLocation'' (ArtifactLocation_MarshalJSON scn ord) (Invocation.StdoutStderr strct) =
      json_Marshal_ptr ''*sarif.ArtifactLocation'' (ArtifactLocation_MarshalJSON scn ord') (Invocation.StdoutStderr strct)"
    by (rule same_outputD [OF same_output_ptr [OF ArtifactLocation_same_output]]) (use v' in simp)
  have e23: "json_Marshal_slice (json_Marshal_ptr ''*sarif.Notification'' (Notification_MarshalJSON scn ord)) (Invocation.ToolConfigurationNotifications strct) =
      json_Marshal_slice (json_Marshal_ptr ''*sarif.Notification'' (Notification_MarshalJSON scn ord')) (Invocation.ToolConfigurationNotifications strct)"
    by (rule same_outputD [OF same_output_slice [OF same_output_ptr [OF Notification_same_output]]]) (use v' in simp)
  have e24: "json_Marshal_slice (json_Marshal_ptr ''*sarif.Notification'' (Notification_MarshalJSON scn ord)) (Invocation.ToolExecutionNotifications strct) =
      json_Marshal_slice (json_Marshal_ptr ''*sarif.Notification'' (Notification_MarshalJSON scn ord')) (Invocation.ToolExecutionNotifications strct)"
    by (rule same_outputD [OF same_output_slice [OF same_output_ptr [OF Notification_same_output]]]) (use v' in simp)
  have e25: "json_Marshal_ptr ''*sarif.ArtifactLocation'' (ArtifactLocation_MarshalJSON scn ord) (Invocation.WorkingDirectory strct) =
      json_Marshal_ptr ''*sarif.ArtifactLocation'' (ArtifactLocation_MarshalJSON scn ord') (Invocation.WorkingDirectory strct)"
    by (rule same_outputD [OF same_output_ptr [OF ArtifactLocation_same_output]]) (use v' in simp)
  show "Invocation_MarshalJSON scn ord strct = Invocation_MarshalJSON scn ord' strct"
    by (simp only: Invocation_MarshalJSON_def e5 e12 e15 e16 e17 e19 e20 e21 e22 e23 e24 e25)
qed

lemma Invocation_writes_keys: "writes_keys (Invocation_MarshalJSON scn ord) Invocation_keys"
  unfolding writes_keys_def by (intro allI impI) (erule Invocation_keys_written)

lemma Invocation_unknown_key:
  assumes new: "k \<notin> set Invocation_keys" and key: "k \<in> fst ` set kvs"
    and rest: "Invocation_UnmarshalJSON ord (JObj (filter (\<lambda>e. fst e \<noteq> k) kvs)) = Inr strct"
  shows "Invocation_UnmarshalJSON ord (JObj kvs) = Inl (not_allowed k)"
proof -
  have rej: "switch k (Invocation_cases ord v) (reject k) s = Inl (not_allowed k)" for v s
    by (rule switch_rejects) (simp only: Invocation_cases_keys new not_False_eq_True)
  from rest obtain t where
    "range_loop (\<lambda>k v. switch k (Invocation_cases ord v) (reject k)) (members ord (filter (\<lambda>e. fst e \<noteq> k) kvs)) (Invocation_zero, False) = Inr t"
    by (cases "range_loop (\<lambda>k v. switch k (Invocation_cases ord v) (reject k)) (members ord (filter (\<lambda>e. fst e \<noteq> k) kvs)) (Invocation_zero, False)")
       (simp_all add: Invocation_UnmarshalJSON_def members_def)
  from unknown_key_named [OF Invocation_regular rej key this]
  show ?thesis by (simp add: Invocation_UnmarshalJSON_def members_def)
qed

lemma Invocation_unknown_key_fails:
  assumes "k \<notin> set Invocation_keys" and "k \<in> fst ` set kvs"
  shows "isl (Invocation_UnmarshalJSON ord (JObj kvs))"
proof (cases "Invocation_UnmarshalJSON ord (JObj kvs)")
  case (Inr strct)
  then have "dom (map_of (rev kvs)) \<subseteq> set Invocation_keys"
    by (simp only: Invocation_decode_iff Invocation_decodesD(1))
  with assms show ?thesis by (auto simp: dom_map_of_conv_image_fst)
qed simp

lemma Invocation_required_present:
  assumes "Invocation_UnmarshalJSON ord (JObj kvs) = Inr strct"
  shows "''executionSuccessful'' \<in> fst ` set kvs"
proof -
  from assms have d: "Invocation_decodes ord (map_of (rev kvs)) strct" by (simp only: Invocation_decode_iff)
  show "''executionSuccessful'' \<in> fst ` set kvs"
    using Invocation_decodesD(28) [OF d]
    by (simp_all only: present_key)
qed

lemma Invocation_without_ExecutionSuccessful:
  assumes "Invocation_UnmarshalJSON ord (JObj kvs) = Inr strct"
  shows "Invocation_UnmarshalJSON ord (JObj (filter (\<lambda>e. fst e \<noteq> ''executionSuccessful'') kvs)) =
    Inl (RequiredNotPresent ''executionSuccessful'')"
proof -
  from assms have d: "Invocation_decodes ord (map_of (rev kvs)) strct" by (simp only: Invocation_decode_iff)
  have "\<exists>t. range_loop (\<lambda>k v. switch k (Invocation_cases ord v) (reject k)) (members ord (filter (\<lambda>e. fst e \<noteq> ''executionSuccessful'') kvs))
      (Invocation_zero, False) = Inr t"
  proof (rule loop_succeeds [OF Invocation_regular])
    fix k v assume "(k, v) \<in> set (members ord (filter (\<lambda>e. fst e \<noteq> ''executionSuccessful'') kvs))"
    then have "map_of (rev kvs) k = Some v" by (rule member_lookup_filter)
    from Invocation_accepts [OF d this]
    show "accepting (switch k (Invocation_cases ord v) (reject k))" .
  qed
  then obtain t where "range_loop (\<lambda>k v. switch k (Invocation_cases ord v) (reject k)) (members ord (filter (\<lambda>e. fst e \<noteq> ''executionSuccessful'') kvs))
      (Invocation_zero, False) = Inr t" ..
  then obtain strct' executionSuccessfulReceived where
    loop: "range_loop (\<lambda>k v. switch k (Invocation_cases ord v) (reject k)) (members ord (filter (\<lambda>e. fst e \<noteq> ''executionSuccessful'') kvs))
      (Invocation_zero, False) = Inr (strct', executionSuccessfulReceived)"
    by (cases t) auto
  from Invocation_loop_sound [OF loop] Invocation_decodesD(28) [OF d]
  have "\<not> executionSuccessfulReceived"
    by (simp_all add: lookup_filter)
  with loop show ?thesis
    by (simp add: Invocation_UnmarshalJSON_def members_def)
qed


lemma Invocation_rejects_unknown_keys: "rejects_unknown_keys (Invocation_UnmarshalJSON ord) Invocation_keys"
  by (rule rejects_unknown_keysI) (erule (1) Invocation_unknown_key_fails, erule (2) Invocation_unknown_key)

lemma Invocation_requires_ExecutionSuccessful: "requires_key (Invocation_UnmarshalJSON ord) ''executionSuccessful''"
  by (rule requires_keyI) (erule Invocation_required_present(1), erule Invocation_without_ExecutionSuccessful)


subsection \<open>Conversion: decoding and encoding\<close>

definition Conversion_keys :: "string list" where
  "Conversion_keys = [''analysisToolLogFiles'', ''invocation'', ''properties'', ''tool'']"

definition Conversion_decodes :: "order \<Rightarrow> (string \<rightharpoonup> json) \<Rightarrow> Conversion \<Rightarrow> bool" where
  "Conversion_decodes ord m strct \<longleftrightarrow>
     dom m \<subseteq> set Conversion_keys \<and>
     field_ok (json_Unmarshal_slice (json_Unmarshal_ptr (ArtifactLocation_UnmarshalJSON ord))) (m ''analysisToolLogFiles'') None (Conversion.AnalysisToolLogFiles strct) \<and>
     field_ok (json_Unmarshal_ptr (Invocation_UnmarshalJSON ord)) (m ''invocation'') None (Conversion.Invocation strct) \<and>
     field_ok (json_Unmarshal_ptr (PropertyBag_UnmarshalJSON ord)) (m ''properties'') None (Conversion.Properties strct) \<and>
     field_ok (json_Unmarshal_ptr (Tool_UnmarshalJSON ord)) (m ''tool'') None (Conversion.Tool strct) \<and>
     m ''tool'' \<noteq> None"

lemma Conversion_cases_keys: "fst ` set (Conversion_cases ord v) = set Conversion_keys"
  by (rule keys_image) (simp add: Conversion_cases_def Conversion_keys_def)

lemma Conversion_regular: "regular (\<lambda>k v. switch k (Conversion_cases ord v) (reject k))"
  by (rule regular_switch) (simp add: Conversion_cases_def)

lemma Conversion_fields:
  "field_case (Conversion_cases ord) (\<lambda>(strct, toolReceived). Conversion.AnalysisToolLogFiles strct) ''analysisToolLogFiles'' (json_Unmarshal_slice (json_Unmarshal_ptr (ArtifactLocation_UnmarshalJSON ord)))"
  "field_case (Conversion_cases ord) (\<lambda>(strct, toolReceived). Conversion.Invocation strct) ''invocation'' (json_Unmarshal_ptr (Invocation_UnmarshalJSON ord))"
  "field_case (Conversion_cases ord) (\<lambda>(strct, toolReceived). Conversion.Properties strct) ''properties'' (json_Unmarshal_ptr (PropertyBag_UnmarshalJSON ord))"
  "field_case (Conversion_cases ord) (\<lambda>(strct, toolReceived). Conversion.Tool strct) ''tool'' (json_Unmarshal_ptr (Tool_UnmarshalJSON ord))"
  "field_case (Conversion_cases ord) (\<lambda>(strct, toolReceived). toolReceived) ''tool'' (received (json_Unmarshal_ptr (Tool_UnmarshalJSON ord)))"
  unfolding field_case_def Conversion_cases_def
  by (simp_all add: writes_into writes_received keeps_into split_def)

lemma Conversion_loop_sound:
  assumes loop: "range_loop (\<lambda>k v. switch k (Conversion_cases ord v) (reject k)) (members ord kvs) (Conversion_zero, False) = Inr (strct, toolReceived)"
  shows "dom (map_of (rev kvs)) \<subseteq> set Conversion_keys \<and>
     field_ok (json_Unmarshal_slice (json_Unmarshal_ptr (ArtifactLocation_UnmarshalJSON ord))) (map_of (rev kvs) ''analysisToolLogFiles'') None (Conversion.AnalysisToolLogFiles strct) \<and>
     field_ok (json_Unmarshal_ptr (Invocation_UnmarshalJSON ord)) (map_of (rev kvs) ''invocation'') None (Conversion.Invocation strct) \<and>
     field_ok (json_Unmarshal_ptr (PropertyBag_UnmarshalJSON ord)) (map_of (rev kvs) ''properties'') None (Conversion.Properties strct) \<and>
     field_ok (json_Unmarshal_ptr (Tool_UnmarshalJSON ord)) (map_of (rev kvs) ''tool'') None (Conversion.Tool strct) \<and>
     (toolReceived \<longleftrightarrow> map_of (rev kvs) ''tool'' \<noteq> None)"
proof -
  have "fst ` set (members ord kvs) \<subseteq> set Conversion_keys"
    by (rule loop_keys_known [OF loop]) (rule Conversion_cases_keys)
  then have keys: "dom (map_of (rev kvs)) \<subseteq> set Conversion_keys"
    by (simp add: dom_members [of kvs ord])
  note fld = field_after_loop [OF _ members_distinct loop, unfolded map_of_members]
  note flg = flag_after_loop [OF _ members_distinct loop, unfolded map_of_members]
  show ?thesis
    using keys fld [OF Conversion_fields(1)] fld [OF Conversion_fields(2)] fld [OF Conversion_fields(3)] fld [OF Conversion_fields(4)] flg [OF Conversion_fields(5)]
    by (simp only: prod.case Conversion_zero_def Conversion.select_convs simp_thms)
qed

lemma Conversion_decodesD:
  assumes "Conversion_decodes ord m strct"
  shows "dom m \<subseteq> set Conversion_keys"
    and "field_ok (json_Unmarshal_slice (json_Unmarshal_ptr (ArtifactLocation_UnmarshalJSON ord))) (m ''analysisToolLogFiles'') None (Conversion.AnalysisToolLogFiles strct)"
    and "field_ok (json_Unmarshal_ptr (Invocation_UnmarshalJSON ord)) (m ''invocation'') None (Conversion.Invocation strct)"
    and "field_ok (json_Unmarshal_ptr (PropertyBag_UnmarshalJSON ord)) (m ''properties'') None (Conversion.Properties strct)"
    and "field_ok (json_Unmarshal_ptr (Tool_UnmarshalJSON ord)) (m ''tool'') None (Conversion.Tool strct)"
    and "m ''tool'' \<noteq> None"
  using assms unfolding Conversion_decodes_def by - (elim conjE, assumption)+

lemma Conversion_decodes_unique:
  assumes "Conversion_decodes ord m a" and "Conversion_decodes ord m b"
  shows "a = b"
  apply (rule Conversion.equality)
  apply (rule field_ok_unique [OF Conversion_decodesD(2) [OF assms(1)] Conversion_decodesD(2) [OF assms(2)]])
  apply (rule field_ok_unique [OF Conversion_decodesD(3) [OF assms(1)] Conversion_decodesD(3) [OF assms(2)]])
  apply (rule field_ok_unique [OF Conversion_decodesD(4) [OF assms(1)] Conversion_decodesD(4) [OF assms(2)]])
  apply (rule field_ok_unique [OF Conversion_decodesD(5) [OF assms(1)] Conversion_decodesD(5) [OF assms(2)]])
  apply simp
  done

lemma Conversion_accepts:
  assumes "Conversion_decodes ord m strct" and "m k = Some v"
  shows "accepting (switch k (Conversion_cases ord v) (reject k))"
proof -
  from assms have "k \<in> set Conversion_keys" by (auto simp: Conversion_decodes_def)
  then have key: "k \<in> fst ` set (Conversion_cases ord v)"
    by (simp only: Conversion_cases_keys)
  have rows: "list_all (\<lambda>(c, h). m c = Some v \<longrightarrow> accepting h) (Conversion_cases ord v)"
    unfolding Conversion_cases_def list.pred_inject
    apply (rule conjI [OF accept_row [where m = m and v = v, OF Conversion_decodesD(2) [OF assms(1)]]])
    apply (rule conjI [OF accept_row [where m = m and v = v, OF Conversion_decodesD(3) [OF assms(1)]]])
    apply (rule conjI [OF accept_row [where m = m and v = v, OF Conversion_decodesD(4) [OF assms(1)]]])
    apply (rule conjI [OF accept_row [where m = m and v = v, OF Conversion_decodesD(5) [OF assms(1)]]])
    apply simp
    done
  show ?thesis by (rule rows_accept [OF rows assms(2) key])
qed

lemma Conversion_decode_iff:
  "Conversion_UnmarshalJSON ord (JObj kvs) = Inr strct \<longleftrightarrow>
   Conversion_decodes ord (map_of (rev kvs)) strct"
proof
  assume "Conversion_UnmarshalJSON ord (JObj kvs) = Inr strct"
  then obtain toolReceived where
    loop: "range_loop (\<lambda>k v. switch k (Conversion_cases ord v) (reject k)) (members ord kvs) (Conversion_zero, False) = Inr (strct, toolReceived)"
    and fin: "toolReceived"
    by (auto simp: Conversion_UnmarshalJSON_def members_def split: sum.splits if_splits)
  from Conversion_loop_sound [OF loop] fin
  show "Conversion_decodes ord (map_of (rev kvs)) strct"
    by (simp add: Conversion_decodes_def)
next
  assume d: "Conversion_decodes ord (map_of (rev kvs)) strct"
  have "\<exists>t. range_loop (\<lambda>k v. switch k (Conversion_cases ord v) (reject k)) (members ord kvs) (Conversion_zero, False) = Inr t"
  proof (rule loop_succeeds [OF Conversion_regular])
    fix k v assume "(k, v) \<in> set (members ord kvs)"
    then have "map_of (rev kvs) k = Some v" by (rule member_lookup)
    from Conversion_accepts [OF d this]
    show "accepting (switch k (Conversion_cases ord v) (reject k))" .
  qed
  then obtain t where "range_loop (\<lambda>k v. switch k (Conversion_cases ord v) (reject k)) (members ord kvs) (Conversion_zero, False) = Inr t" ..
  then obtain strct' toolReceived where
    loop: "range_loop (\<lambda>k v. switch k (Conversion_cases ord v) (reject k)) (members ord kvs) (Conversion_zero, False) = Inr (strct', toolReceived)"
    by (cases t) auto
  from Conversion_loop_sound [OF loop] d
  have fin: "toolReceived"
    and d': "Conversion_decodes ord (map_of (rev kvs)) strct'"
    by (simp_all add: Conversion_decodes_def)
  from Conversion_decodes_unique [OF d' d] have "strct' = strct" .
  with loop fin show "Conversion_UnmarshalJSON ord (JObj kvs) = Inr strct"
    by (simp add: Conversion_UnmarshalJSON_def members_def)
qed

definition Conversion_results :: "scanner \<Rightarrow> order \<Rightarrow> Conversion \<Rightarrow> (string \<times> (error + json)) list" where
  "Conversion_results scn ord strct =
     [(''analysisToolLogFiles'', json_Marshal_slice (json_Marshal_ptr ''*sarif.ArtifactLocation'' (ArtifactLocation_MarshalJSON scn ord)) (Conversion.AnalysisToolLogFiles strct)),
      (''invocation'', json_Marshal_ptr ''*sarif.Invocation'' (Invocation_MarshalJSON scn ord) (Conversion.Invocation strct)),
      (''properties'', json_Marshal_bytes ''*sarif.PropertyBag'' (PropertyBag_MarshalJSON scn ord) (Conversion.Properties strct)),
      (''tool'', if Conversion.Tool strct = None then Inl (RequiredField ''tool'') else json_Marshal_ptr ''*sarif.Tool'' (Tool_MarshalJSON scn ord) (Conversion.Tool strct))]"

lemma Conversion_MarshalJSON_results:
  "Conversion_MarshalJSON scn ord strct = object (emit_all (Conversion_results scn ord strct))"
  by (simp add: Conversion_MarshalJSON_def Conversion_results_def emit_nilcheck)

lemma Conversion_keys_written:
  "Conversion_MarshalJSON scn ord strct = Inr j \<Longrightarrow> \<exists>kvs. j = JObj kvs \<and> map fst kvs = Conversion_keys"
  using keys_written [of "Conversion_results scn ord strct" j]
  by (simp add: Conversion_MarshalJSON_results Conversion_results_def Conversion_keys_def)

definition Conversion_encodable :: "scanner \<Rightarrow> order \<Rightarrow> Conversion \<Rightarrow> bool" where
  "Conversion_encodable scn ord strct \<longleftrightarrow>
     slice_all (ptr_all (ArtifactLocation_encodable scn ord)) (Conversion.AnalysisToolLogFiles strct) \<and>
     ptr_all (Invocation_encodable scn ord) (Conversion.Invocation strct) \<and>
     ptr_all (PropertyBag_encodable scn ord) (Conversion.Properties strct) \<and>
     Conversion.Tool strct \<noteq> None \<and>
     ptr_all (Tool_encodable scn ord) (Conversion.Tool strct)"

lemma Conversion_fails_unless: "fails_unless (Conversion_MarshalJSON scn ord) (Conversion_encodable scn ord)"
  unfolding fails_unless_def Conversion_MarshalJSON_results Conversion_results_def Conversion_encodable_def isl_object_emit_all
  by (auto simp add: always_simps
      fails_unlessD [OF fails_unless_slice [OF fails_unless_ptr [OF ArtifactLocation_fails_unless]]]
      fails_unlessD [OF fails_unless_ptr [OF Invocation_fails_unless]]
      fails_unlessD [OF PropertyBag_field_fails_unless]
      fails_unlessD [OF fails_unless_ptr [OF Tool_fails_unless]])

definition Conversion_valid :: "Conversion \<Rightarrow> bool" where
  "Conversion_valid strct \<longleftrightarrow>
     slice_all (ptr_all ArtifactLocation_valid) (Conversion.AnalysisToolLogFiles strct) \<and>
     ptr_all Invocation_valid (Conversion.Invocation strct) \<and>
     ptr_all PropertyBag_valid (Conversion.Properties strct) \<and>
     Conversion.Tool strct \<noteq> None \<and>
     ptr_all Tool_valid (Conversion.Tool strct)"

lemma Conversion_keys_distinct: "distinct Conversion_keys"
  by (simp add: Conversion_keys_def)

lemma Conversion_round_trips:
  "round_trips_object (Conversion_MarshalJSON scn ord) (Conversion_UnmarshalJSON ord') Conversion_valid"
  unfolding round_trips_object_def
proof (intro allI impI)
  fix strct assume v: "Conversion_valid strct"
  note v' = v [unfolded Conversion_valid_def]
  let ?rs = "Conversion_results scn ord strct"
  let ?kvs = "map (\<lambda>e. (fst e, projr (snd e))) ?rs"
  have f0: "\<not> isl (json_Marshal_slice (json_Marshal_ptr ''*sarif.ArtifactLocation'' (ArtifactLocation_MarshalJSON scn ord)) (Conversion.AnalysisToolLogFiles strct)) \<and>
      json_Unmarshal_slice (json_Unmarshal_ptr (ArtifactLocation_UnmarshalJSON ord')) (projr (json_Marshal_slice (json_Marshal_ptr ''*sarif.ArtifactLocation'' (ArtifactLocation_MarshalJSON scn ord)) (Conversion.AnalysisToolLogFiles strct))) = Inr (Conversion.AnalysisToolLogFiles strct)"
    by (rule round_tripsD [OF round_trips_slice [OF round_trips_ptr [OF ArtifactLocation_round_trips]]]) (use v' in simp)
  have f1: "\<not> isl (json_Marshal_ptr ''*sarif.Invocation'' (Invocation_MarshalJSON scn ord) (Conversion.Invocation strct)) \<and>
      json_Unmarshal_ptr (Invocation_UnmarshalJSON ord') (projr (json_Marshal_ptr ''*sarif.Invocation'' (Invocation_MarshalJSON scn ord) (Conversion.Invocation strct))) = Inr (Conversion.Invocation strct)"
    by (rule round_tripsD [OF round_trips_ptr [OF Invocation_round_trips]]) (use v' in simp)
  have f2: "\<not> isl (json_Marshal_bytes ''*sarif.PropertyBag'' (PropertyBag_MarshalJSON scn ord) (Conversion.Properties strct)) \<and>
      json_Unmarshal_ptr (PropertyBag_UnmarshalJSON ord') (projr (json_Marshal_bytes ''*sarif.PropertyBag'' (PropertyBag_MarshalJSON scn ord) (Conversion.Properties strct))) = Inr (Conversion.Properties strct)"
    by (rule round_tripsD [OF PropertyBag_field_round_trips]) (use v' in simp)
  have f3: "\<not> isl (json_Marshal_ptr ''*sarif.Tool'' (Tool_MarshalJSON scn ord) (Conversion.Tool strct)) \<and>
      json_Unmarshal_ptr (Tool_UnmarshalJSON ord') (projr (json_Marshal_ptr ''*sarif.Tool'' (Tool_MarshalJSON scn ord) (Conversion.Tool strct))) = Inr (Conversion.Tool strct)"
    by (rule round_tripsD [OF round_trips_ptr [OF Tool_round_trips]]) (use v' in simp)
  note fs = f0 f1 f2 f3
  have nn: "Conversion.Tool strct \<noteq> None"
    using v' by simp_all
  have rs: "?rs =
     [(''analysisToolLogFiles'', json_Marshal_slice (json_Marshal_ptr ''*sarif.ArtifactLocation'' (ArtifactLocation_MarshalJSON scn ord)) (Conversion.AnalysisToolLogFiles strct)),
      (''invocation'', json_Marshal_ptr ''*sarif.Invocation'' (Invocation_MarshalJSON scn ord) (Conversion.Invocation strct)),
      (''properties'', json_Marshal_bytes ''*sarif.PropertyBag'' (PropertyBag_MarshalJSON scn ord) (Conversion.Properties strct)),
      (''tool'', json_Marshal_ptr ''*sarif.Tool'' (Tool_MarshalJSON scn ord) (Conversion.Tool strct))]"
    using nn by (auto simp add: Conversion_results_def)
  have keys: "map fst ?rs = Conversion_keys"
    by (simp add: Conversion_results_def Conversion_keys_def)
  then have dist: "distinct (map fst ?rs)"
    by (simp only: Conversion_keys_distinct)
  have ok: "list_all (\<lambda>e. \<not> isl (snd e)) ?rs"
    unfolding rs by (simp only: list.pred_inject snd_conv fs simp_thms)
  then have enc: "Conversion_MarshalJSON scn ord strct = Inr (JObj ?kvs)"
    by (simp add: Conversion_MarshalJSON_results [of scn ord strct] object_emit_all_eq_Inr)
  have l0: "map_of (rev ?kvs) ''analysisToolLogFiles'' = Some (projr (json_Marshal_slice (json_Marshal_ptr ''*sarif.ArtifactLocation'' (ArtifactLocation_MarshalJSON scn ord)) (Conversion.AnalysisToolLogFiles strct)))"
    by (rule written_lookup [OF dist]) (subst rs, intro list.set_intros)
  have l1: "map_of (rev ?kvs) ''invocation'' = Some (projr (json_Marshal_ptr ''*sarif.Invocation'' (Invocation_MarshalJSON scn ord) (Conversion.Invocation strct)))"
    by (rule written_lookup [OF dist]) (subst rs, intro list.set_intros)
  have l2: "map_of (rev ?kvs) ''properties'' = Some (projr (json_Marshal_bytes ''*sarif.PropertyBag'' (PropertyBag_MarshalJSON scn ord) (Conversion.Properties strct)))"
    by (rule written_lookup [OF dist]) (subst rs, intro list.set_intros)
  have l3: "map_of (rev ?kvs) ''tool'' = Some (projr (json_Marshal_ptr ''*sarif.Tool'' (Tool_MarshalJSON scn ord) (Conversion.Tool strct)))"
    by (rule written_lookup [OF dist]) (subst rs, intro list.set_intros)
  have dec: "Conversion_decodes ord' (map_of (rev ?kvs)) strct"
    unfolding Conversion_decodes_def l0 l1 l2 l3
    by (simp only: field_ok_Some fs written_dom keys subset_refl option.simps simp_thms)
  then have "Conversion_UnmarshalJSON ord' (JObj ?kvs) = Inr strct"
    by (simp only: Conversion_decode_iff)
  with enc show "rt_object (Conversion_MarshalJSON scn ord) (Conversion_UnmarshalJSON ord') strct"
    unfolding rt_object_def by blast
qed

definition Conversion_small_bags :: "Conversion \<Rightarrow> bool" where
  "Conversion_small_bags strct \<longleftrightarrow>
     slice_all (ptr_all ArtifactLocation_small_bags) (Conversion.AnalysisToolLogFiles strct) \<and>
     ptr_all Invocation_small_bags (Conversion.Invocation strct) \<and>
     ptr_all PropertyBag_small_bags (Conversion.Properties strct) \<and>
     ptr_all Tool_small_bags (Conversion.Tool strct)"

lemma Conversion_same_output:
  "same_output (Conversion_MarshalJSON scn ord) (Conversion_MarshalJSON scn ord') Conversion_small_bags"
  unfolding same_output_def
proof (intro allI impI)
  fix strct assume v: "Conversion_small_bags strct"
  note v' = v [unfolded Conversion_small_bags_def]
  have e0: "json_Marshal_slice (json_Marshal_ptr ''*sarif.ArtifactLocation'' (ArtifactLocation_MarshalJSON scn ord)) (Conversion.AnalysisToolLogFiles strct) =
      json_Marshal_slice (json_Marshal_ptr ''*sarif.ArtifactLocation'' (ArtifactLocation_MarshalJSON scn ord')) (Conversion.AnalysisToolLogFiles strct)"
    by (rule same_outputD [OF same_output_slice [OF same_output_ptr [OF ArtifactLocation_same_output]]]) (use v' in simp)
  have e1: "json_Marshal_ptr ''*sarif.Invocation'' (Invocation_MarshalJSON scn ord) (Conversion.Invocation strct) =
      json_Marshal_ptr ''*sarif.Invocation'' (Invocation_MarshalJSON scn ord') (Conversion.Invocation strct)"
    by (rule same_outputD [OF same_output_ptr [OF Invocation_same_output]]) (use v' in simp)
  have e2: "json_Marshal_bytes ''*sarif.PropertyBag'' (PropertyBag_MarshalJSON scn ord) (Conversion.Properties strct) =
      json_Marshal_bytes ''*sarif.PropertyBag'' (PropertyBag_MarshalJSON scn ord') (Conversion.Properties strct)"
    by (rule same_outputD [OF PropertyBag_field_same_output]) (use v' in simp)
  have e3: "json_Marshal_ptr ''*sarif.Tool'' (Tool_MarshalJSON scn ord) (Conversion.Tool strct) =
      json_Marshal_ptr ''*sarif.Tool'' (Tool_MarshalJSON scn ord') (Conversion.Tool strct)"
    by (rule same_outputD [OF same_output_ptr [OF Tool_same_output]]) (use v' in simp)
  show "Conversion_MarshalJSON scn ord strct = Conversion_MarshalJSON scn ord' strct"
    by (simp only: Conversion_MarshalJSON_def e0 e1 e2 e3)
qed

lemma Conversion_writes_keys: "writes_keys (Conversion_MarshalJSON scn ord) Conversion_keys"
  unfolding writes_keys_def by (intro allI impI) (erule Conversion_keys_written)

lemma Conversion_unknown_key:
  assumes new: "k \<notin> set Conversion_keys" and key: "k \<in> fst ` set kvs"
    and rest: "Conversion_UnmarshalJSON ord (JObj (filter (\<lambda>e. fst e \<noteq> k) kvs)) = Inr strct"
  shows "Conversion_UnmarshalJSON ord (JObj kvs) = Inl (not_allowed k)"
proof -
  have rej: "switch k (Conversion_cases ord v) (reject k) s = Inl (not_allowed k)" for v s
    by (rule switch_rejects) (simp only: Conversion_cases_keys new not_False_eq_True)
  from rest obtain t where
    "range_loop (\<lambda>k v. switch k (Conversion_cases ord v) (reject k)) (members ord (filter (\<lambda>e. fst e \<noteq> k) kvs)) (Conversion_zero, False) = Inr t"
    by (cases "range_loop (\<lambda>k v. switch k (Conversion_cases ord v) (reject k)) (members ord (filter (\<lambda>e. fst e \<noteq> k) kvs)) (Conversion_zero, False)")
       (simp_all add: Conversion_UnmarshalJSON_def members_def)
  from unknown_key_named [OF Conversion_regular rej key this]
  show ?thesis by (simp add: Conversion_UnmarshalJSON_def members_def)
qed

lemma Conversion_unknown_key_fails:
  assumes "k \<notin> set Conversion_keys" and "k \<in> fst ` set kvs"
  shows "isl (Conversion_UnmarshalJSON ord (JObj kvs))"
proof (cases "Conversion_UnmarshalJSON ord (JObj kvs)")
  case (Inr strct)
  then have "dom (map_of (rev kvs)) \<subseteq> set Conversion_keys"
    by (simp only: Conversion_decode_iff Conversion_decodesD(1))
  with assms show ?thesis by (auto simp: dom_map_of_conv_image_fst)
qed simp

lemma Conversion_required_present:
  assumes "Conversion_UnmarshalJSON ord (JObj kvs) = Inr strct"
  shows "''tool'' \<in> fst ` set kvs"
proof -
  from assms have d: "Conversion_decodes ord (map_of (rev kvs)) strct" by (simp only: Conversion_decode_iff)
  show "''tool'' \<in> fst ` set kvs"
    using Conversion_decodesD(6) [OF d]
    by (simp_all only: present_key)
qed

lemma Conversion_without_Tool:
  assumes "Conversion_UnmarshalJSON ord (JObj kvs) = Inr strct"
  shows "Conversion_UnmarshalJSON ord (JObj (filter (\<lambda>e. fst e \<noteq> ''tool'') kvs)) =
    Inl (RequiredNotPresent ''tool'')"
proof -
  from assms have d: "Conversion_decodes ord (map_of (rev kvs)) strct" by (simp only: Conversion_decode_iff)
  have "\<exists>t. range_loop (\<lambda>k v. switch k (Conversion_cases ord v) (reject k)) (members ord (filter (\<lambda>e. fst e \<noteq> ''tool'') kvs))
      (Conversion_zero, False) = Inr t"
  proof (rule loop_succeeds [OF Conversion_regular])
    fix k v assume "(k, v) \<in> set (members ord (filter (\<lambda>e. fst e \<noteq> ''tool'') kvs))"
    then have "map_of (rev kvs) k = Some v" by (rule member_lookup_filter)
    from Conversion_accepts [OF d this]
    show "accepting (switch k (Conversion_cases ord v) (reject k))" .
  qed
  then obtain t where "range_loop (\<lambda>k v. switch k (Conversion_cases ord v) (reject k)) (members ord (filter (\<lambda>e. fst e \<noteq> ''tool'') kvs))
      (Conversion_zero, False) = Inr t" ..
  then obtain strct' toolReceived where
    loop: "range_loop (\<lambda>k v. switch k (Conversion_cases ord v) (reject k)) (members ord (filter (\<lambda>e. fst e \<noteq> ''tool'') kvs))
      (Conversion_zero, False) = Inr (strct', toolReceived)"
    by (cases t) auto
  from Conversion_loop_sound [OF loop] Conversion_decodesD(6) [OF d]
  have "\<not> toolReceived"
    by (simp_all add: lookup_filter)
  with loop show ?thesis
    by (simp add: Conversion_UnmarshalJSON_def members_def)
qed


lemma Conversion_rejects_unknown_keys: "rejects_unknown_keys (Conversion_UnmarshalJSON ord) Conversion_keys"
  by (rule rejects_unknown_keysI) (erule (1) Conversion_unknown_key_fails, erule (2) Conversion_unknown_key)

lemma Conversion_requires_Tool: "requires_key (Conversion_UnmarshalJSON ord) ''tool''"
  by (rule requires_keyI) (erule Conversion_required_present(1), erule Conversion_without_Tool)


subsection \<open>Edge: decoding and encoding\<close>

definition Edge_keys :: "string list" where
  "Edge_keys = [''id'', ''label'', ''properties'', ''sourceNodeId'', ''targetNodeId'']"

definition Edge_decodes :: "order \<Rightarrow> (string \<rightharpoonup> json) \<Rightarrow> Edge \<Rightarrow> bool" where
  "Edge_decodes ord m strct \<longleftrightarrow>
     dom m \<subseteq> set Edge_keys \<and>
     field_ok json_Unmarshal_string (m ''id'') [] (Edge.Id strct) \<and>
     field_ok (json_Unmarshal_ptr (Message_UnmarshalJSON ord)) (m ''label'') None (Edge.Label strct) \<and>
     field_ok (json_Unmarshal_ptr (PropertyBag_UnmarshalJSON ord)) (m ''properties'') None (Edge.Properties strct) \<and>
     field_ok json_Unmarshal_string (m ''sourceNodeId'') [] (Edge.SourceNodeId strct) \<and>
     field_ok json_Unmarshal_string (m ''targetNodeId'') [] (Edge.TargetNodeId strct) \<and>
     m ''id'' \<noteq> None \<and>
     m ''sourceNodeId'' \<noteq> None \<and>
     m ''targetNodeId'' \<noteq> None"

lemma Edge_cases_keys: "fst ` set (Edge_cases ord v) = set Edge_keys"
  by (rule keys_image) (simp add: Edge_cases_def Edge_keys_def)

lemma Edge_regular: "regular (\<lambda>k v. switch k (Edge_cases ord v) (reject k))"
  by (rule regular_switch) (simp add: Edge_cases_def)

lemma Edge_fields:
  "field_case (Edge_cases ord) (\<lambda>(strct, idReceived, sourceNodeIdReceived, targetNodeIdReceived). Edge.Id strct) ''id'' json_Unmarshal_string"
  "field_case (Edge_cases ord) (\<lambda>(strct, idReceived, sourceNodeIdReceived, targetNodeIdReceived). Edge.Label strct) ''label'' (json_Unmarshal_ptr (Message_UnmarshalJSON ord))"
  "field_case (Edge_cases ord) (\<lambda>(strct, idReceived, sourceNodeIdReceived, targetNodeIdReceived). Edge.Properties strct) ''properties'' (json_Unmarshal_ptr (PropertyBag_UnmarshalJSON ord))"
  "field_case (Edge_cases ord) (\<lambda>(strct, idReceived, sourceNodeIdReceived, targetNodeIdReceived). Edge.SourceNodeId strct) ''sourceNodeId'' json_Unmarshal_string"
  "field_case (Edge_cases ord) (\<lambda>(strct, idReceived, sourceNodeIdReceived, targetNodeIdReceived). Edge.TargetNodeId strct) ''targetNodeId'' json_Unmarshal_string"
  "field_case (Edge_cases ord) (\<lambda>(strct, idReceived, sourceNodeIdReceived, targetNodeIdReceived). idReceived) ''id'' (received json_Unmarshal_string)"
  "field_case (Edge_cases ord) (\<lambda>(strct, idReceived, sourceNodeIdReceived, targetNodeIdReceived). sourceNodeIdReceived) ''sourceNodeId'' (received json_Unmarshal_string)"
  "field_case (Edge_cases ord) (\<lambda>(strct, idReceived, sourceNodeIdReceived, targetNodeIdReceived). targetNodeIdReceived) ''targetNodeId'' (received json_Unmarshal_string)"
  unfolding field_case_def Edge_cases_def
  by (simp_all add: writes_into writes_received keeps_into split_def)

lemma Edge_loop_sound:
  assumes loop: "range_loop (\<lambda>k v. switch k (Edge_cases ord v) (reject k)) (members ord kvs) (Edge_zero, False, False, False) = Inr (strct, idReceived, sourceNodeIdReceived, targetNodeIdReceived)"
  shows "dom (map_of (rev kvs)) \<subseteq> set Edge_keys \<and>
     field_ok json_Unmarshal_string (map_of (rev kvs) ''id'') [] (Edge.Id strct) \<and>
     field_ok (json_Unmarshal_ptr (Message_UnmarshalJSON ord)) (map_of (rev kvs) ''label'') None (Edge.Label strct) \<and>
     field_ok (json_Unmarshal_ptr (PropertyBag_UnmarshalJSON ord)) (map_of (rev kvs) ''properties'') None (Edge.Properties strct) \<and>
     field_ok json_Unmarshal_string (map_of (rev kvs) ''sourceNodeId'') [] (Edge.SourceNodeId strct) \<and>
     field_ok json_Unmarshal_string (map_of (rev kvs) ''targetNodeId'') [] (Edge.TargetNodeId strct) \<and>
     (idReceived \<longleftrightarrow> map_of (rev kvs) ''id'' \<noteq> None) \<and>
     (sourceNodeIdReceived \<longleftrightarrow> map_of (rev kvs) ''sourceNodeId'' \<noteq> None) \<and>
     (targetNodeIdReceived \<longleftrightarrow> map_of (rev kvs) ''targetNodeId'' \<noteq> None)"
proof -
  have "fst ` set (members ord kvs) \<subseteq> set Edge_keys"
    by (rule loop_keys_known [OF loop]) (rule Edge_cases_keys)
  then have keys: "dom (map_of (rev kvs)) \<subseteq> set Edge_keys"
    by (simp add: dom_members [of kvs ord])
  note fld = field_after_loop [OF _ members_distinct loop, unfolded map_of_members]
  note flg = flag_after_loop [OF _ members_distinct loop, unfolded map_of_members]
  show ?thesis
    using keys fld [OF Edge_fields(1)] fld [OF Edge_fields(2)] fld [OF Edge_fields(3)] fld [OF Edge_fields(4)] fld [OF Edge_fields(5)] flg [OF Edge_fields(6)] flg [OF Edge_fields(7)] flg [OF Edge_fields(8)]
    by (simp only: prod.case Edge_zero_def Edge.select_convs simp_thms)
qed

lemma Edge_decodesD:
  assumes "Edge_decodes ord m strct"
  shows "dom m \<subseteq> set Edge_keys"
    and "field_ok json_Unmarshal_string (m ''id'') [] (Edge.Id strct)"
    and "field_ok (json_Unmarshal_ptr (Message_UnmarshalJSON ord)) (m ''label'') None (Edge.Label strct)"
    and "field_ok (json_Unmarshal_ptr (PropertyBag_UnmarshalJSON ord)) (m ''properties'') None (Edge.Properties strct)"
    and "field_ok json_Unmarshal_string (m ''sourceNodeId'') [] (Edge.SourceNodeId strct)"
    and "field_ok json_Unmarshal_string (m ''targetNodeId'') [] (Edge.TargetNodeId strct)"
    and "m ''id'' \<noteq> None"
    and "m ''sourceNodeId'' \<noteq> None"
    and "m ''targetNodeId'' \<noteq> None"
  using assms unfolding Edge_decodes_def by - (elim conjE, assumption)+

lemma Edge_decodes_unique:
  assumes "Edge_decodes ord m a" and "Edge_decodes ord m b"
  shows "a = b"
  apply (rule Edge.equality)
  apply (rule field_ok_unique [OF Edge_decodesD(2) [OF assms(1)] Edge_decodesD(2) [OF assms(2)]])
  apply (rule field_ok_unique [OF Edge_decodesD(3) [OF assms(1)] Edge_decodesD(3) [OF assms(2)]])
  apply (rule field_ok_unique [OF Edge_decodesD(4) [OF assms(1)] Edge_decodesD(4) [OF assms(2)]])
  apply (rule field_ok_unique [OF Edge_decodesD(5) [OF assms(1)] Edge_decodesD(5) [OF assms(2)]])
  apply (rule field_ok_unique [OF Edge_decodesD(6) [OF assms(1)] Edge_decodesD(6) [OF assms(2)]])
  apply simp
  done

lemma Edge_accepts:
  assumes "Edge_decodes ord m strct" and "m k = Some v"
  shows "accepting (switch k (Edge_cases ord v) (reject k))"
proof -
  from assms have "k \<in> set Edge_keys" by (auto simp: Edge_decodes_def)
  then have key: "k \<in> fst ` set (Edge_cases ord v)"
    by (simp only: Edge_cases_keys)
  have rows: "list_all (\<lambda>(c, h). m c = Some v \<longrightarrow> accepting h) (Edge_cases ord v)"
    unfolding Edge_cases_def list.pred_inject
    apply (rule conjI [OF accept_row [where m = m and v = v, OF Edge_decodesD(2) [OF assms(1)]]])
    apply (rule conjI [OF accept_row [where m = m and v = v, OF Edge_decodesD(3) [OF assms(1)]]])
    apply (rule conjI [OF accept_row [where m = m and v = v, OF Edge_decodesD(4) [OF assms(1)]]])
    apply (rule conjI [OF accept_row [where m = m and v = v, OF Edge_decodesD(5) [OF assms(1)]]])
    apply (rule conjI [OF accept_row [where m = m and v = v, OF Edge_decodesD(6) [OF assms(1)]]])
    apply simp
    done
  show ?thesis by (rule rows_accept [OF rows assms(2) key])
qed

lemma Edge_decode_iff:
  "Edge_UnmarshalJSON ord (JObj kvs) = Inr strct \<longleftrightarrow>
   Edge_decodes ord (map_of (rev kvs)) strct"
proof
  assume "Edge_UnmarshalJSON ord (JObj kvs) = Inr strct"
  then obtain idReceived sourceNodeIdReceived targetNodeIdReceived where
    loop: "range_loop (\<lambda>k v. switch k (Edge_cases ord v) (reject k)) (members ord kvs) (Edge_zero, False, False, False) = Inr (strct, idReceived, sourceNodeIdReceived, targetNodeIdReceived)"
    and fin: "idReceived" "sourceNodeIdReceived" "targetNodeIdReceived"
    by (auto simp: Edge_UnmarshalJSON_def members_def split: sum.splits if_splits)
  from Edge_loop_sound [OF loop] fin
  show "Edge_decodes ord (map_of (rev kvs)) strct"
    by (simp add: Edge_decodes_def)
next
  assume d: "Edge_decodes ord (map_of (rev kvs)) strct"
  have "\<exists>t. range_loop (\<lambda>k v. switch k (Edge_cases ord v) (reject k)) (members ord kvs) (Edge_zero, False, False, False) = Inr t"
  proof (rule loop_succeeds [OF Edge_regular])
    fix k v assume "(k, v) \<in> set (members ord kvs)"
    then have "map_of (rev kvs) k = Some v" by (rule member_lookup)
    from Edge_accepts [OF d this]
    show "accepting (switch k (Edge_cases ord v) (reject k))" .
  qed
  then obtain t where "range_loop (\<lambda>k v. switch k (Edge_cases ord v) (reject k)) (members ord kvs) (Edge_zero, False, False, False) = Inr t" ..
  then obtain strct' idReceived sourceNodeIdReceived targetNodeIdReceived where
    loop: "range_loop (\<lambda>k v. switch k (Edge_cases ord v) (reject k)) (members ord kvs) (Edge_zero, False, False, False) = Inr (strct', idReceived, sourceNodeIdReceived, targetNodeIdReceived)"
    by (cases t) auto
  from Edge_loop_sound [OF loop] d
  have fin: "idReceived" "sourceNodeIdReceived" "targetNodeIdReceived"
    and d': "Edge_decodes ord (map_of (rev kvs)) strct'"
    by (simp_all add: Edge_decodes_def)
  from Edge_decodes_unique [OF d' d] have "strct' = strct" .
  with loop fin show "Edge_UnmarshalJSON ord (JObj kvs) = Inr strct"
    by (simp add: Edge_UnmarshalJSON_def members_def)
qed

definition Edge_results :: "scanner \<Rightarrow> order \<Rightarrow> Edge \<Rightarrow> (string \<times> (error + json)) list" where
  "Edge_results scn ord strct =
     [(''id'', json_Marshal_string (Edge.Id strct)),
      (''label'', json_Marshal_ptr ''*sarif.Message'' (Message_MarshalJSON scn ord) (Edge.Label strct)),
      (''properties'', json_Marshal_bytes ''*sarif.PropertyBag'' (PropertyBag_MarshalJSON scn ord) (Edge.Properties strct)),
      (''sourceNodeId'', json_Marshal_string (Edge.SourceNodeId strct)),
      (''targetNodeId'', json_Marshal_string (Edge.TargetNodeId strct))]"

lemma Edge_MarshalJSON_results:
  "Edge_MarshalJSON scn ord strct = object (emit_all (Edge_results scn ord strct))"
  by (simp add: Edge_MarshalJSON_def Edge_results_def emit_nilcheck)

lemma Edge_keys_written:
  "Edge_MarshalJSON scn ord strct = Inr j \<Longrightarrow> \<exists>kvs. j = JObj kvs \<and> map fst kvs = Edge_keys"
  using keys_written [of "Edge_results scn ord strct" j]
  by (simp add: Edge_MarshalJSON_results Edge_results_def Edge_keys_def)

definition Edge_encodable :: "scanner \<Rightarrow> order \<Rightarrow> Edge \<Rightarrow> bool" where
  "Edge_encodable scn ord strct \<longleftrightarrow>
     ptr_all (Message_encodable scn ord) (Edge.Label strct) \<and>
     ptr_all (PropertyBag_encodable scn ord) (Edge.Properties strct)"

lemma Edge_fails_unless: "fails_unless (Edge_MarshalJSON scn ord) (Edge_encodable scn ord)"
  unfolding fails_unless_def Edge_MarshalJSON_results Edge_results_def Edge_encodable_def isl_object_emit_all
  by (auto simp add: always_simps
      fails_unlessD [OF fails_unless_string]
      fails_unlessD [OF fails_unless_ptr [OF Message_fails_unless]]
      fails_unlessD [OF PropertyBag_field_fails_unless])

definition Edge_valid :: "Edge \<Rightarrow> bool" where
  "Edge_valid strct \<longleftrightarrow>
     ptr_all Message_valid (Edge.Label strct) \<and>
     ptr_all PropertyBag_valid (Edge.Properties strct)"

lemma Edge_keys_distinct: "distinct Edge_keys"
  by (simp add: Edge_keys_def)

lemma Edge_round_trips:
  "round_trips_object (Edge_MarshalJSON scn ord) (Edge_UnmarshalJSON ord') Edge_valid"
  unfolding round_trips_object_def
proof (intro allI impI)
  fix strct assume v: "Edge_valid strct"
  note v' = v [unfolded Edge_valid_def]
  let ?rs = "Edge_results scn ord strct"
  let ?kvs = "map (\<lambda>e. (fst e, projr (snd e))) ?rs"
  have f0: "\<not> isl (json_Marshal_string (Edge.Id strct)) \<and>
      json_Unmarshal_string (projr (json_Marshal_string (Edge.Id strct))) = Inr (Edge.Id strct)"
    by (rule round_tripsD [OF round_trips_string]) (use v' in simp)
  have f1: "\<not> isl (json_Marshal_ptr ''*sarif.Message'' (Message_MarshalJSON scn ord) (Edge.Label strct)) \<and>
      json_Unmarshal_ptr (Message_UnmarshalJSON ord') (projr (json_Marshal_ptr ''*sarif.Message'' (Message_MarshalJSON scn ord) (Edge.Label strct))) = Inr (Edge.Label strct)"
    by (rule round_tripsD [OF round_trips_ptr [OF Message_round_trips]]) (use v' in simp)
  have f2: "\<not> isl (json_Marshal_bytes ''*sarif.PropertyBag'' (PropertyBag_MarshalJSON scn ord) (Edge.Properties strct)) \<and>
      json_Unmarshal_ptr (PropertyBag_UnmarshalJSON ord') (projr (json_Marshal_bytes ''*sarif.PropertyBag'' (PropertyBag_MarshalJSON scn ord) (Edge.Properties strct))) = Inr (Edge.Properties strct)"
    by (rule round_tripsD [OF PropertyBag_field_round_trips]) (use v' in simp)
  have f3: "\<not> isl (json_Marshal_string (Edge.SourceNodeId strct)) \<and>
      json_Unmarshal_string (projr (json_Marshal_string (Edge.SourceNodeId strct))) = Inr (Edge.SourceNodeId strct)"
    by (rule round_tripsD [OF round_trips_string]) (use v' in simp)
  have f4: "\<not> isl (json_Marshal_string (Edge.TargetNodeId strct)) \<and>
      json_Unmarshal_string (projr (json_Marshal_string (Edge.TargetNodeId strct))) = Inr (Edge.TargetNodeId strct)"
    by (rule round_tripsD [OF round_trips_string]) (use v' in simp)
  note fs = f0 f1 f2 f3 f4
  have rs: "?rs =
     [(''id'', json_Marshal_string (Edge.Id strct)),
      (''label'', json_Marshal_ptr ''*sarif.Message'' (Message_MarshalJSON scn ord) (Edge.Label strct)),
      (''properties'', json_Marshal_bytes ''*sarif.PropertyBag'' (PropertyBag_MarshalJSON scn ord) (Edge.Properties strct)),
      (''sourceNodeId'', json_Marshal_string (Edge.SourceNodeId strct)),
      (''targetNodeId'', json_Marshal_string (Edge.TargetNodeId strct))]"
    by (auto simp add: Edge_results_def)
  have keys: "map fst ?rs = Edge_keys"
    by (simp add: Edge_results_def Edge_keys_def)
  then have dist: "distinct (map fst ?rs)"
    by (simp only: Edge_keys_distinct)
  have ok: "list_all (\<lambda>e. \<not> isl (snd e)) ?rs"
    unfolding rs by (simp only: list.pred_inject snd_conv fs simp_thms)
  then have enc: "Edge_MarshalJSON scn ord strct = Inr (JObj ?kvs)"
    by (simp add: Edge_MarshalJSON_results [of scn ord strct] object_emit_all_eq_Inr)
  have l0: "map_of (rev ?kvs) ''id'' = Some (projr (json_Marshal_string (Edge.Id strct)))"
    by (rule written_lookup [OF dist]) (subst rs, intro list.set_intros)
  have l1: "map_of (rev ?kvs) ''label'' = Some (projr (json_Marshal_ptr ''*sarif.Message'' (Message_MarshalJSON scn ord) (Edge.Label strct)))"
    by (rule written_lookup [OF dist]) (subst rs, intro list.set_intros)
  have l2: "map_of (rev ?kvs) ''properties'' = Some (projr (json_Marshal_bytes ''*sarif.PropertyBag'' (PropertyBag_MarshalJSON scn ord) (Edge.Properties strct)))"
    by (rule written_lookup [OF dist]) (subst rs, intro list.set_intros)
  have l3: "map_of (rev ?kvs) ''sourceNodeId'' = Some (projr (json_Marshal_string (Edge.SourceNodeId strct)))"
    by (rule written_lookup [OF dist]) (subst rs, intro list.set_intros)
  have l4: "map_of (rev ?kvs) ''targetNodeId'' = Some (projr (json_Marshal_string (Edge.TargetNodeId strct)))"
    by (rule written_lookup [OF dist]) (subst rs, intro list.set_intros)
  have dec: "Edge_decodes ord' (map_of (rev ?kvs)) strct"
    unfolding Edge_decodes_def l0 l1 l2 l3 l4
    by (simp only: field_ok_Some fs written_dom keys subset_refl option.simps simp_thms)
  then have "Edge_UnmarshalJSON ord' (JObj ?kvs) = Inr strct"
    by (simp only: Edge_decode_iff)
  with enc show "rt_object (Edge_MarshalJSON scn ord) (Edge_UnmarshalJSON ord') strct"
    unfolding rt_object_def by blast
qed

definition Edge_small_bags :: "Edge \<Rightarrow> bool" where
  "Edge_small_bags strct \<longleftrightarrow>
     ptr_all Message_small_bags (Edge.Label strct) \<and>
     ptr_all PropertyBag_small_bags (Edge.Properties strct)"

lemma Edge_same_output:
  "same_output (Edge_MarshalJSON scn ord) (Edge_MarshalJSON scn ord') Edge_small_bags"
  unfolding same_output_def
proof (intro allI impI)
  fix strct assume v: "Edge_small_bags strct"
  note v' = v [unfolded Edge_small_bags_def]
  have e1: "json_Marshal_ptr ''*sarif.Message'' (Message_MarshalJSON scn ord) (Edge.Label strct) =
      json_Marshal_ptr ''*sarif.Message'' (Message_MarshalJSON scn ord') (Edge.Label strct)"
    by (rule same_outputD [OF same_output_ptr [OF Message_same_output]]) (use v' in simp)
  have e2: "json_Marshal_bytes ''*sarif.PropertyBag'' (PropertyBag_MarshalJSON scn ord) (Edge.Properties strct) =
      json_Marshal_bytes ''*sarif.PropertyBag'' (PropertyBag_MarshalJSON scn ord') (Edge.Properties strct)"
    by (rule same_outputD [OF PropertyBag_field_same_output]) (use v' in simp)
  show "Edge_MarshalJSON scn ord strct = Edge_MarshalJSON scn ord' strct"
    by (simp only: Edge_MarshalJSON_def e1 e2)
qed

lemma Edge_writes_keys: "writes_keys (Edge_MarshalJSON scn ord) Edge_keys"
  unfolding writes_keys_def by (intro allI impI) (erule Edge_keys_written)

lemma Edge_unknown_key:
  assumes new: "k \<notin> set Edge_keys" and key: "k \<in> fst ` set kvs"
    and rest: "Edge_UnmarshalJSON ord (JObj (filter (\<lambda>e. fst e \<noteq> k) kvs)) = Inr strct"
  shows "Edge_UnmarshalJSON ord (JObj kvs) = Inl (not_allowed k)"
proof -
  have rej: "switch k (Edge_cases ord v) (reject k) s = Inl (not_allowed k)" for v s
    by (rule switch_rejects) (simp only: Edge_cases_keys new not_False_eq_True)
  from rest obtain t where
    "range_loop (\<lambda>k v. switch k (Edge_cases ord v) (reject k)) (members ord (filter (\<lambda>e. fst e \<noteq> k) kvs)) (Edge_zero, False, False, False) = Inr t"
    by (cases "range_loop (\<lambda>k v. switch k (Edge_cases ord v) (reject k)) (members ord (filter (\<lambda>e. fst e \<noteq> k) kvs)) (Edge_zero, False, False, False)")
       (simp_all add: Edge_UnmarshalJSON_def members_def)
  from unknown_key_named [OF Edge_regular rej key this]
  show ?thesis by (simp add: Edge_UnmarshalJSON_def members_def)
qed

lemma Edge_unknown_key_fails:
  assumes "k \<notin> set Edge_keys" and "k \<in> fst ` set kvs"
  shows "isl (Edge_UnmarshalJSON ord (JObj kvs))"
proof (cases "Edge_UnmarshalJSON ord (JObj kvs)")
  case (Inr strct)
  then have "dom (map_of (rev kvs)) \<subseteq> set Edge_keys"
    by (simp only: Edge_decode_iff Edge_decodesD(1))
  with assms show ?thesis by (auto simp: dom_map_of_conv_image_fst)
qed simp

lemma Edge_required_present:
  assumes "Edge_UnmarshalJSON ord (JObj kvs) = Inr strct"
  shows "''id'' \<in> fst ` set kvs"
    and "''sourceNodeId'' \<in> fst ` set kvs"
    and "''targetNodeId'' \<in> fst ` set kvs"
proof -
  from assms have d: "Edge_decodes ord (map_of (rev kvs)) strct" by (simp only: Edge_decode_iff)
  show "''id'' \<in> fst ` set kvs"
    and "''sourceNodeId'' \<in> fst ` set kvs"
    and "''targetNodeId'' \<in> fst ` set kvs"
    using Edge_decodesD(7) [OF d] Edge_decodesD(8) [OF d] Edge_decodesD(9) [OF d]
    by (simp_all only: present_key)
qed

lemma Edge_without_Id:
  assumes "Edge_UnmarshalJSON ord (JObj kvs) = Inr strct"
  shows "Edge_UnmarshalJSON ord (JObj (filter (\<lambda>e. fst e \<noteq> ''id'') kvs)) =
    Inl (RequiredNotPresent ''id'')"
proof -
  from assms have d: "Edge_decodes ord (map_of (rev kvs)) strct" by (simp only: Edge_decode_iff)
  have "\<exists>t. range_loop (\<lambda>k v. switch k (Edge_cases ord v) (reject k)) (members ord (filter (\<lambda>e. fst e \<noteq> ''id'') kvs))
      (Edge_zero, False, False, False) = Inr t"
  proof (rule loop_succeeds [OF Edge_regular])
    fix k v assume "(k, v) \<in> set (members ord (filter (\<lambda>e. fst e \<noteq> ''id'') kvs))"
    then have "map_of (rev kvs) k = Some v" by (rule member_lookup_filter)
    from Edge_accepts [OF d this]
    show "accepting (switch k (Edge_cases ord v) (reject k))" .
  qed
  then obtain t where "range_loop (\<lambda>k v. switch k (Edge_cases ord v) (reject k)) (members ord (filter (\<lambda>e. fst e \<noteq> ''id'') kvs))
      (Edge_zero, False, False, False) = Inr t" ..
  then obtain strct' idReceived sourceNodeIdReceived targetNodeIdReceived where
    loop: "range_loop (\<lambda>k v. switch k (Edge_cases ord v) (reject k)) (members ord (filter (\<lambda>e. fst e \<noteq> ''id'') kvs))
      (Edge_zero, False, False, False) = Inr (strct', idReceived, sourceNodeIdReceived, targetNodeIdReceived)"
    by (cases t) auto
  from Edge_loop_sound [OF loop] Edge_decodesD(7) [OF d] Edge_decodesD(8) [OF d] Edge_decodesD(9) [OF d]
  have "\<not> idReceived" "sourceNodeIdReceived" "targetNodeIdReceived"
    by (simp_all add: lookup_filter)
  with loop show ?thesis
    by (simp add: Edge_UnmarshalJSON_def members_def)
qed

lemma Edge_without_SourceNodeId:
  assumes "Edge_UnmarshalJSON ord (JObj kvs) = Inr strct"
  shows "Edge_UnmarshalJSON ord (JObj (filter (\<lambda>e. fst e \<noteq> ''sourceNodeId'') kvs)) =
    Inl (RequiredNotPresent ''sourceNodeId'')"
proof -
  from assms have d: "Edge_decodes ord (map_of (rev kvs)) strct" by (simp only: Edge_decode_iff)
  have "\<exists>t. range_loop (\<lambda>k v. switch k (Edge_cases ord v) (reject k)) (members ord (filter (\<lambda>e. fst e \<noteq> ''sourceNodeId'') kvs))
      (Edge_zero, False, False, False) = Inr t"
  proof (rule loop_succeeds [OF Edge_regular])
    fix k v assume "(k, v) \<in> set (members ord (filter (\<lambda>e. fst e \<noteq> ''sourceNodeId'') kvs))"
    then have "map_of (rev kvs) k = Some v" by (rule member_lookup_filter)
    from Edge_accepts [OF d this]
    show "accepting (switch k (Edge_cases ord v) (reject k))" .
  qed
  then obtain t where "range_loop (\<lambda>k v. switch k (Edge_cases ord v) (reject k)) (members ord (filter (\<lambda>e. fst e \<noteq> ''sourceNodeId'') kvs))
      (Edge_zero, False, False, False) = Inr t" ..
  then obtain strct' idReceived sourceNodeIdReceived targetNodeIdReceived where
    loop: "range_loop (\<lambda>k v. switch k (Edge_cases ord v) (reject k)) (members ord (filter (\<lambda>e. fst e \<noteq> ''sourceNodeId'') kvs))
      (Edge_zero, False, False, False) = Inr (strct', idReceived, sourceNodeIdReceived, targetNodeIdReceived)"
    by (cases t) auto
  from Edge_loop_sound [OF loop] Edge_decodesD(7) [OF d] Edge_decodesD(8) [OF d] Edge_decodesD(9) [OF d]
  have "idReceived" "\<not> sourceNodeIdReceived" "targetNodeIdReceived"
    by (simp_all add: lookup_filter)
  with loop show ?thesis
    by (simp add: Edge_UnmarshalJSON_def members_def)
qed

lemma Edge_without_TargetNodeId:
  assumes "Edge_UnmarshalJSON ord (JObj kvs) = Inr strct"
  shows "Edge_UnmarshalJSON ord (JObj (filter (\<lambda>e. fst e \<noteq> ''targetNodeId'') kvs)) =
    Inl (RequiredNotPresent ''targetNodeId'')"
proof -
  from assms have d: "Edge_decodes ord (map_of (rev kvs)) strct" by (simp only: Edge_decode_iff)
  have "\<exists>t. range_loop (\<lambda>k v. switch k (Edge_cases ord v) (reject k)) (members ord (filter (\<lambda>e. fst e \<noteq> ''targetNodeId'') kvs))
      (Edge_zero, False, False, False) = Inr t"
  proof (rule loop_succeeds [OF Edge_regular])
    fix k v assume "(k, v) \<in> set (members ord (filter (\<lambda>e. fst e \<noteq> ''targetNodeId'') kvs))"
    then have "map_of (rev kvs) k = Some v" by (rule member_lookup_filter)
    from Edge_accepts [OF d this]
    show "accepting (switch k (Edge_cases ord v) (reject k))" .
  qed
  then obtain t where "range_loop (\<lambda>k v. switch k (Edge_cases ord v) (reject k)) (members ord (filter (\<lambda>e. fst e \<noteq> ''targetNodeId'') kvs))
      (Edge_zero, False, False, False) = Inr t" ..
  then obtain strct' idReceived sourceNodeIdReceived targetNodeIdReceived where
    loop: "range_loop (\<lambda>k v. switch k (Edge_cases ord v) (reject k)) (members ord (filter (\<lambda>e. fst e \<noteq> ''targetNodeId'') kvs))
      (Edge_zero, False, False, False) = Inr (strct', idReceived, sourceNodeIdReceived, targetNodeIdReceived)"
    by (cases t) auto
  from Edge_loop_sound [OF loop] Edge_decodesD(7) [OF d] Edge_decodesD(8) [OF d] Edge_decodesD(9) [OF d]
  have "idReceived" "sourceNodeIdReceived" "\<not> targetNodeIdReceived"
    by (simp_all add: lookup_filter)
  with loop show ?thesis
    by (simp add: Edge_UnmarshalJSON_def members_def)
qed




lemma Edge_rejects_unknown_keys: "rejects_unknown_keys (Edge_UnmarshalJSON ord) Edge_keys"
  by (rule rejects_unknown_keysI) (erule (1) Edge_unknown_key_fails, erule (2) Edge_unknown_key)

lemma Edge_requires_Id: "requires_key (Edge_UnmarshalJSON ord) ''id''"
  by (rule requires_keyI) (erule Edge_required_present(1), erule Edge_without_Id)


lemma Edge_requires_SourceNodeId: "requires_key (Edge_UnmarshalJSON ord) ''sourceNodeId''"
  by (rule requires_keyI) (erule Edge_required_present(2), erule Edge_without_SourceNodeId)


lemma Edge_requires_TargetNodeId: "requires_key (Edge_UnmarshalJSON ord) ''targetNodeId''"
  by (rule requires_keyI) (erule Edge_required_present(3), erule Edge_without_TargetNodeId)


subsection \<open>EdgeTraversal: decoding and encoding\<close>

definition EdgeTraversal_keys :: "string list" where
  "EdgeTraversal_keys = [''edgeId'', ''finalState'', ''message'', ''properties'', ''stepOverEdgeCount'']"

definition EdgeTraversal_decodes :: "order \<Rightarrow> (string \<rightharpoonup> json) \<Rightarrow> EdgeTraversal \<Rightarrow> bool" where
  "EdgeTraversal_decodes ord m strct \<longleftrightarrow>
     dom m \<subseteq> set EdgeTraversal_keys \<and>
     field_ok json_Unmarshal_string (m ''edgeId'') [] (EdgeTraversal.EdgeId strct) \<and>
     field_ok (json_Unmarshal_map (json_Unmarshal_ptr (MultiformatMessageString_UnmarshalJSON ord))) (m ''finalState'') None (EdgeTraversal.FinalState strct) \<and>
     field_ok (json_Unmarshal_ptr (Message_UnmarshalJSON ord)) (m ''message'') None (EdgeTraversal.Message strct) \<and>
     field_ok (json_Unmarshal_ptr (PropertyBag_UnmarshalJSON ord)) (m ''properties'') None (EdgeTraversal.Properties strct) \<and>
     field_ok json_Unmarshal_int (m ''stepOverEdgeCount'') 0 (EdgeTraversal.StepOverEdgeCount strct) \<and>
     m ''edgeId'' \<noteq> None"

lemma EdgeTraversal_cases_keys: "fst ` set (EdgeTraversal_cases ord v) = set EdgeTraversal_keys"
  by (rule keys_image) (simp add: EdgeTraversal_cases_def EdgeTraversal_keys_def)

lemma EdgeTraversal_regular: "regular (\<lambda>k v. switch k (EdgeTraversal_cases ord v) (reject k))"
  by (rule regular_switch) (simp add: EdgeTraversal_cases_def)

lemma EdgeTraversal_fields:
  "field_case (EdgeTraversal_cases ord) (\<lambda>(strct, edgeIdReceived). EdgeTraversal.EdgeId strct) ''edgeId'' json_Unmarshal_string"
  "field_case (EdgeTraversal_cases ord) (\<lambda>(strct, edgeIdReceived). EdgeTraversal.FinalState strct) ''finalState'' (json_Unmarshal_map (json_Unmarshal_ptr (MultiformatMessageString_UnmarshalJSON ord)))"
  "field_case (EdgeTraversal_cases ord) (\<lambda>(strct, edgeIdReceived). EdgeTraversal.Message strct) ''message'' (json_Unmarshal_ptr (Message_UnmarshalJSON ord))"
  "field_case (EdgeTraversal_cases ord) (\<lambda>(strct, edgeIdReceived). EdgeTraversal.Properties strct) ''properties'' (json_Unmarshal_ptr (PropertyBag_UnmarshalJSON ord))"
  "field_case (EdgeTraversal_cases ord) (\<lambda>(strct, edgeIdReceived). EdgeTraversal.StepOverEdgeCount strct) ''stepOverEdgeCount'' json_Unmarshal_int"
  "field_case (EdgeTraversal_cases ord) (\<lambda>(strct, edgeIdReceived). edgeIdReceived) ''edgeId'' (received json_Unmarshal_string)"
  unfolding field_case_def EdgeTraversal_cases_def
  by (simp_all add: writes_into writes_received keeps_into split_def)

lemma EdgeTraversal_loop_sound:
  assumes loop: "range_loop (\<lambda>k v. switch k (EdgeTraversal_cases ord v) (reject k)) (members ord kvs) (EdgeTraversal_zero, False) = Inr (strct, edgeIdReceived)"
  shows "dom (map_of (rev kvs)) \<subseteq> set EdgeTraversal_keys \<and>
     field_ok json_Unmarshal_string (map_of (rev kvs) ''edgeId'') [] (EdgeTraversal.EdgeId strct) \<and>
     field_ok (json_Unmarshal_map (json_Unmarshal_ptr (MultiformatMessageString_UnmarshalJSON ord))) (map_of (rev kvs) ''finalState'') None (EdgeTraversal.FinalState strct) \<and>
     field_ok (json_Unmarshal_ptr (Message_UnmarshalJSON ord)) (map_of (rev kvs) ''message'') None (EdgeTraversal.Message strct) \<and>
     field_ok (json_Unmarshal_ptr (PropertyBag_UnmarshalJSON ord)) (map_of (rev kvs) ''properties'') None (EdgeTraversal.Properties strct) \<and>
     field_ok json_Unmarshal_int (map_of (rev kvs) ''stepOverEdgeCount'') 0 (EdgeTraversal.StepOverEdgeCount strct) \<and>
     (edgeIdReceived \<longleftrightarrow> map_of (rev kvs) ''edgeId'' \<noteq> None)"
proof -
  have "fst ` set (members ord kvs) \<subseteq> set EdgeTraversal_keys"
    by (rule loop_keys_known [OF loop]) (rule EdgeTraversal_cases_keys)
  then have keys: "dom (map_of (rev kvs)) \<subseteq> set EdgeTraversal_keys"
    by (simp add: dom_members [of kvs ord])
  note fld = field_after_loop [OF _ members_distinct loop, unfolded map_of_members]
  note flg = flag_after_loop [OF _ members_distinct loop, unfolded map_of_members]
  show ?thesis
    using keys fld [OF EdgeTraversal_fields(1)] fld [OF EdgeTraversal_fields(2)] fld [OF EdgeTraversal_fields(3)] fld [OF EdgeTraversal_fields(4)] fld [OF EdgeTraversal_fields(5)] flg [OF EdgeTraversal_fields(6)]
    by (simp only: prod.case EdgeTraversal_zero_def EdgeTraversal.select_convs simp_thms)
qed

lemma EdgeTraversal_decodesD:
  assumes "EdgeTraversal_decodes ord m strct"
  shows "dom m \<subseteq> set EdgeTraversal_keys"
    and "field_ok json_Unmarshal_string (m ''edgeId'') [] (EdgeTraversal.EdgeId strct)"
    and "field_ok (json_Unmarshal_map (json_Unmarshal_ptr (MultiformatMessageString_UnmarshalJSON ord))) (m ''finalState'') None (EdgeTraversal.FinalState strct)"
    and "field_ok (json_Unmarshal_ptr (Message_UnmarshalJSON ord)) (m ''message'') None (EdgeTraversal.Message strct)"
    and "field_ok (json_Unmarshal_ptr (PropertyBag_UnmarshalJSON ord)) (m ''properties'') None (EdgeTraversal.Properties strct)"
    and "field_ok json_Unmarshal_int (m ''stepOverEdgeCount'') 0 (EdgeTraversal.StepOverEdgeCount strct)"
    and "m ''edgeId'' \<noteq> None"
  using assms unfolding EdgeTraversal_decodes_def by - (elim conjE, assumption)+

lemma EdgeTraversal_decodes_unique:
  assumes "EdgeTraversal_decodes ord m a" and "EdgeTraversal_decodes ord m b"
  shows "a = b"
  apply (rule EdgeTraversal.equality)
  apply (rule field_ok_unique [OF EdgeTraversal_decodesD(2) [OF assms(1)] EdgeTraversal_decodesD(2) [OF assms(2)]])
  apply (rule field_ok_unique [OF EdgeTraversal_decodesD(3) [OF assms(1)] EdgeTraversal_decodesD(3) [OF assms(2)]])
  apply (rule field_ok_unique [OF EdgeTraversal_decodesD(4) [OF assms(1)] EdgeTraversal_decodesD(4) [OF assms(2)]])
  apply (rule field_ok_unique [OF EdgeTraversal_decodesD(5) [OF assms(1)] EdgeTraversal_decodesD(5) [OF assms(2)]])
  apply (rule field_ok_unique [OF EdgeTraversal_decodesD(6) [OF assms(1)] EdgeTraversal_decodesD(6) [OF assms(2)]])
  apply simp
  done

lemma EdgeTraversal_accepts:
  assumes "EdgeTraversal_decodes ord m strct" and "m k = Some v"
  shows "accepting (switch k (EdgeTraversal_cases ord v) (reject k))"
proof -
  from assms have "k \<in> set EdgeTraversal_keys" by (auto simp: EdgeTraversal_decodes_def)
  then have key: "k \<in> fst ` set (EdgeTraversal_cases ord v)"
    by (simp only: EdgeTraversal_cases_keys)
  have rows: "list_all (\<lambda>(c, h). m c = Some v \<longrightarrow> accepting h) (EdgeTraversal_cases ord v)"
    unfolding EdgeTraversal_cases_def list.pred_inject
    apply (rule conjI [OF accept_row [where m = m and v = v, OF EdgeTraversal_decodesD(2) [OF assms(1)]]])
    apply (rule conjI [OF accept_row [where m = m and v = v, OF EdgeTraversal_decodesD(3) [OF assms(1)]]])
    apply (rule conjI [OF accept_row [where m = m and v = v, OF EdgeTraversal_decodesD(4) [OF assms(1)]]])
    apply (rule conjI [OF accept_row [where m = m and v = v, OF EdgeTraversal_decodesD(5) [OF assms(1)]]])
    apply (rule conjI [OF accept_row [where m = m and v = v, OF EdgeTraversal_decodesD(6) [OF assms(1)]]])
    apply simp
    done
  show ?thesis by (rule rows_accept [OF rows assms(2) key])
qed

lemma EdgeTraversal_decode_iff:
  "EdgeTraversal_UnmarshalJSON ord (JObj kvs) = Inr strct \<longleftrightarrow>
   EdgeTraversal_decodes ord (map_of (rev kvs)) strct"
proof
  assume "EdgeTraversal_UnmarshalJSON ord (JObj kvs) = Inr strct"
  then obtain edgeIdReceived where
    loop: "range_loop (\<lambda>k v. switch k (EdgeTraversal_cases ord v) (reject k)) (members ord kvs) (EdgeTraversal_zero, False) = Inr (strct, edgeIdReceived)"
    and fin: "edgeIdReceived"
    by (auto simp: EdgeTraversal_UnmarshalJSON_def members_def split: sum.splits if_splits)
  from EdgeTraversal_loop_sound [OF loop] fin
  show "EdgeTraversal_decodes ord (map_of (rev kvs)) strct"
    by (simp add: EdgeTraversal_decodes_def)
next
  assume d: "EdgeTraversal_decodes ord (map_of (rev kvs)) strct"
  have "\<exists>t. range_loop (\<lambda>k v. switch k (EdgeTraversal_cases ord v) (reject k)) (members ord kvs) (EdgeTraversal_zero, False) = Inr t"
  proof (rule loop_succeeds [OF EdgeTraversal_regular])
    fix k v assume "(k, v) \<in> set (members ord kvs)"
    then have "map_of (rev kvs) k = Some v" by (rule member_lookup)
    from EdgeTraversal_accepts [OF d this]
    show "accepting (switch k (EdgeTraversal_cases ord v) (reject k))" .
  qed
  then obtain t where "range_loop (\<lambda>k v. switch k (EdgeTraversal_cases ord v) (reject k)) (members ord kvs) (EdgeTraversal_zero, False) = Inr t" ..
  then obtain strct' edgeIdReceived where
    loop: "range_loop (\<lambda>k v. switch k (EdgeTraversal_cases ord v) (reject k)) (members ord kvs) (EdgeTraversal_zero, False) = Inr (strct', edgeIdReceived)"
    by (cases t) auto
  from EdgeTraversal_loop_sound [OF loop] d
  have fin: "edgeIdReceived"
    and d': "EdgeTraversal_decodes ord (map_of (rev kvs)) strct'"
    by (simp_all add: EdgeTraversal_decodes_def)
  from EdgeTraversal_decodes_unique [OF d' d] have "strct' = strct" .
  with loop fin show "EdgeTraversal_UnmarshalJSON ord (JObj kvs) = Inr strct"
    by (simp add: EdgeTraversal_UnmarshalJSON_def members_def)
qed

definition EdgeTraversal_results :: "scanner \<Rightarrow> order \<Rightarrow> EdgeTraversal \<Rightarrow> (string \<times> (error + json)) list" where
  "EdgeTraversal_results scn ord strct =
     [(''edgeId'', json_Marshal_string (EdgeTraversal.EdgeId strct)),
      (''finalState'', json_Marshal_map (json_Marshal_ptr ''*sarif.MultiformatMessageString'' (MultiformatMessageString_MarshalJSON scn ord)) (EdgeTraversal.FinalState strct)),
      (''message'', json_Marshal_ptr ''*sarif.Message'' (Message_MarshalJSON scn ord) (EdgeTraversal.Message strct)),
      (''properties'', json_Marshal_bytes ''*sarif.PropertyBag'' (PropertyBag_MarshalJSON scn ord) (EdgeTraversal.Properties strct)),
      (''stepOverEdgeCount'', json_Marshal_int (EdgeTraversal.StepOverEdgeCount strct))]"

lemma EdgeTraversal_MarshalJSON_results:
  "EdgeTraversal_MarshalJSON scn ord strct = object (emit_all (EdgeTraversal_results scn ord strct))"
  by (simp add: EdgeTraversal_MarshalJSON_def EdgeTraversal_results_def emit_nilcheck)

lemma EdgeTraversal_keys_written:
  "EdgeTraversal_MarshalJSON scn ord strct = Inr j \<Longrightarrow> \<exists>kvs. j = JObj kvs \<and> map fst kvs = EdgeTraversal_keys"
  using keys_written [of "EdgeTraversal_results scn ord strct" j]
  by (simp add: EdgeTraversal_MarshalJSON_results EdgeTraversal_results_def EdgeTraversal_keys_def)

definition EdgeTraversal_encodable :: "scanner \<Rightarrow> order \<Rightarrow> EdgeTraversal \<Rightarrow> bool" where
  "EdgeTraversal_encodable scn ord strct \<longleftrightarrow>
     map_all (ptr_all (MultiformatMessageString_encodable scn ord)) (EdgeTraversal.FinalState strct) \<and>
     ptr_all (Message_encodable scn ord) (EdgeTraversal.Message strct) \<and>
     ptr_all (PropertyBag_encodable scn ord) (EdgeTraversal.Properties strct)"

lemma EdgeTraversal_fails_unless: "fails_unless (EdgeTraversal_MarshalJSON scn ord) (EdgeTraversal_encodable scn ord)"
  unfolding fails_unless_def EdgeTraversal_MarshalJSON_results EdgeTraversal_results_def EdgeTraversal_encodable_def isl_object_emit_all
  by (auto simp add: always_simps
      fails_unlessD [OF fails_unless_string]
      fails_unlessD [OF fails_unless_map [OF fails_unless_ptr [OF MultiformatMessageString_fails_unless]]]
      fails_unlessD [OF fails_unless_ptr [OF Message_fails_unless]]
      fails_unlessD [OF PropertyBag_field_fails_unless]
      fails_unlessD [OF fails_unless_int])

definition EdgeTraversal_valid :: "EdgeTraversal \<Rightarrow> bool" where
  "EdgeTraversal_valid strct \<longleftrightarrow>
     map_valid (ptr_all MultiformatMessageString_valid) (EdgeTraversal.FinalState strct) \<and>
     ptr_all Message_valid (EdgeTraversal.Message strct) \<and>
     ptr_all PropertyBag_valid (EdgeTraversal.Properties strct)"

lemma EdgeTraversal_keys_distinct: "distinct EdgeTraversal_keys"
  by (simp add: EdgeTraversal_keys_def)

lemma EdgeTraversal_round_trips:
  "round_trips_object (EdgeTraversal_MarshalJSON scn ord) (EdgeTraversal_UnmarshalJSON ord') EdgeTraversal_valid"
  unfolding round_trips_object_def
proof (intro allI impI)
  fix strct assume v: "EdgeTraversal_valid strct"
  note v' = v [unfolded EdgeTraversal_valid_def]
  let ?rs = "EdgeTraversal_results scn ord strct"
  let ?kvs = "map (\<lambda>e. (fst e, projr (snd e))) ?rs"
  have f0: "\<not> isl (json_Marshal_string (EdgeTraversal.EdgeId strct)) \<and>
      json_Unmarshal_string (projr (json_Marshal_string (EdgeTraversal.EdgeId strct))) = Inr (EdgeTraversal.EdgeId strct)"
    by (rule round_tripsD [OF round_trips_string]) (use v' in simp)
  have f1: "\<not> isl (json_Marshal_map (json_Marshal_ptr ''*sarif.MultiformatMessageString'' (MultiformatMessageString_MarshalJSON scn ord)) (EdgeTraversal.FinalState strct)) \<and>
      json_Unmarshal_map (json_Unmarshal_ptr (MultiformatMessageString_UnmarshalJSON ord')) (projr (json_Marshal_map (json_Marshal_ptr ''*sarif.MultiformatMessageString'' (MultiformatMessageString_MarshalJSON scn ord)) (EdgeTraversal.FinalState strct))) = Inr (EdgeTraversal.FinalState strct)"
    by (rule round_tripsD [OF round_trips_map [OF round_trips_ptr [OF MultiformatMessageString_round_trips]]]) (use v' in simp)
  have f2: "\<not> isl (json_Marshal_ptr ''*sarif.Message'' (Message_MarshalJSON scn ord) (EdgeTraversal.Message strct)) \<and>
      json_Unmarshal_ptr (Message_UnmarshalJSON ord') (projr (json_Marshal_ptr ''*sarif.Message'' (Message_MarshalJSON scn ord) (EdgeTraversal.Message strct))) = Inr (EdgeTraversal.Message strct)"
    by (rule round_tripsD [OF round_trips_ptr [OF Message_round_trips]]) (use v' in simp)
  have f3: "\<not> isl (json_Marshal_bytes ''*sarif.PropertyBag'' (PropertyBag_MarshalJSON scn ord) (EdgeTraversal.Properties strct)) \<and>
      json_Unmarshal_ptr (PropertyBag_UnmarshalJSON ord') (projr (json_Marshal_bytes ''*sarif.PropertyBag'' (PropertyBag_MarshalJSON scn ord) (EdgeTraversal.Properties strct))) = Inr (EdgeTraversal.Properties strct)"
    by (rule round_tripsD [OF PropertyBag_field_round_trips]) (use v' in simp)
  have f4: "\<not> isl (json_Marshal_int (EdgeTraversal.StepOverEdgeCount strct)) \<and>
      json_Unmarshal_int (projr (json_Marshal_int (EdgeTraversal.StepOverEdgeCount strct))) = Inr (EdgeTraversal.StepOverEdgeCount strct)"
    by (rule round_tripsD [OF round_trips_int]) (use v' in simp)
  note fs = f0 f1 f2 f3 f4
  have rs: "?rs =
     [(''edgeId'', json_Marshal_string (EdgeTraversal.EdgeId strct)),
      (''finalState'', json_Marshal_map (json_Marshal_ptr ''*sarif.MultiformatMessageString'' (MultiformatMessageString_MarshalJSON scn ord)) (EdgeTraversal.FinalState strct)),
      (''message'', json_Marshal_ptr ''*sarif.Message'' (Message_MarshalJSON scn ord) (EdgeTraversal.Message strct)),
      (''properties'', json_Marshal_bytes ''*sarif.PropertyBag'' (PropertyBag_MarshalJSON scn ord) (EdgeTraversal.Properties strct)),
      (''stepOverEdgeCount'', json_Marshal_int (EdgeTraversal.StepOverEdgeCount strct))]"
    by (auto simp add: EdgeTraversal_results_def)
  have keys: "map fst ?rs = EdgeTraversal_keys"
    by (simp add: EdgeTraversal_results_def EdgeTraversal_keys_def)
  then have dist: "distinct (map fst ?rs)"
    by (simp only: EdgeTraversal_keys_distinct)
  have ok: "list_all (\<lambda>e. \<not> isl (snd e)) ?rs"
    unfolding rs by (simp only: list.pred_inject snd_conv fs simp_thms)
  then have enc: "EdgeTraversal_MarshalJSON scn ord strct = Inr (JObj ?kvs)"
    by (simp add: EdgeTraversal_MarshalJSON_results [of scn ord strct] object_emit_all_eq_Inr)
  have l0: "map_of (rev ?kvs) ''edgeId'' = Some (projr (json_Marshal_string (EdgeTraversal.EdgeId strct)))"
    by (rule written_lookup [OF dist]) (subst rs, intro list.set_intros)
  have l1: "map_of (rev ?kvs) ''finalState'' = Some (projr (json_Marshal_map (json_Marshal_ptr ''*sarif.MultiformatMessageString'' (MultiformatMessageString_MarshalJSON scn ord)) (EdgeTraversal.FinalState strct)))"
    by (rule written_lookup [OF dist]) (subst rs, intro list.set_intros)
  have l2: "map_of (rev ?kvs) ''message'' = Some (projr (json_Marshal_ptr ''*sarif.Message'' (Message_MarshalJSON scn ord) (EdgeTraversal.Message strct)))"
    by (rule written_lookup [OF dist]) (subst rs, intro list.set_intros)
  have l3: "map_of (rev ?kvs) ''properties'' = Some (projr (json_Marshal_bytes ''*sarif.PropertyBag'' (PropertyBag_MarshalJSON scn ord) (EdgeTraversal.Properties strct)))"
    by (rule written_lookup [OF dist]) (subst rs, intro list.set_intros)
  have l4: "map_of (rev ?kvs) ''stepOverEdgeCount'' = Some (projr (json_Marshal_int (EdgeTraversal.StepOverEdgeCount strct)))"
    by (rule written_lookup [OF dist]) (subst rs, intro list.set_intros)
  have dec: "EdgeTraversal_decodes ord' (map_of (rev ?kvs)) strct"
    unfolding EdgeTraversal_decodes_def l0 l1 l2 l3 l4
    by (simp only: field_ok_Some fs written_dom keys subset_refl option.simps simp_thms)
  then have "EdgeTraversal_UnmarshalJSON ord' (JObj ?kvs) = Inr strct"
    by (simp only: EdgeTraversal_decode_iff)
  with enc show "rt_object (EdgeTraversal_MarshalJSON scn ord) (EdgeTraversal_UnmarshalJSON ord') strct"
    unfolding rt_object_def by blast
qed

definition EdgeTraversal_small_bags :: "EdgeTraversal \<Rightarrow> bool" where
  "EdgeTraversal_small_bags strct \<longleftrightarrow>
     map_all (ptr_all MultiformatMessageString_small_bags) (EdgeTraversal.FinalState strct) \<and>
     ptr_all Message_small_bags (EdgeTraversal.Message strct) \<and>
     ptr_all PropertyBag_small_bags (EdgeTraversal.Properties strct)"

lemma EdgeTraversal_same_output:
  "same_output (EdgeTraversal_MarshalJSON scn ord) (EdgeTraversal_MarshalJSON scn ord') EdgeTraversal_small_bags"
  unfolding same_output_def
proof (intro allI impI)
  fix strct assume v: "EdgeTraversal_small_bags strct"
  note v' = v [unfolded EdgeTraversal_small_bags_def]
  have e1: "json_Marshal_map (json_Marshal_ptr ''*sarif.MultiformatMessageString'' (MultiformatMessageString_MarshalJSON scn ord)) (EdgeTraversal.FinalState strct) =
      json_Marshal_map (json_Marshal_ptr ''*sarif.MultiformatMessageString'' (MultiformatMessageString_MarshalJSON scn ord')) (EdgeTraversal.FinalState strct)"
    by (rule same_outputD [OF same_output_map [OF same_output_ptr [OF MultiformatMessageString_same_output]]]) (use v' in simp)
  have e2: "json_Marshal_ptr ''*sarif.Message'' (Message_MarshalJSON scn ord) (EdgeTraversal.Message strct) =
      json_Marshal_ptr ''*sarif.Message'' (Message_MarshalJSON scn ord') (EdgeTraversal.Message strct)"
    by (rule same_outputD [OF same_output_ptr [OF Message_same_output]]) (use v' in simp)
  have e3: "json_Marshal_bytes ''*sarif.PropertyBag'' (PropertyBag_MarshalJSON scn ord) (EdgeTraversal.Properties strct) =
      json_Marshal_bytes ''*sarif.PropertyBag'' (PropertyBag_MarshalJSON scn ord') (EdgeTraversal.Properties strct)"
    by (rule same_outputD [OF PropertyBag_field_same_output]) (use v' in simp)
  show "EdgeTraversal_MarshalJSON scn ord strct = EdgeTraversal_MarshalJSON scn ord' strct"
    by (simp only: EdgeTraversal_MarshalJSON_def e1 e2 e3)
qed

lemma EdgeTraversal_writes_keys: "writes_keys (EdgeTraversal_MarshalJSON scn ord) EdgeTraversal_keys"
  unfolding writes_keys_def by (intro allI impI) (erule EdgeTraversal_keys_written)

lemma EdgeTraversal_unknown_key:
  assumes new: "k \<notin> set EdgeTraversal_keys" and key: "k \<in> fst ` set kvs"
    and rest: "EdgeTraversal_UnmarshalJSON ord (JObj (filter (\<lambda>e. fst e \<noteq> k) kvs)) = Inr strct"
  shows "EdgeTraversal_UnmarshalJSON ord (JObj kvs) = Inl (not_allowed k)"
proof -
  have rej: "switch k (EdgeTraversal_cases ord v) (reject k) s = Inl (not_allowed k)" for v s
    by (rule switch_rejects) (simp only: EdgeTraversal_cases_keys new not_False_eq_True)
  from rest obtain t where
    "range_loop (\<lambda>k v. switch k (EdgeTraversal_cases ord v) (reject k)) (members ord (filter (\<lambda>e. fst e \<noteq> k) kvs)) (EdgeTraversal_zero, False) = Inr t"
    by (cases "range_loop (\<lambda>k v. switch k (EdgeTraversal_cases ord v) (reject k)) (members ord (filter (\<lambda>e. fst e \<noteq> k) kvs)) (EdgeTraversal_zero, False)")
       (simp_all add: EdgeTraversal_UnmarshalJSON_def members_def)
  from unknown_key_named [OF EdgeTraversal_regular rej key this]
  show ?thesis by (simp add: EdgeTraversal_UnmarshalJSON_def members_def)
qed

lemma EdgeTraversal_unknown_key_fails:
  assumes "k \<notin> set EdgeTraversal_keys" and "k \<in> fst ` set kvs"
  shows "isl (EdgeTraversal_UnmarshalJSON ord (JObj kvs))"
proof (cases "EdgeTraversal_UnmarshalJSON ord (JObj kvs)")
  case (Inr strct)
  then have "dom (map_of (rev kvs)) \<subseteq> set EdgeTraversal_keys"
    by (simp only: EdgeTraversal_decode_iff EdgeTraversal_decodesD(1))
  with assms show ?thesis by (auto simp: dom_map_of_conv_image_fst)
qed simp

lemma EdgeTraversal_required_present:
  assumes "EdgeTraversal_UnmarshalJSON ord (JObj kvs) = Inr strct"
  shows "''edgeId'' \<in> fst ` set kvs"
proof -
  from assms have d: "EdgeTraversal_decodes ord (map_of (rev kvs)) strct" by (simp only: EdgeTraversal_decode_iff)
  show "''edgeId'' \<in> fst ` set kvs"
    using EdgeTraversal_decodesD(7) [OF d]
    by (simp_all only: present_key)
qed

lemma EdgeTraversal_without_EdgeId:
  assumes "EdgeTraversal_UnmarshalJSON ord (JObj kvs) = Inr strct"
  shows "EdgeTraversal_UnmarshalJSON ord (JObj (filter (\<lambda>e. fst e \<noteq> ''edgeId'') kvs)) =
    Inl (RequiredNotPresent ''edgeId'')"
proof -
  from assms have d: "EdgeTraversal_decodes ord (map_of (rev kvs)) strct" by (simp only: EdgeTraversal_decode_iff)
  have "\<exists>t. range_loop (\<lambda>k v. switch k (EdgeTraversal_cases ord v) (reject k)) (members ord (filter (\<lambda>e. fst e \<noteq> ''edgeId'') kvs))
      (EdgeTraversal_zero, False) = Inr t"
  proof (rule loop_succeeds [OF EdgeTraversal_regular])
    fix k v assume "(k, v) \<in> set (members ord (filter (\<lambda>e. fst e \<noteq> ''edgeId'') kvs))"
    then have "map_of (rev kvs) k = Some v" by (rule member_lookup_filter)
    from EdgeTraversal_accepts [OF d this]
    show "accepting (switch k (EdgeTraversal_cases ord v) (reject k))" .
  qed
  then obtain t where "range_loop (\<lambda>k v. switch k (EdgeTraversal_cases ord v) (reject k)) (members ord (filter (\<lambda>e. fst e \<noteq> ''edgeId'') kvs))
      (EdgeTraversal_zero, False) = Inr t" ..
  then obtain strct' edgeIdReceived where
    loop: "range_loop (\<lambda>k v. switch k (EdgeTraversal_cases ord v) (reject k)) (members ord (filter (\<lambda>e. fst e \<noteq> ''edgeId'') kvs))
      (EdgeTraversal_zero, False) = Inr (strct', edgeIdReceived)"
    by (cases t) auto
  from EdgeTraversal_loop_sound [OF loop] EdgeTraversal_decodesD(7) [OF d]
  have "\<not> edgeIdReceived"
    by (simp_all add: lookup_filter)
  with loop show ?thesis
    by (simp add: EdgeTraversal_UnmarshalJSON_def members_def)
qed


lemma EdgeTraversal_rejects_unknown_keys: "rejects_unknown_keys (EdgeTraversal_UnmarshalJSON ord) EdgeTraversal_keys"
  by (rule rejects_unknown_keysI) (erule (1) EdgeTraversal_unknown_key_fails, erule (2) EdgeTraversal_unknown_key)

lemma EdgeTraversal_requires_EdgeId: "requires_key (EdgeTraversal_UnmarshalJSON ord) ''edgeId''"
  by (rule requires_keyI) (erule EdgeTraversal_required_present(1), erule EdgeTraversal_without_EdgeId)


subsection \<open>ResultProvenance: decoding and encoding\<close>

definition ResultProvenance_keys :: "string list" where
  "ResultProvenance_keys = [''conversionSources'', ''firstDetectionRunGuid'', ''firstDetectionTimeUtc'', ''invocationIndex'', ''lastDetectionRunGuid'', ''lastDetectionTimeUtc'', ''properties'']"

definition ResultProvenance_decodes :: "order \<Rightarrow> (string \<rightharpoonup> json) \<Rightarrow> ResultProvenance \<Rightarrow> bool" where
  "ResultProvenance_decodes ord m strct \<longleftrightarrow>
     dom m \<subseteq> set ResultProvenance_keys \<and>
     field_ok (json_Unmarshal_slice (json_Unmarshal_ptr (PhysicalLocation_UnmarshalJSON ord))) (m ''conversionSources'') None (ResultProvenance.ConversionSources strct) \<and>
     field_ok json_Unmarshal_string (m ''firstDetectionRunGuid'') [] (ResultProvenance.FirstDetectionRunGuid strct) \<and>
     field_ok json_Unmarshal_string (m ''firstDetectionTimeUtc'') [] (ResultProvenance.FirstDetectionTimeUtc strct) \<and>
     field_ok json_Unmarshal_int (m ''invocationIndex'') 0 (ResultProvenance.InvocationIndex strct) \<and>
     field_ok json_Unmarshal_string (m ''lastDetectionRunGuid'') [] (ResultProvenance.LastDetectionRunGuid strct) \<and>
     field_ok json_Unmarshal_string (m ''lastDetectionTimeUtc'') [] (ResultProvenance.LastDetectionTimeUtc strct) \<and>
     field_ok (json_Unmarshal_ptr (PropertyBag_UnmarshalJSON ord)) (m ''properties'') None (ResultProvenance.Properties strct)"

lemma ResultProvenance_cases_keys: "fst ` set (ResultProvenance_cases ord v) = set ResultProvenance_keys"
  by (rule keys_image) (simp add: ResultProvenance_cases_def ResultProvenance_keys_def)

lemma ResultProvenance_regular: "regular (\<lambda>k v. switch k (ResultProvenance_cases ord v) (reject k))"
  by (rule regular_switch) (simp add: ResultProvenance_cases_def)

lemma ResultProvenance_fields:
  "field_case (ResultProvenance_cases ord) ResultProvenance.ConversionSources ''conversionSources'' (json_Unmarshal_slice (json_Unmarshal_ptr (PhysicalLocation_UnmarshalJSON ord)))"
  "field_case (ResultProvenance_cases ord) ResultProvenance.FirstDetectionRunGuid ''firstDetectionRunGuid'' json_Unmarshal_string"
  "field_case (ResultProvenance_cases ord) ResultProvenance.FirstDetectionTimeUtc ''firstDetectionTimeUtc'' json_Unmarshal_string"
  "field_case (ResultProvenance_cases ord) ResultProvenance.InvocationIndex ''invocationIndex'' json_Unmarshal_int"
  "field_case (ResultProvenance_cases ord) ResultProvenance.LastDetectionRunGuid ''lastDetectionRunGuid'' json_Unmarshal_string"
  "field_case (ResultProvenance_cases ord) ResultProvenance.LastDetectionTimeUtc ''lastDetectionTimeUtc'' json_Unmarshal_string"
  "field_case (ResultProvenance_cases ord) ResultProvenance.Properties ''properties'' (json_Unmarshal_ptr (PropertyBag_UnmarshalJSON ord))"
  unfolding field_case_def ResultProvenance_cases_def
  by (simp_all add: writes_into writes_received keeps_into split_def)

lemma ResultProvenance_loop_sound:
  assumes loop: "range_loop (\<lambda>k v. switch k (ResultProvenance_cases ord v) (reject k)) (members ord kvs) ResultProvenance_zero = Inr strct"
  shows "dom (map_of (rev kvs)) \<subseteq> set ResultProvenance_keys \<and>
     field_ok (json_Unmarshal_slice (json_Unmarshal_ptr (PhysicalLocation_UnmarshalJSON ord))) (map_of (rev kvs) ''conversionSources'') None (ResultProvenance.ConversionSources strct) \<and>
     field_ok json_Unmarshal_string (map_of (rev kvs) ''firstDetectionRunGuid'') [] (ResultProvenance.FirstDetectionRunGuid strct) \<and>
     field_ok json_Unmarshal_string (map_of (rev kvs) ''firstDetectionTimeUtc'') [] (ResultProvenance.FirstDetectionTimeUtc strct) \<and>
     field_ok json_Unmarshal_int (map_of (rev kvs) ''invocationIndex'') 0 (ResultProvenance.InvocationIndex strct) \<and>
     field_ok json_Unmarshal_string (map_of (rev kvs) ''lastDetectionRunGuid'') [] (ResultProvenance.LastDetectionRunGuid strct) \<and>
     field_ok json_Unmarshal_string (map_of (rev kvs) ''lastDetectionTimeUtc'') [] (ResultProvenance.LastDetectionTimeUtc strct) \<and>
     field_ok (json_Unmarshal_ptr (PropertyBag_UnmarshalJSON ord)) (map_of (rev kvs) ''properties'') None (ResultProvenance.Properties strct)"
proof -
  have "fst ` set (members ord kvs) \<subseteq> set ResultProvenance_keys"
    by (rule loop_keys_known [OF loop]) (rule ResultProvenance_cases_keys)
  then have keys: "dom (map_of (rev kvs)) \<subseteq> set ResultProvenance_keys"
    by (simp add: dom_members [of kvs ord])
  note fld = field_after_loop [OF _ members_distinct loop, unfolded map_of_members]
  show ?thesis
    using keys fld [OF ResultProvenance_fields(1)] fld [OF ResultProvenance_fields(2)] fld [OF ResultProvenance_fields(3)] fld [OF ResultProvenance_fields(4)] fld [OF ResultProvenance_fields(5)] fld [OF ResultProvenance_fields(6)] fld [OF ResultProvenance_fields(7)] 
    by (simp only: prod.case ResultProvenance_zero_def ResultProvenance.select_convs simp_thms)
qed

lemma ResultProvenance_decodesD:
  assumes "ResultProvenance_decodes ord m strct"
  shows "dom m \<subseteq> set ResultProvenance_keys"
    and "field_ok (json_Unmarshal_slice (json_Unmarshal_ptr (PhysicalLocation_UnmarshalJSON ord))) (m ''conversionSources'') None (ResultProvenance.ConversionSources strct)"
    and "field_ok json_Unmarshal_string (m ''firstDetectionRunGuid'') [] (ResultProvenance.FirstDetectionRunGuid strct)"
    and "field_ok json_Unmarshal_string (m ''firstDetectionTimeUtc'') [] (ResultProvenance.FirstDetectionTimeUtc strct)"
    and "field_ok json_Unmarshal_int (m ''invocationIndex'') 0 (ResultProvenance.InvocationIndex strct)"
    and "field_ok json_Unmarshal_string (m ''lastDetectionRunGuid'') [] (ResultProvenance.LastDetectionRunGuid strct)"
    and "field_ok json_Unmarshal_string (m ''lastDetectionTimeUtc'') [] (ResultProvenance.LastDetectionTimeUtc strct)"
    and "field_ok (json_Unmarshal_ptr (PropertyBag_UnmarshalJSON ord)) (m ''properties'') None (ResultProvenance.Properties strct)"
  using assms unfolding ResultProvenance_decodes_def by - (elim conjE, assumption)+

lemma ResultProvenance_decodes_unique:
  assumes "ResultProvenance_decodes ord m a" and "ResultProvenance_decodes ord m b"
  shows "a = b"
  apply (rule ResultProvenance.equality)
  apply (rule field_ok_unique [OF ResultProvenance_decodesD(2) [OF assms(1)] ResultProvenance_decodesD(2) [OF assms(2)]])
  apply (rule field_ok_unique [OF ResultProvenance_decodesD(3) [OF assms(1)] ResultProvenance_decodesD(3) [OF assms(2)]])
  apply (rule field_ok_unique [OF ResultProvenance_decodesD(4) [OF assms(1)] ResultProvenance_decodesD(4) [OF assms(2)]])
  apply (rule field_ok_unique [OF ResultProvenance_decodesD(5) [OF assms(1)] ResultProvenance_decodesD(5) [OF assms(2)]])
  apply (rule field_ok_unique [OF ResultProvenance_decodesD(6) [OF assms(1)] ResultProvenance_decodesD(6) [OF assms(2)]])
  apply (rule field_ok_unique [OF ResultProvenance_decodesD(7) [OF assms(1)] ResultProvenance_decodesD(7) [OF assms(2)]])
  apply (rule field_ok_unique [OF ResultProvenance_decodesD(8) [OF assms(1)] ResultProvenance_decodesD(8) [OF assms(2)]])
  apply simp
  done

lemma ResultProvenance_accepts:
  assumes "ResultProvenance_decodes ord m strct" and "m k = Some v"
  shows "accepting (switch k (ResultProvenance_cases ord v) (reject k))"
proof -
  from assms have "k \<in> set ResultProvenance_keys" by (auto simp: ResultProvenance_decodes_def)
  then have key: "k \<in> fst ` set (ResultProvenance_cases ord v)"
    by (simp only: ResultProvenance_cases_keys)
  have rows: "list_all (\<lambda>(c, h). m c = Some v \<longrightarrow> accepting h) (ResultProvenance_cases ord v)"
    unfolding ResultProvenance_cases_def list.pred_inject
    apply (rule conjI [OF accept_row [where m = m and v = v, OF ResultProvenance_decodesD(2) [OF assms(1)]]])
    apply (rule conjI [OF accept_row [where m = m and v = v, OF ResultProvenance_decodesD(3) [OF assms(1)]]])
    apply (rule conjI [OF accept_row [where m = m and v = v, OF ResultProvenance_decodesD(4) [OF assms(1)]]])
    apply (rule conjI [OF accept_row [where m = m and v = v, OF ResultProvenance_decodesD(5) [OF assms(1)]]])
    apply (rule conjI [OF accept_row [where m = m and v = v, OF ResultProvenance_decodesD(6) [OF assms(1)]]])
    apply (rule conjI [OF accept_row [where m = m and v = v, OF ResultProvenance_decodesD(7) [OF assms(1)]]])
    apply (rule conjI [OF accept_row [where m = m and v = v, OF ResultProvenance_decodesD(8) [OF assms(1)]]])
    apply simp
    done
  show ?thesis by (rule rows_accept [OF rows assms(2) key])
qed

lemma ResultProvenance_decode_iff:
  "ResultProvenance_UnmarshalJSON ord (JObj kvs) = Inr strct \<longleftrightarrow>
   ResultProvenance_decodes ord (map_of (rev kvs)) strct"
proof
  assume "ResultProvenance_UnmarshalJSON ord (JObj kvs) = Inr strct"
  then have loop: "range_loop (\<lambda>k v. switch k (ResultProvenance_cases ord v) (reject k)) (members ord kvs) ResultProvenance_zero = Inr strct"
    by (auto simp: ResultProvenance_UnmarshalJSON_def members_def split: sum.splits)
  from ResultProvenance_loop_sound [OF loop]
  show "ResultProvenance_decodes ord (map_of (rev kvs)) strct"
    by (simp add: ResultProvenance_decodes_def)
next
  assume d: "ResultProvenance_decodes ord (map_of (rev kvs)) strct"
  have "\<exists>t. range_loop (\<lambda>k v. switch k (ResultProvenance_cases ord v) (reject k)) (members ord kvs) ResultProvenance_zero = Inr t"
  proof (rule loop_succeeds [OF ResultProvenance_regular])
    fix k v assume "(k, v) \<in> set (members ord kvs)"
    then have "map_of (rev kvs) k = Some v" by (rule member_lookup)
    from ResultProvenance_accepts [OF d this]
    show "accepting (switch k (ResultProvenance_cases ord v) (reject k))" .
  qed
  then obtain strct' where
    loop: "range_loop (\<lambda>k v. switch k (ResultProvenance_cases ord v) (reject k)) (members ord kvs) ResultProvenance_zero = Inr strct'" ..
  from ResultProvenance_loop_sound [OF loop]
  have d': "ResultProvenance_decodes ord (map_of (rev kvs)) strct'"
    by (simp add: ResultProvenance_decodes_def)
  from ResultProvenance_decodes_unique [OF d' d] have "strct' = strct" .
  with loop show "ResultProvenance_UnmarshalJSON ord (JObj kvs) = Inr strct"
    by (simp add: ResultProvenance_UnmarshalJSON_def members_def)
qed

definition ResultProvenance_results :: "scanner \<Rightarrow> order \<Rightarrow> ResultProvenance \<Rightarrow> (string \<times> (error + json)) list" where
  "ResultProvenance_results scn ord strct =
     [(''conversionSources'', json_Marshal_slice (json_Marshal_ptr ''*sarif.PhysicalLocation'' (PhysicalLocation_MarshalJSON scn ord)) (ResultProvenance.ConversionSources strct)),
      (''firstDetectionRunGuid'', json_Marshal_string (ResultProvenance.FirstDetectionRunGuid strct)),
      (''firstDetectionTimeUtc'', json_Marshal_string (ResultProvenance.FirstDetectionTimeUtc strct)),
      (''invocationIndex'', json_Marshal_int (ResultProvenance.InvocationIndex strct)),
      (''lastDetectionRunGuid'', json_Marshal_string (ResultProvenance.LastDetectionRunGuid strct)),
      (''lastDetectionTimeUtc'', json_Marshal_string (ResultProvenance.LastDetectionTimeUtc strct)),
      (''properties'', json_Marshal_bytes ''*sarif.PropertyBag'' (PropertyBag_MarshalJSON scn ord) (ResultProvenance.Properties strct))]"

lemma ResultProvenance_MarshalJSON_results:
  "ResultProvenance_MarshalJSON scn ord strct = object (emit_all (ResultProvenance_results scn ord strct))"
  by (simp add: ResultProvenance_MarshalJSON_def ResultProvenance_results_def emit_nilcheck)

lemma ResultProvenance_keys_written:
  "ResultProvenance_MarshalJSON scn ord strct = Inr j \<Longrightarrow> \<exists>kvs. j = JObj kvs \<and> map fst kvs = ResultProvenance_keys"
  using keys_written [of "ResultProvenance_results scn ord strct" j]
  by (simp add: ResultProvenance_MarshalJSON_results ResultProvenance_results_def ResultProvenance_keys_def)

definition ResultProvenance_encodable :: "scanner \<Rightarrow> order \<Rightarrow> ResultProvenance \<Rightarrow> bool" where
  "ResultProvenance_encodable scn ord strct \<longleftrightarrow>
     slice_all (ptr_all (PhysicalLocation_encodable scn ord)) (ResultProvenance.ConversionSources strct) \<and>
     ptr_all (PropertyBag_encodable scn ord) (ResultProvenance.Properties strct)"

lemma ResultProvenance_fails_unless: "fails_unless (ResultProvenance_MarshalJSON scn ord) (ResultProvenance_encodable scn ord)"
  unfolding fails_unless_def ResultProvenance_MarshalJSON_results ResultProvenance_results_def ResultProvenance_encodable_def isl_object_emit_all
  by (auto simp add: always_simps
      fails_unlessD [OF fails_unless_slice [OF fails_unless_ptr [OF PhysicalLocation_fails_unless]]]
      fails_unlessD [OF fails_unless_string]
      fails_unlessD [OF fails_unless_int]
      fails_unlessD [OF PropertyBag_field_fails_unless])

definition ResultProvenance_valid :: "ResultProvenance \<Rightarrow> bool" where
  "ResultProvenance_valid strct \<longleftrightarrow>
     slice_all (ptr_all PhysicalLocation_valid) (ResultProvenance.ConversionSources strct) \<and>
     ptr_all PropertyBag_valid (ResultProvenance.Properties strct)"

lemma ResultProvenance_keys_distinct: "distinct ResultProvenance_keys"
  by (simp add: ResultProvenance_keys_def)

lemma ResultProvenance_round_trips:
  "round_trips_object (ResultProvenance_MarshalJSON scn ord) (ResultProvenance_UnmarshalJSON ord') ResultProvenance_valid"
  unfolding round_trips_object_def
proof (intro allI impI)
  fix strct assume v: "ResultProvenance_valid strct"
  note v' = v [unfolded ResultProvenance_valid_def]
  let ?rs = "ResultProvenance_results scn ord strct"
  let ?kvs = "map (\<lambda>e. (fst e, projr (snd e))) ?rs"
  have f0: "\<not> isl (json_Marshal_slice (json_Marshal_ptr ''*sarif.PhysicalLocation'' (PhysicalLocation_MarshalJSON scn ord)) (ResultProvenance.ConversionSources strct)) \<and>
      json_Unmarshal_slice (json_Unmarshal_ptr (PhysicalLocation_UnmarshalJSON ord')) (projr (json_Marshal_slice (json_Marshal_ptr ''*sarif.PhysicalLocation'' (PhysicalLocation_MarshalJSON scn ord)) (ResultProvenance.ConversionSources strct))) = Inr (ResultProvenance.ConversionSources strct)"
    by (rule round_tripsD [OF round_trips_slice [OF round_trips_ptr [OF PhysicalLocation_round_trips]]]) (use v' in simp)
  have f1: "\<not> isl (json_Marshal_string (ResultProvenance.FirstDetectionRunGuid strct)) \<and>
      json_Unmarshal_string (projr (json_Marshal_string (ResultProvenance.FirstDetectionRunGuid strct))) = Inr (ResultProvenance.FirstDetectionRunGuid strct)"
    by (rule round_tripsD [OF round_trips_string]) (use v' in simp)
  have f2: "\<not> isl (json_Marshal_string (ResultProvenance.FirstDetectionTimeUtc strct)) \<and>
      json_Unmarshal_string (projr (json_Marshal_string (ResultProvenance.FirstDetectionTimeUtc strct))) = Inr (ResultProvenance.FirstDetectionTimeUtc strct)"
    by (rule round_tripsD [OF round_trips_string]) (use v' in simp)
  have f3: "\<not> isl (json_Marshal_int (ResultProvenance.InvocationIndex strct)) \<and>
      json_Unmarshal_int (projr (json_Marshal_int (ResultProvenance.InvocationIndex strct))) = Inr (ResultProvenance.InvocationIndex strct)"
    by (rule round_tripsD [OF round_trips_int]) (use v' in simp)
  have f4: "\<not> isl (json_Marshal_string (ResultProvenance.LastDetectionRunGuid strct)) \<and>
      json_Unmarshal_string (projr (json_Marshal_string (ResultProvenance.LastDetectionRunGuid strct))) = Inr (ResultProvenance.LastDetectionRunGuid strct)"
    by (rule round_tripsD [OF round_trips_string]) (use v' in simp)
  have f5: "\<not> isl (json_Marshal_string (ResultProvenance.LastDetectionTimeUtc strct)) \<and>
      json_Unmarshal_string (projr (json_Marshal_string (ResultProvenance.LastDetectionTimeUtc strct))) = Inr (ResultProvenance.LastDetectionTimeUtc strct)"
    by (rule round_tripsD [OF round_trips_string]) (use v' in simp)
  have f6: "\<not> isl (json_Marshal_bytes ''*sarif.PropertyBag'' (PropertyBag_MarshalJSON scn ord) (ResultProvenance.Properties strct)) \<and>
      json_Unmarshal_ptr (PropertyBag_UnmarshalJSON ord') (projr (json_Marshal_bytes ''*sarif.PropertyBag'' (PropertyBag_MarshalJSON scn ord) (ResultProvenance.Properties strct))) = Inr (ResultProvenance.Properties strct)"
    by (rule round_tripsD [OF PropertyBag_field_round_trips]) (use v' in simp)
  note fs = f0 f1 f2 f3 f4 f5 f6
  have rs: "?rs =
     [(''conversionSources'', json_Marshal_slice (json_Marshal_ptr ''*sarif.PhysicalLocation'' (PhysicalLocation_MarshalJSON scn ord)) (ResultProvenance.ConversionSources strct)),
      (''firstDetectionRunGuid'', json_Marshal_string (ResultProvenance.FirstDetectionRunGuid strct)),
      (''firstDetectionTimeUtc'', json_Marshal_string (ResultProvenance.FirstDetectionTimeUtc strct)),
      (''invocationIndex'', json_Marshal_int (ResultProvenance.InvocationIndex strct)),
      (''lastDetectionRunGuid'', json_Marshal_string (ResultProvenance.LastDetectionRunGuid strct)),
      (''lastDetectionTimeUtc'', json_Marshal_string (ResultProvenance.LastDetectionTimeUtc strct)),
      (''properties'', json_Marshal_bytes ''*sarif.PropertyBag'' (PropertyBag_MarshalJSON scn ord) (ResultProvenance.Properties strct))]"
    by (auto simp add: ResultProvenance_results_def)
  have keys: "map fst ?rs = ResultProvenance_keys"
    by (simp add: ResultProvenance_results_def ResultProvenance_keys_def)
  then have dist: "distinct (map fst ?rs)"
    by (simp only: ResultProvenance_keys_distinct)
  have ok: "list_all (\<lambda>e. \<not> isl (snd e)) ?rs"
    unfolding rs by (simp only: list.pred_inject snd_conv fs simp_thms)
  then have enc: "ResultProvenance_MarshalJSON scn ord strct = Inr (JObj ?kvs)"
    by (simp add: ResultProvenance_MarshalJSON_results [of scn ord strct] object_emit_all_eq_Inr)
  have l0: "map_of (rev ?kvs) ''conversionSources'' = Some (projr (json_Marshal_slice (json_Marshal_ptr ''*sarif.PhysicalLocation'' (PhysicalLocation_MarshalJSON scn ord)) (ResultProvenance.ConversionSources strct)))"
    by (rule written_lookup [OF dist]) (subst rs, intro list.set_intros)
  have l1: "map_of (rev ?kvs) ''firstDetectionRunGuid'' = Some (projr (json_Marshal_string (ResultProvenance.FirstDetectionRunGuid strct)))"
    by (rule written_lookup [OF dist]) (subst rs, intro list.set_intros)
  have l2: "map_of (rev ?kvs) ''firstDetectionTimeUtc'' = Some (projr (json_Marshal_string (ResultProvenance.FirstDetectionTimeUtc strct)))"
    by (rule written_lookup [OF dist]) (subst rs, intro list.set_intros)
  have l3: "map_of (rev ?kvs) ''invocationIndex'' = Some (projr (json_Marshal_int (ResultProvenance.InvocationIndex strct)))"
    by (rule written_lookup [OF dist]) (subst rs, intro list.set_intros)
  have l4: "map_of (rev ?kvs) ''lastDetectionRunGuid'' = Some (projr (json_Marshal_string (ResultProvenance.LastDetectionRunGuid strct)))"
    by (rule written_lookup [OF dist]) (subst rs, intro list.set_intros)
  have l5: "map_of (rev ?kvs) ''lastDetectionTimeUtc'' = Some (projr (json_Marshal_string (ResultProvenance.LastDetectionTimeUtc strct)))"
    by (rule written_lookup [OF dist]) (subst rs, intro list.set_intros)
  have l6: "map_of (rev ?kvs) ''properties'' = Some (projr (json_Marshal_bytes ''*sarif.PropertyBag'' (PropertyBag_MarshalJSON scn ord) (ResultProvenance.Properties strct)))"
    by (rule written_lookup [OF dist]) (subst rs, intro list.set_intros)
  have dec: "ResultProvenance_decodes ord' (map_of (rev ?kvs)) strct"
    unfolding ResultProvenance_decodes_def l0 l1 l2 l3 l4 l5 l6
    by (simp only: field_ok_Some fs written_dom keys subset_refl option.simps simp_thms)
  then have "ResultProvenance_UnmarshalJSON ord' (JObj ?kvs) = Inr strct"
    by (simp only: ResultProvenance_decode_iff)
  with enc show "rt_object (ResultProvenance_MarshalJSON scn ord) (ResultProvenance_UnmarshalJSON ord') strct"
    unfolding rt_object_def by blast
qed

definition ResultProvenance_small_bags :: "ResultProvenance \<Rightarrow> bool" where
  "ResultProvenance_small_bags strct \<longleftrightarrow>
     slice_all (ptr_all PhysicalLocation_small_bags) (ResultProvenance.ConversionSources strct) \<and>
     ptr_all PropertyBag_small_bags (ResultProvenance.Properties strct)"

lemma ResultProvenance_same_output:
  "same_output (ResultProvenance_MarshalJSON scn ord) (ResultProvenance_MarshalJSON scn ord') ResultProvenance_small_bags"
  unfolding same_output_def
proof (intro allI impI)
  fix strct assume v: "ResultProvenance_small_bags strct"
  note v' = v [unfolded ResultProvenance_small_bags_def]
  have e0: "json_Marshal_slice (json_Marshal_ptr ''*sarif.PhysicalLocation'' (PhysicalLocation_MarshalJSON scn ord)) (ResultProvenance.ConversionSources strct) =
      json_Marshal_slice (json_Marshal_ptr ''*sarif.PhysicalLocation'' (PhysicalLocation_MarshalJSON scn ord')) (ResultProvenance.ConversionSources strct)"
    by (rule same_outputD [OF same_output_slice [OF same_output_ptr [OF PhysicalLocation_same_output]]]) (use v' in simp)
  have e6: "json_Marshal_bytes ''*sarif.PropertyBag'' (PropertyBag_MarshalJSON scn ord) (ResultProvenance.Properties strct) =
      json_Marshal_bytes ''*sarif.PropertyBag'' (PropertyBag_MarshalJSON scn ord') (ResultProvenance.Properties strct)"
    by (rule same_outputD [OF PropertyBag_field_same_output]) (use v' in simp)
  show "ResultProvenance_MarshalJSON scn ord strct = ResultProvenance_MarshalJSON scn ord' strct"
    by (simp only: ResultProvenance_MarshalJSON_def e0 e6)
qed

lemma ResultProvenance_writes_keys: "writes_keys (ResultProvenance_MarshalJSON scn ord) ResultProvenance_keys"
  unfolding writes_keys_def by (intro allI impI) (erule ResultProvenance_keys_written)

lemma ResultProvenance_unknown_key:
  assumes new: "k \<notin> set ResultProvenance_keys" and key: "k \<in> fst ` set kvs"
    and rest: "ResultProvenance_UnmarshalJSON ord (JObj (filter (\<lambda>e. fst e \<noteq> k) kvs)) = Inr strct"
  shows "ResultProvenance_UnmarshalJSON ord (JObj kvs) = Inl (not_allowed k)"
proof -
  have rej: "switch k (ResultProvenance_cases ord v) (reject k) s = Inl (not_allowed k)" for v s
    by (rule switch_rejects) (simp only: ResultProvenance_cases_keys new not_False_eq_True)
  from rest obtain t where
    "range_loop (\<lambda>k v. switch k (ResultProvenance_cases ord v) (reject k)) (members ord (filter (\<lambda>e. fst e \<noteq> k) kvs)) ResultProvenance_zero = Inr t"
    by (cases "range_loop (\<lambda>k v. switch k (ResultProvenance_cases ord v) (reject k)) (members ord (filter (\<lambda>e. fst e \<noteq> k) kvs)) ResultProvenance_zero")
       (simp_all add: ResultProvenance_UnmarshalJSON_def members_def)
  from unknown_key_named [OF ResultProvenance_regular rej key this]
  show ?thesis by (simp add: ResultProvenance_UnmarshalJSON_def members_def)
qed

lemma ResultProvenance_unknown_key_fails:
  assumes "k \<notin> set ResultProvenance_keys" and "k \<in> fst ` set kvs"
  shows "isl (ResultProvenance_UnmarshalJSON ord (JObj kvs))"
proof (cases "ResultProvenance_UnmarshalJSON ord (JObj kvs)")
  case (Inr strct)
  then have "dom (map_of (rev kvs)) \<subseteq> set ResultProvenance_keys"
    by (simp only: ResultProvenance_decode_iff ResultProvenance_decodesD(1))
  with assms show ?thesis by (auto simp: dom_map_of_conv_image_fst)
qed simp

lemma ResultProvenance_rejects_unknown_keys: "rejects_unknown_keys (ResultProvenance_UnmarshalJSON ord) ResultProvenance_keys"
  by (rule rejects_unknown_keysI) (erule (1) ResultProvenance_unknown_key_fails, erule (2) ResultProvenance_unknown_key)

subsection \<open>Fix: decoding and encoding\<close>

definition Fix_keys :: "string list" where
  "Fix_keys = [''artifactChanges'', ''description'', ''properties'']"

definition Fix_decodes :: "order \<Rightarrow> (string \<rightharpoonup> json) \<Rightarrow> Fix \<Rightarrow> bool" where
  "Fix_decodes ord m strct \<longleftrightarrow>
     dom m \<subseteq> set Fix_keys \<and>
     field_ok (json_Unmarshal_slice (json_Unmarshal_ptr (ArtifactChange_UnmarshalJSON ord))) (m ''artifactChanges'') None (Fix.ArtifactChanges strct) \<and>
     field_ok (json_Unmarshal_ptr (Message_UnmarshalJSON ord)) (m ''description'') None (Fix.Description strct) \<and>
     field_ok (json_Unmarshal_ptr (PropertyBag_UnmarshalJSON ord)) (m ''properties'') None (Fix.Properties strct) \<and>
     m ''artifactChanges'' \<noteq> None"

lemma Fix_cases_keys: "fst ` set (Fix_cases ord v) = set Fix_keys"
  by (rule keys_image) (simp add: Fix_cases_def Fix_keys_def)

lemma Fix_regular: "regular (\<lambda>k v. switch k (Fix_cases ord v) (reject k))"
  by (rule regular_switch) (simp add: Fix_cases_def)

lemma Fix_fields:
  "field_case (Fix_cases ord) (\<lambda>(strct, artifactChangesReceived). Fix.ArtifactChanges strct) ''artifactChanges'' (json_Unmarshal_slice (json_Unmarshal_ptr (ArtifactChange_UnmarshalJSON ord)))"
  "field_case (Fix_cases ord) (\<lambda>(strct, artifactChangesReceived). Fix.Description strct) ''description'' (json_Unmarshal_ptr (Message_UnmarshalJSON ord))"
  "field_case (Fix_cases ord) (\<lambda>(strct, artifactChangesReceived). Fix.Properties strct) ''properties'' (json_Unmarshal_ptr (PropertyBag_UnmarshalJSON ord))"
  "field_case (Fix_cases ord) (\<lambda>(strct, artifactChangesReceived). artifactChangesReceived) ''artifactChanges'' (received (json_Unmarshal_slice (json_Unmarshal_ptr (ArtifactChange_UnmarshalJSON ord))))"
  unfolding field_case_def Fix_cases_def
  by (simp_all add: writes_into writes_received keeps_into split_def)

lemma Fix_loop_sound:
  assumes loop: "range_loop (\<lambda>k v. switch k (Fix_cases ord v) (reject k)) (members ord kvs) (Fix_zero, False) = Inr (strct, artifactChangesReceived)"
  shows "dom (map_of (rev kvs)) \<subseteq> set Fix_keys \<and>
     field_ok (json_Unmarshal_slice (json_Unmarshal_ptr (ArtifactChange_UnmarshalJSON ord))) (map_of (rev kvs) ''artifactChanges'') None (Fix.ArtifactChanges strct) \<and>
     field_ok (json_Unmarshal_ptr (Message_UnmarshalJSON ord)) (map_of (rev kvs) ''description'') None (Fix.Description strct) \<and>
     field_ok (json_Unmarshal_ptr (PropertyBag_UnmarshalJSON ord)) (map_of (rev kvs) ''properties'') None (Fix.Properties strct) \<and>
     (artifactChangesReceived \<longleftrightarrow> map_of (rev kvs) ''artifactChanges'' \<noteq> None)"
proof -
  have "fst ` set (members ord kvs) \<subseteq> set Fix_keys"
    by (rule loop_keys_known [OF loop]) (rule Fix_cases_keys)
  then have keys: "dom (map_of (rev kvs)) \<subseteq> set Fix_keys"
    by (simp add: dom_members [of kvs ord])
  note fld = field_after_loop [OF _ members_distinct loop, unfolded map_of_members]
  note flg = flag_after_loop [OF _ members_distinct loop, unfolded map_of_members]
  show ?thesis
    using keys fld [OF Fix_fields(1)] fld [OF Fix_fields(2)] fld [OF Fix_fields(3)] flg [OF Fix_fields(4)]
    by (simp only: prod.case Fix_zero_def Fix.select_convs simp_thms)
qed

lemma Fix_decodesD:
  assumes "Fix_decodes ord m strct"
  shows "dom m \<subseteq> set Fix_keys"
    and "field_ok (json_Unmarshal_slice (json_Unmarshal_ptr (ArtifactChange_UnmarshalJSON ord))) (m ''artifactChanges'') None (Fix.ArtifactChanges strct)"
    and "field_ok (json_Unmarshal_ptr (Message_UnmarshalJSON ord)) (m ''description'') None (Fix.Description strct)"
    and "field_ok (json_Unmarshal_ptr (PropertyBag_UnmarshalJSON ord)) (m ''properties'') None (Fix.Properties strct)"
    and "m ''artifactChanges'' \<noteq> None"
  using assms unfolding Fix_decodes_def by - (elim conjE, assumption)+

lemma Fix_decodes_unique:
  assumes "Fix_decodes ord m a" and "Fix_decodes ord m b"
  shows "a = b"
  apply (rule Fix.equality)
  apply (rule field_ok_unique [OF Fix_decodesD(2) [OF assms(1)] Fix_decodesD(2) [OF assms(2)]])
  apply (rule field_ok_unique [OF Fix_decodesD(3) [OF assms(1)] Fix_decodesD(3) [OF assms(2)]])
  apply (rule field_ok_unique [OF Fix_decodesD(4) [OF assms(1)] Fix_decodesD(4) [OF assms(2)]])
  apply simp
  done

lemma Fix_accepts:
  assumes "Fix_decodes ord m strct" and "m k = Some v"
  shows "accepting (switch k (Fix_cases ord v) (reject k))"
proof -
  from assms have "k \<in> set Fix_keys" by (auto simp: Fix_decodes_def)
  then have key: "k \<in> fst ` set (Fix_cases ord v)"
    by (simp only: Fix_cases_keys)
  have rows: "list_all (\<lambda>(c, h). m c = Some v \<longrightarrow> accepting h) (Fix_cases ord v)"
    unfolding Fix_cases_def list.pred_inject
    apply (rule conjI [OF accept_row [where m = m and v = v, OF Fix_decodesD(2) [OF assms(1)]]])
    apply (rule conjI [OF accept_row [where m = m and v = v, OF Fix_decodesD(3) [OF assms(1)]]])
    apply (rule conjI [OF accept_row [where m = m and v = v, OF Fix_decodesD(4) [OF assms(1)]]])
    apply simp
    done
  show ?thesis by (rule rows_accept [OF rows assms(2) key])
qed

lemma Fix_decode_iff:
  "Fix_UnmarshalJSON ord (JObj kvs) = Inr strct \<longleftrightarrow>
   Fix_decodes ord (map_of (rev kvs)) strct"
proof
  assume "Fix_UnmarshalJSON ord (JObj kvs) = Inr strct"
  then obtain artifactChangesReceived where
    loop: "range_loop (\<lambda>k v. switch k (Fix_cases ord v) (reject k)) (members ord kvs) (Fix_zero, False) = Inr (strct, artifactChangesReceived)"
    and fin: "artifactChangesReceived"
    by (auto simp: Fix_UnmarshalJSON_def members_def split: sum.splits if_splits)
  from Fix_loop_sound [OF loop] fin
  show "Fix_decodes ord (map_of (rev kvs)) strct"
    by (simp add: Fix_decodes_def)
next
  assume d: "Fix_decodes ord (map_of (rev kvs)) strct"
  have "\<exists>t. range_loop (\<lambda>k v. switch k (Fix_cases ord v) (reject k)) (members ord kvs) (Fix_zero, False) = Inr t"
  proof (rule loop_succeeds [OF Fix_regular])
    fix k v assume "(k, v) \<in> set (members ord kvs)"
    then have "map_of (rev kvs) k = Some v" by (rule member_lookup)
    from Fix_accepts [OF d this]
    show "accepting (switch k (Fix_cases ord v) (reject k))" .
  qed
  then obtain t where "range_loop (\<lambda>k v. switch k (Fix_cases ord v) (reject k)) (members ord kvs) (Fix_zero, False) = Inr t" ..
  then obtain strct' artifactChangesReceived where
    loop: "range_loop (\<lambda>k v. switch k (Fix_cases ord v) (reject k)) (members ord kvs) (Fix_zero, False) = Inr (strct', artifactChangesReceived)"
    by (cases t) auto
  from Fix_loop_sound [OF loop] d
  have fin: "artifactChangesReceived"
    and d': "Fix_decodes ord (map_of (rev kvs)) strct'"
    by (simp_all add: Fix_decodes_def)
  from Fix_decodes_unique [OF d' d] have "strct' = strct" .
  with loop fin show "Fix_UnmarshalJSON ord (JObj kvs) = Inr strct"
    by (simp add: Fix_UnmarshalJSON_def members_def)
qed

definition Fix_results :: "scanner \<Rightarrow> order \<Rightarrow> Fix \<Rightarrow> (string \<times> (error + json)) list" where
  "Fix_results scn ord strct =
     [(''artifactChanges'', json_Marshal_slice (json_Marshal_ptr ''*sarif.ArtifactChange'' (ArtifactChange_MarshalJSON scn ord)) (Fix.ArtifactChanges strct)),
      (''description'', json_Marshal_ptr ''*sarif.Message'' (Message_MarshalJSON scn ord) (Fix.Description strct)),
      (''properties'', json_Marshal_bytes ''*sarif.PropertyBag'' (PropertyBag_MarshalJSON scn ord) (Fix.Properties strct))]"

lemma Fix_MarshalJSON_results:
  "Fix_MarshalJSON scn ord strct = object (emit_all (Fix_results scn ord strct))"
  by (simp add: Fix_MarshalJSON_def Fix_results_def emit_nilcheck)

lemma Fix_keys_written:
  "Fix_MarshalJSON scn ord strct = Inr j \<Longrightarrow> \<exists>kvs. j = JObj kvs \<and> map fst kvs = Fix_keys"
  using keys_written [of "Fix_results scn ord strct" j]
  by (simp add: Fix_MarshalJSON_results Fix_results_def Fix_keys_def)

definition Fix_encodable :: "scanner \<Rightarrow> order \<Rightarrow> Fix \<Rightarrow> bool" where
  "Fix_encodable scn ord strct \<longleftrightarrow>
     slice_all (ptr_all (ArtifactChange_encodable scn ord)) (Fix.ArtifactChanges strct) \<and>
     ptr_all (Message_encodable scn ord) (Fix.Description strct) \<and>
     ptr_all (PropertyBag_encodable scn ord) (Fix.Properties strct)"

lemma Fix_fails_unless: "fails_unless (Fix_MarshalJSON scn ord) (Fix_encodable scn ord)"
  unfolding fails_unless_def Fix_MarshalJSON_results Fix_results_def Fix_encodable_def isl_object_emit_all
  by (auto simp add: always_simps
      fails_unlessD [OF fails_unless_slice [OF fails_unless_ptr [OF ArtifactChange_fails_unless]]]
      fails_unlessD [OF fails_unless_ptr [OF Message_fails_unless]]
      fails_unlessD [OF PropertyBag_field_fails_unless])

definition Fix_valid :: "Fix \<Rightarrow> bool" where
  "Fix_valid strct \<longleftrightarrow>
     slice_all (ptr_all ArtifactChange_valid) (Fix.ArtifactChanges strct) \<and>
     ptr_all Message_valid (Fix.Description strct) \<and>
     ptr_all PropertyBag_valid (Fix.Properties strct)"

lemma Fix_keys_distinct: "distinct Fix_keys"
  by (simp add: Fix_keys_def)

lemma Fix_round_trips:
  "round_trips_object (Fix_MarshalJSON scn ord) (Fix_UnmarshalJSON ord') Fix_valid"
  unfolding round_trips_object_def
proof (intro allI impI)
  fix strct assume v: "Fix_valid strct"
  note v' = v [unfolded Fix_valid_def]
  let ?rs = "Fix_results scn ord strct"
  let ?kvs = "map (\<lambda>e. (fst e, projr (snd e))) ?rs"
  have f0: "\<not> isl (json_Marshal_slice (json_Marshal_ptr ''*sarif.ArtifactChange'' (ArtifactChange_MarshalJSON scn ord)) (Fix.ArtifactChanges strct)) \<and>
      json_Unmarshal_slice (json_Unmarshal_ptr (ArtifactChange_UnmarshalJSON ord')) (projr (json_Marshal_slice (json_Marshal_ptr ''*sarif.ArtifactChange'' (ArtifactChange_MarshalJSON scn ord)) (Fix.ArtifactChanges strct))) = Inr (Fix.ArtifactChanges strct)"
    by (rule round_tripsD [OF round_trips_slice [OF round_trips_ptr [OF ArtifactChange_round_trips]]]) (use v' in simp)
  have f1: "\<not> isl (json_Marshal_ptr ''*sarif.Message'' (Message_MarshalJSON scn ord) (Fix.Description strct)) \<and>
      json_Unmarshal_ptr (Message_UnmarshalJSON ord') (projr (json_Marshal_ptr ''*sarif.Message'' (Message_MarshalJSON scn ord) (Fix.Description strct))) = Inr (Fix.Description strct)"
    by (rule round_tripsD [OF round_trips_ptr [OF Message_round_trips]]) (use v' in simp)
  have f2: "\<not> isl (json_Marshal_bytes ''*sarif.PropertyBag'' (PropertyBag_MarshalJSON scn ord) (Fix.Properties strct)) \<and>
      json_Unmarshal_ptr (PropertyBag_UnmarshalJSON ord') (projr (json_Marshal_bytes ''*sarif.PropertyBag'' (PropertyBag_MarshalJSON scn ord) (Fix.Properties strct))) = Inr (Fix.Properties strct)"
    by (rule round_tripsD [OF PropertyBag_field_round_trips]) (use v' in simp)
  note fs = f0 f1 f2
  have rs: "?rs =
     [(''artifactChanges'', json_Marshal_slice (json_Marshal_ptr ''*sarif.ArtifactChange'' (ArtifactChange_MarshalJSON scn ord)) (Fix.ArtifactChanges strct)),
      (''description'', json_Marshal_ptr ''*sarif.Message'' (Message_MarshalJSON scn ord) (Fix.Description strct)),
      (''properties'', json_Marshal_bytes ''*sarif.PropertyBag'' (PropertyBag_MarshalJSON scn ord) (Fix.Properties strct))]"
    by (auto simp add: Fix_results_def)
  have keys: "map fst ?rs = Fix_keys"
    by (simp add: Fix_results_def Fix_keys_def)
  then have dist: "distinct (map fst ?rs)"
    by (simp only: Fix_keys_distinct)
  have ok: "list_all (\<lambda>e. \<not> isl (snd e)) ?rs"
    unfolding rs by (simp only: list.pred_inject snd_conv fs simp_thms)
  then have enc: "Fix_MarshalJSON scn ord strct = Inr (JObj ?kvs)"
    by (simp add: Fix_MarshalJSON_results [of scn ord strct] object_emit_all_eq_Inr)
  have l0: "map_of (rev ?kvs) ''artifactChanges'' = Some (projr (json_Marshal_slice (json_Marshal_ptr ''*sarif.ArtifactChange'' (ArtifactChange_MarshalJSON scn ord)) (Fix.ArtifactChanges strct)))"
    by (rule written_lookup [OF dist]) (subst rs, intro list.set_intros)
  have l1: "map_of (rev ?kvs) ''description'' = Some (projr (json_Marshal_ptr ''*sarif.Message'' (Message_MarshalJSON scn ord) (Fix.Description strct)))"
    by (rule written_lookup [OF dist]) (subst rs, intro list.set_intros)
  have l2: "map_of (rev ?kvs) ''properties'' = Some (projr (json_Marshal_bytes ''*sarif.PropertyBag'' (PropertyBag_MarshalJSON scn ord) (Fix.Properties strct)))"
    by (rule written_lookup [OF dist]) (subst rs, intro list.set_intros)
  have dec: "Fix_decodes ord' (map_of (rev ?kvs)) strct"
    unfolding Fix_decodes_def l0 l1 l2
    by (simp only: field_ok_Some fs written_dom keys subset_refl option.simps simp_thms)
  then have "Fix_UnmarshalJSON ord' (JObj ?kvs) = Inr strct"
    by (simp only: Fix_decode_iff)
  with enc show "rt_object (Fix_MarshalJSON scn ord) (Fix_UnmarshalJSON ord') strct"
    unfolding rt_object_def by blast
qed

definition Fix_small_bags :: "Fix \<Rightarrow> bool" where
  "Fix_small_bags strct \<longleftrightarrow>
     slice_all (ptr_all ArtifactChange_small_bags) (Fix.ArtifactChanges strct) \<and>
     ptr_all Message_small_bags (Fix.Description strct) \<and>
     ptr_all PropertyBag_small_bags (Fix.Properties strct)"

lemma Fix_same_output:
  "same_output (Fix_MarshalJSON scn ord) (Fix_MarshalJSON scn ord') Fix_small_bags"
  unfolding same_output_def
proof (intro allI impI)
  fix strct assume v: "Fix_small_bags strct"
  note v' = v [unfolded Fix_small_bags_def]
  have e0: "json_Marshal_slice (json_Marshal_ptr ''*sarif.ArtifactChange'' (ArtifactChange_MarshalJSON scn ord)) (Fix.ArtifactChanges strct) =
      json_Marshal_slice (json_Marshal_ptr ''*sarif.ArtifactChange'' (ArtifactChange_MarshalJSON scn ord')) (Fix.ArtifactChanges strct)"
    by (rule same_outputD [OF same_output_slice [OF same_output_ptr [OF ArtifactChange_same_output]]]) (use v' in simp)
  have e1: "json_Marshal_ptr ''*sarif.Message'' (Message_MarshalJSON scn ord) (Fix.Description strct) =
      json_Marshal_ptr ''*sarif.Message'' (Message_MarshalJSON scn ord') (Fix.Description strct)"
    by (rule same_outputD [OF same_output_ptr [OF Message_same_output]]) (use v' in simp)
  have e2: "json_Marshal_bytes ''*sarif.PropertyBag'' (PropertyBag_MarshalJSON scn ord) (Fix.Properties strct) =
      json_Marshal_bytes ''*sarif.PropertyBag'' (PropertyBag_MarshalJSON scn ord') (Fix.Properties strct)"
    by (rule same_outputD [OF PropertyBag_field_same_output]) (use v' in simp)
  show "Fix_MarshalJSON scn ord strct = Fix_MarshalJSON scn ord' strct"
    by (simp only: Fix_MarshalJSON_def e0 e1 e2)
qed

lemma Fix_writes_keys: "writes_keys (Fix_MarshalJSON scn ord) Fix_keys"
  unfolding writes_keys_def by (intro allI impI) (erule Fix_keys_written)

lemma Fix_unknown_key:
  assumes new: "k \<notin> set Fix_keys" and key: "k \<in> fst ` set kvs"
    and rest: "Fix_UnmarshalJSON ord (JObj (filter (\<lambda>e. fst e \<noteq> k) kvs)) = Inr strct"
  shows "Fix_UnmarshalJSON ord (JObj kvs) = Inl (not_allowed k)"
proof -
  have rej: "switch k (Fix_cases ord v) (reject k) s = Inl (not_allowed k)" for v s
    by (rule switch_rejects) (simp only: Fix_cases_keys new not_False_eq_True)
  from rest obtain t where
    "range_loop (\<lambda>k v. switch k (Fix_cases ord v) (reject k)) (members ord (filter (\<lambda>e. fst e \<noteq> k) kvs)) (Fix_zero, False) = Inr t"
    by (cases "range_loop (\<lambda>k v. switch k (Fix_cases ord v) (reject k)) (members ord (filter (\<lambda>e. fst e \<noteq> k) kvs)) (Fix_zero, False)")
       (simp_all add: Fix_UnmarshalJSON_def members_def)
  from unknown_key_named [OF Fix_regular rej key this]
  show ?thesis by (simp add: Fix_UnmarshalJSON_def members_def)
qed

lemma Fix_unknown_key_fails:
  assumes "k \<notin> set Fix_keys" and "k \<in> fst ` set kvs"
  shows "isl (Fix_UnmarshalJSON ord (JObj kvs))"
proof (cases "Fix_UnmarshalJSON ord (JObj kvs)")
  case (Inr strct)
  then have "dom (map_of (rev kvs)) \<subseteq> set Fix_keys"
    by (simp only: Fix_decode_iff Fix_decodesD(1))
  with assms show ?thesis by (auto simp: dom_map_of_conv_image_fst)
qed simp

lemma Fix_required_present:
  assumes "Fix_UnmarshalJSON ord (JObj kvs) = Inr strct"
  shows "''artifactChanges'' \<in> fst ` set kvs"
proof -
  from assms have d: "Fix_decodes ord (map_of (rev kvs)) strct" by (simp only: Fix_decode_iff)
  show "''artifactChanges'' \<in> fst ` set kvs"
    using Fix_decodesD(5) [OF d]
    by (simp_all only: present_key)
qed

lemma Fix_without_ArtifactChanges:
  assumes "Fix_UnmarshalJSON ord (JObj kvs) = Inr strct"
  shows "Fix_UnmarshalJSON ord (JObj (filter (\<lambda>e. fst e \<noteq> ''artifactChanges'') kvs)) =
    Inl (RequiredNotPresent ''artifactChanges'')"
proof -
  from assms have d: "Fix_decodes ord (map_of (rev kvs)) strct" by (simp only: Fix_decode_iff)
  have "\<exists>t. range_loop (\<lambda>k v. switch k (Fix_cases ord v) (reject k)) (members ord (filter (\<lambda>e. fst e \<noteq> ''artifactChanges'') kvs))
      (Fix_zero, False) = Inr t"
  proof (rule loop_succeeds [OF Fix_regular])
    fix k v assume "(k, v) \<in> set (members ord (filter (\<lambda>e. fst e \<noteq> ''artifactChanges'') kvs))"
    then have "map_of (rev kvs) k = Some v" by (rule member_lookup_filter)
    from Fix_accepts [OF d this]
    show "accepting (switch k (Fix_cases ord v) (reject k))" .
  qed
  then obtain t where "range_loop (\<lambda>k v. switch k (Fix_cases ord v) (reject k)) (members ord (filter (\<lambda>e. fst e \<noteq> ''artifactChanges'') kvs))
      (Fix_zero, False) = Inr t" ..
  then obtain strct' artifactChangesReceived where
    loop: "range_loop (\<lambda>k v. switch k (Fix_cases ord v) (reject k)) (members ord (filter (\<lambda>e. fst e \<noteq> ''artifactChanges'') kvs))
      (Fix_zero, False) = Inr (strct', artifactChangesReceived)"
    by (cases t) auto
  from Fix_loop_sound [OF loop] Fix_decodesD(5) [OF d]
  have "\<not> artifactChangesReceived"
    by (simp_all add: lookup_filter)
  with loop show ?thesis
    by (simp add: Fix_UnmarshalJSON_def members_def)
qed


lemma Fix_rejects_unknown_keys: "rejects_unknown_keys (Fix_UnmarshalJSON ord) Fix_keys"
  by (rule rejects_unknown_keysI) (erule (1) Fix_unknown_key_fails, erule (2) Fix_unknown_key)

lemma Fix_requires_ArtifactChanges: "requires_key (Fix_UnmarshalJSON ord) ''artifactChanges''"
  by (rule requires_keyI) (erule Fix_required_present(1), erule Fix_without_ArtifactChanges)


subsection \<open>GraphTraversal: decoding and encoding\<close>

definition GraphTraversal_keys :: "string list" where
  "GraphTraversal_keys = [''description'', ''edgeTraversals'', ''immutableState'', ''initialState'', ''properties'', ''resultGraphIndex'', ''runGraphIndex'']"

definition GraphTraversal_decodes :: "order \<Rightarrow> (string \<rightharpoonup> json) \<Rightarrow> GraphTraversal \<Rightarrow> bool" where
  "GraphTraversal_decodes ord m strct \<longleftrightarrow>
     dom m \<subseteq> set GraphTraversal_keys \<and>
     field_ok (json_Unmarshal_ptr (Message_UnmarshalJSON ord)) (m ''description'') None (GraphTraversal.Description strct) \<and>
     field_ok (json_Unmarshal_slice (json_Unmarshal_ptr (EdgeTraversal_UnmarshalJSON ord))) (m ''edgeTraversals'') None (GraphTraversal.EdgeTraversals strct) \<and>
     field_ok (json_Unmarshal_map (json_Unmarshal_ptr (MultiformatMessageString_UnmarshalJSON ord))) (m ''immutableState'') None (GraphTraversal.ImmutableState strct) \<and>
     field_ok (json_Unmarshal_map (json_Unmarshal_ptr (MultiformatMessageString_UnmarshalJSON ord))) (m ''initialState'') None (GraphTraversal.InitialState strct) \<and>
     field_ok (json_Unmarshal_ptr (PropertyBag_UnmarshalJSON ord)) (m ''properties'') None (GraphTraversal.Properties strct) \<and>
     field_ok json_Unmarshal_int (m ''resultGraphIndex'') 0 (GraphTraversal.ResultGraphIndex strct) \<and>
     field_ok json_Unmarshal_int (m ''runGraphIndex'') 0 (GraphTraversal.RunGraphIndex strct)"

lemma GraphTraversal_cases_keys: "fst ` set (GraphTraversal_cases ord v) = set GraphTraversal_keys"
  by (rule keys_image) (simp add: GraphTraversal_cases_def GraphTraversal_keys_def)

lemma GraphTraversal_regular: "regular (\<lambda>k v. switch k (GraphTraversal_cases ord v) (reject k))"
  by (rule regular_switch) (simp add: GraphTraversal_cases_def)

lemma GraphTraversal_fields:
  "field_case (GraphTraversal_cases ord) GraphTraversal.Description ''description'' (json_Unmarshal_ptr (Message_UnmarshalJSON ord))"
  "field_case (GraphTraversal_cases ord) GraphTraversal.EdgeTraversals ''edgeTraversals'' (json_Unmarshal_slice (json_Unmarshal_ptr (EdgeTraversal_UnmarshalJSON ord)))"
  "field_case (GraphTraversal_cases ord) GraphTraversal.ImmutableState ''immutableState'' (json_Unmarshal_map (json_Unmarshal_ptr (MultiformatMessageString_UnmarshalJSON ord)))"
  "field_case (GraphTraversal_cases ord) GraphTraversal.InitialState ''initialState'' (json_Unmarshal_map (json_Unmarshal_ptr (MultiformatMessageString_UnmarshalJSON ord)))"
  "field_case (GraphTraversal_cases ord) GraphTraversal.Properties ''properties'' (json_Unmarshal_ptr (PropertyBag_UnmarshalJSON ord))"
  "field_case (GraphTraversal_cases ord) GraphTraversal.ResultGraphIndex ''resultGraphIndex'' json_Unmarshal_int"
  "field_case (GraphTraversal_cases ord) GraphTraversal.RunGraphIndex ''runGraphIndex'' json_Unmarshal_int"
  unfolding field_case_def GraphTraversal_cases_def
  by (simp_all add: writes_into writes_received keeps_into split_def)

lemma GraphTraversal_loop_sound:
  assumes loop: "range_loop (\<lambda>k v. switch k (GraphTraversal_cases ord v) (reject k)) (members ord kvs) GraphTraversal_zero = Inr strct"
  shows "dom (map_of (rev kvs)) \<subseteq> set GraphTraversal_keys \<and>
     field_ok (json_Unmarshal_ptr (Message_UnmarshalJSON ord)) (map_of (rev kvs) ''description'') None (GraphTraversal.Description strct) \<and>
     field_ok (json_Unmarshal_slice (json_Unmarshal_ptr (EdgeTraversal_UnmarshalJSON ord))) (map_of (rev kvs) ''edgeTraversals'') None (GraphTraversal.EdgeTraversals strct) \<and>
     field_ok (json_Unmarshal_map (json_Unmarshal_ptr (MultiformatMessageString_UnmarshalJSON ord))) (map_of (rev kvs) ''immutableState'') None (GraphTraversal.ImmutableState strct) \<and>
     field_ok (json_Unmarshal_map (json_Unmarshal_ptr (MultiformatMessageString_UnmarshalJSON ord))) (map_of (rev kvs) ''initialState'') None (GraphTraversal.InitialState strct) \<and>
     field_ok (json_Unmarshal_ptr (PropertyBag_UnmarshalJSON ord)) (map_of (rev kvs) ''properties'') None (GraphTraversal.Properties strct) \<and>
     field_ok json_Unmarshal_int (map_of (rev kvs) ''resultGraphIndex'') 0 (GraphTraversal.ResultGraphIndex strct) \<and>
     field_ok json_Unmarshal_int (map_of (rev kvs) ''runGraphIndex'') 0 (GraphTraversal.RunGraphIndex strct)"
proof -
  have "fst ` set (members ord kvs) \<subseteq> set GraphTraversal_keys"
    by (rule loop_keys_known [OF loop]) (rule GraphTraversal_cases_keys)
  then have keys: "dom (map_of (rev kvs)) \<subseteq> set GraphTraversal_keys"
    by (simp add: dom_members [of kvs ord])
  note fld = field_after_loop [OF _ members_distinct loop, unfolded map_of_members]
  show ?thesis
    using keys fld [OF GraphTraversal_fields(1)] fld [OF GraphTraversal_fields(2)] fld [OF GraphTraversal_fields(3)] fld [OF GraphTraversal_fields(4)] fld [OF GraphTraversal_fields(5)] fld [OF GraphTraversal_fields(6)] fld [OF GraphTraversal_fields(7)] 
    by (simp only: prod.case GraphTraversal_zero_def GraphTraversal.select_convs simp_thms)
qed

lemma GraphTraversal_decodesD:
  assumes "GraphTraversal_decodes ord m strct"
  shows "dom m \<subseteq> set GraphTraversal_keys"
    and "field_ok (json_Unmarshal_ptr (Message_UnmarshalJSON ord)) (m ''description'') None (GraphTraversal.Description strct)"
    and "field_ok (json_Unmarshal_slice (json_Unmarshal_ptr (EdgeTraversal_UnmarshalJSON ord))) (m ''edgeTraversals'') None (GraphTraversal.EdgeTraversals strct)"
    and "field_ok (json_Unmarshal_map (json_Unmarshal_ptr (MultiformatMessageString_UnmarshalJSON ord))) (m ''immutableState'') None (GraphTraversal.ImmutableState strct)"
    and "field_ok (json_Unmarshal_map (json_Unmarshal_ptr (MultiformatMessageString_UnmarshalJSON ord))) (m ''initialState'') None (GraphTraversal.InitialState strct)"
    and "field_ok (json_Unmarshal_ptr (PropertyBag_UnmarshalJSON ord)) (m ''properties'') None (GraphTraversal.Properties strct)"
    and "field_ok json_Unmarshal_int (m ''resultGraphIndex'') 0 (GraphTraversal.ResultGraphIndex strct)"
    and "field_ok json_Unmarshal_int (m ''runGraphIndex'') 0 (GraphTraversal.RunGraphIndex strct)"
  using assms unfolding GraphTraversal_decodes_def by - (elim conjE, assumption)+

lemma GraphTraversal_decodes_unique:
  assumes "GraphTraversal_decodes ord m a" and "GraphTraversal_decodes ord m b"
  shows "a = b"
  apply (rule GraphTraversal.equality)
  apply (rule field_ok_unique [OF GraphTraversal_decodesD(2) [OF assms(1)] GraphTraversal_decodesD(2) [OF assms(2)]])
  apply (rule field_ok_unique [OF GraphTraversal_decodesD(3) [OF assms(1)] GraphTraversal_decodesD(3) [OF assms(2)]])
  apply (rule field_ok_unique [OF GraphTraversal_decodesD(4) [OF assms(1)] GraphTraversal_decodesD(4) [OF assms(2)]])
  apply (rule field_ok_unique [OF GraphTraversal_decodesD(5) [OF assms(1)] GraphTraversal_decodesD(5) [OF assms(2)]])
  apply (rule field_ok_unique [OF GraphTraversal_decodesD(6) [OF assms(1)] GraphTraversal_decodesD(6) [OF assms(2)]])
  apply (rule field_ok_unique [OF GraphTraversal_decodesD(7) [OF assms(1)] GraphTraversal_decodesD(7) [OF assms(2)]])
  apply (rule field_ok_unique [OF GraphTraversal_decodesD(8) [OF assms(1)] GraphTraversal_decodesD(8) [OF assms(2)]])
  apply simp
  done

lemma GraphTraversal_accepts:
  assumes "GraphTraversal_decodes ord m strct" and "m k = Some v"
  shows "accepting (switch k (GraphTraversal_cases ord v) (reject k))"
proof -
  from assms have "k \<in> set GraphTraversal_keys" by (auto simp: GraphTraversal_decodes_def)
  then have key: "k \<in> fst ` set (GraphTraversal_cases ord v)"
    by (simp only: GraphTraversal_cases_keys)
  have rows: "list_all (\<lambda>(c, h). m c = Some v \<longrightarrow> accepting h) (GraphTraversal_cases ord v)"
    unfolding GraphTraversal_cases_def list.pred_inject
    apply (rule conjI [OF accept_row [where m = m and v = v, OF GraphTraversal_decodesD(2) [OF assms(1)]]])
    apply (rule conjI [OF accept_row [where m = m and v = v, OF GraphTraversal_decodesD(3) [OF assms(1)]]])
    apply (rule conjI [OF accept_row [where m = m and v = v, OF GraphTraversal_decodesD(4) [OF assms(1)]]])
    apply (rule conjI [OF accept_row [where m = m and v = v, OF GraphTraversal_decodesD(5) [OF assms(1)]]])
    apply (rule conjI [OF accept_row [where m = m and v = v, OF GraphTraversal_decodesD(6) [OF assms(1)]]])
    apply (rule conjI [OF accept_row [where m = m and v = v, OF GraphTraversal_decodesD(7) [OF assms(1)]]])
    apply (rule conjI [OF accept_row [where m = m and v = v, OF GraphTraversal_decodesD(8) [OF assms(1)]]])
    apply simp
    done
  show ?thesis by (rule rows_accept [OF rows assms(2) key])
qed

lemma GraphTraversal_decode_iff:
  "GraphTraversal_UnmarshalJSON ord (JObj kvs) = Inr strct \<longleftrightarrow>
   GraphTraversal_decodes ord (map_of (rev kvs)) strct"
proof
  assume "GraphTraversal_UnmarshalJSON ord (JObj kvs) = Inr strct"
  then have loop: "range_loop (\<lambda>k v. switch k (GraphTraversal_cases ord v) (reject k)) (members ord kvs) GraphTraversal_zero = Inr strct"
    by (auto simp: GraphTraversal_UnmarshalJSON_def members_def split: sum.splits)
  from GraphTraversal_loop_sound [OF loop]
  show "GraphTraversal_decodes ord (map_of (rev kvs)) strct"
    by (simp add: GraphTraversal_decodes_def)
next
  assume d: "GraphTraversal_decodes ord (map_of (rev kvs)) strct"
  have "\<exists>t. range_loop (\<lambda>k v. switch k (GraphTraversal_cases ord v) (reject k)) (members ord kvs) GraphTraversal_zero = Inr t"
  proof (rule loop_succeeds [OF GraphTraversal_regular])
    fix k v assume "(k, v) \<in> set (members ord kvs)"
    then have "map_of (rev kvs) k = Some v" by (rule member_lookup)
    from GraphTraversal_accepts [OF d this]
    show "accepting (switch k (GraphTraversal_cases ord v) (reject k))" .
  qed
  then obtain strct' where
    loop: "range_loop (\<lambda>k v. switch k (GraphTraversal_cases ord v) (reject k)) (members ord kvs) GraphTraversal_zero = Inr strct'" ..
  from GraphTraversal_loop_sound [OF loop]
  have d': "GraphTraversal_decodes ord (map_of (rev kvs)) strct'"
    by (simp add: GraphTraversal_decodes_def)
  from GraphTraversal_decodes_unique [OF d' d] have "strct' = strct" .
  with loop show "GraphTraversal_UnmarshalJSON ord (JObj kvs) = Inr strct"
    by (simp add: GraphTraversal_UnmarshalJSON_def members_def)
qed

definition GraphTraversal_results :: "scanner \<Rightarrow> order \<Rightarrow> GraphTraversal \<Rightarrow> (string \<times> (error + json)) list" where
  "GraphTraversal_results scn ord strct =
     [(''description'', json_Marshal_ptr ''*sarif.Message'' (Message_MarshalJSON scn ord) (GraphTraversal.Description strct)),
      (''edgeTraversals'', json_Marshal_slice (json_Marshal_ptr ''*sarif.EdgeTraversal'' (EdgeTraversal_MarshalJSON scn ord)) (GraphTraversal.EdgeTraversals strct)),
      (''immutableState'', json_Marshal_map (json_Marshal_ptr ''*sarif.MultiformatMessageString'' (MultiformatMessageString_MarshalJSON scn ord)) (GraphTraversal.ImmutableState strct)),
      (''initialState'', json_Marshal_map (json_Marshal_ptr ''*sarif.MultiformatMessageString'' (MultiformatMessageString_MarshalJSON scn ord)) (GraphTraversal.InitialState strct)),
      (''properties'', json_Marshal_bytes ''*sarif.PropertyBag'' (PropertyBag_MarshalJSON scn ord) (GraphTraversal.Properties strct)),
      (''resultGraphIndex'', json_Marshal_int (GraphTraversal.ResultGraphIndex strct)),
      (''runGraphIndex'', json_Marshal_int (GraphTraversal.RunGraphIndex strct))]"

lemma GraphTraversal_MarshalJSON_results:
  "GraphTraversal_MarshalJSON scn ord strct = object (emit_all (GraphTraversal_results scn ord strct))"
  by (simp add: GraphTraversal_MarshalJSON_def GraphTraversal_results_def emit_nilcheck)

lemma GraphTraversal_keys_written:
  "GraphTraversal_MarshalJSON scn ord strct = Inr j \<Longrightarrow> \<exists>kvs. j = JObj kvs \<and> map fst kvs = GraphTraversal_keys"
  using keys_written [of "GraphTraversal_results scn ord strct" j]
  by (simp add: GraphTraversal_MarshalJSON_results GraphTraversal_results_def GraphTraversal_keys_def)

definition GraphTraversal_encodable :: "scanner \<Rightarrow> order \<Rightarrow> GraphTraversal \<Rightarrow> bool" where
  "GraphTraversal_encodable scn ord strct \<longleftrightarrow>
     ptr_all (Message_encodable scn ord) (GraphTraversal.Description strct) \<and>
     slice_all (ptr_all (EdgeTraversal_encodable scn ord)) (GraphTraversal.EdgeTraversals strct) \<and>
     map_all (ptr_all (MultiformatMessageString_encodable scn ord)) (GraphTraversal.ImmutableState strct) \<and>
     map_all (ptr_all (MultiformatMessageString_encodable scn ord)) (GraphTraversal.InitialState strct) \<and>
     ptr_all (PropertyBag_encodable scn ord) (GraphTraversal.Properties strct)"

lemma GraphTraversal_fails_unless: "fails_unless (GraphTraversal_MarshalJSON scn ord) (GraphTraversal_encodable scn ord)"
  unfolding fails_unless_def GraphTraversal_MarshalJSON_results GraphTraversal_results_def GraphTraversal_encodable_def isl_object_emit_all
  by (auto simp add: always_simps
      fails_unlessD [OF fails_unless_ptr [OF Message_fails_unless]]
      fails_unlessD [OF fails_unless_slice [OF fails_unless_ptr [OF EdgeTraversal_fails_unless]]]
      fails_unlessD [OF fails_unless_map [OF fails_unless_ptr [OF MultiformatMessageString_fails_unless]]]
      fails_unlessD [OF PropertyBag_field_fails_unless]
      fails_unlessD [OF fails_unless_int])

definition GraphTraversal_valid :: "GraphTraversal \<Rightarrow> bool" where
  "GraphTraversal_valid strct \<longleftrightarrow>
     ptr_all Message_valid (GraphTraversal.Description strct) \<and>
     slice_all (ptr_all EdgeTraversal_valid) (GraphTraversal.EdgeTraversals strct) \<and>
     map_valid (ptr_all MultiformatMessageString_valid) (GraphTraversal.ImmutableState strct) \<and>
     map_valid (ptr_all MultiformatMessageString_valid) (GraphTraversal.InitialState strct) \<and>
     ptr_all PropertyBag_valid (GraphTraversal.Properties strct)"

lemma GraphTraversal_keys_distinct: "distinct GraphTraversal_keys"
  by (simp add: GraphTraversal_keys_def)

lemma GraphTraversal_round_trips:
  "round_trips_object (GraphTraversal_MarshalJSON scn ord) (GraphTraversal_UnmarshalJSON ord') GraphTraversal_valid"
  unfolding round_trips_object_def
proof (intro allI impI)
  fix strct assume v: "GraphTraversal_valid strct"
  note v' = v [unfolded GraphTraversal_valid_def]
  let ?rs = "GraphTraversal_results scn ord strct"
  let ?kvs = "map (\<lambda>e. (fst e, projr (snd e))) ?rs"
  have f0: "\<not> isl (json_Marshal_ptr ''*sarif.Message'' (Message_MarshalJSON scn ord) (GraphTraversal.Description strct)) \<and>
      json_Unmarshal_ptr (Message_UnmarshalJSON ord') (projr (json_Marshal_ptr ''*sarif.Message'' (Message_MarshalJSON scn ord) (GraphTraversal.Description strct))) = Inr (GraphTraversal.Description strct)"
    by (rule round_tripsD [OF round_trips_ptr [OF Message_round_trips]]) (use v' in simp)
  have f1: "\<not> isl (json_Marshal_slice (json_Marshal_ptr ''*sarif.EdgeTraversal'' (EdgeTraversal_MarshalJSON scn ord)) (GraphTraversal.EdgeTraversals strct)) \<and>
      json_Unmarshal_slice (json_Unmarshal_ptr (EdgeTraversal_UnmarshalJSON ord')) (projr (json_Marshal_slice (json_Marshal_ptr ''*sarif.EdgeTraversal'' (EdgeTraversal_MarshalJSON scn ord)) (GraphTraversal.EdgeTraversals strct))) = Inr (GraphTraversal.EdgeTraversals strct)"
    by (rule round_tripsD [OF round_trips_slice [OF round_trips_ptr [OF EdgeTraversal_round_trips]]]) (use v' in simp)
  have f2: "\<not> isl (json_Marshal_map (json_Marshal_ptr ''*sarif.MultiformatMessageString'' (MultiformatMessageString_MarshalJSON scn ord)) (GraphTraversal.ImmutableState strct)) \<and>
      json_Unmarshal_map (json_Unmarshal_ptr (MultiformatMessageString_UnmarshalJSON ord')) (projr (json_Marshal_map (json_Marshal_ptr ''*sarif.MultiformatMessageString'' (MultiformatMessageString_MarshalJSON scn ord)) (GraphTraversal.ImmutableState strct))) = Inr (GraphTraversal.ImmutableState strct)"
    by (rule round_tripsD [OF round_trips_map [OF round_trips_ptr [OF MultiformatMessageString_round_trips]]]) (use v' in simp)
  have f3: "\<not> isl (json_Marshal_map (json_Marshal_ptr ''*sarif.MultiformatMessageString'' (MultiformatMessageString_MarshalJSON scn ord)) (GraphTraversal.InitialState strct)) \<and>
      json_Unmarshal_map (json_Unmarshal_ptr (MultiformatMessageString_UnmarshalJSON ord')) (projr (json_Marshal_map (json_Marshal_ptr ''*sarif.MultiformatMessageString'' (MultiformatMessageString_MarshalJSON scn ord)) (GraphTraversal.InitialState strct))) = Inr (GraphTraversal.InitialState strct)"
    by (rule round_tripsD [OF round_trips_map [OF round_trips_ptr [OF MultiformatMessageString_round_trips]]]) (use v' in simp)
  have f4: "\<not> isl (json_Marshal_bytes ''*sarif.PropertyBag'' (PropertyBag_MarshalJSON scn ord) (GraphTraversal.Properties strct)) \<and>
      json_Unmarshal_ptr (PropertyBag_UnmarshalJSON ord') (projr (json_Marshal_bytes ''*sarif.PropertyBag'' (PropertyBag_MarshalJSON scn ord) (GraphTraversal.Properties strct))) = Inr (GraphTraversal.Properties strct)"
    by (rule round_tripsD [OF PropertyBag_field_round_trips]) (use v' in simp)
  have f5: "\<not> isl (json_Marshal_int (GraphTraversal.ResultGraphIndex strct)) \<and>
      json_Unmarshal_int (projr (json_Marshal_int (GraphTraversal.ResultGraphIndex strct))) = Inr (GraphTraversal.ResultGraphIndex strct)"
    by (rule round_tripsD [OF round_trips_int]) (use v' in simp)
  have f6: "\<not> isl (json_Marshal_int (GraphTraversal.RunGraphIndex strct)) \<and>
      json_Unmarshal_int (projr (json_Marshal_int (GraphTraversal.RunGraphIndex strct))) = Inr (GraphTraversal.RunGraphIndex strct)"
    by (rule round_tripsD [OF round_trips_int]) (use v' in simp)
  note fs = f0 f1 f2 f3 f4 f5 f6
  have rs: "?rs =
     [(''description'', json_Marshal_ptr ''*sarif.Message'' (Message_MarshalJSON scn ord) (GraphTraversal.Description strct)),
      (''edgeTraversals'', json_Marshal_slice (json_Marshal_ptr ''*sarif.EdgeTraversal'' (EdgeTraversal_MarshalJSON scn ord)) (GraphTraversal.EdgeTraversals strct)),
      (''immutableState'', json_Marshal_map (json_Marshal_ptr ''*sarif.MultiformatMessageString'' (MultiformatMessageString_MarshalJSON scn ord)) (GraphTraversal.ImmutableState strct)),
      (''initialState'', json_Marshal_map (json_Marshal_ptr ''*sarif.MultiformatMessageString'' (MultiformatMessageString_MarshalJSON scn ord)) (GraphTraversal.InitialState strct)),
      (''properties'', json_Marshal_bytes ''*sarif.PropertyBag'' (PropertyBag_MarshalJSON scn ord) (GraphTraversal.Properties strct)),
      (''resultGraphIndex'', json_Marshal_int (GraphTraversal.ResultGraphIndex strct)),
      (''runGraphIndex'', json_Marshal_int (GraphTraversal.RunGraphIndex strct))]"
    by (auto simp add: GraphTraversal_results_def)
  have keys: "map fst ?rs = GraphTraversal_keys"
    by (simp add: GraphTraversal_results_def GraphTraversal_keys_def)
  then have dist: "distinct (map fst ?rs)"
    by (simp only: GraphTraversal_keys_distinct)
  have ok: "list_all (\<lambda>e. \<not> isl (snd e)) ?rs"
    unfolding rs by (simp only: list.pred_inject snd_conv fs simp_thms)
  then have enc: "GraphTraversal_MarshalJSON scn ord strct = Inr (JObj ?kvs)"
    by (simp add: GraphTraversal_MarshalJSON_results [of scn ord strct] object_emit_all_eq_Inr)
  have l0: "map_of (rev ?kvs) ''description'' = Some (projr (json_Marshal_ptr ''*sarif.Message'' (Message_MarshalJSON scn ord) (GraphTraversal.Description strct)))"
    by (rule written_lookup [OF dist]) (subst rs, intro list.set_intros)
  have l1: "map_of (rev ?kvs) ''edgeTraversals'' = Some (projr (json_Marshal_slice (json_Marshal_ptr ''*sarif.EdgeTraversal'' (EdgeTraversal_MarshalJSON scn ord)) (GraphTraversal.EdgeTraversals strct)))"
    by (rule written_lookup [OF dist]) (subst rs, intro list.set_intros)
  have l2: "map_of (rev ?kvs) ''immutableState'' = Some (projr (json_Marshal_map (json_Marshal_ptr ''*sarif.MultiformatMessageString'' (MultiformatMessageString_MarshalJSON scn ord)) (GraphTraversal.ImmutableState strct)))"
    by (rule written_lookup [OF dist]) (subst rs, intro list.set_intros)
  have l3: "map_of (rev ?kvs) ''initialState'' = Some (projr (json_Marshal_map (json_Marshal_ptr ''*sarif.MultiformatMessageString'' (MultiformatMessageString_MarshalJSON scn ord)) (GraphTraversal.InitialState strct)))"
    by (rule written_lookup [OF dist]) (subst rs, intro list.set_intros)
  have l4: "map_of (rev ?kvs) ''properties'' = Some (projr (json_Marshal_bytes ''*sarif.PropertyBag'' (PropertyBag_MarshalJSON scn ord) (GraphTraversal.Properties strct)))"
    by (rule written_lookup [OF dist]) (subst rs, intro list.set_intros)
  have l5: "map_of (rev ?kvs) ''resultGraphIndex'' = Some (projr (json_Marshal_int (GraphTraversal.ResultGraphIndex strct)))"
    by (rule written_lookup [OF dist]) (subst rs, intro list.set_intros)
  have l6: "map_of (rev ?kvs) ''runGraphIndex'' = Some (projr (json_Marshal_int (GraphTraversal.RunGraphIndex strct)))"
    by (rule written_lookup [OF dist]) (subst rs, intro list.set_intros)
  have dec: "GraphTraversal_decodes ord' (map_of (rev ?kvs)) strct"
    unfolding GraphTraversal_decodes_def l0 l1 l2 l3 l4 l5 l6
    by (simp only: field_ok_Some fs written_dom keys subset_refl option.simps simp_thms)
  then have "GraphTraversal_UnmarshalJSON ord' (JObj ?kvs) = Inr strct"
    by (simp only: GraphTraversal_decode_iff)
  with enc show "rt_object (GraphTraversal_MarshalJSON scn ord) (GraphTraversal_UnmarshalJSON ord') strct"
    unfolding rt_object_def by blast
qed

definition GraphTraversal_small_bags :: "GraphTraversal \<Rightarrow> bool" where
  "GraphTraversal_small_bags strct \<longleftrightarrow>
     ptr_all Message_small_bags (GraphTraversal.Description strct) \<and>
     slice_all (ptr_all EdgeTraversal_small_bags) (GraphTraversal.EdgeTraversals strct) \<and>
     map_all (ptr_all MultiformatMessageString_small_bags) (GraphTraversal.ImmutableState strct) \<and>
     map_all (ptr_all MultiformatMessageString_small_bags) (GraphTraversal.InitialState strct) \<and>
     ptr_all PropertyBag_small_bags (GraphTraversal.Properties strct)"

lemma GraphTraversal_same_output:
  "same_output (GraphTraversal_MarshalJSON scn ord) (GraphTraversal_MarshalJSON scn ord') GraphTraversal_small_bags"
  unfolding same_output_def
proof (intro allI impI)
  fix strct assume v: "GraphTraversal_small_bags strct"
  note v' = v [unfolded GraphTraversal_small_bags_def]
  have e0: "json_Marshal_ptr ''*sarif.Message'' (Message_MarshalJSON scn ord) (GraphTraversal.Description strct) =
      json_Marshal_ptr ''*sarif.Message'' (Message_MarshalJSON scn ord') (GraphTraversal.Description strct)"
    by (rule same_outputD [OF same_output_ptr [OF Message_same_output]]) (use v' in simp)
  have e1: "json_Marshal_slice (json_Marshal_ptr ''*sarif.EdgeTraversal'' (EdgeTraversal_MarshalJSON scn ord)) (GraphTraversal.EdgeTraversals strct) =
      json_Marshal_slice (json_Marshal_ptr ''*sarif.EdgeTraversal'' (EdgeTraversal_MarshalJSON scn ord')) (GraphTraversal.EdgeTraversals strct)"
    by (rule same_outputD [OF same_output_slice [OF same_output_ptr [OF EdgeTraversal_same_output]]]) (use v' in simp)
  have e2: "json_Marshal_map (json_Marshal_ptr ''*sarif.MultiformatMessageString'' (MultiformatMessageString_MarshalJSON scn ord)) (GraphTraversal.ImmutableState strct) =
      json_Marshal_map (json_Marshal_ptr ''*sarif.MultiformatMessageString'' (MultiformatMessageString_MarshalJSON scn ord')) (GraphTraversal.ImmutableState strct)"
    by (rule same_outputD [OF same_output_map [OF same_output_ptr [OF MultiformatMessageString_same_output]]]) (use v' in simp)
  have e3: "json_Marshal_map (json_Marshal_ptr ''*sarif.MultiformatMessageString'' (MultiformatMessageString_MarshalJSON scn ord)) (GraphTraversal.InitialState strct) =
      json_Marshal_map (json_Marshal_ptr ''*sarif.MultiformatMessageString'' (MultiformatMessageString_MarshalJSON scn ord')) (GraphTraversal.InitialState strct)"
    by (rule same_outputD [OF same_output_map [OF same_output_ptr [OF MultiformatMessageString_same_output]]]) (use v' in simp)
  have e4: "json_Marshal_bytes ''*sarif.PropertyBag'' (PropertyBag_MarshalJSON scn ord) (GraphTraversal.Properties strct) =
      json_Marshal_bytes ''*sarif.PropertyBag'' (PropertyBag_MarshalJSON scn ord') (GraphTraversal.Properties strct)"
    by (rule same_outputD [OF PropertyBag_field_same_output]) (use v' in simp)
  show "GraphTraversal_MarshalJSON scn ord strct = GraphTraversal_MarshalJSON scn ord' strct"
    by (simp only: GraphTraversal_MarshalJSON_def e0 e1 e2 e3 e4)
qed

lemma GraphTraversal_writes_keys: "writes_keys (GraphTraversal_MarshalJSON scn ord) GraphTraversal_keys"
  unfolding writes_keys_def by (intro allI impI) (erule GraphTraversal_keys_written)

lemma GraphTraversal_unknown_key:
  assumes new: "k \<notin> set GraphTraversal_keys" and key: "k \<in> fst ` set kvs"
    and rest: "GraphTraversal_UnmarshalJSON ord (JObj (filter (\<lambda>e. fst e \<noteq> k) kvs)) = Inr strct"
  shows "GraphTraversal_UnmarshalJSON ord (JObj kvs) = Inl (not_allowed k)"
proof -
  have rej: "switch k (GraphTraversal_cases ord v) (reject k) s = Inl (not_allowed k)" for v s
    by (rule switch_rejects) (simp only: GraphTraversal_cases_keys new not_False_eq_True)
  from rest obtain t where
    "range_loop (\<lambda>k v. switch k (GraphTraversal_cases ord v) (reject k)) (members ord (filter (\<lambda>e. fst e \<noteq> k) kvs)) GraphTraversal_zero = Inr t"
    by (cases "range_loop (\<lambda>k v. switch k (GraphTraversal_cases ord v) (reject k)) (members ord (filter (\<lambda>e. fst e \<noteq> k) kvs)) GraphTraversal_zero")
       (simp_all add: GraphTraversal_UnmarshalJSON_def members_def)
  from unknown_key_named [OF GraphTraversal_regular rej key this]
  show ?thesis by (simp add: GraphTraversal_UnmarshalJSON_def members_def)
qed

lemma GraphTraversal_unknown_key_fails:
  assumes "k \<notin> set GraphTraversal_keys" and "k \<in> fst ` set kvs"
  shows "isl (GraphTraversal_UnmarshalJSON ord (JObj kvs))"
proof (cases "GraphTraversal_UnmarshalJSON ord (JObj kvs)")
  case (Inr strct)
  then have "dom (map_of (rev kvs)) \<subseteq> set GraphTraversal_keys"
    by (simp only: GraphTraversal_decode_iff GraphTraversal_decodesD(1))
  with assms show ?thesis by (auto simp: dom_map_of_conv_image_fst)
qed simp

lemma GraphTraversal_rejects_unknown_keys: "rejects_unknown_keys (GraphTraversal_UnmarshalJSON ord) GraphTraversal_keys"
  by (rule rejects_unknown_keysI) (erule (1) GraphTraversal_unknown_key_fails, erule (2) GraphTraversal_unknown_key)

subsection \<open>Suppression: decoding and encoding\<close>

definition Suppression_keys :: "string list" where
  "Suppression_keys = [''guid'', ''justification'', ''kind'', ''location'', ''properties'', ''state'']"

definition Suppression_decodes :: "order \<Rightarrow> (string \<rightharpoonup> json) \<Rightarrow> Suppression \<Rightarrow> bool" where
  "Suppression_decodes ord m strct \<longleftrightarrow>
     dom m \<subseteq> set Suppression_keys \<and>
     field_ok json_Unmarshal_string (m ''guid'') [] (Suppression.Guid strct) \<and>
     field_ok json_Unmarshal_string (m ''justification'') [] (Suppression.Justification strct) \<and>
     field_ok json_Unmarshal_string (m ''kind'') [] (Suppression.Kind strct) \<and>
     field_ok (json_Unmarshal_ptr (Location_UnmarshalJSON ord)) (m ''location'') None (Suppression.Location strct) \<and>
     field_ok (json_Unmarshal_ptr (PropertyBag_UnmarshalJSON ord)) (m ''properties'') None (Suppression.Properties strct) \<and>
     field_ok json_Unmarshal_string (m ''state'') [] (Suppression.State strct) \<and>
     m ''kind'' \<noteq> None"

lemma Suppression_cases_keys: "fst ` set (Suppression_cases ord v) = set Suppression_keys"
  by (rule keys_image) (simp add: Suppression_cases_def Suppression_keys_def)

lemma Suppression_regular: "regular (\<lambda>k v. switch k (Suppression_cases ord v) (reject k))"
  by (rule regular_switch) (simp add: Suppression_cases_def)

lemma Suppression_fields:
  "field_case (Suppression_cases ord) (\<lambda>(strct, kindReceived). Suppression.Guid strct) ''guid'' json_Unmarshal_string"
  "field_case (Suppression_cases ord) (\<lambda>(strct, kindReceived). Suppression.Justification strct) ''justification'' json_Unmarshal_string"
  "field_case (Suppression_cases ord) (\<lambda>(strct, kindReceived). Suppression.Kind strct) ''kind'' json_Unmarshal_string"
  "field_case (Suppression_cases ord) (\<lambda>(strct, kindReceived). Suppression.Location strct) ''location'' (json_Unmarshal_ptr (Location_UnmarshalJSON ord))"
  "field_case (Suppression_cases ord) (\<lambda>(strct, kindReceived). Suppression.Properties strct) ''properties'' (json_Unmarshal_ptr (PropertyBag_UnmarshalJSON ord))"
  "field_case (Suppression_cases ord) (\<lambda>(strct, kindReceived). Suppression.State strct) ''state'' json_Unmarshal_string"
  "field_case (Suppression_cases ord) (\<lambda>(strct, kindReceived). kindReceived) ''kind'' (received json_Unmarshal_string)"
  unfolding field_case_def Suppression_cases_def
  by (simp_all add: writes_into writes_received keeps_into split_def)

lemma Suppression_loop_sound:
  assumes loop: "range_loop (\<lambda>k v. switch k (Suppression_cases ord v) (reject k)) (members ord kvs) (Suppression_zero, False) = Inr (strct, kindReceived)"
  shows "dom (map_of (rev kvs)) \<subseteq> set Suppression_keys \<and>
     field_ok json_Unmarshal_string (map_of (rev kvs) ''guid'') [] (Suppression.Guid strct) \<and>
     field_ok json_Unmarshal_string (map_of (rev kvs) ''justification'') [] (Suppression.Justification strct) \<and>
     field_ok json_Unmarshal_string (map_of (rev kvs) ''kind'') [] (Suppression.Kind strct) \<and>
     field_ok (json_Unmarshal_ptr (Location_UnmarshalJSON ord)) (map_of (rev kvs) ''location'') None (Suppression.Location strct) \<and>
     field_ok (json_Unmarshal_ptr (PropertyBag_UnmarshalJSON ord)) (map_of (rev kvs) ''properties'') None (Suppression.Properties strct) \<and>
     field_ok json_Unmarshal_string (map_of (rev kvs) ''state'') [] (Suppression.State strct) \<and>
     (kindReceived \<longleftrightarrow> map_of (rev kvs) ''kind'' \<noteq> None)"
proof -
  have "fst ` set (members ord kvs) \<subseteq> set Suppression_keys"
    by (rule loop_keys_known [OF loop]) (rule Suppression_cases_keys)
  then have keys: "dom (map_of (rev kvs)) \<subseteq> set Suppression_keys"
    by (simp add: dom_members [of kvs ord])
  note fld = field_after_loop [OF _ members_distinct loop, unfolded map_of_members]
  note flg = flag_after_loop [OF _ members_distinct loop, unfolded map_of_members]
  show ?thesis
    using keys fld [OF Suppression_fields(1)] fld [OF Suppression_fields(2)] fld [OF Suppression_fields(3)] fld [OF Suppression_fields(4)] fld [OF Suppression_fields(5)] fld [OF Suppression_fields(6)] flg [OF Suppression_fields(7)]
    by (simp only: prod.case Suppression_zero_def Suppression.select_convs simp_thms)
qed

lemma Suppression_decodesD:
  assumes "Suppression_decodes ord m strct"
  shows "dom m \<subseteq> set Suppression_keys"
    and "field_ok json_Unmarshal_string (m ''guid'') [] (Suppression.Guid strct)"
    and "field_ok json_Unmarshal_string (m ''justification'') [] (Suppression.Justification strct)"
    and "field_ok json_Unmarshal_string (m ''kind'') [] (Suppression.Kind strct)"
    and "field_ok (json_Unmarshal_ptr (Location_UnmarshalJSON ord)) (m ''location'') None (Suppression.Location strct)"
    and "field_ok (json_Unmarshal_ptr (PropertyBag_UnmarshalJSON ord)) (m ''properties'') None (Suppression.Properties strct)"
    and "field_ok json_Unmarshal_string (m ''state'') [] (Suppression.State strct)"
    and "m ''kind'' \<noteq> None"
  using assms unfolding Suppression_decodes_def by - (elim conjE, assumption)+

lemma Suppression_decodes_unique:
  assumes "Suppression_decodes ord m a" and "Suppression_decodes ord m b"
  shows "a = b"
  apply (rule Suppression.equality)
  apply (rule field_ok_unique [OF Suppression_decodesD(2) [OF assms(1)] Suppression_decodesD(2) [OF assms(2)]])
  apply (rule field_ok_unique [OF Suppression_decodesD(3) [OF assms(1)] Suppression_decodesD(3) [OF assms(2)]])
  apply (rule field_ok_unique [OF Suppression_decodesD(4) [OF assms(1)] Suppression_decodesD(4) [OF assms(2)]])
  apply (rule field_ok_unique [OF Suppression_decodesD(5) [OF assms(1)] Suppression_decodesD(5) [OF assms(2)]])
  apply (rule field_ok_unique [OF Suppression_decodesD(6) [OF assms(1)] Suppression_decodesD(6) [OF assms(2)]])
  apply (rule field_ok_unique [OF Suppression_decodesD(7) [OF assms(1)] Suppression_decodesD(7) [OF assms(2)]])
  apply simp
  done

lemma Suppression_accepts:
  assumes "Suppression_decodes ord m strct" and "m k = Some v"
  shows "accepting (switch k (Suppression_cases ord v) (reject k))"
proof -
  from assms have "k \<in> set Suppression_keys" by (auto simp: Suppression_decodes_def)
  then have key: "k \<in> fst ` set (Suppression_cases ord v)"
    by (simp only: Suppression_cases_keys)
  have rows: "list_all (\<lambda>(c, h). m c = Some v \<longrightarrow> accepting h) (Suppression_cases ord v)"
    unfolding Suppression_cases_def list.pred_inject
    apply (rule conjI [OF accept_row [where m = m and v = v, OF Suppression_decodesD(2) [OF assms(1)]]])
    apply (rule conjI [OF accept_row [where m = m and v = v, OF Suppression_decodesD(3) [OF assms(1)]]])
    apply (rule conjI [OF accept_row [where m = m and v = v, OF Suppression_decodesD(4) [OF assms(1)]]])
    apply (rule conjI [OF accept_row [where m = m and v = v, OF Suppression_decodesD(5) [OF assms(1)]]])
    apply (rule conjI [OF accept_row [where m = m and v = v, OF Suppression_decodesD(6) [OF assms(1)]]])
    apply (rule conjI [OF accept_row [where m = m and v = v, OF Suppression_decodesD(7) [OF assms(1)]]])
    apply simp
    done
  show ?thesis by (rule rows_accept [OF rows assms(2) key])
qed

lemma Suppression_decode_iff:
  "Suppression_UnmarshalJSON ord (JObj kvs) = Inr strct \<longleftrightarrow>
   Suppression_decodes ord (map_of (rev kvs)) strct"
proof
  assume "Suppression_UnmarshalJSON ord (JObj kvs) = Inr strct"
  then obtain kindReceived where
    loop: "range_loop (\<lambda>k v. switch k (Suppression_cases ord v) (reject k)) (members ord kvs) (Suppression_zero, False) = Inr (strct, kindReceived)"
    and fin: "kindReceived"
    by (auto simp: Suppression_UnmarshalJSON_def members_def split: sum.splits if_splits)
  from Suppression_loop_sound [OF loop] fin
  show "Suppression_decodes ord (map_of (rev kvs)) strct"
    by (simp add: Suppression_decodes_def)
next
  assume d: "Suppression_decodes ord (map_of (rev kvs)) strct"
  have "\<exists>t. range_loop (\<lambda>k v. switch k (Suppression_cases ord v) (reject k)) (members ord kvs) (Suppression_zero, False) = Inr t"
  proof (rule loop_succeeds [OF Suppression_regular])
    fix k v assume "(k, v) \<in> set (members ord kvs)"
    then have "map_of (rev kvs) k = Some v" by (rule member_lookup)
    from Suppression_accepts [OF d this]
    show "accepting (switch k (Suppression_cases ord v) (reject k))" .
  qed
  then obtain t where "range_loop (\<lambda>k v. switch k (Suppression_cases ord v) (reject k)) (members ord kvs) (Suppression_zero, False) = Inr t" ..
  then obtain strct' kindReceived where
    loop: "range_loop (\<lambda>k v. switch k (Suppression_cases ord v) (reject k)) (members ord kvs) (Suppression_zero, False) = Inr (strct', kindReceived)"
    by (cases t) auto
  from Suppression_loop_sound [OF loop] d
  have fin: "kindReceived"
    and d': "Suppression_decodes ord (map_of (rev kvs)) strct'"
    by (simp_all add: Suppression_decodes_def)
  from Suppression_decodes_unique [OF d' d] have "strct' = strct" .
  with loop fin show "Suppression_UnmarshalJSON ord (JObj kvs) = Inr strct"
    by (simp add: Suppression_UnmarshalJSON_def members_def)
qed

definition Suppression_results :: "scanner \<Rightarrow> order \<Rightarrow> Suppression \<Rightarrow> (string \<times> (error + json)) list" where
  "Suppression_results scn ord strct =
     [(''guid'', json_Marshal_string (Suppression.Guid strct)),
      (''justification'', json_Marshal_string (Suppression.Justification strct)),
      (''kind'', json_Marshal_string (Suppression.Kind strct)),
      (''location'', json_Marshal_ptr ''*sarif.Location'' (Location_MarshalJSON scn ord) (Suppression.Location strct)),
      (''properties'', json_Marshal_bytes ''*sarif.PropertyBag'' (PropertyBag_MarshalJSON scn ord) (Suppression.Properties strct)),
      (''state'', json_Marshal_string (Suppression.State strct))]"

lemma Suppression_MarshalJSON_results:
  "Suppression_MarshalJSON scn ord strct = object (emit_all (Suppression_results scn ord strct))"
  by (simp add: Suppression_MarshalJSON_def Suppression_results_def emit_nilcheck)

lemma Suppression_keys_written:
  "Suppression_MarshalJSON scn ord strct = Inr j \<Longrightarrow> \<exists>kvs. j = JObj kvs \<and> map fst kvs = Suppression_keys"
  using keys_written [of "Suppression_results scn ord strct" j]
  by (simp add: Suppression_MarshalJSON_results Suppression_results_def Suppression_keys_def)

definition Suppression_encodable :: "scanner \<Rightarrow> order \<Rightarrow> Suppression \<Rightarrow> bool" where
  "Suppression_encodable scn ord strct \<longleftrightarrow>
     ptr_all (Location_encodable scn ord) (Suppression.Location strct) \<and>
     ptr_all (PropertyBag_encodable scn ord) (Suppression.Properties strct)"

lemma Suppression_fails_unless: "fails_unless (Suppression_MarshalJSON scn ord) (Suppression_encodable scn ord)"
  unfolding fails_unless_def Suppression_MarshalJSON_results Suppression_results_def Suppression_encodable_def isl_object_emit_all
  by (auto simp add: always_simps
      fails_unlessD [OF fails_unless_string]
      fails_unlessD [OF fails_unless_ptr [OF Location_fails_unless]]
      fails_unlessD [OF PropertyBag_field_fails_unless])

definition Suppression_valid :: "Suppression \<Rightarrow> bool" where
  "Suppression_valid strct \<longleftrightarrow>
     ptr_all Location_valid (Suppression.Location strct) \<and>
     ptr_all PropertyBag_valid (Suppression.Properties strct)"

lemma Suppression_keys_distinct: "distinct Suppression_keys"
  by (simp add: Suppression_keys_def)

lemma Suppression_round_trips:
  "round_trips_object (Suppression_MarshalJSON scn ord) (Suppression_UnmarshalJSON ord') Suppression_valid"
  unfolding round_trips_object_def
proof (intro allI impI)
  fix strct assume v: "Suppression_valid strct"
  note v' = v [unfolded Suppression_valid_def]
  let ?rs = "Suppression_results scn ord strct"
  let ?kvs = "map (\<lambda>e. (fst e, projr (snd e))) ?rs"
  have f0: "\<not> isl (json_Marshal_string (Suppression.Guid strct)) \<and>
      json_Unmarshal_string (projr (json_Marshal_string (Suppression.Guid strct))) = Inr (Suppression.Guid strct)"
    by (rule round_tripsD [OF round_trips_string]) (use v' in simp)
  have f1: "\<not> isl (json_Marshal_string (Suppression.Justification strct)) \<and>
      json_Unmarshal_string (projr (json_Marshal_string (Suppression.Justification strct))) = Inr (Suppression.Justification strct)"
    by (rule round_tripsD [OF round_trips_string]) (use v' in simp)
  have f2: "\<not> isl (json_Marshal_string (Suppression.Kind strct)) \<and>
      json_Unmarshal_string (projr (json_Marshal_string (Suppression.Kind strct))) = Inr (Suppression.Kind strct)"
    by (rule round_tripsD [OF round_trips_string]) (use v' in simp)
  have f3: "\<not> isl (json_Marshal_ptr ''*sarif.Location'' (Location_MarshalJSON scn ord) (Suppression.Location strct)) \<and>
      json_Unmarshal_ptr (Location_UnmarshalJSON ord') (projr (json_Marshal_ptr ''*sarif.Location'' (Location_MarshalJSON scn ord) (Suppression.Location strct))) = Inr (Suppression.Location strct)"
    by (rule round_tripsD [OF round_trips_ptr [OF Location_round_trips]]) (use v' in simp)
  have f4: "\<not> isl (json_Marshal_bytes ''*sarif.PropertyBag'' (PropertyBag_MarshalJSON scn ord) (Suppression.Properties strct)) \<and>
      json_Unmarshal_ptr (PropertyBag_UnmarshalJSON ord') (projr (json_Marshal_bytes ''*sarif.PropertyBag'' (PropertyBag_MarshalJSON scn ord) (Suppression.Properties strct))) = Inr (Suppression.Properties strct)"
    by (rule round_tripsD [OF PropertyBag_field_round_trips]) (use v' in simp)
  have f5: "\<not> isl (json_Marshal_string (Suppression.State strct)) \<and>
      json_Unmarshal_string (projr (json_Marshal_string (Suppression.State strct))) = Inr (Suppression.State strct)"
    by (rule round_tripsD [OF round_trips_string]) (use v' in simp)
  note fs = f0 f1 f2 f3 f4 f5
  have rs: "?rs =
     [(''guid'', json_Marshal_string (Suppression.Guid strct)),
      (''justification'', json_Marshal_string (Suppression.Justification strct)),
      (''kind'', json_Marshal_string (Suppression.Kind strct)),
      (''location'', json_Marshal_ptr ''*sarif.Location'' (Location_MarshalJSON scn ord) (Suppression.Location strct)),
      (''properties'', json_Marshal_bytes ''*sarif.PropertyBag'' (PropertyBag_MarshalJSON scn ord) (Suppression.Properties strct)),
      (''state'', json_Marshal_string (Suppression.State strct))]"
    by (auto simp add: Suppression_results_def)
  have keys: "map fst ?rs = Suppression_keys"
    by (simp add: Suppression_results_def Suppression_keys_def)
  then have dist: "distinct (map fst ?rs)"
    by (simp only: Suppression_keys_distinct)
  have ok: "list_all (\<lambda>e. \<not> isl (snd e)) ?rs"
    unfolding rs by (simp only: list.pred_inject snd_conv fs simp_thms)
  then have enc: "Suppression_MarshalJSON scn ord strct = Inr (JObj ?kvs)"
    by (simp add: Suppression_MarshalJSON_results [of scn ord strct] object_emit_all_eq_Inr)
  have l0: "map_of (rev ?kvs) ''guid'' = Some (projr (json_Marshal_string (Suppression.Guid strct)))"
    by (rule written_lookup [OF dist]) (subst rs, intro list.set_intros)
  have l1: "map_of (rev ?kvs) ''justification'' = Some (projr (json_Marshal_string (Suppression.Justification strct)))"
    by (rule written_lookup [OF dist]) (subst rs, intro list.set_intros)
  have l2: "map_of (rev ?kvs) ''kind'' = Some (projr (json_Marshal_string (Suppression.Kind strct)))"
    by (rule written_lookup [OF dist]) (subst rs, intro list.set_intros)
  have l3: "map_of (rev ?kvs) ''location'' = Some (projr (json_Marshal_ptr ''*sarif.Location'' (Location_MarshalJSON scn ord) (Suppression.Location strct)))"
    by (rule written_lookup [OF dist]) (subst rs, intro list.set_intros)
  have l4: "map_of (rev ?kvs) ''properties'' = Some (projr (json_Marshal_bytes ''*sarif.PropertyBag'' (PropertyBag_MarshalJSON scn ord) (Suppression.Properties strct)))"
    by (rule written_lookup [OF dist]) (subst rs, intro list.set_intros)
  have l5: "map_of (rev ?kvs) ''state'' = Some (projr (json_Marshal_string (Suppression.State strct)))"
    by (rule written_lookup [OF dist]) (subst rs, intro list.set_intros)
  have dec: "Suppression_decodes ord' (map_of (rev ?kvs)) strct"
    unfolding Suppression_decodes_def l0 l1 l2 l3 l4 l5
    by (simp only: field_ok_Some fs written_dom keys subset_refl option.simps simp_thms)
  then have "Suppression_UnmarshalJSON ord' (JObj ?kvs) = Inr strct"
    by (simp only: Suppression_decode_iff)
  with enc show "rt_object (Suppression_MarshalJSON scn ord) (Suppression_UnmarshalJSON ord') strct"
    unfolding rt_object_def by blast
qed

definition Suppression_small_bags :: "Suppression \<Rightarrow> bool" where
  "Suppression_small_bags strct \<longleftrightarrow>
     ptr_all Location_small_bags (Suppression.Location strct) \<and>
     ptr_all PropertyBag_small_bags (Suppression.Properties strct)"

lemma Suppression_same_output:
  "same_output (Suppression_MarshalJSON scn ord) (Suppression_MarshalJSON scn ord') Suppression_small_bags"
  unfolding same_output_def
proof (intro allI impI)
  fix strct assume v: "Suppression_small_bags strct"
  note v' = v [unfolded Suppression_small_bags_def]
  have e3: "json_Marshal_ptr ''*sarif.Location'' (Location_MarshalJSON scn ord) (Suppression.Location strct) =
      json_Marshal_ptr ''*sarif.Location'' (Location_MarshalJSON scn ord') (Suppression.Location strct)"
    by (rule same_outputD [OF same_output_ptr [OF Location_same_output]]) (use v' in simp)
  have e4: "json_Marshal_bytes ''*sarif.PropertyBag'' (PropertyBag_MarshalJSON scn ord) (Suppression.Properties strct) =
      json_Marshal_bytes ''*sarif.PropertyBag'' (PropertyBag_MarshalJSON scn ord') (Suppression.Properties strct)"
    by (rule same_outputD [OF PropertyBag_field_same_output]) (use v' in simp)
  show "Suppression_MarshalJSON scn ord strct = Suppression_MarshalJSON scn ord' strct"
    by (simp only: Suppression_MarshalJSON_def e3 e4)
qed

lemma Suppression_writes_keys: "writes_keys (Suppression_MarshalJSON scn ord) Suppression_keys"
  unfolding writes_keys_def by (intro allI impI) (erule Suppression_keys_written)

lemma Suppression_unknown_key:
  assumes new: "k \<notin> set Suppression_keys" and key: "k \<in> fst ` set kvs"
    and rest: "Suppression_UnmarshalJSON ord (JObj (filter (\<lambda>e. fst e \<noteq> k) kvs)) = Inr strct"
  shows "Suppression_UnmarshalJSON ord (JObj kvs) = Inl (not_allowed k)"
proof -
  have rej: "switch k (Suppression_cases ord v) (reject k) s = Inl (not_allowed k)" for v s
    by (rule switch_rejects) (simp only: Suppression_cases_keys new not_False_eq_True)
  from rest obtain t where
    "range_loop (\<lambda>k v. switch k (Suppression_cases ord v) (reject k)) (members ord (filter (\<lambda>e. fst e \<noteq> k) kvs)) (Suppression_zero, False) = Inr t"
    by (cases "range_loop (\<lambda>k v. switch k (Suppression_cases ord v) (reject k)) (members ord (filter (\<lambda>e. fst e \<noteq> k) kvs)) (Suppression_zero, False)")
       (simp_all add: Suppression_UnmarshalJSON_def members_def)
  from unknown_key_named [OF Suppression_regular rej key this]
  show ?thesis by (simp add: Suppression_UnmarshalJSON_def members_def)
qed

lemma Suppression_unknown_key_fails:
  assumes "k \<notin> set Suppression_keys" and "k \<in> fst ` set kvs"
  shows "isl (Suppression_UnmarshalJSON ord (JObj kvs))"
proof (cases "Suppression_UnmarshalJSON ord (JObj kvs)")
  case (Inr strct)
  then have "dom (map_of (rev kvs)) \<subseteq> set Suppression_keys"
    by (simp only: Suppression_decode_iff Suppression_decodesD(1))
  with assms show ?thesis by (auto simp: dom_map_of_conv_image_fst)
qed simp

lemma Suppression_required_present:
  assumes "Suppression_UnmarshalJSON ord (JObj kvs) = Inr strct"
  shows "''kind'' \<in> fst ` set kvs"
proof -
  from assms have d: "Suppression_decodes ord (map_of (rev kvs)) strct" by (simp only: Suppression_decode_iff)
  show "''kind'' \<in> fst ` set kvs"
    using Suppression_decodesD(8) [OF d]
    by (simp_all only: present_key)
qed

lemma Suppression_without_Kind:
  assumes "Suppression_UnmarshalJSON ord (JObj kvs) = Inr strct"
  shows "Suppression_UnmarshalJSON ord (JObj (filter (\<lambda>e. fst e \<noteq> ''kind'') kvs)) =
    Inl (RequiredNotPresent ''kind'')"
proof -
  from assms have d: "Suppression_decodes ord (map_of (rev kvs)) strct" by (simp only: Suppression_decode_iff)
  have "\<exists>t. range_loop (\<lambda>k v. switch k (Suppression_cases ord v) (reject k)) (members ord (filter (\<lambda>e. fst e \<noteq> ''kind'') kvs))
      (Suppression_zero, False) = Inr t"
  proof (rule loop_succeeds [OF Suppression_regular])
    fix k v assume "(k, v) \<in> set (members ord (filter (\<lambda>e. fst e \<noteq> ''kind'') kvs))"
    then have "map_of (rev kvs) k = Some v" by (rule member_lookup_filter)
    from Suppression_accepts [OF d this]
    show "accepting (switch k (Suppression_cases ord v) (reject k))" .
  qed
  then obtain t where "range_loop (\<lambda>k v. switch k (Suppression_cases ord v) (reject k)) (members ord (filter (\<lambda>e. fst e \<noteq> ''kind'') kvs))
      (Suppression_zero, False) = Inr t" ..
  then obtain strct' kindReceived where
    loop: "range_loop (\<lambda>k v. switch k (Suppression_cases ord v) (reject k)) (members ord (filter (\<lambda>e. fst e \<noteq> ''kind'') kvs))
      (Suppression_zero, False) = Inr (strct', kindReceived)"
    by (cases t) auto
  from Suppression_loop_sound [OF loop] Suppression_decodesD(8) [OF d]
  have "\<not> kindReceived"
    by (simp_all add: lookup_filter)
  with loop show ?thesis
    by (simp add: Suppression_UnmarshalJSON_def members_def)
qed


lemma Suppression_rejects_unknown_keys: "rejects_unknown_keys (Suppression_UnmarshalJSON ord) Suppression_keys"
  by (rule rejects_unknown_keysI) (erule (1) Suppression_unknown_key_fails, erule (2) Suppression_unknown_key)

lemma Suppression_requires_Kind: "requires_key (Suppression_UnmarshalJSON ord) ''kind''"
  by (rule requires_keyI) (erule Suppression_required_present(1), erule Suppression_without_Kind)


subsection \<open>Node: decoding and encoding\<close>

definition Node_keys :: "string list" where
  "Node_keys = [''children'', ''id'', ''label'', ''location'', ''properties'']"

definition Node_decodes :: "order \<Rightarrow> (string \<rightharpoonup> json) \<Rightarrow> Node \<Rightarrow> bool" where
  "Node_decodes ord m strct \<longleftrightarrow>
     dom m \<subseteq> set Node_keys \<and>
     field_ok (json_Unmarshal_slice (json_Unmarshal_ptr (Node_UnmarshalJSON ord))) (m ''children'') None (Node.Children strct) \<and>
     field_ok json_Unmarshal_string (m ''id'') [] (Node.Id strct) \<and>
     field_ok (json_Unmarshal_ptr (Message_UnmarshalJSON ord)) (m ''label'') None (Node.Label strct) \<and>
     field_ok (json_Unmarshal_ptr (Location_UnmarshalJSON ord)) (m ''location'') None (Node.Location strct) \<and>
     field_ok (json_Unmarshal_ptr (PropertyBag_UnmarshalJSON ord)) (m ''properties'') None (Node.Properties strct) \<and>
     m ''id'' \<noteq> None"

definition Node_cases :: "order \<Rightarrow> json \<Rightarrow> (string \<times> (Node \<times> bool) action) list" where
  "Node_cases ord v =
     [(''children'', into (json_Unmarshal_slice (json_Unmarshal_ptr (Node_UnmarshalJSON ord)) v)
         (\<lambda>x (strct, idReceived). (Node.Node x (Node.Id strct) (Node.Label strct) (Node.Location strct) (Node.Properties strct), idReceived))),
      (''id'', into (json_Unmarshal_string v)
         (\<lambda>x (strct, idReceived). (Node.Node (Node.Children strct) x (Node.Label strct) (Node.Location strct) (Node.Properties strct), True))),
      (''label'', into (json_Unmarshal_ptr (Message_UnmarshalJSON ord) v)
         (\<lambda>x (strct, idReceived). (Node.Node (Node.Children strct) (Node.Id strct) x (Node.Location strct) (Node.Properties strct), idReceived))),
      (''location'', into (json_Unmarshal_ptr (Location_UnmarshalJSON ord) v)
         (\<lambda>x (strct, idReceived). (Node.Node (Node.Children strct) (Node.Id strct) (Node.Label strct) x (Node.Properties strct), idReceived))),
      (''properties'', into (json_Unmarshal_ptr (PropertyBag_UnmarshalJSON ord) v)
         (\<lambda>x (strct, idReceived). (Node.Node (Node.Children strct) (Node.Id strct) (Node.Label strct) (Node.Location strct) x, idReceived)))]"

lemma Node_UnmarshalJSON_unfold:
  "Node_UnmarshalJSON ord b =
     (case json_Unmarshal_RawMessages b of
        Inl err \<Rightarrow> Inl err
      | Inr jsonMap \<Rightarrow>
          (case range_loop (\<lambda>k v. switch k (Node_cases ord v) (reject k))
                  (range_map ord jsonMap) (Node_zero, False) of
             Inl err \<Rightarrow> Inl err
           | Inr (strct, idReceived) \<Rightarrow>
              if \<not> idReceived then Inl (RequiredNotPresent ''id'')
              else Inr strct))"
  unfolding Node_cases_def by (rule Node_UnmarshalJSON.simps)

lemma Node_cases_keys: "fst ` set (Node_cases ord v) = set Node_keys"
  by (rule keys_image) (simp add: Node_cases_def Node_keys_def)

lemma Node_regular: "regular (\<lambda>k v. switch k (Node_cases ord v) (reject k))"
  by (rule regular_switch) (simp add: Node_cases_def)

lemma Node_fields:
  "field_case (Node_cases ord) (\<lambda>(strct, idReceived). Node.Children strct) ''children'' (json_Unmarshal_slice (json_Unmarshal_ptr (Node_UnmarshalJSON ord)))"
  "field_case (Node_cases ord) (\<lambda>(strct, idReceived). Node.Id strct) ''id'' json_Unmarshal_string"
  "field_case (Node_cases ord) (\<lambda>(strct, idReceived). Node.Label strct) ''label'' (json_Unmarshal_ptr (Message_UnmarshalJSON ord))"
  "field_case (Node_cases ord) (\<lambda>(strct, idReceived). Node.Location strct) ''location'' (json_Unmarshal_ptr (Location_UnmarshalJSON ord))"
  "field_case (Node_cases ord) (\<lambda>(strct, idReceived). Node.Properties strct) ''properties'' (json_Unmarshal_ptr (PropertyBag_UnmarshalJSON ord))"
  "field_case (Node_cases ord) (\<lambda>(strct, idReceived). idReceived) ''id'' (received json_Unmarshal_string)"
  unfolding field_case_def Node_cases_def
  by (simp_all add: writes_into writes_received keeps_into split_def)

lemma Node_loop_sound:
  assumes loop: "range_loop (\<lambda>k v. switch k (Node_cases ord v) (reject k)) (members ord kvs) (Node_zero, False) = Inr (strct, idReceived)"
  shows "dom (map_of (rev kvs)) \<subseteq> set Node_keys \<and>
     field_ok (json_Unmarshal_slice (json_Unmarshal_ptr (Node_UnmarshalJSON ord))) (map_of (rev kvs) ''children'') None (Node.Children strct) \<and>
     field_ok json_Unmarshal_string (map_of (rev kvs) ''id'') [] (Node.Id strct) \<and>
     field_ok (json_Unmarshal_ptr (Message_UnmarshalJSON ord)) (map_of (rev kvs) ''label'') None (Node.Label strct) \<and>
     field_ok (json_Unmarshal_ptr (Location_UnmarshalJSON ord)) (map_of (rev kvs) ''location'') None (Node.Location strct) \<and>
     field_ok (json_Unmarshal_ptr (PropertyBag_UnmarshalJSON ord)) (map_of (rev kvs) ''properties'') None (Node.Properties strct) \<and>
     (idReceived \<longleftrightarrow> map_of (rev kvs) ''id'' \<noteq> None)"
proof -
  have "fst ` set (members ord kvs) \<subseteq> set Node_keys"
    by (rule loop_keys_known [OF loop]) (rule Node_cases_keys)
  then have keys: "dom (map_of (rev kvs)) \<subseteq> set Node_keys"
    by (simp add: dom_members [of kvs ord])
  note fld = field_after_loop [OF _ members_distinct loop, unfolded map_of_members]
  note flg = flag_after_loop [OF _ members_distinct loop, unfolded map_of_members]
  show ?thesis
    using keys fld [OF Node_fields(1)] fld [OF Node_fields(2)] fld [OF Node_fields(3)] fld [OF Node_fields(4)] fld [OF Node_fields(5)] flg [OF Node_fields(6)]
    by (simp only: prod.case Node_zero_def Node.sel simp_thms)
qed

lemma Node_decodesD:
  assumes "Node_decodes ord m strct"
  shows "dom m \<subseteq> set Node_keys"
    and "field_ok (json_Unmarshal_slice (json_Unmarshal_ptr (Node_UnmarshalJSON ord))) (m ''children'') None (Node.Children strct)"
    and "field_ok json_Unmarshal_string (m ''id'') [] (Node.Id strct)"
    and "field_ok (json_Unmarshal_ptr (Message_UnmarshalJSON ord)) (m ''label'') None (Node.Label strct)"
    and "field_ok (json_Unmarshal_ptr (Location_UnmarshalJSON ord)) (m ''location'') None (Node.Location strct)"
    and "field_ok (json_Unmarshal_ptr (PropertyBag_UnmarshalJSON ord)) (m ''properties'') None (Node.Properties strct)"
    and "m ''id'' \<noteq> None"
  using assms unfolding Node_decodes_def by - (elim conjE, assumption)+

lemma Node_decodes_unique:
  assumes "Node_decodes ord m a" and "Node_decodes ord m b"
  shows "a = b"
  apply (rule Node.expand)
  apply (intro conjI)
  apply (rule field_ok_unique [OF Node_decodesD(2) [OF assms(1)] Node_decodesD(2) [OF assms(2)]])
  apply (rule field_ok_unique [OF Node_decodesD(3) [OF assms(1)] Node_decodesD(3) [OF assms(2)]])
  apply (rule field_ok_unique [OF Node_decodesD(4) [OF assms(1)] Node_decodesD(4) [OF assms(2)]])
  apply (rule field_ok_unique [OF Node_decodesD(5) [OF assms(1)] Node_decodesD(5) [OF assms(2)]])
  apply (rule field_ok_unique [OF Node_decodesD(6) [OF assms(1)] Node_decodesD(6) [OF assms(2)]])
  done

lemma Node_accepts:
  assumes "Node_decodes ord m strct" and "m k = Some v"
  shows "accepting (switch k (Node_cases ord v) (reject k))"
proof -
  from assms have "k \<in> set Node_keys" by (auto simp: Node_decodes_def)
  then have key: "k \<in> fst ` set (Node_cases ord v)"
    by (simp only: Node_cases_keys)
  have rows: "list_all (\<lambda>(c, h). m c = Some v \<longrightarrow> accepting h) (Node_cases ord v)"
    unfolding Node_cases_def list.pred_inject
    apply (rule conjI [OF accept_row [where m = m and v = v, OF Node_decodesD(2) [OF assms(1)]]])
    apply (rule conjI [OF accept_row [where m = m and v = v, OF Node_decodesD(3) [OF assms(1)]]])
    apply (rule conjI [OF accept_row [where m = m and v = v, OF Node_decodesD(4) [OF assms(1)]]])
    apply (rule conjI [OF accept_row [where m = m and v = v, OF Node_decodesD(5) [OF assms(1)]]])
    apply (rule conjI [OF accept_row [where m = m and v = v, OF Node_decodesD(6) [OF assms(1)]]])
    apply simp
    done
  show ?thesis by (rule rows_accept [OF rows assms(2) key])
qed

lemma Node_decode_iff:
  "Node_UnmarshalJSON ord (JObj kvs) = Inr strct \<longleftrightarrow>
   Node_decodes ord (map_of (rev kvs)) strct"
proof
  assume "Node_UnmarshalJSON ord (JObj kvs) = Inr strct"
  then obtain idReceived where
    loop: "range_loop (\<lambda>k v. switch k (Node_cases ord v) (reject k)) (members ord kvs) (Node_zero, False) = Inr (strct, idReceived)"
    and fin: "idReceived"
    by (auto simp: Node_UnmarshalJSON_unfold members_def split: sum.splits if_splits)
  from Node_loop_sound [OF loop] fin
  show "Node_decodes ord (map_of (rev kvs)) strct"
    by (simp add: Node_decodes_def)
next
  assume d: "Node_decodes ord (map_of (rev kvs)) strct"
  have "\<exists>t. range_loop (\<lambda>k v. switch k (Node_cases ord v) (reject k)) (members ord kvs) (Node_zero, False) = Inr t"
  proof (rule loop_succeeds [OF Node_regular])
    fix k v assume "(k, v) \<in> set (members ord kvs)"
    then have "map_of (rev kvs) k = Some v" by (rule member_lookup)
    from Node_accepts [OF d this]
    show "accepting (switch k (Node_cases ord v) (reject k))" .
  qed
  then obtain t where "range_loop (\<lambda>k v. switch k (Node_cases ord v) (reject k)) (members ord kvs) (Node_zero, False) = Inr t" ..
  then obtain strct' idReceived where
    loop: "range_loop (\<lambda>k v. switch k (Node_cases ord v) (reject k)) (members ord kvs) (Node_zero, False) = Inr (strct', idReceived)"
    by (cases t) auto
  from Node_loop_sound [OF loop] d
  have fin: "idReceived"
    and d': "Node_decodes ord (map_of (rev kvs)) strct'"
    by (simp_all add: Node_decodes_def)
  from Node_decodes_unique [OF d' d] have "strct' = strct" .
  with loop fin show "Node_UnmarshalJSON ord (JObj kvs) = Inr strct"
    by (simp add: Node_UnmarshalJSON_unfold members_def)
qed

definition Node_results :: "scanner \<Rightarrow> order \<Rightarrow> Node \<Rightarrow> (string \<times> (error + json)) list" where
  "Node_results scn ord strct =
     [(''children'', json_Marshal_slice (json_Marshal_ptr ''*sarif.Node'' (Node_MarshalJSON scn ord)) (Node.Children strct)),
      (''id'', json_Marshal_string (Node.Id strct)),
      (''label'', json_Marshal_ptr ''*sarif.Message'' (Message_MarshalJSON scn ord) (Node.Label strct)),
      (''location'', json_Marshal_ptr ''*sarif.Location'' (Location_MarshalJSON scn ord) (Node.Location strct)),
      (''properties'', json_Marshal_bytes ''*sarif.PropertyBag'' (PropertyBag_MarshalJSON scn ord) (Node.Properties strct))]"

lemma Node_MarshalJSON_results:
  "Node_MarshalJSON scn ord strct = object (emit_all (Node_results scn ord strct))"
  by (simp add: Node_MarshalJSON.simps Node_results_def emit_nilcheck)

lemma Node_keys_written:
  "Node_MarshalJSON scn ord strct = Inr j \<Longrightarrow> \<exists>kvs. j = JObj kvs \<and> map fst kvs = Node_keys"
  using keys_written [of "Node_results scn ord strct" j]
  by (simp add: Node_MarshalJSON_results Node_results_def Node_keys_def)

function Node_encodable :: "scanner \<Rightarrow> order \<Rightarrow> Node \<Rightarrow> bool" where
  "Node_encodable scn ord strct \<longleftrightarrow>
     slice_all (ptr_all (Node_encodable scn ord)) (Node.Children strct) \<and>
     ptr_all (Message_encodable scn ord) (Node.Label strct) \<and>
     ptr_all (Location_encodable scn ord) (Node.Location strct) \<and>
     ptr_all (PropertyBag_encodable scn ord) (Node.Properties strct)"

  by pat_completeness auto

termination Node_encodable
  by (relation "measure (\<lambda>(scn, ord, strct). size strct)") (auto simp: Node_size_Children)

declare Node_encodable.simps [simp del]

lemma Node_fails_unless: "fails_unless (Node_MarshalJSON scn ord) (Node_encodable scn ord)"
  unfolding fails_unless_def
proof
  fix strct
  show "isl (Node_MarshalJSON scn ord strct) \<longleftrightarrow> \<not> Node_encodable scn ord strct"
  proof (induction strct rule: measure_induct_rule [of size])
    case (less strct)
    have inner: "isl (json_Marshal_slice (json_Marshal_ptr ''*sarif.Node'' (Node_MarshalJSON scn ord)) (Node.Children strct)) \<longleftrightarrow>
        \<not> slice_all (ptr_all (Node_encodable scn ord)) (Node.Children strct)"
      by (rule isl_slice_of_ptrs, rule less, erule (1) Node_size_Children)
    show ?case
      unfolding Node_MarshalJSON_results [of scn ord strct] Node_results_def Node_encodable.simps [of scn ord strct] isl_object_emit_all
      by (auto simp add: always_simps inner
        fails_unlessD [OF fails_unless_string]
        fails_unlessD [OF fails_unless_ptr [OF Message_fails_unless]]
        fails_unlessD [OF fails_unless_ptr [OF Location_fails_unless]]
        fails_unlessD [OF PropertyBag_field_fails_unless])
  qed
qed

function Node_valid :: "Node \<Rightarrow> bool" where
  "Node_valid strct \<longleftrightarrow>
     slice_all (ptr_all Node_valid) (Node.Children strct) \<and>
     ptr_all Message_valid (Node.Label strct) \<and>
     ptr_all Location_valid (Node.Location strct) \<and>
     ptr_all PropertyBag_valid (Node.Properties strct)"

  by pat_completeness auto

termination Node_valid
  by (relation "measure size") (auto simp: Node_size_Children)

declare Node_valid.simps [simp del]

lemma Node_keys_distinct: "distinct Node_keys"
  by (simp add: Node_keys_def)

lemma Node_round_trips:
  "round_trips_object (Node_MarshalJSON scn ord) (Node_UnmarshalJSON ord') Node_valid"
  unfolding round_trips_object_def
proof (intro allI impI)
  fix strct :: Node assume "Node_valid strct"
  then show "rt_object (Node_MarshalJSON scn ord) (Node_UnmarshalJSON ord') strct"
  proof (induction strct rule: measure_induct_rule [of size])
  case (less strct)
  note v = less.prems
  note v' = v [unfolded Node_valid.simps [of strct]]
  have inner: "rt_object (Node_MarshalJSON scn ord) (Node_UnmarshalJSON ord') y"
    if a: "Node.Children strct = Some xs" "Some y \<in> set xs" for xs y
  proof -
    from v' have "slice_all (ptr_all Node_valid) (Node.Children strct)" by simp
    from slice_of_ptrs_element [OF this a] have "Node_valid y" .
    with less.IH [OF Node_size_Children [OF a]] show ?thesis .
  qed
  let ?rs = "Node_results scn ord strct"
  let ?kvs = "map (\<lambda>e. (fst e, projr (snd e))) ?rs"
  have f0: "\<not> isl (json_Marshal_slice (json_Marshal_ptr ''*sarif.Node'' (Node_MarshalJSON scn ord)) (Node.Children strct)) \<and>
      json_Unmarshal_slice (json_Unmarshal_ptr (Node_UnmarshalJSON ord')) (projr (json_Marshal_slice (json_Marshal_ptr ''*sarif.Node'' (Node_MarshalJSON scn ord)) (Node.Children strct))) = Inr (Node.Children strct)"
    by (rule rtD [OF rt_slice_of_ptrs [OF inner]])
  have f1: "\<not> isl (json_Marshal_string (Node.Id strct)) \<and>
      json_Unmarshal_string (projr (json_Marshal_string (Node.Id strct))) = Inr (Node.Id strct)"
    by (rule round_tripsD [OF round_trips_string]) (use v' in simp)
  have f2: "\<not> isl (json_Marshal_ptr ''*sarif.Message'' (Message_MarshalJSON scn ord) (Node.Label strct)) \<and>
      json_Unmarshal_ptr (Message_UnmarshalJSON ord') (projr (json_Marshal_ptr ''*sarif.Message'' (Message_MarshalJSON scn ord) (Node.Label strct))) = Inr (Node.Label strct)"
    by (rule round_tripsD [OF round_trips_ptr [OF Message_round_trips]]) (use v' in simp)
  have f3: "\<not> isl (json_Marshal_ptr ''*sarif.Location'' (Location_MarshalJSON scn ord) (Node.Location strct)) \<and>
      json_Unmarshal_ptr (Location_UnmarshalJSON ord') (projr (json_Marshal_ptr ''*sarif.Location'' (Location_MarshalJSON scn ord) (Node.Location strct))) = Inr (Node.Location strct)"
    by (rule round_tripsD [OF round_trips_ptr [OF Location_round_trips]]) (use v' in simp)
  have f4: "\<not> isl (json_Marshal_bytes ''*sarif.PropertyBag'' (PropertyBag_MarshalJSON scn ord) (Node.Properties strct)) \<and>
      json_Unmarshal_ptr (PropertyBag_UnmarshalJSON ord') (projr (json_Marshal_bytes ''*sarif.PropertyBag'' (PropertyBag_MarshalJSON scn ord) (Node.Properties strct))) = Inr (Node.Properties strct)"
    by (rule round_tripsD [OF PropertyBag_field_round_trips]) (use v' in simp)
  note fs = f0 f1 f2 f3 f4
  have rs: "?rs =
     [(''children'', json_Marshal_slice (json_Marshal_ptr ''*sarif.Node'' (Node_MarshalJSON scn ord)) (Node.Children strct)),
      (''id'', json_Marshal_string (Node.Id strct)),
      (''label'', json_Marshal_ptr ''*sarif.Message'' (Message_MarshalJSON scn ord) (Node.Label strct)),
      (''location'', json_Marshal_ptr ''*sarif.Location'' (Location_MarshalJSON scn ord) (Node.Location strct)),
      (''properties'', json_Marshal_bytes ''*sarif.PropertyBag'' (PropertyBag_MarshalJSON scn ord) (Node.Properties strct))]"
    by (auto simp add: Node_results_def)
  have keys: "map fst ?rs = Node_keys"
    by (simp add: Node_results_def Node_keys_def)
  then have dist: "distinct (map fst ?rs)"
    by (simp only: Node_keys_distinct)
  have ok: "list_all (\<lambda>e. \<not> isl (snd e)) ?rs"
    unfolding rs by (simp only: list.pred_inject snd_conv fs simp_thms)
  then have enc: "Node_MarshalJSON scn ord strct = Inr (JObj ?kvs)"
    by (simp add: Node_MarshalJSON_results [of scn ord strct] object_emit_all_eq_Inr)
  have l0: "map_of (rev ?kvs) ''children'' = Some (projr (json_Marshal_slice (json_Marshal_ptr ''*sarif.Node'' (Node_MarshalJSON scn ord)) (Node.Children strct)))"
    by (rule written_lookup [OF dist]) (subst rs, intro list.set_intros)
  have l1: "map_of (rev ?kvs) ''id'' = Some (projr (json_Marshal_string (Node.Id strct)))"
    by (rule written_lookup [OF dist]) (subst rs, intro list.set_intros)
  have l2: "map_of (rev ?kvs) ''label'' = Some (projr (json_Marshal_ptr ''*sarif.Message'' (Message_MarshalJSON scn ord) (Node.Label strct)))"
    by (rule written_lookup [OF dist]) (subst rs, intro list.set_intros)
  have l3: "map_of (rev ?kvs) ''location'' = Some (projr (json_Marshal_ptr ''*sarif.Location'' (Location_MarshalJSON scn ord) (Node.Location strct)))"
    by (rule written_lookup [OF dist]) (subst rs, intro list.set_intros)
  have l4: "map_of (rev ?kvs) ''properties'' = Some (projr (json_Marshal_bytes ''*sarif.PropertyBag'' (PropertyBag_MarshalJSON scn ord) (Node.Properties strct)))"
    by (rule written_lookup [OF dist]) (subst rs, intro list.set_intros)
  have dec: "Node_decodes ord' (map_of (rev ?kvs)) strct"
    unfolding Node_decodes_def l0 l1 l2 l3 l4
    by (simp only: field_ok_Some fs written_dom keys subset_refl option.simps simp_thms)
  then have "Node_UnmarshalJSON ord' (JObj ?kvs) = Inr strct"
    by (simp only: Node_decode_iff)
  with enc show ?case
    unfolding rt_object_def by blast
  qed
qed

function Node_small_bags :: "Node \<Rightarrow> bool" where
  "Node_small_bags strct \<longleftrightarrow>
     slice_all (ptr_all Node_small_bags) (Node.Children strct) \<and>
     ptr_all Message_small_bags (Node.Label strct) \<and>
     ptr_all Location_small_bags (Node.Location strct) \<and>
     ptr_all PropertyBag_small_bags (Node.Properties strct)"

  by pat_completeness auto

termination Node_small_bags
  by (relation "measure size") (auto simp: Node_size_Children)

declare Node_small_bags.simps [simp del]

lemma Node_same_output:
  "same_output (Node_MarshalJSON scn ord) (Node_MarshalJSON scn ord') Node_small_bags"
  unfolding same_output_def
proof (intro allI impI)
  fix strct :: Node assume "Node_small_bags strct"
  then show "Node_MarshalJSON scn ord strct = Node_MarshalJSON scn ord' strct"
  proof (induction strct rule: measure_induct_rule [of size])
  case (less strct)
  note v' = less.prems [unfolded Node_small_bags.simps [of strct]]
  have inner: "Node_MarshalJSON scn ord y = Node_MarshalJSON scn ord' y"
    if a: "Node.Children strct = Some xs" "Some y \<in> set xs" for xs y
  proof -
    from v' have "slice_all (ptr_all Node_small_bags) (Node.Children strct)" by simp
    from slice_of_ptrs_element [OF this a] have "Node_small_bags y" .
    with less.IH [OF Node_size_Children [OF a]] show ?thesis .
  qed
  have e0: "json_Marshal_slice (json_Marshal_ptr ''*sarif.Node'' (Node_MarshalJSON scn ord)) (Node.Children strct) =
      json_Marshal_slice (json_Marshal_ptr ''*sarif.Node'' (Node_MarshalJSON scn ord')) (Node.Children strct)"
    by (rule same_slice_of_ptrs [OF inner])
  have e2: "json_Marshal_ptr ''*sarif.Message'' (Message_MarshalJSON scn ord) (Node.Label strct) =
      json_Marshal_ptr ''*sarif.Message'' (Message_MarshalJSON scn ord') (Node.Label strct)"
    by (rule same_outputD [OF same_output_ptr [OF Message_same_output]]) (use v' in simp)
  have e3: "json_Marshal_ptr ''*sarif.Location'' (Location_MarshalJSON scn ord) (Node.Location strct) =
      json_Marshal_ptr ''*sarif.Location'' (Location_MarshalJSON scn ord') (Node.Location strct)"
    by (rule same_outputD [OF same_output_ptr [OF Location_same_output]]) (use v' in simp)
  have e4: "json_Marshal_bytes ''*sarif.PropertyBag'' (PropertyBag_MarshalJSON scn ord) (Node.Properties strct) =
      json_Marshal_bytes ''*sarif.PropertyBag'' (PropertyBag_MarshalJSON scn ord') (Node.Properties strct)"
    by (rule same_outputD [OF PropertyBag_field_same_output]) (use v' in simp)
  show ?case
    by (simp only: Node_MarshalJSON.simps [of scn ord strct] Node_MarshalJSON.simps [of scn ord' strct] e0 e2 e3 e4)
  qed
qed

lemma Node_writes_keys: "writes_keys (Node_MarshalJSON scn ord) Node_keys"
  unfolding writes_keys_def by (intro allI impI) (erule Node_keys_written)

lemma Node_unknown_key:
  assumes new: "k \<notin> set Node_keys" and key: "k \<in> fst ` set kvs"
    and rest: "Node_UnmarshalJSON ord (JObj (filter (\<lambda>e. fst e \<noteq> k) kvs)) = Inr strct"
  shows "Node_UnmarshalJSON ord (JObj kvs) = Inl (not_allowed k)"
proof -
  have rej: "switch k (Node_cases ord v) (reject k) s = Inl (not_allowed k)" for v s
    by (rule switch_rejects) (simp only: Node_cases_keys new not_False_eq_True)
  from rest obtain t where
    "range_loop (\<lambda>k v. switch k (Node_cases ord v) (reject k)) (members ord (filter (\<lambda>e. fst e \<noteq> k) kvs)) (Node_zero, False) = Inr t"
    by (cases "range_loop (\<lambda>k v. switch k (Node_cases ord v) (reject k)) (members ord (filter (\<lambda>e. fst e \<noteq> k) kvs)) (Node_zero, False)")
       (simp_all add: Node_UnmarshalJSON_unfold members_def)
  from unknown_key_named [OF Node_regular rej key this]
  show ?thesis by (simp add: Node_UnmarshalJSON_unfold members_def)
qed

lemma Node_unknown_key_fails:
  assumes "k \<notin> set Node_keys" and "k \<in> fst ` set kvs"
  shows "isl (Node_UnmarshalJSON ord (JObj kvs))"
proof (cases "Node_UnmarshalJSON ord (JObj kvs)")
  case (Inr strct)
  then have "dom (map_of (rev kvs)) \<subseteq> set Node_keys"
    by (simp only: Node_decode_iff Node_decodesD(1))
  with assms show ?thesis by (auto simp: dom_map_of_conv_image_fst)
qed simp

lemma Node_required_present:
  assumes "Node_UnmarshalJSON ord (JObj kvs) = Inr strct"
  shows "''id'' \<in> fst ` set kvs"
proof -
  from assms have d: "Node_decodes ord (map_of (rev kvs)) strct" by (simp only: Node_decode_iff)
  show "''id'' \<in> fst ` set kvs"
    using Node_decodesD(7) [OF d]
    by (simp_all only: present_key)
qed

lemma Node_without_Id:
  assumes "Node_UnmarshalJSON ord (JObj kvs) = Inr strct"
  shows "Node_UnmarshalJSON ord (JObj (filter (\<lambda>e. fst e \<noteq> ''id'') kvs)) =
    Inl (RequiredNotPresent ''id'')"
proof -
  from assms have d: "Node_decodes ord (map_of (rev kvs)) strct" by (simp only: Node_decode_iff)
  have "\<exists>t. range_loop (\<lambda>k v. switch k (Node_cases ord v) (reject k)) (members ord (filter (\<lambda>e. fst e \<noteq> ''id'') kvs))
      (Node_zero, False) = Inr t"
  proof (rule loop_succeeds [OF Node_regular])
    fix k v assume "(k, v) \<in> set (members ord (filter (\<lambda>e. fst e \<noteq> ''id'') kvs))"
    then have "map_of (rev kvs) k = Some v" by (rule member_lookup_filter)
    from Node_accepts [OF d this]
    show "accepting (switch k (Node_cases ord v) (reject k))" .
  qed
  then obtain t where "range_loop (\<lambda>k v. switch k (Node_cases ord v) (reject k)) (members ord (filter (\<lambda>e. fst e \<noteq> ''id'') kvs))
      (Node_zero, False) = Inr t" ..
  then obtain strct' idReceived where
    loop: "range_loop (\<lambda>k v. switch k (Node_cases ord v) (reject k)) (members ord (filter (\<lambda>e. fst e \<noteq> ''id'') kvs))
      (Node_zero, False) = Inr (strct', idReceived)"
    by (cases t) auto
  from Node_loop_sound [OF loop] Node_decodesD(7) [OF d]
  have "\<not> idReceived"
    by (simp_all add: lookup_filter)
  with loop show ?thesis
    by (simp add: Node_UnmarshalJSON_unfold members_def)
qed


lemma Node_rejects_unknown_keys: "rejects_unknown_keys (Node_UnmarshalJSON ord) Node_keys"
  by (rule rejects_unknown_keysI) (erule (1) Node_unknown_key_fails, erule (2) Node_unknown_key)

lemma Node_requires_Id: "requires_key (Node_UnmarshalJSON ord) ''id''"
  by (rule requires_keyI) (erule Node_required_present(1), erule Node_without_Id)


subsection \<open>Graph: decoding and encoding\<close>

definition Graph_keys :: "string list" where
  "Graph_keys = [''description'', ''edges'', ''nodes'', ''properties'']"

definition Graph_decodes :: "order \<Rightarrow> (string \<rightharpoonup> json) \<Rightarrow> Graph \<Rightarrow> bool" where
  "Graph_decodes ord m strct \<longleftrightarrow>
     dom m \<subseteq> set Graph_keys \<and>
     field_ok (json_Unmarshal_ptr (Message_UnmarshalJSON ord)) (m ''description'') None (Graph.Description strct) \<and>
     field_ok (json_Unmarshal_slice (json_Unmarshal_ptr (Edge_UnmarshalJSON ord))) (m ''edges'') None (Graph.Edges strct) \<and>
     field_ok (json_Unmarshal_slice (json_Unmarshal_ptr (Node_UnmarshalJSON ord))) (m ''nodes'') None (Graph.Nodes strct) \<and>
     field_ok (json_Unmarshal_ptr (PropertyBag_UnmarshalJSON ord)) (m ''properties'') None (Graph.Properties strct)"

lemma Graph_cases_keys: "fst ` set (Graph_cases ord v) = set Graph_keys"
  by (rule keys_image) (simp add: Graph_cases_def Graph_keys_def)

lemma Graph_regular: "regular (\<lambda>k v. switch k (Graph_cases ord v) (reject k))"
  by (rule regular_switch) (simp add: Graph_cases_def)

lemma Graph_fields:
  "field_case (Graph_cases ord) Graph.Description ''description'' (json_Unmarshal_ptr (Message_UnmarshalJSON ord))"
  "field_case (Graph_cases ord) Graph.Edges ''edges'' (json_Unmarshal_slice (json_Unmarshal_ptr (Edge_UnmarshalJSON ord)))"
  "field_case (Graph_cases ord) Graph.Nodes ''nodes'' (json_Unmarshal_slice (json_Unmarshal_ptr (Node_UnmarshalJSON ord)))"
  "field_case (Graph_cases ord) Graph.Properties ''properties'' (json_Unmarshal_ptr (PropertyBag_UnmarshalJSON ord))"
  unfolding field_case_def Graph_cases_def
  by (simp_all add: writes_into writes_received keeps_into split_def)

lemma Graph_loop_sound:
  assumes loop: "range_loop (\<lambda>k v. switch k (Graph_cases ord v) (reject k)) (members ord kvs) Graph_zero = Inr strct"
  shows "dom (map_of (rev kvs)) \<subseteq> set Graph_keys \<and>
     field_ok (json_Unmarshal_ptr (Message_UnmarshalJSON ord)) (map_of (rev kvs) ''description'') None (Graph.Description strct) \<and>
     field_ok (json_Unmarshal_slice (json_Unmarshal_ptr (Edge_UnmarshalJSON ord))) (map_of (rev kvs) ''edges'') None (Graph.Edges strct) \<and>
     field_ok (json_Unmarshal_slice (json_Unmarshal_ptr (Node_UnmarshalJSON ord))) (map_of (rev kvs) ''nodes'') None (Graph.Nodes strct) \<and>
     field_ok (json_Unmarshal_ptr (PropertyBag_UnmarshalJSON ord)) (map_of (rev kvs) ''properties'') None (Graph.Properties strct)"
proof -
  have "fst ` set (members ord kvs) \<subseteq> set Graph_keys"
    by (rule loop_keys_known [OF loop]) (rule Graph_cases_keys)
  then have keys: "dom (map_of (rev kvs)) \<subseteq> set Graph_keys"
    by (simp add: dom_members [of kvs ord])
  note fld = field_after_loop [OF _ members_distinct loop, unfolded map_of_members]
  show ?thesis
    using keys fld [OF Graph_fields(1)] fld [OF Graph_fields(2)] fld [OF Graph_fields(3)] fld [OF Graph_fields(4)] 
    by (simp only: prod.case Graph_zero_def Graph.select_convs simp_thms)
qed

lemma Graph_decodesD:
  assumes "Graph_decodes ord m strct"
  shows "dom m \<subseteq> set Graph_keys"
    and "field_ok (json_Unmarshal_ptr (Message_UnmarshalJSON ord)) (m ''description'') None (Graph.Description strct)"
    and "field_ok (json_Unmarshal_slice (json_Unmarshal_ptr (Edge_UnmarshalJSON ord))) (m ''edges'') None (Graph.Edges strct)"
    and "field_ok (json_Unmarshal_slice (json_Unmarshal_ptr (Node_UnmarshalJSON ord))) (m ''nodes'') None (Graph.Nodes strct)"
    and "field_ok (json_Unmarshal_ptr (PropertyBag_UnmarshalJSON ord)) (m ''properties'') None (Graph.Properties strct)"
  using assms unfolding Graph_decodes_def by - (elim conjE, assumption)+

lemma Graph_decodes_unique:
  assumes "Graph_decodes ord m a" and "Graph_decodes ord m b"
  shows "a = b"
  apply (rule Graph.equality)
  apply (rule field_ok_unique [OF Graph_decodesD(2) [OF assms(1)] Graph_decodesD(2) [OF assms(2)]])
  apply (rule field_ok_unique [OF Graph_decodesD(3) [OF assms(1)] Graph_decodesD(3) [OF assms(2)]])
  apply (rule field_ok_unique [OF Graph_decodesD(4) [OF assms(1)] Graph_decodesD(4) [OF assms(2)]])
  apply (rule field_ok_unique [OF Graph_decodesD(5) [OF assms(1)] Graph_decodesD(5) [OF assms(2)]])
  apply simp
  done

lemma Graph_accepts:
  assumes "Graph_decodes ord m strct" and "m k = Some v"
  shows "accepting (switch k (Graph_cases ord v) (reject k))"
proof -
  from assms have "k \<in> set Graph_keys" by (auto simp: Graph_decodes_def)
  then have key: "k \<in> fst ` set (Graph_cases ord v)"
    by (simp only: Graph_cases_keys)
  have rows: "list_all (\<lambda>(c, h). m c = Some v \<longrightarrow> accepting h) (Graph_cases ord v)"
    unfolding Graph_cases_def list.pred_inject
    apply (rule conjI [OF accept_row [where m = m and v = v, OF Graph_decodesD(2) [OF assms(1)]]])
    apply (rule conjI [OF accept_row [where m = m and v = v, OF Graph_decodesD(3) [OF assms(1)]]])
    apply (rule conjI [OF accept_row [where m = m and v = v, OF Graph_decodesD(4) [OF assms(1)]]])
    apply (rule conjI [OF accept_row [where m = m and v = v, OF Graph_decodesD(5) [OF assms(1)]]])
    apply simp
    done
  show ?thesis by (rule rows_accept [OF rows assms(2) key])
qed

lemma Graph_decode_iff:
  "Graph_UnmarshalJSON ord (JObj kvs) = Inr strct \<longleftrightarrow>
   Graph_decodes ord (map_of (rev kvs)) strct"
proof
  assume "Graph_UnmarshalJSON ord (JObj kvs) = Inr strct"
  then have loop: "range_loop (\<lambda>k v. switch k (Graph_cases ord v) (reject k)) (members ord kvs) Graph_zero = Inr strct"
    by (auto simp: Graph_UnmarshalJSON_def members_def split: sum.splits)
  from Graph_loop_sound [OF loop]
  show "Graph_decodes ord (map_of (rev kvs)) strct"
    by (simp add: Graph_decodes_def)
next
  assume d: "Graph_decodes ord (map_of (rev kvs)) strct"
  have "\<exists>t. range_loop (\<lambda>k v. switch k (Graph_cases ord v) (reject k)) (members ord kvs) Graph_zero = Inr t"
  proof (rule loop_succeeds [OF Graph_regular])
    fix k v assume "(k, v) \<in> set (members ord kvs)"
    then have "map_of (rev kvs) k = Some v" by (rule member_lookup)
    from Graph_accepts [OF d this]
    show "accepting (switch k (Graph_cases ord v) (reject k))" .
  qed
  then obtain strct' where
    loop: "range_loop (\<lambda>k v. switch k (Graph_cases ord v) (reject k)) (members ord kvs) Graph_zero = Inr strct'" ..
  from Graph_loop_sound [OF loop]
  have d': "Graph_decodes ord (map_of (rev kvs)) strct'"
    by (simp add: Graph_decodes_def)
  from Graph_decodes_unique [OF d' d] have "strct' = strct" .
  with loop show "Graph_UnmarshalJSON ord (JObj kvs) = Inr strct"
    by (simp add: Graph_UnmarshalJSON_def members_def)
qed

definition Graph_results :: "scanner \<Rightarrow> order \<Rightarrow> Graph \<Rightarrow> (string \<times> (error + json)) list" where
  "Graph_results scn ord strct =
     [(''description'', json_Marshal_ptr ''*sarif.Message'' (Message_MarshalJSON scn ord) (Graph.Description strct)),
      (''edges'', json_Marshal_slice (json_Marshal_ptr ''*sarif.Edge'' (Edge_MarshalJSON scn ord)) (Graph.Edges strct)),
      (''nodes'', json_Marshal_slice (json_Marshal_ptr ''*sarif.Node'' (Node_MarshalJSON scn ord)) (Graph.Nodes strct)),
      (''properties'', json_Marshal_bytes ''*sarif.PropertyBag'' (PropertyBag_MarshalJSON scn ord) (Graph.Properties strct))]"

lemma Graph_MarshalJSON_results:
  "Graph_MarshalJSON scn ord strct = object (emit_all (Graph_results scn ord strct))"
  by (simp add: Graph_MarshalJSON_def Graph_results_def emit_nilcheck)

lemma Graph_keys_written:
  "Graph_MarshalJSON scn ord strct = Inr j \<Longrightarrow> \<exists>kvs. j = JObj kvs \<and> map fst kvs = Graph_keys"
  using keys_written [of "Graph_results scn ord strct" j]
  by (simp add: Graph_MarshalJSON_results Graph_results_def Graph_keys_def)

definition Graph_encodable :: "scanner \<Rightarrow> order \<Rightarrow> Graph \<Rightarrow> bool" where
  "Graph_encodable scn ord strct \<longleftrightarrow>
     ptr_all (Message_encodable scn ord) (Graph.Description strct) \<and>
     slice_all (ptr_all (Edge_encodable scn ord)) (Graph.Edges strct) \<and>
     slice_all (ptr_all (Node_encodable scn ord)) (Graph.Nodes strct) \<and>
     ptr_all (PropertyBag_encodable scn ord) (Graph.Properties strct)"

lemma Graph_fails_unless: "fails_unless (Graph_MarshalJSON scn ord) (Graph_encodable scn ord)"
  unfolding fails_unless_def Graph_MarshalJSON_results Graph_results_def Graph_encodable_def isl_object_emit_all
  by (auto simp add: always_simps
      fails_unlessD [OF fails_unless_ptr [OF Message_fails_unless]]
      fails_unlessD [OF fails_unless_slice [OF fails_unless_ptr [OF Edge_fails_unless]]]
      fails_unlessD [OF fails_unless_slice [OF fails_unless_ptr [OF Node_fails_unless]]]
      fails_unlessD [OF PropertyBag_field_fails_unless])

definition Graph_valid :: "Graph \<Rightarrow> bool" where
  "Graph_valid strct \<longleftrightarrow>
     ptr_all Message_valid (Graph.Description strct) \<and>
     slice_all (ptr_all Edge_valid) (Graph.Edges strct) \<and>
     slice_all (ptr_all Node_valid) (Graph.Nodes strct) \<and>
     ptr_all PropertyBag_valid (Graph.Properties strct)"

lemma Graph_keys_distinct: "distinct Graph_keys"
  by (simp add: Graph_keys_def)

lemma Graph_round_trips:
  "round_trips_object (Graph_MarshalJSON scn ord) (Graph_UnmarshalJSON ord') Graph_valid"
  unfolding round_trips_object_def
proof (intro allI impI)
  fix strct assume v: "Graph_valid strct"
  note v' = v [unfolded Graph_valid_def]
  let ?rs = "Graph_results scn ord strct"
  let ?kvs = "map (\<lambda>e. (fst e, projr (snd e))) ?rs"
  have f0: "\<not> isl (json_Marshal_ptr ''*sarif.Message'' (Message_MarshalJSON scn ord) (Graph.Description strct)) \<and>
      json_Unmarshal_ptr (Message_UnmarshalJSON ord') (projr (json_Marshal_ptr ''*sarif.Message'' (Message_MarshalJSON scn ord) (Graph.Description strct))) = Inr (Graph.Description strct)"
    by (rule round_tripsD [OF round_trips_ptr [OF Message_round_trips]]) (use v' in simp)
  have f1: "\<not> isl (json_Marshal_slice (json_Marshal_ptr ''*sarif.Edge'' (Edge_MarshalJSON scn ord)) (Graph.Edges strct)) \<and>
      json_Unmarshal_slice (json_Unmarshal_ptr (Edge_UnmarshalJSON ord')) (projr (json_Marshal_slice (json_Marshal_ptr ''*sarif.Edge'' (Edge_MarshalJSON scn ord)) (Graph.Edges strct))) = Inr (Graph.Edges strct)"
    by (rule round_tripsD [OF round_trips_slice [OF round_trips_ptr [OF Edge_round_trips]]]) (use v' in simp)
  have f2: "\<not> isl (json_Marshal_slice (json_Marshal_ptr ''*sarif.Node'' (Node_MarshalJSON scn ord)) (Graph.Nodes strct)) \<and>
      json_Unmarshal_slice (json_Unmarshal_ptr (Node_UnmarshalJSON ord')) (projr (json_Marshal_slice (json_Marshal_ptr ''*sarif.Node'' (Node_MarshalJSON scn ord)) (Graph.Nodes strct))) = Inr (Graph.Nodes strct)"
    by (rule round_tripsD [OF round_trips_slice [OF round_trips_ptr [OF Node_round_trips]]]) (use v' in simp)
  have f3: "\<not> isl (json_Marshal_bytes ''*sarif.PropertyBag'' (PropertyBag_MarshalJSON scn ord) (Graph.Properties strct)) \<and>
      json_Unmarshal_ptr (PropertyBag_UnmarshalJSON ord') (projr (json_Marshal_bytes ''*sarif.PropertyBag'' (PropertyBag_MarshalJSON scn ord) (Graph.Properties strct))) = Inr (Graph.Properties strct)"
    by (rule round_tripsD [OF PropertyBag_field_round_trips]) (use v' in simp)
  note fs = f0 f1 f2 f3
  have rs: "?rs =
     [(''description'', json_Marshal_ptr ''*sarif.Message'' (Message_MarshalJSON scn ord) (Graph.Description strct)),
      (''edges'', json_Marshal_slice (json_Marshal_ptr ''*sarif.Edge'' (Edge_MarshalJSON scn ord)) (Graph.Edges strct)),
      (''nodes'', json_Marshal_slice (json_Marshal_ptr ''*sarif.Node'' (Node_MarshalJSON scn ord)) (Graph.Nodes strct)),
      (''properties'', json_Marshal_bytes ''*sarif.PropertyBag'' (PropertyBag_MarshalJSON scn ord) (Graph.Properties strct))]"
    by (auto simp add: Graph_results_def)
  have keys: "map fst ?rs = Graph_keys"
    by (simp add: Graph_results_def Graph_keys_def)
  then have dist: "distinct (map fst ?rs)"
    by (simp only: Graph_keys_distinct)
  have ok: "list_all (\<lambda>e. \<not> isl (snd e)) ?rs"
    unfolding rs by (simp only: list.pred_inject snd_conv fs simp_thms)
  then have enc: "Graph_MarshalJSON scn ord strct = Inr (JObj ?kvs)"
    by (simp add: Graph_MarshalJSON_results [of scn ord strct] object_emit_all_eq_Inr)
  have l0: "map_of (rev ?kvs) ''description'' = Some (projr (json_Marshal_ptr ''*sarif.Message'' (Message_MarshalJSON scn ord) (Graph.Description strct)))"
    by (rule written_lookup [OF dist]) (subst rs, intro list.set_intros)
  have l1: "map_of (rev ?kvs) ''edges'' = Some (projr (json_Marshal_slice (json_Marshal_ptr ''*sarif.Edge'' (Edge_MarshalJSON scn ord)) (Graph.Edges strct)))"
    by (rule written_lookup [OF dist]) (subst rs, intro list.set_intros)
  have l2: "map_of (rev ?kvs) ''nodes'' = Some (projr (json_Marshal_slice (json_Marshal_ptr ''*sarif.Node'' (Node_MarshalJSON scn ord)) (Graph.Nodes strct)))"
    by (rule written_lookup [OF dist]) (subst rs, intro list.set_intros)
  have l3: "map_of (rev ?kvs) ''properties'' = Some (projr (json_Marshal_bytes ''*sarif.PropertyBag'' (PropertyBag_MarshalJSON scn ord) (Graph.Properties strct)))"
    by (rule written_lookup [OF dist]) (subst rs, intro list.set_intros)
  have dec: "Graph_decodes ord' (map_of (rev ?kvs)) strct"
    unfolding Graph_decodes_def l0 l1 l2 l3
    by (simp only: field_ok_Some fs written_dom keys subset_refl option.simps simp_thms)
  then have "Graph_UnmarshalJSON ord' (JObj ?kvs) = Inr strct"
    by (simp only: Graph_decode_iff)
  with enc show "rt_object (Graph_MarshalJSON scn ord) (Graph_UnmarshalJSON ord') strct"
    unfolding rt_object_def by blast
qed

definition Graph_small_bags :: "Graph \<Rightarrow> bool" where
  "Graph_small_bags strct \<longleftrightarrow>
     ptr_all Message_small_bags (Graph.Description strct) \<and>
     slice_all (ptr_all Edge_small_bags) (Graph.Edges strct) \<and>
     slice_all (ptr_all Node_small_bags) (Graph.Nodes strct) \<and>
     ptr_all PropertyBag_small_bags (Graph.Properties strct)"

lemma Graph_same_output:
  "same_output (Graph_MarshalJSON scn ord) (Graph_MarshalJSON scn ord') Graph_small_bags"
  unfolding same_output_def
proof (intro allI impI)
  fix strct assume v: "Graph_small_bags strct"
  note v' = v [unfolded Graph_small_bags_def]
  have e0: "json_Marshal_ptr ''*sarif.Message'' (Message_MarshalJSON scn ord) (Graph.Description strct) =
      json_Marshal_ptr ''*sarif.Message'' (Message_MarshalJSON scn ord') (Graph.Description strct)"
    by (rule same_outputD [OF same_output_ptr [OF Message_same_output]]) (use v' in simp)
  have e1: "json_Marshal_slice (json_Marshal_ptr ''*sarif.Edge'' (Edge_MarshalJSON scn ord)) (Graph.Edges strct) =
      json_Marshal_slice (json_Marshal_ptr ''*sarif.Edge'' (Edge_MarshalJSON scn ord')) (Graph.Edges strct)"
    by (rule same_outputD [OF same_output_slice [OF same_output_ptr [OF Edge_same_output]]]) (use v' in simp)
  have e2: "json_Marshal_slice (json_Marshal_ptr ''*sarif.Node'' (Node_MarshalJSON scn ord)) (Graph.Nodes strct) =
      json_Marshal_slice (json_Marshal_ptr ''*sarif.Node'' (Node_MarshalJSON scn ord')) (Graph.Nodes strct)"
    by (rule same_outputD [OF same_output_slice [OF same_output_ptr [OF Node_same_output]]]) (use v' in simp)
  have e3: "json_Marshal_bytes ''*sarif.PropertyBag'' (PropertyBag_MarshalJSON scn ord) (Graph.Properties strct) =
      json_Marshal_bytes ''*sarif.PropertyBag'' (PropertyBag_MarshalJSON scn ord') (Graph.Properties strct)"
    by (rule same_outputD [OF PropertyBag_field_same_output]) (use v' in simp)
  show "Graph_MarshalJSON scn ord strct = Graph_MarshalJSON scn ord' strct"
    by (simp only: Graph_MarshalJSON_def e0 e1 e2 e3)
qed

lemma Graph_writes_keys: "writes_keys (Graph_MarshalJSON scn ord) Graph_keys"
  unfolding writes_keys_def by (intro allI impI) (erule Graph_keys_written)

lemma Graph_unknown_key:
  assumes new: "k \<notin> set Graph_keys" and key: "k \<in> fst ` set kvs"
    and rest: "Graph_UnmarshalJSON ord (JObj (filter (\<lambda>e. fst e \<noteq> k) kvs)) = Inr strct"
  shows "Graph_UnmarshalJSON ord (JObj kvs) = Inl (not_allowed k)"
proof -
  have rej: "switch k (Graph_cases ord v) (reject k) s = Inl (not_allowed k)" for v s
    by (rule switch_rejects) (simp only: Graph_cases_keys new not_False_eq_True)
  from rest obtain t where
    "range_loop (\<lambda>k v. switch k (Graph_cases ord v) (reject k)) (members ord (filter (\<lambda>e. fst e \<noteq> k) kvs)) Graph_zero = Inr t"
    by (cases "range_loop (\<lambda>k v. switch k (Graph_cases ord v) (reject k)) (members ord (filter (\<lambda>e. fst e \<noteq> k) kvs)) Graph_zero")
       (simp_all add: Graph_UnmarshalJSON_def members_def)
  from unknown_key_named [OF Graph_regular rej key this]
  show ?thesis by (simp add: Graph_UnmarshalJSON_def members_def)
qed

lemma Graph_unknown_key_fails:
  assumes "k \<notin> set Graph_keys" and "k \<in> fst ` set kvs"
  shows "isl (Graph_UnmarshalJSON ord (JObj kvs))"
proof (cases "Graph_UnmarshalJSON ord (JObj kvs)")
  case (Inr strct)
  then have "dom (map_of (rev kvs)) \<subseteq> set Graph_keys"
    by (simp only: Graph_decode_iff Graph_decodesD(1))
  with assms show ?thesis by (auto simp: dom_map_of_conv_image_fst)
qed simp

lemma Graph_rejects_unknown_keys: "rejects_unknown_keys (Graph_UnmarshalJSON ord) Graph_keys"
  by (rule rejects_unknown_keysI) (erule (1) Graph_unknown_key_fails, erule (2) Graph_unknown_key)

subsection \<open>Result: decoding and encoding\<close>

definition Result_keys :: "string list" where
  "Result_keys = [''analysisTarget'', ''attachments'', ''baselineState'', ''codeFlows'', ''correlationGuid'', ''fingerprints'', ''fixes'', ''graphTraversals'', ''graphs'', ''guid'', ''hostedViewerUri'', ''kind'', ''level'', ''locations'', ''message'', ''occurrenceCount'', ''partialFingerprints'', ''properties'', ''provenance'', ''rank'', ''relatedLocations'', ''rule'', ''ruleId'', ''ruleIndex'', ''stacks'', ''suppressions'', ''taxa'', ''webRequest'', ''webResponse'', ''workItemUris'']"

definition Result_decodes :: "order \<Rightarrow> (string \<rightharpoonup> json) \<Rightarrow> Result \<Rightarrow> bool" where
  "Result_decodes ord m strct \<longleftrightarrow>
     dom m \<subseteq> set Result_keys \<and>
     field_ok (json_Unmarshal_ptr (ArtifactLocation_UnmarshalJSON ord)) (m ''analysisTarget'') None (Result.AnalysisTarget strct) \<and>
     field_ok (json_Unmarshal_slice (json_Unmarshal_ptr (Attachment_UnmarshalJSON ord))) (m ''attachments'') None (Result.Attachments strct) \<and>
     field_ok json_Unmarshal_string (m ''baselineState'') [] (Result.BaselineState strct) \<and>
     field_ok (json_Unmarshal_slice (json_Unmarshal_ptr (CodeFlow_UnmarshalJSON ord))) (m ''codeFlows'') None (Result.CodeFlows strct) \<and>
     field_ok json_Unmarshal_string (m ''correlationGuid'') [] (Result.CorrelationGuid strct) \<and>
     field_ok (json_Unmarshal_map json_Unmarshal_string) (m ''fingerprints'') None (Result.Fingerprints strct) \<and>
     field_ok (json_Unmarshal_slice (json_Unmarshal_ptr (Fix_UnmarshalJSON ord))) (m ''fixes'') None (Result.Fixes strct) \<and>
     field_ok (json_Unmarshal_slice (json_Unmarshal_ptr (GraphTraversal_UnmarshalJSON ord))) (m ''graphTraversals'') None (Result.GraphTraversals strct) \<and>
     field_ok (json_Unmarshal_slice (json_Unmarshal_ptr (Graph_UnmarshalJSON ord))) (m ''graphs'') None (Result.Graphs strct) \<and>
     field_ok json_Unmarshal_string (m ''guid'') [] (Result.Guid strct) \<and>
     field_ok json_Unmarshal_string (m ''hostedViewerUri'') [] (Result.HostedViewerUri strct) \<and>
     field_ok json_Unmarshal_string (m ''kind'') [] (Result.Kind strct) \<and>
     field_ok json_Unmarshal_string (m ''level'') [] (Result.Level strct) \<and>
     field_ok (json_Unmarshal_slice (json_Unmarshal_ptr (Location_UnmarshalJSON ord))) (m ''locations'') None (Result.Locations strct) \<and>
     field_ok (json_Unmarshal_ptr (Message_UnmarshalJSON ord)) (m ''message'') None (Result.Message strct) \<and>
     field_ok json_Unmarshal_int (m ''occurrenceCount'') 0 (Result.OccurrenceCount strct) \<and>
     field_ok (json_Unmarshal_map json_Unmarshal_string) (m ''partialFingerprints'') None (Result.PartialFingerprints strct) \<and>
     field_ok (json_Unmarshal_ptr (PropertyBag_UnmarshalJSON ord)) (m ''properties'') None (Result.Properties strct) \<and>
     field_ok (json_Unmarshal_ptr (ResultProvenance_UnmarshalJSON ord)) (m ''provenance'') None (Result.Provenance strct) \<and>
     field_ok json_Unmarshal_float64 (m ''rank'') (Finite (NInt 0)) (Result.Rank strct) \<and>
     field_ok (json_Unmarshal_slice (json_Unmarshal_ptr (Location_UnmarshalJSON ord))) (m ''relatedLocations'') None (Result.RelatedLocations strct) \<and>
     field_ok (json_Unmarshal_ptr (ReportingDescriptorReference_UnmarshalJSON ord)) (m ''rule'') None (Result.Rule strct) \<and>
     field_ok json_Unmarshal_string (m ''ruleId'') [] (Result.RuleId strct) \<and>
     field_ok json_Unmarshal_int (m ''ruleIndex'') 0 (Result.RuleIndex strct) \<and>
     field_ok (json_Unmarshal_slice (json_Unmarshal_ptr (Stack_UnmarshalJSON ord))) (m ''stacks'') None (Result.Stacks strct) \<and>
     field_ok (json_Unmarshal_slice (json_Unmarshal_ptr (Suppression_UnmarshalJSON ord))) (m ''suppressions'') None (Result.Suppressions strct) \<and>
     field_ok (json_Unmarshal_slice (json_Unmarshal_ptr (ReportingDescriptorReference_UnmarshalJSON ord))) (m ''taxa'') None (Result.Taxa strct) \<and>
     field_ok (json_Unmarshal_ptr (WebRequest_UnmarshalJSON ord)) (m ''webRequest'') None (Result.WebRequest strct) \<and>
     field_ok (json_Unmarshal_ptr (WebResponse_UnmarshalJSON ord)) (m ''webResponse'') None (Result.WebResponse strct) \<and>
     field_ok (json_Unmarshal_slice json_Unmarshal_string) (m ''workItemUris'') None (Result.WorkItemUris strct) \<and>
     m ''message'' \<noteq> None"

lemma Result_cases_keys: "fst ` set (Result_cases ord v) = set Result_keys"
  by (rule keys_image) (simp add: Result_cases_def Result_keys_def)

lemma Result_regular: "regular (\<lambda>k v. switch k (Result_cases ord v) (reject k))"
  by (rule regular_switch) (simp add: Result_cases_def)

lemma Result_fields:
  "field_case (Result_cases ord) (\<lambda>(strct, messageReceived). Result.AnalysisTarget strct) ''analysisTarget'' (json_Unmarshal_ptr (ArtifactLocation_UnmarshalJSON ord))"
  "field_case (Result_cases ord) (\<lambda>(strct, messageReceived). Result.Attachments strct) ''attachments'' (json_Unmarshal_slice (json_Unmarshal_ptr (Attachment_UnmarshalJSON ord)))"
  "field_case (Result_cases ord) (\<lambda>(strct, messageReceived). Result.BaselineState strct) ''baselineState'' json_Unmarshal_string"
  "field_case (Result_cases ord) (\<lambda>(strct, messageReceived). Result.CodeFlows strct) ''codeFlows'' (json_Unmarshal_slice (json_Unmarshal_ptr (CodeFlow_UnmarshalJSON ord)))"
  "field_case (Result_cases ord) (\<lambda>(strct, messageReceived). Result.CorrelationGuid strct) ''correlationGuid'' json_Unmarshal_string"
  "field_case (Result_cases ord) (\<lambda>(strct, messageReceived). Result.Fingerprints strct) ''fingerprints'' (json_Unmarshal_map json_Unmarshal_string)"
  "field_case (Result_cases ord) (\<lambda>(strct, messageReceived). Result.Fixes strct) ''fixes'' (json_Unmarshal_slice (json_Unmarshal_ptr (Fix_UnmarshalJSON ord)))"
  "field_case (Result_cases ord) (\<lambda>(strct, messageReceived). Result.GraphTraversals strct) ''graphTraversals'' (json_Unmarshal_slice (json_Unmarshal_ptr (GraphTraversal_UnmarshalJSON ord)))"
  "field_case (Result_cases ord) (\<lambda>(strct, messageReceived). Result.Graphs strct) ''graphs'' (json_Unmarshal_slice (json_Unmarshal_ptr (Graph_UnmarshalJSON ord)))"
  "field_case (Result_cases ord) (\<lambda>(strct, messageReceived). Result.Guid strct) ''guid'' json_Unmarshal_string"
  "field_case (Result_cases ord) (\<lambda>(strct, messageReceived). Result.HostedViewerUri strct) ''hostedViewerUri'' json_Unmarshal_string"
  "field_case (Result_cases ord) (\<lambda>(strct, messageReceived). Result.Kind strct) ''kind'' json_Unmarshal_string"
  "field_case (Result_cases ord) (\<lambda>(strct, messageReceived). Result.Level strct) ''level'' json_Unmarshal_string"
  "field_case (Result_cases ord) (\<lambda>(strct, messageReceived). Result.Locations strct) ''locations'' (json_Unmarshal_slice (json_Unmarshal_ptr (Location_UnmarshalJSON ord)))"
  "field_case (Result_cases ord) (\<lambda>(strct, messageReceived). Result.Message strct) ''message'' (json_Unmarshal_ptr (Message_UnmarshalJSON ord))"
  "field_case (Result_cases ord) (\<lambda>(strct, messageReceived). Result.OccurrenceCount strct) ''occurrenceCount'' json_Unmarshal_int"
  "field_case (Result_cases ord) (\<lambda>(strct, messageReceived). Result.PartialFingerprints strct) ''partialFingerprints'' (json_Unmarshal_map json_Unmarshal_string)"
  "field_case (Result_cases ord) (\<lambda>(strct, messageReceived). Result.Properties strct) ''properties'' (json_Unmarshal_ptr (PropertyBag_UnmarshalJSON ord))"
  "field_case (Result_cases ord) (\<lambda>(strct, messageReceived). Result.Provenance strct) ''provenance'' (json_Unmarshal_ptr (ResultProvenance_UnmarshalJSON ord))"
  "field_case (Result_cases ord) (\<lambda>(strct, messageReceived). Result.Rank strct) ''rank'' json_Unmarshal_float64"
  "field_case (Result_cases ord) (\<lambda>(strct, messageReceived). Result.RelatedLocations strct) ''relatedLocations'' (json_Unmarshal_slice (json_Unmarshal_ptr (Location_UnmarshalJSON ord)))"
  "field_case (Result_cases ord) (\<lambda>(strct, messageReceived). Result.Rule strct) ''rule'' (json_Unmarshal_ptr (ReportingDescriptorReference_UnmarshalJSON ord))"
  "field_case (Result_cases ord) (\<lambda>(strct, messageReceived). Result.RuleId strct) ''ruleId'' json_Unmarshal_string"
  "field_case (Result_cases ord) (\<lambda>(strct, messageReceived). Result.RuleIndex strct) ''ruleIndex'' json_Unmarshal_int"
  "field_case (Result_cases ord) (\<lambda>(strct, messageReceived). Result.Stacks strct) ''stacks'' (json_Unmarshal_slice (json_Unmarshal_ptr (Stack_UnmarshalJSON ord)))"
  "field_case (Result_cases ord) (\<lambda>(strct, messageReceived). Result.Suppressions strct) ''suppressions'' (json_Unmarshal_slice (json_Unmarshal_ptr (Suppression_UnmarshalJSON ord)))"
  "field_case (Result_cases ord) (\<lambda>(strct, messageReceived). Result.Taxa strct) ''taxa'' (json_Unmarshal_slice (json_Unmarshal_ptr (ReportingDescriptorReference_UnmarshalJSON ord)))"
  "field_case (Result_cases ord) (\<lambda>(strct, messageReceived). Result.WebRequest strct) ''webRequest'' (json_Unmarshal_ptr (WebRequest_UnmarshalJSON ord))"
  "field_case (Result_cases ord) (\<lambda>(strct, messageReceived). Result.WebResponse strct) ''webResponse'' (json_Unmarshal_ptr (WebResponse_UnmarshalJSON ord))"
  "field_case (Result_cases ord) (\<lambda>(strct, messageReceived). Result.WorkItemUris strct) ''workItemUris'' (json_Unmarshal_slice json_Unmarshal_string)"
  "field_case (Result_cases ord) (\<lambda>(strct, messageReceived). messageReceived) ''message'' (received (json_Unmarshal_ptr (Message_UnmarshalJSON ord)))"
  unfolding field_case_def Result_cases_def
  by (simp_all add: writes_into writes_received keeps_into split_def)

lemma Result_loop_sound:
  assumes loop: "range_loop (\<lambda>k v. switch k (Result_cases ord v) (reject k)) (members ord kvs) (Result_zero, False) = Inr (strct, messageReceived)"
  shows "dom (map_of (rev kvs)) \<subseteq> set Result_keys \<and>
     field_ok (json_Unmarshal_ptr (ArtifactLocation_UnmarshalJSON ord)) (map_of (rev kvs) ''analysisTarget'') None (Result.AnalysisTarget strct) \<and>
     field_ok (json_Unmarshal_slice (json_Unmarshal_ptr (Attachment_UnmarshalJSON ord))) (map_of (rev kvs) ''attachments'') None (Result.Attachments strct) \<and>
     field_ok json_Unmarshal_string (map_of (rev kvs) ''baselineState'') [] (Result.BaselineState strct) \<and>
     field_ok (json_Unmarshal_slice (json_Unmarshal_ptr (CodeFlow_UnmarshalJSON ord))) (map_of (rev kvs) ''codeFlows'') None (Result.CodeFlows strct) \<and>
     field_ok json_Unmarshal_string (map_of (rev kvs) ''correlationGuid'') [] (Result.CorrelationGuid strct) \<and>
     field_ok (json_Unmarshal_map json_Unmarshal_string) (map_of (rev kvs) ''fingerprints'') None (Result.Fingerprints strct) \<and>
     field_ok (json_Unmarshal_slice (json_Unmarshal_ptr (Fix_UnmarshalJSON ord))) (map_of (rev kvs) ''fixes'') None (Result.Fixes strct) \<and>
     field_ok (json_Unmarshal_slice (json_Unmarshal_ptr (GraphTraversal_UnmarshalJSON ord))) (map_of (rev kvs) ''graphTraversals'') None (Result.GraphTraversals strct) \<and>
     field_ok (json_Unmarshal_slice (json_Unmarshal_ptr (Graph_UnmarshalJSON ord))) (map_of (rev kvs) ''graphs'') None (Result.Graphs strct) \<and>
     field_ok json_Unmarshal_string (map_of (rev kvs) ''guid'') [] (Result.Guid strct) \<and>
     field_ok json_Unmarshal_string (map_of (rev kvs) ''hostedViewerUri'') [] (Result.HostedViewerUri strct) \<and>
     field_ok json_Unmarshal_string (map_of (rev kvs) ''kind'') [] (Result.Kind strct) \<and>
     field_ok json_Unmarshal_string (map_of (rev kvs) ''level'') [] (Result.Level strct) \<and>
     field_ok (json_Unmarshal_slice (json_Unmarshal_ptr (Location_UnmarshalJSON ord))) (map_of (rev kvs) ''locations'') None (Result.Locations strct) \<and>
     field_ok (json_Unmarshal_ptr (Message_UnmarshalJSON ord)) (map_of (rev kvs) ''message'') None (Result.Message strct) \<and>
     field_ok json_Unmarshal_int (map_of (rev kvs) ''occurrenceCount'') 0 (Result.OccurrenceCount strct) \<and>
     field_ok (json_Unmarshal_map json_Unmarshal_string) (map_of (rev kvs) ''partialFingerprints'') None (Result.PartialFingerprints strct) \<and>
     field_ok (json_Unmarshal_ptr (PropertyBag_UnmarshalJSON ord)) (map_of (rev kvs) ''properties'') None (Result.Properties strct) \<and>
     field_ok (json_Unmarshal_ptr (ResultProvenance_UnmarshalJSON ord)) (map_of (rev kvs) ''provenance'') None (Result.Provenance strct) \<and>
     field_ok json_Unmarshal_float64 (map_of (rev kvs) ''rank'') (Finite (NInt 0)) (Result.Rank strct) \<and>
     field_ok (json_Unmarshal_slice (json_Unmarshal_ptr (Location_UnmarshalJSON ord))) (map_of (rev kvs) ''relatedLocations'') None (Result.RelatedLocations strct) \<and>
     field_ok (json_Unmarshal_ptr (ReportingDescriptorReference_UnmarshalJSON ord)) (map_of (rev kvs) ''rule'') None (Result.Rule strct) \<and>
     field_ok json_Unmarshal_string (map_of (rev kvs) ''ruleId'') [] (Result.RuleId strct) \<and>
     field_ok json_Unmarshal_int (map_of (rev kvs) ''ruleIndex'') 0 (Result.RuleIndex strct) \<and>
     field_ok (json_Unmarshal_slice (json_Unmarshal_ptr (Stack_UnmarshalJSON ord))) (map_of (rev kvs) ''stacks'') None (Result.Stacks strct) \<and>
     field_ok (json_Unmarshal_slice (json_Unmarshal_ptr (Suppression_UnmarshalJSON ord))) (map_of (rev kvs) ''suppressions'') None (Result.Suppressions strct) \<and>
     field_ok (json_Unmarshal_slice (json_Unmarshal_ptr (ReportingDescriptorReference_UnmarshalJSON ord))) (map_of (rev kvs) ''taxa'') None (Result.Taxa strct) \<and>
     field_ok (json_Unmarshal_ptr (WebRequest_UnmarshalJSON ord)) (map_of (rev kvs) ''webRequest'') None (Result.WebRequest strct) \<and>
     field_ok (json_Unmarshal_ptr (WebResponse_UnmarshalJSON ord)) (map_of (rev kvs) ''webResponse'') None (Result.WebResponse strct) \<and>
     field_ok (json_Unmarshal_slice json_Unmarshal_string) (map_of (rev kvs) ''workItemUris'') None (Result.WorkItemUris strct) \<and>
     (messageReceived \<longleftrightarrow> map_of (rev kvs) ''message'' \<noteq> None)"
proof -
  have "fst ` set (members ord kvs) \<subseteq> set Result_keys"
    by (rule loop_keys_known [OF loop]) (rule Result_cases_keys)
  then have keys: "dom (map_of (rev kvs)) \<subseteq> set Result_keys"
    by (simp add: dom_members [of kvs ord])
  note fld = field_after_loop [OF _ members_distinct loop, unfolded map_of_members]
  note flg = flag_after_loop [OF _ members_distinct loop, unfolded map_of_members]
  show ?thesis
    using keys fld [OF Result_fields(1)] fld [OF Result_fields(2)] fld [OF Result_fields(3)] fld [OF Result_fields(4)] fld [OF Result_fields(5)] fld [OF Result_fields(6)] fld [OF Result_fields(7)] fld [OF Result_fields(8)] fld [OF Result_fields(9)] fld [OF Result_fields(10)] fld [OF Result_fields(11)] fld [OF Result_fields(12)] fld [OF Result_fields(13)] fld [OF Result_fields(14)] fld [OF Result_fields(15)] fld [OF Result_fields(16)] fld [OF Result_fields(17)] fld [OF Result_fields(18)] fld [OF Result_fields(19)] fld [OF Result_fields(20)] fld [OF Result_fields(21)] fld [OF Result_fields(22)] fld [OF Result_fields(23)] fld [OF Result_fields(24)] fld [OF Result_fields(25)] fld [OF Result_fields(26)] fld [OF Result_fields(27)] fld [OF Result_fields(28)] fld [OF Result_fields(29)] fld [OF Result_fields(30)] flg [OF Result_fields(31)]
    by (simp only: prod.case Result_zero_def Result.select_convs simp_thms)
qed

lemma Result_decodesD:
  assumes "Result_decodes ord m strct"
  shows "dom m \<subseteq> set Result_keys"
    and "field_ok (json_Unmarshal_ptr (ArtifactLocation_UnmarshalJSON ord)) (m ''analysisTarget'') None (Result.AnalysisTarget strct)"
    and "field_ok (json_Unmarshal_slice (json_Unmarshal_ptr (Attachment_UnmarshalJSON ord))) (m ''attachments'') None (Result.Attachments strct)"
    and "field_ok json_Unmarshal_string (m ''baselineState'') [] (Result.BaselineState strct)"
    and "field_ok (json_Unmarshal_slice (json_Unmarshal_ptr (CodeFlow_UnmarshalJSON ord))) (m ''codeFlows'') None (Result.CodeFlows strct)"
    and "field_ok json_Unmarshal_string (m ''correlationGuid'') [] (Result.CorrelationGuid strct)"
    and "field_ok (json_Unmarshal_map json_Unmarshal_string) (m ''fingerprints'') None (Result.Fingerprints strct)"
    and "field_ok (json_Unmarshal_slice (json_Unmarshal_ptr (Fix_UnmarshalJSON ord))) (m ''fixes'') None (Result.Fixes strct)"
    and "field_ok (json_Unmarshal_slice (json_Unmarshal_ptr (GraphTraversal_UnmarshalJSON ord))) (m ''graphTraversals'') None (Result.GraphTraversals strct)"
    and "field_ok (json_Unmarshal_slice (json_Unmarshal_ptr (Graph_UnmarshalJSON ord))) (m ''graphs'') None (Result.Graphs strct)"
    and "field_ok json_Unmarshal_string (m ''guid'') [] (Result.Guid strct)"
    and "field_ok json_Unmarshal_string (m ''hostedViewerUri'') [] (Result.HostedViewerUri strct)"
    and "field_ok json_Unmarshal_string (m ''kind'') [] (Result.Kind strct)"
    and "field_ok json_Unmarshal_string (m ''level'') [] (Result.Level strct)"
    and "field_ok (json_Unmarshal_slice (json_Unmarshal_ptr (Location_UnmarshalJSON ord))) (m ''locations'') None (Result.Locations strct)"
    and "field_ok (json_Unmarshal_ptr (Message_UnmarshalJSON ord)) (m ''message'') None (Result.Message strct)"
    and "field_ok json_Unmarshal_int (m ''occurrenceCount'') 0 (Result.OccurrenceCount strct)"
    and "field_ok (json_Unmarshal_map json_Unmarshal_string) (m ''partialFingerprints'') None (Result.PartialFingerprints strct)"
    and "field_ok (json_Unmarshal_ptr (PropertyBag_UnmarshalJSON ord)) (m ''properties'') None (Result.Properties strct)"
    and "field_ok (json_Unmarshal_ptr (ResultProvenance_UnmarshalJSON ord)) (m ''provenance'') None (Result.Provenance strct)"
    and "field_ok json_Unmarshal_float64 (m ''rank'') (Finite (NInt 0)) (Result.Rank strct)"
    and "field_ok (json_Unmarshal_slice (json_Unmarshal_ptr (Location_UnmarshalJSON ord))) (m ''relatedLocations'') None (Result.RelatedLocations strct)"
    and "field_ok (json_Unmarshal_ptr (ReportingDescriptorReference_UnmarshalJSON ord)) (m ''rule'') None (Result.Rule strct)"
    and "field_ok json_Unmarshal_string (m ''ruleId'') [] (Result.RuleId strct)"
    and "field_ok json_Unmarshal_int (m ''ruleIndex'') 0 (Result.RuleIndex strct)"
    and "field_ok (json_Unmarshal_slice (json_Unmarshal_ptr (Stack_UnmarshalJSON ord))) (m ''stacks'') None (Result.Stacks strct)"
    and "field_ok (json_Unmarshal_slice (json_Unmarshal_ptr (Suppression_UnmarshalJSON ord))) (m ''suppressions'') None (Result.Suppressions strct)"
    and "field_ok (json_Unmarshal_slice (json_Unmarshal_ptr (ReportingDescriptorReference_UnmarshalJSON ord))) (m ''taxa'') None (Result.Taxa strct)"
    and "field_ok (json_Unmarshal_ptr (WebRequest_UnmarshalJSON ord)) (m ''webRequest'') None (Result.WebRequest strct)"
    and "field_ok (json_Unmarshal_ptr (WebResponse_UnmarshalJSON ord)) (m ''webResponse'') None (Result.WebResponse strct)"
    and "field_ok (json_Unmarshal_slice json_Unmarshal_string) (m ''workItemUris'') None (Result.WorkItemUris strct)"
    and "m ''message'' \<noteq> None"
  using assms unfolding Result_decodes_def by - (elim conjE, assumption)+

lemma Result_decodes_unique:
  assumes "Result_decodes ord m a" and "Result_decodes ord m b"
  shows "a = b"
  apply (rule Result.equality)
  apply (rule field_ok_unique [OF Result_decodesD(2) [OF assms(1)] Result_decodesD(2) [OF assms(2)]])
  apply (rule field_ok_unique [OF Result_decodesD(3) [OF assms(1)] Result_decodesD(3) [OF assms(2)]])
  apply (rule field_ok_unique [OF Result_decodesD(4) [OF assms(1)] Result_decodesD(4) [OF assms(2)]])
  apply (rule field_ok_unique [OF Result_decodesD(5) [OF assms(1)] Result_decodesD(5) [OF assms(2)]])
  apply (rule field_ok_unique [OF Result_decodesD(6) [OF assms(1)] Result_decodesD(6) [OF assms(2)]])
  apply (rule field_ok_unique [OF Result_decodesD(7) [OF assms(1)] Result_decodesD(7) [OF assms(2)]])
  apply (rule field_ok_unique [OF Result_decodesD(8) [OF assms(1)] Result_decodesD(8) [OF assms(2)]])
  apply (rule field_ok_unique [OF Result_decodesD(9) [OF assms(1)] Result_decodesD(9) [OF assms(2)]])
  apply (rule field_ok_unique [OF Result_decodesD(10) [OF assms(1)] Result_decodesD(10) [OF assms(2)]])
  apply (rule field_ok_unique [OF Result_decodesD(11) [OF assms(1)] Result_decodesD(11) [OF assms(2)]])
  apply (rule field_ok_unique [OF Result_decodesD(12) [OF assms(1)] Result_decodesD(12) [OF assms(2)]])
  apply (rule field_ok_unique [OF Result_decodesD(13) [OF assms(1)] Result_decodesD(13) [OF assms(2)]])
  apply (rule field_ok_unique [OF Result_decodesD(14) [OF assms(1)] Result_decodesD(14) [OF assms(2)]])
  apply (rule field_ok_unique [OF Result_decodesD(15) [OF assms(1)] Result_decodesD(15) [OF assms(2)]])
  apply (rule field_ok_unique [OF Result_decodesD(16) [OF assms(1)] Result_decodesD(16) [OF assms(2)]])
  apply (rule field_ok_unique [OF Result_decodesD(17) [OF assms(1)] Result_decodesD(17) [OF assms(2)]])
  apply (rule field_ok_unique [OF Result_decodesD(18) [OF assms(1)] Result_decodesD(18) [OF assms(2)]])
  apply (rule field_ok_unique [OF Result_decodesD(19) [OF assms(1)] Result_decodesD(19) [OF assms(2)]])
  apply (rule field_ok_unique [OF Result_decodesD(20) [OF assms(1)] Result_decodesD(20) [OF assms(2)]])
  apply (rule field_ok_unique [OF Result_decodesD(21) [OF assms(1)] Result_decodesD(21) [OF assms(2)]])
  apply (rule field_ok_unique [OF Result_decodesD(22) [OF assms(1)] Result_decodesD(22) [OF assms(2)]])
  apply (rule field_ok_unique [OF Result_decodesD(23) [OF assms(1)] Result_decodesD(23) [OF assms(2)]])
  apply (rule field_ok_unique [OF Result_decodesD(24) [OF assms(1)] Result_decodesD(24) [OF assms(2)]])
  apply (rule field_ok_unique [OF Result_decodesD(25) [OF assms(1)] Result_decodesD(25) [OF assms(2)]])
  apply (rule field_ok_unique [OF Result_decodesD(26) [OF assms(1)] Result_decodesD(26) [OF assms(2)]])
  apply (rule field_ok_unique [OF Result_decodesD(27) [OF assms(1)] Result_decodesD(27) [OF assms(2)]])
  apply (rule field_ok_unique [OF Result_decodesD(28) [OF assms(1)] Result_decodesD(28) [OF assms(2)]])
  apply (rule field_ok_unique [OF Result_decodesD(29) [OF assms(1)] Result_decodesD(29) [OF assms(2)]])
  apply (rule field_ok_unique [OF Result_decodesD(30) [OF assms(1)] Result_decodesD(30) [OF assms(2)]])
  apply (rule field_ok_unique [OF Result_decodesD(31) [OF assms(1)] Result_decodesD(31) [OF assms(2)]])
  apply simp
  done

lemma Result_accepts:
  assumes "Result_decodes ord m strct" and "m k = Some v"
  shows "accepting (switch k (Result_cases ord v) (reject k))"
proof -
  from assms have "k \<in> set Result_keys" by (auto simp: Result_decodes_def)
  then have key: "k \<in> fst ` set (Result_cases ord v)"
    by (simp only: Result_cases_keys)
  have rows: "list_all (\<lambda>(c, h). m c = Some v \<longrightarrow> accepting h) (Result_cases ord v)"
    unfolding Result_cases_def list.pred_inject
    apply (rule conjI [OF accept_row [where m = m and v = v, OF Result_decodesD(2) [OF assms(1)]]])
    apply (rule conjI [OF accept_row [where m = m and v = v, OF Result_decodesD(3) [OF assms(1)]]])
    apply (rule conjI [OF accept_row [where m = m and v = v, OF Result_decodesD(4) [OF assms(1)]]])
    apply (rule conjI [OF accept_row [where m = m and v = v, OF Result_decodesD(5) [OF assms(1)]]])
    apply (rule conjI [OF accept_row [where m = m and v = v, OF Result_decodesD(6) [OF assms(1)]]])
    apply (rule conjI [OF accept_row [where m = m and v = v, OF Result_decodesD(7) [OF assms(1)]]])
    apply (rule conjI [OF accept_row [where m = m and v = v, OF Result_decodesD(8) [OF assms(1)]]])
    apply (rule conjI [OF accept_row [where m = m and v = v, OF Result_decodesD(9) [OF assms(1)]]])
    apply (rule conjI [OF accept_row [where m = m and v = v, OF Result_decodesD(10) [OF assms(1)]]])
    apply (rule conjI [OF accept_row [where m = m and v = v, OF Result_decodesD(11) [OF assms(1)]]])
    apply (rule conjI [OF accept_row [where m = m and v = v, OF Result_decodesD(12) [OF assms(1)]]])
    apply (rule conjI [OF accept_row [where m = m and v = v, OF Result_decodesD(13) [OF assms(1)]]])
    apply (rule conjI [OF accept_row [where m = m and v = v, OF Result_decodesD(14) [OF assms(1)]]])
    apply (rule conjI [OF accept_row [where m = m and v = v, OF Result_decodesD(15) [OF assms(1)]]])
    apply (rule conjI [OF accept_row [where m = m and v = v, OF Result_decodesD(16) [OF assms(1)]]])
    apply (rule conjI [OF accept_row [where m = m and v = v, OF Result_decodesD(17) [OF assms(1)]]])
    apply (rule conjI [OF accept_row [where m = m and v = v, OF Result_decodesD(18) [OF assms(1)]]])
    apply (rule conjI [OF accept_row [where m = m and v = v, OF Result_decodesD(19) [OF assms(1)]]])
    apply (rule conjI [OF accept_row [where m = m and v = v, OF Result_decodesD(20) [OF assms(1)]]])
    apply (rule conjI [OF accept_row [where m = m and v = v, OF Result_decodesD(21) [OF assms(1)]]])
    apply (rule conjI [OF accept_row [where m = m and v = v, OF Result_decodesD(22) [OF assms(1)]]])
    apply (rule conjI [OF accept_row [where m = m and v = v, OF Result_decodesD(23) [OF assms(1)]]])
    apply (rule conjI [OF accept_row [where m = m and v = v, OF Result_decodesD(24) [OF assms(1)]]])
    apply (rule conjI [OF accept_row [where m = m and v = v, OF Result_decodesD(25) [OF assms(1)]]])
    apply (rule conjI [OF accept_row [where m = m and v = v, OF Result_decodesD(26) [OF assms(1)]]])
    apply (rule conjI [OF accept_row [where m = m and v = v, OF Result_decodesD(27) [OF assms(1)]]])
    apply (rule conjI [OF accept_row [where m = m and v = v, OF Result_decodesD(28) [OF assms(1)]]])
    apply (rule conjI [OF accept_row [where m = m and v = v, OF Result_decodesD(29) [OF assms(1)]]])
    apply (rule conjI [OF accept_row [where m = m and v = v, OF Result_decodesD(30) [OF assms(1)]]])
    apply (rule conjI [OF accept_row [where m = m and v = v, OF Result_decodesD(31) [OF assms(1)]]])
    apply simp
    done
  show ?thesis by (rule rows_accept [OF rows assms(2) key])
qed

lemma Result_decode_iff:
  "Result_UnmarshalJSON ord (JObj kvs) = Inr strct \<longleftrightarrow>
   Result_decodes ord (map_of (rev kvs)) strct"
proof
  assume "Result_UnmarshalJSON ord (JObj kvs) = Inr strct"
  then obtain messageReceived where
    loop: "range_loop (\<lambda>k v. switch k (Result_cases ord v) (reject k)) (members ord kvs) (Result_zero, False) = Inr (strct, messageReceived)"
    and fin: "messageReceived"
    by (auto simp: Result_UnmarshalJSON_def members_def split: sum.splits if_splits)
  from Result_loop_sound [OF loop] fin
  show "Result_decodes ord (map_of (rev kvs)) strct"
    by (simp add: Result_decodes_def)
next
  assume d: "Result_decodes ord (map_of (rev kvs)) strct"
  have "\<exists>t. range_loop (\<lambda>k v. switch k (Result_cases ord v) (reject k)) (members ord kvs) (Result_zero, False) = Inr t"
  proof (rule loop_succeeds [OF Result_regular])
    fix k v assume "(k, v) \<in> set (members ord kvs)"
    then have "map_of (rev kvs) k = Some v" by (rule member_lookup)
    from Result_accepts [OF d this]
    show "accepting (switch k (Result_cases ord v) (reject k))" .
  qed
  then obtain t where "range_loop (\<lambda>k v. switch k (Result_cases ord v) (reject k)) (members ord kvs) (Result_zero, False) = Inr t" ..
  then obtain strct' messageReceived where
    loop: "range_loop (\<lambda>k v. switch k (Result_cases ord v) (reject k)) (members ord kvs) (Result_zero, False) = Inr (strct', messageReceived)"
    by (cases t) auto
  from Result_loop_sound [OF loop] d
  have fin: "messageReceived"
    and d': "Result_decodes ord (map_of (rev kvs)) strct'"
    by (simp_all add: Result_decodes_def)
  from Result_decodes_unique [OF d' d] have "strct' = strct" .
  with loop fin show "Result_UnmarshalJSON ord (JObj kvs) = Inr strct"
    by (simp add: Result_UnmarshalJSON_def members_def)
qed

definition Result_results :: "scanner \<Rightarrow> order \<Rightarrow> Result \<Rightarrow> (string \<times> (error + json)) list" where
  "Result_results scn ord strct =
     [(''analysisTarget'', json_Marshal_ptr ''*sarif.ArtifactLocation'' (ArtifactLocation_MarshalJSON scn ord) (Result.AnalysisTarget strct)),
      (''attachments'', json_Marshal_slice (json_Marshal_ptr ''*sarif.Attachment'' (Attachment_MarshalJSON scn ord)) (Result.Attachments strct)),
      (''baselineState'', json_Marshal_string (Result.BaselineState strct)),
      (''codeFlows'', json_Marshal_slice (json_Marshal_ptr ''*sarif.CodeFlow'' (CodeFlow_MarshalJSON scn ord)) (Result.CodeFlows strct)),
      (''correlationGuid'', json_Marshal_string (Result.CorrelationGuid strct)),
      (''fingerprints'', json_Marshal_map json_Marshal_string (Result.Fingerprints strct)),
      (''fixes'', json_Marshal_slice (json_Marshal_ptr ''*sarif.Fix'' (Fix_MarshalJSON scn ord)) (Result.Fixes strct)),
      (''graphTraversals'', json_Marshal_slice (json_Marshal_ptr ''*sarif.GraphTraversal'' (GraphTraversal_MarshalJSON scn ord)) (Result.GraphTraversals strct)),
      (''graphs'', json_Marshal_slice (json_Marshal_ptr ''*sarif.Graph'' (Graph_MarshalJSON scn ord)) (Result.Graphs strct)),
      (''guid'', json_Marshal_string (Result.Guid strct)),
      (''hostedViewerUri'', json_Marshal_string (Result.HostedViewerUri strct)),
      (''kind'', json_Marshal_string (Result.Kind strct)),
      (''level'', json_Marshal_string (Result.Level strct)),
      (''locations'', json_Marshal_slice (json_Marshal_ptr ''*sarif.Location'' (Location_MarshalJSON scn ord)) (Result.Locations strct)),
      (''message'', if Result.Message strct = None then Inl (RequiredField ''message'') else json_Marshal_ptr ''*sarif.Message'' (Message_MarshalJSON scn ord) (Result.Message strct)),
      (''occurrenceCount'', json_Marshal_int (Result.OccurrenceCount strct)),
      (''partialFingerprints'', json_Marshal_map json_Marshal_string (Result.PartialFingerprints strct)),
      (''properties'', json_Marshal_bytes ''*sarif.PropertyBag'' (PropertyBag_MarshalJSON scn ord) (Result.Properties strct)),
      (''provenance'', json_Marshal_ptr ''*sarif.ResultProvenance'' (ResultProvenance_MarshalJSON scn ord) (Result.Provenance strct)),
      (''rank'', json_Marshal_float64 (Result.Rank strct)),
      (''relatedLocations'', json_Marshal_slice (json_Marshal_ptr ''*sarif.Location'' (Location_MarshalJSON scn ord)) (Result.RelatedLocations strct)),
      (''rule'', json_Marshal_ptr ''*sarif.ReportingDescriptorReference'' (ReportingDescriptorReference_MarshalJSON scn ord) (Result.Rule strct)),
      (''ruleId'', json_Marshal_string (Result.RuleId strct)),
      (''ruleIndex'', json_Marshal_int (Result.RuleIndex strct)),
      (''stacks'', json_Marshal_slice (json_Marshal_ptr ''*sarif.Stack'' (Stack_MarshalJSON scn ord)) (Result.Stacks strct)),
      (''suppressions'', json_Marshal_slice (json_Marshal_ptr ''*sarif.Suppression'' (Suppression_MarshalJSON scn ord)) (Result.Suppressions strct)),
      (''taxa'', json_Marshal_slice (json_Marshal_ptr ''*sarif.ReportingDescriptorReference'' (ReportingDescriptorReference_MarshalJSON scn ord)) (Result.Taxa strct)),
      (''webRequest'', json_Marshal_ptr ''*sarif.WebRequest'' (WebRequest_MarshalJSON scn ord) (Result.WebRequest strct)),
      (''webResponse'', json_Marshal_ptr ''*sarif.WebResponse'' (WebResponse_MarshalJSON scn ord) (Result.WebResponse strct)),
      (''workItemUris'', json_Marshal_slice json_Marshal_string (Result.WorkItemUris strct))]"

lemma Result_MarshalJSON_results:
  "Result_MarshalJSON scn ord strct = object (emit_all (Result_results scn ord strct))"
  by (simp add: Result_MarshalJSON_def Result_results_def emit_nilcheck)

lemma Result_keys_written:
  "Result_MarshalJSON scn ord strct = Inr j \<Longrightarrow> \<exists>kvs. j = JObj kvs \<and> map fst kvs = Result_keys"
  using keys_written [of "Result_results scn ord strct" j]
  by (simp add: Result_MarshalJSON_results Result_results_def Result_keys_def)

definition Result_encodable :: "scanner \<Rightarrow> order \<Rightarrow> Result \<Rightarrow> bool" where
  "Result_encodable scn ord strct \<longleftrightarrow>
     ptr_all (ArtifactLocation_encodable scn ord) (Result.AnalysisTarget strct) \<and>
     slice_all (ptr_all (Attachment_encodable scn ord)) (Result.Attachments strct) \<and>
     slice_all (ptr_all (CodeFlow_encodable scn ord)) (Result.CodeFlows strct) \<and>
     slice_all (ptr_all (Fix_encodable scn ord)) (Result.Fixes strct) \<and>
     slice_all (ptr_all (GraphTraversal_encodable scn ord)) (Result.GraphTraversals strct) \<and>
     slice_all (ptr_all (Graph_encodable scn ord)) (Result.Graphs strct) \<and>
     slice_all (ptr_all (Location_encodable scn ord)) (Result.Locations strct) \<and>
     Result.Message strct \<noteq> None \<and>
     ptr_all (Message_encodable scn ord) (Result.Message strct) \<and>
     ptr_all (PropertyBag_encodable scn ord) (Result.Properties strct) \<and>
     ptr_all (ResultProvenance_encodable scn ord) (Result.Provenance strct) \<and>
     finite64 (Result.Rank strct) \<and>
     slice_all (ptr_all (Location_encodable scn ord)) (Result.RelatedLocations strct) \<and>
     ptr_all (ReportingDescriptorReference_encodable scn ord) (Result.Rule strct) \<and>
     slice_all (ptr_all (Stack_encodable scn ord)) (Result.Stacks strct) \<and>
     slice_all (ptr_all (Suppression_encodable scn ord)) (Result.Suppressions strct) \<and>
     slice_all (ptr_all (ReportingDescriptorReference_encodable scn ord)) (Result.Taxa strct) \<and>
     ptr_all (WebRequest_encodable scn ord) (Result.WebRequest strct) \<and>
     ptr_all (WebResponse_encodable scn ord) (Result.WebResponse strct)"

lemma Result_fails_unless: "fails_unless (Result_MarshalJSON scn ord) (Result_encodable scn ord)"
  unfolding fails_unless_def Result_MarshalJSON_results Result_results_def Result_encodable_def isl_object_emit_all
  by (auto simp add: always_simps
      fails_unlessD [OF fails_unless_ptr [OF ArtifactLocation_fails_unless]]
      fails_unlessD [OF fails_unless_slice [OF fails_unless_ptr [OF Attachment_fails_unless]]]
      fails_unlessD [OF fails_unless_string]
      fails_unlessD [OF fails_unless_slice [OF fails_unless_ptr [OF CodeFlow_fails_unless]]]
      fails_unlessD [OF fails_unless_map [OF fails_unless_string]]
      fails_unlessD [OF fails_unless_slice [OF fails_unless_ptr [OF Fix_fails_unless]]]
      fails_unlessD [OF fails_unless_slice [OF fails_unless_ptr [OF GraphTraversal_fails_unless]]]
      fails_unlessD [OF fails_unless_slice [OF fails_unless_ptr [OF Graph_fails_unless]]]
      fails_unlessD [OF fails_unless_slice [OF fails_unless_ptr [OF Location_fails_unless]]]
      fails_unlessD [OF fails_unless_ptr [OF Message_fails_unless]]
      fails_unlessD [OF fails_unless_int]
      fails_unlessD [OF PropertyBag_field_fails_unless]
      fails_unlessD [OF fails_unless_ptr [OF ResultProvenance_fails_unless]]
      fails_unlessD [OF fails_unless_float64]
      fails_unlessD [OF fails_unless_ptr [OF ReportingDescriptorReference_fails_unless]]
      fails_unlessD [OF fails_unless_slice [OF fails_unless_ptr [OF Stack_fails_unless]]]
      fails_unlessD [OF fails_unless_slice [OF fails_unless_ptr [OF Suppression_fails_unless]]]
      fails_unlessD [OF fails_unless_slice [OF fails_unless_ptr [OF ReportingDescriptorReference_fails_unless]]]
      fails_unlessD [OF fails_unless_ptr [OF WebRequest_fails_unless]]
      fails_unlessD [OF fails_unless_ptr [OF WebResponse_fails_unless]]
      fails_unlessD [OF fails_unless_slice [OF fails_unless_string]])

definition Result_valid :: "Result \<Rightarrow> bool" where
  "Result_valid strct \<longleftrightarrow>
     ptr_all ArtifactLocation_valid (Result.AnalysisTarget strct) \<and>
     slice_all (ptr_all Attachment_valid) (Result.Attachments strct) \<and>
     slice_all (ptr_all CodeFlow_valid) (Result.CodeFlows strct) \<and>
     map_valid always (Result.Fingerprints strct) \<and>
     slice_all (ptr_all Fix_valid) (Result.Fixes strct) \<and>
     slice_all (ptr_all GraphTraversal_valid) (Result.GraphTraversals strct) \<and>
     slice_all (ptr_all Graph_valid) (Result.Graphs strct) \<and>
     slice_all (ptr_all Location_valid) (Result.Locations strct) \<and>
     Result.Message strct \<noteq> None \<and>
     ptr_all Message_valid (Result.Message strct) \<and>
     map_valid always (Result.PartialFingerprints strct) \<and>
     ptr_all PropertyBag_valid (Result.Properties strct) \<and>
     ptr_all ResultProvenance_valid (Result.Provenance strct) \<and>
     float64_valid (Result.Rank strct) \<and>
     slice_all (ptr_all Location_valid) (Result.RelatedLocations strct) \<and>
     ptr_all ReportingDescriptorReference_valid (Result.Rule strct) \<and>
     slice_all (ptr_all Stack_valid) (Result.Stacks strct) \<and>
     slice_all (ptr_all Suppression_valid) (Result.Suppressions strct) \<and>
     slice_all (ptr_all ReportingDescriptorReference_valid) (Result.Taxa strct) \<and>
     ptr_all WebRequest_valid (Result.WebRequest strct) \<and>
     ptr_all WebResponse_valid (Result.WebResponse strct)"

lemma Result_keys_distinct: "distinct Result_keys"
  by (simp add: Result_keys_def)

lemma Result_round_trips:
  "round_trips_object (Result_MarshalJSON scn ord) (Result_UnmarshalJSON ord') Result_valid"
  unfolding round_trips_object_def
proof (intro allI impI)
  fix strct assume v: "Result_valid strct"
  note v' = v [unfolded Result_valid_def]
  let ?rs = "Result_results scn ord strct"
  let ?kvs = "map (\<lambda>e. (fst e, projr (snd e))) ?rs"
  have f0: "\<not> isl (json_Marshal_ptr ''*sarif.ArtifactLocation'' (ArtifactLocation_MarshalJSON scn ord) (Result.AnalysisTarget strct)) \<and>
      json_Unmarshal_ptr (ArtifactLocation_UnmarshalJSON ord') (projr (json_Marshal_ptr ''*sarif.ArtifactLocation'' (ArtifactLocation_MarshalJSON scn ord) (Result.AnalysisTarget strct))) = Inr (Result.AnalysisTarget strct)"
    by (rule round_tripsD [OF round_trips_ptr [OF ArtifactLocation_round_trips]]) (use v' in simp)
  have f1: "\<not> isl (json_Marshal_slice (json_Marshal_ptr ''*sarif.Attachment'' (Attachment_MarshalJSON scn ord)) (Result.Attachments strct)) \<and>
      json_Unmarshal_slice (json_Unmarshal_ptr (Attachment_UnmarshalJSON ord')) (projr (json_Marshal_slice (json_Marshal_ptr ''*sarif.Attachment'' (Attachment_MarshalJSON scn ord)) (Result.Attachments strct))) = Inr (Result.Attachments strct)"
    by (rule round_tripsD [OF round_trips_slice [OF round_trips_ptr [OF Attachment_round_trips]]]) (use v' in simp)
  have f2: "\<not> isl (json_Marshal_string (Result.BaselineState strct)) \<and>
      json_Unmarshal_string (projr (json_Marshal_string (Result.BaselineState strct))) = Inr (Result.BaselineState strct)"
    by (rule round_tripsD [OF round_trips_string]) (use v' in simp)
  have f3: "\<not> isl (json_Marshal_slice (json_Marshal_ptr ''*sarif.CodeFlow'' (CodeFlow_MarshalJSON scn ord)) (Result.CodeFlows strct)) \<and>
      json_Unmarshal_slice (json_Unmarshal_ptr (CodeFlow_UnmarshalJSON ord')) (projr (json_Marshal_slice (json_Marshal_ptr ''*sarif.CodeFlow'' (CodeFlow_MarshalJSON scn ord)) (Result.CodeFlows strct))) = Inr (Result.CodeFlows strct)"
    by (rule round_tripsD [OF round_trips_slice [OF round_trips_ptr [OF CodeFlow_round_trips]]]) (use v' in simp)
  have f4: "\<not> isl (json_Marshal_string (Result.CorrelationGuid strct)) \<and>
      json_Unmarshal_string (projr (json_Marshal_string (Result.CorrelationGuid strct))) = Inr (Result.CorrelationGuid strct)"
    by (rule round_tripsD [OF round_trips_string]) (use v' in simp)
  have f5: "\<not> isl (json_Marshal_map json_Marshal_string (Result.Fingerprints strct)) \<and>
      json_Unmarshal_map json_Unmarshal_string (projr (json_Marshal_map json_Marshal_string (Result.Fingerprints strct))) = Inr (Result.Fingerprints strct)"
    by (rule round_tripsD [OF round_trips_map [OF round_trips_string]]) (use v' in simp)
  have f6: "\<not> isl (json_Marshal_slice (json_Marshal_ptr ''*sarif.Fix'' (Fix_MarshalJSON scn ord)) (Result.Fixes strct)) \<and>
      json_Unmarshal_slice (json_Unmarshal_ptr (Fix_UnmarshalJSON ord')) (projr (json_Marshal_slice (json_Marshal_ptr ''*sarif.Fix'' (Fix_MarshalJSON scn ord)) (Result.Fixes strct))) = Inr (Result.Fixes strct)"
    by (rule round_tripsD [OF round_trips_slice [OF round_trips_ptr [OF Fix_round_trips]]]) (use v' in simp)
  have f7: "\<not> isl (json_Marshal_slice (json_Marshal_ptr ''*sarif.GraphTraversal'' (GraphTraversal_MarshalJSON scn ord)) (Result.GraphTraversals strct)) \<and>
      json_Unmarshal_slice (json_Unmarshal_ptr (GraphTraversal_UnmarshalJSON ord')) (projr (json_Marshal_slice (json_Marshal_ptr ''*sarif.GraphTraversal'' (GraphTraversal_MarshalJSON scn ord)) (Result.GraphTraversals strct))) = Inr (Result.GraphTraversals strct)"
    by (rule round_tripsD [OF round_trips_slice [OF round_trips_ptr [OF GraphTraversal_round_trips]]]) (use v' in simp)
  have f8: "\<not> isl (json_Marshal_slice (json_Marshal_ptr ''*sarif.Graph'' (Graph_MarshalJSON scn ord)) (Result.Graphs strct)) \<and>
      json_Unmarshal_slice (json_Unmarshal_ptr (Graph_UnmarshalJSON ord')) (projr (json_Marshal_slice (json_Marshal_ptr ''*sarif.Graph'' (Graph_MarshalJSON scn ord)) (Result.Graphs strct))) = Inr (Result.Graphs strct)"
    by (rule round_tripsD [OF round_trips_slice [OF round_trips_ptr [OF Graph_round_trips]]]) (use v' in simp)
  have f9: "\<not> isl (json_Marshal_string (Result.Guid strct)) \<and>
      json_Unmarshal_string (projr (json_Marshal_string (Result.Guid strct))) = Inr (Result.Guid strct)"
    by (rule round_tripsD [OF round_trips_string]) (use v' in simp)
  have f10: "\<not> isl (json_Marshal_string (Result.HostedViewerUri strct)) \<and>
      json_Unmarshal_string (projr (json_Marshal_string (Result.HostedViewerUri strct))) = Inr (Result.HostedViewerUri strct)"
    by (rule round_tripsD [OF round_trips_string]) (use v' in simp)
  have f11: "\<not> isl (json_Marshal_string (Result.Kind strct)) \<and>
      json_Unmarshal_string (projr (json_Marshal_string (Result.Kind strct))) = Inr (Result.Kind strct)"
    by (rule round_tripsD [OF round_trips_string]) (use v' in simp)
  have f12: "\<not> isl (json_Marshal_string (Result.Level strct)) \<and>
      json_Unmarshal_string (projr (json_Marshal_string (Result.Level strct))) = Inr (Result.Level strct)"
    by (rule round_tripsD [OF round_trips_string]) (use v' in simp)
  have f13: "\<not> isl (json_Marshal_slice (json_Marshal_ptr ''*sarif.Location'' (Location_MarshalJSON scn ord)) (Result.Locations strct)) \<and>
      json_Unmarshal_slice (json_Unmarshal_ptr (Location_UnmarshalJSON ord')) (projr (json_Marshal_slice (json_Marshal_ptr ''*sarif.Location'' (Location_MarshalJSON scn ord)) (Result.Locations strct))) = Inr (Result.Locations strct)"
    by (rule round_tripsD [OF round_trips_slice [OF round_trips_ptr [OF Location_round_trips]]]) (use v' in simp)
  have f14: "\<not> isl (json_Marshal_ptr ''*sarif.Message'' (Message_MarshalJSON scn ord) (Result.Message strct)) \<and>
      json_Unmarshal_ptr (Message_UnmarshalJSON ord') (projr (json_Marshal_ptr ''*sarif.Message'' (Message_MarshalJSON scn ord) (Result.Message strct))) = Inr (Result.Message strct)"
    by (rule round_tripsD [OF round_trips_ptr [OF Message_round_trips]]) (use v' in simp)
  have f15: "\<not> isl (json_Marshal_int (Result.OccurrenceCount strct)) \<and>
      json_Unmarshal_int (projr (json_Marshal_int (Result.OccurrenceCount strct))) = Inr (Result.OccurrenceCount strct)"
    by (rule round_tripsD [OF round_trips_int]) (use v' in simp)
  have f16: "\<not> isl (json_Marshal_map json_Marshal_string (Result.PartialFingerprints strct)) \<and>
      json_Unmarshal_map json_Unmarshal_string (projr (json_Marshal_map json_Marshal_string (Result.PartialFingerprints strct))) = Inr (Result.PartialFingerprints strct)"
    by (rule round_tripsD [OF round_trips_map [OF round_trips_string]]) (use v' in simp)
  have f17: "\<not> isl (json_Marshal_bytes ''*sarif.PropertyBag'' (PropertyBag_MarshalJSON scn ord) (Result.Properties strct)) \<and>
      json_Unmarshal_ptr (PropertyBag_UnmarshalJSON ord') (projr (json_Marshal_bytes ''*sarif.PropertyBag'' (PropertyBag_MarshalJSON scn ord) (Result.Properties strct))) = Inr (Result.Properties strct)"
    by (rule round_tripsD [OF PropertyBag_field_round_trips]) (use v' in simp)
  have f18: "\<not> isl (json_Marshal_ptr ''*sarif.ResultProvenance'' (ResultProvenance_MarshalJSON scn ord) (Result.Provenance strct)) \<and>
      json_Unmarshal_ptr (ResultProvenance_UnmarshalJSON ord') (projr (json_Marshal_ptr ''*sarif.ResultProvenance'' (ResultProvenance_MarshalJSON scn ord) (Result.Provenance strct))) = Inr (Result.Provenance strct)"
    by (rule round_tripsD [OF round_trips_ptr [OF ResultProvenance_round_trips]]) (use v' in simp)
  have f19: "\<not> isl (json_Marshal_float64 (Result.Rank strct)) \<and>
      json_Unmarshal_float64 (projr (json_Marshal_float64 (Result.Rank strct))) = Inr (Result.Rank strct)"
    by (rule round_tripsD [OF round_trips_float64]) (use v' in simp)
  have f20: "\<not> isl (json_Marshal_slice (json_Marshal_ptr ''*sarif.Location'' (Location_MarshalJSON scn ord)) (Result.RelatedLocations strct)) \<and>
      json_Unmarshal_slice (json_Unmarshal_ptr (Location_UnmarshalJSON ord')) (projr (json_Marshal_slice (json_Marshal_ptr ''*sarif.Location'' (Location_MarshalJSON scn ord)) (Result.RelatedLocations strct))) = Inr (Result.RelatedLocations strct)"
    by (rule round_tripsD [OF round_trips_slice [OF round_trips_ptr [OF Location_round_trips]]]) (use v' in simp)
  have f21: "\<not> isl (json_Marshal_ptr ''*sarif.ReportingDescriptorReference'' (ReportingDescriptorReference_MarshalJSON scn ord) (Result.Rule strct)) \<and>
      json_Unmarshal_ptr (ReportingDescriptorReference_UnmarshalJSON ord') (projr (json_Marshal_ptr ''*sarif.ReportingDescriptorReference'' (ReportingDescriptorReference_MarshalJSON scn ord) (Result.Rule strct))) = Inr (Result.Rule strct)"
    by (rule round_tripsD [OF round_trips_ptr [OF ReportingDescriptorReference_round_trips]]) (use v' in simp)
  have f22: "\<not> isl (json_Marshal_string (Result.RuleId strct)) \<and>
      json_Unmarshal_string (projr (json_Marshal_string (Result.RuleId strct))) = Inr (Result.RuleId strct)"
    by (rule round_tripsD [OF round_trips_string]) (use v' in simp)
  have f23: "\<not> isl (json_Marshal_int (Result.RuleIndex strct)) \<and>
      json_Unmarshal_int (projr (json_Marshal_int (Result.RuleIndex strct))) = Inr (Result.RuleIndex strct)"
    by (rule round_tripsD [OF round_trips_int]) (use v' in simp)
  have f24: "\<not> isl (json_Marshal_slice (json_Marshal_ptr ''*sarif.Stack'' (Stack_MarshalJSON scn ord)) (Result.Stacks strct)) \<and>
      json_Unmarshal_slice (json_Unmarshal_ptr (Stack_UnmarshalJSON ord')) (projr (json_Marshal_slice (json_Marshal_ptr ''*sarif.Stack'' (Stack_MarshalJSON scn ord)) (Result.Stacks strct))) = Inr (Result.Stacks strct)"
    by (rule round_tripsD [OF round_trips_slice [OF round_trips_ptr [OF Stack_round_trips]]]) (use v' in simp)
  have f25: "\<not> isl (json_Marshal_slice (json_Marshal_ptr ''*sarif.Suppression'' (Suppression_MarshalJSON scn ord)) (Result.Suppressions strct)) \<and>
      json_Unmarshal_slice (json_Unmarshal_ptr (Suppression_UnmarshalJSON ord')) (projr (json_Marshal_slice (json_Marshal_ptr ''*sarif.Suppression'' (Suppression_MarshalJSON scn ord)) (Result.Suppressions strct))) = Inr (Result.Suppressions strct)"
    by (rule round_tripsD [OF round_trips_slice [OF round_trips_ptr [OF Suppression_round_trips]]]) (use v' in simp)
  have f26: "\<not> isl (json_Marshal_slice (json_Marshal_ptr ''*sarif.ReportingDescriptorReference'' (ReportingDescriptorReference_MarshalJSON scn ord)) (Result.Taxa strct)) \<and>
      json_Unmarshal_slice (json_Unmarshal_ptr (ReportingDescriptorReference_UnmarshalJSON ord')) (projr (json_Marshal_slice (json_Marshal_ptr ''*sarif.ReportingDescriptorReference'' (ReportingDescriptorReference_MarshalJSON scn ord)) (Result.Taxa strct))) = Inr (Result.Taxa strct)"
    by (rule round_tripsD [OF round_trips_slice [OF round_trips_ptr [OF ReportingDescriptorReference_round_trips]]]) (use v' in simp)
  have f27: "\<not> isl (json_Marshal_ptr ''*sarif.WebRequest'' (WebRequest_MarshalJSON scn ord) (Result.WebRequest strct)) \<and>
      json_Unmarshal_ptr (WebRequest_UnmarshalJSON ord') (projr (json_Marshal_ptr ''*sarif.WebRequest'' (WebRequest_MarshalJSON scn ord) (Result.WebRequest strct))) = Inr (Result.WebRequest strct)"
    by (rule round_tripsD [OF round_trips_ptr [OF WebRequest_round_trips]]) (use v' in simp)
  have f28: "\<not> isl (json_Marshal_ptr ''*sarif.WebResponse'' (WebResponse_MarshalJSON scn ord) (Result.WebResponse strct)) \<and>
      json_Unmarshal_ptr (WebResponse_UnmarshalJSON ord') (projr (json_Marshal_ptr ''*sarif.WebResponse'' (WebResponse_MarshalJSON scn ord) (Result.WebResponse strct))) = Inr (Result.WebResponse strct)"
    by (rule round_tripsD [OF round_trips_ptr [OF WebResponse_round_trips]]) (use v' in simp)
  have f29: "\<not> isl (json_Marshal_slice json_Marshal_string (Result.WorkItemUris strct)) \<and>
      json_Unmarshal_slice json_Unmarshal_string (projr (json_Marshal_slice json_Marshal_string (Result.WorkItemUris strct))) = Inr (Result.WorkItemUris strct)"
    by (rule round_tripsD [OF round_trips_slice [OF round_trips_string]]) (use v' in simp)
  note fs = f0 f1 f2 f3 f4 f5 f6 f7 f8 f9 f10 f11 f12 f13 f14 f15 f16 f17 f18 f19 f20 f21 f22 f23 f24 f25 f26 f27 f28 f29
  have nn: "Result.Message strct \<noteq> None"
    using v' by simp_all
  have rs: "?rs =
     [(''analysisTarget'', json_Marshal_ptr ''*sarif.ArtifactLocation'' (ArtifactLocation_MarshalJSON scn ord) (Result.AnalysisTarget strct)),
      (''attachments'', json_Marshal_slice (json_Marshal_ptr ''*sarif.Attachment'' (Attachment_MarshalJSON scn ord)) (Result.Attachments strct)),
      (''baselineState'', json_Marshal_string (Result.BaselineState strct)),
      (''codeFlows'', json_Marshal_slice (json_Marshal_ptr ''*sarif.CodeFlow'' (CodeFlow_MarshalJSON scn ord)) (Result.CodeFlows strct)),
      (''correlationGuid'', json_Marshal_string (Result.CorrelationGuid strct)),
      (''fingerprints'', json_Marshal_map json_Marshal_string (Result.Fingerprints strct)),
      (''fixes'', json_Marshal_slice (json_Marshal_ptr ''*sarif.Fix'' (Fix_MarshalJSON scn ord)) (Result.Fixes strct)),
      (''graphTraversals'', json_Marshal_slice (json_Marshal_ptr ''*sarif.GraphTraversal'' (GraphTraversal_MarshalJSON scn ord)) (Result.GraphTraversals strct)),
      (''graphs'', json_Marshal_slice (json_Marshal_ptr ''*sarif.Graph'' (Graph_MarshalJSON scn ord)) (Result.Graphs strct)),
      (''guid'', json_Marshal_string (Result.Guid strct)),
      (''hostedViewerUri'', json_Marshal_string (Result.HostedViewerUri strct)),
      (''kind'', json_Marshal_string (Result.Kind strct)),
      (''level'', json_Marshal_string (Result.Level strct)),
      (''locations'', json_Marshal_slice (json_Marshal_ptr ''*sarif.Location'' (Location_MarshalJSON scn ord)) (Result.Locations strct)),
      (''message'', json_Marshal_ptr ''*sarif.Message'' (Message_MarshalJSON scn ord) (Result.Message strct)),
      (''occurrenceCount'', json_Marshal_int (Result.OccurrenceCount strct)),
      (''partialFingerprints'', json_Marshal_map json_Marshal_string (Result.PartialFingerprints strct)),
      (''properties'', json_Marshal_bytes ''*sarif.PropertyBag'' (PropertyBag_MarshalJSON scn ord) (Result.Properties strct)),
      (''provenance'', json_Marshal_ptr ''*sarif.ResultProvenance'' (ResultProvenance_MarshalJSON scn ord) (Result.Provenance strct)),
      (''rank'', json_Marshal_float64 (Result.Rank strct)),
      (''relatedLocations'', json_Marshal_slice (json_Marshal_ptr ''*sarif.Location'' (Location_MarshalJSON scn ord)) (Result.RelatedLocations strct)),
      (''rule'', json_Marshal_ptr ''*sarif.ReportingDescriptorReference'' (ReportingDescriptorReference_MarshalJSON scn ord) (Result.Rule strct)),
      (''ruleId'', json_Marshal_string (Result.RuleId strct)),
      (''ruleIndex'', json_Marshal_int (Result.RuleIndex strct)),
      (''stacks'', json_Marshal_slice (json_Marshal_ptr ''*sarif.Stack'' (Stack_MarshalJSON scn ord)) (Result.Stacks strct)),
      (''suppressions'', json_Marshal_slice (json_Marshal_ptr ''*sarif.Suppression'' (Suppression_MarshalJSON scn ord)) (Result.Suppressions strct)),
      (''taxa'', json_Marshal_slice (json_Marshal_ptr ''*sarif.ReportingDescriptorReference'' (ReportingDescriptorReference_MarshalJSON scn ord)) (Result.Taxa strct)),
      (''webRequest'', json_Marshal_ptr ''*sarif.WebRequest'' (WebRequest_MarshalJSON scn ord) (Result.WebRequest strct)),
      (''webResponse'', json_Marshal_ptr ''*sarif.WebResponse'' (WebResponse_MarshalJSON scn ord) (Result.WebResponse strct)),
      (''workItemUris'', json_Marshal_slice json_Marshal_string (Result.WorkItemUris strct))]"
    using nn by (auto simp add: Result_results_def)
  have keys: "map fst ?rs = Result_keys"
    by (simp add: Result_results_def Result_keys_def)
  then have dist: "distinct (map fst ?rs)"
    by (simp only: Result_keys_distinct)
  have ok: "list_all (\<lambda>e. \<not> isl (snd e)) ?rs"
    unfolding rs by (simp only: list.pred_inject snd_conv fs simp_thms)
  then have enc: "Result_MarshalJSON scn ord strct = Inr (JObj ?kvs)"
    by (simp add: Result_MarshalJSON_results [of scn ord strct] object_emit_all_eq_Inr)
  have l0: "map_of (rev ?kvs) ''analysisTarget'' = Some (projr (json_Marshal_ptr ''*sarif.ArtifactLocation'' (ArtifactLocation_MarshalJSON scn ord) (Result.AnalysisTarget strct)))"
    by (rule written_lookup [OF dist]) (subst rs, intro list.set_intros)
  have l1: "map_of (rev ?kvs) ''attachments'' = Some (projr (json_Marshal_slice (json_Marshal_ptr ''*sarif.Attachment'' (Attachment_MarshalJSON scn ord)) (Result.Attachments strct)))"
    by (rule written_lookup [OF dist]) (subst rs, intro list.set_intros)
  have l2: "map_of (rev ?kvs) ''baselineState'' = Some (projr (json_Marshal_string (Result.BaselineState strct)))"
    by (rule written_lookup [OF dist]) (subst rs, intro list.set_intros)
  have l3: "map_of (rev ?kvs) ''codeFlows'' = Some (projr (json_Marshal_slice (json_Marshal_ptr ''*sarif.CodeFlow'' (CodeFlow_MarshalJSON scn ord)) (Result.CodeFlows strct)))"
    by (rule written_lookup [OF dist]) (subst rs, intro list.set_intros)
  have l4: "map_of (rev ?kvs) ''correlationGuid'' = Some (projr (json_Marshal_string (Result.CorrelationGuid strct)))"
    by (rule written_lookup [OF dist]) (subst rs, intro list.set_intros)
  have l5: "map_of (rev ?kvs) ''fingerprints'' = Some (projr (json_Marshal_map json_Marshal_string (Result.Fingerprints strct)))"
    by (rule written_lookup [OF dist]) (subst rs, intro list.set_intros)
  have l6: "map_of (rev ?kvs) ''fixes'' = Some (projr (json_Marshal_slice (json_Marshal_ptr ''*sarif.Fix'' (Fix_MarshalJSON scn ord)) (Result.Fixes strct)))"
    by (rule written_lookup [OF dist]) (subst rs, intro list.set_intros)
  have l7: "map_of (rev ?kvs) ''graphTraversals'' = Some (projr (json_Marshal_slice (json_Marshal_ptr ''*sarif.GraphTraversal'' (GraphTraversal_MarshalJSON scn ord)) (Result.GraphTraversals strct)))"
    by (rule written_lookup [OF dist]) (subst rs, intro list.set_intros)
  have l8: "map_of (rev ?kvs) ''graphs'' = Some (projr (json_Marshal_slice (json_Marshal_ptr ''*sarif.Graph'' (Graph_MarshalJSON scn ord)) (Result.Graphs strct)))"
    by (rule written_lookup [OF dist]) (subst rs, intro list.set_intros)
  have l9: "map_of (rev ?kvs) ''guid'' = Some (projr (json_Marshal_string (Result.Guid strct)))"
    by (rule written_lookup [OF dist]) (subst rs, intro list.set_intros)
  have l10: "map_of (rev ?kvs) ''hostedViewerUri'' = Some (projr (json_Marshal_string (Result.HostedViewerUri strct)))"
    by (rule written_lookup [OF dist]) (subst rs, intro list.set_intros)
  have l11: "map_of (rev ?kvs) ''kind'' = Some (projr (json_Marshal_string (Result.Kind strct)))"
    by (rule written_lookup [OF dist]) (subst rs, intro list.set_intros)
  have l12: "map_of (rev ?kvs) ''level'' = Some (projr (json_Marshal_string (Result.Level strct)))"
    by (rule written_lookup [OF dist]) (subst rs, intro list.set_intros)
  have l13: "map_of (rev ?kvs) ''locations'' = Some (projr (json_Marshal_slice (json_Marshal_ptr ''*sarif.Location'' (Location_MarshalJSON scn ord)) (Result.Locations strct)))"
    by (rule written_lookup [OF dist]) (subst rs, intro list.set_intros)
  have l14: "map_of (rev ?kvs) ''message'' = Some (projr (json_Marshal_ptr ''*sarif.Message'' (Message_MarshalJSON scn ord) (Result.Message strct)))"
    by (rule written_lookup [OF dist]) (subst rs, intro list.set_intros)
  have l15: "map_of (rev ?kvs) ''occurrenceCount'' = Some (projr (json_Marshal_int (Result.OccurrenceCount strct)))"
    by (rule written_lookup [OF dist]) (subst rs, intro list.set_intros)
  have l16: "map_of (rev ?kvs) ''partialFingerprints'' = Some (projr (json_Marshal_map json_Marshal_string (Result.PartialFingerprints strct)))"
    by (rule written_lookup [OF dist]) (subst rs, intro list.set_intros)
  have l17: "map_of (rev ?kvs) ''properties'' = Some (projr (json_Marshal_bytes ''*sarif.PropertyBag'' (PropertyBag_MarshalJSON scn ord) (Result.Properties strct)))"
    by (rule written_lookup [OF dist]) (subst rs, intro list.set_intros)
  have l18: "map_of (rev ?kvs) ''provenance'' = Some (projr (json_Marshal_ptr ''*sarif.ResultProvenance'' (ResultProvenance_MarshalJSON scn ord) (Result.Provenance strct)))"
    by (rule written_lookup [OF dist]) (subst rs, intro list.set_intros)
  have l19: "map_of (rev ?kvs) ''rank'' = Some (projr (json_Marshal_float64 (Result.Rank strct)))"
    by (rule written_lookup [OF dist]) (subst rs, intro list.set_intros)
  have l20: "map_of (rev ?kvs) ''relatedLocations'' = Some (projr (json_Marshal_slice (json_Marshal_ptr ''*sarif.Location'' (Location_MarshalJSON scn ord)) (Result.RelatedLocations strct)))"
    by (rule written_lookup [OF dist]) (subst rs, intro list.set_intros)
  have l21: "map_of (rev ?kvs) ''rule'' = Some (projr (json_Marshal_ptr ''*sarif.ReportingDescriptorReference'' (ReportingDescriptorReference_MarshalJSON scn ord) (Result.Rule strct)))"
    by (rule written_lookup [OF dist]) (subst rs, intro list.set_intros)
  have l22: "map_of (rev ?kvs) ''ruleId'' = Some (projr (json_Marshal_string (Result.RuleId strct)))"
    by (rule written_lookup [OF dist]) (subst rs, intro list.set_intros)
  have l23: "map_of (rev ?kvs) ''ruleIndex'' = Some (projr (json_Marshal_int (Result.RuleIndex strct)))"
    by (rule written_lookup [OF dist]) (subst rs, intro list.set_intros)
  have l24: "map_of (rev ?kvs) ''stacks'' = Some (projr (json_Marshal_slice (json_Marshal_ptr ''*sarif.Stack'' (Stack_MarshalJSON scn ord)) (Result.Stacks strct)))"
    by (rule written_lookup [OF dist]) (subst rs, intro list.set_intros)
  have l25: "map_of (rev ?kvs) ''suppressions'' = Some (projr (json_Marshal_slice (json_Marshal_ptr ''*sarif.Suppression'' (Suppression_MarshalJSON scn ord)) (Result.Suppressions strct)))"
    by (rule written_lookup [OF dist]) (subst rs, intro list.set_intros)
  have l26: "map_of (rev ?kvs) ''taxa'' = Some (projr (json_Marshal_slice (json_Marshal_ptr ''*sarif.ReportingDescriptorReference'' (ReportingDescriptorReference_MarshalJSON scn ord)) (Result.Taxa strct)))"
    by (rule written_lookup [OF dist]) (subst rs, intro list.set_intros)
  have l27: "map_of (rev ?kvs) ''webRequest'' = Some (projr (json_Marshal_ptr ''*sarif.WebRequest'' (WebRequest_MarshalJSON scn ord) (Result.WebRequest strct)))"
    by (rule written_lookup [OF dist]) (subst rs, intro list.set_intros)
  have l28: "map_of (rev ?kvs) ''webResponse'' = Some (projr (json_Marshal_ptr ''*sarif.WebResponse'' (WebResponse_MarshalJSON scn ord) (Result.WebResponse strct)))"
    by (rule written_lookup [OF dist]) (subst rs, intro list.set_intros)
  have l29: "map_of (rev ?kvs) ''workItemUris'' = Some (projr (json_Marshal_slice json_Marshal_string (Result.WorkItemUris strct)))"
    by (rule written_lookup [OF dist]) (subst rs, intro list.set_intros)
  have dec: "Result_decodes ord' (map_of (rev ?kvs)) strct"
    unfolding Result_decodes_def l0 l1 l2 l3 l4 l5 l6 l7 l8 l9 l10 l11 l12 l13 l14 l15 l16 l17 l18 l19 l20 l21 l22 l23 l24 l25 l26 l27 l28 l29
    by (simp only: field_ok_Some fs written_dom keys subset_refl option.simps simp_thms)
  then have "Result_UnmarshalJSON ord' (JObj ?kvs) = Inr strct"
    by (simp only: Result_decode_iff)
  with enc show "rt_object (Result_MarshalJSON scn ord) (Result_UnmarshalJSON ord') strct"
    unfolding rt_object_def by blast
qed

definition Result_small_bags :: "Result \<Rightarrow> bool" where
  "Result_small_bags strct \<longleftrightarrow>
     ptr_all ArtifactLocation_small_bags (Result.AnalysisTarget strct) \<and>
     slice_all (ptr_all Attachment_small_bags) (Result.Attachments strct) \<and>
     slice_all (ptr_all CodeFlow_small_bags) (Result.CodeFlows strct) \<and>
     slice_all (ptr_all Fix_small_bags) (Result.Fixes strct) \<and>
     slice_all (ptr_all GraphTraversal_small_bags) (Result.GraphTraversals strct) \<and>
     slice_all (ptr_all Graph_small_bags) (Result.Graphs strct) \<and>
     slice_all (ptr_all Location_small_bags) (Result.Locations strct) \<and>
     ptr_all Message_small_bags (Result.Message strct) \<and>
     ptr_all PropertyBag_small_bags (Result.Properties strct) \<and>
     ptr_all ResultProvenance_small_bags (Result.Provenance strct) \<and>
     slice_all (ptr_all Location_small_bags) (Result.RelatedLocations strct) \<and>
     ptr_all ReportingDescriptorReference_small_bags (Result.Rule strct) \<and>
     slice_all (ptr_all Stack_small_bags) (Result.Stacks strct) \<and>
     slice_all (ptr_all Suppression_small_bags) (Result.Suppressions strct) \<and>
     slice_all (ptr_all ReportingDescriptorReference_small_bags) (Result.Taxa strct) \<and>
     ptr_all WebRequest_small_bags (Result.WebRequest strct) \<and>
     ptr_all WebResponse_small_bags (Result.WebResponse strct)"

lemma Result_same_output:
  "same_output (Result_MarshalJSON scn ord) (Result_MarshalJSON scn ord') Result_small_bags"
  unfolding same_output_def
proof (intro allI impI)
  fix strct assume v: "Result_small_bags strct"
  note v' = v [unfolded Result_small_bags_def]
  have e0: "json_Marshal_ptr ''*sarif.ArtifactLocation'' (ArtifactLocation_MarshalJSON scn ord) (Result.AnalysisTarget strct) =
      json_Marshal_ptr ''*sarif.ArtifactLocation'' (ArtifactLocation_MarshalJSON scn ord') (Result.AnalysisTarget strct)"
    by (rule same_outputD [OF same_output_ptr [OF ArtifactLocation_same_output]]) (use v' in simp)
  have e1: "json_Marshal_slice (json_Marshal_ptr ''*sarif.Attachment'' (Attachment_MarshalJSON scn ord)) (Result.Attachments strct) =
      json_Marshal_slice (json_Marshal_ptr ''*sarif.Attachment'' (Attachment_MarshalJSON scn ord')) (Result.Attachments strct)"
    by (rule same_outputD [OF same_output_slice [OF same_output_ptr [OF Attachment_same_output]]]) (use v' in simp)
  have e3: "json_Marshal_slice (json_Marshal_ptr ''*sarif.CodeFlow'' (CodeFlow_MarshalJSON scn ord)) (Result.CodeFlows strct) =
      json_Marshal_slice (json_Marshal_ptr ''*sarif.CodeFlow'' (CodeFlow_MarshalJSON scn ord')) (Result.CodeFlows strct)"
    by (rule same_outputD [OF same_output_slice [OF same_output_ptr [OF CodeFlow_same_output]]]) (use v' in simp)
  have e6: "json_Marshal_slice (json_Marshal_ptr ''*sarif.Fix'' (Fix_MarshalJSON scn ord)) (Result.Fixes strct) =
      json_Marshal_slice (json_Marshal_ptr ''*sarif.Fix'' (Fix_MarshalJSON scn ord')) (Result.Fixes strct)"
    by (rule same_outputD [OF same_output_slice [OF same_output_ptr [OF Fix_same_output]]]) (use v' in simp)
  have e7: "json_Marshal_slice (json_Marshal_ptr ''*sarif.GraphTraversal'' (GraphTraversal_MarshalJSON scn ord)) (Result.GraphTraversals strct) =
      json_Marshal_slice (json_Marshal_ptr ''*sarif.GraphTraversal'' (GraphTraversal_MarshalJSON scn ord')) (Result.GraphTraversals strct)"
    by (rule same_outputD [OF same_output_slice [OF same_output_ptr [OF GraphTraversal_same_output]]]) (use v' in simp)
  have e8: "json_Marshal_slice (json_Marshal_ptr ''*sarif.Graph'' (Graph_MarshalJSON scn ord)) (Result.Graphs strct) =
      json_Marshal_slice (json_Marshal_ptr ''*sarif.Graph'' (Graph_MarshalJSON scn ord')) (Result.Graphs strct)"
    by (rule same_outputD [OF same_output_slice [OF same_output_ptr [OF Graph_same_output]]]) (use v' in simp)
  have e13: "json_Marshal_slice (json_Marshal_ptr ''*sarif.Location'' (Location_MarshalJSON scn ord)) (Result.Locations strct) =
      json_Marshal_slice (json_Marshal_ptr ''*sarif.Location'' (Location_MarshalJSON scn ord')) (Result.Locations strct)"
    by (rule same_outputD [OF same_output_slice [OF same_output_ptr [OF Location_same_output]]]) (use v' in simp)
  have e14: "json_Marshal_ptr ''*sarif.Message'' (Message_MarshalJSON scn ord) (Result.Message strct) =
      json_Marshal_ptr ''*sarif.Message'' (Message_MarshalJSON scn ord') (Result.Message strct)"
    by (rule same_outputD [OF same_output_ptr [OF Message_same_output]]) (use v' in simp)
  have e17: "json_Marshal_bytes ''*sarif.PropertyBag'' (PropertyBag_MarshalJSON scn ord) (Result.Properties strct) =
      json_Marshal_bytes ''*sarif.PropertyBag'' (PropertyBag_MarshalJSON scn ord') (Result.Properties strct)"
    by (rule same_outputD [OF PropertyBag_field_same_output]) (use v' in simp)
  have e18: "json_Marshal_ptr ''*sarif.ResultProvenance'' (ResultProvenance_MarshalJSON scn ord) (Result.Provenance strct) =
      json_Marshal_ptr ''*sarif.ResultProvenance'' (ResultProvenance_MarshalJSON scn ord') (Result.Provenance strct)"
    by (rule same_outputD [OF same_output_ptr [OF ResultProvenance_same_output]]) (use v' in simp)
  have e20: "json_Marshal_slice (json_Marshal_ptr ''*sarif.Location'' (Location_MarshalJSON scn ord)) (Result.RelatedLocations strct) =
      json_Marshal_slice (json_Marshal_ptr ''*sarif.Location'' (Location_MarshalJSON scn ord')) (Result.RelatedLocations strct)"
    by (rule same_outputD [OF same_output_slice [OF same_output_ptr [OF Location_same_output]]]) (use v' in simp)
  have e21: "json_Marshal_ptr ''*sarif.ReportingDescriptorReference'' (ReportingDescriptorReference_MarshalJSON scn ord) (Result.Rule strct) =
      json_Marshal_ptr ''*sarif.ReportingDescriptorReference'' (ReportingDescriptorReference_MarshalJSON scn ord') (Result.Rule strct)"
    by (rule same_outputD [OF same_output_ptr [OF ReportingDescriptorReference_same_output]]) (use v' in simp)
  have e24: "json_Marshal_slice (json_Marshal_ptr ''*sarif.Stack'' (Stack_MarshalJSON scn ord)) (Result.Stacks strct) =
      json_Marshal_slice (json_Marshal_ptr ''*sarif.Stack'' (Stack_MarshalJSON scn ord')) (Result.Stacks strct)"
    by (rule same_outputD [OF same_output_slice [OF same_output_ptr [OF Stack_same_output]]]) (use v' in simp)
  have e25: "json_Marshal_slice (json_Marshal_ptr ''*sarif.Suppression'' (Suppression_MarshalJSON scn ord)) (Result.Suppressions strct) =
      json_Marshal_slice (json_Marshal_ptr ''*sarif.Suppression'' (Suppression_MarshalJSON scn ord')) (Result.Suppressions strct)"
    by (rule same_outputD [OF same_output_slice [OF same_output_ptr [OF Suppression_same_output]]]) (use v' in simp)
  have e26: "json_Marshal_slice (json_Marshal_ptr ''*sarif.ReportingDescriptorReference'' (ReportingDescriptorReference_MarshalJSON scn ord)) (Result.Taxa strct) =
      json_Marshal_slice (json_Marshal_ptr ''*sarif.ReportingDescriptorReference'' (ReportingDescriptorReference_MarshalJSON scn ord')) (Result.Taxa strct)"
    by (rule same_outputD [OF same_output_slice [OF same_output_ptr [OF ReportingDescriptorReference_same_output]]]) (use v' in simp)
  have e27: "json_Marshal_ptr ''*sarif.WebRequest'' (WebRequest_MarshalJSON scn ord) (Result.WebRequest strct) =
      json_Marshal_ptr ''*sarif.WebRequest'' (WebRequest_MarshalJSON scn ord') (Result.WebRequest strct)"
    by (rule same_outputD [OF same_output_ptr [OF WebRequest_same_output]]) (use v' in simp)
  have e28: "json_Marshal_ptr ''*sarif.WebResponse'' (WebResponse_MarshalJSON scn ord) (Result.WebResponse strct) =
      json_Marshal_ptr ''*sarif.WebResponse'' (WebResponse_MarshalJSON scn ord') (Result.WebResponse strct)"
    by (rule same_outputD [OF same_output_ptr [OF WebResponse_same_output]]) (use v' in simp)
  show "Result_MarshalJSON scn ord strct = Result_MarshalJSON scn ord' strct"
    by (simp only: Result_MarshalJSON_def e0 e1 e3 e6 e7 e8 e13 e14 e17 e18 e20 e21 e24 e25 e26 e27 e28)
qed

lemma Result_writes_keys: "writes_keys (Result_MarshalJSON scn ord) Result_keys"
  unfolding writes_keys_def by (intro allI impI) (erule Result_keys_written)

lemma Result_unknown_key:
  assumes new: "k \<notin> set Result_keys" and key: "k \<in> fst ` set kvs"
    and rest: "Result_UnmarshalJSON ord (JObj (filter (\<lambda>e. fst e \<noteq> k) kvs)) = Inr strct"
  shows "Result_UnmarshalJSON ord (JObj kvs) = Inl (not_allowed k)"
proof -
  have rej: "switch k (Result_cases ord v) (reject k) s = Inl (not_allowed k)" for v s
    by (rule switch_rejects) (simp only: Result_cases_keys new not_False_eq_True)
  from rest obtain t where
    "range_loop (\<lambda>k v. switch k (Result_cases ord v) (reject k)) (members ord (filter (\<lambda>e. fst e \<noteq> k) kvs)) (Result_zero, False) = Inr t"
    by (cases "range_loop (\<lambda>k v. switch k (Result_cases ord v) (reject k)) (members ord (filter (\<lambda>e. fst e \<noteq> k) kvs)) (Result_zero, False)")
       (simp_all add: Result_UnmarshalJSON_def members_def)
  from unknown_key_named [OF Result_regular rej key this]
  show ?thesis by (simp add: Result_UnmarshalJSON_def members_def)
qed

lemma Result_unknown_key_fails:
  assumes "k \<notin> set Result_keys" and "k \<in> fst ` set kvs"
  shows "isl (Result_UnmarshalJSON ord (JObj kvs))"
proof (cases "Result_UnmarshalJSON ord (JObj kvs)")
  case (Inr strct)
  then have "dom (map_of (rev kvs)) \<subseteq> set Result_keys"
    by (simp only: Result_decode_iff Result_decodesD(1))
  with assms show ?thesis by (auto simp: dom_map_of_conv_image_fst)
qed simp

lemma Result_required_present:
  assumes "Result_UnmarshalJSON ord (JObj kvs) = Inr strct"
  shows "''message'' \<in> fst ` set kvs"
proof -
  from assms have d: "Result_decodes ord (map_of (rev kvs)) strct" by (simp only: Result_decode_iff)
  show "''message'' \<in> fst ` set kvs"
    using Result_decodesD(32) [OF d]
    by (simp_all only: present_key)
qed

lemma Result_without_Message:
  assumes "Result_UnmarshalJSON ord (JObj kvs) = Inr strct"
  shows "Result_UnmarshalJSON ord (JObj (filter (\<lambda>e. fst e \<noteq> ''message'') kvs)) =
    Inl (RequiredNotPresent ''message'')"
proof -
  from assms have d: "Result_decodes ord (map_of (rev kvs)) strct" by (simp only: Result_decode_iff)
  have "\<exists>t. range_loop (\<lambda>k v. switch k (Result_cases ord v) (reject k)) (members ord (filter (\<lambda>e. fst e \<noteq> ''message'') kvs))
      (Result_zero, False) = Inr t"
  proof (rule loop_succeeds [OF Result_regular])
    fix k v assume "(k, v) \<in> set (members ord (filter (\<lambda>e. fst e \<noteq> ''message'') kvs))"
    then have "map_of (rev kvs) k = Some v" by (rule member_lookup_filter)
    from Result_accepts [OF d this]
    show "accepting (switch k (Result_cases ord v) (reject k))" .
  qed
  then obtain t where "range_loop (\<lambda>k v. switch k (Result_cases ord v) (reject k)) (members ord (filter (\<lambda>e. fst e \<noteq> ''message'') kvs))
      (Result_zero, False) = Inr t" ..
  then obtain strct' messageReceived where
    loop: "range_loop (\<lambda>k v. switch k (Result_cases ord v) (reject k)) (members ord (filter (\<lambda>e. fst e \<noteq> ''message'') kvs))
      (Result_zero, False) = Inr (strct', messageReceived)"
    by (cases t) auto
  from Result_loop_sound [OF loop] Result_decodesD(32) [OF d]
  have "\<not> messageReceived"
    by (simp_all add: lookup_filter)
  with loop show ?thesis
    by (simp add: Result_UnmarshalJSON_def members_def)
qed


lemma Result_rejects_unknown_keys: "rejects_unknown_keys (Result_UnmarshalJSON ord) Result_keys"
  by (rule rejects_unknown_keysI) (erule (1) Result_unknown_key_fails, erule (2) Result_unknown_key)

lemma Result_requires_Message: "requires_key (Result_UnmarshalJSON ord) ''message''"
  by (rule requires_keyI) (erule Result_required_present(1), erule Result_without_Message)


subsection \<open>ExternalProperties: decoding and encoding\<close>

definition ExternalProperties_keys :: "string list" where
  "ExternalProperties_keys = [''addresses'', ''artifacts'', ''conversion'', ''driver'', ''extensions'', ''externalizedProperties'', ''graphs'', ''guid'', ''invocations'', ''logicalLocations'', ''policies'', ''properties'', ''results'', ''runGuid'', ''schema'', ''taxonomies'', ''threadFlowLocations'', ''translations'', ''version'', ''webRequests'', ''webResponses'']"

definition ExternalProperties_decodes :: "order \<Rightarrow> (string \<rightharpoonup> json) \<Rightarrow> ExternalProperties \<Rightarrow> bool" where
  "ExternalProperties_decodes ord m strct \<longleftrightarrow>
     dom m \<subseteq> set ExternalProperties_keys \<and>
     field_ok (json_Unmarshal_slice (json_Unmarshal_ptr (Address_UnmarshalJSON ord))) (m ''addresses'') None (ExternalProperties.Addresses strct) \<and>
     field_ok (json_Unmarshal_slice (json_Unmarshal_ptr (Artifact_UnmarshalJSON ord))) (m ''artifacts'') None (ExternalProperties.Artifacts strct) \<and>
     field_ok (json_Unmarshal_ptr (Conversion_UnmarshalJSON ord)) (m ''conversion'') None (ExternalProperties.Conversion strct) \<and>
     field_ok (json_Unmarshal_ptr (ToolComponent_UnmarshalJSON ord)) (m ''driver'') None (ExternalProperties.Driver strct) \<and>
     field_ok (json_Unmarshal_slice (json_Unmarshal_ptr (ToolComponent_UnmarshalJSON ord))) (m ''extensions'') None (ExternalProperties.Extensions strct) \<and>
     field_ok (json_Unmarshal_ptr (PropertyBag_UnmarshalJSON ord)) (m ''externalizedProperties'') None (ExternalProperties.ExternalizedProperties strct) \<and>
     field_ok (json_Unmarshal_slice (json_Unmarshal_ptr (Graph_UnmarshalJSON ord))) (m ''graphs'') None (ExternalProperties.Graphs strct) \<and>
     field_ok json_Unmarshal_string (m ''guid'') [] (ExternalProperties.Guid strct) \<and>
     field_ok (json_Unmarshal_slice (json_Unmarshal_ptr (Invocation_UnmarshalJSON ord))) (m ''invocations'') None (ExternalProperties.Invocations strct) \<and>
     field_ok (json_Unmarshal_slice (json_Unmarshal_ptr (LogicalLocation_UnmarshalJSON ord))) (m ''logicalLocations'') None (ExternalProperties.LogicalLocations strct) \<and>
     field_ok (json_Unmarshal_slice (json_Unmarshal_ptr (ToolComponent_UnmarshalJSON ord))) (m ''policies'') None (ExternalProperties.Policies strct) \<and>
     field_ok (json_Unmarshal_ptr (PropertyBag_UnmarshalJSON ord)) (m ''properties'') None (ExternalProperties.Properties strct) \<and>
     field_ok (json_Unmarshal_slice (json_Unmarshal_ptr (Result_UnmarshalJSON ord))) (m ''results'') None (ExternalProperties.Results strct) \<and>
     field_ok json_Unmarshal_string (m ''runGuid'') [] (ExternalProperties.RunGuid strct) \<and>
     field_ok json_Unmarshal_string (m ''schema'') [] (ExternalProperties.Schema strct) \<and>
     field_ok (json_Unmarshal_slice (json_Unmarshal_ptr (ToolComponent_UnmarshalJSON ord))) (m ''taxonomies'') None (ExternalProperties.Taxonomies strct) \<and>
     field_ok (json_Unmarshal_slice (json_Unmarshal_ptr (ThreadFlowLocation_UnmarshalJSON ord))) (m ''threadFlowLocations'') None (ExternalProperties.ThreadFlowLocations strct) \<and>
     field_ok (json_Unmarshal_slice (json_Unmarshal_ptr (ToolComponent_UnmarshalJSON ord))) (m ''translations'') None (ExternalProperties.Translations strct) \<and>
     field_ok json_Unmarshal_string (m ''version'') [] (ExternalProperties.Version strct) \<and>
     field_ok (json_Unmarshal_slice (json_Unmarshal_ptr (WebRequest_UnmarshalJSON ord))) (m ''webRequests'') None (ExternalProperties.WebRequests strct) \<and>
     field_ok (json_Unmarshal_slice (json_Unmarshal_ptr (WebResponse_UnmarshalJSON ord))) (m ''webResponses'') None (ExternalProperties.WebResponses strct)"

lemma ExternalProperties_cases_keys: "fst ` set (ExternalProperties_cases ord v) = set ExternalProperties_keys"
  by (rule keys_image) (simp add: ExternalProperties_cases_def ExternalProperties_keys_def)

lemma ExternalProperties_regular: "regular (\<lambda>k v. switch k (ExternalProperties_cases ord v) (reject k))"
  by (rule regular_switch) (simp add: ExternalProperties_cases_def)

lemma ExternalProperties_fields:
  "field_case (ExternalProperties_cases ord) ExternalProperties.Addresses ''addresses'' (json_Unmarshal_slice (json_Unmarshal_ptr (Address_UnmarshalJSON ord)))"
  "field_case (ExternalProperties_cases ord) ExternalProperties.Artifacts ''artifacts'' (json_Unmarshal_slice (json_Unmarshal_ptr (Artifact_UnmarshalJSON ord)))"
  "field_case (ExternalProperties_cases ord) ExternalProperties.Conversion ''conversion'' (json_Unmarshal_ptr (Conversion_UnmarshalJSON ord))"
  "field_case (ExternalProperties_cases ord) ExternalProperties.Driver ''driver'' (json_Unmarshal_ptr (ToolComponent_UnmarshalJSON ord))"
  "field_case (ExternalProperties_cases ord) ExternalProperties.Extensions ''extensions'' (json_Unmarshal_slice (json_Unmarshal_ptr (ToolComponent_UnmarshalJSON ord)))"
  "field_case (ExternalProperties_cases ord) ExternalProperties.ExternalizedProperties ''externalizedProperties'' (json_Unmarshal_ptr (PropertyBag_UnmarshalJSON ord))"
  "field_case (ExternalProperties_cases ord) ExternalProperties.Graphs ''graphs'' (json_Unmarshal_slice (json_Unmarshal_ptr (Graph_UnmarshalJSON ord)))"
  "field_case (ExternalProperties_cases ord) ExternalProperties.Guid ''guid'' json_Unmarshal_string"
  "field_case (ExternalProperties_cases ord) ExternalProperties.Invocations ''invocations'' (json_Unmarshal_slice (json_Unmarshal_ptr (Invocation_UnmarshalJSON ord)))"
  "field_case (ExternalProperties_cases ord) ExternalProperties.LogicalLocations ''logicalLocations'' (json_Unmarshal_slice (json_Unmarshal_ptr (LogicalLocation_UnmarshalJSON ord)))"
  "field_case (ExternalProperties_cases ord) ExternalProperties.Policies ''policies'' (json_Unmarshal_slice (json_Unmarshal_ptr (ToolComponent_UnmarshalJSON ord)))"
  "field_case (ExternalProperties_cases ord) ExternalProperties.Properties ''properties'' (json_Unmarshal_ptr (PropertyBag_UnmarshalJSON ord))"
  "field_case (ExternalProperties_cases ord) ExternalProperties.Results ''results'' (json_Unmarshal_slice (json_Unmarshal_ptr (Result_UnmarshalJSON ord)))"
  "field_case (ExternalProperties_cases ord) ExternalProperties.RunGuid ''runGuid'' json_Unmarshal_string"
  "field_case (ExternalProperties_cases ord) ExternalProperties.Schema ''schema'' json_Unmarshal_string"
  "field_case (ExternalProperties_cases ord) ExternalProperties.Taxonomies ''taxonomies'' (json_Unmarshal_slice (json_Unmarshal_ptr (ToolComponent_UnmarshalJSON ord)))"
  "field_case (ExternalProperties_cases ord) ExternalProperties.ThreadFlowLocations ''threadFlowLocations'' (json_Unmarshal_slice (json_Unmarshal_ptr (ThreadFlowLocation_UnmarshalJSON ord)))"
  "field_case (ExternalProperties_cases ord) ExternalProperties.Translations ''translations'' (json_Unmarshal_slice (json_Unmarshal_ptr (ToolComponent_UnmarshalJSON ord)))"
  "field_case (ExternalProperties_cases ord) ExternalProperties.Version ''version'' json_Unmarshal_string"
  "field_case (ExternalProperties_cases ord) ExternalProperties.WebRequests ''webRequests'' (json_Unmarshal_slice (json_Unmarshal_ptr (WebRequest_UnmarshalJSON ord)))"
  "field_case (ExternalProperties_cases ord) ExternalProperties.WebResponses ''webResponses'' (json_Unmarshal_slice (json_Unmarshal_ptr (WebResponse_UnmarshalJSON ord)))"
  unfolding field_case_def ExternalProperties_cases_def
  by (simp_all add: writes_into writes_received keeps_into split_def)

lemma ExternalProperties_loop_sound:
  assumes loop: "range_loop (\<lambda>k v. switch k (ExternalProperties_cases ord v) (reject k)) (members ord kvs) ExternalProperties_zero = Inr strct"
  shows "dom (map_of (rev kvs)) \<subseteq> set ExternalProperties_keys \<and>
     field_ok (json_Unmarshal_slice (json_Unmarshal_ptr (Address_UnmarshalJSON ord))) (map_of (rev kvs) ''addresses'') None (ExternalProperties.Addresses strct) \<and>
     field_ok (json_Unmarshal_slice (json_Unmarshal_ptr (Artifact_UnmarshalJSON ord))) (map_of (rev kvs) ''artifacts'') None (ExternalProperties.Artifacts strct) \<and>
     field_ok (json_Unmarshal_ptr (Conversion_UnmarshalJSON ord)) (map_of (rev kvs) ''conversion'') None (ExternalProperties.Conversion strct) \<and>
     field_ok (json_Unmarshal_ptr (ToolComponent_UnmarshalJSON ord)) (map_of (rev kvs) ''driver'') None (ExternalProperties.Driver strct) \<and>
     field_ok (json_Unmarshal_slice (json_Unmarshal_ptr (ToolComponent_UnmarshalJSON ord))) (map_of (rev kvs) ''extensions'') None (ExternalProperties.Extensions strct) \<and>
     field_ok (json_Unmarshal_ptr (PropertyBag_UnmarshalJSON ord)) (map_of (rev kvs) ''externalizedProperties'') None (ExternalProperties.ExternalizedProperties strct) \<and>
     field_ok (json_Unmarshal_slice (json_Unmarshal_ptr (Graph_UnmarshalJSON ord))) (map_of (rev kvs) ''graphs'') None (ExternalProperties.Graphs strct) \<and>
     field_ok json_Unmarshal_string (map_of (rev kvs) ''guid'') [] (ExternalProperties.Guid strct) \<and>
     field_ok (json_Unmarshal_slice (json_Unmarshal_ptr (Invocation_UnmarshalJSON ord))) (map_of (rev kvs) ''invocations'') None (ExternalProperties.Invocations strct) \<and>
     field_ok (json_Unmarshal_slice (json_Unmarshal_ptr (LogicalLocation_UnmarshalJSON ord))) (map_of (rev kvs) ''logicalLocations'') None (ExternalProperties.LogicalLocations strct) \<and>
     field_ok (json_Unmarshal_slice (json_Unmarshal_ptr (ToolComponent_UnmarshalJSON ord))) (map_of (rev kvs) ''policies'') None (ExternalProperties.Policies strct) \<and>
     field_ok (json_Unmarshal_ptr (PropertyBag_UnmarshalJSON ord)) (map_of (rev kvs) ''properties'') None (ExternalProperties.Properties strct) \<and>
     field_ok (json_Unmarshal_slice (json_Unmarshal_ptr (Result_UnmarshalJSON ord))) (map_of (rev kvs) ''results'') None (ExternalProperties.Results strct) \<and>
     field_ok json_Unmarshal_string (map_of (rev kvs) ''runGuid'') [] (ExternalProperties.RunGuid strct) \<and>
     field_ok json_Unmarshal_string (map_of (rev kvs) ''schema'') [] (ExternalProperties.Schema strct) \<and>
     field_ok (json_Unmarshal_slice (json_Unmarshal_ptr (ToolComponent_UnmarshalJSON ord))) (map_of (rev kvs) ''taxonomies'') None (ExternalProperties.Taxonomies strct) \<and>
     field_ok (json_Unmarshal_slice (json_Unmarshal_ptr (ThreadFlowLocation_UnmarshalJSON ord))) (map_of (rev kvs) ''threadFlowLocations'') None (ExternalProperties.ThreadFlowLocations strct) \<and>
     field_ok (json_Unmarshal_slice (json_Unmarshal_ptr (ToolComponent_UnmarshalJSON ord))) (map_of (rev kvs) ''translations'') None (ExternalProperties.Translations strct) \<and>
     field_ok json_Unmarshal_string (map_of (rev kvs) ''version'') [] (ExternalProperties.Version strct) \<and>
     field_ok (json_Unmarshal_slice (json_Unmarshal_ptr (WebRequest_UnmarshalJSON ord))) (map_of (rev kvs) ''webRequests'') None (ExternalProperties.WebRequests strct) \<and>
     field_ok (json_Unmarshal_slice (json_Unmarshal_ptr (WebResponse_UnmarshalJSON ord))) (map_of (rev kvs) ''webResponses'') None (ExternalProperties.WebResponses strct)"
proof -
  have "fst ` set (members ord kvs) \<subseteq> set ExternalProperties_keys"
    by (rule loop_keys_known [OF loop]) (rule ExternalProperties_cases_keys)
  then have keys: "dom (map_of (rev kvs)) \<subseteq> set ExternalProperties_keys"
    by (simp add: dom_members [of kvs ord])
  note fld = field_after_loop [OF _ members_distinct loop, unfolded map_of_members]
  show ?thesis
    using keys fld [OF ExternalProperties_fields(1)] fld [OF ExternalProperties_fields(2)] fld [OF ExternalProperties_fields(3)] fld [OF ExternalProperties_fields(4)] fld [OF ExternalProperties_fields(5)] fld [OF ExternalProperties_fields(6)] fld [OF ExternalProperties_fields(7)] fld [OF ExternalProperties_fields(8)] fld [OF ExternalProperties_fields(9)] fld [OF ExternalProperties_fields(10)] fld [OF ExternalProperties_fields(11)] fld [OF ExternalProperties_fields(12)] fld [OF ExternalProperties_fields(13)] fld [OF ExternalProperties_fields(14)] fld [OF ExternalProperties_fields(15)] fld [OF ExternalProperties_fields(16)] fld [OF ExternalProperties_fields(17)] fld [OF ExternalProperties_fields(18)] fld [OF ExternalProperties_fields(19)] fld [OF ExternalProperties_fields(20)] fld [OF ExternalProperties_fields(21)] 
    by (simp only: prod.case ExternalProperties_zero_def ExternalProperties.select_convs simp_thms)
qed

lemma ExternalProperties_decodesD:
  assumes "ExternalProperties_decodes ord m strct"
  shows "dom m \<subseteq> set ExternalProperties_keys"
    and "field_ok (json_Unmarshal_slice (json_Unmarshal_ptr (Address_UnmarshalJSON ord))) (m ''addresses'') None (ExternalProperties.Addresses strct)"
    and "field_ok (json_Unmarshal_slice (json_Unmarshal_ptr (Artifact_UnmarshalJSON ord))) (m ''artifacts'') None (ExternalProperties.Artifacts strct)"
    and "field_ok (json_Unmarshal_ptr (Conversion_UnmarshalJSON ord)) (m ''conversion'') None (ExternalProperties.Conversion strct)"
    and "field_ok (json_Unmarshal_ptr (ToolComponent_UnmarshalJSON ord)) (m ''driver'') None (ExternalProperties.Driver strct)"
    and "field_ok (json_Unmarshal_slice (json_Unmarshal_ptr (ToolComponent_UnmarshalJSON ord))) (m ''extensions'') None (ExternalProperties.Extensions strct)"
    and "field_ok (json_Unmarshal_ptr (PropertyBag_UnmarshalJSON ord)) (m ''externalizedProperties'') None (ExternalProperties.ExternalizedProperties strct)"
    and "field_ok (json_Unmarshal_slice (json_Unmarshal_ptr (Graph_UnmarshalJSON ord))) (m ''graphs'') None (ExternalProperties.Graphs strct)"
    and "field_ok json_Unmarshal_string (m ''guid'') [] (ExternalProperties.Guid strct)"
    and "field_ok (json_Unmarshal_slice (json_Unmarshal_ptr (Invocation_UnmarshalJSON ord))) (m ''invocations'') None (ExternalProperties.Invocations strct)"
    and "field_ok (json_Unmarshal_slice (json_Unmarshal_ptr (LogicalLocation_UnmarshalJSON ord))) (m ''logicalLocations'') None (ExternalProperties.LogicalLocations strct)"
    and "field_ok (json_Unmarshal_slice (json_Unmarshal_ptr (ToolComponent_UnmarshalJSON ord))) (m ''policies'') None (ExternalProperties.Policies strct)"
    and "field_ok (json_Unmarshal_ptr (PropertyBag_UnmarshalJSON ord)) (m ''properties'') None (ExternalProperties.Properties strct)"
    and "field_ok (json_Unmarshal_slice (json_Unmarshal_ptr (Result_UnmarshalJSON ord))) (m ''results'') None (ExternalProperties.Results strct)"
    and "field_ok json_Unmarshal_string (m ''runGuid'') [] (ExternalProperties.RunGuid strct)"
    and "field_ok json_Unmarshal_string (m ''schema'') [] (ExternalProperties.Schema strct)"
    and "field_ok (json_Unmarshal_slice (json_Unmarshal_ptr (ToolComponent_UnmarshalJSON ord))) (m ''taxonomies'') None (ExternalProperties.Taxonomies strct)"
    and "field_ok (json_Unmarshal_slice (json_Unmarshal_ptr (ThreadFlowLocation_UnmarshalJSON ord))) (m ''threadFlowLocations'') None (ExternalProperties.ThreadFlowLocations strct)"
    and "field_ok (json_Unmarshal_slice (json_Unmarshal_ptr (ToolComponent_UnmarshalJSON ord))) (m ''translations'') None (ExternalProperties.Translations strct)"
    and "field_ok json_Unmarshal_string (m ''version'') [] (ExternalProperties.Version strct)"
    and "field_ok (json_Unmarshal_slice (json_Unmarshal_ptr (WebRequest_UnmarshalJSON ord))) (m ''webRequests'') None (ExternalProperties.WebRequests strct)"
    and "field_ok (json_Unmarshal_slice (json_Unmarshal_ptr (WebResponse_UnmarshalJSON ord))) (m ''webResponses'') None (ExternalProperties.WebResponses strct)"
  using assms unfolding ExternalProperties_decodes_def by - (elim conjE, assumption)+

lemma ExternalProperties_decodes_unique:
  assumes "ExternalProperties_decodes ord m a" and "ExternalProperties_decodes ord m b"
  shows "a = b"
  apply (rule ExternalProperties.equality)
  apply (rule field_ok_unique [OF ExternalProperties_decodesD(2) [OF assms(1)] ExternalProperties_decodesD(2) [OF assms(2)]])
  apply (rule field_ok_unique [OF ExternalProperties_decodesD(3) [OF assms(1)] ExternalProperties_decodesD(3) [OF assms(2)]])
  apply (rule field_ok_unique [OF ExternalProperties_decodesD(4) [OF assms(1)] ExternalProperties_decodesD(4) [OF assms(2)]])
  apply (rule field_ok_unique [OF ExternalProperties_decodesD(5) [OF assms(1)] ExternalProperties_decodesD(5) [OF assms(2)]])
  apply (rule field_ok_unique [OF ExternalProperties_decodesD(6) [OF assms(1)] ExternalProperties_decodesD(6) [OF assms(2)]])
  apply (rule field_ok_unique [OF ExternalProperties_decodesD(7) [OF assms(1)] ExternalProperties_decodesD(7) [OF assms(2)]])
  apply (rule field_ok_unique [OF ExternalProperties_decodesD(8) [OF assms(1)] ExternalProperties_decodesD(8) [OF assms(2)]])
  apply (rule field_ok_unique [OF ExternalProperties_decodesD(9) [OF assms(1)] ExternalProperties_decodesD(9) [OF assms(2)]])
  apply (rule field_ok_unique [OF ExternalProperties_decodesD(10) [OF assms(1)] ExternalProperties_decodesD(10) [OF assms(2)]])
  apply (rule field_ok_unique [OF ExternalProperties_decodesD(11) [OF assms(1)] ExternalProperties_decodesD(11) [OF assms(2)]])
  apply (rule field_ok_unique [OF ExternalProperties_decodesD(12) [OF assms(1)] ExternalProperties_decodesD(12) [OF assms(2)]])
  apply (rule field_ok_unique [OF ExternalProperties_decodesD(13) [OF assms(1)] ExternalProperties_decodesD(13) [OF assms(2)]])
  apply (rule field_ok_unique [OF ExternalProperties_decodesD(14) [OF assms(1)] ExternalProperties_decodesD(14) [OF assms(2)]])
  apply (rule field_ok_unique [OF ExternalProperties_decodesD(15) [OF assms(1)] ExternalProperties_decodesD(15) [OF assms(2)]])
  apply (rule field_ok_unique [OF ExternalProperties_decodesD(16) [OF assms(1)] ExternalProperties_decodesD(16) [OF assms(2)]])
  apply (rule field_ok_unique [OF ExternalProperties_decodesD(17) [OF assms(1)] ExternalProperties_decodesD(17) [OF assms(2)]])
  apply (rule field_ok_unique [OF ExternalProperties_decodesD(18) [OF assms(1)] ExternalProperties_decodesD(18) [OF assms(2)]])
  apply (rule field_ok_unique [OF ExternalProperties_decodesD(19) [OF assms(1)] ExternalProperties_decodesD(19) [OF assms(2)]])
  apply (rule field_ok_unique [OF ExternalProperties_decodesD(20) [OF assms(1)] ExternalProperties_decodesD(20) [OF assms(2)]])
  apply (rule field_ok_unique [OF ExternalProperties_decodesD(21) [OF assms(1)] ExternalProperties_decodesD(21) [OF assms(2)]])
  apply (rule field_ok_unique [OF ExternalProperties_decodesD(22) [OF assms(1)] ExternalProperties_decodesD(22) [OF assms(2)]])
  apply simp
  done

lemma ExternalProperties_accepts:
  assumes "ExternalProperties_decodes ord m strct" and "m k = Some v"
  shows "accepting (switch k (ExternalProperties_cases ord v) (reject k))"
proof -
  from assms have "k \<in> set ExternalProperties_keys" by (auto simp: ExternalProperties_decodes_def)
  then have key: "k \<in> fst ` set (ExternalProperties_cases ord v)"
    by (simp only: ExternalProperties_cases_keys)
  have rows: "list_all (\<lambda>(c, h). m c = Some v \<longrightarrow> accepting h) (ExternalProperties_cases ord v)"
    unfolding ExternalProperties_cases_def list.pred_inject
    apply (rule conjI [OF accept_row [where m = m and v = v, OF ExternalProperties_decodesD(2) [OF assms(1)]]])
    apply (rule conjI [OF accept_row [where m = m and v = v, OF ExternalProperties_decodesD(3) [OF assms(1)]]])
    apply (rule conjI [OF accept_row [where m = m and v = v, OF ExternalProperties_decodesD(4) [OF assms(1)]]])
    apply (rule conjI [OF accept_row [where m = m and v = v, OF ExternalProperties_decodesD(5) [OF assms(1)]]])
    apply (rule conjI [OF accept_row [where m = m and v = v, OF ExternalProperties_decodesD(6) [OF assms(1)]]])
    apply (rule conjI [OF accept_row [where m = m and v = v, OF ExternalProperties_decodesD(7) [OF assms(1)]]])
    apply (rule conjI [OF accept_row [where m = m and v = v, OF ExternalProperties_decodesD(8) [OF assms(1)]]])
    apply (rule conjI [OF accept_row [where m = m and v = v, OF ExternalProperties_decodesD(9) [OF assms(1)]]])
    apply (rule conjI [OF accept_row [where m = m and v = v, OF ExternalProperties_decodesD(10) [OF assms(1)]]])
    apply (rule conjI [OF accept_row [where m = m and v = v, OF ExternalProperties_decodesD(11) [OF assms(1)]]])
    apply (rule conjI [OF accept_row [where m = m and v = v, OF ExternalProperties_decodesD(12) [OF assms(1)]]])
    apply (rule conjI [OF accept_row [where m = m and v = v, OF ExternalProperties_decodesD(13) [OF assms(1)]]])
    apply (rule conjI [OF accept_row [where m = m and v = v, OF ExternalProperties_decodesD(14) [OF assms(1)]]])
    apply (rule conjI [OF accept_row [where m = m and v = v, OF ExternalProperties_decodesD(15) [OF assms(1)]]])
    apply (rule conjI [OF accept_row [where m = m and v = v, OF ExternalProperties_decodesD(16) [OF assms(1)]]])
    apply (rule conjI [OF accept_row [where m = m and v = v, OF ExternalProperties_decodesD(17) [OF assms(1)]]])
    apply (rule conjI [OF accept_row [where m = m and v = v, OF ExternalProperties_decodesD(18) [OF assms(1)]]])
    apply (rule conjI [OF accept_row [where m = m and v = v, OF ExternalProperties_decodesD(19) [OF assms(1)]]])
    apply (rule conjI [OF accept_row [where m = m and v = v, OF ExternalProperties_decodesD(20) [OF assms(1)]]])
    apply (rule conjI [OF accept_row [where m = m and v = v, OF ExternalProperties_decodesD(21) [OF assms(1)]]])
    apply (rule conjI [OF accept_row [where m = m and v = v, OF ExternalProperties_decodesD(22) [OF assms(1)]]])
    apply simp
    done
  show ?thesis by (rule rows_accept [OF rows assms(2) key])
qed

lemma ExternalProperties_decode_iff:
  "ExternalProperties_UnmarshalJSON ord (JObj kvs) = Inr strct \<longleftrightarrow>
   ExternalProperties_decodes ord (map_of (rev kvs)) strct"
proof
  assume "ExternalProperties_UnmarshalJSON ord (JObj kvs) = Inr strct"
  then have loop: "range_loop (\<lambda>k v. switch k (ExternalProperties_cases ord v) (reject k)) (members ord kvs) ExternalProperties_zero = Inr strct"
    by (auto simp: ExternalProperties_UnmarshalJSON_def members_def split: sum.splits)
  from ExternalProperties_loop_sound [OF loop]
  show "ExternalProperties_decodes ord (map_of (rev kvs)) strct"
    by (simp add: ExternalProperties_decodes_def)
next
  assume d: "ExternalProperties_decodes ord (map_of (rev kvs)) strct"
  have "\<exists>t. range_loop (\<lambda>k v. switch k (ExternalProperties_cases ord v) (reject k)) (members ord kvs) ExternalProperties_zero = Inr t"
  proof (rule loop_succeeds [OF ExternalProperties_regular])
    fix k v assume "(k, v) \<in> set (members ord kvs)"
    then have "map_of (rev kvs) k = Some v" by (rule member_lookup)
    from ExternalProperties_accepts [OF d this]
    show "accepting (switch k (ExternalProperties_cases ord v) (reject k))" .
  qed
  then obtain strct' where
    loop: "range_loop (\<lambda>k v. switch k (ExternalProperties_cases ord v) (reject k)) (members ord kvs) ExternalProperties_zero = Inr strct'" ..
  from ExternalProperties_loop_sound [OF loop]
  have d': "ExternalProperties_decodes ord (map_of (rev kvs)) strct'"
    by (simp add: ExternalProperties_decodes_def)
  from ExternalProperties_decodes_unique [OF d' d] have "strct' = strct" .
  with loop show "ExternalProperties_UnmarshalJSON ord (JObj kvs) = Inr strct"
    by (simp add: ExternalProperties_UnmarshalJSON_def members_def)
qed

definition ExternalProperties_results :: "scanner \<Rightarrow> order \<Rightarrow> ExternalProperties \<Rightarrow> (string \<times> (error + json)) list" where
  "ExternalProperties_results scn ord strct =
     [(''addresses'', json_Marshal_slice (json_Marshal_ptr ''*sarif.Address'' (Address_MarshalJSON scn ord)) (ExternalProperties.Addresses strct)),
      (''artifacts'', json_Marshal_slice (json_Marshal_ptr ''*sarif.Artifact'' (Artifact_MarshalJSON scn ord)) (ExternalProperties.Artifacts strct)),
      (''conversion'', json_Marshal_ptr ''*sarif.Conversion'' (Conversion_MarshalJSON scn ord) (ExternalProperties.Conversion strct)),
      (''driver'', json_Marshal_ptr ''*sarif.ToolComponent'' (ToolComponent_MarshalJSON scn ord) (ExternalProperties.Driver strct)),
      (''extensions'', json_Marshal_slice (json_Marshal_ptr ''*sarif.ToolComponent'' (ToolComponent_MarshalJSON scn ord)) (ExternalProperties.Extensions strct)),
      (''externalizedProperties'', json_Marshal_bytes ''*sarif.PropertyBag'' (PropertyBag_MarshalJSON scn ord) (ExternalProperties.ExternalizedProperties strct)),
      (''graphs'', json_Marshal_slice (json_Marshal_ptr ''*sarif.Graph'' (Graph_MarshalJSON scn ord)) (ExternalProperties.Graphs strct)),
      (''guid'', json_Marshal_string (ExternalProperties.Guid strct)),
      (''invocations'', json_Marshal_slice (json_Marshal_ptr ''*sarif.Invocation'' (Invocation_MarshalJSON scn ord)) (ExternalProperties.Invocations strct)),
      (''logicalLocations'', json_Marshal_slice (json_Marshal_ptr ''*sarif.LogicalLocation'' (LogicalLocation_MarshalJSON scn ord)) (ExternalProperties.LogicalLocations strct)),
      (''policies'', json_Marshal_slice (json_Marshal_ptr ''*sarif.ToolComponent'' (ToolComponent_MarshalJSON scn ord)) (ExternalProperties.Policies strct)),
      (''properties'', json_Marshal_bytes ''*sarif.PropertyBag'' (PropertyBag_MarshalJSON scn ord) (ExternalProperties.Properties strct)),
      (''results'', json_Marshal_slice (json_Marshal_ptr ''*sarif.Result'' (Result_MarshalJSON scn ord)) (ExternalProperties.Results strct)),
      (''runGuid'', json_Marshal_string (ExternalProperties.RunGuid strct)),
      (''schema'', json_Marshal_string (ExternalProperties.Schema strct)),
      (''taxonomies'', json_Marshal_slice (json_Marshal_ptr ''*sarif.ToolComponent'' (ToolComponent_MarshalJSON scn ord)) (ExternalProperties.Taxonomies strct)),
      (''threadFlowLocations'', json_Marshal_slice (json_Marshal_ptr ''*sarif.ThreadFlowLocation'' (ThreadFlowLocation_MarshalJSON scn ord)) (ExternalProperties.ThreadFlowLocations strct)),
      (''translations'', json_Marshal_slice (json_Marshal_ptr ''*sarif.ToolComponent'' (ToolComponent_MarshalJSON scn ord)) (ExternalProperties.Translations strct)),
      (''version'', json_Marshal_string (ExternalProperties.Version strct)),
      (''webRequests'', json_Marshal_slice (json_Marshal_ptr ''*sarif.WebRequest'' (WebRequest_MarshalJSON scn ord)) (ExternalProperties.WebRequests strct)),
      (''webResponses'', json_Marshal_slice (json_Marshal_ptr ''*sarif.WebResponse'' (WebResponse_MarshalJSON scn ord)) (ExternalProperties.WebResponses strct))]"

lemma ExternalProperties_MarshalJSON_results:
  "ExternalProperties_MarshalJSON scn ord strct = object (emit_all (ExternalProperties_results scn ord strct))"
  by (simp add: ExternalProperties_MarshalJSON_def ExternalProperties_results_def emit_nilcheck)

lemma ExternalProperties_keys_written:
  "ExternalProperties_MarshalJSON scn ord strct = Inr j \<Longrightarrow> \<exists>kvs. j = JObj kvs \<and> map fst kvs = ExternalProperties_keys"
  using keys_written [of "ExternalProperties_results scn ord strct" j]
  by (simp add: ExternalProperties_MarshalJSON_results ExternalProperties_results_def ExternalProperties_keys_def)

definition ExternalProperties_encodable :: "scanner \<Rightarrow> order \<Rightarrow> ExternalProperties \<Rightarrow> bool" where
  "ExternalProperties_encodable scn ord strct \<longleftrightarrow>
     slice_all (ptr_all (Address_encodable scn ord)) (ExternalProperties.Addresses strct) \<and>
     slice_all (ptr_all (Artifact_encodable scn ord)) (ExternalProperties.Artifacts strct) \<and>
     ptr_all (Conversion_encodable scn ord) (ExternalProperties.Conversion strct) \<and>
     ptr_all (ToolComponent_encodable scn ord) (ExternalProperties.Driver strct) \<and>
     slice_all (ptr_all (ToolComponent_encodable scn ord)) (ExternalProperties.Extensions strct) \<and>
     ptr_all (PropertyBag_encodable scn ord) (ExternalProperties.ExternalizedProperties strct) \<and>
     slice_all (ptr_all (Graph_encodable scn ord)) (ExternalProperties.Graphs strct) \<and>
     slice_all (ptr_all (Invocation_encodable scn ord)) (ExternalProperties.Invocations strct) \<and>
     slice_all (ptr_all (LogicalLocation_encodable scn ord)) (ExternalProperties.LogicalLocations strct) \<and>
     slice_all (ptr_all (ToolComponent_encodable scn ord)) (ExternalProperties.Policies strct) \<and>
     ptr_all (PropertyBag_encodable scn ord) (ExternalProperties.Properties strct) \<and>
     slice_all (ptr_all (Result_encodable scn ord)) (ExternalProperties.Results strct) \<and>
     slice_all (ptr_all (ToolComponent_encodable scn ord)) (ExternalProperties.Taxonomies strct) \<and>
     slice_all (ptr_all (ThreadFlowLocation_encodable scn ord)) (ExternalProperties.ThreadFlowLocations strct) \<and>
     slice_all (ptr_all (ToolComponent_encodable scn ord)) (ExternalProperties.Translations strct) \<and>
     slice_all (ptr_all (WebRequest_encodable scn ord)) (ExternalProperties.WebRequests strct) \<and>
     slice_all (ptr_all (WebResponse_encodable scn ord)) (ExternalProperties.WebResponses strct)"

lemma ExternalProperties_fails_unless: "fails_unless (ExternalProperties_MarshalJSON scn ord) (ExternalProperties_encodable scn ord)"
  unfolding fails_unless_def ExternalProperties_MarshalJSON_results ExternalProperties_results_def ExternalProperties_encodable_def isl_object_emit_all
  by (auto simp add: always_simps
      fails_unlessD [OF fails_unless_slice [OF fails_unless_ptr [OF Address_fails_unless]]]
      fails_unlessD [OF fails_unless_slice [OF fails_unless_ptr [OF Artifact_fails_unless]]]
      fails_unlessD [OF fails_unless_ptr [OF Conversion_fails_unless]]
      fails_unlessD [OF fails_unless_ptr [OF ToolComponent_fails_unless]]
      fails_unlessD [OF fails_unless_slice [OF fails_unless_ptr [OF ToolComponent_fails_unless]]]
      fails_unlessD [OF PropertyBag_field_fails_unless]
      fails_unlessD [OF fails_unless_slice [OF fails_unless_ptr [OF Graph_fails_unless]]]
      fails_unlessD [OF fails_unless_string]
      fails_unlessD [OF fails_unless_slice [OF fails_unless_ptr [OF Invocation_fails_unless]]]
      fails_unlessD [OF fails_unless_slice [OF fails_unless_ptr [OF LogicalLocation_fails_unless]]]
      fails_unlessD [OF fails_unless_slice [OF fails_unless_ptr [OF Result_fails_unless]]]
      fails_unlessD [OF fails_unless_slice [OF fails_unless_ptr [OF ThreadFlowLocation_fails_unless]]]
      fails_unlessD [OF fails_unless_slice [OF fails_unless_ptr [OF WebRequest_fails_unless]]]
      fails_unlessD [OF fails_unless_slice [OF fails_unless_ptr [OF WebResponse_fails_unless]]])

definition ExternalProperties_valid :: "ExternalProperties \<Rightarrow> bool" where
  "ExternalProperties_valid strct \<longleftrightarrow>
     slice_all (ptr_all Address_valid) (ExternalProperties.Addresses strct) \<and>
     slice_all (ptr_all Artifact_valid) (ExternalProperties.Artifacts strct) \<and>
     ptr_all Conversion_valid (ExternalProperties.Conversion strct) \<and>
     ptr_all ToolComponent_valid (ExternalProperties.Driver strct) \<and>
     slice_all (ptr_all ToolComponent_valid) (ExternalProperties.Extensions strct) \<and>
     ptr_all PropertyBag_valid (ExternalProperties.ExternalizedProperties strct) \<and>
     slice_all (ptr_all Graph_valid) (ExternalProperties.Graphs strct) \<and>
     slice_all (ptr_all Invocation_valid) (ExternalProperties.Invocations strct) \<and>
     slice_all (ptr_all LogicalLocation_valid) (ExternalProperties.LogicalLocations strct) \<and>
     slice_all (ptr_all ToolComponent_valid) (ExternalProperties.Policies strct) \<and>
     ptr_all PropertyBag_valid (ExternalProperties.Properties strct) \<and>
     slice_all (ptr_all Result_valid) (ExternalProperties.Results strct) \<and>
     slice_all (ptr_all ToolComponent_valid) (ExternalProperties.Taxonomies strct) \<and>
     slice_all (ptr_all ThreadFlowLocation_valid) (ExternalProperties.ThreadFlowLocations strct) \<and>
     slice_all (ptr_all ToolComponent_valid) (ExternalProperties.Translations strct) \<and>
     slice_all (ptr_all WebRequest_valid) (ExternalProperties.WebRequests strct) \<and>
     slice_all (ptr_all WebResponse_valid) (ExternalProperties.WebResponses strct)"

lemma ExternalProperties_keys_distinct: "distinct ExternalProperties_keys"
  by (simp add: ExternalProperties_keys_def)

lemma ExternalProperties_round_trips:
  "round_trips_object (ExternalProperties_MarshalJSON scn ord) (ExternalProperties_UnmarshalJSON ord') ExternalProperties_valid"
  unfolding round_trips_object_def
proof (intro allI impI)
  fix strct assume v: "ExternalProperties_valid strct"
  note v' = v [unfolded ExternalProperties_valid_def]
  let ?rs = "ExternalProperties_results scn ord strct"
  let ?kvs = "map (\<lambda>e. (fst e, projr (snd e))) ?rs"
  have f0: "\<not> isl (json_Marshal_slice (json_Marshal_ptr ''*sarif.Address'' (Address_MarshalJSON scn ord)) (ExternalProperties.Addresses strct)) \<and>
      json_Unmarshal_slice (json_Unmarshal_ptr (Address_UnmarshalJSON ord')) (projr (json_Marshal_slice (json_Marshal_ptr ''*sarif.Address'' (Address_MarshalJSON scn ord)) (ExternalProperties.Addresses strct))) = Inr (ExternalProperties.Addresses strct)"
    by (rule round_tripsD [OF round_trips_slice [OF round_trips_ptr [OF Address_round_trips]]]) (use v' in simp)
  have f1: "\<not> isl (json_Marshal_slice (json_Marshal_ptr ''*sarif.Artifact'' (Artifact_MarshalJSON scn ord)) (ExternalProperties.Artifacts strct)) \<and>
      json_Unmarshal_slice (json_Unmarshal_ptr (Artifact_UnmarshalJSON ord')) (projr (json_Marshal_slice (json_Marshal_ptr ''*sarif.Artifact'' (Artifact_MarshalJSON scn ord)) (ExternalProperties.Artifacts strct))) = Inr (ExternalProperties.Artifacts strct)"
    by (rule round_tripsD [OF round_trips_slice [OF round_trips_ptr [OF Artifact_round_trips]]]) (use v' in simp)
  have f2: "\<not> isl (json_Marshal_ptr ''*sarif.Conversion'' (Conversion_MarshalJSON scn ord) (ExternalProperties.Conversion strct)) \<and>
      json_Unmarshal_ptr (Conversion_UnmarshalJSON ord') (projr (json_Marshal_ptr ''*sarif.Conversion'' (Conversion_MarshalJSON scn ord) (ExternalProperties.Conversion strct))) = Inr (ExternalProperties.Conversion strct)"
    by (rule round_tripsD [OF round_trips_ptr [OF Conversion_round_trips]]) (use v' in simp)
  have f3: "\<not> isl (json_Marshal_ptr ''*sarif.ToolComponent'' (ToolComponent_MarshalJSON scn ord) (ExternalProperties.Driver strct)) \<and>
      json_Unmarshal_ptr (ToolComponent_UnmarshalJSON ord') (projr (json_Marshal_ptr ''*sarif.ToolComponent'' (ToolComponent_MarshalJSON scn ord) (ExternalProperties.Driver strct))) = Inr (ExternalProperties.Driver strct)"
    by (rule round_tripsD [OF round_trips_ptr [OF ToolComponent_round_trips]]) (use v' in simp)
  have f4: "\<not> isl (json_Marshal_slice (json_Marshal_ptr ''*sarif.ToolComponent'' (ToolComponent_MarshalJSON scn ord)) (ExternalProperties.Extensions strct)) \<and>
      json_Unmarshal_slice (json_Unmarshal_ptr (ToolComponent_UnmarshalJSON ord')) (projr (json_Marshal_slice (json_Marshal_ptr ''*sarif.ToolComponent'' (ToolComponent_MarshalJSON scn ord)) (ExternalProperties.Extensions strct))) = Inr (ExternalProperties.Extensions strct)"
    by (rule round_tripsD [OF round_trips_slice [OF round_trips_ptr [OF ToolComponent_round_trips]]]) (use v' in simp)
  have f5: "\<not> isl (json_Marshal_bytes ''*sarif.PropertyBag'' (PropertyBag_MarshalJSON scn ord) (ExternalProperties.ExternalizedProperties strct)) \<and>
      json_Unmarshal_ptr (PropertyBag_UnmarshalJSON ord') (projr (json_Marshal_bytes ''*sarif.PropertyBag'' (PropertyBag_MarshalJSON scn ord) (ExternalProperties.ExternalizedProperties strct))) = Inr (ExternalProperties.ExternalizedProperties strct)"
    by (rule round_tripsD [OF PropertyBag_field_round_trips]) (use v' in simp)
  have f6: "\<not> isl (json_Marshal_slice (json_Marshal_ptr ''*sarif.Graph'' (Graph_MarshalJSON scn ord)) (ExternalProperties.Graphs strct)) \<and>
      json_Unmarshal_slice (json_Unmarshal_ptr (Graph_UnmarshalJSON ord')) (projr (json_Marshal_slice (json_Marshal_ptr ''*sarif.Graph'' (Graph_MarshalJSON scn ord)) (ExternalProperties.Graphs strct))) = Inr (ExternalProperties.Graphs strct)"
    by (rule round_tripsD [OF round_trips_slice [OF round_trips_ptr [OF Graph_round_trips]]]) (use v' in simp)
  have f7: "\<not> isl (json_Marshal_string (ExternalProperties.Guid strct)) \<and>
      json_Unmarshal_string (projr (json_Marshal_string (ExternalProperties.Guid strct))) = Inr (ExternalProperties.Guid strct)"
    by (rule round_tripsD [OF round_trips_string]) (use v' in simp)
  have f8: "\<not> isl (json_Marshal_slice (json_Marshal_ptr ''*sarif.Invocation'' (Invocation_MarshalJSON scn ord)) (ExternalProperties.Invocations strct)) \<and>
      json_Unmarshal_slice (json_Unmarshal_ptr (Invocation_UnmarshalJSON ord')) (projr (json_Marshal_slice (json_Marshal_ptr ''*sarif.Invocation'' (Invocation_MarshalJSON scn ord)) (ExternalProperties.Invocations strct))) = Inr (ExternalProperties.Invocations strct)"
    by (rule round_tripsD [OF round_trips_slice [OF round_trips_ptr [OF Invocation_round_trips]]]) (use v' in simp)
  have f9: "\<not> isl (json_Marshal_slice (json_Marshal_ptr ''*sarif.LogicalLocation'' (LogicalLocation_MarshalJSON scn ord)) (ExternalProperties.LogicalLocations strct)) \<and>
      json_Unmarshal_slice (json_Unmarshal_ptr (LogicalLocation_UnmarshalJSON ord')) (projr (json_Marshal_slice (json_Marshal_ptr ''*sarif.LogicalLocation'' (LogicalLocation_MarshalJSON scn ord)) (ExternalProperties.LogicalLocations strct))) = Inr (ExternalProperties.LogicalLocations strct)"
    by (rule round_tripsD [OF round_trips_slice [OF round_trips_ptr [OF LogicalLocation_round_trips]]]) (use v' in simp)
  have f10: "\<not> isl (json_Marshal_slice (json_Marshal_ptr ''*sarif.ToolComponent'' (ToolComponent_MarshalJSON scn ord)) (ExternalProperties.Policies strct)) \<and>
      json_Unmarshal_slice (json_Unmarshal_ptr (ToolComponent_UnmarshalJSON ord')) (projr (json_Marshal_slice (json_Marshal_ptr ''*sarif.ToolComponent'' (ToolComponent_MarshalJSON scn ord)) (ExternalProperties.Policies strct))) = Inr (ExternalProperties.Policies strct)"
    by (rule round_tripsD [OF round_trips_slice [OF round_trips_ptr [OF ToolComponent_round_trips]]]) (use v' in simp)
  have f11: "\<not> isl (json_Marshal_bytes ''*sarif.PropertyBag'' (PropertyBag_MarshalJSON scn ord) (ExternalProperties.Properties strct)) \<and>
      json_Unmarshal_ptr (PropertyBag_UnmarshalJSON ord') (projr (json_Marshal_bytes ''*sarif.PropertyBag'' (PropertyBag_MarshalJSON scn ord) (ExternalProperties.Properties strct))) = Inr (ExternalProperties.Properties strct)"
    by (rule round_tripsD [OF PropertyBag_field_round_trips]) (use v' in simp)
  have f12: "\<not> isl (json_Marshal_slice (json_Marshal_ptr ''*sarif.Result'' (Result_MarshalJSON scn ord)) (ExternalProperties.Results strct)) \<and>
      json_Unmarshal_slice (json_Unmarshal_ptr (Result_UnmarshalJSON ord')) (projr (json_Marshal_slice (json_Marshal_ptr ''*sarif.Result'' (Result_MarshalJSON scn ord)) (ExternalProperties.Results strct))) = Inr (ExternalProperties.Results strct)"
    by (rule round_tripsD [OF round_trips_slice [OF round_trips_ptr [OF Result_round_trips]]]) (use v' in simp)
  have f13: "\<not> isl (json_Marshal_string (ExternalProperties.RunGuid strct)) \<and>
      json_Unmarshal_string (projr (json_Marshal_string (ExternalProperties.RunGuid strct))) = Inr (ExternalProperties.RunGuid strct)"
    by (rule round_tripsD [OF round_trips_string]) (use v' in simp)
  have f14: "\<not> isl (json_Marshal_string (ExternalProperties.Schema strct)) \<and>
      json_Unmarshal_string (projr (json_Marshal_string (ExternalProperties.Schema strct))) = Inr (ExternalProperties.Schema strct)"
    by (rule round_tripsD [OF round_trips_string]) (use v' in simp)
  have f15: "\<not> isl (json_Marshal_slice (json_Marshal_ptr ''*sarif.ToolComponent'' (ToolComponent_MarshalJSON scn ord)) (ExternalProperties.Taxonomies strct)) \<and>
      json_Unmarshal_slice (json_Unmarshal_ptr (ToolComponent_UnmarshalJSON ord')) (projr (json_Marshal_slice (json_Marshal_ptr ''*sarif.ToolComponent'' (ToolComponent_MarshalJSON scn ord)) (ExternalProperties.Taxonomies strct))) = Inr (ExternalProperties.Taxonomies strct)"
    by (rule round_tripsD [OF round_trips_slice [OF round_trips_ptr [OF ToolComponent_round_trips]]]) (use v' in simp)
  have f16: "\<not> isl (json_Marshal_slice (json_Marshal_ptr ''*sarif.ThreadFlowLocation'' (ThreadFlowLocation_MarshalJSON scn ord)) (ExternalProperties.ThreadFlowLocations strct)) \<and>
      json_Unmarshal_slice (json_Unmarshal_ptr (ThreadFlowLocation_UnmarshalJSON ord')) (projr (json_Marshal_slice (json_Marshal_ptr ''*sarif.ThreadFlowLocation'' (ThreadFlowLocation_MarshalJSON scn ord)) (ExternalProperties.ThreadFlowLocations strct))) = Inr (ExternalProperties.ThreadFlowLocations strct)"
    by (rule round_tripsD [OF round_trips_slice [OF round_trips_ptr [OF ThreadFlowLocation_round_trips]]]) (use v' in simp)
  have f17: "\<not> isl (json_Marshal_slice (json_Marshal_ptr ''*sarif.ToolComponent'' (ToolComponent_MarshalJSON scn ord)) (ExternalProperties.Translations strct)) \<and>
      json_Unmarshal_slice (json_Unmarshal_ptr (ToolComponent_UnmarshalJSON ord')) (projr (json_Marshal_slice (json_Marshal_ptr ''*sarif.ToolComponent'' (ToolComponent_MarshalJSON scn ord)) (ExternalProperties.Translations strct))) = Inr (ExternalProperties.Translations strct)"
    by (rule round_tripsD [OF round_trips_slice [OF round_trips_ptr [OF ToolComponent_round_trips]]]) (use v' in simp)
  have f18: "\<not> isl (json_Marshal_string (ExternalProperties.Version strct)) \<and>
      json_Unmarshal_string (projr (json_Marshal_string (ExternalProperties.Version strct))) = Inr (ExternalProperties.Version strct)"
    by (rule round_tripsD [OF round_trips_string]) (use v' in simp)
  have f19: "\<not> isl (json_Marshal_slice (json_Marshal_ptr ''*sarif.WebRequest'' (WebRequest_MarshalJSON scn ord)) (ExternalProperties.WebRequests strct)) \<and>
      json_Unmarshal_slice (json_Unmarshal_ptr (WebRequest_UnmarshalJSON ord')) (projr (json_Marshal_slice (json_Marshal_ptr ''*sarif.WebRequest'' (WebRequest_MarshalJSON scn ord)) (ExternalProperties.WebRequests strct))) = Inr (ExternalProperties.WebRequests strct)"
    by (rule round_tripsD [OF round_trips_slice [OF round_trips_ptr [OF WebRequest_round_trips]]]) (use v' in simp)
  have f20: "\<not> isl (json_Marshal_slice (json_Marshal_ptr ''*sarif.WebResponse'' (WebResponse_MarshalJSON scn ord)) (ExternalProperties.WebResponses strct)) \<and>
      json_Unmarshal_slice (json_Unmarshal_ptr (WebResponse_UnmarshalJSON ord')) (projr (json_Marshal_slice (json_Marshal_ptr ''*sarif.WebResponse'' (WebResponse_MarshalJSON scn ord)) (ExternalProperties.WebResponses strct))) = Inr (ExternalProperties.WebResponses strct)"
    by (rule round_tripsD [OF round_trips_slice [OF round_trips_ptr [OF WebResponse_round_trips]]]) (use v' in simp)
  note fs = f0 f1 f2 f3 f4 f5 f6 f7 f8 f9 f10 f11 f12 f13 f14 f15 f16 f17 f18 f19 f20
  have rs: "?rs =
     [(''addresses'', json_Marshal_slice (json_Marshal_ptr ''*sarif.Address'' (Address_MarshalJSON scn ord)) (ExternalProperties.Addresses strct)),
      (''artifacts'', json_Marshal_slice (json_Marshal_ptr ''*sarif.Artifact'' (Artifact_MarshalJSON scn ord)) (ExternalProperties.Artifacts strct)),
      (''conversion'', json_Marshal_ptr ''*sarif.Conversion'' (Conversion_MarshalJSON scn ord) (ExternalProperties.Conversion strct)),
      (''driver'', json_Marshal_ptr ''*sarif.ToolComponent'' (ToolComponent_MarshalJSON scn ord) (ExternalProperties.Driver strct)),
      (''extensions'', json_Marshal_slice (json_Marshal_ptr ''*sarif.ToolComponent'' (ToolComponent_MarshalJSON scn ord)) (ExternalProperties.Extensions strct)),
      (''externalizedProperties'', json_Marshal_bytes ''*sarif.PropertyBag'' (PropertyBag_MarshalJSON scn ord) (ExternalProperties.ExternalizedProperties strct)),
      (''graphs'', json_Marshal_slice (json_Marshal_ptr ''*sarif.Graph'' (Graph_MarshalJSON scn ord)) (ExternalProperties.Graphs strct)),
      (''guid'', json_Marshal_string (ExternalProperties.Guid strct)),
      (''invocations'', json_Marshal_slice (json_Marshal_ptr ''*sarif.Invocation'' (Invocation_MarshalJSON scn ord)) (ExternalProperties.Invocations strct)),
      (''logicalLocations'', json_Marshal_slice (json_Marshal_ptr ''*sarif.LogicalLocation'' (LogicalLocation_MarshalJSON scn ord)) (ExternalProperties.LogicalLocations strct)),
      (''policies'', json_Marshal_slice (json_Marshal_ptr ''*sarif.ToolComponent'' (ToolComponent_MarshalJSON scn ord)) (ExternalProperties.Policies strct)),
      (''properties'', json_Marshal_bytes ''*sarif.PropertyBag'' (PropertyBag_MarshalJSON scn ord) (ExternalProperties.Properties strct)),
      (''results'', json_Marshal_slice (json_Marshal_ptr ''*sarif.Result'' (Result_MarshalJSON scn ord)) (ExternalProperties.Results strct)),
      (''runGuid'', json_Marshal_string (ExternalProperties.RunGuid strct)),
      (''schema'', json_Marshal_string (ExternalProperties.Schema strct)),
      (''taxonomies'', json_Marshal_slice (json_Marshal_ptr ''*sarif.ToolComponent'' (ToolComponent_MarshalJSON scn ord)) (ExternalProperties.Taxonomies strct)),
      (''threadFlowLocations'', json_Marshal_slice (json_Marshal_ptr ''*sarif.ThreadFlowLocation'' (ThreadFlowLocation_MarshalJSON scn ord)) (ExternalProperties.ThreadFlowLocations strct)),
      (''translations'', json_Marshal_slice (json_Marshal_ptr ''*sarif.ToolComponent'' (ToolComponent_MarshalJSON scn ord)) (ExternalProperties.Translations strct)),
      (''version'', json_Marshal_string (ExternalProperties.Version strct)),
      (''webRequests'', json_Marshal_slice (json_Marshal_ptr ''*sarif.WebRequest'' (WebRequest_MarshalJSON scn ord)) (ExternalProperties.WebRequests strct)),
      (''webResponses'', json_Marshal_slice (json_Marshal_ptr ''*sarif.WebResponse'' (WebResponse_MarshalJSON scn ord)) (ExternalProperties.WebResponses strct))]"
    by (auto simp add: ExternalProperties_results_def)
  have keys: "map fst ?rs = ExternalProperties_keys"
    by (simp add: ExternalProperties_results_def ExternalProperties_keys_def)
  then have dist: "distinct (map fst ?rs)"
    by (simp only: ExternalProperties_keys_distinct)
  have ok: "list_all (\<lambda>e. \<not> isl (snd e)) ?rs"
    unfolding rs by (simp only: list.pred_inject snd_conv fs simp_thms)
  then have enc: "ExternalProperties_MarshalJSON scn ord strct = Inr (JObj ?kvs)"
    by (simp add: ExternalProperties_MarshalJSON_results [of scn ord strct] object_emit_all_eq_Inr)
  have l0: "map_of (rev ?kvs) ''addresses'' = Some (projr (json_Marshal_slice (json_Marshal_ptr ''*sarif.Address'' (Address_MarshalJSON scn ord)) (ExternalProperties.Addresses strct)))"
    by (rule written_lookup [OF dist]) (subst rs, intro list.set_intros)
  have l1: "map_of (rev ?kvs) ''artifacts'' = Some (projr (json_Marshal_slice (json_Marshal_ptr ''*sarif.Artifact'' (Artifact_MarshalJSON scn ord)) (ExternalProperties.Artifacts strct)))"
    by (rule written_lookup [OF dist]) (subst rs, intro list.set_intros)
  have l2: "map_of (rev ?kvs) ''conversion'' = Some (projr (json_Marshal_ptr ''*sarif.Conversion'' (Conversion_MarshalJSON scn ord) (ExternalProperties.Conversion strct)))"
    by (rule written_lookup [OF dist]) (subst rs, intro list.set_intros)
  have l3: "map_of (rev ?kvs) ''driver'' = Some (projr (json_Marshal_ptr ''*sarif.ToolComponent'' (ToolComponent_MarshalJSON scn ord) (ExternalProperties.Driver strct)))"
    by (rule written_lookup [OF dist]) (subst rs, intro list.set_intros)
  have l4: "map_of (rev ?kvs) ''extensions'' = Some (projr (json_Marshal_slice (json_Marshal_ptr ''*sarif.ToolComponent'' (ToolComponent_MarshalJSON scn ord)) (ExternalProperties.Extensions strct)))"
    by (rule written_lookup [OF dist]) (subst rs, intro list.set_intros)
  have l5: "map_of (rev ?kvs) ''externalizedProperties'' = Some (projr (json_Marshal_bytes ''*sarif.PropertyBag'' (PropertyBag_MarshalJSON scn ord) (ExternalProperties.ExternalizedProperties strct)))"
    by (rule written_lookup [OF dist]) (subst rs, intro list.set_intros)
  have l6: "map_of (rev ?kvs) ''graphs'' = Some (projr (json_Marshal_slice (json_Marshal_ptr ''*sarif.Graph'' (Graph_MarshalJSON scn ord)) (ExternalProperties.Graphs strct)))"
    by (rule written_lookup [OF dist]) (subst rs, intro list.set_intros)
  have l7: "map_of (rev ?kvs) ''guid'' = Some (projr (json_Marshal_string (ExternalProperties.Guid strct)))"
    by (rule written_lookup [OF dist]) (subst rs, intro list.set_intros)
  have l8: "map_of (rev ?kvs) ''invocations'' = Some (projr (json_Marshal_slice (json_Marshal_ptr ''*sarif.Invocation'' (Invocation_MarshalJSON scn ord)) (ExternalProperties.Invocations strct)))"
    by (rule written_lookup [OF dist]) (subst rs, intro list.set_intros)
  have l9: "map_of (rev ?kvs) ''logicalLocations'' = Some (projr (json_Marshal_slice (json_Marshal_ptr ''*sarif.LogicalLocation'' (LogicalLocation_MarshalJSON scn ord)) (ExternalProperties.LogicalLocations strct)))"
    by (rule written_lookup [OF dist]) (subst rs, intro list.set_intros)
  have l10: "map_of (rev ?kvs) ''policies'' = Some (projr (json_Marshal_slice (json_Marshal_ptr ''*sarif.ToolComponent'' (ToolComponent_MarshalJSON scn ord)) (ExternalProperties.Policies strct)))"
    by (rule written_lookup [OF dist]) (subst rs, intro list.set_intros)
  have l11: "map_of (rev ?kvs) ''properties'' = Some (projr (json_Marshal_bytes ''*sarif.PropertyBag'' (PropertyBag_MarshalJSON scn ord) (ExternalProperties.Properties strct)))"
    by (rule written_lookup [OF dist]) (subst rs, intro list.set_intros)
  have l12: "map_of (rev ?kvs) ''results'' = Some (projr (json_Marshal_slice (json_Marshal_ptr ''*sarif.Result'' (Result_MarshalJSON scn ord)) (ExternalProperties.Results strct)))"
    by (rule written_lookup [OF dist]) (subst rs, intro list.set_intros)
  have l13: "map_of (rev ?kvs) ''runGuid'' = Some (projr (json_Marshal_string (ExternalProperties.RunGuid strct)))"
    by (rule written_lookup [OF dist]) (subst rs, intro list.set_intros)
  have l14: "map_of (rev ?kvs) ''schema'' = Some (projr (json_Marshal_string (ExternalProperties.Schema strct)))"
    by (rule written_lookup [OF dist]) (subst rs, intro list.set_intros)
  have l15: "map_of (rev ?kvs) ''taxonomies'' = Some (projr (json_Marshal_slice (json_Marshal_ptr ''*sarif.ToolComponent'' (ToolComponent_MarshalJSON scn ord)) (ExternalProperties.Taxonomies strct)))"
    by (rule written_lookup [OF dist]) (subst rs, intro list.set_intros)
  have l16: "map_of (rev ?kvs) ''threadFlowLocations'' = Some (projr (json_Marshal_slice (json_Marshal_ptr ''*sarif.ThreadFlowLocation'' (ThreadFlowLocation_MarshalJSON scn ord)) (ExternalProperties.ThreadFlowLocations strct)))"
    by (rule written_lookup [OF dist]) (subst rs, intro list.set_intros)
  have l17: "map_of (rev ?kvs) ''translations'' = Some (projr (json_Marshal_slice (json_Marshal_ptr ''*sarif.ToolComponent'' (ToolComponent_MarshalJSON scn ord)) (ExternalProperties.Translations strct)))"
    by (rule written_lookup [OF dist]) (subst rs, intro list.set_intros)
  have l18: "map_of (rev ?kvs) ''version'' = Some (projr (json_Marshal_string (ExternalProperties.Version strct)))"
    by (rule written_lookup [OF dist]) (subst rs, intro list.set_intros)
  have l19: "map_of (rev ?kvs) ''webRequests'' = Some (projr (json_Marshal_slice (json_Marshal_ptr ''*sarif.WebRequest'' (WebRequest_MarshalJSON scn ord)) (ExternalProperties.WebRequests strct)))"
    by (rule written_lookup [OF dist]) (subst rs, intro list.set_intros)
  have l20: "map_of (rev ?kvs) ''webResponses'' = Some (projr (json_Marshal_slice (json_Marshal_ptr ''*sarif.WebResponse'' (WebResponse_MarshalJSON scn ord)) (ExternalProperties.WebResponses strct)))"
    by (rule written_lookup [OF dist]) (subst rs, intro list.set_intros)
  have dec: "ExternalProperties_decodes ord' (map_of (rev ?kvs)) strct"
    unfolding ExternalProperties_decodes_def l0 l1 l2 l3 l4 l5 l6 l7 l8 l9 l10 l11 l12 l13 l14 l15 l16 l17 l18 l19 l20
    by (simp only: field_ok_Some fs written_dom keys subset_refl option.simps simp_thms)
  then have "ExternalProperties_UnmarshalJSON ord' (JObj ?kvs) = Inr strct"
    by (simp only: ExternalProperties_decode_iff)
  with enc show "rt_object (ExternalProperties_MarshalJSON scn ord) (ExternalProperties_UnmarshalJSON ord') strct"
    unfolding rt_object_def by blast
qed

definition ExternalProperties_small_bags :: "ExternalProperties \<Rightarrow> bool" where
  "ExternalProperties_small_bags strct \<longleftrightarrow>
     slice_all (ptr_all Address_small_bags) (ExternalProperties.Addresses strct) \<and>
     slice_all (ptr_all Artifact_small_bags) (ExternalProperties.Artifacts strct) \<and>
     ptr_all Conversion_small_bags (ExternalProperties.Conversion strct) \<and>
     ptr_all ToolComponent_small_bags (ExternalProperties.Driver strct) \<and>
     slice_all (ptr_all ToolComponent_small_bags) (ExternalProperties.Extensions strct) \<and>
     ptr_all PropertyBag_small_bags (ExternalProperties.ExternalizedProperties strct) \<and>
     slice_all (ptr_all Graph_small_bags) (ExternalProperties.Graphs strct) \<and>
     slice_all (ptr_all Invocation_small_bags) (ExternalProperties.Invocations strct) \<and>
     slice_all (ptr_all LogicalLocation_small_bags) (ExternalProperties.LogicalLocations strct) \<and>
     slice_all (ptr_all ToolComponent_small_bags) (ExternalProperties.Policies strct) \<and>
     ptr_all PropertyBag_small_bags (ExternalProperties.Properties strct) \<and>
     slice_all (ptr_all Result_small_bags) (ExternalProperties.Results strct) \<and>
     slice_all (ptr_all ToolComponent_small_bags) (ExternalProperties.Taxonomies strct) \<and>
     slice_all (ptr_all ThreadFlowLocation_small_bags) (ExternalProperties.ThreadFlowLocations strct) \<and>
     slice_all (ptr_all ToolComponent_small_bags) (ExternalProperties.Translations strct) \<and>
     slice_all (ptr_all WebRequest_small_bags) (ExternalProperties.WebRequests strct) \<and>
     slice_all (ptr_all WebResponse_small_bags) (ExternalProperties.WebResponses strct)"

lemma ExternalProperties_same_output:
  "same_output (ExternalProperties_MarshalJSON scn ord) (ExternalProperties_MarshalJSON scn ord') ExternalProperties_small_bags"
  unfolding same_output_def
proof (intro allI impI)
  fix strct assume v: "ExternalProperties_small_bags strct"
  note v' = v [unfolded ExternalProperties_small_bags_def]
  have e0: "json_Marshal_slice (json_Marshal_ptr ''*sarif.Address'' (Address_MarshalJSON scn ord)) (ExternalProperties.Addresses strct) =
      json_Marshal_slice (json_Marshal_ptr ''*sarif.Address'' (Address_MarshalJSON scn ord')) (ExternalProperties.Addresses strct)"
    by (rule same_outputD [OF same_output_slice [OF same_output_ptr [OF Address_same_output]]]) (use v' in simp)
  have e1: "json_Marshal_slice (json_Marshal_ptr ''*sarif.Artifact'' (Artifact_MarshalJSON scn ord)) (ExternalProperties.Artifacts strct) =
      json_Marshal_slice (json_Marshal_ptr ''*sarif.Artifact'' (Artifact_MarshalJSON scn ord')) (ExternalProperties.Artifacts strct)"
    by (rule same_outputD [OF same_output_slice [OF same_output_ptr [OF Artifact_same_output]]]) (use v' in simp)
  have e2: "json_Marshal_ptr ''*sarif.Conversion'' (Conversion_MarshalJSON scn ord) (ExternalProperties.Conversion strct) =
      json_Marshal_ptr ''*sarif.Conversion'' (Conversion_MarshalJSON scn ord') (ExternalProperties.Conversion strct)"
    by (rule same_outputD [OF same_output_ptr [OF Conversion_same_output]]) (use v' in simp)
  have e3: "json_Marshal_ptr ''*sarif.ToolComponent'' (ToolComponent_MarshalJSON scn ord) (ExternalProperties.Driver strct) =
      json_Marshal_ptr ''*sarif.ToolComponent'' (ToolComponent_MarshalJSON scn ord') (ExternalProperties.Driver strct)"
    by (rule same_outputD [OF same_output_ptr [OF ToolComponent_same_output]]) (use v' in simp)
  have e4: "json_Marshal_slice (json_Marshal_ptr ''*sarif.ToolComponent'' (ToolComponent_MarshalJSON scn ord)) (ExternalProperties.Extensions strct) =
      json_Marshal_slice (json_Marshal_ptr ''*sarif.ToolComponent'' (ToolComponent_MarshalJSON scn ord')) (ExternalProperties.Extensions strct)"
    by (rule same_outputD [OF same_output_slice [OF same_output_ptr [OF ToolComponent_same_output]]]) (use v' in simp)
  have e5: "json_Marshal_bytes ''*sarif.PropertyBag'' (PropertyBag_MarshalJSON scn ord) (ExternalProperties.ExternalizedProperties strct) =
      json_Marshal_bytes ''*sarif.PropertyBag'' (PropertyBag_MarshalJSON scn ord') (ExternalProperties.ExternalizedProperties strct)"
    by (rule same_outputD [OF PropertyBag_field_same_output]) (use v' in simp)
  have e6: "json_Marshal_slice (json_Marshal_ptr ''*sarif.Graph'' (Graph_MarshalJSON scn ord)) (ExternalProperties.Graphs strct) =
      json_Marshal_slice (json_Marshal_ptr ''*sarif.Graph'' (Graph_MarshalJSON scn ord')) (ExternalProperties.Graphs strct)"
    by (rule same_outputD [OF same_output_slice [OF same_output_ptr [OF Graph_same_output]]]) (use v' in simp)
  have e8: "json_Marshal_slice (json_Marshal_ptr ''*sarif.Invocation'' (Invocation_MarshalJSON scn ord)) (ExternalProperties.Invocations strct) =
      json_Marshal_slice (json_Marshal_ptr ''*sarif.Invocation'' (Invocation_MarshalJSON scn ord')) (ExternalProperties.Invocations strct)"
    by (rule same_outputD [OF same_output_slice [OF same_output_ptr [OF Invocation_same_output]]]) (use v' in simp)
  have e9: "json_Marshal_slice (json_Marshal_ptr ''*sarif.LogicalLocation'' (LogicalLocation_MarshalJSON scn ord)) (ExternalProperties.LogicalLocations strct) =
      json_Marshal_slice (json_Marshal_ptr ''*sarif.LogicalLocation'' (LogicalLocation_MarshalJSON scn ord')) (ExternalProperties.LogicalLocations strct)"
    by (rule same_outputD [OF same_output_slice [OF same_output_ptr [OF LogicalLocation_same_output]]]) (use v' in simp)
  have e10: "json_Marshal_slice (json_Marshal_ptr ''*sarif.ToolComponent'' (ToolComponent_MarshalJSON scn ord)) (ExternalProperties.Policies strct) =
      json_Marshal_slice (json_Marshal_ptr ''*sarif.ToolComponent'' (ToolComponent_MarshalJSON scn ord')) (ExternalProperties.Policies strct)"
    by (rule same_outputD [OF same_output_slice [OF same_output_ptr [OF ToolComponent_same_output]]]) (use v' in simp)
  have e11: "json_Marshal_bytes ''*sarif.PropertyBag'' (PropertyBag_MarshalJSON scn ord) (ExternalProperties.Properties strct) =
      json_Marshal_bytes ''*sarif.PropertyBag'' (PropertyBag_MarshalJSON scn ord') (ExternalProperties.Properties strct)"
    by (rule same_outputD [OF PropertyBag_field_same_output]) (use v' in simp)
  have e12: "json_Marshal_slice (json_Marshal_ptr ''*sarif.Result'' (Result_MarshalJSON scn ord)) (ExternalProperties.Results strct) =
      json_Marshal_slice (json_Marshal_ptr ''*sarif.Result'' (Result_MarshalJSON scn ord')) (ExternalProperties.Results strct)"
    by (rule same_outputD [OF same_output_slice [OF same_output_ptr [OF Result_same_output]]]) (use v' in simp)
  have e15: "json_Marshal_slice (json_Marshal_ptr ''*sarif.ToolComponent'' (ToolComponent_MarshalJSON scn ord)) (ExternalProperties.Taxonomies strct) =
      json_Marshal_slice (json_Marshal_ptr ''*sarif.ToolComponent'' (ToolComponent_MarshalJSON scn ord')) (ExternalProperties.Taxonomies strct)"
    by (rule same_outputD [OF same_output_slice [OF same_output_ptr [OF ToolComponent_same_output]]]) (use v' in simp)
  have e16: "json_Marshal_slice (json_Marshal_ptr ''*sarif.ThreadFlowLocation'' (ThreadFlowLocation_MarshalJSON scn ord)) (ExternalProperties.ThreadFlowLocations strct) =
      json_Marshal_slice (json_Marshal_ptr ''*sarif.ThreadFlowLocation'' (ThreadFlowLocation_MarshalJSON scn ord')) (ExternalProperties.ThreadFlowLocations strct)"
    by (rule same_outputD [OF same_output_slice [OF same_output_ptr [OF ThreadFlowLocation_same_output]]]) (use v' in simp)
  have e17: "json_Marshal_slice (json_Marshal_ptr ''*sarif.ToolComponent'' (ToolComponent_MarshalJSON scn ord)) (ExternalProperties.Translations strct) =
      json_Marshal_slice (json_Marshal_ptr ''*sarif.ToolComponent'' (ToolComponent_MarshalJSON scn ord')) (ExternalProperties.Translations strct)"
    by (rule same_outputD [OF same_output_slice [OF same_output_ptr [OF ToolComponent_same_output]]]) (use v' in simp)
  have e19: "json_Marshal_slice (json_Marshal_ptr ''*sarif.WebRequest'' (WebRequest_MarshalJSON scn ord)) (ExternalProperties.WebRequests strct) =
      json_Marshal_slice (json_Marshal_ptr ''*sarif.WebRequest'' (WebRequest_MarshalJSON scn ord')) (ExternalProperties.WebRequests strct)"
    by (rule same_outputD [OF same_output_slice [OF same_output_ptr [OF WebRequest_same_output]]]) (use v' in simp)
  have e20: "json_Marshal_slice (json_Marshal_ptr ''*sarif.WebResponse'' (WebResponse_MarshalJSON scn ord)) (ExternalProperties.WebResponses strct) =
      json_Marshal_slice (json_Marshal_ptr ''*sarif.WebResponse'' (WebResponse_MarshalJSON scn ord')) (ExternalProperties.WebResponses strct)"
    by (rule same_outputD [OF same_output_slice [OF same_output_ptr [OF WebResponse_same_output]]]) (use v' in simp)
  show "ExternalProperties_MarshalJSON scn ord strct = ExternalProperties_MarshalJSON scn ord' strct"
    by (simp only: ExternalProperties_MarshalJSON_def e0 e1 e2 e3 e4 e5 e6 e8 e9 e10 e11 e12 e15 e16 e17 e19 e20)
qed

lemma ExternalProperties_writes_keys: "writes_keys (ExternalProperties_MarshalJSON scn ord) ExternalProperties_keys"
  unfolding writes_keys_def by (intro allI impI) (erule ExternalProperties_keys_written)

lemma ExternalProperties_unknown_key:
  assumes new: "k \<notin> set ExternalProperties_keys" and key: "k \<in> fst ` set kvs"
    and rest: "ExternalProperties_UnmarshalJSON ord (JObj (filter (\<lambda>e. fst e \<noteq> k) kvs)) = Inr strct"
  shows "ExternalProperties_UnmarshalJSON ord (JObj kvs) = Inl (not_allowed k)"
proof -
  have rej: "switch k (ExternalProperties_cases ord v) (reject k) s = Inl (not_allowed k)" for v s
    by (rule switch_rejects) (simp only: ExternalProperties_cases_keys new not_False_eq_True)
  from rest obtain t where
    "range_loop (\<lambda>k v. switch k (ExternalProperties_cases ord v) (reject k)) (members ord (filter (\<lambda>e. fst e \<noteq> k) kvs)) ExternalProperties_zero = Inr t"
    by (cases "range_loop (\<lambda>k v. switch k (ExternalProperties_cases ord v) (reject k)) (members ord (filter (\<lambda>e. fst e \<noteq> k) kvs)) ExternalProperties_zero")
       (simp_all add: ExternalProperties_UnmarshalJSON_def members_def)
  from unknown_key_named [OF ExternalProperties_regular rej key this]
  show ?thesis by (simp add: ExternalProperties_UnmarshalJSON_def members_def)
qed

lemma ExternalProperties_unknown_key_fails:
  assumes "k \<notin> set ExternalProperties_keys" and "k \<in> fst ` set kvs"
  shows "isl (ExternalProperties_UnmarshalJSON ord (JObj kvs))"
proof (cases "ExternalProperties_UnmarshalJSON ord (JObj kvs)")
  case (Inr strct)
  then have "dom (map_of (rev kvs)) \<subseteq> set ExternalProperties_keys"
    by (simp only: ExternalProperties_decode_iff ExternalProperties_decodesD(1))
  with assms show ?thesis by (auto simp: dom_map_of_conv_image_fst)
qed simp

lemma ExternalProperties_rejects_unknown_keys: "rejects_unknown_keys (ExternalProperties_UnmarshalJSON ord) ExternalProperties_keys"
  by (rule rejects_unknown_keysI) (erule (1) ExternalProperties_unknown_key_fails, erule (2) ExternalProperties_unknown_key)

subsection \<open>ExternalPropertyFileReference: decoding and encoding\<close>

definition ExternalPropertyFileReference_keys :: "string list" where
  "ExternalPropertyFileReference_keys = [''guid'', ''itemCount'', ''location'', ''properties'']"

definition ExternalPropertyFileReference_decodes :: "order \<Rightarrow> (string \<rightharpoonup> json) \<Rightarrow> ExternalPropertyFileReference \<Rightarrow> bool" where
  "ExternalPropertyFileReference_decodes ord m strct \<longleftrightarrow>
     dom m \<subseteq> set ExternalPropertyFileReference_keys \<and>
     field_ok json_Unmarshal_string (m ''guid'') [] (ExternalPropertyFileReference.Guid strct) \<and>
     field_ok json_Unmarshal_int (m ''itemCount'') 0 (ExternalPropertyFileReference.ItemCount strct) \<and>
     field_ok (json_Unmarshal_ptr (ArtifactLocation_UnmarshalJSON ord)) (m ''location'') None (ExternalPropertyFileReference.Location strct) \<and>
     field_ok (json_Unmarshal_ptr (PropertyBag_UnmarshalJSON ord)) (m ''properties'') None (ExternalPropertyFileReference.Properties strct)"

lemma ExternalPropertyFileReference_cases_keys: "fst ` set (ExternalPropertyFileReference_cases ord v) = set ExternalPropertyFileReference_keys"
  by (rule keys_image) (simp add: ExternalPropertyFileReference_cases_def ExternalPropertyFileReference_keys_def)

lemma ExternalPropertyFileReference_regular: "regular (\<lambda>k v. switch k (ExternalPropertyFileReference_cases ord v) (reject k))"
  by (rule regular_switch) (simp add: ExternalPropertyFileReference_cases_def)

lemma ExternalPropertyFileReference_fields:
  "field_case (ExternalPropertyFileReference_cases ord) ExternalPropertyFileReference.Guid ''guid'' json_Unmarshal_string"
  "field_case (ExternalPropertyFileReference_cases ord) ExternalPropertyFileReference.ItemCount ''itemCount'' json_Unmarshal_int"
  "field_case (ExternalPropertyFileReference_cases ord) ExternalPropertyFileReference.Location ''location'' (json_Unmarshal_ptr (ArtifactLocation_UnmarshalJSON ord))"
  "field_case (ExternalPropertyFileReference_cases ord) ExternalPropertyFileReference.Properties ''properties'' (json_Unmarshal_ptr (PropertyBag_UnmarshalJSON ord))"
  unfolding field_case_def ExternalPropertyFileReference_cases_def
  by (simp_all add: writes_into writes_received keeps_into split_def)

lemma ExternalPropertyFileReference_loop_sound:
  assumes loop: "range_loop (\<lambda>k v. switch k (ExternalPropertyFileReference_cases ord v) (reject k)) (members ord kvs) ExternalPropertyFileReference_zero = Inr strct"
  shows "dom (map_of (rev kvs)) \<subseteq> set ExternalPropertyFileReference_keys \<and>
     field_ok json_Unmarshal_string (map_of (rev kvs) ''guid'') [] (ExternalPropertyFileReference.Guid strct) \<and>
     field_ok json_Unmarshal_int (map_of (rev kvs) ''itemCount'') 0 (ExternalPropertyFileReference.ItemCount strct) \<and>
     field_ok (json_Unmarshal_ptr (ArtifactLocation_UnmarshalJSON ord)) (map_of (rev kvs) ''location'') None (ExternalPropertyFileReference.Location strct) \<and>
     field_ok (json_Unmarshal_ptr (PropertyBag_UnmarshalJSON ord)) (map_of (rev kvs) ''properties'') None (ExternalPropertyFileReference.Properties strct)"
proof -
  have "fst ` set (members ord kvs) \<subseteq> set ExternalPropertyFileReference_keys"
    by (rule loop_keys_known [OF loop]) (rule ExternalPropertyFileReference_cases_keys)
  then have keys: "dom (map_of (rev kvs)) \<subseteq> set ExternalPropertyFileReference_keys"
    by (simp add: dom_members [of kvs ord])
  note fld = field_after_loop [OF _ members_distinct loop, unfolded map_of_members]
  show ?thesis
    using keys fld [OF ExternalPropertyFileReference_fields(1)] fld [OF ExternalPropertyFileReference_fields(2)] fld [OF ExternalPropertyFileReference_fields(3)] fld [OF ExternalPropertyFileReference_fields(4)] 
    by (simp only: prod.case ExternalPropertyFileReference_zero_def ExternalPropertyFileReference.select_convs simp_thms)
qed

lemma ExternalPropertyFileReference_decodesD:
  assumes "ExternalPropertyFileReference_decodes ord m strct"
  shows "dom m \<subseteq> set ExternalPropertyFileReference_keys"
    and "field_ok json_Unmarshal_string (m ''guid'') [] (ExternalPropertyFileReference.Guid strct)"
    and "field_ok json_Unmarshal_int (m ''itemCount'') 0 (ExternalPropertyFileReference.ItemCount strct)"
    and "field_ok (json_Unmarshal_ptr (ArtifactLocation_UnmarshalJSON ord)) (m ''location'') None (ExternalPropertyFileReference.Location strct)"
    and "field_ok (json_Unmarshal_ptr (PropertyBag_UnmarshalJSON ord)) (m ''properties'') None (ExternalPropertyFileReference.Properties strct)"
  using assms unfolding ExternalPropertyFileReference_decodes_def by - (elim conjE, assumption)+

lemma ExternalPropertyFileReference_decodes_unique:
  assumes "ExternalPropertyFileReference_decodes ord m a" and "ExternalPropertyFileReference_decodes ord m b"
  shows "a = b"
  apply (rule ExternalPropertyFileReference.equality)
  apply (rule field_ok_unique [OF ExternalPropertyFileReference_decodesD(2) [OF assms(1)] ExternalPropertyFileReference_decodesD(2) [OF assms(2)]])
  apply (rule field_ok_unique [OF ExternalPropertyFileReference_decodesD(3) [OF assms(1)] ExternalPropertyFileReference_decodesD(3) [OF assms(2)]])
  apply (rule field_ok_unique [OF ExternalPropertyFileReference_decodesD(4) [OF assms(1)] ExternalPropertyFileReference_decodesD(4) [OF assms(2)]])
  apply (rule field_ok_unique [OF ExternalPropertyFileReference_decodesD(5) [OF assms(1)] ExternalPropertyFileReference_decodesD(5) [OF assms(2)]])
  apply simp
  done

lemma ExternalPropertyFileReference_accepts:
  assumes "ExternalPropertyFileReference_decodes ord m strct" and "m k = Some v"
  shows "accepting (switch k (ExternalPropertyFileReference_cases ord v) (reject k))"
proof -
  from assms have "k \<in> set ExternalPropertyFileReference_keys" by (auto simp: ExternalPropertyFileReference_decodes_def)
  then have key: "k \<in> fst ` set (ExternalPropertyFileReference_cases ord v)"
    by (simp only: ExternalPropertyFileReference_cases_keys)
  have rows: "list_all (\<lambda>(c, h). m c = Some v \<longrightarrow> accepting h) (ExternalPropertyFileReference_cases ord v)"
    unfolding ExternalPropertyFileReference_cases_def list.pred_inject
    apply (rule conjI [OF accept_row [where m = m and v = v, OF ExternalPropertyFileReference_decodesD(2) [OF assms(1)]]])
    apply (rule conjI [OF accept_row [where m = m and v = v, OF ExternalPropertyFileReference_decodesD(3) [OF assms(1)]]])
    apply (rule conjI [OF accept_row [where m = m and v = v, OF ExternalPropertyFileReference_decodesD(4) [OF assms(1)]]])
    apply (rule conjI [OF accept_row [where m = m and v = v, OF ExternalPropertyFileReference_decodesD(5) [OF assms(1)]]])
    apply simp
    done
  show ?thesis by (rule rows_accept [OF rows assms(2) key])
qed

lemma ExternalPropertyFileReference_decode_iff:
  "ExternalPropertyFileReference_UnmarshalJSON ord (JObj kvs) = Inr strct \<longleftrightarrow>
   ExternalPropertyFileReference_decodes ord (map_of (rev kvs)) strct"
proof
  assume "ExternalPropertyFileReference_UnmarshalJSON ord (JObj kvs) = Inr strct"
  then have loop: "range_loop (\<lambda>k v. switch k (ExternalPropertyFileReference_cases ord v) (reject k)) (members ord kvs) ExternalPropertyFileReference_zero = Inr strct"
    by (auto simp: ExternalPropertyFileReference_UnmarshalJSON_def members_def split: sum.splits)
  from ExternalPropertyFileReference_loop_sound [OF loop]
  show "ExternalPropertyFileReference_decodes ord (map_of (rev kvs)) strct"
    by (simp add: ExternalPropertyFileReference_decodes_def)
next
  assume d: "ExternalPropertyFileReference_decodes ord (map_of (rev kvs)) strct"
  have "\<exists>t. range_loop (\<lambda>k v. switch k (ExternalPropertyFileReference_cases ord v) (reject k)) (members ord kvs) ExternalPropertyFileReference_zero = Inr t"
  proof (rule loop_succeeds [OF ExternalPropertyFileReference_regular])
    fix k v assume "(k, v) \<in> set (members ord kvs)"
    then have "map_of (rev kvs) k = Some v" by (rule member_lookup)
    from ExternalPropertyFileReference_accepts [OF d this]
    show "accepting (switch k (ExternalPropertyFileReference_cases ord v) (reject k))" .
  qed
  then obtain strct' where
    loop: "range_loop (\<lambda>k v. switch k (ExternalPropertyFileReference_cases ord v) (reject k)) (members ord kvs) ExternalPropertyFileReference_zero = Inr strct'" ..
  from ExternalPropertyFileReference_loop_sound [OF loop]
  have d': "ExternalPropertyFileReference_decodes ord (map_of (rev kvs)) strct'"
    by (simp add: ExternalPropertyFileReference_decodes_def)
  from ExternalPropertyFileReference_decodes_unique [OF d' d] have "strct' = strct" .
  with loop show "ExternalPropertyFileReference_UnmarshalJSON ord (JObj kvs) = Inr strct"
    by (simp add: ExternalPropertyFileReference_UnmarshalJSON_def members_def)
qed

definition ExternalPropertyFileReference_results :: "scanner \<Rightarrow> order \<Rightarrow> ExternalPropertyFileReference \<Rightarrow> (string \<times> (error + json)) list" where
  "ExternalPropertyFileReference_results scn ord strct =
     [(''guid'', json_Marshal_string (ExternalPropertyFileReference.Guid strct)),
      (''itemCount'', json_Marshal_int (ExternalPropertyFileReference.ItemCount strct)),
      (''location'', json_Marshal_ptr ''*sarif.ArtifactLocation'' (ArtifactLocation_MarshalJSON scn ord) (ExternalPropertyFileReference.Location strct)),
      (''properties'', json_Marshal_bytes ''*sarif.PropertyBag'' (PropertyBag_MarshalJSON scn ord) (ExternalPropertyFileReference.Properties strct))]"

lemma ExternalPropertyFileReference_MarshalJSON_results:
  "ExternalPropertyFileReference_MarshalJSON scn ord strct = object (emit_all (ExternalPropertyFileReference_results scn ord strct))"
  by (simp add: ExternalPropertyFileReference_MarshalJSON_def ExternalPropertyFileReference_results_def emit_nilcheck)

lemma ExternalPropertyFileReference_keys_written:
  "ExternalPropertyFileReference_MarshalJSON scn ord strct = Inr j \<Longrightarrow> \<exists>kvs. j = JObj kvs \<and> map fst kvs = ExternalPropertyFileReference_keys"
  using keys_written [of "ExternalPropertyFileReference_results scn ord strct" j]
  by (simp add: ExternalPropertyFileReference_MarshalJSON_results ExternalPropertyFileReference_results_def ExternalPropertyFileReference_keys_def)

definition ExternalPropertyFileReference_encodable :: "scanner \<Rightarrow> order \<Rightarrow> ExternalPropertyFileReference \<Rightarrow> bool" where
  "ExternalPropertyFileReference_encodable scn ord strct \<longleftrightarrow>
     ptr_all (ArtifactLocation_encodable scn ord) (ExternalPropertyFileReference.Location strct) \<and>
     ptr_all (PropertyBag_encodable scn ord) (ExternalPropertyFileReference.Properties strct)"

lemma ExternalPropertyFileReference_fails_unless: "fails_unless (ExternalPropertyFileReference_MarshalJSON scn ord) (ExternalPropertyFileReference_encodable scn ord)"
  unfolding fails_unless_def ExternalPropertyFileReference_MarshalJSON_results ExternalPropertyFileReference_results_def ExternalPropertyFileReference_encodable_def isl_object_emit_all
  by (auto simp add: always_simps
      fails_unlessD [OF fails_unless_string]
      fails_unlessD [OF fails_unless_int]
      fails_unlessD [OF fails_unless_ptr [OF ArtifactLocation_fails_unless]]
      fails_unlessD [OF PropertyBag_field_fails_unless])

definition ExternalPropertyFileReference_valid :: "ExternalPropertyFileReference \<Rightarrow> bool" where
  "ExternalPropertyFileReference_valid strct \<longleftrightarrow>
     ptr_all ArtifactLocation_valid (ExternalPropertyFileReference.Location strct) \<and>
     ptr_all PropertyBag_valid (ExternalPropertyFileReference.Properties strct)"

lemma ExternalPropertyFileReference_keys_distinct: "distinct ExternalPropertyFileReference_keys"
  by (simp add: ExternalPropertyFileReference_keys_def)

lemma ExternalPropertyFileReference_round_trips:
  "round_trips_object (ExternalPropertyFileReference_MarshalJSON scn ord) (ExternalPropertyFileReference_UnmarshalJSON ord') ExternalPropertyFileReference_valid"
  unfolding round_trips_object_def
proof (intro allI impI)
  fix strct assume v: "ExternalPropertyFileReference_valid strct"
  note v' = v [unfolded ExternalPropertyFileReference_valid_def]
  let ?rs = "ExternalPropertyFileReference_results scn ord strct"
  let ?kvs = "map (\<lambda>e. (fst e, projr (snd e))) ?rs"
  have f0: "\<not> isl (json_Marshal_string (ExternalPropertyFileReference.Guid strct)) \<and>
      json_Unmarshal_string (projr (json_Marshal_string (ExternalPropertyFileReference.Guid strct))) = Inr (ExternalPropertyFileReference.Guid strct)"
    by (rule round_tripsD [OF round_trips_string]) (use v' in simp)
  have f1: "\<not> isl (json_Marshal_int (ExternalPropertyFileReference.ItemCount strct)) \<and>
      json_Unmarshal_int (projr (json_Marshal_int (ExternalPropertyFileReference.ItemCount strct))) = Inr (ExternalPropertyFileReference.ItemCount strct)"
    by (rule round_tripsD [OF round_trips_int]) (use v' in simp)
  have f2: "\<not> isl (json_Marshal_ptr ''*sarif.ArtifactLocation'' (ArtifactLocation_MarshalJSON scn ord) (ExternalPropertyFileReference.Location strct)) \<and>
      json_Unmarshal_ptr (ArtifactLocation_UnmarshalJSON ord') (projr (json_Marshal_ptr ''*sarif.ArtifactLocation'' (ArtifactLocation_MarshalJSON scn ord) (ExternalPropertyFileReference.Location strct))) = Inr (ExternalPropertyFileReference.Location strct)"
    by (rule round_tripsD [OF round_trips_ptr [OF ArtifactLocation_round_trips]]) (use v' in simp)
  have f3: "\<not> isl (json_Marshal_bytes ''*sarif.PropertyBag'' (PropertyBag_MarshalJSON scn ord) (ExternalPropertyFileReference.Properties strct)) \<and>
      json_Unmarshal_ptr (PropertyBag_UnmarshalJSON ord') (projr (json_Marshal_bytes ''*sarif.PropertyBag'' (PropertyBag_MarshalJSON scn ord) (ExternalPropertyFileReference.Properties strct))) = Inr (ExternalPropertyFileReference.Properties strct)"
    by (rule round_tripsD [OF PropertyBag_field_round_trips]) (use v' in simp)
  note fs = f0 f1 f2 f3
  have rs: "?rs =
     [(''guid'', json_Marshal_string (ExternalPropertyFileReference.Guid strct)),
      (''itemCount'', json_Marshal_int (ExternalPropertyFileReference.ItemCount strct)),
      (''location'', json_Marshal_ptr ''*sarif.ArtifactLocation'' (ArtifactLocation_MarshalJSON scn ord) (ExternalPropertyFileReference.Location strct)),
      (''properties'', json_Marshal_bytes ''*sarif.PropertyBag'' (PropertyBag_MarshalJSON scn ord) (ExternalPropertyFileReference.Properties strct))]"
    by (auto simp add: ExternalPropertyFileReference_results_def)
  have keys: "map fst ?rs = ExternalPropertyFileReference_keys"
    by (simp add: ExternalPropertyFileReference_results_def ExternalPropertyFileReference_keys_def)
  then have dist: "distinct (map fst ?rs)"
    by (simp only: ExternalPropertyFileReference_keys_distinct)
  have ok: "list_all (\<lambda>e. \<not> isl (snd e)) ?rs"
    unfolding rs by (simp only: list.pred_inject snd_conv fs simp_thms)
  then have enc: "ExternalPropertyFileReference_MarshalJSON scn ord strct = Inr (JObj ?kvs)"
    by (simp add: ExternalPropertyFileReference_MarshalJSON_results [of scn ord strct] object_emit_all_eq_Inr)
  have l0: "map_of (rev ?kvs) ''guid'' = Some (projr (json_Marshal_string (ExternalPropertyFileReference.Guid strct)))"
    by (rule written_lookup [OF dist]) (subst rs, intro list.set_intros)
  have l1: "map_of (rev ?kvs) ''itemCount'' = Some (projr (json_Marshal_int (ExternalPropertyFileReference.ItemCount strct)))"
    by (rule written_lookup [OF dist]) (subst rs, intro list.set_intros)
  have l2: "map_of (rev ?kvs) ''location'' = Some (projr (json_Marshal_ptr ''*sarif.ArtifactLocation'' (ArtifactLocation_MarshalJSON scn ord) (ExternalPropertyFileReference.Location strct)))"
    by (rule written_lookup [OF dist]) (subst rs, intro list.set_intros)
  have l3: "map_of (rev ?kvs) ''properties'' = Some (projr (json_Marshal_bytes ''*sarif.PropertyBag'' (PropertyBag_MarshalJSON scn ord) (ExternalPropertyFileReference.Properties strct)))"
    by (rule written_lookup [OF dist]) (subst rs, intro list.set_intros)
  have dec: "ExternalPropertyFileReference_decodes ord' (map_of (rev ?kvs)) strct"
    unfolding ExternalPropertyFileReference_decodes_def l0 l1 l2 l3
    by (simp only: field_ok_Some fs written_dom keys subset_refl option.simps simp_thms)
  then have "ExternalPropertyFileReference_UnmarshalJSON ord' (JObj ?kvs) = Inr strct"
    by (simp only: ExternalPropertyFileReference_decode_iff)
  with enc show "rt_object (ExternalPropertyFileReference_MarshalJSON scn ord) (ExternalPropertyFileReference_UnmarshalJSON ord') strct"
    unfolding rt_object_def by blast
qed

definition ExternalPropertyFileReference_small_bags :: "ExternalPropertyFileReference \<Rightarrow> bool" where
  "ExternalPropertyFileReference_small_bags strct \<longleftrightarrow>
     ptr_all ArtifactLocation_small_bags (ExternalPropertyFileReference.Location strct) \<and>
     ptr_all PropertyBag_small_bags (ExternalPropertyFileReference.Properties strct)"

lemma ExternalPropertyFileReference_same_output:
  "same_output (ExternalPropertyFileReference_MarshalJSON scn ord) (ExternalPropertyFileReference_MarshalJSON scn ord') ExternalPropertyFileReference_small_bags"
  unfolding same_output_def
proof (intro allI impI)
  fix strct assume v: "ExternalPropertyFileReference_small_bags strct"
  note v' = v [unfolded ExternalPropertyFileReference_small_bags_def]
  have e2: "json_Marshal_ptr ''*sarif.ArtifactLocation'' (ArtifactLocation_MarshalJSON scn ord) (ExternalPropertyFileReference.Location strct) =
      json_Marshal_ptr ''*sarif.ArtifactLocation'' (ArtifactLocation_MarshalJSON scn ord') (ExternalPropertyFileReference.Location strct)"
    by (rule same_outputD [OF same_output_ptr [OF ArtifactLocation_same_output]]) (use v' in simp)
  have e3: "json_Marshal_bytes ''*sarif.PropertyBag'' (PropertyBag_MarshalJSON scn ord) (ExternalPropertyFileReference.Properties strct) =
      json_Marshal_bytes ''*sarif.PropertyBag'' (PropertyBag_MarshalJSON scn ord') (ExternalPropertyFileReference.Properties strct)"
    by (rule same_outputD [OF PropertyBag_field_same_output]) (use v' in simp)
  show "ExternalPropertyFileReference_MarshalJSON scn ord strct = ExternalPropertyFileReference_MarshalJSON scn ord' strct"
    by (simp only: ExternalPropertyFileReference_MarshalJSON_def e2 e3)
qed

lemma ExternalPropertyFileReference_writes_keys: "writes_keys (ExternalPropertyFileReference_MarshalJSON scn ord) ExternalPropertyFileReference_keys"
  unfolding writes_keys_def by (intro allI impI) (erule ExternalPropertyFileReference_keys_written)

lemma ExternalPropertyFileReference_unknown_key:
  assumes new: "k \<notin> set ExternalPropertyFileReference_keys" and key: "k \<in> fst ` set kvs"
    and rest: "ExternalPropertyFileReference_UnmarshalJSON ord (JObj (filter (\<lambda>e. fst e \<noteq> k) kvs)) = Inr strct"
  shows "ExternalPropertyFileReference_UnmarshalJSON ord (JObj kvs) = Inl (not_allowed k)"
proof -
  have rej: "switch k (ExternalPropertyFileReference_cases ord v) (reject k) s = Inl (not_allowed k)" for v s
    by (rule switch_rejects) (simp only: ExternalPropertyFileReference_cases_keys new not_False_eq_True)
  from rest obtain t where
    "range_loop (\<lambda>k v. switch k (ExternalPropertyFileReference_cases ord v) (reject k)) (members ord (filter (\<lambda>e. fst e \<noteq> k) kvs)) ExternalPropertyFileReference_zero = Inr t"
    by (cases "range_loop (\<lambda>k v. switch k (ExternalPropertyFileReference_cases ord v) (reject k)) (members ord (filter (\<lambda>e. fst e \<noteq> k) kvs)) ExternalPropertyFileReference_zero")
       (simp_all add: ExternalPropertyFileReference_UnmarshalJSON_def members_def)
  from unknown_key_named [OF ExternalPropertyFileReference_regular rej key this]
  show ?thesis by (simp add: ExternalPropertyFileReference_UnmarshalJSON_def members_def)
qed

lemma ExternalPropertyFileReference_unknown_key_fails:
  assumes "k \<notin> set ExternalPropertyFileReference_keys" and "k \<in> fst ` set kvs"
  shows "isl (ExternalPropertyFileReference_UnmarshalJSON ord (JObj kvs))"
proof (cases "ExternalPropertyFileReference_UnmarshalJSON ord (JObj kvs)")
  case (Inr strct)
  then have "dom (map_of (rev kvs)) \<subseteq> set ExternalPropertyFileReference_keys"
    by (simp only: ExternalPropertyFileReference_decode_iff ExternalPropertyFileReference_decodesD(1))
  with assms show ?thesis by (auto simp: dom_map_of_conv_image_fst)
qed simp

lemma ExternalPropertyFileReference_rejects_unknown_keys: "rejects_unknown_keys (ExternalPropertyFileReference_UnmarshalJSON ord) ExternalPropertyFileReference_keys"
  by (rule rejects_unknown_keysI) (erule (1) ExternalPropertyFileReference_unknown_key_fails, erule (2) ExternalPropertyFileReference_unknown_key)

subsection \<open>ExternalPropertyFileReferences: decoding and encoding\<close>

definition ExternalPropertyFileReferences_keys :: "string list" where
  "ExternalPropertyFileReferences_keys = [''addresses'', ''artifacts'', ''conversion'', ''driver'', ''extensions'', ''externalizedProperties'', ''graphs'', ''invocations'', ''logicalLocations'', ''policies'', ''properties'', ''results'', ''taxonomies'', ''threadFlowLocations'', ''translations'', ''webRequests'', ''webResponses'']"

definition ExternalPropertyFileReferences_decodes :: "order \<Rightarrow> (string \<rightharpoonup> json) \<Rightarrow> ExternalPropertyFileReferences \<Rightarrow> bool" where
  "ExternalPropertyFileReferences_decodes ord m strct \<longleftrightarrow>
     dom m \<subseteq> set ExternalPropertyFileReferences_keys \<and>
     field_ok (json_Unmarshal_slice (json_Unmarshal_ptr (ExternalPropertyFileReference_UnmarshalJSON ord))) (m ''addresses'') None (ExternalPropertyFileReferences.Addresses strct) \<and>
     field_ok (json_Unmarshal_slice (json_Unmarshal_ptr (ExternalPropertyFileReference_UnmarshalJSON ord))) (m ''artifacts'') None (ExternalPropertyFileReferences.Artifacts strct) \<and>
     field_ok (json_Unmarshal_ptr (ExternalPropertyFileReference_UnmarshalJSON ord)) (m ''conversion'') None (ExternalPropertyFileReferences.Conversion strct) \<and>
     field_ok (json_Unmarshal_ptr (ExternalPropertyFileReference_UnmarshalJSON ord)) (m ''driver'') None (ExternalPropertyFileReferences.Driver strct) \<and>
     field_ok (json_Unmarshal_slice (json_Unmarshal_ptr (ExternalPropertyFileReference_UnmarshalJSON ord))) (m ''extensions'') None (ExternalPropertyFileReferences.Extensions strct) \<and>
     field_ok (json_Unmarshal_ptr (ExternalPropertyFileReference_UnmarshalJSON ord)) (m ''externalizedProperties'') None (ExternalPropertyFileReferences.ExternalizedProperties strct) \<and>
     field_ok (json_Unmarshal_slice (json_Unmarshal_ptr (ExternalPropertyFileReference_UnmarshalJSON ord))) (m ''graphs'') None (ExternalPropertyFileReferences.Graphs strct) \<and>
     field_ok (json_Unmarshal_slice (json_Unmarshal_ptr (ExternalPropertyFileReference_UnmarshalJSON ord))) (m ''invocations'') None (ExternalPropertyFileReferences.Invocations strct) \<and>
     field_ok (json_Unmarshal_slice (json_Unmarshal_ptr (ExternalPropertyFileReference_UnmarshalJSON ord))) (m ''logicalLocations'') None (ExternalPropertyFileReferences.LogicalLocations strct) \<and>
     field_ok (json_Unmarshal_slice (json_Unmarshal_ptr (ExternalPropertyFileReference_UnmarshalJSON ord))) (m ''policies'') None (ExternalPropertyFileReferences.Policies strct) \<and>
     field_ok (json_Unmarshal_ptr (PropertyBag_UnmarshalJSON ord)) (m ''properties'') None (ExternalPropertyFileReferences.Properties strct) \<and>
     field_ok (json_Unmarshal_slice (json_Unmarshal_ptr (ExternalPropertyFileReference_UnmarshalJSON ord))) (m ''results'') None (ExternalPropertyFileReferences.Results strct) \<and>
     field_ok (json_Unmarshal_slice (json_Unmarshal_ptr (ExternalPropertyFileReference_UnmarshalJSON ord))) (m ''taxonomies'') None (ExternalPropertyFileReferences.Taxonomies strct) \<and>
     field_ok (json_Unmarshal_slice (json_Unmarshal_ptr (ExternalPropertyFileReference_UnmarshalJSON ord))) (m ''threadFlowLocations'') None (ExternalPropertyFileReferences.ThreadFlowLocations strct) \<and>
     field_ok (json_Unmarshal_slice (json_Unmarshal_ptr (ExternalPropertyFileReference_UnmarshalJSON ord))) (m ''translations'') None (ExternalPropertyFileReferences.Translations strct) \<and>
     field_ok (json_Unmarshal_slice (json_Unmarshal_ptr (ExternalPropertyFileReference_UnmarshalJSON ord))) (m ''webRequests'') None (ExternalPropertyFileReferences.WebRequests strct) \<and>
     field_ok (json_Unmarshal_slice (json_Unmarshal_ptr (ExternalPropertyFileReference_UnmarshalJSON ord))) (m ''webResponses'') None (ExternalPropertyFileReferences.WebResponses strct)"

lemma ExternalPropertyFileReferences_cases_keys: "fst ` set (ExternalPropertyFileReferences_cases ord v) = set ExternalPropertyFileReferences_keys"
  by (rule keys_image) (simp add: ExternalPropertyFileReferences_cases_def ExternalPropertyFileReferences_keys_def)

lemma ExternalPropertyFileReferences_regular: "regular (\<lambda>k v. switch k (ExternalPropertyFileReferences_cases ord v) (reject k))"
  by (rule regular_switch) (simp add: ExternalPropertyFileReferences_cases_def)

lemma ExternalPropertyFileReferences_fields:
  "field_case (ExternalPropertyFileReferences_cases ord) ExternalPropertyFileReferences.Addresses ''addresses'' (json_Unmarshal_slice (json_Unmarshal_ptr (ExternalPropertyFileReference_UnmarshalJSON ord)))"
  "field_case (ExternalPropertyFileReferences_cases ord) ExternalPropertyFileReferences.Artifacts ''artifacts'' (json_Unmarshal_slice (json_Unmarshal_ptr (ExternalPropertyFileReference_UnmarshalJSON ord)))"
  "field_case (ExternalPropertyFileReferences_cases ord) ExternalPropertyFileReferences.Conversion ''conversion'' (json_Unmarshal_ptr (ExternalPropertyFileReference_UnmarshalJSON ord))"
  "field_case (ExternalPropertyFileReferences_cases ord) ExternalPropertyFileReferences.Driver ''driver'' (json_Unmarshal_ptr (ExternalPropertyFileReference_UnmarshalJSON ord))"
  "field_case (ExternalPropertyFileReferences_cases ord) ExternalPropertyFileReferences.Extensions ''extensions'' (json_Unmarshal_slice (json_Unmarshal_ptr (ExternalPropertyFileReference_UnmarshalJSON ord)))"
  "field_case (ExternalPropertyFileReferences_cases ord) ExternalPropertyFileReferences.ExternalizedProperties ''externalizedProperties'' (json_Unmarshal_ptr (ExternalPropertyFileReference_UnmarshalJSON ord))"
  "field_case (ExternalPropertyFileReferences_cases ord) ExternalPropertyFileReferences.Graphs ''graphs'' (json_Unmarshal_slice (json_Unmarshal_ptr (ExternalPropertyFileReference_UnmarshalJSON ord)))"
  "field_case (ExternalPropertyFileReferences_cases ord) ExternalPropertyFileReferences.Invocations ''invocations'' (json_Unmarshal_slice (json_Unmarshal_ptr (ExternalPropertyFileReference_UnmarshalJSON ord)))"
  "field_case (ExternalPropertyFileReferences_cases ord) ExternalPropertyFileReferences.LogicalLocations ''logicalLocations'' (json_Unmarshal_slice (json_Unmarshal_ptr (ExternalPropertyFileReference_UnmarshalJSON ord)))"
  "field_case (ExternalPropertyFileReferences_cases ord) ExternalPropertyFileReferences.Policies ''policies'' (json_Unmarshal_slice (json_Unmarshal_ptr (ExternalPropertyFileReference_UnmarshalJSON ord)))"
  "field_case (ExternalPropertyFileReferences_cases ord) ExternalPropertyFileReferences.Properties ''properties'' (json_Unmarshal_ptr (PropertyBag_UnmarshalJSON ord))"
  "field_case (ExternalPropertyFileReferences_cases ord) ExternalPropertyFileReferences.Results ''results'' (json_Unmarshal_slice (json_Unmarshal_ptr (ExternalPropertyFileReference_UnmarshalJSON ord)))"
  "field_case (ExternalPropertyFileReferences_cases ord) ExternalPropertyFileReferences.Taxonomies ''taxonomies'' (json_Unmarshal_slice (json_Unmarshal_ptr (ExternalPropertyFileReference_UnmarshalJSON ord)))"
  "field_case (ExternalPropertyFileReferences_cases ord) ExternalPropertyFileReferences.ThreadFlowLocations ''threadFlowLocations'' (json_Unmarshal_slice (json_Unmarshal_ptr (ExternalPropertyFileReference_UnmarshalJSON ord)))"
  "field_case (ExternalPropertyFileReferences_cases ord) ExternalPropertyFileReferences.Translations ''translations'' (json_Unmarshal_slice (json_Unmarshal_ptr (ExternalPropertyFileReference_UnmarshalJSON ord)))"
  "field_case (ExternalPropertyFileReferences_cases ord) ExternalPropertyFileReferences.WebRequests ''webRequests'' (json_Unmarshal_slice (json_Unmarshal_ptr (ExternalPropertyFileReference_UnmarshalJSON ord)))"
  "field_case (ExternalPropertyFileReferences_cases ord) ExternalPropertyFileReferences.WebResponses ''webResponses'' (json_Unmarshal_slice (json_Unmarshal_ptr (ExternalPropertyFileReference_UnmarshalJSON ord)))"
  unfolding field_case_def ExternalPropertyFileReferences_cases_def
  by (simp_all add: writes_into writes_received keeps_into split_def)

lemma ExternalPropertyFileReferences_loop_sound:
  assumes loop: "range_loop (\<lambda>k v. switch k (ExternalPropertyFileReferences_cases ord v) (reject k)) (members ord kvs) ExternalPropertyFileReferences_zero = Inr strct"
  shows "dom (map_of (rev kvs)) \<subseteq> set ExternalPropertyFileReferences_keys \<and>
     field_ok (json_Unmarshal_slice (json_Unmarshal_ptr (ExternalPropertyFileReference_UnmarshalJSON ord))) (map_of (rev kvs) ''addresses'') None (ExternalPropertyFileReferences.Addresses strct) \<and>
     field_ok (json_Unmarshal_slice (json_Unmarshal_ptr (ExternalPropertyFileReference_UnmarshalJSON ord))) (map_of (rev kvs) ''artifacts'') None (ExternalPropertyFileReferences.Artifacts strct) \<and>
     field_ok (json_Unmarshal_ptr (ExternalPropertyFileReference_UnmarshalJSON ord)) (map_of (rev kvs) ''conversion'') None (ExternalPropertyFileReferences.Conversion strct) \<and>
     field_ok (json_Unmarshal_ptr (ExternalPropertyFileReference_UnmarshalJSON ord)) (map_of (rev kvs) ''driver'') None (ExternalPropertyFileReferences.Driver strct) \<and>
     field_ok (json_Unmarshal_slice (json_Unmarshal_ptr (ExternalPropertyFileReference_UnmarshalJSON ord))) (map_of (rev kvs) ''extensions'') None (ExternalPropertyFileReferences.Extensions strct) \<and>
     field_ok (json_Unmarshal_ptr (ExternalPropertyFileReference_UnmarshalJSON ord)) (map_of (rev kvs) ''externalizedProperties'') None (ExternalPropertyFileReferences.ExternalizedProperties strct) \<and>
     field_ok (json_Unmarshal_slice (json_Unmarshal_ptr (ExternalPropertyFileReference_UnmarshalJSON ord))) (map_of (rev kvs) ''graphs'') None (ExternalPropertyFileReferences.Graphs strct) \<and>
     field_ok (json_Unmarshal_slice (json_Unmarshal_ptr (ExternalPropertyFileReference_UnmarshalJSON ord))) (map_of (rev kvs) ''invocations'') None (ExternalPropertyFileReferences.Invocations strct) \<and>
     field_ok (json_Unmarshal_slice (json_Unmarshal_ptr (ExternalPropertyFileReference_UnmarshalJSON ord))) (map_of (rev kvs) ''logicalLocations'') None (ExternalPropertyFileReferences.LogicalLocations strct) \<and>
     field_ok (json_Unmarshal_slice (json_Unmarshal_ptr (ExternalPropertyFileReference_UnmarshalJSON ord))) (map_of (rev kvs) ''policies'') None (ExternalPropertyFileReferences.Policies strct) \<and>
     field_ok (json_Unmarshal_ptr (PropertyBag_UnmarshalJSON ord)) (map_of (rev kvs) ''properties'') None (ExternalPropertyFileReferences.Properties strct) \<and>
     field_ok (json_Unmarshal_slice (json_Unmarshal_ptr (ExternalPropertyFileReference_UnmarshalJSON ord))) (map_of (rev kvs) ''results'') None (ExternalPropertyFileReferences.Results strct) \<and>
     field_ok (json_Unmarshal_slice (json_Unmarshal_ptr (ExternalPropertyFileReference_UnmarshalJSON ord))) (map_of (rev kvs) ''taxonomies'') None (ExternalPropertyFileReferences.Taxonomies strct) \<and>
     field_ok (json_Unmarshal_slice (json_Unmarshal_ptr (ExternalPropertyFileReference_UnmarshalJSON ord))) (map_of (rev kvs) ''threadFlowLocations'') None (ExternalPropertyFileReferences.ThreadFlowLocations strct) \<and>
     field_ok (json_Unmarshal_slice (json_Unmarshal_ptr (ExternalPropertyFileReference_UnmarshalJSON ord))) (map_of (rev kvs) ''translations'') None (ExternalPropertyFileReferences.Translations strct) \<and>
     field_ok (json_Unmarshal_slice (json_Unmarshal_ptr (ExternalPropertyFileReference_UnmarshalJSON ord))) (map_of (rev kvs) ''webRequests'') None (ExternalPropertyFileReferences.WebRequests strct) \<and>
     field_ok (json_Unmarshal_slice (json_Unmarshal_ptr (ExternalPropertyFileReference_UnmarshalJSON ord))) (map_of (rev kvs) ''webResponses'') None (ExternalPropertyFileReferences.WebResponses strct)"
proof -
  have "fst ` set (members ord kvs) \<subseteq> set ExternalPropertyFileReferences_keys"
    by (rule loop_keys_known [OF loop]) (rule ExternalPropertyFileReferences_cases_keys)
  then have keys: "dom (map_of (rev kvs)) \<subseteq> set ExternalPropertyFileReferences_keys"
    by (simp add: dom_members [of kvs ord])
  note fld = field_after_loop [OF _ members_distinct loop, unfolded map_of_members]
  show ?thesis
    using keys fld [OF ExternalPropertyFileReferences_fields(1)] fld [OF ExternalPropertyFileReferences_fields(2)] fld [OF ExternalPropertyFileReferences_fields(3)] fld [OF ExternalPropertyFileReferences_fields(4)] fld [OF ExternalPropertyFileReferences_fields(5)] fld [OF ExternalPropertyFileReferences_fields(6)] fld [OF ExternalPropertyFileReferences_fields(7)] fld [OF ExternalPropertyFileReferences_fields(8)] fld [OF ExternalPropertyFileReferences_fields(9)] fld [OF ExternalPropertyFileReferences_fields(10)] fld [OF ExternalPropertyFileReferences_fields(11)] fld [OF ExternalPropertyFileReferences_fields(12)] fld [OF ExternalPropertyFileReferences_fields(13)] fld [OF ExternalPropertyFileReferences_fields(14)] fld [OF ExternalPropertyFileReferences_fields(15)] fld [OF ExternalPropertyFileReferences_fields(16)] fld [OF ExternalPropertyFileReferences_fields(17)] 
    by (simp only: prod.case ExternalPropertyFileReferences_zero_def ExternalPropertyFileReferences.select_convs simp_thms)
qed

lemma ExternalPropertyFileReferences_decodesD:
  assumes "ExternalPropertyFileReferences_decodes ord m strct"
  shows "dom m \<subseteq> set ExternalPropertyFileReferences_keys"
    and "field_ok (json_Unmarshal_slice (json_Unmarshal_ptr (ExternalPropertyFileReference_UnmarshalJSON ord))) (m ''addresses'') None (ExternalPropertyFileReferences.Addresses strct)"
    and "field_ok (json_Unmarshal_slice (json_Unmarshal_ptr (ExternalPropertyFileReference_UnmarshalJSON ord))) (m ''artifacts'') None (ExternalPropertyFileReferences.Artifacts strct)"
    and "field_ok (json_Unmarshal_ptr (ExternalPropertyFileReference_UnmarshalJSON ord)) (m ''conversion'') None (ExternalPropertyFileReferences.Conversion strct)"
    and "field_ok (json_Unmarshal_ptr (ExternalPropertyFileReference_UnmarshalJSON ord)) (m ''driver'') None (ExternalPropertyFileReferences.Driver strct)"
    and "field_ok (json_Unmarshal_slice (json_Unmarshal_ptr (ExternalPropertyFileReference_UnmarshalJSON ord))) (m ''extensions'') None (ExternalPropertyFileReferences.Extensions strct)"
    and "field_ok (json_Unmarshal_ptr (ExternalPropertyFileReference_UnmarshalJSON ord)) (m ''externalizedProperties'') None (ExternalPropertyFileReferences.ExternalizedProperties strct)"
    and "field_ok (json_Unmarshal_slice (json_Unmarshal_ptr (ExternalPropertyFileReference_UnmarshalJSON ord))) (m ''graphs'') None (ExternalPropertyFileReferences.Graphs strct)"
    and "field_ok (json_Unmarshal_slice (json_Unmarshal_ptr (ExternalPropertyFileReference_UnmarshalJSON ord))) (m ''invocations'') None (ExternalPropertyFileReferences.Invocations strct)"
    and "field_ok (json_Unmarshal_slice (json_Unmarshal_ptr (ExternalPropertyFileReference_UnmarshalJSON ord))) (m ''logicalLocations'') None (ExternalPropertyFileReferences.LogicalLocations strct)"
    and "field_ok (json_Unmarshal_slice (json_Unmarshal_ptr (ExternalPropertyFileReference_UnmarshalJSON ord))) (m ''policies'') None (ExternalPropertyFileReferences.Policies strct)"
    and "field_ok (json_Unmarshal_ptr (PropertyBag_UnmarshalJSON ord)) (m ''properties'') None (ExternalPropertyFileReferences.Properties strct)"
    and "field_ok (json_Unmarshal_slice (json_Unmarshal_ptr (ExternalPropertyFileReference_UnmarshalJSON ord))) (m ''results'') None (ExternalPropertyFileReferences.Results strct)"
    and "field_ok (json_Unmarshal_slice (json_Unmarshal_ptr (ExternalPropertyFileReference_UnmarshalJSON ord))) (m ''taxonomies'') None (ExternalPropertyFileReferences.Taxonomies strct)"
    and "field_ok (json_Unmarshal_slice (json_Unmarshal_ptr (ExternalPropertyFileReference_UnmarshalJSON ord))) (m ''threadFlowLocations'') None (ExternalPropertyFileReferences.ThreadFlowLocations strct)"
    and "field_ok (json_Unmarshal_slice (json_Unmarshal_ptr (ExternalPropertyFileReference_UnmarshalJSON ord))) (m ''translations'') None (ExternalPropertyFileReferences.Translations strct)"
    and "field_ok (json_Unmarshal_slice (json_Unmarshal_ptr (ExternalPropertyFileReference_UnmarshalJSON ord))) (m ''webRequests'') None (ExternalPropertyFileReferences.WebRequests strct)"
    and "field_ok (json_Unmarshal_slice (json_Unmarshal_ptr (ExternalPropertyFileReference_UnmarshalJSON ord))) (m ''webResponses'') None (ExternalPropertyFileReferences.WebResponses strct)"
  using assms unfolding ExternalPropertyFileReferences_decodes_def by - (elim conjE, assumption)+

lemma ExternalPropertyFileReferences_decodes_unique:
  assumes "ExternalPropertyFileReferences_decodes ord m a" and "ExternalPropertyFileReferences_decodes ord m b"
  shows "a = b"
  apply (rule ExternalPropertyFileReferences.equality)
  apply (rule field_ok_unique [OF ExternalPropertyFileReferences_decodesD(2) [OF assms(1)] ExternalPropertyFileReferences_decodesD(2) [OF assms(2)]])
  apply (rule field_ok_unique [OF ExternalPropertyFileReferences_decodesD(3) [OF assms(1)] ExternalPropertyFileReferences_decodesD(3) [OF assms(2)]])
  apply (rule field_ok_unique [OF ExternalPropertyFileReferences_decodesD(4) [OF assms(1)] ExternalPropertyFileReferences_decodesD(4) [OF assms(2)]])
  apply (rule field_ok_unique [OF ExternalPropertyFileReferences_decodesD(5) [OF assms(1)] ExternalPropertyFileReferences_decodesD(5) [OF assms(2)]])
  apply (rule field_ok_unique [OF ExternalPropertyFileReferences_decodesD(6) [OF assms(1)] ExternalPropertyFileReferences_decodesD(6) [OF assms(2)]])
  apply (rule field_ok_unique [OF ExternalPropertyFileReferences_decodesD(7) [OF assms(1)] ExternalPropertyFileReferences_decodesD(7) [OF assms(2)]])
  apply (rule field_ok_unique [OF ExternalPropertyFileReferences_decodesD(8) [OF assms(1)] ExternalPropertyFileReferences_decodesD(8) [OF assms(2)]])
  apply (rule field_ok_unique [OF ExternalPropertyFileReferences_decodesD(9) [OF assms(1)] ExternalPropertyFileReferences_decodesD(9) [OF assms(2)]])
  apply (rule field_ok_unique [OF ExternalPropertyFileReferences_decodesD(10) [OF assms(1)] ExternalPropertyFileReferences_decodesD(10) [OF assms(2)]])
  apply (rule field_ok_unique [OF ExternalPropertyFileReferences_decodesD(11) [OF assms(1)] ExternalPropertyFileReferences_decodesD(11) [OF assms(2)]])
  apply (rule field_ok_unique [OF ExternalPropertyFileReferences_decodesD(12) [OF assms(1)] ExternalPropertyFileReferences_decodesD(12) [OF assms(2)]])
  apply (rule field_ok_unique [OF ExternalPropertyFileReferences_decodesD(13) [OF assms(1)] ExternalPropertyFileReferences_decodesD(13) [OF assms(2)]])
  apply (rule field_ok_unique [OF ExternalPropertyFileReferences_decodesD(14) [OF assms(1)] ExternalPropertyFileReferences_decodesD(14) [OF assms(2)]])
  apply (rule field_ok_unique [OF ExternalPropertyFileReferences_decodesD(15) [OF assms(1)] ExternalPropertyFileReferences_decodesD(15) [OF assms(2)]])
  apply (rule field_ok_unique [OF ExternalPropertyFileReferences_decodesD(16) [OF assms(1)] ExternalPropertyFileReferences_decodesD(16) [OF assms(2)]])
  apply (rule field_ok_unique [OF ExternalPropertyFileReferences_decodesD(17) [OF assms(1)] ExternalPropertyFileReferences_decodesD(17) [OF assms(2)]])
  apply (rule field_ok_unique [OF ExternalPropertyFileReferences_decodesD(18) [OF assms(1)] ExternalPropertyFileReferences_decodesD(18) [OF assms(2)]])
  apply simp
  done

lemma ExternalPropertyFileReferences_accepts:
  assumes "ExternalPropertyFileReferences_decodes ord m strct" and "m k = Some v"
  shows "accepting (switch k (ExternalPropertyFileReferences_cases ord v) (reject k))"
proof -
  from assms have "k \<in> set ExternalPropertyFileReferences_keys" by (auto simp: ExternalPropertyFileReferences_decodes_def)
  then have key: "k \<in> fst ` set (ExternalPropertyFileReferences_cases ord v)"
    by (simp only: ExternalPropertyFileReferences_cases_keys)
  have rows: "list_all (\<lambda>(c, h). m c = Some v \<longrightarrow> accepting h) (ExternalPropertyFileReferences_cases ord v)"
    unfolding ExternalPropertyFileReferences_cases_def list.pred_inject
    apply (rule conjI [OF accept_row [where m = m and v = v, OF ExternalPropertyFileReferences_decodesD(2) [OF assms(1)]]])
    apply (rule conjI [OF accept_row [where m = m and v = v, OF ExternalPropertyFileReferences_decodesD(3) [OF assms(1)]]])
    apply (rule conjI [OF accept_row [where m = m and v = v, OF ExternalPropertyFileReferences_decodesD(4) [OF assms(1)]]])
    apply (rule conjI [OF accept_row [where m = m and v = v, OF ExternalPropertyFileReferences_decodesD(5) [OF assms(1)]]])
    apply (rule conjI [OF accept_row [where m = m and v = v, OF ExternalPropertyFileReferences_decodesD(6) [OF assms(1)]]])
    apply (rule conjI [OF accept_row [where m = m and v = v, OF ExternalPropertyFileReferences_decodesD(7) [OF assms(1)]]])
    apply (rule conjI [OF accept_row [where m = m and v = v, OF ExternalPropertyFileReferences_decodesD(8) [OF assms(1)]]])
    apply (rule conjI [OF accept_row [where m = m and v = v, OF ExternalPropertyFileReferences_decodesD(9) [OF assms(1)]]])
    apply (rule conjI [OF accept_row [where m = m and v = v, OF ExternalPropertyFileReferences_decodesD(10) [OF assms(1)]]])
    apply (rule conjI [OF accept_row [where m = m and v = v, OF ExternalPropertyFileReferences_decodesD(11) [OF assms(1)]]])
    apply (rule conjI [OF accept_row [where m = m and v = v, OF ExternalPropertyFileReferences_decodesD(12) [OF assms(1)]]])
    apply (rule conjI [OF accept_row [where m = m and v = v, OF ExternalPropertyFileReferences_decodesD(13) [OF assms(1)]]])
    apply (rule conjI [OF accept_row [where m = m and v = v, OF ExternalPropertyFileReferences_decodesD(14) [OF assms(1)]]])
    apply (rule conjI [OF accept_row [where m = m and v = v, OF ExternalPropertyFileReferences_decodesD(15) [OF assms(1)]]])
    apply (rule conjI [OF accept_row [where m = m and v = v, OF ExternalPropertyFileReferences_decodesD(16) [OF assms(1)]]])
    apply (rule conjI [OF accept_row [where m = m and v = v, OF ExternalPropertyFileReferences_decodesD(17) [OF assms(1)]]])
    apply (rule conjI [OF accept_row [where m = m and v = v, OF ExternalPropertyFileReferences_decodesD(18) [OF assms(1)]]])
    apply simp
    done
  show ?thesis by (rule rows_accept [OF rows assms(2) key])
qed

lemma ExternalPropertyFileReferences_decode_iff:
  "ExternalPropertyFileReferences_UnmarshalJSON ord (JObj kvs) = Inr strct \<longleftrightarrow>
   ExternalPropertyFileReferences_decodes ord (map_of (rev kvs)) strct"
proof
  assume "ExternalPropertyFileReferences_UnmarshalJSON ord (JObj kvs) = Inr strct"
  then have loop: "range_loop (\<lambda>k v. switch k (ExternalPropertyFileReferences_cases ord v) (reject k)) (members ord kvs) ExternalPropertyFileReferences_zero = Inr strct"
    by (auto simp: ExternalPropertyFileReferences_UnmarshalJSON_def members_def split: sum.splits)
  from ExternalPropertyFileReferences_loop_sound [OF loop]
  show "ExternalPropertyFileReferences_decodes ord (map_of (rev kvs)) strct"
    by (simp add: ExternalPropertyFileReferences_decodes_def)
next
  assume d: "ExternalPropertyFileReferences_decodes ord (map_of (rev kvs)) strct"
  have "\<exists>t. range_loop (\<lambda>k v. switch k (ExternalPropertyFileReferences_cases ord v) (reject k)) (members ord kvs) ExternalPropertyFileReferences_zero = Inr t"
  proof (rule loop_succeeds [OF ExternalPropertyFileReferences_regular])
    fix k v assume "(k, v) \<in> set (members ord kvs)"
    then have "map_of (rev kvs) k = Some v" by (rule member_lookup)
    from ExternalPropertyFileReferences_accepts [OF d this]
    show "accepting (switch k (ExternalPropertyFileReferences_cases ord v) (reject k))" .
  qed
  then obtain strct' where
    loop: "range_loop (\<lambda>k v. switch k (ExternalPropertyFileReferences_cases ord v) (reject k)) (members ord kvs) ExternalPropertyFileReferences_zero = Inr strct'" ..
  from ExternalPropertyFileReferences_loop_sound [OF loop]
  have d': "ExternalPropertyFileReferences_decodes ord (map_of (rev kvs)) strct'"
    by (simp add: ExternalPropertyFileReferences_decodes_def)
  from ExternalPropertyFileReferences_decodes_unique [OF d' d] have "strct' = strct" .
  with loop show "ExternalPropertyFileReferences_UnmarshalJSON ord (JObj kvs) = Inr strct"
    by (simp add: ExternalPropertyFileReferences_UnmarshalJSON_def members_def)
qed

definition ExternalPropertyFileReferences_results :: "scanner \<Rightarrow> order \<Rightarrow> ExternalPropertyFileReferences \<Rightarrow> (string \<times> (error + json)) list" where
  "ExternalPropertyFileReferences_results scn ord strct =
     [(''addresses'', json_Marshal_slice (json_Marshal_ptr ''*sarif.ExternalPropertyFileReference'' (ExternalPropertyFileReference_MarshalJSON scn ord)) (ExternalPropertyFileReferences.Addresses strct)),
      (''artifacts'', json_Marshal_slice (json_Marshal_ptr ''*sarif.ExternalPropertyFileReference'' (ExternalPropertyFileReference_MarshalJSON scn ord)) (ExternalPropertyFileReferences.Artifacts strct)),
      (''conversion'', json_Marshal_ptr ''*sarif.ExternalPropertyFileReference'' (ExternalPropertyFileReference_MarshalJSON scn ord) (ExternalPropertyFileReferences.Conversion strct)),
      (''driver'', json_Marshal_ptr ''*sarif.ExternalPropertyFileReference'' (ExternalPropertyFileReference_MarshalJSON scn ord) (ExternalPropertyFileReferences.Driver strct)),
      (''extensions'', json_Marshal_slice (json_Marshal_ptr ''*sarif.ExternalPropertyFileReference'' (ExternalPropertyFileReference_MarshalJSON scn ord)) (ExternalPropertyFileReferences.Extensions strct)),
      (''externalizedProperties'', json_Marshal_ptr ''*sarif.ExternalPropertyFileReference'' (ExternalPropertyFileReference_MarshalJSON scn ord) (ExternalPropertyFileReferences.ExternalizedProperties strct)),
      (''graphs'', json_Marshal_slice (json_Marshal_ptr ''*sarif.ExternalPropertyFileReference'' (ExternalPropertyFileReference_MarshalJSON scn ord)) (ExternalPropertyFileReferences.Graphs strct)),
      (''invocations'', json_Marshal_slice (json_Marshal_ptr ''*sarif.ExternalPropertyFileReference'' (ExternalPropertyFileReference_MarshalJSON scn ord)) (ExternalPropertyFileReferences.Invocations strct)),
      (''logicalLocations'', json_Marshal_slice (json_Marshal_ptr ''*sarif.ExternalPropertyFileReference'' (ExternalPropertyFileReference_MarshalJSON scn ord)) (ExternalPropertyFileReferences.LogicalLocations strct)),
      (''policies'', json_Marshal_slice (json_Marshal_ptr ''*sarif.ExternalPropertyFileReference'' (ExternalPropertyFileReference_MarshalJSON scn ord)) (ExternalPropertyFileReferences.Policies strct)),
      (''properties'', json_Marshal_bytes ''*sarif.PropertyBag'' (PropertyBag_MarshalJSON scn ord) (ExternalPropertyFileReferences.Properties strct)),
      (''results'', json_Marshal_slice (json_Marshal_ptr ''*sarif.ExternalPropertyFileReference'' (ExternalPropertyFileReference_MarshalJSON scn ord)) (ExternalPropertyFileReferences.Results strct)),
      (''taxonomies'', json_Marshal_slice (json_Marshal_ptr ''*sarif.ExternalPropertyFileReference'' (ExternalPropertyFileReference_MarshalJSON scn ord)) (ExternalPropertyFileReferences.Taxonomies strct)),
      (''threadFlowLocations'', json_Marshal_slice (json_Marshal_ptr ''*sarif.ExternalPropertyFileReference'' (ExternalPropertyFileReference_MarshalJSON scn ord)) (ExternalPropertyFileReferences.ThreadFlowLocations strct)),
      (''translations'', json_Marshal_slice (json_Marshal_ptr ''*sarif.ExternalPropertyFileReference'' (ExternalPropertyFileReference_MarshalJSON scn ord)) (ExternalPropertyFileReferences.Translations strct)),
      (''webRequests'', json_Marshal_slice (json_Marshal_ptr ''*sarif.ExternalPropertyFileReference'' (ExternalPropertyFileReference_MarshalJSON scn ord)) (ExternalPropertyFileReferences.WebRequests strct)),
      (''webResponses'', json_Marshal_slice (json_Marshal_ptr ''*sarif.ExternalPropertyFileReference'' (ExternalPropertyFileReference_MarshalJSON scn ord)) (ExternalPropertyFileReferences.WebResponses strct))]"

lemma ExternalPropertyFileReferences_MarshalJSON_results:
  "ExternalPropertyFileReferences_MarshalJSON scn ord strct = object (emit_all (ExternalPropertyFileReferences_results scn ord strct))"
  by (simp add: ExternalPropertyFileReferences_MarshalJSON_def ExternalPropertyFileReferences_results_def emit_nilcheck)

lemma ExternalPropertyFileReferences_keys_written:
  "ExternalPropertyFileReferences_MarshalJSON scn ord strct = Inr j \<Longrightarrow> \<exists>kvs. j = JObj kvs \<and> map fst kvs = ExternalPropertyFileReferences_keys"
  using keys_written [of "ExternalPropertyFileReferences_results scn ord strct" j]
  by (simp add: ExternalPropertyFileReferences_MarshalJSON_results ExternalPropertyFileReferences_results_def ExternalPropertyFileReferences_keys_def)

definition ExternalPropertyFileReferences_encodable :: "scanner \<Rightarrow> order \<Rightarrow> ExternalPropertyFileReferences \<Rightarrow> bool" where
  "ExternalPropertyFileReferences_encodable scn ord strct \<longleftrightarrow>
     slice_all (ptr_all (ExternalPropertyFileReference_encodable scn ord)) (ExternalPropertyFileReferences.Addresses strct) \<and>
     slice_all (ptr_all (ExternalPropertyFileReference_encodable scn ord)) (ExternalPropertyFileReferences.Artifacts strct) \<and>
     ptr_all (ExternalPropertyFileReference_encodable scn ord) (ExternalPropertyFileReferences.Conversion strct) \<and>
     ptr_all (ExternalPropertyFileReference_encodable scn ord) (ExternalPropertyFileReferences.Driver strct) \<and>
     slice_all (ptr_all (ExternalPropertyFileReference_encodable scn ord)) (ExternalPropertyFileReferences.Extensions strct) \<and>
     ptr_all (ExternalPropertyFileReference_encodable scn ord) (ExternalPropertyFileReferences.ExternalizedProperties strct) \<and>
     slice_all (ptr_all (ExternalPropertyFileReference_encodable scn ord)) (ExternalPropertyFileReferences.Graphs strct) \<and>
     slice_all (ptr_all (ExternalPropertyFileReference_encodable scn ord)) (ExternalPropertyFileReferences.Invocations strct) \<and>
     slice_all (ptr_all (ExternalPropertyFileReference_encodable scn ord)) (ExternalPropertyFileReferences.LogicalLocations strct) \<and>
     slice_all (ptr_all (ExternalPropertyFileReference_encodable scn ord)) (ExternalPropertyFileReferences.Policies strct) \<and>
     ptr_all (PropertyBag_encodable scn ord) (ExternalPropertyFileReferences.Properties strct) \<and>
     slice_all (ptr_all (ExternalPropertyFileReference_encodable scn ord)) (ExternalPropertyFileReferences.Results strct) \<and>
     slice_all (ptr_all (ExternalPropertyFileReference_encodable scn ord)) (ExternalPropertyFileReferences.Taxonomies strct) \<and>
     slice_all (ptr_all (ExternalPropertyFileReference_encodable scn ord)) (ExternalPropertyFileReferences.ThreadFlowLocations strct) \<and>
     slice_all (ptr_all (ExternalPropertyFileReference_encodable scn ord)) (ExternalPropertyFileReferences.Translations strct) \<and>
     slice_all (ptr_all (ExternalPropertyFileReference_encodable scn ord)) (ExternalPropertyFileReferences.WebRequests strct) \<and>
     slice_all (ptr_all (ExternalPropertyFileReference_encodable scn ord)) (ExternalPropertyFileReferences.WebResponses strct)"

lemma ExternalPropertyFileReferences_fails_unless: "fails_unless (ExternalPropertyFileReferences_MarshalJSON scn ord) (ExternalPropertyFileReferences_encodable scn ord)"
  unfolding fails_unless_def ExternalPropertyFileReferences_MarshalJSON_results ExternalPropertyFileReferences_results_def ExternalPropertyFileReferences_encodable_def isl_object_emit_all
  by (auto simp add: always_simps
      fails_unlessD [OF fails_unless_slice [OF fails_unless_ptr [OF ExternalPropertyFileReference_fails_unless]]]
      fails_unlessD [OF fails_unless_ptr [OF ExternalPropertyFileReference_fails_unless]]
      fails_unlessD [OF PropertyBag_field_fails_unless])

definition ExternalPropertyFileReferences_valid :: "ExternalPropertyFileReferences \<Rightarrow> bool" where
  "ExternalPropertyFileReferences_valid strct \<longleftrightarrow>
     slice_all (ptr_all ExternalPropertyFileReference_valid) (ExternalPropertyFileReferences.Addresses strct) \<and>
     slice_all (ptr_all ExternalPropertyFileReference_valid) (ExternalPropertyFileReferences.Artifacts strct) \<and>
     ptr_all ExternalPropertyFileReference_valid (ExternalPropertyFileReferences.Conversion strct) \<and>
     ptr_all ExternalPropertyFileReference_valid (ExternalPropertyFileReferences.Driver strct) \<and>
     slice_all (ptr_all ExternalPropertyFileReference_valid) (ExternalPropertyFileReferences.Extensions strct) \<and>
     ptr_all ExternalPropertyFileReference_valid (ExternalPropertyFileReferences.ExternalizedProperties strct) \<and>
     slice_all (ptr_all ExternalPropertyFileReference_valid) (ExternalPropertyFileReferences.Graphs strct) \<and>
     slice_all (ptr_all ExternalPropertyFileReference_valid) (ExternalPropertyFileReferences.Invocations strct) \<and>
     slice_all (ptr_all ExternalPropertyFileReference_valid) (ExternalPropertyFileReferences.LogicalLocations strct) \<and>
     slice_all (ptr_all ExternalPropertyFileReference_valid) (ExternalPropertyFileReferences.Policies strct) \<and>
     ptr_all PropertyBag_valid (ExternalPropertyFileReferences.Properties strct) \<and>
     slice_all (ptr_all ExternalPropertyFileReference_valid) (ExternalPropertyFileReferences.Results strct) \<and>
     slice_all (ptr_all ExternalPropertyFileReference_valid) (ExternalPropertyFileReferences.Taxonomies strct) \<and>
     slice_all (ptr_all ExternalPropertyFileReference_valid) (ExternalPropertyFileReferences.ThreadFlowLocations strct) \<and>
     slice_all (ptr_all ExternalPropertyFileReference_valid) (ExternalPropertyFileReferences.Translations strct) \<and>
     slice_all (ptr_all ExternalPropertyFileReference_valid) (ExternalPropertyFileReferences.WebRequests strct) \<and>
     slice_all (ptr_all ExternalPropertyFileReference_valid) (ExternalPropertyFileReferences.WebResponses strct)"

lemma ExternalPropertyFileReferences_keys_distinct: "distinct ExternalPropertyFileReferences_keys"
  by (simp add: ExternalPropertyFileReferences_keys_def)

lemma ExternalPropertyFileReferences_round_trips:
  "round_trips_object (ExternalPropertyFileReferences_MarshalJSON scn ord) (ExternalPropertyFileReferences_UnmarshalJSON ord') ExternalPropertyFileReferences_valid"
  unfolding round_trips_object_def
proof (intro allI impI)
  fix strct assume v: "ExternalPropertyFileReferences_valid strct"
  note v' = v [unfolded ExternalPropertyFileReferences_valid_def]
  let ?rs = "ExternalPropertyFileReferences_results scn ord strct"
  let ?kvs = "map (\<lambda>e. (fst e, projr (snd e))) ?rs"
  have f0: "\<not> isl (json_Marshal_slice (json_Marshal_ptr ''*sarif.ExternalPropertyFileReference'' (ExternalPropertyFileReference_MarshalJSON scn ord)) (ExternalPropertyFileReferences.Addresses strct)) \<and>
      json_Unmarshal_slice (json_Unmarshal_ptr (ExternalPropertyFileReference_UnmarshalJSON ord')) (projr (json_Marshal_slice (json_Marshal_ptr ''*sarif.ExternalPropertyFileReference'' (ExternalPropertyFileReference_MarshalJSON scn ord)) (ExternalPropertyFileReferences.Addresses strct))) = Inr (ExternalPropertyFileReferences.Addresses strct)"
    by (rule round_tripsD [OF round_trips_slice [OF round_trips_ptr [OF ExternalPropertyFileReference_round_trips]]]) (use v' in simp)
  have f1: "\<not> isl (json_Marshal_slice (json_Marshal_ptr ''*sarif.ExternalPropertyFileReference'' (ExternalPropertyFileReference_MarshalJSON scn ord)) (ExternalPropertyFileReferences.Artifacts strct)) \<and>
      json_Unmarshal_slice (json_Unmarshal_ptr (ExternalPropertyFileReference_UnmarshalJSON ord')) (projr (json_Marshal_slice (json_Marshal_ptr ''*sarif.ExternalPropertyFileReference'' (ExternalPropertyFileReference_MarshalJSON scn ord)) (ExternalPropertyFileReferences.Artifacts strct))) = Inr (ExternalPropertyFileReferences.Artifacts strct)"
    by (rule round_tripsD [OF round_trips_slice [OF round_trips_ptr [OF ExternalPropertyFileReference_round_trips]]]) (use v' in simp)
  have f2: "\<not> isl (json_Marshal_ptr ''*sarif.ExternalPropertyFileReference'' (ExternalPropertyFileReference_MarshalJSON scn ord) (ExternalPropertyFileReferences.Conversion strct)) \<and>
      json_Unmarshal_ptr (ExternalPropertyFileReference_UnmarshalJSON ord') (projr (json_Marshal_ptr ''*sarif.ExternalPropertyFileReference'' (ExternalPropertyFileReference_MarshalJSON scn ord) (ExternalPropertyFileReferences.Conversion strct))) = Inr (ExternalPropertyFileReferences.Conversion strct)"
    by (rule round_tripsD [OF round_trips_ptr [OF ExternalPropertyFileReference_round_trips]]) (use v' in simp)
  have f3: "\<not> isl (json_Marshal_ptr ''*sarif.ExternalPropertyFileReference'' (ExternalPropertyFileReference_MarshalJSON scn ord) (ExternalPropertyFileReferences.Driver strct)) \<and>
      json_Unmarshal_ptr (ExternalPropertyFileReference_UnmarshalJSON ord') (projr (json_Marshal_ptr ''*sarif.ExternalPropertyFileReference'' (ExternalPropertyFileReference_MarshalJSON scn ord) (ExternalPropertyFileReferences.Driver strct))) = Inr (ExternalPropertyFileReferences.Driver strct)"
    by (rule round_tripsD [OF round_trips_ptr [OF ExternalPropertyFileReference_round_trips]]) (use v' in simp)
  have f4: "\<not> isl (json_Marshal_slice (json_Marshal_ptr ''*sarif.ExternalPropertyFileReference'' (ExternalPropertyFileReference_MarshalJSON scn ord)) (ExternalPropertyFileReferences.Extensions strct)) \<and>
      json_Unmarshal_slice (json_Unmarshal_ptr (ExternalPropertyFileReference_UnmarshalJSON ord')) (projr (json_Marshal_slice (json_Marshal_ptr ''*sarif.ExternalPropertyFileReference'' (ExternalPropertyFileReference_MarshalJSON scn ord)) (ExternalPropertyFileReferences.Extensions strct))) = Inr (ExternalPropertyFileReferences.Extensions strct)"
    by (rule round_tripsD [OF round_trips_slice [OF round_trips_ptr [OF ExternalPropertyFileReference_round_trips]]]) (use v' in simp)
  have f5: "\<not> isl (json_Marshal_ptr ''*sarif.ExternalPropertyFileReference'' (ExternalPropertyFileReference_MarshalJSON scn ord) (ExternalPropertyFileReferences.ExternalizedProperties strct)) \<and>
      json_Unmarshal_ptr (ExternalPropertyFileReference_UnmarshalJSON ord') (projr (json_Marshal_ptr ''*sarif.ExternalPropertyFileReference'' (ExternalPropertyFileReference_MarshalJSON scn ord) (ExternalPropertyFileReferences.ExternalizedProperties strct))) = Inr (ExternalPropertyFileReferences.ExternalizedProperties strct)"
    by (rule round_tripsD [OF round_trips_ptr [OF ExternalPropertyFileReference_round_trips]]) (use v' in simp)
  have f6: "\<not> isl (json_Marshal_slice (json_Marshal_ptr ''*sarif.ExternalPropertyFileReference'' (ExternalPropertyFileReference_MarshalJSON scn ord)) (ExternalPropertyFileReferences.Graphs strct)) \<and>
      json_Unmarshal_slice (json_Unmarshal_ptr (ExternalPropertyFileReference_UnmarshalJSON ord')) (projr (json_Marshal_slice (json_Marshal_ptr ''*sarif.ExternalPropertyFileReference'' (ExternalPropertyFileReference_MarshalJSON scn ord)) (ExternalPropertyFileReferences.Graphs strct))) = Inr (ExternalPropertyFileReferences.Graphs strct)"
    by (rule round_tripsD [OF round_trips_slice [OF round_trips_ptr [OF ExternalPropertyFileReference_round_trips]]]) (use v' in simp)
  have f7: "\<not> isl (json_Marshal_slice (json_Marshal_ptr ''*sarif.ExternalPropertyFileReference'' (ExternalPropertyFileReference_MarshalJSON scn ord)) (ExternalPropertyFileReferences.Invocations strct)) \<and>
      json_Unmarshal_slice (json_Unmarshal_ptr (ExternalPropertyFileReference_UnmarshalJSON ord')) (projr (json_Marshal_slice (json_Marshal_ptr ''*sarif.ExternalPropertyFileReference'' (ExternalPropertyFileReference_MarshalJSON scn ord)) (ExternalPropertyFileReferences.Invocations strct))) = Inr (ExternalPropertyFileReferences.Invocations strct)"
    by (rule round_tripsD [OF round_trips_slice [OF round_trips_ptr [OF ExternalPropertyFileReference_round_trips]]]) (use v' in simp)
  have f8: "\<not> isl (json_Marshal_slice (json_Marshal_ptr ''*sarif.ExternalPropertyFileReference'' (ExternalPropertyFileReference_MarshalJSON scn ord)) (ExternalPropertyFileReferences.LogicalLocations strct)) \<and>
      json_Unmarshal_slice (json_Unmarshal_ptr (ExternalPropertyFileReference_UnmarshalJSON ord')) (projr (json_Marshal_slice (json_Marshal_ptr ''*sarif.ExternalPropertyFileReference'' (ExternalPropertyFileReference_MarshalJSON scn ord)) (ExternalPropertyFileReferences.LogicalLocations strct))) = Inr (ExternalPropertyFileReferences.LogicalLocations strct)"
    by (rule round_tripsD [OF round_trips_slice [OF round_trips_ptr [OF ExternalPropertyFileReference_round_trips]]]) (use v' in simp)
  have f9: "\<not> isl (json_Marshal_slice (json_Marshal_ptr ''*sarif.ExternalPropertyFileReference'' (ExternalPropertyFileReference_MarshalJSON scn ord)) (ExternalPropertyFileReferences.Policies strct)) \<and>
      json_Unmarshal_slice (json_Unmarshal_ptr (ExternalPropertyFileReference_UnmarshalJSON ord')) (projr (json_Marshal_slice (json_Marshal_ptr ''*sarif.ExternalPropertyFileReference'' (ExternalPropertyFileReference_MarshalJSON scn ord)) (ExternalPropertyFileReferences.Policies strct))) = Inr (ExternalPropertyFileReferences.Policies strct)"
    by (rule round_tripsD [OF round_trips_slice [OF round_trips_ptr [OF ExternalPropertyFileReference_round_trips]]]) (use v' in simp)
  have f10: "\<not> isl (json_Marshal_bytes ''*sarif.PropertyBag'' (PropertyBag_MarshalJSON scn ord) (ExternalPropertyFileReferences.Properties strct)) \<and>
      json_Unmarshal_ptr (PropertyBag_UnmarshalJSON ord') (projr (json_Marshal_bytes ''*sarif.PropertyBag'' (PropertyBag_MarshalJSON scn ord) (ExternalPropertyFileReferences.Properties strct))) = Inr (ExternalPropertyFileReferences.Properties strct)"
    by (rule round_tripsD [OF PropertyBag_field_round_trips]) (use v' in simp)
  have f11: "\<not> isl (json_Marshal_slice (json_Marshal_ptr ''*sarif.ExternalPropertyFileReference'' (ExternalPropertyFileReference_MarshalJSON scn ord)) (ExternalPropertyFileReferences.Results strct)) \<and>
      json_Unmarshal_slice (json_Unmarshal_ptr (ExternalPropertyFileReference_UnmarshalJSON ord')) (projr (json_Marshal_slice (json_Marshal_ptr ''*sarif.ExternalPropertyFileReference'' (ExternalPropertyFileReference_MarshalJSON scn ord)) (ExternalPropertyFileReferences.Results strct))) = Inr (ExternalPropertyFileReferences.Results strct)"
    by (rule round_tripsD [OF round_trips_slice [OF round_trips_ptr [OF ExternalPropertyFileReference_round_trips]]]) (use v' in simp)
  have f12: "\<not> isl (json_Marshal_slice (json_Marshal_ptr ''*sarif.ExternalPropertyFileReference'' (ExternalPropertyFileReference_MarshalJSON scn ord)) (ExternalPropertyFileReferences.Taxonomies strct)) \<and>
      json_Unmarshal_slice (json_Unmarshal_ptr (ExternalPropertyFileReference_UnmarshalJSON ord')) (projr (json_Marshal_slice (json_Marshal_ptr ''*sarif.ExternalPropertyFileReference'' (ExternalPropertyFileReference_MarshalJSON scn ord)) (ExternalPropertyFileReferences.Taxonomies strct))) = Inr (ExternalPropertyFileReferences.Taxonomies strct)"
    by (rule round_tripsD [OF round_trips_slice [OF round_trips_ptr [OF ExternalPropertyFileReference_round_trips]]]) (use v' in simp)
  have f13: "\<not> isl (json_Marshal_slice (json_Marshal_ptr ''*sarif.ExternalPropertyFileReference'' (ExternalPropertyFileReference_MarshalJSON scn ord)) (ExternalPropertyFileReferences.ThreadFlowLocations strct)) \<and>
      json_Unmarshal_slice (json_Unmarshal_ptr (ExternalPropertyFileReference_UnmarshalJSON ord')) (projr (json_Marshal_slice (json_Marshal_ptr ''*sarif.ExternalPropertyFileReference'' (ExternalPropertyFileReference_MarshalJSON scn ord)) (ExternalPropertyFileReferences.ThreadFlowLocations strct))) = Inr (ExternalPropertyFileReferences.ThreadFlowLocations strct)"
    by (rule round_tripsD [OF round_trips_slice [OF round_trips_ptr [OF ExternalPropertyFileReference_round_trips]]]) (use v' in simp)
  have f14: "\<not> isl (json_Marshal_slice (json_Marshal_ptr ''*sarif.ExternalPropertyFileReference'' (ExternalPropertyFileReference_MarshalJSON scn ord)) (ExternalPropertyFileReferences.Translations strct)) \<and>
      json_Unmarshal_slice (json_Unmarshal_ptr (ExternalPropertyFileReference_UnmarshalJSON ord')) (projr (json_Marshal_slice (json_Marshal_ptr ''*sarif.ExternalPropertyFileReference'' (ExternalPropertyFileReference_MarshalJSON scn ord)) (ExternalPropertyFileReferences.Translations strct))) = Inr (ExternalPropertyFileReferences.Translations strct)"
    by (rule round_tripsD [OF round_trips_slice [OF round_trips_ptr [OF ExternalPropertyFileReference_round_trips]]]) (use v' in simp)
  have f15: "\<not> isl (json_Marshal_slice (json_Marshal_ptr ''*sarif.ExternalPropertyFileReference'' (ExternalPropertyFileReference_MarshalJSON scn ord)) (ExternalPropertyFileReferences.WebRequests strct)) \<and>
      json_Unmarshal_slice (json_Unmarshal_ptr (ExternalPropertyFileReference_UnmarshalJSON ord')) (projr (json_Marshal_slice (json_Marshal_ptr ''*sarif.ExternalPropertyFileReference'' (ExternalPropertyFileReference_MarshalJSON scn ord)) (ExternalPropertyFileReferences.WebRequests strct))) = Inr (ExternalPropertyFileReferences.WebRequests strct)"
    by (rule round_tripsD [OF round_trips_slice [OF round_trips_ptr [OF ExternalPropertyFileReference_round_trips]]]) (use v' in simp)
  have f16: "\<not> isl (json_Marshal_slice (json_Marshal_ptr ''*sarif.ExternalPropertyFileReference'' (ExternalPropertyFileReference_MarshalJSON scn ord)) (ExternalPropertyFileReferences.WebResponses strct)) \<and>
      json_Unmarshal_slice (json_Unmarshal_ptr (ExternalPropertyFileReference_UnmarshalJSON ord')) (projr (json_Marshal_slice (json_Marshal_ptr ''*sarif.ExternalPropertyFileReference'' (ExternalPropertyFileReference_MarshalJSON scn ord)) (ExternalPropertyFileReferences.WebResponses strct))) = Inr (ExternalPropertyFileReferences.WebResponses strct)"
    by (rule round_tripsD [OF round_trips_slice [OF round_trips_ptr [OF ExternalPropertyFileReference_round_trips]]]) (use v' in simp)
  note fs = f0 f1 f2 f3 f4 f5 f6 f7 f8 f9 f10 f11 f12 f13 f14 f15 f16
  have rs: "?rs =
     [(''addresses'', json_Marshal_slice (json_Marshal_ptr ''*sarif.ExternalPropertyFileReference'' (ExternalPropertyFileReference_MarshalJSON scn ord)) (ExternalPropertyFileReferences.Addresses strct)),
      (''artifacts'', json_Marshal_slice (json_Marshal_ptr ''*sarif.ExternalPropertyFileReference'' (ExternalPropertyFileReference_MarshalJSON scn ord)) (ExternalPropertyFileReferences.Artifacts strct)),
      (''conversion'', json_Marshal_ptr ''*sarif.ExternalPropertyFileReference'' (ExternalPropertyFileReference_MarshalJSON scn ord) (ExternalPropertyFileReferences.Conversion strct)),
      (''driver'', json_Marshal_ptr ''*sarif.ExternalPropertyFileReference'' (ExternalPropertyFileReference_MarshalJSON scn ord) (ExternalPropertyFileReferences.Driver strct)),
      (''extensions'', json_Marshal_slice (json_Marshal_ptr ''*sarif.ExternalPropertyFileReference'' (ExternalPropertyFileReference_MarshalJSON scn ord)) (ExternalPropertyFileReferences.Extensions strct)),
      (''externalizedProperties'', json_Marshal_ptr ''*sarif.ExternalPropertyFileReference'' (ExternalPropertyFileReference_MarshalJSON scn ord) (ExternalPropertyFileReferences.ExternalizedProperties strct)),
      (''graphs'', json_Marshal_slice (json_Marshal_ptr ''*sarif.ExternalPropertyFileReference'' (ExternalPropertyFileReference_MarshalJSON scn ord)) (ExternalPropertyFileReferences.Graphs strct)),
      (''invocations'', json_Marshal_slice (json_Marshal_ptr ''*sarif.ExternalPropertyFileReference'' (ExternalPropertyFileReference_MarshalJSON scn ord)) (ExternalPropertyFileReferences.Invocations strct)),
      (''logicalLocations'', json_Marshal_slice (json_Marshal_ptr ''*sarif.ExternalPropertyFileReference'' (ExternalPropertyFileReference_MarshalJSON scn ord)) (ExternalPropertyFileReferences.LogicalLocations strct)),
      (''policies'', json_Marshal_slice (json_Marshal_ptr ''*sarif.ExternalPropertyFileReference'' (ExternalPropertyFileReference_MarshalJSON scn ord)) (ExternalPropertyFileReferences.Policies strct)),
      (''properties'', json_Marshal_bytes ''*sarif.PropertyBag'' (PropertyBag_MarshalJSON scn ord) (ExternalPropertyFileReferences.Properties strct)),
      (''results'', json_Marshal_slice (json_Marshal_ptr ''*sarif.ExternalPropertyFileReference'' (ExternalPropertyFileReference_MarshalJSON scn ord)) (ExternalPropertyFileReferences.Results strct)),
      (''taxonomies'', json_Marshal_slice (json_Marshal_ptr ''*sarif.ExternalPropertyFileReference'' (ExternalPropertyFileReference_MarshalJSON scn ord)) (ExternalPropertyFileReferences.Taxonomies strct)),
      (''threadFlowLocations'', json_Marshal_slice (json_Marshal_ptr ''*sarif.ExternalPropertyFileReference'' (ExternalPropertyFileReference_MarshalJSON scn ord)) (ExternalPropertyFileReferences.ThreadFlowLocations strct)),
      (''translations'', json_Marshal_slice (json_Marshal_ptr ''*sarif.ExternalPropertyFileReference'' (ExternalPropertyFileReference_MarshalJSON scn ord)) (ExternalPropertyFileReferences.Translations strct)),
      (''webRequests'', json_Marshal_slice (json_Marshal_ptr ''*sarif.ExternalPropertyFileReference'' (ExternalPropertyFileReference_MarshalJSON scn ord)) (ExternalPropertyFileReferences.WebRequests strct)),
      (''webResponses'', json_Marshal_slice (json_Marshal_ptr ''*sarif.ExternalPropertyFileReference'' (ExternalPropertyFileReference_MarshalJSON scn ord)) (ExternalPropertyFileReferences.WebResponses strct))]"
    by (auto simp add: ExternalPropertyFileReferences_results_def)
  have keys: "map fst ?rs = ExternalPropertyFileReferences_keys"
    by (simp add: ExternalPropertyFileReferences_results_def ExternalPropertyFileReferences_keys_def)
  then have dist: "distinct (map fst ?rs)"
    by (simp only: ExternalPropertyFileReferences_keys_distinct)
  have ok: "list_all (\<lambda>e. \<not> isl (snd e)) ?rs"
    unfolding rs by (simp only: list.pred_inject snd_conv fs simp_thms)
  then have enc: "ExternalPropertyFileReferences_MarshalJSON scn ord strct = Inr (JObj ?kvs)"
    by (simp add: ExternalPropertyFileReferences_MarshalJSON_results [of scn ord strct] object_emit_all_eq_Inr)
  have l0: "map_of (rev ?kvs) ''addresses'' = Some (projr (json_Marshal_slice (json_Marshal_ptr ''*sarif.ExternalPropertyFileReference'' (ExternalPropertyFileReference_MarshalJSON scn ord)) (ExternalPropertyFileReferences.Addresses strct)))"
    by (rule written_lookup [OF dist]) (subst rs, intro list.set_intros)
  have l1: "map_of (rev ?kvs) ''artifacts'' = Some (projr (json_Marshal_slice (json_Marshal_ptr ''*sarif.ExternalPropertyFileReference'' (ExternalPropertyFileReference_MarshalJSON scn ord)) (ExternalPropertyFileReferences.Artifacts strct)))"
    by (rule written_lookup [OF dist]) (subst rs, intro list.set_intros)
  have l2: "map_of (rev ?kvs) ''conversion'' = Some (projr (json_Marshal_ptr ''*sarif.ExternalPropertyFileReference'' (ExternalPropertyFileReference_MarshalJSON scn ord) (ExternalPropertyFileReferences.Conversion strct)))"
    by (rule written_lookup [OF dist]) (subst rs, intro list.set_intros)
  have l3: "map_of (rev ?kvs) ''driver'' = Some (projr (json_Marshal_ptr ''*sarif.ExternalPropertyFileReference'' (ExternalPropertyFileReference_MarshalJSON scn ord) (ExternalPropertyFileReferences.Driver strct)))"
    by (rule written_lookup [OF dist]) (subst rs, intro list.set_intros)
  have l4: "map_of (rev ?kvs) ''extensions'' = Some (projr (json_Marshal_slice (json_Marshal_ptr ''*sarif.ExternalPropertyFileReference'' (ExternalPropertyFileReference_MarshalJSON scn ord)) (ExternalPropertyFileReferences.Extensions strct)))"
    by (rule written_lookup [OF dist]) (subst rs, intro list.set_intros)
  have l5: "map_of (rev ?kvs) ''externalizedProperties'' = Some (projr (json_Marshal_ptr ''*sarif.ExternalPropertyFileReference'' (ExternalPropertyFileReference_MarshalJSON scn ord) (ExternalPropertyFileReferences.ExternalizedProperties strct)))"
    by (rule written_lookup [OF dist]) (subst rs, intro list.set_intros)
  have l6: "map_of (rev ?kvs) ''graphs'' = Some (projr (json_Marshal_slice (json_Marshal_ptr ''*sarif.ExternalPropertyFileReference'' (ExternalPropertyFileReference_MarshalJSON scn ord)) (ExternalPropertyFileReferences.Graphs strct)))"
    by (rule written_lookup [OF dist]) (subst rs, intro list.set_intros)
  have l7: "map_of (rev ?kvs) ''invocations'' = Some (projr (json_Marshal_slice (json_Marshal_ptr ''*sarif.ExternalPropertyFileReference'' (ExternalPropertyFileReference_MarshalJSON scn ord)) (ExternalPropertyFileReferences.Invocations strct)))"
    by (rule written_lookup [OF dist]) (subst rs, intro list.set_intros)
  have l8: "map_of (rev ?kvs) ''logicalLocations'' = Some (projr (json_Marshal_slice (json_Marshal_ptr ''*sarif.ExternalPropertyFileReference'' (ExternalPropertyFileReference_MarshalJSON scn ord)) (ExternalPropertyFileReferences.LogicalLocations strct)))"
    by (rule written_lookup [OF dist]) (subst rs, intro list.set_intros)
  have l9: "map_of (rev ?kvs) ''policies'' = Some (projr (json_Marshal_slice (json_Marshal_ptr ''*sarif.ExternalPropertyFileReference'' (ExternalPropertyFileReference_MarshalJSON scn ord)) (ExternalPropertyFileReferences.Policies strct)))"
    by (rule written_lookup [OF dist]) (subst rs, intro list.set_intros)
  have l10: "map_of (rev ?kvs) ''properties'' = Some (projr (json_Marshal_bytes ''*sarif.PropertyBag'' (PropertyBag_MarshalJSON scn ord) (ExternalPropertyFileReferences.Properties strct)))"
    by (rule written_lookup [OF dist]) (subst rs, intro list.set_intros)
  have l11: "map_of (rev ?kvs) ''results'' = Some (projr (json_Marshal_slice (json_Marshal_ptr ''*sarif.ExternalPropertyFileReference'' (ExternalPropertyFileReference_MarshalJSON scn ord)) (ExternalPropertyFileReferences.Results strct)))"
    by (rule written_lookup [OF dist]) (subst rs, intro list.set_intros)
  have l12: "map_of (rev ?kvs) ''taxonomies'' = Some (projr (json_Marshal_slice (json_Marshal_ptr ''*sarif.ExternalPropertyFileReference'' (ExternalPropertyFileReference_MarshalJSON scn ord)) (ExternalPropertyFileReferences.Taxonomies strct)))"
    by (rule written_lookup [OF dist]) (subst rs, intro list.set_intros)
  have l13: "map_of (rev ?kvs) ''threadFlowLocations'' = Some (projr (json_Marshal_slice (json_Marshal_ptr ''*sarif.ExternalPropertyFileReference'' (ExternalPropertyFileReference_MarshalJSON scn ord)) (ExternalPropertyFileReferences.ThreadFlowLocations strct)))"
    by (rule written_lookup [OF dist]) (subst rs, intro list.set_intros)
  have l14: "map_of (rev ?kvs) ''translations'' = Some (projr (json_Marshal_slice (json_Marshal_ptr ''*sarif.ExternalPropertyFileReference'' (ExternalPropertyFileReference_MarshalJSON scn ord)) (ExternalPropertyFileReferences.Translations strct)))"
    by (rule written_lookup [OF dist]) (subst rs, intro list.set_intros)
  have l15: "map_of (rev ?kvs) ''webRequests'' = Some (projr (json_Marshal_slice (json_Marshal_ptr ''*sarif.ExternalPropertyFileReference'' (ExternalPropertyFileReference_MarshalJSON scn ord)) (ExternalPropertyFileReferences.WebRequests strct)))"
    by (rule written_lookup [OF dist]) (subst rs, intro list.set_intros)
  have l16: "map_of (rev ?kvs) ''webResponses'' = Some (projr (json_Marshal_slice (json_Marshal_ptr ''*sarif.ExternalPropertyFileReference'' (ExternalPropertyFileReference_MarshalJSON scn ord)) (ExternalPropertyFileReferences.WebResponses strct)))"
    by (rule written_lookup [OF dist]) (subst rs, intro list.set_intros)
  have dec: "ExternalPropertyFileReferences_decodes ord' (map_of (rev ?kvs)) strct"
    unfolding ExternalPropertyFileReferences_decodes_def l0 l1 l2 l3 l4 l5 l6 l7 l8 l9 l10 l11 l12 l13 l14 l15 l16
    by (simp only: field_ok_Some fs written_dom keys subset_refl option.simps simp_thms)
  then have "ExternalPropertyFileReferences_UnmarshalJSON ord' (JObj ?kvs) = Inr strct"
    by (simp only: ExternalPropertyFileReferences_decode_iff)
  with enc show "rt_object (ExternalPropertyFileReferences_MarshalJSON scn ord) (ExternalPropertyFileReferences_UnmarshalJSON ord') strct"
    unfolding rt_object_def by blast
qed

definition ExternalPropertyFileReferences_small_bags :: "ExternalPropertyFileReferences \<Rightarrow> bool" where
  "ExternalPropertyFileReferences_small_bags strct \<longleftrightarrow>
     slice_all (ptr_all ExternalPropertyFileReference_small_bags) (ExternalPropertyFileReferences.Addresses strct) \<and>
     slice_all (ptr_all ExternalPropertyFileReference_small_bags) (ExternalPropertyFileReferences.Artifacts strct) \<and>
     ptr_all ExternalPropertyFileReference_small_bags (ExternalPropertyFileReferences.Conversion strct) \<and>
     ptr_all ExternalPropertyFileReference_small_bags (ExternalPropertyFileReferences.Driver strct) \<and>
     slice_all (ptr_all ExternalPropertyFileReference_small_bags) (ExternalPropertyFileReferences.Extensions strct) \<and>
     ptr_all ExternalPropertyFileReference_small_bags (ExternalPropertyFileReferences.ExternalizedProperties strct) \<and>
     slice_all (ptr_all ExternalPropertyFileReference_small_bags) (ExternalPropertyFileReferences.Graphs strct) \<and>
     slice_all (ptr_all ExternalPropertyFileReference_small_bags) (ExternalPropertyFileReferences.Invocations strct) \<and>
     slice_all (ptr_all ExternalPropertyFileReference_small_bags) (ExternalPropertyFileReferences.LogicalLocations strct) \<and>
     slice_all (ptr_all ExternalPropertyFileReference_small_bags) (ExternalPropertyFileReferences.Policies strct) \<and>
     ptr_all PropertyBag_small_bags (ExternalPropertyFileReferences.Properties strct) \<and>
     slice_all (ptr_all ExternalPropertyFileReference_small_bags) (ExternalPropertyFileReferences.Results strct) \<and>
     slice_all (ptr_all ExternalPropertyFileReference_small_bags) (ExternalPropertyFileReferences.Taxonomies strct) \<and>
     slice_all (ptr_all ExternalPropertyFileReference_small_bags) (ExternalPropertyFileReferences.ThreadFlowLocations strct) \<and>
     slice_all (ptr_all ExternalPropertyFileReference_small_bags) (ExternalPropertyFileReferences.Translations strct) \<and>
     slice_all (ptr_all ExternalPropertyFileReference_small_bags) (ExternalPropertyFileReferences.WebRequests strct) \<and>
     slice_all (ptr_all ExternalPropertyFileReference_small_bags) (ExternalPropertyFileReferences.WebResponses strct)"

lemma ExternalPropertyFileReferences_same_output:
  "same_output (ExternalPropertyFileReferences_MarshalJSON scn ord) (ExternalPropertyFileReferences_MarshalJSON scn ord') ExternalPropertyFileReferences_small_bags"
  unfolding same_output_def
proof (intro allI impI)
  fix strct assume v: "ExternalPropertyFileReferences_small_bags strct"
  note v' = v [unfolded ExternalPropertyFileReferences_small_bags_def]
  have e0: "json_Marshal_slice (json_Marshal_ptr ''*sarif.ExternalPropertyFileReference'' (ExternalPropertyFileReference_MarshalJSON scn ord)) (ExternalPropertyFileReferences.Addresses strct) =
      json_Marshal_slice (json_Marshal_ptr ''*sarif.ExternalPropertyFileReference'' (ExternalPropertyFileReference_MarshalJSON scn ord')) (ExternalPropertyFileReferences.Addresses strct)"
    by (rule same_outputD [OF same_output_slice [OF same_output_ptr [OF ExternalPropertyFileReference_same_output]]]) (use v' in simp)
  have e1: "json_Marshal_slice (json_Marshal_ptr ''*sarif.ExternalPropertyFileReference'' (ExternalPropertyFileReference_MarshalJSON scn ord)) (ExternalPropertyFileReferences.Artifacts strct) =
      json_Marshal_slice (json_Marshal_ptr ''*sarif.ExternalPropertyFileReference'' (ExternalPropertyFileReference_MarshalJSON scn ord')) (ExternalPropertyFileReferences.Artifacts strct)"
    by (rule same_outputD [OF same_output_slice [OF same_output_ptr [OF ExternalPropertyFileReference_same_output]]]) (use v' in simp)
  have e2: "json_Marshal_ptr ''*sarif.ExternalPropertyFileReference'' (ExternalPropertyFileReference_MarshalJSON scn ord) (ExternalPropertyFileReferences.Conversion strct) =
      json_Marshal_ptr ''*sarif.ExternalPropertyFileReference'' (ExternalPropertyFileReference_MarshalJSON scn ord') (ExternalPropertyFileReferences.Conversion strct)"
    by (rule same_outputD [OF same_output_ptr [OF ExternalPropertyFileReference_same_output]]) (use v' in simp)
  have e3: "json_Marshal_ptr ''*sarif.ExternalPropertyFileReference'' (ExternalPropertyFileReference_MarshalJSON scn ord) (ExternalPropertyFileReferences.Driver strct) =
      json_Marshal_ptr ''*sarif.ExternalPropertyFileReference'' (ExternalPropertyFileReference_MarshalJSON scn ord') (ExternalPropertyFileReferences.Driver strct)"
    by (rule same_outputD [OF same_output_ptr [OF ExternalPropertyFileReference_same_output]]) (use v' in simp)
  have e4: "json_Marshal_slice (json_Marshal_ptr ''*sarif.ExternalPropertyFileReference'' (ExternalPropertyFileReference_MarshalJSON scn ord)) (ExternalPropertyFileReferences.Extensions strct) =
      json_Marshal_slice (json_Marshal_ptr ''*sarif.ExternalPropertyFileReference'' (ExternalPropertyFileReference_MarshalJSON scn ord')) (ExternalPropertyFileReferences.Extensions strct)"
    by (rule same_outputD [OF same_output_slice [OF same_output_ptr [OF ExternalPropertyFileReference_same_output]]]) (use v' in simp)
  have e5: "json_Marshal_ptr ''*sarif.ExternalPropertyFileReference'' (ExternalPropertyFileReference_MarshalJSON scn ord) (ExternalPropertyFileReferences.ExternalizedProperties strct) =
      json_Marshal_ptr ''*sarif.ExternalPropertyFileReference'' (ExternalPropertyFileReference_MarshalJSON scn ord') (ExternalPropertyFileReferences.ExternalizedProperties strct)"
    by (rule same_outputD [OF same_output_ptr [OF ExternalPropertyFileReference_same_output]]) (use v' in simp)
  have e6: "json_Marshal_slice (json_Marshal_ptr ''*sarif.ExternalPropertyFileReference'' (ExternalPropertyFileReference_MarshalJSON scn ord)) (ExternalPropertyFileReferences.Graphs strct) =
      json_Marshal_slice (json_Marshal_ptr ''*sarif.ExternalPropertyFileReference'' (ExternalPropertyFileReference_MarshalJSON scn ord')) (ExternalPropertyFileReferences.Graphs strct)"
    by (rule same_outputD [OF same_output_slice [OF same_output_ptr [OF ExternalPropertyFileReference_same_output]]]) (use v' in simp)
  have e7: "json_Marshal_slice (json_Marshal_ptr ''*sarif.ExternalPropertyFileReference'' (ExternalPropertyFileReference_MarshalJSON scn ord)) (ExternalPropertyFileReferences.Invocations strct) =
      json_Marshal_slice (json_Marshal_ptr ''*sarif.ExternalPropertyFileReference'' (ExternalPropertyFileReference_MarshalJSON scn ord')) (ExternalPropertyFileReferences.Invocations strct)"
    by (rule same_outputD [OF same_output_slice [OF same_output_ptr [OF ExternalPropertyFileReference_same_output]]]) (use v' in simp)
  have e8: "json_Marshal_slice (json_Marshal_ptr ''*sarif.ExternalPropertyFileReference'' (ExternalPropertyFileReference_MarshalJSON scn ord)) (ExternalPropertyFileReferences.LogicalLocations strct) =
      json_Marshal_slice (json_Marshal_ptr ''*sarif.ExternalPropertyFileReference'' (ExternalPropertyFileReference_MarshalJSON scn ord')) (ExternalPropertyFileReferences.LogicalLocations strct)"
    by (rule same_outputD [OF same_output_slice [OF same_output_ptr [OF ExternalPropertyFileReference_same_output]]]) (use v' in simp)
  have e9: "json_Marshal_slice (json_Marshal_ptr ''*sarif.ExternalPropertyFileReference'' (ExternalPropertyFileReference_MarshalJSON scn ord)) (ExternalPropertyFileReferences.Policies strct) =
      json_Marshal_slice (json_Marshal_ptr ''*sarif.ExternalPropertyFileReference'' (ExternalPropertyFileReference_MarshalJSON scn ord')) (ExternalPropertyFileReferences.Policies strct)"
    by (rule same_outputD [OF same_output_slice [OF same_output_ptr [OF ExternalPropertyFileReference_same_output]]]) (use v' in simp)
  have e10: "json_Marshal_bytes ''*sarif.PropertyBag'' (PropertyBag_MarshalJSON scn ord) (ExternalPropertyFileReferences.Properties strct) =
      json_Marshal_bytes ''*sarif.PropertyBag'' (PropertyBag_MarshalJSON scn ord') (ExternalPropertyFileReferences.Properties strct)"
    by (rule same_outputD [OF PropertyBag_field_same_output]) (use v' in simp)
  have e11: "json_Marshal_slice (json_Marshal_ptr ''*sarif.ExternalPropertyFileReference'' (ExternalPropertyFileReference_MarshalJSON scn ord)) (ExternalPropertyFileReferences.Results strct) =
      json_Marshal_slice (json_Marshal_ptr ''*sarif.ExternalPropertyFileReference'' (ExternalPropertyFileReference_MarshalJSON scn ord')) (ExternalPropertyFileReferences.Results strct)"
    by (rule same_outputD [OF same_output_slice [OF same_output_ptr [OF ExternalPropertyFileReference_same_output]]]) (use v' in simp)
  have e12: "json_Marshal_slice (json_Marshal_ptr ''*sarif.ExternalPropertyFileReference'' (ExternalPropertyFileReference_MarshalJSON scn ord)) (ExternalPropertyFileReferences.Taxonomies strct) =
      json_Marshal_slice (json_Marshal_ptr ''*sarif.ExternalPropertyFileReference'' (ExternalPropertyFileReference_MarshalJSON scn ord')) (ExternalPropertyFileReferences.Taxonomies strct)"
    by (rule same_outputD [OF same_output_slice [OF same_output_ptr [OF ExternalPropertyFileReference_same_output]]]) (use v' in simp)
  have e13: "json_Marshal_slice (json_Marshal_ptr ''*sarif.ExternalPropertyFileReference'' (ExternalPropertyFileReference_MarshalJSON scn ord)) (ExternalPropertyFileReferences.ThreadFlowLocations strct) =
      json_Marshal_slice (json_Marshal_ptr ''*sarif.ExternalPropertyFileReference'' (ExternalPropertyFileReference_MarshalJSON scn ord')) (ExternalPropertyFileReferences.ThreadFlowLocations strct)"
    by (rule same_outputD [OF same_output_slice [OF same_output_ptr [OF ExternalPropertyFileReference_same_output]]]) (use v' in simp)
  have e14: "json_Marshal_slice (json_Marshal_ptr ''*sarif.ExternalPropertyFileReference'' (ExternalPropertyFileReference_MarshalJSON scn ord)) (ExternalPropertyFileReferences.Translations strct) =
      json_Marshal_slice (json_Marshal_ptr ''*sarif.ExternalPropertyFileReference'' (ExternalPropertyFileReference_MarshalJSON scn ord')) (ExternalPropertyFileReferences.Translations strct)"
    by (rule same_outputD [OF same_output_slice [OF same_output_ptr [OF ExternalPropertyFileReference_same_output]]]) (use v' in simp)
  have e15: "json_Marshal_slice (json_Marshal_ptr ''*sarif.ExternalPropertyFileReference'' (ExternalPropertyFileReference_MarshalJSON scn ord)) (ExternalPropertyFileReferences.WebRequests strct) =
      json_Marshal_slice (json_Marshal_ptr ''*sarif.ExternalPropertyFileReference'' (ExternalPropertyFileReference_MarshalJSON scn ord')) (ExternalPropertyFileReferences.WebRequests strct)"
    by (rule same_outputD [OF same_output_slice [OF same_output_ptr [OF ExternalPropertyFileReference_same_output]]]) (use v' in simp)
  have e16: "json_Marshal_slice (json_Marshal_ptr ''*sarif.ExternalPropertyFileReference'' (ExternalPropertyFileReference_MarshalJSON scn ord)) (ExternalPropertyFileReferences.WebResponses strct) =
      json_Marshal_slice (json_Marshal_ptr ''*sarif.ExternalPropertyFileReference'' (ExternalPropertyFileReference_MarshalJSON scn ord')) (ExternalPropertyFileReferences.WebResponses strct)"
    by (rule same_outputD [OF same_output_slice [OF same_output_ptr [OF ExternalPropertyFileReference_same_output]]]) (use v' in simp)
  show "ExternalPropertyFileReferences_MarshalJSON scn ord strct = ExternalPropertyFileReferences_MarshalJSON scn ord' strct"
    by (simp only: ExternalPropertyFileReferences_MarshalJSON_def e0 e1 e2 e3 e4 e5 e6 e7 e8 e9 e10 e11 e12 e13 e14 e15 e16)
qed

lemma ExternalPropertyFileReferences_writes_keys: "writes_keys (ExternalPropertyFileReferences_MarshalJSON scn ord) ExternalPropertyFileReferences_keys"
  unfolding writes_keys_def by (intro allI impI) (erule ExternalPropertyFileReferences_keys_written)

lemma ExternalPropertyFileReferences_unknown_key:
  assumes new: "k \<notin> set ExternalPropertyFileReferences_keys" and key: "k \<in> fst ` set kvs"
    and rest: "ExternalPropertyFileReferences_UnmarshalJSON ord (JObj (filter (\<lambda>e. fst e \<noteq> k) kvs)) = Inr strct"
  shows "ExternalPropertyFileReferences_UnmarshalJSON ord (JObj kvs) = Inl (not_allowed k)"
proof -
  have rej: "switch k (ExternalPropertyFileReferences_cases ord v) (reject k) s = Inl (not_allowed k)" for v s
    by (rule switch_rejects) (simp only: ExternalPropertyFileReferences_cases_keys new not_False_eq_True)
  from rest obtain t where
    "range_loop (\<lambda>k v. switch k (ExternalPropertyFileReferences_cases ord v) (reject k)) (members ord (filter (\<lambda>e. fst e \<noteq> k) kvs)) ExternalPropertyFileReferences_zero = Inr t"
    by (cases "range_loop (\<lambda>k v. switch k (ExternalPropertyFileReferences_cases ord v) (reject k)) (members ord (filter (\<lambda>e. fst e \<noteq> k) kvs)) ExternalPropertyFileReferences_zero")
       (simp_all add: ExternalPropertyFileReferences_UnmarshalJSON_def members_def)
  from unknown_key_named [OF ExternalPropertyFileReferences_regular rej key this]
  show ?thesis by (simp add: ExternalPropertyFileReferences_UnmarshalJSON_def members_def)
qed

lemma ExternalPropertyFileReferences_unknown_key_fails:
  assumes "k \<notin> set ExternalPropertyFileReferences_keys" and "k \<in> fst ` set kvs"
  shows "isl (ExternalPropertyFileReferences_UnmarshalJSON ord (JObj kvs))"
proof (cases "ExternalPropertyFileReferences_UnmarshalJSON ord (JObj kvs)")
  case (Inr strct)
  then have "dom (map_of (rev kvs)) \<subseteq> set ExternalPropertyFileReferences_keys"
    by (simp only: ExternalPropertyFileReferences_decode_iff ExternalPropertyFileReferences_decodesD(1))
  with assms show ?thesis by (auto simp: dom_map_of_conv_image_fst)
qed simp

lemma ExternalPropertyFileReferences_rejects_unknown_keys: "rejects_unknown_keys (ExternalPropertyFileReferences_UnmarshalJSON ord) ExternalPropertyFileReferences_keys"
  by (rule rejects_unknown_keysI) (erule (1) ExternalPropertyFileReferences_unknown_key_fails, erule (2) ExternalPropertyFileReferences_unknown_key)

subsection \<open>SpecialLocations: decoding and encoding\<close>

definition SpecialLocations_keys :: "string list" where
  "SpecialLocations_keys = [''displayBase'', ''properties'']"

definition SpecialLocations_decodes :: "order \<Rightarrow> (string \<rightharpoonup> json) \<Rightarrow> SpecialLocations \<Rightarrow> bool" where
  "SpecialLocations_decodes ord m strct \<longleftrightarrow>
     dom m \<subseteq> set SpecialLocations_keys \<and>
     field_ok (json_Unmarshal_ptr (ArtifactLocation_UnmarshalJSON ord)) (m ''displayBase'') None (SpecialLocations.DisplayBase strct) \<and>
     field_ok (json_Unmarshal_ptr (PropertyBag_UnmarshalJSON ord)) (m ''properties'') None (SpecialLocations.Properties strct)"

lemma SpecialLocations_cases_keys: "fst ` set (SpecialLocations_cases ord v) = set SpecialLocations_keys"
  by (rule keys_image) (simp add: SpecialLocations_cases_def SpecialLocations_keys_def)

lemma SpecialLocations_regular: "regular (\<lambda>k v. switch k (SpecialLocations_cases ord v) (reject k))"
  by (rule regular_switch) (simp add: SpecialLocations_cases_def)

lemma SpecialLocations_fields:
  "field_case (SpecialLocations_cases ord) SpecialLocations.DisplayBase ''displayBase'' (json_Unmarshal_ptr (ArtifactLocation_UnmarshalJSON ord))"
  "field_case (SpecialLocations_cases ord) SpecialLocations.Properties ''properties'' (json_Unmarshal_ptr (PropertyBag_UnmarshalJSON ord))"
  unfolding field_case_def SpecialLocations_cases_def
  by (simp_all add: writes_into writes_received keeps_into split_def)

lemma SpecialLocations_loop_sound:
  assumes loop: "range_loop (\<lambda>k v. switch k (SpecialLocations_cases ord v) (reject k)) (members ord kvs) SpecialLocations_zero = Inr strct"
  shows "dom (map_of (rev kvs)) \<subseteq> set SpecialLocations_keys \<and>
     field_ok (json_Unmarshal_ptr (ArtifactLocation_UnmarshalJSON ord)) (map_of (rev kvs) ''displayBase'') None (SpecialLocations.DisplayBase strct) \<and>
     field_ok (json_Unmarshal_ptr (PropertyBag_UnmarshalJSON ord)) (map_of (rev kvs) ''properties'') None (SpecialLocations.Properties strct)"
proof -
  have "fst ` set (members ord kvs) \<subseteq> set SpecialLocations_keys"
    by (rule loop_keys_known [OF loop]) (rule SpecialLocations_cases_keys)
  then have keys: "dom (map_of (rev kvs)) \<subseteq> set SpecialLocations_keys"
    by (simp add: dom_members [of kvs ord])
  note fld = field_after_loop [OF _ members_distinct loop, unfolded map_of_members]
  show ?thesis
    using keys fld [OF SpecialLocations_fields(1)] fld [OF SpecialLocations_fields(2)] 
    by (simp only: prod.case SpecialLocations_zero_def SpecialLocations.select_convs simp_thms)
qed

lemma SpecialLocations_decodesD:
  assumes "SpecialLocations_decodes ord m strct"
  shows "dom m \<subseteq> set SpecialLocations_keys"
    and "field_ok (json_Unmarshal_ptr (ArtifactLocation_UnmarshalJSON ord)) (m ''displayBase'') None (SpecialLocations.DisplayBase strct)"
    and "field_ok (json_Unmarshal_ptr (PropertyBag_UnmarshalJSON ord)) (m ''properties'') None (SpecialLocations.Properties strct)"
  using assms unfolding SpecialLocations_decodes_def by - (elim conjE, assumption)+

lemma SpecialLocations_decodes_unique:
  assumes "SpecialLocations_decodes ord m a" and "SpecialLocations_decodes ord m b"
  shows "a = b"
  apply (rule SpecialLocations.equality)
  apply (rule field_ok_unique [OF SpecialLocations_decodesD(2) [OF assms(1)] SpecialLocations_decodesD(2) [OF assms(2)]])
  apply (rule field_ok_unique [OF SpecialLocations_decodesD(3) [OF assms(1)] SpecialLocations_decodesD(3) [OF assms(2)]])
  apply simp
  done

lemma SpecialLocations_accepts:
  assumes "SpecialLocations_decodes ord m strct" and "m k = Some v"
  shows "accepting (switch k (SpecialLocations_cases ord v) (reject k))"
proof -
  from assms have "k \<in> set SpecialLocations_keys" by (auto simp: SpecialLocations_decodes_def)
  then have key: "k \<in> fst ` set (SpecialLocations_cases ord v)"
    by (simp only: SpecialLocations_cases_keys)
  have rows: "list_all (\<lambda>(c, h). m c = Some v \<longrightarrow> accepting h) (SpecialLocations_cases ord v)"
    unfolding SpecialLocations_cases_def list.pred_inject
    apply (rule conjI [OF accept_row [where m = m and v = v, OF SpecialLocations_decodesD(2) [OF assms(1)]]])
    apply (rule conjI [OF accept_row [where m = m and v = v, OF SpecialLocations_decodesD(3) [OF assms(1)]]])
    apply simp
    done
  show ?thesis by (rule rows_accept [OF rows assms(2) key])
qed

lemma SpecialLocations_decode_iff:
  "SpecialLocations_UnmarshalJSON ord (JObj kvs) = Inr strct \<longleftrightarrow>
   SpecialLocations_decodes ord (map_of (rev kvs)) strct"
proof
  assume "SpecialLocations_UnmarshalJSON ord (JObj kvs) = Inr strct"
  then have loop: "range_loop (\<lambda>k v. switch k (SpecialLocations_cases ord v) (reject k)) (members ord kvs) SpecialLocations_zero = Inr strct"
    by (auto simp: SpecialLocations_UnmarshalJSON_def members_def split: sum.splits)
  from SpecialLocations_loop_sound [OF loop]
  show "SpecialLocations_decodes ord (map_of (rev kvs)) strct"
    by (simp add: SpecialLocations_decodes_def)
next
  assume d: "SpecialLocations_decodes ord (map_of (rev kvs)) strct"
  have "\<exists>t. range_loop (\<lambda>k v. switch k (SpecialLocations_cases ord v) (reject k)) (members ord kvs) SpecialLocations_zero = Inr t"
  proof (rule loop_succeeds [OF SpecialLocations_regular])
    fix k v assume "(k, v) \<in> set (members ord kvs)"
    then have "map_of (rev kvs) k = Some v" by (rule member_lookup)
    from SpecialLocations_accepts [OF d this]
    show "accepting (switch k (SpecialLocations_cases ord v) (reject k))" .
  qed
  then obtain strct' where
    loop: "range_loop (\<lambda>k v. switch k (SpecialLocations_cases ord v) (reject k)) (members ord kvs) SpecialLocations_zero = Inr strct'" ..
  from SpecialLocations_loop_sound [OF loop]
  have d': "SpecialLocations_decodes ord (map_of (rev kvs)) strct'"
    by (simp add: SpecialLocations_decodes_def)
  from SpecialLocations_decodes_unique [OF d' d] have "strct' = strct" .
  with loop show "SpecialLocations_UnmarshalJSON ord (JObj kvs) = Inr strct"
    by (simp add: SpecialLocations_UnmarshalJSON_def members_def)
qed

definition SpecialLocations_results :: "scanner \<Rightarrow> order \<Rightarrow> SpecialLocations \<Rightarrow> (string \<times> (error + json)) list" where
  "SpecialLocations_results scn ord strct =
     [(''displayBase'', json_Marshal_ptr ''*sarif.ArtifactLocation'' (ArtifactLocation_MarshalJSON scn ord) (SpecialLocations.DisplayBase strct)),
      (''properties'', json_Marshal_bytes ''*sarif.PropertyBag'' (PropertyBag_MarshalJSON scn ord) (SpecialLocations.Properties strct))]"

lemma SpecialLocations_MarshalJSON_results:
  "SpecialLocations_MarshalJSON scn ord strct = object (emit_all (SpecialLocations_results scn ord strct))"
  by (simp add: SpecialLocations_MarshalJSON_def SpecialLocations_results_def emit_nilcheck)

lemma SpecialLocations_keys_written:
  "SpecialLocations_MarshalJSON scn ord strct = Inr j \<Longrightarrow> \<exists>kvs. j = JObj kvs \<and> map fst kvs = SpecialLocations_keys"
  using keys_written [of "SpecialLocations_results scn ord strct" j]
  by (simp add: SpecialLocations_MarshalJSON_results SpecialLocations_results_def SpecialLocations_keys_def)

definition SpecialLocations_encodable :: "scanner \<Rightarrow> order \<Rightarrow> SpecialLocations \<Rightarrow> bool" where
  "SpecialLocations_encodable scn ord strct \<longleftrightarrow>
     ptr_all (ArtifactLocation_encodable scn ord) (SpecialLocations.DisplayBase strct) \<and>
     ptr_all (PropertyBag_encodable scn ord) (SpecialLocations.Properties strct)"

lemma SpecialLocations_fails_unless: "fails_unless (SpecialLocations_MarshalJSON scn ord) (SpecialLocations_encodable scn ord)"
  unfolding fails_unless_def SpecialLocations_MarshalJSON_results SpecialLocations_results_def SpecialLocations_encodable_def isl_object_emit_all
  by (auto simp add: always_simps
      fails_unlessD [OF fails_unless_ptr [OF ArtifactLocation_fails_unless]]
      fails_unlessD [OF PropertyBag_field_fails_unless])

definition SpecialLocations_valid :: "SpecialLocations \<Rightarrow> bool" where
  "SpecialLocations_valid strct \<longleftrightarrow>
     ptr_all ArtifactLocation_valid (SpecialLocations.DisplayBase strct) \<and>
     ptr_all PropertyBag_valid (SpecialLocations.Properties strct)"

lemma SpecialLocations_keys_distinct: "distinct SpecialLocations_keys"
  by (simp add: SpecialLocations_keys_def)

lemma SpecialLocations_round_trips:
  "round_trips_object (SpecialLocations_MarshalJSON scn ord) (SpecialLocations_UnmarshalJSON ord') SpecialLocations_valid"
  unfolding round_trips_object_def
proof (intro allI impI)
  fix strct assume v: "SpecialLocations_valid strct"
  note v' = v [unfolded SpecialLocations_valid_def]
  let ?rs = "SpecialLocations_results scn ord strct"
  let ?kvs = "map (\<lambda>e. (fst e, projr (snd e))) ?rs"
  have f0: "\<not> isl (json_Marshal_ptr ''*sarif.ArtifactLocation'' (ArtifactLocation_MarshalJSON scn ord) (SpecialLocations.DisplayBase strct)) \<and>
      json_Unmarshal_ptr (ArtifactLocation_UnmarshalJSON ord') (projr (json_Marshal_ptr ''*sarif.ArtifactLocation'' (ArtifactLocation_MarshalJSON scn ord) (SpecialLocations.DisplayBase strct))) = Inr (SpecialLocations.DisplayBase strct)"
    by (rule round_tripsD [OF round_trips_ptr [OF ArtifactLocation_round_trips]]) (use v' in simp)
  have f1: "\<not> isl (json_Marshal_bytes ''*sarif.PropertyBag'' (PropertyBag_MarshalJSON scn ord) (SpecialLocations.Properties strct)) \<and>
      json_Unmarshal_ptr (PropertyBag_UnmarshalJSON ord') (projr (json_Marshal_bytes ''*sarif.PropertyBag'' (PropertyBag_MarshalJSON scn ord) (SpecialLocations.Properties strct))) = Inr (SpecialLocations.Properties strct)"
    by (rule round_tripsD [OF PropertyBag_field_round_trips]) (use v' in simp)
  note fs = f0 f1
  have rs: "?rs =
     [(''displayBase'', json_Marshal_ptr ''*sarif.ArtifactLocation'' (ArtifactLocation_MarshalJSON scn ord) (SpecialLocations.DisplayBase strct)),
      (''properties'', json_Marshal_bytes ''*sarif.PropertyBag'' (PropertyBag_MarshalJSON scn ord) (SpecialLocations.Properties strct))]"
    by (auto simp add: SpecialLocations_results_def)
  have keys: "map fst ?rs = SpecialLocations_keys"
    by (simp add: SpecialLocations_results_def SpecialLocations_keys_def)
  then have dist: "distinct (map fst ?rs)"
    by (simp only: SpecialLocations_keys_distinct)
  have ok: "list_all (\<lambda>e. \<not> isl (snd e)) ?rs"
    unfolding rs by (simp only: list.pred_inject snd_conv fs simp_thms)
  then have enc: "SpecialLocations_MarshalJSON scn ord strct = Inr (JObj ?kvs)"
    by (simp add: SpecialLocations_MarshalJSON_results [of scn ord strct] object_emit_all_eq_Inr)
  have l0: "map_of (rev ?kvs) ''displayBase'' = Some (projr (json_Marshal_ptr ''*sarif.ArtifactLocation'' (ArtifactLocation_MarshalJSON scn ord) (SpecialLocations.DisplayBase strct)))"
    by (rule written_lookup [OF dist]) (subst rs, intro list.set_intros)
  have l1: "map_of (rev ?kvs) ''properties'' = Some (projr (json_Marshal_bytes ''*sarif.PropertyBag'' (PropertyBag_MarshalJSON scn ord) (SpecialLocations.Properties strct)))"
    by (rule written_lookup [OF dist]) (subst rs, intro list.set_intros)
  have dec: "SpecialLocations_decodes ord' (map_of (rev ?kvs)) strct"
    unfolding SpecialLocations_decodes_def l0 l1
    by (simp only: field_ok_Some fs written_dom keys subset_refl option.simps simp_thms)
  then have "SpecialLocations_UnmarshalJSON ord' (JObj ?kvs) = Inr strct"
    by (simp only: SpecialLocations_decode_iff)
  with enc show "rt_object (SpecialLocations_MarshalJSON scn ord) (SpecialLocations_UnmarshalJSON ord') strct"
    unfolding rt_object_def by blast
qed

definition SpecialLocations_small_bags :: "SpecialLocations \<Rightarrow> bool" where
  "SpecialLocations_small_bags strct \<longleftrightarrow>
     ptr_all ArtifactLocation_small_bags (SpecialLocations.DisplayBase strct) \<and>
     ptr_all PropertyBag_small_bags (SpecialLocations.Properties strct)"

lemma SpecialLocations_same_output:
  "same_output (SpecialLocations_MarshalJSON scn ord) (SpecialLocations_MarshalJSON scn ord') SpecialLocations_small_bags"
  unfolding same_output_def
proof (intro allI impI)
  fix strct assume v: "SpecialLocations_small_bags strct"
  note v' = v [unfolded SpecialLocations_small_bags_def]
  have e0: "json_Marshal_ptr ''*sarif.ArtifactLocation'' (ArtifactLocation_MarshalJSON scn ord) (SpecialLocations.DisplayBase strct) =
      json_Marshal_ptr ''*sarif.ArtifactLocation'' (ArtifactLocation_MarshalJSON scn ord') (SpecialLocations.DisplayBase strct)"
    by (rule same_outputD [OF same_output_ptr [OF ArtifactLocation_same_output]]) (use v' in simp)
  have e1: "json_Marshal_bytes ''*sarif.PropertyBag'' (PropertyBag_MarshalJSON scn ord) (SpecialLocations.Properties strct) =
      json_Marshal_bytes ''*sarif.PropertyBag'' (PropertyBag_MarshalJSON scn ord') (SpecialLocations.Properties strct)"
    by (rule same_outputD [OF PropertyBag_field_same_output]) (use v' in simp)
  show "SpecialLocations_MarshalJSON scn ord strct = SpecialLocations_MarshalJSON scn ord' strct"
    by (simp only: SpecialLocations_MarshalJSON_def e0 e1)
qed

lemma SpecialLocations_writes_keys: "writes_keys (SpecialLocations_MarshalJSON scn ord) SpecialLocations_keys"
  unfolding writes_keys_def by (intro allI impI) (erule SpecialLocations_keys_written)

lemma SpecialLocations_unknown_key:
  assumes new: "k \<notin> set SpecialLocations_keys" and key: "k \<in> fst ` set kvs"
    and rest: "SpecialLocations_UnmarshalJSON ord (JObj (filter (\<lambda>e. fst e \<noteq> k) kvs)) = Inr strct"
  shows "SpecialLocations_UnmarshalJSON ord (JObj kvs) = Inl (not_allowed k)"
proof -
  have rej: "switch k (SpecialLocations_cases ord v) (reject k) s = Inl (not_allowed k)" for v s
    by (rule switch_rejects) (simp only: SpecialLocations_cases_keys new not_False_eq_True)
  from rest obtain t where
    "range_loop (\<lambda>k v. switch k (SpecialLocations_cases ord v) (reject k)) (members ord (filter (\<lambda>e. fst e \<noteq> k) kvs)) SpecialLocations_zero = Inr t"
    by (cases "range_loop (\<lambda>k v. switch k (SpecialLocations_cases ord v) (reject k)) (members ord (filter (\<lambda>e. fst e \<noteq> k) kvs)) SpecialLocations_zero")
       (simp_all add: SpecialLocations_UnmarshalJSON_def members_def)
  from unknown_key_named [OF SpecialLocations_regular rej key this]
  show ?thesis by (simp add: SpecialLocations_UnmarshalJSON_def members_def)
qed

lemma SpecialLocations_unknown_key_fails:
  assumes "k \<notin> set SpecialLocations_keys" and "k \<in> fst ` set kvs"
  shows "isl (SpecialLocations_UnmarshalJSON ord (JObj kvs))"
proof (cases "SpecialLocations_UnmarshalJSON ord (JObj kvs)")
  case (Inr strct)
  then have "dom (map_of (rev kvs)) \<subseteq> set SpecialLocations_keys"
    by (simp only: SpecialLocations_decode_iff SpecialLocations_decodesD(1))
  with assms show ?thesis by (auto simp: dom_map_of_conv_image_fst)
qed simp

lemma SpecialLocations_rejects_unknown_keys: "rejects_unknown_keys (SpecialLocations_UnmarshalJSON ord) SpecialLocations_keys"
  by (rule rejects_unknown_keysI) (erule (1) SpecialLocations_unknown_key_fails, erule (2) SpecialLocations_unknown_key)

subsection \<open>RunAutomationDetails: decoding and encoding\<close>

definition RunAutomationDetails_keys :: "string list" where
  "RunAutomationDetails_keys = [''correlationGuid'', ''description'', ''guid'', ''id'', ''properties'']"

definition RunAutomationDetails_decodes :: "order \<Rightarrow> (string \<rightharpoonup> json) \<Rightarrow> RunAutomationDetails \<Rightarrow> bool" where
  "RunAutomationDetails_decodes ord m strct \<longleftrightarrow>
     dom m \<subseteq> set RunAutomationDetails_keys \<and>
     field_ok json_Unmarshal_string (m ''correlationGuid'') [] (RunAutomationDetails.CorrelationGuid strct) \<and>
     field_ok (json_Unmarshal_ptr (Message_UnmarshalJSON ord)) (m ''description'') None (RunAutomationDetails.Description strct) \<and>
     field_ok json_Unmarshal_string (m ''guid'') [] (RunAutomationDetails.Guid strct) \<and>
     field_ok json_Unmarshal_string (m ''id'') [] (RunAutomationDetails.Id strct) \<and>
     field_ok (json_Unmarshal_ptr (PropertyBag_UnmarshalJSON ord)) (m ''properties'') None (RunAutomationDetails.Properties strct)"

lemma RunAutomationDetails_cases_keys: "fst ` set (RunAutomationDetails_cases ord v) = set RunAutomationDetails_keys"
  by (rule keys_image) (simp add: RunAutomationDetails_cases_def RunAutomationDetails_keys_def)

lemma RunAutomationDetails_regular: "regular (\<lambda>k v. switch k (RunAutomationDetails_cases ord v) (reject k))"
  by (rule regular_switch) (simp add: RunAutomationDetails_cases_def)

lemma RunAutomationDetails_fields:
  "field_case (RunAutomationDetails_cases ord) RunAutomationDetails.CorrelationGuid ''correlationGuid'' json_Unmarshal_string"
  "field_case (RunAutomationDetails_cases ord) RunAutomationDetails.Description ''description'' (json_Unmarshal_ptr (Message_UnmarshalJSON ord))"
  "field_case (RunAutomationDetails_cases ord) RunAutomationDetails.Guid ''guid'' json_Unmarshal_string"
  "field_case (RunAutomationDetails_cases ord) RunAutomationDetails.Id ''id'' json_Unmarshal_string"
  "field_case (RunAutomationDetails_cases ord) RunAutomationDetails.Properties ''properties'' (json_Unmarshal_ptr (PropertyBag_UnmarshalJSON ord))"
  unfolding field_case_def RunAutomationDetails_cases_def
  by (simp_all add: writes_into writes_received keeps_into split_def)

lemma RunAutomationDetails_loop_sound:
  assumes loop: "range_loop (\<lambda>k v. switch k (RunAutomationDetails_cases ord v) (reject k)) (members ord kvs) RunAutomationDetails_zero = Inr strct"
  shows "dom (map_of (rev kvs)) \<subseteq> set RunAutomationDetails_keys \<and>
     field_ok json_Unmarshal_string (map_of (rev kvs) ''correlationGuid'') [] (RunAutomationDetails.CorrelationGuid strct) \<and>
     field_ok (json_Unmarshal_ptr (Message_UnmarshalJSON ord)) (map_of (rev kvs) ''description'') None (RunAutomationDetails.Description strct) \<and>
     field_ok json_Unmarshal_string (map_of (rev kvs) ''guid'') [] (RunAutomationDetails.Guid strct) \<and>
     field_ok json_Unmarshal_string (map_of (rev kvs) ''id'') [] (RunAutomationDetails.Id strct) \<and>
     field_ok (json_Unmarshal_ptr (PropertyBag_UnmarshalJSON ord)) (map_of (rev kvs) ''properties'') None (RunAutomationDetails.Properties strct)"
proof -
  have "fst ` set (members ord kvs) \<subseteq> set RunAutomationDetails_keys"
    by (rule loop_keys_known [OF loop]) (rule RunAutomationDetails_cases_keys)
  then have keys: "dom (map_of (rev kvs)) \<subseteq> set RunAutomationDetails_keys"
    by (simp add: dom_members [of kvs ord])
  note fld = field_after_loop [OF _ members_distinct loop, unfolded map_of_members]
  show ?thesis
    using keys fld [OF RunAutomationDetails_fields(1)] fld [OF RunAutomationDetails_fields(2)] fld [OF RunAutomationDetails_fields(3)] fld [OF RunAutomationDetails_fields(4)] fld [OF RunAutomationDetails_fields(5)] 
    by (simp only: prod.case RunAutomationDetails_zero_def RunAutomationDetails.select_convs simp_thms)
qed

lemma RunAutomationDetails_decodesD:
  assumes "RunAutomationDetails_decodes ord m strct"
  shows "dom m \<subseteq> set RunAutomationDetails_keys"
    and "field_ok json_Unmarshal_string (m ''correlationGuid'') [] (RunAutomationDetails.CorrelationGuid strct)"
    and "field_ok (json_Unmarshal_ptr (Message_UnmarshalJSON ord)) (m ''description'') None (RunAutomationDetails.Description strct)"
    and "field_ok json_Unmarshal_string (m ''guid'') [] (RunAutomationDetails.Guid strct)"
    and "field_ok json_Unmarshal_string (m ''id'') [] (RunAutomationDetails.Id strct)"
    and "field_ok (json_Unmarshal_ptr (PropertyBag_UnmarshalJSON ord)) (m ''properties'') None (RunAutomationDetails.Properties strct)"
  using assms unfolding RunAutomationDetails_decodes_def by - (elim conjE, assumption)+

lemma RunAutomationDetails_decodes_unique:
  assumes "RunAutomationDetails_decodes ord m a" and "RunAutomationDetails_decodes ord m b"
  shows "a = b"
  apply (rule RunAutomationDetails.equality)
  apply (rule field_ok_unique [OF RunAutomationDetails_decodesD(2) [OF assms(1)] RunAutomationDetails_decodesD(2) [OF assms(2)]])
  apply (rule field_ok_unique [OF RunAutomationDetails_decodesD(3) [OF assms(1)] RunAutomationDetails_decodesD(3) [OF assms(2)]])
  apply (rule field_ok_unique [OF RunAutomationDetails_decodesD(4) [OF assms(1)] RunAutomationDetails_decodesD(4) [OF assms(2)]])
  apply (rule field_ok_unique [OF RunAutomationDetails_decodesD(5) [OF assms(1)] RunAutomationDetails_decodesD(5) [OF assms(2)]])
  apply (rule field_ok_unique [OF RunAutomationDetails_decodesD(6) [OF assms(1)] RunAutomationDetails_decodesD(6) [OF assms(2)]])
  apply simp
  done

lemma RunAutomationDetails_accepts:
  assumes "RunAutomationDetails_decodes ord m strct" and "m k = Some v"
  shows "accepting (switch k (RunAutomationDetails_cases ord v) (reject k))"
proof -
  from assms have "k \<in> set RunAutomationDetails_keys" by (auto simp: RunAutomationDetails_decodes_def)
  then have key: "k \<in> fst ` set (RunAutomationDetails_cases ord v)"
    by (simp only: RunAutomationDetails_cases_keys)
  have rows: "list_all (\<lambda>(c, h). m c = Some v \<longrightarrow> accepting h) (RunAutomationDetails_cases ord v)"
    unfolding RunAutomationDetails_cases_def list.pred_inject
    apply (rule conjI [OF accept_row [where m = m and v = v, OF RunAutomationDetails_decodesD(2) [OF assms(1)]]])
    apply (rule conjI [OF accept_row [where m = m and v = v, OF RunAutomationDetails_decodesD(3) [OF assms(1)]]])
    apply (rule conjI [OF accept_row [where m = m and v = v, OF RunAutomationDetails_decodesD(4) [OF assms(1)]]])
    apply (rule conjI [OF accept_row [where m = m and v = v, OF RunAutomationDetails_decodesD(5) [OF assms(1)]]])
    apply (rule conjI [OF accept_row [where m = m and v = v, OF RunAutomationDetails_decodesD(6) [OF assms(1)]]])
    apply simp
    done
  show ?thesis by (rule rows_accept [OF rows assms(2) key])
qed

lemma RunAutomationDetails_decode_iff:
  "RunAutomationDetails_UnmarshalJSON ord (JObj kvs) = Inr strct \<longleftrightarrow>
   RunAutomationDetails_decodes ord (map_of (rev kvs)) strct"
proof
  assume "RunAutomationDetails_UnmarshalJSON ord (JObj kvs) = Inr strct"
  then have loop: "range_loop (\<lambda>k v. switch k (RunAutomationDetails_cases ord v) (reject k)) (members ord kvs) RunAutomationDetails_zero = Inr strct"
    by (auto simp: RunAutomationDetails_UnmarshalJSON_def members_def split: sum.splits)
  from RunAutomationDetails_loop_sound [OF loop]
  show "RunAutomationDetails_decodes ord (map_of (rev kvs)) strct"
    by (simp add: RunAutomationDetails_decodes_def)
next
  assume d: "RunAutomationDetails_decodes ord (map_of (rev kvs)) strct"
  have "\<exists>t. range_loop (\<lambda>k v. switch k (RunAutomationDetails_cases ord v) (reject k)) (members ord kvs) RunAutomationDetails_zero = Inr t"
  proof (rule loop_succeeds [OF RunAutomationDetails_regular])
    fix k v assume "(k, v) \<in> set (members ord kvs)"
    then have "map_of (rev kvs) k = Some v" by (rule member_lookup)
    from RunAutomationDetails_accepts [OF d this]
    show "accepting (switch k (RunAutomationDetails_cases ord v) (reject k))" .
  qed
  then obtain strct' where
    loop: "range_loop (\<lambda>k v. switch k (RunAutomationDetails_cases ord v) (reject k)) (members ord kvs) RunAutomationDetails_zero = Inr strct'" ..
  from RunAutomationDetails_loop_sound [OF loop]
  have d': "RunAutomationDetails_decodes ord (map_of (rev kvs)) strct'"
    by (simp add: RunAutomationDetails_decodes_def)
  from RunAutomationDetails_decodes_unique [OF d' d] have "strct' = strct" .
  with loop show "RunAutomationDetails_UnmarshalJSON ord (JObj kvs) = Inr strct"
    by (simp add: RunAutomationDetails_UnmarshalJSON_def members_def)
qed

definition RunAutomationDetails_results :: "scanner \<Rightarrow> order \<Rightarrow> RunAutomationDetails \<Rightarrow> (string \<times> (error + json)) list" where
  "RunAutomationDetails_results scn ord strct =
     [(''correlationGuid'', json_Marshal_string (RunAutomationDetails.CorrelationGuid strct)),
      (''description'', json_Marshal_ptr ''*sarif.Message'' (Message_MarshalJSON scn ord) (RunAutomationDetails.Description strct)),
      (''guid'', json_Marshal_string (RunAutomationDetails.Guid strct)),
      (''id'', json_Marshal_string (RunAutomationDetails.Id strct)),
      (''properties'', json_Marshal_bytes ''*sarif.PropertyBag'' (PropertyBag_MarshalJSON scn ord) (RunAutomationDetails.Properties strct))]"

lemma RunAutomationDetails_MarshalJSON_results:
  "RunAutomationDetails_MarshalJSON scn ord strct = object (emit_all (RunAutomationDetails_results scn ord strct))"
  by (simp add: RunAutomationDetails_MarshalJSON_def RunAutomationDetails_results_def emit_nilcheck)

lemma RunAutomationDetails_keys_written:
  "RunAutomationDetails_MarshalJSON scn ord strct = Inr j \<Longrightarrow> \<exists>kvs. j = JObj kvs \<and> map fst kvs = RunAutomationDetails_keys"
  using keys_written [of "RunAutomationDetails_results scn ord strct" j]
  by (simp add: RunAutomationDetails_MarshalJSON_results RunAutomationDetails_results_def RunAutomationDetails_keys_def)

definition RunAutomationDetails_encodable :: "scanner \<Rightarrow> order \<Rightarrow> RunAutomationDetails \<Rightarrow> bool" where
  "RunAutomationDetails_encodable scn ord strct \<longleftrightarrow>
     ptr_all (Message_encodable scn ord) (RunAutomationDetails.Description strct) \<and>
     ptr_all (PropertyBag_encodable scn ord) (RunAutomationDetails.Properties strct)"

lemma RunAutomationDetails_fails_unless: "fails_unless (RunAutomationDetails_MarshalJSON scn ord) (RunAutomationDetails_encodable scn ord)"
  unfolding fails_unless_def RunAutomationDetails_MarshalJSON_results RunAutomationDetails_results_def RunAutomationDetails_encodable_def isl_object_emit_all
  by (auto simp add: always_simps
      fails_unlessD [OF fails_unless_string]
      fails_unlessD [OF fails_unless_ptr [OF Message_fails_unless]]
      fails_unlessD [OF PropertyBag_field_fails_unless])

definition RunAutomationDetails_valid :: "RunAutomationDetails \<Rightarrow> bool" where
  "RunAutomationDetails_valid strct \<longleftrightarrow>
     ptr_all Message_valid (RunAutomationDetails.Description strct) \<and>
     ptr_all PropertyBag_valid (RunAutomationDetails.Properties strct)"

lemma RunAutomationDetails_keys_distinct: "distinct RunAutomationDetails_keys"
  by (simp add: RunAutomationDetails_keys_def)

lemma RunAutomationDetails_round_trips:
  "round_trips_object (RunAutomationDetails_MarshalJSON scn ord) (RunAutomationDetails_UnmarshalJSON ord') RunAutomationDetails_valid"
  unfolding round_trips_object_def
proof (intro allI impI)
  fix strct assume v: "RunAutomationDetails_valid strct"
  note v' = v [unfolded RunAutomationDetails_valid_def]
  let ?rs = "RunAutomationDetails_results scn ord strct"
  let ?kvs = "map (\<lambda>e. (fst e, projr (snd e))) ?rs"
  have f0: "\<not> isl (json_Marshal_string (RunAutomationDetails.CorrelationGuid strct)) \<and>
      json_Unmarshal_string (projr (json_Marshal_string (RunAutomationDetails.CorrelationGuid strct))) = Inr (RunAutomationDetails.CorrelationGuid strct)"
    by (rule round_tripsD [OF round_trips_string]) (use v' in simp)
  have f1: "\<not> isl (json_Marshal_ptr ''*sarif.Message'' (Message_MarshalJSON scn ord) (RunAutomationDetails.Description strct)) \<and>
      json_Unmarshal_ptr (Message_UnmarshalJSON ord') (projr (json_Marshal_ptr ''*sarif.Message'' (Message_MarshalJSON scn ord) (RunAutomationDetails.Description strct))) = Inr (RunAutomationDetails.Description strct)"
    by (rule round_tripsD [OF round_trips_ptr [OF Message_round_trips]]) (use v' in simp)
  have f2: "\<not> isl (json_Marshal_string (RunAutomationDetails.Guid strct)) \<and>
      json_Unmarshal_string (projr (json_Marshal_string (RunAutomationDetails.Guid strct))) = Inr (RunAutomationDetails.Guid strct)"
    by (rule round_tripsD [OF round_trips_string]) (use v' in simp)
  have f3: "\<not> isl (json_Marshal_string (RunAutomationDetails.Id strct)) \<and>
      json_Unmarshal_string (projr (json_Marshal_string (RunAutomationDetails.Id strct))) = Inr (RunAutomationDetails.Id strct)"
    by (rule round_tripsD [OF round_trips_string]) (use v' in simp)
  have f4: "\<not> isl (json_Marshal_bytes ''*sarif.PropertyBag'' (PropertyBag_MarshalJSON scn ord) (RunAutomationDetails.Properties strct)) \<and>
      json_Unmarshal_ptr (PropertyBag_UnmarshalJSON ord') (projr (json_Marshal_bytes ''*sarif.PropertyBag'' (PropertyBag_MarshalJSON scn ord) (RunAutomationDetails.Properties strct))) = Inr (RunAutomationDetails.Properties strct)"
    by (rule round_tripsD [OF PropertyBag_field_round_trips]) (use v' in simp)
  note fs = f0 f1 f2 f3 f4
  have rs: "?rs =
     [(''correlationGuid'', json_Marshal_string (RunAutomationDetails.CorrelationGuid strct)),
      (''description'', json_Marshal_ptr ''*sarif.Message'' (Message_MarshalJSON scn ord) (RunAutomationDetails.Description strct)),
      (''guid'', json_Marshal_string (RunAutomationDetails.Guid strct)),
      (''id'', json_Marshal_string (RunAutomationDetails.Id strct)),
      (''properties'', json_Marshal_bytes ''*sarif.PropertyBag'' (PropertyBag_MarshalJSON scn ord) (RunAutomationDetails.Properties strct))]"
    by (auto simp add: RunAutomationDetails_results_def)
  have keys: "map fst ?rs = RunAutomationDetails_keys"
    by (simp add: RunAutomationDetails_results_def RunAutomationDetails_keys_def)
  then have dist: "distinct (map fst ?rs)"
    by (simp only: RunAutomationDetails_keys_distinct)
  have ok: "list_all (\<lambda>e. \<not> isl (snd e)) ?rs"
    unfolding rs by (simp only: list.pred_inject snd_conv fs simp_thms)
  then have enc: "RunAutomationDetails_MarshalJSON scn ord strct = Inr (JObj ?kvs)"
    by (simp add: RunAutomationDetails_MarshalJSON_results [of scn ord strct] object_emit_all_eq_Inr)
  have l0: "map_of (rev ?kvs) ''correlationGuid'' = Some (projr (json_Marshal_string (RunAutomationDetails.CorrelationGuid strct)))"
    by (rule written_lookup [OF dist]) (subst rs, intro list.set_intros)
  have l1: "map_of (rev ?kvs) ''description'' = Some (projr (json_Marshal_ptr ''*sarif.Message'' (Message_MarshalJSON scn ord) (RunAutomationDetails.Description strct)))"
    by (rule written_lookup [OF dist]) (subst rs, intro list.set_intros)
  have l2: "map_of (rev ?kvs) ''guid'' = Some (projr (json_Marshal_string (RunAutomationDetails.Guid strct)))"
    by (rule written_lookup [OF dist]) (subst rs, intro list.set_intros)
  have l3: "map_of (rev ?kvs) ''id'' = Some (projr (json_Marshal_string (RunAutomationDetails.Id strct)))"
    by (rule written_lookup [OF dist]) (subst rs, intro list.set_intros)
  have l4: "map_of (rev ?kvs) ''properties'' = Some (projr (json_Marshal_bytes ''*sarif.PropertyBag'' (PropertyBag_MarshalJSON scn ord) (RunAutomationDetails.Properties strct)))"
    by (rule written_lookup [OF dist]) (subst rs, intro list.set_intros)
  have dec: "RunAutomationDetails_decodes ord' (map_of (rev ?kvs)) strct"
    unfolding RunAutomationDetails_decodes_def l0 l1 l2 l3 l4
    by (simp only: field_ok_Some fs written_dom keys subset_refl option.simps simp_thms)
  then have "RunAutomationDetails_UnmarshalJSON ord' (JObj ?kvs) = Inr strct"
    by (simp only: RunAutomationDetails_decode_iff)
  with enc show "rt_object (RunAutomationDetails_MarshalJSON scn ord) (RunAutomationDetails_UnmarshalJSON ord') strct"
    unfolding rt_object_def by blast
qed

definition RunAutomationDetails_small_bags :: "RunAutomationDetails \<Rightarrow> bool" where
  "RunAutomationDetails_small_bags strct \<longleftrightarrow>
     ptr_all Message_small_bags (RunAutomationDetails.Description strct) \<and>
     ptr_all PropertyBag_small_bags (RunAutomationDetails.Properties strct)"

lemma RunAutomationDetails_same_output:
  "same_output (RunAutomationDetails_MarshalJSON scn ord) (RunAutomationDetails_MarshalJSON scn ord') RunAutomationDetails_small_bags"
  unfolding same_output_def
proof (intro allI impI)
  fix strct assume v: "RunAutomationDetails_small_bags strct"
  note v' = v [unfolded RunAutomationDetails_small_bags_def]
  have e1: "json_Marshal_ptr ''*sarif.Message'' (Message_MarshalJSON scn ord) (RunAutomationDetails.Description strct) =
      json_Marshal_ptr ''*sarif.Message'' (Message_MarshalJSON scn ord') (RunAutomationDetails.Description strct)"
    by (rule same_outputD [OF same_output_ptr [OF Message_same_output]]) (use v' in simp)
  have e4: "json_Marshal_bytes ''*sarif.PropertyBag'' (PropertyBag_MarshalJSON scn ord) (RunAutomationDetails.Properties strct) =
      json_Marshal_bytes ''*sarif.PropertyBag'' (PropertyBag_MarshalJSON scn ord') (RunAutomationDetails.Properties strct)"
    by (rule same_outputD [OF PropertyBag_field_same_output]) (use v' in simp)
  show "RunAutomationDetails_MarshalJSON scn ord strct = RunAutomationDetails_MarshalJSON scn ord' strct"
    by (simp only: RunAutomationDetails_MarshalJSON_def e1 e4)
qed

lemma RunAutomationDetails_writes_keys: "writes_keys (RunAutomationDetails_MarshalJSON scn ord) RunAutomationDetails_keys"
  unfolding writes_keys_def by (intro allI impI) (erule RunAutomationDetails_keys_written)

lemma RunAutomationDetails_unknown_key:
  assumes new: "k \<notin> set RunAutomationDetails_keys" and key: "k \<in> fst ` set kvs"
    and rest: "RunAutomationDetails_UnmarshalJSON ord (JObj (filter (\<lambda>e. fst e \<noteq> k) kvs)) = Inr strct"
  shows "RunAutomationDetails_UnmarshalJSON ord (JObj kvs) = Inl (not_allowed k)"
proof -
  have rej: "switch k (RunAutomationDetails_cases ord v) (reject k) s = Inl (not_allowed k)" for v s
    by (rule switch_rejects) (simp only: RunAutomationDetails_cases_keys new not_False_eq_True)
  from rest obtain t where
    "range_loop (\<lambda>k v. switch k (RunAutomationDetails_cases ord v) (reject k)) (members ord (filter (\<lambda>e. fst e \<noteq> k) kvs)) RunAutomationDetails_zero = Inr t"
    by (cases "range_loop (\<lambda>k v. switch k (RunAutomationDetails_cases ord v) (reject k)) (members ord (filter (\<lambda>e. fst e \<noteq> k) kvs)) RunAutomationDetails_zero")
       (simp_all add: RunAutomationDetails_UnmarshalJSON_def members_def)
  from unknown_key_named [OF RunAutomationDetails_regular rej key this]
  show ?thesis by (simp add: RunAutomationDetails_UnmarshalJSON_def members_def)
qed

lemma RunAutomationDetails_unknown_key_fails:
  assumes "k \<notin> set RunAutomationDetails_keys" and "k \<in> fst ` set kvs"
  shows "isl (RunAutomationDetails_UnmarshalJSON ord (JObj kvs))"
proof (cases "RunAutomationDetails_UnmarshalJSON ord (JObj kvs)")
  case (Inr strct)
  then have "dom (map_of (rev kvs)) \<subseteq> set RunAutomationDetails_keys"
    by (simp only: RunAutomationDetails_decode_iff RunAutomationDetails_decodesD(1))
  with assms show ?thesis by (auto simp: dom_map_of_conv_image_fst)
qed simp

lemma RunAutomationDetails_rejects_unknown_keys: "rejects_unknown_keys (RunAutomationDetails_UnmarshalJSON ord) RunAutomationDetails_keys"
  by (rule rejects_unknown_keysI) (erule (1) RunAutomationDetails_unknown_key_fails, erule (2) RunAutomationDetails_unknown_key)

subsection \<open>VersionControlDetails: decoding and encoding\<close>

definition VersionControlDetails_keys :: "string list" where
  "VersionControlDetails_keys = [''asOfTimeUtc'', ''branch'', ''mappedTo'', ''properties'', ''repositoryUri'', ''revisionId'', ''revisionTag'']"

definition VersionControlDetails_decodes :: "order \<Rightarrow> (string \<rightharpoonup> json) \<Rightarrow> VersionControlDetails \<Rightarrow> bool" where
  "VersionControlDetails_decodes ord m strct \<longleftrightarrow>
     dom m \<subseteq> set VersionControlDetails_keys \<and>
     field_ok json_Unmarshal_string (m ''asOfTimeUtc'') [] (VersionControlDetails.AsOfTimeUtc strct) \<and>
     field_ok json_Unmarshal_string (m ''branch'') [] (VersionControlDetails.Branch strct) \<and>
     field_ok (json_Unmarshal_ptr (ArtifactLocation_UnmarshalJSON ord)) (m ''mappedTo'') None (VersionControlDetails.MappedTo strct) \<and>
     field_ok (json_Unmarshal_ptr (PropertyBag_UnmarshalJSON ord)) (m ''properties'') None (VersionControlDetails.Properties strct) \<and>
     field_ok json_Unmarshal_string (m ''repositoryUri'') [] (VersionControlDetails.RepositoryUri strct) \<and>
     field_ok json_Unmarshal_string (m ''revisionId'') [] (VersionControlDetails.RevisionId strct) \<and>
     field_ok json_Unmarshal_string (m ''revisionTag'') [] (VersionControlDetails.RevisionTag strct) \<and>
     m ''repositoryUri'' \<noteq> None"

lemma VersionControlDetails_cases_keys: "fst ` set (VersionControlDetails_cases ord v) = set VersionControlDetails_keys"
  by (rule keys_image) (simp add: VersionControlDetails_cases_def VersionControlDetails_keys_def)

lemma VersionControlDetails_regular: "regular (\<lambda>k v. switch k (VersionControlDetails_cases ord v) (reject k))"
  by (rule regular_switch) (simp add: VersionControlDetails_cases_def)

lemma VersionControlDetails_fields:
  "field_case (VersionControlDetails_cases ord) (\<lambda>(strct, repositoryUriReceived). VersionControlDetails.AsOfTimeUtc strct) ''asOfTimeUtc'' json_Unmarshal_string"
  "field_case (VersionControlDetails_cases ord) (\<lambda>(strct, repositoryUriReceived). VersionControlDetails.Branch strct) ''branch'' json_Unmarshal_string"
  "field_case (VersionControlDetails_cases ord) (\<lambda>(strct, repositoryUriReceived). VersionControlDetails.MappedTo strct) ''mappedTo'' (json_Unmarshal_ptr (ArtifactLocation_UnmarshalJSON ord))"
  "field_case (VersionControlDetails_cases ord) (\<lambda>(strct, repositoryUriReceived). VersionControlDetails.Properties strct) ''properties'' (json_Unmarshal_ptr (PropertyBag_UnmarshalJSON ord))"
  "field_case (VersionControlDetails_cases ord) (\<lambda>(strct, repositoryUriReceived). VersionControlDetails.RepositoryUri strct) ''repositoryUri'' json_Unmarshal_string"
  "field_case (VersionControlDetails_cases ord) (\<lambda>(strct, repositoryUriReceived). VersionControlDetails.RevisionId strct) ''revisionId'' json_Unmarshal_string"
  "field_case (VersionControlDetails_cases ord) (\<lambda>(strct, repositoryUriReceived). VersionControlDetails.RevisionTag strct) ''revisionTag'' json_Unmarshal_string"
  "field_case (VersionControlDetails_cases ord) (\<lambda>(strct, repositoryUriReceived). repositoryUriReceived) ''repositoryUri'' (received json_Unmarshal_string)"
  unfolding field_case_def VersionControlDetails_cases_def
  by (simp_all add: writes_into writes_received keeps_into split_def)

lemma VersionControlDetails_loop_sound:
  assumes loop: "range_loop (\<lambda>k v. switch k (VersionControlDetails_cases ord v) (reject k)) (members ord kvs) (VersionControlDetails_zero, False) = Inr (strct, repositoryUriReceived)"
  shows "dom (map_of (rev kvs)) \<subseteq> set VersionControlDetails_keys \<and>
     field_ok json_Unmarshal_string (map_of (rev kvs) ''asOfTimeUtc'') [] (VersionControlDetails.AsOfTimeUtc strct) \<and>
     field_ok json_Unmarshal_string (map_of (rev kvs) ''branch'') [] (VersionControlDetails.Branch strct) \<and>
     field_ok (json_Unmarshal_ptr (ArtifactLocation_UnmarshalJSON ord)) (map_of (rev kvs) ''mappedTo'') None (VersionControlDetails.MappedTo strct) \<and>
     field_ok (json_Unmarshal_ptr (PropertyBag_UnmarshalJSON ord)) (map_of (rev kvs) ''properties'') None (VersionControlDetails.Properties strct) \<and>
     field_ok json_Unmarshal_string (map_of (rev kvs) ''repositoryUri'') [] (VersionControlDetails.RepositoryUri strct) \<and>
     field_ok json_Unmarshal_string (map_of (rev kvs) ''revisionId'') [] (VersionControlDetails.RevisionId strct) \<and>
     field_ok json_Unmarshal_string (map_of (rev kvs) ''revisionTag'') [] (VersionControlDetails.RevisionTag strct) \<and>
     (repositoryUriReceived \<longleftrightarrow> map_of (rev kvs) ''repositoryUri'' \<noteq> None)"
proof -
  have "fst ` set (members ord kvs) \<subseteq> set VersionControlDetails_keys"
    by (rule loop_keys_known [OF loop]) (rule VersionControlDetails_cases_keys)
  then have keys: "dom (map_of (rev kvs)) \<subseteq> set VersionControlDetails_keys"
    by (simp add: dom_members [of kvs ord])
  note fld = field_after_loop [OF _ members_distinct loop, unfolded map_of_members]
  note flg = flag_after_loop [OF _ members_distinct loop, unfolded map_of_members]
  show ?thesis
    using keys fld [OF VersionControlDetails_fields(1)] fld [OF VersionControlDetails_fields(2)] fld [OF VersionControlDetails_fields(3)] fld [OF VersionControlDetails_fields(4)] fld [OF VersionControlDetails_fields(5)] fld [OF VersionControlDetails_fields(6)] fld [OF VersionControlDetails_fields(7)] flg [OF VersionControlDetails_fields(8)]
    by (simp only: prod.case VersionControlDetails_zero_def VersionControlDetails.select_convs simp_thms)
qed

lemma VersionControlDetails_decodesD:
  assumes "VersionControlDetails_decodes ord m strct"
  shows "dom m \<subseteq> set VersionControlDetails_keys"
    and "field_ok json_Unmarshal_string (m ''asOfTimeUtc'') [] (VersionControlDetails.AsOfTimeUtc strct)"
    and "field_ok json_Unmarshal_string (m ''branch'') [] (VersionControlDetails.Branch strct)"
    and "field_ok (json_Unmarshal_ptr (ArtifactLocation_UnmarshalJSON ord)) (m ''mappedTo'') None (VersionControlDetails.MappedTo strct)"
    and "field_ok (json_Unmarshal_ptr (PropertyBag_UnmarshalJSON ord)) (m ''properties'') None (VersionControlDetails.Properties strct)"
    and "field_ok json_Unmarshal_string (m ''repositoryUri'') [] (VersionControlDetails.RepositoryUri strct)"
    and "field_ok json_Unmarshal_string (m ''revisionId'') [] (VersionControlDetails.RevisionId strct)"
    and "field_ok json_Unmarshal_string (m ''revisionTag'') [] (VersionControlDetails.RevisionTag strct)"
    and "m ''repositoryUri'' \<noteq> None"
  using assms unfolding VersionControlDetails_decodes_def by - (elim conjE, assumption)+

lemma VersionControlDetails_decodes_unique:
  assumes "VersionControlDetails_decodes ord m a" and "VersionControlDetails_decodes ord m b"
  shows "a = b"
  apply (rule VersionControlDetails.equality)
  apply (rule field_ok_unique [OF VersionControlDetails_decodesD(2) [OF assms(1)] VersionControlDetails_decodesD(2) [OF assms(2)]])
  apply (rule field_ok_unique [OF VersionControlDetails_decodesD(3) [OF assms(1)] VersionControlDetails_decodesD(3) [OF assms(2)]])
  apply (rule field_ok_unique [OF VersionControlDetails_decodesD(4) [OF assms(1)] VersionControlDetails_decodesD(4) [OF assms(2)]])
  apply (rule field_ok_unique [OF VersionControlDetails_decodesD(5) [OF assms(1)] VersionControlDetails_decodesD(5) [OF assms(2)]])
  apply (rule field_ok_unique [OF VersionControlDetails_decodesD(6) [OF assms(1)] VersionControlDetails_decodesD(6) [OF assms(2)]])
  apply (rule field_ok_unique [OF VersionControlDetails_decodesD(7) [OF assms(1)] VersionControlDetails_decodesD(7) [OF assms(2)]])
  apply (rule field_ok_unique [OF VersionControlDetails_decodesD(8) [OF assms(1)] VersionControlDetails_decodesD(8) [OF assms(2)]])
  apply simp
  done

lemma VersionControlDetails_accepts:
  assumes "VersionControlDetails_decodes ord m strct" and "m k = Some v"
  shows "accepting (switch k (VersionControlDetails_cases ord v) (reject k))"
proof -
  from assms have "k \<in> set VersionControlDetails_keys" by (auto simp: VersionControlDetails_decodes_def)
  then have key: "k \<in> fst ` set (VersionControlDetails_cases ord v)"
    by (simp only: VersionControlDetails_cases_keys)
  have rows: "list_all (\<lambda>(c, h). m c = Some v \<longrightarrow> accepting h) (VersionControlDetails_cases ord v)"
    unfolding VersionControlDetails_cases_def list.pred_inject
    apply (rule conjI [OF accept_row [where m = m and v = v, OF VersionControlDetails_decodesD(2) [OF assms(1)]]])
    apply (rule conjI [OF accept_row [where m = m and v = v, OF VersionControlDetails_decodesD(3) [OF assms(1)]]])
    apply (rule conjI [OF accept_row [where m = m and v = v, OF VersionControlDetails_decodesD(4) [OF assms(1)]]])
    apply (rule conjI [OF accept_row [where m = m and v = v, OF VersionControlDetails_decodesD(5) [OF assms(1)]]])
    apply (rule conjI [OF accept_row [where m = m and v = v, OF VersionControlDetails_decodesD(6) [OF assms(1)]]])
    apply (rule conjI [OF accept_row [where m = m and v = v, OF VersionControlDetails_decodesD(7) [OF assms(1)]]])
    apply (rule conjI [OF accept_row [where m = m and v = v, OF VersionControlDetails_decodesD(8) [OF assms(1)]]])
    apply simp
    done
  show ?thesis by (rule rows_accept [OF rows assms(2) key])
qed

lemma VersionControlDetails_decode_iff:
  "VersionControlDetails_UnmarshalJSON ord (JObj kvs) = Inr strct \<longleftrightarrow>
   VersionControlDetails_decodes ord (map_of (rev kvs)) strct"
proof
  assume "VersionControlDetails_UnmarshalJSON ord (JObj kvs) = Inr strct"
  then obtain repositoryUriReceived where
    loop: "range_loop (\<lambda>k v. switch k (VersionControlDetails_cases ord v) (reject k)) (members ord kvs) (VersionControlDetails_zero, False) = Inr (strct, repositoryUriReceived)"
    and fin: "repositoryUriReceived"
    by (auto simp: VersionControlDetails_UnmarshalJSON_def members_def split: sum.splits if_splits)
  from VersionControlDetails_loop_sound [OF loop] fin
  show "VersionControlDetails_decodes ord (map_of (rev kvs)) strct"
    by (simp add: VersionControlDetails_decodes_def)
next
  assume d: "VersionControlDetails_decodes ord (map_of (rev kvs)) strct"
  have "\<exists>t. range_loop (\<lambda>k v. switch k (VersionControlDetails_cases ord v) (reject k)) (members ord kvs) (VersionControlDetails_zero, False) = Inr t"
  proof (rule loop_succeeds [OF VersionControlDetails_regular])
    fix k v assume "(k, v) \<in> set (members ord kvs)"
    then have "map_of (rev kvs) k = Some v" by (rule member_lookup)
    from VersionControlDetails_accepts [OF d this]
    show "accepting (switch k (VersionControlDetails_cases ord v) (reject k))" .
  qed
  then obtain t where "range_loop (\<lambda>k v. switch k (VersionControlDetails_cases ord v) (reject k)) (members ord kvs) (VersionControlDetails_zero, False) = Inr t" ..
  then obtain strct' repositoryUriReceived where
    loop: "range_loop (\<lambda>k v. switch k (VersionControlDetails_cases ord v) (reject k)) (members ord kvs) (VersionControlDetails_zero, False) = Inr (strct', repositoryUriReceived)"
    by (cases t) auto
  from VersionControlDetails_loop_sound [OF loop] d
  have fin: "repositoryUriReceived"
    and d': "VersionControlDetails_decodes ord (map_of (rev kvs)) strct'"
    by (simp_all add: VersionControlDetails_decodes_def)
  from VersionControlDetails_decodes_unique [OF d' d] have "strct' = strct" .
  with loop fin show "VersionControlDetails_UnmarshalJSON ord (JObj kvs) = Inr strct"
    by (simp add: VersionControlDetails_UnmarshalJSON_def members_def)
qed

definition VersionControlDetails_results :: "scanner \<Rightarrow> order \<Rightarrow> VersionControlDetails \<Rightarrow> (string \<times> (error + json)) list" where
  "VersionControlDetails_results scn ord strct =
     [(''asOfTimeUtc'', json_Marshal_string (VersionControlDetails.AsOfTimeUtc strct)),
      (''branch'', json_Marshal_string (VersionControlDetails.Branch strct)),
      (''mappedTo'', json_Marshal_ptr ''*sarif.ArtifactLocation'' (ArtifactLocation_MarshalJSON scn ord) (VersionControlDetails.MappedTo strct)),
      (''properties'', json_Marshal_bytes ''*sarif.PropertyBag'' (PropertyBag_MarshalJSON scn ord) (VersionControlDetails.Properties strct)),
      (''repositoryUri'', json_Marshal_string (VersionControlDetails.RepositoryUri strct)),
      (''revisionId'', json_Marshal_string (VersionControlDetails.RevisionId strct)),
      (''revisionTag'', json_Marshal_string (VersionControlDetails.RevisionTag strct))]"

lemma VersionControlDetails_MarshalJSON_results:
  "VersionControlDetails_MarshalJSON scn ord strct = object (emit_all (VersionControlDetails_results scn ord strct))"
  by (simp add: VersionControlDetails_MarshalJSON_def VersionControlDetails_results_def emit_nilcheck)

lemma VersionControlDetails_keys_written:
  "VersionControlDetails_MarshalJSON scn ord strct = Inr j \<Longrightarrow> \<exists>kvs. j = JObj kvs \<and> map fst kvs = VersionControlDetails_keys"
  using keys_written [of "VersionControlDetails_results scn ord strct" j]
  by (simp add: VersionControlDetails_MarshalJSON_results VersionControlDetails_results_def VersionControlDetails_keys_def)

definition VersionControlDetails_encodable :: "scanner \<Rightarrow> order \<Rightarrow> VersionControlDetails \<Rightarrow> bool" where
  "VersionControlDetails_encodable scn ord strct \<longleftrightarrow>
     ptr_all (ArtifactLocation_encodable scn ord) (VersionControlDetails.MappedTo strct) \<and>
     ptr_all (PropertyBag_encodable scn ord) (VersionControlDetails.Properties strct)"

lemma VersionControlDetails_fails_unless: "fails_unless (VersionControlDetails_MarshalJSON scn ord) (VersionControlDetails_encodable scn ord)"
  unfolding fails_unless_def VersionControlDetails_MarshalJSON_results VersionControlDetails_results_def VersionControlDetails_encodable_def isl_object_emit_all
  by (auto simp add: always_simps
      fails_unlessD [OF fails_unless_string]
      fails_unlessD [OF fails_unless_ptr [OF ArtifactLocation_fails_unless]]
      fails_unlessD [OF PropertyBag_field_fails_unless])

definition VersionControlDetails_valid :: "VersionControlDetails \<Rightarrow> bool" where
  "VersionControlDetails_valid strct \<longleftrightarrow>
     ptr_all ArtifactLocation_valid (VersionControlDetails.MappedTo strct) \<and>
     ptr_all PropertyBag_valid (VersionControlDetails.Properties strct)"

lemma VersionControlDetails_keys_distinct: "distinct VersionControlDetails_keys"
  by (simp add: VersionControlDetails_keys_def)

lemma VersionControlDetails_round_trips:
  "round_trips_object (VersionControlDetails_MarshalJSON scn ord) (VersionControlDetails_UnmarshalJSON ord') VersionControlDetails_valid"
  unfolding round_trips_object_def
proof (intro allI impI)
  fix strct assume v: "VersionControlDetails_valid strct"
  note v' = v [unfolded VersionControlDetails_valid_def]
  let ?rs = "VersionControlDetails_results scn ord strct"
  let ?kvs = "map (\<lambda>e. (fst e, projr (snd e))) ?rs"
  have f0: "\<not> isl (json_Marshal_string (VersionControlDetails.AsOfTimeUtc strct)) \<and>
      json_Unmarshal_string (projr (json_Marshal_string (VersionControlDetails.AsOfTimeUtc strct))) = Inr (VersionControlDetails.AsOfTimeUtc strct)"
    by (rule round_tripsD [OF round_trips_string]) (use v' in simp)
  have f1: "\<not> isl (json_Marshal_string (VersionControlDetails.Branch strct)) \<and>
      json_Unmarshal_string (projr (json_Marshal_string (VersionControlDetails.Branch strct))) = Inr (VersionControlDetails.Branch strct)"
    by (rule round_tripsD [OF round_trips_string]) (use v' in simp)
  have f2: "\<not> isl (json_Marshal_ptr ''*sarif.ArtifactLocation'' (ArtifactLocation_MarshalJSON scn ord) (VersionControlDetails.MappedTo strct)) \<and>
      json_Unmarshal_ptr (ArtifactLocation_UnmarshalJSON ord') (projr (json_Marshal_ptr ''*sarif.ArtifactLocation'' (ArtifactLocation_MarshalJSON scn ord) (VersionControlDetails.MappedTo strct))) = Inr (VersionControlDetails.MappedTo strct)"
    by (rule round_tripsD [OF round_trips_ptr [OF ArtifactLocation_round_trips]]) (use v' in simp)
  have f3: "\<not> isl (json_Marshal_bytes ''*sarif.PropertyBag'' (PropertyBag_MarshalJSON scn ord) (VersionControlDetails.Properties strct)) \<and>
      json_Unmarshal_ptr (PropertyBag_UnmarshalJSON ord') (projr (json_Marshal_bytes ''*sarif.PropertyBag'' (PropertyBag_MarshalJSON scn ord) (VersionControlDetails.Properties strct))) = Inr (VersionControlDetails.Properties strct)"
    by (rule round_tripsD [OF PropertyBag_field_round_trips]) (use v' in simp)
  have f4: "\<not> isl (json_Marshal_string (VersionControlDetails.RepositoryUri strct)) \<and>
      json_Unmarshal_string (projr (json_Marshal_string (VersionControlDetails.RepositoryUri strct))) = Inr (VersionControlDetails.RepositoryUri strct)"
    by (rule round_tripsD [OF round_trips_string]) (use v' in simp)
  have f5: "\<not> isl (json_Marshal_string (VersionControlDetails.RevisionId strct)) \<and>
      json_Unmarshal_string (projr (json_Marshal_string (VersionControlDetails.RevisionId strct))) = Inr (VersionControlDetails.RevisionId strct)"
    by (rule round_tripsD [OF round_trips_string]) (use v' in simp)
  have f6: "\<not> isl (json_Marshal_string (VersionControlDetails.RevisionTag strct)) \<and>
      json_Unmarshal_string (projr (json_Marshal_string (VersionControlDetails.RevisionTag strct))) = Inr (VersionControlDetails.RevisionTag strct)"
    by (rule round_tripsD [OF round_trips_string]) (use v' in simp)
  note fs = f0 f1 f2 f3 f4 f5 f6
  have rs: "?rs =
     [(''asOfTimeUtc'', json_Marshal_string (VersionControlDetails.AsOfTimeUtc strct)),
      (''branch'', json_Marshal_string (VersionControlDetails.Branch strct)),
      (''mappedTo'', json_Marshal_ptr ''*sarif.ArtifactLocation'' (ArtifactLocation_MarshalJSON scn ord) (VersionControlDetails.MappedTo strct)),
      (''properties'', json_Marshal_bytes ''*sarif.PropertyBag'' (PropertyBag_MarshalJSON scn ord) (VersionControlDetails.Properties strct)),
      (''repositoryUri'', json_Marshal_string (VersionControlDetails.RepositoryUri strct)),
      (''revisionId'', json_Marshal_string (VersionControlDetails.RevisionId strct)),
      (''revisionTag'', json_Marshal_string (VersionControlDetails.RevisionTag strct))]"
    by (auto simp add: VersionControlDetails_results_def)
  have keys: "map fst ?rs = VersionControlDetails_keys"
    by (simp add: VersionControlDetails_results_def VersionControlDetails_keys_def)
  then have dist: "distinct (map fst ?rs)"
    by (simp only: VersionControlDetails_keys_distinct)
  have ok: "list_all (\<lambda>e. \<not> isl (snd e)) ?rs"
    unfolding rs by (simp only: list.pred_inject snd_conv fs simp_thms)
  then have enc: "VersionControlDetails_MarshalJSON scn ord strct = Inr (JObj ?kvs)"
    by (simp add: VersionControlDetails_MarshalJSON_results [of scn ord strct] object_emit_all_eq_Inr)
  have l0: "map_of (rev ?kvs) ''asOfTimeUtc'' = Some (projr (json_Marshal_string (VersionControlDetails.AsOfTimeUtc strct)))"
    by (rule written_lookup [OF dist]) (subst rs, intro list.set_intros)
  have l1: "map_of (rev ?kvs) ''branch'' = Some (projr (json_Marshal_string (VersionControlDetails.Branch strct)))"
    by (rule written_lookup [OF dist]) (subst rs, intro list.set_intros)
  have l2: "map_of (rev ?kvs) ''mappedTo'' = Some (projr (json_Marshal_ptr ''*sarif.ArtifactLocation'' (ArtifactLocation_MarshalJSON scn ord) (VersionControlDetails.MappedTo strct)))"
    by (rule written_lookup [OF dist]) (subst rs, intro list.set_intros)
  have l3: "map_of (rev ?kvs) ''properties'' = Some (projr (json_Marshal_bytes ''*sarif.PropertyBag'' (PropertyBag_MarshalJSON scn ord) (VersionControlDetails.Properties strct)))"
    by (rule written_lookup [OF dist]) (subst rs, intro list.set_intros)
  have l4: "map_of (rev ?kvs) ''repositoryUri'' = Some (projr (json_Marshal_string (VersionControlDetails.RepositoryUri strct)))"
    by (rule written_lookup [OF dist]) (subst rs, intro list.set_intros)
  have l5: "map_of (rev ?kvs) ''revisionId'' = Some (projr (json_Marshal_string (VersionControlDetails.RevisionId strct)))"
    by (rule written_lookup [OF dist]) (subst rs, intro list.set_intros)
  have l6: "map_of (rev ?kvs) ''revisionTag'' = Some (projr (json_Marshal_string (VersionControlDetails.RevisionTag strct)))"
    by (rule written_lookup [OF dist]) (subst rs, intro list.set_intros)
  have dec: "VersionControlDetails_decodes ord' (map_of (rev ?kvs)) strct"
    unfolding VersionControlDetails_decodes_def l0 l1 l2 l3 l4 l5 l6
    by (simp only: field_ok_Some fs written_dom keys subset_refl option.simps simp_thms)
  then have "VersionControlDetails_UnmarshalJSON ord' (JObj ?kvs) = Inr strct"
    by (simp only: VersionControlDetails_decode_iff)
  with enc show "rt_object (VersionControlDetails_MarshalJSON scn ord) (VersionControlDetails_UnmarshalJSON ord') strct"
    unfolding rt_object_def by blast
qed

definition VersionControlDetails_small_bags :: "VersionControlDetails \<Rightarrow> bool" where
  "VersionControlDetails_small_bags strct \<longleftrightarrow>
     ptr_all ArtifactLocation_small_bags (VersionControlDetails.MappedTo strct) \<and>
     ptr_all PropertyBag_small_bags (VersionControlDetails.Properties strct)"

lemma VersionControlDetails_same_output:
  "same_output (VersionControlDetails_MarshalJSON scn ord) (VersionControlDetails_MarshalJSON scn ord') VersionControlDetails_small_bags"
  unfolding same_output_def
proof (intro allI impI)
  fix strct assume v: "VersionControlDetails_small_bags strct"
  note v' = v [unfolded VersionControlDetails_small_bags_def]
  have e2: "json_Marshal_ptr ''*sarif.ArtifactLocation'' (ArtifactLocation_MarshalJSON scn ord) (VersionControlDetails.MappedTo strct) =
      json_Marshal_ptr ''*sarif.ArtifactLocation'' (ArtifactLocation_MarshalJSON scn ord') (VersionControlDetails.MappedTo strct)"
    by (rule same_outputD [OF same_output_ptr [OF ArtifactLocation_same_output]]) (use v' in simp)
  have e3: "json_Marshal_bytes ''*sarif.PropertyBag'' (PropertyBag_MarshalJSON scn ord) (VersionControlDetails.Properties strct) =
      json_Marshal_bytes ''*sarif.PropertyBag'' (PropertyBag_MarshalJSON scn ord') (VersionControlDetails.Properties strct)"
    by (rule same_outputD [OF PropertyBag_field_same_output]) (use v' in simp)
  show "VersionControlDetails_MarshalJSON scn ord strct = VersionControlDetails_MarshalJSON scn ord' strct"
    by (simp only: VersionControlDetails_MarshalJSON_def e2 e3)
qed

lemma VersionControlDetails_writes_keys: "writes_keys (VersionControlDetails_MarshalJSON scn ord) VersionControlDetails_keys"
  unfolding writes_keys_def by (intro allI impI) (erule VersionControlDetails_keys_written)

lemma VersionControlDetails_unknown_key:
  assumes new: "k \<notin> set VersionControlDetails_keys" and key: "k \<in> fst ` set kvs"
    and rest: "VersionControlDetails_UnmarshalJSON ord (JObj (filter (\<lambda>e. fst e \<noteq> k) kvs)) = Inr strct"
  shows "VersionControlDetails_UnmarshalJSON ord (JObj kvs) = Inl (not_allowed k)"
proof -
  have rej: "switch k (VersionControlDetails_cases ord v) (reject k) s = Inl (not_allowed k)" for v s
    by (rule switch_rejects) (simp only: VersionControlDetails_cases_keys new not_False_eq_True)
  from rest obtain t where
    "range_loop (\<lambda>k v. switch k (VersionControlDetails_cases ord v) (reject k)) (members ord (filter (\<lambda>e. fst e \<noteq> k) kvs)) (VersionControlDetails_zero, False) = Inr t"
    by (cases "range_loop (\<lambda>k v. switch k (VersionControlDetails_cases ord v) (reject k)) (members ord (filter (\<lambda>e. fst e \<noteq> k) kvs)) (VersionControlDetails_zero, False)")
       (simp_all add: VersionControlDetails_UnmarshalJSON_def members_def)
  from unknown_key_named [OF VersionControlDetails_regular rej key this]
  show ?thesis by (simp add: VersionControlDetails_UnmarshalJSON_def members_def)
qed

lemma VersionControlDetails_unknown_key_fails:
  assumes "k \<notin> set VersionControlDetails_keys" and "k \<in> fst ` set kvs"
  shows "isl (VersionControlDetails_UnmarshalJSON ord (JObj kvs))"
proof (cases "VersionControlDetails_UnmarshalJSON ord (JObj kvs)")
  case (Inr strct)
  then have "dom (map_of (rev kvs)) \<subseteq> set VersionControlDetails_keys"
    by (simp only: VersionControlDetails_decode_iff VersionControlDetails_decodesD(1))
  with assms show ?thesis by (auto simp: dom_map_of_conv_image_fst)
qed simp

lemma VersionControlDetails_required_present:
  assumes "VersionControlDetails_UnmarshalJSON ord (JObj kvs) = Inr strct"
  shows "''repositoryUri'' \<in> fst ` set kvs"
proof -
  from assms have d: "VersionControlDetails_decodes ord (map_of (rev kvs)) strct" by (simp only: VersionControlDetails_decode_iff)
  show "''repositoryUri'' \<in> fst ` set kvs"
    using VersionControlDetails_decodesD(9) [OF d]
    by (simp_all only: present_key)
qed

lemma VersionControlDetails_without_RepositoryUri:
  assumes "VersionControlDetails_UnmarshalJSON ord (JObj kvs) = Inr strct"
  shows "VersionControlDetails_UnmarshalJSON ord (JObj (filter (\<lambda>e. fst e \<noteq> ''repositoryUri'') kvs)) =
    Inl (RequiredNotPresent ''repositoryUri'')"
proof -
  from assms have d: "VersionControlDetails_decodes ord (map_of (rev kvs)) strct" by (simp only: VersionControlDetails_decode_iff)
  have "\<exists>t. range_loop (\<lambda>k v. switch k (VersionControlDetails_cases ord v) (reject k)) (members ord (filter (\<lambda>e. fst e \<noteq> ''repositoryUri'') kvs))
      (VersionControlDetails_zero, False) = Inr t"
  proof (rule loop_succeeds [OF VersionControlDetails_regular])
    fix k v assume "(k, v) \<in> set (members ord (filter (\<lambda>e. fst e \<noteq> ''repositoryUri'') kvs))"
    then have "map_of (rev kvs) k = Some v" by (rule member_lookup_filter)
    from VersionControlDetails_accepts [OF d this]
    show "accepting (switch k (VersionControlDetails_cases ord v) (reject k))" .
  qed
  then obtain t where "range_loop (\<lambda>k v. switch k (VersionControlDetails_cases ord v) (reject k)) (members ord (filter (\<lambda>e. fst e \<noteq> ''repositoryUri'') kvs))
      (VersionControlDetails_zero, False) = Inr t" ..
  then obtain strct' repositoryUriReceived where
    loop: "range_loop (\<lambda>k v. switch k (VersionControlDetails_cases ord v) (reject k)) (members ord (filter (\<lambda>e. fst e \<noteq> ''repositoryUri'') kvs))
      (VersionControlDetails_zero, False) = Inr (strct', repositoryUriReceived)"
    by (cases t) auto
  from VersionControlDetails_loop_sound [OF loop] VersionControlDetails_decodesD(9) [OF d]
  have "\<not> repositoryUriReceived"
    by (simp_all add: lookup_filter)
  with loop show ?thesis
    by (simp add: VersionControlDetails_UnmarshalJSON_def members_def)
qed


lemma VersionControlDetails_rejects_unknown_keys: "rejects_unknown_keys (VersionControlDetails_UnmarshalJSON ord) VersionControlDetails_keys"
  by (rule rejects_unknown_keysI) (erule (1) VersionControlDetails_unknown_key_fails, erule (2) VersionControlDetails_unknown_key)

lemma VersionControlDetails_requires_RepositoryUri: "requires_key (VersionControlDetails_UnmarshalJSON ord) ''repositoryUri''"
  by (rule requires_keyI) (erule VersionControlDetails_required_present(1), erule VersionControlDetails_without_RepositoryUri)


subsection \<open>Run: decoding and encoding\<close>

definition Run_keys :: "string list" where
  "Run_keys = [''addresses'', ''artifacts'', ''automationDetails'', ''baselineGuid'', ''columnKind'', ''conversion'', ''defaultEncoding'', ''defaultSourceLanguage'', ''externalPropertyFileReferences'', ''graphs'', ''invocations'', ''language'', ''logicalLocations'', ''newlineSequences'', ''originalUriBaseIds'', ''policies'', ''properties'', ''redactionTokens'', ''results'', ''runAggregates'', ''specialLocations'', ''taxonomies'', ''threadFlowLocations'', ''tool'', ''translations'', ''versionControlProvenance'', ''webRequests'', ''webResponses'']"

definition Run_decodes :: "order \<Rightarrow> (string \<rightharpoonup> json) \<Rightarrow> Run \<Rightarrow> bool" where
  "Run_decodes ord m strct \<longleftrightarrow>
     dom m \<subseteq> set Run_keys \<and>
     field_ok (json_Unmarshal_slice (json_Unmarshal_ptr (Address_UnmarshalJSON ord))) (m ''addresses'') None (Run.Addresses strct) \<and>
     field_ok (json_Unmarshal_slice (json_Unmarshal_ptr (Artifact_UnmarshalJSON ord))) (m ''artifacts'') None (Run.Artifacts strct) \<and>
     field_ok (json_Unmarshal_ptr (RunAutomationDetails_UnmarshalJSON ord)) (m ''automationDetails'') None (Run.AutomationDetails strct) \<and>
     field_ok json_Unmarshal_string (m ''baselineGuid'') [] (Run.BaselineGuid strct) \<and>
     field_ok json_Unmarshal_string (m ''columnKind'') [] (Run.ColumnKind strct) \<and>
     field_ok (json_Unmarshal_ptr (Conversion_UnmarshalJSON ord)) (m ''conversion'') None (Run.Conversion strct) \<and>
     field_ok json_Unmarshal_string (m ''defaultEncoding'') [] (Run.DefaultEncoding strct) \<and>
     field_ok json_Unmarshal_string (m ''defaultSourceLanguage'') [] (Run.DefaultSourceLanguage strct) \<and>
     field_ok (json_Unmarshal_ptr (ExternalPropertyFileReferences_UnmarshalJSON ord)) (m ''externalPropertyFileReferences'') None (Run.ExternalPropertyFileReferences strct) \<and>
     field_ok (json_Unmarshal_slice (json_Unmarshal_ptr (Graph_UnmarshalJSON ord))) (m ''graphs'') None (Run.Graphs strct) \<and>
     field_ok (json_Unmarshal_slice (json_Unmarshal_ptr (Invocation_UnmarshalJSON ord))) (m ''invocations'') None (Run.Invocations strct) \<and>
     field_ok json_Unmarshal_string (m ''language'') [] (Run.Language strct) \<and>
     field_ok (json_Unmarshal_slice (json_Unmarshal_ptr (LogicalLocation_UnmarshalJSON ord))) (m ''logicalLocations'') None (Run.LogicalLocations strct) \<and>
     field_ok (json_Unmarshal_slice json_Unmarshal_string) (m ''newlineSequences'') None (Run.NewlineSequences strct) \<and>
     field_ok (json_Unmarshal_map (json_Unmarshal_ptr (ArtifactLocation_UnmarshalJSON ord))) (m ''originalUriBaseIds'') None (Run.OriginalUriBaseIds strct) \<and>
     field_ok (json_Unmarshal_slice (json_Unmarshal_ptr (ToolComponent_UnmarshalJSON ord))) (m ''policies'') None (Run.Policies strct) \<and>
     field_ok (json_Unmarshal_ptr (PropertyBag_UnmarshalJSON ord)) (m ''properties'') None (Run.Properties strct) \<and>
     field_ok (json_Unmarshal_slice json_Unmarshal_string) (m ''redactionTokens'') None (Run.RedactionTokens strct) \<and>
     field_ok (json_Unmarshal_slice (json_Unmarshal_ptr (Result_UnmarshalJSON ord))) (m ''results'') None (Run.Results strct) \<and>
     field_ok (json_Unmarshal_slice (json_Unmarshal_ptr (RunAutomationDetails_UnmarshalJSON ord))) (m ''runAggregates'') None (Run.RunAggregates strct) \<and>
     field_ok (json_Unmarshal_ptr (SpecialLocations_UnmarshalJSON ord)) (m ''specialLocations'') None (Run.SpecialLocations strct) \<and>
     field_ok (json_Unmarshal_slice (json_Unmarshal_ptr (ToolComponent_UnmarshalJSON ord))) (m ''taxonomies'') None (Run.Taxonomies strct) \<and>
     field_ok (json_Unmarshal_slice (json_Unmarshal_ptr (ThreadFlowLocation_UnmarshalJSON ord))) (m ''threadFlowLocations'') None (Run.ThreadFlowLocations strct) \<and>
     field_ok (json_Unmarshal_ptr (Tool_UnmarshalJSON ord)) (m ''tool'') None (Run.Tool strct) \<and>
     field_ok (json_Unmarshal_slice (json_Unmarshal_ptr (ToolComponent_UnmarshalJSON ord))) (m ''translations'') None (Run.Translations strct) \<and>
     field_ok (json_Unmarshal_slice (json_Unmarshal_ptr (VersionControlDetails_UnmarshalJSON ord))) (m ''versionControlProvenance'') None (Run.VersionControlProvenance strct) \<and>
     field_ok (json_Unmarshal_slice (json_Unmarshal_ptr (WebRequest_UnmarshalJSON ord))) (m ''webRequests'') None (Run.WebRequests strct) \<and>
     field_ok (json_Unmarshal_slice (json_Unmarshal_ptr (WebResponse_UnmarshalJSON ord))) (m ''webResponses'') None (Run.WebResponses strct) \<and>
     m ''tool'' \<noteq> None"

lemma Run_cases_keys: "fst ` set (Run_cases ord v) = set Run_keys"
  by (rule keys_image) (simp add: Run_cases_def Run_keys_def)

lemma Run_regular: "regular (\<lambda>k v. switch k (Run_cases ord v) (reject k))"
  by (rule regular_switch) (simp add: Run_cases_def)

lemma Run_fields:
  "field_case (Run_cases ord) (\<lambda>(strct, toolReceived). Run.Addresses strct) ''addresses'' (json_Unmarshal_slice (json_Unmarshal_ptr (Address_UnmarshalJSON ord)))"
  "field_case (Run_cases ord) (\<lambda>(strct, toolReceived). Run.Artifacts strct) ''artifacts'' (json_Unmarshal_slice (json_Unmarshal_ptr (Artifact_UnmarshalJSON ord)))"
  "field_case (Run_cases ord) (\<lambda>(strct, toolReceived). Run.AutomationDetails strct) ''automationDetails'' (json_Unmarshal_ptr (RunAutomationDetails_UnmarshalJSON ord))"
  "field_case (Run_cases ord) (\<lambda>(strct, toolReceived). Run.BaselineGuid strct) ''baselineGuid'' json_Unmarshal_string"
  "field_case (Run_cases ord) (\<lambda>(strct, toolReceived). Run.ColumnKind strct) ''columnKind'' json_Unmarshal_string"
  "field_case (Run_cases ord) (\<lambda>(strct, toolReceived). Run.Conversion strct) ''conversion'' (json_Unmarshal_ptr (Conversion_UnmarshalJSON ord))"
  "field_case (Run_cases ord) (\<lambda>(strct, toolReceived). Run.DefaultEncoding strct) ''defaultEncoding'' json_Unmarshal_string"
  "field_case (Run_cases ord) (\<lambda>(strct, toolReceived). Run.DefaultSourceLanguage strct) ''defaultSourceLanguage'' json_Unmarshal_string"
  "field_case (Run_cases ord) (\<lambda>(strct, toolReceived). Run.ExternalPropertyFileReferences strct) ''externalPropertyFileReferences'' (json_Unmarshal_ptr (ExternalPropertyFileReferences_UnmarshalJSON ord))"
  "field_case (Run_cases ord) (\<lambda>(strct, toolReceived). Run.Graphs strct) ''graphs'' (json_Unmarshal_slice (json_Unmarshal_ptr (Graph_UnmarshalJSON ord)))"
  "field_case (Run_cases ord) (\<lambda>(strct, toolReceived). Run.Invocations strct) ''invocations'' (json_Unmarshal_slice (json_Unmarshal_ptr (Invocation_UnmarshalJSON ord)))"
  "field_case (Run_cases ord) (\<lambda>(strct, toolReceived). Run.Language strct) ''language'' json_Unmarshal_string"
  "field_case (Run_cases ord) (\<lambda>(strct, toolReceived). Run.LogicalLocations strct) ''logicalLocations'' (json_Unmarshal_slice (json_Unmarshal_ptr (LogicalLocation_UnmarshalJSON ord)))"
  "field_case (Run_cases ord) (\<lambda>(strct, toolReceived). Run.NewlineSequences strct) ''newlineSequences'' (json_Unmarshal_slice json_Unmarshal_string)"
  "field_case (Run_cases ord) (\<lambda>(strct, toolReceived). Run.OriginalUriBaseIds strct) ''originalUriBaseIds'' (json_Unmarshal_map (json_Unmarshal_ptr (ArtifactLocation_UnmarshalJSON ord)))"
  "field_case (Run_cases ord) (\<lambda>(strct, toolReceived). Run.Policies strct) ''policies'' (json_Unmarshal_slice (json_Unmarshal_ptr (ToolComponent_UnmarshalJSON ord)))"
  "field_case (Run_cases ord) (\<lambda>(strct, toolReceived). Run.Properties strct) ''properties'' (json_Unmarshal_ptr (PropertyBag_UnmarshalJSON ord))"
  "field_case (Run_cases ord) (\<lambda>(strct, toolReceived). Run.RedactionTokens strct) ''redactionTokens'' (json_Unmarshal_slice json_Unmarshal_string)"
  "field_case (Run_cases ord) (\<lambda>(strct, toolReceived). Run.Results strct) ''results'' (json_Unmarshal_slice (json_Unmarshal_ptr (Result_UnmarshalJSON ord)))"
  "field_case (Run_cases ord) (\<lambda>(strct, toolReceived). Run.RunAggregates strct) ''runAggregates'' (json_Unmarshal_slice (json_Unmarshal_ptr (RunAutomationDetails_UnmarshalJSON ord)))"
  "field_case (Run_cases ord) (\<lambda>(strct, toolReceived). Run.SpecialLocations strct) ''specialLocations'' (json_Unmarshal_ptr (SpecialLocations_UnmarshalJSON ord))"
  "field_case (Run_cases ord) (\<lambda>(strct, toolReceived). Run.Taxonomies strct) ''taxonomies'' (json_Unmarshal_slice (json_Unmarshal_ptr (ToolComponent_UnmarshalJSON ord)))"
  "field_case (Run_cases ord) (\<lambda>(strct, toolReceived). Run.ThreadFlowLocations strct) ''threadFlowLocations'' (json_Unmarshal_slice (json_Unmarshal_ptr (ThreadFlowLocation_UnmarshalJSON ord)))"
  "field_case (Run_cases ord) (\<lambda>(strct, toolReceived). Run.Tool strct) ''tool'' (json_Unmarshal_ptr (Tool_UnmarshalJSON ord))"
  "field_case (Run_cases ord) (\<lambda>(strct, toolReceived). Run.Translations strct) ''translations'' (json_Unmarshal_slice (json_Unmarshal_ptr (ToolComponent_UnmarshalJSON ord)))"
  "field_case (Run_cases ord) (\<lambda>(strct, toolReceived). Run.VersionControlProvenance strct) ''versionControlProvenance'' (json_Unmarshal_slice (json_Unmarshal_ptr (VersionControlDetails_UnmarshalJSON ord)))"
  "field_case (Run_cases ord) (\<lambda>(strct, toolReceived). Run.WebRequests strct) ''webRequests'' (json_Unmarshal_slice (json_Unmarshal_ptr (WebRequest_UnmarshalJSON ord)))"
  "field_case (Run_cases ord) (\<lambda>(strct, toolReceived). Run.WebResponses strct) ''webResponses'' (json_Unmarshal_slice (json_Unmarshal_ptr (WebResponse_UnmarshalJSON ord)))"
  "field_case (Run_cases ord) (\<lambda>(strct, toolReceived). toolReceived) ''tool'' (received (json_Unmarshal_ptr (Tool_UnmarshalJSON ord)))"
  unfolding field_case_def Run_cases_def
  by (simp_all add: writes_into writes_received keeps_into split_def)

lemma Run_loop_sound:
  assumes loop: "range_loop (\<lambda>k v. switch k (Run_cases ord v) (reject k)) (members ord kvs) (Run_zero, False) = Inr (strct, toolReceived)"
  shows "dom (map_of (rev kvs)) \<subseteq> set Run_keys \<and>
     field_ok (json_Unmarshal_slice (json_Unmarshal_ptr (Address_UnmarshalJSON ord))) (map_of (rev kvs) ''addresses'') None (Run.Addresses strct) \<and>
     field_ok (json_Unmarshal_slice (json_Unmarshal_ptr (Artifact_UnmarshalJSON ord))) (map_of (rev kvs) ''artifacts'') None (Run.Artifacts strct) \<and>
     field_ok (json_Unmarshal_ptr (RunAutomationDetails_UnmarshalJSON ord)) (map_of (rev kvs) ''automationDetails'') None (Run.AutomationDetails strct) \<and>
     field_ok json_Unmarshal_string (map_of (rev kvs) ''baselineGuid'') [] (Run.BaselineGuid strct) \<and>
     field_ok json_Unmarshal_string (map_of (rev kvs) ''columnKind'') [] (Run.ColumnKind strct) \<and>
     field_ok (json_Unmarshal_ptr (Conversion_UnmarshalJSON ord)) (map_of (rev kvs) ''conversion'') None (Run.Conversion strct) \<and>
     field_ok json_Unmarshal_string (map_of (rev kvs) ''defaultEncoding'') [] (Run.DefaultEncoding strct) \<and>
     field_ok json_Unmarshal_string (map_of (rev kvs) ''defaultSourceLanguage'') [] (Run.DefaultSourceLanguage strct) \<and>
     field_ok (json_Unmarshal_ptr (ExternalPropertyFileReferences_UnmarshalJSON ord)) (map_of (rev kvs) ''externalPropertyFileReferences'') None (Run.ExternalPropertyFileReferences strct) \<and>
     field_ok (json_Unmarshal_slice (json_Unmarshal_ptr (Graph_UnmarshalJSON ord))) (map_of (rev kvs) ''graphs'') None (Run.Graphs strct) \<and>
     field_ok (json_Unmarshal_slice (json_Unmarshal_ptr (Invocation_UnmarshalJSON ord))) (map_of (rev kvs) ''invocations'') None (Run.Invocations strct) \<and>
     field_ok json_Unmarshal_string (map_of (rev kvs) ''language'') [] (Run.Language strct) \<and>
     field_ok (json_Unmarshal_slice (json_Unmarshal_ptr (LogicalLocation_UnmarshalJSON ord))) (map_of (rev kvs) ''logicalLocations'') None (Run.LogicalLocations strct) \<and>
     field_ok (json_Unmarshal_slice json_Unmarshal_string) (map_of (rev kvs) ''newlineSequences'') None (Run.NewlineSequences strct) \<and>
     field_ok (json_Unmarshal_map (json_Unmarshal_ptr (ArtifactLocation_UnmarshalJSON ord))) (map_of (rev kvs) ''originalUriBaseIds'') None (Run.OriginalUriBaseIds strct) \<and>
     field_ok (json_Unmarshal_slice (json_Unmarshal_ptr (ToolComponent_UnmarshalJSON ord))) (map_of (rev kvs) ''policies'') None (Run.Policies strct) \<and>
     field_ok (json_Unmarshal_ptr (PropertyBag_UnmarshalJSON ord)) (map_of (rev kvs) ''properties'') None (Run.Properties strct) \<and>
     field_ok (json_Unmarshal_slice json_Unmarshal_string) (map_of (rev kvs) ''redactionTokens'') None (Run.RedactionTokens strct) \<and>
     field_ok (json_Unmarshal_slice (json_Unmarshal_ptr (Result_UnmarshalJSON ord))) (map_of (rev kvs) ''results'') None (Run.Results strct) \<and>
     field_ok (json_Unmarshal_slice (json_Unmarshal_ptr (RunAutomationDetails_UnmarshalJSON ord))) (map_of (rev kvs) ''runAggregates'') None (Run.RunAggregates strct) \<and>
     field_ok (json_Unmarshal_ptr (SpecialLocations_UnmarshalJSON ord)) (map_of (rev kvs) ''specialLocations'') None (Run.SpecialLocations strct) \<and>
     field_ok (json_Unmarshal_slice (json_Unmarshal_ptr (ToolComponent_UnmarshalJSON ord))) (map_of (rev kvs) ''taxonomies'') None (Run.Taxonomies strct) \<and>
     field_ok (json_Unmarshal_slice (json_Unmarshal_ptr (ThreadFlowLocation_UnmarshalJSON ord))) (map_of (rev kvs) ''threadFlowLocations'') None (Run.ThreadFlowLocations strct) \<and>
     field_ok (json_Unmarshal_ptr (Tool_UnmarshalJSON ord)) (map_of (rev kvs) ''tool'') None (Run.Tool strct) \<and>
     field_ok (json_Unmarshal_slice (json_Unmarshal_ptr (ToolComponent_UnmarshalJSON ord))) (map_of (rev kvs) ''translations'') None (Run.Translations strct) \<and>
     field_ok (json_Unmarshal_slice (json_Unmarshal_ptr (VersionControlDetails_UnmarshalJSON ord))) (map_of (rev kvs) ''versionControlProvenance'') None (Run.VersionControlProvenance strct) \<and>
     field_ok (json_Unmarshal_slice (json_Unmarshal_ptr (WebRequest_UnmarshalJSON ord))) (map_of (rev kvs) ''webRequests'') None (Run.WebRequests strct) \<and>
     field_ok (json_Unmarshal_slice (json_Unmarshal_ptr (WebResponse_UnmarshalJSON ord))) (map_of (rev kvs) ''webResponses'') None (Run.WebResponses strct) \<and>
     (toolReceived \<longleftrightarrow> map_of (rev kvs) ''tool'' \<noteq> None)"
proof -
  have "fst ` set (members ord kvs) \<subseteq> set Run_keys"
    by (rule loop_keys_known [OF loop]) (rule Run_cases_keys)
  then have keys: "dom (map_of (rev kvs)) \<subseteq> set Run_keys"
    by (simp add: dom_members [of kvs ord])
  note fld = field_after_loop [OF _ members_distinct loop, unfolded map_of_members]
  note flg = flag_after_loop [OF _ members_distinct loop, unfolded map_of_members]
  show ?thesis
    using keys fld [OF Run_fields(1)] fld [OF Run_fields(2)] fld [OF Run_fields(3)] fld [OF Run_fields(4)] fld [OF Run_fields(5)] fld [OF Run_fields(6)] fld [OF Run_fields(7)] fld [OF Run_fields(8)] fld [OF Run_fields(9)] fld [OF Run_fields(10)] fld [OF Run_fields(11)] fld [OF Run_fields(12)] fld [OF Run_fields(13)] fld [OF Run_fields(14)] fld [OF Run_fields(15)] fld [OF Run_fields(16)] fld [OF Run_fields(17)] fld [OF Run_fields(18)] fld [OF Run_fields(19)] fld [OF Run_fields(20)] fld [OF Run_fields(21)] fld [OF Run_fields(22)] fld [OF Run_fields(23)] fld [OF Run_fields(24)] fld [OF Run_fields(25)] fld [OF Run_fields(26)] fld [OF Run_fields(27)] fld [OF Run_fields(28)] flg [OF Run_fields(29)]
    by (simp only: prod.case Run_zero_def Run.select_convs simp_thms)
qed

lemma Run_decodesD:
  assumes "Run_decodes ord m strct"
  shows "dom m \<subseteq> set Run_keys"
    and "field_ok (json_Unmarshal_slice (json_Unmarshal_ptr (Address_UnmarshalJSON ord))) (m ''addresses'') None (Run.Addresses strct)"
    and "field_ok (json_Unmarshal_slice (json_Unmarshal_ptr (Artifact_UnmarshalJSON ord))) (m ''artifacts'') None (Run.Artifacts strct)"
    and "field_ok (json_Unmarshal_ptr (RunAutomationDetails_UnmarshalJSON ord)) (m ''automationDetails'') None (Run.AutomationDetails strct)"
    and "field_ok json_Unmarshal_string (m ''baselineGuid'') [] (Run.BaselineGuid strct)"
    and "field_ok json_Unmarshal_string (m ''columnKind'') [] (Run.ColumnKind strct)"
    and "field_ok (json_Unmarshal_ptr (Conversion_UnmarshalJSON ord)) (m ''conversion'') None (Run.Conversion strct)"
    and "field_ok json_Unmarshal_string (m ''defaultEncoding'') [] (Run.DefaultEncoding strct)"
    and "field_ok json_Unmarshal_string (m ''defaultSourceLanguage'') [] (Run.DefaultSourceLanguage strct)"
    and "field_ok (json_Unmarshal_ptr (ExternalPropertyFileReferences_UnmarshalJSON ord)) (m ''externalPropertyFileReferences'') None (Run.ExternalPropertyFileReferences strct)"
    and "field_ok (json_Unmarshal_slice (json_Unmarshal_ptr (Graph_UnmarshalJSON ord))) (m ''graphs'') None (Run.Graphs strct)"
    and "field_ok (json_Unmarshal_slice (json_Unmarshal_ptr (Invocation_UnmarshalJSON ord))) (m ''invocations'') None (Run.Invocations strct)"
    and "field_ok json_Unmarshal_string (m ''language'') [] (Run.Language strct)"
    and "field_ok (json_Unmarshal_slice (json_Unmarshal_ptr (LogicalLocation_UnmarshalJSON ord))) (m ''logicalLocations'') None (Run.LogicalLocations strct)"
    and "field_ok (json_Unmarshal_slice json_Unmarshal_string) (m ''newlineSequences'') None (Run.NewlineSequences strct)"
    and "field_ok (json_Unmarshal_map (json_Unmarshal_ptr (ArtifactLocation_UnmarshalJSON ord))) (m ''originalUriBaseIds'') None (Run.OriginalUriBaseIds strct)"
    and "field_ok (json_Unmarshal_slice (json_Unmarshal_ptr (ToolComponent_UnmarshalJSON ord))) (m ''policies'') None (Run.Policies strct)"
    and "field_ok (json_Unmarshal_ptr (PropertyBag_UnmarshalJSON ord)) (m ''properties'') None (Run.Properties strct)"
    and "field_ok (json_Unmarshal_slice json_Unmarshal_string) (m ''redactionTokens'') None (Run.RedactionTokens strct)"
    and "field_ok (json_Unmarshal_slice (json_Unmarshal_ptr (Result_UnmarshalJSON ord))) (m ''results'') None (Run.Results strct)"
    and "field_ok (json_Unmarshal_slice (json_Unmarshal_ptr (RunAutomationDetails_UnmarshalJSON ord))) (m ''runAggregates'') None (Run.RunAggregates strct)"
    and "field_ok (json_Unmarshal_ptr (SpecialLocations_UnmarshalJSON ord)) (m ''specialLocations'') None (Run.SpecialLocations strct)"
    and "field_ok (json_Unmarshal_slice (json_Unmarshal_ptr (ToolComponent_UnmarshalJSON ord))) (m ''taxonomies'') None (Run.Taxonomies strct)"
    and "field_ok (json_Unmarshal_slice (json_Unmarshal_ptr (ThreadFlowLocation_UnmarshalJSON ord))) (m ''threadFlowLocations'') None (Run.ThreadFlowLocations strct)"
    and "field_ok (json_Unmarshal_ptr (Tool_UnmarshalJSON ord)) (m ''tool'') None (Run.Tool strct)"
    and "field_ok (json_Unmarshal_slice (json_Unmarshal_ptr (ToolComponent_UnmarshalJSON ord))) (m ''translations'') None (Run.Translations strct)"
    and "field_ok (json_Unmarshal_slice (json_Unmarshal_ptr (VersionControlDetails_UnmarshalJSON ord))) (m ''versionControlProvenance'') None (Run.VersionControlProvenance strct)"
    and "field_ok (json_Unmarshal_slice (json_Unmarshal_ptr (WebRequest_UnmarshalJSON ord))) (m ''webRequests'') None (Run.WebRequests strct)"
    and "field_ok (json_Unmarshal_slice (json_Unmarshal_ptr (WebResponse_UnmarshalJSON ord))) (m ''webResponses'') None (Run.WebResponses strct)"
    and "m ''tool'' \<noteq> None"
  using assms unfolding Run_decodes_def by - (elim conjE, assumption)+

lemma Run_decodes_unique:
  assumes "Run_decodes ord m a" and "Run_decodes ord m b"
  shows "a = b"
  apply (rule Run.equality)
  apply (rule field_ok_unique [OF Run_decodesD(2) [OF assms(1)] Run_decodesD(2) [OF assms(2)]])
  apply (rule field_ok_unique [OF Run_decodesD(3) [OF assms(1)] Run_decodesD(3) [OF assms(2)]])
  apply (rule field_ok_unique [OF Run_decodesD(4) [OF assms(1)] Run_decodesD(4) [OF assms(2)]])
  apply (rule field_ok_unique [OF Run_decodesD(5) [OF assms(1)] Run_decodesD(5) [OF assms(2)]])
  apply (rule field_ok_unique [OF Run_decodesD(6) [OF assms(1)] Run_decodesD(6) [OF assms(2)]])
  apply (rule field_ok_unique [OF Run_decodesD(7) [OF assms(1)] Run_decodesD(7) [OF assms(2)]])
  apply (rule field_ok_unique [OF Run_decodesD(8) [OF assms(1)] Run_decodesD(8) [OF assms(2)]])
  apply (rule field_ok_unique [OF Run_decodesD(9) [OF assms(1)] Run_decodesD(9) [OF assms(2)]])
  apply (rule field_ok_unique [OF Run_decodesD(10) [OF assms(1)] Run_decodesD(10) [OF assms(2)]])
  apply (rule field_ok_unique [OF Run_decodesD(11) [OF assms(1)] Run_decodesD(11) [OF assms(2)]])
  apply (rule field_ok_unique [OF Run_decodesD(12) [OF assms(1)] Run_decodesD(12) [OF assms(2)]])
  apply (rule field_ok_unique [OF Run_decodesD(13) [OF assms(1)] Run_decodesD(13) [OF assms(2)]])
  apply (rule field_ok_unique [OF Run_decodesD(14) [OF assms(1)] Run_decodesD(14) [OF assms(2)]])
  apply (rule field_ok_unique [OF Run_decodesD(15) [OF assms(1)] Run_decodesD(15) [OF assms(2)]])
  apply (rule field_ok_unique [OF Run_decodesD(16) [OF assms(1)] Run_decodesD(16) [OF assms(2)]])
  apply (rule field_ok_unique [OF Run_decodesD(17) [OF assms(1)] Run_decodesD(17) [OF assms(2)]])
  apply (rule field_ok_unique [OF Run_decodesD(18) [OF assms(1)] Run_decodesD(18) [OF assms(2)]])
  apply (rule field_ok_unique [OF Run_decodesD(19) [OF assms(1)] Run_decodesD(19) [OF assms(2)]])
  apply (rule field_ok_unique [OF Run_decodesD(20) [OF assms(1)] Run_decodesD(20) [OF assms(2)]])
  apply (rule field_ok_unique [OF Run_decodesD(21) [OF assms(1)] Run_decodesD(21) [OF assms(2)]])
  apply (rule field_ok_unique [OF Run_decodesD(22) [OF assms(1)] Run_decodesD(22) [OF assms(2)]])
  apply (rule field_ok_unique [OF Run_decodesD(23) [OF assms(1)] Run_decodesD(23) [OF assms(2)]])
  apply (rule field_ok_unique [OF Run_decodesD(24) [OF assms(1)] Run_decodesD(24) [OF assms(2)]])
  apply (rule field_ok_unique [OF Run_decodesD(25) [OF assms(1)] Run_decodesD(25) [OF assms(2)]])
  apply (rule field_ok_unique [OF Run_decodesD(26) [OF assms(1)] Run_decodesD(26) [OF assms(2)]])
  apply (rule field_ok_unique [OF Run_decodesD(27) [OF assms(1)] Run_decodesD(27) [OF assms(2)]])
  apply (rule field_ok_unique [OF Run_decodesD(28) [OF assms(1)] Run_decodesD(28) [OF assms(2)]])
  apply (rule field_ok_unique [OF Run_decodesD(29) [OF assms(1)] Run_decodesD(29) [OF assms(2)]])
  apply simp
  done

lemma Run_accepts:
  assumes "Run_decodes ord m strct" and "m k = Some v"
  shows "accepting (switch k (Run_cases ord v) (reject k))"
proof -
  from assms have "k \<in> set Run_keys" by (auto simp: Run_decodes_def)
  then have key: "k \<in> fst ` set (Run_cases ord v)"
    by (simp only: Run_cases_keys)
  have rows: "list_all (\<lambda>(c, h). m c = Some v \<longrightarrow> accepting h) (Run_cases ord v)"
    unfolding Run_cases_def list.pred_inject
    apply (rule conjI [OF accept_row [where m = m and v = v, OF Run_decodesD(2) [OF assms(1)]]])
    apply (rule conjI [OF accept_row [where m = m and v = v, OF Run_decodesD(3) [OF assms(1)]]])
    apply (rule conjI [OF accept_row [where m = m and v = v, OF Run_decodesD(4) [OF assms(1)]]])
    apply (rule conjI [OF accept_row [where m = m and v = v, OF Run_decodesD(5) [OF assms(1)]]])
    apply (rule conjI [OF accept_row [where m = m and v = v, OF Run_decodesD(6) [OF assms(1)]]])
    apply (rule conjI [OF accept_row [where m = m and v = v, OF Run_decodesD(7) [OF assms(1)]]])
    apply (rule conjI [OF accept_row [where m = m and v = v, OF Run_decodesD(8) [OF assms(1)]]])
    apply (rule conjI [OF accept_row [where m = m and v = v, OF Run_decodesD(9) [OF assms(1)]]])
    apply (rule conjI [OF accept_row [where m = m and v = v, OF Run_decodesD(10) [OF assms(1)]]])
    apply (rule conjI [OF accept_row [where m = m and v = v, OF Run_decodesD(11) [OF assms(1)]]])
    apply (rule conjI [OF accept_row [where m = m and v = v, OF Run_decodesD(12) [OF assms(1)]]])
    apply (rule conjI [OF accept_row [where m = m and v = v, OF Run_decodesD(13) [OF assms(1)]]])
    apply (rule conjI [OF accept_row [where m = m and v = v, OF Run_decodesD(14) [OF assms(1)]]])
    apply (rule conjI [OF accept_row [where m = m and v = v, OF Run_decodesD(15) [OF assms(1)]]])
    apply (rule conjI [OF accept_row [where m = m and v = v, OF Run_decodesD(16) [OF assms(1)]]])
    apply (rule conjI [OF accept_row [where m = m and v = v, OF Run_decodesD(17) [OF assms(1)]]])
    apply (rule conjI [OF accept_row [where m = m and v = v, OF Run_decodesD(18) [OF assms(1)]]])
    apply (rule conjI [OF accept_row [where m = m and v = v, OF Run_decodesD(19) [OF assms(1)]]])
    apply (rule conjI [OF accept_row [where m = m and v = v, OF Run_decodesD(20) [OF assms(1)]]])
    apply (rule conjI [OF accept_row [where m = m and v = v, OF Run_decodesD(21) [OF assms(1)]]])
    apply (rule conjI [OF accept_row [where m = m and v = v, OF Run_decodesD(22) [OF assms(1)]]])
    apply (rule conjI [OF accept_row [where m = m and v = v, OF Run_decodesD(23) [OF assms(1)]]])
    apply (rule conjI [OF accept_row [where m = m and v = v, OF Run_decodesD(24) [OF assms(1)]]])
    apply (rule conjI [OF accept_row [where m = m and v = v, OF Run_decodesD(25) [OF assms(1)]]])
    apply (rule conjI [OF accept_row [where m = m and v = v, OF Run_decodesD(26) [OF assms(1)]]])
    apply (rule conjI [OF accept_row [where m = m and v = v, OF Run_decodesD(27) [OF assms(1)]]])
    apply (rule conjI [OF accept_row [where m = m and v = v, OF Run_decodesD(28) [OF assms(1)]]])
    apply (rule conjI [OF accept_row [where m = m and v = v, OF Run_decodesD(29) [OF assms(1)]]])
    apply simp
    done
  show ?thesis by (rule rows_accept [OF rows assms(2) key])
qed

lemma Run_decode_iff:
  "Run_UnmarshalJSON ord (JObj kvs) = Inr strct \<longleftrightarrow>
   Run_decodes ord (map_of (rev kvs)) strct"
proof
  assume "Run_UnmarshalJSON ord (JObj kvs) = Inr strct"
  then obtain toolReceived where
    loop: "range_loop (\<lambda>k v. switch k (Run_cases ord v) (reject k)) (members ord kvs) (Run_zero, False) = Inr (strct, toolReceived)"
    and fin: "toolReceived"
    by (auto simp: Run_UnmarshalJSON_def members_def split: sum.splits if_splits)
  from Run_loop_sound [OF loop] fin
  show "Run_decodes ord (map_of (rev kvs)) strct"
    by (simp add: Run_decodes_def)
next
  assume d: "Run_decodes ord (map_of (rev kvs)) strct"
  have "\<exists>t. range_loop (\<lambda>k v. switch k (Run_cases ord v) (reject k)) (members ord kvs) (Run_zero, False) = Inr t"
  proof (rule loop_succeeds [OF Run_regular])
    fix k v assume "(k, v) \<in> set (members ord kvs)"
    then have "map_of (rev kvs) k = Some v" by (rule member_lookup)
    from Run_accepts [OF d this]
    show "accepting (switch k (Run_cases ord v) (reject k))" .
  qed
  then obtain t where "range_loop (\<lambda>k v. switch k (Run_cases ord v) (reject k)) (members ord kvs) (Run_zero, False) = Inr t" ..
  then obtain strct' toolReceived where
    loop: "range_loop (\<lambda>k v. switch k (Run_cases ord v) (reject k)) (members ord kvs) (Run_zero, False) = Inr (strct', toolReceived)"
    by (cases t) auto
  from Run_loop_sound [OF loop] d
  have fin: "toolReceived"
    and d': "Run_decodes ord (map_of (rev kvs)) strct'"
    by (simp_all add: Run_decodes_def)
  from Run_decodes_unique [OF d' d] have "strct' = strct" .
  with loop fin show "Run_UnmarshalJSON ord (JObj kvs) = Inr strct"
    by (simp add: Run_UnmarshalJSON_def members_def)
qed

definition Run_results :: "scanner \<Rightarrow> order \<Rightarrow> Run \<Rightarrow> (string \<times> (error + json)) list" where
  "Run_results scn ord strct =
     [(''addresses'', json_Marshal_slice (json_Marshal_ptr ''*sarif.Address'' (Address_MarshalJSON scn ord)) (Run.Addresses strct)),
      (''artifacts'', json_Marshal_slice (json_Marshal_ptr ''*sarif.Artifact'' (Artifact_MarshalJSON scn ord)) (Run.Artifacts strct)),
      (''automationDetails'', json_Marshal_ptr ''*sarif.RunAutomationDetails'' (RunAutomationDetails_MarshalJSON scn ord) (Run.AutomationDetails strct)),
      (''baselineGuid'', json_Marshal_string (Run.BaselineGuid strct)),
      (''columnKind'', json_Marshal_string (Run.ColumnKind strct)),
      (''conversion'', json_Marshal_ptr ''*sarif.Conversion'' (Conversion_MarshalJSON scn ord) (Run.Conversion strct)),
      (''defaultEncoding'', json_Marshal_string (Run.DefaultEncoding strct)),
      (''defaultSourceLanguage'', json_Marshal_string (Run.DefaultSourceLanguage strct)),
      (''externalPropertyFileReferences'', json_Marshal_ptr ''*sarif.ExternalPropertyFileReferences'' (ExternalPropertyFileReferences_MarshalJSON scn ord) (Run.ExternalPropertyFileReferences strct)),
      (''graphs'', json_Marshal_slice (json_Marshal_ptr ''*sarif.Graph'' (Graph_MarshalJSON scn ord)) (Run.Graphs strct)),
      (''invocations'', json_Marshal_slice (json_Marshal_ptr ''*sarif.Invocation'' (Invocation_MarshalJSON scn ord)) (Run.Invocations strct)),
      (''language'', json_Marshal_string (Run.Language strct)),
      (''logicalLocations'', json_Marshal_slice (json_Marshal_ptr ''*sarif.LogicalLocation'' (LogicalLocation_MarshalJSON scn ord)) (Run.LogicalLocations strct)),
      (''newlineSequences'', json_Marshal_slice json_Marshal_string (Run.NewlineSequences strct)),
      (''originalUriBaseIds'', json_Marshal_map (json_Marshal_ptr ''*sarif.ArtifactLocation'' (ArtifactLocation_MarshalJSON scn ord)) (Run.OriginalUriBaseIds strct)),
      (''policies'', json_Marshal_slice (json_Marshal_ptr ''*sarif.ToolComponent'' (ToolComponent_MarshalJSON scn ord)) (Run.Policies strct)),
      (''properties'', json_Marshal_bytes ''*sarif.PropertyBag'' (PropertyBag_MarshalJSON scn ord) (Run.Properties strct)),
      (''redactionTokens'', json_Marshal_slice json_Marshal_string (Run.RedactionTokens strct)),
      (''results'', json_Marshal_slice (json_Marshal_ptr ''*sarif.Result'' (Result_MarshalJSON scn ord)) (Run.Results strct)),
      (''runAggregates'', json_Marshal_slice (json_Marshal_ptr ''*sarif.RunAutomationDetails'' (RunAutomationDetails_MarshalJSON scn ord)) (Run.RunAggregates strct)),
      (''specialLocations'', json_Marshal_ptr ''*sarif.SpecialLocations'' (SpecialLocations_MarshalJSON scn ord) (Run.SpecialLocations strct)),
      (''taxonomies'', json_Marshal_slice (json_Marshal_ptr ''*sarif.ToolComponent'' (ToolComponent_MarshalJSON scn ord)) (Run.Taxonomies strct)),
      (''threadFlowLocations'', json_Marshal_slice (json_Marshal_ptr ''*sarif.ThreadFlowLocation'' (ThreadFlowLocation_MarshalJSON scn ord)) (Run.ThreadFlowLocations strct)),
      (''tool'', if Run.Tool strct = None then Inl (RequiredField ''tool'') else json_Marshal_ptr ''*sarif.Tool'' (Tool_MarshalJSON scn ord) (Run.Tool strct)),
      (''translations'', json_Marshal_slice (json_Marshal_ptr ''*sarif.ToolComponent'' (ToolComponent_MarshalJSON scn ord)) (Run.Translations strct)),
      (''versionControlProvenance'', json_Marshal_slice (json_Marshal_ptr ''*sarif.VersionControlDetails'' (VersionControlDetails_MarshalJSON scn ord)) (Run.VersionControlProvenance strct)),
      (''webRequests'', json_Marshal_slice (json_Marshal_ptr ''*sarif.WebRequest'' (WebRequest_MarshalJSON scn ord)) (Run.WebRequests strct)),
      (''webResponses'', json_Marshal_slice (json_Marshal_ptr ''*sarif.WebResponse'' (WebResponse_MarshalJSON scn ord)) (Run.WebResponses strct))]"

lemma Run_MarshalJSON_results:
  "Run_MarshalJSON scn ord strct = object (emit_all (Run_results scn ord strct))"
  by (simp add: Run_MarshalJSON_def Run_results_def emit_nilcheck)

lemma Run_keys_written:
  "Run_MarshalJSON scn ord strct = Inr j \<Longrightarrow> \<exists>kvs. j = JObj kvs \<and> map fst kvs = Run_keys"
  using keys_written [of "Run_results scn ord strct" j]
  by (simp add: Run_MarshalJSON_results Run_results_def Run_keys_def)

definition Run_encodable :: "scanner \<Rightarrow> order \<Rightarrow> Run \<Rightarrow> bool" where
  "Run_encodable scn ord strct \<longleftrightarrow>
     slice_all (ptr_all (Address_encodable scn ord)) (Run.Addresses strct) \<and>
     slice_all (ptr_all (Artifact_encodable scn ord)) (Run.Artifacts strct) \<and>
     ptr_all (RunAutomationDetails_encodable scn ord) (Run.AutomationDetails strct) \<and>
     ptr_all (Conversion_encodable scn ord) (Run.Conversion strct) \<and>
     ptr_all (ExternalPropertyFileReferences_encodable scn ord) (Run.ExternalPropertyFileReferences strct) \<and>
     slice_all (ptr_all (Graph_encodable scn ord)) (Run.Graphs strct) \<and>
     slice_all (ptr_all (Invocation_encodable scn ord)) (Run.Invocations strct) \<and>
     slice_all (ptr_all (LogicalLocation_encodable scn ord)) (Run.LogicalLocations strct) \<and>
     map_all (ptr_all (ArtifactLocation_encodable scn ord)) (Run.OriginalUriBaseIds strct) \<and>
     slice_all (ptr_all (ToolComponent_encodable scn ord)) (Run.Policies strct) \<and>
     ptr_all (PropertyBag_encodable scn ord) (Run.Properties strct) \<and>
     slice_all (ptr_all (Result_encodable scn ord)) (Run.Results strct) \<and>
     slice_all (ptr_all (RunAutomationDetails_encodable scn ord)) (Run.RunAggregates strct) \<and>
     ptr_all (SpecialLocations_encodable scn ord) (Run.SpecialLocations strct) \<and>
     slice_all (ptr_all (ToolComponent_encodable scn ord)) (Run.Taxonomies strct) \<and>
     slice_all (ptr_all (ThreadFlowLocation_encodable scn ord)) (Run.ThreadFlowLocations strct) \<and>
     Run.Tool strct \<noteq> None \<and>
     ptr_all (Tool_encodable scn ord) (Run.Tool strct) \<and>
     slice_all (ptr_all (ToolComponent_encodable scn ord)) (Run.Translations strct) \<and>
     slice_all (ptr_all (VersionControlDetails_encodable scn ord)) (Run.VersionControlProvenance strct) \<and>
     slice_all (ptr_all (WebRequest_encodable scn ord)) (Run.WebRequests strct) \<and>
     slice_all (ptr_all (WebResponse_encodable scn ord)) (Run.WebResponses strct)"

lemma Run_fails_unless: "fails_unless (Run_MarshalJSON scn ord) (Run_encodable scn ord)"
  unfolding fails_unless_def Run_MarshalJSON_results Run_results_def Run_encodable_def isl_object_emit_all
  by (auto simp add: always_simps
      fails_unlessD [OF fails_unless_slice [OF fails_unless_ptr [OF Address_fails_unless]]]
      fails_unlessD [OF fails_unless_slice [OF fails_unless_ptr [OF Artifact_fails_unless]]]
      fails_unlessD [OF fails_unless_ptr [OF RunAutomationDetails_fails_unless]]
      fails_unlessD [OF fails_unless_string]
      fails_unlessD [OF fails_unless_ptr [OF Conversion_fails_unless]]
      fails_unlessD [OF fails_unless_ptr [OF ExternalPropertyFileReferences_fails_unless]]
      fails_unlessD [OF fails_unless_slice [OF fails_unless_ptr [OF Graph_fails_unless]]]
      fails_unlessD [OF fails_unless_slice [OF fails_unless_ptr [OF Invocation_fails_unless]]]
      fails_unlessD [OF fails_unless_slice [OF fails_unless_ptr [OF LogicalLocation_fails_unless]]]
      fails_unlessD [OF fails_unless_slice [OF fails_unless_string]]
      fails_unlessD [OF fails_unless_map [OF fails_unless_ptr [OF ArtifactLocation_fails_unless]]]
      fails_unlessD [OF fails_unless_slice [OF fails_unless_ptr [OF ToolComponent_fails_unless]]]
      fails_unlessD [OF PropertyBag_field_fails_unless]
      fails_unlessD [OF fails_unless_slice [OF fails_unless_ptr [OF Result_fails_unless]]]
      fails_unlessD [OF fails_unless_slice [OF fails_unless_ptr [OF RunAutomationDetails_fails_unless]]]
      fails_unlessD [OF fails_unless_ptr [OF SpecialLocations_fails_unless]]
      fails_unlessD [OF fails_unless_slice [OF fails_unless_ptr [OF ThreadFlowLocation_fails_unless]]]
      fails_unlessD [OF fails_unless_ptr [OF Tool_fails_unless]]
      fails_unlessD [OF fails_unless_slice [OF fails_unless_ptr [OF VersionControlDetails_fails_unless]]]
      fails_unlessD [OF fails_unless_slice [OF fails_unless_ptr [OF WebRequest_fails_unless]]]
      fails_unlessD [OF fails_unless_slice [OF fails_unless_ptr [OF WebResponse_fails_unless]]])

definition Run_valid :: "Run \<Rightarrow> bool" where
  "Run_valid strct \<longleftrightarrow>
     slice_all (ptr_all Address_valid) (Run.Addresses strct) \<and>
     slice_all (ptr_all Artifact_valid) (Run.Artifacts strct) \<and>
     ptr_all RunAutomationDetails_valid (Run.AutomationDetails strct) \<and>
     ptr_all Conversion_valid (Run.Conversion strct) \<and>
     ptr_all ExternalPropertyFileReferences_valid (Run.ExternalPropertyFileReferences strct) \<and>
     slice_all (ptr_all Graph_valid) (Run.Graphs strct) \<and>
     slice_all (ptr_all Invocation_valid) (Run.Invocations strct) \<and>
     slice_all (ptr_all LogicalLocation_valid) (Run.LogicalLocations strct) \<and>
     map_valid (ptr_all ArtifactLocation_valid) (Run.OriginalUriBaseIds strct) \<and>
     slice_all (ptr_all ToolComponent_valid) (Run.Policies strct) \<and>
     ptr_all PropertyBag_valid (Run.Properties strct) \<and>
     slice_all (ptr_all Result_valid) (Run.Results strct) \<and>
     slice_all (ptr_all RunAutomationDetails_valid) (Run.RunAggregates strct) \<and>
     ptr_all SpecialLocations_valid (Run.SpecialLocations strct) \<and>
     slice_all (ptr_all ToolComponent_valid) (Run.Taxonomies strct) \<and>
     slice_all (ptr_all ThreadFlowLocation_valid) (Run.ThreadFlowLocations strct) \<and>
     Run.Tool strct \<noteq> None \<and>
     ptr_all Tool_valid (Run.Tool strct) \<and>
     slice_all (ptr_all ToolComponent_valid) (Run.Translations strct) \<and>
     slice_all (ptr_all VersionControlDetails_valid) (Run.VersionControlProvenance strct) \<and>
     slice_all (ptr_all WebRequest_valid) (Run.WebRequests strct) \<and>
     slice_all (ptr_all WebResponse_valid) (Run.WebResponses strct)"

lemma Run_keys_distinct: "distinct Run_keys"
  by (simp add: Run_keys_def)

lemma Run_round_trips:
  "round_trips_object (Run_MarshalJSON scn ord) (Run_UnmarshalJSON ord') Run_valid"
  unfolding round_trips_object_def
proof (intro allI impI)
  fix strct assume v: "Run_valid strct"
  note v' = v [unfolded Run_valid_def]
  let ?rs = "Run_results scn ord strct"
  let ?kvs = "map (\<lambda>e. (fst e, projr (snd e))) ?rs"
  have f0: "\<not> isl (json_Marshal_slice (json_Marshal_ptr ''*sarif.Address'' (Address_MarshalJSON scn ord)) (Run.Addresses strct)) \<and>
      json_Unmarshal_slice (json_Unmarshal_ptr (Address_UnmarshalJSON ord')) (projr (json_Marshal_slice (json_Marshal_ptr ''*sarif.Address'' (Address_MarshalJSON scn ord)) (Run.Addresses strct))) = Inr (Run.Addresses strct)"
    by (rule round_tripsD [OF round_trips_slice [OF round_trips_ptr [OF Address_round_trips]]]) (use v' in simp)
  have f1: "\<not> isl (json_Marshal_slice (json_Marshal_ptr ''*sarif.Artifact'' (Artifact_MarshalJSON scn ord)) (Run.Artifacts strct)) \<and>
      json_Unmarshal_slice (json_Unmarshal_ptr (Artifact_UnmarshalJSON ord')) (projr (json_Marshal_slice (json_Marshal_ptr ''*sarif.Artifact'' (Artifact_MarshalJSON scn ord)) (Run.Artifacts strct))) = Inr (Run.Artifacts strct)"
    by (rule round_tripsD [OF round_trips_slice [OF round_trips_ptr [OF Artifact_round_trips]]]) (use v' in simp)
  have f2: "\<not> isl (json_Marshal_ptr ''*sarif.RunAutomationDetails'' (RunAutomationDetails_MarshalJSON scn ord) (Run.AutomationDetails strct)) \<and>
      json_Unmarshal_ptr (RunAutomationDetails_UnmarshalJSON ord') (projr (json_Marshal_ptr ''*sarif.RunAutomationDetails'' (RunAutomationDetails_MarshalJSON scn ord) (Run.AutomationDetails strct))) = Inr (Run.AutomationDetails strct)"
    by (rule round_tripsD [OF round_trips_ptr [OF RunAutomationDetails_round_trips]]) (use v' in simp)
  have f3: "\<not> isl (json_Marshal_string (Run.BaselineGuid strct)) \<and>
      json_Unmarshal_string (projr (json_Marshal_string (Run.BaselineGuid strct))) = Inr (Run.BaselineGuid strct)"
    by (rule round_tripsD [OF round_trips_string]) (use v' in simp)
  have f4: "\<not> isl (json_Marshal_string (Run.ColumnKind strct)) \<and>
      json_Unmarshal_string (projr (json_Marshal_string (Run.ColumnKind strct))) = Inr (Run.ColumnKind strct)"
    by (rule round_tripsD [OF round_trips_string]) (use v' in simp)
  have f5: "\<not> isl (json_Marshal_ptr ''*sarif.Conversion'' (Conversion_MarshalJSON scn ord) (Run.Conversion strct)) \<and>
      json_Unmarshal_ptr (Conversion_UnmarshalJSON ord') (projr (json_Marshal_ptr ''*sarif.Conversion'' (Conversion_MarshalJSON scn ord) (Run.Conversion strct))) = Inr (Run.Conversion strct)"
    by (rule round_tripsD [OF round_trips_ptr [OF Conversion_round_trips]]) (use v' in simp)
  have f6: "\<not> isl (json_Marshal_string (Run.DefaultEncoding strct)) \<and>
      json_Unmarshal_string (projr (json_Marshal_string (Run.DefaultEncoding strct))) = Inr (Run.DefaultEncoding strct)"
    by (rule round_tripsD [OF round_trips_string]) (use v' in simp)
  have f7: "\<not> isl (json_Marshal_string (Run.DefaultSourceLanguage strct)) \<and>
      json_Unmarshal_string (projr (json_Marshal_string (Run.DefaultSourceLanguage strct))) = Inr (Run.DefaultSourceLanguage strct)"
    by (rule round_tripsD [OF round_trips_string]) (use v' in simp)
  have f8: "\<not> isl (json_Marshal_ptr ''*sarif.ExternalPropertyFileReferences'' (ExternalPropertyFileReferences_MarshalJSON scn ord) (Run.ExternalPropertyFileReferences strct)) \<and>
      json_Unmarshal_ptr (ExternalPropertyFileReferences_UnmarshalJSON ord') (projr (json_Marshal_ptr ''*sarif.ExternalPropertyFileReferences'' (ExternalPropertyFileReferences_MarshalJSON scn ord) (Run.ExternalPropertyFileReferences strct))) = Inr (Run.ExternalPropertyFileReferences strct)"
    by (rule round_tripsD [OF round_trips_ptr [OF ExternalPropertyFileReferences_round_trips]]) (use v' in simp)
  have f9: "\<not> isl (json_Marshal_slice (json_Marshal_ptr ''*sarif.Graph'' (Graph_MarshalJSON scn ord)) (Run.Graphs strct)) \<and>
      json_Unmarshal_slice (json_Unmarshal_ptr (Graph_UnmarshalJSON ord')) (projr (json_Marshal_slice (json_Marshal_ptr ''*sarif.Graph'' (Graph_MarshalJSON scn ord)) (Run.Graphs strct))) = Inr (Run.Graphs strct)"
    by (rule round_tripsD [OF round_trips_slice [OF round_trips_ptr [OF Graph_round_trips]]]) (use v' in simp)
  have f10: "\<not> isl (json_Marshal_slice (json_Marshal_ptr ''*sarif.Invocation'' (Invocation_MarshalJSON scn ord)) (Run.Invocations strct)) \<and>
      json_Unmarshal_slice (json_Unmarshal_ptr (Invocation_UnmarshalJSON ord')) (projr (json_Marshal_slice (json_Marshal_ptr ''*sarif.Invocation'' (Invocation_MarshalJSON scn ord)) (Run.Invocations strct))) = Inr (Run.Invocations strct)"
    by (rule round_tripsD [OF round_trips_slice [OF round_trips_ptr [OF Invocation_round_trips]]]) (use v' in simp)
  have f11: "\<not> isl (json_Marshal_string (Run.Language strct)) \<and>
      json_Unmarshal_string (projr (json_Marshal_string (Run.Language strct))) = Inr (Run.Language strct)"
    by (rule round_tripsD [OF round_trips_string]) (use v' in simp)
  have f12: "\<not> isl (json_Marshal_slice (json_Marshal_ptr ''*sarif.LogicalLocation'' (LogicalLocation_MarshalJSON scn ord)) (Run.LogicalLocations strct)) \<and>
      json_Unmarshal_slice (json_Unmarshal_ptr (LogicalLocation_UnmarshalJSON ord')) (projr (json_Marshal_slice (json_Marshal_ptr ''*sarif.LogicalLocation'' (LogicalLocation_MarshalJSON scn ord)) (Run.LogicalLocations strct))) = Inr (Run.LogicalLocations strct)"
    by (rule round_tripsD [OF round_trips_slice [OF round_trips_ptr [OF LogicalLocation_round_trips]]]) (use v' in simp)
  have f13: "\<not> isl (json_Marshal_slice json_Marshal_string (Run.NewlineSequences strct)) \<and>
      json_Unmarshal_slice json_Unmarshal_string (projr (json_Marshal_slice json_Marshal_string (Run.NewlineSequences strct))) = Inr (Run.NewlineSequences strct)"
    by (rule round_tripsD [OF round_trips_slice [OF round_trips_string]]) (use v' in simp)
  have f14: "\<not> isl (json_Marshal_map (json_Marshal_ptr ''*sarif.ArtifactLocation'' (ArtifactLocation_MarshalJSON scn ord)) (Run.OriginalUriBaseIds strct)) \<and>
      json_Unmarshal_map (json_Unmarshal_ptr (ArtifactLocation_UnmarshalJSON ord')) (projr (json_Marshal_map (json_Marshal_ptr ''*sarif.ArtifactLocation'' (ArtifactLocation_MarshalJSON scn ord)) (Run.OriginalUriBaseIds strct))) = Inr (Run.OriginalUriBaseIds strct)"
    by (rule round_tripsD [OF round_trips_map [OF round_trips_ptr [OF ArtifactLocation_round_trips]]]) (use v' in simp)
  have f15: "\<not> isl (json_Marshal_slice (json_Marshal_ptr ''*sarif.ToolComponent'' (ToolComponent_MarshalJSON scn ord)) (Run.Policies strct)) \<and>
      json_Unmarshal_slice (json_Unmarshal_ptr (ToolComponent_UnmarshalJSON ord')) (projr (json_Marshal_slice (json_Marshal_ptr ''*sarif.ToolComponent'' (ToolComponent_MarshalJSON scn ord)) (Run.Policies strct))) = Inr (Run.Policies strct)"
    by (rule round_tripsD [OF round_trips_slice [OF round_trips_ptr [OF ToolComponent_round_trips]]]) (use v' in simp)
  have f16: "\<not> isl (json_Marshal_bytes ''*sarif.PropertyBag'' (PropertyBag_MarshalJSON scn ord) (Run.Properties strct)) \<and>
      json_Unmarshal_ptr (PropertyBag_UnmarshalJSON ord') (projr (json_Marshal_bytes ''*sarif.PropertyBag'' (PropertyBag_MarshalJSON scn ord) (Run.Properties strct))) = Inr (Run.Properties strct)"
    by (rule round_tripsD [OF PropertyBag_field_round_trips]) (use v' in simp)
  have f17: "\<not> isl (json_Marshal_slice json_Marshal_string (Run.RedactionTokens strct)) \<and>
      json_Unmarshal_slice json_Unmarshal_string (projr (json_Marshal_slice json_Marshal_string (Run.RedactionTokens strct))) = Inr (Run.RedactionTokens strct)"
    by (rule round_tripsD [OF round_trips_slice [OF round_trips_string]]) (use v' in simp)
  have f18: "\<not> isl (json_Marshal_slice (json_Marshal_ptr ''*sarif.Result'' (Result_MarshalJSON scn ord)) (Run.Results strct)) \<and>
      json_Unmarshal_slice (json_Unmarshal_ptr (Result_UnmarshalJSON ord')) (projr (json_Marshal_slice (json_Marshal_ptr ''*sarif.Result'' (Result_MarshalJSON scn ord)) (Run.Results strct))) = Inr (Run.Results strct)"
    by (rule round_tripsD [OF round_trips_slice [OF round_trips_ptr [OF Result_round_trips]]]) (use v' in simp)
  have f19: "\<not> isl (json_Marshal_slice (json_Marshal_ptr ''*sarif.RunAutomationDetails'' (RunAutomationDetails_MarshalJSON scn ord)) (Run.RunAggregates strct)) \<and>
      json_Unmarshal_slice (json_Unmarshal_ptr (RunAutomationDetails_UnmarshalJSON ord')) (projr (json_Marshal_slice (json_Marshal_ptr ''*sarif.RunAutomationDetails'' (RunAutomationDetails_MarshalJSON scn ord)) (Run.RunAggregates strct))) = Inr (Run.RunAggregates strct)"
    by (rule round_tripsD [OF round_trips_slice [OF round_trips_ptr [OF RunAutomationDetails_round_trips]]]) (use v' in simp)
  have f20: "\<not> isl (json_Marshal_ptr ''*sarif.SpecialLocations'' (SpecialLocations_MarshalJSON scn ord) (Run.SpecialLocations strct)) \<and>
      json_Unmarshal_ptr (SpecialLocations_UnmarshalJSON ord') (projr (json_Marshal_ptr ''*sarif.SpecialLocations'' (SpecialLocations_MarshalJSON scn ord) (Run.SpecialLocations strct))) = Inr (Run.SpecialLocations strct)"
    by (rule round_tripsD [OF round_trips_ptr [OF SpecialLocations_round_trips]]) (use v' in simp)
  have f21: "\<not> isl (json_Marshal_slice (json_Marshal_ptr ''*sarif.ToolComponent'' (ToolComponent_MarshalJSON scn ord)) (Run.Taxonomies strct)) \<and>
      json_Unmarshal_slice (json_Unmarshal_ptr (ToolComponent_UnmarshalJSON ord')) (projr (json_Marshal_slice (json_Marshal_ptr ''*sarif.ToolComponent'' (ToolComponent_MarshalJSON scn ord)) (Run.Taxonomies strct))) = Inr (Run.Taxonomies strct)"
    by (rule round_tripsD [OF round_trips_slice [OF round_trips_ptr [OF ToolComponent_round_trips]]]) (use v' in simp)
  have f22: "\<not> isl (json_Marshal_slice (json_Marshal_ptr ''*sarif.ThreadFlowLocation'' (ThreadFlowLocation_MarshalJSON scn ord)) (Run.ThreadFlowLocations strct)) \<and>
      json_Unmarshal_slice (json_Unmarshal_ptr (ThreadFlowLocation_UnmarshalJSON ord')) (projr (json_Marshal_slice (json_Marshal_ptr ''*sarif.ThreadFlowLocation'' (ThreadFlowLocation_MarshalJSON scn ord)) (Run.ThreadFlowLocations strct))) = Inr (Run.ThreadFlowLocations strct)"
    by (rule round_tripsD [OF round_trips_slice [OF round_trips_ptr [OF ThreadFlowLocation_round_trips]]]) (use v' in simp)
  have f23: "\<not> isl (json_Marshal_ptr ''*sarif.Tool'' (Tool_MarshalJSON scn ord) (Run.Tool strct)) \<and>
      json_Unmarshal_ptr (Tool_UnmarshalJSON ord') (projr (json_Marshal_ptr ''*sarif.Tool'' (Tool_MarshalJSON scn ord) (Run.Tool strct))) = Inr (Run.Tool strct)"
    by (rule round_tripsD [OF round_trips_ptr [OF Tool_round_trips]]) (use v' in simp)
  have f24: "\<not> isl (json_Marshal_slice (json_Marshal_ptr ''*sarif.ToolComponent'' (ToolComponent_MarshalJSON scn ord)) (Run.Translations strct)) \<and>
      json_Unmarshal_slice (json_Unmarshal_ptr (ToolComponent_UnmarshalJSON ord')) (projr (json_Marshal_slice (json_Marshal_ptr ''*sarif.ToolComponent'' (ToolComponent_MarshalJSON scn ord)) (Run.Translations strct))) = Inr (Run.Translations strct)"
    by (rule round_tripsD [OF round_trips_slice [OF round_trips_ptr [OF ToolComponent_round_trips]]]) (use v' in simp)
  have f25: "\<not> isl (json_Marshal_slice (json_Marshal_ptr ''*sarif.VersionControlDetails'' (VersionControlDetails_MarshalJSON scn ord)) (Run.VersionControlProvenance strct)) \<and>
      json_Unmarshal_slice (json_Unmarshal_ptr (VersionControlDetails_UnmarshalJSON ord')) (projr (json_Marshal_slice (json_Marshal_ptr ''*sarif.VersionControlDetails'' (VersionControlDetails_MarshalJSON scn ord)) (Run.VersionControlProvenance strct))) = Inr (Run.VersionControlProvenance strct)"
    by (rule round_tripsD [OF round_trips_slice [OF round_trips_ptr [OF VersionControlDetails_round_trips]]]) (use v' in simp)
  have f26: "\<not> isl (json_Marshal_slice (json_Marshal_ptr ''*sarif.WebRequest'' (WebRequest_MarshalJSON scn ord)) (Run.WebRequests strct)) \<and>
      json_Unmarshal_slice (json_Unmarshal_ptr (WebRequest_UnmarshalJSON ord')) (projr (json_Marshal_slice (json_Marshal_ptr ''*sarif.WebRequest'' (WebRequest_MarshalJSON scn ord)) (Run.WebRequests strct))) = Inr (Run.WebRequests strct)"
    by (rule round_tripsD [OF round_trips_slice [OF round_trips_ptr [OF WebRequest_round_trips]]]) (use v' in simp)
  have f27: "\<not> isl (json_Marshal_slice (json_Marshal_ptr ''*sarif.WebResponse'' (WebResponse_MarshalJSON scn ord)) (Run.WebResponses strct)) \<and>
      json_Unmarshal_slice (json_Unmarshal_ptr (WebResponse_UnmarshalJSON ord')) (projr (json_Marshal_slice (json_Marshal_ptr ''*sarif.WebResponse'' (WebResponse_MarshalJSON scn ord)) (Run.WebResponses strct))) = Inr (Run.WebResponses strct)"
    by (rule round_tripsD [OF round_trips_slice [OF round_trips_ptr [OF WebResponse_round_trips]]]) (use v' in simp)
  note fs = f0 f1 f2 f3 f4 f5 f6 f7 f8 f9 f10 f11 f12 f13 f14 f15 f16 f17 f18 f19 f20 f21 f22 f23 f24 f25 f26 f27
  have nn: "Run.Tool strct \<noteq> None"
    using v' by simp_all
  have rs: "?rs =
     [(''addresses'', json_Marshal_slice (json_Marshal_ptr ''*sarif.Address'' (Address_MarshalJSON scn ord)) (Run.Addresses strct)),
      (''artifacts'', json_Marshal_slice (json_Marshal_ptr ''*sarif.Artifact'' (Artifact_MarshalJSON scn ord)) (Run.Artifacts strct)),
      (''automationDetails'', json_Marshal_ptr ''*sarif.RunAutomationDetails'' (RunAutomationDetails_MarshalJSON scn ord) (Run.AutomationDetails strct)),
      (''baselineGuid'', json_Marshal_string (Run.BaselineGuid strct)),
      (''columnKind'', json_Marshal_string (Run.ColumnKind strct)),
      (''conversion'', json_Marshal_ptr ''*sarif.Conversion'' (Conversion_MarshalJSON scn ord) (Run.Conversion strct)),
      (''defaultEncoding'', json_Marshal_string (Run.DefaultEncoding strct)),
      (''defaultSourceLanguage'', json_Marshal_string (Run.DefaultSourceLanguage strct)),
      (''externalPropertyFileReferences'', json_Marshal_ptr ''*sarif.ExternalPropertyFileReferences'' (ExternalPropertyFileReferences_MarshalJSON scn ord) (Run.ExternalPropertyFileReferences strct)),
      (''graphs'', json_Marshal_slice (json_Marshal_ptr ''*sarif.Graph'' (Graph_MarshalJSON scn ord)) (Run.Graphs strct)),
      (''invocations'', json_Marshal_slice (json_Marshal_ptr ''*sarif.Invocation'' (Invocation_MarshalJSON scn ord)) (Run.Invocations strct)),
      (''language'', json_Marshal_string (Run.Language strct)),
      (''logicalLocations'', json_Marshal_slice (json_Marshal_ptr ''*sarif.LogicalLocation'' (LogicalLocation_MarshalJSON scn ord)) (Run.LogicalLocations strct)),
      (''newlineSequences'', json_Marshal_slice json_Marshal_string (Run.NewlineSequences strct)),
      (''originalUriBaseIds'', json_Marshal_map (json_Marshal_ptr ''*sarif.ArtifactLocation'' (ArtifactLocation_MarshalJSON scn ord)) (Run.OriginalUriBaseIds strct)),
      (''policies'', json_Marshal_slice (json_Marshal_ptr ''*sarif.ToolComponent'' (ToolComponent_MarshalJSON scn ord)) (Run.Policies strct)),
      (''properties'', json_Marshal_bytes ''*sarif.PropertyBag'' (PropertyBag_MarshalJSON scn ord) (Run.Properties strct)),
      (''redactionTokens'', json_Marshal_slice json_Marshal_string (Run.RedactionTokens strct)),
      (''results'', json_Marshal_slice (json_Marshal_ptr ''*sarif.Result'' (Result_MarshalJSON scn ord)) (Run.Results strct)),
      (''runAggregates'', json_Marshal_slice (json_Marshal_ptr ''*sarif.RunAutomationDetails'' (RunAutomationDetails_MarshalJSON scn ord)) (Run.RunAggregates strct)),
      (''specialLocations'', json_Marshal_ptr ''*sarif.SpecialLocations'' (SpecialLocations_MarshalJSON scn ord) (Run.SpecialLocations strct)),
      (''taxonomies'', json_Marshal_slice (json_Marshal_ptr ''*sarif.ToolComponent'' (ToolComponent_MarshalJSON scn ord)) (Run.Taxonomies strct)),
      (''threadFlowLocations'', json_Marshal_slice (json_Marshal_ptr ''*sarif.ThreadFlowLocation'' (ThreadFlowLocation_MarshalJSON scn ord)) (Run.ThreadFlowLocations strct)),
      (''tool'', json_Marshal_ptr ''*sarif.Tool'' (Tool_MarshalJSON scn ord) (Run.Tool strct)),
      (''translations'', json_Marshal_slice (json_Marshal_ptr ''*sarif.ToolComponent'' (ToolComponent_MarshalJSON scn ord)) (Run.Translations strct)),
      (''versionControlProvenance'', json_Marshal_slice (json_Marshal_ptr ''*sarif.VersionControlDetails'' (VersionControlDetails_MarshalJSON scn ord)) (Run.VersionControlProvenance strct)),
      (''webRequests'', json_Marshal_slice (json_Marshal_ptr ''*sarif.WebRequest'' (WebRequest_MarshalJSON scn ord)) (Run.WebRequests strct)),
      (''webResponses'', json_Marshal_slice (json_Marshal_ptr ''*sarif.WebResponse'' (WebResponse_MarshalJSON scn ord)) (Run.WebResponses strct))]"
    using nn by (auto simp add: Run_results_def)
  have keys: "map fst ?rs = Run_keys"
    by (simp add: Run_results_def Run_keys_def)
  then have dist: "distinct (map fst ?rs)"
    by (simp only: Run_keys_distinct)
  have ok: "list_all (\<lambda>e. \<not> isl (snd e)) ?rs"
    unfolding rs by (simp only: list.pred_inject snd_conv fs simp_thms)
  then have enc: "Run_MarshalJSON scn ord strct = Inr (JObj ?kvs)"
    by (simp add: Run_MarshalJSON_results [of scn ord strct] object_emit_all_eq_Inr)
  have l0: "map_of (rev ?kvs) ''addresses'' = Some (projr (json_Marshal_slice (json_Marshal_ptr ''*sarif.Address'' (Address_MarshalJSON scn ord)) (Run.Addresses strct)))"
    by (rule written_lookup [OF dist]) (subst rs, intro list.set_intros)
  have l1: "map_of (rev ?kvs) ''artifacts'' = Some (projr (json_Marshal_slice (json_Marshal_ptr ''*sarif.Artifact'' (Artifact_MarshalJSON scn ord)) (Run.Artifacts strct)))"
    by (rule written_lookup [OF dist]) (subst rs, intro list.set_intros)
  have l2: "map_of (rev ?kvs) ''automationDetails'' = Some (projr (json_Marshal_ptr ''*sarif.RunAutomationDetails'' (RunAutomationDetails_MarshalJSON scn ord) (Run.AutomationDetails strct)))"
    by (rule written_lookup [OF dist]) (subst rs, intro list.set_intros)
  have l3: "map_of (rev ?kvs) ''baselineGuid'' = Some (projr (json_Marshal_string (Run.BaselineGuid strct)))"
    by (rule written_lookup [OF dist]) (subst rs, intro list.set_intros)
  have l4: "map_of (rev ?kvs) ''columnKind'' = Some (projr (json_Marshal_string (Run.ColumnKind strct)))"
    by (rule written_lookup [OF dist]) (subst rs, intro list.set_intros)
  have l5: "map_of (rev ?kvs) ''conversion'' = Some (projr (json_Marshal_ptr ''*sarif.Conversion'' (Conversion_MarshalJSON scn ord) (Run.Conversion strct)))"
    by (rule written_lookup [OF dist]) (subst rs, intro list.set_intros)
  have l6: "map_of (rev ?kvs) ''defaultEncoding'' = Some (projr (json_Marshal_string (Run.DefaultEncoding strct)))"
    by (rule written_lookup [OF dist]) (subst rs, intro list.set_intros)
  have l7: "map_of (rev ?kvs) ''defaultSourceLanguage'' = Some (projr (json_Marshal_string (Run.DefaultSourceLanguage strct)))"
    by (rule written_lookup [OF dist]) (subst rs, intro list.set_intros)
  have l8: "map_of (rev ?kvs) ''externalPropertyFileReferences'' = Some (projr (json_Marshal_ptr ''*sarif.ExternalPropertyFileReferences'' (ExternalPropertyFileReferences_MarshalJSON scn ord) (Run.ExternalPropertyFileReferences strct)))"
    by (rule written_lookup [OF dist]) (subst rs, intro list.set_intros)
  have l9: "map_of (rev ?kvs) ''graphs'' = Some (projr (json_Marshal_slice (json_Marshal_ptr ''*sarif.Graph'' (Graph_MarshalJSON scn ord)) (Run.Graphs strct)))"
    by (rule written_lookup [OF dist]) (subst rs, intro list.set_intros)
  have l10: "map_of (rev ?kvs) ''invocations'' = Some (projr (json_Marshal_slice (json_Marshal_ptr ''*sarif.Invocation'' (Invocation_MarshalJSON scn ord)) (Run.Invocations strct)))"
    by (rule written_lookup [OF dist]) (subst rs, intro list.set_intros)
  have l11: "map_of (rev ?kvs) ''language'' = Some (projr (json_Marshal_string (Run.Language strct)))"
    by (rule written_lookup [OF dist]) (subst rs, intro list.set_intros)
  have l12: "map_of (rev ?kvs) ''logicalLocations'' = Some (projr (json_Marshal_slice (json_Marshal_ptr ''*sarif.LogicalLocation'' (LogicalLocation_MarshalJSON scn ord)) (Run.LogicalLocations strct)))"
    by (rule written_lookup [OF dist]) (subst rs, intro list.set_intros)
  have l13: "map_of (rev ?kvs) ''newlineSequences'' = Some (projr (json_Marshal_slice json_Marshal_string (Run.NewlineSequences strct)))"
    by (rule written_lookup [OF dist]) (subst rs, intro list.set_intros)
  have l14: "map_of (rev ?kvs) ''originalUriBaseIds'' = Some (projr (json_Marshal_map (json_Marshal_ptr ''*sarif.ArtifactLocation'' (ArtifactLocation_MarshalJSON scn ord)) (Run.OriginalUriBaseIds strct)))"
    by (rule written_lookup [OF dist]) (subst rs, intro list.set_intros)
  have l15: "map_of (rev ?kvs) ''policies'' = Some (projr (json_Marshal_slice (json_Marshal_ptr ''*sarif.ToolComponent'' (ToolComponent_MarshalJSON scn ord)) (Run.Policies strct)))"
    by (rule written_lookup [OF dist]) (subst rs, intro list.set_intros)
  have l16: "map_of (rev ?kvs) ''properties'' = Some (projr (json_Marshal_bytes ''*sarif.PropertyBag'' (PropertyBag_MarshalJSON scn ord) (Run.Properties strct)))"
    by (rule written_lookup [OF dist]) (subst rs, intro list.set_intros)
  have l17: "map_of (rev ?kvs) ''redactionTokens'' = Some (projr (json_Marshal_slice json_Marshal_string (Run.RedactionTokens strct)))"
    by (rule written_lookup [OF dist]) (subst rs, intro list.set_intros)
  have l18: "map_of (rev ?kvs) ''results'' = Some (projr (json_Marshal_slice (json_Marshal_ptr ''*sarif.Result'' (Result_MarshalJSON scn ord)) (Run.Results strct)))"
    by (rule written_lookup [OF dist]) (subst rs, intro list.set_intros)
  have l19: "map_of (rev ?kvs) ''runAggregates'' = Some (projr (json_Marshal_slice (json_Marshal_ptr ''*sarif.RunAutomationDetails'' (RunAutomationDetails_MarshalJSON scn ord)) (Run.RunAggregates strct)))"
    by (rule written_lookup [OF dist]) (subst rs, intro list.set_intros)
  have l20: "map_of (rev ?kvs) ''specialLocations'' = Some (projr (json_Marshal_ptr ''*sarif.SpecialLocations'' (SpecialLocations_MarshalJSON scn ord) (Run.SpecialLocations strct)))"
    by (rule written_lookup [OF dist]) (subst rs, intro list.set_intros)
  have l21: "map_of (rev ?kvs) ''taxonomies'' = Some (projr (json_Marshal_slice (json_Marshal_ptr ''*sarif.ToolComponent'' (ToolComponent_MarshalJSON scn ord)) (Run.Taxonomies strct)))"
    by (rule written_lookup [OF dist]) (subst rs, intro list.set_intros)
  have l22: "map_of (rev ?kvs) ''threadFlowLocations'' = Some (projr (json_Marshal_slice (json_Marshal_ptr ''*sarif.ThreadFlowLocation'' (ThreadFlowLocation_MarshalJSON scn ord)) (Run.ThreadFlowLocations strct)))"
    by (rule written_lookup [OF dist]) (subst rs, intro list.set_intros)
  have l23: "map_of (rev ?kvs) ''tool'' = Some (projr (json_Marshal_ptr ''*sarif.Tool'' (Tool_MarshalJSON scn ord) (Run.Tool strct)))"
    by (rule written_lookup [OF dist]) (subst rs, intro list.set_intros)
  have l24: "map_of (rev ?kvs) ''translations'' = Some (projr (json_Marshal_slice (json_Marshal_ptr ''*sarif.ToolComponent'' (ToolComponent_MarshalJSON scn ord)) (Run.Translations strct)))"
    by (rule written_lookup [OF dist]) (subst rs, intro list.set_intros)
  have l25: "map_of (rev ?kvs) ''versionControlProvenance'' = Some (projr (json_Marshal_slice (json_Marshal_ptr ''*sarif.VersionControlDetails'' (VersionControlDetails_MarshalJSON scn ord)) (Run.VersionControlProvenance strct)))"
    by (rule written_lookup [OF dist]) (subst rs, intro list.set_intros)
  have l26: "map_of (rev ?kvs) ''webRequests'' = Some (projr (json_Marshal_slice (json_Marshal_ptr ''*sarif.WebRequest'' (WebRequest_MarshalJSON scn ord)) (Run.WebRequests strct)))"
    by (rule written_lookup [OF dist]) (subst rs, intro list.set_intros)
  have l27: "map_of (rev ?kvs) ''webResponses'' = Some (projr (json_Marshal_slice (json_Marshal_ptr ''*sarif.WebResponse'' (WebResponse_MarshalJSON scn ord)) (Run.WebResponses strct)))"
    by (rule written_lookup [OF dist]) (subst rs, intro list.set_intros)
  have dec: "Run_decodes ord' (map_of (rev ?kvs)) strct"
    unfolding Run_decodes_def l0 l1 l2 l3 l4 l5 l6 l7 l8 l9 l10 l11 l12 l13 l14 l15 l16 l17 l18 l19 l20 l21 l22 l23 l24 l25 l26 l27
    by (simp only: field_ok_Some fs written_dom keys subset_refl option.simps simp_thms)
  then have "Run_UnmarshalJSON ord' (JObj ?kvs) = Inr strct"
    by (simp only: Run_decode_iff)
  with enc show "rt_object (Run_MarshalJSON scn ord) (Run_UnmarshalJSON ord') strct"
    unfolding rt_object_def by blast
qed

definition Run_small_bags :: "Run \<Rightarrow> bool" where
  "Run_small_bags strct \<longleftrightarrow>
     slice_all (ptr_all Address_small_bags) (Run.Addresses strct) \<and>
     slice_all (ptr_all Artifact_small_bags) (Run.Artifacts strct) \<and>
     ptr_all RunAutomationDetails_small_bags (Run.AutomationDetails strct) \<and>
     ptr_all Conversion_small_bags (Run.Conversion strct) \<and>
     ptr_all ExternalPropertyFileReferences_small_bags (Run.ExternalPropertyFileReferences strct) \<and>
     slice_all (ptr_all Graph_small_bags) (Run.Graphs strct) \<and>
     slice_all (ptr_all Invocation_small_bags) (Run.Invocations strct) \<and>
     slice_all (ptr_all LogicalLocation_small_bags) (Run.LogicalLocations strct) \<and>
     map_all (ptr_all ArtifactLocation_small_bags) (Run.OriginalUriBaseIds strct) \<and>
     slice_all (ptr_all ToolComponent_small_bags) (Run.Policies strct) \<and>
     ptr_all PropertyBag_small_bags (Run.Properties strct) \<and>
     slice_all (ptr_all Result_small_bags) (Run.Results strct) \<and>
     slice_all (ptr_all RunAutomationDetails_small_bags) (Run.RunAggregates strct) \<and>
     ptr_all SpecialLocations_small_bags (Run.SpecialLocations strct) \<and>
     slice_all (ptr_all ToolComponent_small_bags) (Run.Taxonomies strct) \<and>
     slice_all (ptr_all ThreadFlowLocation_small_bags) (Run.ThreadFlowLocations strct) \<and>
     ptr_all Tool_small_bags (Run.Tool strct) \<and>
     slice_all (ptr_all ToolComponent_small_bags) (Run.Translations strct) \<and>
     slice_all (ptr_all VersionControlDetails_small_bags) (Run.VersionControlProvenance strct) \<and>
     slice_all (ptr_all WebRequest_small_bags) (Run.WebRequests strct) \<and>
     slice_all (ptr_all WebResponse_small_bags) (Run.WebResponses strct)"

lemma Run_same_output:
  "same_output (Run_MarshalJSON scn ord) (Run_MarshalJSON scn ord') Run_small_bags"
  unfolding same_output_def
proof (intro allI impI)
  fix strct assume v: "Run_small_bags strct"
  note v' = v [unfolded Run_small_bags_def]
  have e0: "json_Marshal_slice (json_Marshal_ptr ''*sarif.Address'' (Address_MarshalJSON scn ord)) (Run.Addresses strct) =
      json_Marshal_slice (json_Marshal_ptr ''*sarif.Address'' (Address_MarshalJSON scn ord')) (Run.Addresses strct)"
    by (rule same_outputD [OF same_output_slice [OF same_output_ptr [OF Address_same_output]]]) (use v' in simp)
  have e1: "json_Marshal_slice (json_Marshal_ptr ''*sarif.Artifact'' (Artifact_MarshalJSON scn ord)) (Run.Artifacts strct) =
      json_Marshal_slice (json_Marshal_ptr ''*sarif.Artifact'' (Artifact_MarshalJSON scn ord')) (Run.Artifacts strct)"
    by (rule same_outputD [OF same_output_slice [OF same_output_ptr [OF Artifact_same_output]]]) (use v' in simp)
  have e2: "json_Marshal_ptr ''*sarif.RunAutomationDetails'' (RunAutomationDetails_MarshalJSON scn ord) (Run.AutomationDetails strct) =
      json_Marshal_ptr ''*sarif.RunAutomationDetails'' (RunAutomationDetails_MarshalJSON scn ord') (Run.AutomationDetails strct)"
    by (rule same_outputD [OF same_output_ptr [OF RunAutomationDetails_same_output]]) (use v' in simp)
  have e5: "json_Marshal_ptr ''*sarif.Conversion'' (Conversion_MarshalJSON scn ord) (Run.Conversion strct) =
      json_Marshal_ptr ''*sarif.Conversion'' (Conversion_MarshalJSON scn ord') (Run.Conversion strct)"
    by (rule same_outputD [OF same_output_ptr [OF Conversion_same_output]]) (use v' in simp)
  have e8: "json_Marshal_ptr ''*sarif.ExternalPropertyFileReferences'' (ExternalPropertyFileReferences_MarshalJSON scn ord) (Run.ExternalPropertyFileReferences strct) =
      json_Marshal_ptr ''*sarif.ExternalPropertyFileReferences'' (ExternalPropertyFileReferences_MarshalJSON scn ord') (Run.ExternalPropertyFileReferences strct)"
    by (rule same_outputD [OF same_output_ptr [OF ExternalPropertyFileReferences_same_output]]) (use v' in simp)
  have e9: "json_Marshal_slice (json_Marshal_ptr ''*sarif.Graph'' (Graph_MarshalJSON scn ord)) (Run.Graphs strct) =
      json_Marshal_slice (json_Marshal_ptr ''*sarif.Graph'' (Graph_MarshalJSON scn ord')) (Run.Graphs strct)"
    by (rule same_outputD [OF same_output_slice [OF same_output_ptr [OF Graph_same_output]]]) (use v' in simp)
  have e10: "json_Marshal_slice (json_Marshal_ptr ''*sarif.Invocation'' (Invocation_MarshalJSON scn ord)) (Run.Invocations strct) =
      json_Marshal_slice (json_Marshal_ptr ''*sarif.Invocation'' (Invocation_MarshalJSON scn ord')) (Run.Invocations strct)"
    by (rule same_outputD [OF same_output_slice [OF same_output_ptr [OF Invocation_same_output]]]) (use v' in simp)
  have e12: "json_Marshal_slice (json_Marshal_ptr ''*sarif.LogicalLocation'' (LogicalLocation_MarshalJSON scn ord)) (Run.LogicalLocations strct) =
      json_Marshal_slice (json_Marshal_ptr ''*sarif.LogicalLocation'' (LogicalLocation_MarshalJSON scn ord')) (Run.LogicalLocations strct)"
    by (rule same_outputD [OF same_output_slice [OF same_output_ptr [OF LogicalLocation_same_output]]]) (use v' in simp)
  have e14: "json_Marshal_map (json_Marshal_ptr ''*sarif.ArtifactLocation'' (ArtifactLocation_MarshalJSON scn ord)) (Run.OriginalUriBaseIds strct) =
      json_Marshal_map (json_Marshal_ptr ''*sarif.ArtifactLocation'' (ArtifactLocation_MarshalJSON scn ord')) (Run.OriginalUriBaseIds strct)"
    by (rule same_outputD [OF same_output_map [OF same_output_ptr [OF ArtifactLocation_same_output]]]) (use v' in simp)
  have e15: "json_Marshal_slice (json_Marshal_ptr ''*sarif.ToolComponent'' (ToolComponent_MarshalJSON scn ord)) (Run.Policies strct) =
      json_Marshal_slice (json_Marshal_ptr ''*sarif.ToolComponent'' (ToolComponent_MarshalJSON scn ord')) (Run.Policies strct)"
    by (rule same_outputD [OF same_output_slice [OF same_output_ptr [OF ToolComponent_same_output]]]) (use v' in simp)
  have e16: "json_Marshal_bytes ''*sarif.PropertyBag'' (PropertyBag_MarshalJSON scn ord) (Run.Properties strct) =
      json_Marshal_bytes ''*sarif.PropertyBag'' (PropertyBag_MarshalJSON scn ord') (Run.Properties strct)"
    by (rule same_outputD [OF PropertyBag_field_same_output]) (use v' in simp)
  have e18: "json_Marshal_slice (json_Marshal_ptr ''*sarif.Result'' (Result_MarshalJSON scn ord)) (Run.Results strct) =
      json_Marshal_slice (json_Marshal_ptr ''*sarif.Result'' (Result_MarshalJSON scn ord')) (Run.Results strct)"
    by (rule same_outputD [OF same_output_slice [OF same_output_ptr [OF Result_same_output]]]) (use v' in simp)
  have e19: "json_Marshal_slice (json_Marshal_ptr ''*sarif.RunAutomationDetails'' (RunAutomationDetails_MarshalJSON scn ord)) (Run.RunAggregates strct) =
      json_Marshal_slice (json_Marshal_ptr ''*sarif.RunAutomationDetails'' (RunAutomationDetails_MarshalJSON scn ord')) (Run.RunAggregates strct)"
    by (rule same_outputD [OF same_output_slice [OF same_output_ptr [OF RunAutomationDetails_same_output]]]) (use v' in simp)
  have e20: "json_Marshal_ptr ''*sarif.SpecialLocations'' (SpecialLocations_MarshalJSON scn ord) (Run.SpecialLocations strct) =
      json_Marshal_ptr ''*sarif.SpecialLocations'' (SpecialLocations_MarshalJSON scn ord') (Run.SpecialLocations strct)"
    by (rule same_outputD [OF same_output_ptr [OF SpecialLocations_same_output]]) (use v' in simp)
  have e21: "json_Marshal_slice (json_Marshal_ptr ''*sarif.ToolComponent'' (ToolComponent_MarshalJSON scn ord)) (Run.Taxonomies strct) =
      json_Marshal_slice (json_Marshal_ptr ''*sarif.ToolComponent'' (ToolComponent_MarshalJSON scn ord')) (Run.Taxonomies strct)"
    by (rule same_outputD [OF same_output_slice [OF same_output_ptr [OF ToolComponent_same_output]]]) (use v' in simp)
  have e22: "json_Marshal_slice (json_Marshal_ptr ''*sarif.ThreadFlowLocation'' (ThreadFlowLocation_MarshalJSON scn ord)) (Run.ThreadFlowLocations strct) =
      json_Marshal_slice (json_Marshal_ptr ''*sarif.ThreadFlowLocation'' (ThreadFlowLocation_MarshalJSON scn ord')) (Run.ThreadFlowLocations strct)"
    by (rule same_outputD [OF same_output_slice [OF same_output_ptr [OF ThreadFlowLocation_same_output]]]) (use v' in simp)
  have e23: "json_Marshal_ptr ''*sarif.Tool'' (Tool_MarshalJSON scn ord) (Run.Tool strct) =
      json_Marshal_ptr ''*sarif.Tool'' (Tool_MarshalJSON scn ord') (Run.Tool strct)"
    by (rule same_outputD [OF same_output_ptr [OF Tool_same_output]]) (use v' in simp)
  have e24: "json_Marshal_slice (json_Marshal_ptr ''*sarif.ToolComponent'' (ToolComponent_MarshalJSON scn ord)) (Run.Translations strct) =
      json_Marshal_slice (json_Marshal_ptr ''*sarif.ToolComponent'' (ToolComponent_MarshalJSON scn ord')) (Run.Translations strct)"
    by (rule same_outputD [OF same_output_slice [OF same_output_ptr [OF ToolComponent_same_output]]]) (use v' in simp)
  have e25: "json_Marshal_slice (json_Marshal_ptr ''*sarif.VersionControlDetails'' (VersionControlDetails_MarshalJSON scn ord)) (Run.VersionControlProvenance strct) =
      json_Marshal_slice (json_Marshal_ptr ''*sarif.VersionControlDetails'' (VersionControlDetails_MarshalJSON scn ord')) (Run.VersionControlProvenance strct)"
    by (rule same_outputD [OF same_output_slice [OF same_output_ptr [OF VersionControlDetails_same_output]]]) (use v' in simp)
  have e26: "json_Marshal_slice (json_Marshal_ptr ''*sarif.WebRequest'' (WebRequest_MarshalJSON scn ord)) (Run.WebRequests strct) =
      json_Marshal_slice (json_Marshal_ptr ''*sarif.WebRequest'' (WebRequest_MarshalJSON scn ord')) (Run.WebRequests strct)"
    by (rule same_outputD [OF same_output_slice [OF same_output_ptr [OF WebRequest_same_output]]]) (use v' in simp)
  have e27: "json_Marshal_slice (json_Marshal_ptr ''*sarif.WebResponse'' (WebResponse_MarshalJSON scn ord)) (Run.WebResponses strct) =
      json_Marshal_slice (json_Marshal_ptr ''*sarif.WebResponse'' (WebResponse_MarshalJSON scn ord')) (Run.WebResponses strct)"
    by (rule same_outputD [OF same_output_slice [OF same_output_ptr [OF WebResponse_same_output]]]) (use v' in simp)
  show "Run_MarshalJSON scn ord strct = Run_MarshalJSON scn ord' strct"
    by (simp only: Run_MarshalJSON_def e0 e1 e2 e5 e8 e9 e10 e12 e14 e15 e16 e18 e19 e20 e21 e22 e23 e24 e25 e26 e27)
qed

lemma Run_writes_keys: "writes_keys (Run_MarshalJSON scn ord) Run_keys"
  unfolding writes_keys_def by (intro allI impI) (erule Run_keys_written)

lemma Run_unknown_key:
  assumes new: "k \<notin> set Run_keys" and key: "k \<in> fst ` set kvs"
    and rest: "Run_UnmarshalJSON ord (JObj (filter (\<lambda>e. fst e \<noteq> k) kvs)) = Inr strct"
  shows "Run_UnmarshalJSON ord (JObj kvs) = Inl (not_allowed k)"
proof -
  have rej: "switch k (Run_cases ord v) (reject k) s = Inl (not_allowed k)" for v s
    by (rule switch_rejects) (simp only: Run_cases_keys new not_False_eq_True)
  from rest obtain t where
    "range_loop (\<lambda>k v. switch k (Run_cases ord v) (reject k)) (members ord (filter (\<lambda>e. fst e \<noteq> k) kvs)) (Run_zero, False) = Inr t"
    by (cases "range_loop (\<lambda>k v. switch k (Run_cases ord v) (reject k)) (members ord (filter (\<lambda>e. fst e \<noteq> k) kvs)) (Run_zero, False)")
       (simp_all add: Run_UnmarshalJSON_def members_def)
  from unknown_key_named [OF Run_regular rej key this]
  show ?thesis by (simp add: Run_UnmarshalJSON_def members_def)
qed

lemma Run_unknown_key_fails:
  assumes "k \<notin> set Run_keys" and "k \<in> fst ` set kvs"
  shows "isl (Run_UnmarshalJSON ord (JObj kvs))"
proof (cases "Run_UnmarshalJSON ord (JObj kvs)")
  case (Inr strct)
  then have "dom (map_of (rev kvs)) \<subseteq> set Run_keys"
    by (simp only: Run_decode_iff Run_decodesD(1))
  with assms show ?thesis by (auto simp: dom_map_of_conv_image_fst)
qed simp

lemma Run_required_present:
  assumes "Run_UnmarshalJSON ord (JObj kvs) = Inr strct"
  shows "''tool'' \<in> fst ` set kvs"
proof -
  from assms have d: "Run_decodes ord (map_of (rev kvs)) strct" by (simp only: Run_decode_iff)
  show "''tool'' \<in> fst ` set kvs"
    using Run_decodesD(30) [OF d]
    by (simp_all only: present_key)
qed

lemma Run_without_Tool:
  assumes "Run_UnmarshalJSON ord (JObj kvs) = Inr strct"
  shows "Run_UnmarshalJSON ord (JObj (filter (\<lambda>e. fst e \<noteq> ''tool'') kvs)) =
    Inl (RequiredNotPresent ''tool'')"
proof -
  from assms have d: "Run_decodes ord (map_of (rev kvs)) strct" by (simp only: Run_decode_iff)
  have "\<exists>t. range_loop (\<lambda>k v. switch k (Run_cases ord v) (reject k)) (members ord (filter (\<lambda>e. fst e \<noteq> ''tool'') kvs))
      (Run_zero, False) = Inr t"
  proof (rule loop_succeeds [OF Run_regular])
    fix k v assume "(k, v) \<in> set (members ord (filter (\<lambda>e. fst e \<noteq> ''tool'') kvs))"
    then have "map_of (rev kvs) k = Some v" by (rule member_lookup_filter)
    from Run_accepts [OF d this]
    show "accepting (switch k (Run_cases ord v) (reject k))" .
  qed
  then obtain t where "range_loop (\<lambda>k v. switch k (Run_cases ord v) (reject k)) (members ord (filter (\<lambda>e. fst e \<noteq> ''tool'') kvs))
      (Run_zero, False) = Inr t" ..
  then obtain strct' toolReceived where
    loop: "range_loop (\<lambda>k v. switch k (Run_cases ord v) (reject k)) (members ord (filter (\<lambda>e. fst e \<noteq> ''tool'') kvs))
      (Run_zero, False) = Inr (strct', toolReceived)"
    by (cases t) auto
  from Run_loop_sound [OF loop] Run_decodesD(30) [OF d]
  have "\<not> toolReceived"
    by (simp_all add: lookup_filter)
  with loop show ?thesis
    by (simp add: Run_UnmarshalJSON_def members_def)
qed


lemma Run_rejects_unknown_keys: "rejects_unknown_keys (Run_UnmarshalJSON ord) Run_keys"
  by (rule rejects_unknown_keysI) (erule (1) Run_unknown_key_fails, erule (2) Run_unknown_key)

lemma Run_requires_Tool: "requires_key (Run_UnmarshalJSON ord) ''tool''"
  by (rule requires_keyI) (erule Run_required_present(1), erule Run_without_Tool)


subsection \<open>SARIF: decoding and encoding\<close>

definition SARIF_keys :: "string list" where
  "SARIF_keys = [''inlineExternalProperties'', ''properties'', ''runs'', ''$schema'', ''version'']"

definition SARIF_decodes :: "order \<Rightarrow> (string \<rightharpoonup> json) \<Rightarrow> SARIF \<Rightarrow> bool" where
  "SARIF_decodes ord m strct \<longleftrightarrow>
     dom m \<subseteq> set SARIF_keys \<and>
     field_ok (json_Unmarshal_slice (json_Unmarshal_ptr (ExternalProperties_UnmarshalJSON ord))) (m ''inlineExternalProperties'') None (SARIF.InlineExternalProperties strct) \<and>
     field_ok (json_Unmarshal_ptr (PropertyBag_UnmarshalJSON ord)) (m ''properties'') None (SARIF.Properties strct) \<and>
     field_ok (json_Unmarshal_slice (json_Unmarshal_ptr (Run_UnmarshalJSON ord))) (m ''runs'') None (SARIF.Runs strct) \<and>
     field_ok json_Unmarshal_string (m ''$schema'') [] (SARIF.Schema strct) \<and>
     field_ok json_Unmarshal_string (m ''version'') [] (SARIF.Version strct) \<and>
     m ''runs'' \<noteq> None \<and>
     m ''version'' \<noteq> None"

lemma SARIF_cases_keys: "fst ` set (SARIF_cases ord v) = set SARIF_keys"
  by (rule keys_image) (simp add: SARIF_cases_def SARIF_keys_def)

lemma SARIF_regular: "regular (\<lambda>k v. switch k (SARIF_cases ord v) (reject k))"
  by (rule regular_switch) (simp add: SARIF_cases_def)

lemma SARIF_fields:
  "field_case (SARIF_cases ord) (\<lambda>(strct, runsReceived, versionReceived). SARIF.InlineExternalProperties strct) ''inlineExternalProperties'' (json_Unmarshal_slice (json_Unmarshal_ptr (ExternalProperties_UnmarshalJSON ord)))"
  "field_case (SARIF_cases ord) (\<lambda>(strct, runsReceived, versionReceived). SARIF.Properties strct) ''properties'' (json_Unmarshal_ptr (PropertyBag_UnmarshalJSON ord))"
  "field_case (SARIF_cases ord) (\<lambda>(strct, runsReceived, versionReceived). SARIF.Runs strct) ''runs'' (json_Unmarshal_slice (json_Unmarshal_ptr (Run_UnmarshalJSON ord)))"
  "field_case (SARIF_cases ord) (\<lambda>(strct, runsReceived, versionReceived). SARIF.Schema strct) ''$schema'' json_Unmarshal_string"
  "field_case (SARIF_cases ord) (\<lambda>(strct, runsReceived, versionReceived). SARIF.Version strct) ''version'' json_Unmarshal_string"
  "field_case (SARIF_cases ord) (\<lambda>(strct, runsReceived, versionReceived). runsReceived) ''runs'' (received (json_Unmarshal_slice (json_Unmarshal_ptr (Run_UnmarshalJSON ord))))"
  "field_case (SARIF_cases ord) (\<lambda>(strct, runsReceived, versionReceived). versionReceived) ''version'' (received json_Unmarshal_string)"
  unfolding field_case_def SARIF_cases_def
  by (simp_all add: writes_into writes_received keeps_into split_def)

lemma SARIF_loop_sound:
  assumes loop: "range_loop (\<lambda>k v. switch k (SARIF_cases ord v) (reject k)) (members ord kvs) (SARIF_zero, False, False) = Inr (strct, runsReceived, versionReceived)"
  shows "dom (map_of (rev kvs)) \<subseteq> set SARIF_keys \<and>
     field_ok (json_Unmarshal_slice (json_Unmarshal_ptr (ExternalProperties_UnmarshalJSON ord))) (map_of (rev kvs) ''inlineExternalProperties'') None (SARIF.InlineExternalProperties strct) \<and>
     field_ok (json_Unmarshal_ptr (PropertyBag_UnmarshalJSON ord)) (map_of (rev kvs) ''properties'') None (SARIF.Properties strct) \<and>
     field_ok (json_Unmarshal_slice (json_Unmarshal_ptr (Run_UnmarshalJSON ord))) (map_of (rev kvs) ''runs'') None (SARIF.Runs strct) \<and>
     field_ok json_Unmarshal_string (map_of (rev kvs) ''$schema'') [] (SARIF.Schema strct) \<and>
     field_ok json_Unmarshal_string (map_of (rev kvs) ''version'') [] (SARIF.Version strct) \<and>
     (runsReceived \<longleftrightarrow> map_of (rev kvs) ''runs'' \<noteq> None) \<and>
     (versionReceived \<longleftrightarrow> map_of (rev kvs) ''version'' \<noteq> None)"
proof -
  have "fst ` set (members ord kvs) \<subseteq> set SARIF_keys"
    by (rule loop_keys_known [OF loop]) (rule SARIF_cases_keys)
  then have keys: "dom (map_of (rev kvs)) \<subseteq> set SARIF_keys"
    by (simp add: dom_members [of kvs ord])
  note fld = field_after_loop [OF _ members_distinct loop, unfolded map_of_members]
  note flg = flag_after_loop [OF _ members_distinct loop, unfolded map_of_members]
  show ?thesis
    using keys fld [OF SARIF_fields(1)] fld [OF SARIF_fields(2)] fld [OF SARIF_fields(3)] fld [OF SARIF_fields(4)] fld [OF SARIF_fields(5)] flg [OF SARIF_fields(6)] flg [OF SARIF_fields(7)]
    by (simp only: prod.case SARIF_zero_def SARIF.select_convs simp_thms)
qed

lemma SARIF_decodesD:
  assumes "SARIF_decodes ord m strct"
  shows "dom m \<subseteq> set SARIF_keys"
    and "field_ok (json_Unmarshal_slice (json_Unmarshal_ptr (ExternalProperties_UnmarshalJSON ord))) (m ''inlineExternalProperties'') None (SARIF.InlineExternalProperties strct)"
    and "field_ok (json_Unmarshal_ptr (PropertyBag_UnmarshalJSON ord)) (m ''properties'') None (SARIF.Properties strct)"
    and "field_ok (json_Unmarshal_slice (json_Unmarshal_ptr (Run_UnmarshalJSON ord))) (m ''runs'') None (SARIF.Runs strct)"
    and "field_ok json_Unmarshal_string (m ''$schema'') [] (SARIF.Schema strct)"
    and "field_ok json_Unmarshal_string (m ''version'') [] (SARIF.Version strct)"
    and "m ''runs'' \<noteq> None"
    and "m ''version'' \<noteq> None"
  using assms unfolding SARIF_decodes_def by - (elim conjE, assumption)+

lemma SARIF_decodes_unique:
  assumes "SARIF_decodes ord m a" and "SARIF_decodes ord m b"
  shows "a = b"
  apply (rule SARIF.equality)
  apply (rule field_ok_unique [OF SARIF_decodesD(2) [OF assms(1)] SARIF_decodesD(2) [OF assms(2)]])
  apply (rule field_ok_unique [OF SARIF_decodesD(3) [OF assms(1)] SARIF_decodesD(3) [OF assms(2)]])
  apply (rule field_ok_unique [OF SARIF_decodesD(4) [OF assms(1)] SARIF_decodesD(4) [OF assms(2)]])
  apply (rule field_ok_unique [OF SARIF_decodesD(5) [OF assms(1)] SARIF_decodesD(5) [OF assms(2)]])
  apply (rule field_ok_unique [OF SARIF_decodesD(6) [OF assms(1)] SARIF_decodesD(6) [OF assms(2)]])
  apply simp
  done

lemma SARIF_accepts:
  assumes "SARIF_decodes ord m strct" and "m k = Some v"
  shows "accepting (switch k (SARIF_cases ord v) (reject k))"
proof -
  from assms have "k \<in> set SARIF_keys" by (auto simp: SARIF_decodes_def)
  then have key: "k \<in> fst ` set (SARIF_cases ord v)"
    by (simp only: SARIF_cases_keys)
  have rows: "list_all (\<lambda>(c, h). m c = Some v \<longrightarrow> accepting h) (SARIF_cases ord v)"
    unfolding SARIF_cases_def list.pred_inject
    apply (rule conjI [OF accept_row [where m = m and v = v, OF SARIF_decodesD(2) [OF assms(1)]]])
    apply (rule conjI [OF accept_row [where m = m and v = v, OF SARIF_decodesD(3) [OF assms(1)]]])
    apply (rule conjI [OF accept_row [where m = m and v = v, OF SARIF_decodesD(4) [OF assms(1)]]])
    apply (rule conjI [OF accept_row [where m = m and v = v, OF SARIF_decodesD(5) [OF assms(1)]]])
    apply (rule conjI [OF accept_row [where m = m and v = v, OF SARIF_decodesD(6) [OF assms(1)]]])
    apply simp
    done
  show ?thesis by (rule rows_accept [OF rows assms(2) key])
qed

lemma SARIF_decode_iff:
  "SARIF_UnmarshalJSON ord (JObj kvs) = Inr strct \<longleftrightarrow>
   SARIF_decodes ord (map_of (rev kvs)) strct"
proof
  assume "SARIF_UnmarshalJSON ord (JObj kvs) = Inr strct"
  then obtain runsReceived versionReceived where
    loop: "range_loop (\<lambda>k v. switch k (SARIF_cases ord v) (reject k)) (members ord kvs) (SARIF_zero, False, False) = Inr (strct, runsReceived, versionReceived)"
    and fin: "runsReceived" "versionReceived"
    by (auto simp: SARIF_UnmarshalJSON_def members_def split: sum.splits if_splits)
  from SARIF_loop_sound [OF loop] fin
  show "SARIF_decodes ord (map_of (rev kvs)) strct"
    by (simp add: SARIF_decodes_def)
next
  assume d: "SARIF_decodes ord (map_of (rev kvs)) strct"
  have "\<exists>t. range_loop (\<lambda>k v. switch k (SARIF_cases ord v) (reject k)) (members ord kvs) (SARIF_zero, False, False) = Inr t"
  proof (rule loop_succeeds [OF SARIF_regular])
    fix k v assume "(k, v) \<in> set (members ord kvs)"
    then have "map_of (rev kvs) k = Some v" by (rule member_lookup)
    from SARIF_accepts [OF d this]
    show "accepting (switch k (SARIF_cases ord v) (reject k))" .
  qed
  then obtain t where "range_loop (\<lambda>k v. switch k (SARIF_cases ord v) (reject k)) (members ord kvs) (SARIF_zero, False, False) = Inr t" ..
  then obtain strct' runsReceived versionReceived where
    loop: "range_loop (\<lambda>k v. switch k (SARIF_cases ord v) (reject k)) (members ord kvs) (SARIF_zero, False, False) = Inr (strct', runsReceived, versionReceived)"
    by (cases t) auto
  from SARIF_loop_sound [OF loop] d
  have fin: "runsReceived" "versionReceived"
    and d': "SARIF_decodes ord (map_of (rev kvs)) strct'"
    by (simp_all add: SARIF_decodes_def)
  from SARIF_decodes_unique [OF d' d] have "strct' = strct" .
  with loop fin show "SARIF_UnmarshalJSON ord (JObj kvs) = Inr strct"
    by (simp add: SARIF_UnmarshalJSON_def members_def)
qed

definition SARIF_results :: "scanner \<Rightarrow> order \<Rightarrow> SARIF \<Rightarrow> (string \<times> (error + json)) list" where
  "SARIF_results scn ord strct =
     [(''inlineExternalProperties'', json_Marshal_slice (json_Marshal_ptr ''*sarif.ExternalProperties'' (ExternalProperties_MarshalJSON scn ord)) (SARIF.InlineExternalProperties strct)),
      (''properties'', json_Marshal_bytes ''*sarif.PropertyBag'' (PropertyBag_MarshalJSON scn ord) (SARIF.Properties strct)),
      (''runs'', json_Marshal_slice (json_Marshal_ptr ''*sarif.Run'' (Run_MarshalJSON scn ord)) (SARIF.Runs strct)),
      (''$schema'', json_Marshal_string (SARIF.Schema strct)),
      (''version'', json_Marshal_string (SARIF.Version strct))]"

lemma SARIF_MarshalJSON_results:
  "SARIF_MarshalJSON scn ord strct = object (emit_all (SARIF_results scn ord strct))"
  by (simp add: SARIF_MarshalJSON_def SARIF_results_def emit_nilcheck)

lemma SARIF_keys_written:
  "SARIF_MarshalJSON scn ord strct = Inr j \<Longrightarrow> \<exists>kvs. j = JObj kvs \<and> map fst kvs = SARIF_keys"
  using keys_written [of "SARIF_results scn ord strct" j]
  by (simp add: SARIF_MarshalJSON_results SARIF_results_def SARIF_keys_def)

definition SARIF_encodable :: "scanner \<Rightarrow> order \<Rightarrow> SARIF \<Rightarrow> bool" where
  "SARIF_encodable scn ord strct \<longleftrightarrow>
     slice_all (ptr_all (ExternalProperties_encodable scn ord)) (SARIF.InlineExternalProperties strct) \<and>
     ptr_all (PropertyBag_encodable scn ord) (SARIF.Properties strct) \<and>
     slice_all (ptr_all (Run_encodable scn ord)) (SARIF.Runs strct)"

lemma SARIF_fails_unless: "fails_unless (SARIF_MarshalJSON scn ord) (SARIF_encodable scn ord)"
  unfolding fails_unless_def SARIF_MarshalJSON_results SARIF_results_def SARIF_encodable_def isl_object_emit_all
  by (auto simp add: always_simps
      fails_unlessD [OF fails_unless_slice [OF fails_unless_ptr [OF ExternalProperties_fails_unless]]]
      fails_unlessD [OF PropertyBag_field_fails_unless]
      fails_unlessD [OF fails_unless_slice [OF fails_unless_ptr [OF Run_fails_unless]]]
      fails_unlessD [OF fails_unless_string])

definition SARIF_valid :: "SARIF \<Rightarrow> bool" where
  "SARIF_valid strct \<longleftrightarrow>
     slice_all (ptr_all ExternalProperties_valid) (SARIF.InlineExternalProperties strct) \<and>
     ptr_all PropertyBag_valid (SARIF.Properties strct) \<and>
     slice_all (ptr_all Run_valid) (SARIF.Runs strct)"

lemma SARIF_keys_distinct: "distinct SARIF_keys"
  by (simp add: SARIF_keys_def)

lemma SARIF_round_trips:
  "round_trips_object (SARIF_MarshalJSON scn ord) (SARIF_UnmarshalJSON ord') SARIF_valid"
  unfolding round_trips_object_def
proof (intro allI impI)
  fix strct assume v: "SARIF_valid strct"
  note v' = v [unfolded SARIF_valid_def]
  let ?rs = "SARIF_results scn ord strct"
  let ?kvs = "map (\<lambda>e. (fst e, projr (snd e))) ?rs"
  have f0: "\<not> isl (json_Marshal_slice (json_Marshal_ptr ''*sarif.ExternalProperties'' (ExternalProperties_MarshalJSON scn ord)) (SARIF.InlineExternalProperties strct)) \<and>
      json_Unmarshal_slice (json_Unmarshal_ptr (ExternalProperties_UnmarshalJSON ord')) (projr (json_Marshal_slice (json_Marshal_ptr ''*sarif.ExternalProperties'' (ExternalProperties_MarshalJSON scn ord)) (SARIF.InlineExternalProperties strct))) = Inr (SARIF.InlineExternalProperties strct)"
    by (rule round_tripsD [OF round_trips_slice [OF round_trips_ptr [OF ExternalProperties_round_trips]]]) (use v' in simp)
  have f1: "\<not> isl (json_Marshal_bytes ''*sarif.PropertyBag'' (PropertyBag_MarshalJSON scn ord) (SARIF.Properties strct)) \<and>
      json_Unmarshal_ptr (PropertyBag_UnmarshalJSON ord') (projr (json_Marshal_bytes ''*sarif.PropertyBag'' (PropertyBag_MarshalJSON scn ord) (SARIF.Properties strct))) = Inr (SARIF.Properties strct)"
    by (rule round_tripsD [OF PropertyBag_field_round_trips]) (use v' in simp)
  have f2: "\<not> isl (json_Marshal_slice (json_Marshal_ptr ''*sarif.Run'' (Run_MarshalJSON scn ord)) (SARIF.Runs strct)) \<and>
      json_Unmarshal_slice (json_Unmarshal_ptr (Run_UnmarshalJSON ord')) (projr (json_Marshal_slice (json_Marshal_ptr ''*sarif.Run'' (Run_MarshalJSON scn ord)) (SARIF.Runs strct))) = Inr (SARIF.Runs strct)"
    by (rule round_tripsD [OF round_trips_slice [OF round_trips_ptr [OF Run_round_trips]]]) (use v' in simp)
  have f3: "\<not> isl (json_Marshal_string (SARIF.Schema strct)) \<and>
      json_Unmarshal_string (projr (json_Marshal_string (SARIF.Schema strct))) = Inr (SARIF.Schema strct)"
    by (rule round_tripsD [OF round_trips_string]) (use v' in simp)
  have f4: "\<not> isl (json_Marshal_string (SARIF.Version strct)) \<and>
      json_Unmarshal_string (projr (json_Marshal_string (SARIF.Version strct))) = Inr (SARIF.Version strct)"
    by (rule round_tripsD [OF round_trips_string]) (use v' in simp)
  note fs = f0 f1 f2 f3 f4
  have rs: "?rs =
     [(''inlineExternalProperties'', json_Marshal_slice (json_Marshal_ptr ''*sarif.ExternalProperties'' (ExternalProperties_MarshalJSON scn ord)) (SARIF.InlineExternalProperties strct)),
      (''properties'', json_Marshal_bytes ''*sarif.PropertyBag'' (PropertyBag_MarshalJSON scn ord) (SARIF.Properties strct)),
      (''runs'', json_Marshal_slice (json_Marshal_ptr ''*sarif.Run'' (Run_MarshalJSON scn ord)) (SARIF.Runs strct)),
      (''$schema'', json_Marshal_string (SARIF.Schema strct)),
      (''version'', json_Marshal_string (SARIF.Version strct))]"
    by (auto simp add: SARIF_results_def)
  have keys: "map fst ?rs = SARIF_keys"
    by (simp add: SARIF_results_def SARIF_keys_def)
  then have dist: "distinct (map fst ?rs)"
    by (simp only: SARIF_keys_distinct)
  have ok: "list_all (\<lambda>e. \<not> isl (snd e)) ?rs"
    unfolding rs by (simp only: list.pred_inject snd_conv fs simp_thms)
  then have enc: "SARIF_MarshalJSON scn ord strct = Inr (JObj ?kvs)"
    by (simp add: SARIF_MarshalJSON_results [of scn ord strct] object_emit_all_eq_Inr)
  have l0: "map_of (rev ?kvs) ''inlineExternalProperties'' = Some (projr (json_Marshal_slice (json_Marshal_ptr ''*sarif.ExternalProperties'' (ExternalProperties_MarshalJSON scn ord)) (SARIF.InlineExternalProperties strct)))"
    by (rule written_lookup [OF dist]) (subst rs, intro list.set_intros)
  have l1: "map_of (rev ?kvs) ''properties'' = Some (projr (json_Marshal_bytes ''*sarif.PropertyBag'' (PropertyBag_MarshalJSON scn ord) (SARIF.Properties strct)))"
    by (rule written_lookup [OF dist]) (subst rs, intro list.set_intros)
  have l2: "map_of (rev ?kvs) ''runs'' = Some (projr (json_Marshal_slice (json_Marshal_ptr ''*sarif.Run'' (Run_MarshalJSON scn ord)) (SARIF.Runs strct)))"
    by (rule written_lookup [OF dist]) (subst rs, intro list.set_intros)
  have l3: "map_of (rev ?kvs) ''$schema'' = Some (projr (json_Marshal_string (SARIF.Schema strct)))"
    by (rule written_lookup [OF dist]) (subst rs, intro list.set_intros)
  have l4: "map_of (rev ?kvs) ''version'' = Some (projr (json_Marshal_string (SARIF.Version strct)))"
    by (rule written_lookup [OF dist]) (subst rs, intro list.set_intros)
  have dec: "SARIF_decodes ord' (map_of (rev ?kvs)) strct"
    unfolding SARIF_decodes_def l0 l1 l2 l3 l4
    by (simp only: field_ok_Some fs written_dom keys subset_refl option.simps simp_thms)
  then have "SARIF_UnmarshalJSON ord' (JObj ?kvs) = Inr strct"
    by (simp only: SARIF_decode_iff)
  with enc show "rt_object (SARIF_MarshalJSON scn ord) (SARIF_UnmarshalJSON ord') strct"
    unfolding rt_object_def by blast
qed

definition SARIF_small_bags :: "SARIF \<Rightarrow> bool" where
  "SARIF_small_bags strct \<longleftrightarrow>
     slice_all (ptr_all ExternalProperties_small_bags) (SARIF.InlineExternalProperties strct) \<and>
     ptr_all PropertyBag_small_bags (SARIF.Properties strct) \<and>
     slice_all (ptr_all Run_small_bags) (SARIF.Runs strct)"

lemma SARIF_same_output:
  "same_output (SARIF_MarshalJSON scn ord) (SARIF_MarshalJSON scn ord') SARIF_small_bags"
  unfolding same_output_def
proof (intro allI impI)
  fix strct assume v: "SARIF_small_bags strct"
  note v' = v [unfolded SARIF_small_bags_def]
  have e0: "json_Marshal_slice (json_Marshal_ptr ''*sarif.ExternalProperties'' (ExternalProperties_MarshalJSON scn ord)) (SARIF.InlineExternalProperties strct) =
      json_Marshal_slice (json_Marshal_ptr ''*sarif.ExternalProperties'' (ExternalProperties_MarshalJSON scn ord')) (SARIF.InlineExternalProperties strct)"
    by (rule same_outputD [OF same_output_slice [OF same_output_ptr [OF ExternalProperties_same_output]]]) (use v' in simp)
  have e1: "json_Marshal_bytes ''*sarif.PropertyBag'' (PropertyBag_MarshalJSON scn ord) (SARIF.Properties strct) =
      json_Marshal_bytes ''*sarif.PropertyBag'' (PropertyBag_MarshalJSON scn ord') (SARIF.Properties strct)"
    by (rule same_outputD [OF PropertyBag_field_same_output]) (use v' in simp)
  have e2: "json_Marshal_slice (json_Marshal_ptr ''*sarif.Run'' (Run_MarshalJSON scn ord)) (SARIF.Runs strct) =
      json_Marshal_slice (json_Marshal_ptr ''*sarif.Run'' (Run_MarshalJSON scn ord')) (SARIF.Runs strct)"
    by (rule same_outputD [OF same_output_slice [OF same_output_ptr [OF Run_same_output]]]) (use v' in simp)
  show "SARIF_MarshalJSON scn ord strct = SARIF_MarshalJSON scn ord' strct"
    by (simp only: SARIF_MarshalJSON_def e0 e1 e2)
qed

lemma SARIF_writes_keys: "writes_keys (SARIF_MarshalJSON scn ord) SARIF_keys"
  unfolding writes_keys_def by (intro allI impI) (erule SARIF_keys_written)

lemma SARIF_unknown_key:
  assumes new: "k \<notin> set SARIF_keys" and key: "k \<in> fst ` set kvs"
    and rest: "SARIF_UnmarshalJSON ord (JObj (filter (\<lambda>e. fst e \<noteq> k) kvs)) = Inr strct"
  shows "SARIF_UnmarshalJSON ord (JObj kvs) = Inl (not_allowed k)"
proof -
  have rej: "switch k (SARIF_cases ord v) (reject k) s = Inl (not_allowed k)" for v s
    by (rule switch_rejects) (simp only: SARIF_cases_keys new not_False_eq_True)
  from rest obtain t where
    "range_loop (\<lambda>k v. switch k (SARIF_cases ord v) (reject k)) (members ord (filter (\<lambda>e. fst e \<noteq> k) kvs)) (SARIF_zero, False, False) = Inr t"
    by (cases "range_loop (\<lambda>k v. switch k (SARIF_cases ord v) (reject k)) (members ord (filter (\<lambda>e. fst e \<noteq> k) kvs)) (SARIF_zero, False, False)")
       (simp_all add: SARIF_UnmarshalJSON_def members_def)
  from unknown_key_named [OF SARIF_regular rej key this]
  show ?thesis by (simp add: SARIF_UnmarshalJSON_def members_def)
qed

lemma SARIF_unknown_key_fails:
  assumes "k \<notin> set SARIF_keys" and "k \<in> fst ` set kvs"
  shows "isl (SARIF_UnmarshalJSON ord (JObj kvs))"
proof (cases "SARIF_UnmarshalJSON ord (JObj kvs)")
  case (Inr strct)
  then have "dom (map_of (rev kvs)) \<subseteq> set SARIF_keys"
    by (simp only: SARIF_decode_iff SARIF_decodesD(1))
  with assms show ?thesis by (auto simp: dom_map_of_conv_image_fst)
qed simp

lemma SARIF_required_present:
  assumes "SARIF_UnmarshalJSON ord (JObj kvs) = Inr strct"
  shows "''runs'' \<in> fst ` set kvs"
    and "''version'' \<in> fst ` set kvs"
proof -
  from assms have d: "SARIF_decodes ord (map_of (rev kvs)) strct" by (simp only: SARIF_decode_iff)
  show "''runs'' \<in> fst ` set kvs"
    and "''version'' \<in> fst ` set kvs"
    using SARIF_decodesD(7) [OF d] SARIF_decodesD(8) [OF d]
    by (simp_all only: present_key)
qed

lemma SARIF_without_Runs:
  assumes "SARIF_UnmarshalJSON ord (JObj kvs) = Inr strct"
  shows "SARIF_UnmarshalJSON ord (JObj (filter (\<lambda>e. fst e \<noteq> ''runs'') kvs)) =
    Inl (RequiredNotPresent ''runs'')"
proof -
  from assms have d: "SARIF_decodes ord (map_of (rev kvs)) strct" by (simp only: SARIF_decode_iff)
  have "\<exists>t. range_loop (\<lambda>k v. switch k (SARIF_cases ord v) (reject k)) (members ord (filter (\<lambda>e. fst e \<noteq> ''runs'') kvs))
      (SARIF_zero, False, False) = Inr t"
  proof (rule loop_succeeds [OF SARIF_regular])
    fix k v assume "(k, v) \<in> set (members ord (filter (\<lambda>e. fst e \<noteq> ''runs'') kvs))"
    then have "map_of (rev kvs) k = Some v" by (rule member_lookup_filter)
    from SARIF_accepts [OF d this]
    show "accepting (switch k (SARIF_cases ord v) (reject k))" .
  qed
  then obtain t where "range_loop (\<lambda>k v. switch k (SARIF_cases ord v) (reject k)) (members ord (filter (\<lambda>e. fst e \<noteq> ''runs'') kvs))
      (SARIF_zero, False, False) = Inr t" ..
  then obtain strct' runsReceived versionReceived where
    loop: "range_loop (\<lambda>k v. switch k (SARIF_cases ord v) (reject k)) (members ord (filter (\<lambda>e. fst e \<noteq> ''runs'') kvs))
      (SARIF_zero, False, False) = Inr (strct', runsReceived, versionReceived)"
    by (cases t) auto
  from SARIF_loop_sound [OF loop] SARIF_decodesD(7) [OF d] SARIF_decodesD(8) [OF d]
  have "\<not> runsReceived" "versionReceived"
    by (simp_all add: lookup_filter)
  with loop show ?thesis
    by (simp add: SARIF_UnmarshalJSON_def members_def)
qed

lemma SARIF_without_Version:
  assumes "SARIF_UnmarshalJSON ord (JObj kvs) = Inr strct"
  shows "SARIF_UnmarshalJSON ord (JObj (filter (\<lambda>e. fst e \<noteq> ''version'') kvs)) =
    Inl (RequiredNotPresent ''version'')"
proof -
  from assms have d: "SARIF_decodes ord (map_of (rev kvs)) strct" by (simp only: SARIF_decode_iff)
  have "\<exists>t. range_loop (\<lambda>k v. switch k (SARIF_cases ord v) (reject k)) (members ord (filter (\<lambda>e. fst e \<noteq> ''version'') kvs))
      (SARIF_zero, False, False) = Inr t"
  proof (rule loop_succeeds [OF SARIF_regular])
    fix k v assume "(k, v) \<in> set (members ord (filter (\<lambda>e. fst e \<noteq> ''version'') kvs))"
    then have "map_of (rev kvs) k = Some v" by (rule member_lookup_filter)
    from SARIF_accepts [OF d this]
    show "accepting (switch k (SARIF_cases ord v) (reject k))" .
  qed
  then obtain t where "range_loop (\<lambda>k v. switch k (SARIF_cases ord v) (reject k)) (members ord (filter (\<lambda>e. fst e \<noteq> ''version'') kvs))
      (SARIF_zero, False, False) = Inr t" ..
  then obtain strct' runsReceived versionReceived where
    loop: "range_loop (\<lambda>k v. switch k (SARIF_cases ord v) (reject k)) (members ord (filter (\<lambda>e. fst e \<noteq> ''version'') kvs))
      (SARIF_zero, False, False) = Inr (strct', runsReceived, versionReceived)"
    by (cases t) auto
  from SARIF_loop_sound [OF loop] SARIF_decodesD(7) [OF d] SARIF_decodesD(8) [OF d]
  have "runsReceived" "\<not> versionReceived"
    by (simp_all add: lookup_filter)
  with loop show ?thesis
    by (simp add: SARIF_UnmarshalJSON_def members_def)
qed


lemma SARIF_set_Schema:
  assumes "SARIF_decodes ord m strct" and "json_Unmarshal_string v = Inr x"
  shows "SARIF_decodes ord (m(''$schema'' \<mapsto> v)) (strct\<lparr>SARIF.Schema := x\<rparr>)"
  using assms unfolding SARIF_decodes_def SARIF_keys_def
  by (simp add: field_ok_Some)

lemma SARIF_set_Version:
  assumes "SARIF_decodes ord m strct" and "json_Unmarshal_string v = Inr x"
  shows "SARIF_decodes ord (m(''version'' \<mapsto> v)) (strct\<lparr>SARIF.Version := x\<rparr>)"
  using assms unfolding SARIF_decodes_def SARIF_keys_def
  by (simp add: field_ok_Some)

lemma SARIF_rejects_unknown_keys: "rejects_unknown_keys (SARIF_UnmarshalJSON ord) SARIF_keys"
  by (rule rejects_unknown_keysI) (erule (1) SARIF_unknown_key_fails, erule (2) SARIF_unknown_key)

lemma SARIF_requires_Runs: "requires_key (SARIF_UnmarshalJSON ord) ''runs''"
  by (rule requires_keyI) (erule SARIF_required_present(1), erule SARIF_without_Runs)


lemma SARIF_requires_Version: "requires_key (SARIF_UnmarshalJSON ord) ''version''"
  by (rule requires_keyI) (erule SARIF_required_present(2), erule SARIF_without_Version)


section \<open>The claims of the specification\<close>

subsection \<open>Objects used as examples\<close>

text \<open>
  The examples have plain keys only, so that their results do not depend on the scanner.
  They are run with the scanner that finds no JSON in the bytes it is asked about.
\<close>

definition refuse :: scanner where
  "refuse buf = None"

lemma field_ok_member: "field_ok U m z x \<Longrightarrow> m = Some v \<Longrightarrow> U v = Inr x"
  by (simp add: field_ok_def)

lemma ArtifactChange_two_members:
  "ArtifactChange_UnmarshalJSON ord (JObj [(''artifactLocation'', JNull), (''replacements'', JArr [])]) =
     Inr \<lparr>ArtifactChange.ArtifactLocation = None, ArtifactChange.Properties = None,
          ArtifactChange.Replacements = Some []\<rparr>"
  by (simp add: ArtifactChange_decode_iff ArtifactChange_decodes_def ArtifactChange_keys_def
      field_ok_def json_Unmarshal_slice_def)

lemma SARIF_two_members:
  "SARIF_UnmarshalJSON ord (JObj [(''version'', JStr ''2.1.0''), (''runs'', JArr [])]) =
     Inr (SARIF_zero\<lparr>SARIF.Runs := Some [], SARIF.Version := ''2.1.0''\<rparr>)"
  by (simp add: SARIF_decode_iff SARIF_decodes_def SARIF_keys_def SARIF_zero_def
      field_ok_def json_Unmarshal_slice_def json_Unmarshal_string_def)

lemma ToolComponent_named:
  "ToolComponent_UnmarshalJSON ord (JObj [(''name'', JStr ''Analyzer'')]) =
     Inr (ToolComponent_zero\<lparr>ToolComponent.Name := ''Analyzer''\<rparr>)"
  by (simp add: ToolComponent_decode_iff ToolComponent_decodes_def ToolComponent_keys_def
      ToolComponent_zero_def field_ok_def json_Unmarshal_string_def)

lemma Tool_with_driver:
  "Tool_UnmarshalJSON ord (JObj [(''driver'', JObj [(''name'', JStr ''Analyzer'')])]) =
     Inr (Tool_zero\<lparr>Tool.Driver := Some (ToolComponent_zero\<lparr>ToolComponent.Name := ''Analyzer''\<rparr>)\<rparr>)"
  by (simp add: Tool_decode_iff Tool_decodes_def Tool_keys_def Tool_zero_def field_ok_def
      json_Unmarshal_ptr_def ToolComponent_named)

lemma Run_with_tool:
  "Run_UnmarshalJSON ord (JObj [(''tool'', JObj [(''driver'', JObj [(''name'', JStr ''Analyzer'')])])]) =
     Inr (Run_zero\<lparr>Run.Tool := Some (Tool_zero\<lparr>Tool.Driver :=
       Some (ToolComponent_zero\<lparr>ToolComponent.Name := ''Analyzer''\<rparr>)\<rparr>)\<rparr>)"
  by (simp add: Run_decode_iff Run_decodes_def Run_keys_def Run_zero_def field_ok_def
      json_Unmarshal_ptr_def Tool_with_driver)

lemma SARIF_minimal:
  "SARIF_UnmarshalJSON ord
     (JObj [(''version'', JStr ''2.1.0''),
            (''runs'', JArr [JObj [(''tool'', JObj [(''driver'', JObj [(''name'', JStr ''Analyzer'')])])]])]) =
     Inr (SARIF_zero\<lparr>SARIF.Runs := Some [Some (Run_zero\<lparr>Run.Tool := Some (Tool_zero\<lparr>Tool.Driver :=
       Some (ToolComponent_zero\<lparr>ToolComponent.Name := ''Analyzer''\<rparr>)\<rparr>)\<rparr>)],
       SARIF.Version := ''2.1.0''\<rparr>)"
  by (simp add: SARIF_decode_iff SARIF_decodes_def SARIF_keys_def SARIF_zero_def field_ok_def
      json_Unmarshal_slice_def json_Unmarshal_ptr_def json_Unmarshal_string_def Run_with_tool)

subsection \<open>C1: decoding what was encoded\<close>

text \<open>
  \<^verbatim>\<open>PropertyBag.UnmarshalJSON\<close> makes the map of additional properties when it stores
  the first of them, and a number it stores is a \<^verbatim>\<open>float64\<close>. So a bag whose map is empty
  and not \<^verbatim>\<open>nil\<close> comes back with a \<^verbatim>\<open>nil\<close> map, and a bag that holds the \<^verbatim>\<open>int\<close> 42
  comes back holding the \<^verbatim>\<open>float64\<close> 42.
\<close>

definition C1_empty_bag :: PropertyBag where
  "C1_empty_bag = \<lparr>PropertyBag.AdditionalProperties = Some [], PropertyBag.Tags = None\<rparr>"

definition C1_int_bag :: PropertyBag where
  "C1_int_bag = \<lparr>PropertyBag.AdditionalProperties = Some [(''customX'', AnyInt 42)],
                  PropertyBag.Tags = None\<rparr>"

theorem C1_bag_comes_back_changed:
  "PropertyBag_MarshalJSON refuse [] C1_empty_bag = Inr (Some (JObj [(''tags'', JNull)])) \<and>
   PropertyBag_UnmarshalJSON [] (JObj [(''tags'', JNull)]) =
     Inr \<lparr>PropertyBag.AdditionalProperties = None, PropertyBag.Tags = None\<rparr> \<and>
   \<lparr>PropertyBag.AdditionalProperties = None, PropertyBag.Tags = None\<rparr> \<noteq> C1_empty_bag \<and>
   PropertyBag_MarshalJSON refuse [] C1_int_bag =
     Inr (Some (JObj [(''tags'', JNull), (''customX'', JNum (NInt 42))])) \<and>
   PropertyBag_UnmarshalJSON [] (JObj [(''tags'', JNull), (''customX'', JNum (NInt 42))]) =
     Inr \<lparr>PropertyBag.AdditionalProperties = Some [(''customX'', AnyFloat64 (Finite (NInt 42)))],
          PropertyBag.Tags = None\<rparr> \<and>
   \<lparr>PropertyBag.AdditionalProperties = Some [(''customX'', AnyFloat64 (Finite (NInt 42)))],
    PropertyBag.Tags = None\<rparr> \<noteq> C1_int_bag"
  by (simp add: PropertyBag_decode_iff additional_def others_decode_def field_ok_def
      json_Unmarshal_slice_def float64_limit_def
      PropertyBag_MarshalJSON_def C1_empty_bag_def C1_int_bag_def entries_def range_map_def
      emit_def json_Marshal_slice_def json_Marshal_int_def bytes_as_json_def plain_key_def)

text \<open>
  The instances the round trip holds for are given by the predicate \<open>valid\<close> of each
  entity. It asks what \<^verbatim>\<open>MarshalJSON\<close> needs to return a document at all (a pointer
  that \<^verbatim>\<open>MarshalJSON\<close> checks is not \<^verbatim>\<open>nil\<close>, a \<^verbatim>\<open>float64\<close> is a number in the range of
  the type), what the representation of a Go map as a list asks (the keys are in order and
  occur once), and of a property bag that it is as \<^verbatim>\<open>UnmarshalJSON\<close> makes bags: the map
  of additional properties is \<^verbatim>\<open>nil\<close> or has an entry, has no entry under \<^verbatim>\<open>tags\<close>, has
  values of the types that \<^verbatim>\<open>json.Unmarshal\<close> stores in an \<^verbatim>\<open>interface{}\<close>, and has keys
  without quote, backslash and control character. Optional fields may hold their zero
  values, and bags may be populated.
\<close>

definition C1_change :: ArtifactChange where
  "C1_change =
     \<lparr>ArtifactChange.ArtifactLocation = Some (ArtifactLocation_zero\<lparr>ArtifactLocation.Uri := ''src/main.c''\<rparr>),
      ArtifactChange.Properties =
        Some \<lparr>PropertyBag.AdditionalProperties = Some [(''customX'', AnyFloat64 (Finite (NInt 42)))],
              PropertyBag.Tags = Some [''a'']\<rparr>,
      ArtifactChange.Replacements = Some []\<rparr>"

lemma C1_change_valid: "ArtifactChange_valid C1_change"
  by (simp add: C1_change_def ArtifactChange_valid_def ArtifactLocation_valid_def
      ArtifactLocation_zero_def PropertyBag_valid_def plain_key_def ptr_all_def slice_all_def
      float64_valid_def float64_limit_def)

text \<open>
  Claim C1, amended. For every entity and every valid instance of it, \<^verbatim>\<open>MarshalJSON\<close>
  returns a JSON object and \<^verbatim>\<open>UnmarshalJSON\<close> of that object returns the instance,
  whatever the orders in which the two runs enumerate their maps.
\<close>

theorem C1_round_trip:
  "round_trips_bytes (PropertyBag_MarshalJSON scn ord) (PropertyBag_UnmarshalJSON ord') PropertyBag_valid \<and>
   round_trips_object (Address_MarshalJSON scn ord) (Address_UnmarshalJSON ord') Address_valid \<and>
   round_trips_object (Message_MarshalJSON scn ord) (Message_UnmarshalJSON ord') Message_valid \<and>
   round_trips_object (ArtifactLocation_MarshalJSON scn ord) (ArtifactLocation_UnmarshalJSON ord') ArtifactLocation_valid \<and>
   round_trips_object (MultiformatMessageString_MarshalJSON scn ord) (MultiformatMessageString_UnmarshalJSON ord') MultiformatMessageString_valid \<and>
   round_trips_object (ArtifactContent_MarshalJSON scn ord) (ArtifactContent_UnmarshalJSON ord') ArtifactContent_valid \<and>
   round_trips_object (Artifact_MarshalJSON scn ord) (Artifact_UnmarshalJSON ord') Artifact_valid \<and>
   round_trips_object (Region_MarshalJSON scn ord) (Region_UnmarshalJSON ord') Region_valid \<and>
   round_trips_object (Replacement_MarshalJSON scn ord) (Replacement_UnmarshalJSON ord') Replacement_valid \<and>
   round_trips_object (ArtifactChange_MarshalJSON scn ord) (ArtifactChange_UnmarshalJSON ord') ArtifactChange_valid \<and>
   round_trips_object (Rectangle_MarshalJSON scn ord) (Rectangle_UnmarshalJSON ord') Rectangle_valid \<and>
   round_trips_object (Attachment_MarshalJSON scn ord) (Attachment_UnmarshalJSON ord') Attachment_valid \<and>
   round_trips_object (ToolComponentReference_MarshalJSON scn ord) (ToolComponentReference_UnmarshalJSON ord') ToolComponentReference_valid \<and>
   round_trips_object (ReportingDescriptorReference_MarshalJSON scn ord) (ReportingDescriptorReference_UnmarshalJSON ord') ReportingDescriptorReference_valid \<and>
   round_trips_object (PhysicalLocation_MarshalJSON scn ord) (PhysicalLocation_UnmarshalJSON ord') PhysicalLocation_valid \<and>
   round_trips_object (LocationRelationship_MarshalJSON scn ord) (LocationRelationship_UnmarshalJSON ord') LocationRelationship_valid \<and>
   round_trips_object (LogicalLocation_MarshalJSON scn ord) (LogicalLocation_UnmarshalJSON ord') LogicalLocation_valid \<and>
   round_trips_object (Location_MarshalJSON scn ord) (Location_UnmarshalJSON ord') Location_valid \<and>
   round_trips_object (StackFrame_MarshalJSON scn ord) (StackFrame_UnmarshalJSON ord') StackFrame_valid \<and>
   round_trips_object (Stack_MarshalJSON scn ord) (Stack_UnmarshalJSON ord') Stack_valid \<and>
   round_trips_object (WebRequest_MarshalJSON scn ord) (WebRequest_UnmarshalJSON ord') WebRequest_valid \<and>
   round_trips_object (WebResponse_MarshalJSON scn ord) (WebResponse_UnmarshalJSON ord') WebResponse_valid \<and>
   round_trips_object (ThreadFlowLocation_MarshalJSON scn ord) (ThreadFlowLocation_UnmarshalJSON ord') ThreadFlowLocation_valid \<and>
   round_trips_object (ThreadFlow_MarshalJSON scn ord) (ThreadFlow_UnmarshalJSON ord') ThreadFlow_valid \<and>
   round_trips_object (CodeFlow_MarshalJSON scn ord) (CodeFlow_UnmarshalJSON ord') CodeFlow_valid \<and>
   round_trips_object (ReportingConfiguration_MarshalJSON scn ord) (ReportingConfiguration_UnmarshalJSON ord') ReportingConfiguration_valid \<and>
   round_trips_object (ConfigurationOverride_MarshalJSON scn ord) (ConfigurationOverride_UnmarshalJSON ord') ConfigurationOverride_valid \<and>
   round_trips_object (TranslationMetadata_MarshalJSON scn ord) (TranslationMetadata_UnmarshalJSON ord') TranslationMetadata_valid \<and>
   round_trips_object (ReportingDescriptorRelationship_MarshalJSON scn ord) (ReportingDescriptorRelationship_UnmarshalJSON ord') ReportingDescriptorRelationship_valid \<and>
   round_trips_object (ReportingDescriptor_MarshalJSON scn ord) (ReportingDescriptor_UnmarshalJSON ord') ReportingDescriptor_valid \<and>
   round_trips_object (ToolComponent_MarshalJSON scn ord) (ToolComponent_UnmarshalJSON ord') ToolComponent_valid \<and>
   round_trips_object (Tool_MarshalJSON scn ord) (Tool_UnmarshalJSON ord') Tool_valid \<and>
   round_trips_object (Exception_MarshalJSON scn ord) (Exception_UnmarshalJSON ord') Exception_valid \<and>
   round_trips_object (Notification_MarshalJSON scn ord) (Notification_UnmarshalJSON ord') Notification_valid \<and>
   round_trips_object (Invocation_MarshalJSON scn ord) (Invocation_UnmarshalJSON ord') Invocation_valid \<and>
   round_trips_object (Conversion_MarshalJSON scn ord) (Conversion_UnmarshalJSON ord') Conversion_valid \<and>
   round_trips_object (Edge_MarshalJSON scn ord) (Edge_UnmarshalJSON ord') Edge_valid \<and>
   round_trips_object (EdgeTraversal_MarshalJSON scn ord) (EdgeTraversal_UnmarshalJSON ord') EdgeTraversal_valid \<and>
   round_trips_object (ResultProvenance_MarshalJSON scn ord) (ResultProvenance_UnmarshalJSON ord') ResultProvenance_valid \<and>
   round_trips_object (Fix_MarshalJSON scn ord) (Fix_UnmarshalJSON ord') Fix_valid \<and>
   round_trips_object (GraphTraversal_MarshalJSON scn ord) (GraphTraversal_UnmarshalJSON ord') GraphTraversal_valid \<and>
   round_trips_object (Suppression_MarshalJSON scn ord) (Suppression_UnmarshalJSON ord') Suppression_valid \<and>
   round_trips_object (Node_MarshalJSON scn ord) (Node_UnmarshalJSON ord') Node_valid \<and>
   round_trips_object (Graph_MarshalJSON scn ord) (Graph_UnmarshalJSON ord') Graph_valid \<and>
   round_trips_object (Result_MarshalJSON scn ord) (Result_UnmarshalJSON ord') Result_valid \<and>
   round_trips_object (ExternalProperties_MarshalJSON scn ord) (ExternalProperties_UnmarshalJSON ord') ExternalProperties_valid \<and>
   round_trips_object (ExternalPropertyFileReference_MarshalJSON scn ord) (ExternalPropertyFileReference_UnmarshalJSON ord') ExternalPropertyFileReference_valid \<and>
   round_trips_object (ExternalPropertyFileReferences_MarshalJSON scn ord) (ExternalPropertyFileReferences_UnmarshalJSON ord') ExternalPropertyFileReferences_valid \<and>
   round_trips_object (SpecialLocations_MarshalJSON scn ord) (SpecialLocations_UnmarshalJSON ord') SpecialLocations_valid \<and>
   round_trips_object (RunAutomationDetails_MarshalJSON scn ord) (RunAutomationDetails_UnmarshalJSON ord') RunAutomationDetails_valid \<and>
   round_trips_object (VersionControlDetails_MarshalJSON scn ord) (VersionControlDetails_UnmarshalJSON ord') VersionControlDetails_valid \<and>
   round_trips_object (Run_MarshalJSON scn ord) (Run_UnmarshalJSON ord') Run_valid \<and>
   round_trips_object (SARIF_MarshalJSON scn ord) (SARIF_UnmarshalJSON ord') SARIF_valid"
  apply (intro conjI)
  apply (rule PropertyBag_round_trips)
  apply (rule Address_round_trips)
  apply (rule Message_round_trips)
  apply (rule ArtifactLocation_round_trips)
  apply (rule MultiformatMessageString_round_trips)
  apply (rule ArtifactContent_round_trips)
  apply (rule Artifact_round_trips)
  apply (rule Region_round_trips)
  apply (rule Replacement_round_trips)
  apply (rule ArtifactChange_round_trips)
  apply (rule Rectangle_round_trips)
  apply (rule Attachment_round_trips)
  apply (rule ToolComponentReference_round_trips)
  apply (rule ReportingDescriptorReference_round_trips)
  apply (rule PhysicalLocation_round_trips)
  apply (rule LocationRelationship_round_trips)
  apply (rule LogicalLocation_round_trips)
  apply (rule Location_round_trips)
  apply (rule StackFrame_round_trips)
  apply (rule Stack_round_trips)
  apply (rule WebRequest_round_trips)
  apply (rule WebResponse_round_trips)
  apply (rule ThreadFlowLocation_round_trips)
  apply (rule ThreadFlow_round_trips)
  apply (rule CodeFlow_round_trips)
  apply (rule ReportingConfiguration_round_trips)
  apply (rule ConfigurationOverride_round_trips)
  apply (rule TranslationMetadata_round_trips)
  apply (rule ReportingDescriptorRelationship_round_trips)
  apply (rule ReportingDescriptor_round_trips)
  apply (rule ToolComponent_round_trips)
  apply (rule Tool_round_trips)
  apply (rule Exception_round_trips)
  apply (rule Notification_round_trips)
  apply (rule Invocation_round_trips)
  apply (rule Conversion_round_trips)
  apply (rule Edge_round_trips)
  apply (rule EdgeTraversal_round_trips)
  apply (rule ResultProvenance_round_trips)
  apply (rule Fix_round_trips)
  apply (rule GraphTraversal_round_trips)
  apply (rule Suppression_round_trips)
  apply (rule Node_round_trips)
  apply (rule Graph_round_trips)
  apply (rule Result_round_trips)
  apply (rule ExternalProperties_round_trips)
  apply (rule ExternalPropertyFileReference_round_trips)
  apply (rule ExternalPropertyFileReferences_round_trips)
  apply (rule SpecialLocations_round_trips)
  apply (rule RunAutomationDetails_round_trips)
  apply (rule VersionControlDetails_round_trips)
  apply (rule Run_round_trips)
  apply (rule SARIF_round_trips)
  done

theorem C1_round_trip_witness:
  "ArtifactChange_valid C1_change \<and>
   (\<exists>kvs. ArtifactChange_MarshalJSON refuse [] C1_change = Inr (JObj kvs) \<and>
      ArtifactChange_UnmarshalJSON [] (JObj kvs) = Inr C1_change)"
proof -
  from C1_round_trip [where scn = refuse and ord = "[]" and ord' = "[]"]
  have "round_trips_object (ArtifactChange_MarshalJSON refuse []) (ArtifactChange_UnmarshalJSON [])
      ArtifactChange_valid"
    by (elim conjE)
  with C1_change_valid show ?thesis
    by (simp add: round_trips_object_def rt_object_def)
qed

subsection \<open>C2: keys that are not declared\<close>

text \<open>
  The declared keys of an entity are the constants of the \<^verbatim>\<open>switch\<close> of its
  \<^verbatim>\<open>UnmarshalJSON\<close>, the list \<open>keys\<close> of the entity. For \<^verbatim>\<open>PropertyBag\<close> the only constant
  is \<^verbatim>\<open>tags\<close>, and the default case stores what \<^verbatim>\<open>json.Unmarshal\<close> makes of the member,
  or returns its error: a member that is a number too large for a \<^verbatim>\<open>float64\<close> is not
  captured, and the bag is not decoded.
\<close>

theorem C2_number_not_captured:
  "PropertyBag_UnmarshalJSON [] (JObj [(''n'', JNum (NDec 1 400))]) = Inl UnmarshalTypeError"
  by (simp add: PropertyBag_UnmarshalJSON_def json_Unmarshal_RawMessages_def range_map_def
      PropertyBag_cases_def PropertyBag_default_def PropertyBag_zero_def into_def float64_limit_def)

definition captures_other_keys :: "(json \<Rightarrow> error + PropertyBag) \<Rightarrow> bool" where
  "captures_other_keys U \<longleftrightarrow>
     (\<forall>kvs.
        (case (case map_of (rev kvs) ''tags'' of
                None \<Rightarrow> Inr None
              | Some v \<Rightarrow> json_Unmarshal_slice json_Unmarshal_string v) of
          Inl err \<Rightarrow> isl (U (JObj kvs))
        | Inr tags \<Rightarrow>
            if others_decode kvs then
              (\<exists>strct. U (JObj kvs) = Inr strct \<and> PropertyBag.Tags strct = tags \<and>
                 (\<forall>k. map_of (entries (PropertyBag.AdditionalProperties strct)) k =
                    (if k = ''tags'' then None
                     else map_option (\<lambda>v. projr (json_Unmarshal_interface v)) (map_of (rev kvs) k))))
            else isl (U (JObj kvs))))"

lemma others_decode_iff:
  "others_decode kvs \<longleftrightarrow>
   (\<forall>k v. k \<noteq> ''tags'' \<and> map_of (rev kvs) k = Some v \<longrightarrow> \<not> isl (json_Unmarshal_interface v))"
proof -
  have d: "distinct (map fst (object_map kvs []))" by (simp add: sorted_keys_distinct sorted_object_map)
  have "(k, v) \<in> set (object_map kvs []) \<longleftrightarrow> map_of (rev kvs) k = Some v" for k v
    using map_of_eq_Some_iff [OF d, of k v] by (simp add: map_of_object_map)
  then show ?thesis by (auto simp: others_decode_def list_all_iff)
qed

lemma additional_lookup:
  "map_of (entries (additional kvs)) k =
     (if k = ''tags'' then None
      else map_option (\<lambda>v. projr (json_Unmarshal_interface v)) (map_of (rev kvs) k))"
proof -
  let ?rest = "filter (\<lambda>e. fst e \<noteq> ''tags'') (object_map kvs [])"
  have "map_of (entries (additional kvs)) = map_of (decoded ?rest)"
    by (simp add: additional_def entries_def Let_def)
  also have "\<dots> = map_option (\<lambda>v. projr (json_Unmarshal_interface v)) \<circ>
      (map_of (rev kvs) |` {a. a \<noteq> ''tags''})"
    by (simp add: map_of_decoded map_of_filter_key map_of_object_map)
  finally show ?thesis by (simp add: restrict_map_def)
qed

lemma PropertyBag_captures: "captures_other_keys (PropertyBag_UnmarshalJSON ord)"
  unfolding captures_other_keys_def
proof
  fix kvs
  let ?U = "PropertyBag_UnmarshalJSON ord"
  let ?r = "case map_of (rev kvs) ''tags'' of None \<Rightarrow> Inr None
            | Some v \<Rightarrow> json_Unmarshal_slice json_Unmarshal_string v"
  let ?found = "\<lambda>tags. \<exists>strct. ?U (JObj kvs) = Inr strct \<and> PropertyBag.Tags strct = tags \<and>
      (\<forall>k. map_of (entries (PropertyBag.AdditionalProperties strct)) k =
         (if k = ''tags'' then None
          else map_option (\<lambda>v. projr (json_Unmarshal_interface v)) (map_of (rev kvs) k)))"
  show "case ?r of
          Inl err \<Rightarrow> isl (?U (JObj kvs))
        | Inr tags \<Rightarrow> if others_decode kvs then ?found tags else isl (?U (JObj kvs))"
  proof (cases ?r)
    case (Inl err)
    have "isl (?U (JObj kvs))"
    proof (cases "?U (JObj kvs)")
      case (Inr strct)
      then have "field_ok (json_Unmarshal_slice json_Unmarshal_string) (map_of (rev kvs) ''tags'') None
          (PropertyBag.Tags strct)"
        by (simp add: PropertyBag_decode_iff)
      with Inl show ?thesis by (cases "map_of (rev kvs) ''tags''") (simp_all add: field_ok_def)
    qed simp
    with Inl show ?thesis by simp
  next
    case (Inr tags)
    show ?thesis
    proof (cases "others_decode kvs")
      case True
      let ?strct = "\<lparr>PropertyBag.AdditionalProperties = additional kvs, PropertyBag.Tags = tags\<rparr>"
      from Inr have "field_ok (json_Unmarshal_slice json_Unmarshal_string) (map_of (rev kvs) ''tags'') None tags"
        by (cases "map_of (rev kvs) ''tags''") (simp_all add: field_ok_def)
      with True have "?U (JObj kvs) = Inr ?strct"
        by (simp add: PropertyBag_decode_iff)
      moreover have "\<forall>k. map_of (entries (PropertyBag.AdditionalProperties ?strct)) k =
          (if k = ''tags'' then None
           else map_option (\<lambda>v. projr (json_Unmarshal_interface v)) (map_of (rev kvs) k))"
        by (simp add: additional_lookup)
      ultimately have "?found tags"
        by (intro exI [of _ ?strct]) simp
      with Inr True show ?thesis by simp
    next
      case False
      have "isl (?U (JObj kvs))"
      proof (cases "?U (JObj kvs)")
        case (Inr strct)
        with False show ?thesis by (simp add: PropertyBag_decode_iff)
      qed simp
      with Inr False show ?thesis by simp
    qed
  qed
qed

text \<open>
  Claim C2, amended. For every entity but \<^verbatim>\<open>PropertyBag\<close>, \<^verbatim>\<open>UnmarshalJSON\<close> of an object
  that has a key outside the declared keys returns an error, and when the object without
  that key is decoded, the error is the one \<^verbatim>\<open>fmt.Errorf\<close> makes from the format
  \<^verbatim>\<open>additional property not allowed: "k"\<close> with the key in the place of \<^verbatim>\<open>k\<close>; its message
  is that text when the key has no percent sign. For \<^verbatim>\<open>PropertyBag\<close>, when the member
  \<^verbatim>\<open>tags\<close> (if there is one) is a list of strings or \<^verbatim>\<open>null\<close> and \<^verbatim>\<open>json.Unmarshal\<close> into an
  \<^verbatim>\<open>interface{}\<close> takes the value of every other key (\<open>others_decode\<close>), \<^verbatim>\<open>UnmarshalJSON\<close>
  returns a bag with these tags whose map of additional properties has every other key of
  the object with its value; otherwise it returns an error.
\<close>

theorem C2_unknown_keys:
  "rejects_unknown_keys (Address_UnmarshalJSON ord) Address_keys \<and>
   rejects_unknown_keys (Message_UnmarshalJSON ord) Message_keys \<and>
   rejects_unknown_keys (ArtifactLocation_UnmarshalJSON ord) ArtifactLocation_keys \<and>
   rejects_unknown_keys (MultiformatMessageString_UnmarshalJSON ord) MultiformatMessageString_keys \<and>
   rejects_unknown_keys (ArtifactContent_UnmarshalJSON ord) ArtifactContent_keys \<and>
   rejects_unknown_keys (Artifact_UnmarshalJSON ord) Artifact_keys \<and>
   rejects_unknown_keys (Region_UnmarshalJSON ord) Region_keys \<and>
   rejects_unknown_keys (Replacement_UnmarshalJSON ord) Replacement_keys \<and>
   rejects_unknown_keys (ArtifactChange_UnmarshalJSON ord) ArtifactChange_keys \<and>
   rejects_unknown_keys (Rectangle_UnmarshalJSON ord) Rectangle_keys \<and>
   rejects_unknown_keys (Attachment_UnmarshalJSON ord) Attachment_keys \<and>
   rejects_unknown_keys (ToolComponentReference_UnmarshalJSON ord) ToolComponentReference_keys \<and>
   rejects_unknown_keys (ReportingDescriptorReference_UnmarshalJSON ord) ReportingDescriptorReference_keys \<and>
   rejects_unknown_keys (PhysicalLocation_UnmarshalJSON ord) PhysicalLocation_keys \<and>
   rejects_unknown_keys (LocationRelationship_UnmarshalJSON ord) LocationRelationship_keys \<and>
   rejects_unknown_keys (LogicalLocation_UnmarshalJSON ord) LogicalLocation_keys \<and>
   rejects_unknown_keys (Location_UnmarshalJSON ord) Location_keys \<and>
   rejects_unknown_keys (StackFrame_UnmarshalJSON ord) StackFrame_keys \<and>
   rejects_unknown_keys (Stack_UnmarshalJSON ord) Stack_keys \<and>
   rejects_unknown_keys (WebRequest_UnmarshalJSON ord) WebRequest_keys \<and>
   rejects_unknown_keys (WebResponse_UnmarshalJSON ord) WebResponse_keys \<and>
   rejects_unknown_keys (ThreadFlowLocation_UnmarshalJSON ord) ThreadFlowLocation_keys \<and>
   rejects_unknown_keys (ThreadFlow_UnmarshalJSON ord) ThreadFlow_keys \<and>
   rejects_unknown_keys (CodeFlow_UnmarshalJSON ord) CodeFlow_keys \<and>
   rejects_unknown_keys (ReportingConfiguration_UnmarshalJSON ord) ReportingConfiguration_keys \<and>
   rejects_unknown_keys (ConfigurationOverride_UnmarshalJSON ord) ConfigurationOverride_keys \<and>
   rejects_unknown_keys (TranslationMetadata_UnmarshalJSON ord) TranslationMetadata_keys \<and>
   rejects_unknown_keys (ReportingDescriptorRelationship_UnmarshalJSON ord) ReportingDescriptorRelationship_keys \<and>
   rejects_unknown_keys (ReportingDescriptor_UnmarshalJSON ord) ReportingDescriptor_keys \<and>
   rejects_unknown_keys (ToolComponent_UnmarshalJSON ord) ToolComponent_keys \<and>
   rejects_unknown_keys (Tool_UnmarshalJSON ord) Tool_keys \<and>
   rejects_unknown_keys (Exception_UnmarshalJSON ord) Exception_keys \<and>
   rejects_unknown_keys (Notification_UnmarshalJSON ord) Notification_keys \<and>
   rejects_unknown_keys (Invocation_UnmarshalJSON ord) Invocation_keys \<and>
   rejects_unknown_keys (Conversion_UnmarshalJSON ord) Conversion_keys \<and>
   rejects_unknown_keys (Edge_UnmarshalJSON ord) Edge_keys \<and>
   rejects_unknown_keys (EdgeTraversal_UnmarshalJSON ord) EdgeTraversal_keys \<and>
   rejects_unknown_keys (ResultProvenance_UnmarshalJSON ord) ResultProvenance_keys \<and>
   rejects_unknown_keys (Fix_UnmarshalJSON ord) Fix_keys \<and>
   rejects_unknown_keys (GraphTraversal_UnmarshalJSON ord) GraphTraversal_keys \<and>
   rejects_unknown_keys (Suppression_UnmarshalJSON ord) Suppression_keys \<and>
   rejects_unknown_keys (Node_UnmarshalJSON ord) Node_keys \<and>
   rejects_unknown_keys (Graph_UnmarshalJSON ord) Graph_keys \<and>
   rejects_unknown_keys (Result_UnmarshalJSON ord) Result_keys \<and>
   rejects_unknown_keys (ExternalProperties_UnmarshalJSON ord) ExternalProperties_keys \<and>
   rejects_unknown_keys (ExternalPropertyFileReference_UnmarshalJSON ord) ExternalPropertyFileReference_keys \<and>
   rejects_unknown_keys (ExternalPropertyFileReferences_UnmarshalJSON ord) ExternalPropertyFileReferences_keys \<and>
   rejects_unknown_keys (SpecialLocations_UnmarshalJSON ord) SpecialLocations_keys \<and>
   rejects_unknown_keys (RunAutomationDetails_UnmarshalJSON ord) RunAutomationDetails_keys \<and>
   rejects_unknown_keys (VersionControlDetails_UnmarshalJSON ord) VersionControlDetails_keys \<and>
   rejects_unknown_keys (Run_UnmarshalJSON ord) Run_keys \<and>
   rejects_unknown_keys (SARIF_UnmarshalJSON ord) SARIF_keys \<and>
   (CHR ''%'' \<notin> set k \<longrightarrow>
      message (not_allowed k) = Some (''additional property not allowed: '' @ quoted k)) \<and>
   captures_other_keys (PropertyBag_UnmarshalJSON ord)"
  apply (intro conjI impI)
  apply (rule Address_rejects_unknown_keys)
  apply (rule Message_rejects_unknown_keys)
  apply (rule ArtifactLocation_rejects_unknown_keys)
  apply (rule MultiformatMessageString_rejects_unknown_keys)
  apply (rule ArtifactContent_rejects_unknown_keys)
  apply (rule Artifact_rejects_unknown_keys)
  apply (rule Region_rejects_unknown_keys)
  apply (rule Replacement_rejects_unknown_keys)
  apply (rule ArtifactChange_rejects_unknown_keys)
  apply (rule Rectangle_rejects_unknown_keys)
  apply (rule Attachment_rejects_unknown_keys)
  apply (rule ToolComponentReference_rejects_unknown_keys)
  apply (rule ReportingDescriptorReference_rejects_unknown_keys)
  apply (rule PhysicalLocation_rejects_unknown_keys)
  apply (rule LocationRelationship_rejects_unknown_keys)
  apply (rule LogicalLocation_rejects_unknown_keys)
  apply (rule Location_rejects_unknown_keys)
  apply (rule StackFrame_rejects_unknown_keys)
  apply (rule Stack_rejects_unknown_keys)
  apply (rule WebRequest_rejects_unknown_keys)
  apply (rule WebResponse_rejects_unknown_keys)
  apply (rule ThreadFlowLocation_rejects_unknown_keys)
  apply (rule ThreadFlow_rejects_unknown_keys)
  apply (rule CodeFlow_rejects_unknown_keys)
  apply (rule ReportingConfiguration_rejects_unknown_keys)
  apply (rule ConfigurationOverride_rejects_unknown_keys)
  apply (rule TranslationMetadata_rejects_unknown_keys)
  apply (rule ReportingDescriptorRelationship_rejects_unknown_keys)
  apply (rule ReportingDescriptor_rejects_unknown_keys)
  apply (rule ToolComponent_rejects_unknown_keys)
  apply (rule Tool_rejects_unknown_keys)
  apply (rule Exception_rejects_unknown_keys)
  apply (rule Notification_rejects_unknown_keys)
  apply (rule Invocation_rejects_unknown_keys)
  apply (rule Conversion_rejects_unknown_keys)
  apply (rule Edge_rejects_unknown_keys)
  apply (rule EdgeTraversal_rejects_unknown_keys)
  apply (rule ResultProvenance_rejects_unknown_keys)
  apply (rule Fix_rejects_unknown_keys)
  apply (rule GraphTraversal_rejects_unknown_keys)
  apply (rule Suppression_rejects_unknown_keys)
  apply (rule Node_rejects_unknown_keys)
  apply (rule Graph_rejects_unknown_keys)
  apply (rule Result_rejects_unknown_keys)
  apply (rule ExternalProperties_rejects_unknown_keys)
  apply (rule ExternalPropertyFileReference_rejects_unknown_keys)
  apply (rule ExternalPropertyFileReferences_rejects_unknown_keys)
  apply (rule SpecialLocations_rejects_unknown_keys)
  apply (rule RunAutomationDetails_rejects_unknown_keys)
  apply (rule VersionControlDetails_rejects_unknown_keys)
  apply (rule Run_rejects_unknown_keys)
  apply (rule SARIF_rejects_unknown_keys)
  apply (erule message_not_allowed)
  apply (rule PropertyBag_captures)
  done

theorem C2_unknown_keys_witness:
  "ArtifactChange_UnmarshalJSON []
      (JObj [(''artifactLocation'', JNull), (''bogus'', JBool True), (''replacements'', JArr [])]) =
     Inl (not_allowed ''bogus'') \<and>
   message (not_allowed ''bogus'') =
     Some (''additional property not allowed: '' @ [CHR 0x22] @ ''bogus'' @ [CHR 0x22]) \<and>
   ArtifactChange_UnmarshalJSON [] (JObj [(''artifactLocation'', JNull), (''replacements'', JArr [])]) =
     Inr \<lparr>ArtifactChange.ArtifactLocation = None, ArtifactChange.Properties = None,
          ArtifactChange.Replacements = Some []\<rparr>"
proof -
  note c = C2_unknown_keys [where ord = "[]" and k = "''bogus''"]
  from c have "rejects_unknown_keys (ArtifactChange_UnmarshalJSON []) ArtifactChange_keys"
    by (elim conjE)
  from this [unfolded rejects_unknown_keys_def, rule_format, of "''bogus''"
      "[(''artifactLocation'', JNull), (''bogus'', JBool True), (''replacements'', JArr [])]"]
  have "ArtifactChange_UnmarshalJSON []
      (JObj [(''artifactLocation'', JNull), (''bogus'', JBool True), (''replacements'', JArr [])]) =
     Inl (not_allowed ''bogus'')"
    by (simp add: removed_def ArtifactChange_two_members ArtifactChange_keys_def)
  moreover from c have "CHR ''%'' \<notin> set ''bogus'' \<longrightarrow>
      message (not_allowed ''bogus'') = Some (''additional property not allowed: '' @ quoted ''bogus'')"
    by (elim conjE)
  then have "message (not_allowed ''bogus'') =
      Some (''additional property not allowed: '' @ [CHR 0x22] @ ''bogus'' @ [CHR 0x22])"
    by (simp add: quoted_def)
  ultimately show ?thesis by (simp add: ArtifactChange_two_members)
qed

subsection \<open>C3: required keys\<close>

text \<open>
  The required fields are those whose \<^verbatim>\<open>Received\<close> flag \<^verbatim>\<open>UnmarshalJSON\<close> checks after the
  loop; their JSON tag has no \<^verbatim>\<open>omitempty\<close>.
\<close>

text \<open>
  Claim C3. For every required field of every entity, \<^verbatim>\<open>UnmarshalJSON\<close> of an object
  without the key of the field returns an error, and when an object is decoded, the same
  object without the key gives the error \<^verbatim>\<open>"f" is required but was not present\<close> for
  that key.
\<close>

theorem C3_required_keys:
  "requires_key (MultiformatMessageString_UnmarshalJSON ord) ''text'' \<and>
   requires_key (Replacement_UnmarshalJSON ord) ''deletedRegion'' \<and>
   requires_key (ArtifactChange_UnmarshalJSON ord) ''artifactLocation'' \<and>
   requires_key (ArtifactChange_UnmarshalJSON ord) ''replacements'' \<and>
   requires_key (Attachment_UnmarshalJSON ord) ''artifactLocation'' \<and>
   requires_key (LocationRelationship_UnmarshalJSON ord) ''target'' \<and>
   requires_key (Stack_UnmarshalJSON ord) ''frames'' \<and>
   requires_key (ThreadFlow_UnmarshalJSON ord) ''locations'' \<and>
   requires_key (CodeFlow_UnmarshalJSON ord) ''threadFlows'' \<and>
   requires_key (ConfigurationOverride_UnmarshalJSON ord) ''configuration'' \<and>
   requires_key (ConfigurationOverride_UnmarshalJSON ord) ''descriptor'' \<and>
   requires_key (TranslationMetadata_UnmarshalJSON ord) ''name'' \<and>
   requires_key (ReportingDescriptorRelationship_UnmarshalJSON ord) ''target'' \<and>
   requires_key (ReportingDescriptor_UnmarshalJSON ord) ''id'' \<and>
   requires_key (ToolComponent_UnmarshalJSON ord) ''name'' \<and>
   requires_key (Tool_UnmarshalJSON ord) ''driver'' \<and>
   requires_key (Notification_UnmarshalJSON ord) ''message'' \<and>
   requires_key (Invocation_UnmarshalJSON ord) ''executionSuccessful'' \<and>
   requires_key (Conversion_UnmarshalJSON ord) ''tool'' \<and>
   requires_key (Edge_UnmarshalJSON ord) ''id'' \<and>
   requires_key (Edge_UnmarshalJSON ord) ''sourceNodeId'' \<and>
   requires_key (Edge_UnmarshalJSON ord) ''targetNodeId'' \<and>
   requires_key (EdgeTraversal_UnmarshalJSON ord) ''edgeId'' \<and>
   requires_key (Fix_UnmarshalJSON ord) ''artifactChanges'' \<and>
   requires_key (Suppression_UnmarshalJSON ord) ''kind'' \<and>
   requires_key (Node_UnmarshalJSON ord) ''id'' \<and>
   requires_key (Result_UnmarshalJSON ord) ''message'' \<and>
   requires_key (VersionControlDetails_UnmarshalJSON ord) ''repositoryUri'' \<and>
   requires_key (Run_UnmarshalJSON ord) ''tool'' \<and>
   requires_key (SARIF_UnmarshalJSON ord) ''runs'' \<and>
   requires_key (SARIF_UnmarshalJSON ord) ''version''"
  apply (intro conjI)
  apply (rule MultiformatMessageString_requires_Text)
  apply (rule Replacement_requires_DeletedRegion)
  apply (rule ArtifactChange_requires_ArtifactLocation)
  apply (rule ArtifactChange_requires_Replacements)
  apply (rule Attachment_requires_ArtifactLocation)
  apply (rule LocationRelationship_requires_Target)
  apply (rule Stack_requires_Frames)
  apply (rule ThreadFlow_requires_Locations)
  apply (rule CodeFlow_requires_ThreadFlows)
  apply (rule ConfigurationOverride_requires_Configuration)
  apply (rule ConfigurationOverride_requires_Descriptor)
  apply (rule TranslationMetadata_requires_Name)
  apply (rule ReportingDescriptorRelationship_requires_Target)
  apply (rule ReportingDescriptor_requires_Id)
  apply (rule ToolComponent_requires_Name)
  apply (rule Tool_requires_Driver)
  apply (rule Notification_requires_Message)
  apply (rule Invocation_requires_ExecutionSuccessful)
  apply (rule Conversion_requires_Tool)
  apply (rule Edge_requires_Id)
  apply (rule Edge_requires_SourceNodeId)
  apply (rule Edge_requires_TargetNodeId)
  apply (rule EdgeTraversal_requires_EdgeId)
  apply (rule Fix_requires_ArtifactChanges)
  apply (rule Suppression_requires_Kind)
  apply (rule Node_requires_Id)
  apply (rule Result_requires_Message)
  apply (rule VersionControlDetails_requires_RepositoryUri)
  apply (rule Run_requires_Tool)
  apply (rule SARIF_requires_Runs)
  apply (rule SARIF_requires_Version)
  done

theorem C3_required_keys_witness:
  "SARIF_UnmarshalJSON [] (JObj [(''version'', JStr ''2.1.0''), (''runs'', JArr [])]) =
     Inr (SARIF_zero\<lparr>SARIF.Runs := Some [], SARIF.Version := ''2.1.0''\<rparr>) \<and>
   SARIF_UnmarshalJSON [] (JObj [(''runs'', JArr [])]) = Inl (RequiredNotPresent ''version'')"
proof -
  from C3_required_keys [of "[]"]
  have "requires_key (SARIF_UnmarshalJSON []) ''version''"
    by (elim conjE)
  from this [unfolded requires_key_def, rule_format,
      of "[(''version'', JStr ''2.1.0''), (''runs'', JArr [])]"]
  show ?thesis
    by (simp add: removed_def SARIF_two_members)
qed

subsection \<open>C4: when encoding fails\<close>

text \<open>
  \<^verbatim>\<open>MarshalJSON\<close> checks for \<^verbatim>\<open>nil\<close> only the required fields that are pointers to
  structs (the generated code says: only required object types supported for marshal
  checking). A required slice that is \<^verbatim>\<open>nil\<close> is written as \<^verbatim>\<open>null\<close>: the zero \<^verbatim>\<open>SARIF\<close>,
  whose \<^verbatim>\<open>Runs\<close> is \<^verbatim>\<open>nil\<close>, is encoded without error. And \<^verbatim>\<open>MarshalJSON\<close> can fail
  with every required field present: \<^verbatim>\<open>Rectangle\<close> has no required field, and a rectangle
  with a \<^verbatim>\<open>NaN\<close> is not encoded.
\<close>

theorem C4_nil_runs_are_encoded:
  "SARIF.Runs SARIF_zero = None \<and>
   SARIF_MarshalJSON refuse [] SARIF_zero =
     Inr (JObj [(''inlineExternalProperties'', JNull), (''properties'', JNull), (''runs'', JNull),
                (''$schema'', JStr []), (''version'', JStr [])]) \<and>
   Rectangle_MarshalJSON refuse [] (Rectangle_zero\<lparr>Rectangle.Top := NaN\<rparr>) = Inl UnsupportedValueError"
  by (simp add: SARIF_MarshalJSON_def SARIF_zero_def Rectangle_MarshalJSON_def Rectangle_zero_def
      object_def emit_def json_Marshal_slice_def json_Marshal_ptr_def json_Marshal_bytes_def
      json_Marshal_string_def json_Marshal_float64_def)

definition C4_bag :: PropertyBag where
  "C4_bag = \<lparr>PropertyBag.AdditionalProperties = Some [(''customX'', AnyFloat64 (Finite (NInt 42)))],
              PropertyBag.Tags = None\<rparr>"

lemma ArtifactChange_nil_location:
  "ArtifactChange.ArtifactLocation strct = None \<Longrightarrow>
   ArtifactChange_MarshalJSON scn ord strct = Inl (RequiredField ''artifactLocation'')"
  by (simp add: ArtifactChange_MarshalJSON_def object_def)

text \<open>
  Claim C4, amended. For every entity but \<^verbatim>\<open>PropertyBag\<close>, \<^verbatim>\<open>MarshalJSON\<close> returns an error
  exactly for the instances that are not \<open>encodable\<close>: those where, in the instance itself
  or in an entity it holds, a required field that is a pointer to a struct is \<^verbatim>\<open>nil\<close>, a
  \<^verbatim>\<open>float64\<close> is not finite, or a property bag is not encodable. A property bag is
  encodable when it is \<open>writable\<close>, that is \<^verbatim>\<open>json.Marshal\<close> writes each of its additional
  properties (none holds a \<^verbatim>\<open>float64\<close> that is not finite or a value of a type without
  JSON form), and the bytes its
  \<^verbatim>\<open>MarshalJSON\<close> returns are JSON; they are when its keys are plain. \<^verbatim>\<open>MarshalJSON\<close> of a
  \<^verbatim>\<open>PropertyBag\<close> itself returns an error exactly for the bags that are not writable. For an
  \<^verbatim>\<open>ArtifactChange\<close> whose \<^verbatim>\<open>ArtifactLocation\<close> is \<^verbatim>\<open>nil\<close> the error is
  \<^verbatim>\<open>artifactLocation is a required field\<close>.
\<close>

theorem C4_encoding_fails_iff:
  "fails_unless (PropertyBag_MarshalJSON scn ord) PropertyBag_writable \<and>
   fails_unless (Address_MarshalJSON scn ord) (Address_encodable scn ord) \<and>
   fails_unless (Message_MarshalJSON scn ord) (Message_encodable scn ord) \<and>
   fails_unless (ArtifactLocation_MarshalJSON scn ord) (ArtifactLocation_encodable scn ord) \<and>
   fails_unless (MultiformatMessageString_MarshalJSON scn ord) (MultiformatMessageString_encodable scn ord) \<and>
   fails_unless (ArtifactContent_MarshalJSON scn ord) (ArtifactContent_encodable scn ord) \<and>
   fails_unless (Artifact_MarshalJSON scn ord) (Artifact_encodable scn ord) \<and>
   fails_unless (Region_MarshalJSON scn ord) (Region_encodable scn ord) \<and>
   fails_unless (Replacement_MarshalJSON scn ord) (Replacement_encodable scn ord) \<and>
   fails_unless (ArtifactChange_MarshalJSON scn ord) (ArtifactChange_encodable scn ord) \<and>
   fails_unless (Rectangle_MarshalJSON scn ord) (Rectangle_encodable scn ord) \<and>
   fails_unless (Attachment_MarshalJSON scn ord) (Attachment_encodable scn ord) \<and>
   fails_unless (ToolComponentReference_MarshalJSON scn ord) (ToolComponentReference_encodable scn ord) \<and>
   fails_unless (ReportingDescriptorReference_MarshalJSON scn ord) (ReportingDescriptorReference_encodable scn ord) \<and>
   fails_unless (PhysicalLocation_MarshalJSON scn ord) (PhysicalLocation_encodable scn ord) \<and>
   fails_unless (LocationRelationship_MarshalJSON scn ord) (LocationRelationship_encodable scn ord) \<and>
   fails_unless (LogicalLocation_MarshalJSON scn ord) (LogicalLocation_encodable scn ord) \<and>
   fails_unless (Location_MarshalJSON scn ord) (Location_encodable scn ord) \<and>
   fails_unless (StackFrame_MarshalJSON scn ord) (StackFrame_encodable scn ord) \<and>
   fails_unless (Stack_MarshalJSON scn ord) (Stack_encodable scn ord) \<and>
   fails_unless (WebRequest_MarshalJSON scn ord) (WebRequest_encodable scn ord) \<and>
   fails_unless (WebResponse_MarshalJSON scn ord) (WebResponse_encodable scn ord) \<and>
   fails_unless (ThreadFlowLocation_MarshalJSON scn ord) (ThreadFlowLocation_encodable scn ord) \<and>
   fails_unless (ThreadFlow_MarshalJSON scn ord) (ThreadFlow_encodable scn ord) \<and>
   fails_unless (CodeFlow_MarshalJSON scn ord) (CodeFlow_encodable scn ord) \<and>
   fails_unless (ReportingConfiguration_MarshalJSON scn ord) (ReportingConfiguration_encodable scn ord) \<and>
   fails_unless (ConfigurationOverride_MarshalJSON scn ord) (ConfigurationOverride_encodable scn ord) \<and>
   fails_unless (TranslationMetadata_MarshalJSON scn ord) (TranslationMetadata_encodable scn ord) \<and>
   fails_unless (ReportingDescriptorRelationship_MarshalJSON scn ord) (ReportingDescriptorRelationship_encodable scn ord) \<and>
   fails_unless (ReportingDescriptor_MarshalJSON scn ord) (ReportingDescriptor_encodable scn ord) \<and>
   fails_unless (ToolComponent_MarshalJSON scn ord) (ToolComponent_encodable scn ord) \<and>
   fails_unless (Tool_MarshalJSON scn ord) (Tool_encodable scn ord) \<and>
   fails_unless (Exception_MarshalJSON scn ord) (Exception_encodable scn ord) \<and>
   fails_unless (Notification_MarshalJSON scn ord) (Notification_encodable scn ord) \<and>
   fails_unless (Invocation_MarshalJSON scn ord) (Invocation_encodable scn ord) \<and>
   fails_unless (Conversion_MarshalJSON scn ord) (Conversion_encodable scn ord) \<and>
   fails_unless (Edge_MarshalJSON scn ord) (Edge_encodable scn ord) \<and>
   fails_unless (EdgeTraversal_MarshalJSON scn ord) (EdgeTraversal_encodable scn ord) \<and>
   fails_unless (ResultProvenance_MarshalJSON scn ord) (ResultProvenance_encodable scn ord) \<and>
   fails_unless (Fix_MarshalJSON scn ord) (Fix_encodable scn ord) \<and>
   fails_unless (GraphTraversal_MarshalJSON scn ord) (GraphTraversal_encodable scn ord) \<and>
   fails_unless (Suppression_MarshalJSON scn ord) (Suppression_encodable scn ord) \<and>
   fails_unless (Node_MarshalJSON scn ord) (Node_encodable scn ord) \<and>
   fails_unless (Graph_MarshalJSON scn ord) (Graph_encodable scn ord) \<and>
   fails_unless (Result_MarshalJSON scn ord) (Result_encodable scn ord) \<and>
   fails_unless (ExternalProperties_MarshalJSON scn ord) (ExternalProperties_encodable scn ord) \<and>
   fails_unless (ExternalPropertyFileReference_MarshalJSON scn ord) (ExternalPropertyFileReference_encodable scn ord) \<and>
   fails_unless (ExternalPropertyFileReferences_MarshalJSON scn ord) (ExternalPropertyFileReferences_encodable scn ord) \<and>
   fails_unless (SpecialLocations_MarshalJSON scn ord) (SpecialLocations_encodable scn ord) \<and>
   fails_unless (RunAutomationDetails_MarshalJSON scn ord) (RunAutomationDetails_encodable scn ord) \<and>
   fails_unless (VersionControlDetails_MarshalJSON scn ord) (VersionControlDetails_encodable scn ord) \<and>
   fails_unless (Run_MarshalJSON scn ord) (Run_encodable scn ord) \<and>
   fails_unless (SARIF_MarshalJSON scn ord) (SARIF_encodable scn ord) \<and>
   (PropertyBag_plain bag \<longrightarrow>
      PropertyBag_encodable scn ord bag = PropertyBag_writable bag) \<and>
   (ArtifactChange.ArtifactLocation change = None \<longrightarrow>
      ArtifactChange_MarshalJSON scn ord change = Inl (RequiredField ''artifactLocation''))"
  apply (intro conjI impI)
  apply (rule PropertyBag_fails_unless)
  apply (rule Address_fails_unless)
  apply (rule Message_fails_unless)
  apply (rule ArtifactLocation_fails_unless)
  apply (rule MultiformatMessageString_fails_unless)
  apply (rule ArtifactContent_fails_unless)
  apply (rule Artifact_fails_unless)
  apply (rule Region_fails_unless)
  apply (rule Replacement_fails_unless)
  apply (rule ArtifactChange_fails_unless)
  apply (rule Rectangle_fails_unless)
  apply (rule Attachment_fails_unless)
  apply (rule ToolComponentReference_fails_unless)
  apply (rule ReportingDescriptorReference_fails_unless)
  apply (rule PhysicalLocation_fails_unless)
  apply (rule LocationRelationship_fails_unless)
  apply (rule LogicalLocation_fails_unless)
  apply (rule Location_fails_unless)
  apply (rule StackFrame_fails_unless)
  apply (rule Stack_fails_unless)
  apply (rule WebRequest_fails_unless)
  apply (rule WebResponse_fails_unless)
  apply (rule ThreadFlowLocation_fails_unless)
  apply (rule ThreadFlow_fails_unless)
  apply (rule CodeFlow_fails_unless)
  apply (rule ReportingConfiguration_fails_unless)
  apply (rule ConfigurationOverride_fails_unless)
  apply (rule TranslationMetadata_fails_unless)
  apply (rule ReportingDescriptorRelationship_fails_unless)
  apply (rule ReportingDescriptor_fails_unless)
  apply (rule ToolComponent_fails_unless)
  apply (rule Tool_fails_unless)
  apply (rule Exception_fails_unless)
  apply (rule Notification_fails_unless)
  apply (rule Invocation_fails_unless)
  apply (rule Conversion_fails_unless)
  apply (rule Edge_fails_unless)
  apply (rule EdgeTraversal_fails_unless)
  apply (rule ResultProvenance_fails_unless)
  apply (rule Fix_fails_unless)
  apply (rule GraphTraversal_fails_unless)
  apply (rule Suppression_fails_unless)
  apply (rule Node_fails_unless)
  apply (rule Graph_fails_unless)
  apply (rule Result_fails_unless)
  apply (rule ExternalProperties_fails_unless)
  apply (rule ExternalPropertyFileReference_fails_unless)
  apply (rule ExternalPropertyFileReferences_fails_unless)
  apply (rule SpecialLocations_fails_unless)
  apply (rule RunAutomationDetails_fails_unless)
  apply (rule VersionControlDetails_fails_unless)
  apply (rule Run_fails_unless)
  apply (rule SARIF_fails_unless)
  apply (erule PropertyBag_encodable_plain)
  apply (erule ArtifactChange_nil_location)
  done

theorem C4_encoding_fails_iff_witness:
  "ArtifactChange.ArtifactLocation ArtifactChange_zero = None \<and>
   ArtifactChange_MarshalJSON refuse [] ArtifactChange_zero = Inl (RequiredField ''artifactLocation'') \<and>
   PropertyBag_plain C4_bag \<and> PropertyBag_encodable refuse [] C4_bag"
proof -
  note c = C4_encoding_fails_iff [where scn = refuse and ord = "[]" and change = ArtifactChange_zero
      and bag = C4_bag]
  from c have "ArtifactChange.ArtifactLocation ArtifactChange_zero = None \<longrightarrow>
      ArtifactChange_MarshalJSON refuse [] ArtifactChange_zero = Inl (RequiredField ''artifactLocation'')"
    by (elim conjE)
  moreover from c have "PropertyBag_plain C4_bag \<longrightarrow>
      PropertyBag_encodable refuse [] C4_bag = PropertyBag_writable C4_bag"
    by (elim conjE)
  ultimately show ?thesis
    by (simp add: ArtifactChange_zero_def C4_bag_def PropertyBag_plain_def PropertyBag_writable_def
        entries_def plain_key_def finite64_def)
qed

subsection \<open>C5: an error in a nested entity\<close>

definition C5_document :: json where
  "C5_document =
     JObj [(''version'', JStr ''2.1.0''),
           (''runs'', JArr [JObj [(''tool'', JObj [(''driver'', JObj [])])]])]"

text \<open>
  Claim C5. When the only run of a document has a tool whose driver is an object without
  the key \<^verbatim>\<open>name\<close>, \<^verbatim>\<open>UnmarshalJSON\<close> of the document into a \<^verbatim>\<open>SARIF\<close> returns an error (and
  so no document at all), whatever else the document holds.
\<close>

theorem C5_nested_error:
  assumes runs: "member document ''runs'' = Some (JArr [run])"
    and tool: "member run ''tool'' = Some tool"
    and driver: "member tool ''driver'' = Some (JObj dkvs)"
    and name: "''name'' \<notin> fst ` set dkvs"
  shows "isl (SARIF_UnmarshalJSON ord document)"
proof (cases "SARIF_UnmarshalJSON ord document")
  case (Inr strct)
  from member_Some_object [OF runs] obtain kvs where d: "document = JObj kvs" ..
  from member_Some_object [OF tool] obtain rkvs where r: "run = JObj rkvs" ..
  from member_Some_object [OF driver] obtain tkvs where t: "tool = JObj tkvs" ..
  from Inr d have "SARIF_decodes ord (map_of (rev kvs)) strct" by (simp only: SARIF_decode_iff)
  from field_ok_member [OF SARIF_decodesD(4) [OF this]] runs d r
  have "json_Unmarshal_slice (json_Unmarshal_ptr (Run_UnmarshalJSON ord)) (JArr [JObj rkvs]) =
      Inr (SARIF.Runs strct)"
    by simp
  from Unmarshal_slice_single [OF this] obtain p where
    "json_Unmarshal_ptr (Run_UnmarshalJSON ord) (JObj rkvs) = Inr p" ..
  from Unmarshal_ptr_object [OF this] obtain x where "Run_UnmarshalJSON ord (JObj rkvs) = Inr x" ..
  then have "Run_decodes ord (map_of (rev rkvs)) x" by (simp only: Run_decode_iff)
  from field_ok_member [OF Run_decodesD(25) [OF this]] tool r t
  have "json_Unmarshal_ptr (Tool_UnmarshalJSON ord) (JObj tkvs) = Inr (Run.Tool x)" by simp
  from Unmarshal_ptr_object [OF this] obtain y where "Tool_UnmarshalJSON ord (JObj tkvs) = Inr y" ..
  then have "Tool_decodes ord (map_of (rev tkvs)) y" by (simp only: Tool_decode_iff)
  from field_ok_member [OF Tool_decodesD(2) [OF this]] driver t
  have "json_Unmarshal_ptr (ToolComponent_UnmarshalJSON ord) (JObj dkvs) = Inr (Tool.Driver y)"
    by simp
  from Unmarshal_ptr_object [OF this] obtain z where
    "ToolComponent_UnmarshalJSON ord (JObj dkvs) = Inr z" ..
  from ToolComponent_required_present [OF this] name show ?thesis by simp
qed simp

theorem C5_nested_error_witness: "isl (SARIF_UnmarshalJSON [] C5_document)"
  using C5_nested_error [of C5_document "JObj [(''tool'', JObj [(''driver'', JObj [])])]"
      "JObj [(''driver'', JObj [])]" "[]" "[]"]
  by (simp add: C5_document_def)

subsection \<open>C6: the key of the field \<^verbatim>\<open>Schema\<close>\<close>

lemma SARIF_written:
  assumes "SARIF_MarshalJSON scn ord strct = Inr j"
  shows "member j ''$schema'' = Some (JStr (SARIF.Schema strct))" and "member j ''schema'' = None"
proof -
  let ?rs = "SARIF_results scn ord strct"
  from assms have j: "j = JObj (map (\<lambda>e. (fst e, projr (snd e))) ?rs)"
    by (simp add: SARIF_MarshalJSON_results object_emit_all_eq_Inr)
  have keys: "map fst ?rs = SARIF_keys" by (simp add: SARIF_results_def SARIF_keys_def)
  then have dist: "distinct (map fst ?rs)" by (simp only: SARIF_keys_distinct)
  have "(''$schema'', json_Marshal_string (SARIF.Schema strct)) \<in> set ?rs"
    by (simp add: SARIF_results_def)
  from written_lookup [OF dist this]
  show "member j ''$schema'' = Some (JStr (SARIF.Schema strct))"
    by (simp add: j json_Marshal_string_def)
  have "''schema'' \<notin> dom (map_of (rev (map (\<lambda>e. (fst e, projr (snd e))) ?rs)))"
    unfolding written_dom keys by (simp add: SARIF_keys_def)
  then show "member j ''schema'' = None" by (auto simp: j)
qed

definition C6_document :: "(string \<times> json) list" where
  "C6_document =
     [(''version'', JStr ''2.1.0''), (''runs'', JArr []),
      (''$schema'', JStr ''https://json.schemastore.org/sarif-2.1.0.json'')]"

text \<open>
  Claim C6. \<^verbatim>\<open>UnmarshalJSON\<close> of a root object that has a string under the key
  \<^verbatim>\<open>$schema\<close> returns a \<^verbatim>\<open>SARIF\<close> whose \<^verbatim>\<open>Schema\<close> is that string, when it returns one; and
  it returns one for every object that is decoded without the member. The object
  \<^verbatim>\<open>MarshalJSON\<close> returns for a \<^verbatim>\<open>SARIF\<close> has the value of \<^verbatim>\<open>Schema\<close> under the key
  \<^verbatim>\<open>$schema\<close> and has no key \<^verbatim>\<open>schema\<close>.
\<close>

theorem C6_schema_key:
  "(SARIF_UnmarshalJSON ord (JObj kvs) = Inr strct \<and> member (JObj kvs) ''$schema'' = Some (JStr s) \<longrightarrow>
      SARIF.Schema strct = s) \<and>
   takes (SARIF_UnmarshalJSON ord) ''$schema'' (JStr s) (\<lambda>strct. strct\<lparr>SARIF.Schema := s\<rparr>) \<and>
   (SARIF_MarshalJSON scn ord strct' = Inr j \<longrightarrow>
      member j ''$schema'' = Some (JStr (SARIF.Schema strct')) \<and> member j ''schema'' = None)"
proof (intro conjI impI)
  assume a: "SARIF_UnmarshalJSON ord (JObj kvs) = Inr strct \<and> member (JObj kvs) ''$schema'' = Some (JStr s)"
  then have "SARIF_decodes ord (map_of (rev kvs)) strct" by (simp only: SARIF_decode_iff)
  from field_ok_member [OF SARIF_decodesD(5) [OF this]] a
  show "SARIF.Schema strct = s" by (simp add: json_Unmarshal_string_def)
next
  show "takes (SARIF_UnmarshalJSON ord) ''$schema'' (JStr s) (\<lambda>strct. strct\<lparr>SARIF.Schema := s\<rparr>)"
    by (rule takesI [where D = "SARIF_decodes ord"])
       (rule SARIF_decode_iff, erule SARIF_set_Schema, simp add: json_Unmarshal_string_def)
next
  assume "SARIF_MarshalJSON scn ord strct' = Inr j"
  then show "member j ''$schema'' = Some (JStr (SARIF.Schema strct'))" and "member j ''schema'' = None"
    by (rule SARIF_written)+
qed

theorem C6_schema_key_witness:
  "(\<exists>strct. SARIF_UnmarshalJSON [] (JObj C6_document) = Inr strct \<and>
      SARIF.Schema strct = ''https://json.schemastore.org/sarif-2.1.0.json'') \<and>
   (\<exists>j. SARIF_MarshalJSON refuse []
        (SARIF_zero\<lparr>SARIF.Schema := ''https://json.schemastore.org/sarif-2.1.0.json''\<rparr>) = Inr j \<and>
      member j ''$schema'' = Some (JStr ''https://json.schemastore.org/sarif-2.1.0.json'') \<and>
      member j ''schema'' = None)"
proof -
  let ?s = "''https://json.schemastore.org/sarif-2.1.0.json''"
  let ?x = "SARIF_zero\<lparr>SARIF.Schema := ?s\<rparr>"
  note c = C6_schema_key [where ord = "[]" and s = ?s and scn = refuse and strct' = ?x]
  from c [THEN conjunct2, THEN conjunct1, unfolded takes_def, rule_format,
      OF SARIF_two_members [of "[]"]]
  have d: "SARIF_UnmarshalJSON [] (JObj C6_document) =
      Inr (SARIF_zero\<lparr>SARIF.Runs := Some [], SARIF.Version := ''2.1.0'', SARIF.Schema := ?s\<rparr>)"
    by (simp add: with_member_def removed_def C6_document_def)
  have "\<not> isl (SARIF_MarshalJSON refuse [] ?x)"
    by (simp add: fails_unlessD [OF SARIF_fails_unless] SARIF_encodable_def SARIF_zero_def
        ptr_all_def slice_all_def)
  then obtain j where j: "SARIF_MarshalJSON refuse [] ?x = Inr j"
    by (cases "SARIF_MarshalJSON refuse [] ?x") auto
  from c [THEN conjunct2, THEN conjunct2, rule_format, OF j] j d show ?thesis
    by (simp add: SARIF_zero_def)
qed

subsection \<open>C7: the property bag is open\<close>

definition C7_wire :: json where
  "C7_wire = JObj [(''tags'', JArr [JStr ''a'', JStr ''b'']),
                   (''customX'', JNum (NInt 42)),
                   (''customY'', JStr ''z'')]"

definition C7_bag :: PropertyBag where
  "C7_bag = \<lparr>PropertyBag.AdditionalProperties =
                Some [(''customX'', AnyFloat64 (Finite (NInt 42))), (''customY'', AnyString ''z'')],
              PropertyBag.Tags = Some [''a'', ''b'']\<rparr>"

lemma C7_additional:
  "additional [(''tags'', JArr [JStr ''a'', JStr ''b'']), (''customX'', JNum (NInt 42)),
      (''customY'', JStr ''z'')] =
   Some [(''customX'', AnyFloat64 (Finite (NInt 42))), (''customY'', AnyString ''z'')]"
  by (simp add: additional_def float64_limit_def)

lemma C7_others:
  "others_decode [(''tags'', JArr [JStr ''a'', JStr ''b'']), (''customX'', JNum (NInt 42)),
      (''customY'', JStr ''z'')]"
  by (simp add: others_decode_def float64_limit_def)

text \<open>
  Claim C7. Whatever the order in which Go enumerates the maps, \<^verbatim>\<open>UnmarshalJSON\<close> of
  \<^verbatim>\<open>{"tags": ["a","b"], "customX": 42, "customY": "z"}\<close> into a \<^verbatim>\<open>PropertyBag\<close> returns no
  error, \<^verbatim>\<open>Tags\<close> is \<^verbatim>\<open>["a","b"]\<close>, and \<^verbatim>\<open>AdditionalProperties\<close> holds exactly \<^verbatim>\<open>customX\<close>
  with the \<^verbatim>\<open>float64\<close> 42 and \<^verbatim>\<open>customY\<close> with \<^verbatim>\<open>"z"\<close>. \<^verbatim>\<open>MarshalJSON\<close> of that bag returns an object whose
  first member is \<^verbatim>\<open>tags\<close> with the two strings and whose other members are the two
  additional properties with their values, in the order of the enumeration.
\<close>

theorem C7_property_bag_open:
  "PropertyBag_UnmarshalJSON ord C7_wire = Inr C7_bag \<and>
   PropertyBag.Tags C7_bag = Some [''a'', ''b''] \<and>
   map_of (entries (PropertyBag.AdditionalProperties C7_bag)) ''customX'' =
     Some (AnyFloat64 (Finite (NInt 42))) \<and>
   map_of (entries (PropertyBag.AdditionalProperties C7_bag)) ''customY'' = Some (AnyString ''z'') \<and>
   dom (map_of (entries (PropertyBag.AdditionalProperties C7_bag))) = {''customX'', ''customY''} \<and>
   (\<exists>rest. PropertyBag_MarshalJSON scn ord' C7_bag =
        Inr (Some (JObj ((''tags'', JArr [JStr ''a'', JStr ''b'']) # rest))) \<and>
      mset rest = {#(''customX'', JNum (NInt 42)), (''customY'', JStr ''z'')#})"
proof -
  have "PropertyBag_UnmarshalJSON ord C7_wire = Inr C7_bag"
    unfolding C7_wire_def PropertyBag_decode_iff C7_additional
    by (simp add: C7_bag_def C7_others field_ok_Some json_Unmarshal_slice_def json_Unmarshal_string_def)
  moreover have w: "PropertyBag_writable C7_bag"
    by (simp add: PropertyBag_writable_def C7_bag_def entries_def finite64_def)
  have p: "PropertyBag_plain C7_bag"
    by (simp add: PropertyBag_plain_def C7_bag_def entries_def plain_key_def)
  let ?m = "[(''customX'', AnyFloat64 (Finite (NInt 42))), (''customY'', AnyString ''z'')]"
  let ?f = "\<lambda>e. (fst e, projr (json_Marshal_interface (snd e)))"
  have "mset (map ?f (range_map ord' ?m)) = image_mset ?f (mset ?m)"
    by (simp add: range_map_def)
  then have "mset (map ?f (range_map ord' ?m)) =
      {#(''customX'', JNum (NInt 42)), (''customY'', JStr ''z'')#}"
    by (simp add: json_Marshal_float64_def json_Marshal_string_def)
  with PropertyBag_MarshalJSON_plain [OF w p, of scn ord']
  have "\<exists>rest. PropertyBag_MarshalJSON scn ord' C7_bag =
        Inr (Some (JObj ((''tags'', JArr [JStr ''a'', JStr ''b'']) # rest))) \<and>
      mset rest = {#(''customX'', JNum (NInt 42)), (''customY'', JStr ''z'')#}"
    by (simp add: PropertyBag_written_def C7_bag_def entries_def)
  ultimately show ?thesis
    by (simp add: C7_bag_def entries_def insert_commute)
qed

subsection \<open>C8: the members that are written, and their order\<close>

text \<open>
  \<^verbatim>\<open>PropertyBag.MarshalJSON\<close> writes the additional properties in the order in which
  \<^verbatim>\<open>range\<close> enumerates the map, which Go does not fix: two calls on the same bag with two
  additional properties can return the members in two orders.
\<close>

definition C8_bag :: PropertyBag where
  "C8_bag = \<lparr>PropertyBag.AdditionalProperties =
                Some [(''customX'', AnyFloat64 (Finite (NInt 42))), (''customY'', AnyString ''z'')],
              PropertyBag.Tags = None\<rparr>"

theorem C8_two_orders:
  "PropertyBag_MarshalJSON refuse [''customX'', ''customY''] C8_bag =
     Inr (Some (JObj [(''tags'', JNull), (''customX'', JNum (NInt 42)), (''customY'', JStr ''z'')])) \<and>
   PropertyBag_MarshalJSON refuse [''customY'', ''customX''] C8_bag =
     Inr (Some (JObj [(''tags'', JNull), (''customY'', JStr ''z''), (''customX'', JNum (NInt 42))]))"
  by (simp add: PropertyBag_MarshalJSON_def C8_bag_def entries_def range_map_def emit_def
      json_Marshal_slice_def json_Marshal_float64_def json_Marshal_string_def bytes_as_json_def
      plain_key_def)

lemma PropertyBag_written_keys:
  "map fst (PropertyBag_written ord strct) =
     ''tags'' # map fst (range_map ord (entries (PropertyBag.AdditionalProperties strct)))"
  by (simp add: PropertyBag_written_def comp_def)

text \<open>
  Claim C8, amended. For every entity but \<^verbatim>\<open>PropertyBag\<close>, the object that \<^verbatim>\<open>MarshalJSON\<close>
  returns has one member for every declared field, whatever its value, in the order of the
  declaration (the list \<open>keys\<close> of the entity). For a \<^verbatim>\<open>PropertyBag\<close> whose additional
  properties \<^verbatim>\<open>json.Marshal\<close> writes, \<^verbatim>\<open>MarshalJSON\<close> returns the bytes of the member
  \<^verbatim>\<open>tags\<close> and then of the additional properties that the bag holds, in the order of the
  enumeration of the map; with plain keys they are the JSON object of these members. For
  every entity, two calls on the same instance return the same result when no property bag
  in the instance holds more than one additional property.
\<close>

theorem C8_members_written:
  "writes_keys (Address_MarshalJSON scn ord) Address_keys \<and>
   writes_keys (Message_MarshalJSON scn ord) Message_keys \<and>
   writes_keys (ArtifactLocation_MarshalJSON scn ord) ArtifactLocation_keys \<and>
   writes_keys (MultiformatMessageString_MarshalJSON scn ord) MultiformatMessageString_keys \<and>
   writes_keys (ArtifactContent_MarshalJSON scn ord) ArtifactContent_keys \<and>
   writes_keys (Artifact_MarshalJSON scn ord) Artifact_keys \<and>
   writes_keys (Region_MarshalJSON scn ord) Region_keys \<and>
   writes_keys (Replacement_MarshalJSON scn ord) Replacement_keys \<and>
   writes_keys (ArtifactChange_MarshalJSON scn ord) ArtifactChange_keys \<and>
   writes_keys (Rectangle_MarshalJSON scn ord) Rectangle_keys \<and>
   writes_keys (Attachment_MarshalJSON scn ord) Attachment_keys \<and>
   writes_keys (ToolComponentReference_MarshalJSON scn ord) ToolComponentReference_keys \<and>
   writes_keys (ReportingDescriptorReference_MarshalJSON scn ord) ReportingDescriptorReference_keys \<and>
   writes_keys (PhysicalLocation_MarshalJSON scn ord) PhysicalLocation_keys \<and>
   writes_keys (LocationRelationship_MarshalJSON scn ord) LocationRelationship_keys \<and>
   writes_keys (LogicalLocation_MarshalJSON scn ord) LogicalLocation_keys \<and>
   writes_keys (Location_MarshalJSON scn ord) Location_keys \<and>
   writes_keys (StackFrame_MarshalJSON scn ord) StackFrame_keys \<and>
   writes_keys (Stack_MarshalJSON scn ord) Stack_keys \<and>
   writes_keys (WebRequest_MarshalJSON scn ord) WebRequest_keys \<and>
   writes_keys (WebResponse_MarshalJSON scn ord) WebResponse_keys \<and>
   writes_keys (ThreadFlowLocation_MarshalJSON scn ord) ThreadFlowLocation_keys \<and>
   writes_keys (ThreadFlow_MarshalJSON scn ord) ThreadFlow_keys \<and>
   writes_keys (CodeFlow_MarshalJSON scn ord) CodeFlow_keys \<and>
   writes_keys (ReportingConfiguration_MarshalJSON scn ord) ReportingConfiguration_keys \<and>
   writes_keys (ConfigurationOverride_MarshalJSON scn ord) ConfigurationOverride_keys \<and>
   writes_keys (TranslationMetadata_MarshalJSON scn ord) TranslationMetadata_keys \<and>
   writes_keys (ReportingDescriptorRelationship_MarshalJSON scn ord) ReportingDescriptorRelationship_keys \<and>
   writes_keys (ReportingDescriptor_MarshalJSON scn ord) ReportingDescriptor_keys \<and>
   writes_keys (ToolComponent_MarshalJSON scn ord) ToolComponent_keys \<and>
   writes_keys (Tool_MarshalJSON scn ord) Tool_keys \<and>
   writes_keys (Exception_MarshalJSON scn ord) Exception_keys \<and>
   writes_keys (Notification_MarshalJSON scn ord) Notification_keys \<and>
   writes_keys (Invocation_MarshalJSON scn ord) Invocation_keys \<and>
   writes_keys (Conversion_MarshalJSON scn ord) Conversion_keys \<and>
   writes_keys (Edge_MarshalJSON scn ord) Edge_keys \<and>
   writes_keys (EdgeTraversal_MarshalJSON scn ord) EdgeTraversal_keys \<and>
   writes_keys (ResultProvenance_MarshalJSON scn ord) ResultProvenance_keys \<and>
   writes_keys (Fix_MarshalJSON scn ord) Fix_keys \<and>
   writes_keys (GraphTraversal_MarshalJSON scn ord) GraphTraversal_keys \<and>
   writes_keys (Suppression_MarshalJSON scn ord) Suppression_keys \<and>
   writes_keys (Node_MarshalJSON scn ord) Node_keys \<and>
   writes_keys (Graph_MarshalJSON scn ord) Graph_keys \<and>
   writes_keys (Result_MarshalJSON scn ord) Result_keys \<and>
   writes_keys (ExternalProperties_MarshalJSON scn ord) ExternalProperties_keys \<and>
   writes_keys (ExternalPropertyFileReference_MarshalJSON scn ord) ExternalPropertyFileReference_keys \<and>
   writes_keys (ExternalPropertyFileReferences_MarshalJSON scn ord) ExternalPropertyFileReferences_keys \<and>
   writes_keys (SpecialLocations_MarshalJSON scn ord) SpecialLocations_keys \<and>
   writes_keys (RunAutomationDetails_MarshalJSON scn ord) RunAutomationDetails_keys \<and>
   writes_keys (VersionControlDetails_MarshalJSON scn ord) VersionControlDetails_keys \<and>
   writes_keys (Run_MarshalJSON scn ord) Run_keys \<and>
   writes_keys (SARIF_MarshalJSON scn ord) SARIF_keys \<and>
   (PropertyBag_writable bag \<longrightarrow>
      PropertyBag_MarshalJSON scn ord bag = Inr (bytes_as_json scn (PropertyBag_written ord bag))) \<and>
   (PropertyBag_plain bag \<longrightarrow>
      bytes_as_json scn (PropertyBag_written ord bag) = Some (JObj (PropertyBag_written ord bag))) \<and>
   map fst (PropertyBag_written ord bag) =
     ''tags'' # map fst (range_map ord (entries (PropertyBag.AdditionalProperties bag))) \<and>
   same_output (PropertyBag_MarshalJSON scn ord) (PropertyBag_MarshalJSON scn ord') PropertyBag_small_bags \<and>
   same_output (Address_MarshalJSON scn ord) (Address_MarshalJSON scn ord') Address_small_bags \<and>
   same_output (Message_MarshalJSON scn ord) (Message_MarshalJSON scn ord') Message_small_bags \<and>
   same_output (ArtifactLocation_MarshalJSON scn ord) (ArtifactLocation_MarshalJSON scn ord') ArtifactLocation_small_bags \<and>
   same_output (MultiformatMessageString_MarshalJSON scn ord) (MultiformatMessageString_MarshalJSON scn ord') MultiformatMessageString_small_bags \<and>
   same_output (ArtifactContent_MarshalJSON scn ord) (ArtifactContent_MarshalJSON scn ord') ArtifactContent_small_bags \<and>
   same_output (Artifact_MarshalJSON scn ord) (Artifact_MarshalJSON scn ord') Artifact_small_bags \<and>
   same_output (Region_MarshalJSON scn ord) (Region_MarshalJSON scn ord') Region_small_bags \<and>
   same_output (Replacement_MarshalJSON scn ord) (Replacement_MarshalJSON scn ord') Replacement_small_bags \<and>
   same_output (ArtifactChange_MarshalJSON scn ord) (ArtifactChange_MarshalJSON scn ord') ArtifactChange_small_bags \<and>
   same_output (Rectangle_MarshalJSON scn ord) (Rectangle_MarshalJSON scn ord') Rectangle_small_bags \<and>
   same_output (Attachment_MarshalJSON scn ord) (Attachment_MarshalJSON scn ord') Attachment_small_bags \<and>
   same_output (ToolComponentReference_MarshalJSON scn ord) (ToolComponentReference_MarshalJSON scn ord') ToolComponentReference_small_bags \<and>
   same_output (ReportingDescriptorReference_MarshalJSON scn ord) (ReportingDescriptorReference_MarshalJSON scn ord') ReportingDescriptorReference_small_bags \<and>
   same_output (PhysicalLocation_MarshalJSON scn ord) (PhysicalLocation_MarshalJSON scn ord') PhysicalLocation_small_bags \<and>
   same_output (LocationRelationship_MarshalJSON scn ord) (LocationRelationship_MarshalJSON scn ord') LocationRelationship_small_bags \<and>
   same_output (LogicalLocation_MarshalJSON scn ord) (LogicalLocation_MarshalJSON scn ord') LogicalLocation_small_bags \<and>
   same_output (Location_MarshalJSON scn ord) (Location_MarshalJSON scn ord') Location_small_bags \<and>
   same_output (StackFrame_MarshalJSON scn ord) (StackFrame_MarshalJSON scn ord') StackFrame_small_bags \<and>
   same_output (Stack_MarshalJSON scn ord) (Stack_MarshalJSON scn ord') Stack_small_bags \<and>
   same_output (WebRequest_MarshalJSON scn ord) (WebRequest_MarshalJSON scn ord') WebRequest_small_bags \<and>
   same_output (WebResponse_MarshalJSON scn ord) (WebResponse_MarshalJSON scn ord') WebResponse_small_bags \<and>
   same_output (ThreadFlowLocation_MarshalJSON scn ord) (ThreadFlowLocation_MarshalJSON scn ord') ThreadFlowLocation_small_bags \<and>
   same_output (ThreadFlow_MarshalJSON scn ord) (ThreadFlow_MarshalJSON scn ord') ThreadFlow_small_bags \<and>
   same_output (CodeFlow_MarshalJSON scn ord) (CodeFlow_MarshalJSON scn ord') CodeFlow_small_bags \<and>
   same_output (ReportingConfiguration_MarshalJSON scn ord) (ReportingConfiguration_MarshalJSON scn ord') ReportingConfiguration_small_bags \<and>
   same_output (ConfigurationOverride_MarshalJSON scn ord) (ConfigurationOverride_MarshalJSON scn ord') ConfigurationOverride_small_bags \<and>
   same_output (TranslationMetadata_MarshalJSON scn ord) (TranslationMetadata_MarshalJSON scn ord') TranslationMetadata_small_bags \<and>
   same_output (ReportingDescriptorRelationship_MarshalJSON scn ord) (ReportingDescriptorRelationship_MarshalJSON scn ord') ReportingDescriptorRelationship_small_bags \<and>
   same_output (ReportingDescriptor_MarshalJSON scn ord) (ReportingDescriptor_MarshalJSON scn ord') ReportingDescriptor_small_bags \<and>
   same_output (ToolComponent_MarshalJSON scn ord) (ToolComponent_MarshalJSON scn ord') ToolComponent_small_bags \<and>
   same_output (Tool_MarshalJSON scn ord) (Tool_MarshalJSON scn ord') Tool_small_bags \<and>
   same_output (Exception_MarshalJSON scn ord) (Exception_MarshalJSON scn ord') Exception_small_bags \<and>
   same_output (Notification_MarshalJSON scn ord) (Notification_MarshalJSON scn ord') Notification_small_bags \<and>
   same_output (Invocation_MarshalJSON scn ord) (Invocation_MarshalJSON scn ord') Invocation_small_bags \<and>
   same_output (Conversion_MarshalJSON scn ord) (Conversion_MarshalJSON scn ord') Conversion_small_bags \<and>
   same_output (Edge_MarshalJSON scn ord) (Edge_MarshalJSON scn ord') Edge_small_bags \<and>
   same_output (EdgeTraversal_MarshalJSON scn ord) (EdgeTraversal_MarshalJSON scn ord') EdgeTraversal_small_bags \<and>
   same_output (ResultProvenance_MarshalJSON scn ord) (ResultProvenance_MarshalJSON scn ord') ResultProvenance_small_bags \<and>
   same_output (Fix_MarshalJSON scn ord) (Fix_MarshalJSON scn ord') Fix_small_bags \<and>
   same_output (GraphTraversal_MarshalJSON scn ord) (GraphTraversal_MarshalJSON scn ord') GraphTraversal_small_bags \<and>
   same_output (Suppression_MarshalJSON scn ord) (Suppression_MarshalJSON scn ord') Suppression_small_bags \<and>
   same_output (Node_MarshalJSON scn ord) (Node_MarshalJSON scn ord') Node_small_bags \<and>
   same_output (Graph_MarshalJSON scn ord) (Graph_MarshalJSON scn ord') Graph_small_bags \<and>
   same_output (Result_MarshalJSON scn ord) (Result_MarshalJSON scn ord') Result_small_bags \<and>
   same_output (ExternalProperties_MarshalJSON scn ord) (ExternalProperties_MarshalJSON scn ord') ExternalProperties_small_bags \<and>
   same_output (ExternalPropertyFileReference_MarshalJSON scn ord) (ExternalPropertyFileReference_MarshalJSON scn ord') ExternalPropertyFileReference_small_bags \<and>
   same_output (ExternalPropertyFileReferences_MarshalJSON scn ord) (ExternalPropertyFileReferences_MarshalJSON scn ord') ExternalPropertyFileReferences_small_bags \<and>
   same_output (SpecialLocations_MarshalJSON scn ord) (SpecialLocations_MarshalJSON scn ord') SpecialLocations_small_bags \<and>
   same_output (RunAutomationDetails_MarshalJSON scn ord) (RunAutomationDetails_MarshalJSON scn ord') RunAutomationDetails_small_bags \<and>
   same_output (VersionControlDetails_MarshalJSON scn ord) (VersionControlDetails_MarshalJSON scn ord') VersionControlDetails_small_bags \<and>
   same_output (Run_MarshalJSON scn ord) (Run_MarshalJSON scn ord') Run_small_bags \<and>
   same_output (SARIF_MarshalJSON scn ord) (SARIF_MarshalJSON scn ord') SARIF_small_bags"
  apply (intro conjI impI)
  apply (rule Address_writes_keys)
  apply (rule Message_writes_keys)
  apply (rule ArtifactLocation_writes_keys)
  apply (rule MultiformatMessageString_writes_keys)
  apply (rule ArtifactContent_writes_keys)
  apply (rule Artifact_writes_keys)
  apply (rule Region_writes_keys)
  apply (rule Replacement_writes_keys)
  apply (rule ArtifactChange_writes_keys)
  apply (rule Rectangle_writes_keys)
  apply (rule Attachment_writes_keys)
  apply (rule ToolComponentReference_writes_keys)
  apply (rule ReportingDescriptorReference_writes_keys)
  apply (rule PhysicalLocation_writes_keys)
  apply (rule LocationRelationship_writes_keys)
  apply (rule LogicalLocation_writes_keys)
  apply (rule Location_writes_keys)
  apply (rule StackFrame_writes_keys)
  apply (rule Stack_writes_keys)
  apply (rule WebRequest_writes_keys)
  apply (rule WebResponse_writes_keys)
  apply (rule ThreadFlowLocation_writes_keys)
  apply (rule ThreadFlow_writes_keys)
  apply (rule CodeFlow_writes_keys)
  apply (rule ReportingConfiguration_writes_keys)
  apply (rule ConfigurationOverride_writes_keys)
  apply (rule TranslationMetadata_writes_keys)
  apply (rule ReportingDescriptorRelationship_writes_keys)
  apply (rule ReportingDescriptor_writes_keys)
  apply (rule ToolComponent_writes_keys)
  apply (rule Tool_writes_keys)
  apply (rule Exception_writes_keys)
  apply (rule Notification_writes_keys)
  apply (rule Invocation_writes_keys)
  apply (rule Conversion_writes_keys)
  apply (rule Edge_writes_keys)
  apply (rule EdgeTraversal_writes_keys)
  apply (rule ResultProvenance_writes_keys)
  apply (rule Fix_writes_keys)
  apply (rule GraphTraversal_writes_keys)
  apply (rule Suppression_writes_keys)
  apply (rule Node_writes_keys)
  apply (rule Graph_writes_keys)
  apply (rule Result_writes_keys)
  apply (rule ExternalProperties_writes_keys)
  apply (rule ExternalPropertyFileReference_writes_keys)
  apply (rule ExternalPropertyFileReferences_writes_keys)
  apply (rule SpecialLocations_writes_keys)
  apply (rule RunAutomationDetails_writes_keys)
  apply (rule VersionControlDetails_writes_keys)
  apply (rule Run_writes_keys)
  apply (rule SARIF_writes_keys)
  apply (erule PropertyBag_MarshalJSON_writable)
  apply (erule plain_written)
  apply (rule PropertyBag_written_keys)
  apply (rule PropertyBag_same_output)
  apply (rule Address_same_output)
  apply (rule Message_same_output)
  apply (rule ArtifactLocation_same_output)
  apply (rule MultiformatMessageString_same_output)
  apply (rule ArtifactContent_same_output)
  apply (rule Artifact_same_output)
  apply (rule Region_same_output)
  apply (rule Replacement_same_output)
  apply (rule ArtifactChange_same_output)
  apply (rule Rectangle_same_output)
  apply (rule Attachment_same_output)
  apply (rule ToolComponentReference_same_output)
  apply (rule ReportingDescriptorReference_same_output)
  apply (rule PhysicalLocation_same_output)
  apply (rule LocationRelationship_same_output)
  apply (rule LogicalLocation_same_output)
  apply (rule Location_same_output)
  apply (rule StackFrame_same_output)
  apply (rule Stack_same_output)
  apply (rule WebRequest_same_output)
  apply (rule WebResponse_same_output)
  apply (rule ThreadFlowLocation_same_output)
  apply (rule ThreadFlow_same_output)
  apply (rule CodeFlow_same_output)
  apply (rule ReportingConfiguration_same_output)
  apply (rule ConfigurationOverride_same_output)
  apply (rule TranslationMetadata_same_output)
  apply (rule ReportingDescriptorRelationship_same_output)
  apply (rule ReportingDescriptor_same_output)
  apply (rule ToolComponent_same_output)
  apply (rule Tool_same_output)
  apply (rule Exception_same_output)
  apply (rule Notification_same_output)
  apply (rule Invocation_same_output)
  apply (rule Conversion_same_output)
  apply (rule Edge_same_output)
  apply (rule EdgeTraversal_same_output)
  apply (rule ResultProvenance_same_output)
  apply (rule Fix_same_output)
  apply (rule GraphTraversal_same_output)
  apply (rule Suppression_same_output)
  apply (rule Node_same_output)
  apply (rule Graph_same_output)
  apply (rule Result_same_output)
  apply (rule ExternalProperties_same_output)
  apply (rule ExternalPropertyFileReference_same_output)
  apply (rule ExternalPropertyFileReferences_same_output)
  apply (rule SpecialLocations_same_output)
  apply (rule RunAutomationDetails_same_output)
  apply (rule VersionControlDetails_same_output)
  apply (rule Run_same_output)
  apply (rule SARIF_same_output)
  done

theorem C8_members_written_witness:
  "(\<exists>kvs. SARIF_MarshalJSON refuse [] SARIF_zero = Inr (JObj kvs) \<and>
      map fst kvs = [''inlineExternalProperties'', ''properties'', ''runs'', ''$schema'', ''version'']) \<and>
   SARIF_small_bags SARIF_zero \<and>
   SARIF_MarshalJSON refuse [''customX'', ''customY''] SARIF_zero =
     SARIF_MarshalJSON refuse [''customY'', ''customX''] SARIF_zero \<and>
   PropertyBag_writable C8_bag \<and> PropertyBag_plain C8_bag \<and>
   PropertyBag_MarshalJSON refuse [] C8_bag = Inr (Some (JObj (PropertyBag_written [] C8_bag)))"
proof -
  have j: "SARIF_MarshalJSON refuse [] SARIF_zero =
     Inr (JObj [(''inlineExternalProperties'', JNull), (''properties'', JNull), (''runs'', JNull),
                (''$schema'', JStr []), (''version'', JStr [])])"
    by (simp add: SARIF_MarshalJSON_def SARIF_zero_def object_def emit_def json_Marshal_slice_def
        json_Marshal_ptr_def json_Marshal_bytes_def json_Marshal_string_def)
  have s: "SARIF_small_bags SARIF_zero"
    by (simp add: SARIF_small_bags_def SARIF_zero_def ptr_all_def slice_all_def)
  have w: "PropertyBag_writable C8_bag"
    by (simp add: PropertyBag_writable_def C8_bag_def entries_def finite64_def)
  have p: "PropertyBag_plain C8_bag"
    by (simp add: PropertyBag_plain_def C8_bag_def entries_def plain_key_def)
  note c = C8_members_written [where scn = refuse and ord = "[]" and ord' = "[]" and bag = C8_bag]
  from c have "writes_keys (SARIF_MarshalJSON refuse []) SARIF_keys"
    by (elim conjE)
  from this [unfolded writes_keys_def, rule_format, OF j]
  have "\<exists>kvs. SARIF_MarshalJSON refuse [] SARIF_zero = Inr (JObj kvs) \<and>
      map fst kvs = [''inlineExternalProperties'', ''properties'', ''runs'', ''$schema'', ''version'']"
    by (simp add: j SARIF_keys_def)
  moreover from C8_members_written [where scn = refuse and ord = "[''customX'', ''customY'']"
      and ord' = "[''customY'', ''customX'']" and bag = C8_bag]
  have "same_output (SARIF_MarshalJSON refuse [''customX'', ''customY''])
      (SARIF_MarshalJSON refuse [''customY'', ''customX'']) SARIF_small_bags"
    by (elim conjE)
  from same_outputD [OF this s]
  have "SARIF_MarshalJSON refuse [''customX'', ''customY''] SARIF_zero =
     SARIF_MarshalJSON refuse [''customY'', ''customX''] SARIF_zero" .
  moreover from c have "PropertyBag_writable C8_bag \<longrightarrow>
      PropertyBag_MarshalJSON refuse [] C8_bag = Inr (bytes_as_json refuse (PropertyBag_written [] C8_bag))"
    by (elim conjE)
  moreover from c have "PropertyBag_plain C8_bag \<longrightarrow>
      bytes_as_json refuse (PropertyBag_written [] C8_bag) = Some (JObj (PropertyBag_written [] C8_bag))"
    by (elim conjE)
  ultimately show ?thesis using s w p by simp
qed

subsection \<open>C9: a required key with the value \<^verbatim>\<open>null\<close>\<close>



subsection \<open>C10: the value of \<^verbatim>\<open>version\<close>\<close>

text \<open>
  Claim C10 (implicit). The value of \<^verbatim>\<open>version\<close> is not checked: when a root object is
  decoded, the object with any string under the key \<^verbatim>\<open>version\<close> is decoded too, and the
  string is the \<^verbatim>\<open>Version\<close> of the result.
\<close>

theorem C10_any_version:
  "takes (SARIF_UnmarshalJSON ord) ''version'' (JStr s) (\<lambda>strct. strct\<lparr>SARIF.Version := s\<rparr>)"
  by (rule takesI [where D = "SARIF_decodes ord"])
     (rule SARIF_decode_iff, erule SARIF_set_Version, simp add: json_Unmarshal_string_def)

theorem C10_any_version_witness:
  "SARIF_UnmarshalJSON []
     (JObj [(''runs'', JArr [JObj [(''tool'', JObj [(''driver'', JObj [(''name'', JStr ''Analyzer'')])])]]),
            (''version'', JStr ''9.9.9'')]) =
     Inr (SARIF_zero\<lparr>SARIF.Runs := Some [Some (Run_zero\<lparr>Run.Tool := Some (Tool_zero\<lparr>Tool.Driver :=
       Some (ToolComponent_zero\<lparr>ToolComponent.Name := ''Analyzer''\<rparr>)\<rparr>)\<rparr>)],
       SARIF.Version := ''9.9.9''\<rparr>)"
  using C10_any_version [of "[]" "''9.9.9''", unfolded takes_def, rule_format,
      OF SARIF_minimal [of "[]"]]
  by (simp add: with_member_def removed_def)

end
